(* ===== verification/Prelude.thy ===== *)
theory Prelude
  imports Complex_Main
begin

text \<open>
  Shared vocabulary of the development: the result type of fallible Go functions, the Go
  values that travel through \<open>map[string]any\<close>, the string functions of Go's \<open>strings\<close>
  package that the source uses, and generic lemmas on lists that several components need.

  Conventions.  A Go \<open>string\<close> is its list of bytes (\<open>string\<close>).  A \<open>uuid.UUID\<close> is
  its canonical text, so \<open>id.String()\<close> is the identity and \<open>uuid.Nil\<close> is the all-zero
  text.  A \<open>time.Time\<close> is an \<open>int\<close> (nanoseconds) and the zero time is \<open>0\<close>.
  An \<open>error\<close> is a value of \<open>err\<close>: the sentinel errors that callers compare with
  \<open>errors.Is\<close> have constructors of their own, every other error carries its fixed text.
\<close>

named_theorems res_simps \<open>inversion of the error monad\<close>
named_theorems go_simps \<open>Go string and value helpers\<close>

type_synonym uuid = string
type_synonym time = int
type_synonym duration = int

definition uuid_Nil :: uuid where
  "uuid_Nil = ''00000000-0000-0000-0000-000000000000''"

definition zero_time :: time where
  "zero_time = 0"

section \<open>Errors and results\<close>

datatype err =
    ErrStaleTransition
  | ErrMissingEvidence
  | ErrStaleArtifact
  | ErrIdempotencyConflict
  | ErrRecordNotFound
  | ErrUniqueConstraint
  | ErrMsg string

text \<open>\<open>res_bind m f\<close> is the pattern \<open>x, err := m; if err != nil { return err }; f x\<close>,
  and \<open>check c e\<close> is \<open>if !c { return e }\<close>.\<close>

definition res_bind :: "'e + 'a \<Rightarrow> ('a \<Rightarrow> 'e + 'b) \<Rightarrow> 'e + 'b" where
  "res_bind m f = (case m of Inl e \<Rightarrow> Inl e | Inr x \<Rightarrow> f x)"

definition check :: "bool \<Rightarrow> 'e \<Rightarrow> 'e + unit" where
  "check c e = (if c then Inr () else Inl e)"

lemma res_bind_simps [simp]:
  "res_bind (Inl e) f = Inl e"
  "res_bind (Inr x) f = f x"
  by (simp_all add: res_bind_def)

lemma res_bind_Inr [res_simps]:
  "res_bind m f = Inr y \<longleftrightarrow> (\<exists>x. m = Inr x \<and> f x = Inr y)"
  by (cases m) auto

lemma res_bind_Inl [res_simps]:
  "res_bind m f = Inl e \<longleftrightarrow> m = Inl e \<or> (\<exists>x. m = Inr x \<and> f x = Inl e)"
  by (cases m) auto

lemma check_Inr [res_simps]: "check c e = Inr u \<longleftrightarrow> c"
  by (simp add: check_def)

lemma check_Inl [res_simps]: "check c e = Inl e' \<longleftrightarrow> \<not> c \<and> e' = e"
  by (auto simp: check_def)

lemma check_True [simp]: "check True e = Inr ()"
  by (simp add: check_def)

lemma check_False [simp]: "check False e = Inl e"
  by (simp add: check_def)

text \<open>A guard \<open>if c { return err }\<close> in front of \<open>m\<close>.\<close>

lemma guard_Inr [res_simps]: "(if c then Inl e else m) = Inr x \<longleftrightarrow> \<not> c \<and> m = Inr x"
  by simp

lemma guard_Inl [res_simps]:
  "(if c then Inl e else m) = Inl e' \<longleftrightarrow> (if c then e = e' else m = Inl e')"
  by simp

text \<open>\<open>errors.Is(err, target)\<close> for a lookup: a missing row becomes an error.\<close>

definition of_option :: "'e \<Rightarrow> 'a option \<Rightarrow> 'e + 'a" where
  "of_option e m = (case m of None \<Rightarrow> Inl e | Some x \<Rightarrow> Inr x)"

lemma of_option_Inr [res_simps]: "of_option e m = Inr x \<longleftrightarrow> m = Some x"
  by (auto simp: of_option_def split: option.splits)

lemma of_option_Inl [res_simps]: "of_option e m = Inl e' \<longleftrightarrow> m = None \<and> e' = e"
  by (auto simp: of_option_def split: option.splits)

lemma of_option_simps [simp]: "of_option e None = Inl e" "of_option e (Some x) = Inr x"
  by (simp_all add: of_option_def)

section \<open>Values of type any\<close>

text \<open>The dynamic types that the source stores in \<open>map[string]any\<close>.  \<open>GTime t\<close> is the
  string \<open>t.Format(time.RFC3339Nano)\<close>.  Numbers decoded from JSON are \<open>float64\<close>; they
  are kept as rationals.\<close>

datatype gany =
    GNil
  | GBool bool
  | GInt int
  | GFloat rat
  | GStr string
  | GTime time
  | GStrs "string list"
  | GList "gany list"
  | GMap "(string \<times> gany) list"

text \<open>\<open>model.JSONField\<close>: \<open>None\<close> is the nil map.\<close>

type_synonym json_field = "(string \<Rightarrow> gany option) option"

definition json_get :: "json_field \<Rightarrow> string \<Rightarrow> gany option" where
  "json_get j k = (case j of None \<Rightarrow> None | Some m \<Rightarrow> m k)"

text \<open>\<open>if task.Context == nil { task.Context = make(model.JSONField) }; task.Context[k] = v\<close>\<close>

definition json_put :: "string \<Rightarrow> gany \<Rightarrow> json_field \<Rightarrow> json_field" where
  "json_put k v j = (case j of None \<Rightarrow> Some [k \<mapsto> v] | Some m \<Rightarrow> Some (m(k \<mapsto> v)))"

definition json_del :: "string \<Rightarrow> json_field \<Rightarrow> json_field" where
  "json_del k j = (case j of None \<Rightarrow> None | Some m \<Rightarrow> Some (m(k := None)))"

lemma json_get_put [simp]: "json_get (json_put k v j) k' = (if k' = k then Some v else json_get j k')"
  by (auto simp: json_get_def json_put_def split: option.splits)

lemma json_get_del [simp]: "json_get (json_del k j) k' = (if k' = k then None else json_get j k')"
  by (auto simp: json_get_def json_del_def split: option.splits)

text \<open>Update of a nested map: the binding of \<open>k\<close> is replaced or appended.\<close>

fun gmap_put :: "string \<Rightarrow> gany \<Rightarrow> (string \<times> gany) list \<Rightarrow> (string \<times> gany) list" where
  "gmap_put k v [] = [(k, v)]"
| "gmap_put k v ((k', v') # m) = (if k' = k then (k, v) # m else (k', v') # gmap_put k v m)"

lemma map_of_gmap_put [simp]: "map_of (gmap_put k v m) k' = (if k' = k then Some v else map_of m k')"
  by (induction m) auto

section \<open>Go strings\<close>

text \<open>White space of \<open>strings.TrimSpace\<close> in the ASCII range.\<close>

definition is_space :: "char \<Rightarrow> bool" where
  "is_space c \<longleftrightarrow> c \<in> {CHR '' '', CHR 0x09, CHR 0x0A, CHR 0x0B, CHR 0x0C, CHR 0x0D}"

definition trim_space :: "string \<Rightarrow> string" where
  "trim_space s = rev (dropWhile is_space (rev (dropWhile is_space s)))"

definition has_prefix :: "string \<Rightarrow> string \<Rightarrow> bool" where
  "has_prefix p s \<longleftrightarrow> take (length p) s = p"

definition trim_prefix :: "string \<Rightarrow> string \<Rightarrow> string" where
  "trim_prefix p s = (if has_prefix p s then drop (length p) s else s)"

definition has_suffix :: "string \<Rightarrow> string \<Rightarrow> bool" where
  "has_suffix p s \<longleftrightarrow> has_prefix (rev p) (rev s)"

definition trim_suffix :: "string \<Rightarrow> string \<Rightarrow> string" where
  "trim_suffix p s = (if has_suffix p s then take (length s - length p) s else s)"

fun str_contains :: "string \<Rightarrow> string \<Rightarrow> bool" where
  "str_contains sub [] = (sub = [])"
| "str_contains sub (c # cs) = (has_prefix sub (c # cs) \<or> str_contains sub cs)"

text \<open>\<open>strings.ToLower\<close> on the ASCII letters.\<close>

definition lower_char :: "char \<Rightarrow> char" where
  "lower_char c = (let n = of_char c :: nat in if 65 \<le> n \<and> n \<le> 90 then char_of (n + 32) else c)"

definition to_lower :: "string \<Rightarrow> string" where
  "to_lower s = map lower_char s"

text \<open>\<open>strings.Split(s, sep)\<close> for a one-byte separator: always at least one part.\<close>

fun split_on :: "char \<Rightarrow> string \<Rightarrow> string list" where
  "split_on sep [] = [[]]"
| "split_on sep (c # cs) =
     (if c = sep then [] # split_on sep cs
      else case split_on sep cs of [] \<Rightarrow> [[c]] | p # ps \<Rightarrow> (c # p) # ps)"

fun str_join :: "string \<Rightarrow> string list \<Rightarrow> string" where
  "str_join sep [] = []"
| "str_join sep [s] = s"
| "str_join sep (s # t # ss) = s @ sep @ str_join sep (t # ss)"

definition replace_char :: "char \<Rightarrow> char \<Rightarrow> string \<Rightarrow> string" where
  "replace_char a b s = map (\<lambda>c. if c = a then b else c) s"

definition is_hex :: "char \<Rightarrow> bool" where
  "is_hex c = (let n = of_char c :: nat in
     (48 \<le> n \<and> n \<le> 57) \<or> (65 \<le> n \<and> n \<le> 70) \<or> (97 \<le> n \<and> n \<le> 102))"

text \<open>\<open>strconv.Itoa\<close> and the verb \<open>%d\<close>.\<close>

fun show_nat :: "nat \<Rightarrow> string" where
  "show_nat n = (if n < 10 then [char_of (48 + n)] else show_nat (n div 10) @ [char_of (48 + n mod 10)])"

definition show_int :: "int \<Rightarrow> string" where
  "show_int i = (if i < 0 then CHR ''-'' # show_nat (nat (- i)) else show_nat (nat i))"

declare show_nat.simps [simp del]

text \<open>The conversion \<open>int(f)\<close> of a float: truncation towards zero.\<close>

definition trunc_rat :: "rat \<Rightarrow> int" where
  "trunc_rat q = (if q < 0 then \<lceil>q\<rceil> else \<lfloor>q\<rfloor>)"

lemma dropWhile_fixpoint: "\<not> P (hd (dropWhile P xs)) \<or> dropWhile P xs = []"
  by (metis hd_dropWhile)

lemma trim_space_Nil [simp]: "trim_space [] = []"
  by (simp add: trim_space_def)

lemma split_on_nonempty [simp]: "split_on sep s \<noteq> []"
  by (induction s) (auto split: list.splits)

lemma has_prefix_append [simp]: "has_prefix p (p @ s)"
  by (simp add: has_prefix_def)

lemma has_prefix_iff: "has_prefix p s \<longleftrightarrow> (\<exists>r. s = p @ r)"
  by (metis append_eq_conv_conj append_take_drop_id has_prefix_def)

lemma split_on_append_sep: "split_on c (a @ c # b) = split_on c a @ split_on c b"
  by (induction a) (auto split: list.splits)

lemma split_on_no_sep: "p \<in> set (split_on c s) \<Longrightarrow> c \<notin> set p"
  by (induction s arbitrary: p) (auto split: list.splits if_splits)

lemma split_on_whole: "c \<notin> set p \<Longrightarrow> split_on c p = [p]"
  by (induction p) auto

lemma str_join_Cons: "ps \<noteq> [] \<Longrightarrow> str_join sep (p # ps) = p @ sep @ str_join sep ps"
  by (cases ps) auto

lemma str_join_split [simp]: "str_join [c] (split_on c s) = s"
proof (induction s)
  case (Cons x s)
  then show ?case
    by (cases "split_on c s") (auto simp: str_join_Cons, cases "tl (split_on c s)", auto)
qed simp

lemma str_join_append:
  "\<lbrakk>ps \<noteq> []; qs \<noteq> []\<rbrakk> \<Longrightarrow> str_join sep (ps @ qs) = str_join sep ps @ sep @ str_join sep qs"
proof (induction ps)
  case (Cons p ps)
  then show ?case by (cases "ps = []") (simp_all add: str_join_Cons)
qed simp

lemma split_join:
  "\<lbrakk>ps \<noteq> []; \<And>p. p \<in> set ps \<Longrightarrow> c \<notin> set p\<rbrakk> \<Longrightarrow> split_on c (str_join [c] ps) = ps"
proof (induction ps)
  case (Cons p ps)
  then show ?case
    by (cases "ps = []") (simp_all add: split_on_whole str_join_Cons split_on_append_sep)
qed simp

section \<open>Lists\<close>

text \<open>\<open>find_first P xs\<close>: the first element a \<open>for ... { if P(x) { return x } }\<close> loop meets.\<close>

lemma find_Some_set: "List.find P xs = Some x \<Longrightarrow> x \<in> set xs \<and> P x"
  by (metis find_Some_iff nth_mem)

lemma find_None_iff_set: "List.find P xs = None \<longleftrightarrow> (\<forall>x \<in> set xs. \<not> P x)"
  by (auto simp: find_None_iff)

lemma filter_length_mono: "(\<And>x. P x \<Longrightarrow> Q x) \<Longrightarrow> length (filter P xs) \<le> length (filter Q xs)"
  by (induction xs) auto

text \<open>Rows with different keys.\<close>

lemma key_eq: "distinct (map f xs) \<Longrightarrow> x \<in> set xs \<Longrightarrow> y \<in> set xs \<Longrightarrow> f x = f y \<Longrightarrow> x = y"
  by (auto simp: distinct_map dest: inj_onD)

lemma one_row: "distinct (map f xs) \<Longrightarrow> x \<in> set xs \<Longrightarrow> length (filter (\<lambda>r. f r = f x) xs) = Suc 0"
  by (induction xs) (auto simp: filter_empty_conv image_iff)

end
