(* ===== verification/Model.thy ===== *)
theory Model
  imports Prelude
begin

text \<open>
  The data model of \<open>internal/model\<close>: the closed string enumerations with their parsers
  (\<open>enums.go\<close>, \<open>delivery.go\<close>) and the database rows (\<open>models.go\<close>) that the task state
  machine and the delivery protocol read and write.

  A Go enumeration is a \<open>string\<close> type with constants.  It is a datatype with one constructor
  per constant; the types whose invalid values the code handles (\<open>TaskStatus\<close>, the rework
  mode, the gate outcome and the verification result) have one more, for a text that is none of
  the constants.  The zero value \<open>""\<close> is, for example, \<open>StatusOther []\<close>.
\<close>

section \<open>Enumerations\<close>

datatype task_status =
    StatusClassifying | StatusBacklog | StatusPlanning | StatusNeedsClarification
  | StatusPlanReview | StatusTestWriting | StatusTestReview | StatusInProgress
  | StatusTestingReady | StatusVerificationReady | StatusHostRework | StatusIntegrationReady
  | StatusMerging | StatusPaused | StatusDone | StatusFailed | StatusRejected | StatusCancelled
  | StatusOther string

fun task_status_string :: "task_status \<Rightarrow> string" where
  "task_status_string StatusClassifying = ''classifying''"
| "task_status_string StatusBacklog = ''backlog''"
| "task_status_string StatusPlanning = ''planning''"
| "task_status_string StatusNeedsClarification = ''needs_clarification''"
| "task_status_string StatusPlanReview = ''plan_review''"
| "task_status_string StatusTestWriting = ''test_writing''"
| "task_status_string StatusTestReview = ''test_review''"
| "task_status_string StatusInProgress = ''in_progress''"
| "task_status_string StatusTestingReady = ''testing_ready''"
| "task_status_string StatusVerificationReady = ''verification_ready''"
| "task_status_string StatusHostRework = ''host_rework''"
| "task_status_string StatusIntegrationReady = ''integration_ready''"
| "task_status_string StatusMerging = ''merging''"
| "task_status_string StatusPaused = ''paused''"
| "task_status_string StatusDone = ''done''"
| "task_status_string StatusFailed = ''failed''"
| "task_status_string StatusRejected = ''rejected''"
| "task_status_string StatusCancelled = ''cancelled''"
| "task_status_string (StatusOther s) = s"

definition all_task_statuses :: "task_status list" where
  "all_task_statuses =
     [StatusClassifying, StatusBacklog, StatusPlanning, StatusNeedsClarification,
      StatusPlanReview, StatusTestWriting, StatusTestReview, StatusInProgress,
      StatusTestingReady, StatusVerificationReady, StatusHostRework, StatusIntegrationReady,
      StatusMerging, StatusPaused, StatusDone, StatusFailed, StatusRejected, StatusCancelled]"

fun is_actionable :: "task_status \<Rightarrow> bool" where
  "is_actionable s \<longleftrightarrow> s \<in> {StatusClassifying, StatusBacklog, StatusPlanning, StatusInProgress,
     StatusTestWriting, StatusTestingReady, StatusIntegrationReady, StatusMerging}"

fun is_approval_gate :: "task_status \<Rightarrow> bool" where
  "is_approval_gate s \<longleftrightarrow> s \<in> {StatusPlanReview, StatusTestReview, StatusVerificationReady,
     StatusNeedsClarification}"

text \<open>The loop \<open>for _, x := range all { if string(x) == s { return x, nil } }\<close> of every
  parser.\<close>

definition parse_enum :: "('a \<Rightarrow> string) \<Rightarrow> 'a list \<Rightarrow> string \<Rightarrow> string \<Rightarrow> err + 'a" where
  "parse_enum str all msg s =
     (case List.find (\<lambda>x. str x = s) all of Some x \<Rightarrow> Inr x | None \<Rightarrow> Inl (ErrMsg msg))"

definition parse_task_status :: "string \<Rightarrow> err + task_status" where
  "parse_task_status s = parse_enum task_status_string all_task_statuses ''unknown task status'' s"

text \<open>The conversion \<open>model.TaskStatus(s)\<close>: no check, an unknown text is kept.\<close>

definition task_status_of :: "string \<Rightarrow> task_status" where
  "task_status_of s =
     (case List.find (\<lambda>x. task_status_string x = s) all_task_statuses of
        Some x \<Rightarrow> x | None \<Rightarrow> StatusOther s)"

datatype delivery_rework_mode =
  DeliveryReworkOrchestrated | DeliveryReworkHostDirect | DeliveryReworkOther string

datatype host_rework_disposition =
  HostReworkActive | HostReworkSubmitted | HostReworkOrchestrated | HostReworkCancelled

datatype task_category = CategoryStandard | CategoryQuickFix

fun task_category_string :: "task_category \<Rightarrow> string" where
  "task_category_string CategoryStandard = ''standard''"
| "task_category_string CategoryQuickFix = ''quickfix''"

definition all_task_categories :: "task_category list" where
  "all_task_categories = [CategoryStandard, CategoryQuickFix]"

definition parse_task_category :: "string \<Rightarrow> err + task_category" where
  "parse_task_category s =
     parse_enum task_category_string all_task_categories ''unknown task category'' s"

definition is_quick_fix :: "task_category \<Rightarrow> bool" where
  "is_quick_fix c \<longleftrightarrow> c = CategoryQuickFix"

datatype agent_type =
    AgentOrchestrator | AgentPlanner | AgentCoder | AgentResearcher | AgentReviewer
  | AgentFixer | AgentClassifier | AgentPrep | AgentMerger

fun agent_type_string :: "agent_type \<Rightarrow> string" where
  "agent_type_string AgentOrchestrator = ''orchestrator''"
| "agent_type_string AgentPlanner = ''planner''"
| "agent_type_string AgentCoder = ''coder''"
| "agent_type_string AgentResearcher = ''researcher''"
| "agent_type_string AgentReviewer = ''reviewer''"
| "agent_type_string AgentFixer = ''fixer''"
| "agent_type_string AgentClassifier = ''classifier''"
| "agent_type_string AgentPrep = ''prep''"
| "agent_type_string AgentMerger = ''merger''"

definition all_agent_types :: "agent_type list" where
  "all_agent_types = [AgentOrchestrator, AgentPlanner, AgentCoder, AgentResearcher,
     AgentReviewer, AgentFixer, AgentClassifier, AgentPrep, AgentMerger]"

definition parse_agent_type :: "string \<Rightarrow> err + agent_type" where
  "parse_agent_type s = parse_enum agent_type_string all_agent_types ''unknown agent type'' s"

datatype preliminary_gate_outcome =
    PreliminaryGatePassed | PreliminaryGateCodeFailure | PreliminaryGateInfraFailure
  | PreliminaryGateConfiguration | PreliminaryGateTimeout | PreliminaryGateCancelled
  | PreliminaryGateOther string

fun preliminary_gate_outcome_string :: "preliminary_gate_outcome \<Rightarrow> string" where
  "preliminary_gate_outcome_string PreliminaryGatePassed = ''pass''"
| "preliminary_gate_outcome_string PreliminaryGateCodeFailure = ''code''"
| "preliminary_gate_outcome_string PreliminaryGateInfraFailure = ''infra''"
| "preliminary_gate_outcome_string PreliminaryGateConfiguration = ''configuration''"
| "preliminary_gate_outcome_string PreliminaryGateTimeout = ''timeout''"
| "preliminary_gate_outcome_string PreliminaryGateCancelled = ''cancelled''"
| "preliminary_gate_outcome_string (PreliminaryGateOther s) = s"

definition all_gate_outcomes :: "preliminary_gate_outcome list" where
  "all_gate_outcomes = [PreliminaryGatePassed, PreliminaryGateCodeFailure,
     PreliminaryGateInfraFailure, PreliminaryGateConfiguration, PreliminaryGateTimeout,
     PreliminaryGateCancelled]"

definition parse_preliminary_gate_outcome :: "string \<Rightarrow> err + preliminary_gate_outcome" where
  "parse_preliminary_gate_outcome s = parse_enum preliminary_gate_outcome_string
     all_gate_outcomes ''unknown preliminary gate outcome'' s"

datatype verification_result = VerificationPassed | VerificationFailed | VerificationOther string

fun verification_result_string :: "verification_result \<Rightarrow> string" where
  "verification_result_string VerificationPassed = ''pass''"
| "verification_result_string VerificationFailed = ''fail''"
| "verification_result_string (VerificationOther s) = s"

definition parse_verification_result :: "string \<Rightarrow> err + verification_result" where
  "parse_verification_result s = parse_enum verification_result_string
     [VerificationPassed, VerificationFailed] ''unknown verification result'' s"

datatype integration_policy = IntegrationPrepareBranch | IntegrationAutoMerge

fun integration_policy_string :: "integration_policy \<Rightarrow> string" where
  "integration_policy_string IntegrationPrepareBranch = ''prepare_branch''"
| "integration_policy_string IntegrationAutoMerge = ''auto_merge''"

definition parse_integration_policy :: "string \<Rightarrow> err + integration_policy" where
  "parse_integration_policy s = parse_enum integration_policy_string
     [IntegrationPrepareBranch, IntegrationAutoMerge] ''unknown integration policy'' s"

datatype verification_policy = VerificationExternalAck | VerificationLocalAutomated

fun verification_policy_string :: "verification_policy \<Rightarrow> string" where
  "verification_policy_string VerificationExternalAck = ''external_ack''"
| "verification_policy_string VerificationLocalAutomated = ''local_automated''"

definition parse_verification_policy :: "string \<Rightarrow> err + verification_policy" where
  "parse_verification_policy s = parse_enum verification_policy_string
     [VerificationExternalAck, VerificationLocalAutomated] ''unknown verification policy'' s"

datatype review_gate_policy = ReviewGateManual | ReviewGateSGLangSafeAuto

fun review_gate_policy_string :: "review_gate_policy \<Rightarrow> string" where
  "review_gate_policy_string ReviewGateManual = ''manual''"
| "review_gate_policy_string ReviewGateSGLangSafeAuto = ''sglang_safe_auto''"

definition parse_review_gate_policy :: "string \<Rightarrow> err + review_gate_policy" where
  "parse_review_gate_policy s = parse_enum review_gate_policy_string
     [ReviewGateManual, ReviewGateSGLangSafeAuto] ''unknown review gate policy'' s"

section \<open>The codec interface of the enumerations\<close>

text \<open>Every enumeration offers a printer, the list of its constants and a parser.  The laws:
  the constants have distinct texts and the parser is the shared lookup loop.\<close>

locale enum_codec =
  fixes str :: "'a \<Rightarrow> string"
    and all :: "'a list"
    and parse :: "string \<Rightarrow> err + 'a"
    and msg :: string
  assumes texts_distinct: "inj_on str (set all)"
    and parse_eq: "parse s = parse_enum str all msg s"
begin

lemma parse_print: "x \<in> set all \<Longrightarrow> parse (str x) = Inr x"
proof -
  assume x: "x \<in> set all"
  then obtain y where y: "List.find (\<lambda>y. str y = str x) all = Some y"
    by (cases "List.find (\<lambda>y. str y = str x) all") (auto simp: find_None_iff_set)
  from find_Some_set [OF y] x texts_distinct have "y = x" by (auto dest: inj_onD)
  with y show ?thesis by (simp add: parse_eq parse_enum_def)
qed

lemma print_parse: "parse s = Inr x \<Longrightarrow> str x = s \<and> x \<in> set all"
  by (auto simp: parse_eq parse_enum_def dest: find_Some_set split: option.splits)

lemma parse_error_iff: "parse s = Inl e \<longleftrightarrow> e = ErrMsg msg \<and> s \<notin> str ` set all"
  by (auto simp: parse_eq parse_enum_def find_None_iff_set split: option.splits
           dest!: find_Some_set)

lemma parse_iff: "parse s = Inr x \<longleftrightarrow> x \<in> set all \<and> str x = s"
  using parse_print print_parse by blast

end

lemmas enum_tables = all_task_statuses_def all_task_categories_def all_agent_types_def
  all_gate_outcomes_def

lemmas enum_parsers = parse_task_status_def parse_task_category_def parse_agent_type_def
  parse_preliminary_gate_outcome_def parse_verification_result_def parse_integration_policy_def
  parse_verification_policy_def parse_review_gate_policy_def

interpretation task_status_codec: enum_codec task_status_string all_task_statuses
  parse_task_status "''unknown task status''"
  by unfold_locales (simp_all add: enum_tables enum_parsers)

interpretation task_category_codec: enum_codec task_category_string all_task_categories
  parse_task_category "''unknown task category''"
  by unfold_locales (simp_all add: enum_tables enum_parsers)

interpretation agent_type_codec: enum_codec agent_type_string all_agent_types
  parse_agent_type "''unknown agent type''"
  by unfold_locales (simp_all add: enum_tables enum_parsers)

interpretation gate_outcome_codec: enum_codec preliminary_gate_outcome_string all_gate_outcomes
  parse_preliminary_gate_outcome "''unknown preliminary gate outcome''"
  by unfold_locales (simp_all add: enum_tables enum_parsers)

interpretation verification_result_codec: enum_codec verification_result_string
  "[VerificationPassed, VerificationFailed]" parse_verification_result
  "''unknown verification result''"
  by unfold_locales (simp_all add: enum_parsers)

interpretation integration_policy_codec: enum_codec integration_policy_string
  "[IntegrationPrepareBranch, IntegrationAutoMerge]" parse_integration_policy
  "''unknown integration policy''"
  by unfold_locales (simp_all add: enum_parsers)

interpretation verification_policy_codec: enum_codec verification_policy_string
  "[VerificationExternalAck, VerificationLocalAutomated]" parse_verification_policy
  "''unknown verification policy''"
  by unfold_locales (simp_all add: enum_parsers)

interpretation review_gate_policy_codec: enum_codec review_gate_policy_string
  "[ReviewGateManual, ReviewGateSGLangSafeAuto]" parse_review_gate_policy
  "''unknown review gate policy''"
  by unfold_locales (simp_all add: enum_parsers)

text \<open>Every parser of the enumerations is the exact inverse of its printer on the listed
  constants: a text is accepted precisely when it is the text of a listed constant, and it then
  denotes that constant; task statuses and gate outcomes that are not listed are rejected.\<close>

theorem enum_parsers_exact:
  "(parse_task_status s = Inr st \<longleftrightarrow> st \<in> set all_task_statuses \<and> task_status_string st = s)
   \<and> (parse_task_category s = Inr c \<longleftrightarrow> task_category_string c = s)
   \<and> (parse_agent_type s = Inr a \<longleftrightarrow> agent_type_string a = s)
   \<and> (parse_preliminary_gate_outcome s = Inr g
        \<longleftrightarrow> g \<in> set all_gate_outcomes \<and> preliminary_gate_outcome_string g = s)
   \<and> (parse_verification_result s = Inr r
        \<longleftrightarrow> r \<in> {VerificationPassed, VerificationFailed} \<and> verification_result_string r = s)
   \<and> (parse_integration_policy s = Inr ip \<longleftrightarrow> integration_policy_string ip = s)
   \<and> (parse_verification_policy s = Inr vp \<longleftrightarrow> verification_policy_string vp = s)
   \<and> (parse_review_gate_policy s = Inr rp \<longleftrightarrow> review_gate_policy_string rp = s)"
  unfolding task_status_codec.parse_iff task_category_codec.parse_iff agent_type_codec.parse_iff
    gate_outcome_codec.parse_iff verification_result_codec.parse_iff
    integration_policy_codec.parse_iff verification_policy_codec.parse_iff
    review_gate_policy_codec.parse_iff
  by (cases c; cases a; cases ip; cases vp; cases rp) (simp_all add: enum_tables)

end
