(* ===== verification/Rows.thy ===== *)
theory Rows
  imports Model
begin

text \<open>
  The database rows of \<open>internal/model/models.go\<close> that the task lifecycle and the delivery
  protocol use, one record per GORM model, with the columns in the source's order.  A nullable
  column is an \<open>option\<close>.  Association fields (\<open>Project\<close>, \<open>Subtasks\<close>, ...) are
  GORM preload targets, not columns, and are left out.  The command evidence column, which
  \<open>commandEvidenceField\<close> wraps as JSON and \<open>decodeCommandEvidence\<close> unwraps, holds the
  list of commands itself; likewise the JSON texts of interaction steps and references.
\<close>

record task =
  t_id :: uuid
  t_project :: uuid
  t_parent :: "uuid option"
  t_title :: string
  t_description :: string
  t_status :: task_status
  t_version :: nat
  t_category :: task_category
  t_priority :: int
  t_complexity :: int
  t_labels :: "string list"
  t_deps :: "string list"
  t_agent :: "uuid option"
  t_plan :: json_field
  t_plan_feedback :: string
  t_test_plan :: string
  t_test_feedback :: string
  t_branch :: string
  t_base_sha :: string
  t_pr_url :: string
  t_phase :: string
  t_tests_for :: "string list"
  t_tdd_exceptions :: json_field
  t_needs_human :: bool
  t_context :: json_field
  t_created :: time
  t_updated :: time

record task_event =
  te_id :: uuid
  te_task :: uuid
  te_type :: string
  te_old :: string
  te_new :: string
  te_details :: json_field
  te_actor :: string
  te_created :: time

text \<open>\<open>orchestrator.CommandEvidence\<close>, the element of the evidence columns.\<close>

record command_evidence =
  ce_command :: string
  ce_passed :: bool
  ce_exit_code :: int
  ce_output :: string
  ce_started :: time
  ce_finished :: time

record interaction_step =
  is_action :: string
  is_observed :: string

record interaction_evidence_ref =
  ir_artifact :: string
  ir_sha256 :: string
  ir_media_type :: string

record acceptance_criterion =
  ac_id :: uuid
  ac_task :: uuid
  ac_key :: string

record delivery_artifact =
  da_id :: uuid
  da_task :: uuid
  da_gate_run :: "uuid option"
  da_version :: nat
  da_branch :: string
  da_commit :: string
  da_base_branch :: string
  da_base :: string
  da_evidence :: "command_evidence list"
  da_creator_actor :: string
  da_creator_source :: string
  da_invalid_reason :: string
  da_invalidated :: "time option"
  da_created :: time

record preliminary_gate_run =
  gr_id :: uuid
  gr_task :: uuid
  gr_branch :: string
  gr_commit :: string
  gr_base_branch :: string
  gr_base :: string
  gr_workspace :: string
  gr_environment :: string
  gr_evidence :: "command_evidence list"
  gr_outcome :: preliminary_gate_outcome
  gr_actor :: string
  gr_source :: string
  gr_started :: time
  gr_finished :: time

record verification_record =
  vr_id :: uuid
  vr_task :: uuid
  vr_artifact :: uuid
  vr_version :: nat
  vr_commit :: string
  vr_actor :: string
  vr_environment :: string
  vr_evidence :: "command_evidence list"
  vr_binary :: string
  vr_result :: verification_result
  vr_notes :: string
  vr_key :: string
  vr_hash :: string
  vr_created :: time

record verification_interaction =
  vi_id :: uuid
  vi_task :: uuid
  vi_verification :: uuid
  vi_artifact :: uuid
  vi_criterion :: string
  vi_scenario :: string
  vi_steps :: "interaction_step list"
  vi_observed :: string
  vi_refs :: "interaction_evidence_ref list"
  vi_binary :: string
  vi_app_version :: string
  vi_host :: string
  vi_pid :: int
  vi_result :: verification_result
  vi_discrepancy :: string

record integration_authorization =
  ia_id :: uuid
  ia_task :: uuid
  ia_artifact :: uuid
  ia_verification :: uuid
  ia_version :: nat
  ia_commit :: string
  ia_base :: string
  ia_actor :: string
  ia_source :: string
  ia_key :: string
  ia_hash :: string
  ia_created :: time

record delivery_rework_record =
  rw_id :: uuid
  rw_task :: uuid
  rw_artifact :: uuid
  rw_version :: nat
  rw_commit :: string
  rw_actor :: string
  rw_source :: string
  rw_reason :: string
  rw_mode :: delivery_rework_mode
  rw_session :: "uuid option"
  rw_key :: string
  rw_hash :: string

record host_direct_attestation =
  at_criteria_unchanged :: bool
  at_dependency_unchanged :: bool
  at_no_persistence :: bool
  at_no_security :: bool
  at_no_cross_process :: bool
  at_no_build_policy :: bool

record host_rework_session =
  hs_id :: uuid
  hs_task :: uuid
  hs_artifact :: uuid
  hs_prior_version :: nat
  hs_prior_commit :: string
  hs_branch :: string
  hs_owner :: string
  hs_reason :: string
  hs_scope :: "string list"
  hs_attestation :: host_direct_attestation
  hs_start_key :: string
  hs_start_hash :: string
  hs_disposition :: host_rework_disposition
  hs_replacement :: string
  hs_terminal_actor :: string
  hs_terminal_reason :: string
  hs_terminal_key :: "string option"
  hs_terminal_hash :: string
  hs_started :: time
  hs_finished :: "time option"
  hs_updated :: time

record host_rework_submission =
  hb_id :: uuid
  hb_session :: uuid
  hb_task :: uuid
  hb_prior :: string
  hb_replacement :: string
  hb_actor :: string
  hb_key :: string
  hb_hash :: string
  hb_paths :: "string list"

record merge_intent =
  mi_id :: uuid
  mi_task :: uuid
  mi_artifact :: uuid
  mi_verification :: uuid
  mi_authorization :: uuid
  mi_commit :: string
  mi_feature_branch :: string
  mi_target_branch :: string
  mi_target_base :: string
  mi_actor :: string
  mi_source :: string

record merge_completion =
  mc_id :: uuid
  mc_task :: uuid
  mc_intent :: uuid
  mc_artifact :: uuid
  mc_verification :: uuid
  mc_authorization :: uuid
  mc_commit :: string
  mc_base :: string
  mc_merge_commit :: string
  mc_actor :: string
  mc_source :: string

record worker_attempt =
  wa_id :: uuid
  wa_task :: uuid
  wa_state :: string
  wa_completed :: "time option"

end
