(* ===== verification/Tables.thy ===== *)
theory Tables
  imports Rows "HOL-Library.List_Lexorder" "HOL-Library.Char_ord"
begin

text \<open>
  The database as the source sees it through GORM: one list of rows per table, the four
  statements the source issues (\<open>Create\<close>, \<open>First\<close>, \<open>Order(created_at DESC).First\<close>,
  \<open>Where(...).Updates\<close>) and, per table, when two rows collide on the primary key or on a
  unique index (the tags of \<open>models.go\<close> and the partial indexes of \<open>internal/db/db.go\<close>).
  A transaction is a function from the database to an error or the new database: an error leaves
  the old database, which is the rollback.
\<close>

section \<open>Statements\<close>

definition tbl_create :: "('r \<Rightarrow> 'r \<Rightarrow> bool) \<Rightarrow> 'r \<Rightarrow> 'r list \<Rightarrow> err + 'r list" where
  "tbl_create conflict r rows =
     (if list_ex (conflict r) rows then Inl ErrUniqueConstraint else Inr (rows @ [r]))"

text \<open>\<open>First\<close> orders by the primary key and takes one row.\<close>

definition tbl_first :: "('r \<Rightarrow> uuid) \<Rightarrow> ('r \<Rightarrow> bool) \<Rightarrow> 'r list \<Rightarrow> 'r option" where
  "tbl_first key P rows =
     (case sort_key key (filter P rows) of [] \<Rightarrow> None | r # _ \<Rightarrow> Some r)"

definition tbl_latest ::
  "('r \<Rightarrow> time) \<Rightarrow> ('r \<Rightarrow> uuid) \<Rightarrow> ('r \<Rightarrow> bool) \<Rightarrow> 'r list \<Rightarrow> 'r option" where
  "tbl_latest created key P rows =
     (case sort_key (\<lambda>r. - created r) (sort_key key (filter P rows)) of
        [] \<Rightarrow> None | r # _ \<Rightarrow> Some r)"

text \<open>\<open>Where(P).Updates(f)\<close>: the new rows and \<open>RowsAffected\<close>.\<close>

definition tbl_update :: "('r \<Rightarrow> bool) \<Rightarrow> ('r \<Rightarrow> 'r) \<Rightarrow> 'r list \<Rightarrow> 'r list \<times> nat" where
  "tbl_update P f rows = (map (\<lambda>r. if P r then f r else r) rows, length (filter P rows))"

definition tbl_count :: "('r \<Rightarrow> bool) \<Rightarrow> 'r list \<Rightarrow> nat" where
  "tbl_count P rows = length (filter P rows)"

text \<open>No two rows of the table collide.\<close>

definition uniq :: "('r \<Rightarrow> 'r \<Rightarrow> bool) \<Rightarrow> 'r list \<Rightarrow> bool" where
  "uniq conflict rows \<longleftrightarrow> sorted_wrt (\<lambda>a b. \<not> conflict a b) rows"

text \<open>An update that writes an indexed column fails when it would make two rows collide.\<close>

definition tbl_update_unique ::
  "('r \<Rightarrow> 'r \<Rightarrow> bool) \<Rightarrow> ('r \<Rightarrow> bool) \<Rightarrow> ('r \<Rightarrow> 'r) \<Rightarrow> 'r list \<Rightarrow> err + 'r list \<times> nat" where
  "tbl_update_unique conflict P f rows =
     (let u = tbl_update P f rows in
      if uniq conflict (fst u) then Inr u else Inl ErrUniqueConstraint)"

section \<open>Statement lemmas\<close>

lemma tbl_create_Inr [res_simps]:
  "tbl_create c r rows = Inr rows' \<longleftrightarrow> rows' = rows @ [r] \<and> (\<forall>x \<in> set rows. \<not> c r x)"
  by (auto simp: tbl_create_def list_ex_iff)

lemma tbl_create_Inl [res_simps]:
  "tbl_create c r rows = Inl e \<longleftrightarrow> e = ErrUniqueConstraint \<and> (\<exists>x \<in> set rows. c r x)"
  by (auto simp: tbl_create_def list_ex_iff)

lemma hd_sort_key_filter:
  assumes "sort_key k (filter P rows) = r # rest"
  shows "r \<in> set rows \<and> P r"
proof -
  have "set (sort_key k (filter P rows)) = {x \<in> set rows. P x}" by simp
  with assms show ?thesis by (metis list.set_intros(1) mem_Collect_eq)
qed

lemma tbl_first_Some: "tbl_first k P rows = Some r \<Longrightarrow> r \<in> set rows \<and> P r"
  by (auto simp: tbl_first_def split: list.splits dest: hd_sort_key_filter)

lemma sort_key_Nil_iff [simp]: "sort_key k xs = [] \<longleftrightarrow> xs = []"
  by (metis length_0_conv length_sort)

lemma tbl_first_None: "tbl_first k P rows = None \<longleftrightarrow> (\<forall>r \<in> set rows. \<not> P r)"
  by (auto simp: tbl_first_def filter_empty_conv split: list.splits)
    (metis (no_types, lifting) filter_empty_conv list.distinct(1) sort_key_Nil_iff)

lemma tbl_latest_Some: "tbl_latest cr k P rows = Some r \<Longrightarrow> r \<in> set rows \<and> P r"
proof -
  assume "tbl_latest cr k P rows = Some r"
  then obtain rest where e: "sort_key (\<lambda>r. - cr r) (sort_key k (filter P rows)) = r # rest"
    by (auto simp: tbl_latest_def split: list.splits)
  have "set (sort_key (\<lambda>r. - cr r) (sort_key k (filter P rows))) = {x \<in> set rows. P x}" by simp
  with e show ?thesis by (metis list.set_intros(1) mem_Collect_eq)
qed

lemma tbl_latest_None: "tbl_latest cr k P rows = None \<longleftrightarrow> (\<forall>r \<in> set rows. \<not> P r)"
  by (auto simp: tbl_latest_def filter_empty_conv split: list.splits)
    (metis (no_types, lifting) filter_empty_conv list.distinct(1) sort_key_Nil_iff)

lemma tbl_latest_newest:
  assumes "tbl_latest cr k P rows = Some r" "x \<in> set rows" "P x"
  shows "cr x \<le> cr r"
proof -
  let ?s = "sort_key (\<lambda>r. - cr r) (sort_key k (filter P rows))"
  from assms(1) obtain rest where e: "?s = r # rest"
    by (auto simp: tbl_latest_def split: list.splits)
  have "sorted (map (\<lambda>r. - cr r) ?s)" by (rule sorted_sort_key)
  moreover from assms(2,3) have "x \<in> set ?s" by simp
  ultimately show ?thesis by (auto simp: e)
qed

lemma tbl_update_fst: "fst (tbl_update P f rows) = map (\<lambda>r. if P r then f r else r) rows"
  by (simp add: tbl_update_def)

lemma tbl_update_snd: "snd (tbl_update P f rows) = length (filter P rows)"
  by (simp add: tbl_update_def)

lemma uniq_Nil [simp]: "uniq c []"
  by (simp add: uniq_def)

lemma tbl_update_unique_Inr [res_simps]:
  "tbl_update_unique c P f rows = Inr u \<longleftrightarrow>
     u = tbl_update P f rows \<and> uniq c (map (\<lambda>r. if P r then f r else r) rows)"
  by (auto simp: tbl_update_unique_def tbl_update_fst Let_def)

section \<open>The interface of a table with unique indexes\<close>

text \<open>What the delivery protocol relies on: collision is reflexive (a row collides with its own
  key) and symmetric.  From these laws every statement keeps the table free of collisions.\<close>

locale unique_table =
  fixes conflict :: "'r \<Rightarrow> 'r \<Rightarrow> bool"
  assumes conflict_refl: "conflict r r"
    and conflict_sym: "conflict a b \<Longrightarrow> conflict b a"
begin

lemma create_uniq:
  "\<lbrakk>uniq conflict rows; tbl_create conflict r rows = Inr rows'\<rbrakk> \<Longrightarrow> uniq conflict rows'"
  by (auto simp: uniq_def sorted_wrt_append res_simps dest: conflict_sym)

lemma uniq_eq:
  "\<lbrakk>uniq conflict rows; a \<in> set rows; b \<in> set rows; conflict a b\<rbrakk> \<Longrightarrow> a = b"
  by (induction rows) (auto simp: uniq_def dest: conflict_sym)

lemma update_uniq:
  assumes "uniq conflict rows"
    and "\<And>a b. \<lbrakk>a \<in> set rows; b \<in> set rows; conflict (g a) (g b)\<rbrakk> \<Longrightarrow> conflict a b"
  shows "uniq conflict (map g rows)"
proof -
  have "sorted_wrt (\<lambda>a b. \<not> conflict (g a) (g b)) rows"
    by (rule sorted_wrt_mono_rel [where P = "\<lambda>a b. \<not> conflict a b"])
      (use assms in \<open>auto simp: uniq_def\<close>)
  then show ?thesis by (simp add: uniq_def sorted_wrt_map)
qed

lemma uniq_distinct: "uniq conflict rows \<Longrightarrow> distinct rows"
  by (induction rows) (auto simp: uniq_def intro: conflict_refl)

lemma first_unique:
  assumes "uniq conflict rows" "r \<in> set rows" "P r"
    and "\<And>a. \<lbrakk>a \<in> set rows; P a\<rbrakk> \<Longrightarrow> conflict a r"
  shows "tbl_first k P rows = Some r"
proof (cases "tbl_first k P rows")
  case None
  with assms(2,3) show ?thesis by (simp add: tbl_first_None)
next
  case (Some a)
  from tbl_first_Some [OF Some] assms(4) have "conflict a r" by blast
  with tbl_first_Some [OF Some] assms(1,2) have "a = r" by (blast intro: uniq_eq)
  with Some show ?thesis by simp
qed

end

section \<open>The tables\<close>

definition task_conflict :: "task \<Rightarrow> task \<Rightarrow> bool" where
  "task_conflict a b \<longleftrightarrow> t_id a = t_id b"

definition event_conflict :: "task_event \<Rightarrow> task_event \<Rightarrow> bool" where
  "event_conflict a b \<longleftrightarrow> te_id a = te_id b"

definition artifact_current :: "delivery_artifact \<Rightarrow> bool" where
  "artifact_current a \<longleftrightarrow> da_invalidated a = None"

text \<open>\<open>idx_delivery_artifact_task_version\<close> and \<open>idx_delivery_artifact_current_task\<close>.\<close>

definition artifact_conflict :: "delivery_artifact \<Rightarrow> delivery_artifact \<Rightarrow> bool" where
  "artifact_conflict a b \<longleftrightarrow> da_id a = da_id b \<or>
     (da_task a = da_task b \<and> da_version a = da_version b) \<or>
     (da_task a = da_task b \<and> artifact_current a \<and> artifact_current b)"

definition gate_run_conflict :: "preliminary_gate_run \<Rightarrow> preliminary_gate_run \<Rightarrow> bool" where
  "gate_run_conflict a b \<longleftrightarrow> gr_id a = gr_id b"

definition verification_conflict :: "verification_record \<Rightarrow> verification_record \<Rightarrow> bool" where
  "verification_conflict a b \<longleftrightarrow> vr_id a = vr_id b \<or> vr_key a = vr_key b"

definition interaction_conflict :: "verification_interaction \<Rightarrow> verification_interaction \<Rightarrow> bool" where
  "interaction_conflict a b \<longleftrightarrow> vi_id a = vi_id b"

definition authorization_conflict ::
  "integration_authorization \<Rightarrow> integration_authorization \<Rightarrow> bool" where
  "authorization_conflict a b \<longleftrightarrow> ia_id a = ia_id b \<or> ia_key a = ia_key b"

definition rework_conflict :: "delivery_rework_record \<Rightarrow> delivery_rework_record \<Rightarrow> bool" where
  "rework_conflict a b \<longleftrightarrow> rw_id a = rw_id b \<or> rw_key a = rw_key b"

text \<open>Unique: the id, the start key, the non-null terminal key, and
  \<open>idx_host_rework_active_task\<close>.\<close>

definition session_conflict :: "host_rework_session \<Rightarrow> host_rework_session \<Rightarrow> bool" where
  "session_conflict a b \<longleftrightarrow> hs_id a = hs_id b \<or> hs_start_key a = hs_start_key b \<or>
     (hs_terminal_key a \<noteq> None \<and> hs_terminal_key a = hs_terminal_key b) \<or>
     (hs_task a = hs_task b \<and> hs_disposition a = HostReworkActive \<and>
      hs_disposition b = HostReworkActive)"

definition submission_conflict :: "host_rework_submission \<Rightarrow> host_rework_submission \<Rightarrow> bool" where
  "submission_conflict a b \<longleftrightarrow> hb_id a = hb_id b \<or> hb_session a = hb_session b \<or> hb_key a = hb_key b"

definition intent_conflict :: "merge_intent \<Rightarrow> merge_intent \<Rightarrow> bool" where
  "intent_conflict a b \<longleftrightarrow> mi_id a = mi_id b \<or> mi_authorization a = mi_authorization b"

definition completion_conflict :: "merge_completion \<Rightarrow> merge_completion \<Rightarrow> bool" where
  "completion_conflict a b \<longleftrightarrow> mc_id a = mc_id b \<or> mc_task a = mc_task b \<or> mc_intent a = mc_intent b"

lemmas conflict_defs = task_conflict_def event_conflict_def artifact_conflict_def
  gate_run_conflict_def verification_conflict_def interaction_conflict_def
  authorization_conflict_def rework_conflict_def session_conflict_def submission_conflict_def
  intent_conflict_def completion_conflict_def artifact_current_def

interpretation tasks: unique_table task_conflict
  by unfold_locales (auto simp: conflict_defs)

interpretation events: unique_table event_conflict
  by unfold_locales (auto simp: conflict_defs)

interpretation artifacts: unique_table artifact_conflict
  by unfold_locales (auto simp: conflict_defs)

interpretation gate_runs: unique_table gate_run_conflict
  by unfold_locales (auto simp: conflict_defs)

interpretation verifications: unique_table verification_conflict
  by unfold_locales (auto simp: conflict_defs)

interpretation interactions: unique_table interaction_conflict
  by unfold_locales (auto simp: conflict_defs)

interpretation authorizations: unique_table authorization_conflict
  by unfold_locales (auto simp: conflict_defs)

interpretation reworks: unique_table rework_conflict
  by unfold_locales (auto simp: conflict_defs)

interpretation sessions: unique_table session_conflict
  by (unfold_locales; unfold session_conflict_def; metis)

interpretation submissions: unique_table submission_conflict
  by unfold_locales (auto simp: conflict_defs)

interpretation intents: unique_table intent_conflict
  by unfold_locales (auto simp: conflict_defs)

interpretation completions: unique_table completion_conflict
  by unfold_locales (auto simp: conflict_defs)

section \<open>The database\<close>

record db =
  db_tasks :: "task list"
  db_events :: "task_event list"
  db_artifacts :: "delivery_artifact list"
  db_gate_runs :: "preliminary_gate_run list"
  db_verifications :: "verification_record list"
  db_interactions :: "verification_interaction list"
  db_authorizations :: "integration_authorization list"
  db_reworks :: "delivery_rework_record list"
  db_sessions :: "host_rework_session list"
  db_submissions :: "host_rework_submission list"
  db_intents :: "merge_intent list"
  db_completions :: "merge_completion list"
  db_attempts :: "worker_attempt list"
  db_specifications :: "uuid list"
  db_criteria :: "acceptance_criterion list"

text \<open>\<open>tx.First(&task, "id = ?", id)\<close>\<close>

definition load_task :: "uuid \<Rightarrow> db \<Rightarrow> err + task" where
  "load_task tid d = of_option ErrRecordNotFound (tbl_first t_id (\<lambda>t. t_id t = tid) (db_tasks d))"

lemma load_task_Inr: "load_task tid d = Inr t \<Longrightarrow> t \<in> set (db_tasks d) \<and> t_id t = tid"
  by (auto simp: load_task_def res_simps dest: tbl_first_Some)

lemma load_task_unique:
  "\<lbrakk>uniq task_conflict (db_tasks d); t \<in> set (db_tasks d)\<rbrakk> \<Longrightarrow> load_task (t_id t) d = Inr t"
  by (simp add: load_task_def res_simps)
    (rule tasks.first_unique, auto simp: task_conflict_def)

lemma uniq_tasks_distinct: "uniq task_conflict rows \<longleftrightarrow> distinct (map t_id rows)"
  unfolding uniq_def task_conflict_def by (induction rows) (auto simp: image_iff)

lemma load_task_row:
  assumes "uniq task_conflict (db_tasks d)" "load_task tid d = Inr tk" "r \<in> set (db_tasks d)" "t_id r = tid"
  shows "r = tk"
  using load_task_unique[OF assms(1,3)] assms(2,4) by simp

end
