(* ===== verification/StateMachine.thy ===== *)
theory StateMachine
  imports Tables
begin

text \<open>
  The task status state machine, \<open>internal/state/machine.go\<close>: the table of valid transitions,
  the plain and the guarded transition, and the four narrow exceptions for subtasks.  A
  \<open>*model.Task\<close> argument is a \<open>task option\<close> (nil is \<open>None\<close>); a successful operation
  returns the updated task and the event, an error leaves the task as it was.  \<open>uuid.New()\<close>
  and \<open>time.Now()\<close> are the arguments \<open>eid\<close> and \<open>now\<close>.
\<close>

record evidence =
  ev_task :: uuid
  ev_attempt :: uuid
  ev_actor :: string
  ev_source :: string
  ev_reason :: string
  ev_normalized :: string
  ev_timestamp :: time
  ev_references :: "(string \<times> gany) list"

record transition_request =
  req_target :: task_status
  req_actor :: string
  req_expected :: task_status
  req_observed :: "time option"
  req_evidence :: evidence

section \<open>The transition table\<close>

fun valid_transitions :: "task_status \<Rightarrow> task_status list option" where
  "valid_transitions StatusClassifying =
     Some [StatusBacklog, StatusFailed, StatusPaused, StatusCancelled]"
| "valid_transitions StatusBacklog =
     Some [StatusPlanning, StatusInProgress, StatusFailed, StatusPaused, StatusCancelled]"
| "valid_transitions StatusPlanning =
     Some [StatusNeedsClarification, StatusPlanReview, StatusFailed, StatusPaused, StatusCancelled]"
| "valid_transitions StatusNeedsClarification =
     Some [StatusPlanning, StatusPlanReview, StatusCancelled]"
| "valid_transitions StatusPlanReview =
     Some [StatusTestWriting, StatusInProgress, StatusPlanning, StatusCancelled]"
| "valid_transitions StatusTestWriting =
     Some [StatusTestReview, StatusInProgress, StatusFailed, StatusPaused, StatusPlanning,
           StatusCancelled]"
| "valid_transitions StatusTestReview =
     Some [StatusInProgress, StatusTestWriting, StatusPlanning, StatusFailed, StatusCancelled]"
| "valid_transitions StatusInProgress =
     Some [StatusBacklog, StatusTestingReady, StatusFailed, StatusPaused, StatusCancelled]"
| "valid_transitions StatusTestingReady =
     Some [StatusVerificationReady, StatusInProgress, StatusPlanning, StatusFailed, StatusPaused,
           StatusCancelled]"
| "valid_transitions StatusVerificationReady =
     Some [StatusIntegrationReady, StatusHostRework, StatusInProgress, StatusCancelled]"
| "valid_transitions StatusHostRework =
     Some [StatusTestingReady, StatusInProgress, StatusCancelled]"
| "valid_transitions StatusIntegrationReady =
     Some [StatusMerging, StatusHostRework, StatusInProgress, StatusCancelled]"
| "valid_transitions StatusMerging =
     Some [StatusDone, StatusFailed, StatusTestingReady, StatusIntegrationReady, StatusInProgress,
           StatusCancelled]"
| "valid_transitions StatusPaused =
     Some [StatusClassifying, StatusBacklog, StatusPlanning, StatusInProgress, StatusTestWriting,
           StatusTestingReady, StatusNeedsClarification, StatusCancelled]"
| "valid_transitions StatusDone = Some []"
| "valid_transitions StatusFailed =
     Some [StatusClassifying, StatusBacklog, StatusInProgress, StatusTestWriting, StatusCancelled]"
| "valid_transitions StatusRejected = Some [StatusCancelled]"
| "valid_transitions StatusCancelled = Some []"
| "valid_transitions (StatusOther s) = None"

definition validate_transition :: "task_status \<Rightarrow> task_status \<Rightarrow> err + unit" where
  "validate_transition current target =
     (case valid_transitions current of
        None \<Rightarrow> Inl (ErrMsg ''unknown current status'')
      | Some allowed \<Rightarrow> check (target \<in> set allowed) (ErrMsg ''invalid transition''))"

section \<open>Transitions\<close>

definition transition_task_unchecked_at ::
  "uuid \<Rightarrow> task \<Rightarrow> task_status \<Rightarrow> string \<Rightarrow> json_field \<Rightarrow> time \<Rightarrow> task \<times> task_event" where
  "transition_task_unchecked_at eid tk target actor details now =
     (tk\<lparr>t_status := target, t_updated := now\<rparr>,
      \<lparr>te_id = eid, te_task = t_id tk, te_type = ''status_change'',
       te_old = task_status_string (t_status tk), te_new = task_status_string target,
       te_details = details, te_actor = actor, te_created = now\<rparr>)"

definition transition_task_at ::
  "uuid \<Rightarrow> task \<Rightarrow> task_status \<Rightarrow> string \<Rightarrow> json_field \<Rightarrow> time \<Rightarrow> err + task \<times> task_event" where
  "transition_task_at eid tk target actor details now =
     res_bind (validate_transition (t_status tk) target) (\<lambda>_.
     Inr (transition_task_unchecked_at eid tk target actor details now))"

definition transition_task ::
  "uuid \<Rightarrow> time \<Rightarrow> task \<Rightarrow> task_status \<Rightarrow> string \<Rightarrow> json_field \<Rightarrow> err + task \<times> task_event" where
  "transition_task eid now tk target actor details =
     res_bind (validate_transition (t_status tk) target) (\<lambda>_.
     Inr (tk\<lparr>t_status := target, t_updated := now\<rparr>,
      \<lparr>te_id = eid, te_task = t_id tk, te_type = ''status_change'',
       te_old = task_status_string (t_status tk), te_new = task_status_string target,
       te_details = details, te_actor = actor, te_created = now\<rparr>))"

definition validate_evidence :: "uuid \<Rightarrow> transition_request \<Rightarrow> err + unit" where
  "validate_evidence tid req =
     (let e = req_evidence req in
      if ev_task e = uuid_Nil then Inl ErrMissingEvidence
      else if ev_task e \<noteq> tid then Inl ErrMissingEvidence
      else if ev_actor e = [] then Inl ErrMissingEvidence
      else if ev_source e = [] then Inl ErrMissingEvidence
      else if ev_reason e = [] \<and> ev_normalized e = [] then Inl ErrMissingEvidence
      else Inr ())"

definition evidence_timestamp :: "time \<Rightarrow> evidence \<Rightarrow> time" where
  "evidence_timestamp now e = (if ev_timestamp e = zero_time then now else ev_timestamp e)"

definition evidence_details :: "evidence \<Rightarrow> json_field" where
  "evidence_details e =
     Some [''evidence'' \<mapsto> GMap (
       [(''task_id'', GStr (ev_task e)), (''actor'', GStr (ev_actor e)),
        (''source'', GStr (ev_source e))]
       @ (if ev_attempt e \<noteq> uuid_Nil then [(''attempt_id'', GStr (ev_attempt e))] else [])
       @ (if ev_reason e \<noteq> [] then [(''reason'', GStr (ev_reason e))] else [])
       @ (if ev_normalized e \<noteq> [] then [(''normalized_reason'', GStr (ev_normalized e))] else [])
       @ (if ev_timestamp e \<noteq> zero_time then [(''timestamp'', GTime (ev_timestamp e))] else [])
       @ (if ev_references e \<noteq> [] then [(''references'', GMap (ev_references e))] else []))]"

definition request_actor :: "transition_request \<Rightarrow> string" where
  "request_actor req = (if req_actor req = [] then ev_actor (req_evidence req) else req_actor req)"

definition guarded_transition_task ::
  "uuid \<Rightarrow> time \<Rightarrow> task option \<Rightarrow> transition_request \<Rightarrow> err + task \<times> task_event" where
  "guarded_transition_task eid now tko req = (case tko of
     None \<Rightarrow> Inl (ErrMsg ''task is nil'')
   | Some tk \<Rightarrow>
     if req_expected req \<noteq> StatusOther [] \<and> t_status tk \<noteq> req_expected req
     then Inl ErrStaleTransition
     else if req_observed req \<noteq> None \<and> req_observed req \<noteq> Some (t_updated tk)
     then Inl ErrStaleTransition
     else res_bind (validate_evidence (t_id tk) req) (\<lambda>_.
       transition_task_at eid tk (req_target req) (request_actor req)
         (evidence_details (req_evidence req)) (evidence_timestamp now (req_evidence req))))"

definition guarded_unchecked ::
  "uuid \<Rightarrow> time \<Rightarrow> task \<Rightarrow> task_status \<Rightarrow> transition_request \<Rightarrow> err + task \<times> task_event" where
  "guarded_unchecked eid now tk target req =
     res_bind (validate_evidence (t_id tk) req) (\<lambda>_.
     Inr (transition_task_unchecked_at eid tk target (request_actor req)
       (evidence_details (req_evidence req)) (evidence_timestamp now (req_evidence req))))"

definition guarded_complete_subtask ::
  "uuid \<Rightarrow> time \<Rightarrow> task option \<Rightarrow> transition_request \<Rightarrow> err + task \<times> task_event" where
  "guarded_complete_subtask eid now tko req = (case tko of
     None \<Rightarrow> Inl (ErrMsg ''task is nil'')
   | Some tk \<Rightarrow>
     if t_parent tk = None then Inl (ErrMsg ''only subtasks may use direct completion'')
     else if req_target req \<noteq> StatusDone
     then Inl (ErrMsg ''subtask completion target must be done'')
     else if req_expected req \<noteq> StatusOther [] \<and> t_status tk \<noteq> req_expected req
     then Inl ErrStaleTransition
     else if t_status tk \<noteq> StatusInProgress \<and> t_status tk \<noteq> StatusTestWriting
     then Inl (ErrMsg ''subtask cannot complete directly'')
     else guarded_unchecked eid now tk StatusDone req)"

definition guarded_adopt_failed_subtask ::
  "uuid \<Rightarrow> time \<Rightarrow> task option \<Rightarrow> transition_request \<Rightarrow> err + task \<times> task_event" where
  "guarded_adopt_failed_subtask eid now tko req = (case tko of
     None \<Rightarrow> Inl (ErrMsg ''only failed subtasks may be adopted'')
   | Some tk \<Rightarrow>
     if t_parent tk = None then Inl (ErrMsg ''only failed subtasks may be adopted'')
     else if t_status tk \<noteq> StatusFailed \<or> req_target req \<noteq> StatusDone
     then Inl (ErrMsg ''Codex adoption requires failed subtask to done'')
     else if req_expected req \<noteq> StatusOther [] \<and> req_expected req \<noteq> StatusFailed
     then Inl ErrStaleTransition
     else if ev_source (req_evidence req) \<noteq> ''codex_adapter_adoption''
     then Inl ErrMissingEvidence
     else guarded_unchecked eid now tk StatusDone req)"

definition guarded_accept_existing_subtask ::
  "uuid \<Rightarrow> time \<Rightarrow> task option \<Rightarrow> transition_request \<Rightarrow> err + task \<times> task_event" where
  "guarded_accept_existing_subtask eid now tko req = (case tko of
     None \<Rightarrow> Inl (ErrMsg ''only subtasks may accept existing work'')
   | Some tk \<Rightarrow>
     if t_parent tk = None then Inl (ErrMsg ''only subtasks may accept existing work'')
     else if req_target req \<noteq> StatusDone
     then Inl (ErrMsg ''existing-work acceptance target must be done'')
     else if req_expected req \<noteq> StatusOther [] \<and> t_status tk \<noteq> req_expected req
     then Inl ErrStaleTransition
     else if t_status tk \<noteq> StatusBacklog \<and> t_status tk \<noteq> StatusPlanning
          \<and> t_status tk \<noteq> StatusInProgress
     then Inl (ErrMsg ''subtask cannot accept existing work'')
     else if ev_source (req_evidence req) \<noteq> ''dedup_existing_work''
     then Inl ErrMissingEvidence
     else guarded_unchecked eid now tk StatusDone req)"

definition guarded_invalidate_completed_test_subtask ::
  "uuid \<Rightarrow> time \<Rightarrow> task option \<Rightarrow> transition_request \<Rightarrow> err + task \<times> task_event" where
  "guarded_invalidate_completed_test_subtask eid now tko req = (case tko of
     None \<Rightarrow> Inl (ErrMsg ''only completed test subtasks may be invalidated'')
   | Some tk \<Rightarrow>
     if t_parent tk = None \<or> t_phase tk \<noteq> ''test''
     then Inl (ErrMsg ''only completed test subtasks may be invalidated'')
     else if t_status tk \<noteq> StatusDone
          \<or> (req_target req \<noteq> StatusRejected \<and> req_target req \<noteq> StatusFailed)
     then Inl (ErrMsg ''test subtask invalidation requires done to rejected or failed'')
     else if req_expected req \<noteq> StatusOther [] \<and> req_expected req \<noteq> StatusDone
     then Inl ErrStaleTransition
     else if ev_source (req_evidence req) \<noteq> ''review_gate''
     then Inl ErrMissingEvidence
     else guarded_unchecked eid now tk (req_target req) req)"

definition guarded_supersede_completed_test_subtask ::
  "uuid \<Rightarrow> time \<Rightarrow> task option \<Rightarrow> transition_request \<Rightarrow> err + task \<times> task_event" where
  "guarded_supersede_completed_test_subtask eid now tko req =
     (if req_target req \<noteq> StatusRejected
      then Inl (ErrMsg ''test subtask supersession requires done to rejected'')
      else guarded_invalidate_completed_test_subtask eid now tko req)"


section \<open>Facts about the table\<close>

definition can_move :: "task_status \<Rightarrow> task_status \<Rightarrow> bool" where
  "can_move c t \<longleftrightarrow> validate_transition c t = Inr ()"

lemma can_move_iff: "can_move c t \<longleftrightarrow> (\<exists>l. valid_transitions c = Some l \<and> t \<in> set l)"
  by (auto simp: can_move_def validate_transition_def res_simps split: option.splits)

lemma validate_transition_Inr [res_simps]: "validate_transition c t = Inr u \<longleftrightarrow> can_move c t"
  by (auto simp: can_move_def)

lemma into_done: "can_move c StatusDone \<longleftrightarrow> c = StatusMerging"
  by (cases c) (simp_all add: can_move_iff)

lemma into_merging: "can_move c StatusMerging \<longleftrightarrow> c = StatusIntegrationReady"
  by (cases c) (simp_all add: can_move_iff)

lemma into_integration_ready:
  "can_move c StatusIntegrationReady \<longleftrightarrow> c = StatusVerificationReady \<or> c = StatusMerging"
  by (cases c) (simp_all add: can_move_iff)

lemma into_verification_ready: "can_move c StatusVerificationReady \<longleftrightarrow> c = StatusTestingReady"
  by (cases c) (simp_all add: can_move_iff)

lemma into_rejected: "\<not> can_move c StatusRejected"
  by (cases c) (simp_all add: can_move_iff)

lemma into_other: "\<not> can_move c (StatusOther s)"
  by (cases c) (simp_all add: can_move_iff)

lemmas into_status = into_done into_merging into_integration_ready into_verification_ready
  into_rejected into_other

section \<open>Paths through the table\<close>

text \<open>A run of the table: consecutive statuses are joined by valid transitions.\<close>

fun move_path :: "task_status list \<Rightarrow> bool" where
  "move_path [] = True"
| "move_path [s] = True"
| "move_path (s # t # ts) = (can_move s t \<and> move_path (t # ts))"

lemma move_path_snoc:
  "move_path (xs @ [s, t]) \<longleftrightarrow> move_path (xs @ [s]) \<and> can_move s t"
  by (induction xs rule: move_path.induct) auto

text \<open>The delivery segment: \<open>n\<close> rounds of integration_ready and merging.\<close>

definition rounds :: "nat \<Rightarrow> task_status list" where
  "rounds n = concat (replicate n [StatusIntegrationReady, StatusMerging])"

lemma rounds_Suc: "rounds (Suc n) = rounds n @ [StatusIntegrationReady, StatusMerging]"
  by (simp add: rounds_def replicate_append_same [symmetric])

lemma delivery_segment:
  assumes "move_path (xs @ [s])" "xs \<noteq> []"
    and "hd xs \<notin> {StatusVerificationReady, StatusIntegrationReady, StatusMerging}"
  shows "(s = StatusMerging \<longrightarrow> (\<exists>pre n. xs @ [s] = pre @ StatusVerificationReady # rounds (Suc n)))
    \<and> (s = StatusIntegrationReady \<longrightarrow>
        (\<exists>pre n. xs @ [s] = pre @ StatusVerificationReady # rounds n @ [StatusIntegrationReady]))"
  using assms
proof (induction xs arbitrary: s rule: rev_induct)
  case Nil
  then show ?case by simp
next
  case (snoc t xs)
  have path: "move_path (xs @ [t])" "can_move t s"
    using snoc.prems(1) by (simp_all add: move_path_snoc)
  have IH: "(t = StatusMerging \<longrightarrow> (\<exists>pre n. xs @ [t] = pre @ StatusVerificationReady # rounds (Suc n)))
    \<and> (t = StatusIntegrationReady \<longrightarrow>
        (\<exists>pre n. xs @ [t] = pre @ StatusVerificationReady # rounds n @ [StatusIntegrationReady]))"
  proof (cases "xs = []")
    case True
    with snoc.prems(3) show ?thesis by auto
  next
    case False
    with snoc.prems(3) path(1) show ?thesis by (intro snoc.IH) auto
  qed
  show ?case
  proof (intro conjI impI)
    assume s: "s = StatusMerging"
    with path(2) have "t = StatusIntegrationReady" by (simp add: into_status)
    with IH obtain pre n where
      "xs @ [t] = pre @ StatusVerificationReady # rounds n @ [StatusIntegrationReady]" by blast
    with s have "(xs @ [t]) @ [s] = pre @ StatusVerificationReady # rounds (Suc n)"
      by (simp add: rounds_Suc)
    then show "\<exists>pre n. (xs @ [t]) @ [s] = pre @ StatusVerificationReady # rounds (Suc n)" by blast
  next
    assume s: "s = StatusIntegrationReady"
    with path(2) consider "t = StatusVerificationReady" | "t = StatusMerging"
      by (auto simp: into_status)
    then show "\<exists>pre n. (xs @ [t]) @ [s]
        = pre @ StatusVerificationReady # rounds n @ [StatusIntegrationReady]"
    proof cases
      case 1
      with s have "(xs @ [t]) @ [s] = xs @ StatusVerificationReady # rounds 0 @ [StatusIntegrationReady]"
        by (simp add: rounds_def)
      then show ?thesis by blast
    next
      case 2
      with IH obtain pre n where "xs @ [t] = pre @ StatusVerificationReady # rounds (Suc n)" by blast
      with s have "(xs @ [t]) @ [s]
          = pre @ StatusVerificationReady # rounds (Suc n) @ [StatusIntegrationReady]" by simp
      then show ?thesis by blast
    qed
  qed
qed

text \<open>C22: a task that starts before delivery and ends in \<open>done\<close> along the transition table went
  through \<open>verification_ready\<close> and then, with no other status in between, through one or more
  rounds of \<open>integration_ready\<close> and \<open>merging\<close> up to \<open>done\<close>: no sequence of valid
  transitions skips the verification or the integration gate.\<close>

theorem done_only_through_delivery:
  assumes "move_path (path @ [StatusDone])" and "path \<noteq> []"
    and "hd path \<notin> {StatusVerificationReady, StatusIntegrationReady, StatusMerging}"
  shows "\<exists>pre n. path @ [StatusDone] = pre @ StatusVerificationReady # rounds (Suc n) @ [StatusDone]"
proof -
  obtain xs s where p: "path = xs @ [s]" using assms(2) by (metis rev_exhaust)
  from assms(1) p have "move_path (xs @ [s]) \<and> can_move s StatusDone"
    by (simp add: move_path_snoc)
  then have m: "move_path (xs @ [s])" "s = StatusMerging"
    unfolding into_status by blast+
  with assms(3) p have "xs \<noteq> []" by auto
  with delivery_segment [OF m(1)] assms(3) p m(2)
  obtain pre n where "path = pre @ StatusVerificationReady # rounds (Suc n)" by auto
  then show ?thesis by auto
qed

theorem done_only_through_delivery_witness:
  "\<exists>pre n. [StatusBacklog, StatusInProgress, StatusTestingReady, StatusVerificationReady,
      StatusIntegrationReady, StatusMerging] @ [StatusDone]
    = pre @ StatusVerificationReady # rounds (Suc n) @ [StatusDone]"
  by (rule done_only_through_delivery) (simp_all add: can_move_iff)

text \<open>\<open>done\<close> and \<open>cancelled\<close> are the only known statuses without a way out, every other
  known status can be cancelled, and no transition of the table enters \<open>rejected\<close> or an unknown
  status.\<close>

theorem terminal_statuses:
  "(valid_transitions c = Some [] \<longleftrightarrow> c = StatusDone \<or> c = StatusCancelled)
   \<and> (can_move c StatusCancelled \<longleftrightarrow> c \<in> set all_task_statuses - {StatusDone, StatusCancelled})
   \<and> \<not> can_move c StatusRejected \<and> \<not> can_move c (StatusOther s)"
  by (cases c) (simp_all add: can_move_iff all_task_statuses_def)

section \<open>What a successful transition records\<close>

text \<open>The new task differs in status and time only, and the event names both statuses.\<close>

definition records_transition :: "task \<Rightarrow> task \<Rightarrow> task_event \<Rightarrow> bool" where
  "records_transition tk tk' ev \<longleftrightarrow>
     tk' = tk\<lparr>t_status := t_status tk', t_updated := t_updated tk'\<rparr> \<and>
     te_task ev = t_id tk \<and> te_type ev = ''status_change'' \<and>
     te_old ev = task_status_string (t_status tk) \<and>
     te_new ev = task_status_string (t_status tk') \<and> te_created ev = t_updated tk'"

lemma records_transition_unchecked:
  "transition_task_unchecked_at eid tk s a dt now = (tk', ev) \<Longrightarrow>
     records_transition tk tk' ev \<and> t_status tk' = s \<and> te_id ev = eid \<and> te_actor ev = a
     \<and> te_details ev = dt \<and> t_updated tk' = now"
  by (auto simp: transition_task_unchecked_at_def records_transition_def)

definition evidence_complete :: "uuid \<Rightarrow> evidence \<Rightarrow> bool" where
  "evidence_complete tid e \<longleftrightarrow> ev_task e = tid \<and> tid \<noteq> uuid_Nil \<and> ev_actor e \<noteq> []
     \<and> ev_source e \<noteq> [] \<and> (ev_reason e \<noteq> [] \<or> ev_normalized e \<noteq> [])"

lemma validate_evidence_Inr [res_simps]:
  "validate_evidence tid req = Inr u \<longleftrightarrow> evidence_complete tid (req_evidence req)"
  by (auto simp: validate_evidence_def evidence_complete_def Let_def)

lemma guarded_unchecked_Inr:
  "guarded_unchecked eid now tk s req = Inr (tk', ev) \<Longrightarrow>
     records_transition tk tk' ev \<and> t_status tk' = s \<and> te_id ev = eid
     \<and> evidence_complete (t_id tk) (req_evidence req)"
  by (auto simp: guarded_unchecked_def res_simps dest!: records_transition_unchecked)

lemma guarded_transition_Inr:
  assumes "guarded_transition_task eid now (Some tk) req = Inr (tk', ev)"
  shows "can_move (t_status tk) (req_target req)" "records_transition tk tk' ev"
    "t_status tk' = req_target req" "te_id ev = eid" "te_actor ev = request_actor req"
    "evidence_complete (t_id tk) (req_evidence req)"
    "req_expected req = StatusOther [] \<or> t_status tk = req_expected req"
    "te_details ev = evidence_details (req_evidence req)"
  using assms
  by (auto simp: guarded_transition_task_def transition_task_at_def res_simps
      split: if_splits dest!: records_transition_unchecked)

text \<open>\<open>GuardedTransitionTask\<close> succeeds exactly when the task is there, its status and its
  update time are those the caller observed, the evidence is complete and about this task, and
  the table allows the move; the result is the task with the target status and an event that
  carries the task, both status texts, the acting party and the evidence.\<close>

theorem guarded_transition_characterised:
  "(\<exists>r. guarded_transition_task eid now tko req = Inr r) \<longleftrightarrow>
     (\<exists>tk. tko = Some tk
        \<and> (req_expected req = StatusOther [] \<or> t_status tk = req_expected req)
        \<and> (req_observed req = None \<or> req_observed req = Some (t_updated tk))
        \<and> evidence_complete (t_id tk) (req_evidence req)
        \<and> can_move (t_status tk) (req_target req)
        \<and> guarded_transition_task eid now tko req =
            Inr (tk\<lparr>t_status := req_target req,
                    t_updated := evidence_timestamp now (req_evidence req)\<rparr>,
                 \<lparr>te_id = eid, te_task = t_id tk, te_type = ''status_change'',
                  te_old = task_status_string (t_status tk),
                  te_new = task_status_string (req_target req),
                  te_details = evidence_details (req_evidence req),
                  te_actor = request_actor req,
                  te_created = evidence_timestamp now (req_evidence req)\<rparr>))"
  by (cases tko) (auto simp: guarded_transition_task_def transition_task_at_def
      transition_task_unchecked_at_def res_simps)

text \<open>Whichever guarded operation of the state machine makes a task \<open>done\<close>, a task without
  a parent comes from \<open>merging\<close> through \<open>GuardedTransitionTask\<close>: the subtask shortcuts
  (completion, adoption, existing work, invalidation) never complete a top-level task.\<close>

theorem top_level_done_from_merging:
  assumes "t_parent tk = None"
    and "\<exists>op \<in> {guarded_transition_task, guarded_complete_subtask, guarded_adopt_failed_subtask,
        guarded_accept_existing_subtask, guarded_invalidate_completed_test_subtask,
        guarded_supersede_completed_test_subtask}.
      op eid now (Some tk) req = Inr (tk', ev) \<and> t_status tk' = StatusDone"
  shows "t_status tk = StatusMerging
    \<and> guarded_transition_task eid now (Some tk) req = Inr (tk', ev)"
proof -
  have g: "guarded_transition_task eid now (Some tk) req = Inr (tk', ev)" "t_status tk' = StatusDone"
    using assms
    by (auto simp: guarded_complete_subtask_def guarded_adopt_failed_subtask_def
        guarded_accept_existing_subtask_def guarded_invalidate_completed_test_subtask_def
        guarded_supersede_completed_test_subtask_def split: if_splits)
  from guarded_transition_Inr(1,3) [OF g(1)] g show ?thesis by (simp add: into_status)
qed

definition sample_task :: task where
  "sample_task = \<lparr>t_id = ''t1'', t_project = ''p1'', t_parent = None, t_title = ''title'',
     t_description = [], t_status = StatusMerging, t_version = 7, t_category = CategoryStandard,
     t_priority = 0, t_complexity = 0, t_labels = [], t_deps = [], t_agent = None,
     t_plan = None, t_plan_feedback = [], t_test_plan = [], t_test_feedback = [],
     t_branch = ''feature/x'', t_base_sha = [], t_pr_url = [], t_phase = [], t_tests_for = [],
     t_tdd_exceptions = None, t_needs_human = False, t_context = None,
     t_created = 1, t_updated = 5\<rparr>"

definition sample_evidence :: evidence where
  "sample_evidence = \<lparr>ev_task = ''t1'', ev_attempt = uuid_Nil, ev_actor = ''orchestrator'',
     ev_source = ''test'', ev_reason = ''merged'', ev_normalized = [], ev_timestamp = 0,
     ev_references = []\<rparr>"

definition sample_request :: transition_request where
  "sample_request = \<lparr>req_target = StatusDone, req_actor = [], req_expected = StatusMerging,
     req_observed = Some 5, req_evidence = sample_evidence\<rparr>"

theorem top_level_done_from_merging_witness:
  "t_status sample_task = StatusMerging \<and>
   (\<exists>r. guarded_transition_task ''e1'' 9 (Some sample_task) sample_request = Inr r)"
proof -
  obtain tk' ev where r: "guarded_transition_task ''e1'' 9 (Some sample_task) sample_request
      = Inr (tk', ev)" "t_status tk' = StatusDone"
    by (auto simp: guarded_transition_task_def transition_task_at_def
        transition_task_unchecked_at_def res_simps sample_task_def sample_request_def
        sample_evidence_def evidence_complete_def uuid_Nil_def can_move_iff)
  have "t_status sample_task = StatusMerging
    \<and> guarded_transition_task ''e1'' 9 (Some sample_task) sample_request = Inr (tk', ev)"
    by (rule top_level_done_from_merging) (use r in \<open>auto simp: sample_task_def\<close>)
  then show ?thesis by blast
qed

end
