(* ===== verification/TaskTransitions.thy ===== *)
theory TaskTransitions
  imports StateMachine
begin

text \<open>
  The persistence boundary of task status changes, \<open>internal/orchestrator/task_transitions.go\<close>
  and \<open>delivery_claim.go\<close>: compare-and-swap updates of the task row together with the audit
  event.  The in-memory \<open>*model.Task\<close> is threaded explicitly: every operation returns the task
  the caller holds afterwards and the outcome of the transaction (an error is a rollback), so that
  what the deferred restore blocks do, and what is not restored, is visible.
\<close>

type_synonym cas_result = "task \<times> (err + db)"

text \<open>The columns \<open>taskTransitionColumns\<close> writes; id, project and creation time stay.\<close>

definition task_transition_columns :: "task \<Rightarrow> task \<Rightarrow> task" where
  "task_transition_columns tk row = row\<lparr>
     t_parent := t_parent tk, t_title := t_title tk, t_description := t_description tk,
     t_status := t_status tk, t_version := t_version tk, t_category := t_category tk,
     t_priority := t_priority tk, t_complexity := t_complexity tk, t_labels := t_labels tk,
     t_deps := t_deps tk, t_agent := t_agent tk, t_plan := t_plan tk,
     t_plan_feedback := t_plan_feedback tk, t_test_plan := t_test_plan tk,
     t_test_feedback := t_test_feedback tk, t_branch := t_branch tk, t_base_sha := t_base_sha tk,
     t_pr_url := t_pr_url tk, t_phase := t_phase tk, t_tests_for := t_tests_for tk,
     t_tdd_exceptions := t_tdd_exceptions tk, t_needs_human := t_needs_human tk,
     t_context := t_context tk, t_updated := t_updated tk\<rparr>"

definition cas_match :: "task \<Rightarrow> task_status \<Rightarrow> task \<Rightarrow> bool" where
  "cas_match tk expected row \<longleftrightarrow>
     t_id row = t_id tk \<and> t_status row = expected \<and> t_version row = t_version tk"

definition cas_request ::
  "task \<Rightarrow> task_status \<Rightarrow> task_status \<Rightarrow> string \<Rightarrow> string \<Rightarrow> string \<Rightarrow> (string \<times> gany) list
   \<Rightarrow> transition_request" where
  "cas_request tk expected target actor source reason refs =
     \<lparr>req_target = target, req_actor = actor, req_expected = expected, req_observed = None,
      req_evidence = \<lparr>ev_task = t_id tk, ev_attempt = uuid_Nil, ev_actor = actor,
        ev_source = source, ev_reason = reason, ev_normalized = [], ev_timestamp = zero_time,
        ev_references = refs\<rparr>\<rparr>"

definition cas_task_transition ::
  "uuid \<Rightarrow> time \<Rightarrow> task \<Rightarrow> task_status \<Rightarrow> task_status \<Rightarrow> string \<Rightarrow> string \<Rightarrow> string
   \<Rightarrow> (string \<times> gany) list \<Rightarrow> db \<Rightarrow> cas_result" where
  "cas_task_transition eid now tk expected target actor source reason refs d =
     (case guarded_transition_task eid now (Some tk)
             (cas_request tk expected target actor source reason refs) of
        Inl e \<Rightarrow> (tk, Inl e)
      | Inr (tk1, ev) \<Rightarrow>
          let tk2 = tk1\<lparr>t_version := t_version tk + 1\<rparr>;
              (rows, affected) = tbl_update (cas_match tk expected)
                                   (task_transition_columns tk2) (db_tasks d)
          in if affected \<noteq> 1 then (tk, Inl ErrStaleTransition)
             else case tbl_create event_conflict ev (db_events d) of
               Inl e \<Rightarrow> (tk, Inl e)
             | Inr evs \<Rightarrow> (tk2, Inr (d\<lparr>db_tasks := rows, db_events := evs\<rparr>)))"

definition transition_task_atomic ::
  "uuid \<Rightarrow> time \<Rightarrow> task \<Rightarrow> task_status \<Rightarrow> string \<Rightarrow> string \<Rightarrow> string
   \<Rightarrow> (string \<times> gany) list \<Rightarrow> db \<Rightarrow> cas_result" where
  "transition_task_atomic eid now tk target actor source reason refs d =
     (case cas_task_transition eid now tk (t_status tk) target actor source reason refs d of
        (tk', Inl e) \<Rightarrow>
          (tk'\<lparr>t_status := t_status tk, t_version := t_version tk, t_updated := t_updated tk\<rparr>, Inl e)
      | (tk', Inr d') \<Rightarrow> (tk', Inr d'))"

definition guarded_task_transition_tx ::
  "uuid \<Rightarrow> time \<Rightarrow> task option \<Rightarrow> task_status \<Rightarrow> string \<Rightarrow> string \<Rightarrow> string
   \<Rightarrow> (string \<times> gany) list \<Rightarrow> db \<Rightarrow> task option \<times> (err + db)" where
  "guarded_task_transition_tx eid now tko target actor source reason refs d =
     (case tko of
        None \<Rightarrow> (None, Inl (ErrMsg ''guarded task transition: transaction and task are required''))
      | Some tk \<Rightarrow> apfst Some
          (cas_task_transition eid now tk (t_status tk) target actor source reason refs d))"

section \<open>Subtask completions\<close>

definition subtask_done_columns :: "task \<Rightarrow> nat \<Rightarrow> task \<Rightarrow> task" where
  "subtask_done_columns tk v row = row\<lparr>t_status := StatusDone, t_version := v, t_agent := None,
     t_context := t_context tk, t_updated := t_updated tk\<rparr>"

text \<open>The part \<open>casSubtaskCompletion\<close> and \<open>casAcceptedExistingSubtask\<close> share: the guard has
  already changed the task in memory, and no deferred block undoes that.\<close>

definition cas_subtask_done :: "nat \<Rightarrow> task_status \<Rightarrow> task \<times> task_event \<Rightarrow> db \<Rightarrow> cas_result" where
  "cas_subtask_done old_version old_status r d =
     (let tk1 = fst r; ev = snd r;
          (rows, affected) = tbl_update
            (\<lambda>row. t_id row = t_id tk1 \<and> t_status row = old_status \<and> t_version row = old_version)
            (subtask_done_columns tk1 (old_version + 1)) (db_tasks d)
      in if affected \<noteq> 1 then (tk1, Inl ErrStaleTransition)
         else let tk2 = tk1\<lparr>t_version := old_version + 1, t_agent := None\<rparr> in
           case tbl_create event_conflict ev (db_events d) of
             Inl e \<Rightarrow> (tk2, Inl e)
           | Inr evs \<Rightarrow> (tk2, Inr (d\<lparr>db_tasks := rows, db_events := evs\<rparr>)))"

definition cas_subtask_completion ::
  "uuid \<Rightarrow> time \<Rightarrow> task \<Rightarrow> string \<Rightarrow> (string \<times> gany) list \<Rightarrow> db \<Rightarrow> cas_result" where
  "cas_subtask_completion eid now tk actor refs d =
     (case guarded_complete_subtask eid now (Some tk)
        \<lparr>req_target = StatusDone, req_actor = actor, req_expected = t_status tk, req_observed = None,
         req_evidence = \<lparr>ev_task = t_id tk, ev_attempt = uuid_Nil, ev_actor = actor,
           ev_source = ''agent_completion'', ev_reason = ''worker completion accepted'',
           ev_normalized = ''accepted_worker_completion'', ev_timestamp = now,
           ev_references = refs\<rparr>\<rparr> of
        Inl e \<Rightarrow> (tk, Inl e)
      | Inr r \<Rightarrow> cas_subtask_done (t_version tk) (task_status_of (te_old (snd r))) r d)"

definition cas_accepted_existing_subtask ::
  "uuid \<Rightarrow> time \<Rightarrow> task \<Rightarrow> (string \<times> gany) list \<Rightarrow> db \<Rightarrow> cas_result" where
  "cas_accepted_existing_subtask eid now tk refs d =
     (case guarded_accept_existing_subtask eid now (Some tk)
        \<lparr>req_target = StatusDone, req_actor = ''orchestrator'', req_expected = t_status tk,
         req_observed = None,
         req_evidence = \<lparr>ev_task = t_id tk, ev_attempt = uuid_Nil, ev_actor = ''orchestrator'',
           ev_source = ''dedup_existing_work'',
           ev_reason = ''estimated files and commit evidence already present'',
           ev_normalized = ''accepted_existing_work'', ev_timestamp = now,
           ev_references = refs\<rparr>\<rparr> of
        Inl e \<Rightarrow> (tk, Inl e)
      | Inr r \<Rightarrow> cas_subtask_done (t_version tk) (task_status_of (te_old (snd r))) r d)"

text \<open>\<open>casCodexAdoptedSubtask\<close> of \<open>codex_adoption.go\<close>; here the agent is cleared in the row
  only, the task in memory keeps it.\<close>

definition cas_codex_adopted_subtask ::
  "uuid \<Rightarrow> time \<Rightarrow> task \<Rightarrow> string \<Rightarrow> (string \<times> gany) list \<Rightarrow> db \<Rightarrow> cas_result" where
  "cas_codex_adopted_subtask eid now tk actor refs d =
     (case guarded_adopt_failed_subtask eid now (Some tk)
        \<lparr>req_target = StatusDone, req_actor = actor, req_expected = StatusFailed,
         req_observed = None,
         req_evidence = \<lparr>ev_task = t_id tk, ev_attempt = uuid_Nil, ev_actor = actor,
           ev_source = ''codex_adapter_adoption'',
           ev_reason = ''deterministically admitted host correction'',
           ev_normalized = ''accepted_codex_adoption'', ev_timestamp = now,
           ev_references = refs\<rparr>\<rparr> of
        Inl e \<Rightarrow> (tk, Inl e)
      | Inr (tk1, ev) \<Rightarrow>
          let (rows, affected) = tbl_update (cas_match tk StatusFailed)
                (subtask_done_columns tk1 (t_version tk + 1)) (db_tasks d)
          in if affected \<noteq> 1 then (tk1, Inl ErrStaleTransition)
             else let tk2 = tk1\<lparr>t_version := t_version tk + 1\<rparr> in
               case tbl_create event_conflict ev (db_events d) of
                 Inl e \<Rightarrow> (tk2, Inl e)
               | Inr evs \<Rightarrow> (tk2, Inr (d\<lparr>db_tasks := rows, db_events := evs\<rparr>)))"

definition cas_invalidate_completed_test_subtask ::
  "uuid \<Rightarrow> time \<Rightarrow> task \<Rightarrow> task_status \<Rightarrow> string \<Rightarrow> string \<Rightarrow> (string \<times> gany) list \<Rightarrow> db
   \<Rightarrow> cas_result" where
  "cas_invalidate_completed_test_subtask eid now tk target actor reason refs d =
     (case guarded_invalidate_completed_test_subtask eid now (Some tk)
        \<lparr>req_target = target, req_actor = actor, req_expected = StatusDone, req_observed = None,
         req_evidence = \<lparr>ev_task = t_id tk, ev_attempt = uuid_Nil, ev_actor = actor,
           ev_source = ''review_gate'', ev_reason = reason, ev_normalized = [],
           ev_timestamp = now, ev_references = refs\<rparr>\<rparr> of
        Inl e \<Rightarrow> (tk, Inl e)
      | Inr (tk1, ev) \<Rightarrow>
          let tk2 = tk1\<lparr>t_version := t_version tk + 1, t_agent := None\<rparr>;
              (rows, affected) = tbl_update (cas_match tk StatusDone)
                (\<lambda>row. row\<lparr>t_status := t_status tk2, t_version := t_version tk2, t_agent := None,
                   t_context := t_context tk2, t_updated := t_updated tk2\<rparr>) (db_tasks d)
          in if affected \<noteq> 1 then (tk, Inl ErrStaleTransition)
             else case tbl_create event_conflict ev (db_events d) of
               Inl e \<Rightarrow> (tk, Inl e)
             | Inr evs \<Rightarrow> (tk2, Inr (d\<lparr>db_tasks := rows, db_events := evs\<rparr>)))"

definition cas_supersede_completed_test_subtask ::
  "uuid \<Rightarrow> time \<Rightarrow> task \<Rightarrow> string \<Rightarrow> (string \<times> gany) list \<Rightarrow> db \<Rightarrow> cas_result" where
  "cas_supersede_completed_test_subtask eid now tk actor refs d =
     cas_invalidate_completed_test_subtask eid now tk StatusRejected actor
       ''completed test subtask superseded after review rejection'' refs d"

definition cas_fail_completed_test_subtask ::
  "uuid \<Rightarrow> time \<Rightarrow> task \<Rightarrow> string \<Rightarrow> (string \<times> gany) list \<Rightarrow> db \<Rightarrow> cas_result" where
  "cas_fail_completed_test_subtask eid now tk actor refs d =
     cas_invalidate_completed_test_subtask eid now tk StatusFailed actor
       ''automated review rejected test subtask; Codex correction required'' refs d"

section \<open>Claiming a recovered subtask\<close>

definition cas_claim_in_progress_subtask ::
  "uuid \<Rightarrow> time \<Rightarrow> task option \<Rightarrow> uuid \<Rightarrow> string \<Rightarrow> string \<Rightarrow> db \<Rightarrow> task option \<times> (err + db)" where
  "cas_claim_in_progress_subtask eid now tko agent actor source d = (case tko of
     None \<Rightarrow> (None, Inl (ErrMsg ''only an in-progress subtask may be claimed''))
   | Some tk \<Rightarrow>
     if t_parent tk = None \<or> t_status tk \<noteq> StatusInProgress
     then (Some tk, Inl (ErrMsg ''only an in-progress subtask may be claimed''))
     else if t_agent tk \<noteq> None then (Some tk, Inl ErrStaleTransition)
     else
       let tk1 = tk\<lparr>t_agent := Some agent, t_version := t_version tk + 1, t_updated := now\<rparr>;
           (rows, affected) = tbl_update
             (\<lambda>row. cas_match tk StatusInProgress row \<and> t_agent row = None)
             (\<lambda>row. row\<lparr>t_agent := Some agent, t_version := t_version tk1, t_updated := now\<rparr>)
             (db_tasks d);
           ev = \<lparr>te_id = eid, te_task = t_id tk, te_type = ''subtask_claimed'',
             te_old = task_status_string StatusInProgress,
             te_new = task_status_string StatusInProgress,
             te_details = Some [''evidence'' \<mapsto> GMap
               [(''task_id'', GStr (t_id tk)), (''actor'', GStr actor), (''source'', GStr source),
                (''reason'', GStr ''unassigned in-progress subtask claimed''),
                (''timestamp'', GTime now),
                (''references'', GMap [(''agent_id'', GStr agent)])]],
             te_actor = actor, te_created = now\<rparr>
       in if affected \<noteq> 1 then (Some tk, Inl ErrStaleTransition)
          else case tbl_create event_conflict ev (db_events d) of
            Inl e \<Rightarrow> (Some tk, Inl e)
          | Inr evs \<Rightarrow> (Some tk1, Inr (d\<lparr>db_tasks := rows, db_events := evs\<rparr>)))"


section \<open>The effect of a successful swap\<close>

definition cas_event :: "task \<Rightarrow> task \<Rightarrow> task_event \<Rightarrow> bool" where
  "cas_event tk tk' ev \<longleftrightarrow> te_task ev = t_id tk \<and> te_type ev = ''status_change''
     \<and> te_old ev = task_status_string (t_status tk)
     \<and> te_new ev = task_status_string (t_status tk')"

definition cas_rows :: "task \<Rightarrow> task_status \<Rightarrow> task \<Rightarrow> task list \<Rightarrow> task list" where
  "cas_rows tk expected tk' rows =
     map (\<lambda>r. if cas_match tk expected r then task_transition_columns tk' r else r) rows"

lemma guarded_cas_request_Inr:
  assumes "guarded_transition_task eid now (Some tk)
    (cas_request tk expected target actor source reason refs) = Inr (tk1, ev)"
  shows "can_move (t_status tk) target" "tk1 = tk\<lparr>t_status := target, t_updated := now\<rparr>"
    "te_id ev = eid" "cas_event tk tk1 ev" "expected = StatusOther [] \<or> t_status tk = expected"
  using assms
  by (auto simp: guarded_transition_task_def transition_task_at_def cas_request_def cas_event_def
      transition_task_unchecked_at_def evidence_timestamp_def res_simps split: if_splits)

lemma cas_task_transition_Inr:
  assumes "cas_task_transition eid now tk expected target actor source reason refs d = (tk', Inr d')"
  shows "can_move (t_status tk) target"
    and "tk' = tk\<lparr>t_status := target, t_version := t_version tk + 1, t_updated := now\<rparr>"
    and "length (filter (cas_match tk expected) (db_tasks d)) = 1"
    and "\<exists>ev. te_id ev = eid \<and> cas_event tk tk' ev
           \<and> (\<forall>x \<in> set (db_events d). \<not> event_conflict ev x)
           \<and> d' = d\<lparr>db_tasks := cas_rows tk expected tk' (db_tasks d),
                     db_events := db_events d @ [ev]\<rparr>"
proof -
  obtain tk1 ev where g: "guarded_transition_task eid now (Some tk)
      (cas_request tk expected target actor source reason refs) = Inr (tk1, ev)"
    using assms by (auto simp: cas_task_transition_def split: sum.splits)
  note G = guarded_cas_request_Inr [OF g]
  have R: "tk' = tk1\<lparr>t_version := t_version tk + 1\<rparr>
    \<and> length (filter (cas_match tk expected) (db_tasks d)) = 1
    \<and> (\<forall>x \<in> set (db_events d). \<not> event_conflict ev x)
    \<and> d' = d\<lparr>db_tasks := cas_rows tk expected tk' (db_tasks d), db_events := db_events d @ [ev]\<rparr>"
    using assms
    by (auto simp: cas_task_transition_def g tbl_update_def res_simps Let_def cas_rows_def
        split: sum.splits if_splits)
  from G(1) show "can_move (t_status tk) target" .
  from R G(2) show "tk' = tk\<lparr>t_status := target, t_version := t_version tk + 1, t_updated := now\<rparr>"
    by simp
  from R show "length (filter (cas_match tk expected) (db_tasks d)) = 1" by blast
  from R G(2,3,4) show "\<exists>ev. te_id ev = eid \<and> cas_event tk tk' ev
      \<and> (\<forall>x \<in> set (db_events d). \<not> event_conflict ev x)
      \<and> d' = d\<lparr>db_tasks := cas_rows tk expected tk' (db_tasks d), db_events := db_events d @ [ev]\<rparr>"
    by (intro exI [of _ ev]) (simp add: cas_event_def)
qed

lemma cas_task_transition_Inl:
  "cas_task_transition eid now tk expected target actor source reason refs d = (tk', Inl e) \<Longrightarrow>
     tk' = tk"
  by (auto simp: cas_task_transition_def Let_def split: sum.splits if_splits prod.splits)

lemma task_transition_columns_simps [simp]:
  "t_id (task_transition_columns tk r) = t_id r"
  "t_project (task_transition_columns tk r) = t_project r"
  "t_created (task_transition_columns tk r) = t_created r"
  "t_status (task_transition_columns tk r) = t_status tk"
  "t_version (task_transition_columns tk r) = t_version tk"
  "t_parent (task_transition_columns tk r) = t_parent tk"
  by (simp_all add: task_transition_columns_def)

lemma cas_rows_id: "map t_id (cas_rows tk expected tk' rows) = map t_id rows"
  by (simp add: cas_rows_def)

lemma cas_rows_uniq: "uniq task_conflict rows \<Longrightarrow> uniq task_conflict (cas_rows tk expected tk' rows)"
  unfolding cas_rows_def
  by (rule tasks.update_uniq) (auto simp: task_conflict_def split: if_splits)

lemma length_filter_one: "length (filter P xs) = 1 \<Longrightarrow> \<exists>x \<in> set xs. P x"
  by (metis One_nat_def filter_False length_0_conv list.size(3) nat.simps(3))

section \<open>Properties of the persistence boundary\<close>

text \<open>A compare-and-swap that succeeds changes one task row, moves it along the transition
  table, raises its version by one, keeps its id, project and creation time, appends exactly one
  audit event naming both statuses, and leaves every other row and table as it was.\<close>

theorem cas_changes_one_row:
  assumes "cas_task_transition eid now tk expected target actor source reason refs d = (tk', Inr d')"
  shows "\<exists>r. r \<in> set (db_tasks d) \<and> t_id r = t_id tk \<and> t_version r = t_version tk
      \<and> t_status r = expected \<and> can_move (t_status tk) target
      \<and> task_transition_columns tk' r \<in> set (db_tasks d')
      \<and> t_status tk' = target \<and> t_version tk' = t_version tk + 1
      \<and> (\<forall>x \<in> set (db_tasks d). t_id x \<noteq> t_id tk \<longrightarrow> x \<in> set (db_tasks d'))
      \<and> map t_id (db_tasks d') = map t_id (db_tasks d)
      \<and> (\<exists>ev. db_events d' = db_events d @ [ev] \<and> cas_event tk tk' ev)
      \<and> d' = d\<lparr>db_tasks := db_tasks d', db_events := db_events d'\<rparr>"
proof -
  note eff = cas_task_transition_Inr [OF assms]
  from length_filter_one [OF eff(3)] obtain r
    where r: "r \<in> set (db_tasks d)" "cas_match tk expected r" by blast
  from eff(4) obtain ev where d': "d' = d\<lparr>db_tasks := cas_rows tk expected tk' (db_tasks d),
      db_events := db_events d @ [ev]\<rparr>" and ev: "cas_event tk tk' ev" by blast
  from r have "task_transition_columns tk' r \<in> set (db_tasks d')"
    by (auto simp: d' cas_rows_def intro!: image_eqI)
  moreover have "\<forall>x \<in> set (db_tasks d). t_id x \<noteq> t_id tk \<longrightarrow> x \<in> set (db_tasks d')"
    by (auto simp: d' cas_rows_def cas_match_def intro!: image_eqI)
  ultimately show ?thesis
    using r ev eff(1,2) by (intro exI [of _ r]) (auto simp: d' cas_rows_id cas_match_def)
qed

text \<open>At most one of two workers that observed the same version of a task wins: after one
  swap succeeded, any other swap of that task that starts from the observed version fails, whatever
  statuses it names.\<close>

theorem cas_exclusive:
  assumes "uniq task_conflict (db_tasks d)"
    and "cas_task_transition eid now tk expected target actor source reason refs d = (tk', Inr d')"
    and "t_id other = t_id tk" "t_version other = t_version tk"
  shows "\<exists>e. cas_task_transition eid2 now2 other expected2 target2 actor2 source2 reason2 refs2 d'
     = (other, Inl e)"
proof -
  note eff = cas_task_transition_Inr [OF assms(2)]
  from length_filter_one [OF eff(3)] obtain r
    where r: "r \<in> set (db_tasks d)" "cas_match tk expected r" by blast
  have one: "x = r" if "x \<in> set (db_tasks d)" "t_id x = t_id tk" for x
    using tasks.uniq_eq [OF assms(1) that(1) r(1)] that(2) r(2)
    by (simp add: task_conflict_def cas_match_def)
  have none: "filter (cas_match other expected2) (db_tasks d') = []"
  proof -
    have "\<not> cas_match other expected2 x" if "x \<in> set (db_tasks d')" for x
    proof -
      from that eff(4) obtain y where y: "y \<in> set (db_tasks d)"
        "x = (if cas_match tk expected y then task_transition_columns tk' y else y)"
        by (auto simp: cas_rows_def)
      show ?thesis
      proof (cases "t_id y = t_id tk")
        case True
        with one y(1) have "y = r" by simp
        with y(2) r(2) eff(2) assms(4) show ?thesis by (simp add: cas_match_def)
      next
        case False
        with y(2) assms(3) show ?thesis by (auto simp: cas_match_def)
      qed
    qed
    then show ?thesis by (simp add: filter_empty_conv)
  qed
  show ?thesis
  proof (cases "cas_task_transition eid2 now2 other expected2 target2 actor2 source2 reason2 refs2 d'")
    case (Pair t2 res)
    then show ?thesis
    proof (cases res)
      case (Inl e)
      with Pair cas_task_transition_Inl show ?thesis by blast
    next
      case (Inr d2)
      with cas_task_transition_Inr(3) [of eid2 now2 other expected2 target2] Pair none
      show ?thesis by fastforce
    qed
  qed
qed

definition sample_db :: db where
  "sample_db = \<lparr>db_tasks = [sample_task], db_events = [], db_artifacts = [], db_gate_runs = [],
     db_verifications = [], db_interactions = [], db_authorizations = [], db_reworks = [],
     db_sessions = [], db_submissions = [], db_intents = [], db_completions = [],
     db_attempts = [], db_specifications = [], db_criteria = []\<rparr>"

lemma sample_cas:
  "\<exists>tk' d'. cas_task_transition ''e1'' 9 sample_task StatusMerging StatusFailed ''a'' ''s'' ''r'' []
     sample_db = (tk', Inr d')"
  by (simp add: cas_task_transition_def guarded_transition_task_def transition_task_at_def
      transition_task_unchecked_at_def cas_request_def validate_evidence_def
      validate_transition_def tbl_update_def tbl_create_def sample_db_def sample_task_def
      uuid_Nil_def cas_match_def evidence_timestamp_def Let_def)

theorem cas_changes_one_row_witness:
  "\<exists>tk' d' ev. cas_task_transition ''e1'' 9 sample_task StatusMerging StatusFailed ''a'' ''s'' ''r'' []
     sample_db = (tk', Inr d') \<and> db_events d' = [ev]"
proof -
  obtain tk' d' where c: "cas_task_transition ''e1'' 9 sample_task StatusMerging StatusFailed
      ''a'' ''s'' ''r'' [] sample_db = (tk', Inr d')" using sample_cas by blast
  with cas_changes_one_row [OF c] show ?thesis by (auto simp: sample_db_def)
qed

theorem cas_exclusive_witness:
  "\<exists>tk' d' e. cas_task_transition ''e1'' 9 sample_task StatusMerging StatusFailed ''a'' ''s'' ''r'' []
     sample_db = (tk', Inr d')
   \<and> cas_task_transition ''e2'' 9 sample_task StatusMerging StatusDone ''b'' ''s'' ''r'' [] d'
     = (sample_task, Inl e)"
proof -
  obtain tk' d' where c: "cas_task_transition ''e1'' 9 sample_task StatusMerging StatusFailed
      ''a'' ''s'' ''r'' [] sample_db = (tk', Inr d')" using sample_cas by blast
  have "uniq task_conflict (db_tasks sample_db)" by (simp add: sample_db_def uniq_def)
  from cas_exclusive [OF this c refl refl] c show ?thesis by blast
qed

lemma task_status_of_string [simp]:
  "task_status_of (task_status_string s) = (case s of StatusOther t \<Rightarrow> task_status_of t | _ \<Rightarrow> s)"
  by (cases s) (simp_all add: task_status_of_def all_task_statuses_def)

lemma guarded_complete_Inr:
  "guarded_complete_subtask eid now (Some tk) req = Inr (tk', ev) \<Longrightarrow>
     t_parent tk \<noteq> None \<and> t_status tk \<in> {StatusInProgress, StatusTestWriting}
     \<and> t_status tk' = StatusDone \<and> records_transition tk tk' ev \<and> te_id ev = eid"
  by (auto simp: guarded_complete_subtask_def dest!: guarded_unchecked_Inr split: if_splits)

text \<open>\<open>casTaskTransition\<close> and \<open>transitionTaskAtomic\<close> give the caller's task back unchanged
  when they fail, while a lost race in \<open>casSubtaskCompletion\<close> leaves the caller with a task that
  says \<open>done\<close> although the database row was not updated.\<close>

theorem failed_swap_in_memory:
  "(cas_task_transition eid now tk expected target actor source reason refs d = (tk', Inl e)
      \<longrightarrow> tk' = tk)
   \<and> (transition_task_atomic eid now tk target actor source reason refs d = (tk', Inl e)
      \<longrightarrow> tk' = tk)
   \<and> (cas_subtask_completion eid now tk actor refs d = (tk', Inl ErrStaleTransition)
      \<longrightarrow> t_status tk' = StatusDone \<and> t_version tk' = t_version tk)"
proof (intro conjI impI)
  show "tk' = tk"
    if "cas_task_transition eid now tk expected target actor source reason refs d = (tk', Inl e)"
    using cas_task_transition_Inl [OF that] .
  show "tk' = tk"
    if "transition_task_atomic eid now tk target actor source reason refs d = (tk', Inl e)"
    using that by (auto simp: transition_task_atomic_def dest!: cas_task_transition_Inl
        split: prod.splits sum.splits)
next
  assume a: "cas_subtask_completion eid now tk actor refs d = (tk', Inl ErrStaleTransition)"
  then show "t_status tk' = StatusDone" "t_version tk' = t_version tk"
    by (auto simp: cas_subtask_completion_def cas_subtask_done_def Let_def tbl_create_def
        guarded_complete_subtask_def guarded_unchecked_def transition_task_unchecked_at_def
        res_bind_def validate_evidence_def
        split: sum.splits if_splits prod.splits)
qed

theorem failed_swap_in_memory_witness:
  "\<exists>tk'. cas_subtask_completion ''e1'' 9
       (sample_task\<lparr>t_parent := Some ''p'', t_status := StatusInProgress\<rparr>) ''a'' [] sample_db
     = (tk', Inl ErrStaleTransition) \<and> t_status tk' = StatusDone"
proof -
  let ?tk = "sample_task\<lparr>t_parent := Some ''p'', t_status := StatusInProgress\<rparr>"
  obtain tk' where c: "cas_subtask_completion ''e1'' 9 ?tk ''a'' [] sample_db
      = (tk', Inl ErrStaleTransition)"
    by (simp add: cas_subtask_completion_def cas_subtask_done_def guarded_complete_subtask_def
        guarded_unchecked_def transition_task_unchecked_at_def res_bind_def validate_evidence_def
        sample_task_def sample_db_def uuid_Nil_def tbl_update_def Let_def task_status_of_def
        all_task_statuses_def)
  then have "t_status tk' = StatusDone"
    using failed_swap_in_memory [of "''e1''" 9 ?tk] by blast
  with c show ?thesis by blast
qed

section \<open>Transactions\<close>

text \<open>\<open>o.db.Transaction(f)\<close>: an error of \<open>f\<close> leaves the database as it was.\<close>

definition transaction :: "(db \<Rightarrow> err + 'r \<times> db) \<Rightarrow> db \<Rightarrow> (err + 'r) \<times> db" where
  "transaction f d = (case f d of Inl e \<Rightarrow> (Inl e, d) | Inr (r, d') \<Rightarrow> (Inr r, d'))"

lemma transaction_cases:
  assumes "transaction f d = (res, d')"
  obtains e where "f d = Inl e" "res = Inl e" "d' = d"
    | r where "f d = Inr (r, d')" "res = Inr r"
  using assms by (auto simp: transaction_def split: sum.splits prod.splits)

lemma transaction_Inr: "transaction f d = (Inr r, d') \<longleftrightarrow> f d = Inr (r, d')"
  by (auto simp: transaction_def split: sum.splits prod.splits)

text \<open>A call of \<open>casTaskTransition\<close> as the last statement of a transaction.\<close>

definition cas_tx ::
  "uuid \<Rightarrow> time \<Rightarrow> task \<Rightarrow> task_status \<Rightarrow> task_status \<Rightarrow> string \<Rightarrow> string \<Rightarrow> string
   \<Rightarrow> (string \<times> gany) list \<Rightarrow> db \<Rightarrow> err + db" where
  "cas_tx eid now tk expected target actor source reason refs d =
     snd (cas_task_transition eid now tk expected target actor source reason refs d)"

end
