(* ===== verification/DeliveryValidation.thy ===== *)
theory DeliveryValidation
  imports TaskTransitions
begin

text \<open>
  The requests of the delivery protocol (\<open>delivery_state.go\<close>, \<open>host_rework.go\<close>) and their
  validation (\<open>delivery_validation.go\<close> and the validators of \<open>host_rework.go\<close>).  Checks are in
  the source's order, so the first failing check determines the error.
\<close>

record artifact_snapshot =
  as_branch :: string
  as_commit :: string
  as_base_branch :: string
  as_base :: string
  as_workspace :: string
  as_environment :: string
  as_evidence :: "command_evidence list"
  as_actor :: string
  as_source :: string

record interaction_evidence =
  ie_criterion :: string
  ie_scenario :: string
  ie_steps :: "interaction_step list"
  ie_observed :: string
  ie_refs :: "interaction_evidence_ref list"
  ie_app_version :: string
  ie_host :: string
  ie_pid :: int
  ie_result :: verification_result
  ie_discrepancy :: string

record verify_request =
  vq_task :: uuid
  vq_observed :: nat
  vq_version :: nat
  vq_commit :: string
  vq_actor :: string
  vq_source :: string
  vq_environment :: string
  vq_evidence :: "command_evidence list"
  vq_binary :: string
  vq_result :: verification_result
  vq_notes :: string
  vq_interactions :: "interaction_evidence list"
  vq_failure_mode :: delivery_rework_mode
  vq_failure_reason :: string
  vq_scope :: "string list"
  vq_attestation :: host_direct_attestation
  vq_key :: string

record integrate_request =
  iq_task :: uuid
  iq_observed :: nat
  iq_version :: nat
  iq_commit :: string
  iq_verification :: uuid
  iq_actor :: string
  iq_source :: string
  iq_key :: string

record rework_request =
  rq_task :: uuid
  rq_observed :: nat
  rq_version :: nat
  rq_commit :: string
  rq_actor :: string
  rq_source :: string
  rq_reason :: string
  rq_mode :: delivery_rework_mode
  rq_scope :: "string list"
  rq_attestation :: host_direct_attestation
  rq_key :: string

record submit_request =
  sq_task :: uuid
  sq_observed :: nat
  sq_session :: uuid
  sq_commit :: string
  sq_actor :: string
  sq_source :: string
  sq_key :: string

record abandon_request =
  bq_task :: uuid
  bq_observed :: nat
  bq_session :: uuid
  bq_actor :: string
  bq_source :: string
  bq_reason :: string
  bq_key :: string

abbreviation blank :: "string \<Rightarrow> bool" where
  "blank s \<equiv> trim_space s = []"

section \<open>Object identifiers and paths\<close>

definition valid_object_id :: "string \<Rightarrow> bool" where
  "valid_object_id raw = (let r = trim_space raw in
     (length r = 40 \<or> length r = 64) \<and> list_all is_hex r)"

definition valid_sha256 :: "string \<Rightarrow> bool" where
  "valid_sha256 raw = (let r = trim_space raw in length r = 64 \<and> list_all is_hex r)"

text \<open>The regular expression \<open>^[A-Za-z0-9][A-Za-z0-9._:-]*$\<close>.\<close>

definition is_alnum :: "char \<Rightarrow> bool" where
  "is_alnum c = (let n = of_char c :: nat in
     (48 \<le> n \<and> n \<le> 57) \<or> (65 \<le> n \<and> n \<le> 90) \<or> (97 \<le> n \<and> n \<le> 122))"

definition host_evidence_id :: "string \<Rightarrow> bool" where
  "host_evidence_id s = (case s of [] \<Rightarrow> False
     | c # cs \<Rightarrow> is_alnum c \<and> list_all (\<lambda>x. is_alnum x \<or> x \<in> set ''._:-'') cs)"

text \<open>\<open>path.Clean\<close>: the components are pushed on a stack; \<open>..\<close> removes the last real one.\<close>

fun clean_parts :: "bool \<Rightarrow> string list \<Rightarrow> string list \<Rightarrow> string list" where
  "clean_parts rooted stack [] = rev stack"
| "clean_parts rooted stack (p # ps) =
     (if p = [] \<or> p = ''.'' then clean_parts rooted stack ps
      else if p = ''..'' then
        (case stack of
           [] \<Rightarrow> clean_parts rooted (if rooted then [] else [''..'']) ps
         | q # qs \<Rightarrow> if q = ''..'' then clean_parts rooted (''..'' # stack) ps
                     else clean_parts rooted qs ps)
      else clean_parts rooted (p # stack) ps)"

definition path_clean :: "string \<Rightarrow> string" where
  "path_clean p =
     (let rooted = has_prefix ''/'' p;
          out = (if rooted then ''/'' else []) @ str_join ''/'' (clean_parts rooted [] (split_on CHR ''/'' p))
      in if out = [] then ''.'' else out)"

definition valid_host_scope :: "string \<Rightarrow> bool" where
  "valid_host_scope raw0 =
     (let raw = trim_space (replace_char (CHR 0x5C) CHR ''/'' raw0) in
      if raw = [] \<or> has_prefix ''/'' raw \<or> CHR 0x00 \<in> set raw then False
      else let clean = path_clean raw in
        clean = raw \<and> clean \<noteq> ''.'' \<and> clean \<noteq> ''..'' \<and> \<not> has_prefix ''../'' clean)"

definition path_allowed :: "string \<Rightarrow> string list \<Rightarrow> bool" where
  "path_allowed changed0 allowed =
     (let changed = trim_space (replace_char (CHR 0x5C) CHR ''/'' changed0) in
      list_ex (\<lambda>raw. let scope = trim_suffix ''/'' raw in
        changed = scope \<or> has_prefix (scope @ ''/'') changed) allowed)"

section \<open>Validators\<close>

fun validate_command_evidence :: "command_evidence list \<Rightarrow> bool \<Rightarrow> err + unit" where
  "validate_command_evidence [] require_all_passed = Inr ()"
| "validate_command_evidence (c # cs) require_all_passed =
     (if blank (ce_command c) then Inl (ErrMsg ''command evidence has an empty command'')
      else if ce_started c = zero_time \<or> ce_finished c = zero_time \<or> ce_finished c < ce_started c
      then Inl (ErrMsg ''command evidence has invalid timestamps'')
      else if require_all_passed \<and> (\<not> ce_passed c \<or> ce_exit_code c \<noteq> 0)
      then Inl (ErrMsg ''passing verification contains failed command evidence'')
      else validate_command_evidence cs require_all_passed)"

definition validate_artifact_snapshot :: "artifact_snapshot \<Rightarrow> err + unit" where
  "validate_artifact_snapshot s =
     (if blank (as_branch s) \<or> blank (as_base_branch s)
      then Inl (ErrMsg ''delivery artifact: branch and base branch are required'')
      else if \<not> valid_object_id (as_commit s) \<or> \<not> valid_object_id (as_base s)
      then Inl (ErrMsg ''delivery artifact: commit and base must be full Git object IDs'')
      else if blank (as_actor s) \<or> blank (as_source s)
      then Inl (ErrMsg ''delivery artifact: actor and source are required'')
      else if blank (as_workspace s) \<or> blank (as_environment s)
      then Inl (ErrMsg ''delivery artifact: gate workspace and environment fingerprint are required'')
      else if as_evidence s = []
      then Inl (ErrMsg ''delivery artifact: preliminary evidence is required'')
      else validate_command_evidence (as_evidence s) True)"

definition validate_host_direct_request ::
  "string \<Rightarrow> string \<Rightarrow> string list \<Rightarrow> host_direct_attestation \<Rightarrow> err + unit" where
  "validate_host_direct_request actor reason scope att =
     (if blank actor \<or> trim_space actor = ''user''
      then Inl (ErrMsg ''host rework: a specific actor is required'')
      else if blank reason then Inl (ErrMsg ''host rework: reason is required'')
      else if scope = []
      then Inl (ErrMsg ''host rework: at least one allowed repository path is required'')
      else if \<not> list_all valid_host_scope scope
      then Inl (ErrMsg ''host rework: invalid allowed scope'')
      else if \<not> at_criteria_unchanged att \<or> \<not> at_dependency_unchanged att
           \<or> \<not> at_no_persistence att \<or> \<not> at_no_security att
           \<or> \<not> at_no_cross_process att \<or> \<not> at_no_build_policy att
      then Inl (ErrMsg ''host rework: every bounded-risk attestation must be true'')
      else Inr ())"

definition valid_evidence_ref :: "interaction_evidence_ref \<Rightarrow> bool" where
  "valid_evidence_ref r \<longleftrightarrow> host_evidence_id (trim_space (ir_artifact r))
     \<and> valid_sha256 (ir_sha256 r)
     \<and> (has_prefix ''image/'' (ir_media_type r) \<or> has_prefix ''video/'' (ir_media_type r))"

text \<open>The loop over the interactions: the seen scenario keys and whether one failed.  The result
  is the final value of \<open>failed\<close>.\<close>

fun interaction_loop ::
  "string list \<Rightarrow> bool \<Rightarrow> interaction_evidence list \<Rightarrow> err + bool" where
  "interaction_loop seen failed [] = Inr failed"
| "interaction_loop seen failed (i # is) =
     (let key = ie_criterion i @ [CHR 0x00] @ ie_scenario i in
      if \<not> host_evidence_id (trim_space (ie_criterion i)) \<or> blank (ie_scenario i)
      then Inl (ErrMsg ''verify delivery: interaction requires a stable criterion ID and scenario name'')
      else if key \<in> set seen
      then Inl (ErrMsg ''verify delivery: duplicate interaction scenario'')
      else if ie_steps i = [] \<or> blank (ie_observed i) \<or> blank (ie_app_version i)
           \<or> blank (ie_host i) \<or> ie_pid i \<le> 0
      then Inl (ErrMsg ''verify delivery: interaction lacks steps, observed result, version, host or PID'')
      else if list_ex (\<lambda>s. blank (is_action s) \<or> blank (is_observed s)) (ie_steps i)
      then Inl (ErrMsg ''verify delivery: interaction step requires action and observation'')
      else if ie_refs i = []
      then Inl (ErrMsg ''verify delivery: interaction requires content-addressed evidence'')
      else if \<not> list_all valid_evidence_ref (ie_refs i)
      then Inl (ErrMsg ''verify delivery: interaction evidence is not a valid reference'')
      else if ie_result i \<noteq> VerificationPassed \<and> ie_result i \<noteq> VerificationFailed
      then Inl (ErrMsg ''verify delivery: interaction result must be pass or fail'')
      else if ie_result i = VerificationFailed \<and> blank (ie_discrepancy i)
      then Inl (ErrMsg ''verify delivery: failed interaction requires a discrepancy'')
      else interaction_loop (key # seen) (failed \<or> ie_result i = VerificationFailed) is)"

definition validate_verification_interactions :: "verify_request \<Rightarrow> err + unit" where
  "validate_verification_interactions req =
     (if vq_interactions req = [] then Inr ()
      else if \<not> valid_sha256 (vq_binary req)
      then Inl (ErrMsg ''verify delivery: Computer Use evidence requires the exact binary SHA-256'')
      else res_bind (interaction_loop [] False (vq_interactions req)) (\<lambda>failed.
        if vq_result req = VerificationPassed \<and> failed
        then Inl (ErrMsg ''verify delivery: passing verification contains a failed interaction'')
        else if vq_result req = VerificationFailed \<and> \<not> failed
        then Inl (ErrMsg ''verify delivery: failed Computer Use verification requires a failed interaction'')
        else Inr ()))"

definition normalize_verify_request :: "verify_request \<Rightarrow> verify_request" where
  "normalize_verify_request req =
     (if vq_result req = VerificationFailed then
        let req1 = (if vq_failure_mode req = DeliveryReworkOther []
                    then req\<lparr>vq_failure_mode := DeliveryReworkOrchestrated\<rparr> else req)
        in (if blank (vq_failure_reason req1)
            then req1\<lparr>vq_failure_reason := ''verification failed''\<rparr> else req1)
      else req)"

definition validate_verify_request :: "verify_request \<Rightarrow> err + unit" where
  "validate_verify_request req =
     (if vq_task req = uuid_Nil \<or> vq_observed req = 0 \<or> vq_version req = 0
      then Inl (ErrMsg ''verify delivery: task ID, observed state version, and artifact version are required'')
      else if \<not> valid_object_id (vq_commit req)
      then Inl (ErrMsg ''verify delivery: full commit SHA is required'')
      else if blank (vq_actor req) \<or> blank (vq_source req) \<or> blank (vq_environment req)
           \<or> blank (vq_key req)
      then Inl (ErrMsg ''verify delivery: actor, source, environment fingerprint, and idempotency key are required'')
      else if vq_result req \<noteq> VerificationPassed \<and> vq_result req \<noteq> VerificationFailed
      then Inl (ErrMsg ''verify delivery: result must be pass or fail'')
      else if vq_evidence req = []
      then Inl (ErrMsg ''verify delivery: command evidence is required'')
      else res_bind (validate_command_evidence (vq_evidence req)
                       (vq_result req = VerificationPassed)) (\<lambda>_.
      if vq_binary req \<noteq> [] \<and> \<not> valid_sha256 (vq_binary req)
      then Inl (ErrMsg ''verify delivery: binary SHA-256 must be 64 hexadecimal characters'')
      else res_bind (validate_verification_interactions req) (\<lambda>_.
      if vq_result req = VerificationPassed then
        (if vq_failure_mode req \<noteq> DeliveryReworkOther [] \<or> \<not> blank (vq_failure_reason req)
            \<or> vq_scope req \<noteq> []
         then Inl (ErrMsg ''verify delivery: passing evidence cannot request rework'')
         else Inr ())
      else if vq_failure_mode req \<noteq> DeliveryReworkOrchestrated
           \<and> vq_failure_mode req \<noteq> DeliveryReworkHostDirect
      then Inl (ErrMsg ''verify delivery: failed evidence requires orchestrated or host_direct rework mode'')
      else if blank (vq_failure_reason req)
      then Inl (ErrMsg ''verify delivery: failed evidence requires a rework reason'')
      else if vq_failure_mode req = DeliveryReworkHostDirect
      then validate_host_direct_request (vq_actor req) (vq_failure_reason req) (vq_scope req)
             (vq_attestation req)
      else Inr ())))"

definition validate_integrate_request :: "integrate_request \<Rightarrow> err + unit" where
  "validate_integrate_request req =
     (if iq_task req = uuid_Nil \<or> iq_verification req = uuid_Nil \<or> iq_observed req = 0
         \<or> iq_version req = 0
      then Inl (ErrMsg ''authorize integration: task, verification record, observed state version, and artifact version are required'')
      else if \<not> valid_object_id (iq_commit req)
      then Inl (ErrMsg ''authorize integration: full commit SHA is required'')
      else if blank (iq_actor req) \<or> blank (iq_source req) \<or> blank (iq_key req)
      then Inl (ErrMsg ''authorize integration: actor, source, and idempotency key are required'')
      else Inr ())"

definition validate_rework_request :: "rework_request \<Rightarrow> err + unit" where
  "validate_rework_request req =
     (if rq_task req = uuid_Nil \<or> rq_observed req = 0 \<or> rq_version req = 0
      then Inl (ErrMsg ''request delivery rework: task, observed state version, and artifact version are required'')
      else if \<not> valid_object_id (rq_commit req)
      then Inl (ErrMsg ''request delivery rework: full commit SHA is required'')
      else if blank (rq_actor req) \<or> blank (rq_source req) \<or> blank (rq_reason req) \<or> blank (rq_key req)
      then Inl (ErrMsg ''request delivery rework: actor, source, reason, and idempotency key are required'')
      else if rq_mode req \<noteq> DeliveryReworkOrchestrated \<and> rq_mode req \<noteq> DeliveryReworkHostDirect
      then Inl (ErrMsg ''request delivery rework: mode must be orchestrated or host_direct'')
      else if rq_mode req = DeliveryReworkHostDirect
      then validate_host_direct_request (rq_actor req) (rq_reason req) (rq_scope req)
             (rq_attestation req)
      else if rq_scope req \<noteq> []
      then Inl (ErrMsg ''request delivery rework: allowed scope is valid only for host_direct mode'')
      else Inr ())"

definition validate_submit_host_rework :: "submit_request \<Rightarrow> err + unit" where
  "validate_submit_host_rework req =
     (if sq_task req = uuid_Nil \<or> sq_session req = uuid_Nil \<or> sq_observed req = 0
      then Inl (ErrMsg ''host rework submission: task, session, and observed state version are required'')
      else if \<not> valid_object_id (sq_commit req)
      then Inl (ErrMsg ''host rework submission: full replacement commit SHA is required'')
      else if blank (sq_actor req) \<or> sq_actor req = ''user'' \<or> blank (sq_source req)
           \<or> blank (sq_key req)
      then Inl (ErrMsg ''host rework submission: actor, source, and idempotency key are required'')
      else Inr ())"

definition validate_abandon_host_rework :: "abandon_request \<Rightarrow> err + unit" where
  "validate_abandon_host_rework req =
     (if bq_task req = uuid_Nil \<or> bq_session req = uuid_Nil \<or> bq_observed req = 0
         \<or> blank (bq_actor req) \<or> bq_actor req = ''user'' \<or> blank (bq_source req)
         \<or> blank (bq_reason req) \<or> blank (bq_key req)
      then Inl (ErrMsg ''abandon host rework: task, session, observed version, actor, source, reason, and idempotency key are required'')
      else Inr ())"

section \<open>What validation establishes\<close>

lemma validate_command_evidence_iff [res_simps]:
  "validate_command_evidence cs all_pass = Inr u \<longleftrightarrow>
     (\<forall>c \<in> set cs. \<not> blank (ce_command c) \<and> ce_started c \<noteq> zero_time \<and> ce_finished c \<noteq> zero_time
        \<and> ce_started c \<le> ce_finished c \<and> (all_pass \<longrightarrow> ce_passed c \<and> ce_exit_code c = 0))"
  by (induction cs) auto

text \<open>The key under which a scenario counts as seen.\<close>

definition scenario_key :: "interaction_evidence \<Rightarrow> string" where
  "scenario_key i = ie_criterion i @ [CHR 0x00] @ ie_scenario i"

lemma interaction_loop_Cons:
  "interaction_loop seen failed (i # is) = Inr f \<Longrightarrow>
     scenario_key i \<notin> set seen
     \<and> interaction_loop (scenario_key i # seen) (failed \<or> ie_result i = VerificationFailed) is = Inr f
     \<and> (ie_result i = VerificationPassed \<or> ie_result i = VerificationFailed)
     \<and> list_all valid_evidence_ref (ie_refs i) \<and> ie_refs i \<noteq> []"
  unfolding interaction_loop.simps Let_def guard_Inr scenario_key_def by blast

declare interaction_loop.simps(2) [simp del]

lemma interaction_loop_failed:
  "interaction_loop seen failed is = Inr f \<Longrightarrow>
     (f \<longleftrightarrow> failed \<or> (\<exists>i \<in> set is. ie_result i = VerificationFailed))"
  by (induction "is" arbitrary: seen failed) (auto dest!: interaction_loop_Cons)

lemma interaction_loop_results:
  "interaction_loop seen failed is = Inr f \<Longrightarrow> \<forall>i \<in> set is.
     (ie_result i = VerificationPassed \<or> ie_result i = VerificationFailed)
     \<and> list_all valid_evidence_ref (ie_refs i) \<and> ie_refs i \<noteq> []"
  by (induction "is" arbitrary: seen failed) (auto dest!: interaction_loop_Cons)

lemma interaction_loop_distinct:
  "interaction_loop seen failed is = Inr f \<Longrightarrow>
     distinct (map scenario_key is) \<and> (\<forall>i \<in> set is. scenario_key i \<notin> set seen)"
  by (induction "is" arbitrary: seen failed) (fastforce dest!: interaction_loop_Cons)+

lemma interactions_sound:
  assumes "validate_verification_interactions req = Inr ()"
  shows "distinct (map scenario_key (vq_interactions req))
    \<and> (vq_result req = VerificationPassed \<longrightarrow> (\<forall>i \<in> set (vq_interactions req).
      ie_result i = VerificationPassed \<and> ie_refs i \<noteq> [] \<and> list_all valid_evidence_ref (ie_refs i)))"
proof (cases "vq_interactions req = []")
  case False
  with assms obtain f where f: "interaction_loop [] False (vq_interactions req) = Inr f"
    "vq_result req = VerificationPassed \<longrightarrow> \<not> f"
    by (auto simp: validate_verification_interactions_def res_simps)
  from f(2) interaction_loop_failed [OF f(1)] interaction_loop_results [OF f(1)]
    interaction_loop_distinct [OF f(1)] show ?thesis by blast
qed simp

text \<open>A request that passes validation with result \<open>pass\<close> carries at least one command,
  every command passed with exit code 0, every interaction passed with content-addressed evidence,
  no scenario is listed twice, and no rework is requested; with result \<open>fail\<close> it names a rework
  mode and a reason, and host-direct rework comes with a non-empty valid scope.\<close>

theorem verify_request_sound:
  assumes "validate_verify_request req = Inr ()"
  shows "valid_object_id (vq_commit req) \<and> vq_evidence req \<noteq> []
    \<and> distinct (map scenario_key (vq_interactions req))
    \<and> (vq_result req = VerificationPassed \<longrightarrow>
         (\<forall>c \<in> set (vq_evidence req). ce_passed c \<and> ce_exit_code c = 0)
         \<and> (\<forall>i \<in> set (vq_interactions req). ie_result i = VerificationPassed
              \<and> ie_refs i \<noteq> [] \<and> list_all valid_evidence_ref (ie_refs i))
         \<and> vq_failure_mode req = DeliveryReworkOther [] \<and> vq_scope req = [])
    \<and> (vq_result req \<noteq> VerificationPassed \<longrightarrow>
         vq_result req = VerificationFailed \<and> \<not> blank (vq_failure_reason req)
         \<and> (vq_failure_mode req = DeliveryReworkOrchestrated
            \<or> vq_failure_mode req = DeliveryReworkHostDirect \<and> vq_scope req \<noteq> []
              \<and> list_all valid_host_scope (vq_scope req)))"
proof -
  have V: "valid_object_id (vq_commit req)" "vq_evidence req \<noteq> []"
      "vq_result req = VerificationPassed \<or> vq_result req = VerificationFailed"
    and C: "validate_command_evidence (vq_evidence req) (vq_result req = VerificationPassed) = Inr ()"
    and I: "validate_verification_interactions req = Inr ()"
    and T: "vq_result req = VerificationPassed \<longrightarrow>
        vq_failure_mode req = DeliveryReworkOther [] \<and> vq_scope req = []"
    and F: "vq_result req \<noteq> VerificationPassed \<longrightarrow> \<not> blank (vq_failure_reason req)
        \<and> (vq_failure_mode req = DeliveryReworkOrchestrated
          \<or> vq_failure_mode req = DeliveryReworkHostDirect
            \<and> validate_host_direct_request (vq_actor req) (vq_failure_reason req) (vq_scope req)
                 (vq_attestation req) = Inr ())"
    using assms unfolding validate_verify_request_def res_bind_Inr guard_Inr
    by (simp_all split: if_split_asm)
  show ?thesis
    using V T F interactions_sound [OF I] C
    by (auto simp: validate_host_direct_request_def res_simps)
qed


section \<open>Scopes\<close>

text \<open>The path as \<open>pathAllowed\<close> compares it.\<close>

definition norm_path :: "string \<Rightarrow> string" where
  "norm_path p = trim_space (replace_char (CHR 0x5C) CHR ''/'' p)"

lemma under_scope_iff:
  "p = scope \<or> has_prefix (scope @ ''/'') p \<longleftrightarrow>
     (\<exists>rest. split_on CHR ''/'' p = split_on CHR ''/'' scope @ rest)"
proof
  assume "p = scope \<or> has_prefix (scope @ ''/'') p"
  then show "\<exists>rest. split_on CHR ''/'' p = split_on CHR ''/'' scope @ rest"
    by (auto simp: has_prefix_iff split_on_append_sep)
next
  assume "\<exists>rest. split_on CHR ''/'' p = split_on CHR ''/'' scope @ rest"
  then obtain rest where r: "split_on CHR ''/'' p = split_on CHR ''/'' scope @ rest" by blast
  show "p = scope \<or> has_prefix (scope @ ''/'') p"
  proof (cases "rest = []")
    case True
    with r have "str_join ''/'' (split_on CHR ''/'' p) = str_join ''/'' (split_on CHR ''/'' scope)"
      by simp
    then show ?thesis by simp
  next
    case False
    have "p = str_join ''/'' (split_on CHR ''/'' scope @ rest)" by (simp flip: r)
    also have "\<dots> = scope @ ''/'' @ str_join ''/'' rest" using False by (simp add: str_join_append)
    finally show ?thesis by (auto simp: has_prefix_iff)
  qed
qed

text \<open>A component that stays below its parent.\<close>

definition plain_part :: "string \<Rightarrow> bool" where
  "plain_part p \<longleftrightarrow> p \<noteq> [] \<and> p \<noteq> ''.'' \<and> p \<noteq> ''..''"

lemma clean_parts_shape:
  assumes "rev stack = replicate n ''..'' @ xs" "\<forall>x \<in> set xs. plain_part x"
  shows "\<exists>m ys. clean_parts False stack ps = replicate m ''..'' @ ys \<and> (\<forall>y \<in> set ys. plain_part y)
    \<and> set ys \<subseteq> set xs \<union> set ps"
  using assms
proof (induction ps arbitrary: stack n xs)
  case Nil
  then show ?case by auto
next
  case (Cons p ps)
  consider "p = [] \<or> p = ''.''" | "p = ''..''" | "plain_part p" by (auto simp: plain_part_def)
  then show ?case
  proof cases
    case 1
    with Cons.IH [OF Cons.prems] show ?thesis by auto
  next
    case 2
    show ?thesis
    proof (cases xs rule: rev_cases)
      case Nil
      with Cons.prems(1) have st: "stack = replicate n ''..''" by (metis append_Nil2 rev_replicate rev_swap)
      have "rev (''..'' # stack) = replicate (Suc n) ''..'' @ []" by (simp add: st replicate_append_same)
      moreover have "clean_parts False stack (p # ps) = clean_parts False (''..'' # stack) ps"
        using 2 st by (cases n) simp_all
      ultimately show ?thesis using Cons.IH [of "''..'' # stack" "Suc n" "[]"] Nil by auto
    next
      case (snoc zs z)
      with Cons.prems obtain qs where st: "stack = z # qs" "rev qs = replicate n ''..'' @ zs"
        by (cases stack) auto
      have "z \<noteq> ''..''" using snoc Cons.prems(2) by (simp add: plain_part_def)
      then have "clean_parts False stack (p # ps) = clean_parts False qs ps" using 2 st by simp
      moreover obtain m ys where "clean_parts False qs ps = replicate m ''..'' @ ys"
          "\<forall>y \<in> set ys. plain_part y" "set ys \<subseteq> set zs \<union> set ps"
        using Cons.IH [OF st(2)] Cons.prems(2) snoc by auto
      ultimately show ?thesis using snoc by (intro exI [of _ m] exI [of _ ys]) auto
    qed
  next
    case 3
    then have "clean_parts False stack (p # ps) = clean_parts False (p # stack) ps"
      by (simp add: plain_part_def)
    moreover have "rev (p # stack) = replicate n ''..'' @ (xs @ [p])" using Cons.prems(1) by simp
    ultimately show ?thesis using Cons.IH [of "p # stack" n "xs @ [p]"] Cons.prems(2) 3 by auto
  qed
qed

lemma valid_scope_parts:
  assumes "valid_host_scope raw"
  shows "\<forall>p \<in> set (split_on CHR ''/'' (norm_path raw)). plain_part p"
proof -
  let ?r = "norm_path raw"
  from assms have "\<not> has_prefix ''/'' ?r \<and> path_clean ?r = ?r \<and> path_clean ?r \<noteq> ''.''
      \<and> path_clean ?r \<noteq> ''..'' \<and> \<not> has_prefix ''../'' (path_clean ?r) \<and> ?r \<noteq> []"
    unfolding valid_host_scope_def norm_path_def Let_def by (metis (full_types))
  then have r: "\<not> has_prefix ''/'' ?r" "path_clean ?r = ?r" "?r \<noteq> ''.''" "?r \<noteq> ''..''"
      "\<not> has_prefix ''../'' ?r" "?r \<noteq> []"
    by auto
  obtain m ys where c: "clean_parts False [] (split_on CHR ''/'' ?r) = replicate m ''..'' @ ys"
      "\<forall>y \<in> set ys. plain_part y" "set ys \<subseteq> set (split_on CHR ''/'' ?r)"
    using clean_parts_shape [of "[]" 0 "[]" "split_on CHR ''/'' ?r"] by auto
  from r(1,2,3) c(1) have j: "?r = str_join ''/'' (replicate m ''..'' @ ys)"
    by (auto simp: path_clean_def Let_def split: if_splits)
  have m: "m = 0"
  proof (rule ccontr)
    assume "m \<noteq> 0"
    then obtain k where k: "m = Suc k" by (cases m) auto
    show False
    proof (cases "replicate k ''..'' @ ys = []")
      case True
      with j k r(4) show False by simp
    next
      case False
      with k have "str_join ''/'' (replicate m ''..'' @ ys)
          = ''../'' @ str_join ''/'' (replicate k ''..'' @ ys)"
        by (simp add: str_join_Cons)
      with j have "has_prefix ''../'' ?r" by (metis has_prefix_append)
      with r(5) show False ..
    qed
  qed
  have "ys \<noteq> []" using j m r(6) by auto
  then have "split_on CHR ''/'' (str_join ''/'' ys) = ys"
    using c(3) by (intro split_join) (auto dest: split_on_no_sep)
  with j m have "split_on CHR ''/'' ?r = ys" by simp
  with c(2) show ?thesis by simp
qed

text \<open>\<open>pathAllowed\<close> compares whole path components: a changed path is accepted exactly when the
  components of one of the allowed scopes are its first components, so a scope never admits a
  sibling that merely shares a textual prefix.  A scope accepted by \<open>validHostScope\<close> has only
  plain components: it is relative and never climbs out with \<open>..\<close>.\<close>

theorem host_scope_containment:
  "(path_allowed changed allowed \<longleftrightarrow>
      (\<exists>raw \<in> set allowed. \<exists>rest. split_on CHR ''/'' (norm_path changed)
         = split_on CHR ''/'' (trim_suffix ''/'' raw) @ rest))
   \<and> (valid_host_scope raw \<longrightarrow> (\<forall>p \<in> set (split_on CHR ''/'' (norm_path raw)). plain_part p))"
  using valid_scope_parts
  by (auto simp: path_allowed_def list_ex_iff Let_def norm_path_def under_scope_iff [symmetric])

theorem host_scope_containment_witness:
  "valid_host_scope ''internal/foo'' \<and> \<not> path_allowed ''internal/foobar/x.go'' [''internal/foo'']
   \<and> list_all plain_part (split_on CHR ''/'' (norm_path ''internal/foo''))"
proof -
  have v: "valid_host_scope ''internal/foo''"
    by (simp add: valid_host_scope_def trim_space_def is_space_def replace_char_def path_clean_def
        has_prefix_def)
  moreover have "\<not> path_allowed ''internal/foobar/x.go'' [''internal/foo'']"
    by (simp add: path_allowed_def trim_space_def is_space_def replace_char_def trim_suffix_def
        has_suffix_def has_prefix_def)
  ultimately show ?thesis
    using host_scope_containment [of _ _ "''internal/foo''"] by (simp only: list_all_iff) blast
qed

definition sample_sha :: string where
  "sample_sha = replicate 40 CHR ''a''"

definition sample_command :: command_evidence where
  "sample_command = \<lparr>ce_command = ''make'', ce_passed = True, ce_exit_code = 0, ce_output = [],
     ce_started = 1, ce_finished = 2\<rparr>"

definition sample_attestation :: host_direct_attestation where
  "sample_attestation = \<lparr>at_criteria_unchanged = True, at_dependency_unchanged = True,
     at_no_persistence = True, at_no_security = True, at_no_cross_process = True,
     at_no_build_policy = True\<rparr>"

definition sample_verify :: verify_request where
  "sample_verify = \<lparr>vq_task = ''t1'', vq_observed = 1, vq_version = 1, vq_commit = sample_sha,
     vq_actor = ''qa'', vq_source = ''host'', vq_environment = ''linux'',
     vq_evidence = [sample_command], vq_binary = [], vq_result = VerificationPassed,
     vq_notes = [], vq_interactions = [], vq_failure_mode = DeliveryReworkOther [],
     vq_failure_reason = [], vq_scope = [], vq_attestation = sample_attestation,
     vq_key = ''k1''\<rparr>"

lemma sample_sha_valid [simp]: "valid_object_id sample_sha"
  by (simp add: valid_object_id_def sample_sha_def trim_space_def is_space_def is_hex_def
      numeral_eq_Suc)

lemma sample_verify_valid: "validate_verify_request sample_verify = Inr ()"
  by (simp add: validate_verify_request_def sample_verify_def uuid_Nil_def trim_space_def
      is_space_def sample_command_def zero_time_def validate_verification_interactions_def)

theorem verify_request_sound_witness:
  "valid_object_id (vq_commit sample_verify) \<and> vq_evidence sample_verify \<noteq> []"
  using verify_request_sound [OF sample_verify_valid] by blast

end
