(* ===== verification/HostRework.thy ===== *)
theory HostRework
  imports DeliveryValidation
begin

text \<open>
  Host-direct rework, \<open>internal/orchestrator/host_rework.go\<close>: opening a session, persisting
  interaction evidence, submitting a replacement commit and abandoning the session.

  Outside values are arguments: \<open>fresh s k\<close> is the \<open>k\<close>-th \<open>uuid.New()\<close> of the call site
  \<open>s\<close>, \<open>now\<close> the clock, \<open>hash\<close> the request hash.  Git is the record \<open>git\<close>: the
  integration worktree of a task (empty when there is none), the bare repository and
  \<open>gitexec.RunGit\<close>, a function of the directory and the arguments.
\<close>

type_synonym fresh = "string \<Rightarrow> nat \<Rightarrow> uuid"

text \<open>Output, a \<open>GitError\<close> with its return code, or git could not be run.\<close>

datatype git_out = GitOk string | GitErr int | GitFail

record git =
  g_worktree :: "task \<Rightarrow> string"
  g_bare :: string
  g_run :: "string \<Rightarrow> string list \<Rightarrow> git_out"

definition run_git :: "git \<Rightarrow> string \<Rightarrow> string list \<Rightarrow> err + string" where
  "run_git g dir args = (case g_run g dir args of
     GitOk out \<Rightarrow> Inr out | GitErr c \<Rightarrow> Inl (ErrMsg ''git'') | GitFail \<Rightarrow> Inl (ErrMsg ''git''))"

lemma run_git_Inr [res_simps]: "run_git g dir args = Inr out \<longleftrightarrow> g_run g dir args = GitOk out"
  by (simp add: run_git_def split: git_out.splits)

definition full_ref :: "string \<Rightarrow> string" where
  "full_ref branch = ''refs/heads/'' @ trim_prefix ''refs/heads/'' branch @ ''^{commit}''"

section \<open>Inserting rows\<close>

text \<open>\<open>tx.Create(&row)\<close> on the tables of the delivery protocol.\<close>

definition create_task :: "task \<Rightarrow> db \<Rightarrow> err + db" where
  "create_task r d = res_bind (tbl_create task_conflict r (db_tasks d))
     (\<lambda>rows. Inr (d\<lparr>db_tasks := rows\<rparr>))"

definition create_event :: "task_event \<Rightarrow> db \<Rightarrow> err + db" where
  "create_event r d = res_bind (tbl_create event_conflict r (db_events d))
     (\<lambda>rows. Inr (d\<lparr>db_events := rows\<rparr>))"

definition create_artifact :: "delivery_artifact \<Rightarrow> db \<Rightarrow> err + db" where
  "create_artifact r d = res_bind (tbl_create artifact_conflict r (db_artifacts d))
     (\<lambda>rows. Inr (d\<lparr>db_artifacts := rows\<rparr>))"

definition create_gate_run :: "preliminary_gate_run \<Rightarrow> db \<Rightarrow> err + db" where
  "create_gate_run r d = res_bind (tbl_create gate_run_conflict r (db_gate_runs d))
     (\<lambda>rows. Inr (d\<lparr>db_gate_runs := rows\<rparr>))"

definition create_verification :: "verification_record \<Rightarrow> db \<Rightarrow> err + db" where
  "create_verification r d = res_bind (tbl_create verification_conflict r (db_verifications d))
     (\<lambda>rows. Inr (d\<lparr>db_verifications := rows\<rparr>))"

definition create_interaction :: "verification_interaction \<Rightarrow> db \<Rightarrow> err + db" where
  "create_interaction r d = res_bind (tbl_create interaction_conflict r (db_interactions d))
     (\<lambda>rows. Inr (d\<lparr>db_interactions := rows\<rparr>))"

definition create_authorization :: "integration_authorization \<Rightarrow> db \<Rightarrow> err + db" where
  "create_authorization r d = res_bind (tbl_create authorization_conflict r (db_authorizations d))
     (\<lambda>rows. Inr (d\<lparr>db_authorizations := rows\<rparr>))"

definition create_rework :: "delivery_rework_record \<Rightarrow> db \<Rightarrow> err + db" where
  "create_rework r d = res_bind (tbl_create rework_conflict r (db_reworks d))
     (\<lambda>rows. Inr (d\<lparr>db_reworks := rows\<rparr>))"

definition create_session :: "host_rework_session \<Rightarrow> db \<Rightarrow> err + db" where
  "create_session r d = res_bind (tbl_create session_conflict r (db_sessions d))
     (\<lambda>rows. Inr (d\<lparr>db_sessions := rows\<rparr>))"

definition create_submission :: "host_rework_submission \<Rightarrow> db \<Rightarrow> err + db" where
  "create_submission r d = res_bind (tbl_create submission_conflict r (db_submissions d))
     (\<lambda>rows. Inr (d\<lparr>db_submissions := rows\<rparr>))"

definition create_intent :: "merge_intent \<Rightarrow> db \<Rightarrow> err + db" where
  "create_intent r d = res_bind (tbl_create intent_conflict r (db_intents d))
     (\<lambda>rows. Inr (d\<lparr>db_intents := rows\<rparr>))"

definition create_completion :: "merge_completion \<Rightarrow> db \<Rightarrow> err + db" where
  "create_completion r d = res_bind (tbl_create completion_conflict r (db_completions d))
     (\<lambda>rows. Inr (d\<lparr>db_completions := rows\<rparr>))"

lemmas create_defs = create_task_def create_event_def create_artifact_def create_gate_run_def
  create_verification_def create_interaction_def create_authorization_def create_rework_def
  create_session_def create_submission_def create_intent_def create_completion_def

lemma create_Inr [res_simps]:
  "create_task tk d = Inr d' \<longleftrightarrow> d' = d\<lparr>db_tasks := db_tasks d @ [tk]\<rparr>
     \<and> (\<forall>x \<in> set (db_tasks d). \<not> task_conflict tk x)"
  "create_event ev d = Inr d' \<longleftrightarrow> d' = d\<lparr>db_events := db_events d @ [ev]\<rparr>
     \<and> (\<forall>x \<in> set (db_events d). \<not> event_conflict ev x)"
  "create_artifact a d = Inr d' \<longleftrightarrow> d' = d\<lparr>db_artifacts := db_artifacts d @ [a]\<rparr>
     \<and> (\<forall>x \<in> set (db_artifacts d). \<not> artifact_conflict a x)"
  "create_gate_run g d = Inr d' \<longleftrightarrow> d' = d\<lparr>db_gate_runs := db_gate_runs d @ [g]\<rparr>
     \<and> (\<forall>x \<in> set (db_gate_runs d). \<not> gate_run_conflict g x)"
  "create_verification v d = Inr d' \<longleftrightarrow> d' = d\<lparr>db_verifications := db_verifications d @ [v]\<rparr>
     \<and> (\<forall>x \<in> set (db_verifications d). \<not> verification_conflict v x)"
  "create_interaction i d = Inr d' \<longleftrightarrow> d' = d\<lparr>db_interactions := db_interactions d @ [i]\<rparr>
     \<and> (\<forall>x \<in> set (db_interactions d). \<not> interaction_conflict i x)"
  "create_authorization au d = Inr d' \<longleftrightarrow> d' = d\<lparr>db_authorizations := db_authorizations d @ [au]\<rparr>
     \<and> (\<forall>x \<in> set (db_authorizations d). \<not> authorization_conflict au x)"
  "create_rework rw d = Inr d' \<longleftrightarrow> d' = d\<lparr>db_reworks := db_reworks d @ [rw]\<rparr>
     \<and> (\<forall>x \<in> set (db_reworks d). \<not> rework_conflict rw x)"
  "create_session s d = Inr d' \<longleftrightarrow> d' = d\<lparr>db_sessions := db_sessions d @ [s]\<rparr>
     \<and> (\<forall>x \<in> set (db_sessions d). \<not> session_conflict s x)"
  "create_submission b d = Inr d' \<longleftrightarrow> d' = d\<lparr>db_submissions := db_submissions d @ [b]\<rparr>
     \<and> (\<forall>x \<in> set (db_submissions d). \<not> submission_conflict b x)"
  "create_intent mi d = Inr d' \<longleftrightarrow> d' = d\<lparr>db_intents := db_intents d @ [mi]\<rparr>
     \<and> (\<forall>x \<in> set (db_intents d). \<not> intent_conflict mi x)"
  "create_completion mc d = Inr d' \<longleftrightarrow> d' = d\<lparr>db_completions := db_completions d @ [mc]\<rparr>
     \<and> (\<forall>x \<in> set (db_completions d). \<not> completion_conflict mc x)"
  by (auto simp: create_defs res_bind_Inr tbl_create_Inr)

lemma cas_tx_Inr:
  assumes "cas_tx eid now tk expected target actor source reason refs d = Inr d'"
  obtains tk' ev where "can_move (t_status tk) target"
    "tk' = tk\<lparr>t_status := target, t_version := t_version tk + 1, t_updated := now\<rparr>"
    "length (filter (cas_match tk expected) (db_tasks d)) = 1"
    "cas_event tk tk' ev" "te_id ev = eid" "\<forall>x \<in> set (db_events d). \<not> event_conflict ev x"
    "d' = d\<lparr>db_tasks := cas_rows tk expected tk' (db_tasks d), db_events := db_events d @ [ev]\<rparr>"
proof -
  from assms obtain tk' where
    "cas_task_transition eid now tk expected target actor source reason refs d = (tk', Inr d')"
    by (metis cas_tx_def prod.collapse)
  from cas_task_transition_Inr [OF this] that show ?thesis by blast
qed

section \<open>Host rework sessions\<close>

definition create_host_rework_session ::
  "fresh \<Rightarrow> time \<Rightarrow> task \<Rightarrow> delivery_artifact \<Rightarrow> string \<Rightarrow> string \<Rightarrow> string list
   \<Rightarrow> host_direct_attestation \<Rightarrow> string \<Rightarrow> string \<Rightarrow> db \<Rightarrow> err + host_rework_session \<times> db" where
  "create_host_rework_session fresh now tk a actor reason scope att key hsh d =
     res_bind (validate_host_direct_request actor reason scope att) (\<lambda>_.
     if tbl_count (\<lambda>w. wa_task w = t_id tk \<and> wa_completed w = None) (db_attempts d) \<noteq> 0
     then Inl (ErrMsg ''host rework: an active worker attempt owns the task'')
     else if tbl_count (\<lambda>s. hs_task s = t_id tk \<and> hs_disposition s = HostReworkActive)
               (db_sessions d) \<noteq> 0
     then Inl (ErrMsg ''host rework: an active session already owns the task'')
     else let s = \<lparr>hs_id = fresh ''session'' 0, hs_task = t_id tk, hs_artifact = da_id a,
            hs_prior_version = da_version a, hs_prior_commit = da_commit a,
            hs_branch = da_branch a, hs_owner = actor, hs_reason = reason, hs_scope = scope,
            hs_attestation = att, hs_start_key = key, hs_start_hash = hsh,
            hs_disposition = HostReworkActive, hs_replacement = [], hs_terminal_actor = [],
            hs_terminal_reason = [], hs_terminal_key = None, hs_terminal_hash = [],
            hs_started = now, hs_finished = None, hs_updated = now\<rparr>
       in res_bind (create_session s d) (\<lambda>d'. Inr (s, d')))"

text \<open>The loop of \<open>persistVerificationInteractions\<close>; \<open>specs\<close> is the specification count.\<close>

fun persist_interactions ::
  "fresh \<Rightarrow> nat \<Rightarrow> nat \<Rightarrow> task \<Rightarrow> delivery_artifact \<Rightarrow> verification_record \<Rightarrow> string
   \<Rightarrow> interaction_evidence list \<Rightarrow> db \<Rightarrow> err + string list \<times> db" where
  "persist_interactions fresh specs k tk a v binary [] d = Inr ([], d)"
| "persist_interactions fresh specs k tk a v binary (i # is) d =
     (if specs > 0 \<and> tbl_count (\<lambda>c. ac_task c = t_id tk \<and> ac_key c = ie_criterion i) (db_criteria d) \<noteq> 1
      then Inl (ErrMsg ''verify delivery: acceptance criterion is not part of the task specification'')
      else let row = \<lparr>vi_id = fresh ''interaction'' k, vi_task = t_id tk, vi_verification = vr_id v,
             vi_artifact = da_id a, vi_criterion = ie_criterion i, vi_scenario = ie_scenario i,
             vi_steps = ie_steps i, vi_observed = ie_observed i, vi_refs = ie_refs i,
             vi_binary = binary, vi_app_version = ie_app_version i, vi_host = ie_host i,
             vi_pid = ie_pid i, vi_result = ie_result i, vi_discrepancy = ie_discrepancy i\<rparr>
        in res_bind (create_interaction row d) (\<lambda>d1.
           res_bind (persist_interactions fresh specs (k + 1) tk a v binary is d1) (\<lambda>(ids, d2).
           Inr (vi_id row # ids, d2))))"

definition persist_verification_interactions ::
  "fresh \<Rightarrow> task \<Rightarrow> delivery_artifact \<Rightarrow> verification_record \<Rightarrow> verify_request \<Rightarrow> db
   \<Rightarrow> err + string list \<times> db" where
  "persist_verification_interactions fresh tk a v req d =
     (if vq_interactions req = [] then Inr ([], d)
      else persist_interactions fresh (length (filter (\<lambda>s. s = t_id tk) (db_specifications d))) 0
             tk a v (vq_binary req) (vq_interactions req) d)"

section \<open>Submission\<close>

definition verify_host_rework_git ::
  "git \<Rightarrow> task \<Rightarrow> host_rework_session \<Rightarrow> string \<Rightarrow> err + string list" where
  "verify_host_rework_git g tk s sha =
     (let w = g_worktree g tk in
      if w = [] then Inl (ErrMsg ''host rework: canonical feature worktree is unavailable'')
      else res_bind (run_git g w [''rev-parse'', ''--verify'', full_ref (hs_branch s)]) (\<lambda>branch_sha.
      if trim_space branch_sha \<noteq> trim_space sha then Inl ErrStaleArtifact
      else if sha = hs_prior_commit s
      then Inl (ErrMsg ''host rework: replacement commit must differ from the invalidated artifact'')
      else case run_git g w [''merge-base'', ''--is-ancestor'', hs_prior_commit s, sha] of
        Inl _ \<Rightarrow> Inl (ErrMsg ''host rework: replacement must descend from the invalidated artifact'')
      | Inr _ \<Rightarrow>
          res_bind (run_git g w [''status'', ''--porcelain'']) (\<lambda>status.
          if \<not> blank status
          then Inl (ErrMsg ''host rework: feature worktree must be clean before submission'')
          else res_bind (run_git g w [''diff'', ''--name-only'', hs_prior_commit s @ ''..'' @ sha]) (\<lambda>diff.
          if blank diff then Inl (ErrMsg ''host rework: replacement contains no changed paths'')
          else let changed = split_on (CHR 0x0A) (trim_space diff) in
            if list_all (\<lambda>p. path_allowed p (hs_scope s)) changed then Inr changed
            else Inl (ErrMsg ''host rework: changed path is outside the allowed scope'')))))"

definition load_session :: "uuid \<Rightarrow> uuid \<Rightarrow> db \<Rightarrow> err + host_rework_session" where
  "load_session sid tid d = of_option ErrRecordNotFound
     (tbl_first hs_id (\<lambda>s. hs_id s = sid \<and> hs_task s = tid) (db_sessions d))"

text \<open>The guard both phases of a submission and an abandonment share.\<close>

definition session_current :: "task \<Rightarrow> nat \<Rightarrow> host_rework_session \<Rightarrow> bool" where
  "session_current tk observed s \<longleftrightarrow> t_status tk = StatusHostRework \<and> t_version tk = observed
     \<and> hs_disposition s = HostReworkActive"

definition resolve_session ::
  "uuid \<Rightarrow> host_rework_disposition \<Rightarrow> (host_rework_session \<Rightarrow> host_rework_session) \<Rightarrow> string \<Rightarrow> string
   \<Rightarrow> string \<Rightarrow> string \<Rightarrow> time \<Rightarrow> db \<Rightarrow> err + db" where
  "resolve_session sid disp extra actor reason key hsh now d =
     res_bind (tbl_update_unique session_conflict
       (\<lambda>s. hs_id s = sid \<and> hs_disposition s = HostReworkActive)
       (\<lambda>s. extra (s\<lparr>hs_disposition := disp, hs_terminal_actor := actor,
          hs_terminal_reason := reason, hs_terminal_key := Some key, hs_terminal_hash := hsh,
          hs_finished := Some now, hs_updated := now\<rparr>))
       (db_sessions d)) (\<lambda>(rows, affected).
     if affected \<noteq> 1 then Inl ErrStaleTransition else Inr (d\<lparr>db_sessions := rows\<rparr>))"

definition submit_transaction ::
  "fresh \<Rightarrow> time \<Rightarrow> string \<Rightarrow> submit_request \<Rightarrow> string list \<Rightarrow> db
   \<Rightarrow> err + host_rework_submission \<times> db" where
  "submit_transaction fresh now hsh req changed d =
     res_bind (load_task (sq_task req) d) (\<lambda>tk.
     res_bind (load_session (sq_session req) (t_id tk) d) (\<lambda>s.
     if \<not> session_current tk (sq_observed req) s then Inl ErrStaleTransition
     else let b = \<lparr>hb_id = fresh ''submission'' 0, hb_session = hs_id s, hb_task = t_id tk,
              hb_prior = hs_prior_commit s, hb_replacement = sq_commit req,
              hb_actor = sq_actor req, hb_key = sq_key req, hb_hash = hsh, hb_paths = changed\<rparr>
       in res_bind (create_submission b d) (\<lambda>d1.
          res_bind (resolve_session (hs_id s) HostReworkSubmitted
            (\<lambda>s. s\<lparr>hs_replacement := sq_commit req\<rparr>) (sq_actor req) ''replacement submitted''
            (sq_key req) hsh now d1) (\<lambda>d2.
          res_bind (cas_tx (fresh ''event'' 0) now tk StatusHostRework StatusTestingReady
            (sq_actor req) (sq_source req) ''host rework replacement submitted for fresh gates''
            [(''host_rework_session_id'', GStr (hs_id s)),
             (''host_rework_submission_id'', GStr (hb_id b)),
             (''prior_commit_sha'', GStr (hs_prior_commit s)),
             (''replacement_commit_sha'', GStr (sq_commit req))] d2) (\<lambda>d3.
          Inr (b, d3))))))"

text \<open>\<open>SubmitHostRework\<close> checks, asks git, and then repeats the checks in a transaction: \<open>d0\<close>
  is the database of the first reads, \<open>d\<close> the one the transaction sees.\<close>

definition submit_host_rework ::
  "fresh \<Rightarrow> time \<Rightarrow> (submit_request \<Rightarrow> string) \<Rightarrow> git \<Rightarrow> submit_request \<Rightarrow> db \<Rightarrow> db
   \<Rightarrow> (err + host_rework_submission) \<times> db" where
  "submit_host_rework fresh now hash g req d0 d =
     (case validate_submit_host_rework req of Inl e \<Rightarrow> (Inl e, d) | Inr _ \<Rightarrow>
      (case tbl_first hb_id (\<lambda>b. hb_key b = sq_key req) (db_submissions d0) of
         Some replay \<Rightarrow> if hb_hash replay \<noteq> hash req then (Inl ErrIdempotencyConflict, d)
                        else (Inr replay, d)
       | None \<Rightarrow>
          (case res_bind (load_task (sq_task req) d0) (\<lambda>tk.
                res_bind (load_session (sq_session req) (t_id tk) d0) (\<lambda>s.
                if \<not> session_current tk (sq_observed req) s then Inl ErrStaleTransition
                else if hs_owner s \<noteq> sq_actor req
                then Inl (ErrMsg ''host rework: only the owning actor may submit'')
                else verify_host_rework_git g tk s (sq_commit req))) of
             Inl e \<Rightarrow> (Inl e, d)
           | Inr changed \<Rightarrow> transaction (submit_transaction fresh now (hash req) req changed) d)))"

section \<open>Abandonment\<close>

definition abandon_transaction ::
  "fresh \<Rightarrow> time \<Rightarrow> string \<Rightarrow> abandon_request \<Rightarrow> db \<Rightarrow> err + host_rework_session \<times> db" where
  "abandon_transaction fresh now hsh req d =
     res_bind (load_task (bq_task req) d) (\<lambda>tk.
     res_bind (load_session (bq_session req) (t_id tk) d) (\<lambda>s.
     if \<not> session_current tk (bq_observed req) s then Inl ErrStaleTransition
     else if hs_owner s \<noteq> bq_actor req
     then Inl (ErrMsg ''host rework: only the owning actor may abandon'')
     else res_bind (resolve_session (hs_id s) HostReworkOrchestrated (\<lambda>s. s) (bq_actor req)
            (bq_reason req) (bq_key req) hsh now d) (\<lambda>d1.
          res_bind (cas_tx (fresh ''event'' 0) now tk StatusHostRework StatusInProgress
            (bq_actor req) (bq_source req) ''host rework returned to orchestrated implementation''
            [(''host_rework_session_id'', GStr (hs_id s)), (''reason'', GStr (bq_reason req))] d1)
            (\<lambda>d2.
          res_bind (of_option ErrRecordNotFound
            (tbl_first hs_id (\<lambda>x. hs_id x = hs_id s) (db_sessions d2))) (\<lambda>s'. Inr (s', d2))))))"

definition abandon_host_rework ::
  "fresh \<Rightarrow> time \<Rightarrow> (abandon_request \<Rightarrow> string) \<Rightarrow> abandon_request \<Rightarrow> db
   \<Rightarrow> (err + host_rework_session) \<times> db" where
  "abandon_host_rework fresh now hash req d =
     (case validate_abandon_host_rework req of Inl e \<Rightarrow> (Inl e, d) | Inr _ \<Rightarrow>
      (case tbl_first hs_id (\<lambda>s. hs_terminal_key s = Some (bq_key req)) (db_sessions d) of
         Some replay \<Rightarrow> if hs_terminal_hash replay \<noteq> hash req then (Inl ErrIdempotencyConflict, d)
                        else (Inr replay, d)
       | None \<Rightarrow> transaction (abandon_transaction fresh now (hash req) req) d))"

section \<open>What the operations guarantee\<close>

lemma load_session_Inr: "load_session sid tid d = Inr s \<Longrightarrow>
    s \<in> set (db_sessions d) \<and> hs_id s = sid \<and> hs_task s = tid"
  by (auto simp: load_session_def res_simps dest: tbl_first_Some)

definition resolved ::
  "host_rework_disposition \<Rightarrow> (host_rework_session \<Rightarrow> host_rework_session) \<Rightarrow> string \<Rightarrow> string
   \<Rightarrow> string \<Rightarrow> string \<Rightarrow> time \<Rightarrow> host_rework_session \<Rightarrow> host_rework_session" where
  "resolved disp extra actor reason key hsh now s = extra (s\<lparr>hs_disposition := disp,
     hs_terminal_actor := actor, hs_terminal_reason := reason, hs_terminal_key := Some key,
     hs_terminal_hash := hsh, hs_finished := Some now, hs_updated := now\<rparr>)"

lemma resolve_session_Inr:
  assumes "resolve_session sid disp extra actor reason key hsh now d = Inr d'"
  shows "d' = d\<lparr>db_sessions := map (\<lambda>s. if hs_id s = sid \<and> hs_disposition s = HostReworkActive
      then resolved disp extra actor reason key hsh now s else s) (db_sessions d)\<rparr>
    \<and> uniq session_conflict (db_sessions d')"
  using assms unfolding resolve_session_def res_bind_Inr tbl_update_unique_Inr
  by (auto simp: tbl_update_def resolved_def guard_Inr)

lemma sessions_id_eq:
  "\<lbrakk>uniq session_conflict rows; s \<in> set rows; x \<in> set rows; hs_id x = hs_id s\<rbrakk> \<Longrightarrow> x = s"
  by (rule sessions.uniq_eq) (auto simp: session_conflict_def)

lemma verify_host_rework_git_Inr:
  assumes "verify_host_rework_git g tk s sha = Inr changed"
  shows "\<exists>w out. w = g_worktree g tk \<and> w \<noteq> []
    \<and> g_run g w [''rev-parse'', ''--verify'', full_ref (hs_branch s)] = GitOk out
    \<and> trim_space out = trim_space sha \<and> sha \<noteq> hs_prior_commit s
    \<and> (\<exists>o2. g_run g w [''merge-base'', ''--is-ancestor'', hs_prior_commit s, sha] = GitOk o2)
    \<and> (\<exists>o3. g_run g w [''status'', ''--porcelain''] = GitOk o3 \<and> blank o3)
    \<and> (\<exists>o4. g_run g w [''diff'', ''--name-only'', hs_prior_commit s @ ''..'' @ sha] = GitOk o4
        \<and> changed = split_on (CHR 0x0A) (trim_space o4) \<and> \<not> blank o4)
    \<and> list_all (\<lambda>p. path_allowed p (hs_scope s)) changed"
  using assms unfolding verify_host_rework_git_def Let_def guard_Inr res_bind_Inr run_git_Inr
  by (auto simp: res_simps guard_Inr split: sum.splits if_split_asm)

lemma submit_transaction_Inr:
  assumes "submit_transaction fresh now hsh req changed d = Inr (b, d')"
  obtains tk s d2 where "load_task (sq_task req) d = Inr tk"
    "load_session (sq_session req) (t_id tk) d = Inr s"
    "session_current tk (sq_observed req) s"
    "b = \<lparr>hb_id = fresh ''submission'' 0, hb_session = hs_id s, hb_task = t_id tk,
        hb_prior = hs_prior_commit s, hb_replacement = sq_commit req,
        hb_actor = sq_actor req, hb_key = sq_key req, hb_hash = hsh, hb_paths = changed\<rparr>"
    "\<forall>x \<in> set (db_submissions d). \<not> submission_conflict b x"
    "resolve_session (hs_id s) HostReworkSubmitted (\<lambda>s. s\<lparr>hs_replacement := sq_commit req\<rparr>)
       (sq_actor req) ''replacement submitted'' (sq_key req) hsh now
       (d\<lparr>db_submissions := db_submissions d @ [b]\<rparr>) = Inr d2"
    "\<exists>refs. cas_tx (fresh ''event'' 0) now tk StatusHostRework StatusTestingReady (sq_actor req)
       (sq_source req) ''host rework replacement submitted for fresh gates'' refs d2 = Inr d'"
  using assms
  unfolding submit_transaction_def Let_def res_bind_Inr guard_Inr create_Inr
  by (elim exE conjE) (metis Inr_inject prod.inject)

lemma abandon_transaction_Inr:
  assumes "abandon_transaction fresh now hsh req d = Inr (s', d')"
  obtains tk s d1 where "load_task (bq_task req) d = Inr tk"
    "load_session (bq_session req) (t_id tk) d = Inr s"
    "session_current tk (bq_observed req) s" "hs_owner s = bq_actor req"
    "resolve_session (hs_id s) HostReworkOrchestrated (\<lambda>s. s) (bq_actor req) (bq_reason req)
       (bq_key req) hsh now d = Inr d1"
    "\<exists>refs. cas_tx (fresh ''event'' 0) now tk StatusHostRework StatusInProgress (bq_actor req)
       (bq_source req) ''host rework returned to orchestrated implementation'' refs d1 = Inr d'"
    "tbl_first hs_id (\<lambda>x. hs_id x = hs_id s) (db_sessions d') = Some s'"
  using assms
  unfolding abandon_transaction_def Let_def res_bind_Inr guard_Inr of_option_Inr
  by (elim exE conjE) (metis Inr_inject prod.inject)

text \<open>A swap leaves everything but the task rows and the events.\<close>

lemma cas_tx_frame:
  assumes "cas_tx eid now tk expected target actor source reason refs d = Inr d'"
  shows "db_artifacts d' = db_artifacts d" "db_gate_runs d' = db_gate_runs d"
    "db_verifications d' = db_verifications d" "db_interactions d' = db_interactions d"
    "db_authorizations d' = db_authorizations d" "db_reworks d' = db_reworks d"
    "db_sessions d' = db_sessions d" "db_submissions d' = db_submissions d"
    "db_intents d' = db_intents d" "db_completions d' = db_completions d"
    "db_attempts d' = db_attempts d" "db_specifications d' = db_specifications d"
    "db_criteria d' = db_criteria d"
  using assms by (auto elim!: cas_tx_Inr)

lemma cas_tx_status:
  assumes "cas_tx eid now tk expected target actor source reason refs d = Inr d'"
  shows "\<exists>t \<in> set (db_tasks d'). t_id t = t_id tk \<and> t_status t = target
    \<and> t_version t = t_version tk + 1"
proof -
  from assms obtain tk' ev where t: "tk' = tk\<lparr>t_status := target, t_version := t_version tk + 1,
      t_updated := now\<rparr>" "length (filter (cas_match tk expected) (db_tasks d)) = 1"
    and d: "d' = d\<lparr>db_tasks := cas_rows tk expected tk' (db_tasks d),
      db_events := db_events d @ [ev]\<rparr>" by (rule cas_tx_Inr)
  from length_filter_one [OF t(2)] obtain r
    where r: "r \<in> set (db_tasks d)" "cas_match tk expected r" by blast
  then have "task_transition_columns tk' r \<in> set (db_tasks d')"
    by (auto simp: d cas_rows_def intro!: image_eqI)
  with r(2) t(1) show ?thesis by (intro bexI) (auto simp: cas_match_def)
qed

text \<open>C21: an accepted host rework submission (not a replay) comes from the owner of an active
  session, names a commit the canonical branch points to, that differs from and descends from the
  invalidated commit, in a clean worktree, and every changed path lies in the session's scope.
  Whatever database the transaction then sees, no session with that id stays active and the task
  is back at the gates with its version raised by one.\<close>

theorem host_rework_submission_sound:
  assumes "submit_host_rework fresh now hash g req d0 d = (Inr b, d')"
    and "tbl_first hb_id (\<lambda>x. hb_key x = sq_key req) (db_submissions d0) = None"
  shows "\<exists>tk s w out. load_task (sq_task req) d0 = Inr tk
    \<and> s \<in> set (db_sessions d0) \<and> hs_id s = sq_session req \<and> hs_task s = t_id tk
    \<and> session_current tk (sq_observed req) s \<and> hs_owner s = sq_actor req
    \<and> w = g_worktree g tk
    \<and> g_run g w [''rev-parse'', ''--verify'', full_ref (hs_branch s)] = GitOk out
    \<and> trim_space out = trim_space (sq_commit req) \<and> sq_commit req \<noteq> hs_prior_commit s
    \<and> (\<exists>o2. g_run g w [''merge-base'', ''--is-ancestor'', hs_prior_commit s, sq_commit req] = GitOk o2)
    \<and> list_all (\<lambda>p. path_allowed p (hs_scope s)) (hb_paths b)
    \<and> hb_replacement b = sq_commit req
    \<and> (\<exists>s2 \<in> set (db_sessions d'). hs_id s2 = sq_session req
         \<and> hs_disposition s2 = HostReworkSubmitted \<and> hs_replacement s2 = sq_commit req)
    \<and> (\<forall>s2 \<in> set (db_sessions d'). hs_id s2 = sq_session req \<longrightarrow> hs_disposition s2 \<noteq> HostReworkActive)
    \<and> (\<exists>t \<in> set (db_tasks d'). t_id t = sq_task req \<and> t_status t = StatusTestingReady
         \<and> t_version t = sq_observed req + 1)"
proof -
  from assms obtain changed tk s where pre: "load_task (sq_task req) d0 = Inr tk"
      "load_session (sq_session req) (t_id tk) d0 = Inr s" "session_current tk (sq_observed req) s"
      "hs_owner s = sq_actor req" "verify_host_rework_git g tk s (sq_commit req) = Inr changed"
    and tx: "submit_transaction fresh now (hash req) req changed d = Inr (b, d')"
    by (auto simp: submit_host_rework_def res_bind_Inr transaction_Inr guard_Inr
        split: sum.splits)
  from submit_transaction_Inr [OF tx] obtain tk2 s2 d2 where
    t: "load_task (sq_task req) d = Inr tk2" "load_session (sq_session req) (t_id tk2) d = Inr s2"
      "session_current tk2 (sq_observed req) s2" "hb_paths b = changed" "hb_replacement b = sq_commit req"
    and r: "resolve_session (hs_id s2) HostReworkSubmitted (\<lambda>s. s\<lparr>hs_replacement := sq_commit req\<rparr>)
       (sq_actor req) ''replacement submitted'' (sq_key req) (hash req) now
       (d\<lparr>db_submissions := db_submissions d @ [b]\<rparr>) = Inr d2"
    and c: "\<exists>refs. cas_tx (fresh ''event'' 0) now tk2 StatusHostRework StatusTestingReady (sq_actor req)
       (sq_source req) ''host rework replacement submitted for fresh gates'' refs d2 = Inr d'"
    by (metis (no_types, lifting) host_rework_submission.select_convs)
  from c obtain refs where c: "cas_tx (fresh ''event'' 0) now tk2 StatusHostRework StatusTestingReady
      (sq_actor req) (sq_source req) ''host rework replacement submitted for fresh gates'' refs d2
      = Inr d'" ..
  have sess: "db_sessions d' = map (\<lambda>s. if hs_id s = hs_id s2 \<and> hs_disposition s = HostReworkActive
      then resolved HostReworkSubmitted (\<lambda>s. s\<lparr>hs_replacement := sq_commit req\<rparr>) (sq_actor req)
        ''replacement submitted'' (sq_key req) (hash req) now s else s) (db_sessions d)"
    using resolve_session_Inr [OF r] cas_tx_frame [OF c] by simp
  note ls = load_session_Inr [OF t(2)]
  have fin1: "\<exists>x \<in> set (db_sessions d'). hs_id x = sq_session req
      \<and> hs_disposition x = HostReworkSubmitted \<and> hs_replacement x = sq_commit req"
  proof -
    have "resolved HostReworkSubmitted (\<lambda>s. s\<lparr>hs_replacement := sq_commit req\<rparr>) (sq_actor req)
        ''replacement submitted'' (sq_key req) (hash req) now s2 \<in> set (db_sessions d')"
      using ls t(3) by (force simp: sess session_current_def)
    with ls show ?thesis by (intro bexI) (auto simp: resolved_def)
  qed
  have fin2: "\<forall>x \<in> set (db_sessions d'). hs_id x = sq_session req \<longrightarrow> hs_disposition x \<noteq> HostReworkActive"
    using ls by (auto simp: sess resolved_def)
  have task: "\<exists>t \<in> set (db_tasks d'). t_id t = sq_task req \<and> t_status t = StatusTestingReady
      \<and> t_version t = sq_observed req + 1"
    using cas_tx_status [OF c] load_task_Inr [OF t(1)] t(3) by (auto simp: session_current_def)
  from verify_host_rework_git_Inr [OF pre(5)] obtain out where v:
    "g_run g (g_worktree g tk) [''rev-parse'', ''--verify'', full_ref (hs_branch s)] = GitOk out"
    "trim_space out = trim_space (sq_commit req)" "sq_commit req \<noteq> hs_prior_commit s"
    "\<exists>o2. g_run g (g_worktree g tk)
      [''merge-base'', ''--is-ancestor'', hs_prior_commit s, sq_commit req] = GitOk o2"
    "list_all (\<lambda>p. path_allowed p (hs_scope s)) (hb_paths b)" unfolding t(4) by blast
  show ?thesis
    by (rule exI [of _ tk], rule exI [of _ s], rule exI [of _ "g_worktree g tk"], rule exI [of _ out],
        intro conjI; (rule pre v refl t(5) fin1 fin2 task
          load_session_Inr [OF pre(2), THEN conjunct1]
          load_session_Inr [OF pre(2), THEN conjunct2, THEN conjunct1]
          load_session_Inr [OF pre(2), THEN conjunct2, THEN conjunct2]))
qed

section \<open>A concrete session\<close>

definition sample_artifact :: delivery_artifact where
  "sample_artifact = \<lparr>da_id = ''a1'', da_task = ''t1'', da_gate_run = Some ''g1'', da_version = 1,
     da_branch = ''feature/x'', da_commit = sample_sha, da_base_branch = ''main'',
     da_base = sample_sha, da_evidence = [sample_command], da_creator_actor = ''orchestrator'',
     da_creator_source = ''testing_ready'', da_invalid_reason = [], da_invalidated = None,
     da_created = 5\<rparr>"

definition sample_session :: host_rework_session where
  "sample_session = \<lparr>hs_id = ''s1'', hs_task = ''t1'', hs_artifact = ''a1'', hs_prior_version = 1,
     hs_prior_commit = replicate 40 CHR ''b'', hs_branch = ''feature/x'', hs_owner = ''qa'',
     hs_reason = ''fix'', hs_scope = [''src''], hs_attestation = sample_attestation,
     hs_start_key = ''k0'', hs_start_hash = ''h0'', hs_disposition = HostReworkActive,
     hs_replacement = [], hs_terminal_actor = [], hs_terminal_reason = [], hs_terminal_key = None,
     hs_terminal_hash = [], hs_started = 1, hs_finished = None, hs_updated = 1\<rparr>"

definition sample_submit :: submit_request where
  "sample_submit = \<lparr>sq_task = ''t1'', sq_observed = 7, sq_session = ''s1'', sq_commit = sample_sha,
     sq_actor = ''qa'', sq_source = ''host'', sq_key = ''k9''\<rparr>"

definition sample_git :: git where
  "sample_git = \<lparr>g_worktree = (\<lambda>_. ''/w''), g_bare = ''/bare'',
     g_run = (\<lambda>dir args. if hd args = ''rev-parse'' then GitOk sample_sha
       else if hd args = ''diff'' then GitOk ''src/a.go'' else GitOk [])\<rparr>"

definition sample_fresh :: fresh where
  "sample_fresh s k = s @ replicate k CHR ''x''"

definition sample_rework_db :: db where
  "sample_rework_db = sample_db\<lparr>db_tasks := [sample_task\<lparr>t_status := StatusHostRework\<rparr>],
     db_sessions := [sample_session]\<rparr>"

lemma sample_sha_trim [simp]: "trim_space sample_sha = sample_sha"
  by (simp add: trim_space_def is_space_def sample_sha_def numeral_eq_Suc)

lemma sample_sha_neq [simp]: "sample_sha \<noteq> replicate 40 CHR ''b''"
  by (simp add: sample_sha_def replicate_eq_replicate)

lemma sample_submit_runs: "\<exists>b d'. submit_host_rework sample_fresh 9 (\<lambda>_. ''h'') sample_git sample_submit
    sample_rework_db sample_rework_db = (Inr b, d')"
proof -
  have v: "validate_submit_host_rework sample_submit = Inr ()"
    by (simp add: validate_submit_host_rework_def sample_submit_def uuid_Nil_def trim_space_def
        is_space_def)
  have tk: "load_task ''t1'' sample_rework_db = Inr (sample_task\<lparr>t_status := StatusHostRework\<rparr>)"
    by (simp add: load_task_def tbl_first_def sample_rework_db_def sample_db_def sample_task_def)
  have s: "load_session ''s1'' ''t1'' sample_rework_db = Inr sample_session"
    by (simp add: load_session_def tbl_first_def sample_rework_db_def sample_db_def
        sample_session_def)
  have g: "verify_host_rework_git sample_git (sample_task\<lparr>t_status := StatusHostRework\<rparr>)
      sample_session sample_sha = Inr [''src/a.go'']"
    by (simp add: verify_host_rework_git_def sample_git_def run_git_def sample_session_def
        path_allowed_def trim_space_def is_space_def replace_char_def trim_suffix_def
        has_suffix_def has_prefix_def)
  show ?thesis
    using v tk s g
    by (simp add: submit_host_rework_def transaction_def submit_transaction_def create_defs
        resolve_session_def cas_tx_def cas_task_transition_def guarded_transition_task_def
        transition_task_at_def transition_task_unchecked_at_def cas_request_def validate_evidence_def
        validate_transition_def tbl_update_def tbl_update_unique_def tbl_create_def tbl_first_def
        sample_rework_db_def sample_db_def sample_task_def sample_submit_def sample_session_def
        session_current_def uniq_def uuid_Nil_def cas_match_def evidence_timestamp_def Let_def
        res_bind_def)
qed

theorem host_rework_submission_sound_witness:
  "\<exists>b d'. submit_host_rework sample_fresh 9 (\<lambda>_. ''h'') sample_git sample_submit
      sample_rework_db sample_rework_db = (Inr b, d') \<and> hb_replacement b = sample_sha
    \<and> list_all (\<lambda>p. path_allowed p [''src'']) (hb_paths b)"
proof -
  obtain b d' where r: "submit_host_rework sample_fresh 9 (\<lambda>_. ''h'') sample_git sample_submit
      sample_rework_db sample_rework_db = (Inr b, d')" using sample_submit_runs by blast
  have "tbl_first hb_id (\<lambda>x. hb_key x = sq_key sample_submit) (db_submissions sample_rework_db) = None"
    by (simp add: tbl_first_def sample_rework_db_def sample_db_def)
  from host_rework_submission_sound [OF r this] obtain s where
    "s \<in> set (db_sessions sample_rework_db)" "list_all (\<lambda>p. path_allowed p (hs_scope s)) (hb_paths b)"
    "hb_replacement b = sq_commit sample_submit" by blast
  then show ?thesis using r
    by (auto simp: sample_rework_db_def sample_db_def sample_session_def sample_submit_def)
qed

end
