(* ===== verification/ReworkRouting.thy ===== *)
theory ReworkRouting
  imports HostRework "HOL-Library.Product_Lexorder"
begin

text \<open>
  Orchestrated delivery rework, \<open>internal/orchestrator/delivery_rework_routing.go\<close> and
  \<open>stageOrchestratedDeliveryRework\<close> of \<open>delivery_state.go\<close>: the newest completed leaf of
  every owner lineage is cloned into a repair child, with its dependencies remapped to the new
  generation.  The map of the newest leaves is a list with one entry per lineage; its iteration
  order does not matter because the result is sorted by a total order.
\<close>

text \<open>\<open>extractFileList\<close>: the strings of an \<open>[]any\<close>, or a \<open>[]string\<close> as it is; nil
  otherwise (the empty list, since only the length and the elements are used).\<close>

definition extract_file_list :: "gany option \<Rightarrow> string list" where
  "extract_file_list v = (case v of
     Some (GList xs) \<Rightarrow> List.map_filter (\<lambda>x. case x of GStr s \<Rightarrow> Some s | _ \<Rightarrow> None) xs
   | Some (GStrs xs) \<Rightarrow> xs
   | _ \<Rightarrow> [])"

definition extract_estimated_files :: "task \<Rightarrow> string list" where
  "extract_estimated_files tk = extract_file_list (json_get (t_context tk) ''estimated_files'')"

definition extract_writable_files :: "task \<Rightarrow> string list" where
  "extract_writable_files tk =
     (let files = extract_file_list (json_get (t_context tk) ''writable_files'')
      in if files \<noteq> [] then files else extract_estimated_files tk)"

section \<open>Lineages\<close>

definition rework_root_id :: "task \<Rightarrow> uuid" where
  "rework_root_id tk = (case json_get (t_context tk) ''delivery_rework_root_task_id'' of
     Some (GStr rt) \<Rightarrow> if rt \<noteq> [] then rt else t_id tk
   | _ \<Rightarrow> t_id tk)"

definition rework_generation :: "task \<Rightarrow> int" where
  "rework_generation tk = (case json_get (t_context tk) ''delivery_rework_generation'' of
     Some (GInt g) \<Rightarrow> g
   | Some (GFloat f) \<Rightarrow> trunc_rat f
   | _ \<Rightarrow> 0)"

definition delivery_phase_rank :: "string \<Rightarrow> nat" where
  "delivery_phase_rank phase = (if phase = ''test'' then 0 else if phase = ''implementation'' then 1
     else if phase = ''integration'' then 2 else 3)"

text \<open>Whether \<open>candidate\<close> replaces \<open>current\<close> as the newest leaf of its lineage.\<close>

definition newer_leaf :: "task \<Rightarrow> task \<Rightarrow> bool" where
  "newer_leaf candidate current \<longleftrightarrow> rework_generation candidate > rework_generation current
     \<or> (rework_generation candidate = rework_generation current
        \<and> t_updated candidate > t_updated current)"

fun put_leaf :: "task \<Rightarrow> task list \<Rightarrow> task list" where
  "put_leaf c [] = [c]"
| "put_leaf c (l # ls) = (if rework_root_id l = rework_root_id c
     then (if newer_leaf c l then c # ls else l # ls) else l # put_leaf c ls)"

definition completed_owner :: "uuid \<Rightarrow> task \<Rightarrow> bool" where
  "completed_owner parent tk \<longleftrightarrow> t_parent tk = Some parent \<and> t_status tk = StatusDone
     \<and> t_phase tk \<in> {''test'', ''implementation'', ''integration''}"

definition repair_order :: "task \<Rightarrow> nat \<times> int \<times> string" where
  "repair_order tk = (delivery_phase_rank (t_phase tk), - t_priority tk, t_id tk)"

definition active_repair_sources :: "uuid \<Rightarrow> db \<Rightarrow> err + task list" where
  "active_repair_sources parent d =
     (let completed = filter (completed_owner parent) (db_tasks d) in
      if completed = [] then Inl ErrRecordNotFound
      else Inr (sort_key repair_order (fold put_leaf completed [])))"

section \<open>Repair children\<close>

definition runtime_keys :: "string list" where
  "runtime_keys = [''retry_count'', ''last_error'', ''failure_reason'', ''failure_class'',
     ''failure_diagnosis'', ''failure_category'', ''latest_failure_reason'',
     ''latest_failure_class'', ''latest_failure_type'', ''latest_failure_summary'',
     ''latest_failure_at'', ''latest_failure_current'', ''empty_work'',
     ''constraint_violations'', ''scores'', ''schedule'', ''prep_in_progress'']"

definition clear_repair_runtime_context :: "json_field \<Rightarrow> json_field" where
  "clear_repair_runtime_context ctx = fold json_del runtime_keys ctx"

definition clone_task_context :: "json_field \<Rightarrow> json_field" where
  "clone_task_context src = (case src of None \<Rightarrow> Some Map.empty | Some m \<Rightarrow> Some m)"

definition remap_ids :: "(uuid \<times> uuid) list \<Rightarrow> string list \<Rightarrow> string list" where
  "remap_ids reps ids = map (\<lambda>i. case map_of reps i of Some r \<Rightarrow> r | None \<Rightarrow> i) ids"

text \<open>\<open>slugRegexp.ReplaceAllString(s, "-")\<close>: each maximal run of other characters becomes one
  dash; \<open>inrun\<close> says that the previous character was part of a run.\<close>

fun slugify :: "bool \<Rightarrow> string \<Rightarrow> string" where
  "slugify inrun [] = []"
| "slugify inrun (c # cs) =
     (let n = of_char c :: nat in
      if (97 \<le> n \<and> n \<le> 122) \<or> (48 \<le> n \<and> n \<le> 57) then c # slugify False cs
      else if inrun then slugify True cs else CHR ''-'' # slugify True cs)"

definition trim_dashes :: "string \<Rightarrow> string" where
  "trim_dashes s = rev (dropWhile (\<lambda>c. c = CHR ''-'') (rev (dropWhile (\<lambda>c. c = CHR ''-'') s)))"

definition task_feature_name :: "task \<Rightarrow> string" where
  "task_feature_name tk =
     take 8 (t_id tk) @ ''-'' @ take 40 (trim_dashes (slugify False (to_lower (t_title tk))))"

definition scoped_rework_prompt :: "string \<Rightarrow> string \<Rightarrow> string list \<Rightarrow> string" where
  "scoped_rework_prompt reason phase writable =
     ''Delivery artifact correction for the original '' @ phase @
     '' owner. Address the applicable diagnostics below, edit only this repair's writable_files ('' @
     (if writable \<noteq> [] then str_join '', '' writable else ''the original subtask mutation scope'') @
     ''), and commit a scoped correction. Other owners receive separate dependency-ordered repairs; do not repair their files.'' @
     [CHR 0x0A, CHR 0x0A] @ trim_space reason"

definition repair_context :: "string \<Rightarrow> task \<Rightarrow> json_field" where
  "repair_context reason source = clear_repair_runtime_context
     (json_put ''skip_existing_work_dedup_reason'' (GStr ''delivery_verification_failed'')
     (json_put ''skip_existing_work_dedup'' (GBool True)
     (json_put ''delivery_rework_generation'' (GInt (rework_generation source + 1))
     (json_put ''delivery_rework_root_task_id'' (GStr (rework_root_id source))
     (json_put ''delivery_rework_source_task_id'' (GStr (t_id source))
     (json_put ''delivery_rework_pending'' (GBool True)
     (json_put ''prompt_adjustment''
        (GStr (scoped_rework_prompt reason (t_phase source) (extract_writable_files source)))
     (clone_task_context (t_context source)))))))))"

text \<open>Columns the source leaves out get their default; \<open>state_version\<close> defaults to 1.\<close>

definition repair_task :: "uuid \<Rightarrow> time \<Rightarrow> string \<Rightarrow> (uuid \<times> uuid) list \<Rightarrow> task \<Rightarrow> task" where
  "repair_task rid now reason reps source =
     \<lparr>t_id = rid, t_project = t_project source, t_parent = t_parent source,
      t_title = t_title source @ '' (delivery repair '' @ show_int (rework_generation source + 1) @ '')'',
      t_description = t_description source, t_status = StatusBacklog, t_version = 1,
      t_category = t_category source, t_priority = t_priority source,
      t_complexity = t_complexity source, t_labels = t_labels source,
      t_deps = remap_ids reps (t_deps source), t_agent = None, t_plan = None,
      t_plan_feedback = [], t_test_plan = [], t_test_feedback = [],
      t_branch = ''feature/'' @ task_feature_name source @ ''-rework-'' @ take 8 rid,
      t_base_sha = [], t_pr_url = [], t_phase = t_phase source,
      t_tests_for = remap_ids reps (t_tests_for source), t_tdd_exceptions = None,
      t_needs_human = False, t_context = repair_context reason source,
      t_created = now, t_updated = now\<rparr>"

definition repair_event :: "uuid \<Rightarrow> time \<Rightarrow> uuid \<Rightarrow> task \<Rightarrow> task_event" where
  "repair_event eid now rid source =
     \<lparr>te_id = eid, te_task = rid, te_type = ''delivery_rework_scoped'', te_old = [],
      te_new = task_status_string StatusBacklog,
      te_details = Some [''evidence'' \<mapsto> GMap
        [(''task_id'', GStr rid), (''actor'', GStr ''orchestrator''),
         (''source'', GStr ''delivery_rework''), (''reason'', GStr ''scoped repair child created''),
         (''references'', GMap
           [(''source_task_id'', GStr (t_id source)), (''root_task_id'', GStr (rework_root_id source)),
            (''generation'', GInt (rework_generation source + 1)), (''phase'', GStr (t_phase source)),
            (''writable_files'', GStrs (extract_writable_files source))])]],
      te_actor = ''orchestrator'', te_created = now\<rparr>"

fun create_repairs ::
  "fresh \<Rightarrow> time \<Rightarrow> string \<Rightarrow> (uuid \<times> uuid) list \<Rightarrow> nat \<Rightarrow> task list \<Rightarrow> db \<Rightarrow> err + string list \<times> db" where
  "create_repairs fresh now reason reps k [] d = Inr ([], d)"
| "create_repairs fresh now reason reps k (source # rest) d =
     (let rid = fresh ''repair'' k in
      res_bind (create_task (repair_task rid now reason reps source) d) (\<lambda>d1.
      res_bind (create_event (repair_event (fresh ''repair event'' k) now rid source) d1) (\<lambda>d2.
      res_bind (create_repairs fresh now reason reps (k + 1) rest d2) (\<lambda>(ids, d3).
      Inr (rid # ids, d3)))))"

text \<open>\<open>tx.Model(task).Select("context", "assigned_agent_id").Updates(task)\<close>\<close>

definition save_routing :: "task \<Rightarrow> db \<Rightarrow> db" where
  "save_routing tk d = d\<lparr>db_tasks := fst (tbl_update (\<lambda>r. t_id r = t_id tk)
     (\<lambda>r. r\<lparr>t_context := t_context tk, t_agent := t_agent tk\<rparr>) (db_tasks d))\<rparr>"

text \<open>The map \<open>replacements\<close> from each source to its new id.\<close>

definition replacements :: "fresh \<Rightarrow> task list \<Rightarrow> (uuid \<times> uuid) list" where
  "replacements fresh sources = map (\<lambda>(k, s). (t_id s, fresh ''repair'' k)) (enumerate 0 sources)"

definition stage_scoped_repair_children ::
  "fresh \<Rightarrow> time \<Rightarrow> task \<Rightarrow> string \<Rightarrow> db \<Rightarrow> err + task \<times> db" where
  "stage_scoped_repair_children fresh now tk reason d =
     (case active_repair_sources (t_id tk) d of
        Inl e \<Rightarrow> Inl (ErrMsg ''stage orchestrated delivery rework: no completed test, implementation, or integration subtask is available for repair'')
      | Inr sources \<Rightarrow>
          res_bind (create_repairs fresh now reason (replacements fresh sources) 0 sources d) (\<lambda>(ids, d1).
          let tk1 = tk\<lparr>t_context :=
                json_put ''delivery_rework_repair_count'' (GInt (int (length ids)))
               (json_put ''delivery_rework_repair_ids'' (GStrs ids)
               (json_put ''delivery_rework_pending'' (GStr (hd ids)) (t_context tk))),
               t_agent := None\<rparr>
          in Inr (tk1, save_routing tk1 d1)))"

definition stage_orchestrated_rework ::
  "fresh \<Rightarrow> time \<Rightarrow> task \<Rightarrow> string \<Rightarrow> db \<Rightarrow> err + task \<times> db" where
  "stage_orchestrated_rework fresh now tk reason d =
     (let tk1 = tk\<lparr>t_context := json_put ''prompt_adjustment'' (GStr (trim_space reason))
                   (t_context tk)\<rparr> in
      if is_quick_fix (t_category tk1) then
        let tk2 = tk1\<lparr>t_context := json_put ''delivery_rework_pending'' (GBool True) (t_context tk1),
                      t_agent := None\<rparr>
        in Inr (tk2, save_routing tk2 d)
      else stage_scoped_repair_children fresh now tk1 reason d)"

section \<open>The newest leaf of every lineage\<close>

definition leaf_key :: "task \<Rightarrow> int \<times> time" where
  "leaf_key tk = (rework_generation tk, t_updated tk)"

lemma newer_leaf_key: "newer_leaf c l \<longleftrightarrow> leaf_key l < leaf_key c"
  by (auto simp: newer_leaf_def leaf_key_def)

text \<open>\<open>ls\<close> holds one newest leaf for every lineage of \<open>seen\<close>.\<close>

definition leaves_of :: "task set \<Rightarrow> task list \<Rightarrow> bool" where
  "leaves_of seen ls \<longleftrightarrow> distinct (map rework_root_id ls) \<and> set ls \<subseteq> seen
     \<and> (\<forall>c \<in> seen. \<exists>l \<in> set ls. rework_root_id l = rework_root_id c \<and> leaf_key c \<le> leaf_key l)"

lemma put_leaf_roots:
  "map rework_root_id (put_leaf c ls) = (if rework_root_id c \<in> set (map rework_root_id ls)
     then map rework_root_id ls else map rework_root_id ls @ [rework_root_id c])"
  by (induction ls) auto

lemma put_leaf_set: "set (put_leaf c ls) \<subseteq> insert c (set ls)"
  by (induction ls) auto

lemma put_leaf_dominates:
  "\<exists>l \<in> set (put_leaf c ls). rework_root_id l = rework_root_id c \<and> leaf_key c \<le> leaf_key l"
  by (induction ls) (auto simp: newer_leaf_key not_less)

lemma put_leaf_keeps:
  "l \<in> set ls \<Longrightarrow>
     \<exists>l' \<in> set (put_leaf c ls). rework_root_id l' = rework_root_id l \<and> leaf_key l \<le> leaf_key l'"
  by (induction ls) (auto simp: newer_leaf_key less_imp_le)

lemma put_leaf_leaves:
  assumes "leaves_of seen ls"
  shows "leaves_of (insert c seen) (put_leaf c ls)"
  unfolding leaves_of_def
proof (intro conjI ballI)
  show "distinct (map rework_root_id (put_leaf c ls))"
    using assms by (simp add: put_leaf_roots leaves_of_def)
  show "set (put_leaf c ls) \<subseteq> insert c seen"
    using assms put_leaf_set [of c ls] by (auto simp: leaves_of_def)
  fix x assume "x \<in> insert c seen"
  then show "\<exists>l \<in> set (put_leaf c ls). rework_root_id l = rework_root_id x \<and> leaf_key x \<le> leaf_key l"
  proof
    assume "x = c"
    with put_leaf_dominates show ?thesis by simp
  next
    assume "x \<in> seen"
    with assms obtain l where "l \<in> set ls" "rework_root_id l = rework_root_id x" "leaf_key x \<le> leaf_key l"
      by (auto simp: leaves_of_def)
    with put_leaf_keeps [of l ls c] show ?thesis by (metis order_trans)
  qed
qed

lemma fold_put_leaf_leaves: "leaves_of seen ls \<Longrightarrow> leaves_of (seen \<union> set cs) (fold put_leaf cs ls)"
proof (induction cs arbitrary: seen ls)
  case (Cons a cs)
  from Cons.IH [OF put_leaf_leaves [OF Cons.prems, of a]] show ?case by simp
qed simp

lemma active_repair_sources_Inr:
  assumes "active_repair_sources parent d = Inr sources"
  shows "leaves_of {t \<in> set (db_tasks d). completed_owner parent t} sources"
    "sorted (map repair_order sources)" "sources \<noteq> []"
proof -
  let ?c = "filter (completed_owner parent) (db_tasks d)"
  from assms have s: "sources = sort_key repair_order (fold put_leaf ?c [])" "?c \<noteq> []"
    by (auto simp: active_repair_sources_def Let_def split: if_splits)
  have l: "leaves_of (set ?c) (fold put_leaf ?c [])"
    using fold_put_leaf_leaves [of "{}" "[]" ?c] by (simp add: leaves_of_def)
  have "distinct (map rework_root_id sources) = distinct (map rework_root_id (fold put_leaf ?c []))"
    using s(1) by (metis (no_types) distinct_map distinct_sort set_sort)
  with l s(1) show leaves: "leaves_of {t \<in> set (db_tasks d). completed_owner parent t} sources"
    by (simp add: leaves_of_def)
  show "sorted (map repair_order sources)" by (simp add: s(1))
  from leaves s(2) show "sources \<noteq> []"
    by (fastforce simp: leaves_of_def filter_empty_conv)
qed

text \<open>The repair owners of a parent are its completed test, implementation and integration
  children, one per lineage: two owners never share a lineage root, every completed child has an
  owner of its own lineage that is at least as new (by generation, then by update time), and the
  owners are listed by phase, priority and id.\<close>

theorem repair_sources_newest:
  assumes "active_repair_sources parent d = Inr sources"
  shows "sources \<noteq> [] \<and> distinct (map rework_root_id sources) \<and> sorted (map repair_order sources)
    \<and> set sources \<subseteq> {t \<in> set (db_tasks d). completed_owner parent t}
    \<and> (\<forall>c \<in> set (db_tasks d). completed_owner parent c \<longrightarrow>
         (\<exists>l \<in> set sources. rework_root_id l = rework_root_id c \<and> \<not> newer_leaf c l))"
proof -
  note a = active_repair_sources_Inr [OF assms]
  from a(1) have "\<forall>c \<in> set (db_tasks d). completed_owner parent c \<longrightarrow>
      (\<exists>l \<in> set sources. rework_root_id l = rework_root_id c \<and> \<not> newer_leaf c l)"
    unfolding leaves_of_def newer_leaf_key not_less by blast
  with a show ?thesis unfolding leaves_of_def by blast
qed

section \<open>What a repair child inherits\<close>

lemma json_get_fold_del:
  "json_get (fold json_del ks j) k = (if k \<in> set ks then None else json_get j k)"
  by (induction ks arbitrary: j) auto

lemma json_get_clone [simp]: "json_get (clone_task_context j) k = json_get j k"
  by (simp add: clone_task_context_def json_get_def split: option.splits)

lemma repair_context_get:
  "json_get (repair_context reason s) ''delivery_rework_generation'' = Some (GInt (rework_generation s + 1))"
  "json_get (repair_context reason s) ''delivery_rework_root_task_id'' = Some (GStr (rework_root_id s))"
  "json_get (repair_context reason s) ''writable_files'' = json_get (t_context s) ''writable_files''"
  "json_get (repair_context reason s) ''estimated_files'' = json_get (t_context s) ''estimated_files''"
  "json_get (repair_context reason s) ''failure_reason'' = None"
  "json_get (repair_context reason s) ''schedule'' = None"
  by (simp_all add: repair_context_def clear_repair_runtime_context_def json_get_fold_del
      runtime_keys_def)

lemma rework_root_nonempty: "t_id s \<noteq> [] \<Longrightarrow> rework_root_id s \<noteq> []"
  by (auto simp: rework_root_id_def split: option.splits gany.splits)

lemma repair_task_simps [simp]:
  "t_id (repair_task rid now reason reps s) = rid"
  "t_parent (repair_task rid now reason reps s) = t_parent s"
  "t_status (repair_task rid now reason reps s) = StatusBacklog"
  "t_phase (repair_task rid now reason reps s) = t_phase s"
  "t_deps (repair_task rid now reason reps s) = remap_ids reps (t_deps s)"
  "t_tests_for (repair_task rid now reason reps s) = remap_ids reps (t_tests_for s)"
  "t_context (repair_task rid now reason reps s) = repair_context reason s"
  "t_agent (repair_task rid now reason reps s) = None"
  by (simp_all add: repair_task_def)

lemma repair_task_inherits:
  assumes "t_id s \<noteq> []"
  shows "extract_writable_files (repair_task rid now reason reps s) = extract_writable_files s"
    "rework_generation (repair_task rid now reason reps s) = rework_generation s + 1"
    "rework_root_id (repair_task rid now reason reps s) = rework_root_id s"
proof -
  show "extract_writable_files (repair_task rid now reason reps s) = extract_writable_files s"
    by (simp add: extract_writable_files_def extract_estimated_files_def repair_context_get Let_def)
  show "rework_generation (repair_task rid now reason reps s) = rework_generation s + 1"
    by (simp add: rework_generation_def [of "repair_task rid now reason reps s"] repair_context_get)
  show "rework_root_id (repair_task rid now reason reps s) = rework_root_id s"
    using rework_root_nonempty [OF assms]
    by (simp add: rework_root_id_def [of "repair_task rid now reason reps s"] repair_context_get)
qed

definition repairs_of ::
  "fresh \<Rightarrow> time \<Rightarrow> string \<Rightarrow> (uuid \<times> uuid) list \<Rightarrow> nat \<Rightarrow> task list \<Rightarrow> task list" where
  "repairs_of fresh now reason reps k sources =
     map (\<lambda>(i, s). repair_task (fresh ''repair'' i) now reason reps s) (enumerate k sources)"

lemma repairs_of_Cons: "repairs_of fresh now reason reps k (s # ss) =
    repair_task (fresh ''repair'' k) now reason reps s # repairs_of fresh now reason reps (Suc k) ss"
  by (simp add: repairs_of_def)

lemma repairs_of_nth: "i < length ss \<Longrightarrow> repairs_of fresh now reason reps k ss ! i
    = repair_task (fresh ''repair'' (k + i)) now reason reps (ss ! i)"
  by (simp add: repairs_of_def nth_enumerate_eq)

lemma length_repairs_of [simp]: "length (repairs_of fresh now reason reps k ss) = length ss"
  by (simp add: repairs_of_def)

lemma repairs_of_backlog: "r \<in> set (repairs_of fresh now reason reps k ss) \<Longrightarrow>
    t_status r = StatusBacklog \<and> (\<exists>s \<in> set ss. t_parent r = t_parent s)"
  by (induction ss arbitrary: k) (auto simp: repairs_of_Cons, auto simp: repairs_of_def)

lemma create_repairs_Inr:
  "create_repairs fresh now reason reps k sources d = Inr (ids, d') \<Longrightarrow>
     \<exists>evs. d' = d\<lparr>db_tasks := db_tasks d @ repairs_of fresh now reason reps k sources,
                 db_events := db_events d @ evs\<rparr>
       \<and> ids = map t_id (repairs_of fresh now reason reps k sources)
       \<and> (\<forall>r \<in> set (repairs_of fresh now reason reps k sources). \<forall>x \<in> set (db_tasks d). t_id x \<noteq> t_id r)
       \<and> (uniq task_conflict (db_tasks d) \<longrightarrow> uniq task_conflict (db_tasks d'))
       \<and> (uniq event_conflict (db_events d) \<longrightarrow> uniq event_conflict (db_events d'))"
proof (induction sources arbitrary: k d ids)
  case Nil
  then show ?case by (auto simp: repairs_of_def intro!: exI [of _ "[]"])
next
  case (Cons s ss)
  let ?r = "repair_task (fresh ''repair'' k) now reason reps s"
  let ?e = "repair_event (fresh ''repair event'' k) now (fresh ''repair'' k) s"
  let ?d2 = "d\<lparr>db_tasks := db_tasks d @ [?r], db_events := db_events d @ [?e]\<rparr>"
  from Cons.prems obtain ids2 where c: "\<forall>x \<in> set (db_tasks d). \<not> task_conflict ?r x"
      "\<forall>x \<in> set (db_events d). \<not> event_conflict ?e x"
      "create_repairs fresh now reason reps (Suc k) ss ?d2 = Inr (ids2, d')"
      "ids = fresh ''repair'' k # ids2"
    by (auto simp: Let_def res_bind_Inr create_Inr)
  from Cons.IH [OF c(3)] obtain evs where I:
    "d' = ?d2\<lparr>db_tasks := db_tasks ?d2 @ repairs_of fresh now reason reps (Suc k) ss,
              db_events := db_events ?d2 @ evs\<rparr>"
    "ids2 = map t_id (repairs_of fresh now reason reps (Suc k) ss)"
    "\<forall>r \<in> set (repairs_of fresh now reason reps (Suc k) ss). \<forall>x \<in> set (db_tasks ?d2). t_id x \<noteq> t_id r"
    "uniq task_conflict (db_tasks ?d2) \<longrightarrow> uniq task_conflict (db_tasks d')"
    "uniq event_conflict (db_events ?d2) \<longrightarrow> uniq event_conflict (db_events d')" by blast
  have "uniq task_conflict (db_tasks d) \<longrightarrow> uniq task_conflict (db_tasks ?d2)"
    using c(1) tasks.create_uniq [of "db_tasks d" ?r] by (simp add: res_simps)
  moreover have "uniq event_conflict (db_events d) \<longrightarrow> uniq event_conflict (db_events ?d2)"
    using c(2) events.create_uniq [of "db_events d" ?e] by (simp add: res_simps)
  ultimately have u: "uniq task_conflict (db_tasks d) \<longrightarrow> uniq task_conflict (db_tasks d')"
    "uniq event_conflict (db_events d) \<longrightarrow> uniq event_conflict (db_events d')"
    using I(4,5) by blast+
  have "\<forall>r \<in> set (repairs_of fresh now reason reps k (s # ss)). \<forall>x \<in> set (db_tasks d). t_id x \<noteq> t_id r"
    using I(3) c(1) by (auto simp: repairs_of_Cons task_conflict_def)
  moreover have "d' = d\<lparr>db_tasks := db_tasks d @ repairs_of fresh now reason reps k (s # ss),
      db_events := db_events d @ ?e # evs\<rparr>"
    using I(1) by (simp add: repairs_of_Cons)
  ultimately show ?case
    using I(2) c(4) u by (intro exI [of _ "?e # evs"]) (simp add: repairs_of_Cons)
qed

lemma stage_scoped_Inr:
  assumes "stage_scoped_repair_children fresh now tk reason d = Inr (tk', d')"
  obtains sources ids d1 where "active_repair_sources (t_id tk) d = Inr sources"
    "create_repairs fresh now reason (replacements fresh sources) 0 sources d = Inr (ids, d1)"
    "tk' = tk\<lparr>t_context := t_context tk', t_agent := None\<rparr>" "d' = save_routing tk' d1"
    "json_get (t_context tk') ''delivery_rework_repair_ids'' = Some (GStrs ids)"
    "json_get (t_context tk') ''delivery_rework_pending'' = Some (GStr (hd ids))"
  using assms
  by (auto simp: stage_scoped_repair_children_def Let_def res_bind_Inr split: sum.splits)

section \<open>What staging leaves unchanged\<close>

text \<open>Rows keep their identity, status, version and parent; new rows are repair children.\<close>

definition same_lifecycle :: "task \<Rightarrow> task \<Rightarrow> bool" where
  "same_lifecycle a b \<longleftrightarrow> t_id a = t_id b \<and> t_status a = t_status b \<and> t_version a = t_version b
     \<and> t_parent a = t_parent b"

definition tasks_extend :: "uuid \<Rightarrow> task list \<Rightarrow> task list \<Rightarrow> bool" where
  "tasks_extend parent ts ts' \<longleftrightarrow> (\<exists>kept new. ts' = kept @ new \<and> list_all2 same_lifecycle ts kept
     \<and> (\<forall>r \<in> set new. t_status r = StatusBacklog \<and> t_parent r = Some parent))"

lemma save_routing_tasks:
  "list_all2 same_lifecycle (db_tasks d) (db_tasks (save_routing tk d))"
  by (auto simp: save_routing_def tbl_update_fst list_all2_conv_all_nth same_lifecycle_def)

lemma save_routing_uniq:
  "uniq task_conflict (db_tasks d) \<Longrightarrow> uniq task_conflict (db_tasks (save_routing tk d))"
  unfolding save_routing_def
  by (simp add: tbl_update_fst) (rule tasks.update_uniq, auto simp: task_conflict_def split: if_splits)

lemma completed_owner_parent: "completed_owner p t \<Longrightarrow> t_parent t = Some p"
  by (simp add: completed_owner_def)

lemma stage_orchestrated_frame:
  assumes "stage_orchestrated_rework fresh now tk reason d = Inr (tk', d')"
  shows "tk' = tk\<lparr>t_context := t_context tk', t_agent := None\<rparr>
    \<and> (\<exists>ts evs. d' = d\<lparr>db_tasks := ts, db_events := evs\<rparr>
         \<and> tasks_extend (t_id tk) (db_tasks d) ts
         \<and> (uniq task_conflict (db_tasks d) \<longrightarrow> uniq task_conflict ts)
         \<and> (uniq event_conflict (db_events d) \<longrightarrow> uniq event_conflict evs))"
proof (cases "is_quick_fix (t_category tk)")
  case True
  with assms have e: "tk' = tk\<lparr>t_context := t_context tk', t_agent := None\<rparr>" "d' = save_routing tk' d"
    by (auto simp: stage_orchestrated_rework_def Let_def)
  have "tasks_extend (t_id tk) (db_tasks d) (db_tasks d')"
    unfolding tasks_extend_def e(2) using save_routing_tasks [of d tk']
    by (intro exI [of _ "db_tasks (save_routing tk' d)"] exI [of _ "[]"]) simp
  moreover have "d' = d\<lparr>db_tasks := db_tasks d', db_events := db_events d\<rparr>"
    by (simp add: e(2) save_routing_def)
  ultimately show ?thesis using e save_routing_uniq [of d tk'] by blast
next
  case False
  let ?tk1 = "tk\<lparr>t_context := json_put ''prompt_adjustment'' (GStr (trim_space reason)) (t_context tk)\<rparr>"
  from assms False have "stage_scoped_repair_children fresh now ?tk1 reason d = Inr (tk', d')"
    by (simp add: stage_orchestrated_rework_def Let_def)
  then obtain sources ids d1 where s: "active_repair_sources (t_id ?tk1) d = Inr sources"
    "create_repairs fresh now reason (replacements fresh sources) 0 sources d = Inr (ids, d1)"
    "tk' = ?tk1\<lparr>t_context := t_context tk', t_agent := None\<rparr>" "d' = save_routing tk' d1"
    by (rule stage_scoped_Inr) blast
  from create_repairs_Inr [OF s(2)] obtain evs where c:
    "d1 = d\<lparr>db_tasks := db_tasks d @ repairs_of fresh now reason (replacements fresh sources) 0 sources,
            db_events := db_events d @ evs\<rparr>"
    "uniq task_conflict (db_tasks d) \<longrightarrow> uniq task_conflict (db_tasks d1)"
    "uniq event_conflict (db_events d) \<longrightarrow> uniq event_conflict (db_events d1)" by blast
  let ?rs = "repairs_of fresh now reason (replacements fresh sources) 0 sources"
  have new: "t_status r = StatusBacklog \<and> t_parent r = Some (t_id tk)" if "r \<in> set ?rs" for r
  proof -
    from repairs_of_backlog [OF that] obtain x where "t_status r = StatusBacklog" "x \<in> set sources"
      "t_parent r = t_parent x" by blast
    with active_repair_sources_Inr(1) [OF s(1)] show ?thesis
      by (auto simp: leaves_of_def completed_owner_def)
  qed
  obtain kept nw where kn: "db_tasks d' = kept @ nw" "list_all2 same_lifecycle (db_tasks d) kept"
      "list_all2 same_lifecycle ?rs nw"
    using save_routing_tasks [of d1 tk'] s(4) c(1) by (auto simp: list_all2_append1)
  have nw: "t_status r = StatusBacklog \<and> t_parent r = Some (t_id tk)" if "r \<in> set nw" for r
  proof -
    from kn(3) that obtain x where "x \<in> set ?rs" "same_lifecycle x r"
      by (metis in_set_conv_nth list_all2_conv_all_nth)
    with new show ?thesis by (simp add: same_lifecycle_def)
  qed
  have "tasks_extend (t_id tk) (db_tasks d) (db_tasks d')"
    unfolding tasks_extend_def using kn nw by blast
  moreover have "d' = d\<lparr>db_tasks := db_tasks d', db_events := db_events d1\<rparr>"
    using c(1) by (simp add: s(4) save_routing_def)
  moreover have "uniq task_conflict (db_tasks d) \<longrightarrow> uniq task_conflict (db_tasks d')"
    using c(2) save_routing_uniq s(4) by blast
  ultimately show ?thesis using s(3) c(3) by (intro conjI) (simp, blast)
qed

section \<open>Staging the repairs\<close>

definition inherits_scope :: "task \<Rightarrow> task \<Rightarrow> bool" where
  "inherits_scope r s \<longleftrightarrow> t_status r = StatusBacklog \<and> t_agent r = None \<and> t_parent r = t_parent s
     \<and> t_phase r = t_phase s \<and> extract_writable_files r = extract_writable_files s
     \<and> rework_root_id r = rework_root_id s \<and> rework_generation r = rework_generation s + 1"

text \<open>Position by position, an id of a repaired source is replaced by the id of its repair, every
  other id is kept.\<close>

definition remapped :: "task list \<Rightarrow> task list \<Rightarrow> string list \<Rightarrow> string list \<Rightarrow> bool" where
  "remapped sources repairs old new \<longleftrightarrow> length new = length old \<and> (\<forall>i < length old.
     (\<forall>j < length sources. old ! i = t_id (sources ! j) \<longrightarrow> new ! i = t_id (repairs ! j))
     \<and> (old ! i \<notin> t_id ` set sources \<longrightarrow> new ! i = old ! i))"

lemma replacements_keys:
  "map fst (map (\<lambda>(k, s). (t_id s, fresh ''repair'' k)) (enumerate n sources)) = map t_id sources"
  by (induction sources arbitrary: n) auto

lemma map_of_replacements:
  assumes "distinct (map t_id sources)"
  shows "j < length sources \<Longrightarrow>
      map_of (replacements fresh sources) (t_id (sources ! j)) = Some (fresh ''repair'' j)"
    and "i \<notin> t_id ` set sources \<Longrightarrow> map_of (replacements fresh sources) i = None"
proof -
  let ?m = "replacements fresh sources"
  have keys: "map fst ?m = map t_id sources"
    unfolding replacements_def by (rule replacements_keys)
  show "map_of ?m (t_id (sources ! j)) = Some (fresh ''repair'' j)" if "j < length sources"
  proof (rule map_of_is_SomeI)
    show "distinct (map fst ?m)" using assms keys by simp
    have "?m ! j = (t_id (sources ! j), fresh ''repair'' j)"
      using that by (simp add: replacements_def nth_enumerate_eq)
    moreover have "j < length ?m" using that by (simp add: replacements_def)
    ultimately show "(t_id (sources ! j), fresh ''repair'' j) \<in> set ?m" by (metis nth_mem)
  qed
  show "map_of ?m i = None" if "i \<notin> t_id ` set sources"
    using that arg_cong [OF keys, of set] by (simp add: map_of_eq_None_iff)
qed

lemma remap_ids_remapped:
  assumes "distinct (map t_id sources)"
  shows "remapped sources (repairs_of fresh now reason m 0 sources) ids
    (remap_ids (replacements fresh sources) ids)"
  unfolding remapped_def remap_ids_def
proof (intro conjI allI impI)
  fix i j
  assume i: "i < length ids" and j: "j < length sources" "ids ! i = t_id (sources ! j)"
  show "map (\<lambda>i. case map_of (replacements fresh sources) i of None \<Rightarrow> i | Some r \<Rightarrow> r) ids ! i
      = t_id (repairs_of fresh now reason m 0 sources ! j)"
    using i j map_of_replacements(1) [OF assms j(1)] by (simp add: repairs_of_nth)
next
  fix i assume i: "i < length ids" "ids ! i \<notin> t_id ` set sources"
  show "map (\<lambda>i. case map_of (replacements fresh sources) i of None \<Rightarrow> i | Some r \<Rightarrow> r) ids ! i = ids ! i"
    using i map_of_replacements(2) [OF assms i(2)] by simp
qed simp

lemma sources_distinct_ids:
  assumes "active_repair_sources parent d = Inr sources" "uniq task_conflict (db_tasks d)"
  shows "distinct (map t_id sources)"
proof -
  have "distinct (map rework_root_id sources)" and sub: "set sources \<subseteq> set (db_tasks d)"
    using active_repair_sources_Inr(1) [OF assms(1)] by (auto simp: leaves_of_def)
  then have "distinct sources" by (simp add: distinct_map)
  moreover have "inj_on t_id (set sources)"
    using sub tasks.uniq_eq [OF assms(2)] by (auto simp: inj_on_def task_conflict_def)
  ultimately show ?thesis by (simp add: distinct_map)
qed

text \<open>Orchestrated rework of a standard task gives every newest completed owner exactly one
  repair child: a fresh backlog task of the same parent, phase, lineage and writable files and the
  next generation, whose dependencies and test links point to the new repairs where they pointed to
  repaired owners.  Every existing task keeps its status, version and parent, and the parent's
  context lists exactly the new children.\<close>

theorem repair_children_staged:
  assumes "uniq task_conflict (db_tasks d)" "\<forall>t \<in> set (db_tasks d). t_id t \<noteq> []"
    and "tk \<in> set (db_tasks d)" "\<not> is_quick_fix (t_category tk)"
    and "stage_orchestrated_rework fresh now tk reason d = Inr (tk', d')"
  shows "\<exists>sources kept repairs. active_repair_sources (t_id tk) d = Inr sources
    \<and> db_tasks d' = kept @ repairs \<and> list_all2 same_lifecycle (db_tasks d) kept
    \<and> length repairs = length sources
    \<and> (\<forall>k < length sources. inherits_scope (repairs ! k) (sources ! k)
        \<and> remapped sources repairs (t_deps (sources ! k)) (t_deps (repairs ! k))
        \<and> remapped sources repairs (t_tests_for (sources ! k)) (t_tests_for (repairs ! k)))
    \<and> json_get (t_context tk') ''delivery_rework_repair_ids'' = Some (GStrs (map t_id repairs))"
proof -
  let ?tk1 = "tk\<lparr>t_context := json_put ''prompt_adjustment'' (GStr (trim_space reason)) (t_context tk)\<rparr>"
  from assms(4,5) have "stage_scoped_repair_children fresh now ?tk1 reason d = Inr (tk', d')"
    by (simp add: stage_orchestrated_rework_def Let_def)
  then obtain sources ids d1 where s: "active_repair_sources (t_id ?tk1) d = Inr sources"
    and c: "create_repairs fresh now reason (replacements fresh sources) 0 sources d = Inr (ids, d1)"
    and eq: "tk' = ?tk1\<lparr>t_context := t_context tk', t_agent := None\<rparr>" and d': "d' = save_routing tk' d1"
    and ctx: "json_get (t_context tk') ''delivery_rework_repair_ids'' = Some (GStrs ids)"
    by (rule stage_scoped_Inr)
  from s have s: "active_repair_sources (t_id tk) d = Inr sources" by simp
  from arg_cong [OF eq, of t_id] have id': "t_id tk' = t_id tk" by simp
  let ?rs = "repairs_of fresh now reason (replacements fresh sources) 0 sources"
  from create_repairs_Inr [OF c] have d1: "db_tasks d1 = db_tasks d @ ?rs" "ids = map t_id ?rs"
    "\<forall>r \<in> set ?rs. \<forall>x \<in> set (db_tasks d). t_id x \<noteq> t_id r" by auto
  define f :: "task \<Rightarrow> task" where "f = (\<lambda>r. if t_id r = t_id tk' then r\<lparr>t_context := t_context tk', t_agent := t_agent tk'\<rparr> else r)"
  have "t_id r \<noteq> t_id tk'" if "r \<in> set ?rs" for r
    using d1(3) assms(3) that by (metis id')
  then have "map f ?rs = ?rs" by (intro map_idI) (simp add: f_def)
  moreover have "db_tasks d' = map f (db_tasks d1)"
    by (simp add: d' save_routing_def tbl_update_fst f_def)
  ultimately have ts: "db_tasks d' = map f (db_tasks d) @ ?rs" by (simp add: d1(1))
  have kept: "list_all2 same_lifecycle (db_tasks d) (map f (db_tasks d))"
    by (auto simp: list_all2_conv_all_nth same_lifecycle_def f_def)
  have src: "x \<in> set (db_tasks d)" if "x \<in> set sources" for x
    using active_repair_sources_Inr(1) [OF s] that by (auto simp: leaves_of_def)
  have inh: "inherits_scope (?rs ! k) (sources ! k)" if "k < length sources" for k
    using that assms(2) src [of "sources ! k"] repair_task_inherits [of "sources ! k"]
    by (simp add: inherits_scope_def repairs_of_nth)
  have rem: "remapped sources ?rs (t_deps (sources ! k)) (t_deps (?rs ! k))
      \<and> remapped sources ?rs (t_tests_for (sources ! k)) (t_tests_for (?rs ! k))"
    if "k < length sources" for k
    using that remap_ids_remapped [OF sources_distinct_ids [OF s assms(1)]]
    by (simp add: repairs_of_nth)
  show ?thesis
    by (rule exI [of _ sources], rule exI [of _ "map f (db_tasks d)"], rule exI [of _ ?rs])
      (use s ts kept inh rem ctx d1(2) in simp)
qed

definition sample_owner :: "uuid \<Rightarrow> string \<Rightarrow> string list \<Rightarrow> task" where
  "sample_owner i phase deps = sample_task\<lparr>t_id := i, t_parent := Some ''t1'',
     t_status := StatusDone, t_phase := phase, t_deps := deps\<rparr>"

definition sample_routing_db :: db where
  "sample_routing_db = sample_db\<lparr>db_tasks := [sample_task\<lparr>t_status := StatusVerificationReady\<rparr>,
     sample_owner ''c1'' ''test'' [], sample_owner ''c2'' ''implementation'' [''c1'', ''z'']]\<rparr>"

lemma sample_sources: "active_repair_sources ''t1'' sample_routing_db
    = Inr [sample_owner ''c1'' ''test'' [], sample_owner ''c2'' ''implementation'' [''c1'', ''z'']]"
  by (simp add: active_repair_sources_def Let_def sample_routing_db_def sample_db_def
      completed_owner_def sample_owner_def sample_task_def rework_root_id_def json_get_def
      repair_order_def delivery_phase_rank_def less_eq_prod_def)

lemma sample_staging: "\<exists>tk' d'. stage_orchestrated_rework sample_fresh 9
    (sample_task\<lparr>t_status := StatusVerificationReady\<rparr>) ''fix'' sample_routing_db = Inr (tk', d')"
proof -
  have "t_id (sample_task\<lparr>t_status := StatusVerificationReady, t_context := c\<rparr>) = ''t1''" for c
    by (simp add: sample_task_def)
  then show ?thesis
    using sample_sources
    by (simp add: stage_orchestrated_rework_def stage_scoped_repair_children_def Let_def is_quick_fix_def
        create_defs tbl_create_def task_conflict_def event_conflict_def res_bind_def repair_event_def
        sample_fresh_def sample_routing_db_def sample_db_def sample_owner_def sample_task_def)
qed

theorem repair_children_staged_witness:
  "\<exists>tk' d' kept repairs. stage_orchestrated_rework sample_fresh 9
      (sample_task\<lparr>t_status := StatusVerificationReady\<rparr>) ''fix'' sample_routing_db = Inr (tk', d')
    \<and> db_tasks d' = kept @ repairs \<and> length kept = 3 \<and> length repairs = 2
    \<and> inherits_scope (repairs ! 1) (sample_owner ''c2'' ''implementation'' [''c1'', ''z''])"
proof -
  let ?tk = "sample_task\<lparr>t_status := StatusVerificationReady\<rparr>"
  obtain tk' d' where st: "stage_orchestrated_rework sample_fresh 9 ?tk ''fix'' sample_routing_db
      = Inr (tk', d')" using sample_staging by blast
  have hyps: "uniq task_conflict (db_tasks sample_routing_db)"
    "\<forall>t \<in> set (db_tasks sample_routing_db). t_id t \<noteq> []"
    "?tk \<in> set (db_tasks sample_routing_db)" "\<not> is_quick_fix (t_category ?tk)"
    by (simp_all add: sample_routing_db_def sample_db_def sample_owner_def sample_task_def uniq_def
        task_conflict_def is_quick_fix_def)
  have id: "t_id ?tk = ''t1''" by (simp add: sample_task_def)
  from repair_children_staged [OF hyps st] obtain sources kept repairs
    where r0: "active_repair_sources ''t1'' sample_routing_db = Inr sources"
      and r: "db_tasks d' = kept @ repairs"
      "list_all2 same_lifecycle (db_tasks sample_routing_db) kept" "length repairs = length sources"
      and inh: "\<forall>k < length sources. inherits_scope (repairs ! k) (sources ! k)"
    unfolding id by blast
  from r0 sample_sources have src: "sources = [sample_owner ''c1'' ''test'' [],
      sample_owner ''c2'' ''implementation'' [''c1'', ''z'']]" by simp
  have two: "length repairs = 2"
    and i2: "inherits_scope (repairs ! 1) (sample_owner ''c2'' ''implementation'' [''c1'', ''z''])"
    using r(3) inh [rule_format, of 1] by (simp_all add: src)
  from list_all2_lengthD [OF r(2)] have "length kept = 3" by (simp add: sample_routing_db_def)
  with st r(1) two i2 show ?thesis by blast
qed

theorem repair_sources_newest_witness:
  "\<exists>sources. active_repair_sources ''t1'' sample_routing_db = Inr sources
    \<and> distinct (map rework_root_id sources) \<and> length sources = 2"
  using repair_sources_newest [OF sample_sources] sample_sources by auto

end
