(* ===== verification/Delivery.thy ===== *)
theory Delivery
  imports ReworkRouting
begin

text \<open>
  The delivery operations of \<open>internal/orchestrator/delivery_state.go\<close>,
  \<open>delivery_policy.go\<close> and \<open>currentArtifact\<close> of \<open>delivery_claim.go\<close>: freezing an
  artifact, recording a failed gate, verifying, authorizing and requesting rework.  Every
  operation maps the database to its outcome and the database afterwards; the mutex
  \<open>deliveryMu\<close> serialises them, so an operation sees one database.
\<close>

record delivery_candidate =
  dc_branch :: string
  dc_commit :: string
  dc_base_branch :: string
  dc_base :: string

record delivery_gate_result =
  dg_candidate :: delivery_candidate
  dg_workspace :: string
  dg_environment :: string
  dg_evidence :: command_evidence
  dg_outcome :: preliminary_gate_outcome

section \<open>Artifacts\<close>

definition current_artifact :: "uuid \<Rightarrow> db \<Rightarrow> err + delivery_artifact" where
  "current_artifact tid d = of_option ErrRecordNotFound
     (tbl_first da_id (\<lambda>a. da_task a = tid \<and> artifact_current a) (db_artifacts d))"

definition invalidated :: "time \<Rightarrow> string \<Rightarrow> delivery_artifact \<Rightarrow> delivery_artifact" where
  "invalidated now reason a = a\<lparr>da_invalidated := Some now, da_invalid_reason := reason\<rparr>"

text \<open>\<open>Where("id = ? AND invalidated_at IS NULL", id).Updates(...)\<close>; \<open>RowsAffected\<close> is not
  looked at.\<close>

definition invalidate_artifact :: "uuid \<Rightarrow> time \<Rightarrow> string \<Rightarrow> db \<Rightarrow> db" where
  "invalidate_artifact aid now reason d = d\<lparr>db_artifacts :=
     fst (tbl_update (\<lambda>a. da_id a = aid \<and> artifact_current a) (invalidated now reason)
       (db_artifacts d))\<rparr>"

definition latest_passing :: "uuid \<Rightarrow> db \<Rightarrow> verification_record option" where
  "latest_passing aid d = tbl_latest vr_created vr_id
     (\<lambda>v. vr_artifact v = aid \<and> vr_result v = VerificationPassed) (db_verifications d)"

definition max_artifact_version :: "uuid \<Rightarrow> db \<Rightarrow> nat" where
  "max_artifact_version tid d =
     fold max (map da_version (filter (\<lambda>a. da_task a = tid) (db_artifacts d))) 0"

section \<open>Freezing\<close>

definition evidence_started :: "command_evidence list \<Rightarrow> time" where
  "evidence_started cs = fold min (map ce_started (tl cs)) (ce_started (hd cs))"

definition evidence_finished :: "command_evidence list \<Rightarrow> time" where
  "evidence_finished cs = fold max (map ce_finished (tl cs)) (ce_finished (hd cs))"

definition passed_gate_run :: "uuid \<Rightarrow> task \<Rightarrow> artifact_snapshot \<Rightarrow> preliminary_gate_run" where
  "passed_gate_run gid tk s =
     \<lparr>gr_id = gid, gr_task = t_id tk, gr_branch = as_branch s, gr_commit = as_commit s,
      gr_base_branch = as_base_branch s, gr_base = as_base s, gr_workspace = as_workspace s,
      gr_environment = as_environment s, gr_evidence = as_evidence s,
      gr_outcome = PreliminaryGatePassed, gr_actor = as_actor s, gr_source = as_source s,
      gr_started = evidence_started (as_evidence s), gr_finished = evidence_finished (as_evidence s)\<rparr>"

definition frozen_artifact ::
  "uuid \<Rightarrow> uuid \<Rightarrow> time \<Rightarrow> nat \<Rightarrow> task \<Rightarrow> artifact_snapshot \<Rightarrow> delivery_artifact" where
  "frozen_artifact aid gid now version tk s =
     \<lparr>da_id = aid, da_task = t_id tk, da_gate_run = Some gid, da_version = version,
      da_branch = as_branch s, da_commit = as_commit s, da_base_branch = as_base_branch s,
      da_base = as_base s, da_evidence = as_evidence s, da_creator_actor = as_actor s,
      da_creator_source = as_source s, da_invalid_reason = [], da_invalidated = None,
      da_created = now\<rparr>"

definition freeze_transaction ::
  "fresh \<Rightarrow> time \<Rightarrow> uuid \<Rightarrow> artifact_snapshot \<Rightarrow> db \<Rightarrow> err + delivery_artifact \<times> db" where
  "freeze_transaction fresh now tid s d =
     res_bind (load_task tid d) (\<lambda>tk.
     if t_status tk \<noteq> StatusTestingReady then Inl ErrStaleTransition
     else let g = passed_gate_run (fresh ''gate run'' 0) tk s;
            a = frozen_artifact (fresh ''artifact'' 0) (gr_id g) now
                  (max_artifact_version (t_id tk) d + 1) tk s
       in res_bind (create_gate_run g d) (\<lambda>d1.
          res_bind (create_artifact a d1) (\<lambda>d2.
          res_bind (cas_tx (fresh ''event'' 0) now tk StatusTestingReady StatusVerificationReady
            (as_actor s) (as_source s) ''preliminary gates passed and artifact frozen''
            [(''delivery_artifact_id'', GStr (da_id a)),
             (''preliminary_gate_run_id'', GStr (gr_id g)),
             (''artifact_version'', GInt (int (da_version a)))] d2) (\<lambda>d3. Inr (a, d3)))))"

definition freeze_delivery_artifact ::
  "fresh \<Rightarrow> time \<Rightarrow> uuid \<Rightarrow> artifact_snapshot \<Rightarrow> db \<Rightarrow> (err + delivery_artifact) \<times> db" where
  "freeze_delivery_artifact fresh now tid s d =
     (case validate_artifact_snapshot s of Inl e \<Rightarrow> (Inl e, d)
      | Inr _ \<Rightarrow> transaction (freeze_transaction fresh now tid s) d)"

definition failed_gate_run :: "uuid \<Rightarrow> task \<Rightarrow> delivery_gate_result \<Rightarrow> preliminary_gate_run" where
  "failed_gate_run gid tk gate = (let c = dg_candidate gate in
     \<lparr>gr_id = gid, gr_task = t_id tk, gr_branch = dc_branch c, gr_commit = dc_commit c,
      gr_base_branch = dc_base_branch c, gr_base = dc_base c, gr_workspace = dg_workspace gate,
      gr_environment = dg_environment gate, gr_evidence = [dg_evidence gate],
      gr_outcome = dg_outcome gate, gr_actor = ''orchestrator'', gr_source = ''testing_ready'',
      gr_started = ce_started (dg_evidence gate), gr_finished = ce_finished (dg_evidence gate)\<rparr>)"

definition gate_failure_target :: "preliminary_gate_outcome \<Rightarrow> task_status" where
  "gate_failure_target outcome =
     (if outcome = PreliminaryGateCodeFailure then StatusInProgress else StatusPaused)"

definition gate_failure_transaction ::
  "fresh \<Rightarrow> time \<Rightarrow> uuid \<Rightarrow> delivery_gate_result \<Rightarrow> db \<Rightarrow> err + unit \<times> db" where
  "gate_failure_transaction fresh now tid gate d =
     res_bind (load_task tid d) (\<lambda>tk.
     if t_status tk \<noteq> StatusTestingReady then Inl ErrStaleTransition
     else let g = failed_gate_run (fresh ''gate run'' 0) tk gate
       in res_bind (create_gate_run g d) (\<lambda>d1.
          res_bind (cas_tx (fresh ''event'' 0) now tk StatusTestingReady
            (gate_failure_target (dg_outcome gate)) ''orchestrator''
            ''testing_ready'' ''preliminary gate failed''
            [(''preliminary_gate_run_id'', GStr (gr_id g)),
             (''outcome'', GStr (preliminary_gate_outcome_string (dg_outcome gate)))] d1) (\<lambda>d2.
          Inr ((), d2))))"

definition record_preliminary_gate_failure ::
  "fresh \<Rightarrow> time \<Rightarrow> uuid \<Rightarrow> delivery_gate_result \<Rightarrow> db \<Rightarrow> (err + unit) \<times> db" where
  "record_preliminary_gate_failure fresh now tid gate d =
     (let c = dg_candidate gate in
      if tid = uuid_Nil \<or> dc_branch c = [] \<or> \<not> valid_object_id (dc_commit c)
         \<or> \<not> valid_object_id (dc_base c) \<or> blank (dg_workspace gate) \<or> blank (dg_environment gate)
      then (Inl (ErrMsg ''record preliminary gate failure: exact candidate, workspace, and environment are required''), d)
      else if dg_outcome gate = PreliminaryGatePassed \<or> dg_outcome gate = PreliminaryGateOther []
      then (Inl (ErrMsg ''record preliminary gate failure: a closed failure outcome is required''), d)
      else case validate_command_evidence [dg_evidence gate] False of
        Inl e \<Rightarrow> (Inl e, d)
      | Inr _ \<Rightarrow> transaction (gate_failure_transaction fresh now tid gate) d)"

section \<open>Verification\<close>

definition exact_artifact :: "delivery_artifact \<Rightarrow> nat \<Rightarrow> string \<Rightarrow> bool" where
  "exact_artifact a version commit \<longleftrightarrow> da_version a = version \<and> da_commit a = commit"

text \<open>The routing that a failed verification and a rework request share: a host session or the
  staged repairs.  The result is the task in memory, the target status and the session's id.\<close>

definition route_rework ::
  "fresh \<Rightarrow> time \<Rightarrow> task \<Rightarrow> delivery_artifact \<Rightarrow> string \<Rightarrow> string \<Rightarrow> delivery_rework_mode \<Rightarrow> string list
   \<Rightarrow> host_direct_attestation \<Rightarrow> string \<Rightarrow> string \<Rightarrow> db \<Rightarrow> err + (task \<times> task_status \<times> uuid option) \<times> db"
where
  "route_rework fresh now tk a actor reason mode scope att key hsh d =
     (if mode = DeliveryReworkHostDirect then
        res_bind (create_host_rework_session fresh now tk a actor reason scope att key hsh d)
          (\<lambda>(s, d1). Inr ((tk, StatusHostRework, Some (hs_id s)), d1))
      else
        res_bind (stage_orchestrated_rework fresh now tk reason d)
          (\<lambda>(tk1, d1). Inr ((tk1, StatusInProgress, None), d1)))"

definition session_ref :: "uuid option \<Rightarrow> uuid" where
  "session_ref sid = (case sid of None \<Rightarrow> uuid_Nil | Some s \<Rightarrow> s)"

text \<open>The failure branch of \<open>VerifyDelivery\<close>: routing, the rework record, the invalidation.
  The result is the task in memory, the target and the ids for the references.\<close>

definition verify_failure ::
  "fresh \<Rightarrow> time \<Rightarrow> string \<Rightarrow> verify_request \<Rightarrow> task \<Rightarrow> delivery_artifact \<Rightarrow> db
   \<Rightarrow> err + (task \<times> task_status \<times> uuid \<times> uuid) \<times> db" where
  "verify_failure fresh now hsh req tk a d =
     res_bind (route_rework fresh now tk a (vq_actor req) (vq_failure_reason req)
       (vq_failure_mode req) (vq_scope req) (vq_attestation req) (vq_key req) hsh d)
       (\<lambda>((tk1, target, sid), d1).
     let rw = \<lparr>rw_id = fresh ''rework'' 0, rw_task = t_id tk, rw_artifact = da_id a,
           rw_version = da_version a, rw_commit = da_commit a, rw_actor = vq_actor req,
           rw_source = vq_source req, rw_reason = vq_failure_reason req,
           rw_mode = vq_failure_mode req, rw_session = sid, rw_key = vq_key req, rw_hash = hsh\<rparr>
     in res_bind (create_rework rw d1) (\<lambda>d2.
        Inr ((tk1, target, rw_id rw, session_ref sid),
             invalidate_artifact (da_id a) now ''verification_failed'' d2)))"

definition verify_references ::
  "delivery_artifact \<Rightarrow> verification_record \<Rightarrow> verification_result \<Rightarrow> string list \<Rightarrow> uuid \<Rightarrow> uuid
   \<Rightarrow> (string \<times> gany) list" where
  "verify_references a v result ids rework session =
     [(''delivery_artifact_id'', GStr (da_id a)), (''verification_record_id'', GStr (vr_id v)),
      (''artifact_version'', GInt (int (da_version a))), (''commit_sha'', GStr (da_commit a)),
      (''result'', GStr (verification_result_string result))]
     @ (if ids \<noteq> [] then [(''interaction_record_ids'', GStrs ids)] else [])
     @ (if rework \<noteq> uuid_Nil then [(''delivery_rework_record_id'', GStr rework)] else [])
     @ (if session \<noteq> uuid_Nil then [(''host_rework_session_id'', GStr session)] else [])"

definition verify_fresh ::
  "fresh \<Rightarrow> time \<Rightarrow> string \<Rightarrow> verify_request \<Rightarrow> db \<Rightarrow> err + verification_record \<times> db" where
  "verify_fresh fresh now hsh req d =
     res_bind (load_task (vq_task req) d) (\<lambda>tk.
     if t_status tk \<noteq> StatusVerificationReady \<or> t_version tk \<noteq> vq_observed req
     then Inl ErrStaleTransition
     else res_bind (current_artifact (vq_task req) d) (\<lambda>a.
     if \<not> exact_artifact a (vq_version req) (vq_commit req) then Inl ErrStaleArtifact
     else let v = \<lparr>vr_id = fresh ''verification'' 0, vr_task = t_id tk, vr_artifact = da_id a,
              vr_version = da_version a, vr_commit = da_commit a, vr_actor = vq_actor req,
              vr_environment = vq_environment req, vr_evidence = vq_evidence req,
              vr_binary = vq_binary req, vr_result = vq_result req, vr_notes = vq_notes req,
              vr_key = vq_key req, vr_hash = hsh, vr_created = now\<rparr>
       in res_bind (create_verification v d) (\<lambda>d1.
          res_bind (persist_verification_interactions fresh tk a v req d1) (\<lambda>(ids, d2).
          res_bind (if vq_result req = VerificationFailed then verify_failure fresh now hsh req tk a d2
                    else Inr ((tk, StatusIntegrationReady, uuid_Nil, uuid_Nil), d2))
            (\<lambda>((tk1, target, rework, session), d3).
          res_bind (cas_tx (fresh ''event'' 0) now tk1 StatusVerificationReady target
            (vq_actor req) (vq_source req)
            (if vq_result req = VerificationFailed then ''delivery artifact verification failed''
             else ''delivery artifact verified'')
            (verify_references a v (vq_result req) ids rework session) d3) (\<lambda>d4. Inr (v, d4)))))))"

definition verify_transaction ::
  "fresh \<Rightarrow> time \<Rightarrow> string \<Rightarrow> verify_request \<Rightarrow> db \<Rightarrow> err + verification_record \<times> db" where
  "verify_transaction fresh now hsh req d =
     (case tbl_first vr_id (\<lambda>v. vr_key v = vq_key req) (db_verifications d) of
        Some replay \<Rightarrow> if vr_hash replay \<noteq> hsh then Inl ErrIdempotencyConflict else Inr (replay, d)
      | None \<Rightarrow> verify_fresh fresh now hsh req d)"

definition verify_delivery ::
  "fresh \<Rightarrow> time \<Rightarrow> (verify_request \<Rightarrow> string) \<Rightarrow> verify_request \<Rightarrow> db
   \<Rightarrow> (err + verification_record) \<times> db" where
  "verify_delivery fresh now hash req0 d =
     (let req = normalize_verify_request req0 in
      case validate_verify_request req of Inl e \<Rightarrow> (Inl e, d)
      | Inr _ \<Rightarrow> transaction (verify_transaction fresh now (hash req) req) d)"

section \<open>Authorization\<close>

text \<open>\<open>deliveryArtifactDrift\<close>: the empty text means no drift.\<close>

definition delivery_artifact_drift :: "git \<Rightarrow> task \<Rightarrow> delivery_artifact \<Rightarrow> err + string" where
  "delivery_artifact_drift g tk a =
     (let w = g_worktree g tk in
      if w = [] then Inl (ErrMsg ''delivery preflight: integration worktree is unavailable'')
      else res_bind (run_git g w [''rev-parse'', da_branch a]) (\<lambda>branch_sha.
      if trim_space branch_sha \<noteq> trim_space (da_commit a) then Inr ''delivery_commit_drift''
      else res_bind (run_git g w [''rev-parse'', da_base_branch a]) (\<lambda>base_sha.
      if trim_space base_sha \<noteq> trim_space (da_base a)
      then Inr ''target_drift_requires_reverification'' else Inr [])))"

definition new_intent ::
  "uuid \<Rightarrow> uuid \<Rightarrow> delivery_artifact \<Rightarrow> uuid \<Rightarrow> uuid \<Rightarrow> string \<Rightarrow> string \<Rightarrow> merge_intent" where
  "new_intent iid tid a vid auid actor source =
     \<lparr>mi_id = iid, mi_task = tid, mi_artifact = da_id a, mi_verification = vid,
      mi_authorization = auid, mi_commit = da_commit a, mi_feature_branch = da_branch a,
      mi_target_branch = da_base_branch a, mi_target_base = da_base a, mi_actor = actor,
      mi_source = source\<rparr>"

definition new_authorization ::
  "uuid \<Rightarrow> time \<Rightarrow> string \<Rightarrow> integrate_request \<Rightarrow> task \<Rightarrow> delivery_artifact \<Rightarrow> verification_record
   \<Rightarrow> integration_authorization" where
  "new_authorization auid now hsh req tk a v =
     \<lparr>ia_id = auid, ia_task = t_id tk, ia_artifact = da_id a, ia_verification = vr_id v,
      ia_version = da_version a, ia_commit = da_commit a, ia_base = da_base a,
      ia_actor = iq_actor req, ia_source = iq_source req, ia_key = iq_key req, ia_hash = hsh,
      ia_created = now\<rparr>"

text \<open>The result of the transaction is \<open>preflightErr\<close> or the authorization: a drifted artifact
  commits its invalidation and still makes the call fail.\<close>

definition authorize_fresh ::
  "fresh \<Rightarrow> time \<Rightarrow> string \<Rightarrow> git \<Rightarrow> integrate_request \<Rightarrow> db
   \<Rightarrow> err + (err + integration_authorization) \<times> db" where
  "authorize_fresh fresh now hsh g req d =
     res_bind (load_task (iq_task req) d) (\<lambda>tk.
     if t_status tk \<noteq> StatusIntegrationReady \<or> t_version tk \<noteq> iq_observed req
     then Inl ErrStaleTransition
     else res_bind (current_artifact (t_id tk) d) (\<lambda>a.
     if \<not> exact_artifact a (iq_version req) (iq_commit req) then Inl ErrStaleArtifact
     else res_bind (of_option ErrRecordNotFound (tbl_first vr_id
            (\<lambda>v. vr_id v = iq_verification req \<and> vr_artifact v = da_id a
               \<and> vr_result v = VerificationPassed) (db_verifications d))) (\<lambda>v.
     res_bind (delivery_artifact_drift g tk a) (\<lambda>drift.
     if drift \<noteq> [] then
       res_bind (cas_tx (fresh ''event'' 0) now tk StatusIntegrationReady StatusInProgress
         (iq_actor req) ''integration_preflight'' drift
         [(''delivery_artifact_id'', GStr (da_id a)), (''artifact_version'', GInt (int (da_version a))),
          (''commit_sha'', GStr (da_commit a))] (invalidate_artifact (da_id a) now drift d)) (\<lambda>d1.
       Inr (Inl ErrStaleArtifact, d1))
     else
       let au = new_authorization (fresh ''authorization'' 0) now hsh req tk a v;
           mi = new_intent (fresh ''intent'' 0) (t_id tk) a (vr_id v) (ia_id au) (iq_actor req)
                  (iq_source req)
       in res_bind (create_authorization au d) (\<lambda>d1.
          res_bind (create_intent mi d1) (\<lambda>d2.
          res_bind (cas_tx (fresh ''event'' 0) now tk StatusIntegrationReady StatusMerging
            (iq_actor req) (iq_source req) ''verified artifact authorized for integration''
            [(''delivery_artifact_id'', GStr (da_id a)), (''verification_record_id'', GStr (vr_id v)),
             (''integration_authorization_id'', GStr (ia_id au)), (''merge_intent_id'', GStr (mi_id mi)),
             (''artifact_version'', GInt (int (da_version a))), (''commit_sha'', GStr (da_commit a))]
            d2) (\<lambda>d3.
          Inr (Inr au, d3))))))))"

definition authorize_transaction ::
  "fresh \<Rightarrow> time \<Rightarrow> string \<Rightarrow> git \<Rightarrow> integrate_request \<Rightarrow> db
   \<Rightarrow> err + (err + integration_authorization) \<times> db" where
  "authorize_transaction fresh now hsh g req d =
     (case tbl_first ia_id (\<lambda>x. ia_key x = iq_key req) (db_authorizations d) of
        Some replay \<Rightarrow> if ia_hash replay \<noteq> hsh then Inl ErrIdempotencyConflict
                       else Inr (Inr replay, d)
      | None \<Rightarrow> authorize_fresh fresh now hsh g req d)"

definition authorize_integration ::
  "fresh \<Rightarrow> time \<Rightarrow> (integrate_request \<Rightarrow> string) \<Rightarrow> git \<Rightarrow> integrate_request \<Rightarrow> db
   \<Rightarrow> (err + integration_authorization) \<times> db" where
  "authorize_integration fresh now hash g req d =
     (case validate_integrate_request req of Inl e \<Rightarrow> (Inl e, d)
      | Inr _ \<Rightarrow> (case transaction (authorize_transaction fresh now (hash req) g req) d of
          (Inl e, d') \<Rightarrow> (Inl e, d')
        | (Inr outcome, d') \<Rightarrow> (outcome, d')))"

section \<open>Rework\<close>

definition rework_fresh ::
  "fresh \<Rightarrow> time \<Rightarrow> string \<Rightarrow> rework_request \<Rightarrow> db \<Rightarrow> err + delivery_rework_record \<times> db" where
  "rework_fresh fresh now hsh req d =
     res_bind (load_task (rq_task req) d) (\<lambda>tk.
     if (t_status tk \<noteq> StatusVerificationReady \<and> t_status tk \<noteq> StatusIntegrationReady)
        \<or> t_version tk \<noteq> rq_observed req
     then Inl ErrStaleTransition
     else res_bind (current_artifact (t_id tk) d) (\<lambda>a.
     if \<not> exact_artifact a (rq_version req) (rq_commit req) then Inl ErrStaleArtifact
     else res_bind (route_rework fresh now tk a (rq_actor req) (rq_reason req) (rq_mode req)
            (rq_scope req) (rq_attestation req) (rq_key req) hsh d) (\<lambda>((tk1, target, sid), d1).
       let rw = \<lparr>rw_id = fresh ''rework'' 0, rw_task = t_id tk, rw_artifact = da_id a,
             rw_version = da_version a, rw_commit = da_commit a, rw_actor = rq_actor req,
             rw_source = rq_source req, rw_reason = rq_reason req, rw_mode = rq_mode req,
             rw_session = sid, rw_key = rq_key req, rw_hash = hsh\<rparr>
       in res_bind (create_rework rw d1) (\<lambda>d2.
          res_bind (cas_tx (fresh ''event'' 0) now tk1 (t_status tk1) target
            (rq_actor req) (rq_source req) ''delivery rework requested''
            [(''delivery_artifact_id'', GStr (da_id a)), (''artifact_version'', GInt (int (da_version a))),
             (''commit_sha'', GStr (da_commit a)), (''rework_record_id'', GStr (rw_id rw)),
             (''reason'', GStr (rq_reason req)),
             (''mode'', GStr (case rq_mode req of DeliveryReworkOrchestrated \<Rightarrow> ''orchestrated''
                | DeliveryReworkHostDirect \<Rightarrow> ''host_direct'' | DeliveryReworkOther m \<Rightarrow> m)),
             (''host_rework_session_id'', GStr (session_ref sid))]
            (invalidate_artifact (da_id a) now ''rework_requested'' d2)) (\<lambda>d3.
          Inr (rw, d3))))))"

definition rework_transaction ::
  "fresh \<Rightarrow> time \<Rightarrow> string \<Rightarrow> rework_request \<Rightarrow> db \<Rightarrow> err + delivery_rework_record \<times> db" where
  "rework_transaction fresh now hsh req d =
     (case tbl_first rw_id (\<lambda>x. rw_key x = rq_key req) (db_reworks d) of
        Some replay \<Rightarrow> if rw_hash replay \<noteq> hsh then Inl ErrIdempotencyConflict else Inr (replay, d)
      | None \<Rightarrow> rework_fresh fresh now hsh req d)"

definition request_delivery_rework ::
  "fresh \<Rightarrow> time \<Rightarrow> (rework_request \<Rightarrow> string) \<Rightarrow> rework_request \<Rightarrow> db
   \<Rightarrow> (err + delivery_rework_record) \<times> db" where
  "request_delivery_rework fresh now hash req d =
     (case validate_rework_request req of Inl e \<Rightarrow> (Inl e, d)
      | Inr _ \<Rightarrow> transaction (rework_transaction fresh now (hash req) req) d)"

section \<open>Policies\<close>

text \<open>The tick handlers of \<open>delivery_policy.go\<close>; \<open>platform\<close> is \<open>GOOS/GOARCH\<close>.\<close>

definition no_attestation :: host_direct_attestation where
  "no_attestation = \<lparr>at_criteria_unchanged = False, at_dependency_unchanged = False,
     at_no_persistence = False, at_no_security = False, at_no_cross_process = False,
     at_no_build_policy = False\<rparr>"

definition process_verification_ready ::
  "fresh \<Rightarrow> time \<Rightarrow> (verify_request \<Rightarrow> string) \<Rightarrow> string \<Rightarrow> verification_policy \<Rightarrow> task \<Rightarrow> db
   \<Rightarrow> (err + unit) \<times> db" where
  "process_verification_ready fresh now hash platform policy tk d =
     (if policy = VerificationExternalAck then (Inr (), d)
      else case current_artifact (t_id tk) d of Inl e \<Rightarrow> (Inl e, d)
      | Inr a \<Rightarrow>
         if da_evidence a = []
         then (Inl (ErrMsg ''local automated verification: artifact has no command evidence''), d)
         else case verify_delivery fresh now hash
           \<lparr>vq_task = t_id tk, vq_observed = t_version tk, vq_version = da_version a,
            vq_commit = da_commit a, vq_actor = ''orchestrator'',
            vq_source = ''local_automated_verification'', vq_environment = platform,
            vq_evidence = da_evidence a, vq_binary = [], vq_result = VerificationPassed,
            vq_notes = ''preliminary gate accepted as local automated verification'',
            vq_interactions = [], vq_failure_mode = DeliveryReworkOther [], vq_failure_reason = [],
            vq_scope = [], vq_attestation = no_attestation,
            vq_key = ''local-verification:'' @ da_id a\<rparr> d of
             (Inl e, d') \<Rightarrow> (Inl e, d') | (Inr _, d') \<Rightarrow> (Inr (), d'))"

definition process_integration_ready ::
  "fresh \<Rightarrow> time \<Rightarrow> (integrate_request \<Rightarrow> string) \<Rightarrow> git \<Rightarrow> integration_policy \<Rightarrow> task \<Rightarrow> db
   \<Rightarrow> (err + unit) \<times> db" where
  "process_integration_ready fresh now hash g policy tk d =
     (if policy = IntegrationPrepareBranch then (Inr (), d)
      else case current_artifact (t_id tk) d of Inl e \<Rightarrow> (Inl e, d)
      | Inr a \<Rightarrow>
        (case latest_passing (da_id a) d of None \<Rightarrow> (Inl ErrRecordNotFound, d)
         | Some v \<Rightarrow> case authorize_integration fresh now hash g
             \<lparr>iq_task = t_id tk, iq_observed = t_version tk, iq_version = da_version a,
              iq_commit = da_commit a, iq_verification = vr_id v, iq_actor = ''orchestrator'',
              iq_source = ''auto_merge_policy'', iq_key = ''auto-integration:'' @ da_id a\<rparr> d of
               (Inl e, d') \<Rightarrow> (Inl e, d') | (Inr _, d') \<Rightarrow> (Inr (), d')))"

section \<open>Effects on the task table\<close>

text \<open>After an operation on task \<open>tid\<close>: that task has the target status, new rows are backlog,
  every other row has the lifecycle columns of an old row.\<close>

definition tasks_after :: "uuid \<Rightarrow> task_status \<Rightarrow> task list \<Rightarrow> task list \<Rightarrow> bool" where
  "tasks_after tid target ts ts' \<longleftrightarrow> (\<forall>t' \<in> set ts'. (t_id t' = tid \<and> t_status t' = target)
     \<or> t_status t' = StatusBacklog \<or> (\<exists>t \<in> set ts. same_lifecycle t t' \<and> t_id t \<noteq> tid))"

lemma cas_tx_after:
  assumes "uniq task_conflict (db_tasks d)"
    and "cas_tx eid now tk expected target actor source reason refs d = Inr d'"
  shows "tasks_after (t_id tk) target (db_tasks d) (db_tasks d')"
    and "uniq task_conflict (db_tasks d')"
    and "uniq event_conflict (db_events d) \<Longrightarrow> uniq event_conflict (db_events d')"
    and "can_move (t_status tk) target"
proof -
  from assms(2) obtain tk' ev where c: "can_move (t_status tk) target"
    "tk' = tk\<lparr>t_status := target, t_version := t_version tk + 1, t_updated := now\<rparr>"
    "length (filter (cas_match tk expected) (db_tasks d)) = 1"
    "\<forall>x \<in> set (db_events d). \<not> event_conflict ev x"
    "d' = d\<lparr>db_tasks := cas_rows tk expected tk' (db_tasks d), db_events := db_events d @ [ev]\<rparr>"
    by (rule cas_tx_Inr)
  from length_filter_one [OF c(3)] obtain r
    where r: "r \<in> set (db_tasks d)" "cas_match tk expected r" by blast
  show "tasks_after (t_id tk) target (db_tasks d) (db_tasks d')"
    unfolding tasks_after_def
  proof
    fix t' assume "t' \<in> set (db_tasks d')"
    then obtain t where t: "t \<in> set (db_tasks d)"
      "t' = (if cas_match tk expected t then task_transition_columns tk' t else t)"
      by (auto simp: c(5) cas_rows_def)
    show "(t_id t' = t_id tk \<and> t_status t' = target) \<or> t_status t' = StatusBacklog
        \<or> (\<exists>t \<in> set (db_tasks d). same_lifecycle t t' \<and> t_id t \<noteq> t_id tk)"
    proof (cases "cas_match tk expected t")
      case True
      with t(2) c(2) show ?thesis by (simp add: cas_match_def)
    next
      case False
      have "t_id t \<noteq> t_id tk"
      proof
        assume "t_id t = t_id tk"
        with r have "task_conflict t r" by (simp add: task_conflict_def cas_match_def)
        from tasks.uniq_eq [OF assms(1) t(1) r(1) this] False r(2) show False by simp
      qed
      with t False show ?thesis by (auto simp: same_lifecycle_def)
    qed
  qed
  show "uniq task_conflict (db_tasks d')"
    using cas_rows_uniq [OF assms(1)] by (simp add: c(5))
  show "uniq event_conflict (db_events d')" if "uniq event_conflict (db_events d)"
    using events.create_uniq [OF that, of ev] c(4) by (simp add: c(5) res_simps)
  show "can_move (t_status tk) target" by (rule c(1))
qed

lemma tasks_after_extend:
  assumes "tasks_extend p ts ts1" "tasks_after tid target ts1 ts2"
  shows "tasks_after tid target ts ts2"
  unfolding tasks_after_def
proof
  fix t' assume "t' \<in> set ts2"
  with assms(2) consider "t_id t' = tid \<and> t_status t' = target" | "t_status t' = StatusBacklog"
    | t where "t \<in> set ts1" "same_lifecycle t t'" "t_id t \<noteq> tid"
    by (auto simp: tasks_after_def)
  then show "(t_id t' = tid \<and> t_status t' = target) \<or> t_status t' = StatusBacklog
      \<or> (\<exists>t \<in> set ts. same_lifecycle t t' \<and> t_id t \<noteq> tid)"
  proof cases
    case 3
    from assms(1) obtain kept new where k: "ts1 = kept @ new" "list_all2 same_lifecycle ts kept"
      "\<forall>r \<in> set new. t_status r = StatusBacklog" by (auto simp: tasks_extend_def)
    show ?thesis
    proof (cases "t \<in> set kept")
      case True
      with k(2) obtain u where "u \<in> set ts" "same_lifecycle u t"
        by (metis in_set_conv_nth list_all2_conv_all_nth)
      with 3 show ?thesis by (auto simp: same_lifecycle_def)
    next
      case False
      with k 3 have "t_status t = StatusBacklog" by auto
      with 3 show ?thesis by (simp add: same_lifecycle_def)
    qed
  qed auto
qed

lemma tasks_extend_refl: "tasks_extend p ts ts"
  unfolding tasks_extend_def
  by (rule exI [of _ ts], rule exI [of _ "[]"]) (simp add: list_all2_same same_lifecycle_def)

section \<open>Effects of the parts\<close>

lemma current_artifact_Inr:
  "current_artifact tid d = Inr a \<Longrightarrow>
     a \<in> set (db_artifacts d) \<and> da_task a = tid \<and> artifact_current a"
  by (auto simp: current_artifact_def res_simps dest: tbl_first_Some)

lemma persist_interactions_Inr:
  "persist_interactions fresh specs k tk a v binary is d = Inr (ids, d') \<Longrightarrow>
     d' = d\<lparr>db_interactions := db_interactions d'\<rparr>
     \<and> (uniq interaction_conflict (db_interactions d) \<longrightarrow> uniq interaction_conflict (db_interactions d'))
     \<and> length (db_interactions d') = length (db_interactions d) + length is"
proof (induction "is" arbitrary: k d ids)
  case (Cons i "is")
  from Cons.prems obtain row d1 ids2 where c: "create_interaction row d = Inr d1"
    "persist_interactions fresh specs (k + 1) tk a v binary is d1 = Inr (ids2, d')"
    unfolding persist_interactions.simps Let_def guard_Inr res_bind_Inr by auto
  from c(1) have d1: "d1 = d\<lparr>db_interactions := db_interactions d @ [row]\<rparr>"
    "uniq interaction_conflict (db_interactions d) \<longrightarrow> uniq interaction_conflict (db_interactions d1)"
    using interactions.create_uniq [of "db_interactions d" row]
    by (auto simp: create_Inr tbl_create_Inr)
  from Cons.IH [OF c(2)] d1 show ?case by (cases d') auto
qed simp

lemma persist_verification_interactions_Inr:
  "persist_verification_interactions fresh tk a v req d = Inr (ids, d') \<Longrightarrow>
     d' = d\<lparr>db_interactions := db_interactions d'\<rparr>
     \<and> (uniq interaction_conflict (db_interactions d) \<longrightarrow> uniq interaction_conflict (db_interactions d'))"
  by (auto simp: persist_verification_interactions_def dest: persist_interactions_Inr split: if_splits)

lemma create_host_rework_session_Inr:
  assumes "create_host_rework_session fresh now tk a actor reason scope att key hsh d = Inr (s, d')"
  shows "d' = d\<lparr>db_sessions := db_sessions d @ [s]\<rparr>"
    "\<forall>x \<in> set (db_sessions d). \<not> session_conflict s x"
    "hs_task s = t_id tk" "hs_artifact s = da_id a" "hs_prior_commit s = da_commit a"
    "hs_owner s = actor" "hs_scope s = scope" "hs_disposition s = HostReworkActive"
    "validate_host_direct_request actor reason scope att = Inr ()"
    "\<forall>w \<in> set (db_attempts d). wa_task w = t_id tk \<longrightarrow> wa_completed w \<noteq> None"
  using assms unfolding create_host_rework_session_def Let_def guard_Inr res_bind_Inr create_Inr
  by (auto simp: tbl_count_def filter_empty_conv)

text \<open>The tables after routing: only tasks, events and sessions change.\<close>

lemma route_rework_Inr:
  assumes "route_rework fresh now tk a actor reason mode scope att key hsh d
    = Inr ((tk1, target, sid), d')"
  shows "target \<in> {StatusHostRework, StatusInProgress} \<and> same_lifecycle tk tk1
    \<and> (\<exists>ts evs ses. d' = d\<lparr>db_tasks := ts, db_events := evs, db_sessions := ses\<rparr>
       \<and> tasks_extend (t_id tk) (db_tasks d) ts
       \<and> (uniq task_conflict (db_tasks d) \<longrightarrow> uniq task_conflict ts)
       \<and> (uniq event_conflict (db_events d) \<longrightarrow> uniq event_conflict evs)
       \<and> (uniq session_conflict (db_sessions d) \<longrightarrow> uniq session_conflict ses))"
proof (cases "mode = DeliveryReworkHostDirect")
  case True
  with assms obtain s where "create_host_rework_session fresh now tk a actor reason scope att key hsh d
      = Inr (s, d')" "tk1 = tk" "target = StatusHostRework"
    unfolding route_rework_def by (auto simp: res_bind_Inr)
  note c = this create_host_rework_session_Inr(1,2) [OF this(1)]
  have "uniq session_conflict (db_sessions d) \<longrightarrow> uniq session_conflict (db_sessions d @ [s])"
    using sessions.create_uniq [of "db_sessions d" s] c(5) by (auto simp: tbl_create_Inr)
  with c show ?thesis
    by (auto simp: same_lifecycle_def intro!: exI [of _ "db_tasks d"] exI [of _ "db_events d"]
        exI [of _ "db_sessions d @ [s]"] tasks_extend_refl)
next
  case False
  with assms have st: "stage_orchestrated_rework fresh now tk reason d = Inr (tk1, d')"
      and tg: "target = StatusInProgress"
    unfolding route_rework_def by (auto simp: res_bind_Inr)
  from stage_orchestrated_frame [OF st] obtain ts evs where
    f: "tk1 = tk\<lparr>t_context := t_context tk1, t_agent := None\<rparr>"
      "d' = d\<lparr>db_tasks := ts, db_events := evs\<rparr>" "tasks_extend (t_id tk) (db_tasks d) ts"
      "uniq task_conflict (db_tasks d) \<longrightarrow> uniq task_conflict ts"
      "uniq event_conflict (db_events d) \<longrightarrow> uniq event_conflict evs" by blast
  have "same_lifecycle tk tk1"
    using arg_cong [OF f(1), of t_id] arg_cong [OF f(1), of t_status]
      arg_cong [OF f(1), of t_version] arg_cong [OF f(1), of t_parent]
    by (simp add: same_lifecycle_def)
  moreover have "d' = d\<lparr>db_tasks := ts, db_events := evs, db_sessions := db_sessions d\<rparr>"
    by (simp add: f(2))
  ultimately show ?thesis using f(3,4,5) tg by blast
qed

lemma invalidate_artifact_simps [simp]:
  "db_tasks (invalidate_artifact aid now r d) = db_tasks d"
  "db_events (invalidate_artifact aid now r d) = db_events d"
  "db_gate_runs (invalidate_artifact aid now r d) = db_gate_runs d"
  "db_verifications (invalidate_artifact aid now r d) = db_verifications d"
  "db_interactions (invalidate_artifact aid now r d) = db_interactions d"
  "db_authorizations (invalidate_artifact aid now r d) = db_authorizations d"
  "db_reworks (invalidate_artifact aid now r d) = db_reworks d"
  "db_sessions (invalidate_artifact aid now r d) = db_sessions d"
  "db_submissions (invalidate_artifact aid now r d) = db_submissions d"
  "db_intents (invalidate_artifact aid now r d) = db_intents d"
  "db_completions (invalidate_artifact aid now r d) = db_completions d"
  by (simp_all add: invalidate_artifact_def)

lemma invalidate_artifacts: "db_artifacts (invalidate_artifact aid now r d)
    = map (\<lambda>a. if da_id a = aid \<and> artifact_current a then invalidated now r a else a) (db_artifacts d)"
  by (simp add: invalidate_artifact_def tbl_update_fst)

end
