(* ===== verification/MergePreflight.thy ===== *)
theory MergePreflight
  imports Delivery
begin

text \<open>
  The guards around the merger, \<open>internal/orchestrator/delivery_merge_preflight.go\<close>: the
  preflight that rewinds a merging task whose evidence does not fit, the merge intent, the
  recovery of a merge from the authoritative target ref and the completion that makes a task done.
\<close>

section \<open>Rewinding\<close>

definition rewind_merging ::
  "fresh \<Rightarrow> time \<Rightarrow> uuid \<Rightarrow> task_status \<Rightarrow> uuid \<Rightarrow> string \<Rightarrow> db \<Rightarrow> (err + unit) \<times> db" where
  "rewind_merging fresh now tid target aid reason d = transaction (\<lambda>d.
     res_bind (load_task tid d) (\<lambda>tk.
     let d1 = (if aid \<noteq> uuid_Nil then invalidate_artifact aid now reason d else d) in
     res_bind (cas_tx (fresh ''event'' 0) now tk StatusMerging target ''orchestrator''
       ''merge_preflight'' reason [(''delivery_artifact_id'', GStr aid)] d1) (\<lambda>d2.
     Inr ((), d2)))) d"

section \<open>The merge intent\<close>

definition intent_matches ::
  "task \<Rightarrow> delivery_artifact \<Rightarrow> verification_record \<Rightarrow> integration_authorization \<Rightarrow> merge_intent \<Rightarrow> bool"
where
  "intent_matches tk a v au mi \<longleftrightarrow> mi_task mi = t_id tk \<and> mi_artifact mi = da_id a
     \<and> mi_verification mi = vr_id v \<and> mi_authorization mi = ia_id au \<and> mi_commit mi = da_commit a
     \<and> mi_feature_branch mi = da_branch a \<and> mi_target_branch mi = da_base_branch a
     \<and> mi_target_base mi = da_base a"

definition find_intent :: "uuid \<Rightarrow> db \<Rightarrow> merge_intent option" where
  "find_intent auid d = tbl_first mi_id (\<lambda>m. mi_authorization m = auid) (db_intents d)"

text \<open>Not a transaction: the created intent stays even when the caller fails later.  A failed
  create reloads the row a concurrent reconciliation may have inserted.\<close>

definition ensure_merge_intent ::
  "fresh \<Rightarrow> task \<Rightarrow> delivery_artifact \<Rightarrow> verification_record \<Rightarrow> integration_authorization \<Rightarrow> db
   \<Rightarrow> (err + merge_intent) \<times> db" where
  "ensure_merge_intent fresh tk a v au d =
     (let (found, d1) = (case find_intent (ia_id au) d of
         Some mi \<Rightarrow> (Inr mi, d)
       | None \<Rightarrow>
           let mi = new_intent (fresh ''intent'' 0) (t_id tk) a (vr_id v) (ia_id au)
                      ''orchestrator'' ''legacy_merging_backfill''
           in case create_intent mi d of
             Inr d' \<Rightarrow> (Inr mi, d')
           | Inl e \<Rightarrow> (case find_intent (ia_id au) d of Some mi' \<Rightarrow> (Inr mi', d) | None \<Rightarrow> (Inl e, d)))
      in case found of Inl e \<Rightarrow> (Inl e, d1)
         | Inr mi \<Rightarrow> if intent_matches tk a v au mi then (Inr mi, d1) else (Inl ErrStaleArtifact, d1))"

section \<open>Preflight\<close>

definition latest_authorization :: "uuid \<Rightarrow> uuid \<Rightarrow> db \<Rightarrow> integration_authorization option" where
  "latest_authorization aid vid d = tbl_latest ia_created ia_id
     (\<lambda>x. ia_artifact x = aid \<and> ia_verification x = vid) (db_authorizations d)"

definition evidence_agrees ::
  "delivery_artifact \<Rightarrow> verification_record \<Rightarrow> integration_authorization \<Rightarrow> bool" where
  "evidence_agrees a v au \<longleftrightarrow> ia_commit au = da_commit a \<and> ia_base au = da_base a
     \<and> vr_commit v = da_commit a"

text \<open>A rewind answers \<open>false\<close> and the outcome of the rewind.\<close>

definition rewound :: "(err + unit) \<times> db \<Rightarrow> (err + bool) \<times> db" where
  "rewound r = (case r of (Inl e, d) \<Rightarrow> (Inl e, d) | (Inr _, d) \<Rightarrow> (Inr False, d))"

definition preflight_merge_artifact ::
  "fresh \<Rightarrow> time \<Rightarrow> git \<Rightarrow> task \<Rightarrow> db \<Rightarrow> (err + bool) \<times> db" where
  "preflight_merge_artifact fresh now g tk d =
     (let rewind = (\<lambda>target aid reason d. rewound (rewind_merging fresh now (t_id tk) target aid reason d))
      in case current_artifact (t_id tk) d of
        Inl e \<Rightarrow> rewind StatusTestingReady uuid_Nil ''missing_delivery_artifact'' d
      | Inr a \<Rightarrow>
      (case latest_passing (da_id a) d of
        None \<Rightarrow> rewind StatusTestingReady (da_id a) ''missing_passing_verification'' d
      | Some v \<Rightarrow>
      (case latest_authorization (da_id a) (vr_id v) d of
        None \<Rightarrow> rewind StatusIntegrationReady (da_id a) ''missing_integration_authorization'' d
      | Some au \<Rightarrow>
      if \<not> evidence_agrees a v au
      then rewind StatusInProgress (da_id a) ''delivery_evidence_mismatch'' d
      else (case ensure_merge_intent fresh tk a v au d of
        (Inl e, d1) \<Rightarrow> (Inl e, d1)
      | (Inr mi, d1) \<Rightarrow>
        if da_branch a \<noteq> t_branch tk
        then rewind StatusInProgress (da_id a) ''delivery_branch_mismatch'' d1
        else (case delivery_artifact_drift g tk a of
            Inl e \<Rightarrow> (Inl e, d1)
          | Inr drift \<Rightarrow> if drift \<noteq> [] then rewind StatusInProgress (da_id a) drift d1
                         else (Inr True, d1))))))"

section \<open>Completion\<close>

definition evidence_complete_for ::
  "delivery_artifact \<Rightarrow> verification_record \<Rightarrow> integration_authorization \<Rightarrow> merge_intent \<Rightarrow> bool" where
  "evidence_complete_for a v au mi \<longleftrightarrow> vr_commit v = da_commit a \<and> ia_commit au = da_commit a
     \<and> ia_base au = da_base a \<and> mi_artifact mi = da_id a \<and> mi_verification mi = vr_id v
     \<and> mi_authorization mi = ia_id au \<and> mi_commit mi = da_commit a
     \<and> mi_feature_branch mi = da_branch a \<and> mi_target_branch mi = da_base_branch a
     \<and> mi_target_base mi = da_base a"

definition complete_transaction ::
  "fresh \<Rightarrow> time \<Rightarrow> uuid \<Rightarrow> uuid \<Rightarrow> string \<Rightarrow> string \<Rightarrow> db \<Rightarrow> err + merge_completion \<times> db" where
  "complete_transaction fresh now tid iid sha source d =
     (case tbl_first mc_id (\<lambda>c. mc_task c = tid) (db_completions d) of
        Some c \<Rightarrow> if mc_intent c \<noteq> iid \<or> mc_merge_commit c \<noteq> sha then Inl ErrIdempotencyConflict
                  else Inr (c, d)
      | None \<Rightarrow>
        res_bind (load_task tid d) (\<lambda>tk.
        if t_status tk \<noteq> StatusMerging then Inl ErrStaleTransition
        else res_bind (of_option ErrRecordNotFound (tbl_first mi_id
               (\<lambda>m. mi_id m = iid \<and> mi_task m = t_id tk) (db_intents d))) (\<lambda>mi.
        res_bind (current_artifact (t_id tk) d) (\<lambda>a.
        res_bind (of_option ErrRecordNotFound (latest_passing (da_id a) d)) (\<lambda>v.
        res_bind (of_option ErrRecordNotFound (latest_authorization (da_id a) (vr_id v) d)) (\<lambda>au.
        if \<not> evidence_complete_for a v au mi then Inl ErrStaleArtifact
        else let c = \<lparr>mc_id = fresh ''completion'' 0, mc_task = t_id tk, mc_intent = mi_id mi,
                 mc_artifact = da_id a, mc_verification = vr_id v, mc_authorization = ia_id au,
                 mc_commit = da_commit a, mc_base = da_base a, mc_merge_commit = sha,
                 mc_actor = ''orchestrator'', mc_source = source\<rparr>
          in res_bind (create_completion c d) (\<lambda>d1.
             res_bind (cas_tx (fresh ''event'' 0) now tk StatusMerging StatusDone (mc_actor c)
               (mc_source c) ''authorized artifact merged''
               [(''merge_completion_id'', GStr (mc_id c)), (''merge_intent_id'', GStr (mi_id mi)),
                (''delivery_artifact_id'', GStr (da_id a)), (''verification_record_id'', GStr (vr_id v)),
                (''integration_authorization_id'', GStr (ia_id au)),
                (''artifact_commit_sha'', GStr (da_commit a)), (''verified_base_sha'', GStr (da_base a)),
                (''merge_commit_sha'', GStr sha)] d1) (\<lambda>d2. Inr (c, d2)))))))))"

definition complete_authorized_merge ::
  "fresh \<Rightarrow> time \<Rightarrow> uuid \<Rightarrow> uuid \<Rightarrow> string \<Rightarrow> string \<Rightarrow> db \<Rightarrow> (err + merge_completion) \<times> db" where
  "complete_authorized_merge fresh now tid iid sha source d =
     (if \<not> valid_object_id sha
      then (Inl (ErrMsg ''merge completion: full merge commit SHA is required''), d)
      else if iid = uuid_Nil then (Inl (ErrMsg ''merge completion: merge intent is required''), d)
      else transaction (complete_transaction fresh now tid iid sha source) d)"

section \<open>Recovery\<close>

text \<open>The result is \<open>Some\<close> completion when the merge was recovered.\<close>

definition recover_authorized_merge ::
  "fresh \<Rightarrow> time \<Rightarrow> git \<Rightarrow> task \<Rightarrow> db \<Rightarrow> (err + merge_completion option) \<times> db" where
  "recover_authorized_merge fresh now g tk d =
     (if t_status tk \<noteq> StatusMerging then (Inr None, d)
      else case current_artifact (t_id tk) d of Inl e \<Rightarrow> (Inr None, d)
      | Inr a \<Rightarrow>
      (case latest_passing (da_id a) d of None \<Rightarrow> (Inr None, d)
      | Some v \<Rightarrow>
      (case latest_authorization (da_id a) (vr_id v) d of None \<Rightarrow> (Inr None, d)
      | Some au \<Rightarrow>
      (case ensure_merge_intent fresh tk a v au d of (Inl e, d1) \<Rightarrow> (Inl e, d1)
      | (Inr mi, d1) \<Rightarrow>
        if blank (g_bare g)
        then (Inl (ErrMsg ''merge recovery: authoritative bare repository is unavailable''), d1)
        else (case run_git g (g_bare g) [''rev-parse'', ''--verify'', full_ref (mi_target_branch mi)] of
            Inl e \<Rightarrow> (Inl e, d1)
          | Inr sha \<Rightarrow>
            if trim_space sha = trim_space (mi_target_base mi) then (Inr None, d1)
            else (case g_run g (g_bare g) [''merge-base'', ''--is-ancestor'', mi_commit mi, sha] of
                GitErr c \<Rightarrow> if c = 1 then (Inr None, d1)
                            else (Inl (ErrMsg ''merge recovery: prove artifact ancestry''), d1)
              | GitFail \<Rightarrow> (Inl (ErrMsg ''merge recovery: prove artifact ancestry''), d1)
              | GitOk _ \<Rightarrow>
                (case complete_authorized_merge fresh now (t_id tk) (mi_id mi) sha
                        ''authoritative_target_ref'' d1 of
                   (Inl e, d2) \<Rightarrow> (Inl e, d2)
                 | (Inr c, d2) \<Rightarrow> (Inr (Some c), d2))))))))"

end
