(* ===== verification/DeliveryProtocol.thy ===== *)
theory DeliveryProtocol
  imports MergePreflight
begin

text \<open>
  The delivery protocol as a whole: the invariant of the delivery tables, the step relation of all
  operations that touch them together with the other status changes of the orchestrator, and what
  holds in every reachable database.
\<close>

section \<open>The view of one task\<close>

definition cur :: "db \<Rightarrow> uuid \<Rightarrow> delivery_artifact list" where
  "cur d tid = filter (\<lambda>a. da_task a = tid \<and> artifact_current a) (db_artifacts d)"

definition passing :: "db \<Rightarrow> uuid \<Rightarrow> verification_record list" where
  "passing d aid =
     filter (\<lambda>v. vr_artifact v = aid \<and> vr_result v = VerificationPassed) (db_verifications d)"

definition auths :: "db \<Rightarrow> uuid \<Rightarrow> integration_authorization list" where
  "auths d aid = filter (\<lambda>x. ia_artifact x = aid) (db_authorizations d)"

definition intents_for :: "db \<Rightarrow> uuid \<Rightarrow> merge_intent list" where
  "intents_for d auid = filter (\<lambda>m. mi_authorization m = auid) (db_intents d)"

text \<open>The evidence chain of a merging task: one current artifact, its only passing verification,
  its only authorization, and the intent of that authorization, all about the same commit and base.\<close>

definition chain ::
  "db \<Rightarrow> uuid \<Rightarrow> delivery_artifact \<Rightarrow> verification_record \<Rightarrow> integration_authorization \<Rightarrow> merge_intent
   \<Rightarrow> bool" where
  "chain d tid a v au mi \<longleftrightarrow> cur d tid = [a] \<and> passing d (da_id a) = [v] \<and> auths d (da_id a) = [au]
     \<and> ia_verification au = vr_id v \<and> intents_for d (ia_id au) = [mi]
     \<and> mi_task mi = tid \<and> evidence_complete_for a v au mi"

definition status_ok :: "db \<Rightarrow> task \<Rightarrow> bool" where
  "status_ok d t \<longleftrightarrow>
     (t_status t = StatusVerificationReady \<longrightarrow>
        (\<exists>a. cur d (t_id t) = [a] \<and> passing d (da_id a) = [] \<and> auths d (da_id a) = []))
   \<and> (t_status t = StatusIntegrationReady \<longrightarrow>
        (\<exists>a v. cur d (t_id t) = [a] \<and> passing d (da_id a) = [v] \<and> auths d (da_id a) = []))
   \<and> (t_status t = StatusMerging \<longrightarrow> (\<exists>a v au mi. chain d (t_id t) a v au mi))
   \<and> (t_status t = StatusDone \<and> t_parent t = None \<longrightarrow>
        (\<exists>c \<in> set (db_completions d). mc_task c = t_id t))"

definition same_view :: "uuid \<Rightarrow> db \<Rightarrow> db \<Rightarrow> bool" where
  "same_view tid d d' \<longleftrightarrow> cur d' tid = cur d tid
     \<and> (\<forall>a \<in> set (cur d tid). passing d' (da_id a) = passing d (da_id a)
          \<and> auths d' (da_id a) = auths d (da_id a)
          \<and> (\<forall>x \<in> set (auths d (da_id a)). intents_for d' (ia_id x) = intents_for d (ia_id x)))
     \<and> set (db_completions d) \<subseteq> set (db_completions d')"

lemma same_view_refl [simp]: "same_view tid d d"
  by (simp add: same_view_def)

lemma same_view_trans: "\<lbrakk>same_view tid d1 d2; same_view tid d2 d3\<rbrakk> \<Longrightarrow> same_view tid d1 d3"
  unfolding same_view_def by fastforce

lemma same_view_cong:
  assumes "db_artifacts d' = db_artifacts d" "db_verifications d' = db_verifications d"
    "db_authorizations d' = db_authorizations d" "db_intents d' = db_intents d"
    "set (db_completions d) \<subseteq> set (db_completions d')"
  shows "same_view tid d d'"
  using assms by (simp add: same_view_def cur_def passing_def auths_def intents_for_def)

lemma status_ok_view:
  assumes "status_ok d t" "same_lifecycle t t'" "same_view (t_id t) d d'"
  shows "status_ok d' t'"
proof -
  have eq: "t_status t' = t_status t" "t_id t' = t_id t" "t_parent t' = t_parent t"
    using assms(2) by (simp_all add: same_lifecycle_def)
  note V = assms(3) [unfolded same_view_def]
  show ?thesis
    unfolding status_ok_def eq
  proof (intro conjI impI)
    assume "t_status t = StatusVerificationReady"
    with assms(1) obtain a where "cur d (t_id t) = [a] \<and> passing d (da_id a) = [] \<and> auths d (da_id a) = []"
      unfolding status_ok_def by blast
    with V show "\<exists>a. cur d' (t_id t) = [a] \<and> passing d' (da_id a) = [] \<and> auths d' (da_id a) = []"
      by (intro exI [of _ a]) simp
  next
    assume "t_status t = StatusIntegrationReady"
    with assms(1) obtain a v where
      "cur d (t_id t) = [a] \<and> passing d (da_id a) = [v] \<and> auths d (da_id a) = []"
      unfolding status_ok_def by blast
    with V show "\<exists>a v. cur d' (t_id t) = [a] \<and> passing d' (da_id a) = [v] \<and> auths d' (da_id a) = []"
      by (intro exI [of _ a] exI [of _ v]) simp
  next
    assume "t_status t = StatusMerging"
    with assms(1) obtain a v au mi where "chain d (t_id t) a v au mi"
      unfolding status_ok_def by blast
    with V have "chain d' (t_id t) a v au mi" by (simp add: chain_def)
    then show "\<exists>a v au mi. chain d' (t_id t) a v au mi" by blast
  next
    assume "t_status t = StatusDone \<and> t_parent t = None"
    with assms(1) V show "\<exists>c \<in> set (db_completions d'). mc_task c = t_id t"
      unfolding status_ok_def by blast
  qed
qed

lemma status_ok_free:
  "t_status t \<notin> {StatusVerificationReady, StatusIntegrationReady, StatusMerging, StatusDone} \<Longrightarrow>
     status_ok d t"
  by (simp add: status_ok_def)

section \<open>Provenance\<close>

definition same_artifact :: "delivery_artifact \<Rightarrow> delivery_artifact \<Rightarrow> bool" where
  "same_artifact a b \<longleftrightarrow> a = b\<lparr>da_invalidated := da_invalidated a, da_invalid_reason := da_invalid_reason a\<rparr>"

definition gated :: "db \<Rightarrow> delivery_artifact \<Rightarrow> bool" where
  "gated d a \<longleftrightarrow> (\<exists>g \<in> set (db_gate_runs d). da_gate_run a = Some (gr_id g) \<and> gr_task g = da_task a
     \<and> gr_commit g = da_commit a \<and> gr_base g = da_base a \<and> gr_outcome g = PreliminaryGatePassed)"

definition verifies :: "verification_record \<Rightarrow> delivery_artifact \<Rightarrow> bool" where
  "verifies v a \<longleftrightarrow> vr_artifact v = da_id a \<and> vr_task v = da_task a \<and> vr_version v = da_version a
     \<and> vr_commit v = da_commit a"

definition authorizes :: "integration_authorization \<Rightarrow> verification_record \<Rightarrow> delivery_artifact \<Rightarrow> bool"
where
  "authorizes x v a \<longleftrightarrow> ia_artifact x = da_id a \<and> ia_verification x = vr_id v \<and> ia_task x = da_task a
     \<and> ia_version x = da_version a \<and> ia_commit x = da_commit a \<and> ia_base x = da_base a
     \<and> verifies v a \<and> vr_result v = VerificationPassed"

definition intends :: "merge_intent \<Rightarrow> integration_authorization \<Rightarrow> delivery_artifact \<Rightarrow> bool" where
  "intends m x a \<longleftrightarrow> mi_authorization m = ia_id x \<and> mi_verification m = ia_verification x
     \<and> mi_artifact m = da_id a \<and> mi_task m = da_task a \<and> mi_commit m = da_commit a
     \<and> mi_target_base m = da_base a \<and> mi_feature_branch m = da_branch a
     \<and> mi_target_branch m = da_base_branch a"

definition completes :: "merge_completion \<Rightarrow> merge_intent \<Rightarrow> bool" where
  "completes c m \<longleftrightarrow> mc_intent c = mi_id m \<and> mc_task c = mi_task m \<and> mc_artifact c = mi_artifact m
     \<and> mc_verification c = mi_verification m \<and> mc_authorization c = mi_authorization m
     \<and> mc_commit c = mi_commit m \<and> mc_base c = mi_target_base m \<and> valid_object_id (mc_merge_commit c)"

definition provenance :: "db \<Rightarrow> bool" where
  "provenance d \<longleftrightarrow>
     (\<forall>a \<in> set (db_artifacts d). gated d a)
   \<and> (\<forall>v \<in> set (db_verifications d). \<exists>a \<in> set (db_artifacts d). verifies v a)
   \<and> (\<forall>x \<in> set (db_authorizations d). \<exists>a \<in> set (db_artifacts d). \<exists>v \<in> set (db_verifications d).
        authorizes x v a)
   \<and> (\<forall>m \<in> set (db_intents d). \<exists>a \<in> set (db_artifacts d). \<exists>x \<in> set (db_authorizations d).
        intends m x a \<and> (\<exists>v \<in> set (db_verifications d). authorizes x v a))
   \<and> (\<forall>c \<in> set (db_completions d). \<exists>m \<in> set (db_intents d). completes c m)"

text \<open>Tables only grow; artifacts only change their invalidation columns.\<close>

definition grows :: "db \<Rightarrow> db \<Rightarrow> bool" where
  "grows d d' \<longleftrightarrow> (\<forall>a \<in> set (db_artifacts d). \<exists>b \<in> set (db_artifacts d'). same_artifact b a)
     \<and> set (db_gate_runs d) \<subseteq> set (db_gate_runs d')
     \<and> set (db_verifications d) \<subseteq> set (db_verifications d')
     \<and> set (db_authorizations d) \<subseteq> set (db_authorizations d')
     \<and> set (db_intents d) \<subseteq> set (db_intents d')
     \<and> set (db_completions d) \<subseteq> set (db_completions d')"

lemma same_artifact_refl [simp]: "same_artifact a a"
  by (simp add: same_artifact_def)

lemma same_artifact_invalidated [simp]: "same_artifact (invalidated now r a) a"
  by (simp add: same_artifact_def invalidated_def)

lemma same_artifactD:
  assumes "same_artifact b a"
  shows "da_id b = da_id a" "da_task b = da_task a" "da_gate_run b = da_gate_run a"
    "da_version b = da_version a" "da_branch b = da_branch a" "da_commit b = da_commit a"
    "da_base_branch b = da_base_branch a" "da_base b = da_base a"
  using assms unfolding same_artifact_def by (metis delivery_artifact.ext_inject
      delivery_artifact.surjective delivery_artifact.update_convs(12,13))+

lemma same_artifact_facts:
  assumes "same_artifact b a"
  shows "gated d b = gated d a" "verifies v b = verifies v a" "authorizes x v b = authorizes x v a"
    "intends m x b = intends m x a"
  by (simp_all add: gated_def verifies_def authorizes_def intends_def same_artifactD [OF assms])

lemma grows_refl [simp]: "grows d d"
  unfolding grows_def using same_artifact_refl by blast

lemma gated_mono: "\<lbrakk>gated d a; set (db_gate_runs d) \<subseteq> set (db_gate_runs d')\<rbrakk> \<Longrightarrow> gated d' a"
  by (auto simp: gated_def)

text \<open>Old rows keep their provenance when the tables grow.\<close>

lemma provenance_grows:
  assumes "provenance d" "grows d d'"
  shows "v \<in> set (db_verifications d) \<Longrightarrow> \<exists>a \<in> set (db_artifacts d'). verifies v a"
    and "x \<in> set (db_authorizations d) \<Longrightarrow>
      \<exists>a \<in> set (db_artifacts d'). \<exists>v \<in> set (db_verifications d'). authorizes x v a"
    and "m \<in> set (db_intents d) \<Longrightarrow> \<exists>a \<in> set (db_artifacts d'). \<exists>x \<in> set (db_authorizations d').
      intends m x a \<and> (\<exists>v \<in> set (db_verifications d'). authorizes x v a)"
    and "c \<in> set (db_completions d) \<Longrightarrow> \<exists>m \<in> set (db_intents d'). completes c m"
proof -
  have A: "\<exists>b \<in> set (db_artifacts d'). same_artifact b a" if "a \<in> set (db_artifacts d)" for a
    using assms(2) that by (simp add: grows_def)
  show "\<exists>a \<in> set (db_artifacts d'). verifies v a" if "v \<in> set (db_verifications d)"
    using assms(1) that A same_artifact_facts(2) unfolding provenance_def by metis
  show "\<exists>a \<in> set (db_artifacts d'). \<exists>v \<in> set (db_verifications d'). authorizes x v a"
    if "x \<in> set (db_authorizations d)"
  proof -
    from assms(1) that obtain a v where "a \<in> set (db_artifacts d)" "v \<in> set (db_verifications d)"
      "authorizes x v a" unfolding provenance_def by blast
    with A [of a] assms(2) same_artifact_facts(3) show ?thesis unfolding grows_def by blast
  qed
  show "\<exists>a \<in> set (db_artifacts d'). \<exists>x \<in> set (db_authorizations d').
      intends m x a \<and> (\<exists>v \<in> set (db_verifications d'). authorizes x v a)" if "m \<in> set (db_intents d)"
  proof -
    from assms(1) that obtain a x v where "a \<in> set (db_artifacts d)" "x \<in> set (db_authorizations d)"
      "intends m x a" "v \<in> set (db_verifications d)" "authorizes x v a"
      unfolding provenance_def by blast
    with A [of a] assms(2) same_artifact_facts(3,4) show ?thesis unfolding grows_def by blast
  qed
  show "\<exists>m \<in> set (db_intents d'). completes c m" if "c \<in> set (db_completions d)"
    using assms that unfolding provenance_def grows_def by blast
qed

section \<open>The invariant\<close>

definition tables_uniq :: "db \<Rightarrow> bool" where
  "tables_uniq d \<longleftrightarrow> uniq task_conflict (db_tasks d) \<and> uniq event_conflict (db_events d)
     \<and> uniq artifact_conflict (db_artifacts d) \<and> uniq gate_run_conflict (db_gate_runs d)
     \<and> uniq verification_conflict (db_verifications d)
     \<and> uniq interaction_conflict (db_interactions d)
     \<and> uniq authorization_conflict (db_authorizations d) \<and> uniq rework_conflict (db_reworks d)
     \<and> uniq session_conflict (db_sessions d) \<and> uniq submission_conflict (db_submissions d)
     \<and> uniq intent_conflict (db_intents d) \<and> uniq completion_conflict (db_completions d)"

text \<open>The invariant is relative to an earlier database, whose evidence is retained.\<close>

definition protocol_inv :: "db \<Rightarrow> db \<Rightarrow> bool" where
  "protocol_inv K d \<longleftrightarrow> tables_uniq d \<and> provenance d \<and> grows K d \<and> (\<forall>t \<in> set (db_tasks d). status_ok d t)"

text \<open>Every row of the new database is old or has its provenance.\<close>

definition new_rows_ok :: "db \<Rightarrow> db \<Rightarrow> bool" where
  "new_rows_ok d d' \<longleftrightarrow>
     (\<forall>a \<in> set (db_artifacts d'). (\<exists>b \<in> set (db_artifacts d). same_artifact a b) \<or> gated d' a)
   \<and> (\<forall>v \<in> set (db_verifications d') - set (db_verifications d).
        \<exists>a \<in> set (db_artifacts d'). verifies v a)
   \<and> (\<forall>x \<in> set (db_authorizations d') - set (db_authorizations d).
        \<exists>a \<in> set (db_artifacts d'). \<exists>v \<in> set (db_verifications d'). authorizes x v a)
   \<and> (\<forall>m \<in> set (db_intents d') - set (db_intents d).
        \<exists>a \<in> set (db_artifacts d'). \<exists>x \<in> set (db_authorizations d').
          intends m x a \<and> (\<exists>v \<in> set (db_verifications d'). authorizes x v a))
   \<and> (\<forall>c \<in> set (db_completions d') - set (db_completions d). \<exists>m \<in> set (db_intents d'). completes c m)"

lemma provenance_step:
  assumes "provenance d" "grows d d'" "new_rows_ok d d'"
  shows "provenance d'"
proof -
  have "gated d' a" if "a \<in> set (db_artifacts d')" for a
  proof -
    from assms(3) that consider b where "b \<in> set (db_artifacts d)" "same_artifact a b" | "gated d' a"
      unfolding new_rows_ok_def by blast
    then show ?thesis
    proof cases
      case 1
      with assms(1) have "gated d b" by (simp add: provenance_def)
      with assms(2) have "gated d' b" by (auto simp: grows_def intro: gated_mono)
      with 1 same_artifact_facts(1) show ?thesis by blast
    qed
  qed
  moreover have "\<exists>a \<in> set (db_artifacts d'). verifies v a" if "v \<in> set (db_verifications d')" for v
    using assms(3) that provenance_grows(1) [OF assms(1,2)] unfolding new_rows_ok_def by blast
  moreover have "\<exists>a \<in> set (db_artifacts d'). \<exists>v \<in> set (db_verifications d'). authorizes x v a"
    if "x \<in> set (db_authorizations d')" for x
    using assms(3) that provenance_grows(2) [OF assms(1,2)] unfolding new_rows_ok_def by blast
  moreover have "\<exists>a \<in> set (db_artifacts d'). \<exists>x \<in> set (db_authorizations d').
      intends m x a \<and> (\<exists>v \<in> set (db_verifications d'). authorizes x v a)"
    if "m \<in> set (db_intents d')" for m
    using assms(3) that provenance_grows(3) [OF assms(1,2), of m] unfolding new_rows_ok_def
    by (cases "m \<in> set (db_intents d)") simp_all
  moreover have "\<exists>m \<in> set (db_intents d'). completes c m" if "c \<in> set (db_completions d')" for c
    using assms(3) that provenance_grows(4) [OF assms(1,2), of c] unfolding new_rows_ok_def by blast
  ultimately show ?thesis unfolding provenance_def by blast
qed

lemma same_artifact_trans: "\<lbrakk>same_artifact c b; same_artifact b a\<rbrakk> \<Longrightarrow> same_artifact c a"
  unfolding same_artifact_def by (cases a; cases b; cases c) simp

lemma grows_trans: "\<lbrakk>grows d1 d2; grows d2 d3\<rbrakk> \<Longrightarrow> grows d1 d3"
  unfolding grows_def by (meson same_artifact_trans subset_trans)

lemma inv_step:
  assumes "protocol_inv K d" "tables_uniq d'" "grows d d'" "new_rows_ok d d'"
    and "tasks_after tid target (db_tasks d) (db_tasks d')"
    and "\<And>other. other \<noteq> tid \<Longrightarrow> same_view other d d'"
    and "\<And>t. \<lbrakk>t \<in> set (db_tasks d'); t_id t = tid; t_status t = target\<rbrakk> \<Longrightarrow> status_ok d' t"
  shows "protocol_inv K d'"
proof -
  have "status_ok d' t'" if "t' \<in> set (db_tasks d')" for t'
  proof -
    from assms(5) that consider "t_id t' = tid" "t_status t' = target" | "t_status t' = StatusBacklog"
      | t where "t \<in> set (db_tasks d)" "same_lifecycle t t'" "t_id t \<noteq> tid"
      unfolding tasks_after_def by blast
    then show ?thesis
    proof cases
      case 1
      with assms(7) that show ?thesis by blast
    next
      case 2
      then show ?thesis by (simp add: status_ok_free)
    next
      case 3
      with assms(1) have "status_ok d t" by (simp add: protocol_inv_def)
      from status_ok_view [OF this 3(2) assms(6) [OF 3(3)]] show ?thesis .
    qed
  qed
  moreover have "provenance d'"
    using assms(1) by (intro provenance_step [OF _ assms(3,4)]) (simp add: protocol_inv_def)
  moreover have "grows K d'"
    using assms(1) by (intro grows_trans [OF _ assms(3)]) (simp add: protocol_inv_def)
  ultimately show ?thesis using assms(2) unfolding protocol_inv_def by blast
qed

section \<open>How single statements change the view of other tasks\<close>

lemma artifact_id_eq:
  "\<lbrakk>uniq artifact_conflict rows; a \<in> set rows; b \<in> set rows; da_id a = da_id b\<rbrakk> \<Longrightarrow> a = b"
  by (rule artifacts.uniq_eq) (auto simp: artifact_conflict_def)

lemma cur_single:
  assumes "uniq artifact_conflict (db_artifacts d)" "a \<in> set (cur d tid)"
  shows "cur d tid = [a]"
proof -
  have eq: "b = a" if "b \<in> set (cur d tid)" for b
    using that assms by (intro artifacts.uniq_eq [of "db_artifacts d"])
      (auto simp: cur_def artifact_conflict_def)
  have dist: "distinct (cur d tid)"
    using artifacts.uniq_distinct [OF assms(1)] by (simp add: cur_def)
  obtain x xs where c: "cur d tid = x # xs" using assms(2) by (cases "cur d tid") auto
  have "xs = []"
  proof (cases xs)
    case (Cons y ys)
    have "x = a" "y = a" by (rule eq, simp add: c Cons)+
    with dist c Cons show ?thesis by simp
  qed simp
  with c eq [of x] show ?thesis by simp
qed

lemma current_artifact_cur:
  assumes "uniq artifact_conflict (db_artifacts d)" "current_artifact tid d = Inr a"
  shows "cur d tid = [a]"
  by (rule cur_single [OF assms(1)]) (use current_artifact_Inr [OF assms(2)] in \<open>simp add: cur_def\<close>)

lemma cur_other_id:
  assumes "uniq artifact_conflict (db_artifacts d)" "a \<in> set (db_artifacts d)"
    and "da_task a \<noteq> other" "b \<in> set (cur d other)"
  shows "da_id b \<noteq> da_id a"
proof
  assume "da_id b = da_id a"
  with assms have "b = a" by (intro artifact_id_eq [OF assms(1)]) (auto simp: cur_def)
  with assms(3,4) show False by (simp add: cur_def)
qed

lemma view_invalidate:
  assumes "uniq artifact_conflict (db_artifacts d)" "a \<in> set (db_artifacts d)" "da_task a \<noteq> other"
  shows "same_view other d (invalidate_artifact (da_id a) now r d)"
proof -
  define f where "f = (\<lambda>b. if da_id b = da_id a \<and> artifact_current b then invalidated now r b else b)"
  have eq: "f b = b" if "b \<in> set (db_artifacts d)" "da_task b = other" for b
    using artifact_id_eq [OF assms(1) that(1) assms(2)] that(2) assms(3) by (auto simp: f_def)
  have task: "da_task (f b) = da_task b" for b by (simp add: invalidated_def f_def)
  let ?P = "\<lambda>b. da_task b = other \<and> artifact_current b"
  have "filter ?P (map f (db_artifacts d)) = map f (filter (?P \<circ> f) (db_artifacts d))"
    by (simp add: filter_map)
  also have "filter (?P \<circ> f) (db_artifacts d) = filter ?P (db_artifacts d)"
  proof (rule filter_cong [OF refl])
    fix b assume "b \<in> set (db_artifacts d)"
    then show "(?P \<circ> f) b = ?P b" by (cases "da_task b = other") (simp_all add: eq task)
  qed
  also have "map f \<dots> = \<dots>" by (rule map_idI) (simp add: eq)
  finally have "cur (invalidate_artifact (da_id a) now r d) other = cur d other"
    by (simp add: cur_def invalidate_artifacts f_def)
  then show ?thesis by (simp add: same_view_def passing_def auths_def intents_for_def)
qed

lemma view_add_verification:
  assumes "uniq artifact_conflict (db_artifacts d)" "a \<in> set (db_artifacts d)" "da_task a \<noteq> other"
    and "vr_artifact v = da_id a"
  shows "same_view other d (d\<lparr>db_verifications := db_verifications d @ [v]\<rparr>)"
proof -
  let ?d = "d\<lparr>db_verifications := db_verifications d @ [v]\<rparr>"
  have "passing ?d (da_id b) = passing d (da_id b)" if "b \<in> set (cur d other)" for b
    using cur_other_id [OF assms(1-3) that] assms(4) by (simp add: passing_def)
  then show ?thesis by (simp add: same_view_def cur_def auths_def intents_for_def)
qed

lemma view_add_authorization:
  assumes "uniq artifact_conflict (db_artifacts d)" "a \<in> set (db_artifacts d)" "da_task a \<noteq> other"
    and "ia_artifact x = da_id a"
  shows "same_view other d (d\<lparr>db_authorizations := db_authorizations d @ [x]\<rparr>)"
proof -
  let ?d = "d\<lparr>db_authorizations := db_authorizations d @ [x]\<rparr>"
  have "auths ?d (da_id b) = auths d (da_id b)" if "b \<in> set (cur d other)" for b
    using cur_other_id [OF assms(1-3) that] assms(4) by (simp add: auths_def)
  then show ?thesis by (simp add: same_view_def cur_def passing_def intents_for_def)
qed

lemma view_add_intent:
  assumes "uniq artifact_conflict (db_artifacts d)" "a \<in> set (db_artifacts d)" "da_task a \<noteq> other"
    and "uniq authorization_conflict (db_authorizations d)" "x \<in> set (db_authorizations d)"
    and "ia_artifact x = da_id a" "mi_authorization m = ia_id x"
  shows "same_view other d (d\<lparr>db_intents := db_intents d @ [m]\<rparr>)"
proof -
  let ?d = "d\<lparr>db_intents := db_intents d @ [m]\<rparr>"
  have ne: "ia_id y \<noteq> mi_authorization m" if "b \<in> set (cur d other)" "y \<in> set (auths d (da_id b))" for b y
  proof
    assume "ia_id y = mi_authorization m"
    with assms(7) have "authorization_conflict y x" by (simp add: authorization_conflict_def)
    then have "y = x" using that(2) assms(5)
      by (intro authorizations.uniq_eq [OF assms(4)]) (auto simp: auths_def)
    with that(2) assms(6) cur_other_id [OF assms(1-3) that(1)] show False by (simp add: auths_def)
  qed
  then have "intents_for ?d (ia_id y) = intents_for d (ia_id y)"
    if "b \<in> set (cur d other)" "y \<in> set (auths d (da_id b))" for b y
    using ne [OF that] by (simp add: intents_for_def)
  then show ?thesis by (simp add: same_view_def cur_def passing_def auths_def)
qed

lemma view_add_artifact:
  assumes "da_task a \<noteq> other"
  shows "same_view other d (d\<lparr>db_artifacts := db_artifacts d @ [a]\<rparr>)"
  using assms by (simp add: same_view_def cur_def passing_def auths_def intents_for_def)

section \<open>How the tables grow\<close>

lemma grows_invalidate: "grows d (invalidate_artifact aid now r d)"
proof -
  have "\<exists>b \<in> set (db_artifacts (invalidate_artifact aid now r d)). same_artifact b a"
    if "a \<in> set (db_artifacts d)" for a
    using that unfolding invalidate_artifacts set_map
    by (intro bexI [OF _ imageI [of a]]) simp_all
  then show ?thesis by (simp add: grows_def)
qed

lemma grows_cong:
  assumes "db_artifacts d' = db_artifacts d" "set (db_gate_runs d) \<subseteq> set (db_gate_runs d')"
    "set (db_verifications d) \<subseteq> set (db_verifications d')"
    "set (db_authorizations d) \<subseteq> set (db_authorizations d')"
    "set (db_intents d) \<subseteq> set (db_intents d')" "set (db_completions d) \<subseteq> set (db_completions d')"
  shows "grows d d'"
  unfolding grows_def assms(1) using assms(2-) same_artifact_refl by blast

lemma invalidate_uniq: "uniq artifact_conflict (db_artifacts d) \<Longrightarrow>
    uniq artifact_conflict (db_artifacts (invalidate_artifact aid now r d))"
  unfolding invalidate_artifacts
  by (rule artifacts.update_uniq)
    (auto simp: artifact_conflict_def invalidated_def artifact_current_def split: if_splits)

section \<open>Effects of the operations\<close>

text \<open>The tables that carry evidence are the same.\<close>

definition same_evidence :: "db \<Rightarrow> db \<Rightarrow> bool" where
  "same_evidence d d' \<longleftrightarrow> db_artifacts d' = db_artifacts d \<and> db_gate_runs d' = db_gate_runs d
     \<and> db_verifications d' = db_verifications d \<and> db_authorizations d' = db_authorizations d
     \<and> db_intents d' = db_intents d \<and> db_completions d' = db_completions d"

lemma same_evidence_view: "same_evidence d d' \<Longrightarrow> same_view tid d d'"
  by (rule same_view_cong) (simp_all add: same_evidence_def)

lemma same_evidence_grows: "same_evidence d d' \<Longrightarrow> grows d d'"
  by (rule grows_cong) (simp_all add: same_evidence_def)

lemma same_evidence_status: "same_evidence d d' \<Longrightarrow> status_ok d' t = status_ok d t"
  by (simp add: same_evidence_def status_ok_def cur_def passing_def auths_def intents_for_def chain_def)

lemma same_evidence_new_rows: "\<lbrakk>provenance d; same_evidence d d'\<rbrakk> \<Longrightarrow> new_rows_ok d d'"
  unfolding new_rows_ok_def same_evidence_def by (auto intro: rev_bexI)

lemma cas_tx_evidence: "cas_tx eid now tk expected target actor source reason refs d = Inr d' \<Longrightarrow> same_evidence d d'"
  by (simp add: same_evidence_def cas_tx_frame)

lemma cas_tx_tables_uniq:
  assumes "tables_uniq d" "cas_tx eid now tk expected target actor source reason refs d = Inr d'"
  shows "tables_uniq d'"
  using assms(1) cas_tx_after(2,3) [OF _ assms(2)] cas_tx_frame [OF assms(2)]
  by (simp add: tables_uniq_def)

lemma cas_tx_loads:
  assumes "tables_uniq d" "cas_tx eid now tk expected target actor source reason refs d = Inr d'"
  shows "\<exists>t. load_task (t_id tk) d' = Inr t \<and> t_status t = target \<and> t_version t = t_version tk + 1"
proof -
  from assms(2) obtain tk' ev where
    t: "tk' = tk\<lparr>t_status := target, t_version := t_version tk + 1, t_updated := now\<rparr>"
      "length (filter (cas_match tk expected) (db_tasks d)) = 1"
      "d' = d\<lparr>db_tasks := cas_rows tk expected tk' (db_tasks d), db_events := db_events d @ [ev]\<rparr>"
    by (rule cas_tx_Inr)
  from length_filter_one [OF t(2)] obtain r where r: "r \<in> set (db_tasks d)" "cas_match tk expected r"
    by blast
  define r' where "r' = task_transition_columns tk' r"
  have "r' \<in> set (db_tasks d')" using r by (auto simp: t(3) cas_rows_def r'_def)
  moreover have "uniq task_conflict (db_tasks d')"
    using cas_tx_tables_uniq [OF assms] by (simp add: tables_uniq_def)
  ultimately have "load_task (t_id r') d' = Inr r'" by (intro load_task_unique)
  with r(2) show ?thesis by (auto simp: r'_def cas_match_def t(1))
qed

lemma tables_uniqD:
  assumes "tables_uniq d"
  shows "uniq task_conflict (db_tasks d)" "uniq artifact_conflict (db_artifacts d)"
    "uniq verification_conflict (db_verifications d)"
    "uniq authorization_conflict (db_authorizations d)" "uniq intent_conflict (db_intents d)"
    "uniq completion_conflict (db_completions d)" "uniq session_conflict (db_sessions d)"
  using assms by (simp_all add: tables_uniq_def)

text \<open>A created row keeps every table free of collisions.\<close>

lemma create_tables_uniq:
  assumes "tables_uniq d"
  shows "create_artifact a d = Inr d' \<Longrightarrow> tables_uniq d'"
    and "create_gate_run g d = Inr d' \<Longrightarrow> tables_uniq d'"
    and "create_verification v d = Inr d' \<Longrightarrow> tables_uniq d'"
    and "create_authorization au d = Inr d' \<Longrightarrow> tables_uniq d'"
    and "create_rework rw d = Inr d' \<Longrightarrow> tables_uniq d'"
    and "create_session s d = Inr d' \<Longrightarrow> tables_uniq d'"
    and "create_submission b d = Inr d' \<Longrightarrow> tables_uniq d'"
    and "create_intent mi d = Inr d' \<Longrightarrow> tables_uniq d'"
    and "create_completion mc d = Inr d' \<Longrightarrow> tables_uniq d'"
  using assms
  by (auto simp: tables_uniq_def create_defs res_bind_Inr
      intro: artifacts.create_uniq gate_runs.create_uniq verifications.create_uniq
        authorizations.create_uniq reworks.create_uniq sessions.create_uniq
        submissions.create_uniq intents.create_uniq completions.create_uniq)

lemma invalidate_tables_uniq: "tables_uniq d \<Longrightarrow> tables_uniq (invalidate_artifact aid now r d)"
  using invalidate_uniq [of d aid now r] by (simp add: tables_uniq_def)

lemma route_rework_effect:
  assumes "tables_uniq d" "route_rework fresh now tk a actor reason mode scope att key hsh d
    = Inr ((tk1, target, sid), d')"
  shows "tables_uniq d' \<and> same_evidence d d' \<and> target \<in> {StatusHostRework, StatusInProgress}
    \<and> same_lifecycle tk tk1 \<and> tasks_extend (t_id tk) (db_tasks d) (db_tasks d')"
  using route_rework_Inr [OF assms(2)] assms(1)
  by (auto simp: tables_uniq_def same_evidence_def)

text \<open>The result of a rework path: the current artifact is invalidated, the task moves.\<close>

definition reworked :: "db \<Rightarrow> db \<Rightarrow> task \<Rightarrow> delivery_artifact \<Rightarrow> time \<Rightarrow> string \<Rightarrow> bool" where
  "reworked d d' tk a now reason \<longleftrightarrow> tables_uniq d'
     \<and> same_evidence (invalidate_artifact (da_id a) now reason d) d'
     \<and> (\<exists>target \<in> {StatusHostRework, StatusInProgress}.
          tasks_after (t_id tk) target (db_tasks d) (db_tasks d'))"

lemma verify_failure_effect:
  assumes "tables_uniq d" "verify_failure fresh now hsh req tk a d = Inr ((tk1, target, rid, sid), d')"
  shows "tables_uniq d' \<and> same_evidence (invalidate_artifact (da_id a) now ''verification_failed'' d) d'
    \<and> target \<in> {StatusHostRework, StatusInProgress} \<and> same_lifecycle tk tk1
    \<and> tasks_extend (t_id tk) (db_tasks d) (db_tasks d')"
proof -
  from assms(2) obtain ssid d1 rw d2 where r: "route_rework fresh now tk a (vq_actor req)
      (vq_failure_reason req) (vq_failure_mode req) (vq_scope req) (vq_attestation req) (vq_key req)
      hsh d = Inr ((tk1, target, ssid), d1)" "create_rework rw d1 = Inr d2"
      "d' = invalidate_artifact (da_id a) now ''verification_failed'' d2"
    by (auto simp: verify_failure_def res_bind_Inr Let_def)
  note e = route_rework_effect [OF assms(1) r(1)]
  from e have "tables_uniq d2" using create_tables_uniq(5) [OF _ r(2)] by blast
  then have "tables_uniq d'" unfolding r(3) by (rule invalidate_tables_uniq)
  moreover have "same_evidence (invalidate_artifact (da_id a) now ''verification_failed'' d) d'"
    using e r(2) by (simp add: r(3) same_evidence_def create_Inr invalidate_artifacts)
  moreover have "db_tasks d' = db_tasks d1" using r(2) by (simp add: r(3) create_Inr)
  ultimately show ?thesis using e by simp
qed

lemma persist_effect:
  assumes "tables_uniq d" "persist_verification_interactions fresh tk a v req d = Inr (ids, d')"
  shows "tables_uniq d' \<and> same_evidence d d' \<and> db_tasks d' = db_tasks d"
proof -
  from persist_verification_interactions_Inr [OF assms(2)] obtain rows where
    "d' = d\<lparr>db_interactions := rows\<rparr>"
    "uniq interaction_conflict (db_interactions d) \<longrightarrow> uniq interaction_conflict rows" by blast
  with assms(1) show ?thesis by (simp add: tables_uniq_def same_evidence_def)
qed

lemma verify_fresh_effect:
  assumes "tables_uniq d" "verify_fresh fresh now hsh req d = Inr (v, d')"
  obtains tk a target where "load_task (vq_task req) d = Inr tk"
    "t_status tk = StatusVerificationReady" "t_version tk = vq_observed req"
    "current_artifact (vq_task req) d = Inr a" "exact_artifact a (vq_version req) (vq_commit req)"
    "verifies v a" "vr_result v = vq_result req" "vr_key v = vq_key req" "vr_hash v = hsh"
    "tables_uniq d'" "tasks_after (t_id tk) target (db_tasks d) (db_tasks d')"
    "same_evidence ((if vq_result req = VerificationFailed
        then invalidate_artifact (da_id a) now ''verification_failed'' d else d)
          \<lparr>db_verifications := db_verifications d @ [v]\<rparr>) d'"
    "target = (if vq_result req = VerificationFailed then target else StatusIntegrationReady)"
    "vq_result req = VerificationFailed \<Longrightarrow> target \<in> {StatusHostRework, StatusInProgress}"
    "\<exists>t. load_task (vq_task req) d' = Inr t \<and> t_status t = target"
proof -
  from assms(2) obtain tk a ids d1 d2 tk1 target rid sid d3 eid reason refs where
    t: "load_task (vq_task req) d = Inr tk" "t_status tk = StatusVerificationReady"
      "t_version tk = vq_observed req" "current_artifact (vq_task req) d = Inr a"
      "exact_artifact a (vq_version req) (vq_commit req)"
    and v: "vr_task v = t_id tk" "vr_artifact v = da_id a" "vr_version v = da_version a"
      "vr_commit v = da_commit a" "vr_result v = vq_result req" "vr_key v = vq_key req" "vr_hash v = hsh"
    and c: "create_verification v d = Inr d1"
    and p: "persist_verification_interactions fresh tk a v req d1 = Inr (ids, d2)"
    and f: "(if vq_result req = VerificationFailed then verify_failure fresh now hsh req tk a d2
             else Inr ((tk, StatusIntegrationReady, uuid_Nil, uuid_Nil), d2))
           = Inr ((tk1, target, rid, sid), d3)"
    and s: "cas_tx eid now tk1 StatusVerificationReady target (vq_actor req) (vq_source req) reason
        refs d3 = Inr d'"
    unfolding verify_fresh_def res_bind_Inr guard_Inr Let_def
    by (auto simp: res_bind_Inr)
  have u1: "tables_uniq d1" by (rule create_tables_uniq(3) [OF assms(1) c])
  have d1: "d1 = d\<lparr>db_verifications := db_verifications d @ [v]\<rparr>" using c by (simp add: create_Inr)
  note pe = persist_effect [OF u1 p]
  have fe: "tables_uniq d3 \<and> same_lifecycle tk tk1
    \<and> same_evidence (if vq_result req = VerificationFailed
        then invalidate_artifact (da_id a) now ''verification_failed'' d2 else d2) d3
    \<and> tasks_extend (t_id tk) (db_tasks d2) (db_tasks d3)
    \<and> (vq_result req = VerificationFailed \<longrightarrow> target \<in> {StatusHostRework, StatusInProgress})
    \<and> (vq_result req \<noteq> VerificationFailed \<longrightarrow> target = StatusIntegrationReady)"
  proof (cases "vq_result req = VerificationFailed")
    case True
    with f have "verify_failure fresh now hsh req tk a d2 = Inr ((tk1, target, rid, sid), d3)" by simp
    from verify_failure_effect [OF _ this] pe True show ?thesis by simp
  next
    case False
    with f pe show ?thesis
      by (auto simp: same_evidence_def same_lifecycle_def intro: tasks_extend_refl)
  qed
  have ids: "t_id tk1 = t_id tk" "t_id tk = vq_task req" "da_task a = vq_task req"
    using fe load_task_Inr [OF t(1)] current_artifact_Inr [OF t(4)] by (simp_all add: same_lifecycle_def)
  have "verifies v a" using v ids by (simp add: verifies_def)
  moreover have "tables_uniq d'" using cas_tx_tables_uniq [OF _ s] fe by blast
  moreover have "tasks_after (t_id tk) target (db_tasks d) (db_tasks d')"
    using tasks_after_extend [of "t_id tk" "db_tasks d2" "db_tasks d3"] cas_tx_after(1) [OF _ s]
      fe pe ids(1) by (simp add: d1 tables_uniq_def)
  moreover have "same_evidence ((if vq_result req = VerificationFailed
        then invalidate_artifact (da_id a) now ''verification_failed'' d else d)
          \<lparr>db_verifications := db_verifications d @ [v]\<rparr>) d'"
    using fe pe cas_tx_evidence [OF s]
    by (auto simp: same_evidence_def d1 invalidate_artifacts split: if_splits)
  moreover have "\<exists>t. load_task (vq_task req) d' = Inr t \<and> t_status t = target"
    using cas_tx_loads [OF _ s] fe ids by auto
  ultimately show ?thesis using that t v fe by auto
qed

section \<open>Every operation preserves the invariant\<close>

lemma inv_op:
  assumes "protocol_inv K d" "tables_uniq d'" "same_evidence e d'" "grows d e" "new_rows_ok d e"
    and "tasks_after tid target (db_tasks d) (db_tasks d')"
    and "\<And>other. other \<noteq> tid \<Longrightarrow> same_view other d e"
    and "\<And>t. \<lbrakk>t_id t = tid; t_status t = target\<rbrakk> \<Longrightarrow> status_ok e t"
  shows "protocol_inv K d'"
proof (rule inv_step [OF assms(1,2) _ _ assms(6)])
  show "grows d d'" using assms(4) same_evidence_grows [OF assms(3)] by (rule grows_trans)
  show "new_rows_ok d d'" using assms(3,5) by (simp add: new_rows_ok_def same_evidence_def gated_def)
  show "same_view other d d'" if "other \<noteq> tid" for other
    using assms(7) [OF that] same_evidence_view [OF assms(3)] by (rule same_view_trans)
  show "status_ok d' t" if "t_id t = tid" "t_status t = target" for t
    using assms(8) [OF that] same_evidence_status [OF assms(3)] by simp
qed

lemma invD:
  assumes "protocol_inv K d"
  shows "tables_uniq d" "provenance d" "t \<in> set (db_tasks d) \<Longrightarrow> status_ok d t"
  using assms by (simp_all add: protocol_inv_def)

lemma invalidated_same: "x \<in> set (db_artifacts (invalidate_artifact aid now r d)) \<Longrightarrow>
    \<exists>b \<in> set (db_artifacts d). same_artifact x b"
  unfolding invalidate_artifacts by (auto split: if_splits intro: rev_bexI)

text \<open>Invalidation alone brings no new rows.\<close>

lemma new_rows_invalidate: "new_rows_ok d (invalidate_artifact aid now r d)"
  by (auto simp: new_rows_ok_def dest: invalidated_same)

lemma reworked_inv:
  assumes "protocol_inv K d" "tables_uniq d'" "a \<in> set (db_artifacts d)" "da_task a = tid"
    and "same_evidence (invalidate_artifact (da_id a) now r d) d'"
    and "tasks_after tid target (db_tasks d) (db_tasks d')"
    and "target \<notin> {StatusVerificationReady, StatusIntegrationReady, StatusMerging, StatusDone}"
  shows "protocol_inv K d'"
proof (rule inv_op [OF assms(1,2,5) grows_invalidate new_rows_invalidate assms(6)])
  show "same_view other d (invalidate_artifact (da_id a) now r d)" if "other \<noteq> tid" for other
    using invD(1) [OF assms(1)] assms(3,4) that by (intro view_invalidate) (auto simp: tables_uniq_def)
  show "status_ok (invalidate_artifact (da_id a) now r d) t" if "t_status t = target" for t
    using that assms(7) by (intro status_ok_free) simp
qed

lemma verify_fresh_inv:
  assumes "protocol_inv K d" "verify_fresh fresh now hsh req d = Inr (v, d')"
    and "vq_result req = VerificationPassed \<or> vq_result req = VerificationFailed"
  shows "protocol_inv K d'"
proof -
  note U = invD(1) [OF assms(1)]
  define e0 where "e0 x = (if vq_result req = VerificationFailed
      then invalidate_artifact (da_id x) now ''verification_failed'' d else d)"
    for x :: delivery_artifact
  from verify_fresh_effect [OF U assms(2)] obtain tk a target where
    t: "load_task (vq_task req) d = Inr tk" "t_status tk = StatusVerificationReady"
      "current_artifact (vq_task req) d = Inr a"
    and v: "verifies v a" "vr_result v = vq_result req"
    and d': "tables_uniq d'" "tasks_after (t_id tk) target (db_tasks d) (db_tasks d')"
      "same_evidence ((e0 a)\<lparr>db_verifications := db_verifications d @ [v]\<rparr>) d'"
    and tg: "target = (if vq_result req = VerificationFailed then target else StatusIntegrationReady)"
      "vq_result req = VerificationFailed \<Longrightarrow> target \<in> {StatusHostRework, StatusInProgress}"
    unfolding e0_def by metis
  note tid = load_task_Inr [OF t(1)] and ca = current_artifact_Inr [OF t(3)]
  have ua: "uniq artifact_conflict (db_artifacts d)" using U by (simp add: tables_uniq_def)
  let ?e = "(e0 a)\<lparr>db_verifications := db_verifications d @ [v]\<rparr>"
  have e: "?e = (e0 a)\<lparr>db_verifications := db_verifications (e0 a) @ [v]\<rparr>" by (simp add: e0_def)
  have g0: "grows d (e0 a)" using grows_invalidate by (simp add: e0_def)
  have g1: "grows (e0 a) ?e" by (rule grows_cong) (auto simp: e0_def)
  obtain b where b: "b \<in> set (db_artifacts ?e)" "same_artifact b a"
    using g0 ca by (auto simp: grows_def)
  show ?thesis
  proof (rule inv_op [OF assms(1) d'(1,3) grows_trans [OF g0 g1] _ d'(2)])
    show "new_rows_ok d ?e"
      using b v(1) same_artifact_facts(2) [OF b(2)] invalidated_same
      by (auto simp: new_rows_ok_def e0_def intro: rev_bexI)
    fix other assume o: "other \<noteq> t_id tk"
    have "same_view other d (e0 a)"
      using view_invalidate [OF ua, of a other] ca tid o by (simp add: e0_def)
    moreover have "same_view other (e0 a) ?e"
    proof (unfold e, rule view_add_verification [of _ b])
      show "uniq artifact_conflict (db_artifacts (e0 a))" using ua invalidate_uniq by (simp add: e0_def)
      show "b \<in> set (db_artifacts (e0 a))" using b(1) by simp
      show "da_task b \<noteq> other" "vr_artifact v = da_id b"
        using same_artifactD [OF b(2)] ca tid o v(1) by (simp_all add: verifies_def)
    qed
    ultimately show "same_view other d ?e" by (rule same_view_trans)
  next
    fix t :: task assume st: "t_id t = t_id tk" "t_status t = target"
    show "status_ok ?e t"
    proof (cases "vq_result req = VerificationFailed")
      case True
      with st tg show ?thesis by (intro status_ok_free) auto
    next
      case False
      have c: "cur d (t_id tk) = [a]" using current_artifact_cur [OF ua t(3)] tid by simp
      with invD(3) [OF assms(1), of tk] tid t(2) have "passing d (da_id a) = []" "auths d (da_id a) = []"
        by (auto simp: status_ok_def)
      with c False assms(3) v st tg(1) show ?thesis
        by (simp add: status_ok_def cur_def passing_def auths_def verifies_def e0_def)
    qed
  qed
qed

lemma rework_fresh_effect:
  assumes "tables_uniq d" "rework_fresh fresh now hsh req d = Inr (rw, d')"
  obtains tk a target where "load_task (rq_task req) d = Inr tk"
    "t_status tk = StatusVerificationReady \<or> t_status tk = StatusIntegrationReady"
    "t_version tk = rq_observed req" "current_artifact (rq_task req) d = Inr a"
    "exact_artifact a (rq_version req) (rq_commit req)" "rw_artifact rw = da_id a"
    "rw_key rw = rq_key req" "rw_hash rw = hsh" "db_reworks d' = db_reworks d @ [rw]"
    "tables_uniq d'" "tasks_after (t_id tk) target (db_tasks d) (db_tasks d')"
    "same_evidence (invalidate_artifact (da_id a) now ''rework_requested'' d) d'"
    "target \<in> {StatusHostRework, StatusInProgress}"
    "\<exists>t. load_task (rq_task req) d' = Inr t \<and> t_status t = target"
proof -
  from assms(2) obtain tk a tk1 target sid d1 d2 eid refs where
    t: "load_task (rq_task req) d = Inr tk" "current_artifact (t_id tk) d = Inr a"
      "t_status tk = StatusVerificationReady \<or> t_status tk = StatusIntegrationReady"
      "t_version tk = rq_observed req" "exact_artifact a (rq_version req) (rq_commit req)"
    and r: "route_rework fresh now tk a (rq_actor req) (rq_reason req) (rq_mode req)
        (rq_scope req) (rq_attestation req) (rq_key req) hsh d = Inr ((tk1, target, sid), d1)"
    and rw: "rw_artifact rw = da_id a" "rw_key rw = rq_key req" "rw_hash rw = hsh"
    and c: "create_rework rw d1 = Inr d2"
    and s: "cas_tx eid now tk1 (t_status tk1) target (rq_actor req) (rq_source req)
        ''delivery rework requested'' refs (invalidate_artifact (da_id a) now ''rework_requested'' d2)
        = Inr d'"
    unfolding rework_fresh_def res_bind_Inr guard_Inr Let_def by (auto simp: res_bind_Inr)
  from r have db: "db_reworks d1 = db_reworks d" using route_rework_Inr [OF r] by auto
  note re = route_rework_effect [OF assms(1) r]
  have u: "tables_uniq (invalidate_artifact (da_id a) now ''rework_requested'' d2)"
    using create_tables_uniq(5) [OF _ c] re by (intro invalidate_tables_uniq) blast
  have id: "t_id tk1 = t_id tk" using re by (simp add: same_lifecycle_def)
  have tid: "t_id tk = rq_task req" using load_task_Inr [OF t(1)] by simp
  have "tables_uniq d'" by (rule cas_tx_tables_uniq [OF u s])
  moreover have "tasks_after (t_id tk) target (db_tasks d) (db_tasks d')"
    using tasks_after_extend [of "t_id tk" "db_tasks d" "db_tasks d1"] cas_tx_after(1) [OF _ s] u re
      c id by (simp add: create_Inr tables_uniq_def)
  moreover have "same_evidence (invalidate_artifact (da_id a) now ''rework_requested'' d) d'"
    using re c cas_tx_evidence [OF s]
    by (simp add: same_evidence_def create_Inr invalidate_artifacts)
  moreover have "db_reworks d' = db_reworks d @ [rw]"
    using c db cas_tx_frame [OF s] by (simp add: create_Inr)
  moreover have "\<exists>t. load_task (rq_task req) d' = Inr t \<and> t_status t = target"
    using cas_tx_loads [OF u s] id tid by auto
  ultimately show ?thesis using that t rw re tid by simp
qed

lemma rework_fresh_inv:
  assumes "protocol_inv K d" "rework_fresh fresh now hsh req d = Inr (rw, d')"
  shows "protocol_inv K d'"
proof -
  from rework_fresh_effect [OF invD(1) [OF assms(1)] assms(2)] obtain tk a target where
    t: "load_task (rq_task req) d = Inr tk" "current_artifact (rq_task req) d = Inr a"
    and e: "tables_uniq d'" "tasks_after (t_id tk) target (db_tasks d) (db_tasks d')"
      "same_evidence (invalidate_artifact (da_id a) now ''rework_requested'' d) d'"
      "target \<in> {StatusHostRework, StatusInProgress}" by metis
  show ?thesis
    using load_task_Inr [OF t(1)] current_artifact_Inr [OF t(2)] e(4)
    by (intro reworked_inv [OF assms(1) e(1) _ _ e(3,2)]) auto
qed

lemma authorize_fresh_cases:
  assumes "authorize_fresh fresh now hsh g req d = Inr (outcome, d')"
  obtains (drift) tk a drift eid refs where "load_task (iq_task req) d = Inr tk"
      "t_status tk = StatusIntegrationReady" "current_artifact (t_id tk) d = Inr a"
      "delivery_artifact_drift g tk a = Inr drift" "drift \<noteq> []" "outcome = Inl ErrStaleArtifact"
      "cas_tx eid now tk StatusIntegrationReady StatusInProgress (iq_actor req)
         ''integration_preflight'' drift refs (invalidate_artifact (da_id a) now drift d) = Inr d'"
  | (authorized) tk a v au mi eid refs where "load_task (iq_task req) d = Inr tk"
      "t_status tk = StatusIntegrationReady" "t_version tk = iq_observed req"
      "current_artifact (t_id tk) d = Inr a" "exact_artifact a (iq_version req) (iq_commit req)"
      "v \<in> set (db_verifications d)" "vr_id v = iq_verification req" "vr_artifact v = da_id a"
      "vr_result v = VerificationPassed" "delivery_artifact_drift g tk a = Inr []"
      "outcome = Inr au"
      "au = new_authorization (fresh ''authorization'' 0) now hsh req tk a v"
      "mi = new_intent (fresh ''intent'' 0) (t_id tk) a (vr_id v) (ia_id au) (iq_actor req) (iq_source req)"
      "\<forall>x \<in> set (db_authorizations d). \<not> authorization_conflict au x"
      "\<forall>x \<in> set (db_intents d). \<not> intent_conflict mi x"
      "cas_tx eid now tk StatusIntegrationReady StatusMerging (iq_actor req) (iq_source req)
         ''verified artifact authorized for integration'' refs
         (d\<lparr>db_authorizations := db_authorizations d @ [au], db_intents := db_intents d @ [mi]\<rparr>) = Inr d'"
proof -
  from assms obtain tk a v dr where t: "load_task (iq_task req) d = Inr tk"
      "t_status tk = StatusIntegrationReady" "t_version tk = iq_observed req"
      "current_artifact (t_id tk) d = Inr a" "exact_artifact a (iq_version req) (iq_commit req)"
    and v: "tbl_first vr_id (\<lambda>v. vr_id v = iq_verification req \<and> vr_artifact v = da_id a
               \<and> vr_result v = VerificationPassed) (db_verifications d) = Some v"
    and dr: "delivery_artifact_drift g tk a = Inr dr"
    unfolding authorize_fresh_def res_bind_Inr guard_Inr of_option_Inr by blast
  note vf = tbl_first_Some [OF v]
  show ?thesis
  proof (cases "dr = []")
    case False
    with assms t v dr show ?thesis
      by (intro drift [OF t(1,2,4) dr False])
        (auto simp: authorize_fresh_def res_bind_Inr)
  next
    case True
    let ?au = "new_authorization (fresh ''authorization'' 0) now hsh req tk a v"
    let ?mi = "new_intent (fresh ''intent'' 0) (t_id tk) a (vr_id v) (ia_id ?au) (iq_actor req)
                 (iq_source req)"
    show ?thesis
      using assms t v dr True vf
      by (intro authorized [OF t _ _ _ _ _ _ refl refl])
        (auto simp: authorize_fresh_def res_bind_Inr create_Inr Let_def)
  qed
qed

text \<open>An id that collides with no row of the authorizations is in no intent.\<close>

lemma fresh_authorization_unused:
  assumes "provenance d" "\<forall>x \<in> set (db_authorizations d). \<not> authorization_conflict au x"
  shows "intents_for d (ia_id au) = []"
proof -
  have "mi_authorization m \<noteq> ia_id au" if m: "m \<in> set (db_intents d)" for m
  proof -
    from assms(1) m obtain x a where "x \<in> set (db_authorizations d)" "intends m x a"
      unfolding provenance_def by blast
    with assms(2) show ?thesis by (auto simp: intends_def authorization_conflict_def)
  qed
  then show ?thesis by (simp add: intents_for_def filter_empty_conv)
qed

lemma verification_commit:
  assumes "protocol_inv K d" "v \<in> set (db_verifications d)" "a \<in> set (db_artifacts d)"
    and "vr_artifact v = da_id a"
  shows "verifies v a"
proof -
  from invD(2) [OF assms(1)] assms(2) obtain b where b: "b \<in> set (db_artifacts d)" "verifies v b"
    unfolding provenance_def by blast
  have "b = a"
  proof (rule artifact_id_eq [OF tables_uniqD(2) [OF invD(1) [OF assms(1)]] b(1) assms(3)])
    show "da_id b = da_id a" using b(2) assms(4) unfolding verifies_def by metis
  qed
  with b(2) show ?thesis by blast
qed

lemma filter_single: "\<lbrakk>filter P xs = [y]; x \<in> set xs; P x\<rbrakk> \<Longrightarrow> x = y"
proof -
  assume a: "filter P xs = [y]" "x \<in> set xs" "P x"
  then have "x \<in> set [y]" unfolding a(1) [symmetric] by simp
  then show "x = y" by simp
qed

lemma authorized_inv:
  assumes "protocol_inv K d" "tk \<in> set (db_tasks d)" "t_status tk = StatusIntegrationReady"
    and "current_artifact (t_id tk) d = Inr a" "v \<in> set (db_verifications d)"
    and "vr_artifact v = da_id a" "vr_result v = VerificationPassed"
    and au: "au = new_authorization auid now hsh req tk a v"
    and mi: "mi = new_intent iid (t_id tk) a (vr_id v) (ia_id au) actor source"
    and "\<forall>x \<in> set (db_authorizations d). \<not> authorization_conflict au x"
    and "\<forall>x \<in> set (db_intents d). \<not> intent_conflict mi x"
    and "cas_tx eid now tk StatusIntegrationReady StatusMerging act src reason refs
         (d\<lparr>db_authorizations := db_authorizations d @ [au], db_intents := db_intents d @ [mi]\<rparr>) = Inr d'"
  shows "protocol_inv K d'"
proof -
  let ?e1 = "d\<lparr>db_authorizations := db_authorizations d @ [au]\<rparr>"
  let ?e = "?e1\<lparr>db_intents := db_intents d @ [mi]\<rparr>"
  note U = invD(1) [OF assms(1)] and ca = current_artifact_Inr [OF assms(4)]
  have ua: "uniq artifact_conflict (db_artifacts d)" using U by (simp add: tables_uniq_def)
  have u1: "tables_uniq ?e1" using create_tables_uniq(4) [OF U] assms(10) by (simp add: create_Inr)
  have u2: "tables_uniq ?e" using create_tables_uniq(8) [OF u1] assms(11) by (simp add: create_Inr)
  have ver: "verifies v a" by (rule verification_commit [OF assms(1,5) _ assms(6)]) (simp add: ca)
  have auth: "authorizes au v a" using ver assms(7) ca by (simp add: au authorizes_def new_authorization_def)
  have int: "intends mi au a" using ca auth by (simp add: mi new_intent_def intends_def authorizes_def)
  show ?thesis
  proof (rule inv_op [OF assms(1) cas_tx_tables_uniq [OF u2] cas_tx_evidence])
    show "cas_tx eid now tk StatusIntegrationReady StatusMerging act src reason refs ?e = Inr d'"
      "cas_tx eid now tk StatusIntegrationReady StatusMerging act src reason refs ?e = Inr d'"
      using assms(12) by simp_all
    show "grows d ?e" by (rule grows_cong) auto
    show "new_rows_ok d ?e"
      using ca assms(5) auth int by (auto simp: new_rows_ok_def intro: rev_bexI)
    show "tasks_after (t_id tk) StatusMerging (db_tasks d) (db_tasks d')"
      using cas_tx_after(1) [OF _ assms(12)] U by (simp add: tables_uniq_def)
    fix other assume o: "other \<noteq> t_id tk"
    have "same_view other d ?e1"
      using ca o by (intro view_add_authorization [OF ua, of a]) (auto simp: au new_authorization_def)
    moreover have "same_view other ?e1 (?e1\<lparr>db_intents := db_intents ?e1 @ [mi]\<rparr>)"
    proof (rule view_add_intent [of _ a _ au])
      show "uniq artifact_conflict (db_artifacts ?e1)" using ua by simp
      show "uniq authorization_conflict (db_authorizations ?e1)" using u1 by (simp add: tables_uniq_def)
    qed (use ca o in \<open>auto simp: au mi new_authorization_def new_intent_def\<close>)
    ultimately show "same_view other d ?e" by (auto intro: same_view_trans)
  next
    fix t :: task assume st: "t_id t = t_id tk" "t_status t = StatusMerging"
    from invD(3) [OF assms(1,2)] assms(3) current_artifact_cur [OF ua assms(4)]
    obtain w where w: "cur d (t_id tk) = [a]" "passing d (da_id a) = [w]" "auths d (da_id a) = []"
      by (auto simp: status_ok_def)
    have "w = v" using filter_single [OF w(2) [unfolded passing_def] assms(5)] assms(6,7) by simp
    then have "chain ?e (t_id tk) a v au mi"
      using w fresh_authorization_unused [OF invD(2) [OF assms(1)] assms(10)] ver
      by (simp add: chain_def cur_def passing_def auths_def intents_for_def evidence_complete_for_def
          au mi new_authorization_def new_intent_def verifies_def)
    then show "status_ok ?e t" using st by (auto simp: status_ok_def)
  qed
qed

lemma authorize_fresh_inv:
  assumes "protocol_inv K d" "authorize_fresh fresh now hsh g req d = Inr (outcome, d')"
  shows "protocol_inv K d'"
  using assms(2)
proof (cases rule: authorize_fresh_cases)
  case (drift tk a drift eid refs)
  note ca = current_artifact_Inr [OF drift(3)]
  have u: "tables_uniq (invalidate_artifact (da_id a) now drift d)"
    by (rule invalidate_tables_uniq [OF invD(1) [OF assms(1)]])
  show ?thesis
  proof (rule reworked_inv [OF assms(1) cas_tx_tables_uniq [OF u drift(7)] _ _ cas_tx_evidence [OF drift(7)]])
    show "a \<in> set (db_artifacts d)" "da_task a = t_id tk" using ca by simp_all
    show "tasks_after (t_id tk) StatusInProgress (db_tasks d) (db_tasks d')"
      using cas_tx_after(1) [OF _ drift(7)] u by (simp add: tables_uniq_def)
  qed simp
next
  case (authorized tk a v au mi eid refs)
  show ?thesis
    by (rule authorized_inv [OF assms(1) _ authorized(2,4,6,8,9,12,13,14,15,16)])
      (use load_task_Inr [OF authorized(1)] in simp)
qed

lemma freeze_transaction_Inr:
  assumes "freeze_transaction fresh now tid s d = Inr (a, d')"
  obtains tk g eid refs where "load_task tid d = Inr tk" "t_status tk = StatusTestingReady"
    "g = passed_gate_run (fresh ''gate run'' 0) tk s"
    "a = frozen_artifact (fresh ''artifact'' 0) (gr_id g) now
               (max_artifact_version (t_id tk) d + 1) tk s"
    "\<forall>x \<in> set (db_gate_runs d). \<not> gate_run_conflict g x"
    "\<forall>x \<in> set (db_artifacts d). \<not> artifact_conflict a x"
    "cas_tx eid now tk StatusTestingReady StatusVerificationReady (as_actor s) (as_source s)
      ''preliminary gates passed and artifact frozen'' refs
      (d\<lparr>db_gate_runs := db_gate_runs d @ [g], db_artifacts := db_artifacts d @ [a]\<rparr>) = Inr d'"
  using assms unfolding freeze_transaction_def by (auto simp: res_bind_Inr guard_Inr create_Inr Let_def)

lemma freeze_inv:
  assumes "protocol_inv K d" "freeze_transaction fresh now tid s d = Inr (a, d')"
  shows "protocol_inv K d' \<and> cur d tid = [] \<and> db_artifacts d' = db_artifacts d @ [a]
    \<and> da_task a = tid \<and> da_commit a = as_commit s \<and> da_version a = max_artifact_version tid d + 1"
proof -
  from freeze_transaction_Inr [OF assms(2)] obtain tk g eid refs where
    t: "load_task tid d = Inr tk" "t_status tk = StatusTestingReady"
    and g': "g = passed_gate_run (fresh ''gate run'' 0) tk s"
    and a': "a = frozen_artifact (fresh ''artifact'' 0) (gr_id g) now
               (max_artifact_version (t_id tk) d + 1) tk s"
    and ga: "\<forall>x \<in> set (db_gate_runs d). \<not> gate_run_conflict g x"
      "\<forall>x \<in> set (db_artifacts d). \<not> artifact_conflict a x"
    and c: "cas_tx eid now tk StatusTestingReady StatusVerificationReady (as_actor s) (as_source s)
      ''preliminary gates passed and artifact frozen'' refs
      (d\<lparr>db_gate_runs := db_gate_runs d @ [g], db_artifacts := db_artifacts d @ [a]\<rparr>) = Inr d'" .
  have g: "gr_task g = t_id tk" "gr_commit g = as_commit s" "gr_base g = as_base s"
      "gr_outcome g = PreliminaryGatePassed" "\<forall>x \<in> set (db_gate_runs d). \<not> gate_run_conflict g x"
    using ga by (simp_all add: g' passed_gate_run_def)
  have a: "da_task a = t_id tk" "da_gate_run a = Some (gr_id g)" "da_commit a = as_commit s"
      "da_base a = as_base s" "da_invalidated a = None"
      "da_version a = max_artifact_version (t_id tk) d + 1"
      "\<forall>x \<in> set (db_artifacts d). \<not> artifact_conflict a x"
    using ga by (simp_all add: a' frozen_artifact_def)
  let ?e1 = "d\<lparr>db_gate_runs := db_gate_runs d @ [g]\<rparr>"
  let ?e = "?e1\<lparr>db_artifacts := db_artifacts d @ [a]\<rparr>"
  have tid: "t_id tk = tid" using load_task_Inr [OF t(1)] by simp
  note U = invD(1) [OF assms(1)]
  have u1: "tables_uniq ?e1" using create_tables_uniq(2) [OF U] g(5) by (simp add: create_Inr)
  have u2: "tables_uniq ?e" using create_tables_uniq(1) [OF u1] a(7) by (simp add: create_Inr)
  have none: "cur d tid = []"
    using a(1,5,7) tid by (auto simp: cur_def filter_empty_conv artifact_conflict_def artifact_current_def)
  have new: "da_id b \<noteq> da_id a" if "b \<in> set (db_artifacts d)" for b
    using a(7) that by (auto simp: artifact_conflict_def)
  have unused: "passing d (da_id a) = []" "auths d (da_id a) = []"
  proof -
    have "vr_artifact v \<noteq> da_id a" if v: "v \<in> set (db_verifications d)" for v
      using invD(2) [OF assms(1)] v new unfolding provenance_def verifies_def by metis
    then show "passing d (da_id a) = []" by (simp add: passing_def filter_empty_conv)
    have "ia_artifact x \<noteq> da_id a" if x: "x \<in> set (db_authorizations d)" for x
      using invD(2) [OF assms(1)] x new unfolding provenance_def authorizes_def by metis
    then show "auths d (da_id a) = []" by (simp add: auths_def filter_empty_conv)
  qed
  have "protocol_inv K d'"
  proof (rule inv_op [OF assms(1) cas_tx_tables_uniq [OF u2] cas_tx_evidence])
    show "cas_tx eid now tk StatusTestingReady StatusVerificationReady (as_actor s) (as_source s)
        ''preliminary gates passed and artifact frozen'' refs ?e = Inr d'"
      "cas_tx eid now tk StatusTestingReady StatusVerificationReady (as_actor s) (as_source s)
        ''preliminary gates passed and artifact frozen'' refs ?e = Inr d'" using c by simp_all
    show "grows d ?e" unfolding grows_def by (auto intro: rev_bexI)
    show "new_rows_ok d ?e" using g a by (auto simp: new_rows_ok_def gated_def intro: rev_bexI)
    show "tasks_after (t_id tk) StatusVerificationReady (db_tasks d) (db_tasks d')"
      using cas_tx_after(1) [OF _ c] U by (simp add: tables_uniq_def)
    fix other assume o: "other \<noteq> t_id tk"
    have "same_view other d ?e1" by (rule same_view_cong) simp_all
    moreover have "same_view other ?e1 (?e1\<lparr>db_artifacts := db_artifacts ?e1 @ [a]\<rparr>)"
      using a(1) o by (intro view_add_artifact) simp
    ultimately show "same_view other d ?e" by (auto intro: same_view_trans)
  next
    fix t :: task assume st: "t_id t = t_id tk" "t_status t = StatusVerificationReady"
    have "cur ?e tid = [a]" using none a(1,5) tid by (simp add: cur_def artifact_current_def)
    with unused st tid show "status_ok ?e t" by (simp add: status_ok_def passing_def auths_def)
  qed
  moreover have "db_artifacts d' = db_artifacts d @ [a]" using cas_tx_frame [OF c] by simp
  ultimately show ?thesis using none a tid by simp
qed

text \<open>A swap to a status without obligations, on tables whose evidence is the same.\<close>

lemma plain_move_inv:
  assumes "protocol_inv K d" "tables_uniq e" "same_evidence d e" "db_tasks e = db_tasks d"
    and "cas_tx eid now tk expected target actor source reason refs e = Inr d'"
    and "target \<notin> {StatusVerificationReady, StatusIntegrationReady, StatusMerging, StatusDone}"
  shows "protocol_inv K d'"
proof (rule inv_op [OF assms(1) cas_tx_tables_uniq [OF assms(2,5)] _ grows_refl])
  show "same_evidence d d'" using assms(3) cas_tx_evidence [OF assms(5)] by (simp add: same_evidence_def)
  show "new_rows_ok d d" using new_rows_ok_def same_artifact_refl by blast
  show "tasks_after (t_id tk) target (db_tasks d) (db_tasks d')"
    using cas_tx_after(1) [OF _ assms(5)] assms(2,4) by (simp add: tables_uniq_def)
  show "status_ok d t" if "t_status t = target" for t
    using that assms(6) by (intro status_ok_free) simp
qed simp

lemma gate_failure_inv:
  assumes "protocol_inv K d" "gate_failure_transaction fresh now tid gate d = Inr (u, d')"
  shows "protocol_inv K d'"
proof -
  from assms(2) obtain tk g eid refs where
    g: "\<forall>x \<in> set (db_gate_runs d). \<not> gate_run_conflict g x"
    and c: "cas_tx eid now tk StatusTestingReady (gate_failure_target (dg_outcome gate)) ''orchestrator''
      ''testing_ready'' ''preliminary gate failed'' refs
      (d\<lparr>db_gate_runs := db_gate_runs d @ [g]\<rparr>) = Inr d'"
    unfolding gate_failure_transaction_def by (auto simp: res_bind_Inr guard_Inr create_Inr Let_def)
  let ?e = "d\<lparr>db_gate_runs := db_gate_runs d @ [g]\<rparr>"
  have u: "tables_uniq ?e"
    using create_tables_uniq(2) [OF invD(1) [OF assms(1)]] g by (simp add: create_Inr)
  show ?thesis
  proof (rule inv_op [OF assms(1) cas_tx_tables_uniq [OF u c] cas_tx_evidence [OF c]])
    show "grows d ?e" by (rule grows_cong) auto
    show "new_rows_ok d ?e" by (auto simp: new_rows_ok_def intro: rev_bexI)
    show "tasks_after (t_id tk) (gate_failure_target (dg_outcome gate)) (db_tasks d) (db_tasks d')"
      using cas_tx_after(1) [OF _ c] u by (simp add: tables_uniq_def)
    show "same_view other d ?e" for other by (rule same_view_cong) simp_all
    show "status_ok ?e t" if "t_status t = gate_failure_target (dg_outcome gate)" for t
      using that by (intro status_ok_free) (simp add: gate_failure_target_def split: if_splits)
  qed
qed

lemma resolve_session_effect:
  assumes "tables_uniq d" "resolve_session sid disp extra actor reason key hsh now d = Inr d'"
  shows "tables_uniq d' \<and> same_evidence d d' \<and> db_tasks d' = db_tasks d"
proof -
  from resolve_session_Inr [OF assms(2)] obtain rows where
    "d' = d\<lparr>db_sessions := rows\<rparr>" "uniq session_conflict (db_sessions d')" by blast
  with assms(1) show ?thesis by (simp add: tables_uniq_def same_evidence_def)
qed

lemma submit_inv:
  assumes "protocol_inv K d" "submit_transaction fresh now hsh req changed d = Inr (b, d')"
  shows "protocol_inv K d'"
  using assms(2)
proof (rule submit_transaction_Inr)
  fix tk s d2
  assume b: "\<forall>x \<in> set (db_submissions d). \<not> submission_conflict b x"
    and r: "resolve_session (hs_id s) HostReworkSubmitted (\<lambda>s. s\<lparr>hs_replacement := sq_commit req\<rparr>)
       (sq_actor req) ''replacement submitted'' (sq_key req) hsh now
       (d\<lparr>db_submissions := db_submissions d @ [b]\<rparr>) = Inr d2"
    and c: "\<exists>refs. cas_tx (fresh ''event'' 0) now tk StatusHostRework StatusTestingReady (sq_actor req)
       (sq_source req) ''host rework replacement submitted for fresh gates'' refs d2 = Inr d'"
  have "tables_uniq (d\<lparr>db_submissions := db_submissions d @ [b]\<rparr>)"
    using create_tables_uniq(7) [OF invD(1) [OF assms(1)]] b by (simp add: create_Inr)
  from resolve_session_effect [OF this r] c show ?thesis
    by (elim exE) (rule plain_move_inv [OF assms(1)], auto simp: same_evidence_def)
qed

lemma abandon_inv:
  assumes "protocol_inv K d" "abandon_transaction fresh now hsh req d = Inr (s', d')"
  shows "protocol_inv K d'"
  using assms(2)
proof (rule abandon_transaction_Inr)
  fix tk s d1
  assume r: "resolve_session (hs_id s) HostReworkOrchestrated (\<lambda>s. s) (bq_actor req) (bq_reason req)
       (bq_key req) hsh now d = Inr d1"
    and c: "\<exists>refs. cas_tx (fresh ''event'' 0) now tk StatusHostRework StatusInProgress (bq_actor req)
       (bq_source req) ''host rework returned to orchestrated implementation'' refs d1 = Inr d'"
  from resolve_session_effect [OF invD(1) [OF assms(1)] r] c show ?thesis
    by (elim exE) (rule plain_move_inv [OF assms(1)], auto)
qed

section \<open>Merging under the invariant\<close>

lemma tbl_first_single: "filter P rows = [r] \<Longrightarrow> tbl_first k P rows = Some r"
  by (simp add: tbl_first_def)

lemma tbl_latest_single: "filter P rows = [r] \<Longrightarrow> tbl_latest cr k P rows = Some r"
  by (simp add: tbl_latest_def)

text \<open>Every lookup of the merge code finds the element of the chain.\<close>

lemma chain_lookup:
  assumes "chain d tid a v au mi"
  shows "current_artifact tid d = Inr a" "latest_passing (da_id a) d = Some v"
    "latest_authorization (da_id a) (vr_id v) d = Some au" "find_intent (ia_id au) d = Some mi"
    "evidence_agrees a v au"
proof -
  note C = assms [unfolded chain_def]
  show "current_artifact tid d = Inr a"
    using C by (simp add: current_artifact_def cur_def tbl_first_single)
  show "latest_passing (da_id a) d = Some v"
    using C by (simp add: latest_passing_def passing_def tbl_latest_single)
  have "filter (\<lambda>x. ia_artifact x = da_id a \<and> ia_verification x = vr_id v) (db_authorizations d)
      = filter (\<lambda>x. ia_verification x = vr_id v) (auths d (da_id a))"
    by (simp add: auths_def conj_commute)
  then show "latest_authorization (da_id a) (vr_id v) d = Some au"
    using C by (simp add: latest_authorization_def tbl_latest_single)
  show "find_intent (ia_id au) d = Some mi"
    using C by (simp add: find_intent_def intents_for_def tbl_first_single)
  show "evidence_agrees a v au"
    using C by (simp add: evidence_complete_for_def evidence_agrees_def)
qed

lemma chain_intent:
  assumes "chain d (t_id tk) a v au mi"
  shows "ensure_merge_intent fresh tk a v au d = (Inr mi, d)"
  using chain_lookup(4) [OF assms] assms
  by (simp add: ensure_merge_intent_def intent_matches_def chain_def evidence_complete_for_def)

lemma merging_chain:
  assumes "protocol_inv K d" "tk \<in> set (db_tasks d)" "t_status tk = StatusMerging"
  obtains a v au mi where "chain d (t_id tk) a v au mi"
  using invD(3) [OF assms(1,2)] assms(3) by (auto simp: status_ok_def)

lemma rewind_inv:
  assumes "protocol_inv K d" "a \<in> set (db_artifacts d)" "da_task a = tid"
    and "rewind_merging fresh now tid StatusInProgress (da_id a) reason d = (res, d')"
  shows "protocol_inv K d'"
  using assms(4) unfolding rewind_merging_def
proof (rule transaction_cases)
  fix r assume "res_bind (load_task tid d) (\<lambda>tk.
     let d1 = (if da_id a \<noteq> uuid_Nil then invalidate_artifact (da_id a) now reason d else d) in
     res_bind (cas_tx (fresh ''event'' 0) now tk StatusMerging StatusInProgress ''orchestrator''
       ''merge_preflight'' reason [(''delivery_artifact_id'', GStr (da_id a))] d1) (\<lambda>d2.
     Inr ((), d2))) = Inr (r, d')"
  then obtain tk eid refs where l: "load_task tid d = Inr tk" and c: "cas_tx eid now tk StatusMerging
      StatusInProgress ''orchestrator'' ''merge_preflight'' reason refs
      (if da_id a \<noteq> uuid_Nil then invalidate_artifact (da_id a) now reason d else d) = Inr d'"
    by (auto simp: res_bind_Inr Let_def)
  show ?thesis
  proof (cases "da_id a = uuid_Nil")
    case True
    with c have c: "cas_tx eid now tk StatusMerging StatusInProgress ''orchestrator''
      ''merge_preflight'' reason refs d = Inr d'" by simp
    show ?thesis
      by (rule plain_move_inv [OF assms(1) invD(1) [OF assms(1)] _ _ c]) (simp_all add: same_evidence_def)
  next
    case False
    with c have c: "cas_tx eid now tk StatusMerging StatusInProgress ''orchestrator''
      ''merge_preflight'' reason refs (invalidate_artifact (da_id a) now reason d) = Inr d'" by simp
    have u: "tables_uniq (invalidate_artifact (da_id a) now reason d)"
      by (rule invalidate_tables_uniq [OF invD(1) [OF assms(1)]])
    have "tasks_after tid StatusInProgress (db_tasks d) (db_tasks d')"
      using cas_tx_after(1) [OF _ c] u load_task_Inr [OF l] by (simp add: tables_uniq_def)
    then show ?thesis
      by (rule reworked_inv [OF assms(1) cas_tx_tables_uniq [OF u c] assms(2,3) cas_tx_evidence [OF c]]) simp
  qed
qed (use assms(1) in simp)

text \<open>On a merging task the preflight never misses evidence: it either passes, or fails to ask
  git, or rewinds to implementation because a ref moved or the branch differs.\<close>

lemma preflight_chain:
  assumes "chain d (t_id tk) a v au mi"
  shows "preflight_merge_artifact fresh now g tk d =
     (if da_branch a \<noteq> t_branch tk then rewound (rewind_merging fresh now (t_id tk) StatusInProgress
          (da_id a) ''delivery_branch_mismatch'' d)
      else case delivery_artifact_drift g tk a of Inl e \<Rightarrow> (Inl e, d)
        | Inr drift \<Rightarrow> if drift \<noteq> [] then rewound (rewind_merging fresh now (t_id tk) StatusInProgress
             (da_id a) drift d) else (Inr True, d))"
  using chain_lookup [OF assms] chain_intent [OF assms]
  by (simp add: preflight_merge_artifact_def Let_def)

lemma rewound_snd: "snd (rewound r) = snd r"
  by (simp add: rewound_def split: prod.splits sum.splits)

lemma preflight_inv:
  assumes "protocol_inv K d" "tk \<in> set (db_tasks d)" "t_status tk = StatusMerging"
  shows "protocol_inv K (snd (preflight_merge_artifact fresh now g tk d))"
proof -
  obtain a v au mi where c: "chain d (t_id tk) a v au mi" by (rule merging_chain [OF assms])
  have a: "a \<in> set (db_artifacts d)" "da_task a = t_id tk"
    using current_artifact_Inr [OF chain_lookup(1) [OF c]] by simp_all
  have "protocol_inv K (snd (rewound (rewind_merging fresh now (t_id tk) StatusInProgress (da_id a) r d)))" for r
    using rewind_inv [OF assms(1) a] by (metis rewound_snd prod.collapse)
  then show ?thesis using assms(1) by (simp add: preflight_chain [OF c] split: sum.splits)
qed

lemma complete_cases:
  assumes "complete_transaction fresh now tid iid sha source d = Inr (c, d')"
  obtains (replay) "d' = d" "c \<in> set (db_completions d)" "mc_task c = tid" "mc_intent c = iid"
      "mc_merge_commit c = sha"
  | (completed) tk mi a v au eid refs where "load_task tid d = Inr tk" "t_status tk = StatusMerging"
      "mi \<in> set (db_intents d)" "mi_id mi = iid" "mi_task mi = t_id tk"
      "current_artifact (t_id tk) d = Inr a" "latest_passing (da_id a) d = Some v"
      "latest_authorization (da_id a) (vr_id v) d = Some au" "evidence_complete_for a v au mi"
      "mc_task c = tid" "completes c mi \<longleftrightarrow> valid_object_id sha" "mc_merge_commit c = sha"
      "\<forall>x \<in> set (db_completions d). \<not> completion_conflict c x"
      "cas_tx eid now tk StatusMerging StatusDone (mc_actor c) (mc_source c) ''authorized artifact merged''
         refs (d\<lparr>db_completions := db_completions d @ [c]\<rparr>) = Inr d'"
proof (cases "tbl_first mc_id (\<lambda>c. mc_task c = tid) (db_completions d)")
  case (Some c0)
  with assms tbl_first_Some [OF Some] show ?thesis
    by (intro replay) (auto simp: complete_transaction_def split: if_splits)
next
  case None
  from assms None obtain tk mi a v au where t: "load_task tid d = Inr tk" "t_status tk = StatusMerging"
      "tbl_first mi_id (\<lambda>m. mi_id m = iid \<and> mi_task m = t_id tk) (db_intents d) = Some mi"
      "current_artifact (t_id tk) d = Inr a" "latest_passing (da_id a) d = Some v"
      "latest_authorization (da_id a) (vr_id v) d = Some au" "evidence_complete_for a v au mi"
    unfolding complete_transaction_def
    by (auto simp: res_bind_Inr guard_Inr of_option_Inr Let_def)
  from tbl_first_Some [OF t(3)] have m: "mi \<in> set (db_intents d)" "mi_id mi = iid" "mi_task mi = t_id tk"
    by simp_all
  have tid: "t_id tk = tid" using load_task_Inr [OF t(1)] by simp
  from assms None t obtain eid refs where c: "c = \<lparr>mc_id = fresh ''completion'' 0, mc_task = t_id tk,
      mc_intent = mi_id mi, mc_artifact = da_id a, mc_verification = vr_id v,
      mc_authorization = ia_id au, mc_commit = da_commit a, mc_base = da_base a,
      mc_merge_commit = sha, mc_actor = ''orchestrator'', mc_source = source\<rparr>"
    "\<forall>x \<in> set (db_completions d). \<not> completion_conflict c x"
    "cas_tx eid now tk StatusMerging StatusDone (mc_actor c) (mc_source c) ''authorized artifact merged''
       refs (d\<lparr>db_completions := db_completions d @ [c]\<rparr>) = Inr d'"
    unfolding complete_transaction_def
    by (auto simp: res_bind_Inr guard_Inr of_option_Inr create_Inr Let_def)
  show ?thesis
    by (rule completed [OF t(1,2) m t(4-7) _ _ _ c(2,3)])
      (use tid m t(7) in \<open>simp_all add: c(1) completes_def evidence_complete_for_def\<close>)
qed

lemma complete_inv:
  assumes "protocol_inv K d" "complete_transaction fresh now tid iid sha source d = Inr (c, d')"
    and "valid_object_id sha"
  shows "protocol_inv K d'"
  using assms(2)
proof (cases rule: complete_cases)
  case replay
  with assms(1) show ?thesis by simp
next
  case (completed tk mi a v au eid refs)
  note tid = load_task_Inr [OF completed(1)]
  let ?e = "d\<lparr>db_completions := db_completions d @ [c]\<rparr>"
  have u: "tables_uniq ?e"
    using create_tables_uniq(9) [OF invD(1) [OF assms(1)]] completed(13) by (simp add: create_Inr)
  show ?thesis
  proof (rule inv_op [OF assms(1) cas_tx_tables_uniq [OF u completed(14)] cas_tx_evidence [OF completed(14)]])
    show "grows d ?e" by (rule grows_cong) auto
    show "new_rows_ok d ?e"
      using completed(3,11) assms(3) by (auto simp: new_rows_ok_def intro: rev_bexI)
    show "tasks_after (t_id tk) StatusDone (db_tasks d) (db_tasks d')"
      using cas_tx_after(1) [OF _ completed(14)] u by (simp add: tables_uniq_def)
    show "same_view other d ?e" for other by (rule same_view_cong) auto
    show "status_ok ?e t" if "t_id t = t_id tk" "t_status t = StatusDone" for t
      using that completed(10) tid by (simp add: status_ok_def)
  qed
qed

lemma complete_authorized_inv:
  assumes "protocol_inv K d"
  shows "protocol_inv K (snd (complete_authorized_merge fresh now tid iid sha source d))"
proof (cases "valid_object_id sha \<and> iid \<noteq> uuid_Nil")
  case True
  obtain res d' where r: "transaction (complete_transaction fresh now tid iid sha source) d = (res, d')"
    by (cases "transaction (complete_transaction fresh now tid iid sha source) d")
  from r have "protocol_inv K d'"
    by (rule transaction_cases) (use assms complete_inv True in auto)
  with True r show ?thesis by (simp add: complete_authorized_merge_def)
next
  case False
  with assms show ?thesis by (auto simp: complete_authorized_merge_def)
qed

lemma recover_inv:
  assumes "protocol_inv K d" "tk \<in> set (db_tasks d)"
  shows "protocol_inv K (snd (recover_authorized_merge fresh now g tk d))"
proof (cases "t_status tk = StatusMerging")
  case True
  obtain a v au mi where c: "chain d (t_id tk) a v au mi" by (rule merging_chain [OF assms True])
  show ?thesis
    using chain_lookup [OF c] chain_intent [OF c, of fresh] True assms(1)
      complete_authorized_inv [OF assms(1), of fresh now "t_id tk" "mi_id mi" _ "''authoritative_target_ref''"]
    by (auto simp: recover_authorized_merge_def split: sum.splits git_out.splits prod.splits)
      (metis snd_conv)+
qed (use assms(1) in \<open>simp add: recover_authorized_merge_def\<close>)

end
