(* ===== verification/Archive.thy ===== *)
theory Archive
  imports Delivery
begin

text \<open>
  Archiving a task, \<open>handleArchiveTask\<close> of \<open>internal/orchhttp/gate_handlers.go\<close>: the handler
  after the request is decoded.  The loaded task, the trimmed request and the answer of
  \<open>archiveAssignmentOK\<close> (no assigned agent that is still working) are arguments.
\<close>

record archive_request =
  aq_actor :: string
  aq_reason :: string
  aq_mode :: string

datatype archive_outcome =
    ArchiveWritten
  | ArchiveBadRequest
  | ArchiveConflict
  | ArchiveInternal err

definition archive_allowed_statuses :: "task_status list" where
  "archive_allowed_statuses =
     [StatusBacklog, StatusPlanning, StatusNeedsClarification, StatusPlanReview, StatusTestReview,
      StatusTestingReady, StatusVerificationReady, StatusHostRework, StatusIntegrationReady,
      StatusPaused, StatusFailed, StatusRejected]"

definition archive_allowed_status :: "task_status \<Rightarrow> bool" where
  "archive_allowed_status s = list_ex (\<lambda>x. s = x) archive_allowed_statuses"

definition archive_artifacts :: "time \<Rightarrow> task \<Rightarrow> db \<Rightarrow> err + db" where
  "archive_artifacts now tk d =
     (if t_status tk = StatusVerificationReady \<or> t_status tk = StatusIntegrationReady then
        let (rows, affected) = tbl_update (\<lambda>a. da_task a = t_id tk \<and> artifact_current a)
              (invalidated now ''task_archived'') (db_artifacts d)
        in if affected \<noteq> 1
           then Inl (ErrMsg ''archive delivery task: expected exactly one current artifact'')
           else Inr (d\<lparr>db_artifacts := rows\<rparr>)
      else Inr d)"

definition cancelled_session ::
  "time \<Rightarrow> archive_request \<Rightarrow> host_rework_session \<Rightarrow> host_rework_session" where
  "cancelled_session now req s = s\<lparr>hs_disposition := HostReworkCancelled,
     hs_terminal_actor := aq_actor req, hs_terminal_reason := aq_reason req,
     hs_finished := Some now, hs_updated := now\<rparr>"

text \<open>The id of the cancelled session, or the empty text.\<close>

definition archive_session :: "time \<Rightarrow> archive_request \<Rightarrow> task \<Rightarrow> db \<Rightarrow> err + string \<times> db" where
  "archive_session now req tk d =
     (if t_status tk = StatusHostRework then
        res_bind (of_option ErrRecordNotFound (tbl_first hs_id
          (\<lambda>s. hs_task s = t_id tk \<and> hs_disposition s = HostReworkActive) (db_sessions d))) (\<lambda>s.
        let (rows, affected) = tbl_update
              (\<lambda>x. hs_id x = hs_id s \<and> hs_disposition x = HostReworkActive)
              (cancelled_session now req) (db_sessions d)
        in if affected \<noteq> 1 then Inl (ErrMsg ''archive host rework session: session changed'')
           else Inr (hs_id s, d\<lparr>db_sessions := rows\<rparr>))
      else Inr ([], d))"

definition archive_event :: "uuid \<Rightarrow> time \<Rightarrow> archive_request \<Rightarrow> string \<Rightarrow> task \<Rightarrow> task_event" where
  "archive_event eid now req worker tk =
     \<lparr>te_id = eid, te_task = t_id tk, te_type = ''task_archived'',
      te_old = task_status_string (t_status tk), te_new = task_status_string StatusCancelled,
      te_details = Some [''actor'' \<mapsto> GStr (aq_actor req), ''reason'' \<mapsto> GStr (aq_reason req),
        ''mode'' \<mapsto> GStr (aq_mode req), ''obsolete'' \<mapsto> GBool True,
        ''previous_worker_id'' \<mapsto> GStr worker, ''archived_at'' \<mapsto> GTime now],
      te_actor = aq_actor req, te_created = now\<rparr>"

definition archive_transaction ::
  "fresh \<Rightarrow> time \<Rightarrow> archive_request \<Rightarrow> task \<Rightarrow> db \<Rightarrow> err + unit \<times> db" where
  "archive_transaction fresh now req tk d =
     (let worker = (case t_agent tk of None \<Rightarrow> [] | Some w \<Rightarrow> w) in
      res_bind (archive_artifacts now tk d) (\<lambda>d1.
      res_bind (archive_session now req tk d1) (\<lambda>(sid, d2).
      res_bind (cas_tx (fresh ''event'' 0) now (tk\<lparr>t_agent := None\<rparr>) (t_status tk) StatusCancelled
        (aq_actor req) ''archive_api'' (aq_reason req)
        [(''mode'', GStr (aq_mode req)), (''obsolete'', GBool True),
         (''previous_worker_id'', GStr worker), (''host_rework_session_id'', GStr sid)] d2) (\<lambda>d3.
      res_bind (create_event (archive_event (fresh ''archive event'' 0) now req worker tk) d3) (\<lambda>d4.
      Inr ((), d4))))))"

definition archive_task ::
  "fresh \<Rightarrow> time \<Rightarrow> archive_request \<Rightarrow> bool \<Rightarrow> task \<Rightarrow> db \<Rightarrow> archive_outcome \<times> db" where
  "archive_task fresh now req assignment_ok tk d =
     (if aq_reason req = [] then (ArchiveBadRequest, d)
      else if t_status tk = StatusCancelled then (ArchiveWritten, d)
      else if \<not> archive_allowed_status (t_status tk) \<or> \<not> assignment_ok then (ArchiveConflict, d)
      else case transaction (archive_transaction fresh now req tk) d of
        (Inl ErrStaleTransition, d') \<Rightarrow> (ArchiveConflict, d')
      | (Inl e, d') \<Rightarrow> (ArchiveInternal e, d')
      | (Inr _, d') \<Rightarrow> (ArchiveWritten, d'))"

lemma archive_artifacts_Inr:
  assumes "uniq artifact_conflict (db_artifacts d)" "archive_artifacts now tk d = Inr d'"
  shows "d' = d \<or> (\<exists>a \<in> set (db_artifacts d). da_task a = t_id tk
    \<and> d' = invalidate_artifact (da_id a) now ''task_archived'' d)"
proof (cases "t_status tk = StatusVerificationReady \<or> t_status tk = StatusIntegrationReady")
  case True
  let ?P = "\<lambda>a. da_task a = t_id tk \<and> artifact_current a"
  from assms(2) True have one: "length (filter ?P (db_artifacts d)) = 1"
    and d': "d' = d\<lparr>db_artifacts := map (\<lambda>a. if ?P a then invalidated now ''task_archived'' a else a)
        (db_artifacts d)\<rparr>"
    by (simp_all add: archive_artifacts_def tbl_update_def Let_def split: if_splits)
  from length_filter_one [OF one] obtain a where a: "a \<in> set (db_artifacts d)" "?P a" by blast
  have "?P b \<longleftrightarrow> da_id b = da_id a \<and> artifact_current b" if "b \<in> set (db_artifacts d)" for b
  proof
    assume "?P b"
    with a have "artifact_conflict b a" by (simp add: artifact_conflict_def)
    from artifacts.uniq_eq [OF assms(1) that a(1) this] \<open>?P b\<close>
    show "da_id b = da_id a \<and> artifact_current b" by simp
  next
    assume b: "da_id b = da_id a \<and> artifact_current b"
    then have "artifact_conflict b a" by (simp add: artifact_conflict_def)
    from artifacts.uniq_eq [OF assms(1) that a(1) this] a b show "?P b" by simp
  qed
  then have "d' = invalidate_artifact (da_id a) now ''task_archived'' d"
    by (simp add: d' invalidate_artifact_def tbl_update_def cong: map_cong)
  with a show ?thesis by blast
next
  case False
  with assms(2) show ?thesis by (simp add: archive_artifacts_def)
qed

lemma archive_session_Inr:
  assumes "archive_session now req tk d = Inr (sid, d')"
  shows "\<exists>rows. d' = d\<lparr>db_sessions := rows\<rparr>
    \<and> (uniq session_conflict (db_sessions d) \<longrightarrow> uniq session_conflict rows)"
proof (cases "t_status tk = StatusHostRework")
  case True
  with assms obtain s where s: "tbl_first hs_id (\<lambda>s. hs_task s = t_id tk
      \<and> hs_disposition s = HostReworkActive) (db_sessions d) = Some s"
    by (auto simp: archive_session_def res_bind_Inr of_option_Inr)
  with assms True have d': "d' = d\<lparr>db_sessions := map (\<lambda>x. if hs_id x = hs_id s
      \<and> hs_disposition x = HostReworkActive then cancelled_session now req x else x) (db_sessions d)\<rparr>"
    by (auto simp: archive_session_def tbl_update_def Let_def split: if_splits)
  moreover have "uniq session_conflict (db_sessions d) \<longrightarrow> uniq session_conflict (db_sessions d')"
    unfolding d' by (intro impI, simp, rule sessions.update_uniq)
      (auto simp: session_conflict_def cancelled_session_def split: if_splits)
  ultimately show ?thesis by (intro exI [of _ "db_sessions d'"]) simp
next
  case False
  with assms show ?thesis
    by (intro exI [of _ "db_sessions d"]) (simp add: archive_session_def)
qed

end
