(* ===== verification/DeliverySteps.thy ===== *)
theory DeliverySteps
  imports DeliveryProtocol Archive
begin

text \<open>
  The step relation of the orchestrator's database: every delivery operation, every other status
  change and every edit that leaves status, version and parent of the tasks alone; the invariant
  holds in every reachable database, and with it the safety properties of delivery.
\<close>

section \<open>Changes outside the delivery tables\<close>

text \<open>A task that needs no evidence of its own: it is in none of the delivery statuses, or it is a
  finished subtask.\<close>

definition unbound :: "task \<Rightarrow> bool" where
  "unbound t \<longleftrightarrow> t_status t \<notin> {StatusVerificationReady, StatusIntegrationReady, StatusMerging, StatusDone}
     \<or> (t_status t = StatusDone \<and> t_parent t \<noteq> None)"

lemma unbound_ok: "unbound t \<Longrightarrow> status_ok d t"
  by (auto simp: unbound_def status_ok_def)

lemma quiet_inv:
  assumes "protocol_inv K d" "tables_uniq d'" "same_evidence d d'"
    and "\<And>t'. t' \<in> set (db_tasks d') \<Longrightarrow> unbound t' \<or> (\<exists>t \<in> set (db_tasks d). same_lifecycle t t')"
  shows "protocol_inv K d'"
proof -
  have "status_ok d' t'" if t': "t' \<in> set (db_tasks d')" for t'
    using assms(4) [OF t']
  proof
    assume "\<exists>t \<in> set (db_tasks d). same_lifecycle t t'"
    then obtain t where "t \<in> set (db_tasks d)" "same_lifecycle t t'" by blast
    with status_ok_view [OF invD(3) [OF assms(1)] _ same_evidence_view [OF assms(3)]] show ?thesis
      by blast
  qed (rule unbound_ok)
  moreover have "provenance d'"
    by (rule provenance_step [OF invD(2) [OF assms(1)] same_evidence_grows [OF assms(3)]
          same_evidence_new_rows [OF invD(2) [OF assms(1)] assms(3)]])
  moreover have "grows K d'"
    using assms(1) by (intro grows_trans [OF _ same_evidence_grows [OF assms(3)]])
      (simp add: protocol_inv_def)
  ultimately show ?thesis using assms(2) by (simp add: protocol_inv_def)
qed

lemma same_lifecycle_refl [simp]: "same_lifecycle t t"
  by (simp add: same_lifecycle_def)

lemma create_task_inv:
  assumes "protocol_inv K d" "create_task t d = Inr d'" "unbound t"
  shows "protocol_inv K d'"
proof (rule quiet_inv [OF assms(1)])
  show "tables_uniq d'"
    using assms(2) invD(1) [OF assms(1)]
    by (auto simp: tables_uniq_def create_defs res_bind_Inr intro: tasks.create_uniq)
  show "same_evidence d d'" using assms(2) by (simp add: same_evidence_def create_Inr)
  show "unbound t' \<or> (\<exists>t \<in> set (db_tasks d). same_lifecycle t t')" if "t' \<in> set (db_tasks d')" for t'
    using that assms(2,3) by (auto simp: create_Inr intro: rev_bexI)
qed

lemma create_event_inv:
  assumes "protocol_inv K d" "create_event ev d = Inr d'"
  shows "protocol_inv K d'"
proof (rule quiet_inv [OF assms(1)])
  show "tables_uniq d'"
    using assms(2) invD(1) [OF assms(1)]
    by (auto simp: tables_uniq_def create_defs res_bind_Inr intro: events.create_uniq)
qed (use assms(2) in \<open>auto simp: same_evidence_def create_Inr intro: rev_bexI\<close>)

lemma same_lifecycle_ids: "list_all2 same_lifecycle ts ts' \<Longrightarrow> map t_id ts' = map t_id ts"
  by (induction ts ts' rule: list_all2_induct) (simp_all add: same_lifecycle_def)

lemma same_lifecycle_origin:
  "\<lbrakk>list_all2 same_lifecycle ts ts'; t' \<in> set ts'\<rbrakk> \<Longrightarrow> \<exists>t \<in> set ts. same_lifecycle t t'"
  by (induction ts ts' rule: list_all2_induct) auto

lemma task_uniq_ids: "uniq task_conflict ts \<longleftrightarrow> distinct (map t_id ts)"
  by (induction ts) (auto simp: uniq_def task_conflict_def)

lemma edit_inv:
  assumes "protocol_inv K d" "list_all2 same_lifecycle (db_tasks d) ts"
  shows "protocol_inv K (d\<lparr>db_tasks := ts\<rparr>)"
proof (rule quiet_inv [OF assms(1)])
  show "tables_uniq (d\<lparr>db_tasks := ts\<rparr>)"
    using invD(1) [OF assms(1)] same_lifecycle_ids [OF assms(2)]
    by (simp add: tables_uniq_def task_uniq_ids)
  show "unbound t' \<or> (\<exists>t \<in> set (db_tasks d). same_lifecycle t t')"
    if "t' \<in> set (db_tasks (d\<lparr>db_tasks := ts\<rparr>))" for t'
    using that same_lifecycle_origin [OF assms(2)] by simp
qed (simp add: same_evidence_def)

lemma workers_inv:
  assumes "protocol_inv K d"
  shows "protocol_inv K (d\<lparr>db_attempts := ws\<rparr>)"
  by (rule quiet_inv [OF assms])
    (use invD(1) [OF assms] in \<open>auto simp: same_evidence_def tables_uniq_def intro: rev_bexI\<close>)

definition delete_task :: "uuid \<Rightarrow> db \<Rightarrow> db" where
  "delete_task tid d = d\<lparr>db_tasks := filter (\<lambda>t. t_id t \<noteq> tid) (db_tasks d),
     db_events := filter (\<lambda>e. te_task e \<noteq> tid) (db_events d)\<rparr>"

lemma uniq_filter: "uniq c rows \<Longrightarrow> uniq c (filter P rows)"
  by (simp add: uniq_def sorted_wrt_filter)

lemma delete_inv:
  assumes "protocol_inv K d"
  shows "protocol_inv K (delete_task tid d)"
  by (rule quiet_inv [OF assms])
    (use invD(1) [OF assms] in \<open>auto simp: delete_task_def same_evidence_def tables_uniq_def
      intro: uniq_filter rev_bexI\<close>)

section \<open>Swaps outside the table\<close>

text \<open>An update of matched task rows with one appended event, as all swaps of subtasks do it.\<close>

lemma swap_inv:
  assumes "protocol_inv K d" "tbl_create event_conflict ev (db_events d) = Inr evs"
    and "d' = d\<lparr>db_tasks := map (\<lambda>r. if P r then f r else r) (db_tasks d), db_events := evs\<rparr>"
    and "\<And>r. t_id (f r) = t_id r"
    and "\<And>r. \<lbrakk>r \<in> set (db_tasks d); P r\<rbrakk> \<Longrightarrow> unbound (f r)"
  shows "protocol_inv K d'"
proof (rule quiet_inv [OF assms(1)])
  have "map t_id (map (\<lambda>r. if P r then f r else r) (db_tasks d)) = map t_id (db_tasks d)"
    by (simp add: assms(4))
  moreover have "uniq event_conflict evs"
    using assms(2) invD(1) [OF assms(1)] by (auto simp: tables_uniq_def intro: events.create_uniq)
  ultimately show "tables_uniq d'"
    using invD(1) [OF assms(1)] by (simp add: tables_uniq_def task_uniq_ids assms(3) del: map_map)
  show "same_evidence d d'" by (simp add: assms(3) same_evidence_def)
  show "unbound t' \<or> (\<exists>t \<in> set (db_tasks d). same_lifecycle t t')" if "t' \<in> set (db_tasks d')" for t'
    using that assms(5) by (auto simp: assms(3) intro: rev_bexI)
qed

text \<open>A row that matches a task of the same table is a subtask when that task is one.\<close>

lemma matched_parent:
  assumes "protocol_inv K d" "row \<in> set (db_tasks d)" "same_lifecycle row tk" "r \<in> set (db_tasks d)"
    and "t_id r = t_id tk"
  shows "t_parent r = t_parent tk"
proof -
  have "r = row"
    by (rule tasks.uniq_eq [OF tables_uniqD(1) [OF invD(1) [OF assms(1)]] assms(4,2)])
      (use assms(3,5) in \<open>simp add: task_conflict_def same_lifecycle_def\<close>)
  with assms(3) show ?thesis by (simp add: same_lifecycle_def)
qed

lemma subtask_columns_unbound:
  "t_parent r \<noteq> None \<Longrightarrow> unbound (subtask_done_columns tk v r)"
  by (simp add: unbound_def subtask_done_columns_def)

lemma subtask_done_inv:
  assumes "protocol_inv K d" "cas_subtask_done v s (tk1, ev) d = (tk', Inr d')"
    and "row \<in> set (db_tasks d)" "same_lifecycle row tk" "t_id tk1 = t_id tk" "t_parent tk \<noteq> None"
  shows "protocol_inv K d'"
proof -
  from assms(2) obtain evs where e: "tbl_create event_conflict ev (db_events d) = Inr evs"
    and d': "d' = d\<lparr>db_tasks := map (\<lambda>r. if t_id r = t_id tk1 \<and> t_status r = s \<and> t_version r = v
        then subtask_done_columns tk1 (v + 1) r else r) (db_tasks d), db_events := evs\<rparr>"
    by (auto simp: cas_subtask_done_def tbl_update_def Let_def split: if_splits sum.splits)
  show ?thesis
    by (rule swap_inv [OF assms(1) e d'])
      (use assms(5,6) matched_parent [OF assms(1,3,4)] in
        \<open>auto simp: subtask_done_columns_def intro!: subtask_columns_unbound [unfolded subtask_done_columns_def]\<close>)
qed

lemma records_id: "records_transition tk tk' ev \<Longrightarrow> t_id tk' = t_id tk"
  unfolding records_transition_def by (cases tk, cases tk') simp

lemma subtask_completion_inv:
  assumes "protocol_inv K d" "row \<in> set (db_tasks d)" "same_lifecycle row tk"
    and "cas_subtask_completion eid now tk actor refs d = (tk', Inr d')
       \<or> cas_accepted_existing_subtask eid now tk refs d = (tk', Inr d')"
  shows "protocol_inv K d'"
proof -
  from assms(4) obtain tk1 ev v s where "cas_subtask_done v s (tk1, ev) d = (tk', Inr d')"
    and "records_transition tk tk1 ev" "t_parent tk \<noteq> None"
    by (auto simp: cas_subtask_completion_def cas_accepted_existing_subtask_def
        guarded_complete_subtask_def guarded_accept_existing_subtask_def
        dest!: guarded_unchecked_Inr split: sum.splits if_splits)
  with subtask_done_inv [OF assms(1) _ assms(2,3)] records_id show ?thesis by blast
qed

lemma adoption_inv:
  assumes "protocol_inv K d" "row \<in> set (db_tasks d)" "same_lifecycle row tk"
    and "cas_codex_adopted_subtask eid now tk actor refs d = (tk', Inr d')"
  shows "protocol_inv K d'"
proof -
  from assms(4) obtain tk1 ev evs where "t_parent tk \<noteq> None"
    and e: "tbl_create event_conflict ev (db_events d) = Inr evs"
    and d': "d' = d\<lparr>db_tasks := map (\<lambda>r. if cas_match tk StatusFailed r
        then subtask_done_columns tk1 (Suc (t_version tk)) r else r) (db_tasks d), db_events := evs\<rparr>"
    by (auto simp: cas_codex_adopted_subtask_def guarded_adopt_failed_subtask_def tbl_update_def
        Let_def dest!: guarded_unchecked_Inr split: sum.splits if_splits)
  then show ?thesis
    using matched_parent [OF assms(1,2,3)]
    by (intro swap_inv [OF assms(1) e d'])
      (auto simp: cas_match_def subtask_done_columns_def unbound_def)
qed

lemma invalidate_completed_inv:
  assumes "protocol_inv K d"
    and "cas_invalidate_completed_test_subtask eid now tk target actor reason refs d = (tk', Inr d')"
  shows "protocol_inv K d'"
proof -
  from assms(2) obtain tk1 ev where g: "guarded_invalidate_completed_test_subtask eid now (Some tk)
      \<lparr>req_target = target, req_actor = actor, req_expected = StatusDone, req_observed = None,
       req_evidence = \<lparr>ev_task = t_id tk, ev_attempt = uuid_Nil, ev_actor = actor,
         ev_source = ''review_gate'', ev_reason = reason, ev_normalized = [],
         ev_timestamp = now, ev_references = refs\<rparr>\<rparr> = Inr (tk1, ev)"
    by (auto simp: cas_invalidate_completed_test_subtask_def split: sum.splits)
  then have t: "t_status tk1 = StatusRejected \<or> t_status tk1 = StatusFailed"
    by (auto simp: guarded_invalidate_completed_test_subtask_def dest!: guarded_unchecked_Inr
        split: if_splits)
  define tk2 where "tk2 = tk1\<lparr>t_version := t_version tk + 1, t_agent := None\<rparr>"
  from assms(2) obtain evs where e: "tbl_create event_conflict ev (db_events d) = Inr evs"
    and d': "d' = d\<lparr>db_tasks := map (\<lambda>row. if cas_match tk StatusDone row
        then row\<lparr>t_status := t_status tk2, t_version := t_version tk2, t_agent := None,
                   t_context := t_context tk2, t_updated := t_updated tk2\<rparr> else row) (db_tasks d),
        db_events := evs\<rparr>"
    unfolding cas_invalidate_completed_test_subtask_def g sum.case prod.case tk2_def [symmetric]
    by (auto simp: tbl_update_def Let_def split: sum.splits if_splits)
  show ?thesis
    by (rule swap_inv [OF assms(1) e d']) (use t in \<open>auto simp: unbound_def tk2_def\<close>)
qed

lemma claim_inv:
  assumes "protocol_inv K d"
    and "cas_claim_in_progress_subtask eid now tko agent actor source d = (tko', Inr d')"
  shows "protocol_inv K d'"
proof (cases tko)
  case (Some tk)
  define tk1 where "tk1 = tk\<lparr>t_agent := Some agent, t_version := t_version tk + 1, t_updated := now\<rparr>"
  from assms(2) obtain ev evs where e: "tbl_create event_conflict ev (db_events d) = Inr evs"
    and d': "d' = d\<lparr>db_tasks := map (\<lambda>r. if cas_match tk StatusInProgress r \<and> t_agent r = None
        then r\<lparr>t_agent := Some agent, t_version := t_version tk1, t_updated := now\<rparr> else r) (db_tasks d),
        db_events := evs\<rparr>"
    unfolding cas_claim_in_progress_subtask_def Some option.case tk1_def [symmetric]
    by (auto simp: tbl_update_def Let_def split: sum.splits if_splits)
  show ?thesis
    by (rule swap_inv [OF assms(1) e d']) (auto simp: unbound_def cas_match_def)
qed (use assms(2) in \<open>simp add: cas_claim_in_progress_subtask_def\<close>)

lemma archive_inv:
  assumes "protocol_inv K d" "archive_transaction fresh now req tk d = Inr (u, d')"
  shows "protocol_inv K d'"
proof -
  from assms(2) obtain d1 sid d2 eid refs d3 ev where a: "archive_artifacts now tk d = Inr d1"
    and s: "archive_session now req tk d1 = Inr (sid, d2)"
    and c: "cas_tx eid now (tk\<lparr>t_agent := None\<rparr>) (t_status tk) StatusCancelled
        (aq_actor req) ''archive_api'' (aq_reason req) refs d2 = Inr d3"
    and e: "create_event ev d3 = Inr d'"
    by (auto simp: archive_transaction_def res_bind_Inr Let_def)
  note U = invD(1) [OF assms(1)]
  note A = archive_artifacts_Inr [OF tables_uniqD(2) [OF U] a]
  have u1: "tables_uniq d1" using A U invalidate_tables_uniq by blast
  have t1: "db_tasks d1 = db_tasks d" using A by auto
  have d2: "tables_uniq d2" "same_evidence d1 d2" "db_tasks d2 = db_tasks d1"
    using archive_session_Inr [OF s] u1 by (auto simp: tables_uniq_def same_evidence_def)
  have e3: "same_evidence d1 d3" using d2(2) cas_tx_evidence [OF c] by (simp add: same_evidence_def)
  have ta: "tasks_after (t_id tk) StatusCancelled (db_tasks d) (db_tasks d3)"
    using cas_tx_after(1) [OF _ c] d2 t1 by (simp add: tables_uniq_def)
  have "protocol_inv K d3"
    using A
  proof
    assume "d1 = d"
    then show ?thesis using plain_move_inv [OF assms(1) d2(1) _ _ c] d2 by simp
  next
    assume "\<exists>a \<in> set (db_artifacts d). da_task a = t_id tk
      \<and> d1 = invalidate_artifact (da_id a) now ''task_archived'' d"
    then obtain a where "a \<in> set (db_artifacts d)" "da_task a = t_id tk"
      "d1 = invalidate_artifact (da_id a) now ''task_archived'' d" by blast
    with reworked_inv [OF assms(1) cas_tx_tables_uniq [OF d2(1) c] _ _ _ ta] e3 show ?thesis by simp
  qed
  then show ?thesis by (rule create_event_inv [OF _ e])
qed

section \<open>The step relation\<close>

text \<open>The status changes of the rest of the orchestrator reach every status but these.  The records of the
  worker attempts may change in any way.\<close>

definition delivery_status :: "task_status \<Rightarrow> bool" where
  "delivery_status s \<longleftrightarrow>
     s \<in> {StatusVerificationReady, StatusIntegrationReady, StatusMerging, StatusDone}"

inductive delivery_step :: "db \<Rightarrow> db \<Rightarrow> bool" where
  create_task: "\<lbrakk>t_status t \<in> {StatusClassifying, StatusBacklog}; create_task t d = Inr d'\<rbrakk>
     \<Longrightarrow> delivery_step d d'"
| create_event: "create_event ev d = Inr d' \<Longrightarrow> delivery_step d d'"
| edit: "list_all2 same_lifecycle (db_tasks d) ts \<Longrightarrow> delivery_step d (d\<lparr>db_tasks := ts\<rparr>)"
| delete: "delivery_step d (delete_task tid d)"
| move: "\<lbrakk>\<not> delivery_status target;
     cas_task_transition eid now tk expected target actor source reason refs d = (tk', Inr d')\<rbrakk>
     \<Longrightarrow> delivery_step d d'"
| complete_subtask: "\<lbrakk>row \<in> set (db_tasks d); same_lifecycle row tk;
     cas_subtask_completion eid now tk actor refs d = (tk', Inr d')\<rbrakk> \<Longrightarrow> delivery_step d d'"
| accept_existing: "\<lbrakk>row \<in> set (db_tasks d); same_lifecycle row tk;
     cas_accepted_existing_subtask eid now tk refs d = (tk', Inr d')\<rbrakk> \<Longrightarrow> delivery_step d d'"
| adopt: "\<lbrakk>row \<in> set (db_tasks d); same_lifecycle row tk;
     cas_codex_adopted_subtask eid now tk actor refs d = (tk', Inr d')\<rbrakk> \<Longrightarrow> delivery_step d d'"
| invalidate_test: "cas_invalidate_completed_test_subtask eid now tk target actor reason refs d
     = (tk', Inr d') \<Longrightarrow> delivery_step d d'"
| claim: "cas_claim_in_progress_subtask eid now tko agent actor source d = (tko', Inr d')
     \<Longrightarrow> delivery_step d d'"
| freeze: "freeze_delivery_artifact fresh now tid s d = (res1, d') \<Longrightarrow> delivery_step d d'"
| gate_failure: "record_preliminary_gate_failure fresh now tid gate d = (res2, d') \<Longrightarrow> delivery_step d d'"
| verify: "verify_delivery fresh now vhash vreq d = (res3, d') \<Longrightarrow> delivery_step d d'"
| authorize: "authorize_integration fresh now ihash g ireq d = (res4, d') \<Longrightarrow> delivery_step d d'"
| rework: "request_delivery_rework fresh now rhash rreq d = (res5, d') \<Longrightarrow> delivery_step d d'"
| submit: "submit_host_rework fresh now shash g sreq d0 d = (res6, d') \<Longrightarrow> delivery_step d d'"
| abandon: "abandon_host_rework fresh now ahash areq d = (res7, d') \<Longrightarrow> delivery_step d d'"
| preflight: "\<lbrakk>tk \<in> set (db_tasks d); t_status tk = StatusMerging;
     preflight_merge_artifact fresh now g tk d = (res8, d')\<rbrakk> \<Longrightarrow> delivery_step d d'"
| complete: "complete_authorized_merge fresh now tid iid sha source d = (res9, d')
     \<Longrightarrow> delivery_step d d'"
| recover: "\<lbrakk>tk \<in> set (db_tasks d); recover_authorized_merge fresh now g tk d = (res10, d')\<rbrakk>
     \<Longrightarrow> delivery_step d d'"
| archive: "archive_task fresh now qreq ok tk d = (res11, d') \<Longrightarrow> delivery_step d d'"
| workers: "delivery_step d (d\<lparr>db_attempts := ws\<rparr>)"

definition empty_db :: db where
  "empty_db = \<lparr>db_tasks = [], db_events = [], db_artifacts = [], db_gate_runs = [],
     db_verifications = [], db_interactions = [], db_authorizations = [], db_reworks = [],
     db_sessions = [], db_submissions = [], db_intents = [], db_completions = [],
     db_attempts = [], db_specifications = [], db_criteria = []\<rparr>"

inductive reachable :: "db \<Rightarrow> bool" where
  initial: "reachable empty_db"
| step: "\<lbrakk>reachable d; delivery_step d d'\<rbrakk> \<Longrightarrow> reachable d'"

inductive_cases delivery_stepE: "delivery_step d d'"

section \<open>The invariant of reachable databases\<close>

lemma verify_result_closed:
  "validate_verify_request req = Inr () \<Longrightarrow>
     vq_result req = VerificationPassed \<or> vq_result req = VerificationFailed"
  by (auto simp: validate_verify_request_def guard_Inr)

lemma freeze_step:
  assumes "protocol_inv K d" "freeze_delivery_artifact fresh now tid s d = (res, d')"
  shows "protocol_inv K d'"
proof (cases "validate_artifact_snapshot s")
  case (Inr u)
  with assms(2) have "transaction (freeze_transaction fresh now tid s) d = (res, d')"
    by (simp add: freeze_delivery_artifact_def)
  then show ?thesis by (rule transaction_cases) (use assms(1) freeze_inv in blast)+
qed (use assms in \<open>simp add: freeze_delivery_artifact_def\<close>)

lemma gate_failure_step:
  assumes "protocol_inv K d" "record_preliminary_gate_failure fresh now tid gate d = (res, d')"
  shows "protocol_inv K d'"
proof (cases "transaction (gate_failure_transaction fresh now tid gate) d = (res, d')")
  case True
  then show ?thesis by (rule transaction_cases) (use assms(1) gate_failure_inv in blast)+
next
  case False
  with assms show ?thesis
    by (auto simp: record_preliminary_gate_failure_def Let_def split: if_splits sum.splits)
qed

lemma verify_step:
  assumes "protocol_inv K d" "verify_delivery fresh now hash req0 d = (res, d')"
  shows "protocol_inv K d'"
proof -
  define req where "req = normalize_verify_request req0"
  show ?thesis
  proof (cases "validate_verify_request req")
    case (Inr u)
    with assms(2) have "transaction (verify_transaction fresh now (hash req) req) d = (res, d')"
      by (simp add: verify_delivery_def req_def Let_def)
    then show ?thesis
      by (rule transaction_cases)
        (use assms(1) verify_fresh_inv verify_result_closed Inr in
          \<open>auto simp: verify_transaction_def split: option.splits if_splits\<close>)
  qed (use assms in \<open>simp add: verify_delivery_def req_def Let_def\<close>)
qed

lemma authorize_step:
  assumes "protocol_inv K d" "authorize_integration fresh now hash g req d = (res, d')"
  shows "protocol_inv K d'"
proof (cases "validate_integrate_request req")
  case (Inr u)
  obtain r d1 where t: "transaction (authorize_transaction fresh now (hash req) g req) d = (r, d1)"
    by (cases "transaction (authorize_transaction fresh now (hash req) g req) d")
  with assms(2) Inr have "d' = d1" by (auto simp: authorize_integration_def split: sum.splits)
  moreover from t have "protocol_inv K d1"
    by (rule transaction_cases)
      (use assms(1) authorize_fresh_inv in
        \<open>auto simp: authorize_transaction_def split: option.splits if_splits\<close>)
  ultimately show ?thesis by simp
qed (use assms in \<open>simp add: authorize_integration_def\<close>)

lemma rework_step:
  assumes "protocol_inv K d" "request_delivery_rework fresh now hash req d = (res, d')"
  shows "protocol_inv K d'"
proof (cases "validate_rework_request req")
  case (Inr u)
  with assms(2) have "transaction (rework_transaction fresh now (hash req) req) d = (res, d')"
    by (simp add: request_delivery_rework_def)
  then show ?thesis
    by (rule transaction_cases)
      (use assms(1) rework_fresh_inv in
        \<open>auto simp: rework_transaction_def split: option.splits if_splits\<close>)
qed (use assms in \<open>simp add: request_delivery_rework_def\<close>)

lemma submit_step:
  assumes "protocol_inv K d" "submit_host_rework fresh now hash g req d0 d = (res, d')"
  shows "protocol_inv K d'"
proof (cases "\<exists>changed. transaction (submit_transaction fresh now (hash req) req changed) d = (res, d')")
  case True
  then obtain changed where
    "transaction (submit_transaction fresh now (hash req) req changed) d = (res, d')" by blast
  then show ?thesis by (rule transaction_cases) (use assms(1) submit_inv in blast)+
next
  case False
  with assms show ?thesis
    by (auto simp: submit_host_rework_def split: if_splits sum.splits option.splits)
qed

lemma abandon_step:
  assumes "protocol_inv K d" "abandon_host_rework fresh now hash req d = (res, d')"
  shows "protocol_inv K d'"
proof (cases "transaction (abandon_transaction fresh now (hash req) req) d = (res, d')")
  case True
  then show ?thesis by (rule transaction_cases) (use assms(1) abandon_inv in blast)+
next
  case False
  with assms show ?thesis
    by (auto simp: abandon_host_rework_def split: if_splits sum.splits option.splits)
qed

lemma archive_step:
  assumes "protocol_inv K d" "archive_task fresh now req ok tk d = (res, d')"
  shows "protocol_inv K d'"
proof -
  obtain r d1 where t: "transaction (archive_transaction fresh now req tk) d = (r, d1)"
    by (cases "transaction (archive_transaction fresh now req tk) d")
  then have "protocol_inv K d1" by (rule transaction_cases) (use assms(1) archive_inv in blast)+
  moreover have "d' = d \<or> d' = d1"
    using assms(2) t by (auto simp: archive_task_def split: if_splits sum.splits err.splits)
  ultimately show ?thesis using assms(1) by blast
qed

lemma move_step:
  assumes "protocol_inv K d" "\<not> delivery_status target"
    and "cas_task_transition eid now tk expected target actor source reason refs d = (tk', Inr d')"
  shows "protocol_inv K d'"
proof (rule plain_move_inv [OF assms(1) invD(1) [OF assms(1)]])
  show "cas_tx eid now tk expected target actor source reason refs d = Inr d'"
    using assms(3) by (simp add: cas_tx_def)
qed (use assms(2) in \<open>simp_all add: same_evidence_def delivery_status_def\<close>)

lemma delivery_step_inv:
  assumes "delivery_step d d'" "protocol_inv K d"
  shows "protocol_inv K d'"
  using assms
proof (induction rule: delivery_step.induct)
  case (create_task t d d')
  then show ?case by (intro create_task_inv [OF _ create_task(2)]) (auto simp: unbound_def)
next
  case (preflight tk d fresh now g res8 d')
  then show ?case using preflight_inv [of K d tk fresh now g] by simp
next
  case (complete fresh now tid iid sha source d res9 d')
  then show ?case using complete_authorized_inv [of K d fresh now tid iid sha source] by simp
next
  case (recover tk d fresh now g res10 d')
  then show ?case using recover_inv [of K d tk fresh now g] by simp
qed (blast intro: create_event_inv edit_inv delete_inv move_step subtask_completion_inv adoption_inv
    invalidate_completed_inv claim_inv freeze_step gate_failure_step verify_step authorize_step
    rework_step submit_step abandon_step archive_step workers_inv)+

lemma empty_inv: "protocol_inv empty_db empty_db"
  by (simp add: protocol_inv_def empty_db_def tables_uniq_def provenance_def uniq_def)

lemma reachable_inv: "reachable d \<Longrightarrow> protocol_inv empty_db d"
  by (induction rule: reachable.induct) (auto intro: empty_inv delivery_step_inv)

end
