(* ===== verification/DeliveryRun.thy ===== *)
theory DeliveryRun
  imports DeliverySteps
begin

text \<open>
  A complete run of the step relation on one task, from its creation to the completed merge; the
  properties of reachable databases are applied to its databases.
\<close>

definition run_task :: "task_status \<Rightarrow> nat \<Rightarrow> task" where
  "run_task s v = sample_task\<lparr>t_status := s, t_version := v, t_updated := 9\<rparr>"

definition run_fresh :: "nat \<Rightarrow> fresh" where
  "run_fresh n s k = s @ replicate n CHR ''x''"

definition run_snapshot :: artifact_snapshot where
  "run_snapshot = \<lparr>as_branch = ''feature/x'', as_commit = sample_sha, as_base_branch = ''main'',
     as_base = sample_sha, as_workspace = ''/w'', as_environment = ''linux'',
     as_evidence = [sample_command], as_actor = ''orchestrator'', as_source = ''testing_ready''\<rparr>"

definition run_gate :: preliminary_gate_run where
  "run_gate = passed_gate_run (run_fresh 3 ''gate run'' 0) (run_task StatusTestingReady 3) run_snapshot"

definition run_artifact :: delivery_artifact where
  "run_artifact = frozen_artifact (run_fresh 3 ''artifact'' 0) (gr_id run_gate) 9 1
     (run_task StatusTestingReady 3) run_snapshot"

definition run_verify :: verify_request where
  "run_verify = sample_verify\<lparr>vq_observed := 4\<rparr>"

definition run_verification :: verification_record where
  "run_verification = \<lparr>vr_id = run_fresh 4 ''verification'' 0, vr_task = ''t1'',
     vr_artifact = da_id run_artifact, vr_version = 1, vr_commit = sample_sha, vr_actor = ''qa'',
     vr_environment = ''linux'', vr_evidence = [sample_command], vr_binary = [],
     vr_result = VerificationPassed, vr_notes = [], vr_key = ''k1'', vr_hash = ''h'', vr_created = 9\<rparr>"

definition run_integrate :: integrate_request where
  "run_integrate = \<lparr>iq_task = ''t1'', iq_observed = 5, iq_version = 1, iq_commit = sample_sha,
     iq_verification = vr_id run_verification, iq_actor = ''qa'', iq_source = ''host'', iq_key = ''k2''\<rparr>"

definition run_authorization :: integration_authorization where
  "run_authorization = new_authorization (run_fresh 5 ''authorization'' 0) 9 ''h'' run_integrate
     (run_task StatusIntegrationReady 5) run_artifact run_verification"

definition run_intent :: merge_intent where
  "run_intent = new_intent (run_fresh 5 ''intent'' 0) ''t1'' run_artifact (vr_id run_verification)
     (ia_id run_authorization) ''qa'' ''host''"

definition run_completion :: "string \<Rightarrow> string \<Rightarrow> merge_completion" where
  "run_completion sha source = \<lparr>mc_id = run_fresh 6 ''completion'' 0, mc_task = ''t1'',
     mc_intent = mi_id run_intent, mc_artifact = da_id run_artifact,
     mc_verification = vr_id run_verification, mc_authorization = ia_id run_authorization,
     mc_commit = sample_sha, mc_base = sample_sha, mc_merge_commit = sha,
     mc_actor = ''orchestrator'', mc_source = source\<rparr>"

text \<open>The databases of the run; the audit events are those whose ids are listed.\<close>

definition run_events :: "nat \<Rightarrow> task_event list \<Rightarrow> bool" where
  "run_events n evs \<longleftrightarrow> list_all (\<lambda>e. length (te_id e) < n) evs"

definition run_base :: "task_status \<Rightarrow> nat \<Rightarrow> task_event list \<Rightarrow> db" where
  "run_base s v evs = empty_db\<lparr>db_tasks := [run_task s v], db_events := evs\<rparr>"

definition run_frozen :: "task_status \<Rightarrow> nat \<Rightarrow> task_event list \<Rightarrow> db" where
  "run_frozen s v evs = (run_base s v evs)\<lparr>db_gate_runs := [run_gate], db_artifacts := [run_artifact]\<rparr>"

definition run_verified :: "task_status \<Rightarrow> nat \<Rightarrow> task_event list \<Rightarrow> db" where
  "run_verified s v evs = (run_frozen s v evs)\<lparr>db_verifications := [run_verification]\<rparr>"

definition run_authorized :: "task_status \<Rightarrow> nat \<Rightarrow> task_event list \<Rightarrow> db" where
  "run_authorized s v evs = (run_verified s v evs)\<lparr>db_authorizations := [run_authorization],
     db_intents := [run_intent]\<rparr>"

definition run_completed :: "task_status \<Rightarrow> nat \<Rightarrow> task_event list \<Rightarrow> db" where
  "run_completed s v evs = (run_authorized s v evs)
     \<lparr>db_completions := [run_completion sample_sha ''merge'']\<rparr>"

lemmas run_dbs = run_base_def run_frozen_def run_verified_def run_authorized_def run_completed_def
  empty_db_def

lemma run_task_simps [simp]:
  "t_id (run_task s v) = ''t1''" "t_status (run_task s v) = s" "t_version (run_task s v) = v"
  "t_parent (run_task s v) = None" "t_branch (run_task s v) = ''feature/x''"
  by (simp_all add: run_task_def sample_task_def)

lemma run_update: "task_transition_columns ((run_task s v)\<lparr>t_status := s', t_updated := 9, t_version := v'\<rparr>)
    (run_task s v) = run_task s' v'"
  by (simp add: task_transition_columns_def run_task_def sample_task_def)

lemma run_cas:
  assumes "db_tasks d = [run_task s v]" "can_move s target" "actor \<noteq> []" "source \<noteq> []" "reason \<noteq> []"
    and "run_events n (db_events d)" "length eid = n" "s \<noteq> StatusOther []"
  shows "\<exists>tk' ev. cas_task_transition eid 9 (run_task s v) s target actor source reason refs d
     = (tk', Inr (d\<lparr>db_tasks := [run_task target (v + 1)], db_events := db_events d @ [ev]\<rparr>))
     \<and> te_id ev = eid"
proof -
  let ?req = "cas_request (run_task s v) s target actor source reason refs"
  obtain tk1 ev where g: "guarded_transition_task eid 9 (Some (run_task s v)) ?req = Inr (tk1, ev)"
    using assms by (auto simp: guarded_transition_task_def transition_task_at_def cas_request_def
        transition_task_unchecked_at_def evidence_timestamp_def res_simps evidence_complete_def
        uuid_Nil_def)
  note G = guarded_cas_request_Inr [OF g]
  have "\<forall>x \<in> set (db_events d). \<not> event_conflict ev x"
    using assms(6,7) G(3) by (auto simp: run_events_def list_all_iff event_conflict_def)
  then have "tbl_create event_conflict ev (db_events d) = Inr (db_events d @ [ev])"
    by (simp add: tbl_create_Inr)
  then show ?thesis
    using run_update [where s = s and v = v and s' = target and v' = "v + 1"] assms(1) G(2,3)
    by (auto simp: cas_task_transition_def g tbl_update_def Let_def cas_match_def)
qed

lemma run_cas_tx:
  assumes "db_tasks d = [run_task s v]" "can_move s target" "actor \<noteq> []" "source \<noteq> []" "reason \<noteq> []"
    and "run_events n (db_events d)" "length eid = n" "s \<noteq> StatusOther []"
  shows "\<exists>ev. cas_tx eid 9 (run_task s v) s target actor source reason refs d
     = Inr (d\<lparr>db_tasks := [run_task target (v + 1)], db_events := db_events d @ [ev]\<rparr>) \<and> te_id ev = eid"
  using run_cas [OF assms, of refs] by (auto simp: cas_tx_def)

lemma run_events_add: "\<lbrakk>run_events n evs; length (te_id ev) < m; n \<le> m\<rbrakk> \<Longrightarrow> run_events m (evs @ [ev])"
  by (auto simp: run_events_def list_all_iff)

lemma run_events_member: "\<lbrakk>run_events n evs; n \<le> m\<rbrakk> \<Longrightarrow> run_events m evs"
  by (auto simp: run_events_def list_all_iff)

lemma run_fresh_length [simp]: "length (run_fresh n s k) = length s + n"
  by (simp add: run_fresh_def)

text \<open>The two moves before the artifact is frozen.\<close>

lemma run_move:
  assumes "reachable (run_base s v evs)" "can_move s target" "\<not> delivery_status target"
    and "run_events n evs" "s \<noteq> StatusOther []"
  shows "\<exists>evs'. reachable (run_base target (v + 1) evs') \<and> run_events (n + 1) evs'"
proof -
  obtain tk' ev where c: "cas_task_transition (replicate n CHR ''e'') 9 (run_task s v) s target ''a'' ''s'' ''r'' []
     (run_base s v evs) = (tk', Inr ((run_base s v evs)\<lparr>db_tasks := [run_task target (v + 1)],
       db_events := evs @ [ev]\<rparr>)) \<and> te_id ev = replicate n CHR ''e''"
    using run_cas [of "run_base s v evs" s v target "''a''" "''s''" "''r''" n "replicate n CHR ''e''" "[]"] assms
    by (auto simp: run_base_def)
  have "reachable (run_base target (v + 1) (evs @ [ev]))"
    using reachable.step [OF assms(1) delivery_step.move [OF assms(3) c [THEN conjunct1]]]
    by (simp add: run_base_def)
  moreover have "run_events (n + 1) (evs @ [ev])"
    using c assms(4) by (intro run_events_add) auto
  ultimately show ?thesis by blast
qed

lemma run_testing_ready: "\<exists>evs. reachable (run_base StatusTestingReady 3 evs) \<and> run_events 3 evs"
proof -
  have "create_task (run_task StatusBacklog 1) empty_db = Inr (run_base StatusBacklog 1 [])"
    by (simp add: create_Inr run_base_def empty_db_def)
  from reachable.step [OF reachable.initial delivery_step.create_task [OF _ this]]
  have r: "reachable (run_base StatusBacklog 1 [])" by simp
  obtain e1 where e1: "reachable (run_base StatusInProgress 2 e1)" "run_events 2 e1"
    using run_move [OF r, of StatusInProgress 1]
    by (auto simp: can_move_iff delivery_status_def run_events_def numeral_2_eq_2)
  show ?thesis
    using run_move [OF e1(1), of StatusTestingReady 2] e1(2)
    by (auto simp: can_move_iff delivery_status_def numeral_3_eq_3 numeral_2_eq_2)
qed

text \<open>Freezing, verifying, authorizing and completing.\<close>

lemma run_freeze:
  assumes "run_events 3 evs"
  shows "\<exists>ev. freeze_delivery_artifact (run_fresh 3) 9 ''t1'' run_snapshot
      (run_base StatusTestingReady 3 evs)
      = (Inr run_artifact, run_frozen StatusVerificationReady 4 (evs @ [ev])) \<and> length (te_id ev) = 8"
proof -
  let ?d = "(run_base StatusTestingReady 3 evs)\<lparr>db_gate_runs := [run_gate], db_artifacts := [run_artifact]\<rparr>"
  define refs where "refs = [(''delivery_artifact_id'', GStr (da_id run_artifact)),
    (''preliminary_gate_run_id'', GStr (gr_id run_gate)),
    (''artifact_version'', GInt (int (da_version run_artifact)))]"
  obtain ev where c: "cas_tx (run_fresh 3 ''event'' 0) 9 (run_task StatusTestingReady 3) StatusTestingReady
      StatusVerificationReady ''orchestrator'' ''testing_ready''
      ''preliminary gates passed and artifact frozen'' refs ?d
      = Inr (run_frozen StatusVerificationReady 4 (evs @ [ev]))" "te_id ev = run_fresh 3 ''event'' 0"
    using run_cas_tx [of ?d StatusTestingReady 3 StatusVerificationReady "''orchestrator''"
        "''testing_ready''" "''preliminary gates passed and artifact frozen''" 8
        "run_fresh 3 ''event'' 0" refs] run_events_member [OF assms, of 8]
    by (auto simp: run_dbs can_move_iff)
  have v: "validate_artifact_snapshot run_snapshot = Inr ()"
    by (simp add: validate_artifact_snapshot_def run_snapshot_def trim_space_def is_space_def
        sample_command_def zero_time_def)
  have l: "load_task ''t1'' (run_base StatusTestingReady 3 evs) = Inr (run_task StatusTestingReady 3)"
    by (simp add: load_task_def run_dbs tbl_first_def)
  have m: "max_artifact_version ''t1'' (run_base StatusTestingReady 3 evs) = 0"
    by (simp add: max_artifact_version_def run_dbs)
  have g: "create_gate_run run_gate (run_base StatusTestingReady 3 evs)
      = Inr ((run_base StatusTestingReady 3 evs)\<lparr>db_gate_runs := [run_gate]\<rparr>)"
    and a: "create_artifact run_artifact ((run_base StatusTestingReady 3 evs)\<lparr>db_gate_runs := [run_gate]\<rparr>)
      = Inr ?d"
    by (simp_all add: create_Inr run_dbs)
  have "freeze_transaction (run_fresh 3) 9 ''t1'' run_snapshot (run_base StatusTestingReady 3 evs)
      = Inr (run_artifact, run_frozen StatusVerificationReady 4 (evs @ [ev]))"
    using c(1) g a
    by (simp add: freeze_transaction_def l m run_gate_def [symmetric]
        run_artifact_def [unfolded One_nat_def, symmetric] refs_def res_bind_def run_snapshot_def [THEN arg_cong [where f = as_actor]]
        run_snapshot_def [THEN arg_cong [where f = as_source]])
  then have "freeze_delivery_artifact (run_fresh 3) 9 ''t1'' run_snapshot (run_base StatusTestingReady 3 evs)
      = (Inr run_artifact, run_frozen StatusVerificationReady 4 (evs @ [ev]))"
    by (simp add: freeze_delivery_artifact_def v transaction_def)
  with c(2) show ?thesis by auto
qed

lemma run_frozen_reachable:
  "\<exists>evs. reachable (run_frozen StatusVerificationReady 4 evs) \<and> run_events 9 evs"
proof -
  obtain evs where r: "reachable (run_base StatusTestingReady 3 evs)" "run_events 3 evs"
    using run_testing_ready by blast
  obtain ev where f: "freeze_delivery_artifact (run_fresh 3) 9 ''t1'' run_snapshot
      (run_base StatusTestingReady 3 evs)
      = (Inr run_artifact, run_frozen StatusVerificationReady 4 (evs @ [ev]))" "length (te_id ev) = 8"
    using run_freeze [OF r(2)] by blast
  from reachable.step [OF r(1) delivery_step.freeze [OF f(1)]]
  show ?thesis using run_events_add [OF r(2), of ev 9] f(2) by auto
qed

lemma run_lookup:
  "load_task ''t1'' (run_frozen s v evs) = Inr (run_task s v)"
  "current_artifact ''t1'' (run_frozen s v evs) = Inr run_artifact"
  "exact_artifact run_artifact 1 sample_sha"
  by (simp_all add: load_task_def current_artifact_def run_dbs tbl_first_def run_artifact_def
      frozen_artifact_def artifact_current_def exact_artifact_def run_snapshot_def)

lemma run_verifies:
  assumes "run_events 9 evs"
  shows "\<exists>ev. verify_delivery (run_fresh 4) 9 (\<lambda>_. ''h'') run_verify
      (run_frozen StatusVerificationReady 4 evs)
      = (Inr run_verification, run_verified StatusIntegrationReady 5 (evs @ [ev])) \<and> length (te_id ev) = 9"
proof -
  let ?d = "(run_frozen StatusVerificationReady 4 evs)\<lparr>db_verifications := [run_verification]\<rparr>"
  define refs where "refs = verify_references run_artifact run_verification VerificationPassed []
    uuid_Nil uuid_Nil"
  obtain ev where c: "cas_tx (run_fresh 4 ''event'' 0) 9 (run_task StatusVerificationReady 4)
      StatusVerificationReady StatusIntegrationReady ''qa'' ''host'' ''delivery artifact verified'' refs ?d
      = Inr (run_verified StatusIntegrationReady 5 (evs @ [ev]))" "te_id ev = run_fresh 4 ''event'' 0"
    using run_cas_tx [of ?d StatusVerificationReady 4 StatusIntegrationReady "''qa''" "''host''"
        "''delivery artifact verified''" 9 "run_fresh 4 ''event'' 0" refs] assms
    by (auto simp: run_dbs can_move_iff)
  have n: "normalize_verify_request run_verify = run_verify"
    by (simp add: normalize_verify_request_def run_verify_def sample_verify_def)
  have v: "validate_verify_request run_verify = Inr ()"
    by (simp add: validate_verify_request_def run_verify_def sample_verify_def uuid_Nil_def
        trim_space_def is_space_def sample_command_def zero_time_def
        validate_verification_interactions_def)
  have q: "vq_task run_verify = ''t1''" "vq_observed run_verify = 4" "vq_version run_verify = 1"
    "vq_commit run_verify = sample_sha" "vq_result run_verify = VerificationPassed"
    "vq_actor run_verify = ''qa''" "vq_source run_verify = ''host''" "vq_interactions run_verify = []"
    "vq_key run_verify = ''k1''"
    by (simp_all add: run_verify_def sample_verify_def)
  have w: "\<lparr>vr_id = run_fresh 4 ''verification'' 0, vr_task = ''t1'', vr_artifact = da_id run_artifact,
      vr_version = da_version run_artifact, vr_commit = da_commit run_artifact,
      vr_actor = ''qa'', vr_environment = vq_environment run_verify,
      vr_evidence = vq_evidence run_verify, vr_binary = vq_binary run_verify,
      vr_result = VerificationPassed, vr_notes = vq_notes run_verify,
      vr_key = ''k1'', vr_hash = ''h'', vr_created = 9\<rparr> = run_verification"
    by (simp add: run_verification_def run_artifact_def frozen_artifact_def run_snapshot_def
        run_verify_def sample_verify_def)
  have p: "persist_verification_interactions (run_fresh 4) (run_task StatusVerificationReady 4) run_artifact
      run_verification run_verify ?d = Inr ([], ?d)"
    by (simp add: persist_verification_interactions_def q)
  have cv: "create_verification run_verification (run_frozen StatusVerificationReady 4 evs) = Inr ?d"
    by (simp add: create_Inr run_dbs)
  have "verify_fresh (run_fresh 4) 9 ''h'' run_verify (run_frozen StatusVerificationReady 4 evs)
      = Inr (run_verification, run_verified StatusIntegrationReady 5 (evs @ [ev]))"
    using c(1) cv p by (simp add: verify_fresh_def q w run_lookup(1,2)
        run_lookup(3) [unfolded One_nat_def] res_bind_def refs_def)
  moreover have "tbl_first vr_id (\<lambda>v. vr_key v = ''k1'')
      (db_verifications (run_frozen StatusVerificationReady 4 evs)) = None"
    by (simp add: run_dbs tbl_first_def)
  ultimately have "verify_delivery (run_fresh 4) 9 (\<lambda>_. ''h'') run_verify
      (run_frozen StatusVerificationReady 4 evs)
      = (Inr run_verification, run_verified StatusIntegrationReady 5 (evs @ [ev]))"
    by (simp add: verify_delivery_def n v verify_transaction_def q transaction_def)
  with c(2) show ?thesis by auto
qed

lemma run_verified_reachable:
  "\<exists>evs. reachable (run_verified StatusIntegrationReady 5 evs) \<and> run_events 10 evs"
proof -
  obtain evs where r: "reachable (run_frozen StatusVerificationReady 4 evs)" "run_events 9 evs"
    using run_frozen_reachable by blast
  obtain ev where f: "verify_delivery (run_fresh 4) 9 (\<lambda>_. ''h'') run_verify
      (run_frozen StatusVerificationReady 4 evs)
      = (Inr run_verification, run_verified StatusIntegrationReady 5 (evs @ [ev]))" "length (te_id ev) = 9"
    using run_verifies [OF r(2)] by blast
  from reachable.step [OF r(1) delivery_step.verify [OF f(1)]]
  show ?thesis using run_events_add [OF r(2), of ev 10] f(2) by auto
qed

lemma run_verified_lookup:
  "load_task ''t1'' (run_verified s v evs) = Inr (run_task s v)"
  "current_artifact ''t1'' (run_verified s v evs) = Inr run_artifact"
  by (simp_all add: load_task_def current_artifact_def run_dbs tbl_first_def run_artifact_def
      frozen_artifact_def artifact_current_def run_snapshot_def)

lemma run_authorizes:
  assumes "run_events 10 evs"
  shows "\<exists>ev. authorize_integration (run_fresh 5) 9 (\<lambda>_. ''h'') sample_git run_integrate
      (run_verified StatusIntegrationReady 5 evs)
      = (Inr run_authorization, run_authorized StatusMerging 6 (evs @ [ev])) \<and> length (te_id ev) = 10"
proof -
  let ?d = "(run_verified StatusIntegrationReady 5 evs)\<lparr>db_authorizations := [run_authorization],
    db_intents := [run_intent]\<rparr>"
  let ?d1 = "(run_verified StatusIntegrationReady 5 evs)\<lparr>db_authorizations := [run_authorization]\<rparr>"
  define refs where "refs = [(''delivery_artifact_id'', GStr (da_id run_artifact)),
    (''verification_record_id'', GStr (vr_id run_verification)),
    (''integration_authorization_id'', GStr (ia_id run_authorization)),
    (''merge_intent_id'', GStr (mi_id run_intent)),
    (''artifact_version'', GInt (int (da_version run_artifact))),
    (''commit_sha'', GStr (da_commit run_artifact))]"
  obtain ev where c: "cas_tx (run_fresh 5 ''event'' 0) 9 (run_task StatusIntegrationReady 5)
      StatusIntegrationReady StatusMerging ''qa'' ''host''
      ''verified artifact authorized for integration'' refs ?d
      = Inr (run_authorized StatusMerging 6 (evs @ [ev]))" "te_id ev = run_fresh 5 ''event'' 0"
    using run_cas_tx [of ?d StatusIntegrationReady 5 StatusMerging "''qa''" "''host''"
        "''verified artifact authorized for integration''" 10 "run_fresh 5 ''event'' 0" refs] assms
    by (auto simp: run_dbs can_move_iff)
  have v: "validate_integrate_request run_integrate = Inr ()"
    by (simp add: validate_integrate_request_def run_integrate_def run_verification_def run_fresh_def
        uuid_Nil_def trim_space_def is_space_def)
  have q: "iq_task run_integrate = ''t1''" "iq_observed run_integrate = 5" "iq_version run_integrate = 1"
    "iq_commit run_integrate = sample_sha" "iq_verification run_integrate = vr_id run_verification"
    "iq_actor run_integrate = ''qa''" "iq_source run_integrate = ''host''" "iq_key run_integrate = ''k2''"
    by (simp_all add: run_integrate_def)
  have t: "tbl_first vr_id (\<lambda>v. vr_id v = vr_id run_verification \<and> vr_artifact v = da_id run_artifact
      \<and> vr_result v = VerificationPassed) (db_verifications (run_verified StatusIntegrationReady 5 evs))
      = Some run_verification"
    by (simp add: tbl_first_def run_dbs run_verification_def)
  have dr: "delivery_artifact_drift sample_git (run_task StatusIntegrationReady 5) run_artifact = Inr []"
    by (simp add: delivery_artifact_drift_def sample_git_def run_git_def res_bind_def run_artifact_def
        frozen_artifact_def run_snapshot_def)
  have cr: "create_authorization run_authorization (run_verified StatusIntegrationReady 5 evs) = Inr ?d1"
      "create_intent run_intent ?d1 = Inr ?d"
    by (simp_all add: create_Inr run_dbs)
  have "authorize_fresh (run_fresh 5) 9 ''h'' sample_git run_integrate
      (run_verified StatusIntegrationReady 5 evs)
      = Inr (Inr run_authorization, run_authorized StatusMerging 6 (evs @ [ev]))"
    using c(1) cr
    by (simp add: authorize_fresh_def q run_verified_lookup run_lookup(3) [unfolded One_nat_def] t dr
        res_bind_def refs_def Let_def run_authorization_def [symmetric] run_intent_def [symmetric])
  moreover have "tbl_first ia_id (\<lambda>x. ia_key x = ''k2'')
      (db_authorizations (run_verified StatusIntegrationReady 5 evs)) = None"
    by (simp add: run_dbs tbl_first_def)
  ultimately have "authorize_integration (run_fresh 5) 9 (\<lambda>_. ''h'') sample_git run_integrate
      (run_verified StatusIntegrationReady 5 evs)
      = (Inr run_authorization, run_authorized StatusMerging 6 (evs @ [ev]))"
    by (simp add: authorize_integration_def v authorize_transaction_def q transaction_def)
  with c(2) show ?thesis by auto
qed

lemma run_authorized_reachable:
  "\<exists>evs. reachable (run_authorized StatusMerging 6 evs) \<and> run_events 11 evs"
proof -
  obtain evs where r: "reachable (run_verified StatusIntegrationReady 5 evs)" "run_events 10 evs"
    using run_verified_reachable by blast
  obtain ev where f: "authorize_integration (run_fresh 5) 9 (\<lambda>_. ''h'') sample_git run_integrate
      (run_verified StatusIntegrationReady 5 evs)
      = (Inr run_authorization, run_authorized StatusMerging 6 (evs @ [ev]))" "length (te_id ev) = 10"
    using run_authorizes [OF r(2)] by blast
  from reachable.step [OF r(1) delivery_step.authorize [OF f(1)]]
  show ?thesis using run_events_add [OF r(2), of ev 11] f(2) by auto
qed

lemma run_authorized_lookup:
  "load_task ''t1'' (run_authorized s v evs) = Inr (run_task s v)"
  "current_artifact ''t1'' (run_authorized s v evs) = Inr run_artifact"
  "latest_passing (da_id run_artifact) (run_authorized s v evs) = Some run_verification"
  "latest_authorization (da_id run_artifact) (vr_id run_verification) (run_authorized s v evs)
     = Some run_authorization"
  "tbl_first mi_id (\<lambda>m. mi_id m = mi_id run_intent \<and> mi_task m = ''t1'')
     (db_intents (run_authorized s v evs)) = Some run_intent"
  "evidence_complete_for run_artifact run_verification run_authorization run_intent"
  by (simp_all add: load_task_def current_artifact_def run_dbs tbl_first_def run_artifact_def
      frozen_artifact_def artifact_current_def run_snapshot_def latest_passing_def tbl_latest_def
      latest_authorization_def run_verification_def run_authorization_def new_authorization_def
      run_intent_def new_intent_def evidence_complete_for_def run_integrate_def)

lemma run_complete:
  assumes "run_events 11 evs" "valid_object_id sha" "source \<noteq> []"
  shows "\<exists>ev. complete_authorized_merge (run_fresh 6) 9 ''t1'' (mi_id run_intent) sha source
    (run_authorized StatusMerging 6 evs) = (Inr (run_completion sha source),
      (run_authorized StatusDone 7 (evs @ [ev]))\<lparr>db_completions := [run_completion sha source]\<rparr>)"
proof -
  define c where "c = run_completion sha source"
  let ?d = "(run_authorized StatusMerging 6 evs)\<lparr>db_completions := [c]\<rparr>"
  define refs where "refs = [(''merge_completion_id'', GStr (mc_id c)),
    (''merge_intent_id'', GStr (mi_id run_intent)),
    (''delivery_artifact_id'', GStr (da_id run_artifact)),
    (''verification_record_id'', GStr (vr_id run_verification)),
    (''integration_authorization_id'', GStr (ia_id run_authorization)),
    (''artifact_commit_sha'', GStr (da_commit run_artifact)),
    (''verified_base_sha'', GStr (da_base run_artifact)), (''merge_commit_sha'', GStr sha)]"
  obtain ev where t: "cas_tx (run_fresh 6 ''event'' 0) 9 (run_task StatusMerging 6)
      StatusMerging StatusDone ''orchestrator'' source ''authorized artifact merged'' refs ?d
      = Inr ((run_authorized StatusDone 7 (evs @ [ev]))\<lparr>db_completions := [c]\<rparr>)"
    using run_cas_tx [of ?d StatusMerging 6 StatusDone "''orchestrator''" source
        "''authorized artifact merged''" 11 "run_fresh 6 ''event'' 0" refs] assms(1,3)
    by (auto simp: run_dbs can_move_iff)
  have w: "\<lparr>mc_id = run_fresh 6 ''completion'' 0, mc_task = ''t1'', mc_intent = mi_id run_intent,
      mc_artifact = da_id run_artifact, mc_verification = vr_id run_verification,
      mc_authorization = ia_id run_authorization, mc_commit = da_commit run_artifact,
      mc_base = da_base run_artifact, mc_merge_commit = sha, mc_actor = ''orchestrator'',
      mc_source = source\<rparr> = c"
    and a: "mc_actor c = ''orchestrator''" "mc_source c = source"
    by (simp_all add: c_def run_completion_def run_artifact_def frozen_artifact_def run_snapshot_def)
  have n: "tbl_first mc_id (\<lambda>c. mc_task c = ''t1'')
      (db_completions (run_authorized StatusMerging 6 evs)) = None"
    by (simp add: run_dbs tbl_first_def)
  have cr: "create_completion c (run_authorized StatusMerging 6 evs) = Inr ?d"
    by (simp add: create_Inr run_dbs)
  have "complete_transaction (run_fresh 6) 9 ''t1'' (mi_id run_intent) sha source
      (run_authorized StatusMerging 6 evs)
      = Inr (c, (run_authorized StatusDone 7 (evs @ [ev]))\<lparr>db_completions := [c]\<rparr>)"
    using t cr
    by (simp add: complete_transaction_def run_authorized_lookup w a n res_bind_def refs_def Let_def)
  moreover have "mi_id run_intent \<noteq> uuid_Nil"
    by (simp add: run_intent_def new_intent_def run_fresh_def uuid_Nil_def)
  ultimately show ?thesis
    using assms(2) by (auto simp: complete_authorized_merge_def transaction_def c_def)
qed

lemma run_completed_reachable: "\<exists>evs. reachable (run_completed StatusDone 7 evs)"
proof -
  obtain evs where r: "reachable (run_authorized StatusMerging 6 evs)" "run_events 11 evs"
    using run_authorized_reachable by blast
  obtain ev where "complete_authorized_merge (run_fresh 6) 9 ''t1'' (mi_id run_intent) sample_sha
      ''merge'' (run_authorized StatusMerging 6 evs)
      = (Inr (run_completion sample_sha ''merge''), run_completed StatusDone 7 (evs @ [ev]))"
    using run_complete [OF r(2), of sample_sha "''merge''"] by (auto simp: run_completed_def)
  from reachable.step [OF r(1) delivery_step.complete [OF this]]
  show ?thesis by blast
qed

text \<open>A repository whose target branch has moved past the verified base.\<close>

definition moved_sha :: string where
  "moved_sha = replicate 40 CHR ''b''"

definition moved_git :: git where
  "moved_git = sample_git\<lparr>g_run := (\<lambda>dir args. if hd args = ''rev-parse'' then GitOk moved_sha
     else GitOk [])\<rparr>"

lemma moved_sha_simps [simp]: "valid_object_id moved_sha" "trim_space moved_sha = moved_sha"
  "moved_sha \<noteq> sample_sha"
  by (simp_all add: moved_sha_def sample_sha_def valid_object_id_def trim_space_def is_space_def
      is_hex_def numeral_eq_Suc)

lemma run_recover:
  assumes "run_events 11 evs"
  shows "\<exists>d'. recover_authorized_merge (run_fresh 6) 9 moved_git (run_task StatusMerging 6)
    (run_authorized StatusMerging 6 evs)
    = (Inr (Some (run_completion moved_sha ''authoritative_target_ref'')), d')
    \<and> run_completion moved_sha ''authoritative_target_ref'' \<in> set (db_completions d')"
proof -
  have i: "ensure_merge_intent (run_fresh 6) (run_task StatusMerging 6) run_artifact run_verification
      run_authorization (run_authorized StatusMerging 6 evs)
      = (Inr run_intent, run_authorized StatusMerging 6 evs)"
    by (simp add: ensure_merge_intent_def find_intent_def run_dbs tbl_first_def intent_matches_def
        run_intent_def new_intent_def)
  have m: "mi_target_base run_intent = sample_sha"
    by (simp add: run_intent_def new_intent_def run_artifact_def frozen_artifact_def run_snapshot_def)
  have b: "\<not> blank ''/bare''" by (simp add: trim_space_def is_space_def)
  from run_complete [OF assms, of moved_sha "''authoritative_target_ref''"] i m show ?thesis
    by (auto simp: recover_authorized_merge_def run_authorized_lookup moved_git_def sample_git_def
        run_git_def b)
qed

text \<open>The merge fails, and the task is retried.\<close>

lemma run_authorized_move:
  assumes "reachable (run_authorized s v evs)" "can_move s target" "\<not> delivery_status target"
    and "run_events n evs" "s \<noteq> StatusOther []"
  shows "\<exists>evs'. reachable (run_authorized target (v + 1) evs') \<and> run_events (n + 1) evs'"
proof -
  obtain tk' ev where c: "cas_task_transition (replicate n CHR ''e'') 9 (run_task s v) s target ''a'' ''s'' ''r'' []
     (run_authorized s v evs) = (tk', Inr ((run_authorized s v evs)\<lparr>db_tasks := [run_task target (v + 1)],
       db_events := evs @ [ev]\<rparr>)) \<and> te_id ev = replicate n CHR ''e''"
    using run_cas [of "run_authorized s v evs" s v target "''a''" "''s''" "''r''" n "replicate n CHR ''e''" "[]"] assms
    by (auto simp: run_dbs)
  have "reachable (run_authorized target (v + 1) (evs @ [ev]))"
    using reachable.step [OF assms(1) delivery_step.move [OF assms(3) c [THEN conjunct1]]]
    by (simp add: run_dbs)
  moreover have "run_events (n + 1) (evs @ [ev])"
    using c assms(4) by (intro run_events_add) auto
  ultimately show ?thesis by blast
qed

lemma run_retried: "\<exists>evs. reachable (run_authorized StatusTestingReady 10 evs)"
proof -
  obtain e6 where e6: "reachable (run_authorized StatusMerging 6 e6)" "run_events 11 e6"
    using run_authorized_reachable by blast
  obtain e7 where e7: "reachable (run_authorized StatusFailed 7 e7)" "run_events 12 e7"
    using run_authorized_move [OF e6(1) _ _ e6(2), of StatusFailed]
    by (auto simp: can_move_iff delivery_status_def eval_nat_numeral)
  obtain e8 where e8: "reachable (run_authorized StatusBacklog 8 e8)" "run_events 13 e8"
    using run_authorized_move [OF e7(1) _ _ e7(2), of StatusBacklog]
    by (auto simp: can_move_iff delivery_status_def eval_nat_numeral)
  obtain e9 where e9: "reachable (run_authorized StatusInProgress 9 e9)" "run_events 14 e9"
    using run_authorized_move [OF e8(1) _ _ e8(2), of StatusInProgress]
    by (auto simp: can_move_iff delivery_status_def eval_nat_numeral)
  show ?thesis
    using run_authorized_move [OF e9(1) _ _ e9(2), of StatusTestingReady]
    by (auto simp: can_move_iff delivery_status_def eval_nat_numeral)
qed

text \<open>A host rework of the frozen artifact.\<close>

definition run_rework :: rework_request where
  "run_rework = \<lparr>rq_task = ''t1'', rq_observed = 4, rq_version = 1, rq_commit = sample_sha,
     rq_actor = ''qa'', rq_source = ''host'', rq_reason = ''fix'', rq_mode = DeliveryReworkHostDirect,
     rq_scope = [''src''], rq_attestation = sample_attestation, rq_key = ''k3''\<rparr>"

lemma run_scope: "valid_host_scope ''src''"
  by code_simp

lemma run_host_request: "validate_host_direct_request ''qa'' ''fix'' [''src''] sample_attestation = Inr ()"
  by (simp add: validate_host_direct_request_def run_scope sample_attestation_def
      trim_space_def is_space_def)

lemma run_reworks:
  assumes "run_events 9 evs"
  shows "\<exists>w d'. request_delivery_rework (run_fresh 4) 9 (\<lambda>_. ''h'') run_rework
    (run_frozen StatusVerificationReady 4 evs) = (Inr w, d') \<and> db_reworks d' = [w]"
proof -
  let ?d = "run_frozen StatusVerificationReady 4 evs"
  have "\<exists>s. create_host_rework_session (run_fresh 4) 9 (run_task StatusVerificationReady 4)
      run_artifact ''qa'' ''fix'' [''src''] sample_attestation ''k3'' ''h'' ?d
      = Inr (s, ?d\<lparr>db_sessions := [s]\<rparr>)"
    by (simp add: create_host_rework_session_def run_host_request tbl_count_def run_dbs
        create_defs tbl_create_def res_bind_def Let_def)
  then obtain s where s: "create_host_rework_session (run_fresh 4) 9 (run_task StatusVerificationReady 4)
      run_artifact ''qa'' ''fix'' [''src''] sample_attestation ''k3'' ''h'' ?d
      = Inr (s, ?d\<lparr>db_sessions := [s]\<rparr>)" ..
  define w where "w = \<lparr>rw_id = run_fresh 4 ''rework'' 0, rw_task = ''t1'', rw_artifact = da_id run_artifact,
    rw_version = da_version run_artifact, rw_commit = da_commit run_artifact, rw_actor = ''qa'',
    rw_source = ''host'', rw_reason = ''fix'', rw_mode = DeliveryReworkHostDirect,
    rw_session = Some (hs_id s), rw_key = ''k3'', rw_hash = ''h''\<rparr>"
  have c: "create_rework w (?d\<lparr>db_sessions := [s]\<rparr>) = Inr (?d\<lparr>db_sessions := [s], db_reworks := [w]\<rparr>)"
    by (simp add: create_Inr run_dbs)
  define e where "e = invalidate_artifact (da_id run_artifact) 9 ''rework_requested''
    (?d\<lparr>db_sessions := [s], db_reworks := [w]\<rparr>)"
  have e: "db_tasks e = [run_task StatusVerificationReady 4]" "db_events e = evs" "db_reworks e = [w]"
    by (simp_all add: e_def run_dbs)
  define refs where "refs = [(''delivery_artifact_id'', GStr (da_id run_artifact)),
    (''artifact_version'', GInt (int (da_version run_artifact))),
    (''commit_sha'', GStr (da_commit run_artifact)), (''rework_record_id'', GStr (rw_id w)),
    (''reason'', GStr ''fix''), (''mode'', GStr ''host_direct''),
    (''host_rework_session_id'', GStr (session_ref (Some (hs_id s))))]"
  obtain d' where f: "cas_tx (run_fresh 4 ''event'' 0) 9 (run_task StatusVerificationReady 4)
      StatusVerificationReady StatusHostRework ''qa'' ''host'' ''delivery rework requested'' refs e
      = Inr d'" "db_reworks d' = [w]"
    using run_cas_tx [of e StatusVerificationReady 4 StatusHostRework "''qa''" "''host''"
        "''delivery rework requested''" 9 "run_fresh 4 ''event'' 0" refs] e assms
    by (auto simp: can_move_iff)
  have q: "rq_task run_rework = ''t1''" "rq_observed run_rework = 4" "rq_version run_rework = 1"
    "rq_commit run_rework = sample_sha" "rq_actor run_rework = ''qa''" "rq_source run_rework = ''host''"
    "rq_reason run_rework = ''fix''" "rq_mode run_rework = DeliveryReworkHostDirect"
    "rq_scope run_rework = [''src'']" "rq_attestation run_rework = sample_attestation"
    "rq_key run_rework = ''k3''"
    by (simp_all add: run_rework_def)
  have v: "validate_rework_request run_rework = Inr ()"
    by (simp add: validate_rework_request_def q run_host_request uuid_Nil_def trim_space_def is_space_def)
  have n: "tbl_first rw_id (\<lambda>x. rw_key x = ''k3'') (db_reworks ?d) = None"
    by (simp add: run_dbs tbl_first_def)
  have "rework_fresh (run_fresh 4) 9 ''h'' run_rework ?d = Inr (w, d')"
    using f s c
    by (simp add: rework_fresh_def q run_lookup(1,2) run_lookup(3) [unfolded One_nat_def] route_rework_def
        w_def [symmetric] e_def [symmetric] res_bind_def Let_def refs_def)
  with f(2) show ?thesis
    by (auto simp: request_delivery_rework_def v rework_transaction_def q n transaction_def)
qed

end
