(* ===== verification/DeliveryProperties.thy ===== *)
theory DeliveryProperties
  imports DeliveryRun
begin

text \<open>
  The properties of delivery that span its operations: what holds in every reachable database, and
  what a single operation guarantees there, each applied to the databases of the sample run.
\<close>

section \<open>Evidence\<close>

lemma provenance_completion:
  assumes "provenance d" "c \<in> set (db_completions d)"
  obtains m x v a g where "m \<in> set (db_intents d)" "completes c m" "x \<in> set (db_authorizations d)"
    "intends m x a" "v \<in> set (db_verifications d)" "authorizes x v a" "a \<in> set (db_artifacts d)"
    "g \<in> set (db_gate_runs d)" "da_gate_run a = Some (gr_id g)" "gr_commit g = da_commit a"
    "gr_base g = da_base a" "gr_outcome g = PreliminaryGatePassed"
proof -
  from assms obtain m where m: "m \<in> set (db_intents d)" "completes c m"
    unfolding provenance_def by blast
  from assms(1) m(1) obtain a x v where "a \<in> set (db_artifacts d)" "x \<in> set (db_authorizations d)"
    "intends m x a" "v \<in> set (db_verifications d)" "authorizes x v a"
    unfolding provenance_def by blast
  moreover from this assms(1) have "gated d a" by (simp add: provenance_def)
  ultimately show ?thesis using m that unfolding gated_def by blast
qed

text \<open>C1: in every reachable database a finished top-level task has a complete evidence chain: a merge
  completion, whose intent belongs to an integration authorization, whose verification passed, of
  an artifact frozen by a passed gate run, and all of them name the same commit and the same base.\<close>

theorem done_task_evidence:
  assumes "reachable d" "t \<in> set (db_tasks d)" "t_status t = StatusDone" "t_parent t = None"
  shows "\<exists>c \<in> set (db_completions d). \<exists>m \<in> set (db_intents d). \<exists>x \<in> set (db_authorizations d).
    \<exists>v \<in> set (db_verifications d). \<exists>a \<in> set (db_artifacts d). \<exists>g \<in> set (db_gate_runs d).
      mc_task c = t_id t \<and> da_task a = t_id t
      \<and> mc_intent c = mi_id m \<and> mi_authorization m = ia_id x \<and> ia_verification x = vr_id v
      \<and> vr_artifact v = da_id a \<and> da_gate_run a = Some (gr_id g)
      \<and> vr_result v = VerificationPassed \<and> gr_outcome g = PreliminaryGatePassed
      \<and> mc_commit c = da_commit a \<and> mi_commit m = da_commit a \<and> ia_commit x = da_commit a
      \<and> vr_commit v = da_commit a \<and> gr_commit g = da_commit a
      \<and> mc_base c = da_base a \<and> mi_target_base m = da_base a \<and> ia_base x = da_base a
      \<and> gr_base g = da_base a \<and> valid_object_id (mc_merge_commit c)"
proof -
  note inv = reachable_inv [OF assms(1)]
  from invD(3) [OF inv assms(2)] assms(3,4) obtain c where c: "c \<in> set (db_completions d)" "mc_task c = t_id t"
    by (auto simp: status_ok_def)
  obtain m x v a g where e: "m \<in> set (db_intents d)" "completes c m" "x \<in> set (db_authorizations d)"
    "intends m x a" "v \<in> set (db_verifications d)" "authorizes x v a" "a \<in> set (db_artifacts d)"
    "g \<in> set (db_gate_runs d)" "da_gate_run a = Some (gr_id g)" "gr_commit g = da_commit a"
    "gr_base g = da_base a" "gr_outcome g = PreliminaryGatePassed"
    by (rule provenance_completion [OF invD(2) [OF inv] c(1)])
  show ?thesis
    by (rule bexI [OF _ c(1)], rule bexI [OF _ e(1)], rule bexI [OF _ e(3)], rule bexI [OF _ e(5)],
        rule bexI [OF _ e(7)], rule bexI [OF _ e(8)])
      (use c(2) e in \<open>simp add: completes_def intends_def authorizes_def verifies_def\<close>)
qed

theorem done_task_evidence_witness:
  "\<exists>evs. reachable (run_completed StatusDone 7 evs)
     \<and> db_tasks (run_completed StatusDone 7 evs) = [run_task StatusDone 7]
     \<and> (\<exists>c \<in> set (db_completions (run_completed StatusDone 7 evs)). mc_task c = ''t1'')"
proof -
  obtain evs where r: "reachable (run_completed StatusDone 7 evs)" using run_completed_reachable by blast
  have "run_task StatusDone 7 \<in> set (db_tasks (run_completed StatusDone 7 evs))" by (simp add: run_dbs)
  from done_task_evidence [OF r this] r show ?thesis
    by (intro exI [of _ evs]) (auto simp: run_dbs)
qed

text \<open>C10: evidence is append-only: no step removes or changes a gate run, a verification, an
  authorization, an intent or a completion, and of an artifact a step changes at most the two
  invalidation columns.\<close>

theorem evidence_append_only:
  assumes "reachable d" "delivery_step d d'"
  shows "(\<forall>a \<in> set (db_artifacts d). \<exists>b \<in> set (db_artifacts d'). same_artifact b a)
    \<and> set (db_gate_runs d) \<subseteq> set (db_gate_runs d')
    \<and> set (db_verifications d) \<subseteq> set (db_verifications d')
    \<and> set (db_authorizations d) \<subseteq> set (db_authorizations d')
    \<and> set (db_intents d) \<subseteq> set (db_intents d')
    \<and> set (db_completions d) \<subseteq> set (db_completions d')"
proof -
  have "protocol_inv d d" using reachable_inv [OF assms(1)] by (simp add: protocol_inv_def)
  with delivery_step_inv [OF assms(2)] have "grows d d'" by (simp add: protocol_inv_def)
  then show ?thesis unfolding grows_def by blast
qed

theorem evidence_append_only_witness:
  "\<exists>evs. reachable (run_completed StatusDone 7 evs)
     \<and> set (db_completions (run_completed StatusDone 7 evs))
       \<subseteq> set (db_completions (delete_task ''t1'' (run_completed StatusDone 7 evs)))"
proof -
  obtain evs where r: "reachable (run_completed StatusDone 7 evs)" using run_completed_reachable by blast
  with evidence_append_only [OF r delivery_step.delete [of _ "''t1''"]] show ?thesis by blast
qed

lemma uniq_filter_le: "\<lbrakk>uniq c rows; \<And>a b. \<lbrakk>P a; P b\<rbrakk> \<Longrightarrow> c a b\<rbrakk> \<Longrightarrow> length (filter P rows) \<le> 1"
  by (induction rows) (auto simp: uniq_def filter_empty_conv)

text \<open>In every reachable database a task has at most one row, one current artifact, one artifact
  of a version, one active host session and one merge completion, and an idempotency key names at
  most one verification, authorization and rework record.\<close>

theorem single_current_rows:
  assumes "reachable d"
  shows "length (filter (\<lambda>t. t_id t = tid) (db_tasks d)) \<le> 1
    \<and> length (filter (\<lambda>a. da_task a = tid \<and> artifact_current a) (db_artifacts d)) \<le> 1
    \<and> length (filter (\<lambda>a. da_task a = tid \<and> da_version a = n) (db_artifacts d)) \<le> 1
    \<and> length (filter (\<lambda>s. hs_task s = tid \<and> hs_disposition s = HostReworkActive) (db_sessions d)) \<le> 1
    \<and> length (filter (\<lambda>c. mc_task c = tid) (db_completions d)) \<le> 1
    \<and> length (filter (\<lambda>v. vr_key v = key) (db_verifications d)) \<le> 1
    \<and> length (filter (\<lambda>x. ia_key x = key) (db_authorizations d)) \<le> 1
    \<and> length (filter (\<lambda>r. rw_key r = key) (db_reworks d)) \<le> 1"
proof -
  have u: "uniq task_conflict (db_tasks d)" "uniq artifact_conflict (db_artifacts d)"
    "uniq session_conflict (db_sessions d)" "uniq completion_conflict (db_completions d)"
    "uniq verification_conflict (db_verifications d)"
    "uniq authorization_conflict (db_authorizations d)" "uniq rework_conflict (db_reworks d)"
    using invD(1) [OF reachable_inv [OF assms]] by (simp_all add: tables_uniq_def)
  show ?thesis
    by (intro conjI uniq_filter_le [OF u(1)] uniq_filter_le [OF u(2)] uniq_filter_le [OF u(3)]
        uniq_filter_le [OF u(4)] uniq_filter_le [OF u(5)] uniq_filter_le [OF u(6)]
        uniq_filter_le [OF u(7)]) (simp_all add: conflict_defs)
qed

theorem single_current_rows_witness:
  "\<exists>evs. reachable (run_completed StatusDone 7 evs)
     \<and> length (filter (\<lambda>c. mc_task c = ''t1'') (db_completions (run_completed StatusDone 7 evs))) \<le> 1"
proof -
  obtain evs where r: "reachable (run_completed StatusDone 7 evs)" using run_completed_reachable by blast
  with single_current_rows [OF r] show ?thesis by blast
qed

section \<open>Merging\<close>

text \<open>The preflight of a merging task in a reachable database finds the complete evidence chain,
  so that it never rewinds for missing evidence: it passes without a change exactly when the task is
  on the artifact's branch and git still resolves branch and base to the recorded commits; a moved
  ref or another branch rewinds the task to implementation and invalidates the artifact; an
  unreadable repository is an error without a change.\<close>

theorem merging_preflight:
  assumes "reachable d" "tk \<in> set (db_tasks d)" "t_status tk = StatusMerging"
  shows "\<exists>a v au mi. chain d (t_id tk) a v au mi
    \<and> preflight_merge_artifact fresh now g tk d =
       (if da_branch a \<noteq> t_branch tk
        then rewound (rewind_merging fresh now (t_id tk) StatusInProgress (da_id a)
               ''delivery_branch_mismatch'' d)
        else case delivery_artifact_drift g tk a of
          Inl e \<Rightarrow> (Inl e, d)
        | Inr drift \<Rightarrow> if drift = [] then (Inr True, d)
            else rewound (rewind_merging fresh now (t_id tk) StatusInProgress (da_id a) drift d))"
proof -
  obtain a v au mi where c: "chain d (t_id tk) a v au mi"
    by (rule merging_chain [OF reachable_inv [OF assms(1)] assms(2,3)])
  with preflight_chain [OF c, of fresh now g] show ?thesis
    by (intro exI [of _ a] exI [of _ v] exI [of _ au] exI [of _ mi])
      (simp split: sum.splits)
qed

theorem merging_preflight_witness:
  "\<exists>evs. reachable (run_authorized StatusMerging 6 evs)
     \<and> preflight_merge_artifact (run_fresh 6) 9 sample_git (run_task StatusMerging 6)
         (run_authorized StatusMerging 6 evs) = (Inr True, run_authorized StatusMerging 6 evs)"
proof -
  obtain evs where r: "reachable (run_authorized StatusMerging 6 evs)"
    using run_authorized_reachable by blast
  let ?d = "run_authorized StatusMerging 6 evs"
  have t: "run_task StatusMerging 6 \<in> set (db_tasks ?d)" by (simp add: run_dbs)
  from merging_preflight [OF r t, of "run_fresh 6" 9 sample_git] obtain a v au mi
    where c: "chain ?d ''t1'' a v au mi"
    and p: "preflight_merge_artifact (run_fresh 6) 9 sample_git (run_task StatusMerging 6) ?d =
       (if da_branch a \<noteq> ''feature/x''
        then rewound (rewind_merging (run_fresh 6) 9 ''t1'' StatusInProgress (da_id a)
               ''delivery_branch_mismatch'' ?d)
        else case delivery_artifact_drift sample_git (run_task StatusMerging 6) a of
          Inl e \<Rightarrow> (Inl e, ?d)
        | Inr drift \<Rightarrow> if drift = [] then (Inr True, ?d)
            else rewound (rewind_merging (run_fresh 6) 9 ''t1'' StatusInProgress (da_id a) drift ?d))"
    unfolding run_task_simps by blast
  have "a = run_artifact" using chain_lookup(1) [OF c] by (simp add: run_authorized_lookup)
  then have "da_branch a = ''feature/x''"
    "delivery_artifact_drift sample_git (run_task StatusMerging 6) a = Inr []"
    by (simp_all add: delivery_artifact_drift_def sample_git_def run_git_def res_bind_def
        run_artifact_def frozen_artifact_def run_snapshot_def)
  with p r show ?thesis by auto
qed

text \<open>Recovery completes a merge only on git's word: the target ref resolves, it moved away from
  the verified base, and git confirms that the artifact's commit is an ancestor; the completion is
  recorded with that ref, and the task is done afterwards.\<close>

theorem recovery_needs_ancestry:
  assumes "reachable d" "tk \<in> set (db_tasks d)"
    and "recover_authorized_merge fresh now g tk d = (Inr (Some c), d')"
  shows "\<exists>a v au mi sha out. chain d (t_id tk) a v au mi \<and> t_status tk = StatusMerging
    \<and> g_run g (g_bare g) [''rev-parse'', ''--verify'', full_ref (da_base_branch a)] = GitOk sha
    \<and> trim_space sha \<noteq> trim_space (da_base a)
    \<and> g_run g (g_bare g) [''merge-base'', ''--is-ancestor'', da_commit a, sha] = GitOk out
    \<and> c \<in> set (db_completions d') \<and> mc_task c = t_id tk \<and> mc_commit c = da_commit a
    \<and> mc_merge_commit c = sha"
proof -
  have m: "t_status tk = StatusMerging"
    using assms(3) by (auto simp: recover_authorized_merge_def split: if_splits)
  note inv = reachable_inv [OF assms(1)]
  obtain a v au mi where c: "chain d (t_id tk) a v au mi" by (rule merging_chain [OF inv assms(2) m])
  have mi: "mi_target_branch mi = da_base_branch a" "mi_target_base mi = da_base a"
      "mi_commit mi = da_commit a"
    using c by (simp_all add: chain_def evidence_complete_for_def)
  from assms(3) obtain sha out where g: "g_run g (g_bare g)
      [''rev-parse'', ''--verify'', full_ref (mi_target_branch mi)] = GitOk sha"
      "trim_space sha \<noteq> trim_space (mi_target_base mi)"
      "g_run g (g_bare g) [''merge-base'', ''--is-ancestor'', mi_commit mi, sha] = GitOk out"
    and co: "complete_authorized_merge fresh now (t_id tk) (mi_id mi) sha
      ''authoritative_target_ref'' d = (Inr c, d')"
    using chain_lookup [OF c] chain_intent [OF c, of fresh] m
    by (auto simp: recover_authorized_merge_def run_git_Inr split: if_splits sum.splits git_out.splits
        prod.splits)
  from co have v: "valid_object_id sha"
    and t: "complete_transaction fresh now (t_id tk) (mi_id mi) sha ''authoritative_target_ref'' d
      = Inr (c, d')"
    by (auto simp: complete_authorized_merge_def transaction_Inr split: if_splits)
  from t have "c \<in> set (db_completions d') \<and> mc_task c = t_id tk \<and> mc_commit c = da_commit a
    \<and> mc_merge_commit c = sha"
  proof (cases rule: complete_cases)
    case replay
    have u: "uniq intent_conflict (db_intents d)" using invD(1) [OF inv] by (simp add: tables_uniq_def)
    from invD(2) [OF inv] replay(2) obtain m where m: "m \<in> set (db_intents d)" "completes c m"
      unfolding provenance_def by blast
    have "mi \<in> set (intents_for d (ia_id au))" using c by (simp add: chain_def)
    then have "mi \<in> set (db_intents d)" by (simp add: intents_for_def)
    from intents.uniq_eq [OF u m(1) this] m(2) replay(4) have "m = mi"
      by (simp add: completes_def intent_conflict_def)
    with replay m(2) mi show ?thesis by (simp add: completes_def)
  next
    case (completed tk2 mi2 a2 v2 au2 eid refs)
    have "a2 = a"
      using completed(1,6) chain_lookup(1) [OF c] load_task_Inr [OF completed(1)] by simp
    moreover have "db_completions d' = db_completions d @ [c]"
      using cas_tx_frame [OF completed(14)] by simp
    ultimately show ?thesis using completed(9,10,11,12) v by (simp add: completes_def evidence_complete_for_def)
  qed
  with c m g mi show ?thesis
    by (intro exI [of _ a] exI [of _ v] exI [of _ au] exI [of _ mi] exI [of _ sha] exI [of _ out]) simp
qed

theorem recovery_needs_ancestry_witness:
  "\<exists>evs d'. reachable (run_authorized StatusMerging 6 evs)
     \<and> recover_authorized_merge (run_fresh 6) 9 moved_git (run_task StatusMerging 6)
         (run_authorized StatusMerging 6 evs)
       = (Inr (Some (run_completion moved_sha ''authoritative_target_ref'')), d')
     \<and> run_completion moved_sha ''authoritative_target_ref'' \<in> set (db_completions d')"
proof -
  obtain evs where r: "reachable (run_authorized StatusMerging 6 evs)" "run_events 11 evs"
    using run_authorized_reachable by blast
  obtain d' where d': "recover_authorized_merge (run_fresh 6) 9 moved_git (run_task StatusMerging 6)
      (run_authorized StatusMerging 6 evs)
      = (Inr (Some (run_completion moved_sha ''authoritative_target_ref'')), d')"
    using run_recover [OF r(2)] by blast
  have "run_task StatusMerging 6 \<in> set (db_tasks (run_authorized StatusMerging 6 evs))"
    by (simp add: run_dbs)
  from recovery_needs_ancestry [OF r(1) this d'] d' r(1) show ?thesis by blast
qed

lemma cur_invalidated:
  assumes "uniq artifact_conflict (db_artifacts d)" "cur d tid = [a]"
  shows "cur (invalidate_artifact (da_id a) now r d) tid = []"
proof -
  have a: "a \<in> set (db_artifacts d)" using assms(2) by (auto simp: cur_def dest: filter_eq_ConsD)
  have "\<not> (da_task b = tid \<and> artifact_current b)"
    if b: "b \<in> set (db_artifacts (invalidate_artifact (da_id a) now r d))" for b
  proof
    assume c: "da_task b = tid \<and> artifact_current b"
    from b obtain x where x: "x \<in> set (db_artifacts d)"
      "b = (if da_id x = da_id a \<and> artifact_current x then invalidated now r x else x)"
      unfolding invalidate_artifacts by auto
    have "\<not> (da_id x = da_id a \<and> artifact_current x)"
      using x(2) c by (auto simp: invalidated_def artifact_current_def split: if_splits)
    with x(2) have "b = x" by simp
    with c x(1) have "x = a" using filter_single [OF assms(2) [unfolded cur_def]] by simp
    with \<open>\<not> (da_id x = da_id a \<and> artifact_current x)\<close> c \<open>b = x\<close> show False by simp
  qed
  then show ?thesis by (simp add: cur_def filter_empty_conv)
qed

section \<open>Freezing\<close>

lemma fold_max_mono: "(m :: nat) \<le> fold max xs m"
proof (induction xs arbitrary: m)
  case (Cons x xs)
  have "m \<le> max x m" by simp
  also have "\<dots> \<le> fold max xs (max x m)" by (rule Cons)
  finally show ?case by simp
qed simp

lemma fold_max_bound: "x \<in> set xs \<Longrightarrow> x \<le> fold max xs (m :: nat)"
proof (induction xs arbitrary: m)
  case (Cons y ys)
  then show ?case
    using order_trans [OF max.cobounded1 fold_max_mono [of "max y m" ys]] by auto
qed simp

lemma frozen_facts:
  assumes "freeze_transaction fresh now tid s d = Inr (a, d')"
  shows "da_task a = tid \<and> da_base a = as_base s \<and> artifact_current a
    \<and> (\<forall>x \<in> set (db_artifacts d). \<not> artifact_conflict a x)"
  using assms
  by (rule freeze_transaction_Inr)
    (simp add: frozen_artifact_def artifact_current_def load_task_Inr)

text \<open>C19: freezing succeeds only when the task has no current artifact; the new artifact is then its only
  current one, has a version above every earlier artifact of the task, and records the commit and
  base of the snapshot, which a passed gate run of the same database confirms.\<close>

theorem freeze_single_version:
  assumes "reachable d" "freeze_delivery_artifact fresh now tid s d = (Inr a, d')"
  shows "cur d tid = [] \<and> cur d' tid = [a]
    \<and> (\<forall>b \<in> set (db_artifacts d). da_task b = tid \<longrightarrow> da_version b < da_version a)
    \<and> da_commit a = as_commit s \<and> da_base a = as_base s \<and> gated d' a"
proof -
  have t: "freeze_transaction fresh now tid s d = Inr (a, d')"
    using assms(2) by (auto simp: freeze_delivery_artifact_def transaction_Inr split: sum.splits)
  note F = freeze_inv [OF reachable_inv [OF assms(1)] t]
  have b: "da_base a = as_base s" "artifact_current a" using frozen_facts [OF t] by simp_all
  have "cur d' tid = cur d tid @ [a]"
    using F b by (simp add: cur_def)
  moreover have "da_version c < da_version a" if "c \<in> set (db_artifacts d)" "da_task c = tid" for c
    using F that fold_max_bound [of "da_version c"]
    by (auto simp: max_artifact_version_def less_Suc_eq_le)
  moreover have "gated d' a" using F invD(2) by (auto simp: provenance_def)
  ultimately show ?thesis using F b by simp
qed

theorem freeze_single_version_witness:
  "\<exists>evs d'. reachable (run_base StatusTestingReady 3 evs)
     \<and> freeze_delivery_artifact (run_fresh 3) 9 ''t1'' run_snapshot (run_base StatusTestingReady 3 evs)
       = (Inr run_artifact, d') \<and> cur d' ''t1'' = [run_artifact]"
proof -
  obtain evs where r: "reachable (run_base StatusTestingReady 3 evs)" "run_events 3 evs"
    using run_testing_ready by blast
  obtain ev where f: "freeze_delivery_artifact (run_fresh 3) 9 ''t1'' run_snapshot
      (run_base StatusTestingReady 3 evs)
      = (Inr run_artifact, run_frozen StatusVerificationReady 4 (evs @ [ev]))"
    using run_freeze [OF r(2)] by blast
  from freeze_single_version [OF r(1) f] f r(1) show ?thesis by blast
qed

text \<open>As long as a task has a current artifact, whatever its status history, \<open>FreezeDeliveryArtifact\<close>
  fails and changes nothing: the unique index on current artifacts rejects the row.  A task that
  left the delivery states with its artifact still current (a failed merge that is retried) can
  therefore not be frozen again.\<close>

theorem freeze_blocked:
  assumes "b \<in> set (db_artifacts d)" "da_task b = tid" "artifact_current b"
  shows "\<exists>e. freeze_delivery_artifact fresh now tid s d = (Inl e, d)"
proof (cases "validate_artifact_snapshot s")
  case (Inr u)
  have "freeze_transaction fresh now tid s d \<noteq> Inr (a, d')" for a d'
  proof
    assume "freeze_transaction fresh now tid s d = Inr (a, d')"
    from frozen_facts [OF this] assms show False by (auto simp: artifact_conflict_def)
  qed
  then show ?thesis
    using Inr by (auto simp: freeze_delivery_artifact_def transaction_def split: sum.splits)
qed (simp add: freeze_delivery_artifact_def)

text \<open>A merging task that fails and is retried up to \<open>testing_ready\<close> keeps its artifact: all the
  moves are steps of the orchestrator.\<close>

theorem freeze_blocked_witness:
  "\<exists>evs e. reachable (run_authorized StatusTestingReady 10 evs)
     \<and> freeze_delivery_artifact (run_fresh 20) 9 ''t1'' run_snapshot
         (run_authorized StatusTestingReady 10 evs) = (Inl e, run_authorized StatusTestingReady 10 evs)"
proof -
  obtain evs where "reachable (run_authorized StatusTestingReady 10 evs)" using run_retried by blast
  moreover have "\<exists>e. freeze_delivery_artifact (run_fresh 20) 9 ''t1'' run_snapshot
      (run_authorized StatusTestingReady 10 evs) = (Inl e, run_authorized StatusTestingReady 10 evs)"
    by (rule freeze_blocked [of run_artifact])
      (simp_all add: run_dbs run_artifact_def frozen_artifact_def artifact_current_def)
  ultimately show ?thesis by blast
qed

section \<open>Verification, authorization and rework\<close>

text \<open>C18: what a successful \<open>VerifyDelivery\<close> did, in a reachable database: it replayed the record of
  the same key and request hash and changed nothing, or the task was in \<open>verification_ready\<close> at the
  observed version and the request named its current artifact exactly; then one record about that
  artifact was appended, a pass leaves the artifact current and the task in \<open>integration_ready\<close>,
  and a failure leaves no current artifact and the task in a rework state.\<close>

theorem verify_delivery_effect:
  assumes "reachable d" "verify_delivery fresh now hash req0 d = (Inr v, d')"
    and "req = normalize_verify_request req0"
  shows "(d' = d \<and> v \<in> set (db_verifications d) \<and> vr_key v = vq_key req \<and> vr_hash v = hash req)
    \<or> (\<exists>tk a t. load_task (vq_task req) d = Inr tk \<and> t_status tk = StatusVerificationReady
        \<and> t_version tk = vq_observed req \<and> cur d (vq_task req) = [a]
        \<and> da_version a = vq_version req \<and> da_commit a = vq_commit req
        \<and> db_verifications d' = db_verifications d @ [v] \<and> verifies v a
        \<and> load_task (vq_task req) d' = Inr t
        \<and> (if vr_result v = VerificationFailed
           then cur d' (vq_task req) = [] \<and> t_status t \<in> {StatusHostRework, StatusInProgress}
           else cur d' (vq_task req) = [a] \<and> t_status t = StatusIntegrationReady))"
proof -
  from assms(2) have t: "verify_transaction fresh now (hash req) req d = Inr (v, d')"
    by (auto simp: verify_delivery_def Let_def assms(3) [symmetric] transaction_Inr split: sum.splits)
  note U = invD(1) [OF reachable_inv [OF assms(1)]]
  show ?thesis
  proof (cases "tbl_first vr_id (\<lambda>v. vr_key v = vq_key req) (db_verifications d)")
    case (Some r)
    with t tbl_first_Some [OF Some] show ?thesis
      by (auto simp: verify_transaction_def split: if_splits)
  next
    case None
    with t have "verify_fresh fresh now (hash req) req d = Inr (v, d')"
      by (simp add: verify_transaction_def)
    from verify_fresh_effect [OF U this] obtain tk a target where
      l: "load_task (vq_task req) d = Inr tk" "t_status tk = StatusVerificationReady"
        "t_version tk = vq_observed req" "current_artifact (vq_task req) d = Inr a"
        "exact_artifact a (vq_version req) (vq_commit req)" "verifies v a" "vr_result v = vq_result req"
      and e: "same_evidence ((if vq_result req = VerificationFailed
          then invalidate_artifact (da_id a) now ''verification_failed'' d else d)
            \<lparr>db_verifications := db_verifications d @ [v]\<rparr>) d'"
      and g: "target = (if vq_result req = VerificationFailed then target else StatusIntegrationReady)"
        "vq_result req = VerificationFailed \<Longrightarrow> target \<in> {StatusHostRework, StatusInProgress}"
        "\<exists>t. load_task (vq_task req) d' = Inr t \<and> t_status t = target" by metis
    have c: "cur d (vq_task req) = [a]"
      using current_artifact_cur [OF _ l(4)] U by (simp add: tables_uniq_def)
    have n: "cur (invalidate_artifact (da_id a) now r d) (vq_task req) = []" for r
      by (rule cur_invalidated [OF _ c]) (use U in \<open>simp add: tables_uniq_def\<close>)
    have "cur d' (vq_task req) = (if vq_result req = VerificationFailed then [] else [a])"
      using e n c by (simp add: same_evidence_def cur_def)
    moreover have "db_verifications d' = db_verifications d @ [v]"
      using e by (simp add: same_evidence_def)
    ultimately show ?thesis
      using l g c by (auto simp: exact_artifact_def)
  qed
qed

theorem verify_delivery_effect_witness:
  "\<exists>evs d' t. reachable (run_frozen StatusVerificationReady 4 evs)
     \<and> verify_delivery (run_fresh 4) 9 (\<lambda>_. ''h'') run_verify (run_frozen StatusVerificationReady 4 evs)
       = (Inr run_verification, d') \<and> load_task ''t1'' d' = Inr t \<and> t_status t = StatusIntegrationReady"
proof -
  obtain evs where r: "reachable (run_frozen StatusVerificationReady 4 evs)" "run_events 9 evs"
    using run_frozen_reachable by blast
  let ?d = "run_frozen StatusVerificationReady 4 evs"
  obtain d' where v: "verify_delivery (run_fresh 4) 9 (\<lambda>_. ''h'') run_verify ?d = (Inr run_verification, d')"
    using run_verifies [OF r(2)] by blast
  have q: "vq_task (normalize_verify_request run_verify) = ''t1''"
    by (simp add: normalize_verify_request_def run_verify_def sample_verify_def)
  have "db_verifications ?d = []" "vr_result run_verification = VerificationPassed"
    by (simp_all add: run_dbs run_verification_def)
  with verify_delivery_effect [OF r(1) v refl] q
  have "\<exists>t. load_task ''t1'' d' = Inr t \<and> t_status t = StatusIntegrationReady" by auto
  with r(1) v show ?thesis by blast
qed

text \<open>C3: what a successful \<open>AuthorizeIntegration\<close> did: it replayed the authorization of the same key
  and request hash, or the task was in \<open>integration_ready\<close> at the observed version, the request
  named its current artifact and a passing verification of that artifact, and git resolved branch
  and base to exactly the commits of the artifact; the authorization and its merge intent were
  appended and the task is merging.\<close>

theorem authorize_integration_effect:
  assumes "reachable d" "authorize_integration fresh now hash g req d = (Inr au, d')"
  shows "(d' = d \<and> au \<in> set (db_authorizations d) \<and> ia_key au = iq_key req \<and> ia_hash au = hash req)
    \<or> (\<exists>tk a v t. load_task (iq_task req) d = Inr tk \<and> t_status tk = StatusIntegrationReady
        \<and> t_version tk = iq_observed req \<and> cur d (iq_task req) = [a]
        \<and> da_version a = iq_version req \<and> da_commit a = iq_commit req
        \<and> v \<in> set (db_verifications d) \<and> vr_id v = iq_verification req
        \<and> vr_result v = VerificationPassed \<and> authorizes au v a
        \<and> g_run g (g_worktree g tk) [''rev-parse'', da_branch a] \<in> {GitOk s | s. trim_space s = trim_space (da_commit a)}
        \<and> g_run g (g_worktree g tk) [''rev-parse'', da_base_branch a] \<in> {GitOk s | s. trim_space s = trim_space (da_base a)}
        \<and> db_authorizations d' = db_authorizations d @ [au]
        \<and> length (db_intents d') = length (db_intents d) + 1
        \<and> load_task (iq_task req) d' = Inr t \<and> t_status t = StatusMerging)"
proof -
  from assms(2) have t: "authorize_transaction fresh now (hash req) g req d = Inr (Inr au, d')"
    by (auto simp: authorize_integration_def transaction_def split: sum.splits prod.splits)
  note inv = reachable_inv [OF assms(1)] and U = invD(1) [OF reachable_inv [OF assms(1)]]
  show ?thesis
  proof (cases "tbl_first ia_id (\<lambda>x. ia_key x = iq_key req) (db_authorizations d)")
    case (Some r)
    with t tbl_first_Some [OF Some] show ?thesis
      by (auto simp: authorize_transaction_def split: if_splits)
  next
    case None
    with t have "authorize_fresh fresh now (hash req) g req d = Inr (Inr au, d')"
      by (simp add: authorize_transaction_def)
    then show ?thesis
    proof (cases rule: authorize_fresh_cases)
      case (authorized tk a v au' mi eid refs)
      note id = load_task_Inr [OF authorized(1)]
      have c: "cur d (iq_task req) = [a]"
        using current_artifact_cur [OF _ authorized(4)] U id by (simp add: tables_uniq_def)
      have a: "a \<in> set (db_artifacts d)" "da_task a = t_id tk"
        using current_artifact_Inr [OF authorized(4)] by simp_all
      have "verifies v a" by (rule verification_commit [OF inv authorized(6) a(1) authorized(8)])
      then have au: "authorizes au v a"
        using authorized(9,11,12) a(2) by (simp add: authorizes_def new_authorization_def)
      let ?e = "d\<lparr>db_authorizations := db_authorizations d @ [au'], db_intents := db_intents d @ [mi]\<rparr>"
      have u: "tables_uniq ?e"
        using create_tables_uniq(8) [OF create_tables_uniq(4) [OF U]] authorized(14,15)
        by (auto simp: create_Inr)
      have "\<exists>t. load_task (iq_task req) d' = Inr t \<and> t_status t = StatusMerging"
        using cas_tx_loads [OF u authorized(16)] id by auto
      moreover have "db_authorizations d' = db_authorizations d @ [au]"
        "length (db_intents d') = length (db_intents d) + 1"
        using cas_tx_frame [OF authorized(16)] authorized(11) by simp_all
      ultimately show ?thesis
        using authorized(1-3,5-7,9,10) c au
        by (auto simp: exact_artifact_def delivery_artifact_drift_def res_bind_Inr run_git_Inr
            Let_def split: if_splits)
    qed simp
  qed
qed

theorem authorize_integration_effect_witness:
  "\<exists>evs d' t. reachable (run_verified StatusIntegrationReady 5 evs)
     \<and> authorize_integration (run_fresh 5) 9 (\<lambda>_. ''h'') sample_git run_integrate
         (run_verified StatusIntegrationReady 5 evs) = (Inr run_authorization, d')
     \<and> load_task ''t1'' d' = Inr t \<and> t_status t = StatusMerging"
proof -
  obtain evs where r: "reachable (run_verified StatusIntegrationReady 5 evs)" "run_events 10 evs"
    using run_verified_reachable by blast
  let ?d = "run_verified StatusIntegrationReady 5 evs"
  obtain d' where v: "authorize_integration (run_fresh 5) 9 (\<lambda>_. ''h'') sample_git run_integrate ?d
      = (Inr run_authorization, d')" using run_authorizes [OF r(2)] by blast
  have "db_authorizations ?d = []" "iq_task run_integrate = ''t1''"
    by (simp_all add: run_dbs run_integrate_def)
  with authorize_integration_effect [OF r(1) v]
  have "\<exists>t. load_task ''t1'' d' = Inr t \<and> t_status t = StatusMerging" by auto
  with r(1) v show ?thesis by blast
qed

section \<open>Replays\<close>

text \<open>A lookup by idempotency key finds the one row that has it.\<close>

lemma key_lookup:
  assumes "tables_uniq d"
  shows "\<lbrakk>v \<in> set (db_verifications d); vr_key v = k\<rbrakk> \<Longrightarrow>
      tbl_first vr_id (\<lambda>x. vr_key x = k) (db_verifications d) = Some v"
    and "\<lbrakk>x \<in> set (db_authorizations d); ia_key x = k\<rbrakk> \<Longrightarrow>
      tbl_first ia_id (\<lambda>y. ia_key y = k) (db_authorizations d) = Some x"
    and "\<lbrakk>w \<in> set (db_reworks d); rw_key w = k\<rbrakk> \<Longrightarrow>
      tbl_first rw_id (\<lambda>y. rw_key y = k) (db_reworks d) = Some w"
    and "\<lbrakk>b \<in> set (db_submissions d); hb_key b = k\<rbrakk> \<Longrightarrow>
      tbl_first hb_id (\<lambda>y. hb_key y = k) (db_submissions d) = Some b"
  using assms unfolding tables_uniq_def
  by (auto intro!: verifications.first_unique authorizations.first_unique reworks.first_unique
      submissions.first_unique simp: conflict_defs)

text \<open>C20: the delivery operations are idempotent: repeating a request whose key is recorded, at any later
  time and whatever happened to the task since, returns the recorded row and changes nothing when
  the request is the same, and is refused without a change when another request reuses the key.\<close>

theorem idempotent_replay:
  assumes "reachable d"
  shows "(v \<in> set (db_verifications d) \<and> vr_key v = vq_key (normalize_verify_request vreq)
      \<and> validate_verify_request (normalize_verify_request vreq) = Inr ()
     \<longrightarrow> verify_delivery fresh now vh vreq d
        = (if vr_hash v = vh (normalize_verify_request vreq) then Inr v else Inl ErrIdempotencyConflict, d))
    \<and> (x \<in> set (db_authorizations d) \<and> ia_key x = iq_key ireq \<and> validate_integrate_request ireq = Inr ()
     \<longrightarrow> authorize_integration fresh now ih g ireq d
        = (if ia_hash x = ih ireq then Inr x else Inl ErrIdempotencyConflict, d))
    \<and> (w \<in> set (db_reworks d) \<and> rw_key w = rq_key rreq \<and> validate_rework_request rreq = Inr ()
     \<longrightarrow> request_delivery_rework fresh now rh rreq d
        = (if rw_hash w = rh rreq then Inr w else Inl ErrIdempotencyConflict, d))
    \<and> (b \<in> set (db_submissions d) \<and> hb_key b = sq_key sreq \<and> validate_submit_host_rework sreq = Inr ()
     \<longrightarrow> submit_host_rework fresh now sh g sreq d d
        = (if hb_hash b = sh sreq then Inr b else Inl ErrIdempotencyConflict, d))"
proof (intro conjI impI; elim conjE)
  note K = key_lookup [OF invD(1) [OF reachable_inv [OF assms]]]
  let ?r = "normalize_verify_request vreq"
  show "verify_delivery fresh now vh vreq d
      = (if vr_hash v = vh ?r then Inr v else Inl ErrIdempotencyConflict, d)"
    if "v \<in> set (db_verifications d)" "vr_key v = vq_key ?r" "validate_verify_request ?r = Inr ()"
    using that K(1) [OF that(1,2)]
    by (simp add: verify_delivery_def verify_transaction_def transaction_def Let_def)
  show "authorize_integration fresh now ih g ireq d
      = (if ia_hash x = ih ireq then Inr x else Inl ErrIdempotencyConflict, d)"
    if "x \<in> set (db_authorizations d)" "ia_key x = iq_key ireq" "validate_integrate_request ireq = Inr ()"
    using that K(2) [OF that(1,2)]
    by (simp add: authorize_integration_def authorize_transaction_def transaction_def)
  show "request_delivery_rework fresh now rh rreq d
      = (if rw_hash w = rh rreq then Inr w else Inl ErrIdempotencyConflict, d)"
    if "w \<in> set (db_reworks d)" "rw_key w = rq_key rreq" "validate_rework_request rreq = Inr ()"
    using that K(3) [OF that(1,2)]
    by (simp add: request_delivery_rework_def rework_transaction_def transaction_def)
  show "submit_host_rework fresh now sh g sreq d d
      = (if hb_hash b = sh sreq then Inr b else Inl ErrIdempotencyConflict, d)"
    if "b \<in> set (db_submissions d)" "hb_key b = sq_key sreq" "validate_submit_host_rework sreq = Inr ()"
    using that K(4) [OF that(1,2)] by (simp add: submit_host_rework_def)
qed

theorem idempotent_replay_witness:
  "\<exists>evs. reachable (run_completed StatusDone 7 evs)
     \<and> authorize_integration (run_fresh 9) 11 (\<lambda>_. ''h'') moved_git run_integrate
         (run_completed StatusDone 7 evs) = (Inr run_authorization, run_completed StatusDone 7 evs)
     \<and> authorize_integration (run_fresh 9) 11 (\<lambda>_. ''other'') moved_git run_integrate
         (run_completed StatusDone 7 evs) = (Inl ErrIdempotencyConflict, run_completed StatusDone 7 evs)"
proof -
  obtain evs where r: "reachable (run_completed StatusDone 7 evs)" using run_completed_reachable by blast
  have "run_authorization \<in> set (db_authorizations (run_completed StatusDone 7 evs))"
    "ia_key run_authorization = iq_key run_integrate" "ia_hash run_authorization = ''h''"
    "validate_integrate_request run_integrate = Inr ()"
    by (simp_all add: run_dbs run_authorization_def new_authorization_def validate_integrate_request_def
        run_integrate_def run_verification_def run_fresh_def uuid_Nil_def trim_space_def is_space_def)
  then have "authorize_integration (run_fresh 9) 11 ih moved_git run_integrate
      (run_completed StatusDone 7 evs) = (if ''h'' = ih run_integrate then Inr run_authorization
        else Inl ErrIdempotencyConflict, run_completed StatusDone 7 evs)" for ih
    using idempotent_replay [OF r, where x = run_authorization and ireq = run_integrate
        and fresh = "run_fresh 9" and now = 11 and ih = ih and g = moved_git] by simp
  from this [of "\<lambda>_. ''h''"] this [of "\<lambda>_. ''other''"] r
  show ?thesis by auto
qed

text \<open>What a fresh rework request did in a reachable database: the task was in one of the two review
  states at the observed version, the request named the current artifact exactly, a rework record
  about that artifact was appended, no artifact of the task is current afterwards, and the task is
  in implementation or in host rework.\<close>

theorem request_rework_effect:
  assumes "reachable d" "request_delivery_rework fresh now hash req d = (Inr w, d')" "d' \<noteq> d"
  shows "\<exists>tk a t. load_task (rq_task req) d = Inr tk
    \<and> t_status tk \<in> {StatusVerificationReady, StatusIntegrationReady} \<and> t_version tk = rq_observed req
    \<and> cur d (rq_task req) = [a] \<and> da_version a = rq_version req \<and> da_commit a = rq_commit req
    \<and> rw_artifact w = da_id a \<and> db_reworks d' = db_reworks d @ [w]
    \<and> cur d' (rq_task req) = [] \<and> load_task (rq_task req) d' = Inr t
    \<and> t_status t \<in> {StatusHostRework, StatusInProgress}"
proof -
  note U = invD(1) [OF reachable_inv [OF assms(1)]]
  have ua: "uniq artifact_conflict (db_artifacts d)" using U by (simp add: tables_uniq_def)
  from assms(2,3) have "rework_fresh fresh now (hash req) req d = Inr (w, d')"
    by (auto simp: request_delivery_rework_def rework_transaction_def transaction_Inr
        split: sum.splits option.splits if_splits)
  from rework_fresh_effect [OF U this] obtain tk a target where
    r: "load_task (rq_task req) d = Inr tk"
      "t_status tk = StatusVerificationReady \<or> t_status tk = StatusIntegrationReady"
      "t_version tk = rq_observed req" "current_artifact (rq_task req) d = Inr a"
      "exact_artifact a (rq_version req) (rq_commit req)" "rw_artifact w = da_id a"
      "db_reworks d' = db_reworks d @ [w]"
    and e: "same_evidence (invalidate_artifact (da_id a) now ''rework_requested'' d) d'"
      "target \<in> {StatusHostRework, StatusInProgress}"
      "\<exists>t. load_task (rq_task req) d' = Inr t \<and> t_status t = target" by metis
  have c: "cur d (rq_task req) = [a]" by (rule current_artifact_cur [OF ua r(4)])
  have "cur d' (rq_task req) = []"
    using e(1) cur_invalidated [OF ua c] by (simp add: same_evidence_def cur_def)
  with r e(2,3) c show ?thesis by (auto simp: exact_artifact_def)
qed

theorem request_rework_effect_witness:
  "\<exists>evs w d' t. reachable (run_frozen StatusVerificationReady 4 evs)
     \<and> request_delivery_rework (run_fresh 4) 9 (\<lambda>_. ''h'') run_rework (run_frozen StatusVerificationReady 4 evs)
       = (Inr w, d') \<and> cur d' ''t1'' = []"
proof -
  obtain evs where r: "reachable (run_frozen StatusVerificationReady 4 evs)" "run_events 9 evs"
    using run_frozen_reachable by blast
  obtain w d' where v: "request_delivery_rework (run_fresh 4) 9 (\<lambda>_. ''h'') run_rework
      (run_frozen StatusVerificationReady 4 evs) = (Inr w, d')" "db_reworks d' = [w]"
    using run_reworks [OF r(2)] by blast
  have "d' \<noteq> run_frozen StatusVerificationReady 4 evs" "rq_task run_rework = ''t1''"
    using v(2) by (auto simp: run_dbs run_rework_def)
  with request_rework_effect [OF r(1) v(1)] r(1) v(1) show ?thesis by auto
qed

end
