(* ===== verification/RetryBudget.thy ===== *)
theory RetryBudget
  imports Rows "HOL-Library.Word"
begin

text \<open>
  \<open>internal/orchestrator/retry_policy.go\<close> and \<open>failure_budget.go\<close>: the exponential backoff of
  merge retries, with \<open>time.Duration\<close> as the 64-bit word it is, and the per-edge retry budgets
  kept in a task's context.

  \<open>parse_time\<close> is \<open>time.Parse(time.RFC3339Nano, s)\<close> with its error ignored.
\<close>

section \<open>Backoff\<close>

type_synonym duration64 = "64 word"

record retry_policy =
  rp_max_retries :: int
  rp_base_delay :: duration64
  rp_max_delay :: duration64

definition max_merge_retries :: int where
  "max_merge_retries = 5"

definition merge_retry_base_delay :: duration64 where
  "merge_retry_base_delay = 10 * 1000000000"

definition default_merge_retry_policy :: retry_policy where
  "default_merge_retry_policy =
     \<lparr>rp_max_retries = max_merge_retries, rp_base_delay = merge_retry_base_delay,
      rp_max_delay = 5 * 60 * 1000000000\<rparr>"

text \<open>\<open>for i := 1; i < attempt; i++ { d *= 2 }\<close>: \<open>attempt - 1\<close> doublings.\<close>

fun double_times :: "nat \<Rightarrow> duration64 \<Rightarrow> duration64" where
  "double_times 0 d = d"
| "double_times (Suc n) d = double_times n (d * 2)"

definition retry_delay :: "retry_policy \<Rightarrow> int \<Rightarrow> duration64" where
  "retry_delay p attempt =
     (if attempt < 1 then rp_base_delay p
      else (let d = double_times (nat attempt - 1) (rp_base_delay p) in
            if 0 <s rp_max_delay p \<and> rp_max_delay p <s d then rp_max_delay p else d))"

definition retry_exhausted :: "retry_policy \<Rightarrow> int \<Rightarrow> bool" where
  "retry_exhausted p attempt \<longleftrightarrow> rp_max_retries p \<le> attempt"

lemma double_times_eq: "double_times n d = d * 2 ^ n"
  by (induction n arbitrary: d) (simp_all add: mult.assoc)

lemma sint_double_times:
  assumes "0 \<le> sint d" "sint d * 2 ^ n < 2 ^ 63"
  shows "sint (double_times n d) = sint d * 2 ^ n"
proof -
  have nn: "0 \<le> sint d * 2 ^ n" using assms(1) by simp
  have "sint (double_times n d) = sint (word_of_int (sint d * 2 ^ n) :: duration64)"
    by (simp add: double_times_eq)
  also have "\<dots> = signed_take_bit 63 (sint d * 2 ^ n)"
    by (subst sint_sbintrunc') simp
  also have "\<dots> = sint d * 2 ^ n"
    using assms(2) nn by (intro signed_take_bit_int_eq_self) linarith+
  finally show ?thesis .
qed

section \<open>Failure classes\<close>

definition any_contains :: "string list \<Rightarrow> string \<Rightarrow> bool" where
  "any_contains subs text \<longleftrightarrow> list_ex (\<lambda>sub. str_contains sub text) subs"

text \<open>The cases of \<open>normalizeFailureClass\<close> in their order, the first match wins.\<close>

definition failure_patterns :: "(string list \<times> string) list" where
  "failure_patterns =
     [([''missing_active_contract_assertion'', ''missing_active_runtime_assertion'', ''invalid_test_checkpoint''],
        ''test_contract''),
      ([''mutation_anchor_mismatch'', ''mutation anchor mismatch''], ''mutation_anchor_mismatch''),
      ([''token_budget'', ''token budget'', ''no_progress'', ''no progress''], ''inference_budget''),
      ([''artifact_handoff'', ''checkpoint handoff''], ''artifact_handoff''),
      ([''model_truncation'', ''context_limit'', ''context limit'', ''truncat''], ''model_truncation''),
      ([''tool_loop'', ''tool loop'', ''too many tool'', ''tool use loop''], ''tool_loop''),
      ([''infra_timeout'', ''timeout'', ''timed out''], ''infra_timeout''),
      ([''branch_permission'', ''permission denied'', ''not writable''], ''branch_permission''),
      ([''branch_contamination'', ''contamination'', ''worker trace'', ''prompt artifact''], ''branch_contamination''),
      ([''test_failure'', ''tests_failed'', ''test failed'', ''go test'', ''pytest''], ''test_failure''),
      ([''plan_validation_failed''], ''planner_validation''),
      ([''planner_unhealthy'', ''upstream'', ''planner_http''], ''planner_unavailable''),
      ([''oom'', ''killed'', ''terminated''], ''infra_failure''),
      ([''tool'', ''exit_nonzero'', ''command''], ''tool_failure'')]"

definition normalize_failure_class :: "string \<Rightarrow> string \<Rightarrow> string" where
  "normalize_failure_class reason evidence =
     (let text = to_lower (trim_space (reason @ '' '' @ evidence)) in
      case List.find (\<lambda>(subs, _). any_contains subs text) failure_patterns of
        Some (_, class) \<Rightarrow> class
      | None \<Rightarrow> trim_space reason)"

definition max_retries_for_failure_class :: "string \<Rightarrow> int" where
  "max_retries_for_failure_class c =
     (if c \<in> {''model_truncation'', ''tool_loop'', ''test_contract''} then 1
      else if c \<in> {''branch_permission'', ''branch_contamination'', ''test_failure'', ''inference_budget'',
                   ''artifact_handoff''} then 0
      else if c \<in> {''infra_timeout'', ''infra_failure''} then 3
      else 2)"

section \<open>Budgets\<close>

record retry_budget =
  rb_edge :: string
  rb_class :: string
  rb_attempts :: int
  rb_max :: int
  rb_exhausted :: bool
  rb_last_reason :: string
  rb_last_summary :: string
  rb_last_at :: time

definition no_budget :: retry_budget where
  "no_budget = \<lparr>rb_edge = [], rb_class = [], rb_attempts = 0, rb_max = 0, rb_exhausted = False,
     rb_last_reason = [], rb_last_summary = [], rb_last_at = zero_time\<rparr>"

definition string_from_any :: "gany option \<Rightarrow> string" where
  "string_from_any v = (case v of Some (GStr s) \<Rightarrow> s | _ \<Rightarrow> [])"

definition int_from_any :: "gany option \<Rightarrow> int" where
  "int_from_any v = (case v of Some (GInt n) \<Rightarrow> n | Some (GFloat q) \<Rightarrow> trunc_rat q | _ \<Rightarrow> 0)"

definition bool_from_any :: "gany option \<Rightarrow> bool" where
  "bool_from_any v = (case v of Some (GBool b) \<Rightarrow> b | _ \<Rightarrow> False)"

definition time_from_any :: "(string \<Rightarrow> time) \<Rightarrow> gany option \<Rightarrow> time" where
  "time_from_any parse_time v =
     (case v of Some (GTime t) \<Rightarrow> t
      | Some (GStr s) \<Rightarrow> (if s = [] then zero_time else parse_time s)
      | _ \<Rightarrow> zero_time)"

definition map_from_any :: "gany option \<Rightarrow> (string \<times> gany) list option" where
  "map_from_any v = (case v of Some (GMap m) \<Rightarrow> Some m | _ \<Rightarrow> None)"

definition retry_budget_key :: "string \<Rightarrow> string \<Rightarrow> string" where
  "retry_budget_key edge class = trim_space edge @ ''|'' @ trim_space class"

definition load_retry_budget :: "(string \<Rightarrow> time) \<Rightarrow> json_field \<Rightarrow> string \<Rightarrow> string \<Rightarrow> retry_budget" where
  "load_retry_budget parse_time ctx edge class =
     (case map_from_any (json_get ctx ''retry_budgets'') of
        None \<Rightarrow> no_budget
      | Some budgets \<Rightarrow>
          (case map_from_any (map_of budgets (retry_budget_key edge class)) of
             None \<Rightarrow> no_budget
           | Some raw \<Rightarrow>
               \<lparr>rb_edge = string_from_any (map_of raw ''edge''),
                rb_class = string_from_any (map_of raw ''class''),
                rb_attempts = int_from_any (map_of raw ''attempts''),
                rb_max = int_from_any (map_of raw ''max_retries''),
                rb_exhausted = bool_from_any (map_of raw ''exhausted''),
                rb_last_reason = string_from_any (map_of raw ''last_reason''),
                rb_last_summary = string_from_any (map_of raw ''last_summary''),
                rb_last_at = time_from_any parse_time (map_of raw ''last_at'')\<rparr>))"

definition budget_value :: "retry_budget \<Rightarrow> gany" where
  "budget_value st = GMap
     [(''edge'', GStr (rb_edge st)), (''class'', GStr (rb_class st)),
      (''attempts'', GFloat (of_int (rb_attempts st))), (''max_retries'', GFloat (of_int (rb_max st))),
      (''exhausted'', GBool (rb_exhausted st)), (''last_reason'', GStr (rb_last_reason st)),
      (''last_summary'', GStr (rb_last_summary st)), (''last_at'', GTime (rb_last_at st))]"

definition store_retry_budget :: "retry_budget \<Rightarrow> json_field \<Rightarrow> json_field" where
  "store_retry_budget st ctx =
     (let budgets = (case map_from_any (json_get ctx ''retry_budgets'') of None \<Rightarrow> [] | Some m \<Rightarrow> m) in
      json_put ''retry_budgets''
        (GMap (gmap_put (retry_budget_key (rb_edge st) (rb_class st)) (budget_value st) budgets)) ctx)"

definition max_error_snippet_len :: nat where
  "max_error_snippet_len = 500"

definition truncate_str :: "string \<Rightarrow> nat \<Rightarrow> string" where
  "truncate_str s max_len = (if length s \<le> max_len then s else take max_len s)"

definition record_latest_failure :: "string \<Rightarrow> string \<Rightarrow> time \<Rightarrow> retry_budget \<Rightarrow> json_field \<Rightarrow> json_field" where
  "record_latest_failure class summary now budget ctx =
     json_put ''latest_failure_retry_exhausted'' (GBool (rb_exhausted budget))
       (json_put ''latest_failure_retry_max'' (GFloat (of_int (rb_max budget)))
         (json_put ''latest_failure_retry_attempts'' (GFloat (of_int (rb_attempts budget)))
           (json_put ''latest_failure_retry_edge'' (GStr (rb_edge budget))
             (json_put ''latest_failure_current'' (GBool True)
               (json_put ''latest_failure_at'' (GTime now)
                 (json_put ''latest_failure_summary'' (GStr (truncate_str summary max_error_snippet_len))
                   (json_put ''latest_failure_type'' (GStr class) ctx)))))))"

definition consume_retry_budget ::
  "(string \<Rightarrow> time) \<Rightarrow> task \<Rightarrow> string \<Rightarrow> string \<Rightarrow> string \<Rightarrow> time \<Rightarrow> retry_budget \<times> task" where
  "consume_retry_budget parse_time tk edge class0 summary now =
     (let ctx = (case t_context tk of None \<Rightarrow> Some Map.empty | Some m \<Rightarrow> Some m);
          class = normalize_failure_class class0 summary;
          st = load_retry_budget parse_time ctx edge class;
          max_retries = max_retries_for_failure_class class;
          attempts = rb_attempts st + 1;
          st' = st\<lparr>rb_edge := edge, rb_class := class, rb_max := max_retries, rb_attempts := attempts,
                   rb_last_reason := class, rb_last_summary := truncate_str summary max_error_snippet_len,
                   rb_last_at := now, rb_exhausted := max_retries < attempts\<rparr> in
      (st', tk\<lparr>t_context := record_latest_failure class summary now st' (store_retry_budget st' ctx)\<rparr>))"

definition retry_edge_for_task :: "task \<Rightarrow> string \<Rightarrow> string" where
  "retry_edge_for_task tk role = task_status_string (t_status tk) @ '':'' @ role"

section \<open>Loading after storing\<close>

lemma trunc_rat_of_int [simp]: "trunc_rat (of_int n) = n"
  by (simp add: trunc_rat_def)

lemma map_from_any_GMap [simp]: "map_from_any (Some (GMap m)) = Some m"
  by (simp add: map_from_any_def)

lemma load_store:
  "load_retry_budget pt (store_retry_budget st ctx) edge class =
     (if retry_budget_key edge class = retry_budget_key (rb_edge st) (rb_class st) then st
      else load_retry_budget pt ctx edge class)"
  by (auto simp: load_retry_budget_def store_retry_budget_def Let_def budget_value_def string_from_any_def
      int_from_any_def bool_from_any_def time_from_any_def map_from_any_def no_budget_def split: option.splits gany.splits)

lemma load_latest [simp]:
  "load_retry_budget pt (record_latest_failure c s now b ctx) edge class = load_retry_budget pt ctx edge class"
  by (simp add: load_retry_budget_def record_latest_failure_def)

lemma load_empty [simp]: "load_retry_budget pt (Some Map.empty) edge class = no_budget"
  "load_retry_budget pt None edge class = no_budget"
  by (simp_all add: load_retry_budget_def json_get_def map_from_any_def)

lemma load_context_default:
  "load_retry_budget pt (case ctx of None \<Rightarrow> Some Map.empty | Some m \<Rightarrow> Some m) edge class =
   load_retry_budget pt ctx edge class"
  by (cases ctx) simp_all

lemma consume_state:
  "fst (consume_retry_budget pt tk edge c0 summary now) =
     (load_retry_budget pt (t_context tk) edge (normalize_failure_class c0 summary))
       \<lparr>rb_edge := edge, rb_class := normalize_failure_class c0 summary,
        rb_max := max_retries_for_failure_class (normalize_failure_class c0 summary),
        rb_attempts := rb_attempts (load_retry_budget pt (t_context tk) edge (normalize_failure_class c0 summary)) + 1,
        rb_last_reason := normalize_failure_class c0 summary,
        rb_last_summary := truncate_str summary max_error_snippet_len, rb_last_at := now,
        rb_exhausted := max_retries_for_failure_class (normalize_failure_class c0 summary) <
          rb_attempts (load_retry_budget pt (t_context tk) edge (normalize_failure_class c0 summary)) + 1\<rparr>"
  by (simp add: consume_retry_budget_def Let_def load_context_default)

lemma consume_load:
  "load_retry_budget pt (t_context (snd (consume_retry_budget pt tk edge c0 summary now))) e c =
     (if retry_budget_key e c = retry_budget_key edge (normalize_failure_class c0 summary)
      then fst (consume_retry_budget pt tk edge c0 summary now)
      else load_retry_budget pt (t_context tk) e c)"
  by (simp add: consume_retry_budget_def Let_def load_store load_context_default)

section \<open>Properties\<close>

text \<open>As long as the doubled base delay fits into 63 bits, \<open>Delay\<close> is the documented
  \<open>min(base * 2^(attempt-1), max)\<close>, without wrap-around.\<close>

theorem retry_delay_exact:
  assumes "1 \<le> attempt" "0 \<le> sint (rp_base_delay p)" "0 < sint (rp_max_delay p)"
    "sint (rp_base_delay p) * 2 ^ (nat attempt - 1) < 2 ^ 63"
  shows "sint (retry_delay p attempt) =
         min (sint (rp_base_delay p) * 2 ^ (nat attempt - 1)) (sint (rp_max_delay p))"
  using assms sint_double_times [OF assms(2,4)]
  by (auto simp: retry_delay_def Let_def word_sless_alt min_def)

text \<open>Every attempt that \<open>Exhausted\<close> of the default policy lets pass: 10, 20, 40 and 80 seconds.\<close>

theorem retry_delay_exact_witness:
  "map (\<lambda>attempt. sint (retry_delay default_merge_retry_policy attempt)) [1, 2, 3, 4] =
     [10000000000, 20000000000, 40000000000, 80000000000]"
proof -
  have b: "sint (rp_base_delay default_merge_retry_policy) = 10000000000"
    "sint (rp_max_delay default_merge_retry_policy) = 300000000000"
    by (simp_all add: default_merge_retry_policy_def merge_retry_base_delay_def)
  show ?thesis
    using retry_delay_exact [of 1 default_merge_retry_policy] retry_delay_exact [of 2 default_merge_retry_policy]
      retry_delay_exact [of 3 default_merge_retry_policy] retry_delay_exact [of 4 default_merge_retry_policy]
    by (simp add: b)
qed

text \<open>Beyond it the delay wraps around: it is negative at attempt 31, where the cap does not apply, and
  zero from attempt 55 on.\<close>

lemma retry_delay_overflow:
  "retry_delay default_merge_retry_policy 31 <s 0" "retry_delay default_merge_retry_policy 55 = 0"
  by (simp_all add: retry_delay_def double_times_eq default_merge_retry_policy_def merge_retry_base_delay_def
      Let_def word_sless_alt)

text \<open>Failures recorded one after the other: edge, class, summary, time.\<close>

type_synonym failure = "string \<times> string \<times> string \<times> time"

fun consume_all :: "(string \<Rightarrow> time) \<Rightarrow> task \<Rightarrow> failure list \<Rightarrow> task" where
  "consume_all pt tk [] = tk"
| "consume_all pt tk ((edge, class, summary, now) # xs) =
     consume_all pt (snd (consume_retry_budget pt tk edge class summary now)) xs"

definition failure_key :: "failure \<Rightarrow> string" where
  "failure_key x = (case x of (edge, class, summary, _) \<Rightarrow>
     retry_budget_key edge (normalize_failure_class class summary))"

lemma consume_all_attempts:
  "rb_attempts (load_retry_budget pt (t_context (consume_all pt tk xs)) e c) =
   rb_attempts (load_retry_budget pt (t_context tk) e c) +
   int (length (filter (\<lambda>x. failure_key x = retry_budget_key e c) xs))"
proof (induction xs arbitrary: tk)
  case (Cons x xs)
  obtain edge c0 summary now where x: "x = (edge, c0, summary, now)" by (cases x)
  have key: "load_retry_budget pt ctx edge (normalize_failure_class c0 summary) = load_retry_budget pt ctx e c"
    if "retry_budget_key e c = retry_budget_key edge (normalize_failure_class c0 summary)" for ctx
    unfolding load_retry_budget_def that ..
  show ?case
    by (auto simp: x Cons.IH consume_load consume_state failure_key_def key)
qed simp

text \<open>Retry budgets count exactly: after any sequence of failures, the next failure on an edge is
  charged to the budget of its normalised class with one attempt more than the failures recorded
  under that key, and the budget is exhausted if and only if this exceeds the class's maximum.\<close>

theorem retry_budget_counts:
  "rb_attempts (fst (consume_retry_budget pt (consume_all pt tk xs) edge class0 summary now)) =
     rb_attempts (load_retry_budget pt (t_context tk) edge (normalize_failure_class class0 summary)) +
     int (length (filter (\<lambda>x. failure_key x = failure_key (edge, class0, summary, now)) xs)) + 1 \<and>
   (rb_exhausted (fst (consume_retry_budget pt (consume_all pt tk xs) edge class0 summary now)) \<longleftrightarrow>
     max_retries_for_failure_class (normalize_failure_class class0 summary) <
     rb_attempts (fst (consume_retry_budget pt (consume_all pt tk xs) edge class0 summary now)))"
  by (simp add: consume_state consume_all_attempts failure_key_def)

end
