(* ===== verification/MergeExecution.thy ===== *)
theory MergeExecution
  imports DeliveryRun RetryBudget
begin

text \<open>
  \<open>internal/orchestrator/merge_execution.go\<close> and \<open>merge_dispatch.go\<close>: one tick of a merging
  task, from the recovery before the merger is spawned to the routing of its exit code, and
  \<open>failTask\<close>, through which every failure goes.

  The clock, the fresh identifiers and git are read anew in every phase of a tick and are
  functions of the phase: 0 is the recovery before the dispatch, 1 the preflight, 2 the recovery
  after it and 3 the routing.  \<open>dispatch\<close> is the \<open>MergeDispatcher\<close>; \<open>dispatch_merge\<close> is the
  one of production, in which \<open>spawn\<close> (\<open>SpawnWorker\<close> of the container service and the records of the
  worker's identity) and \<open>await\<close> (the poll for its exit and the record of it) are parameters.
  \<open>advise\<close> is the analysis a supervisor model adds to a task's context.
\<close>

section \<open>Failing a task\<close>

definition fail_task :: "uuid \<Rightarrow> time \<Rightarrow> task \<Rightarrow> string \<Rightarrow> db \<Rightarrow> cas_result" where
  "fail_task eid now tk reason d =
     transition_task_atomic eid now (tk\<lparr>t_context := json_put ''failure_reason'' (GStr reason) (t_context tk)\<rparr>)
       StatusFailed ''orchestrator'' ''failure_policy'' reason [] d"

definition fail_task_with_failure_evidence ::
  "uuid \<Rightarrow> time \<Rightarrow> task \<Rightarrow> string \<Rightarrow> string \<Rightarrow> string \<Rightarrow> time \<Rightarrow> retry_budget \<Rightarrow> db \<Rightarrow> cas_result" where
  "fail_task_with_failure_evidence eid now tk reason class summary failed_at budget d =
     fail_task eid now (tk\<lparr>t_context := json_put ''failure_class'' (GStr class)
         (json_put ''failure_reason'' (GStr reason)
           (record_latest_failure class summary failed_at budget (t_context tk)))\<rparr>) reason d"

definition mark_terminal_merger_failure :: "string \<Rightarrow> task \<Rightarrow> task" where
  "mark_terminal_merger_failure reason tk =
     tk\<lparr>t_context := json_put ''terminal_merger_failure_reason'' (GStr reason) (t_context tk)\<rparr>"

section \<open>Merge attempts\<close>

definition load_merge_attempts :: "task \<Rightarrow> int" where
  "load_merge_attempts tk =
     (case json_get (t_context tk) ''merge_attempt_count'' of
        Some (GFloat q) \<Rightarrow> trunc_rat q | Some (GInt n) \<Rightarrow> n | _ \<Rightarrow> 0)"

definition save_merge_attempts :: "int \<Rightarrow> task \<Rightarrow> task" where
  "save_merge_attempts n tk = tk\<lparr>t_context := json_put ''merge_attempt_count'' (GInt n) (t_context tk)\<rparr>"

text \<open>\<open>db.Save(task)\<close>: every column of the row with this identifier is overwritten with the
  task in memory, whatever its status or version; without such a row the task is inserted.\<close>

definition save_task :: "time \<Rightarrow> task \<Rightarrow> db \<Rightarrow> task \<times> db" where
  "save_task now tk d =
     (let tk' = tk\<lparr>t_updated := now\<rparr> in
      (tk', d\<lparr>db_tasks :=
         (if list_ex (\<lambda>r. t_id r = t_id tk) (db_tasks d)
          then map (\<lambda>r. if t_id r = t_id tk then tk' else r) (db_tasks d)
          else db_tasks d @ [tk'])\<rparr>))"

section \<open>The merger\<close>

record merge_result =
  mr_success :: bool
  mr_conflicts :: "string list"
  mr_trivial :: int
  mr_non_trivial :: int
  mr_details :: string
  mr_container :: string
  mr_exit :: int
  mr_reason :: string

definition failure_reason_for_exit :: "int \<Rightarrow> string" where
  "failure_reason_for_exit code =
     (if code = 0 then [] else if code = 2 then ''conflict'' else if code = 3 then ''tests_failed''
      else if code = 4 then ''push_failed'' else if code = 5 then ''stale_evidence''
      else if code = 1 then ''misc'' else ''unknown'')"

text \<open>The two sentinel errors of a dispatch, which \<open>errors.Is\<close> also finds when they are wrapped
  because the transition to failed did not succeed, and every other error.\<close>

datatype dispatch_error = SpawnSkippedEmptyTestCmd | MergerPreflightFailed | DispatchError err

definition build_merger_argv ::
  "task \<Rightarrow> string \<Rightarrow> string \<Rightarrow> string \<Rightarrow> string \<Rightarrow> string \<Rightarrow> string \<Rightarrow> string \<Rightarrow>
   dispatch_error + string list" where
  "build_merger_argv tk project integration_branch test_cmd orch_url token feature_sha base_sha =
     (if trim_space test_cmd = [] then Inl SpawnSkippedEmptyTestCmd
      else Inr
        ([''--feature-branch'', t_branch tk, ''--project'', project, ''--task-id'', t_id tk,
          ''--test-cmd'', test_cmd, ''--expected-feature-sha'', feature_sha,
          ''--expected-base-sha'', base_sha]
         @ (if trim_space orch_url \<noteq> [] \<and> trim_space token \<noteq> []
            then [''--orch-url'', orch_url, ''--agentmon-token'', token] else [])
         @ (if integration_branch \<noteq> [] \<and> integration_branch \<notin> {''main'', ''master''}
            then [''--integration-branch'', integration_branch] else [])))"

definition record_spawn_failure_event :: "uuid \<Rightarrow> time \<Rightarrow> task \<Rightarrow> string \<Rightarrow> string \<Rightarrow> string \<Rightarrow> db \<Rightarrow> db" where
  "record_spawn_failure_event eid now tk agent reason msg d =
     (case create_event \<lparr>te_id = eid, te_task = t_id tk, te_type = ''worker_spawn_failed'', te_old = [],
             te_new = agent,
             te_details = Some ([''agent_type'' \<mapsto> GStr agent, ''error'' \<mapsto> GStr msg]
               ++ (if reason \<noteq> [] then [''reason'' \<mapsto> GStr reason] else Map.empty)),
             te_actor = ''orchestrator'', te_created = now\<rparr> d of
        Inl e \<Rightarrow> d | Inr d' \<Rightarrow> d')"

text \<open>The settings \<open>dispatchMerge\<close> reads from the orchestrator and its environment.\<close>

record merger_env =
  me_spawner :: bool
  me_project :: string
  me_default_branch :: string
  me_test_command :: string
  me_orch_url :: string
  me_token :: string
  me_getenv :: "string \<Rightarrow> string"

definition legacy_merge_keys :: "string list" where
  "legacy_merge_keys =
     [''current_merge_attempt_id'', ''current_merge_container_id'', ''current_merge_worker_id'',
      ''merge_commit'', ''merge_conflicts'', ''merge_failure_reason'', ''merge_test_output'',
      ''merge_result_attempt_id'', ''merge_result_container_id'']"

definition clear_legacy_merge_context :: "time \<Rightarrow> task \<Rightarrow> db \<Rightarrow> task \<times> db" where
  "clear_legacy_merge_context now tk d =
     (if t_context tk = None then (tk, d)
      else (let ctx = fold json_del legacy_merge_keys (t_context tk) in
            (tk\<lparr>t_context := ctx, t_updated := now\<rparr>,
             d\<lparr>db_tasks := map (\<lambda>r. if t_id r = t_id tk then r\<lparr>t_context := ctx, t_updated := now\<rparr> else r)
                 (db_tasks d)\<rparr>)))"

text \<open>Both preconditions of the spawn fail the task in the same way.\<close>

definition refuse_merger ::
  "fresh \<Rightarrow> time \<Rightarrow> dispatch_error \<Rightarrow> string \<Rightarrow> string \<Rightarrow> task \<Rightarrow> db \<Rightarrow>
   (dispatch_error + merge_result) \<times> task \<times> db" where
  "refuse_merger fresh now sentinel msg reason tk d =
     (let tk1 = mark_terminal_merger_failure ''merger_preflight_failed'' tk;
          d1 = record_spawn_failure_event (fresh ''spawn_failure'' 0) now tk1 ''merger''
                 ''merger_preflight_failed'' msg d in
      case fail_task (fresh ''event'' 0) now tk1 reason d1 of
        (tk2, Inl e) \<Rightarrow> (Inl sentinel, tk2, d1)
      | (tk2, Inr d2) \<Rightarrow> (Inl sentinel, tk2, d2))"

definition dispatch_merge ::
  "fresh \<Rightarrow> time \<Rightarrow> merger_env \<Rightarrow> (string list \<Rightarrow> task \<Rightarrow> db \<Rightarrow> (err + string) \<times> db) \<Rightarrow>
   (string \<Rightarrow> task \<Rightarrow> db \<Rightarrow> (err + int \<times> string) \<times> db) \<Rightarrow> task \<Rightarrow> db \<Rightarrow>
   (dispatch_error + merge_result) \<times> task \<times> db" where
  "dispatch_merge fresh now env spawn await tk d =
     (if \<not> me_spawner env then (Inl (DispatchError (ErrMsg ''dispatchMerge: no Spawner configured'')), tk, d)
      else if t_id tk = uuid_Nil
      then (Inl (DispatchError (ErrMsg ''dispatchMerge: task id is zero UUID'')), tk, d)
      else if t_branch tk = []
      then refuse_merger fresh now MergerPreflightFailed (''task '' @ t_id tk @ '' has no WorktreeBranch'')
             ''merger preflight failed: task has no WorktreeBranch'' tk d
      else
        (let branch = (if me_default_branch env \<noteq> [] then me_default_branch env else ''main'');
             url0 = (if me_orch_url env = [] then me_getenv env ''DREM_ORCH_URL'' else me_orch_url env);
             token0 = (if me_token env = [] then me_getenv env ''DREM_AGENTMON_TOKEN'' else me_token env);
             (url, token) = (if trim_space url0 = [] \<or> trim_space token0 = [] then ([], []) else (url0, token0)) in
         case current_artifact (t_id tk) d of
           Inl e \<Rightarrow> (Inl (DispatchError e), tk, d)
         | Inr a \<Rightarrow>
             (case build_merger_argv tk (me_project env) branch (me_test_command env) url token
                     (da_commit a) (da_base a) of
                Inl e \<Rightarrow> refuse_merger fresh now e ''merger spawn skipped: project has no test command''
                          ''merger spawn skipped: project has no test command'' tk d
              | Inr argv \<Rightarrow>
                  (case spawn argv tk d of
                     (Inl e, d1) \<Rightarrow> (Inl (DispatchError e), tk, d1)
                   | (Inr container, d1) \<Rightarrow>
                       (let (tk1, d2) = clear_legacy_merge_context now tk d1 in
                        case await container tk1 d2 of
                          (Inl e, d3) \<Rightarrow> (Inl (DispatchError e), tk1, d3)
                        | (Inr (code, status), d3) \<Rightarrow>
                            (Inr \<lparr>mr_success = (code = 0 \<and> status = ''exited''), mr_conflicts = [], mr_trivial = 0,
                                  mr_non_trivial = 0, mr_details = [], mr_container = container, mr_exit = code,
                                  mr_reason = failure_reason_for_exit code\<rparr>, tk1, d3))))))"

section \<open>Routing a failed merge\<close>

definition failed_with :: "uuid \<Rightarrow> time \<Rightarrow> string \<Rightarrow> task \<Rightarrow> db \<Rightarrow> (err + unit) \<times> task \<times> db" where
  "failed_with eid now reason tk d =
     (case fail_task eid now tk reason d of
        (tk', Inl e) \<Rightarrow> (Inl e, tk', d) | (tk', Inr d') \<Rightarrow> (Inr (), tk', d'))"

text \<open>A failure without conflicts that no case routes: count the attempt, stay in merging
  until the attempts are exhausted.\<close>

definition retry_merge :: "uuid \<Rightarrow> time \<Rightarrow> task \<Rightarrow> db \<Rightarrow> (err + unit) \<times> task \<times> db" where
  "retry_merge eid now tk d =
     (let n = load_merge_attempts tk + 1; tk1 = save_merge_attempts n tk in
      if retry_exhausted default_merge_retry_policy n
      then failed_with eid now (''merge failed after '' @ show_int n @ '' attempts'')
             (mark_terminal_merger_failure ''merge_failed_after_attempts'' tk1) d
      else (let (tk2, d2) = save_task now tk1 d in (Inr (), tk2, d2)))"

definition route_merge_failure ::
  "fresh \<Rightarrow> time \<Rightarrow> (merge_result \<Rightarrow> json_field \<Rightarrow> json_field) \<Rightarrow> merge_result \<Rightarrow> task \<Rightarrow> db \<Rightarrow>
   (err + unit) \<times> task \<times> db" where
  "route_merge_failure fresh now advise res tk d =
     (let fail = failed_with (fresh ''event'' 0) now in
      if is_quick_fix (t_category tk)
      then fail (''quick fix merge failed '' @ [CHR 0xE2, CHR 0x80, CHR 0x94] @ '' flagged for human review'')
             (tk\<lparr>t_needs_human := True\<rparr>) d
      else if mr_reason res = ''stale_evidence'' then
        (case current_artifact (t_id tk) d of
           Inl e \<Rightarrow> (Inl e, tk, d)
         | Inr a \<Rightarrow>
             (let (r, d') = rewind_merging fresh now (t_id tk) StatusInProgress (da_id a)
                              ''merger_detected_delivery_drift'' d in (r, tk, d')))
      else if mr_reason res = ''tests_failed'' then
        (let tk1 = mark_terminal_merger_failure ''tests_failed'' tk in
         fail ''merge aborted: pre-push tests failed''
           (tk1\<lparr>t_context := json_put ''merger_exit_code'' (GInt (mr_exit res))
                 (json_put ''merger_failure_reason'' (GStr (mr_reason res)) (t_context tk1))\<rparr>) d)
      else if mr_reason res = ''conflict'' then
        fail ''merge aborted: merger reported a conflict'' (mark_terminal_merger_failure ''conflict'' tk) d
      else if mr_reason res \<in> {''misc'', ''unknown''} then
        fail (''merge aborted: '' @ mr_reason res @ '' exit from merger (code='' @ show_int (mr_exit res) @ '')'') tk d
      else if mr_conflicts res = [] then retry_merge (fresh ''event'' 0) now tk d
      else
        fail (''merge conflicts ('' @ show_int (mr_trivial res) @ '' trivial, '' @ show_int (mr_non_trivial res)
              @ '' non-trivial):'' @ CHR 0x0A # mr_details res)
          (mark_terminal_merger_failure ''conflict'' (tk\<lparr>t_context := advise res (t_context tk)\<rparr>)) d)"

section \<open>One tick\<close>

definition execute_merge ::
  "(nat \<Rightarrow> fresh) \<Rightarrow> (nat \<Rightarrow> time) \<Rightarrow> (nat \<Rightarrow> git) \<Rightarrow> (merge_result \<Rightarrow> json_field \<Rightarrow> json_field) \<Rightarrow>
   (task \<Rightarrow> db \<Rightarrow> (dispatch_error + merge_result) \<times> task \<times> db) \<Rightarrow> task \<Rightarrow> db \<Rightarrow>
   (err + unit) \<times> task \<times> db" where
  "execute_merge fresh now g advise dispatch tk d =
     (case recover_authorized_merge (fresh 0) (now 0) (g 0) tk d of
        (Inl e, d1) \<Rightarrow> (Inl e, tk, d1)
      | (Inr (Some c), d1) \<Rightarrow> (Inr (), tk, d1)
      | (Inr None, d1) \<Rightarrow>
          (case preflight_merge_artifact (fresh 1) (now 1) (g 1) tk d1 of
             (Inl e, d2) \<Rightarrow> (Inl e, tk, d2)
           | (Inr False, d2) \<Rightarrow> (Inr (), tk, d2)
           | (Inr True, d2) \<Rightarrow>
               (case dispatch tk d2 of
                  (res, tk1, d3) \<Rightarrow>
                    (case recover_authorized_merge (fresh 2) (now 2) (g 2) tk1 d3 of
                       (Inl e, d4) \<Rightarrow> (Inl e, tk1, d4)
                     | (Inr (Some c), d4) \<Rightarrow> (Inr (), tk1, d4)
                     | (Inr None, d4) \<Rightarrow>
                         (case res of
                            Inl SpawnSkippedEmptyTestCmd \<Rightarrow> (Inr (), tk1, d4)
                          | Inl MergerPreflightFailed \<Rightarrow> (Inr (), tk1, d4)
                          | Inl (DispatchError e) \<Rightarrow> (Inl e, tk1, d4)
                          | Inr r \<Rightarrow>
                              (if mr_success r
                               then (Inl (ErrMsg ''execute merge: merger reported success but authoritative target ref does not contain the authorized artifact''), tk1, d4)
                               else route_merge_failure (fresh 3) (now 3) advise r tk1 d4))))))"

section \<open>All merging tasks\<close>

text \<open>\<open>dispatchMerges\<close>: the merging tasks are read once, at the start of the tick; an error is logged.\<close>

definition dispatch_merges ::
  "uuid \<Rightarrow> (task \<Rightarrow> nat \<Rightarrow> fresh) \<Rightarrow> (task \<Rightarrow> nat \<Rightarrow> time) \<Rightarrow> (task \<Rightarrow> nat \<Rightarrow> git) \<Rightarrow>
   (merge_result \<Rightarrow> json_field \<Rightarrow> json_field) \<Rightarrow>
   (task \<Rightarrow> db \<Rightarrow> (dispatch_error + merge_result) \<times> task \<times> db) \<Rightarrow> db \<Rightarrow> db" where
  "dispatch_merges project fresh now g advise dispatch d =
     fold (\<lambda>tk d. snd (snd (execute_merge (fresh tk) (now tk) (g tk) advise dispatch tk d)))
       (filter (\<lambda>t. t_project t = project \<and> t_status t = StatusMerging) (db_tasks d)) d"

section \<open>Completions come from git\<close>

lemma ensure_intent_effect:
  assumes "ensure_merge_intent fresh tk a v au d = (r, d1)"
  shows "db_completions d1 = db_completions d" "db_artifacts d1 = db_artifacts d" "db_tasks d1 = db_tasks d"
    "r = Inr mi \<Longrightarrow> intent_matches tk a v au mi"
  using assms
  by (auto simp: ensure_merge_intent_def Let_def create_Inr split: option.splits sum.splits if_splits prod.splits)

lemma recover_completes:
  assumes "recover_authorized_merge fresh now g tk d = (r, d')"
    "c \<in> set (db_completions d')" "c \<notin> set (db_completions d)"
  shows "\<exists>a sha out. r = Inr (Some c) \<and> mc_task c = t_id tk \<and> current_artifact (t_id tk) d = Inr a
    \<and> g_run g (g_bare g) [''rev-parse'', ''--verify'', full_ref (da_base_branch a)] = GitOk sha
    \<and> g_run g (g_bare g) [''merge-base'', ''--is-ancestor'', mc_commit c, sha] = GitOk out
    \<and> mc_commit c = da_commit a \<and> mc_merge_commit c = sha"
proof -
  from assms obtain a v au mi d1 sha out where
    l: "current_artifact (t_id tk) d = Inr a" "ensure_merge_intent fresh tk a v au d = (Inr mi, d1)"
    and g: "g_run g (g_bare g) [''rev-parse'', ''--verify'', full_ref (mi_target_branch mi)] = GitOk sha"
      "g_run g (g_bare g) [''merge-base'', ''--is-ancestor'', mi_commit mi, sha] = GitOk out"
    and co: "snd (complete_authorized_merge fresh now (t_id tk) (mi_id mi) sha ''authoritative_target_ref'' d1) = d'"
      "r = map_sum id Some (fst (complete_authorized_merge fresh now (t_id tk) (mi_id mi) sha ''authoritative_target_ref'' d1))"
    by (auto simp: recover_authorized_merge_def run_git_Inr dest!: ensure_intent_effect(1)
        split: if_splits sum.splits option.splits prod.splits git_out.splits)
  note e = ensure_intent_effect [OF l(2)]
  have mi: "mi_target_branch mi = da_base_branch a" "mi_commit mi = da_commit a"
    using e(4) by (simp_all add: intent_matches_def)
  have "db_completions d' \<noteq> db_completions d1" using assms(2,3) e(1) by auto
  then obtain c' where c': "complete_transaction fresh now (t_id tk) (mi_id mi) sha ''authoritative_target_ref'' d1
      = Inr (c', d')" "r = Inr (Some c')" "valid_object_id sha"
    using co by (auto simp: complete_authorized_merge_def transaction_def split: if_splits sum.splits)
  from c'(1) show ?thesis
  proof (cases rule: complete_cases)
    case replay
    then show ?thesis using \<open>db_completions d' \<noteq> db_completions d1\<close> by simp
  next
    case (completed tk2 mi2 a2 v2 au2 eid refs)
    have "db_completions d' = db_completions d1 @ [c']" using cas_tx_frame [OF completed(14)] by simp
    then have c: "c = c'" using assms(2,3) e(1) by auto
    have "current_artifact (t_id tk) d1 = current_artifact (t_id tk) d"
      using e(2) by (simp add: current_artifact_def)
    then have "a2 = a" using completed(1,6) l(1) load_task_Inr [OF completed(1)] by simp
    then have "mc_commit c = da_commit a"
      using completed(9,11) c'(3) c by (simp add: completes_def evidence_complete_for_def)
    with completed c c'(2) g mi l(1) show ?thesis by auto
  qed
qed

lemma fail_task_frame:
  assumes "fail_task eid now tk reason d = (tk', Inr d')"
  shows "db_completions d' = db_completions d"
  using assms by (auto simp: fail_task_def transition_task_atomic_def cas_task_transition_def Let_def
      split: prod.splits sum.splits if_splits)

lemma failed_with_frame [simp]: "db_completions (snd (snd (failed_with eid now reason tk d))) = db_completions d"
  by (auto simp: failed_with_def split: prod.splits sum.splits dest: fail_task_frame)

lemma retry_frame [simp]: "db_completions (snd (snd (retry_merge eid now tk d))) = db_completions d"
  by (auto simp: retry_merge_def save_task_def Let_def)

lemma rewind_frame [simp]: "db_completions (snd (rewind_merging fresh now tid target aid reason d)) = db_completions d"
  by (auto simp: rewind_merging_def transaction_def res_bind_Inr Let_def invalidate_artifact_def
      dest!: cas_tx_frame(10) split: sum.splits)

lemma route_frame [simp]: "db_completions (snd (snd (route_merge_failure fresh now advise res tk d))) = db_completions d"
  using rewind_frame [of fresh now "t_id tk" StatusInProgress _ "''merger_detected_delivery_drift''" d]
  by (auto simp: route_merge_failure_def Let_def split: sum.splits prod.splits) (metis snd_conv rewind_frame)

lemma preflight_frame [simp]: "db_completions (snd (preflight_merge_artifact fresh now g tk d)) = db_completions d"
  by (auto simp: preflight_merge_artifact_def Let_def rewound_snd dest!: ensure_intent_effect(1)
      split: sum.splits option.splits prod.splits)

text \<open>C2: a tick completes a merge only on git's word: whatever the merger reports, a completion that
  appears during \<open>execute_merge\<close> is recorded by the recovery before or after the dispatch, for
  the commit of the task's current artifact, after git confirmed that this commit is an ancestor of
  the target ref at the recorded merge commit; the tick then succeeds.\<close>

theorem merge_completes_by_ancestry:
  assumes "\<And>d0. db_completions (snd (snd (dispatch tk d0))) = db_completions d0"
    "\<And>d0. t_id (fst (snd (dispatch tk d0))) = t_id tk"
    "execute_merge fresh now g advise dispatch tk d = (r, tk', d')"
    "c \<in> set (db_completions d')" "c \<notin> set (db_completions d)"
  shows "r = Inr () \<and> mc_task c = t_id tk \<and> (\<exists>k branch sha out. k \<in> {0, 2}
    \<and> g_run (g k) (g_bare (g k)) [''rev-parse'', ''--verify'', full_ref branch] = GitOk sha
    \<and> g_run (g k) (g_bare (g k)) [''merge-base'', ''--is-ancestor'', mc_commit c, sha] = GitOk out
    \<and> mc_merge_commit c = sha)"
proof -
  obtain r1 d1 where r1: "recover_authorized_merge (fresh 0) (now 0) (g 0) tk d = (r1, d1)" by fastforce
  show ?thesis
  proof (cases "c \<in> set (db_completions d1)")
    case True
    from recover_completes [OF r1 True assms(5)] assms(3) r1 show ?thesis
      by (auto simp: execute_merge_def)
  next
    case False
    obtain r2 d2 where r2: "preflight_merge_artifact (fresh 1) (now 1) (g 1) tk d1 = (r2, d2)" by fastforce
    obtain res tk1 d3 where x: "dispatch tk d2 = (res, tk1, d3)" by (metis prod_cases3)
    obtain r4 d4 where r4: "recover_authorized_merge (fresh 2) (now 2) (g 2) tk1 d3 = (r4, d4)" by fastforce
    have p: "db_completions d2 = db_completions d1" by (metis preflight_frame r2 snd_conv)
    have n: "c \<notin> set (db_completions d2)" "c \<notin> set (db_completions d3)" "t_id tk1 = t_id tk"
      using False assms(1,2) [of d2] x p by simp_all
    note run = assms(3) [unfolded execute_merge_def r1 r2 x r4 prod.case]
    have e: "r1 = Inr None" "r2 = Inr True"
      using run False n(1) assms(4) by (auto split: sum.splits option.splits bool.splits)
    note run = run [unfolded e sum.case option.case bool.case]
    have c4: "c \<in> set (db_completions d4)"
    proof (cases "r4 = Inr None \<and> (\<exists>m. res = Inr m \<and> \<not> mr_success m)")
      case True
      then obtain m where "route_merge_failure (fresh 3) (now 3) advise m tk1 d4 = (r, tk', d')"
        using run by auto
      then have "db_completions d' = db_completions d4" by (metis route_frame snd_conv)
      then show ?thesis using assms(4) by simp
    next
      case no: False
      then have "d' = d4" using run by (auto split: sum.splits option.splits dispatch_error.splits if_splits)
      then show ?thesis using assms(4) by simp
    qed
    from recover_completes [OF r4 c4 n(2)] show ?thesis using run n(3) by auto
  qed
qed

text \<open>The production dispatcher has both assumptions when the container service leaves the completions
  alone.\<close>

lemma dispatch_merge_frame:
  assumes "\<And>argv t d0. db_completions (snd (spawn argv t d0)) = db_completions d0"
    "\<And>c t d0. db_completions (snd (await c t d0)) = db_completions d0"
    "dispatch_merge fresh now env spawn await tk d = (res, tk', d')"
  shows "db_completions d' = db_completions d" "t_id tk' = t_id tk"
proof -
  have spawned: "spawn argv t d0 = (r, d1) \<Longrightarrow> db_completions d1 = db_completions d0" for argv t d0 r d1
    using assms(1) [of argv t d0] by simp
  have awaited: "await c t d0 = (r, d1) \<Longrightarrow> db_completions d1 = db_completions d0" for c t d0 r d1
    using assms(2) [of c t d0] by simp
  have ev: "db_completions (record_spawn_failure_event eid n t ag rs msg d0) = db_completions d0" for eid n t ag rs msg d0
    by (auto simp: record_spawn_failure_event_def create_Inr split: sum.splits)
  have fail: "t_id t' = t_id t \<and> (\<forall>d1. r = Inr d1 \<longrightarrow> db_completions d1 = db_completions d0)" if "fail_task eid n t rs d0 = (t', r)" for eid n t rs d0 t' r
    using that by (auto simp: fail_task_def transition_task_atomic_def cas_task_transition_def Let_def
        split: prod.splits sum.splits if_splits dest!: guarded_cas_request_Inr(2))
  have refuse: "db_completions d' = db_completions d \<and> t_id tk' = t_id tk"
    if "refuse_merger fresh now e msg rs tk d = (res, tk', d')" for e msg rs
    using that by (auto simp: refuse_merger_def Let_def ev mark_terminal_merger_failure_def
        split: prod.splits sum.splits dest!: fail)
  have clear: "db_completions d1 = db_completions d0 \<and> t_id t1 = t_id t"
    if "clear_legacy_merge_context n t d0 = (t1, d1)" for n t d0 t1 d1
    using that by (auto simp: clear_legacy_merge_context_def Let_def split: if_splits)
  have "db_completions d' = db_completions d \<and> t_id tk' = t_id tk"
    using assms(3) unfolding dispatch_merge_def Let_def
    by (auto split: if_splits sum.splits prod.splits dest!: refuse clear spawned awaited)
  then show "db_completions d' = db_completions d" "t_id tk' = t_id tk" by simp_all
qed

section \<open>Retries\<close>

text \<open>Git shows the frozen commit and base for the task, whatever its other columns are.\<close>

definition refs_unmoved :: "git \<Rightarrow> task \<Rightarrow> delivery_artifact \<Rightarrow> bool" where
  "refs_unmoved g tk a \<longleftrightarrow> \<not> blank (g_bare g) \<and> da_branch a = t_branch tk
     \<and> (\<forall>t. t_id t = t_id tk \<longrightarrow> t_branch t = t_branch tk \<longrightarrow> delivery_artifact_drift g t a = Inr [])
     \<and> (\<exists>s. g_run g (g_bare g) [''rev-parse'', ''--verify'', full_ref (da_base_branch a)] = GitOk s
          \<and> trim_space s = trim_space (da_base a))"

definition transient_failure :: "merge_result \<Rightarrow> bool" where
  "transient_failure m \<longleftrightarrow> \<not> mr_success m \<and> mr_conflicts m = []
     \<and> mr_reason m \<notin> {''stale_evidence'', ''tests_failed'', ''conflict'', ''misc'', ''unknown''}"

lemma refs_unmoved_cong: "refs_unmoved g tk a \<Longrightarrow> t_branch t = t_branch tk \<Longrightarrow> t_id t = t_id tk \<Longrightarrow> refs_unmoved g t a"
  by (simp add: refs_unmoved_def)

lemma unmoved_phases:
  assumes "reachable d" "tk \<in> set (db_tasks d)" "t_status tk = StatusMerging" "current_artifact (t_id tk) d = Inr a"
    "refs_unmoved g tk a"
  shows "recover_authorized_merge fresh now g tk d = (Inr None, d)"
    "preflight_merge_artifact fresh now g tk d = (Inr True, d)"
proof -
  obtain a' v au mi where c: "chain d (t_id tk) a' v au mi"
    by (rule merging_chain [OF reachable_inv [OF assms(1)] assms(2,3)])
  note l = chain_lookup [OF c]
  have a: "a' = a" using l(1) assms(4) by simp
  have mi: "mi_target_branch mi = da_base_branch a" "mi_target_base mi = da_base a"
    using c a by (simp_all add: chain_def evidence_complete_for_def)
  obtain s where "run_git g (g_bare g) [''rev-parse'', ''--verify'', full_ref (mi_target_branch mi)] = Inr s"
    "trim_space s = trim_space (mi_target_base mi)"
    using assms(5) mi by (auto simp: refs_unmoved_def run_git_def)
  then show "recover_authorized_merge fresh now g tk d = (Inr None, d)"
    using l chain_intent [OF c, where fresh = fresh] a assms(3,5)
    by (simp add: recover_authorized_merge_def refs_unmoved_def)
  show "preflight_merge_artifact fresh now g tk d = (Inr True, d)"
    using preflight_chain [OF c, where fresh = fresh and now = now and g = g] a assms(5)
    by (simp add: refs_unmoved_def)
qed

text \<open>What the spawn and the wait for the merger write: audit events with new identifiers from \<open>U\<close>, and
  the records of the worker attempts.\<close>

inductive merger_records :: "uuid set \<Rightarrow> db \<Rightarrow> db \<Rightarrow> bool" for U where
  none: "merger_records U d d"
| event: "\<lbrakk>merger_records U d d1; te_id ev \<in> U; create_event ev d1 = Inr d2\<rbrakk> \<Longrightarrow> merger_records U d d2"
| attempts: "merger_records U d d1 \<Longrightarrow> merger_records U d (d1\<lparr>db_attempts := ws\<rparr>)"

lemma merger_records_frame:
  "merger_records U d d' \<Longrightarrow> db_tasks d' = db_tasks d \<and> db_artifacts d' = db_artifacts d
     \<and> te_id ` set (db_events d') \<subseteq> te_id ` set (db_events d) \<union> U"
  by (induction rule: merger_records.induct) (auto simp: create_event_def res_simps)

lemma merger_records_reachable: "merger_records U d d' \<Longrightarrow> reachable d \<Longrightarrow> reachable d'"
  by (induction rule: merger_records.induct) (auto intro: reachable.step delivery_step.intros)

text \<open>The exits after which a merge is tried again: the push failed, or the container did not exit by itself.\<close>

definition transient_exit :: "int \<times> string \<Rightarrow> bool" where
  "transient_exit x \<longleftrightarrow> fst x = 4 \<or> fst x = 0 \<and> snd x \<noteq> ''exited''"

text \<open>The container of the merger starts, and its exit is transient.\<close>

definition merger_fails_transiently ::
  "uuid set \<Rightarrow> (string list \<Rightarrow> task \<Rightarrow> db \<Rightarrow> (err + string) \<times> db) \<Rightarrow>
   (string \<Rightarrow> task \<Rightarrow> db \<Rightarrow> (err + int \<times> string) \<times> db) \<Rightarrow> bool" where
  "merger_fails_transiently U spawn await \<longleftrightarrow>
     (\<forall>argv t d. \<exists>c d1. spawn argv t d = (Inr c, d1) \<and> merger_records U d d1)
     \<and> (\<forall>c t d. \<exists>x d1. await c t d = (Inr x, d1) \<and> transient_exit x \<and> merger_records U d d1)"

text \<open>The settings with which the merger is spawned\<close>

definition merger_configured :: "merger_env \<Rightarrow> bool" where
  "merger_configured env \<longleftrightarrow> me_spawner env \<and> trim_space (me_test_command env) \<noteq> []"

text \<open>The task after a dispatch: the context has lost the legacy keys.\<close>

definition dispatched :: "task \<Rightarrow> task \<Rightarrow> bool" where
  "dispatched tk tk1 \<longleftrightarrow> (\<exists>ctx u. tk1 = tk\<lparr>t_context := ctx, t_updated := u\<rparr>) \<and> load_merge_attempts tk1 = load_merge_attempts tk"

lemma clear_legacy_counts: "json_get (fold json_del legacy_merge_keys j) ''merge_attempt_count'' = json_get j ''merge_attempt_count''"
  by (simp add: legacy_merge_keys_def)

lemma filter_replace:
  assumes "filter P xs = [x]" "P y"
  shows "filter P (map (\<lambda>r. if r = x then y else r) xs) = [y]"
proof -
  obtain us vs where "xs = us @ x # vs" "\<forall>u \<in> set us. \<not> P u" "P x" "\<forall>v \<in> set vs. \<not> P v"
    using filter_eq_ConsD [OF assms(1)] by (metis filter_empty_conv)
  moreover from this have "map (\<lambda>r. if r = x then y else r) us = us" "map (\<lambda>r. if r = x then y else r) vs = vs"
    by (auto intro!: map_idI)
  ultimately show ?thesis using assms(2) by simp
qed

lemma clear_legacy_effect:
  assumes "reachable d" "tk \<in> set (db_tasks d)" "clear_legacy_merge_context now tk d = (tk1, d1)"
  shows "dispatched tk tk1" "reachable d1" "db_artifacts d1 = db_artifacts d" "db_events d1 = db_events d"
    "db_tasks d1 = map (\<lambda>r. if r = tk then tk1 else r) (db_tasks d)"
proof -
  have "dispatched tk tk1 \<and> reachable d1 \<and> db_artifacts d1 = db_artifacts d \<and> db_events d1 = db_events d
      \<and> db_tasks d1 = map (\<lambda>r. if r = tk then tk1 else r) (db_tasks d)"
  proof (cases "t_context tk = None")
    case True
    then have "tk1 = tk" "d1 = d" using assms(3) by (simp_all add: clear_legacy_merge_context_def)
    moreover have "dispatched tk tk" unfolding dispatched_def
      by (intro conjI exI [of _ "t_context tk"] exI [of _ "t_updated tk"]) simp_all
    ultimately show ?thesis using assms(1) by (simp add: map_idI)
  next
    case False
    let ?ctx = "fold json_del legacy_merge_keys (t_context tk)"
    have t: "tk1 = tk\<lparr>t_context := ?ctx, t_updated := now\<rparr>"
      "d1 = d\<lparr>db_tasks := map (\<lambda>r. if t_id r = t_id tk then r\<lparr>t_context := ?ctx, t_updated := now\<rparr> else r) (db_tasks d)\<rparr>"
      using assms(3) False by (simp_all add: clear_legacy_merge_context_def Let_def)
    have u: "uniq task_conflict (db_tasks d)"
      using invD(1) [OF reachable_inv [OF assms(1)]] by (simp add: tables_uniq_def)
    have rows: "map (\<lambda>r. if t_id r = t_id tk then r\<lparr>t_context := ?ctx, t_updated := now\<rparr> else r) (db_tasks d)
        = map (\<lambda>r. if r = tk then tk1 else r) (db_tasks d)"
      using tasks.uniq_eq [OF u _ assms(2)] by (intro map_cong refl) (auto simp: task_conflict_def t(1))
    have "list_all2 same_lifecycle (db_tasks d) (map (\<lambda>r. if r = tk then tk1 else r) (db_tasks d))"
      by (simp add: list_all2_map2 list_all2_same same_lifecycle_def t(1))
    from reachable.step [OF assms(1) delivery_step.edit [OF this]] have "reachable d1"
      unfolding t(2) rows .
    moreover have "dispatched tk tk1"
      unfolding dispatched_def t(1) load_merge_attempts_def by (simp add: clear_legacy_counts) blast
    moreover have "db_tasks d1 = map (\<lambda>r. if r = tk then tk1 else r) (db_tasks d)" unfolding t(2) rows by simp
    ultimately show ?thesis by (simp add: t(2))
  qed
  then show "dispatched tk tk1" "reachable d1" "db_artifacts d1 = db_artifacts d" "db_events d1 = db_events d"
    "db_tasks d1 = map (\<lambda>r. if r = tk then tk1 else r) (db_tasks d)" by simp_all
qed

lemma dispatch_transient:
  assumes "reachable d" "tk \<in> set (db_tasks d)" "current_artifact (t_id tk) d = Inr a" "t_id tk \<noteq> uuid_Nil" "t_branch tk \<noteq> []"
    and "merger_configured env" "merger_fails_transiently U spawn await"
  obtains m tk1 d1 where "dispatch_merge fresh now env spawn await tk d = (Inr m, tk1, d1)" "transient_failure m" "dispatched tk tk1"
    "reachable d1" "db_artifacts d1 = db_artifacts d" "te_id ` set (db_events d1) \<subseteq> te_id ` set (db_events d) \<union> U"
    "db_tasks d1 = map (\<lambda>r. if r = tk then tk1 else r) (db_tasks d)"
proof -
  let ?branch = "if me_default_branch env \<noteq> [] then me_default_branch env else ''main''"
  let ?url = "if me_orch_url env = [] then me_getenv env ''DREM_ORCH_URL'' else me_orch_url env"
  let ?token = "if me_token env = [] then me_getenv env ''DREM_AGENTMON_TOKEN'' else me_token env"
  obtain url token where ut: "(if trim_space ?url = [] \<or> trim_space ?token = [] then ([], []) else (?url, ?token)) = (url, token)"
    by fastforce
  obtain argv where argv: "build_merger_argv tk (me_project env) ?branch (me_test_command env) url token (da_commit a) (da_base a) = Inr argv"
    using assms(6) by (simp add: build_merger_argv_def merger_configured_def)
  obtain c d2 where sp: "spawn argv tk d = (Inr c, d2)" "merger_records U d d2"
    using assms(7) unfolding merger_fails_transiently_def by blast
  obtain tk1 d3 where cl: "clear_legacy_merge_context now tk d2 = (tk1, d3)" by fastforce
  obtain code st d1 where aw: "await c tk1 d3 = (Inr (code, st), d1)" "transient_exit (code, st)" "merger_records U d3 d1"
    using assms(7) unfolding merger_fails_transiently_def by (metis surj_pair)
  note f2 = merger_records_frame [OF sp(2)] and f1 = merger_records_frame [OF aw(3)]
  have r2: "reachable d2" "tk \<in> set (db_tasks d2)" using merger_records_reachable [OF sp(2) assms(1)] f2 assms(2) by simp_all
  note e = clear_legacy_effect [OF r2 cl]
  let ?m = "\<lparr>mr_success = (code = 0 \<and> st = ''exited''), mr_conflicts = [], mr_trivial = 0, mr_non_trivial = 0, mr_details = [],
     mr_container = c, mr_exit = code, mr_reason = failure_reason_for_exit code\<rparr>"
  show ?thesis
  proof (rule that)
    show "dispatch_merge fresh now env spawn await tk d = (Inr ?m, tk1, d1)"
      using assms(4,5,6) unfolding dispatch_merge_def Let_def ut prod.case assms(3) sum.case argv sp(1) cl aw(1)
      by (simp add: merger_configured_def)
    show "transient_failure ?m"
      using aw(2) by (auto simp: transient_exit_def transient_failure_def failure_reason_for_exit_def)
    show "reachable d1" by (rule merger_records_reachable [OF aw(3) e(2)])
  qed (use e f1 f2 in auto)
qed

lemma tick_retries:
  assumes "reachable d" "tk \<in> set (db_tasks d)" "t_status tk = StatusMerging" "current_artifact (t_id tk) d = Inr a"
    "\<And>k. refs_unmoved (g k) tk a" "\<not> is_quick_fix (t_category tk)"
    "dispatch tk d = (Inr m, tk1, d1)" "transient_failure m" "dispatched tk tk1" "reachable d1" "db_artifacts d1 = db_artifacts d"
    "db_tasks d1 = map (\<lambda>r. if r = tk then tk1 else r) (db_tasks d)"
  shows "execute_merge fresh now g advise dispatch tk d = retry_merge (fresh 3 ''event'' 0) (now 3) tk1 d1"
proof -
  have t1: "t_id tk1 = t_id tk" "t_branch tk1 = t_branch tk" "t_status tk1 = t_status tk" "t_category tk1 = t_category tk"
    using assms(9) by (auto simp: dispatched_def)
  have "tk1 \<in> set (db_tasks d1)" unfolding assms(12) using assms(2) by auto
  moreover have "current_artifact (t_id tk1) d1 = Inr a" using assms(4,11) t1 by (simp add: current_artifact_def)
  ultimately have "recover_authorized_merge (fresh 2) (now 2) (g 2) tk1 d1 = (Inr None, d1)"
    using unmoved_phases(1) [OF assms(10), of tk1 a "g 2" "fresh 2" "now 2"] refs_unmoved_cong [OF assms(5) [of 2] t1(2,1)] assms(3) t1 by simp
  then show ?thesis
    using assms(6-8) t1 unmoved_phases [OF assms(1-5)]
    by (simp add: execute_merge_def transient_failure_def route_merge_failure_def Let_def)
qed

lemma save_edit:
  assumes "reachable d" "tk \<in> set (db_tasks d)" "same_lifecycle tk tk1"
  shows "reachable (snd (save_task now tk1 d))"
    "db_artifacts (snd (save_task now tk1 d)) = db_artifacts d"
    "db_tasks (snd (save_task now tk1 d)) =
       map (\<lambda>r. if r = tk then tk1\<lparr>t_updated := now\<rparr> else r) (db_tasks d)"
    "db_events (snd (save_task now tk1 d)) = db_events d"
proof -
  have i: "t_id tk1 = t_id tk" using assms(3) by (simp add: same_lifecycle_def)
  have u: "uniq task_conflict (db_tasks d)"
    using invD(1) [OF reachable_inv [OF assms(1)]] by (simp add: tables_uniq_def)
  have m: "map (\<lambda>r. if t_id r = t_id tk then tk1\<lparr>t_updated := now\<rparr> else r) (db_tasks d) =
      map (\<lambda>r. if r = tk then tk1\<lparr>t_updated := now\<rparr> else r) (db_tasks d)"
    using tasks.uniq_eq [OF u _ assms(2)] by (intro map_cong refl) (auto simp: task_conflict_def)
  have e: "list_ex (\<lambda>r. t_id r = t_id tk1) (db_tasks d)" using assms(2) i by (auto simp: list_ex_iff)
  then have s: "snd (save_task now tk1 d) =
      d\<lparr>db_tasks := map (\<lambda>r. if r = tk then tk1\<lparr>t_updated := now\<rparr> else r) (db_tasks d)\<rparr>"
    by (simp add: save_task_def i m Let_def)
  have "list_all2 same_lifecycle (db_tasks d) (map (\<lambda>r. if r = tk then tk1\<lparr>t_updated := now\<rparr> else r) (db_tasks d))"
    using assms(3) by (simp add: list_all2_map2 list_all2_same same_lifecycle_def)
  with reachable.step [OF assms(1) delivery_step.edit [OF this]] s
  show "reachable (snd (save_task now tk1 d))"
    "db_artifacts (snd (save_task now tk1 d)) = db_artifacts d"
    "db_tasks (snd (save_task now tk1 d)) = map (\<lambda>r. if r = tk then tk1\<lparr>t_updated := now\<rparr> else r) (db_tasks d)"
    "db_events (snd (save_task now tk1 d)) = db_events d"
    by simp_all
qed

lemma cas_task_ok:
  assumes "uniq task_conflict (db_tasks d)" "tk \<in> set (db_tasks d)" "t_id tk1 = t_id tk"
    "t_status tk1 = t_status tk" "t_version tk1 = t_version tk" "can_move (t_status tk) target"
    "actor \<noteq> []" "source \<noteq> []" "reason \<noteq> []" "t_id tk \<noteq> uuid_Nil" "t_status tk \<noteq> StatusOther []"
    "eid \<notin> te_id ` set (db_events d)"
  obtains tk' d' where "cas_task_transition eid now tk1 (t_status tk) target actor source reason refs d = (tk', Inr d')"
    "tk' = tk1\<lparr>t_status := target, t_version := t_version tk + 1, t_updated := now\<rparr>"
    "db_tasks d' = map (\<lambda>r. if r = tk then task_transition_columns tk' r else r) (db_tasks d)"
    "\<And>P. filter P (db_tasks d) = [tk] \<Longrightarrow> \<not> P (task_transition_columns tk' tk) \<Longrightarrow> filter P (db_tasks d') = []"
proof -
  let ?req = "cas_request tk1 (t_status tk) target actor source reason refs"
  obtain t2 ev where g: "guarded_transition_task eid now (Some tk1) ?req = Inr (t2, ev)"
    using assms by (auto simp: guarded_transition_task_def transition_task_at_def cas_request_def
        transition_task_unchecked_at_def evidence_timestamp_def res_simps evidence_complete_def)
  note G = guarded_cas_request_Inr [OF g]
  have one: "cas_match tk1 (t_status tk) r \<longleftrightarrow> r = tk" if "r \<in> set (db_tasks d)" for r
    using tasks.uniq_eq [OF assms(1) that assms(2)] assms(3-5) by (auto simp: cas_match_def task_conflict_def)
  have "distinct (db_tasks d)"
    using assms(1) by (metis distinct_map task_uniq_ids)
  moreover have "{r. cas_match tk1 (t_status tk) r \<and> r \<in> set (db_tasks d)} = {tk}"
    using one assms(2) by auto
  ultimately have one_row: "length (filter (cas_match tk1 (t_status tk)) (db_tasks d)) = 1"
    by (simp add: distinct_length_filter Int_def)
  have ev: "tbl_create event_conflict ev (db_events d) = Inr (db_events d @ [ev])"
    using assms(12) G(3) by (auto simp: tbl_create_Inr event_conflict_def)
  define tk' where "tk' = t2\<lparr>t_version := Suc (t_version tk)\<rparr>"
  have rows: "map (\<lambda>r. if cas_match tk1 (t_status tk) r then task_transition_columns tk' r else r) (db_tasks d) =
      map (\<lambda>r. if r = tk then task_transition_columns tk' r else r) (db_tasks d)"
    using one by (intro map_cong) auto
  have "cas_task_transition eid now tk1 (t_status tk) target actor source reason refs d =
      (tk', Inr (d\<lparr>db_tasks := map (\<lambda>r. if r = tk then task_transition_columns tk' r else r) (db_tasks d),
        db_events := db_events d @ [ev]\<rparr>))"
    using one_row ev assms(5) by (simp add: cas_task_transition_def g tbl_update_def Let_def flip: rows tk'_def)
  then show ?thesis
  proof (rule that)
    show "tk' = tk1\<lparr>t_status := target, t_version := t_version tk + 1, t_updated := now\<rparr>"
      using G(2) by (simp add: tk'_def)
  next
    fix P assume P: "filter P (db_tasks d) = [tk]" "\<not> P (task_transition_columns tk' tk)"
    then have "\<not> P (if r = tk then task_transition_columns tk' r else r)" if "r \<in> set (db_tasks d)" for r
      using that filter_single [OF P(1)] by auto
    then show "filter P (db_tasks (d\<lparr>db_tasks := map (\<lambda>r. if r = tk then task_transition_columns tk' r else r) (db_tasks d),
        db_events := db_events d @ [ev]\<rparr>)) = []"
      by (simp add: filter_map filter_empty_conv)
  qed simp
qed

definition retrying :: "uuid \<Rightarrow> task \<Rightarrow> delivery_artifact \<Rightarrow> uuid set \<Rightarrow> int \<Rightarrow> db \<Rightarrow> bool" where
  "retrying project tk a U n d \<longleftrightarrow> reachable d \<and> te_id ` set (db_events d) \<subseteq> U
     \<and> current_artifact (t_id tk) d = Inr a
     \<and> (\<exists>t. filter (\<lambda>t. t_project t = project \<and> t_status t = StatusMerging) (db_tasks d) = [t]
          \<and> t_id t = t_id tk \<and> t_branch t = t_branch tk \<and> t_category t = t_category tk
          \<and> load_merge_attempts t = n)"

fun merge_ticks ::
  "uuid \<Rightarrow> (nat \<Rightarrow> task \<Rightarrow> nat \<Rightarrow> fresh) \<Rightarrow> (nat \<Rightarrow> task \<Rightarrow> nat \<Rightarrow> time) \<Rightarrow> (nat \<Rightarrow> task \<Rightarrow> nat \<Rightarrow> git) \<Rightarrow>
   (merge_result \<Rightarrow> json_field \<Rightarrow> json_field) \<Rightarrow>
   (nat \<Rightarrow> task \<Rightarrow> db \<Rightarrow> (dispatch_error + merge_result) \<times> task \<times> db) \<Rightarrow> nat \<Rightarrow> db \<Rightarrow> db" where
  "merge_ticks project fresh now g advise dispatch 0 d = d"
| "merge_ticks project fresh now g advise dispatch (Suc n) d =
     dispatch_merges project (fresh n) (now n) (g n) advise (dispatch n)
       (merge_ticks project fresh now g advise dispatch n d)"

text \<open>The dispatcher of production, with the identifiers and the clock of each tick and task\<close>

definition production ::
  "(nat \<Rightarrow> task \<Rightarrow> fresh) \<Rightarrow> (nat \<Rightarrow> task \<Rightarrow> time) \<Rightarrow> merger_env \<Rightarrow>
   (nat \<Rightarrow> string list \<Rightarrow> task \<Rightarrow> db \<Rightarrow> (err + string) \<times> db) \<Rightarrow> (nat \<Rightarrow> string \<Rightarrow> task \<Rightarrow> db \<Rightarrow> (err + int \<times> string) \<times> db) \<Rightarrow>
   nat \<Rightarrow> task \<Rightarrow> db \<Rightarrow> (dispatch_error + merge_result) \<times> task \<times> db" where
  "production dfresh dnow env spawn await n t = dispatch_merge (dfresh n t) (dnow n t) env (spawn n) (await n) t"

text \<open>What a tick finds, and what it does up to the retry\<close>

lemma tick_start:
  assumes "retrying project tk a U n d" "\<not> is_quick_fix (t_category tk)" "t_id tk \<noteq> uuid_Nil" "t_branch tk \<noteq> []"
    "\<And>t k. refs_unmoved (g t k) tk a"
    "merger_configured env" "merger_fails_transiently U (spawn i) (await i)"
  obtains t t1 d1 where "filter (\<lambda>t. t_project t = project \<and> t_status t = StatusMerging) (db_tasks d) = [t]"
    "dispatch_merges project fresh now g advise (production dfresh dnow env spawn await i) d
       = snd (snd (retry_merge (fresh t 3 ''event'' 0) (now t 3) t1 d1))"
    "t_id t1 = t_id tk" "t_branch t1 = t_branch tk" "t_category t1 = t_category tk" "t_status t1 = StatusMerging"
    "t_project t1 = project" "load_merge_attempts t1 = n" "t1 \<in> set (db_tasks d1)"
    "filter (\<lambda>t. t_project t = project \<and> t_status t = StatusMerging) (db_tasks d1) = [t1]"
    "reachable d1" "te_id ` set (db_events d1) \<subseteq> U" "current_artifact (t_id tk) d1 = Inr a"
proof -
  let ?P = "\<lambda>t. t_project t = project \<and> t_status t = StatusMerging"
  from assms(1) obtain t where r: "reachable d" "te_id ` set (db_events d) \<subseteq> U" "current_artifact (t_id tk) d = Inr a"
    and t: "filter ?P (db_tasks d) = [t]" "t_id t = t_id tk" "t_branch t = t_branch tk" "t_category t = t_category tk"
      "load_merge_attempts t = n"
    by (auto simp: retrying_def)
  have m: "t \<in> set (db_tasks d)" "?P t" using filter_eq_ConsD [OF t(1)] by auto
  have c: "current_artifact (t_id t) d = Inr a" "t_id t \<noteq> uuid_Nil" "t_branch t \<noteq> []" using r(3) t(2,3) assms(3,4) by simp_all
  obtain f t1 d1 where x: "dispatch_merge (dfresh i t) (dnow i t) env (spawn i) (await i) t d = (Inr f, t1, d1)" "transient_failure f"
    "dispatched t t1" "reachable d1" "db_artifacts d1 = db_artifacts d" "te_id ` set (db_events d1) \<subseteq> te_id ` set (db_events d) \<union> U"
    "db_tasks d1 = map (\<lambda>r. if r = t then t1 else r) (db_tasks d)"
    by (rule dispatch_transient [OF r(1) m(1) c assms(6,7)])
  have t1: "t_id t1 = t_id t" "t_branch t1 = t_branch t" "t_category t1 = t_category t" "?P t1" "load_merge_attempts t1 = n"
    using x(3) m(2) t(5) by (auto simp: dispatched_def)
  have "execute_merge (fresh t) (now t) (g t) advise (production dfresh dnow env spawn await i) t d
      = retry_merge (fresh t 3 ''event'' 0) (now t 3) t1 d1"
    by (rule tick_retries [OF r(1) m(1) _ c(1) _ _ _ x(2-5,7)])
      (use m(2) t assms(2) x(1) refs_unmoved_cong [OF assms(5)] in \<open>simp_all add: production_def\<close>)
  then have "dispatch_merges project fresh now g advise (production dfresh dnow env spawn await i) d
      = snd (snd (retry_merge (fresh t 3 ''event'' 0) (now t 3) t1 d1))"
    using t(1) by (simp add: dispatch_merges_def)
  moreover have "filter ?P (db_tasks d1) = [t1]" unfolding x(7) by (rule filter_replace [OF t(1) t1(4)])
  moreover have "t1 \<in> set (db_tasks d1)" unfolding x(7) using m(1) by auto
  moreover have "current_artifact (t_id tk) d1 = Inr a" using r(3) x(5) by (simp add: current_artifact_def)
  ultimately show ?thesis using that [of t t1 d1] t t1 x(4,6) r(2) by auto
qed

lemma retry_tick:
  assumes "retrying project tk a U n d" "n + 1 < 5" "\<not> is_quick_fix (t_category tk)" "t_id tk \<noteq> uuid_Nil" "t_branch tk \<noteq> []"
    "\<And>t k. refs_unmoved (g t k) tk a"
    "merger_configured env" "merger_fails_transiently U (spawn i) (await i)"
  shows "retrying project tk a U (n + 1) (dispatch_merges project fresh now g advise (production dfresh dnow env spawn await i) d)"
proof -
  let ?P = "\<lambda>t. t_project t = project \<and> t_status t = StatusMerging"
  let ?d' = "dispatch_merges project fresh now g advise (production dfresh dnow env spawn await i) d"
  obtain t t1 d1 where s: "?d' = snd (snd (retry_merge (fresh t 3 ''event'' 0) (now t 3) t1 d1))"
    "t_id t1 = t_id tk" "t_branch t1 = t_branch tk" "t_category t1 = t_category tk" "t_status t1 = StatusMerging"
    "t_project t1 = project" "load_merge_attempts t1 = n" "t1 \<in> set (db_tasks d1)" "filter ?P (db_tasks d1) = [t1]"
    "reachable d1" "te_id ` set (db_events d1) \<subseteq> U" "current_artifact (t_id tk) d1 = Inr a"
    by (rule tick_start [where fresh = fresh and now = now and advise = advise and dfresh = dfresh and dnow = dnow and g = g
          and env = env and spawn = spawn and await = await and i = i, OF assms(1,3-8)])
  define t2 where "t2 = save_merge_attempts (n + 1) t1"
  have d: "?d' = snd (save_task (now t 3) t2 d1)"
    using s(1,7) assms(2)
    by (simp add: retry_merge_def Let_def retry_exhausted_def t2_def
        default_merge_retry_policy_def max_merge_retries_def split: prod.splits)
  have l: "same_lifecycle t1 t2" by (simp add: t2_def save_merge_attempts_def same_lifecycle_def)
  note e = save_edit [OF s(10,8) l, of "now t 3"]
  have "filter ?P (db_tasks (snd (save_task (now t 3) t2 d1))) = [t2\<lparr>t_updated := now t 3\<rparr>]"
    unfolding e(3) by (rule filter_replace [OF s(9)]) (use s(5,6) in \<open>simp add: t2_def save_merge_attempts_def\<close>)
  moreover have "load_merge_attempts (t2\<lparr>t_updated := now t 3\<rparr>) = n + 1"
    by (simp add: t2_def save_merge_attempts_def load_merge_attempts_def)
  ultimately show ?thesis
    using e s(2-4,11,12) by (simp add: retrying_def d current_artifact_def t2_def save_merge_attempts_def)
qed

lemma exhausted_tick:
  assumes "retrying project tk a U 4 d" "\<not> is_quick_fix (t_category tk)" "t_id tk \<noteq> uuid_Nil" "t_branch tk \<noteq> []"
    "\<And>t k. refs_unmoved (g t k) tk a"
    "merger_configured env" "merger_fails_transiently U (spawn i) (await i)"
    "\<And>t. fresh t 3 ''event'' 0 \<notin> U"
    "d' = dispatch_merges project fresh now g advise (production dfresh dnow env spawn await i) d"
  shows "reachable d'" "filter (\<lambda>t. t_project t = project \<and> t_status t = StatusMerging) (db_tasks d') = []"
    "\<exists>t. load_task (t_id tk) d' = Inr t \<and> t_status t = StatusFailed
      \<and> json_get (t_context t) ''terminal_merger_failure_reason'' = Some (GStr ''merge_failed_after_attempts'')"
proof -
  let ?P = "\<lambda>t. t_project t = project \<and> t_status t = StatusMerging"
  obtain t0 t d1 where s: "d' = snd (snd (retry_merge (fresh t0 3 ''event'' 0) (now t0 3) t d1))"
    "t_id t = t_id tk" "t_branch t = t_branch tk" "t_category t = t_category tk" "t_status t = StatusMerging"
    "t_project t = project" "load_merge_attempts t = 4" "t \<in> set (db_tasks d1)" "filter ?P (db_tasks d1) = [t]"
    "reachable d1" "te_id ` set (db_events d1) \<subseteq> U"
    unfolding assms(9)
    by (rule tick_start [where fresh = fresh and now = now and advise = advise and dfresh = dfresh and dnow = dnow and g = g
          and env = env and spawn = spawn and await = await and i = i, OF assms(1-7)])
  define reason where "reason = ''merge failed after '' @ show_int 5 @ '' attempts''"
  define t1 where "t1 = (mark_terminal_merger_failure ''merge_failed_after_attempts'' (save_merge_attempts 5 t))
    \<lparr>t_context := json_put ''failure_reason'' (GStr reason)
       (t_context (mark_terminal_merger_failure ''merge_failed_after_attempts'' (save_merge_attempts 5 t)))\<rparr>"
  note t1 = t1_def [unfolded mark_terminal_merger_failure_def save_merge_attempts_def]
  have u: "uniq task_conflict (db_tasks d1)"
    using invD(1) [OF reachable_inv [OF s(10)]] by (simp add: tables_uniq_def)
  obtain tk' d2 where c: "cas_task_transition (fresh t0 3 ''event'' 0) (now t0 3) t1 (t_status t) StatusFailed
       ''orchestrator'' ''failure_policy'' reason [] d1 = (tk', Inr d2)"
    and k: "tk' = t1\<lparr>t_status := StatusFailed, t_version := t_version t + 1, t_updated := now t0 3\<rparr>"
    and d2: "db_tasks d2 = map (\<lambda>r. if r = t then task_transition_columns tk' r else r) (db_tasks d1)"
      "\<And>P. filter P (db_tasks d1) = [t] \<Longrightarrow> \<not> P (task_transition_columns tk' t) \<Longrightarrow> filter P (db_tasks d2) = []"
    by (rule cas_task_ok [where d = d1 and tk = t and ?tk1.0 = t1 and target = StatusFailed
          and actor = "''orchestrator''" and source = "''failure_policy''" and reason = reason
          and eid = "fresh t0 3 ''event'' 0" and now = "now t0 3" and refs = "[]", OF u s(8)])
      (use s(2,5,11) assms(3,8) in \<open>auto simp: t1 reason_def can_move_iff\<close>)
  have "d' = d2"
    using s(1,5,7) c
    by (simp add: retry_merge_def Let_def retry_exhausted_def failed_with_def
        default_merge_retry_policy_def max_merge_retries_def fail_task_def transition_task_atomic_def t1 reason_def
        mark_terminal_merger_failure_def save_merge_attempts_def)
  moreover have "reachable d2"
    by (rule reachable.step [OF s(10) delivery_step.move [OF _ c]]) (simp add: delivery_status_def)
  moreover have "filter ?P (db_tasks d2) = []" by (rule d2(2) [OF s(9)]) (simp add: k)
  ultimately show "reachable d'" "filter ?P (db_tasks d') = []" by simp_all
  have "task_transition_columns tk' t \<in> set (db_tasks d2)" using s(8) by (auto simp: d2(1))
  moreover have "uniq task_conflict (db_tasks d2)"
    using invD(1) [OF reachable_inv [OF \<open>reachable d2\<close>]] by (simp add: tables_uniq_def)
  ultimately have "load_task (t_id tk) d2 = Inr (task_transition_columns tk' t)"
    using load_task_unique s(2) by fastforce
  then show "\<exists>t. load_task (t_id tk) d' = Inr t \<and> t_status t = StatusFailed
      \<and> json_get (t_context t) ''terminal_merger_failure_reason'' = Some (GStr ''merge_failed_after_attempts'')"
    using \<open>d' = d2\<close> by (auto simp: k t1 task_transition_columns_def)
qed


text \<open>The retry writes back the whole row as it was read at the start of the tick, up to ten minutes
  before: a transition of the task that another handler made meanwhile is undone.\<close>

lemma retry_save_overwrites:
  assumes "load_task (t_id tk) d = Inr row" "load_merge_attempts tk + 1 < 5"
    "retry_merge eid now tk d = (r, tk', d')"
  shows "r = Inr () \<and> load_task (t_id tk) d' = Inr tk' \<and> t_status tk' = t_status tk \<and> t_version tk' = t_version tk"
proof -
  have "row \<in> set (db_tasks d)" "t_id row = t_id tk" using load_task_Inr [OF assms(1)] by simp_all
  then have "list_ex (\<lambda>r. t_id r = t_id tk) (db_tasks d)" by (auto simp: list_ex_iff)
  moreover have i: "t_id (save_merge_attempts n tk) = t_id tk" for n by (simp add: save_merge_attempts_def)
  ultimately have d': "r = Inr ()" "tk' = (save_merge_attempts (load_merge_attempts tk + 1) tk)\<lparr>t_updated := now\<rparr>"
    "d' = d\<lparr>db_tasks := map (\<lambda>r. if t_id r = t_id tk then tk' else r) (db_tasks d)\<rparr>"
    using assms(2,3) by (auto simp: retry_merge_def Let_def save_task_def retry_exhausted_def
        default_merge_retry_policy_def max_merge_retries_def)
  have t: "t_id tk' = t_id tk" using d'(2) i by simp
  have rows: "db_tasks d' = map (\<lambda>r. if t_id r = t_id tk then tk' else r) (db_tasks d)" by (simp add: d'(3))
  have "r' = tk'" if "r' \<in> set (db_tasks d')" "t_id r' = t_id tk" for r'
    using that unfolding rows by (auto split: if_splits)
  moreover have "tk' \<in> set (db_tasks d')"
    unfolding rows using \<open>row \<in> set (db_tasks d)\<close> \<open>t_id row = t_id tk\<close> by force
  ultimately have "tbl_first t_id (\<lambda>x. t_id x = t_id tk) (db_tasks d') = Some tk'"
    using t tbl_first_None [of t_id "\<lambda>x. t_id x = t_id tk" "db_tasks d'"]
      tbl_first_Some [of t_id "\<lambda>x. t_id x = t_id tk" "db_tasks d'"]
    by (metis not_Some_eq)
  then show ?thesis using d'(1,2) by (simp add: load_task_def save_merge_attempts_def of_option_def)
qed

section \<open>The sample run\<close>

lemma run_unmoved:
  assumes "t_id t = ''t1''" "t_branch t = ''feature/x''"
  shows "refs_unmoved sample_git t run_artifact"
  using assms
  by (simp add: refs_unmoved_def sample_git_def run_git_def delivery_artifact_drift_def run_artifact_def
      frozen_artifact_def run_snapshot_def trim_space_def is_space_def)

definition run_result :: "int \<Rightarrow> merge_result" where
  "run_result code = \<lparr>mr_success = (code = 0), mr_conflicts = [], mr_trivial = 0, mr_non_trivial = 0, mr_details = [],
     mr_container = ''c1'', mr_exit = code, mr_reason = failure_reason_for_exit code\<rparr>"

text \<open>A container service that records the spawn and the exit; the push of every merger fails.\<close>

definition run_spawn :: "nat \<Rightarrow> string list \<Rightarrow> task \<Rightarrow> db \<Rightarrow> (err + string) \<times> db" where
  "run_spawn n argv t d =
     (let d1 = d\<lparr>db_attempts := db_attempts d @ [\<lparr>wa_id = run_fresh n ''attempt'' 0, wa_task = t_id t, wa_state = ''running'',
            wa_completed = None\<rparr>]\<rparr> in
      (Inr ''c1'', case create_event \<lparr>te_id = run_fresh (30 + n) ''event'' 0, te_task = t_id t, te_type = ''worker_spawned'', te_old = [],
          te_new = ''merger'', te_details = None, te_actor = ''orchestrator'', te_created = 9\<rparr> d1 of Inl e \<Rightarrow> d1 | Inr d2 \<Rightarrow> d2))"

definition run_await :: "nat \<Rightarrow> string \<Rightarrow> task \<Rightarrow> db \<Rightarrow> (err + int \<times> string) \<times> db" where
  "run_await n c t d = (Inr (4, ''exited''), d\<lparr>db_attempts := map (\<lambda>w. w\<lparr>wa_completed := Some 9\<rparr>) (db_attempts d)\<rparr>)"

definition run_merger_env :: merger_env where
  "run_merger_env = \<lparr>me_spawner = True, me_project = ''p'', me_default_branch = ''main'', me_test_command = ''go test ./...'',
     me_orch_url = [], me_token = [], me_getenv = (\<lambda>_. [])\<rparr>"

lemma run_merger_fails: "merger_fails_transiently {i. length i \<noteq> 25} (run_spawn n) (run_await n)"
proof -
  have s: "merger_records {i. length i \<noteq> 25} d (snd (run_spawn n argv t d))" for argv t d
  proof -
    define d1 where "d1 = d\<lparr>db_attempts := db_attempts d @ [\<lparr>wa_id = run_fresh n ''attempt'' 0, wa_task = t_id t,
        wa_state = ''running'', wa_completed = None\<rparr>]\<rparr>"
    define ev where "ev = \<lparr>te_id = run_fresh (30 + n) ''event'' 0, te_task = t_id t, te_type = ''worker_spawned'', te_old = [],
        te_new = ''merger'', te_details = None, te_actor = ''orchestrator'', te_created = 9\<rparr>"
    have d1: "merger_records {i. length i \<noteq> 25} d d1"
      unfolding d1_def by (rule merger_records.attempts [OF merger_records.none])
    have "snd (run_spawn n argv t d) = (case create_event ev d1 of Inl e \<Rightarrow> d1 | Inr d2 \<Rightarrow> d2)"
      unfolding run_spawn_def Let_def snd_conv d1_def ev_def by (rule refl)
    moreover have "te_id ev \<in> {i. length i \<noteq> 25}" by (simp add: ev_def run_fresh_def)
    ultimately show ?thesis using d1 merger_records.event [OF d1] by (auto split: sum.splits)
  qed
  have a: "merger_records {i. length i \<noteq> 25} d (snd (run_await n c t d))" for c t d
    by (simp add: run_await_def merger_records.none merger_records.attempts)
  show ?thesis
    unfolding merger_fails_transiently_def
  proof (intro conjI allI)
    show "\<exists>c d1. run_spawn n argv t d = (Inr c, d1) \<and> merger_records {i. length i \<noteq> 25} d d1" for argv t d
      using s [of d argv t] by (simp add: run_spawn_def Let_def)
    show "\<exists>x d1. run_await n c t d = (Inr x, d1) \<and> transient_exit x \<and> merger_records {i. length i \<noteq> 25} d d1" for c t d
      using a [of d c t] by (simp add: run_await_def transient_exit_def)
  qed
qed


theorem merge_completes_by_ancestry_witness:
  "\<exists>evs d'. reachable (run_authorized StatusMerging 6 evs) \<and>
     execute_merge (\<lambda>k. run_fresh 6) (\<lambda>k. 9) (\<lambda>k. if k = 2 then moved_git else sample_git) (\<lambda>r c. c)
       (\<lambda>t d. (Inr (run_result 4), t, d)) (run_task StatusMerging 6) (run_authorized StatusMerging 6 evs)
       = (Inr (), run_task StatusMerging 6, d')
     \<and> run_completion moved_sha ''authoritative_target_ref'' \<in> set (db_completions d')"
proof -
  obtain evs where r: "reachable (run_authorized StatusMerging 6 evs)" "run_events 11 evs"
    using run_authorized_reachable by blast
  let ?d = "run_authorized StatusMerging 6 evs" and ?t = "run_task StatusMerging 6"
  let ?c = "run_completion moved_sha ''authoritative_target_ref''"
  let ?g = "\<lambda>k. if k = (2 :: nat) then moved_git else sample_git"
  obtain d' where d': "recover_authorized_merge (run_fresh 6) 9 moved_git ?t ?d = (Inr (Some ?c), d')"
    "?c \<in> set (db_completions d')" using run_recover [OF r(2)] by blast
  have t: "?t \<in> set (db_tasks ?d)" "current_artifact (t_id ?t) ?d = Inr run_artifact"
    by (simp_all add: run_dbs [symmetric] run_authorized_lookup) (simp add: run_dbs)
  have u: "refs_unmoved sample_git ?t run_artifact" by (rule run_unmoved) simp_all
  have "execute_merge (\<lambda>k. run_fresh 6) (\<lambda>k. 9) ?g (\<lambda>r c. c) (\<lambda>t d. (Inr (run_result 4), t, d)) ?t ?d = (Inr (), ?t, d')"
    using unmoved_phases [OF r(1) t(1) _ t(2) u] d'(1) by (simp add: execute_merge_def)
  moreover from merge_completes_by_ancestry [OF _ _ this d'(2)] have "mc_task ?c = t_id ?t"
    by (simp add: run_dbs)
  ultimately show ?thesis using r(1) d'(2) by blast
qed

end
