(* ===== verification/MergerTool.thy ===== *)
theory MergerTool
  imports MergeExecution
begin

text \<open>
  The merger container: the flags and exit codes of \<open>cmd/drem-merger/main.go\<close> and the pipeline of
  \<open>internal/merger\<close> (\<open>merger.go\<close>, \<open>git.go\<close>).

  The commands a merge runs are recorded in a trace.  What git, the test command and the file
  system answer is a parameter, the \<open>merger_host\<close>, and may depend on everything run before.
  Reports to the telemetry endpoint and the branch registry do not change the outcome and are left
  out, and so are the times of a result.
\<close>

section \<open>Flags\<close>

record merger_flags =
  mf_work_dir :: string
  mf_bare_repo :: string
  mf_feature_branch :: string
  mf_integration_branch :: string
  mf_project :: string
  mf_task_id :: string
  mf_test_cmd :: string
  mf_orch_url :: string
  mf_token :: string
  mf_db_dsn :: string
  mf_feature_sha :: string
  mf_base_sha :: string

definition default_flags :: merger_flags where
  "default_flags = \<lparr>mf_work_dir = ''/work'', mf_bare_repo = ''/bare'', mf_feature_branch = [],
     mf_integration_branch = ''master'', mf_project = [], mf_task_id = [], mf_test_cmd = [], mf_orch_url = [],
     mf_token = [], mf_db_dsn = [], mf_feature_sha = [], mf_base_sha = []\<rparr>"

definition set_flag :: "string \<Rightarrow> string \<Rightarrow> merger_flags \<Rightarrow> merger_flags option" where
  "set_flag name v f =
     (if name = ''work-dir'' then Some (f\<lparr>mf_work_dir := v\<rparr>)
      else if name = ''bare-repo'' then Some (f\<lparr>mf_bare_repo := v\<rparr>)
      else if name = ''feature-branch'' then Some (f\<lparr>mf_feature_branch := v\<rparr>)
      else if name = ''integration-branch'' then Some (f\<lparr>mf_integration_branch := v\<rparr>)
      else if name = ''project'' then Some (f\<lparr>mf_project := v\<rparr>)
      else if name = ''task-id'' then Some (f\<lparr>mf_task_id := v\<rparr>)
      else if name = ''test-cmd'' then Some (f\<lparr>mf_test_cmd := v\<rparr>)
      else if name = ''orch-url'' then Some (f\<lparr>mf_orch_url := v\<rparr>)
      else if name = ''agentmon-token'' then Some (f\<lparr>mf_token := v\<rparr>)
      else if name = ''gitref-db'' then Some (f\<lparr>mf_db_dsn := v\<rparr>)
      else if name = ''expected-feature-sha'' then Some (f\<lparr>mf_feature_sha := v\<rparr>)
      else if name = ''expected-base-sha'' then Some (f\<lparr>mf_base_sha := v\<rparr>)
      else None)"

text \<open>\<open>flag.FlagSet.Parse\<close> for string flags: \<open>-name value\<close>, \<open>--name value\<close> or \<open>-name=value\<close>; the
  first argument that is no flag, or \<open>--\<close>, ends the flags.\<close>

definition flag_name :: "string \<Rightarrow> string option" where
  "flag_name arg = (case arg of
       c1 # c2 # rest \<Rightarrow>
         (if c1 \<noteq> CHR ''-'' then None else if c2 = CHR ''-'' then Some rest else Some (c2 # rest))
     | _ \<Rightarrow> None)"

fun parse_args :: "string list \<Rightarrow> merger_flags \<Rightarrow> err + merger_flags" where
  "parse_args [] f = Inr f"
| "parse_args (arg # args) f =
     (case flag_name arg of
        None \<Rightarrow> Inr f
      | Some name \<Rightarrow>
          (if name = [] then Inr f
           else if hd name = CHR ''-'' \<or> hd name = CHR ''='' then Inl (ErrMsg ''bad flag syntax'')
           else if CHR ''='' \<in> set (tl name)
           then (case set_flag (takeWhile (\<lambda>c. c \<noteq> CHR ''='') name) (tl (dropWhile (\<lambda>c. c \<noteq> CHR ''='') name)) f of
                   None \<Rightarrow> Inl (ErrMsg ''flag provided but not defined'')
                 | Some f' \<Rightarrow> parse_args args f')
           else (case set_flag name [] f of
                   None \<Rightarrow> Inl (ErrMsg ''flag provided but not defined'')
                 | Some _ \<Rightarrow>
                     (case args of
                        [] \<Rightarrow> Inl (ErrMsg ''flag needs an argument'')
                      | v # rest \<Rightarrow> (case set_flag name v f of
                                       None \<Rightarrow> Inl (ErrMsg ''flag provided but not defined'')
                                     | Some f' \<Rightarrow> parse_args rest f')))))"

definition is_full_git_sha :: "string \<Rightarrow> bool" where
  "is_full_git_sha v \<longleftrightarrow> (length v = 40 \<or> length v = 64) \<and> list_all is_hex v"

definition missing_flags :: "merger_flags \<Rightarrow> string list" where
  "missing_flags f =
     (if mf_feature_branch f = [] then [''--feature-branch''] else [])
     @ (if mf_project f = [] then [''--project''] else [])
     @ (if mf_task_id f = [] then [''--task-id''] else [])
     @ (if mf_test_cmd f = [] then [''--test-cmd''] else [])
     @ (if mf_feature_sha f = [] then [''--expected-feature-sha''] else [])
     @ (if mf_base_sha f = [] then [''--expected-base-sha''] else [])"

definition parse_flags :: "string list \<Rightarrow> err + merger_flags" where
  "parse_flags args =
     res_bind (parse_args args default_flags) (\<lambda>f.
     if missing_flags f \<noteq> [] then Inl (ErrMsg (''missing required flags: '' @ str_join '' '' (missing_flags f)))
     else if (mf_orch_url f = []) \<noteq> (mf_token f = [])
     then Inl (ErrMsg ''--orch-url and --agentmon-token must be supplied together'')
     else if \<not> is_full_git_sha (mf_feature_sha f)
     then Inl (ErrMsg ''--expected-feature-sha must be a full 40- or 64-character hexadecimal SHA'')
     else if \<not> is_full_git_sha (mf_base_sha f)
     then Inl (ErrMsg ''--expected-base-sha must be a full 40- or 64-character hexadecimal SHA'')
     else Inr f)"

section \<open>Commands\<close>

text \<open>\<open>go_err = None\<close> is a nil error; both outputs have their trailing newlines removed.\<close>

record git_output =
  go_stdout :: string
  go_stderr :: string
  go_err :: "string option"

text \<open>How the test command ended: at the timeout, with an exit status, or not at all.\<close>

datatype test_run = TestTimedOut string | TestExited bool string | TestNotRun string string

datatype merger_action = GitRun "string list" git_output | TestRun string test_run

type_synonym merger_trace = "merger_action list"

record merger_host =
  mh_git :: "merger_trace \<Rightarrow> string list \<Rightarrow> git_output"
  mh_tests :: "merger_trace \<Rightarrow> string \<Rightarrow> test_run"
  mh_reset :: "string option"
  mh_mkdir :: "string option"

definition git_combined :: "git_output \<Rightarrow> string" where
  "git_combined o' = (if go_stderr o' = [] then go_stdout o' else if go_stdout o' = [] then go_stderr o'
     else go_stdout o' @ CHR 0x0A # go_stderr o')"

definition git_exec :: "merger_host \<Rightarrow> string list \<Rightarrow> merger_trace \<Rightarrow> git_output \<times> merger_trace" where
  "git_exec h args tr = (let o' = mh_git h tr args in (o', tr @ [GitRun args o']))"

definition is_conflict_code :: "string \<Rightarrow> bool" where
  "is_conflict_code c \<longleftrightarrow> c \<in> {''UU'', ''AA'', ''DD'', ''AU'', ''UA'', ''DU'', ''UD''}"

fun conflict_paths :: "string list \<Rightarrow> string list \<Rightarrow> string list" where
  "conflict_paths seen [] = []"
| "conflict_paths seen (line # lines) =
     (let path = trim_space (drop 3 line) in
      if length line < 3 \<or> \<not> is_conflict_code (take 2 line) \<or> path = [] \<or> path \<in> set seen
      then conflict_paths seen lines
      else path # conflict_paths (path # seen) lines)"

definition conflicted_files :: "git_output \<Rightarrow> err + string list" where
  "conflicted_files o' =
     (if go_err o' \<noteq> None then Inl (ErrMsg ''git status --porcelain'')
      else if go_stdout o' = [] then Inr []
      else Inr (conflict_paths [] (split_on (CHR 0x0A) (go_stdout o'))))"

section \<open>The pipeline\<close>

record merger_request =
  mq_feature :: string
  mq_integration :: string
  mq_project :: string
  mq_task :: string
  mq_feature_sha :: string
  mq_base_sha :: string

record merger_result =
  ms_success :: bool
  ms_conflicts :: "string list"
  ms_tests_passed :: bool
  ms_test_output :: string
  ms_merged_sha :: string
  ms_reason :: string

record merger_config =
  mg_work_dir :: string
  mg_bare_repo :: string
  mg_test_cmd :: string

definition no_merger_result :: merger_result where
  "no_merger_result = \<lparr>ms_success = False, ms_conflicts = [], ms_tests_passed = False, ms_test_output = [],
     ms_merged_sha = [], ms_reason = []\<rparr>"

definition missing_fields :: "merger_request \<Rightarrow> string list" where
  "missing_fields q =
     (if mq_feature q = [] then [''FeatureBranch''] else []) @ (if mq_integration q = [] then [''IntegrationBranch''] else [])
     @ (if mq_project q = [] then [''Project''] else []) @ (if mq_task q = [] then [''TaskID''] else [])"

text \<open>A stage either ends the merge with a result and an error or goes on with a value.\<close>

type_synonym merger_stop = "merger_result \<times> err option"
type_synonym 'a stage = "merger_trace \<Rightarrow> (merger_stop + 'a) \<times> merger_trace"

definition and_then :: "'a stage \<Rightarrow> ('a \<Rightarrow> 'b stage) \<Rightarrow> 'b stage" where
  "and_then m f tr = (case m tr of (Inl s, tr') \<Rightarrow> (Inl s, tr') | (Inr x, tr') \<Rightarrow> f x tr')"

definition fail_with :: "string \<Rightarrow> merger_result \<Rightarrow> string \<Rightarrow> 'a stage" where
  "fail_with reason r msg tr = (Inl (r\<lparr>ms_reason := reason\<rparr>, Some (ErrMsg msg)), tr)"

text \<open>A git command whose failure ends the merge; the stage's value is the trimmed output.\<close>

definition must_git :: "merger_host \<Rightarrow> string \<Rightarrow> merger_result \<Rightarrow> string \<Rightarrow> string list \<Rightarrow> string stage" where
  "must_git h reason r msg args tr =
     (let (o', tr') = git_exec h args tr in
      if go_err o' \<noteq> None then fail_with reason r msg tr' else (Inr (trim_space (go_stdout o')), tr'))"

definition expect_sha ::
  "merger_host \<Rightarrow> merger_result \<Rightarrow> string \<Rightarrow> string \<Rightarrow> string \<Rightarrow> string \<Rightarrow> unit stage" where
  "expect_sha h r ref expected verify drift tr =
     (if expected = [] then (Inr (), tr)
      else and_then (must_git h ''other'' r verify [''rev-parse'', ref]) (\<lambda>sha tr.
             if sha \<noteq> expected then fail_with ''stale_evidence'' r drift tr else (Inr (), tr)) tr)"

definition merge_args :: "string \<Rightarrow> string list" where
  "merge_args feature =
     [''merge'', ''--no-ff'', ''-m'', ''orchestrator: integrate accepted scoped change'', feature]"

definition merge_feature :: "merger_host \<Rightarrow> merger_request \<Rightarrow> merger_result \<Rightarrow> unit stage" where
  "merge_feature h q r tr =
     (let (m, tr1) = git_exec h (merge_args (mq_feature q)) tr in
      if go_err m = None then (Inr (), tr1)
      else
        (let (st, tr2) = git_exec h [''status'', ''--porcelain''] tr1 in
         case conflicted_files st of
           Inl e \<Rightarrow> fail_with ''other'' r ''merger: inspect conflicts'' tr2
         | Inr conflicts \<Rightarrow>
             (if conflicts \<noteq> []
              then (Inl (r\<lparr>ms_conflicts := conflicts, ms_reason := ''conflict''\<rparr>, None),
                    snd (git_exec h [''merge'', ''--abort''] tr2))
              else fail_with ''other'' r (''merger: merge: '' @ git_combined m) tr2)))"

definition run_tests :: "merger_host \<Rightarrow> merger_config \<Rightarrow> merger_trace \<Rightarrow> (bool \<times> string \<times> err option) \<times> merger_trace" where
  "run_tests h cfg tr =
     (if trim_space (mg_test_cmd cfg) = [] then ((True, ''no test command configured'', None), tr)
      else (let t = mh_tests h tr (mg_test_cmd cfg); tr' = tr @ [TestRun (mg_test_cmd cfg) t] in
            case t of
              TestTimedOut out \<Rightarrow> ((False, out @ CHR 0x0A # ''[merger: test command timed out]'', None), tr')
            | TestExited ok out \<Rightarrow> ((ok, out, None), tr')
            | TestNotRun out e \<Rightarrow> ((False, out, Some (ErrMsg (''exec test command: '' @ e))), tr')))"

definition gate_tests :: "merger_host \<Rightarrow> merger_config \<Rightarrow> merger_result \<Rightarrow> merger_result stage" where
  "gate_tests h cfg r tr =
     (let ((passed, out, e), tr1) = run_tests h cfg tr;
          r1 = r\<lparr>ms_test_output := out, ms_tests_passed := passed\<rparr> in
      if e \<noteq> None then fail_with ''other'' r1 ''merger: run tests'' tr1
      else if \<not> passed then (Inl (r1\<lparr>ms_reason := ''tests_failed''\<rparr>, None), tr1)
      else (Inr r1, tr1))"

definition publish :: "merger_host \<Rightarrow> merger_request \<Rightarrow> merger_result \<Rightarrow> merger_result stage" where
  "publish h q r =
     and_then (must_git h ''push_failed'' r ''merger: push integration'' [''push'', ''origin'', mq_integration q]) (\<lambda>_.
     and_then (must_git h ''other'' r ''merger: read merged SHA'' [''rev-parse'', ''HEAD'']) (\<lambda>sha.
     let r1 = r\<lparr>ms_merged_sha := sha\<rparr> in
     and_then (must_git h ''push_failed'' r1 ''merger: delete feature branch''
       [''push'', ''origin'', ''--delete'', mq_feature q]) (\<lambda>_ tr.
     (Inr (r1\<lparr>ms_success := True\<rparr>), tr))))"

definition merge_existing :: "merger_host \<Rightarrow> merger_config \<Rightarrow> merger_request \<Rightarrow> merger_result \<Rightarrow> merger_result stage" where
  "merge_existing h cfg q r =
     and_then (must_git h ''other'' r ''merger: fetch feature''
       [''fetch'', ''origin'', mq_feature q @ '':'' @ mq_feature q]) (\<lambda>_.
     and_then (expect_sha h r (mq_feature q) (mq_feature_sha q) ''merger: verify feature commit''
       ''merger: feature commit drift'') (\<lambda>_.
     and_then (merge_feature h q r) (\<lambda>_.
     and_then (gate_tests h cfg r) (\<lambda>r1. publish h q r1))))"

definition merge_already_done :: "merger_host \<Rightarrow> merger_result \<Rightarrow> merger_result stage" where
  "merge_already_done h r =
     and_then (must_git h ''other'' r ''merger: read HEAD after idempotent short-circuit'' [''rev-parse'', ''HEAD''])
       (\<lambda>sha tr. (Inr (r\<lparr>ms_success := True, ms_tests_passed := True, ms_merged_sha := sha\<rparr>), tr))"

definition merge_pipeline :: "merger_host \<Rightarrow> merger_config \<Rightarrow> merger_request \<Rightarrow> merger_result stage" where
  "merge_pipeline h cfg q =
     (let r = no_merger_result in
      if missing_fields q \<noteq> []
      then fail_with ''other'' r (''merger: MergeRequest missing fields: '' @ str_join '', '' (missing_fields q))
      else if mg_work_dir cfg = [] \<or> mg_bare_repo cfg = []
      then fail_with ''other'' r ''merger: WorkDir and BareRepo are required''
      else if mh_reset h \<noteq> None then fail_with ''other'' r ''merger: reset work dir''
      else if mh_mkdir h \<noteq> None then fail_with ''other'' r ''merger: clone integration''
      else
        and_then (must_git h ''other'' r ''merger: clone integration''
          [''clone'', ''--branch'', mq_integration q, mg_bare_repo cfg, ''.'']) (\<lambda>_.
        and_then (expect_sha h r ''HEAD'' (mq_base_sha q) ''merger: verify integration base''
          ''merger: integration base drift'') (\<lambda>_.
        and_then (must_git h ''other'' r ''merger: check remote branch''
          [''ls-remote'', ''--heads'', ''origin'', mq_feature q]) (\<lambda>heads.
        if heads = [] then merge_already_done h r else merge_existing h cfg q r))))"

definition merger_merge ::
  "merger_host \<Rightarrow> merger_config \<Rightarrow> merger_request \<Rightarrow> (merger_result \<times> err option) \<times> merger_trace" where
  "merger_merge h cfg q =
     (case merge_pipeline h cfg q [] of
        (Inl s, tr) \<Rightarrow> (s, tr) | (Inr r, tr) \<Rightarrow> ((r, None), tr))"

section \<open>Exit codes\<close>

definition exit_code_for :: "merger_result option \<Rightarrow> int" where
  "exit_code_for ro = (case ro of None \<Rightarrow> 1 | Some r \<Rightarrow>
     (if ms_success r then 0
      else if ms_reason r = ''conflict'' then 2 else if ms_reason r = ''tests_failed'' then 3
      else if ms_reason r = ''push_failed'' then 4 else if ms_reason r = ''stale_evidence'' then 5
      else 1))"

definition run_merger :: "merger_host \<Rightarrow> string list \<Rightarrow> (int \<times> err option) \<times> merger_trace" where
  "run_merger h args =
     (case parse_flags args of
        Inl e \<Rightarrow> ((1, Some e), [])
      | Inr f \<Rightarrow>
          (let ((r, e), tr) = merger_merge h
                 \<lparr>mg_work_dir = mf_work_dir f, mg_bare_repo = mf_bare_repo f, mg_test_cmd = mf_test_cmd f\<rparr>
                 \<lparr>mq_feature = mf_feature_branch f, mq_integration = mf_integration_branch f,
                  mq_project = mf_project f, mq_task = mf_task_id f,
                  mq_feature_sha = mf_feature_sha f, mq_base_sha = mf_base_sha f\<rparr> in
           ((exit_code_for (Some r), e), tr)))"

section \<open>Pushing\<close>

definition is_push :: "merger_action \<Rightarrow> bool" where
  "is_push a \<longleftrightarrow> (\<exists>args o'. a = GitRun (''push'' # args) o')"

definition quiet_stage :: "'a stage \<Rightarrow> bool" where
  "quiet_stage m \<longleftrightarrow> (\<forall>tr. \<exists>ext. snd (m tr) = tr @ ext \<and> list_all (\<lambda>a. \<not> is_push a) ext)"

lemmas stage_defs = and_then_def must_git_def git_exec_def fail_with_def Let_def

lemma must_git_quiet: "hd args \<noteq> ''push'' \<Longrightarrow> quiet_stage (must_git h reason r msg args)"
  by (auto simp: quiet_stage_def stage_defs is_push_def)

lemma must_git_Inr:
  "must_git h reason r msg args tr = (Inr x, tr') \<longleftrightarrow>
     (\<exists>o'. tr' = tr @ [GitRun args o'] \<and> go_err o' = None \<and> x = trim_space (go_stdout o') \<and> o' = mh_git h tr args)"
  by (auto simp: stage_defs)

lemma must_git_trace: "\<exists>o'. snd (must_git h reason r msg args tr) = tr @ [GitRun args o']"
  by (auto simp: stage_defs)

lemma expect_sha_quiet: "quiet_stage (expect_sha h r ref expected verify drift)"
  by (auto simp: quiet_stage_def expect_sha_def stage_defs is_push_def)

lemma expect_sha_Inr:
  "\<lbrakk>expect_sha h r ref expected verify drift tr = (Inr x, tr'); expected \<noteq> []\<rbrakk> \<Longrightarrow>
     \<exists>o'. GitRun [''rev-parse'', ref] o' \<in> set tr' \<and> go_err o' = None \<and> trim_space (go_stdout o') = expected"
  by (auto simp: expect_sha_def stage_defs split: if_splits)

lemma merge_feature_quiet: "quiet_stage (merge_feature h q r)"
  by (auto simp: quiet_stage_def merge_feature_def git_exec_def fail_with_def is_push_def merge_args_def Let_def
      split: sum.splits)

lemma merge_feature_Inr:
  "merge_feature h q r tr = (Inr x, tr') \<Longrightarrow>
     \<exists>o'. tr' = tr @ [GitRun (merge_args (mq_feature q)) o'] \<and> go_err o' = None"
  by (auto simp: merge_feature_def git_exec_def fail_with_def Let_def split: if_splits sum.splits)

lemma gate_tests_quiet: "quiet_stage (gate_tests h cfg r)"
  by (auto simp: quiet_stage_def gate_tests_def run_tests_def fail_with_def is_push_def Let_def split: test_run.splits)

lemma gate_tests_Inr:
  "gate_tests h cfg r tr = (Inr r1, tr') \<Longrightarrow> ms_tests_passed r1
     \<and> (trim_space (mg_test_cmd cfg) = [] \<and> tr' = tr \<or> (\<exists>out. tr' = tr @ [TestRun (mg_test_cmd cfg) (TestExited True out)]))"
  by (auto simp: gate_tests_def run_tests_def fail_with_def Let_def split: test_run.splits if_splits)

text \<open>Composition: what is pushed after a quiet stage is pushed by the continuation.\<close>

lemma push_and_then:
  assumes "quiet_stage m" "a \<in> set (snd (and_then m f tr))" "is_push a" "list_all (\<lambda>a. \<not> is_push a) tr"
  obtains x tr1 where "m tr = (Inr x, tr1)" "list_all (\<lambda>a. \<not> is_push a) tr1" "set tr \<subseteq> set tr1"
    "and_then m f tr = f x tr1" "a \<in> set (snd (f x tr1))"
proof -
  obtain r tr1 where m: "m tr = (r, tr1)" by fastforce
  then obtain ext where e: "tr1 = tr @ ext" "list_all (\<lambda>a. \<not> is_push a) ext"
    using assms(1) by (metis quiet_stage_def snd_conv)
  with assms(4) have n: "list_all (\<lambda>a. \<not> is_push a) tr1" by simp
  show ?thesis
  proof (cases r)
    case (Inl s)
    with assms(2,3) m n show ?thesis by (auto simp: and_then_def list_all_iff)
  next
    case (Inr x)
    with assms(2) m n e show ?thesis by (intro that [of x tr1]) (auto simp: and_then_def)
  qed
qed

lemma publish_trace:
  assumes "publish h q r tr = (s, tr')"
  obtains o' post where "tr' = tr @ GitRun [''push'', ''origin'', mq_integration q] o' # post"
    "GitRun [''push'', ''origin'', mq_integration q] x \<notin> set post"
    "s = Inr r' \<Longrightarrow> go_err o' = None \<and> ms_success r' \<and> ms_tests_passed r' = ms_tests_passed r"
proof -
  show ?thesis
    using assms by (intro that [of "mh_git h tr [''push'', ''origin'', mq_integration q]" "drop (length tr + 1) tr'"])
      (auto simp: publish_def stage_defs split: if_splits prod.splits sum.splits)
qed

text \<open>C15: the merger pushes the integration branch only when everything it was authorized for holds:
  before the push git reported the expected base at the head of the clone and the expected commit
  at the feature branch, the merge succeeded, and the test command, unless it is blank, exited
  successfully.\<close>

theorem merger_pushes_only_verified:
  assumes "merger_merge h cfg q = ((res, e), tr)" "GitRun [''push'', ''origin'', mq_integration q] o' \<in> set tr"
    "mq_base_sha q \<noteq> []" "mq_feature_sha q \<noteq> []"
  shows "\<exists>pre post b f m. tr = pre @ GitRun [''push'', ''origin'', mq_integration q] o' # post
    \<and> GitRun [''rev-parse'', ''HEAD''] b \<in> set pre \<and> go_err b = None \<and> trim_space (go_stdout b) = mq_base_sha q
    \<and> GitRun [''rev-parse'', mq_feature q] f \<in> set pre \<and> go_err f = None \<and> trim_space (go_stdout f) = mq_feature_sha q
    \<and> GitRun (merge_args (mq_feature q)) m \<in> set pre \<and> go_err m = None
    \<and> (trim_space (mg_test_cmd cfg) = [] \<or> (\<exists>out. TestRun (mg_test_cmd cfg) (TestExited True out) \<in> set pre))"
proof -
  let ?a = "GitRun [''push'', ''origin'', mq_integration q] o'" and ?r = no_merger_result
  have push: "is_push ?a" by (simp add: is_push_def)
  have tr: "tr = snd (merge_pipeline h cfg q [])"
    using assms(1) by (auto simp: merger_merge_def split: prod.splits sum.splits)
  define rest where "rest = (\<lambda>heads :: string. if heads = [] then merge_already_done h ?r else merge_existing h cfg q ?r)"
  have a: "?a \<in> set (snd (merge_pipeline h cfg q []))" using assms(2) tr by simp
  then have p: "merge_pipeline h cfg q [] = and_then (must_git h ''other'' ?r ''merger: clone integration''
          [''clone'', ''--branch'', mq_integration q, mg_bare_repo cfg, ''.'']) (\<lambda>_.
        and_then (expect_sha h ?r ''HEAD'' (mq_base_sha q) ''merger: verify integration base''
          ''merger: integration base drift'') (\<lambda>_.
        and_then (must_git h ''other'' ?r ''merger: check remote branch''
          [''ls-remote'', ''--heads'', ''origin'', mq_feature q]) rest)) []"
    by (auto simp: merge_pipeline_def fail_with_def Let_def rest_def split: if_splits)
  obtain x1 t1 where 1: "list_all (\<lambda>a. \<not> is_push a) t1" "merge_pipeline h cfg q [] =
      and_then (expect_sha h ?r ''HEAD'' (mq_base_sha q) ''merger: verify integration base''
          ''merger: integration base drift'') (\<lambda>_.
        and_then (must_git h ''other'' ?r ''merger: check remote branch''
          [''ls-remote'', ''--heads'', ''origin'', mq_feature q]) rest) t1"
    by (rule push_and_then [OF must_git_quiet a [unfolded p] push]) (auto simp: p)
  obtain x2 t2 where 2: "list_all (\<lambda>a. \<not> is_push a) t2" "merge_pipeline h cfg q [] =
      and_then (must_git h ''other'' ?r ''merger: check remote branch''
          [''ls-remote'', ''--heads'', ''origin'', mq_feature q]) rest t2"
    "expect_sha h ?r ''HEAD'' (mq_base_sha q) ''merger: verify integration base''
          ''merger: integration base drift'' t1 = (Inr x2, t2)"
    by (rule push_and_then [OF expect_sha_quiet a [unfolded 1(2)] push 1(1)]) (auto simp: 1(2))
  obtain b where b: "GitRun [''rev-parse'', ''HEAD''] b \<in> set t2" "go_err b = None" "trim_space (go_stdout b) = mq_base_sha q"
    using expect_sha_Inr [OF 2(3) assms(3)] by blast
  obtain x3 t3 where 3: "list_all (\<lambda>a. \<not> is_push a) t3" "merge_pipeline h cfg q [] = rest x3 t3" "set t2 \<subseteq> set t3"
    by (rule push_and_then [OF must_git_quiet a [unfolded 2(2)] push 2(1)]) (auto simp: 2(2))
  have "rest x3 t3 = merge_existing h cfg q ?r t3"
    using a [unfolded 3(2)] 3(1)
    by (auto simp: rest_def merge_already_done_def stage_defs
        list_all_iff is_push_def split: if_splits)
  note 3 = 3(1) trans [OF 3(2) this [unfolded merge_existing_def]] 3(3)
  obtain x4 t4 where 4: "list_all (\<lambda>a. \<not> is_push a) t4" "merge_pipeline h cfg q [] =
      and_then (expect_sha h ?r (mq_feature q) (mq_feature_sha q) ''merger: verify feature commit''
       ''merger: feature commit drift'') (\<lambda>_. and_then (merge_feature h q ?r) (\<lambda>_.
         and_then (gate_tests h cfg ?r) (\<lambda>r1. publish h q r1))) t4" "set t3 \<subseteq> set t4"
    by (rule push_and_then [OF must_git_quiet a [unfolded 3(2)] push 3(1)]) (auto simp: 3(2))
  obtain x5 t5 where 5: "list_all (\<lambda>a. \<not> is_push a) t5" "merge_pipeline h cfg q [] =
      and_then (merge_feature h q ?r) (\<lambda>_. and_then (gate_tests h cfg ?r) (\<lambda>r1. publish h q r1)) t5" "set t4 \<subseteq> set t5"
    "expect_sha h ?r (mq_feature q) (mq_feature_sha q) ''merger: verify feature commit''
       ''merger: feature commit drift'' t4 = (Inr x5, t5)"
    by (rule push_and_then [OF expect_sha_quiet a [unfolded 4(2)] push 4(1)]) (auto simp: 4(2))
  obtain f where f: "GitRun [''rev-parse'', mq_feature q] f \<in> set t5" "go_err f = None" "trim_space (go_stdout f) = mq_feature_sha q"
    using expect_sha_Inr [OF 5(4) assms(4)] by blast
  obtain x6 t6 where 6: "list_all (\<lambda>a. \<not> is_push a) t6" "merge_pipeline h cfg q [] =
      and_then (gate_tests h cfg ?r) (\<lambda>r1. publish h q r1) t6" "set t5 \<subseteq> set t6" "merge_feature h q ?r t5 = (Inr x6, t6)"
    by (rule push_and_then [OF merge_feature_quiet a [unfolded 5(2)] push 5(1)]) (auto simp: 5(2))
  obtain r1 t7 where 7: "list_all (\<lambda>a. \<not> is_push a) t7" "merge_pipeline h cfg q [] = publish h q r1 t7" "set t6 \<subseteq> set t7"
    "gate_tests h cfg ?r t6 = (Inr r1, t7)"
    by (rule push_and_then [OF gate_tests_quiet a [unfolded 6(2)] push 6(1)]) (auto simp: 6(2))
  obtain s tr' where s: "publish h q r1 t7 = (s, tr')" by fastforce
  obtain x post where x: "tr' = t7 @ GitRun [''push'', ''origin'', mq_integration q] x # post"
    "GitRun [''push'', ''origin'', mq_integration q] o' \<notin> set post"
    by (rule publish_trace [OF s, where x = o' and r' = r1])
  have "?a \<notin> set t7" using 7(1) push by (auto simp: list_all_iff)
  then have "x = o'" using a x by (auto simp: 7(2) s)
  with x(1) have t: "tr = t7 @ GitRun [''push'', ''origin'', mq_integration q] o' # post"
    using tr unfolding 7(2) s by simp
  obtain m where m: "GitRun (merge_args (mq_feature q)) m \<in> set t6" "go_err m = None"
    using merge_feature_Inr [OF 6(4)] in_set_conv_decomp by fastforce
  have "set t2 \<subseteq> set t7" "set t5 \<subseteq> set t7" "set t6 \<subseteq> set t7" using 3(3) 4(3) 5(3) 6(3) 7(3) by blast+
  then have "GitRun [''rev-parse'', ''HEAD''] b \<in> set t7" "GitRun [''rev-parse'', mq_feature q] f \<in> set t7"
    "GitRun (merge_args (mq_feature q)) m \<in> set t7" using b(1) f(1) m(1) by blast+
  moreover have "trim_space (mg_test_cmd cfg) = [] \<or> (\<exists>out. TestRun (mg_test_cmd cfg) (TestExited True out) \<in> set t7)"
    using gate_tests_Inr [OF 7(4)] by auto
  ultimately show ?thesis
    using t b(2,3) f(2,3) m(2)
    by (intro exI [of _ t7] exI [of _ post] exI [of _ b] exI [of _ f] exI [of _ m] conjI)
qed

definition calm_host :: merger_host where
  "calm_host = \<lparr>mh_git = (\<lambda>tr args. \<lparr>go_stdout = (if hd args = ''rev-parse'' then replicate 40 CHR ''a'' else ''x''),
       go_stderr = [], go_err = None\<rparr>),
     mh_tests = (\<lambda>tr c. TestExited True ''ok''), mh_reset = None, mh_mkdir = None\<rparr>"

definition sample_merge :: merger_request where
  "sample_merge = \<lparr>mq_feature = ''feature/x'', mq_integration = ''master'', mq_project = ''p1'', mq_task = ''t1'',
     mq_feature_sha = replicate 40 CHR ''a'', mq_base_sha = replicate 40 CHR ''a''\<rparr>"

definition sample_config :: merger_config where
  "sample_config = \<lparr>mg_work_dir = ''/work'', mg_bare_repo = ''/bare'', mg_test_cmd = ''go test''\<rparr>"

theorem merger_pushes_only_verified_witness:
  "\<exists>pre o' post out. snd (merger_merge calm_host sample_config sample_merge) =
       pre @ GitRun [''push'', ''origin'', ''master''] o' # post
     \<and> TestRun ''go test'' (TestExited True out) \<in> set pre"
proof -
  obtain res e tr where m: "merger_merge calm_host sample_config sample_merge = ((res, e), tr)" by (metis prod_cases3 surj_pair)
  have "\<not> blank ''go test''" by (simp add: trim_space_def is_space_def)
  moreover have t: "trim_space (replicate 40 CHR ''a'') = replicate 40 CHR ''a''" "trim_space ''x'' = ''x''"
    by (simp_all add: trim_space_def is_space_def numeral_eq_Suc)
  ultimately have "\<exists>o'. GitRun [''push'', ''origin'', mq_integration sample_merge] o' \<in> set tr"
    using m by (auto simp: merger_merge_def merge_pipeline_def sample_merge_def sample_config_def calm_host_def missing_fields_def
        expect_sha_def merge_existing_def merge_feature_def gate_tests_def run_tests_def publish_def stage_defs)
  then obtain o' where o: "GitRun [''push'', ''origin'', mq_integration sample_merge] o' \<in> set tr" by blast
  have n: "mq_base_sha sample_merge \<noteq> []" "mq_feature_sha sample_merge \<noteq> []" "mg_test_cmd sample_config = ''go test''"
    "mq_integration sample_merge = ''master''"
    by (simp_all add: sample_merge_def sample_config_def)
  from merger_pushes_only_verified [OF m o n(1,2)] show ?thesis
    using \<open>\<not> blank ''go test''\<close> m n(3,4) by auto
qed

section \<open>Flags and exit codes\<close>

text \<open>The exit code carries the reason to the orchestrator, except that \<open>other\<close> becomes \<open>misc\<close>.\<close>

lemma exit_code_reason:
  assumes "ms_success r \<or> ms_reason r \<in> {''conflict'', ''tests_failed'', ''push_failed'', ''stale_evidence'', ''other''}"
  shows "failure_reason_for_exit (exit_code_for (Some r)) =
     (if ms_success r then [] else if ms_reason r = ''other'' then ''misc'' else ms_reason r)"
  using assms by (auto simp: exit_code_for_def failure_reason_for_exit_def)

definition stop_reasons :: "string set" where
  "stop_reasons = {''conflict'', ''tests_failed'', ''push_failed'', ''stale_evidence'', ''other''}"

definition ends_well :: "merger_result stage \<Rightarrow> bool" where
  "ends_well m \<longleftrightarrow> (\<forall>tr. case m tr of
       (Inl (r, e), _) \<Rightarrow> \<not> ms_success r \<and> ms_reason r \<in> stop_reasons
     | (Inr r, _) \<Rightarrow> ms_success r \<and> ms_reason r = [])"

definition stops_well :: "('a \<Rightarrow> bool) \<Rightarrow> 'a stage \<Rightarrow> bool" where
  "stops_well P m \<longleftrightarrow> (\<forall>tr. case m tr of
       (Inl (r, e), _) \<Rightarrow> \<not> ms_success r \<and> ms_reason r \<in> stop_reasons | (Inr x, _) \<Rightarrow> P x)"

lemma ends_and_then: "\<lbrakk>stops_well P m; \<And>x. P x \<Longrightarrow> ends_well (f x)\<rbrakk> \<Longrightarrow> ends_well (and_then m f)"
  unfolding ends_well_def stops_well_def and_then_def
  by (intro allI) (metis (mono_tags, lifting) old.prod.case old.prod.exhaust sum.case_eq_if sum.collapse(1) sum.simps(5) sum.simps(6))

lemma must_git_stops:
  "\<lbrakk>reason \<in> stop_reasons; \<not> ms_success r\<rbrakk> \<Longrightarrow> stops_well (\<lambda>_. True) (must_git h reason r msg args)"
  by (auto simp: stops_well_def stage_defs)

lemma expect_sha_stops:
  "\<not> ms_success r \<Longrightarrow> stops_well (\<lambda>_. True) (expect_sha h r ref expected verify drift)"
  by (auto simp: stops_well_def expect_sha_def stage_defs stop_reasons_def)

lemma merge_feature_stops: "\<not> ms_success r \<Longrightarrow> stops_well (\<lambda>_. True) (merge_feature h q r)"
  by (auto simp: stops_well_def merge_feature_def stage_defs stop_reasons_def split: sum.splits)

lemma gate_tests_stops:
  "\<lbrakk>\<not> ms_success r; ms_reason r = []\<rbrakk> \<Longrightarrow> stops_well (\<lambda>r1. \<not> ms_success r1 \<and> ms_reason r1 = []) (gate_tests h cfg r)"
  by (auto simp: stops_well_def gate_tests_def run_tests_def stage_defs stop_reasons_def split: test_run.splits)

lemma publish_ends: "\<lbrakk>\<not> ms_success r; ms_reason r = []\<rbrakk> \<Longrightarrow> ends_well (publish h q r)"
  by (auto simp: ends_well_def publish_def stage_defs stop_reasons_def)

lemma merge_existing_ends: "\<lbrakk>\<not> ms_success r; ms_reason r = []\<rbrakk> \<Longrightarrow> ends_well (merge_existing h cfg q r)"
  unfolding merge_existing_def
  by (intro ends_and_then [OF must_git_stops] ends_and_then [OF expect_sha_stops] ends_and_then [OF merge_feature_stops]
      ends_and_then [OF gate_tests_stops] publish_ends) (auto simp: stop_reasons_def)

lemma merge_already_done_ends: "\<lbrakk>\<not> ms_success r; ms_reason r = []\<rbrakk> \<Longrightarrow> ends_well (merge_already_done h r)"
  by (auto simp: ends_well_def merge_already_done_def stage_defs stop_reasons_def)

lemma merge_pipeline_ends: "ends_well (merge_pipeline h cfg q)"
proof -
  have f: "ends_well (fail_with ''other'' no_merger_result msg)" for msg
    by (simp add: ends_well_def fail_with_def no_merger_result_def stop_reasons_def)
  have n: "\<not> ms_success no_merger_result" "ms_reason no_merger_result = []" "''other'' \<in> stop_reasons"
    by (simp_all add: no_merger_result_def stop_reasons_def)
  have "ends_well (if heads = [] then merge_already_done h no_merger_result else merge_existing h cfg q no_merger_result)"
    for heads :: string using n merge_already_done_ends merge_existing_ends by simp
  note body = ends_and_then [OF must_git_stops [OF n(3,1)] ends_and_then [OF expect_sha_stops [OF n(1)]
      ends_and_then [OF must_git_stops [OF n(3,1)] this]]]
  show ?thesis unfolding merge_pipeline_def Let_def by (simp add: f body)
qed

lemma merger_reasons:
  assumes "merger_merge h cfg q = ((r, e), tr)"
  shows "ms_success r \<and> ms_reason r = [] \<or> \<not> ms_success r \<and> ms_reason r \<in> stop_reasons"
  using assms merge_pipeline_ends [of h cfg q]
  by (auto simp: merger_merge_def ends_well_def split: prod.splits sum.splits) (metis old.prod.case sum.simps(5) sum.simps(6))+

text \<open>After a successful merge the head of the integration branch has moved, so a second run stops at the
  base check, whether or not the feature branch still exists.\<close>

lemma already_merged_is_stale:
  assumes "missing_fields q = []" "mg_work_dir cfg \<noteq> []" "mg_bare_repo cfg \<noteq> []" "mh_reset h = None" "mh_mkdir h = None"
    "\<And>tr. go_err (mh_git h tr [''clone'', ''--branch'', mq_integration q, mg_bare_repo cfg, ''.'']) = None"
    "\<And>tr. go_err (mh_git h tr [''rev-parse'', ''HEAD'']) = None"
    "\<And>tr. trim_space (go_stdout (mh_git h tr [''rev-parse'', ''HEAD''])) \<noteq> mq_base_sha q" "mq_base_sha q \<noteq> []"
  shows "ms_reason (fst (fst (merger_merge h cfg q))) = ''stale_evidence''"
  using assms by (simp add: merger_merge_def merge_pipeline_def expect_sha_def stage_defs)

text \<open>C23: what the orchestrator passes to the merger arrives: parsing the argument vector of
  \<open>buildMergerArgv\<close> gives back the branch, the project, the task, the test command and both
  expected commits; but a default branch \<open>main\<close> is not passed on, and the merger then integrates into
  \<open>master\<close>.\<close>

theorem merger_argv_roundtrip:
  assumes "trim_space test_cmd \<noteq> []" "t_branch tk \<noteq> []" "project \<noteq> []" "t_id tk \<noteq> []"
    "is_full_git_sha feature_sha" "is_full_git_sha base_sha"
  shows "\<exists>argv. build_merger_argv tk project branch test_cmd url token feature_sha base_sha = Inr argv
    \<and> parse_flags argv = Inr \<lparr>mf_work_dir = ''/work'', mf_bare_repo = ''/bare'', mf_feature_branch = t_branch tk,
        mf_integration_branch = (if branch \<in> {[], ''main'', ''master''} then ''master'' else branch),
        mf_project = project, mf_task_id = t_id tk, mf_test_cmd = test_cmd,
        mf_orch_url = (if trim_space url \<noteq> [] \<and> trim_space token \<noteq> [] then url else []),
        mf_token = (if trim_space url \<noteq> [] \<and> trim_space token \<noteq> [] then token else []),
        mf_db_dsn = [], mf_feature_sha = feature_sha, mf_base_sha = base_sha\<rparr>"
proof -
  have n: "test_cmd \<noteq> []" "feature_sha \<noteq> []" "base_sha \<noteq> []" "url = [] \<Longrightarrow> trim_space url = []"
    using assms(1,5,6) by (auto simp: is_full_git_sha_def)
  show ?thesis
    using assms n by (auto simp: build_merger_argv_def parse_flags_def flag_name_def set_flag_def default_flags_def
        missing_flags_def)
qed

theorem merger_argv_roundtrip_witness:
  "\<exists>argv f. build_merger_argv (run_task StatusMerging 6) ''p1'' ''main'' ''go test'' [] [] (replicate 40 CHR ''a'')
       (replicate 40 CHR ''b'') = Inr argv \<and> parse_flags argv = Inr f \<and> mf_integration_branch f = ''master''"
proof -
  have "trim_space ''go test'' \<noteq> []" "is_full_git_sha (replicate 40 CHR ''a'')" "is_full_git_sha (replicate 40 CHR ''b'')"
    by (simp_all add: trim_space_def is_space_def is_full_git_sha_def list_all_iff is_hex_def)
  from merger_argv_roundtrip [OF this(1) _ _ _ this(2,3), of "run_task StatusMerging 6" "''p1''" "''main''" "[]" "[]"]
  show ?thesis by auto
qed

end
