(* ===== verification/GqItem.thy ===== *)
theory GqItem
  imports Prelude
begin

text \<open>
  \<open>internal/gq/item.go\<close> and \<open>internal/gq/config.go\<close>: the priorities, the queue items and
  the configuration of the admission-control proxy that sits between the agents and the
  model server.

  \<open>Priority\<close> is a Go \<open>int\<close> whose only values are the three constants: every producer is
  \<open>ParsePriority\<close> or a constant, so it is a \<open>datatype\<close> and the \<open>default\<close> branches that
  print \<open>unknown\<close> have no counterpart.  A \<open>time.Duration\<close> is an \<open>int\<close> of nanoseconds.
  The channel \<open>item.Done\<close> is named by the item and its generation: the handler waits on
  generation 0, a requeued item carries generation 1.  The request context is not part of
  the item; the operations take the predicate \<open>gone\<close> that tells which items' contexts
  are cancelled when the operation runs.
\<close>

section \<open>Priorities\<close>

datatype priority = High | Normal | Low

definition all_priorities :: "priority list" where
  "all_priorities = [High, Normal, Low]"

fun priority_string :: "priority \<Rightarrow> string" where
  "priority_string High = ''high''"
| "priority_string Normal = ''normal''"
| "priority_string Low = ''low''"

definition parse_priority :: "string \<Rightarrow> priority" where
  "parse_priority s = (let l = to_lower s in
     if l = ''high'' then High else if l = ''normal'' then Normal else if l = ''low'' then Low else Low)"

text \<open>The integer value of a priority; a smaller number is served first.\<close>

fun priority_nat :: "priority \<Rightarrow> nat" where
  "priority_nat High = 0"
| "priority_nat Normal = 1"
| "priority_nat Low = 2"

instantiation priority :: linorder
begin

definition less_eq_priority :: "priority \<Rightarrow> priority \<Rightarrow> bool" where
  "less_eq_priority p q \<longleftrightarrow> priority_nat p \<le> priority_nat q"

definition less_priority :: "priority \<Rightarrow> priority \<Rightarrow> bool" where
  "less_priority p q \<longleftrightarrow> priority_nat p < priority_nat q"

instance
proof
  fix p q :: priority
  assume "p \<le> q" "q \<le> p"
  then show "p = q"
    by (cases p; cases q) (simp_all add: less_eq_priority_def)
qed (auto simp: less_eq_priority_def less_priority_def)

end

text \<open>\<open>Priority(p - 1)\<close> of the aging loop, which only runs for \<open>Normal\<close> and \<open>Low\<close>.\<close>

fun promoted :: "priority \<Rightarrow> priority" where
  "promoted High = High"
| "promoted Normal = High"
| "promoted Low = Normal"

lemma set_all_priorities [simp]: "set all_priorities = UNIV"
  using priority.exhaust by (auto simp: all_priorities_def)

lemma parse_priority_string [simp]: "parse_priority (priority_string p) = p"
  by (cases p) (simp_all add: parse_priority_def to_lower_def lower_char_def Let_def)

lemma promoted_le: "promoted p \<le> p"
  by (cases p) (simp_all add: less_eq_priority_def)

section \<open>Items\<close>

datatype gq_err =
    QueueTimeout duration priority
  | BreakerOpenErr
  | RequestErr string
  | UpstreamErr string

record queue_item =
  qi_id :: string
  qi_caller :: string
  qi_priority :: priority
  qi_effective :: priority
  qi_tokens :: int
  qi_body :: string
  qi_stream :: bool
  qi_enqueued_at :: time
  qi_deadline :: time
  qi_done :: nat
  qi_err :: "gq_err option"
  qi_status :: int
  qi_requeued :: bool

definition estimate_tokens :: "string \<Rightarrow> int" where
  "estimate_tokens body = (let n = int (length body) div 3 in if n < 1 then 1 else n)"

definition new_queue_item ::
  "string \<Rightarrow> time \<Rightarrow> string \<Rightarrow> priority \<Rightarrow> string \<Rightarrow> bool \<Rightarrow> time \<Rightarrow> queue_item" where
  "new_queue_item uid now caller p body stream deadline =
     \<lparr>qi_id = uid, qi_caller = caller, qi_priority = p, qi_effective = p,
      qi_tokens = estimate_tokens body, qi_body = body, qi_stream = stream,
      qi_enqueued_at = now, qi_deadline = deadline, qi_done = 0, qi_err = None,
      qi_status = 0, qi_requeued = False\<rparr>"

lemma estimate_tokens_pos: "1 \<le> estimate_tokens body"
  by (simp add: estimate_tokens_def Let_def)

lemma estimate_tokens_le: "estimate_tokens body \<le> max 1 (int (length body))"
  by (auto simp: estimate_tokens_def Let_def)

section \<open>Configuration\<close>

record lane_timeout_config =
  lt_high :: duration
  lt_normal :: duration
  lt_low :: duration

record aging_config =
  ag_normal_to_high :: duration
  ag_low_to_normal :: duration

record stats_config =
  st_window :: duration
  st_log_slow_req :: duration

record breaker_config =
  bc_open_after_failures :: int
  bc_open_cooldown :: duration
  bc_max_cooldown :: duration

record rate_limit_config =
  rl_orch_rps :: int
  rl_temp_rps :: int

record gq_config =
  cfg_bind_addr :: string
  cfg_metrics_addr :: string
  cfg_upstream :: string
  cfg_upstream_timeout :: duration
  cfg_max_slots :: nat
  cfg_queue_max_depth :: int
  cfg_quantum_tokens :: int
  cfg_tiebreak_scan_k :: int
  cfg_drain_timeout :: duration
  cfg_default_priority :: "string \<Rightarrow> string option"
  cfg_lane_timeouts :: lane_timeout_config
  cfg_aging :: aging_config
  cfg_stats :: stats_config
  cfg_upstream_breaker :: breaker_config
  cfg_rate_limit :: rate_limit_config

definition second :: duration where
  "second = 1000000000"

fun lane_timeout :: "gq_config \<Rightarrow> priority \<Rightarrow> duration" where
  "lane_timeout c High = lt_high (cfg_lane_timeouts c)"
| "lane_timeout c Normal = lt_normal (cfg_lane_timeouts c)"
| "lane_timeout c Low = lt_low (cfg_lane_timeouts c)"

fun aging_threshold :: "gq_config \<Rightarrow> priority \<Rightarrow> duration" where
  "aging_threshold c Normal = ag_normal_to_high (cfg_aging c)"
| "aging_threshold c Low = ag_low_to_normal (cfg_aging c)"
| "aging_threshold c High = 0"

definition default_priority_for :: "gq_config \<Rightarrow> string \<Rightarrow> priority" where
  "default_priority_for c role =
     (case cfg_default_priority c (to_lower role) of
        Some s \<Rightarrow> parse_priority s
      | None \<Rightarrow> (case cfg_default_priority c ''*'' of Some s \<Rightarrow> parse_priority s | None \<Rightarrow> Low))"

definition gq_defaults :: gq_config where
  "gq_defaults =
     \<lparr>cfg_bind_addr = ''127.0.0.1:8090'', cfg_metrics_addr = ''127.0.0.1:8091'',
      cfg_upstream = ''http://localhost:8081'', cfg_upstream_timeout = 600 * second,
      cfg_max_slots = 4, cfg_queue_max_depth = 128, cfg_quantum_tokens = 8192,
      cfg_tiebreak_scan_k = 4, cfg_drain_timeout = 30 * second,
      cfg_default_priority =
        [''classifier'' \<mapsto> ''high'', ''prep'' \<mapsto> ''high'', ''reviewer'' \<mapsto> ''normal'',
         ''coder'' \<mapsto> ''normal'', ''fixer'' \<mapsto> ''normal'', ''*'' \<mapsto> ''low''],
      cfg_lane_timeouts = \<lparr>lt_high = 60 * second, lt_normal = 300 * second, lt_low = 900 * second\<rparr>,
      cfg_aging = \<lparr>ag_normal_to_high = 30 * second, ag_low_to_normal = 90 * second\<rparr>,
      cfg_stats = \<lparr>st_window = 300 * second, st_log_slow_req = 30 * second\<rparr>,
      cfg_upstream_breaker =
        \<lparr>bc_open_after_failures = 5, bc_open_cooldown = 10 * second, bc_max_cooldown = 300 * second\<rparr>,
      cfg_rate_limit = \<lparr>rl_orch_rps = 20, rl_temp_rps = 5\<rparr>\<rparr>"

text \<open>\<open>strconv.Atoi\<close>: an optional sign, at least one digit, and the range of \<open>int64\<close>.\<close>

definition digit_val :: "char \<Rightarrow> int option" where
  "digit_val c = (let n = of_char c :: nat in if 48 \<le> n \<and> n \<le> 57 then Some (int n - 48) else None)"

fun digits_val :: "int \<Rightarrow> string \<Rightarrow> int option" where
  "digits_val acc [] = Some acc"
| "digits_val acc (c # cs) =
     (case digit_val c of None \<Rightarrow> None | Some d \<Rightarrow> digits_val (10 * acc + d) cs)"

definition atoi :: "string \<Rightarrow> int option" where
  "atoi s =
     (let neg = has_prefix ''-'' s;
          ds = (if neg \<or> has_prefix ''+'' s then tl s else s) in
      if ds = [] then None
      else case digits_val 0 ds of
             None \<Rightarrow> None
           | Some n \<Rightarrow> (let v = (if neg then - n else n) in
                       if - (2 ^ 63) \<le> v \<and> v < 2 ^ 63 then Some v else None))"

text \<open>\<open>applyEnvOverrides\<close>; \<open>env\<close> is \<open>os.Getenv\<close>, the empty string for an unset variable.\<close>

definition override_pos :: "string \<Rightarrow> (int \<Rightarrow> gq_config \<Rightarrow> gq_config) \<Rightarrow> gq_config \<Rightarrow> gq_config" where
  "override_pos v upd c =
     (if v = [] then c
      else case atoi v of Some n \<Rightarrow> (if 0 < n then upd n c else c) | None \<Rightarrow> c)"

definition apply_env_overrides :: "(string \<Rightarrow> string) \<Rightarrow> gq_config \<Rightarrow> gq_config" where
  "apply_env_overrides env c =
     (let c = (if env ''GQ_BIND_ADDR'' \<noteq> [] then c\<lparr>cfg_bind_addr := env ''GQ_BIND_ADDR''\<rparr> else c);
          c = (if env ''GQ_METRICS_ADDR'' \<noteq> [] then c\<lparr>cfg_metrics_addr := env ''GQ_METRICS_ADDR''\<rparr> else c);
          c = (if env ''GQ_UPSTREAM'' \<noteq> [] then c\<lparr>cfg_upstream := env ''GQ_UPSTREAM''\<rparr> else c);
          c = override_pos (env ''GQ_MAX_SLOTS'') (\<lambda>n c. c\<lparr>cfg_max_slots := nat n\<rparr>) c in
      override_pos (env ''GQ_QUEUE_MAX_DEPTH'') (\<lambda>n c. c\<lparr>cfg_queue_max_depth := n\<rparr>) c)"

text \<open>\<open>LoadConfig\<close>; \<open>decode\<close> is the TOML file merged over a configuration: \<open>Inl True\<close> when
  the file does not exist, \<open>Inl False\<close> for every other error.\<close>

definition load_config ::
  "(gq_config \<Rightarrow> bool + gq_config) \<Rightarrow> (string \<Rightarrow> string) \<Rightarrow> string \<Rightarrow> err + gq_config" where
  "load_config decode env path =
     (if path = [] then Inr (apply_env_overrides env gq_defaults)
      else case decode gq_defaults of
             Inr c \<Rightarrow> Inr (apply_env_overrides env c)
           | Inl missing \<Rightarrow>
               (if missing then Inr (apply_env_overrides env gq_defaults)
                else Inl (ErrMsg ''load config'')))"

lemma env_overrides_positive:
  "0 < cfg_max_slots c \<Longrightarrow> 0 < cfg_max_slots (apply_env_overrides env c)"
  "0 < cfg_queue_max_depth c \<Longrightarrow> 0 < cfg_queue_max_depth (apply_env_overrides env c)"
  by (auto simp: apply_env_overrides_def override_pos_def Let_def split: option.splits)

lemma aging_threshold_High [simp]: "p \<noteq> Normal \<Longrightarrow> p \<noteq> Low \<Longrightarrow> aging_threshold c p = 0"
  by (cases p) auto

end
