(* ===== verification/GqBreaker.thy ===== *)
theory GqBreaker
  imports GqItem
begin

text \<open>
  \<open>internal/gq/breaker.go\<close>: the circuit breaker in front of the model server.  The clock
  reading of a call is its argument \<open>now\<close>.  The doubling of the cooldown wraps at 64 bits.
\<close>

datatype breaker_state = BreakerClosed | BreakerOpen | BreakerHalfOpen

fun breaker_state_string :: "breaker_state \<Rightarrow> string" where
  "breaker_state_string BreakerClosed = ''closed''"
| "breaker_state_string BreakerOpen = ''open''"
| "breaker_state_string BreakerHalfOpen = ''half_open''"

record breaker =
  br_state :: breaker_state
  br_failures :: int
  br_last_failure_at :: time
  br_opened_at :: time
  br_cooldown :: duration
  br_cfg :: breaker_config

definition new_breaker :: "breaker_config \<Rightarrow> breaker" where
  "new_breaker cfg =
     \<lparr>br_state = BreakerClosed, br_failures = 0, br_last_failure_at = zero_time,
      br_opened_at = zero_time, br_cooldown = bc_open_cooldown cfg, br_cfg = cfg\<rparr>"

definition allow :: "time \<Rightarrow> breaker \<Rightarrow> bool \<times> breaker" where
  "allow now b =
     (case br_state b of
        BreakerClosed \<Rightarrow> (True, b)
      | BreakerOpen \<Rightarrow>
          (if br_cooldown b \<le> now - br_opened_at b then (True, b\<lparr>br_state := BreakerHalfOpen\<rparr>)
           else (False, b))
      | BreakerHalfOpen \<Rightarrow> (False, b))"

definition record_success :: "breaker \<Rightarrow> breaker" where
  "record_success b =
     b\<lparr>br_failures := 0, br_state := BreakerClosed, br_cooldown := bc_open_cooldown (br_cfg b)\<rparr>"

text \<open>The two's complement value of a 64-bit result.\<close>

definition wrap64 :: "int \<Rightarrow> int" where
  "wrap64 x = (x + 2 ^ 63) mod 2 ^ 64 - 2 ^ 63"

definition record_failure :: "time \<Rightarrow> breaker \<Rightarrow> breaker" where
  "record_failure now b =
     (let b1 = b\<lparr>br_failures := br_failures b + 1, br_last_failure_at := now\<rparr> in
      if br_state b1 = BreakerHalfOpen then
        (let c = wrap64 (br_cooldown b1 * 2) in
         b1\<lparr>br_state := BreakerOpen, br_opened_at := now,
            br_cooldown := (if bc_max_cooldown (br_cfg b1) < c then bc_max_cooldown (br_cfg b1) else c)\<rparr>)
      else if bc_open_after_failures (br_cfg b1) \<le> br_failures b1 then
        b1\<lparr>br_state := BreakerOpen, br_opened_at := now\<rparr>
      else b1)"

record breaker_stats =
  bs_state :: string
  bs_failures :: int
  bs_last_failure :: "time option"
  bs_cooldown_remaining :: duration

definition breaker_stats_of :: "time \<Rightarrow> breaker \<Rightarrow> breaker_stats" where
  "breaker_stats_of now b =
     \<lparr>bs_state = breaker_state_string (br_state b), bs_failures = br_failures b,
      bs_last_failure = (if br_last_failure_at b = zero_time then None else Some (br_last_failure_at b)),
      bs_cooldown_remaining =
        (if br_state b = BreakerOpen
         then (let remaining = br_cooldown b - (now - br_opened_at b) in
               if remaining < 0 then 0 else remaining)
         else 0)\<rparr>"

section \<open>Sequences of breaker calls\<close>

datatype breaker_op = OpAllow time | OpSuccess | OpFailure time

fun breaker_do :: "breaker_op \<Rightarrow> breaker \<Rightarrow> breaker" where
  "breaker_do (OpAllow now) b = snd (allow now b)"
| "breaker_do OpSuccess b = record_success b"
| "breaker_do (OpFailure now) b = record_failure now b"

definition breaker_run :: "breaker_op list \<Rightarrow> breaker \<Rightarrow> breaker" where
  "breaker_run ops b = fold breaker_do ops b"

lemma wrap64_id: "\<lbrakk>- (2 ^ 63) \<le> x; x < 2 ^ 63\<rbrakk> \<Longrightarrow> wrap64 x = x"
  by (simp add: wrap64_def)

lemma wrap64_range: "- (2 ^ 63) \<le> wrap64 x \<and> wrap64 x < 2 ^ 63"
  by (simp add: wrap64_def)

lemma breaker_do_cfg [simp]: "br_cfg (breaker_do op b) = br_cfg b"
  by (cases op)
    (auto simp: allow_def record_success_def record_failure_def Let_def split: breaker_state.splits)

lemma breaker_run_simps [simp]:
  "breaker_run [] b = b"
  "breaker_run (op # ops) b = breaker_run ops (breaker_do op b)"
  "breaker_run (ops @ ops') b = breaker_run ops' (breaker_run ops b)"
  by (simp_all add: breaker_run_def)

lemma breaker_run_cfg [simp]: "br_cfg (breaker_run ops b) = br_cfg b"
  by (induction ops arbitrary: b) simp_all

section \<open>The breaker's invariant\<close>

text \<open>The cooldown stays between the configured first cooldown and the maximum, the failure
  count is not negative, and a closed breaker has counted fewer failures than the
  threshold.\<close>

definition breaker_cfg_ok :: "breaker_config \<Rightarrow> bool" where
  "breaker_cfg_ok c \<longleftrightarrow>
     0 \<le> bc_open_cooldown c \<and> bc_open_cooldown c \<le> bc_max_cooldown c \<and> bc_max_cooldown c < 2 ^ 62 \<and>
     1 \<le> bc_open_after_failures c"

definition breaker_inv :: "breaker \<Rightarrow> bool" where
  "breaker_inv b \<longleftrightarrow>
     bc_open_cooldown (br_cfg b) \<le> br_cooldown b \<and> br_cooldown b \<le> bc_max_cooldown (br_cfg b) \<and>
     0 \<le> br_failures b \<and>
     (br_state b = BreakerClosed \<longrightarrow> br_failures b < bc_open_after_failures (br_cfg b))"

lemma breaker_inv_new: "breaker_cfg_ok c \<Longrightarrow> breaker_inv (new_breaker c)"
  by (simp add: breaker_cfg_ok_def breaker_inv_def new_breaker_def)

lemma breaker_inv_do:
  assumes "breaker_cfg_ok (br_cfg b)" "breaker_inv b"
  shows "breaker_inv (breaker_do op b)"
proof (cases op)
  case (OpFailure now)
  have "wrap64 (br_cooldown b * 2) = br_cooldown b * 2"
    using assms by (intro wrap64_id) (auto simp: breaker_cfg_ok_def breaker_inv_def)
  then show ?thesis
    using assms OpFailure
    by (auto simp: breaker_cfg_ok_def breaker_inv_def record_failure_def Let_def)
qed (use assms in \<open>auto simp: breaker_cfg_ok_def breaker_inv_def allow_def record_success_def
       split: breaker_state.splits\<close>)

lemma breaker_inv_run:
  "\<lbrakk>breaker_cfg_ok (br_cfg b); breaker_inv b\<rbrakk> \<Longrightarrow> breaker_inv (breaker_run ops b)"
  by (induction ops arbitrary: b) (simp_all add: breaker_inv_do)

lemma failures_run:
  assumes "br_state b = BreakerClosed" "br_failures b = 0" "ts \<noteq> []"
  shows "br_failures (breaker_run (map OpFailure ts) b) = int (length ts) \<and>
         (br_state (breaker_run (map OpFailure ts) b) =
            (if int (length ts) < bc_open_after_failures (br_cfg b) then BreakerClosed else BreakerOpen)) \<and>
         (bc_open_after_failures (br_cfg b) \<le> int (length ts) \<longrightarrow>
            br_opened_at (breaker_run (map OpFailure ts) b) = last ts \<and>
            br_cooldown (breaker_run (map OpFailure ts) b) = br_cooldown b)"
  using assms(3)
proof (induction ts rule: rev_nonempty_induct)
  case (single x)
  then show ?case
    using assms(1,2) by (auto simp: record_failure_def Let_def)
next
  case (snoc x xs)
  let ?c = "breaker_run (map OpFailure xs) b"
  have c: "br_failures ?c = int (length xs)"
    "br_state ?c = (if int (length xs) < bc_open_after_failures (br_cfg b) then BreakerClosed else BreakerOpen)"
    "bc_open_after_failures (br_cfg b) \<le> int (length xs) \<Longrightarrow> br_cooldown ?c = br_cooldown b"
    using snoc.IH by auto
  have cd: "br_cooldown ?c = br_cooldown b" 
  proof -
    have "br_state ?c \<noteq> BreakerHalfOpen" using c(2) by simp
    have "\<And>ys. br_state (breaker_run (map OpFailure ys) b) \<noteq> BreakerHalfOpen \<and>
            br_cooldown (breaker_run (map OpFailure ys) b) = br_cooldown b"
      subgoal for ys
        by (induction ys rule: rev_induct) (use assms(1) in \<open>auto simp: record_failure_def Let_def\<close>)
      done
    then show ?thesis by blast
  qed
  show ?case
    using c cd by (auto simp: record_failure_def Let_def)
qed

end
