(* ===== verification/GqScheduler.thy ===== *)
theory GqScheduler
  imports GqItem "HOL-Library.AList" "HOL-Library.Multiset"
begin

text \<open>
  \<open>internal/gq/scheduler.go\<close>: priority lanes, the slot semaphore and deficit round robin.

  The map \<open>lanes[p]\<close> is an association list from callers to lanes.  The order in which Go
  iterates over a map is not specified and may differ between two iterations: the
  \<open>n\<close>-th iteration visits the keys \<open>ks\<close> in the order \<open>ord n ks\<close>, where \<open>ord\<close> is a
  parameter of the model and \<open>sc_iters\<close> counts the iterations.  Every theorem holds for
  all \<open>ord\<close> that permute their argument (\<open>map_order\<close>).  A channel used as a semaphore is
  the number of tokens in it; a one-place wake channel is a flag.
\<close>

record lane =
  ln_items :: "queue_item list"
  ln_deficit :: int

type_synonym lane_map = "(string \<times> lane) list"
type_synonym iter_order = "nat \<Rightarrow> string list \<Rightarrow> string list"

record scheduler =
  sc_lanes :: "priority \<Rightarrow> lane_map"
  sc_rr_index :: "priority \<Rightarrow> nat"
  sc_rr_keys :: "priority \<Rightarrow> string list"
  sc_slots :: nat
  sc_wake :: bool
  sc_depth :: int
  sc_iters :: nat

definition map_order :: "iter_order \<Rightarrow> bool" where
  "map_order ord \<longleftrightarrow> (\<forall>n ks. mset (ord n ks) = mset ks)"

definition new_scheduler :: "gq_config \<Rightarrow> scheduler" where
  "new_scheduler cfg =
     \<lparr>sc_lanes = (\<lambda>_. []), sc_rr_index = (\<lambda>_. 0), sc_rr_keys = (\<lambda>_. []),
      sc_slots = cfg_max_slots cfg, sc_wake = False, sc_depth = 0, sc_iters = 0\<rparr>"

section \<open>Lanes\<close>

definition rebuild_keys :: "iter_order \<Rightarrow> priority \<Rightarrow> scheduler \<Rightarrow> scheduler" where
  "rebuild_keys ord p s =
     (let keys = ord (sc_iters s) (map fst (sc_lanes s p)) in
      s\<lparr>sc_rr_keys := (sc_rr_keys s)(p := keys),
        sc_rr_index := (if length keys \<le> sc_rr_index s p then (sc_rr_index s)(p := 0) else sc_rr_index s),
        sc_iters := sc_iters s + 1\<rparr>)"

definition put_lane :: "priority \<Rightarrow> string \<Rightarrow> lane \<Rightarrow> scheduler \<Rightarrow> scheduler" where
  "put_lane p caller l s = s\<lparr>sc_lanes := (sc_lanes s)(p := AList.update caller l (sc_lanes s p))\<rparr>"

text \<open>\<open>delete(s.lanes[p], callerID); s.rebuildKeys(p)\<close>\<close>

definition drop_lane :: "iter_order \<Rightarrow> priority \<Rightarrow> string \<Rightarrow> scheduler \<Rightarrow> scheduler" where
  "drop_lane ord p caller s =
     rebuild_keys ord p (s\<lparr>sc_lanes := (sc_lanes s)(p := AList.delete caller (sc_lanes s p))\<rparr>)"

text \<open>The lookup that creates a missing lane, and the insertion of \<open>f items\<close> into it.\<close>

definition get_or_create :: "iter_order \<Rightarrow> priority \<Rightarrow> string \<Rightarrow> scheduler \<Rightarrow> lane \<times> scheduler" where
  "get_or_create ord p caller s =
     (case map_of (sc_lanes s p) caller of
        Some l \<Rightarrow> (l, s)
      | None \<Rightarrow> (let l = \<lparr>ln_items = [], ln_deficit = 0\<rparr> in
                 (l, rebuild_keys ord p (put_lane p caller l s))))"

definition push_item ::
  "iter_order \<Rightarrow> bool \<Rightarrow> queue_item \<Rightarrow> scheduler \<Rightarrow> scheduler" where
  "push_item ord front it s =
     (let p = qi_effective it; caller = qi_caller it;
          (l, s1) = get_or_create ord p caller s;
          l' = l\<lparr>ln_items := (if front then it # ln_items l else ln_items l @ [it])\<rparr>;
          s2 = put_lane p caller l' s1 in
      s2\<lparr>sc_depth := sc_depth s2 + 1\<rparr>)"

section \<open>Enqueue, requeue and the slot semaphore\<close>

definition enqueue :: "iter_order \<Rightarrow> gq_config \<Rightarrow> queue_item \<Rightarrow> scheduler \<Rightarrow> err + scheduler" where
  "enqueue ord cfg it s =
     (if cfg_queue_max_depth cfg \<le> sc_depth s then Inl (ErrMsg ''queue full'')
      else Inr ((push_item ord False it s)\<lparr>sc_wake := True\<rparr>))"

definition requeue_at_head :: "iter_order \<Rightarrow> queue_item \<Rightarrow> scheduler \<Rightarrow> scheduler" where
  "requeue_at_head ord it s = (push_item ord True it s)\<lparr>sc_wake := True\<rparr>"

text \<open>\<open>None\<close>: the channel operation would block.\<close>

definition acquire_slot :: "scheduler \<Rightarrow> scheduler option" where
  "acquire_slot s = (if sc_slots s = 0 then None else Some (s\<lparr>sc_slots := sc_slots s - 1\<rparr>))"

definition release_slot :: "gq_config \<Rightarrow> scheduler \<Rightarrow> scheduler option" where
  "release_slot cfg s =
     (if cfg_max_slots cfg \<le> sc_slots s then None
      else (let s1 = s\<lparr>sc_slots := sc_slots s + 1\<rparr> in
            Some (if 0 < sc_depth s1 then s1\<lparr>sc_wake := True\<rparr> else s1)))"

definition sched_depth :: "scheduler \<Rightarrow> int" where
  "sched_depth s = sc_depth s"

definition slots_in_use :: "gq_config \<Rightarrow> scheduler \<Rightarrow> int" where
  "slots_in_use cfg s = int (cfg_max_slots cfg) - int (sc_slots s)"

definition slots_available :: "scheduler \<Rightarrow> int" where
  "slots_available s = int (sc_slots s)"

section \<open>Aging\<close>

text \<open>The body of the loop of \<open>applyAging\<close> for one lane: only the current key is deleted
  from the map under iteration, and the promoted item goes to another map.\<close>

definition age_lane ::
  "iter_order \<Rightarrow> gq_config \<Rightarrow> time \<Rightarrow> priority \<Rightarrow> string \<Rightarrow> scheduler \<Rightarrow> scheduler" where
  "age_lane ord cfg now p caller s =
     (case map_of (sc_lanes s p) caller of
        None \<Rightarrow> s
      | Some l \<Rightarrow>
          (case ln_items l of
             [] \<Rightarrow> s
           | head # rest \<Rightarrow>
               (let threshold = aging_threshold cfg (qi_effective head) in
                if 0 < threshold \<and> threshold \<le> now - qi_enqueued_at head then
                  (let s1 = put_lane p caller (l\<lparr>ln_items := rest\<rparr>) s;
                       s2 = s1\<lparr>sc_depth := sc_depth s1 - 1\<rparr>;
                       s3 = (if rest = [] then drop_lane ord p caller s2 else s2) in
                   push_item ord False (head\<lparr>qi_effective := promoted p\<rparr>) s3)
                else s)))"

definition age_priority ::
  "iter_order \<Rightarrow> gq_config \<Rightarrow> time \<Rightarrow> priority \<Rightarrow> scheduler \<Rightarrow> scheduler" where
  "age_priority ord cfg now p s =
     fold (age_lane ord cfg now p) (ord (sc_iters s) (map fst (sc_lanes s p)))
       (s\<lparr>sc_iters := sc_iters s + 1\<rparr>)"

definition apply_aging :: "iter_order \<Rightarrow> gq_config \<Rightarrow> time \<Rightarrow> scheduler \<Rightarrow> scheduler" where
  "apply_aging ord cfg now s = age_priority ord cfg now Low (age_priority ord cfg now Normal s)"

section \<open>Pruning and the tie break\<close>

text \<open>\<open>Duration.Round(time.Millisecond)\<close>, halves away from zero.\<close>

definition round_ms :: "duration \<Rightarrow> duration" where
  "round_ms d = (if d < 0 then - ((- d + 500000) div 1000000 * 1000000)
                 else (d + 500000) div 1000000 * 1000000)"

definition stale :: "(string \<Rightarrow> bool) \<Rightarrow> time \<Rightarrow> queue_item \<Rightarrow> bool" where
  "stale gone now it \<longleftrightarrow> gone (qi_id it) \<or> qi_deadline it < now"

definition drop_item :: "(string \<Rightarrow> bool) \<Rightarrow> time \<Rightarrow> priority \<Rightarrow> queue_item \<Rightarrow> queue_item" where
  "drop_item gone now p it =
     (if gone (qi_id it) then it
      else it\<lparr>qi_err := Some (QueueTimeout (round_ms (now - qi_enqueued_at it)) p), qi_status := 504\<rparr>)"

text \<open>The items that \<open>pruneHead\<close> drops (their \<open>Done\<close> channels are closed) and those it keeps.\<close>

fun prune_items ::
  "(string \<Rightarrow> bool) \<Rightarrow> time \<Rightarrow> priority \<Rightarrow> queue_item list \<Rightarrow> queue_item list \<times> queue_item list" where
  "prune_items gone now p [] = ([], [])"
| "prune_items gone now p (it # its) =
     (if stale gone now it
      then (let (d, k) = prune_items gone now p its in (drop_item gone now p it # d, k))
      else ([], it # its))"

definition prune_head ::
  "iter_order \<Rightarrow> (string \<Rightarrow> bool) \<Rightarrow> time \<Rightarrow> priority \<Rightarrow> string \<Rightarrow> lane \<Rightarrow> scheduler \<Rightarrow>
   queue_item list \<times> lane \<times> scheduler" where
  "prune_head ord gone now p caller l s =
     (let (d, k) = prune_items gone now p (ln_items l);
          l' = l\<lparr>ln_items := k\<rparr>;
          s1 = put_lane p caller l' s;
          s2 = s1\<lparr>sc_depth := sc_depth s1 - int (length d)\<rparr> in
      (d, l', if k = [] then drop_lane ord p caller s2 else s2))"

text \<open>The scan of \<open>shortestOfFirstK\<close>: position of the first minimum among the first
  \<open>k\<close> items, with the best position and token count so far.\<close>

fun scan_best :: "nat \<Rightarrow> nat \<Rightarrow> nat \<Rightarrow> int \<Rightarrow> queue_item list \<Rightarrow> nat" where
  "scan_best 0 pos best tokens its = best"
| "scan_best (Suc k) pos best tokens [] = best"
| "scan_best (Suc k) pos best tokens (it # its) =
     (if qi_tokens it < tokens then scan_best k (pos + 1) pos (qi_tokens it) its
      else scan_best k (pos + 1) best tokens its)"

fun remove_nth :: "nat \<Rightarrow> 'a list \<Rightarrow> 'a list" where
  "remove_nth _ [] = []"
| "remove_nth 0 (x # xs) = xs"
| "remove_nth (Suc n) (x # xs) = x # remove_nth n xs"

text \<open>The winner and the remaining items of a lane that is not empty.\<close>

definition shortest_of_first_k :: "gq_config \<Rightarrow> queue_item list \<Rightarrow> (queue_item \<times> queue_item list) option" where
  "shortest_of_first_k cfg its =
     (case its of
        [] \<Rightarrow> None
      | it # rest \<Rightarrow>
          (if cfg_tiebreak_scan_k cfg \<le> 1 \<or> length its \<le> 1 then Some (it, rest)
           else (let i = scan_best (nat (cfg_tiebreak_scan_k cfg) - 1) 1 0 (qi_tokens it) rest in
                 Some (its ! i, remove_nth i its))))"

section \<open>PickNext\<close>

text \<open>One turn of the round robin: \<open>Inl\<close> carries the state with which the loop goes on and
  \<open>Inr\<close> the winner; both with the items dropped on the way.  \<open>keys\<close> is the slice the loop
  captured before any rebuild.\<close>

definition visit_caller ::
  "iter_order \<Rightarrow> gq_config \<Rightarrow> (string \<Rightarrow> bool) \<Rightarrow> time \<Rightarrow> priority \<Rightarrow> string list \<Rightarrow> scheduler \<Rightarrow>
   queue_item option \<times> scheduler \<times> queue_item list" where
  "visit_caller ord cfg gone now p keys s0 =
     (let idx = sc_rr_index s0 p mod length keys;
          s = s0\<lparr>sc_rr_index := (sc_rr_index s0)(p := (sc_rr_index s0 p + 1) mod length keys)\<rparr>;
          caller = keys ! idx in
      case map_of (sc_lanes s p) caller of
        None \<Rightarrow> (None, s, [])
      | Some l0 \<Rightarrow>
          (if ln_items l0 = [] then (None, s, [])
           else
             (let (dropped, l1, s1) = prune_head ord gone now p caller l0 s in
              if ln_items l1 = [] then (None, s1, dropped)
              else
                (let l2 = l1\<lparr>ln_deficit := ln_deficit l1 + cfg_quantum_tokens cfg\<rparr>;
                     s2 = put_lane p caller l2 s1 in
                 if qi_tokens (hd (ln_items l2)) \<le> ln_deficit l2 then
                   (case shortest_of_first_k cfg (ln_items l2) of
                      None \<Rightarrow> (None, s2, dropped)
                    | Some (winner, rest) \<Rightarrow>
                        (let l3 = l2\<lparr>ln_items := rest, ln_deficit := ln_deficit l2 - qi_tokens winner\<rparr>;
                             s3 = put_lane p caller l3 s2;
                             s4 = s3\<lparr>sc_depth := sc_depth s3 - 1\<rparr> in
                         (Some winner, if rest = [] then drop_lane ord p caller s4 else s4, dropped)))
                 else (None, s2, dropped)))))"

fun drr_pass ::
  "iter_order \<Rightarrow> gq_config \<Rightarrow> (string \<Rightarrow> bool) \<Rightarrow> time \<Rightarrow> priority \<Rightarrow> string list \<Rightarrow> nat \<Rightarrow> scheduler \<Rightarrow>
   queue_item option \<times> scheduler \<times> queue_item list" where
  "drr_pass ord cfg gone now p keys 0 s = (None, s, [])"
| "drr_pass ord cfg gone now p keys (Suc tries) s =
     (case visit_caller ord cfg gone now p keys s of
        (Some w, s', d) \<Rightarrow> (Some w, s', d)
      | (None, s', d) \<Rightarrow>
          (case drr_pass ord cfg gone now p keys tries s' of (r, s'', d') \<Rightarrow> (r, s'', d @ d')))"

fun pick_priorities ::
  "iter_order \<Rightarrow> gq_config \<Rightarrow> (string \<Rightarrow> bool) \<Rightarrow> time \<Rightarrow> priority list \<Rightarrow> scheduler \<Rightarrow>
   queue_item option \<times> scheduler \<times> queue_item list" where
  "pick_priorities ord cfg gone now [] s = (None, s, [])"
| "pick_priorities ord cfg gone now (p # ps) s =
     (case drr_pass ord cfg gone now p (sc_rr_keys s p) (length (sc_rr_keys s p)) s of
        (Some w, s', d) \<Rightarrow> (Some w, s', d)
      | (None, s', d) \<Rightarrow>
          (case pick_priorities ord cfg gone now ps s' of (r, s'', d') \<Rightarrow> (r, s'', d @ d')))"

definition pick_next ::
  "iter_order \<Rightarrow> gq_config \<Rightarrow> (string \<Rightarrow> bool) \<Rightarrow> time \<Rightarrow> scheduler \<Rightarrow>
   queue_item option \<times> scheduler \<times> queue_item list" where
  "pick_next ord cfg gone now s =
     pick_priorities ord cfg gone now all_priorities (apply_aging ord cfg now s)"

section \<open>Statistics of the lanes\<close>

record lane_stat =
  ls_caller :: string
  ls_priority :: priority
  ls_depth :: nat

text \<open>\<open>LaneStats\<close> iterates over the three maps; \<open>PriorityDepths\<close> only sums, so its
  iteration order has no effect.\<close>

definition lane_stats :: "iter_order \<Rightarrow> scheduler \<Rightarrow> lane_stat list" where
  "lane_stats ord s =
     concat (map (\<lambda>p. concat (map (\<lambda>caller.
         case map_of (sc_lanes s p) caller of
           None \<Rightarrow> []
         | Some l \<Rightarrow> (if 0 < length (ln_items l)
                     then [\<lparr>ls_caller = caller, ls_priority = p, ls_depth = length (ln_items l)\<rparr>]
                     else []))
         (ord (sc_iters s + priority_nat p) (map fst (sc_lanes s p))))) all_priorities)"

definition priority_depths :: "scheduler \<Rightarrow> priority \<Rightarrow> nat \<times> nat" where
  "priority_depths s p =
     fold (\<lambda>(_, l) (depth, callers).
             (let d = length (ln_items l) in if 0 < d then (depth + d, callers + 1) else (depth, callers)))
       (sc_lanes s p) (0, 0)"

end
