(* ===== verification/GqQueue.thy ===== *)
theory GqQueue
  imports GqScheduler
begin

text \<open>
  The invariant of the scheduler (\<open>internal/gq/scheduler.go\<close>) and what each operation does
  to the queued items: the lanes of a priority have distinct callers and are never empty,
  the cached keys are exactly the callers, an item lies in the lane of its caller and its
  effective priority, no deficit is negative, and the depth counter is the number of items.
\<close>

section \<open>Contents of the lanes\<close>

definition items_at :: "lane_map \<Rightarrow> string \<Rightarrow> queue_item list" where
  "items_at ls c = (case map_of ls c of None \<Rightarrow> [] | Some l \<Rightarrow> ln_items l)"

definition contents :: "lane_map \<Rightarrow> queue_item multiset" where
  "contents ls = mset (concat (map (\<lambda>(_, l). ln_items l) ls))"

definition queued :: "scheduler \<Rightarrow> queue_item multiset" where
  "queued s = contents (sc_lanes s High) + contents (sc_lanes s Normal) + contents (sc_lanes s Low)"

definition lane_ok :: "priority \<Rightarrow> string \<Rightarrow> lane \<Rightarrow> bool" where
  "lane_ok p c l \<longleftrightarrow> ln_items l \<noteq> [] \<and> 0 \<le> ln_deficit l \<and>
     (\<forall>it \<in> set (ln_items l). qi_caller it = c \<and> qi_effective it = p)"

definition lane_map_ok :: "priority \<Rightarrow> lane_map \<Rightarrow> string list \<Rightarrow> bool" where
  "lane_map_ok p ls ks \<longleftrightarrow> distinct (map fst ls) \<and> mset ks = mset (map fst ls) \<and>
     (\<forall>c l. map_of ls c = Some l \<longrightarrow> lane_ok p c l)"

definition lanes_inv :: "scheduler \<Rightarrow> bool" where
  "lanes_inv s \<longleftrightarrow> (\<forall>p. lane_map_ok p (sc_lanes s p) (sc_rr_keys s p))"

definition sched_inv :: "scheduler \<Rightarrow> bool" where
  "sched_inv s \<longleftrightarrow> lanes_inv s \<and> sc_depth s = int (size (queued s))"

lemma contents_Nil [simp]: "contents [] = {#}"
  by (simp add: contents_def)

lemma contents_Cons [simp]: "contents ((c, l) # ls) = mset (ln_items l) + contents ls"
  by (simp add: contents_def)

lemma items_at_update [simp]:
  "items_at (AList.update c l ls) c' = (if c' = c then ln_items l else items_at ls c')"
  by (simp add: items_at_def update_conv')

lemma items_at_delete [simp]:
  "items_at (AList.delete c ls) c' = (if c' = c then [] else items_at ls c')"
  by (simp add: items_at_def delete_conv')

lemma contents_update:
  "contents (AList.update c l ls) + mset (items_at ls c) = contents ls + mset (ln_items l)"
  by (induction ls) (auto simp: items_at_def)

lemma contents_delete:
  "distinct (map fst ls) \<Longrightarrow> contents (AList.delete c ls) + mset (items_at ls c) = contents ls"
proof (induction ls)
  case (Cons x ls)
  obtain c' l where x: "x = (c', l)" by (cases x)
  show ?case
  proof (cases "c' = c")
    case True
    have "AList.delete c ls = ls"
      using Cons.prems x True by (intro delete_id) auto
    then show ?thesis using x True by (simp add: items_at_def)
  next
    case False
    then show ?thesis using Cons x by (simp add: items_at_def)
  qed
qed (simp add: items_at_def)

lemma queued_upd:
  "queued (s\<lparr>sc_lanes := (sc_lanes s)(p := ls)\<rparr>) + contents (sc_lanes s p) = queued s + contents ls"
  by (cases p) (simp_all add: queued_def ac_simps)

lemma queued_cong: "sc_lanes s = sc_lanes s' \<Longrightarrow> queued s = queued s'"
  by (simp add: queued_def)

lemma rebuild_keys_simps [simp]:
  "sc_lanes (rebuild_keys ord p s) = sc_lanes s"
  "sc_depth (rebuild_keys ord p s) = sc_depth s"
  "sc_slots (rebuild_keys ord p s) = sc_slots s"
  "sc_wake (rebuild_keys ord p s) = sc_wake s"
  "queued (rebuild_keys ord p s) = queued s"
  "sc_rr_keys (rebuild_keys ord p s) = (sc_rr_keys s)(p := ord (sc_iters s) (map fst (sc_lanes s p)))"
  by (simp_all add: rebuild_keys_def Let_def queued_def)

lemma put_lane_simps [simp]:
  "sc_lanes (put_lane p c l s) = (sc_lanes s)(p := AList.update c l (sc_lanes s p))"
  "sc_depth (put_lane p c l s) = sc_depth s"
  "sc_slots (put_lane p c l s) = sc_slots s"
  "sc_wake (put_lane p c l s) = sc_wake s"
  "sc_rr_keys (put_lane p c l s) = sc_rr_keys s"
  "sc_rr_index (put_lane p c l s) = sc_rr_index s"
  "sc_iters (put_lane p c l s) = sc_iters s"
  by (simp_all add: put_lane_def)

lemma drop_lane_simps [simp]:
  "sc_lanes (drop_lane ord p c s) = (sc_lanes s)(p := AList.delete c (sc_lanes s p))"
  "sc_depth (drop_lane ord p c s) = sc_depth s"
  "sc_slots (drop_lane ord p c s) = sc_slots s"
  "sc_wake (drop_lane ord p c s) = sc_wake s"
  "sc_rr_keys (drop_lane ord p c s) =
     (sc_rr_keys s)(p := ord (sc_iters s) (map fst (AList.delete c (sc_lanes s p))))"
  by (simp_all add: drop_lane_def)

lemma queued_field_simps [simp]:
  "queued (s\<lparr>sc_depth := d\<rparr>) = queued s"
  "queued (s\<lparr>sc_wake := w\<rparr>) = queued s"
  "queued (s\<lparr>sc_slots := n\<rparr>) = queued s"
  "queued (s\<lparr>sc_rr_index := i\<rparr>) = queued s"
  "queued (s\<lparr>sc_iters := k\<rparr>) = queued s"
  by (simp_all add: queued_def)

lemma lanes_inv_field_simps [simp]:
  "lanes_inv (s\<lparr>sc_depth := d\<rparr>) = lanes_inv s"
  "lanes_inv (s\<lparr>sc_wake := w\<rparr>) = lanes_inv s"
  "lanes_inv (s\<lparr>sc_slots := n\<rparr>) = lanes_inv s"
  "lanes_inv (s\<lparr>sc_rr_index := i\<rparr>) = lanes_inv s"
  "lanes_inv (s\<lparr>sc_iters := k\<rparr>) = lanes_inv s"
  by (simp_all add: lanes_inv_def)

lemma queued_put:
  "queued (put_lane p c l s) + mset (items_at (sc_lanes s p) c) = queued s + mset (ln_items l)"
proof -
  have "queued (put_lane p c l s) + contents (sc_lanes s p)
      = queued s + contents (AList.update c l (sc_lanes s p))"
    by (simp add: put_lane_def queued_upd)
  then have "queued (put_lane p c l s) + contents (sc_lanes s p) + mset (items_at (sc_lanes s p) c)
      = queued s + (contents (sc_lanes s p) + mset (ln_items l))"
    by (simp add: contents_update add.assoc)
  then show ?thesis by (simp add: ac_simps)
qed

lemma queued_drop:
  assumes "distinct (map fst (sc_lanes s p))"
  shows "queued (drop_lane ord p c s) + mset (items_at (sc_lanes s p) c) = queued s"
proof -
  have "queued (drop_lane ord p c s) + contents (sc_lanes s p)
      = queued s + contents (AList.delete c (sc_lanes s p))"
    by (simp add: drop_lane_def queued_upd)
  then have "queued (drop_lane ord p c s) + mset (items_at (sc_lanes s p) c) + contents (sc_lanes s p)
      = queued s + contents (sc_lanes s p)"
    using contents_delete [OF assms, of c] by (metis add.assoc add.commute)
  then show ?thesis by simp
qed

section \<open>Changes of one lane\<close>

lemma map_order_mset: "map_order ord \<Longrightarrow> mset (ord n ks) = mset ks"
  by (simp add: map_order_def)

lemma map_order_set: "map_order ord \<Longrightarrow> set (ord n ks) = set ks"
  by (metis map_order_mset set_mset_mset)

lemma map_order_length: "map_order ord \<Longrightarrow> length (ord n ks) = length ks"
  by (metis map_order_mset size_mset)

lemma lane_map_okD:
  assumes "lane_map_ok p ls ks"
  shows "distinct (map fst ls)" "mset ks = mset (map fst ls)"
    and "map_of ls c = Some l \<Longrightarrow> lane_ok p c l"
    and "distinct ks" "set ks = dom (map_of ls)" "length ks = length ls"
proof -
  show d: "distinct (map fst ls)" and m: "mset ks = mset (map fst ls)"
    using assms by (simp_all add: lane_map_ok_def)
  show "map_of ls c = Some l \<Longrightarrow> lane_ok p c l"
    using assms by (simp only: lane_map_ok_def)
  show "distinct ks" using d m mset_eq_imp_distinct_iff by blast
  show "set ks = dom (map_of ls)" using mset_eq_setD [OF m] by (simp add: dom_map_of_conv_image_fst)
  show "length ks = length ls" using mset_eq_length [OF m] by simp
qed

lemma lane_map_ok_update:
  assumes "lane_map_ok p ls ks" "lane_ok p c l"
    and "mset ks' = (if c \<in> dom (map_of ls) then mset ks else mset (map fst ls @ [c]))"
  shows "lane_map_ok p (AList.update c l ls) ks'"
proof -
  have "mset ks' = mset (map fst (AList.update c l ls))"
    using assms(3) lane_map_okD(2) [OF assms(1)]
    by (auto simp: update_keys dom_map_of_conv_image_fst simp del: mset_map)
  moreover have "distinct (map fst (AList.update c l ls))"
    using lane_map_okD(1) [OF assms(1)] by (rule distinct_update)
  moreover have "map_of (AList.update c l ls) c' = Some l' \<Longrightarrow> lane_ok p c' l'" for c' l'
    using lane_map_okD(3) [OF assms(1), of c' l'] assms(2)
    by (cases "c' = c") (auto simp: update_conv' simp del: map_of_eq_Some_iff)
  ultimately show ?thesis
    by (simp only: lane_map_ok_def) blast
qed

lemma update_update [simp]: "AList.update c l (AList.update c l0 ls) = AList.update c l ls"
  by (induction ls) auto

lemma delete_update [simp]: "AList.delete c (AList.update c l0 ls) = AList.delete c ls"
  by (induction ls) auto

lemma lane_map_ok_delete:
  assumes "lane_map_ok p ls ks" "mset ks' = mset (map fst (AList.delete c ls))"
  shows "lane_map_ok p (AList.delete c ls) ks'"
proof -
  have "distinct (map fst (AList.delete c ls))"
    using lane_map_okD(1) [OF assms(1)] by (rule distinct_delete)
  moreover have "map_of (AList.delete c ls) c' = Some l' \<Longrightarrow> lane_ok p c' l'" for c' l'
    using lane_map_okD(3) [OF assms(1), of c' l']
    by (cases "c' = c") (auto simp: delete_conv' simp del: map_of_eq_Some_iff)
  ultimately show ?thesis
    using assms(2) by (simp only: lane_map_ok_def) blast
qed

lemma lanes_invD: "lanes_inv s \<Longrightarrow> lane_map_ok p (sc_lanes s p) (sc_rr_keys s p)"
  by (simp add: lanes_inv_def)

lemma lanes_inv_lane: "\<lbrakk>lanes_inv s; map_of (sc_lanes s p) c = Some l\<rbrakk> \<Longrightarrow> lane_ok p c l"
  by (erule lane_map_okD(3) [OF lanes_invD])

lemma lanes_inv_put:
  assumes "lanes_inv s" "lane_ok p c l" "map_of (sc_lanes s p) c = Some l0"
  shows "lanes_inv (put_lane p c l s)"
  unfolding lanes_inv_def
proof (intro allI)
  fix q
  have "lane_map_ok p (AList.update c l (sc_lanes s p)) (sc_rr_keys s p)"
    using assms(3) by (intro lane_map_ok_update [OF lanes_invD [OF assms(1)] assms(2)]) auto
  then show "lane_map_ok q (sc_lanes (put_lane p c l s) q) (sc_rr_keys (put_lane p c l s) q)"
    using lanes_invD [OF assms(1), of q] by simp
qed

lemma lanes_inv_create:
  assumes "map_order ord" "lanes_inv s" "lane_ok p c l" "map_of (sc_lanes s p) c = None"
  shows "lanes_inv (put_lane p c l (rebuild_keys ord p (put_lane p c l0 s)))"
  unfolding lanes_inv_def
proof (intro allI)
  fix q
  let ?s' = "put_lane p c l (rebuild_keys ord p (put_lane p c l0 s))"
  let ?ks = "ord (sc_iters s) (map fst (AList.update c l0 (sc_lanes s p)))"
  have c: "c \<notin> fst ` set (sc_lanes s p)"
    using assms(4) by (simp add: map_of_eq_None_iff)
  have "mset ?ks = mset (map fst (sc_lanes s p) @ [c])"
    using c by (simp add: map_order_mset [OF assms(1)] update_keys del: mset_map)
  then have "lane_map_ok p (AList.update c l (sc_lanes s p)) ?ks"
    using assms(4) by (intro lane_map_ok_update [OF lanes_invD [OF assms(2)] assms(3)])
      (auto simp del: mset_map)
  then show "lane_map_ok q (sc_lanes ?s' q) (sc_rr_keys ?s' q)"
    using lanes_invD [OF assms(2), of q] by simp
qed

lemma lanes_inv_drop:
  assumes "map_order ord" "lanes_inv s"
  shows "lanes_inv (drop_lane ord p c (put_lane p c l s))"
  unfolding lanes_inv_def
proof (intro allI)
  fix q
  let ?s' = "drop_lane ord p c (put_lane p c l s)"
  have "lane_map_ok p (AList.delete c (sc_lanes s p))
      (ord (sc_iters s) (map fst (AList.delete c (sc_lanes s p))))"
    by (intro lane_map_ok_delete [OF lanes_invD [OF assms(2)]]) (simp add: map_order_mset [OF assms(1)])
  then show "lane_map_ok q (sc_lanes ?s' q) (sc_rr_keys ?s' q)"
    using lanes_invD [OF assms(2), of q] by simp
qed

lemma queued_drop_put:
  assumes "lanes_inv s"
  shows "queued (drop_lane ord p c (put_lane p c l s)) + mset (items_at (sc_lanes s p) c) = queued s"
proof -
  have d: "distinct (map fst (sc_lanes (put_lane p c l s) p))"
    using lane_map_okD(1) [OF lanes_invD [OF assms, of p]] by (simp add: distinct_update)
  have "queued (drop_lane ord p c (put_lane p c l s)) + mset (ln_items l) = queued (put_lane p c l s)"
    using queued_drop [OF d, of ord c] by simp
  then have "queued (drop_lane ord p c (put_lane p c l s)) + mset (ln_items l) + mset (items_at (sc_lanes s p) c)
      = queued s + mset (ln_items l)"
    using queued_put [of p c l s] by simp
  then show ?thesis by (simp add: ac_simps)
qed

section \<open>Pushing an item\<close>

lemma push_item_simps [simp]:
  "sc_depth (push_item ord front it s) = sc_depth s + 1"
  "sc_slots (push_item ord front it s) = sc_slots s"
  "sc_wake (push_item ord front it s) = sc_wake s"
  by (auto simp: push_item_def get_or_create_def Let_def split: option.splits)

lemma push_item_items:
  "items_at (sc_lanes (push_item ord front it s) p) c =
     (if p = qi_effective it \<and> c = qi_caller it
      then (if front then it # items_at (sc_lanes s p) c else items_at (sc_lanes s p) c @ [it])
      else items_at (sc_lanes s p) c)"
  by (auto simp: push_item_def get_or_create_def Let_def items_at_def update_conv' split: option.splits)

lemma push_item_inv:
  assumes "map_order ord" "lanes_inv s"
  shows "lanes_inv (push_item ord front it s)"
proof (cases "map_of (sc_lanes s (qi_effective it)) (qi_caller it)")
  case None
  let ?l = "\<lparr>ln_items = [it], ln_deficit = 0\<rparr>"
  have "lane_ok (qi_effective it) (qi_caller it) ?l"
    by (simp add: lane_ok_def)
  from lanes_inv_create [OF assms this None] show ?thesis
    using None by (cases front) (simp_all add: push_item_def get_or_create_def Let_def)
next
  case (Some l)
  have "lane_ok (qi_effective it) (qi_caller it)
      (l\<lparr>ln_items := (if front then it # ln_items l else ln_items l @ [it])\<rparr>)"
    using lanes_inv_lane [OF assms(2) Some] by (auto simp: lane_ok_def)
  from lanes_inv_put [OF assms(2) this Some] show ?thesis
    using Some by (simp add: push_item_def get_or_create_def Let_def)
qed

lemma push_item_queued: "queued (push_item ord front it s) = add_mset it (queued s)"
proof (cases "map_of (sc_lanes s (qi_effective it)) (qi_caller it)")
  case None
  let ?p = "qi_effective it" and ?c = "qi_caller it"
  let ?s1 = "rebuild_keys ord ?p (put_lane ?p ?c \<lparr>ln_items = [], ln_deficit = 0\<rparr> s)"
  have 1: "queued ?s1 = queued s"
    using queued_put [of ?p ?c "\<lparr>ln_items = [], ln_deficit = 0\<rparr>" s] None by (simp add: items_at_def)
  have 2: "items_at (sc_lanes ?s1 ?p) ?c = []"
    by simp
  show ?thesis
    using None 1 2 queued_put [of ?p ?c "\<lparr>ln_items = [it], ln_deficit = 0\<rparr>" ?s1]
    by (cases front) (simp_all add: push_item_def get_or_create_def Let_def)
next
  case (Some l)
  let ?p = "qi_effective it" and ?c = "qi_caller it"
  let ?l = "l\<lparr>ln_items := (if front then it # ln_items l else ln_items l @ [it])\<rparr>"
  have "queued (put_lane ?p ?c ?l s) + mset (ln_items l) = queued s + add_mset it (mset (ln_items l))"
    using queued_put [of ?p ?c ?l s] Some by (simp add: items_at_def)
  then have "queued (put_lane ?p ?c ?l s) = add_mset it (queued s)"
    by simp
  then show ?thesis
    using Some by (simp add: push_item_def get_or_create_def Let_def)
qed

lemma push_item_sched_inv:
  "\<lbrakk>map_order ord; sched_inv s\<rbrakk> \<Longrightarrow> sched_inv (push_item ord front it s)"
  by (simp add: sched_inv_def push_item_inv push_item_queued)

end
