(* ===== verification/GqPick.thy ===== *)
theory GqPick
  imports GqQueue
begin

text \<open>
  What \<open>PickNext\<close> of \<open>internal/gq/scheduler.go\<close> promises.  The abstract queue is a FIFO of
  items per priority and caller; its actions promote the head of a due lane, drop a stale head
  and serve one of the first items of a lane.  Every operation of the scheduler is a
  simulation of a sequence of these actions (\<open>qsim\<close>), which also keeps the scheduler's
  invariant and loses no item.
\<close>

section \<open>The abstract queue\<close>

type_synonym queue_view = "priority \<times> string \<Rightarrow> queue_item list"

definition view :: "scheduler \<Rightarrow> queue_view" where
  "view s = (\<lambda>(p, c). items_at (sc_lanes s p) c)"

datatype q_act = QPromote priority string | QDrop priority string | QServe priority string nat

definition due :: "gq_config \<Rightarrow> time \<Rightarrow> priority \<Rightarrow> queue_item \<Rightarrow> bool" where
  "due cfg now p it \<longleftrightarrow> 0 < aging_threshold cfg p \<and> aging_threshold cfg p \<le> now - qi_enqueued_at it"

definition scan_width :: "gq_config \<Rightarrow> nat" where
  "scan_width cfg = (if cfg_tiebreak_scan_k cfg \<le> 1 then 1 else nat (cfg_tiebreak_scan_k cfg))"

fun q_step ::
  "gq_config \<Rightarrow> (string \<Rightarrow> bool) \<Rightarrow> time \<Rightarrow> q_act \<Rightarrow> queue_view \<Rightarrow>
   (queue_view \<times> queue_item list \<times> queue_item list) option" where
  "q_step cfg gone now (QPromote p c) Q =
     (case Q (p, c) of
        [] \<Rightarrow> None
      | it # rest \<Rightarrow>
          (if due cfg now p it
           then Some ((Q((p, c) := rest))
                        ((promoted p, c) := Q (promoted p, c) @ [it\<lparr>qi_effective := promoted p\<rparr>]), [], [])
           else None))"
| "q_step cfg gone now (QDrop p c) Q =
     (case Q (p, c) of
        [] \<Rightarrow> None
      | it # rest \<Rightarrow> (if stale gone now it then Some (Q((p, c) := rest), [], [drop_item gone now p it])
                    else None))"
| "q_step cfg gone now (QServe p c i) Q =
     (let its = Q (p, c) in
      if i < length its \<and> i < scan_width cfg \<and> \<not> stale gone now (hd its) \<and>
         list_all (\<lambda>it. qi_tokens (its ! i) \<le> qi_tokens it) (take (scan_width cfg) its) \<and>
         list_all (\<lambda>it. qi_tokens (its ! i) < qi_tokens it) (take i its)
      then Some (Q((p, c) := remove_nth i its), [its ! i], []) else None)"

fun q_run ::
  "gq_config \<Rightarrow> (string \<Rightarrow> bool) \<Rightarrow> time \<Rightarrow> q_act list \<Rightarrow> queue_view \<Rightarrow>
   (queue_view \<times> queue_item list \<times> queue_item list) option" where
  "q_run cfg gone now [] Q = Some (Q, [], [])"
| "q_run cfg gone now (a # acts) Q =
     (case q_step cfg gone now a Q of
        None \<Rightarrow> None
      | Some (Q', sv, dr) \<Rightarrow>
          (case q_run cfg gone now acts Q' of
             None \<Rightarrow> None
           | Some (Q'', sv', dr') \<Rightarrow> Some (Q'', sv @ sv', dr @ dr')))"

lemma q_run_append:
  "\<lbrakk>q_run cfg gone now as Q = Some (Q1, sv, dr); q_run cfg gone now bs Q1 = Some (Q2, sv', dr')\<rbrakk> \<Longrightarrow>
   q_run cfg gone now (as @ bs) Q = Some (Q2, sv @ sv', dr @ dr')"
  by (induction as arbitrary: Q sv dr) (auto split: option.splits prod.splits)

definition ids :: "queue_item multiset \<Rightarrow> string multiset" where
  "ids M = image_mset qi_id M"

definition qsim ::
  "gq_config \<Rightarrow> (string \<Rightarrow> bool) \<Rightarrow> time \<Rightarrow> scheduler \<Rightarrow> scheduler \<Rightarrow> queue_item list \<Rightarrow> queue_item list \<Rightarrow>
   bool" where
  "qsim cfg gone now s s' sv dr \<longleftrightarrow>
     sched_inv s' \<and> (\<exists>acts. q_run cfg gone now acts (view s) = Some (view s', sv, dr)) \<and>
     ids (queued s) = ids (queued s') + ids (mset sv) + ids (mset dr) \<and> sc_slots s' = sc_slots s"

lemma ids_simps [simp]:
  "ids {#} = {#}" "ids (M + N) = ids M + ids N" "ids (add_mset it M) = add_mset (qi_id it) (ids M)"
  "size (ids M) = size M"
  by (simp_all add: ids_def)

lemma qsim_refl: "sched_inv s \<Longrightarrow> qsim cfg gone now s s [] []"
  unfolding qsim_def by (auto intro: exI [of _ "[]"])

lemma qsim_trans:
  "\<lbrakk>qsim cfg gone now s s' sv dr; qsim cfg gone now s' s'' sv' dr'\<rbrakk> \<Longrightarrow>
   qsim cfg gone now s s'' (sv @ sv') (dr @ dr')"
  unfolding qsim_def by (auto simp: ac_simps intro: q_run_append)

lemma qsim_step:
  assumes "q_step cfg gone now a (view s) = Some (view s', sv, dr)" "sched_inv s'"
    "ids (queued s) = ids (queued s') + ids (mset sv) + ids (mset dr)" "sc_slots s' = sc_slots s"
  shows "qsim cfg gone now s s' sv dr"
proof -
  have "q_run cfg gone now [a] (view s) = Some (view s', sv, dr)"
    using assms(1) by simp
  then show ?thesis using assms(2-) unfolding qsim_def by blast
qed

lemma qsim_inv: "qsim cfg gone now s s' sv dr \<Longrightarrow> sched_inv s'"
  by (simp add: qsim_def)

lemma qsim_same_lanes:
  assumes "qsim cfg gone now s s' sv dr" "sc_lanes t = sc_lanes s" "sc_slots t = sc_slots s"
  shows "qsim cfg gone now t s' sv dr"
  using assms queued_cong [OF assms(2)] by (simp add: qsim_def view_def)

lemma view_at [simp]: "view s (p, c) = items_at (sc_lanes s p) c"
  by (simp add: view_def)

lemma sched_inv_lane:
  "\<lbrakk>sched_inv s; map_of (sc_lanes s p) c = Some l\<rbrakk> \<Longrightarrow> lane_ok p c l"
  by (auto simp: sched_inv_def intro: lanes_inv_lane)

section \<open>Changing the items of one lane\<close>

text \<open>The state after the items of a lane were replaced; an emptied lane is deleted.\<close>

definition set_lane :: "iter_order \<Rightarrow> priority \<Rightarrow> string \<Rightarrow> lane \<Rightarrow> int \<Rightarrow> scheduler \<Rightarrow> scheduler" where
  "set_lane ord p c l n s =
     (let s1 = put_lane p c l s; s2 = s1\<lparr>sc_depth := sc_depth s1 - n\<rparr> in
      if ln_items l = [] then drop_lane ord p c s2 else s2)"

lemma put_lane_depth: "(put_lane p c l s)\<lparr>sc_depth := n\<rparr> = put_lane p c l (s\<lparr>sc_depth := n\<rparr>)"
  by (simp add: put_lane_def)

lemma set_lane_effect:
  assumes ord: "map_order ord" and inv: "sched_inv s" and l0: "map_of (sc_lanes s p) c = Some l0"
    and sub: "mset (ln_items l0) = mset (ln_items l) + M" and n: "n = int (size M)"
    and d: "0 \<le> ln_deficit l"
  shows "sched_inv (set_lane ord p c l n s)"
    and "queued s = queued (set_lane ord p c l n s) + M"
    and "view (set_lane ord p c l n s) = (view s)((p, c) := ln_items l)"
    and "sc_slots (set_lane ord p c l n s) = sc_slots s"
proof -
  have at: "items_at (sc_lanes s p) c = ln_items l0"
    using l0 by (simp add: items_at_def)
  have linv: "lanes_inv s" and depth: "sc_depth s = int (size (queued s))"
    using inv by (simp_all add: sched_inv_def)
  let ?t = "s\<lparr>sc_depth := sc_depth s - n\<rparr>"
  have set_mem: "set (ln_items l) \<subseteq> set (ln_items l0)"
    by (metis mset_subset_eq_add_left set_mset_mono set_mset_mset sub)
  have ok: "ln_items l \<noteq> [] \<Longrightarrow> lane_ok p c l"
    using lanes_inv_lane [OF linv l0] d set_mem by (auto simp: lane_ok_def)
  have eq: "set_lane ord p c l n s =
      (if ln_items l = [] then drop_lane ord p c (put_lane p c l ?t) else put_lane p c l ?t)"
    by (simp add: set_lane_def Let_def put_lane_depth)
  have q: "queued (set_lane ord p c l n s) + mset (ln_items l0) = queued s + mset (ln_items l)"
  proof (cases "ln_items l = []")
    case True
    then show ?thesis using queued_drop_put [of ?t ord p c l] linv at by (simp add: eq)
  next
    case False
    then show ?thesis using queued_put [of p c l ?t] at by (simp add: eq)
  qed
  then have q': "queued s = queued (set_lane ord p c l n s) + M"
    using sub by (simp add: ac_simps)
  then show "queued s = queued (set_lane ord p c l n s) + M" .
  have "lanes_inv (set_lane ord p c l n s)"
  proof (cases "ln_items l = []")
    case True
    then show ?thesis using lanes_inv_drop [OF ord, of ?t p c l] linv by (simp add: eq)
  next
    case False
    then show ?thesis using lanes_inv_put [of ?t p c l l0] ok linv l0 by (simp add: eq)
  qed
  moreover have "sc_depth (set_lane ord p c l n s) = sc_depth s - n"
    by (simp add: eq)
  ultimately show "sched_inv (set_lane ord p c l n s)"
    using depth q' n by (simp add: sched_inv_def)
  show "view (set_lane ord p c l n s) = (view s)((p, c) := ln_items l)"
    by (auto simp: eq view_def fun_eq_iff)
  show "sc_slots (set_lane ord p c l n s) = sc_slots s"
    by (simp add: eq)
qed

section \<open>Aging\<close>

lemma age_lane_sim:
  assumes ord: "map_order ord" and inv: "sched_inv s" and p: "p = Normal \<or> p = Low"
  shows "qsim cfg gone now s (age_lane ord cfg now p c s) [] []"
proof (cases "map_of (sc_lanes s p) c")
  case None
  then show ?thesis using qsim_refl [OF inv] by (simp add: age_lane_def)
next
  case (Some l)
  have ok: "lane_ok p c l" using inv Some by (rule sched_inv_lane)
  then obtain h rest where its: "ln_items l = h # rest"
    by (cases "ln_items l") (auto simp: lane_ok_def)
  have h: "qi_caller h = c" "qi_effective h = p" using ok its by (auto simp: lane_ok_def)
  show ?thesis
  proof (cases "due cfg now p h")
    case False
    then show ?thesis
      using qsim_refl [OF inv] Some its h by (auto simp add: age_lane_def due_def Let_def)
  next
    case True
    let ?l = "l\<lparr>ln_items := rest\<rparr>" and ?h = "h\<lparr>qi_effective := promoted p\<rparr>"
    let ?s1 = "set_lane ord p c ?l 1 s"
    have eq: "age_lane ord cfg now p c s = push_item ord False ?h ?s1"
      using Some its True h by (simp add: age_lane_def due_def set_lane_def Let_def)
    have d: "0 \<le> ln_deficit ?l" using ok by (simp add: lane_ok_def)
    note e = set_lane_effect [OF ord inv Some, where l = ?l and M = "{#h#}" and n = 1, simplified its, simplified]
    have e1: "sched_inv ?s1" "queued s = add_mset h (queued ?s1)" "view ?s1 = (view s)((p, c) := rest)"
      "sc_slots ?s1 = sc_slots s"
      using e d by simp_all
    have ne: "promoted p \<noteq> p" using p by auto
    have "view (push_item ord False ?h ?s1) =
        (view ?s1)((promoted p, c) := view ?s1 (promoted p, c) @ [?h])"
      by (auto simp: view_def fun_eq_iff push_item_items h)
    then have v: "q_step cfg gone now (QPromote p c) (view s) = Some (view (push_item ord False ?h ?s1), [], [])"
      using Some its True ne by (simp add: e1(3) items_at_def)
    show ?thesis
      unfolding eq
      by (rule qsim_step [OF v push_item_sched_inv [OF ord e1(1)]])
        (simp_all add: push_item_queued e1(2,4))
  qed
qed

lemma fold_age_sim:
  assumes "map_order ord" "p = Normal \<or> p = Low"
  shows "sched_inv s \<Longrightarrow> qsim cfg gone now s (fold (age_lane ord cfg now p) cs s) [] []"
proof (induction cs arbitrary: s)
  case Nil
  then show ?case by (simp add: qsim_refl)
next
  case (Cons c cs)
  have "qsim cfg gone now s (age_lane ord cfg now p c s) [] []"
    by (rule age_lane_sim [OF assms(1) Cons.prems assms(2)])
  from qsim_trans [OF this Cons.IH [OF qsim_inv [OF this]]] show ?case by simp
qed

lemma sched_inv_field [simp]:
  "sched_inv (s\<lparr>sc_iters := k\<rparr>) = sched_inv s"
  "sched_inv (s\<lparr>sc_rr_index := i\<rparr>) = sched_inv s"
  "sched_inv (s\<lparr>sc_wake := w\<rparr>) = sched_inv s"
  "sched_inv (s\<lparr>sc_slots := n\<rparr>) = sched_inv s"
  by (simp_all add: sched_inv_def)

lemma apply_aging_sim:
  assumes ord: "map_order ord" and inv: "sched_inv s"
  shows "qsim cfg gone now s (apply_aging ord cfg now s) [] []"
proof -
  have one: "sched_inv t \<Longrightarrow> p = Normal \<or> p = Low \<Longrightarrow> qsim cfg gone now t (age_priority ord cfg now p t) [] []"
    for t p
    unfolding age_priority_def
    by (rule qsim_same_lanes [OF fold_age_sim [OF ord]]) simp_all
  from one [OF inv, of Normal] have n: "qsim cfg gone now s (age_priority ord cfg now Normal s) [] []" by simp
  from qsim_trans [OF n one [OF qsim_inv [OF n], of Low]] show ?thesis
    by (simp add: apply_aging_def)
qed

section \<open>Pruning\<close>

lemma prune_items_split:
  "prune_items gone now p its = (d, k) \<Longrightarrow>
   \<exists>pre. its = pre @ k \<and> d = map (drop_item gone now p) pre \<and> (\<forall>it \<in> set pre. stale gone now it) \<and>
         (k \<noteq> [] \<longrightarrow> \<not> stale gone now (hd k))"
proof (induction its arbitrary: d k)
  case (Cons it its)
  show ?case
  proof (cases "stale gone now it")
    case True
    obtain d' k' where r: "prune_items gone now p its = (d', k')" by fastforce
    from Cons.IH [OF r] obtain pre where
      "its = pre @ k'" "d' = map (drop_item gone now p) pre" "\<forall>it \<in> set pre. stale gone now it"
      "k' \<noteq> [] \<longrightarrow> \<not> stale gone now (hd k')" by blast
    with True r Cons.prems show ?thesis
      by (intro exI [of _ "it # pre"]) (auto simp: Let_def)
  next
    case False
    with Cons.prems show ?thesis by (intro exI [of _ "[]"]) auto
  qed
qed simp

lemma drop_item_id [simp]: "qi_id (drop_item gone now p it) = qi_id it"
  by (simp add: drop_item_def)

lemma ids_drop_items: "ids (mset (map (drop_item gone now p) pre)) = ids (mset pre)"
  by (induction pre) simp_all

lemma q_run_drops:
  "\<lbrakk>Q (p, c) = pre @ k; \<forall>it \<in> set pre. stale gone now it\<rbrakk> \<Longrightarrow>
   q_run cfg gone now (replicate (length pre) (QDrop p c)) Q =
     Some (Q((p, c) := k), [], map (drop_item gone now p) pre)"
proof (induction pre arbitrary: Q)
  case Nil
  then have "Q((p, c) := k) = Q" by auto
  then show ?case by simp
next
  case (Cons it pre)
  then show ?case using Cons.IH [of "Q((p, c) := pre @ k)"] by (simp add: fun_eq_iff)
qed

lemma prune_head_eq:
  "prune_head ord gone now p c l s =
     (let (d, k) = prune_items gone now p (ln_items l) in
      (d, l\<lparr>ln_items := k\<rparr>, set_lane ord p c (l\<lparr>ln_items := k\<rparr>) (int (length d)) s))"
  by (simp add: prune_head_def set_lane_def Let_def split: prod.splits)

lemma set_lane_map_of:
  "ln_items l \<noteq> [] \<Longrightarrow> map_of (sc_lanes (set_lane ord p c l n s) p) c = Some l"
  by (simp add: set_lane_def Let_def update_conv')

lemma prune_sim:
  assumes ord: "map_order ord" and inv: "sched_inv s" and l: "map_of (sc_lanes s p) c = Some l"
    and pr: "prune_items gone now p (ln_items l) = (d, k)"
  shows "qsim cfg gone now s (set_lane ord p c (l\<lparr>ln_items := k\<rparr>) (int (length d)) s) [] d"
proof -
  from prune_items_split [OF pr] obtain pre where
    pre: "ln_items l = pre @ k" "d = map (drop_item gone now p) pre" "\<forall>it \<in> set pre. stale gone now it"
    by blast
  let ?l = "l\<lparr>ln_items := k\<rparr>" and ?s = "set_lane ord p c (l\<lparr>ln_items := k\<rparr>) (int (length d)) s"
  have d0: "0 \<le> ln_deficit ?l"
    using sched_inv_lane [OF inv l] by (simp add: lane_ok_def)
  have e: "sched_inv ?s" "queued s = queued ?s + mset pre" "view ?s = (view s)((p, c) := k)"
    "sc_slots ?s = sc_slots s"
    using set_lane_effect [OF ord inv l, where l = ?l and M = "mset pre" and n = "int (length d)"] d0 pre
    by (simp_all add: add.commute)
  have "q_run cfg gone now (replicate (length pre) (QDrop p c)) (view s) = Some ((view s)((p, c) := k), [], d)"
    using pre l by (simp only: pre(2)) (intro q_run_drops, simp_all add: items_at_def)
  then have "q_run cfg gone now (replicate (length pre) (QDrop p c)) (view s) = Some (view ?s, [], d)"
    by (simp only: e(3))
  then show ?thesis
    unfolding qsim_def using e by (auto simp: pre(2) ids_drop_items simp del: mset_map)
qed

section \<open>The tie break\<close>

lemma scan_best_first_min:
  assumes "best < pos" "pos \<le> length its" "tokens = qi_tokens (its ! best)"
    "\<And>j. j < pos \<Longrightarrow> qi_tokens (its ! best) \<le> qi_tokens (its ! j)"
    "\<And>j. j < best \<Longrightarrow> qi_tokens (its ! best) < qi_tokens (its ! j)"
    "r = scan_best k pos best tokens (drop pos its)"
  shows "r < length its \<and> r < pos + k \<and>
     (\<forall>j. j < pos + k \<longrightarrow> j < length its \<longrightarrow> qi_tokens (its ! r) \<le> qi_tokens (its ! j)) \<and>
     (\<forall>j < r. qi_tokens (its ! r) < qi_tokens (its ! j))"
  using assms
proof (induction k arbitrary: pos best tokens)
  case 0
  then show ?case by auto
next
  case (Suc k)
  show ?case
  proof (cases "pos = length its")
    case True
    then have "r = best" using Suc.prems(6) by simp
    then show ?thesis using Suc.prems True by auto
  next
    case False
    then have lt: "pos < length its" using Suc.prems(2) by simp
    then have dr: "drop pos its = its ! pos # drop (Suc pos) its"
      by (simp add: Cons_nth_drop_Suc)
    show ?thesis
    proof (cases "qi_tokens (its ! pos) < tokens")
      case True
      have "r = scan_best k (Suc pos) pos (qi_tokens (its ! pos)) (drop (Suc pos) its)"
        using Suc.prems(6) dr True by simp
      then have "r < length its \<and> r < Suc pos + k \<and>
         (\<forall>j. j < Suc pos + k \<longrightarrow> j < length its \<longrightarrow> qi_tokens (its ! r) \<le> qi_tokens (its ! j)) \<and>
         (\<forall>j < r. qi_tokens (its ! r) < qi_tokens (its ! j))"
        using lt True Suc.prems(3,4)
        by (intro Suc.IH [where best = pos]) (fastforce simp: less_Suc_eq)+
      then show ?thesis by simp
    next
      case False
      have "r = scan_best k (Suc pos) best tokens (drop (Suc pos) its)"
        using Suc.prems(6) dr False by simp
      then have "r < length its \<and> r < Suc pos + k \<and>
         (\<forall>j. j < Suc pos + k \<longrightarrow> j < length its \<longrightarrow> qi_tokens (its ! r) \<le> qi_tokens (its ! j)) \<and>
         (\<forall>j < r. qi_tokens (its ! r) < qi_tokens (its ! j))"
        using lt False Suc.prems(1,3,4,5)
        by (intro Suc.IH [where best = best]) (auto simp: less_Suc_eq)
      then show ?thesis by simp
    qed
  qed
qed

lemma shortest_of_first_k_spec:
  assumes "its \<noteq> []"
  obtains i where "shortest_of_first_k cfg its = Some (its ! i, remove_nth i its)"
    "i < length its" "i < scan_width cfg"
    "\<forall>j < scan_width cfg. j < length its \<longrightarrow> qi_tokens (its ! i) \<le> qi_tokens (its ! j)"
    "\<forall>j < i. qi_tokens (its ! i) < qi_tokens (its ! j)"
proof -
  obtain it rest where its: "its = it # rest" using assms by (cases its) auto
  show thesis
  proof (cases "cfg_tiebreak_scan_k cfg \<le> 1 \<or> length its \<le> 1")
    case True
    then show thesis
      using its by (intro that [of 0]) (auto simp: shortest_of_first_k_def scan_width_def)
  next
    case False
    let ?k = "nat (cfg_tiebreak_scan_k cfg) - 1"
    let ?r = "scan_best ?k 1 0 (qi_tokens it) rest"
    have "?r < length its \<and> ?r < 1 + ?k \<and>
       (\<forall>j. j < 1 + ?k \<longrightarrow> j < length its \<longrightarrow> qi_tokens (its ! ?r) \<le> qi_tokens (its ! j)) \<and>
       (\<forall>j < ?r. qi_tokens (its ! ?r) < qi_tokens (its ! j))"
      by (rule scan_best_first_min) (use its in auto)
    moreover have "1 + ?k = scan_width cfg" using False by (simp add: scan_width_def)
    ultimately show thesis
      using False its by (intro that [of ?r]) (auto simp: shortest_of_first_k_def Let_def)
  qed
qed

lemma remove_nth_mset: "i < length xs \<Longrightarrow> mset xs = add_mset (xs ! i) (mset (remove_nth i xs))"
  by (induction i xs rule: remove_nth.induct) auto

lemma remove_nth_eq: "remove_nth i xs = take i xs @ drop (Suc i) xs"
  by (induction i xs rule: remove_nth.induct) auto

section \<open>The round robin\<close>

text \<open>One turn for a caller whose lane exists, with every change of the lane as \<open>set_lane\<close>.\<close>

definition turned :: "priority \<Rightarrow> string list \<Rightarrow> scheduler \<Rightarrow> scheduler" where
  "turned p keys s = s\<lparr>sc_rr_index := (sc_rr_index s)(p := (sc_rr_index s p + 1) mod length keys)\<rparr>"

definition turn_caller :: "priority \<Rightarrow> string list \<Rightarrow> scheduler \<Rightarrow> string" where
  "turn_caller p keys s = keys ! (sc_rr_index s p mod length keys)"

lemma turned_simps [simp]:
  "sc_lanes (turned p keys s) = sc_lanes s" "sc_slots (turned p keys s) = sc_slots s"
  "sc_depth (turned p keys s) = sc_depth s" "sched_inv (turned p keys s) = sched_inv s"
  "sc_rr_keys (turned p keys s) = sc_rr_keys s" "sc_iters (turned p keys s) = sc_iters s"
  by (simp_all add: turned_def)

lemma set_lane_zero: "ln_items l \<noteq> [] \<Longrightarrow> set_lane ord p c l 0 s = put_lane p c l s"
  by (simp add: set_lane_def Let_def)

lemma visit_caller_eq:
  "visit_caller ord cfg gone now p keys s =
     (let caller = turn_caller p keys s in
      case map_of (sc_lanes s p) caller of
        None \<Rightarrow> (None, turned p keys s, [])
      | Some l0 \<Rightarrow>
          (if ln_items l0 = [] then (None, turned p keys s, [])
           else (let (d, k) = prune_items gone now p (ln_items l0);
                     s1 = set_lane ord p caller (l0\<lparr>ln_items := k\<rparr>) (int (length d)) (turned p keys s) in
                 if k = [] then (None, s1, d)
                 else (let q = ln_deficit l0 + cfg_quantum_tokens cfg;
                           s2 = set_lane ord p caller (l0\<lparr>ln_items := k, ln_deficit := q\<rparr>) 0 s1 in
                       if qi_tokens (hd k) \<le> q then
                         (case shortest_of_first_k cfg k of
                            None \<Rightarrow> (None, s2, d)
                          | Some (w, rest) \<Rightarrow>
                              (Some w, set_lane ord p caller (l0\<lparr>ln_items := rest, ln_deficit := q - qi_tokens w\<rparr>) 1 s2, d))
                       else (None, s2, d)))))"
  by (simp add: visit_caller_def turn_caller_def prune_head_eq Let_def turned_def set_lane_zero
      set_lane_def [where n = 1] split: option.split prod.split)

lemma raise_sim:
  assumes ord: "map_order ord" and inv: "sched_inv s" and l: "map_of (sc_lanes s p) c = Some l"
    and q: "ln_deficit l \<le> q"
  shows "qsim cfg gone now s (set_lane ord p c (l\<lparr>ln_deficit := q\<rparr>) 0 s) [] []"
proof -
  let ?l = "l\<lparr>ln_deficit := q\<rparr>" and ?s = "set_lane ord p c (l\<lparr>ln_deficit := q\<rparr>) 0 s"
  have d0: "0 \<le> ln_deficit ?l"
    using sched_inv_lane [OF inv l] q by (simp add: lane_ok_def)
  have e: "sched_inv ?s" "queued s = queued ?s" "view ?s = (view s)((p, c) := ln_items l)"
    "sc_slots ?s = sc_slots s"
    using set_lane_effect [OF ord inv l, where l = ?l and M = "{#}" and n = 0] d0 by simp_all
  have "view ?s = view s"
    using l by (auto simp: e(3) fun_eq_iff items_at_def)
  then have "q_run cfg gone now [] (view s) = Some (view ?s, [], [])"
    by simp
  then show ?thesis unfolding qsim_def using e by (auto intro: exI [of _ "[]"])
qed

lemma serve_sim:
  assumes ord: "map_order ord" and inv: "sched_inv s" and l: "map_of (sc_lanes s p) c = Some l"
    and fresh: "\<not> stale gone now (hd (ln_items l))" and aff: "qi_tokens (hd (ln_items l)) \<le> ln_deficit l"
    and w: "shortest_of_first_k cfg (ln_items l) = Some (w, rest)"
  shows "qsim cfg gone now s
           (set_lane ord p c (l\<lparr>ln_items := rest, ln_deficit := ln_deficit l - qi_tokens w\<rparr>) 1 s) [w] []"
    and "qi_effective w = p" and "qi_caller w = c" and "qi_tokens w \<le> ln_deficit l"
proof -
  let ?l = "l\<lparr>ln_items := rest, ln_deficit := ln_deficit l - qi_tokens w\<rparr>"
  let ?s = "set_lane ord p c ?l 1 s"
  have ok: "lane_ok p c l" by (rule sched_inv_lane [OF inv l])
  then have ne: "ln_items l \<noteq> []" by (simp add: lane_ok_def)
  obtain i where
    sp: "shortest_of_first_k cfg (ln_items l) = Some (ln_items l ! i, remove_nth i (ln_items l))"
    and il: "i < length (ln_items l)" "i < scan_width cfg"
    and im: "\<forall>j < scan_width cfg. j < length (ln_items l) \<longrightarrow> qi_tokens (ln_items l ! i) \<le> qi_tokens (ln_items l ! j)"
      "\<forall>j < i. qi_tokens (ln_items l ! i) < qi_tokens (ln_items l ! j)"
    by (rule shortest_of_first_k_spec [OF ne, of cfg])
  have i: "w = ln_items l ! i" "rest = remove_nth i (ln_items l)" "i < length (ln_items l)" "i < scan_width cfg"
    using sp w il by simp_all
  have sw: "0 < scan_width cfg" using i(4) by simp
  have wt: "qi_tokens w \<le> qi_tokens (hd (ln_items l))"
    using i(1) im(1) sw ne by (simp add: hd_conv_nth)
  then show "qi_tokens w \<le> ln_deficit l" using aff by simp
  have "w \<in> set (ln_items l)" using i(1,3) by simp
  then show "qi_effective w = p" "qi_caller w = c" using ok by (auto simp: lane_ok_def)
  have d0: "0 \<le> ln_deficit ?l" using wt aff by simp
  have m: "mset (ln_items l) = mset (ln_items ?l) + {#w#}"
    using remove_nth_mset [OF i(3)] i(1,2) by simp
  have e: "sched_inv ?s" "queued s = queued ?s + {#w#}" "view ?s = (view s)((p, c) := rest)"
    "sc_slots ?s = sc_slots s"
    using set_lane_effect [OF ord inv l m _ d0, of 1] by simp_all
  have at: "view s (p, c) = ln_items l" using l by (simp add: items_at_def)
  have min: "list_all (\<lambda>it. qi_tokens (ln_items l ! i) \<le> qi_tokens it) (take (scan_width cfg) (ln_items l))"
    "list_all (\<lambda>it. qi_tokens (ln_items l ! i) < qi_tokens it) (take i (ln_items l))"
    using i(3) im by (auto simp: list_all_length)
  have "q_step cfg gone now (QServe p c i) (view s) = Some ((view s)((p, c) := rest), [w], [])"
    using i(1-4) fresh min by (simp add: at Let_def del: view_at)
  then have "q_step cfg gone now (QServe p c i) (view s) = Some (view ?s, [w], [])"
    by (simp only: e(3))
  then show "qsim cfg gone now s ?s [w] []"
    by (rule qsim_step) (use e in simp_all)
qed

lemma visit_sim:
  assumes ord: "map_order ord" and inv: "sched_inv s" and quantum: "0 \<le> cfg_quantum_tokens cfg"
    and v: "visit_caller ord cfg gone now p keys s = (r, s', d)"
  shows "qsim cfg gone now s s' (case r of None \<Rightarrow> [] | Some w \<Rightarrow> [w]) d"
    and "r = Some w \<Longrightarrow> qi_effective w = p"
proof -
  let ?c = "turn_caller p keys s" and ?t = "turned p keys s"
  have invt: "sched_inv ?t" using inv by simp
  have "qsim cfg gone now ?t s' (case r of None \<Rightarrow> [] | Some w \<Rightarrow> [w]) d \<and> (\<forall>w. r = Some w \<longrightarrow> qi_effective w = p)"
  proof (cases "map_of (sc_lanes s p) ?c")
    case None
    then show ?thesis using v qsim_refl [OF invt] by (auto simp: visit_caller_eq Let_def)
  next
    case (Some l0)
    have l0: "map_of (sc_lanes ?t p) ?c = Some l0" using Some by simp
    have ok: "lane_ok p ?c l0" by (rule sched_inv_lane [OF inv Some])
    then have ne: "ln_items l0 \<noteq> []" by (simp add: lane_ok_def)
    obtain d' k where pr: "prune_items gone now p (ln_items l0) = (d', k)" by fastforce
    let ?s1 = "set_lane ord p ?c (l0\<lparr>ln_items := k\<rparr>) (int (length d')) ?t"
    have s1: "qsim cfg gone now ?t ?s1 [] d'" by (rule prune_sim [OF ord invt l0 pr])
    show ?thesis
    proof (cases "k = []")
      case True
      then show ?thesis using v s1 Some ne pr by (auto simp: visit_caller_eq Let_def)
    next
      case False
      let ?q = "ln_deficit l0 + cfg_quantum_tokens cfg"
      let ?l2 = "l0\<lparr>ln_items := k, ln_deficit := ?q\<rparr>"
      let ?s2 = "set_lane ord p ?c ?l2 0 ?s1"
      have l1: "map_of (sc_lanes ?s1 p) ?c = Some (l0\<lparr>ln_items := k\<rparr>)"
        using False by (simp add: set_lane_map_of)
      have "qsim cfg gone now ?s1 ?s2 [] []"
        using raise_sim [OF ord qsim_inv [OF s1] l1, where q = ?q] quantum by simp
      from qsim_trans [OF s1 this] have s2: "qsim cfg gone now ?t ?s2 [] d'" by simp
      have l2: "map_of (sc_lanes ?s2 p) ?c = Some ?l2" using False by (simp add: set_lane_map_of)
      show ?thesis
      proof (cases "qi_tokens (hd k) \<le> ?q")
        case False
        then show ?thesis using v s2 Some ne pr \<open>k \<noteq> []\<close> by (auto simp: visit_caller_eq Let_def)
      next
        case True
        obtain w rest where w: "shortest_of_first_k cfg k = Some (w, rest)"
          by (rule shortest_of_first_k_spec [OF \<open>k \<noteq> []\<close>, of cfg]) blast
        have fresh: "\<not> stale gone now (hd k)"
          using prune_items_split [OF pr] \<open>k \<noteq> []\<close> by blast
        note sv = serve_sim [OF ord qsim_inv [OF s2] l2, of gone now cfg w rest, simplified, OF fresh True w]
        from qsim_trans [OF s2 sv(1)] sv(2) show ?thesis
          using v Some ne pr \<open>k \<noteq> []\<close> True w by (auto simp: visit_caller_eq Let_def)
      qed
    qed
  qed
  then show "qsim cfg gone now s s' (case r of None \<Rightarrow> [] | Some w \<Rightarrow> [w]) d"
    and "r = Some w \<Longrightarrow> qi_effective w = p"
    by (auto intro: qsim_same_lanes [where s = ?t])
qed

abbreviation served :: "queue_item option \<Rightarrow> queue_item list" where
  "served r \<equiv> (case r of None \<Rightarrow> [] | Some w \<Rightarrow> [w])"

lemma drr_pass_sim:
  assumes ord: "map_order ord" and quantum: "0 \<le> cfg_quantum_tokens cfg"
  shows "\<lbrakk>sched_inv s; drr_pass ord cfg gone now p keys tries s = (r, s', d)\<rbrakk> \<Longrightarrow>
     qsim cfg gone now s s' (served r) d \<and> (\<forall>w. r = Some w \<longrightarrow> qi_effective w = p)"
proof (induction tries arbitrary: s d)
  case 0
  then show ?case by (auto simp: qsim_refl)
next
  case (Suc tries)
  obtain r1 s1 d1 where v: "visit_caller ord cfg gone now p keys s = (r1, s1, d1)"
    using prod_cases3 by blast
  note sim = visit_sim [OF ord Suc.prems(1) quantum v]
  show ?case
  proof (cases r1)
    case (Some w)
    then show ?thesis using sim Suc.prems(2) v by auto
  next
    case None
    obtain d2 where r: "drr_pass ord cfg gone now p keys tries s1 = (r, s', d2)" and d: "d = d1 @ d2"
      using Suc.prems(2) v None by (auto split: prod.splits)
    from Suc.IH [OF qsim_inv [OF sim(1)] r] sim(1) None show ?thesis
      using qsim_trans d by fastforce
  qed
qed

lemma pick_priorities_sim:
  assumes ord: "map_order ord" and quantum: "0 \<le> cfg_quantum_tokens cfg"
  shows "\<lbrakk>sched_inv s; pick_priorities ord cfg gone now ps s = (r, s', d)\<rbrakk> \<Longrightarrow>
     qsim cfg gone now s s' (served r) d"
proof (induction ps arbitrary: s d)
  case Nil
  then show ?case by (auto simp: qsim_refl)
next
  case (Cons p ps)
  obtain r1 s1 d1 where v: "drr_pass ord cfg gone now p (sc_rr_keys s p) (length (sc_rr_keys s p)) s = (r1, s1, d1)"
    using prod_cases3 by blast
  note sim = drr_pass_sim [OF ord quantum Cons.prems(1) v]
  show ?case
  proof (cases r1)
    case (Some w)
    then show ?thesis using sim Cons.prems(2) v by auto
  next
    case None
    obtain d2 where r: "pick_priorities ord cfg gone now ps s1 = (r, s', d2)" and d: "d = d1 @ d2"
      using Cons.prems(2) v None by (auto split: prod.splits)
    from Cons.IH [OF qsim_inv [OF conjunct1 [OF sim]] r] sim None show ?thesis
      using qsim_trans d by fastforce
  qed
qed

lemma pick_next_sim:
  assumes "map_order ord" "0 \<le> cfg_quantum_tokens cfg" "sched_inv s"
    "pick_next ord cfg gone now s = (r, s', d)"
  shows "qsim cfg gone now s s' (served r) d"
proof -
  have a: "qsim cfg gone now s (apply_aging ord cfg now s) [] []"
    by (rule apply_aging_sim [OF assms(1,3)])
  from assms(4) have "pick_priorities ord cfg gone now all_priorities (apply_aging ord cfg now s) = (r, s', d)"
    by (simp add: pick_next_def)
  from qsim_trans [OF a pick_priorities_sim [OF assms(1,2) qsim_inv [OF a] this]] show ?thesis by simp
qed

end
