(* ===== verification/GqFair.thy ===== *)
theory GqFair
  imports GqPick
begin

text \<open>
  Progress of \<open>PickNext\<close> (\<open>internal/gq/scheduler.go\<close>).  When no queued item is stale, a
  round robin pass that serves nobody visits every caller of its priority once and gives each
  lane one quantum, so the deficits grow until some head is affordable.
\<close>

definition all_fresh :: "(string \<Rightarrow> bool) \<Rightarrow> time \<Rightarrow> scheduler \<Rightarrow> bool" where
  "all_fresh gone now s \<longleftrightarrow> (\<forall>it. it \<in># queued s \<longrightarrow> \<not> stale gone now it)"

definition none_due :: "gq_config \<Rightarrow> time \<Rightarrow> scheduler \<Rightarrow> bool" where
  "none_due cfg now s \<longleftrightarrow> (\<forall>it. it \<in># queued s \<longrightarrow> \<not> due cfg now (qi_effective it) it)"

text \<open>The lane after a turn that served nobody, and the reason why nobody was served.\<close>

definition raise_lane :: "gq_config \<Rightarrow> lane \<Rightarrow> lane" where
  "raise_lane cfg l = l\<lparr>ln_deficit := ln_deficit l + cfg_quantum_tokens cfg\<rparr>"

definition unaffordable :: "gq_config \<Rightarrow> lane \<Rightarrow> bool" where
  "unaffordable cfg l \<longleftrightarrow> ln_deficit l + cfg_quantum_tokens cfg < qi_tokens (hd (ln_items l))"

lemma raise_lane_simps [simp]:
  "ln_items (raise_lane cfg l) = ln_items l"
  "ln_deficit (raise_lane cfg l) = ln_deficit l + cfg_quantum_tokens cfg"
  by (simp_all add: raise_lane_def)

lemma lane_in_queued:
  assumes "map_of (sc_lanes s p) c = Some l" "it \<in> set (ln_items l)"
  shows "it \<in># queued s"
proof -
  have "(c, l) \<in> set (sc_lanes s p)" using assms(1) by (rule map_of_SomeD)
  then have "it \<in># contents (sc_lanes s p)" using assms(2) by (auto simp: contents_def)
  then show ?thesis by (cases p) (simp_all add: queued_def)
qed

lemma queued_in_lane:
  assumes "lanes_inv s" "it \<in># queued s"
  obtains p c l where "map_of (sc_lanes s p) c = Some l" "it \<in> set (ln_items l)"
proof -
  from assms(2) obtain p where "it \<in># contents (sc_lanes s p)" by (auto simp: queued_def)
  then obtain c l where "(c, l) \<in> set (sc_lanes s p)" "it \<in> set (ln_items l)"
    by (auto simp: contents_def)
  then show thesis
    using that lane_map_okD(1) [OF lanes_invD [OF assms(1), of p]] by (metis map_of_eq_Some_iff)
qed

lemma put_lane_field_comm:
  "put_lane p c l (put_lane p c l0 s) = put_lane p c l s"
  by (simp add: put_lane_def)

lemma set_lane_zero_eq:
  "ln_items l \<noteq> [] \<Longrightarrow> set_lane ord p c l 0 s = put_lane p c l s"
  by (simp add: set_lane_def Let_def)

lemma visit_fresh_None:
  assumes inv: "sched_inv s" and fresh: "all_fresh gone now s" and ne: "keys \<noteq> []"
    and keys: "keys = sc_rr_keys s p" and v: "visit_caller ord cfg gone now p keys s = (None, s', d)"
  obtains l where "map_of (sc_lanes s p) (turn_caller p keys s) = Some l" "unaffordable cfg l"
    "s' = put_lane p (turn_caller p keys s) (raise_lane cfg l) (turned p keys s)" "d = []"
proof -
  let ?c = "turn_caller p keys s"
  have linv: "lanes_inv s" using inv by (simp add: sched_inv_def)
  have "?c \<in> set keys" using ne by (simp add: turn_caller_def)
  then obtain l where l: "map_of (sc_lanes s p) ?c = Some l"
    using lane_map_okD(5) [OF lanes_invD [OF linv, of p]] keys by auto
  have its: "ln_items l \<noteq> []" using lanes_inv_lane [OF linv l] by (simp add: lane_ok_def)
  then have "\<not> stale gone now (hd (ln_items l))"
    using fresh lane_in_queued [OF l] by (simp add: all_fresh_def)
  then have pr: "prune_items gone now p (ln_items l) = ([], ln_items l)"
    using its by (cases "ln_items l") auto
  obtain w rest where w: "shortest_of_first_k cfg (ln_items l) = Some (w, rest)"
    by (rule shortest_of_first_k_spec [OF its, of cfg]) blast
  from v l its pr w show thesis
    by (intro that [of l]) (auto simp: visit_caller_eq Let_def unaffordable_def raise_lane_def
        set_lane_zero_eq put_lane_field_comm split: if_splits)
qed

definition visited :: "string list \<Rightarrow> nat \<Rightarrow> nat \<Rightarrow> string set" where
  "visited keys r n = (\<lambda>j. keys ! ((r + j) mod length keys)) ` {..<n}"

lemma visited_all:
  assumes "keys \<noteq> []"
  shows "visited keys r (length keys) = set keys"
proof
  show "visited keys r (length keys) \<subseteq> set keys"
    using assms by (auto simp: visited_def)
  show "set keys \<subseteq> visited keys r (length keys)"
  proof
    fix c assume "c \<in> set keys"
    then obtain i where i: "i < length keys" "c = keys ! i" by (auto simp: in_set_conv_nth)
    let ?n = "length keys"
    have lt: "r mod ?n < ?n" using assms by simp
    let ?j = "(i + (?n - r mod ?n)) mod ?n"
    have "(r + ?j) mod ?n = (r mod ?n + (i + (?n - r mod ?n))) mod ?n"
      by (simp add: mod_simps)
    also have "r mod ?n + (i + (?n - r mod ?n)) = i + ?n"
      using lt by linarith
    finally have "(r + ?j) mod ?n = i" using i by simp
    moreover have "?j < ?n" using assms by simp
    ultimately show "c \<in> visited keys r ?n"
      using i unfolding visited_def by (intro image_eqI [of _ _ ?j]) simp_all
  qed
qed

lemma visited_Suc: "visited keys r (Suc n) = insert (keys ! (r mod length keys)) (visited keys ((r + 1) mod length keys) n)"
proof -
  have "{..<Suc n} = insert 0 (Suc ` {..<n})"
    by (simp add: lessThan_Suc_eq_insert_0)
  then show ?thesis
    by (simp add: visited_def image_image mod_simps)
qed

lemma visited_fresh_key:
  assumes "distinct keys" "Suc n \<le> length keys"
  shows "keys ! (r mod length keys) \<notin> visited keys ((r + 1) mod length keys) n"
proof
  let ?k = "length keys"
  assume "keys ! (r mod ?k) \<in> visited keys ((r + 1) mod ?k) n"
  then obtain j where j: "j < n" "keys ! (r mod ?k) = keys ! (((r + 1) mod ?k + j) mod ?k)"
    by (auto simp: visited_def)
  have k: "0 < ?k" using assms(2) by linarith
  have "r mod ?k = ((r + 1) mod ?k + j) mod ?k"
    using j(2) assms(1) k by (simp add: nth_eq_iff_index_eq)
  then have "r mod ?k = (r + Suc j) mod ?k" by (simp add: mod_simps)
  then have "?k dvd Suc j"
    by (metis add_diff_cancel_left' le_add1 mod_eq_dvd_iff_nat)
  then show False using j(1) assms(2) by (auto dest: dvd_imp_le)
qed

section \<open>A pass that serves nobody\<close>

definition raised_in :: "gq_config \<Rightarrow> string set \<Rightarrow> lane_map \<Rightarrow> lane_map \<Rightarrow> bool" where
  "raised_in cfg V ls ls' \<longleftrightarrow>
     (\<forall>c. map_of ls' c = map_option (\<lambda>l. if c \<in> V then raise_lane cfg l else l) (map_of ls c)) \<and>
     (\<forall>c l. map_of ls c = Some l \<longrightarrow> c \<in> V \<longrightarrow> unaffordable cfg l)"

lemma turned_index [simp]: "sc_rr_index (turned p keys s) p = (sc_rr_index s p + 1) mod length keys"
  by (simp add: turned_def)

lemma queued_turned [simp]: "queued (turned p keys s) = queued s"
  by (simp add: turned_def)

lemma queued_put_same:
  assumes "map_of (sc_lanes s p) c = Some l0" "ln_items l = ln_items l0"
  shows "queued (put_lane p c l s) = queued s"
proof -
  have "queued (put_lane p c l s) + mset (ln_items l0) = queued s + mset (ln_items l0)"
    using queued_put [of p c l s] assms by (simp add: items_at_def)
  then show ?thesis by simp
qed

lemma drr_pass_None:
  assumes ord: "map_order ord" and quantum: "0 \<le> cfg_quantum_tokens cfg" and ne: "keys \<noteq> []"
  shows "\<lbrakk>sched_inv s; all_fresh gone now s; keys = sc_rr_keys s p; tries \<le> length keys;
          drr_pass ord cfg gone now p keys tries s = (None, s', d)\<rbrakk> \<Longrightarrow>
     raised_in cfg (visited keys (sc_rr_index s p) tries) (sc_lanes s p) (sc_lanes s' p) \<and>
     (\<forall>q. q \<noteq> p \<longrightarrow> sc_lanes s' q = sc_lanes s q) \<and> sc_rr_keys s' = sc_rr_keys s \<and>
     queued s' = queued s \<and> d = []"
proof (induction tries arbitrary: s d)
  case 0
  then show ?case
    by (auto simp: raised_in_def visited_def option.map_ident)
next
  case (Suc tries)
  let ?c = "turn_caller p keys s" and ?r = "sc_rr_index s p" and ?n = "length keys"
  have linv: "lanes_inv s" using Suc.prems(1) by (simp add: sched_inv_def)
  obtain s1 d1 d2 where v: "visit_caller ord cfg gone now p keys s = (None, s1, d1)"
    and r: "drr_pass ord cfg gone now p keys tries s1 = (None, s', d2)" and d: "d = d1 @ d2"
    using Suc.prems(5) by (auto split: prod.splits option.splits)
  obtain l where l: "map_of (sc_lanes s p) ?c = Some l" "unaffordable cfg l"
    "s1 = put_lane p ?c (raise_lane cfg l) (turned p keys s)" "d1 = []"
    by (rule visit_fresh_None [OF Suc.prems(1,2) ne Suc.prems(3) v])
  have inv1: "sched_inv s1"
    using visit_sim(1) [OF ord Suc.prems(1) quantum v] by (rule qsim_inv)
  have q1: "queued s1 = queued s"
    using queued_put_same [of "turned p keys s" p ?c l "raise_lane cfg l"] l(1) by (simp add: l(3))
  have fresh1: "all_fresh gone now s1" using Suc.prems(2) by (simp add: all_fresh_def q1)
  have k1: "sc_rr_keys s1 = sc_rr_keys s" by (simp add: l(3))
  have i1: "sc_rr_index s1 p = (?r + 1) mod ?n" by (simp add: l(3))
  have IH: "raised_in cfg (visited keys ((?r + 1) mod ?n) tries) (sc_lanes s1 p) (sc_lanes s' p) \<and>
     (\<forall>q. q \<noteq> p \<longrightarrow> sc_lanes s' q = sc_lanes s1 q) \<and> sc_rr_keys s' = sc_rr_keys s1 \<and>
     queued s' = queued s1 \<and> d2 = []"
    using Suc.IH [OF inv1 fresh1 _ _ r] Suc.prems(3,4) k1 i1 by simp
  have dk: "distinct keys"
    using lane_map_okD(4) [OF lanes_invD [OF linv, of p]] Suc.prems(3) by simp
  have nv: "?c \<notin> visited keys ((?r + 1) mod ?n) tries"
    using visited_fresh_key [OF dk Suc.prems(4)] by (simp add: turn_caller_def)
  have vS: "visited keys ?r (Suc tries) = insert ?c (visited keys ((?r + 1) mod ?n) tries)"
    by (simp add: visited_Suc turn_caller_def)
  have m1: "map_of (sc_lanes s1 p) = (map_of (sc_lanes s p))(?c \<mapsto> raise_lane cfg l)"
    by (simp add: l(3) update_conv')
  have "raised_in cfg (visited keys ?r (Suc tries)) (sc_lanes s p) (sc_lanes s' p)"
    using conjunct1 [OF IH] l(1,2) nv unfolding raised_in_def vS m1
    by (auto simp del: map_of_eq_Some_iff split: if_splits)
  then show ?case using IH l q1 k1 d by auto
qed

lemma full_pass_None:
  assumes ord: "map_order ord" and quantum: "0 \<le> cfg_quantum_tokens cfg"
    and inv: "sched_inv s" and fresh: "all_fresh gone now s"
    and v: "drr_pass ord cfg gone now p (sc_rr_keys s p) (length (sc_rr_keys s p)) s = (None, s', d)"
  shows "raised_in cfg UNIV (sc_lanes s p) (sc_lanes s' p)"
    and "q \<noteq> p \<Longrightarrow> sc_lanes s' q = sc_lanes s q" and "queued s' = queued s"
    and "sc_rr_keys s' = sc_rr_keys s" and "d = []"
proof -
  let ?keys = "sc_rr_keys s p"
  have ok: "lane_map_ok p (sc_lanes s p) ?keys"
    using inv by (simp add: sched_inv_def lanes_invD)
  have "raised_in cfg UNIV (sc_lanes s p) (sc_lanes s' p) \<and> (q \<noteq> p \<longrightarrow> sc_lanes s' q = sc_lanes s q) \<and>
     queued s' = queued s \<and> sc_rr_keys s' = sc_rr_keys s \<and> d = []"
  proof (cases "?keys = []")
    case True
    then have "sc_lanes s p = []" using lane_map_okD(6) [OF ok] by simp
    then show ?thesis using v True by (auto simp: raised_in_def)
  next
    case False
    note n = drr_pass_None [OF ord quantum False inv fresh refl order_refl v]
    have "raised_in cfg (dom (map_of (sc_lanes s p))) (sc_lanes s p) (sc_lanes s' p)"
      using n visited_all [OF False] lane_map_okD(5) [OF ok] by simp
    then have "raised_in cfg UNIV (sc_lanes s p) (sc_lanes s' p)"
      unfolding raised_in_def by (auto simp: domI simp del: map_of_eq_Some_iff intro!: option.map_cong)
    then show ?thesis using n by auto
  qed
  then show "raised_in cfg UNIV (sc_lanes s p) (sc_lanes s' p)"
    and "q \<noteq> p \<Longrightarrow> sc_lanes s' q = sc_lanes s q" and "queued s' = queued s"
    and "sc_rr_keys s' = sc_rr_keys s" and "d = []" by auto
qed

section \<open>PickNext\<close>

lemma pick_priorities_None:
  assumes ord: "map_order ord" and quantum: "0 \<le> cfg_quantum_tokens cfg"
  shows "\<lbrakk>sched_inv s; all_fresh gone now s; distinct ps;
          pick_priorities ord cfg gone now ps s = (None, s', d)\<rbrakk> \<Longrightarrow>
     (\<forall>p \<in> set ps. raised_in cfg UNIV (sc_lanes s p) (sc_lanes s' p)) \<and>
     (\<forall>p. p \<notin> set ps \<longrightarrow> sc_lanes s' p = sc_lanes s p) \<and> queued s' = queued s"
proof (induction ps arbitrary: s d)
  case (Cons p ps)
  obtain s1 d1 d2 where v: "drr_pass ord cfg gone now p (sc_rr_keys s p) (length (sc_rr_keys s p)) s = (None, s1, d1)"
    and r: "pick_priorities ord cfg gone now ps s1 = (None, s', d2)"
    using Cons.prems(4) by (auto split: prod.splits option.splits)
  note f = full_pass_None [OF ord quantum Cons.prems(1,2) v]
  have inv1: "sched_inv s1"
    by (rule qsim_inv [OF conjunct1 [OF drr_pass_sim [OF ord quantum Cons.prems(1) v]]])
  have fresh1: "all_fresh gone now s1" using Cons.prems(2) by (simp add: all_fresh_def f(3))
  have IH: "(\<forall>p \<in> set ps. raised_in cfg UNIV (sc_lanes s1 p) (sc_lanes s' p)) \<and>
     (\<forall>p. p \<notin> set ps \<longrightarrow> sc_lanes s' p = sc_lanes s1 p) \<and> queued s' = queued s1"
    using Cons.IH [OF inv1 fresh1 _ r] Cons.prems(3) by simp
  then show ?case using f Cons.prems(3) by fastforce
qed simp

lemma pick_priorities_Some:
  assumes ord: "map_order ord" and quantum: "0 \<le> cfg_quantum_tokens cfg"
  shows "\<lbrakk>sched_inv s; all_fresh gone now s; distinct ps;
          pick_priorities ord cfg gone now ps s = (Some w, s', d)\<rbrakk> \<Longrightarrow>
     \<exists>as bs. ps = as @ qi_effective w # bs \<and>
       (\<forall>q \<in> set as. \<forall>c l. map_of (sc_lanes s q) c = Some l \<longrightarrow> unaffordable cfg l)"
proof (induction ps arbitrary: s d)
  case (Cons p ps)
  obtain r1 s1 d1 where v: "drr_pass ord cfg gone now p (sc_rr_keys s p) (length (sc_rr_keys s p)) s = (r1, s1, d1)"
    using prod_cases3 by blast
  note sim = drr_pass_sim [OF ord quantum Cons.prems(1) v]
  show ?case
  proof (cases r1)
    case (Some w')
    then show ?thesis using Cons.prems(4) v sim by (intro exI [of _ "[]"] exI [of _ ps]) auto
  next
    case None
    note v = v [unfolded None]
    note f = full_pass_None [OF ord quantum Cons.prems(1,2) v]
    have inv1: "sched_inv s1" using sim by (blast intro: qsim_inv)
    have fresh1: "all_fresh gone now s1" using Cons.prems(2) by (simp add: all_fresh_def f(3))
    obtain d2 where r: "pick_priorities ord cfg gone now ps s1 = (Some w, s', d2)"
      using Cons.prems(4) v by (auto split: prod.splits)
    obtain as bs where ab: "ps = as @ qi_effective w # bs"
      "\<forall>q \<in> set as. \<forall>c l. map_of (sc_lanes s1 q) c = Some l \<longrightarrow> unaffordable cfg l"
      using Cons.IH [OF inv1 fresh1 _ r] Cons.prems(3) by auto
    have pun: "unaffordable cfg l" if "map_of (sc_lanes s p) c = Some l" for c l
      using f(1) that by (simp add: raised_in_def del: map_of_eq_Some_iff)
    have "unaffordable cfg l" if "q \<in> set (p # as)" "map_of (sc_lanes s q) c = Some l" for q c l
    proof (cases "q = p")
      case True
      then show ?thesis using pun that(2) by simp
    next
      case False
      then show ?thesis using f(2) [OF False] that ab(2) by (simp del: map_of_eq_Some_iff)
    qed
    then show ?thesis using ab(1)
      by (intro exI [of _ "p # as"] exI [of _ bs]) (simp del: map_of_eq_Some_iff)
  qed
qed simp

text \<open>Without due items, aging changes nothing but the count of map iterations.\<close>

lemma age_lane_not_due:
  assumes "sched_inv s" "none_due cfg now s"
  shows "age_lane ord cfg now p c s = s"
proof (cases "map_of (sc_lanes s p) c")
  case (Some l)
  have ok: "lane_ok p c l" by (rule sched_inv_lane [OF assms(1) Some])
  then obtain h rest where its: "ln_items l = h # rest"
    by (cases "ln_items l") (auto simp: lane_ok_def)
  have "qi_effective h = p" "\<not> due cfg now (qi_effective h) h"
    using ok its assms(2) lane_in_queued [OF Some, of h] by (auto simp: lane_ok_def none_due_def)
  then show ?thesis using Some its by (auto simp: age_lane_def due_def Let_def)
qed (simp add: age_lane_def)

lemma fold_age_not_due:
  "\<lbrakk>sched_inv s; none_due cfg now s\<rbrakk> \<Longrightarrow> fold (age_lane ord cfg now p) cs s = s"
  by (induction cs) (simp_all add: age_lane_not_due)

lemma none_due_iters [simp]: "none_due cfg now (s\<lparr>sc_iters := k\<rparr>) = none_due cfg now s"
  by (simp add: none_due_def)

lemma apply_aging_not_due:
  assumes "sched_inv s" "none_due cfg now s"
  shows "\<exists>k. apply_aging ord cfg now s = s\<lparr>sc_iters := k\<rparr>"
proof -
  have "age_priority ord cfg now p t = t\<lparr>sc_iters := sc_iters t + 1\<rparr>"
    if "sched_inv t" "none_due cfg now t" for p t
    using that by (simp add: age_priority_def fold_age_not_due)
  then show ?thesis using assms by (auto simp: apply_aging_def)
qed

lemma pick_next_None:
  assumes ord: "map_order ord" and quantum: "0 \<le> cfg_quantum_tokens cfg"
    and inv: "sched_inv s" and fresh: "all_fresh gone now s" and due: "none_due cfg now s"
    and v: "pick_next ord cfg gone now s = (None, s', d)"
  shows "raised_in cfg UNIV (sc_lanes s p) (sc_lanes s' p)" and "queued s' = queued s"
proof -
  obtain k where a: "apply_aging ord cfg now s = s\<lparr>sc_iters := k\<rparr>"
    using apply_aging_not_due [OF inv due] by blast
  have "pick_priorities ord cfg gone now all_priorities (s\<lparr>sc_iters := k\<rparr>) = (None, s', d)"
    using v by (simp add: pick_next_def a)
  from pick_priorities_None [OF ord quantum _ _ _ this] inv fresh
  show "raised_in cfg UNIV (sc_lanes s p) (sc_lanes s' p)" and "queued s' = queued s"
    by (simp_all add: all_fresh_def, simp_all add: all_priorities_def)
qed

section \<open>Repeated calls\<close>

text \<open>Calls of \<open>PickNext\<close> at the given times until one returns an item.\<close>

fun pick_until ::
  "iter_order \<Rightarrow> gq_config \<Rightarrow> (string \<Rightarrow> bool) \<Rightarrow> time list \<Rightarrow> scheduler \<Rightarrow> queue_item option \<times> scheduler"
where
  "pick_until ord cfg gone [] s = (None, s)"
| "pick_until ord cfg gone (now # ts) s =
     (case pick_next ord cfg gone now s of
        (Some w, s', _) \<Rightarrow> (Some w, s')
      | (None, s', _) \<Rightarrow> pick_until ord cfg gone ts s')"

lemma pick_until_None:
  assumes ord: "map_order ord" and quantum: "0 \<le> cfg_quantum_tokens cfg"
  shows "\<lbrakk>sched_inv s; \<forall>now \<in> set ts. all_fresh gone now s \<and> none_due cfg now s;
          pick_until ord cfg gone ts s = (None, s'); map_of (sc_lanes s p) c = Some l; ts \<noteq> []\<rbrakk> \<Longrightarrow>
     ln_deficit l + int (length ts) * cfg_quantum_tokens cfg < qi_tokens (hd (ln_items l))"
proof (induction ts arbitrary: s l)
  case (Cons now ts)
  obtain s1 d1 where v: "pick_next ord cfg gone now s = (None, s1, d1)"
    and r: "pick_until ord cfg gone ts s1 = (None, s')"
    using Cons.prems(3) by (auto split: prod.splits option.splits)
  have fd: "all_fresh gone now s" "none_due cfg now s" using Cons.prems(2) by simp_all
  note f = pick_next_None [OF ord quantum Cons.prems(1) fd v]
  have inv1: "sched_inv s1"
    by (rule qsim_inv [OF pick_next_sim [OF ord quantum Cons.prems(1) v]])
  have un: "unaffordable cfg l" and l1: "map_of (sc_lanes s1 p) c = Some (raise_lane cfg l)"
    using f(1) [of p] Cons.prems(4) by (simp_all add: raised_in_def del: map_of_eq_Some_iff)
  have fresh1: "\<forall>now \<in> set ts. all_fresh gone now s1 \<and> none_due cfg now s1"
    using Cons.prems(2) by (simp add: all_fresh_def none_due_def f(2))
  show ?case
  proof (cases "ts = []")
    case True
    then show ?thesis using un by (simp add: unaffordable_def)
  next
    case False
    from Cons.IH [OF inv1 fresh1 r l1 False] show ?thesis by (simp add: algebra_simps)
  qed
qed simp

end
