(* ===== verification/GqStats.thy ===== *)
theory GqStats
  imports GqItem "HOL-Library.Signed_Division"
begin

text \<open>
  \<open>internal/gq/stats.go\<close>: rolling wait-time windows, quantiles and counters.  Go's integer
  division truncates towards zero and is \<open>sdiv\<close>.  The counters are unbounded here; the
  source keeps them in 64-bit atomics.
\<close>

section \<open>Rolling windows\<close>

record window_entry =
  we_ts :: time
  we_value :: int

record rolling_window =
  rw_entries :: "window_entry list"
  rw_size :: duration

definition new_rolling_window :: "duration \<Rightarrow> rolling_window" where
  "new_rolling_window sz = \<lparr>rw_entries = [], rw_size = sz\<rparr>"

definition window_add :: "time \<Rightarrow> duration \<Rightarrow> rolling_window \<Rightarrow> rolling_window" where
  "window_add now d w = w\<lparr>rw_entries := rw_entries w @ [\<lparr>we_ts = now, we_value = d sdiv 1000000\<rparr>]\<rparr>"

definition window_values :: "time \<Rightarrow> rolling_window \<Rightarrow> int list \<times> rolling_window" where
  "window_values now w =
     (let cutoff = now + (- rw_size w);
          kept = dropWhile (\<lambda>e. we_ts e < cutoff) (rw_entries w) in
      (map we_value kept, w\<lparr>rw_entries := kept\<rparr>))"

definition percentile_index :: "int \<Rightarrow> int \<Rightarrow> int" where
  "percentile_index n pct =
     (let idx = (n * pct + 99) sdiv 100 - 1;
          idx = (if idx < 0 then 0 else idx) in
      if n \<le> idx then n - 1 else idx)"

section \<open>The tracker\<close>

record gq_stats =
  gs_windows :: "priority \<Rightarrow> rolling_window"
  gs_completed :: int
  gs_failed :: int
  gs_cancelled :: int
  gs_timeout :: int
  gs_enqueued :: "priority \<Rightarrow> int"
  gs_tokens_in :: int
  gs_tokens_out :: int
  gs_avg_upstream_ms :: int
  gs_dispatch_count :: int

definition new_stats :: "duration \<Rightarrow> gq_stats" where
  "new_stats window =
     \<lparr>gs_windows = (\<lambda>_. new_rolling_window window), gs_completed = 0, gs_failed = 0, gs_cancelled = 0,
      gs_timeout = 0, gs_enqueued = (\<lambda>_. 0), gs_tokens_in = 0, gs_tokens_out = 0,
      gs_avg_upstream_ms = 0, gs_dispatch_count = 0\<rparr>"

definition record_enqueue :: "priority \<Rightarrow> gq_stats \<Rightarrow> gq_stats" where
  "record_enqueue p s = s\<lparr>gs_enqueued := (gs_enqueued s)(p := gs_enqueued s p + 1)\<rparr>"

definition record_wait :: "time \<Rightarrow> priority \<Rightarrow> duration \<Rightarrow> gq_stats \<Rightarrow> gq_stats" where
  "record_wait now p d s = s\<lparr>gs_windows := (gs_windows s)(p := window_add now d (gs_windows s p))\<rparr>"

definition record_dispatch :: "bool \<Rightarrow> int \<Rightarrow> int \<Rightarrow> int \<Rightarrow> gq_stats \<Rightarrow> gq_stats" where
  "record_dispatch ok upstream_ms tokens_in tokens_out s =
     (let s1 = (if ok then s\<lparr>gs_completed := gs_completed s + 1\<rparr>
                else s\<lparr>gs_failed := gs_failed s + 1\<rparr>);
          s2 = s1\<lparr>gs_tokens_in := gs_tokens_in s1 + tokens_in,
                  gs_tokens_out := gs_tokens_out s1 + tokens_out,
                  gs_dispatch_count := gs_dispatch_count s1 + 1\<rparr> in
      s2\<lparr>gs_avg_upstream_ms :=
          (if gs_dispatch_count s2 = 1 then upstream_ms
           else gs_avg_upstream_ms s2 + (upstream_ms - gs_avg_upstream_ms s2) sdiv 10)\<rparr>)"

definition record_cancel :: "gq_stats \<Rightarrow> gq_stats" where
  "record_cancel s = s\<lparr>gs_cancelled := gs_cancelled s + 1\<rparr>"

definition record_timeout :: "gq_stats \<Rightarrow> gq_stats" where
  "record_timeout s = s\<lparr>gs_timeout := gs_timeout s + 1\<rparr>"

record wait_quantiles =
  wq_p50 :: int
  wq_p90 :: int
  wq_p99 :: int
  wq_count :: int

definition no_quantiles :: wait_quantiles where
  "no_quantiles = \<lparr>wq_p50 = 0, wq_p90 = 0, wq_p99 = 0, wq_count = 0\<rparr>"

definition get_wait_quantiles :: "time \<Rightarrow> priority \<Rightarrow> gq_stats \<Rightarrow> wait_quantiles \<times> gq_stats" where
  "get_wait_quantiles now p s =
     (let (values, w) = window_values now (gs_windows s p);
          s' = s\<lparr>gs_windows := (gs_windows s)(p := w)\<rparr>;
          n = int (length values) in
      if values = [] then (no_quantiles, s')
      else (let sorted = sort values in
            (\<lparr>wq_p50 = sorted ! nat (percentile_index n 50),
              wq_p90 = sorted ! nat (percentile_index n 90),
              wq_p99 = sorted ! nat (percentile_index n 99), wq_count = n\<rparr>, s')))"

record dispatch_totals =
  dt_completed :: int
  dt_failed :: int
  dt_cancelled :: int
  dt_queue_timeout :: int
  dt_avg_upstream_ms :: int
  dt_tokens_in :: int
  dt_tokens_out :: int

definition get_dispatch_totals :: "gq_stats \<Rightarrow> dispatch_totals" where
  "get_dispatch_totals s =
     \<lparr>dt_completed = gs_completed s, dt_failed = gs_failed s, dt_cancelled = gs_cancelled s,
      dt_queue_timeout = gs_timeout s, dt_avg_upstream_ms = gs_avg_upstream_ms s,
      dt_tokens_in = gs_tokens_in s, dt_tokens_out = gs_tokens_out s\<rparr>"

section \<open>Windows against the full history\<close>

text \<open>A window forgets entries when it is read.  The reference keeps every entry ever added
  and filters when it is read.\<close>

datatype window_op = WAdd time duration | WRead time

fun op_time :: "window_op \<Rightarrow> time" where
  "op_time (WAdd t d) = t"
| "op_time (WRead t) = t"

fun window_outputs :: "window_op list \<Rightarrow> rolling_window \<Rightarrow> int list list" where
  "window_outputs [] w = []"
| "window_outputs (WAdd t d # ops) w = window_outputs ops (window_add t d w)"
| "window_outputs (WRead t # ops) w =
     (let (vs, w') = window_values t w in vs # window_outputs ops w')"

fun history_outputs :: "duration \<Rightarrow> window_op list \<Rightarrow> (time \<times> int) list \<Rightarrow> int list list" where
  "history_outputs sz [] h = []"
| "history_outputs sz (WAdd t d # ops) h = history_outputs sz ops (h @ [(t, d sdiv 1000000)])"
| "history_outputs sz (WRead t # ops) h =
     map snd (filter (\<lambda>e. t - sz \<le> fst e) h) # history_outputs sz ops h"

abbreviation entries_of :: "(time \<times> int) list \<Rightarrow> window_entry list" where
  "entries_of \<equiv> map (\<lambda>e. \<lparr>we_ts = fst e, we_value = snd e\<rparr>)"

lemma dropWhile_sorted_filter:
  "sorted (map f xs) \<Longrightarrow> dropWhile (\<lambda>x. f x < (c::int)) xs = filter (\<lambda>x. c \<le> f x) xs"
proof (induction xs)
  case (Cons x xs)
  show ?case
  proof (cases "f x < c")
    case False
    then have "filter (\<lambda>x. c \<le> f x) (x # xs) = x # xs"
      using Cons.prems by (subst filter_id_conv) auto
    then show ?thesis using False by simp
  qed (use Cons in auto)
qed simp

lemma window_history:
  assumes "sorted (map op_time ops)" "sorted (map fst h)"
    "\<forall>op \<in> set ops. \<forall>e \<in> set h. fst e \<le> op_time op"
    "\<forall>op \<in> set ops. c \<le> op_time op - rw_size w"
    "rw_entries w = entries_of (filter (\<lambda>e. c \<le> fst e) h)" "0 \<le> rw_size w"
  shows "window_outputs ops w = history_outputs (rw_size w) ops h"
  using assms
proof (induction ops arbitrary: w h c)
  case (Cons op ops)
  show ?case
  proof (cases op)
    case (WAdd t d)
    let ?w = "window_add t d w" and ?h = "h @ [(t, d sdiv 1000000)]"
    have ct: "c \<le> t" using Cons.prems(4,6) WAdd by auto
    have "window_outputs ops ?w = history_outputs (rw_size ?w) ops ?h"
    proof (rule Cons.IH)
      show "sorted (map fst ?h)" using Cons.prems(2,3) WAdd by (auto simp: sorted_append)
      show "\<forall>op \<in> set ops. \<forall>e \<in> set ?h. fst e \<le> op_time op" using Cons.prems(1,3) WAdd by auto
      show "rw_entries ?w = entries_of (filter (\<lambda>e. c \<le> fst e) ?h)"
        using Cons.prems(5) ct by (simp add: window_add_def)
    qed (use Cons.prems in \<open>auto simp: window_add_def\<close>)
    then show ?thesis using WAdd by (simp add: window_add_def)
  next
    case (WRead t)
    let ?c = "t - rw_size w"
    have cc: "c \<le> ?c" using Cons.prems(4) WRead by auto
    have srt: "sorted (map we_ts (rw_entries w))"
    proof -
      have "map we_ts (rw_entries w) = map fst (filter (\<lambda>e. c \<le> fst e) h)"
        by (simp add: Cons.prems(5) comp_def)
      then show ?thesis using Cons.prems(2) by (simp add: sorted_filter)
    qed
    have flt: "filter (\<lambda>e. ?c \<le> we_ts e) (rw_entries w) = entries_of (filter (\<lambda>e. ?c \<le> fst e) h)"
    proof -
      have "filter (\<lambda>e. ?c \<le> fst e) (filter (\<lambda>e. c \<le> fst e) h) = filter (\<lambda>e. ?c \<le> fst e) h"
        using cc by (auto simp: conj_commute intro!: filter_cong)
      then show ?thesis by (simp add: Cons.prems(5) filter_map comp_def)
    qed
    have wv: "window_values t w =
        (map snd (filter (\<lambda>e. ?c \<le> fst e) h), w\<lparr>rw_entries := entries_of (filter (\<lambda>e. ?c \<le> fst e) h)\<rparr>)"
      using dropWhile_sorted_filter [OF srt, of ?c] flt
      by (simp add: window_values_def Let_def comp_def)
    have "window_outputs ops (w\<lparr>rw_entries := entries_of (filter (\<lambda>e. ?c \<le> fst e) h)\<rparr>)
        = history_outputs (rw_size w) ops h"
      using Cons.IH [of h ?c "w\<lparr>rw_entries := entries_of (filter (\<lambda>e. ?c \<le> fst e) h)\<rparr>"]
        Cons.prems WRead by auto
    then show ?thesis using WRead wv by simp
  qed
qed simp

section \<open>Quantiles\<close>

lemma percentile_index_nearest:
  assumes "0 < n" "0 < pct" "pct \<le> 100"
  shows "0 \<le> percentile_index n pct" "percentile_index n pct < n"
    "100 * percentile_index n pct < n * pct" "n * pct \<le> 100 * (percentile_index n pct + 1)"
proof -
  define m where "m = n * pct"
  define q where "q = (m + 99) div 100"
  have m: "0 < m" "m \<le> n * 100" using assms by (auto simp: m_def)
  have qd: "100 * q \<le> m + 99 \<and> m \<le> 100 * q"
  proof -
    have "m + 99 = 100 * q + (m + 99) mod 100" by (simp add: q_def)
    moreover have "0 \<le> (m + 99) mod 100" "(m + 99) mod 100 < 100" by simp_all
    ultimately show ?thesis by linarith
  qed
  have qn: "q \<le> n" "1 \<le> q" using qd m by linarith+
  have "(m + 99) sdiv 100 = q" using m by (simp add: signed_divide_int_def q_def)
  then have idx: "percentile_index n pct = q - 1"
    using qn by (simp add: percentile_index_def Let_def m_def)
  show "0 \<le> percentile_index n pct" "percentile_index n pct < n" using idx qn by simp_all
  show "100 * percentile_index n pct < n * pct" "n * pct \<le> 100 * (percentile_index n pct + 1)"
    unfolding idx m_def [symmetric] using qd by simp_all
qed

lemma percentile_index_mono:
  assumes "0 < n" "0 < p" "p \<le> q" "q \<le> 100"
  shows "percentile_index n p \<le> percentile_index n q"
proof -
  have "n * p \<le> n * q" using assms by simp
  then have "100 * percentile_index n p < 100 * (percentile_index n q + 1)"
    using percentile_index_nearest(3) [of n p] percentile_index_nearest(4) [of n q] assms
    by (meson le_less_trans less_le_trans order_trans zero_less_one)
  then show ?thesis by simp
qed

lemma sorted_rank:
  assumes "sorted xs" "i < length xs"
  shows "length (filter (\<lambda>x. x < xs ! i) xs) \<le> i" "i + 1 \<le> length (filter (\<lambda>x. x \<le> xs ! i) xs)"
proof -
  have split: "xs = take i xs @ drop i xs" by simp
  have d: "filter (\<lambda>x. x < xs ! i) (drop i xs) = []"
    using assms by (auto simp: filter_empty_conv in_set_conv_nth not_less intro!: sorted_nth_mono)
  have "length (filter (\<lambda>x. x < xs ! i) xs) = length (filter (\<lambda>x. x < xs ! i) (take i xs))"
    using d by (metis append_Nil2 filter_append split)
  also have "\<dots> \<le> length (take i xs)" by (rule length_filter_le)
  finally show "length (filter (\<lambda>x. x < xs ! i) xs) \<le> i" using assms(2) by simp
  have t: "filter (\<lambda>x. x \<le> xs ! i) (take (i + 1) xs) = take (i + 1) xs"
    using assms by (auto simp: filter_id_conv in_set_conv_nth intro!: sorted_nth_mono)
  have "length (take (i + 1) xs) \<le> length (filter (\<lambda>x. x \<le> xs ! i) xs)"
    using t by (metis append_take_drop_id filter_append le_add1 length_append)
  then show "i + 1 \<le> length (filter (\<lambda>x. x \<le> xs ! i) xs)" using assms(2) by simp
qed

end
