(* ===== verification/GqServer.thy ===== *)
theory GqServer
  imports GqBreaker GqFair GqStats
begin

text \<open>
  \<open>internal/gq/handler.go\<close>, \<open>internal/gq/dispatch.go\<close> and the wiring of \<open>cmd/gq/main.go\<close>:
  one scheduler, one breaker and one statistics tracker shared by the HTTP handler and the
  dispatcher.

  The handler's wait for \<open>item.Done\<close> and the goroutines of the dispatcher become a step
  relation on a \<open>world\<close>.  A dispatch is split where it blocks, at the upstream request:
  \<open>dispatch_start\<close> runs up to the request and \<open>dispatch_finish\<close> after its result is known.
  What the upstream server answers is a parameter of the step; \<open>stream_of\<close> is the decoding of
  the \<open>stream\<close> flag by \<open>encoding/json\<close>, \<open>rate_ok\<close> the outcome of the floating point rate
  limiter.
\<close>

section \<open>Handler\<close>

definition max_body_size :: nat where
  "max_body_size = 2 * 1024 * 1024"

record http_request =
  rq_method :: string
  rq_path :: string
  rq_caller :: string
  rq_priority :: string
  rq_body :: "string option"

record gq_state =
  gq_sched :: scheduler
  gq_breaker :: breaker
  gq_stats :: gq_stats

datatype serve_result =
    ProxyModels
  | Respond int string
  | Accepted queue_item

text \<open>\<open>ServeHTTP\<close> up to the wait for the item.  \<open>now_b\<close> is the clock reading of the breaker and
  \<open>now_q\<close> the one for the deadline and the enqueue time.  \<open>rq_body = None\<close>: the body cannot be
  read.\<close>

definition request_caller :: "http_request \<Rightarrow> string" where
  "request_caller rq = (if rq_caller rq = [] then ''unknown'' else rq_caller rq)"

definition request_priority :: "gq_config \<Rightarrow> http_request \<Rightarrow> priority" where
  "request_priority cfg rq =
     (if rq_priority rq \<noteq> [] then parse_priority (rq_priority rq)
      else default_priority_for cfg (request_caller rq))"

definition serve_http ::
  "iter_order \<Rightarrow> gq_config \<Rightarrow> bool \<Rightarrow> (string \<Rightarrow> bool) \<Rightarrow> string \<Rightarrow> time \<Rightarrow> time \<Rightarrow> http_request \<Rightarrow>
   gq_state \<Rightarrow> serve_result \<times> gq_state" where
  "serve_http ord cfg rate_ok stream_of uid now_b now_q rq g =
     (if rq_method rq = ''GET'' \<and> rq_path rq = ''/v1/models'' then (ProxyModels, g)
      else if rq_method rq \<noteq> ''POST'' then (Respond 405 ''method_not_allowed'', g)
      else if rq_path rq \<noteq> ''/v1/chat/completions'' then (Respond 404 ''not_found'', g)
      else
        (let caller = request_caller rq; p = request_priority cfg rq in
         if \<not> rate_ok then (Respond 429 ''rate_limited'', g)
         else
           (let (ok, b) = allow now_b (gq_breaker g); g1 = g\<lparr>gq_breaker := b\<rparr> in
            if \<not> ok then (Respond 503 ''upstream_unavailable'', g1)
            else
              (case map_option (take (max_body_size + 1)) (rq_body rq) of
                 None \<Rightarrow> (Respond 400 ''read_error'', g1)
               | Some body \<Rightarrow>
                   (if max_body_size < length body then (Respond 413 ''body_too_large'', g1)
                    else
                      (let deadline = now_q + lane_timeout cfg p;
                           item = new_queue_item uid now_q caller p body (stream_of body) deadline in
                       case enqueue ord cfg item (gq_sched g1) of
                         Inl e \<Rightarrow> (Respond 503 ''queue_full'', g1)
                       | Inr s \<Rightarrow> (Accepted item,
                           g1\<lparr>gq_sched := s, gq_stats := record_enqueue p (gq_stats g1)\<rparr>)))))))"

text \<open>The wait: either \<open>item.Done\<close> is closed, and the handler answers 504 when the item timed out
  in the queue, or the caller disconnects.\<close>

definition handler_wait :: "queue_item option \<Rightarrow> gq_state \<Rightarrow> int option \<times> gq_state" where
  "handler_wait signal g =
     (case signal of
        Some it \<Rightarrow> (if qi_err it \<noteq> None \<and> qi_status it = 504 then Some 504 else None, g)
      | None \<Rightarrow> (None, g\<lparr>gq_stats := record_cancel (gq_stats g)\<rparr>))"

section \<open>Dispatcher\<close>

datatype stream_end = StreamDone "string list" | StreamWriteError | NoFlusher

datatype upstream_result =
    RequestBuildFailed string
  | UpstreamFailed string
  | UpstreamReply int stream_end duration

text \<open>The bytes counted by the scanner loop of \<open>streamResponse\<close>, which stops after the line
  \<open>data: [DONE]\<close>.\<close>

fun stream_bytes :: "string list \<Rightarrow> int" where
  "stream_bytes [] = 0"
| "stream_bytes (line # lines) =
     int (length line) + (if has_prefix ''data: [DONE]'' line then 0 else stream_bytes lines)"

text \<open>What a dispatch did to its item: the item, the channels it closed (by generation) and
  the status written to the caller.\<close>

record dispatch_result =
  dr_item :: queue_item
  dr_closed :: "nat list"
  dr_written :: "int option"

text \<open>\<open>dispatch\<close> up to the upstream request: \<open>Inr\<close> carries the item whose request is sent.
  The deferred \<open>close(item.Done)\<close> has its argument evaluated here.\<close>

definition dispatch_start ::
  "(string \<Rightarrow> bool) \<Rightarrow> time \<Rightarrow> time \<Rightarrow> queue_item \<Rightarrow> gq_state \<Rightarrow>
   (dispatch_result + queue_item) \<times> gq_state" where
  "dispatch_start gone now_b start it g =
     (let g1 = g\<lparr>gq_stats := record_wait start (qi_priority it) (start - qi_enqueued_at it) (gq_stats g)\<rparr> in
      if gone (qi_id it)
      then (Inl \<lparr>dr_item = it, dr_closed = [qi_done it], dr_written = None\<rparr>,
            g1\<lparr>gq_stats := record_cancel (gq_stats g1)\<rparr>)
      else
        (let (ok, b) = allow now_b (gq_breaker g1); g2 = g1\<lparr>gq_breaker := b\<rparr> in
         if \<not> ok
         then (Inl \<lparr>dr_item = it\<lparr>qi_err := Some BreakerOpenErr, qi_status := 503\<rparr>,
                    dr_closed = [qi_done it], dr_written = Some 503\<rparr>, g2)
         else (Inr it, g2)))"

text \<open>The rest of \<open>dispatch\<close>.  On the first 429 the item gets a new channel and is requeued,
  and the deferred close closes the old one.\<close>

definition dispatch_finish ::
  "iter_order \<Rightarrow> time \<Rightarrow> upstream_result \<Rightarrow> queue_item \<Rightarrow> gq_state \<Rightarrow> dispatch_result \<times> gq_state" where
  "dispatch_finish ord now_b res it g =
     (let chans = [qi_done it] in
      case res of
        RequestBuildFailed e \<Rightarrow>
          (\<lparr>dr_item = it\<lparr>qi_err := Some (RequestErr e), qi_status := 500\<rparr>, dr_closed = chans,
            dr_written = Some 500\<rparr>,
           g\<lparr>gq_breaker := record_failure now_b (gq_breaker g),
             gq_stats := record_dispatch False 0 0 0 (gq_stats g)\<rparr>)
      | UpstreamFailed e \<Rightarrow>
          (\<lparr>dr_item = it\<lparr>qi_err := Some (UpstreamErr e), qi_status := 502\<rparr>, dr_closed = chans,
            dr_written = Some 502\<rparr>,
           g\<lparr>gq_breaker := record_failure now_b (gq_breaker g),
             gq_stats := record_dispatch False 0 0 0 (gq_stats g)\<rparr>)
      | UpstreamReply status stream dur \<Rightarrow>
          (if status = 429 \<and> \<not> qi_requeued it then
             (let it' = it\<lparr>qi_requeued := True, qi_done := qi_done it + 1\<rparr> in
              (\<lparr>dr_item = it', dr_closed = chans, dr_written = None\<rparr>,
               g\<lparr>gq_sched := requeue_at_head ord it' (gq_sched g)\<rparr>))
           else
             (let b = (if 500 \<le> status then record_failure now_b (gq_breaker g)
                       else record_success (gq_breaker g));
                  g1 = g\<lparr>gq_breaker := b\<rparr>;
                  done_item = it\<lparr>qi_status := status\<rparr>;
                  ms = dur sdiv 1000000 in
              if qi_stream it \<and> status = 200 then
                (case stream of
                   NoFlusher \<Rightarrow> (\<lparr>dr_item = it, dr_closed = chans, dr_written = Some status\<rparr>, g1)
                 | StreamWriteError \<Rightarrow> (\<lparr>dr_item = it, dr_closed = chans, dr_written = Some status\<rparr>, g1)
                 | StreamDone lines \<Rightarrow>
                     (\<lparr>dr_item = done_item, dr_closed = chans, dr_written = Some status\<rparr>,
                      g1\<lparr>gq_stats := record_dispatch True ms (qi_tokens it) (stream_bytes lines sdiv 4)
                           (gq_stats g1)\<rparr>))
              else
                (\<lparr>dr_item = done_item, dr_closed = chans, dr_written = Some status\<rparr>,
                 g1\<lparr>gq_stats := record_dispatch (status < 400) ms (qi_tokens it) 0 (gq_stats g1)\<rparr>))))"

section \<open>The running proxy\<close>

text \<open>\<open>w_picked\<close> are the items handed to a dispatch goroutine that has not started yet,
  \<open>w_running\<close> those waiting for the upstream server.  \<open>w_accepted\<close> are the identifiers the
  handler enqueued and waits for, \<open>w_woken\<close> those whose handler's channel (generation 0) was
  closed, and \<open>w_finished\<close> those dispatched to the end or dropped by the scheduler.\<close>

record world =
  w_gq :: gq_state
  w_picked :: "queue_item list"
  w_running :: "queue_item list"
  w_accepted :: "string list"
  w_woken :: "string list"
  w_finished :: "string list"

definition wake_ids :: "queue_item \<Rightarrow> nat list \<Rightarrow> string list" where
  "wake_ids it chans = (if 0 \<in> set chans then [qi_id it] else [])"

definition initial_world :: "gq_config \<Rightarrow> world" where
  "initial_world cfg =
     \<lparr>w_gq = \<lparr>gq_sched = new_scheduler cfg, gq_breaker = new_breaker (cfg_upstream_breaker cfg),
              gq_stats = new_stats (st_window (cfg_stats cfg))\<rparr>,
      w_picked = [], w_running = [], w_accepted = [], w_woken = [], w_finished = []\<rparr>"

text \<open>A request arrives.\<close>

definition step_serve ::
  "iter_order \<Rightarrow> gq_config \<Rightarrow> bool \<Rightarrow> (string \<Rightarrow> bool) \<Rightarrow> string \<Rightarrow> time \<Rightarrow> time \<Rightarrow> http_request \<Rightarrow>
   world \<Rightarrow> world" where
  "step_serve ord cfg rate_ok stream_of uid now_b now_q rq w =
     (case serve_http ord cfg rate_ok stream_of uid now_b now_q rq (w_gq w) of
        (Accepted it, g) \<Rightarrow> w\<lparr>w_gq := g, w_accepted := qi_id it # w_accepted w\<rparr>
      | (_, g) \<Rightarrow> w\<lparr>w_gq := g\<rparr>)"

text \<open>One round of the inner loop of \<open>Run\<close>: acquire a slot without blocking, pick, and hand the
  item to a goroutine or release the slot.  \<open>None\<close>: there is no slot, or the release blocks.\<close>

definition step_pick ::
  "iter_order \<Rightarrow> gq_config \<Rightarrow> (string \<Rightarrow> bool) \<Rightarrow> time \<Rightarrow> world \<Rightarrow> world option" where
  "step_pick ord cfg gone now w =
     (case acquire_slot (gq_sched (w_gq w)) of
        None \<Rightarrow> None
      | Some s \<Rightarrow>
          (case pick_next ord cfg gone now s of
             (Some it, s', dropped) \<Rightarrow>
               Some (w\<lparr>w_gq := (w_gq w)\<lparr>gq_sched := s'\<rparr>, w_picked := it # w_picked w,
                       w_woken := concat (map (\<lambda>d. wake_ids d [qi_done d]) dropped) @ w_woken w,
                       w_finished := map qi_id dropped @ w_finished w\<rparr>)
           | (None, s', dropped) \<Rightarrow>
               (case release_slot cfg s' of
                  None \<Rightarrow> None
                | Some s'' \<Rightarrow>
                    Some (w\<lparr>w_gq := (w_gq w)\<lparr>gq_sched := s''\<rparr>,
                            w_woken := concat (map (\<lambda>d. wake_ids d [qi_done d]) dropped) @ w_woken w,
                            w_finished := map qi_id dropped @ w_finished w\<rparr>))))"

text \<open>A dispatch goroutine starts with the picked item \<open>it\<close>.\<close>

definition step_start ::
  "gq_config \<Rightarrow> (string \<Rightarrow> bool) \<Rightarrow> time \<Rightarrow> time \<Rightarrow> queue_item \<Rightarrow> world \<Rightarrow> world option" where
  "step_start cfg gone now_b start it w =
     (if it \<notin> set (w_picked w) then None
      else
        (case dispatch_start gone now_b start it (w_gq w) of
           (Inr it', g) \<Rightarrow>
             Some (w\<lparr>w_gq := g, w_picked := remove1 it (w_picked w), w_running := it' # w_running w\<rparr>)
         | (Inl r, g) \<Rightarrow>
             (case release_slot cfg (gq_sched g) of
                None \<Rightarrow> None
              | Some s \<Rightarrow>
                  Some (w\<lparr>w_gq := g\<lparr>gq_sched := s\<rparr>, w_picked := remove1 it (w_picked w),
                          w_woken := wake_ids it (dr_closed r) @ w_woken w,
                          w_finished := qi_id it # w_finished w\<rparr>))))"

text \<open>The upstream server answers the request of a running item.\<close>

definition step_finish ::
  "iter_order \<Rightarrow> gq_config \<Rightarrow> time \<Rightarrow> upstream_result \<Rightarrow> queue_item \<Rightarrow> world \<Rightarrow> world option" where
  "step_finish ord cfg now_b res it w =
     (if it \<notin> set (w_running w) then None
      else
        (let (r, g) = dispatch_finish ord now_b res it (w_gq w) in
         case release_slot cfg (gq_sched g) of
           None \<Rightarrow> None
         | Some s \<Rightarrow>
             Some (w\<lparr>w_gq := g\<lparr>gq_sched := s\<rparr>, w_running := remove1 it (w_running w),
                     w_woken := wake_ids it (dr_closed r) @ w_woken w,
                     w_finished := (if qi_done (dr_item r) = qi_done it then qi_id it # w_finished w
                                    else w_finished w)\<rparr>)))"

inductive gq_step :: "gq_config \<Rightarrow> world \<Rightarrow> world \<Rightarrow> bool" for cfg where
  serve: "map_order ord \<Longrightarrow>
     gq_step cfg w (step_serve ord cfg rate_ok stream_of uid now_b now_q rq w)"
| pick: "\<lbrakk>map_order ord; step_pick ord cfg gone now w = Some w'\<rbrakk> \<Longrightarrow> gq_step cfg w w'"
| start: "step_start cfg gone now_b start it w = Some w' \<Longrightarrow> gq_step cfg w w'"
| wait: "gq_step cfg w (w\<lparr>w_gq := snd (handler_wait signal (w_gq w))\<rparr>)"
| finish: "\<lbrakk>map_order ord; step_finish ord cfg now_b res it w = Some w'\<rbrakk> \<Longrightarrow> gq_step cfg w w'"

inductive_cases gq_stepE: "gq_step cfg w w'"

abbreviation gq_steps :: "gq_config \<Rightarrow> world \<Rightarrow> world \<Rightarrow> bool" where
  "gq_steps cfg \<equiv> (gq_step cfg)\<^sup>*\<^sup>*"

end
