(* ===== verification/GqProxy.thy ===== *)
theory GqProxy
  imports GqServer
begin

text \<open>
  The interface between the scheduler (\<open>internal/gq/scheduler.go\<close>) and its clients, the HTTP
  handler and the dispatcher: a queue with a bounded number of slots that loses no request.
  The clients' bookkeeping is proved once against the interface (\<open>request_queue\<close>), which the
  model of the scheduler provides, and gives the invariant of the running proxy.
\<close>

section \<open>The interface\<close>

locale request_queue =
  fixes conf_ok :: "'c \<Rightarrow> bool" and env_ok :: "'e \<Rightarrow> bool" and capacity :: "'c \<Rightarrow> nat"
    and inv :: "'s \<Rightarrow> bool" and held :: "'s \<Rightarrow> 'k multiset" and free :: "'s \<Rightarrow> nat" and key :: "'i \<Rightarrow> 'k"
    and enq :: "'e \<Rightarrow> 'c \<Rightarrow> 'i \<Rightarrow> 's \<Rightarrow> 'x + 's" and requeue :: "'e \<Rightarrow> 'i \<Rightarrow> 's \<Rightarrow> 's"
    and acquire :: "'s \<Rightarrow> 's option" and release :: "'c \<Rightarrow> 's \<Rightarrow> 's option"
    and next_item :: "'e \<Rightarrow> 'c \<Rightarrow> 's \<Rightarrow> 'i option \<times> 's \<times> 'i list"
  assumes enq_law: "\<lbrakk>env_ok e; inv s; enq e c it s = Inr s'\<rbrakk> \<Longrightarrow>
      inv s' \<and> held s' = add_mset (key it) (held s) \<and> free s' = free s"
    and requeue_law: "\<lbrakk>env_ok e; inv s\<rbrakk> \<Longrightarrow>
      inv (requeue e it s) \<and> held (requeue e it s) = add_mset (key it) (held s) \<and> free (requeue e it s) = free s"
    and acquire_law: "\<lbrakk>inv s; acquire s = Some s'\<rbrakk> \<Longrightarrow>
      inv s' \<and> held s' = held s \<and> free s = Suc (free s')"
    and release_law: "\<lbrakk>inv s; release c s = Some s'\<rbrakk> \<Longrightarrow>
      inv s' \<and> held s' = held s \<and> free s' = Suc (free s)"
    and release_ready: "free s < capacity c \<Longrightarrow> \<exists>s'. release c s = Some s'"
    and next_law: "\<lbrakk>env_ok e; conf_ok c; inv s; next_item e c s = (r, s', dropped)\<rbrakk> \<Longrightarrow>
      inv s' \<and> free s' = free s \<and>
      held s = held s' + mset (map key (case r of None \<Rightarrow> [] | Some it \<Rightarrow> [it])) + mset (map key dropped)"
begin

text \<open>The client's account: every accepted request is held by the queue, out with a slot, or
  finished.\<close>

definition account :: "'c \<Rightarrow> 's \<Rightarrow> 'i list \<Rightarrow> 'k list \<Rightarrow> 'k list \<Rightarrow> bool" where
  "account c s out accepted finished \<longleftrightarrow>
     inv s \<and> free s + length out = capacity c \<and>
     mset accepted = held s + mset (map key out) + mset finished"

lemma account_enq:
  "\<lbrakk>account c s out acc fin; env_ok e; enq e c it s = Inr s'\<rbrakk> \<Longrightarrow> account c s' out (key it # acc) fin"
  using enq_law [of e s c it s'] by (auto simp: account_def)

lemma account_serve:
  assumes "account c s out acc fin" "env_ok e" "conf_ok c" "acquire s = Some s1"
    "next_item e c s1 = (Some it, s2, dropped)"
  shows "account c s2 (it # out) acc (map key dropped @ fin)"
  using assms acquire_law [of s s1] next_law [of e c s1 "Some it" s2 dropped]
  by (auto simp: account_def ac_simps)

lemma account_idle:
  assumes "account c s out acc fin" "env_ok e" "conf_ok c" "acquire s = Some s1"
    "next_item e c s1 = (None, s2, dropped)" "release c s2 = Some s3"
  shows "account c s3 out acc (map key dropped @ fin)"
  using assms acquire_law [of s s1] next_law [of e c s1 None s2 dropped] release_law [of s2 c s3]
  by (auto simp: account_def ac_simps)

lemma account_done:
  assumes "account c s (it # out) acc fin" "release c s = Some s'"
  shows "account c s' out acc (key it # fin)"
  using assms release_law [of s c s'] by (auto simp: account_def)

lemma account_requeue:
  assumes "account c s (it # out) acc fin" "env_ok e" "key it' = key it"
    "release c (requeue e it' s) = Some s'"
  shows "account c s' out acc fin"
  using assms requeue_law [of e s it'] release_law [of "requeue e it' s" c s']
  by (auto simp: account_def)

lemma account_release_ready:
  "\<lbrakk>account c s (it # out) acc fin; free s' = free s\<rbrakk> \<Longrightarrow> \<exists>s''. release c s' = Some s''"
  by (rule release_ready) (simp add: account_def)

lemma account_mset_cong:
  "\<lbrakk>account c s out acc fin; mset out' = mset out\<rbrakk> \<Longrightarrow> account c s out' acc fin"
  unfolding account_def by (metis mset_map size_mset)

end

section \<open>The scheduler provides it\<close>

type_synonym queue_env = "iter_order \<times> (string \<Rightarrow> bool) \<times> time"

lemma enqueue_law:
  "\<lbrakk>map_order ord; sched_inv s; enqueue ord cfg it s = Inr s'\<rbrakk> \<Longrightarrow>
   sched_inv s' \<and> ids (queued s') = add_mset (qi_id it) (ids (queued s)) \<and> sc_slots s' = sc_slots s"
  by (auto simp: enqueue_def push_item_queued push_item_sched_inv split: if_splits)

lemma requeue_law:
  "\<lbrakk>map_order ord; sched_inv s\<rbrakk> \<Longrightarrow>
   sched_inv (requeue_at_head ord it s) \<and>
   ids (queued (requeue_at_head ord it s)) = add_mset (qi_id it) (ids (queued s)) \<and>
   sc_slots (requeue_at_head ord it s) = sc_slots s"
  by (simp add: requeue_at_head_def push_item_queued push_item_sched_inv)

interpretation gq: request_queue
  "\<lambda>cfg. 0 \<le> cfg_quantum_tokens cfg" "\<lambda>(ord, _, _). map_order ord" cfg_max_slots
  sched_inv "\<lambda>s. ids (queued s)" sc_slots qi_id
  "\<lambda>(ord, _, _). enqueue ord" "\<lambda>(ord, _, _). requeue_at_head ord" acquire_slot release_slot
  "\<lambda>(ord, gone, now) cfg. pick_next ord cfg gone now"
proof (unfold_locales, goal_cases)
  case (1 e s c it s')
  then show ?case by (auto split: prod.splits dest: enqueue_law)
next
  case (2 e s it)
  then show ?case by (auto split: prod.splits dest: requeue_law)
next
  case (3 s s')
  then show ?case by (auto simp: acquire_slot_def split: if_splits)
next
  case (4 s c s')
  then show ?case by (auto simp: release_slot_def Let_def split: if_splits)
next
  case (5 s c)
  then show ?case by (simp add: release_slot_def Let_def)
next
  case (6 e c s r s' dropped)
  obtain ord gone now where e: "e = (ord, gone, now)" by (cases e)
  have "qsim c gone now s s' (served r) dropped"
    by (rule pick_next_sim) (use 6 e in auto)
  then show ?case by (simp add: qsim_def ids_def)
qed

section \<open>The invariant of the proxy\<close>

definition world_inv :: "gq_config \<Rightarrow> world \<Rightarrow> bool" where
  "world_inv cfg w \<longleftrightarrow>
     gq.account cfg (gq_sched (w_gq w)) (w_picked w @ w_running w) (w_accepted w) (w_finished w)"

lemma initial_world_inv: "world_inv cfg (initial_world cfg)"
  unfolding world_inv_def gq.account_def
  by (simp add: initial_world_def new_scheduler_def sched_inv_def lanes_inv_def lane_map_ok_def queued_def)

lemma serve_http_sched:
  assumes "serve_http ord cfg rate_ok stream_of uid now_b now_q rq g = (r, g')"
  shows "case r of Accepted it \<Rightarrow> enqueue ord cfg it (gq_sched g) = Inr (gq_sched g')
         | _ \<Rightarrow> gq_sched g' = gq_sched g"
  using assms
  by (auto simp: serve_http_def Let_def split: if_splits prod.splits option.splits sum.splits)

lemma step_serve_inv:
  assumes "world_inv cfg w" "map_order ord"
  shows "world_inv cfg (step_serve ord cfg rate_ok stream_of uid now_b now_q rq w)"
proof -
  obtain r g where v: "serve_http ord cfg rate_ok stream_of uid now_b now_q rq (w_gq w) = (r, g)"
    by fastforce
  show ?thesis
  proof (cases r)
    case (Accepted it)
    have "enqueue ord cfg it (gq_sched (w_gq w)) = Inr (gq_sched g)"
      using serve_http_sched [OF v] Accepted by simp
    then show ?thesis
      using gq.account_enq [of cfg "gq_sched (w_gq w)" _ _ _ "(ord, \<lambda>_. False, 0)" it] assms v Accepted
      by (simp add: step_serve_def world_inv_def)
  qed (use serve_http_sched [OF v] assms v in \<open>auto simp: step_serve_def world_inv_def\<close>)
qed

lemma step_pick_inv:
  assumes inv: "world_inv cfg w" and ord: "map_order ord" and quantum: "0 \<le> cfg_quantum_tokens cfg"
    and st: "step_pick ord cfg gone now w = Some w'"
  shows "world_inv cfg w'"
proof -
  obtain s where s: "acquire_slot (gq_sched (w_gq w)) = Some s"
    using st by (auto simp: step_pick_def split: option.splits)
  obtain r s' d where v: "pick_next ord cfg gone now s = (r, s', d)" using prod_cases3 by blast
  have e: "(\<lambda>(ord, _, _). map_order ord) (ord, gone, now)" using ord by simp
  show ?thesis
  proof (cases r)
    case None
    obtain s'' where s'': "release_slot cfg s' = Some s''"
      using st s v None by (auto simp: step_pick_def split: option.splits)
    from gq.account_idle [OF inv [unfolded world_inv_def] e quantum s _ s''] v None
    show ?thesis using st s s'' by (auto simp: step_pick_def world_inv_def)
  next
    case (Some it)
    from gq.account_serve [OF inv [unfolded world_inv_def] e quantum s] v Some
    show ?thesis using st s by (auto simp: step_pick_def world_inv_def)
  qed
qed

lemma dispatch_start_sched:
  "dispatch_start gone now_b start it g = (r, g') \<Longrightarrow>
   gq_sched g' = gq_sched g \<and> (\<forall>it'. r = Inr it' \<longrightarrow> it' = it)"
  by (auto simp: dispatch_start_def Let_def split: if_splits prod.splits)

lemma dispatch_finish_sched:
  assumes "dispatch_finish ord now_b res it g = (r, g')"
  shows "if qi_done (dr_item r) = qi_done it then gq_sched g' = gq_sched g
         else gq_sched g' = requeue_at_head ord (dr_item r) (gq_sched g) \<and> qi_id (dr_item r) = qi_id it"
  using assms
  by (auto simp: dispatch_finish_def Let_def split: upstream_result.splits stream_end.splits if_splits)

lemma step_start_inv:
  assumes inv: "world_inv cfg w" and st: "step_start cfg gone now_b start it w = Some w'"
  shows "world_inv cfg w'"
proof -
  have it: "it \<in> set (w_picked w)" using st by (auto simp: step_start_def split: if_splits)
  obtain r g where v: "dispatch_start gone now_b start it (w_gq w) = (r, g)" by fastforce
  let ?rest = "remove1 it (w_picked w) @ w_running w"
  have m: "mset (it # ?rest) = mset (w_picked w @ w_running w)" using it by simp
  have acc: "gq.account cfg (gq_sched g) (it # ?rest) (w_accepted w) (w_finished w)"
    using gq.account_mset_cong [OF inv [unfolded world_inv_def] m] dispatch_start_sched [OF v] by simp
  show ?thesis
  proof (cases r)
    case (Inl x)
    obtain s where s: "release_slot cfg (gq_sched g) = Some s"
      using st it v Inl by (auto simp: step_start_def split: option.splits)
    from gq.account_done [OF acc s] show ?thesis
      using st it v Inl s by (auto simp: step_start_def world_inv_def)
  next
    case (Inr it')
    then have "it' = it" using dispatch_start_sched [OF v] by simp
    then have "mset (remove1 it (w_picked w) @ it' # w_running w) = mset (it # ?rest)" by simp
    from gq.account_mset_cong [OF acc this] show ?thesis
      using st it v Inr by (auto simp: step_start_def world_inv_def)
  qed
qed

lemma step_finish_inv:
  assumes inv: "world_inv cfg w" and ord: "map_order ord"
    and st: "step_finish ord cfg now_b res it w = Some w'"
  shows "world_inv cfg w'"
proof -
  have it: "it \<in> set (w_running w)" using st by (auto simp: step_finish_def split: if_splits)
  obtain r g where v: "dispatch_finish ord now_b res it (w_gq w) = (r, g)" by fastforce
  obtain s where s: "release_slot cfg (gq_sched g) = Some s"
    using st it v by (auto simp: step_finish_def split: option.splits)
  let ?rest = "w_picked w @ remove1 it (w_running w)"
  have m: "mset (it # ?rest) = mset (w_picked w @ w_running w)" using it by simp
  note acc = gq.account_mset_cong [OF inv [unfolded world_inv_def] m]
  show ?thesis
  proof (cases "qi_done (dr_item r) = qi_done it")
    case True
    then have "gq_sched g = gq_sched (w_gq w)" using dispatch_finish_sched [OF v] by simp
    then show ?thesis
      using gq.account_done [OF acc, of s] s st it v True by (auto simp: step_finish_def world_inv_def)
  next
    case False
    then have "gq_sched g = requeue_at_head ord (dr_item r) (gq_sched (w_gq w))" "qi_id (dr_item r) = qi_id it"
      using dispatch_finish_sched [OF v] by simp_all
    then show ?thesis
      using gq.account_requeue [OF acc, of "(ord, \<lambda>_. False, 0)" "dr_item r" s] ord s st it v False
      by (auto simp: step_finish_def world_inv_def)
  qed
qed

lemma handler_wait_sched [simp]:
  "gq_sched (snd (handler_wait signal g)) = gq_sched g"
  "gq_breaker (snd (handler_wait signal g)) = gq_breaker g"
  by (auto simp: handler_wait_def split: option.splits)

lemma wait_inv:
  "world_inv cfg w \<Longrightarrow> world_inv cfg (w\<lparr>w_gq := snd (handler_wait signal (w_gq w))\<rparr>)"
  by (simp add: world_inv_def)

lemma gq_step_inv:
  assumes "gq_step cfg w w'" "0 \<le> cfg_quantum_tokens cfg" "world_inv cfg w"
  shows "world_inv cfg w'"
  using assms
  by (cases rule: gq_step.cases)
    (auto intro: step_serve_inv step_pick_inv step_start_inv step_finish_inv wait_inv)

lemma gq_steps_inv:
  "\<lbrakk>gq_steps cfg w w'; 0 \<le> cfg_quantum_tokens cfg; world_inv cfg w\<rbrakk> \<Longrightarrow> world_inv cfg w'"
  by (induction rule: rtranclp_induct) (auto intro: gq_step_inv)

section \<open>A proxy that no longer asks the upstream server\<close>

text \<open>Nothing runs, and the breaker is half-open, or open with nothing queued or picked.\<close>

definition silent :: "world \<Rightarrow> bool" where
  "silent w \<longleftrightarrow> w_running w = [] \<and>
     (br_state (gq_breaker (w_gq w)) = BreakerHalfOpen \<or>
      br_state (gq_breaker (w_gq w)) = BreakerOpen \<and> w_picked w = [] \<and> queued (gq_sched (w_gq w)) = {#})"

lemma serve_http_breaker:
  assumes "serve_http ord cfg rate_ok stream_of uid now_b now_q rq g = (r, g')"
  shows "gq_breaker g' = gq_breaker g \<and> (\<forall>it. r \<noteq> Accepted it) \<or>
         gq_breaker g' = snd (allow now_b (gq_breaker g)) \<and>
         (\<forall>it. r = Accepted it \<longrightarrow> fst (allow now_b (gq_breaker g)))"
  using assms
  by (auto simp: serve_http_def Let_def split: if_splits prod.splits option.splits sum.splits)

lemma silent_serve:
  assumes "silent w"
  shows "silent (step_serve ord cfg rate_ok stream_of uid now_b now_q rq w)"
proof -
  obtain r g where v: "serve_http ord cfg rate_ok stream_of uid now_b now_q rq (w_gq w) = (r, g)"
    by fastforce
  note b = serve_http_breaker [OF v] and s = serve_http_sched [OF v]
  show ?thesis
    using assms v b s
    by (cases r) (auto simp: step_serve_def silent_def allow_def split: if_splits breaker_state.splits)
qed

lemma silent_pick:
  assumes "silent w" "world_inv cfg w" "map_order ord" "0 \<le> cfg_quantum_tokens cfg"
    "step_pick ord cfg gone now w = Some w'"
  shows "silent w'"
proof (cases "br_state (gq_breaker (w_gq w)) = BreakerHalfOpen")
  case True
  then show ?thesis using assms(1,5)
    by (auto simp: silent_def step_pick_def split: option.splits prod.splits)
next
  case False
  then have e: "w_running w = []" "w_picked w = []" "queued (gq_sched (w_gq w)) = {#}"
    "br_state (gq_breaker (w_gq w)) = BreakerOpen"
    using assms(1) by (auto simp: silent_def)
  obtain s where s: "acquire_slot (gq_sched (w_gq w)) = Some s"
    using assms(5) by (auto simp: step_pick_def split: option.splits)
  obtain r s' d where v: "pick_next ord cfg gone now s = (r, s', d)" using prod_cases3 by blast
  have inv: "sched_inv s" and q: "queued s = {#}"
    using s e(3) assms(2) by (auto simp: acquire_slot_def world_inv_def gq.account_def split: if_splits)
  have "qsim cfg gone now s s' (served r) d"
    by (rule pick_next_sim [OF assms(3,4) inv v])
  then have "r = None" "queued s' = {#}"
    using q by (auto simp: qsim_def ids_def split: option.splits)
  then show ?thesis
    using assms(5) s v e by (auto simp: step_pick_def silent_def release_slot_def Let_def split: option.splits if_splits)
qed

lemma silent_start:
  assumes "silent w" "step_start cfg gone now_b start it w = Some w'"
  shows "silent w'"
proof -
  have it: "it \<in> set (w_picked w)" using assms(2) by (auto simp: step_start_def split: if_splits)
  then have h: "w_running w = []" "br_state (gq_breaker (w_gq w)) = BreakerHalfOpen"
    using assms(1) by (auto simp: silent_def)
  obtain r g where v: "dispatch_start gone now_b start it (w_gq w) = (r, g)" by fastforce
  have "br_state (gq_breaker g) = BreakerHalfOpen" "\<exists>x. r = Inl x"
    using v h(2) by (auto simp: dispatch_start_def allow_def Let_def split: if_splits)
  then show ?thesis
    using assms(2) it v h(1) by (auto simp: step_start_def silent_def split: option.splits)
qed

lemma silent_step:
  assumes "gq_step cfg w w'" "0 \<le> cfg_quantum_tokens cfg" "world_inv cfg w" "silent w"
  shows "silent w'"
  using assms(1)
proof (cases rule: gq_step.cases)
  case (finish ord now_b res it)
  then show ?thesis using assms(4) by (simp add: step_finish_def silent_def)
next
  case (wait signal)
  have "gq_sched (snd (handler_wait signal (w_gq w))) = gq_sched (w_gq w)" by simp
  then show ?thesis using wait assms(4) by (simp add: silent_def)
qed (use assms in \<open>auto intro: silent_serve silent_pick silent_start\<close>)

lemma silent_steps:
  "\<lbrakk>gq_steps cfg w w'; 0 \<le> cfg_quantum_tokens cfg; world_inv cfg w; silent w\<rbrakk> \<Longrightarrow> silent w'"
proof (induction rule: rtranclp_induct)
  case (step y z)
  have "world_inv cfg y" by (rule gq_steps_inv [OF step.hyps(1) step.prems(1,2)])
  then show ?case using step by (blast intro: silent_step)
qed

end
