(* ===== verification/GqProperties.thy ===== *)
theory GqProperties
  imports GqProxy
begin

text \<open>
  The properties of the admission-control proxy (\<open>internal/gq\<close>), each with a concrete run or
  state at which it applies.
\<close>

section \<open>Concrete requests\<close>

definition key_order :: iter_order where
  "key_order n ks = ks"

lemma key_order [simp]: "map_order key_order"
  by (simp add: map_order_def key_order_def)

definition coder_request :: http_request where
  "coder_request =
     \<lparr>rq_method = ''POST'', rq_path = ''/v1/chat/completions'', rq_caller = ''coder'', rq_priority = [],
      rq_body = Some ''{}''\<rparr>"

text \<open>A proxy whose breaker opens at the first failure.\<close>

definition fragile :: gq_config where
  "fragile = gq_defaults\<lparr>cfg_upstream_breaker :=
     \<lparr>bc_open_after_failures = 1, bc_open_cooldown = 10, bc_max_cooldown = 300\<rparr>\<rparr>"

definition serve_at :: "gq_config \<Rightarrow> string \<Rightarrow> time \<Rightarrow> world \<Rightarrow> world" where
  "serve_at cfg uid now = step_serve key_order cfg True (\<lambda>_. False) uid now now coder_request"

definition demo_item :: "string \<Rightarrow> time \<Rightarrow> queue_item" where
  "demo_item uid now = new_queue_item uid now ''coder'' Normal ''{}'' False (now + 300 * second)"

text \<open>A request is served, dispatched, and the upstream server fails: the breaker opens.\<close>

definition outage :: "world option" where
  "outage =
     Option.bind (step_pick key_order fragile (\<lambda>_. False) 1 (serve_at fragile ''r1'' 0 (initial_world fragile)))
       (\<lambda>w. Option.bind (step_start fragile (\<lambda>_. False) 2 2 (demo_item ''r1'' 0) w)
         (\<lambda>w. step_finish key_order fragile 3 (UpstreamFailed ''refused'') (demo_item ''r1'' 0) w))"

lemma outage_steps:
  assumes "outage = Some w"
  shows "gq_steps fragile (initial_world fragile) w"
proof -
  let ?w0 = "initial_world fragile" and ?w1 = "serve_at fragile ''r1'' 0 (initial_world fragile)"
  obtain w2 w3 where
    2: "step_pick key_order fragile (\<lambda>_. False) 1 ?w1 = Some w2"
    and 3: "step_start fragile (\<lambda>_. False) 2 2 (demo_item ''r1'' 0) w2 = Some w3"
    and 4: "step_finish key_order fragile 3 (UpstreamFailed ''refused'') (demo_item ''r1'' 0) w3 = Some w"
    using assms by (auto simp: outage_def bind_eq_Some_conv intro: that)
  have 1: "gq_step fragile ?w0 ?w1" unfolding serve_at_def by (rule gq_step.serve [OF key_order])
  have "gq_steps fragile ?w0 ?w1" using 1 by (rule r_into_rtranclp)
  then have "gq_steps fragile ?w0 w2" by (rule rtranclp.rtrancl_into_rtrancl) (rule gq_step.pick [OF key_order 2])
  then have "gq_steps fragile ?w0 w3" by (rule rtranclp.rtrancl_into_rtrancl) (rule gq_step.start [OF 3])
  then show ?thesis by (rule rtranclp.rtrancl_into_rtrancl) (rule gq_step.finish [OF key_order 4])
qed

lemma serve_demo:
  "serve_at fragile ''r1'' 0 (initial_world fragile) =
     (initial_world fragile)\<lparr>
       w_gq := (w_gq (initial_world fragile))\<lparr>
         gq_sched := (new_scheduler fragile)\<lparr>
            sc_lanes := (\<lambda>_. [])(Normal := [(''coder'', \<lparr>ln_items = [demo_item ''r1'' 0], ln_deficit = 0\<rparr>)]),
            sc_rr_keys := (\<lambda>_. [])(Normal := [''coder'']), sc_wake := True, sc_depth := 1, sc_iters := 1\<rparr>,
         gq_stats := record_enqueue Normal (gq_stats (w_gq (initial_world fragile)))\<rparr>,
       w_accepted := [''r1'']\<rparr>"
  by (simp add: serve_at_def step_serve_def serve_http_def request_caller_def request_priority_def
      coder_request_def initial_world_def fragile_def new_breaker_def allow_def max_body_size_def enqueue_def
      push_item_def get_or_create_def demo_item_def new_queue_item_def new_scheduler_def gq_defaults_def Let_def
      rebuild_keys_def put_lane_def key_order_def default_priority_for_def parse_priority_def to_lower_def
      lower_char_def)

lemma demo_item_simps [simp]:
  "qi_id (demo_item uid t) = uid" "qi_caller (demo_item uid t) = ''coder''"
  "qi_effective (demo_item uid t) = Normal" "qi_priority (demo_item uid t) = Normal"
  "qi_tokens (demo_item uid t) = 1" "qi_done (demo_item uid t) = 0" "qi_enqueued_at (demo_item uid t) = t"
  "qi_deadline (demo_item uid t) = t + 300 * second" "\<not> qi_requeued (demo_item uid t)"
  by (simp_all add: demo_item_def new_queue_item_def estimate_tokens_def)

lemma fragile_simps [simp]:
  "cfg_quantum_tokens fragile = 8192" "cfg_tiebreak_scan_k fragile = 4" "cfg_max_slots fragile = 4"
  "cfg_queue_max_depth fragile = 128" "cfg_aging fragile = \<lparr>ag_normal_to_high = 30 * second, ag_low_to_normal = 90 * second\<rparr>"
  "cfg_upstream_breaker fragile = \<lparr>bc_open_after_failures = 1, bc_open_cooldown = 10, bc_max_cooldown = 300\<rparr>"
  by (simp_all add: fragile_def gq_defaults_def)

lemma new_scheduler_simps [simp]:
  "sc_lanes (new_scheduler cfg) p = []" "sc_rr_keys (new_scheduler cfg) p = []"
  "sc_rr_index (new_scheduler cfg) p = 0" "sc_slots (new_scheduler cfg) = cfg_max_slots cfg"
  "sc_depth (new_scheduler cfg) = 0" "sc_iters (new_scheduler cfg) = 0"
  by (simp_all add: new_scheduler_def)

lemma pick_demo:
  "\<exists>s. step_pick key_order fragile (\<lambda>_. False) 1 (serve_at fragile ''r1'' 0 (initial_world fragile)) =
     Some ((serve_at fragile ''r1'' 0 (initial_world fragile))\<lparr>
       w_gq := (w_gq (serve_at fragile ''r1'' 0 (initial_world fragile)))\<lparr>gq_sched := s\<rparr>,
       w_picked := [demo_item ''r1'' 0]\<rparr>) \<and>
     sc_depth s = 0 \<and> sc_slots s = 3"
  unfolding serve_demo
  by (simp add: step_pick_def acquire_slot_def pick_next_def apply_aging_def age_priority_def key_order_def
      age_lane_def second_def all_priorities_def visit_caller_def prune_head_def stale_def Let_def
      put_lane_def shortest_of_first_k_def drop_lane_def rebuild_keys_def initial_world_def)

lemma outage_world:
  obtains w where "outage = Some w" "w_picked w = []" "w_running w = []" "w_accepted w = [''r1'']"
    "w_finished w = [''r1'']" "br_state (gq_breaker (w_gq w)) = BreakerOpen"
    "br_opened_at (gq_breaker (w_gq w)) = 3" "br_cooldown (gq_breaker (w_gq w)) = 10"
    "sc_depth (gq_sched (w_gq w)) = 0" "sc_slots (gq_sched (w_gq w)) = 4"
proof -
  obtain s where s: "step_pick key_order fragile (\<lambda>_. False) 1 (serve_at fragile ''r1'' 0 (initial_world fragile)) =
     Some ((serve_at fragile ''r1'' 0 (initial_world fragile))\<lparr>
       w_gq := (w_gq (serve_at fragile ''r1'' 0 (initial_world fragile)))\<lparr>gq_sched := s\<rparr>,
       w_picked := [demo_item ''r1'' 0]\<rparr>)" "sc_depth s = 0" "sc_slots s = 3"
    using pick_demo by blast
  have "\<exists>w. outage = Some w \<and> w_picked w = [] \<and> w_running w = [] \<and> w_accepted w = [''r1''] \<and>
    w_finished w = [''r1''] \<and> br_state (gq_breaker (w_gq w)) = BreakerOpen \<and>
    br_opened_at (gq_breaker (w_gq w)) = 3 \<and> br_cooldown (gq_breaker (w_gq w)) = 10 \<and>
    sc_depth (gq_sched (w_gq w)) = 0 \<and> sc_slots (gq_sched (w_gq w)) = 4"
    unfolding outage_def unfolding s(1) unfolding serve_demo
    by (simp add: step_start_def dispatch_start_def initial_world_def new_breaker_def allow_def
        step_finish_def dispatch_finish_def release_slot_def record_failure_def wake_ids_def Let_def s(2,3))
  then show thesis using that by blast
qed

section \<open>The running proxy\<close>

text \<open>C4: No request is lost or answered twice: in every reachable state of the proxy the accepted
  requests are, as a multiset, those queued, handed to a dispatch goroutine, sent upstream, or
  finished; the free slots and the dispatches out add up to \<open>MaxSlots\<close>, and the depth counter
  is the number of queued items.\<close>

theorem requests_conserved:
  assumes "gq_steps cfg (initial_world cfg) w" "0 \<le> cfg_quantum_tokens cfg"
  shows "mset (w_accepted w) = ids (queued (gq_sched (w_gq w))) + mset (map qi_id (w_picked w)) +
           mset (map qi_id (w_running w)) + mset (w_finished w) \<and>
         sc_slots (gq_sched (w_gq w)) + length (w_picked w) + length (w_running w) = cfg_max_slots cfg \<and>
         sc_depth (gq_sched (w_gq w)) = int (size (queued (gq_sched (w_gq w))))"
proof -
  have "world_inv cfg w"
    by (rule gq_steps_inv [OF assms initial_world_inv])
  then show ?thesis
    unfolding world_inv_def gq.account_def by (simp add: sched_inv_def ac_simps)
qed

theorem requests_conserved_witness:
  "\<exists>w. outage = Some w \<and> mset (w_accepted w) = mset (w_finished w) \<and>
       sc_slots (gq_sched (w_gq w)) = cfg_max_slots fragile"
proof -
  obtain w where w: "outage = Some w" "w_picked w = []" "w_running w = []"
    "sc_depth (gq_sched (w_gq w)) = 0"
    using outage_world by metis
  from requests_conserved [OF outage_steps [OF w(1)]] w show ?thesis by auto
qed

text \<open>The breaker does not recover: once it is open while nothing is queued or out, no
  sequence of steps ever sends a request upstream again or closes the breaker, however long the
  cooldown has passed.  \<open>ServeHTTP\<close> calls \<open>Allow\<close>, which turns the open breaker half-open and
  admits the probe, and \<open>dispatch\<close> calls \<open>Allow\<close> again for the same request, which a half-open
  breaker refuses.\<close>

theorem breaker_never_recovers:
  assumes "gq_steps cfg (initial_world cfg) w" "0 \<le> cfg_quantum_tokens cfg"
    "br_state (gq_breaker (w_gq w)) = BreakerOpen" "w_picked w = []" "w_running w = []"
    "sc_depth (gq_sched (w_gq w)) = 0" "gq_steps cfg w w'"
  shows "w_running w' = [] \<and> br_state (gq_breaker (w_gq w')) \<noteq> BreakerClosed"
proof -
  have inv: "world_inv cfg w" by (rule gq_steps_inv [OF assms(1,2) initial_world_inv])
  then have "sched_inv (gq_sched (w_gq w))" unfolding world_inv_def gq.account_def by blast
  then have "queued (gq_sched (w_gq w)) = {#}" using assms(6) by (simp add: sched_inv_def)
  then have "silent w" using assms(3-5) by (simp add: silent_def)
  from silent_steps [OF assms(7,2) inv this] show ?thesis by (auto simp: silent_def)
qed

text \<open>The outage of one request, and a request that arrives a second later.\<close>

theorem breaker_never_recovers_witness:
  "\<exists>w. outage = Some w \<and> w_running (serve_at fragile ''r2'' 1000000000 w) = [] \<and>
       br_state (gq_breaker (w_gq (serve_at fragile ''r2'' 1000000000 w))) \<noteq> BreakerClosed"
proof -
  obtain w where w: "outage = Some w" "w_picked w = []" "w_running w = []"
    "br_state (gq_breaker (w_gq w)) = BreakerOpen" "sc_depth (gq_sched (w_gq w)) = 0"
    using outage_world by metis
  have st: "gq_steps fragile w (serve_at fragile ''r2'' 1000000000 w)"
    unfolding serve_at_def by (rule r_into_rtranclp) (rule gq_step.serve [OF key_order])
  from breaker_never_recovers [OF outage_steps [OF w(1)] _ w(4,2,3,5) st]
  have "w_running (serve_at fragile ''r2'' 1000000000 w) = [] \<and>
      br_state (gq_breaker (w_gq (serve_at fragile ''r2'' 1000000000 w))) \<noteq> BreakerClosed"
    by simp
  with w(1) show ?thesis by blast
qed

text \<open>The breaker's cooldown never leaves the configured bounds, whatever calls are made, and
  a closed breaker has counted fewer failures than the threshold.  The doubling of the cooldown
  cannot overflow as long as the maximum is below 2^62 nanoseconds.\<close>

theorem breaker_cooldown_bounds:
  assumes "breaker_cfg_ok c"
  shows "bc_open_cooldown c \<le> br_cooldown (breaker_run ops (new_breaker c)) \<and>
         br_cooldown (breaker_run ops (new_breaker c)) \<le> bc_max_cooldown c \<and>
         (br_state (breaker_run ops (new_breaker c)) = BreakerClosed \<longrightarrow>
            br_failures (breaker_run ops (new_breaker c)) < bc_open_after_failures c)"
proof -
  have cfg: "br_cfg (new_breaker c) = c" by (simp add: new_breaker_def)
  have "breaker_inv (breaker_run ops (new_breaker c))"
    by (rule breaker_inv_run) (use assms breaker_inv_new cfg in auto)
  then show ?thesis by (simp add: breaker_inv_def cfg)
qed

definition probe_fails :: "breaker_op list" where
  "probe_fails = [OpFailure 0, OpAllow 10, OpFailure 11, OpAllow 31, OpFailure 32]"

theorem breaker_cooldown_bounds_witness:
  "br_cooldown (breaker_run probe_fails (new_breaker (cfg_upstream_breaker fragile))) = 40 \<and> (40::int) \<le> 300"
proof -
  have "breaker_cfg_ok (cfg_upstream_breaker fragile)" by (simp add: breaker_cfg_ok_def)
  from breaker_cooldown_bounds [OF this, of probe_fails] show ?thesis
    by (simp add: probe_fails_def new_breaker_def record_failure_def allow_def wrap64_def Let_def)
qed

text \<open>A closed breaker without failures opens exactly at the threshold: after \<open>n\<close> consecutive
  failures it has counted \<open>n\<close>, it is open if and only if \<open>n\<close> reached the threshold, and then
  \<open>Allow\<close> refuses every call until the cooldown since the last failure has passed and admits one
  call, as half-open, afterwards.\<close>

theorem breaker_opens_at_threshold:
  assumes "br_state b = BreakerClosed" "br_failures b = 0" "ts \<noteq> []"
  shows "br_failures (breaker_run (map OpFailure ts) b) = int (length ts) \<and>
         (br_state (breaker_run (map OpFailure ts) b) = BreakerOpen \<longleftrightarrow>
            bc_open_after_failures (br_cfg b) \<le> int (length ts)) \<and>
         (bc_open_after_failures (br_cfg b) \<le> int (length ts) \<longrightarrow>
            allow now (breaker_run (map OpFailure ts) b) =
              (if now < last ts + br_cooldown b then (False, breaker_run (map OpFailure ts) b)
               else (True, (breaker_run (map OpFailure ts) b)\<lparr>br_state := BreakerHalfOpen\<rparr>)))"
  using failures_run [OF assms] by (auto simp: allow_def)

theorem breaker_opens_at_threshold_witness:
  "allow 12 (breaker_run [OpFailure 3] (new_breaker (cfg_upstream_breaker fragile))) =
     (False, breaker_run [OpFailure 3] (new_breaker (cfg_upstream_breaker fragile)))"
proof -
  let ?b = "new_breaker (cfg_upstream_breaker fragile)"
  have b: "br_state ?b = BreakerClosed" "br_failures ?b = 0"
    by (simp_all add: new_breaker_def)
  from breaker_opens_at_threshold [OF b, of "[3]" 12] show ?thesis
    by (simp add: new_breaker_def)
qed

section \<open>The scheduler\<close>

text \<open>C9: \<open>PickNext\<close> refines the abstract queue of one FIFO per priority and caller: what it does to
  the lanes is a sequence of promotions of due heads, drops of stale heads and at most one
  service, which takes the first item with the fewest tokens among the first
  \<open>TiebreakScanK\<close> of a lane whose head is not stale; the item returned and the items dropped are
  those of the sequence.  It holds for every iteration order of Go's maps.\<close>

theorem pick_next_refines_queue:
  assumes "map_order ord" "0 \<le> cfg_quantum_tokens cfg" "sched_inv s"
    "pick_next ord cfg gone now s = (r, s', dropped)"
  shows "\<exists>acts. q_run cfg gone now acts (view s) =
           Some (view s', (case r of None \<Rightarrow> [] | Some it \<Rightarrow> [it]), dropped)"
  using pick_next_sim [OF assms] unfolding qsim_def by blast

definition demo_sched :: scheduler where
  "demo_sched = (new_scheduler fragile)\<lparr>
     sc_lanes := (\<lambda>_. [])(Normal := [(''coder'', \<lparr>ln_items = [demo_item ''r1'' 0], ln_deficit = 0\<rparr>)]),
     sc_rr_keys := (\<lambda>_. [])(Normal := [''coder'']), sc_wake := True, sc_depth := 1, sc_iters := 1\<rparr>"

lemma demo_sched_inv: "sched_inv demo_sched"
  by (auto simp: demo_sched_def sched_inv_def lanes_inv_def lane_map_ok_def lane_ok_def queued_def)

lemma demo_queued: "queued demo_sched = {#demo_item ''r1'' 0#}"
  by (simp add: demo_sched_def queued_def)

lemma demo_pick:
  "\<exists>s'. pick_next key_order fragile (\<lambda>_. False) 1 demo_sched = (Some (demo_item ''r1'' 0), s', []) \<and>
        sc_depth s' = 0"
  by (simp add: demo_sched_def pick_next_def apply_aging_def age_priority_def key_order_def
      age_lane_def second_def all_priorities_def visit_caller_def prune_head_def stale_def Let_def
      put_lane_def shortest_of_first_k_def drop_lane_def rebuild_keys_def)

theorem pick_next_refines_queue_witness:
  "\<exists>acts s'. q_run fragile (\<lambda>_. False) 1 acts (view demo_sched) = Some (view s', [demo_item ''r1'' 0], [])"
proof -
  obtain s' where v: "pick_next key_order fragile (\<lambda>_. False) 1 demo_sched = (Some (demo_item ''r1'' 0), s', [])"
    using demo_pick by blast
  from pick_next_refines_queue [OF key_order _ demo_sched_inv v] show ?thesis by auto
qed

text \<open>C26: Strict priority with deficit round robin: provided that no item of the queue that aging leaves
  is stale, an item of some priority is picked only when no lane of a higher priority can afford its
  head with one more quantum.  (A stale head is dropped during the pick, and then a caller of its
  priority can be passed over: \<open>prune_skips_caller\<close>.)\<close>

theorem pick_next_strict_priority:
  assumes "map_order ord" "0 \<le> cfg_quantum_tokens cfg" "sched_inv s"
    "all_fresh gone now (apply_aging ord cfg now s)"
    "pick_next ord cfg gone now s = (Some w, s', dropped)" "q < qi_effective w"
    "map_of (sc_lanes (apply_aging ord cfg now s) q) c = Some l"
  shows "ln_deficit l + cfg_quantum_tokens cfg < qi_tokens (hd (ln_items l))"
proof -
  let ?t = "apply_aging ord cfg now s"
  have inv: "sched_inv ?t" by (rule qsim_inv [OF apply_aging_sim [OF assms(1,3)]])
  have "pick_priorities ord cfg gone now all_priorities ?t = (Some w, s', dropped)"
    using assms(5) by (simp add: pick_next_def)
  from pick_priorities_Some [OF assms(1,2) inv assms(4) _ this] obtain as bs where
    ab: "all_priorities = as @ qi_effective w # bs"
    "\<forall>q \<in> set as. \<forall>c l. map_of (sc_lanes ?t q) c = Some l \<longrightarrow> unaffordable cfg l"
    by (auto simp: all_priorities_def)
  have "q \<in> set as"
    using ab(1) assms(6)
    by (cases q; cases "qi_effective w") (auto simp: all_priorities_def less_priority_def Cons_eq_append_conv)
  then show ?thesis using ab(2) assms(7) by (auto simp: unaffordable_def)
qed

text \<open>A large high-priority request waits for a second quantum; the small one of the lower priority
  goes first.\<close>

definition large_item :: queue_item where
  "large_item = (demo_item ''r0'' 0)\<lparr>qi_tokens := 9000, qi_priority := High, qi_effective := High\<rparr>"

definition two_lanes :: scheduler where
  "two_lanes = (new_scheduler fragile)\<lparr>
     sc_lanes := (\<lambda>_. [])(High := [(''coder'', \<lparr>ln_items = [large_item], ln_deficit = 0\<rparr>)],
                           Normal := [(''coder'', \<lparr>ln_items = [demo_item ''r1'' 0], ln_deficit = 0\<rparr>)]),
     sc_rr_keys := (\<lambda>_. [])(High := [''coder''], Normal := [''coder'']), sc_wake := True, sc_depth := 2,
     sc_iters := 2\<rparr>"

lemma large_item_simps [simp]:
  "qi_id large_item = ''r0''" "qi_caller large_item = ''coder''" "qi_effective large_item = High"
  "qi_tokens large_item = 9000" "qi_enqueued_at large_item = 0" "qi_deadline large_item = 300 * second"
  by (simp_all add: large_item_def)

lemma two_lanes_inv: "sched_inv two_lanes"
  by (auto simp: two_lanes_def sched_inv_def lanes_inv_def lane_map_ok_def lane_ok_def queued_def)

lemma two_lanes_queued: "queued two_lanes = {#large_item, demo_item ''r1'' 0#}"
  by (simp add: two_lanes_def queued_def)

lemma two_lanes_aging: "apply_aging key_order fragile 1 two_lanes = two_lanes\<lparr>sc_iters := 4\<rparr>"
  by (simp add: two_lanes_def apply_aging_def age_priority_def key_order_def age_lane_def second_def Let_def)

lemma two_lanes_pick:
  "\<exists>s'. pick_next key_order fragile (\<lambda>_. False) 1 two_lanes = (Some (demo_item ''r1'' 0), s', [])"
  by (simp add: two_lanes_def pick_next_def apply_aging_def age_priority_def key_order_def
      age_lane_def second_def all_priorities_def visit_caller_def prune_head_def stale_def Let_def
      put_lane_def shortest_of_first_k_def drop_lane_def rebuild_keys_def)

theorem pick_next_strict_priority_witness:
  "\<exists>s' l. pick_next key_order fragile (\<lambda>_. False) 1 two_lanes = (Some (demo_item ''r1'' 0), s', [])
     \<and> map_of (sc_lanes (apply_aging key_order fragile 1 two_lanes) High) ''coder'' = Some l
     \<and> hd (ln_items l) = large_item \<and> ln_deficit l + cfg_quantum_tokens fragile < qi_tokens (hd (ln_items l))"
proof -
  obtain s' where v: "pick_next key_order fragile (\<lambda>_. False) 1 two_lanes = (Some (demo_item ''r1'' 0), s', [])"
    using two_lanes_pick by blast
  have fresh: "all_fresh (\<lambda>_. False) 1 (apply_aging key_order fragile 1 two_lanes)"
    by (simp add: two_lanes_aging all_fresh_def two_lanes_queued stale_def second_def)
  have l: "map_of (sc_lanes (apply_aging key_order fragile 1 two_lanes) High) ''coder'' =
      Some \<lparr>ln_items = [large_item], ln_deficit = 0\<rparr>"
    unfolding two_lanes_aging by (simp add: two_lanes_def)
  have q: "High < qi_effective (demo_item ''r1'' 0)" by (simp add: less_priority_def)
  from pick_next_strict_priority [OF key_order _ two_lanes_inv fresh v q l] v l show ?thesis by auto
qed

text \<open>C25: Progress: while no item is stale or due for promotion, a non-empty queue is served after at
  most as many calls of \<open>PickNext\<close> as it takes quanta to cover its largest item.  (A single call can
  return nothing although items are queued.)\<close>

theorem pick_next_progress:
  assumes "map_order ord" "0 \<le> cfg_quantum_tokens cfg" "sched_inv s" "queued s \<noteq> {#}"
    "\<forall>now \<in> set ts. all_fresh gone now s \<and> none_due cfg now s" "ts \<noteq> []"
    "\<forall>it. it \<in># queued s \<longrightarrow> qi_tokens it \<le> int (length ts) * cfg_quantum_tokens cfg"
  shows "\<exists>w s'. pick_until ord cfg gone ts s = (Some w, s')"
proof -
  obtain r s' where v: "pick_until ord cfg gone ts s = (r, s')" by fastforce
  have "r \<noteq> None"
  proof
    assume r: "r = None"
    have linv: "lanes_inv s" using assms(3) by (simp add: sched_inv_def)
    obtain it where "it \<in># queued s" using assms(4) by (meson multiset_nonemptyE)
    then obtain p c l where l: "map_of (sc_lanes s p) c = Some l" by (rule queued_in_lane [OF linv])
    have ok: "lane_ok p c l" by (rule lanes_inv_lane [OF linv l])
    then have "hd (ln_items l) \<in># queued s"
      using lane_in_queued [OF l] by (simp add: lane_ok_def)
    then have "qi_tokens (hd (ln_items l)) \<le> int (length ts) * cfg_quantum_tokens cfg"
      using assms(7) by blast
    moreover have "ln_deficit l + int (length ts) * cfg_quantum_tokens cfg < qi_tokens (hd (ln_items l))"
      by (rule pick_until_None [OF assms(1,2,3,5) v [unfolded r] l assms(6)])
    ultimately show False using ok by (simp add: lane_ok_def)
  qed
  then show ?thesis using v by blast
qed

theorem pick_next_progress_witness:
  "\<exists>w s'. pick_until key_order fragile (\<lambda>_. False) [1, 2] two_lanes = (Some w, s')"
  by (rule pick_next_progress [OF key_order _ two_lanes_inv])
    (auto simp: two_lanes_queued all_fresh_def none_due_def stale_def due_def second_def)

section \<open>Statistics\<close>

text \<open>Reading a rolling window forgets old entries, but with a clock that does not run backwards
  every read returns exactly what a filter over the complete history of entries returns.\<close>

theorem window_reads_match_history:
  assumes "sorted (map op_time ops)" "0 \<le> size_ns"
  shows "window_outputs ops (new_rolling_window size_ns) = history_outputs size_ns ops []"
proof (cases ops)
  case (Cons op rest)
  have "\<forall>x \<in> set ops. op_time op \<le> op_time x" using assms(1) Cons by auto
  then show ?thesis
    using window_history [OF assms(1), of "[]" "op_time op - size_ns" "new_rolling_window size_ns"] assms(2)
    by (simp add: new_rolling_window_def)
qed simp

theorem window_reads_match_history_witness:
  "window_outputs [WAdd 0 5000000, WAdd 10 7000000, WRead 15, WRead 20] (new_rolling_window 10) = [[7], [7]]"
  using window_reads_match_history [of "[WAdd 0 5000000, WAdd 10 7000000, WRead 15, WRead 20]" 10]
  by (simp add: signed_divide_int_def)

text \<open>The reported quantiles are nearest-rank percentiles of the values in the window: each is one
  of the values, fewer than \<open>pct\<close> per cent of the values are smaller, at least \<open>pct\<close> per cent are
  not larger, and they are ordered.\<close>

theorem quantiles_nearest_rank:
  assumes "fst (window_values now (gs_windows s p)) = vs" "vs \<noteq> []"
    "(pct, v) \<in> {(50, wq_p50 (fst (get_wait_quantiles now p s))),
                 (90, wq_p90 (fst (get_wait_quantiles now p s))),
                 (99, wq_p99 (fst (get_wait_quantiles now p s)))}"
  shows "v \<in> set vs \<and> 100 * int (length (filter (\<lambda>x. x < v) vs)) < int (length vs) * pct \<and>
         int (length vs) * pct \<le> 100 * int (length (filter (\<lambda>x. x \<le> v) vs)) \<and>
         wq_p50 (fst (get_wait_quantiles now p s)) \<le> wq_p90 (fst (get_wait_quantiles now p s)) \<and>
         wq_p90 (fst (get_wait_quantiles now p s)) \<le> wq_p99 (fst (get_wait_quantiles now p s))"
proof -
  let ?n = "int (length vs)" and ?s = "sort vs" and ?i = "\<lambda>pct. nat (percentile_index (int (length vs)) pct)"
  have n: "0 < ?n" using assms(2) by simp
  have q: "wq_p50 (fst (get_wait_quantiles now p s)) = ?s ! ?i 50"
    "wq_p90 (fst (get_wait_quantiles now p s)) = ?s ! ?i 90"
    "wq_p99 (fst (get_wait_quantiles now p s)) = ?s ! ?i 99"
    using assms(1,2) by (auto simp: get_wait_quantiles_def Let_def split: prod.splits)
  then have v: "v = ?s ! ?i pct" and pct: "0 < pct" "pct \<le> 100" using assms(3) by auto
  note pi = percentile_index_nearest [OF n pct]
  have i: "?i pct < length ?s" using pi(1,2) by (simp add: nat_less_iff)
  have c: "length (filter P ?s) = length (filter P vs)" for P
    by (metis filter_sort length_sort sort_key_def) 
  have le: "?s ! ?i a \<le> ?s ! ?i b" if "0 < a" "a \<le> b" "b \<le> 100" for a b
    using percentile_index_mono [OF n that] percentile_index_nearest(1,2) [OF n, of b] that
    by (intro sorted_nth_mono) (auto simp: nat_less_iff)
  have "v \<in> set vs" using v i by (metis nth_mem set_sort)
  moreover have "100 * int (length (filter (\<lambda>x. x < v) vs)) < ?n * pct"
    using sorted_rank(1) [OF sorted_sort i] pi(1,3) v c by simp
  moreover have "?n * pct \<le> 100 * int (length (filter (\<lambda>x. x \<le> v) vs))"
    using sorted_rank(2) [OF sorted_sort i] pi(1,4) v c by simp
  ultimately show ?thesis unfolding q using le by simp
qed

theorem quantiles_nearest_rank_witness:
  "\<exists>s. fst (window_values 10 (gs_windows s High)) = [7, 3, 9] \<and> wq_p50 (fst (get_wait_quantiles 10 High s)) \<in> {3, 7, 9}"
proof -
  let ?s = "record_wait 9 High 9000000 (record_wait 8 High 3000000 (record_wait 7 High 7000000 (new_stats 60)))"
  have w: "fst (window_values 10 (gs_windows ?s High)) = [7, 3, 9]"
    by (simp add: record_wait_def new_stats_def new_rolling_window_def window_add_def window_values_def
        signed_divide_int_def)
  have "wq_p50 (fst (get_wait_quantiles 10 High ?s)) \<in> set [7, 3, 9]"
    using quantiles_nearest_rank [OF w, of 50 "wq_p50 (fst (get_wait_quantiles 10 High ?s))"] by simp
  with w show ?thesis by auto
qed

section \<open>Corner cases\<close>

text \<open>The first answer 429 closes the channel the handler waits on, although the request is back in
  the queue: the handler returns before its request is dispatched again.\<close>

lemma requeue_wakes_handler:
  assumes "qi_done it = 0" "\<not> qi_requeued it"
    "dispatch_finish ord now_b (UpstreamReply 429 stream dur) it g = (r, g')"
  shows "0 \<in> set (dr_closed r)" "dr_written r = None"
    "queued (gq_sched g') = add_mset (dr_item r) (queued (gq_sched g))"
  using assms by (auto simp: dispatch_finish_def Let_def requeue_at_head_def push_item_queued)

text \<open>The tie break looks only at token counts, so a shorter item behind the head is served although
  its deadline has passed.\<close>

lemma expired_item_served:
  "\<exists>w s'. pick_next key_order fragile (\<lambda>_. False) 5
     (two_lanes\<lparr>sc_lanes := (\<lambda>_. [])(High := [(''coder'', \<lparr>ln_items = [large_item\<lparr>qi_tokens := 7\<rparr>,
        large_item\<lparr>qi_id := ''late'', qi_tokens := 2, qi_deadline := 4\<rparr>], ln_deficit = 0\<rparr>)])\<rparr>) = (Some w, s', []) \<and>
     qi_id w = ''late'' \<and> stale (\<lambda>_. False) 5 w"
  by (simp add: two_lanes_def pick_next_def apply_aging_def age_priority_def key_order_def
      age_lane_def second_def all_priorities_def visit_caller_def prune_head_def stale_def Let_def
      put_lane_def shortest_of_first_k_def drop_lane_def rebuild_keys_def numeral_3_eq_3)

text \<open>Dropping the last item of one caller rebuilds the key slice and resets the cursor while the
  loop still indexes the old slice, so the next caller's affordable item is passed over.\<close>

lemma prune_skips_caller:
  "fst (pick_next key_order fragile (\<lambda>_. False) 5
     (two_lanes\<lparr>sc_lanes := (\<lambda>_. [])(High :=
        [(''a'', \<lparr>ln_items = [large_item\<lparr>qi_deadline := 4\<rparr>], ln_deficit = 0\<rparr>),
         (''b'', \<lparr>ln_items = [large_item\<lparr>qi_tokens := 1\<rparr>], ln_deficit = 0\<rparr>)]),
      sc_rr_keys := (\<lambda>_. [])(High := [''a'', ''b''])\<rparr>)) = None"
  by (simp add: two_lanes_def pick_next_def apply_aging_def age_priority_def key_order_def
      age_lane_def second_def all_priorities_def visit_caller_def prune_head_def stale_def Let_def
      put_lane_def shortest_of_first_k_def drop_lane_def rebuild_keys_def drop_item_def numeral_2_eq_2)

end
