(* ===== verification/PlanModel.thy ===== *)
theory PlanModel
  imports Prelude DeliveryValidation
begin

text \<open>
  Plans and their validation: \<open>planEntry\<close> of \<open>handlers.go\<close>, \<open>plan_validation.go\<close> and the part of
  \<open>plan_validation_files.go\<close> that looks at a plan and the worktree's file names.

  The texts of the warnings and errors are the datatype \<open>plan_issue\<close>, one constructor per format
  string with its arguments.  Positions in the plan are natural numbers, the indices a planner
  writes are integers and may be out of range.
\<close>

section \<open>Plan entries\<close>

record module_boundary =
  mb_package :: string
  mb_description :: string
  mb_exports :: int

record interface_shape =
  is_package :: string
  is_functions :: "string list"
  is_types :: "string list"

record interface_contract =
  ic_package :: string
  ic_kind :: string
  ic_state :: string
  ic_owner_file :: string
  ic_signature :: string
  ic_symbol :: string
  ic_action_id :: string
  ic_callback_signature :: string
  ic_route :: string
  ic_target_action :: string
  ic_caller :: string
  ic_callee :: string

record depth_meta =
  dm_boundaries :: "module_boundary list"
  dm_shapes :: "interface_shape list"
  dm_contracts :: "interface_contract list"

record plan_entry =
  pe_title :: string
  pe_description :: string
  pe_agent_type :: string
  pe_estimated_files :: "string list"
  pe_files :: "string list"
  pe_writable_files :: "string list"
  pe_deps :: "int list"
  pe_priority :: int
  pe_is_test :: bool
  pe_phase :: string
  pe_tests_for :: "int list"
  pe_boundaries :: "module_boundary list"
  pe_shapes :: "interface_shape list"
  pe_contracts :: "interface_contract list"
  pe_depth :: "depth_meta option"

record tdd_exception =
  tx_index :: int
  tx_reason :: string

type_synonym plan = "plan_entry list"

definition all_files :: "plan_entry \<Rightarrow> string list" where
  "all_files e = (if pe_files e \<noteq> [] then pe_files e else pe_estimated_files e)"

definition writable_plan_files :: "plan_entry \<Rightarrow> string list" where
  "writable_plan_files e = (if pe_writable_files e \<noteq> [] then pe_writable_files e else all_files e)"

text \<open>The positions of a phase, in order.\<close>

definition phase_indices :: "string \<Rightarrow> plan \<Rightarrow> nat list" where
  "phase_indices ph p = filter (\<lambda>i. pe_phase (p ! i) = ph) [0..<length p]"

definition in_range :: "int \<Rightarrow> plan \<Rightarrow> bool" where
  "in_range k p \<longleftrightarrow> 0 \<le> k \<and> k < int (length p)"

section \<open>Messages\<close>

datatype plan_issue =
    TooManySubtasks nat
  | NoFilesListed nat
  | OverlapWithoutDependency nat nat "string list"
  | SamePackageTests nat nat string
  | DependencyCycle
  | WritableOutsideIntegration nat string
  | BlankWritableFile nat string
  | WritableNotInFiles nat string string
  | DuplicateWritableFile nat string string
  | TooManyOwnedFiles nat string nat
  | TooManyBoundaries nat string nat
  | BothOwnFile nat nat string
  | NoTestSubtasks
  | TestsForNotSingle nat string nat
  | TestsForOutOfBounds nat string int
  | TestsForNotImplementation nat string int string
  | DuplicateCoverage nat nat int
  | NoTestFileOverlap nat int
  | UncoveredImplementation nat string
  | ExceptionOutOfBounds int
  | ExceptionOnTest int string
  | ManyExemptions nat nat
  | TestDependsOnImplementation nat string int string
  | LegacyTestOrdering string
  | NoDocumentation
  | PathEscapes nat string string
  | NoParentDirectory nat string string
  | NonExistentPaths nat string "string list"

record plan_validation =
  pv_valid :: bool
  pv_warnings :: "plan_issue list"
  pv_errors :: "plan_issue list"

section \<open>The dependency graph\<close>

text \<open>\<open>dependsOnPath\<close>: the pending calls of the recursive \<open>visit\<close> are a work list, the captured map
  \<open>seen\<close> a list of positions.\<close>

function visit_deps :: "plan \<Rightarrow> int \<Rightarrow> int list \<Rightarrow> nat list \<Rightarrow> bool" where
  "visit_deps p target [] seen = False"
| "visit_deps p target (current # pending) seen =
     (if \<not> in_range current p \<or> current = target
      then (if current = target then True else visit_deps p target pending seen)
      else if nat current \<in> set seen then visit_deps p target pending seen
      else visit_deps p target (pe_deps (p ! nat current) @ pending) (nat current # seen))"
  by pat_completeness auto

termination
proof (relation "measures [\<lambda>(p, _, _, seen). card ({..<length p} - set seen), \<lambda>(_, _, pending, _). length pending]",
    goal_cases)
  case (4 p target current pending seen)
  then have "nat current \<in> {..<length p} - set seen"
    by (auto simp: in_range_def)
  then have "card ({..<length p} - set (nat current # seen)) < card ({..<length p} - set seen)"
    by (intro psubset_card_mono) auto
  then show ?case by simp
qed auto

definition depends_on_path :: "plan \<Rightarrow> nat \<Rightarrow> nat \<Rightarrow> bool" where
  "depends_on_path p a target = visit_deps p (int target) [int a] []"

definition has_dependency_path :: "plan \<Rightarrow> nat \<Rightarrow> nat \<Rightarrow> bool" where
  "has_dependency_path p a b \<longleftrightarrow> depends_on_path p a b \<or> depends_on_path p b a"

definition has_dependency :: "plan \<Rightarrow> nat \<Rightarrow> nat \<Rightarrow> bool" where
  "has_dependency p a b \<longleftrightarrow> int b \<in> set (pe_deps (p ! a)) \<or> int a \<in> set (pe_deps (p ! b))"

datatype visit_state = Unvisited | InProgress | Finished

definition unvisited :: "visit_state list \<Rightarrow> nat" where
  "unvisited st = card {v. v < length st \<and> st ! v = Unvisited}"

lemma unvisited_update:
  "s \<noteq> Unvisited \<Longrightarrow> unvisited (st[v := s]) \<le> unvisited st"
  unfolding unvisited_def
  by (cases "v < length st"; rule card_mono)
    (auto simp: nth_list_update list_update_beyond split: if_splits)

lemma unvisited_visit:
  "\<lbrakk>s \<noteq> Unvisited; v < length st; st ! v = Unvisited\<rbrakk> \<Longrightarrow> unvisited (st[v := s]) < unvisited st"
  unfolding unvisited_def by (rule psubset_card_mono) (auto simp: nth_list_update split: if_splits)

text \<open>\<open>hasCycle\<close>: the explicit stack of frames \<open>(node, idx)\<close>, its top first, and the array
  \<open>state\<close>.  \<open>None\<close> is the early return of \<open>true\<close>.\<close>

function cycle_dfs :: "plan \<Rightarrow> (nat \<times> nat) list \<Rightarrow> visit_state list \<Rightarrow> visit_state list option" where
  "cycle_dfs p [] st = Some st"
| "cycle_dfs p ((v, i) # stack) st =
     (let deps = pe_deps (p ! v) in
      if length deps \<le> i then cycle_dfs p stack (st[v := Finished])
      else let d = deps ! i; stack' = (v, Suc i) # stack in
        if d < 0 \<or> int (length st) \<le> d then cycle_dfs p stack' st
        else (case st ! nat d of
            InProgress \<Rightarrow> None
          | Unvisited \<Rightarrow> cycle_dfs p ((nat d, 0) # stack') (st[nat d := InProgress])
          | Finished \<Rightarrow> cycle_dfs p stack' st))"
  by pat_completeness auto

termination
proof (relation "measures [\<lambda>(_, _, st). unvisited st,
     \<lambda>(p, stack, _). \<Sum>(v, i) \<leftarrow> stack. Suc (length (pe_deps (p ! v)) - i)]", goal_cases)
  case (2 p v i stack st deps)
  then show ?case using unvisited_update[of Finished st v] by auto
next
  case (4 p v i stack st deps d stack')
  then show ?case using unvisited_visit[of InProgress "nat d" st] by (auto simp: nat_less_iff)
qed auto

fun cycle_from :: "plan \<Rightarrow> nat list \<Rightarrow> visit_state list \<Rightarrow> bool" where
  "cycle_from p [] st = False"
| "cycle_from p (i # rest) st =
     (if st ! i \<noteq> Unvisited then cycle_from p rest st
      else case cycle_dfs p [(i, 0)] (st[i := InProgress]) of
             None \<Rightarrow> True | Some st' \<Rightarrow> cycle_from p rest st')"

definition has_cycle :: "plan \<Rightarrow> bool" where
  "has_cycle p = cycle_from p [0..<length p] (replicate (length p) Unvisited)"

section \<open>File checks\<close>

text \<open>\<open>computeFileOverlaps\<close>\<close>

definition compute_file_overlaps :: "plan \<Rightarrow> (nat \<times> nat \<times> string list) list" where
  "compute_file_overlaps p =
     concat (map (\<lambda>i. let files_i = writable_plan_files (p ! i) in
        if files_i = [] then []
        else List.map_filter (\<lambda>j. let shared = filter (\<lambda>f. f \<in> set files_i) (writable_plan_files (p ! j)) in
               if shared \<noteq> [] then Some (i, j, shared) else None) [i + 1..<length p])
       [0..<length p])"

definition path_dir :: "string \<Rightarrow> string" where
  "path_dir f = path_clean (rev (dropWhile (\<lambda>c. c \<noteq> CHR ''/'') (rev f)))"

fun go_packages_loop :: "string list \<Rightarrow> string list \<Rightarrow> string list" where
  "go_packages_loop pkgs [] = pkgs"
| "go_packages_loop pkgs (f # fs) =
     (if \<not> has_suffix ''.go'' f then go_packages_loop pkgs fs
      else let dir = path_dir f in
        if dir \<noteq> ''.'' \<and> dir \<notin> set pkgs then go_packages_loop (pkgs @ [dir]) fs
        else go_packages_loop pkgs fs)"

definition go_packages :: "string list \<Rightarrow> string list" where
  "go_packages fs = go_packages_loop [] fs"

definition same_package_warnings :: "plan \<Rightarrow> plan_issue list" where
  "same_package_warnings p =
     (let tests = phase_indices ''test'' p; pkgs = (\<lambda>i. go_packages (all_files (p ! i))) in
      concat (map (\<lambda>a. let ia = tests ! a in
        if pkgs ia = [] then []
        else List.map_filter (\<lambda>b. let ib = tests ! b in
               if has_dependency p ia ib then None
               else map_option (SamePackageTests ia ib) (List.find (\<lambda>q. q \<in> set (pkgs ia)) (pkgs ib)))
             [a + 1..<length tests]) [0..<length tests]))"

fun writable_loop :: "nat \<Rightarrow> string \<Rightarrow> string list \<Rightarrow> string list \<Rightarrow> string list \<Rightarrow> plan_issue list" where
  "writable_loop index title declared seen [] = []"
| "writable_loop index title declared seen (file # files) =
     (if trim_space file = []
      then BlankWritableFile index title # writable_loop index title declared seen files
      else (if file \<notin> set declared then [WritableNotInFiles index title file] else [])
         @ (if file \<in> set seen then [DuplicateWritableFile index title file] else [])
         @ writable_loop index title declared (file # seen) files)"

definition validate_writable_file_scopes :: "plan \<Rightarrow> plan_issue list" where
  "validate_writable_file_scopes p =
     concat (map (\<lambda>index. let s = p ! index in
       if pe_writable_files s = [] then []
       else if pe_phase s \<noteq> ''integration'' then [WritableOutsideIntegration index (pe_title s)]
       else writable_loop index (pe_title s) (all_files s) [] (pe_writable_files s)) [0..<length p])"

definition max_implementation_owned_files :: nat where
  "max_implementation_owned_files = 2"

type_synonym owners = "string \<Rightarrow> nat option"

fun own_files :: "nat \<Rightarrow> string list \<Rightarrow> owners \<Rightarrow> plan_issue list \<times> owners" where
  "own_files index [] own = ([], own)"
| "own_files index (file # files) own =
     (case own file of
        Some owner \<Rightarrow> (case own_files index files own of (es, own') \<Rightarrow> (BothOwnFile owner index file # es, own'))
      | None \<Rightarrow> own_files index files (own(file \<mapsto> index)))"

fun granularity_loop :: "plan \<Rightarrow> nat list \<Rightarrow> owners \<Rightarrow> plan_issue list" where
  "granularity_loop p [] own = []"
| "granularity_loop p (index # rest) own =
     (let s = p ! index; files = all_files s in
      if pe_phase s \<noteq> ''implementation'' then granularity_loop p rest own
      else case own_files index files own of (es, own') \<Rightarrow>
        (if max_implementation_owned_files < length files
         then [TooManyOwnedFiles index (pe_title s) (length files)] else [])
        @ (if 1 < length (pe_boundaries s)
           then [TooManyBoundaries index (pe_title s) (length (pe_boundaries s))] else [])
        @ es @ granularity_loop p rest own')"

definition validate_implementation_granularity :: "plan \<Rightarrow> plan_issue list" where
  "validate_implementation_granularity p = granularity_loop p [0..<length p] Map.empty"

section \<open>Test-driven development\<close>

definition has_tdd_phases :: "plan \<Rightarrow> bool" where
  "has_tdd_phases p = list_ex (\<lambda>s. pe_phase s \<noteq> []) p"

definition exempted :: "tdd_exception list \<Rightarrow> nat \<Rightarrow> bool" where
  "exempted xs i \<longleftrightarrow> int i \<in> set (map tx_index xs)"

definition exception_errors :: "plan \<Rightarrow> tdd_exception list \<Rightarrow> plan_issue list" where
  "exception_errors p xs =
     List.map_filter (\<lambda>x. if \<not> in_range (tx_index x) p then Some (ExceptionOutOfBounds (tx_index x))
        else let s = p ! nat (tx_index x) in
          if pe_phase s = ''test'' then Some (ExceptionOnTest (tx_index x) (pe_title s)) else None) xs"

definition exempted_impl_count :: "plan \<Rightarrow> tdd_exception list \<Rightarrow> nat" where
  "exempted_impl_count p xs =
     length (filter (\<lambda>x. in_range (tx_index x) p \<and> pe_phase (p ! nat (tx_index x)) = ''implementation'') xs)"

text \<open>The ratio is compared with one half in floating point; the quotient of two such counts is
  above one half exactly when the fraction is.\<close>

definition exception_warnings :: "plan \<Rightarrow> tdd_exception list \<Rightarrow> plan_issue list" where
  "exception_warnings p xs =
     (let impl_count = length (phase_indices ''implementation'' p); ex = exempted_impl_count p xs in
      if 0 < impl_count \<and> 0 < ex \<and> (1 / 2 :: rat) < of_nat ex / of_nat impl_count
      then [ManyExemptions ex impl_count] else [])"

text \<open>The loop over the test subtasks, with \<open>implCoverage\<close>.\<close>

type_synonym coverage = "nat \<Rightarrow> nat option"

definition tests_for_error :: "plan \<Rightarrow> coverage \<Rightarrow> nat \<Rightarrow> plan_issue option" where
  "tests_for_error p cov ti =
     (let t = p ! ti in
      case pe_tests_for t of
        [k] \<Rightarrow>
          if \<not> in_range k p then Some (TestsForOutOfBounds ti (pe_title t) k)
          else if pe_phase (p ! nat k) \<noteq> ''implementation''
          then Some (TestsForNotImplementation ti (pe_title t) k (pe_phase (p ! nat k)))
          else (case cov (nat k) of Some other \<Rightarrow> Some (DuplicateCoverage other ti k) | None \<Rightarrow> None)
      | ks \<Rightarrow> Some (TestsForNotSingle ti (pe_title t) (length ks)))"

definition test_overlap_warning :: "plan \<Rightarrow> nat \<Rightarrow> int \<Rightarrow> plan_issue list" where
  "test_overlap_warning p ti k =
     (let tf = all_files (p ! ti); jf = all_files (p ! nat k) in
      if tf \<noteq> [] \<and> jf \<noteq> [] \<and> \<not> list_ex (\<lambda>f. f \<in> set tf) jf then [NoTestFileOverlap ti k] else [])"

fun coverage_loop :: "plan \<Rightarrow> nat list \<Rightarrow> coverage \<Rightarrow> plan_issue list \<times> plan_issue list \<times> coverage" where
  "coverage_loop p [] cov = ([], [], cov)"
| "coverage_loop p (ti # tests) cov =
     (case tests_for_error p cov ti of
        Some e \<Rightarrow> (case coverage_loop p tests cov of (ws, es, cov') \<Rightarrow> (ws, e # es, cov'))
      | None \<Rightarrow> (let k = hd (pe_tests_for (p ! ti)) in
          case coverage_loop p tests (cov(nat k \<mapsto> ti)) of
            (ws, es, cov') \<Rightarrow> (test_overlap_warning p ti k @ ws, es, cov')))"

definition phase_ordering_errors :: "plan \<Rightarrow> plan_issue list" where
  "phase_ordering_errors p =
     concat (map (\<lambda>i. let s = p ! i in
       if pe_phase s \<noteq> ''test'' then []
       else List.map_filter (\<lambda>d. if in_range d p \<and> pe_phase (p ! nat d) = ''implementation''
              then Some (TestDependsOnImplementation i (pe_title s) d (pe_title (p ! nat d))) else None)
            (pe_deps s)) [0..<length p])"

definition validate_tdd :: "plan \<Rightarrow> tdd_exception list \<Rightarrow> plan_issue list \<times> plan_issue list" where
  "validate_tdd p xs =
     (let tests = phase_indices ''test'' p; impls = phase_indices ''implementation'' p in
      case coverage_loop p tests Map.empty of (ws, es, cov) \<Rightarrow>
        (exception_warnings p xs @ ws,
         exception_errors p xs
         @ (if impls \<noteq> [] \<and> tests = [] \<and> \<not> list_all (exempted xs) impls then [NoTestSubtasks] else [])
         @ es
         @ List.map_filter (\<lambda>i. if cov i = None \<and> \<not> exempted xs i
             then Some (UncoveredImplementation i (pe_title (p ! i))) else None) impls
         @ phase_ordering_errors p))"

definition is_test_keyword :: "string \<Rightarrow> string \<Rightarrow> bool" where
  "is_test_keyword low kw \<longleftrightarrow> low = kw \<or> has_prefix (kw @ '' '') low \<or> has_prefix (kw @ '':'') low
     \<or> has_suffix ('' '' @ kw) low \<or> str_contains ('' '' @ kw @ '' '') low
     \<or> str_contains ('' '' @ kw @ '':'') low"

definition is_test_subtask :: "plan_entry \<Rightarrow> bool" where
  "is_test_subtask e \<longleftrightarrow>
     (if pe_phase e = ''test'' then True
      else if pe_phase e \<noteq> [] then False
      else if pe_is_test e then True
      else list_ex (is_test_keyword (to_lower (pe_title e))) [''test'', ''tests'', ''testing''])"

definition find_missing_test_dependencies :: "plan \<Rightarrow> nat \<Rightarrow> nat list" where
  "find_missing_test_dependencies p ti =
     filter (\<lambda>i. i \<noteq> ti \<and> \<not> is_test_subtask (p ! i) \<and> int i \<notin> set (pe_deps (p ! ti))) [0..<length p]"

definition legacy_test_ordering_warnings :: "plan \<Rightarrow> plan_issue list" where
  "legacy_test_ordering_warnings p =
     List.map_filter (\<lambda>i. if is_test_subtask (p ! i) \<and> find_missing_test_dependencies p i \<noteq> []
       then Some (LegacyTestOrdering (pe_title (p ! i))) else None) [0..<length p]"

definition plan_touches_doc_files :: "plan \<Rightarrow> bool" where
  "plan_touches_doc_files p =
     list_ex (\<lambda>s. list_ex (\<lambda>f. let low = to_lower f in
        has_prefix ''readme'' low \<or> has_prefix ''docs/'' low \<or> has_prefix ''doc/'' low) (all_files s)) p"

section \<open>Validation\<close>

definition overlap_warnings :: "plan \<Rightarrow> plan_issue list" where
  "overlap_warnings p =
     List.map_filter (\<lambda>(a, b, files). if has_dependency_path p a b then None
       else Some (OverlapWithoutDependency a b files)) (compute_file_overlaps p)"

definition validate_plan :: "plan \<Rightarrow> tdd_exception list \<Rightarrow> plan_validation" where
  "validate_plan p xs =
     (let empty_files = length (filter (\<lambda>s. pe_files s = [] \<and> pe_estimated_files s = []) p);
          tdd = (if has_tdd_phases p then validate_tdd p xs else (legacy_test_ordering_warnings p, []));
          errors = (if has_cycle p then [DependencyCycle] else [])
            @ validate_writable_file_scopes p @ validate_implementation_granularity p @ snd tdd
      in \<lparr>pv_valid = (errors = []),
          pv_warnings = (if 8 < length p then [TooManySubtasks (length p)] else [])
            @ (if 0 < empty_files then [NoFilesListed empty_files] else [])
            @ overlap_warnings p @ same_package_warnings p @ fst tdd
            @ (if plan_touches_doc_files p then [] else [NoDocumentation]),
          pv_errors = errors\<rparr>)"

text \<open>\<open>ValidatePlanFileExistence\<close>: \<open>is_dir\<close> and \<open>exists\<close> are the answers of \<open>os.Stat\<close>.\<close>

record file_system =
  fs_exists :: "string \<Rightarrow> bool"
  fs_is_dir :: "string \<Rightarrow> bool"

definition is_new_file_candidate :: "string \<Rightarrow> plan_entry \<Rightarrow> bool" where
  "is_new_file_candidate f e \<longleftrightarrow> pe_phase e = ''test'' \<or> has_suffix ''_test.go'' f
     \<or> list_ex (\<lambda>verb. has_prefix verb (to_lower (pe_title e)))
         [''add '', ''create '', ''implement '', ''write '', ''scaffold '']"

definition path_escapes :: "string \<Rightarrow> bool" where
  "path_escapes f \<longleftrightarrow> has_prefix ''/'' f \<or> path_clean f = ''..'' \<or> has_prefix ''../'' (path_clean f)"

definition path_join :: "string \<Rightarrow> string \<Rightarrow> string" where
  "path_join a b = path_clean (a @ ''/'' @ b)"

definition file_errors :: "file_system \<Rightarrow> string \<Rightarrow> nat \<Rightarrow> plan_entry \<Rightarrow> plan_issue list" where
  "file_errors fs worktree i e =
     (let abs = (\<lambda>f. path_join worktree (path_clean f));
          missing = filter (\<lambda>f. \<not> path_escapes f \<and> \<not> is_new_file_candidate f e \<and> \<not> fs_exists fs (abs f))
            (all_files e)
      in List.map_filter (\<lambda>f.
           if path_escapes f then Some (PathEscapes i (pe_title e) f)
           else if is_new_file_candidate f e \<and> \<not> fs_is_dir fs (path_dir (abs f))
           then Some (NoParentDirectory i (pe_title e) f) else None) (all_files e)
         @ (if missing \<noteq> [] then [NonExistentPaths i (pe_title e) missing] else []))"

definition validate_plan_file_existence :: "file_system \<Rightarrow> plan \<Rightarrow> string \<Rightarrow> plan_validation" where
  "validate_plan_file_existence fs p worktree =
     (let errors = (if worktree = [] then []
        else concat (map (\<lambda>i. file_errors fs worktree i (p ! i)) [0..<length p]))
      in \<lparr>pv_valid = (errors = []), pv_warnings = [], pv_errors = errors\<rparr>)"

section \<open>Generated dependencies\<close>

definition add_dep :: "nat \<Rightarrow> nat \<Rightarrow> plan \<Rightarrow> plan" where
  "add_dep i j p =
     (if int j \<in> set (pe_deps (p ! i)) then p
      else p[i := (p ! i)\<lparr>pe_deps := pe_deps (p ! i) @ [int j]\<rparr>])"

definition add_test_dep :: "nat \<Rightarrow> plan \<Rightarrow> plan" where
  "add_test_dep ti p =
     (let s = p ! ti in
      case pe_tests_for s of
        [k] \<Rightarrow> if pe_phase s = ''test'' \<and> in_range k p then add_dep (nat k) ti p else p
      | _ \<Rightarrow> p)"

definition merge_tdd_dependencies :: "plan \<Rightarrow> plan" where
  "merge_tdd_dependencies p =
     (let p1 = fold add_test_dep [0..<length p] p in
      fold (\<lambda>i. fold (add_dep i) (phase_indices ''implementation'' p1)) (phase_indices ''integration'' p1) p1)"

end
