(* ===== verification/Constraints.thy ===== *)
theory Constraints
  imports PlanModel
begin

text \<open>
  The constraint system of \<open>internal/constraints\<close> (\<open>config.go\<close>, \<open>evaluate.go\<close>, \<open>report.go\<close>,
  \<open>compare.go\<close>): the configuration, glob patterns with \<open>**\<close>, the evaluation of every kind of
  constraint against a worktree, reports, and the comparison of a feature branch with its baseline.

  The worktree and the tools are the record \<open>constraint_host\<close>: the files of a tree in the order of
  \<open>filepath.WalkDir\<close>, their contents, the shell, \<open>exec.LookPath\<close>, the regular expressions of the
  library, the parser-based \<open>depth.Analyze\<close>, and the iteration order of a Go map.
\<close>

section \<open>Configuration\<close>

record command_constraint =
  cc_name :: string
  cc_run :: string
  cc_expect :: string

record lines_exception =
  le_path :: string
  le_rule :: string
  le_baseline :: int

record max_lines_constraint =
  ml_name :: string
  ml_glob :: string
  ml_exclude :: "string list"
  ml_limit :: int
  ml_exceptions :: "lines_exception list"

record matches_exception =
  mx_path :: string
  mx_rule :: string
  mx_baseline :: int

record max_matches_constraint =
  mm_name :: string
  mm_glob :: string
  mm_exclude :: "string list"
  mm_pattern :: string
  mm_limit :: int
  mm_scope :: string
  mm_count_mode :: string
  mm_exceptions :: "matches_exception list"

record no_match_constraint =
  nm_name :: string
  nm_glob :: string
  nm_exclude_path :: "string list"
  nm_pattern :: string

record depth_exception =
  dx_path :: string
  dx_rule :: string
  dx_ratio :: rat
  dx_pass_thrus :: int

record depth_constraint =
  dc_name :: string
  dc_glob :: string
  dc_exclude :: "string list"
  dc_max_ratio :: rat
  dc_max_pass_throughs :: int
  dc_exceptions :: "depth_exception list"

record constraint_config =
  cf_context_files :: "string list"
  cf_commands :: "command_constraint list"
  cf_max_lines :: "max_lines_constraint list"
  cf_max_matches :: "max_matches_constraint list"
  cf_no_match :: "no_match_constraint list"
  cf_depth :: "depth_constraint list"

record regexp =
  re_matches :: "string \<Rightarrow> bool"
  re_count :: "string \<Rightarrow> nat"

record command_output =
  co_stdout :: string
  co_stderr :: string
  co_error :: "string option"

record constraint_host =
  ch_walk :: "string \<Rightarrow> err + string list"
  ch_read :: "string \<Rightarrow> err + string"
  ch_missing :: "string \<Rightarrow> bool"
  ch_decode :: "string \<Rightarrow> err + constraint_config"
  ch_shell :: "string \<Rightarrow> string \<Rightarrow> command_output"
  ch_has_tool :: "string \<Rightarrow> bool"
  ch_regexp :: "string \<Rightarrow> err + regexp"
  ch_depth :: "string \<Rightarrow> string \<Rightarrow> err + rat \<times> nat"
  ch_order :: "string list \<Rightarrow> string list"

definition with_default :: "string \<Rightarrow> string \<Rightarrow> string" where
  "with_default dflt s = (if s = [] then dflt else s)"

text \<open>\<open>LoadConfig\<close>: no file is \<open>None\<close>.\<close>

definition load_constraint_config :: "constraint_host \<Rightarrow> string \<Rightarrow> err + constraint_config option" where
  "load_constraint_config h worktree =
     (let path = path_join worktree ''.drem/constraints.toml'' in
      if ch_missing h path then Inr None
      else res_bind (ch_read h path) (\<lambda>data. res_bind (ch_decode h data) (\<lambda>cfg.
        Inr (Some (cfg\<lparr>
          cf_commands := map (\<lambda>c. c\<lparr>cc_expect := with_default ''exit_zero'' (cc_expect c)\<rparr>) (cf_commands cfg),
          cf_max_matches := map (\<lambda>c. c\<lparr>mm_scope := with_default ''file'' (mm_scope c)\<rparr>) (cf_max_matches cfg)\<rparr>)))))"

section \<open>Glob patterns\<close>

text \<open>\<open>filepath.Match\<close>: the elements of a pattern, \<open>None\<close> for a malformed one.  A character class
  is a list of ranges, negated or not.\<close>

datatype glob_token = AnySequence | AnyChar | CharClass bool "(char \<times> char) list" | Literal char

definition glob_escape :: "string \<Rightarrow> (char \<times> string) option" where
  "glob_escape s = (case s of
      [] \<Rightarrow> None
    | c # cs \<Rightarrow>
        if c = CHR ''-'' \<or> c = CHR '']'' then None
        else if c = CHR 0x5C then (case cs of x # xs \<Rightarrow> if xs = [] then None else Some (x, xs) | [] \<Rightarrow> None)
        else if cs = [] then None else Some (c, cs))"

lemma glob_escape_length: "glob_escape s = Some (c, r) \<Longrightarrow> length r < length s"
  by (auto simp: glob_escape_def split: list.splits if_splits)

function glob_ranges :: "(char \<times> char) list \<Rightarrow> string \<Rightarrow> ((char \<times> char) list \<times> string) option" where
  "glob_ranges rs s =
     (if rs \<noteq> [] \<and> s \<noteq> [] \<and> hd s = CHR '']'' then Some (rev rs, tl s)
      else (case glob_escape s of
          None \<Rightarrow> None
        | Some (lo, r) \<Rightarrow>
            if hd r = CHR ''-''
            then (case glob_escape (tl r) of None \<Rightarrow> None | Some (hi, r') \<Rightarrow> glob_ranges ((lo, hi) # rs) r')
            else glob_ranges ((lo, lo) # rs) r))"
  by pat_completeness auto

termination
  by (relation "measure (\<lambda>(rs, s). length s)")
    (auto dest!: glob_escape_length simp: less_diff_conv2)

lemma glob_ranges_length: "glob_ranges rs s = Some (rs', r) \<Longrightarrow> length r < length s"
proof (induction rs s rule: glob_ranges.induct)
  case (1 rs s)
  show ?case
  proof (cases "rs \<noteq> [] \<and> s \<noteq> [] \<and> hd s = CHR '']''")
    case True
    with "1.prems" show ?thesis by (cases s) auto
  next
    case False
    then obtain lo q where q: "glob_escape s = Some (lo, q)"
      using "1.prems" by (auto split: option.splits)
    show ?thesis
    proof (cases "hd q = CHR ''-''")
      case True
      then obtain hi q' where q': "glob_escape (tl q) = Some (hi, q')"
        using "1.prems" False q by (auto split: option.splits)
      from "1.prems" False q True q' have "glob_ranges ((lo, hi) # rs) q' = Some (rs', r)" by simp
      from "1.IH"(1)[OF False q refl True q' refl this] glob_escape_length[OF q] glob_escape_length[OF q']
      show ?thesis by simp
    next
      case f: False
      from "1.prems" False q f have "glob_ranges ((lo, lo) # rs) q = Some (rs', r)" by simp
      from "1.IH"(2)[OF False q refl f this] glob_escape_length[OF q] show ?thesis by simp
    qed
  qed
qed

declare glob_ranges.simps [simp del]

function glob_tokens :: "string \<Rightarrow> glob_token list option" where
  "glob_tokens [] = Some []"
| "glob_tokens (c # cs) =
     (if c = CHR ''*'' then map_option ((#) AnySequence) (glob_tokens cs)
      else if c = CHR ''?'' then map_option ((#) AnyChar) (glob_tokens cs)
      else if c = CHR ''['' then
        (let neg = (cs \<noteq> [] \<and> hd cs = CHR ''^'') in
         case glob_ranges [] (if neg then tl cs else cs) of
           None \<Rightarrow> None
         | Some (rs, r) \<Rightarrow> map_option ((#) (CharClass neg rs)) (glob_tokens r))
      else if c = CHR 0x5C then
        (case cs of [] \<Rightarrow> None | x # xs \<Rightarrow> map_option ((#) (Literal x)) (glob_tokens xs))
      else map_option ((#) (Literal c)) (glob_tokens cs))"
  by pat_completeness auto

termination
  by (relation "measure length") (auto dest!: glob_ranges_length split: if_splits)

fun glob_tokens_match :: "glob_token list \<Rightarrow> string \<Rightarrow> bool" where
  "glob_tokens_match [] s = (s = [])"
| "glob_tokens_match (AnySequence # ts) [] = glob_tokens_match ts []"
| "glob_tokens_match (AnySequence # ts) (c # s) =
     (glob_tokens_match ts (c # s) \<or> c \<noteq> CHR ''/'' \<and> glob_tokens_match (AnySequence # ts) s)"
| "glob_tokens_match (t # ts) [] = False"
| "glob_tokens_match (AnyChar # ts) (c # s) = (c \<noteq> CHR ''/'' \<and> glob_tokens_match ts s)"
| "glob_tokens_match (CharClass neg rs # ts) (c # s) =
     (list_ex (\<lambda>(lo, hi). (of_char lo :: nat) \<le> of_char c \<and> (of_char c :: nat) \<le> of_char hi) rs \<noteq> neg
      \<and> glob_tokens_match ts s)"
| "glob_tokens_match (Literal x # ts) (c # s) = (c = x \<and> glob_tokens_match ts s)"

definition filepath_match :: "string \<Rightarrow> string \<Rightarrow> bool" where
  "filepath_match pattern name =
     (case glob_tokens pattern of None \<Rightarrow> False | Some ts \<Rightarrow> glob_tokens_match ts name)"

text \<open>\<open>strings.Split(pattern, "**")\<close>\<close>

fun split_stars :: "string \<Rightarrow> string list" where
  "split_stars [] = [[]]"
| "split_stars [c] = [[c]]"
| "split_stars (c # d # s) =
     (if c = CHR ''*'' \<and> d = CHR ''*'' then [] # split_stars s
      else case split_stars (d # s) of [] \<Rightarrow> [[c]] | p # ps \<Rightarrow> (c # p) # ps)"

definition trim_slashes :: "string \<Rightarrow> string" where
  "trim_slashes s = rev (dropWhile (\<lambda>c. c = CHR ''/'') (rev (dropWhile (\<lambda>c. c = CHR ''/'') s)))"

text \<open>The tails of a path at its separators, the whole path first.\<close>

definition path_tails :: "string \<Rightarrow> string list" where
  "path_tails path = (let ps = split_on CHR ''/'' path in map (\<lambda>i. str_join ''/'' (drop i ps)) [0..<length ps])"

fun match_doublestar_parts :: "bool \<Rightarrow> string \<Rightarrow> string list \<Rightarrow> bool" where
  "match_doublestar_parts first path [] = (path = [])"
| "match_doublestar_parts first path (part # parts) =
     (if first \<and> part \<noteq> [] then
        (let prefix = trim_suffix ''/'' part in
         if \<not> has_prefix prefix path then False
         else if length path = length prefix then match_doublestar_parts False [] parts
         else if path ! length prefix \<noteq> CHR ''/'' then False
         else match_doublestar_parts False (drop (length prefix + 1) path) parts)
      else if parts = [] then
        (let suffix = trim_prefix ''/'' part in
         suffix = [] \<or> list_ex (filepath_match suffix) (path_tails path))
      else
        (let segment = trim_slashes part; ps = split_on CHR ''/'' path in
         if segment = [] then match_doublestar_parts False path parts
         else list_ex (\<lambda>i. filepath_match segment (ps ! i)
                \<and> match_doublestar_parts False (str_join ''/'' (drop (i + 1) ps)) parts) [0..<length ps]))"

definition match_doublestar_glob :: "string \<Rightarrow> string \<Rightarrow> bool" where
  "match_doublestar_glob path pattern =
     (let parts = split_stars pattern in
      if length parts = 1 then filepath_match pattern path else match_doublestar_parts True path parts)"

definition path_base :: "string \<Rightarrow> string" where
  "path_base p = (let q = rev (dropWhile (\<lambda>c. c = CHR ''/'') (rev p)) in
     if p = [] then ''.'' else if q = [] then ''/'' else last (split_on CHR ''/'' q))"

definition match_exclude_pattern :: "string \<Rightarrow> string \<Rightarrow> bool" where
  "match_exclude_pattern path pattern =
     (if CHR ''/'' \<in> set pattern then filepath_match pattern path
      else filepath_match pattern (path_base path))"

text \<open>Hidden directories are skipped, the root included when its own name starts with a dot.\<close>

definition hidden_name :: "string \<Rightarrow> bool" where
  "hidden_name n \<longleftrightarrow> n \<noteq> ''.'' \<and> has_prefix ''.'' n"

definition glob_files :: "constraint_host \<Rightarrow> string \<Rightarrow> string \<Rightarrow> string list \<Rightarrow> err + string list" where
  "glob_files h worktree pattern exclude =
     (if hidden_name (path_base worktree) then Inr []
      else res_bind (ch_walk h worktree) (\<lambda>paths.
        Inr (filter (\<lambda>f. \<not> list_ex hidden_name (butlast (split_on CHR ''/'' f))
               \<and> match_doublestar_glob f pattern \<and> \<not> list_ex (match_exclude_pattern f) exclude) paths)))"

section \<open>Evaluation\<close>

record constraint_result =
  cr_name :: string
  cr_type :: string
  cr_passed :: bool
  cr_messages :: "string list"
  cr_skipped :: bool
  cr_skip_reason :: string

record constraint_report =
  ct_results :: "constraint_result list"
  ct_passed :: nat
  ct_failed :: nat
  ct_skipped :: nat

definition build_report :: "constraint_result list \<Rightarrow> constraint_report" where
  "build_report rs =
     \<lparr>ct_results = rs,
      ct_passed = length (filter (\<lambda>r. \<not> cr_skipped r \<and> cr_passed r) rs),
      ct_failed = length (filter (\<lambda>r. \<not> cr_skipped r \<and> \<not> cr_passed r) rs),
      ct_skipped = length (filter cr_skipped rs)\<rparr>"

text \<open>The result of a file constraint: it fails exactly when a message was added.\<close>

definition file_result :: "string \<Rightarrow> string \<Rightarrow> string list \<Rightarrow> constraint_result" where
  "file_result name type msgs = \<lparr>cr_name = name, cr_type = type, cr_passed = (msgs = []),
     cr_messages = msgs, cr_skipped = False, cr_skip_reason = []\<rparr>"

text \<open>\<open>strings.Fields\<close>\<close>

fun fields_from :: "string \<Rightarrow> string \<Rightarrow> string list" where
  "fields_from cur [] = (if cur = [] then [] else [rev cur])"
| "fields_from cur (c # s) =
     (if is_space c then (if cur = [] then fields_from [] s else rev cur # fields_from [] s)
      else fields_from (c # cur) s)"

definition str_fields :: "string \<Rightarrow> string list" where
  "str_fields s = fields_from [] s"

definition command_tool :: "string \<Rightarrow> string" where
  "command_tool cmd = (case List.find (\<lambda>w. CHR ''='' \<notin> set w) (str_fields cmd) of Some w \<Rightarrow> w | None \<Rightarrow> [])"

definition eval_command :: "constraint_host \<Rightarrow> string \<Rightarrow> command_constraint \<Rightarrow> constraint_result" where
  "eval_command h worktree c =
     (let tool = command_tool (cc_run c); r = file_result (cc_name c) ''command'' [] in
      if tool \<noteq> [] \<and> \<not> ch_has_tool h tool
      then r\<lparr>cr_passed := False, cr_skipped := True, cr_skip_reason := ''tool unavailable: '' @ tool\<rparr>
      else (let out = ch_shell h worktree (cc_run c) in
        if cc_expect c = ''empty_output'' then
          (let text = trim_space (co_stdout out) in
           if text = [] then r else r\<lparr>cr_passed := False, cr_messages := [text]\<rparr>)
        else (case co_error out of
            None \<Rightarrow> r
          | Some e \<Rightarrow> (let both = trim_space (co_stdout out @ CHR 0x0A # co_stderr out) in
              r\<lparr>cr_passed := False, cr_messages := [if both = [] then e else both]\<rparr>))))"

text \<open>The loop over files, an error in one ends it.\<close>

fun collect :: "('a \<Rightarrow> err + 'b list) \<Rightarrow> 'a list \<Rightarrow> err + 'b list" where
  "collect f [] = Inr []"
| "collect f (x # xs) = res_bind (f x) (\<lambda>ys. res_bind (collect f xs) (\<lambda>zs. Inr (ys @ zs)))"

definition over :: "string \<Rightarrow> string \<Rightarrow> string \<Rightarrow> int \<Rightarrow> int \<Rightarrow> string list" where
  "over path what limit count bound =
     (if bound < count
      then [path @ '' has '' @ show_int count @ what @ '', exceeds '' @ limit @ '' of '' @ show_int bound]
      else [])"

type_synonym file_set = "string list option"

definition wanted :: "file_set \<Rightarrow> string \<Rightarrow> bool" where
  "wanted fset f \<longleftrightarrow> (case fset of None \<Rightarrow> True | Some fs \<Rightarrow> f \<in> set fs)"

definition eval_max_lines :: "constraint_host \<Rightarrow> string \<Rightarrow> file_set \<Rightarrow> max_lines_constraint \<Rightarrow> err + constraint_result" where
  "eval_max_lines h worktree fset c =
     res_bind (glob_files h worktree (ml_glob c) (ml_exclude c)) (\<lambda>files.
     res_bind (collect (\<lambda>f. res_bind (ch_read h (path_join worktree f)) (\<lambda>data.
         let n = int (length (filter (\<lambda>x. x = CHR 0x0A) data)) in
         Inr (case List.find (\<lambda>e. le_path e = f) (ml_exceptions c) of
            Some e \<Rightarrow> over f '' lines'' ''shrink-only baseline'' n (le_baseline e)
          | None \<Rightarrow> over f '' lines'' ''limit'' n (ml_limit c))))
       (filter (wanted fset) files)) (\<lambda>msgs. Inr (file_result (ml_name c) ''max_lines'' msgs)))"

definition over_matches :: "max_matches_constraint \<Rightarrow> string \<Rightarrow> nat \<Rightarrow> string list" where
  "over_matches c path n =
     (case List.find (\<lambda>e. mx_path e = path) (mm_exceptions c) of
        Some e \<Rightarrow> over path '' matches'' ''shrink-only baseline'' (int n) (mx_baseline e)
      | None \<Rightarrow> over path '' matches'' ''limit'' (int n) (mm_limit c))"

text \<open>The counts of a directory: distinct matching lines, or all occurrences.\<close>

definition directory_of :: "string \<Rightarrow> string" where
  "directory_of f = path_dir f @ ''/''"

definition directory_count :: "max_matches_constraint \<Rightarrow> regexp \<Rightarrow> (string \<times> string) list \<Rightarrow> string \<Rightarrow> nat" where
  "directory_count c re contents dir =
     (let datas = map snd (filter (\<lambda>(f, _). directory_of f = dir) contents) in
      if mm_count_mode c = ''unique''
      then length (remdups (concat (map (\<lambda>s. map trim_space (filter (re_matches re) (split_on CHR 0x0A s))) datas)))
      else sum_list (map (re_count re) datas))"

definition eval_max_matches ::
  "constraint_host \<Rightarrow> string \<Rightarrow> file_set \<Rightarrow> max_matches_constraint \<Rightarrow> err + constraint_result" where
  "eval_max_matches h worktree fset c =
     res_bind (ch_regexp h (''(?m)'' @ mm_pattern c)) (\<lambda>re.
     res_bind (glob_files h worktree (mm_glob c) (mm_exclude c)) (\<lambda>files.
     res_bind (collect (\<lambda>f. res_bind (ch_read h (path_join worktree f)) (\<lambda>data. Inr [(f, data)]))
       (filter (wanted fset) files)) (\<lambda>contents.
     Inr (file_result (mm_name c) ''max_matches''
       (if mm_scope c = ''directory''
        then concat (map (\<lambda>dir. over_matches c dir (directory_count c re contents dir))
               (ch_order h (remdups (map (\<lambda>(f, _). directory_of f) contents))))
        else concat (map (\<lambda>(f, data). over_matches c f (re_count re data)) contents))))))"

definition eval_no_match ::
  "constraint_host \<Rightarrow> string \<Rightarrow> file_set \<Rightarrow> no_match_constraint \<Rightarrow> err + constraint_result" where
  "eval_no_match h worktree fset c =
     res_bind (ch_regexp h (nm_pattern c)) (\<lambda>re.
     res_bind (glob_files h worktree (nm_glob c) []) (\<lambda>files.
     res_bind (collect (\<lambda>f. res_bind (ch_read h (path_join worktree f)) (\<lambda>data.
         Inr (map (\<lambda>line. f @ '': '' @ trim_space line) (filter (re_matches re) (split_on CHR 0x0A data)))))
       (filter (\<lambda>f. wanted fset f \<and> \<not> list_ex (\<lambda>ep. has_prefix ep f) (nm_exclude_path c)) files)) (\<lambda>msgs.
     Inr (file_result (nm_name c) ''no_match'' msgs))))"

text \<open>The verb \<open>%.4f\<close>: the nearest multiple of 1/10000.\<close>

definition pad4 :: "nat \<Rightarrow> string" where
  "pad4 n = (let s = show_nat n in replicate (4 - length s) CHR ''0'' @ s)"

definition fixed4 :: "rat \<Rightarrow> string" where
  "fixed4 q = (let n = nat \<lfloor>\<bar>q\<bar> * 10000 + 1 / 2\<rfloor> in
     (if q < 0 then ''-'' else []) @ show_nat (n div 10000) @ ''.'' @ pad4 (n mod 10000))"

definition over_ratio :: "string \<Rightarrow> string \<Rightarrow> rat \<Rightarrow> rat \<Rightarrow> string list" where
  "over_ratio dir limit r bound =
     (if bound < r
      then [dir @ '' has export ratio '' @ fixed4 r @ '', exceeds '' @ limit @ '' of '' @ fixed4 bound] else [])"

definition eval_depth_package ::
  "constraint_host \<Rightarrow> string \<Rightarrow> file_set \<Rightarrow> depth_constraint \<Rightarrow> string list \<Rightarrow> string \<Rightarrow> err + string list" where
  "eval_depth_package h worktree fset c files dir =
     (let names = map path_base (filter (\<lambda>f. path_dir f = dir) files) in
      if list_all (has_suffix ''_test.go'') names \<or> \<not> list_ex (\<lambda>n. wanted fset (path_join dir n)) names
      then Inr []
      else res_bind (ch_depth h worktree dir) (\<lambda>(ratio, pass_thrus).
        Inr (case List.find (\<lambda>e. dx_path e = dir \<or> dx_path e = dir @ ''/'') (dc_exceptions c) of
           Some e \<Rightarrow> over_ratio dir ''shrink-only baseline'' ratio (dx_ratio e)
             @ over dir '' pass-throughs'' ''shrink-only baseline'' (int pass_thrus) (dx_pass_thrus e)
         | None \<Rightarrow> over_ratio dir ''limit'' ratio (dc_max_ratio c)
             @ over dir '' pass-throughs'' ''limit'' (int pass_thrus) (dc_max_pass_throughs c))))"

definition eval_depth :: "constraint_host \<Rightarrow> string \<Rightarrow> file_set \<Rightarrow> depth_constraint \<Rightarrow> err + constraint_result" where
  "eval_depth h worktree fset c =
     res_bind (glob_files h worktree (dc_glob c) (dc_exclude c)) (\<lambda>files.
     res_bind (collect (eval_depth_package h worktree fset c files) (ch_order h (remdups (map path_dir files)))) (\<lambda>msgs.
     Inr (file_result (dc_name c) ''depth'' msgs)))"

definition eval_file_constraints ::
  "constraint_host \<Rightarrow> constraint_config \<Rightarrow> string \<Rightarrow> file_set \<Rightarrow> err + constraint_result list" where
  "eval_file_constraints h cfg worktree fset =
     (let each = (\<lambda>f cs. collect (\<lambda>c. map_sum id (\<lambda>r. [r]) (f h worktree fset c)) cs) in
      res_bind (each eval_max_lines (cf_max_lines cfg)) (\<lambda>r1.
      res_bind (collect (\<lambda>c. map_sum id (\<lambda>r. [r]) (eval_max_matches h worktree fset c)) (cf_max_matches cfg)) (\<lambda>r2.
      res_bind (collect (\<lambda>c. map_sum id (\<lambda>r. [r]) (eval_no_match h worktree fset c)) (cf_no_match cfg)) (\<lambda>r3.
      res_bind (collect (\<lambda>c. map_sum id (\<lambda>r. [r]) (eval_depth h worktree fset c)) (cf_depth cfg)) (\<lambda>r4.
      Inr (r1 @ r2 @ r3 @ r4))))))"

definition evaluate_constraints :: "constraint_host \<Rightarrow> constraint_config \<Rightarrow> string \<Rightarrow> err + constraint_report" where
  "evaluate_constraints h cfg worktree =
     res_bind (eval_file_constraints h cfg worktree None) (\<lambda>rs.
       Inr (build_report (map (eval_command h worktree) (cf_commands cfg) @ rs)))"

definition evaluate_files ::
  "constraint_host \<Rightarrow> constraint_config \<Rightarrow> string \<Rightarrow> string list \<Rightarrow> err + constraint_report" where
  "evaluate_files h cfg worktree files =
     res_bind (eval_file_constraints h cfg worktree (Some files)) (\<lambda>rs. Inr (build_report rs))"

section \<open>Reports\<close>

definition report_line :: "constraint_result \<Rightarrow> string" where
  "report_line r =
     (if cr_skipped r then ''SKIP: '' @ cr_name r
        @ (if cr_skip_reason r \<noteq> [] then '' ('' @ cr_skip_reason r @ '')'' else []) @ [CHR 0x0A]
      else if cr_passed r then ''PASS: '' @ cr_name r @ [CHR 0x0A]
      else ''FAIL: '' @ cr_name r @ CHR 0x0A # concat (map (\<lambda>m. ''  '' @ m @ [CHR 0x0A]) (cr_messages r)))"

definition report_rule :: string where
  "report_rule = concat (replicate 26 [CHR 0xE2, CHR 0x94, CHR 0x80]) @ [CHR 0x0A]"

definition format_report :: "constraint_report \<Rightarrow> string" where
  "format_report rep = concat (map report_line (ct_results rep)) @ report_rule
     @ show_nat (ct_passed rep) @ '' checks passed, '' @ show_nat (ct_skipped rep) @ '' skipped, ''
     @ show_nat (ct_failed rep) @ '' failed'' @ [CHR 0x0A]"

section \<open>Comparison\<close>

record comparison_result =
  cp_dominated :: bool
  cp_new_violations :: "string list"
  cp_worsened :: "string list"
  cp_additions :: "string list"

definition magnitude :: "comparison_result \<Rightarrow> nat" where
  "magnitude r = length (cp_new_violations r) + length (cp_worsened r)"

definition comparison_summary :: "comparison_result \<Rightarrow> string" where
  "comparison_summary r =
     (if \<not> cp_dominated r then ''no regression: all constraints stable or improved''
      else str_join ''; '' (map ((@) ''new violation: '') (cp_new_violations r)
        @ map ((@) ''worsened: '') (cp_worsened r) @ map ((@) ''addition: '') (cp_additions r)))"

datatype constraint_change = Unchanged | NewViolation | Worsened | Addition

text \<open>The classification of one current result; of equal names in the baseline the last counts.\<close>

definition baseline_result :: "constraint_report \<Rightarrow> string \<Rightarrow> constraint_result option" where
  "baseline_result base name = List.find (\<lambda>r. cr_name r = name) (rev (ct_results base))"

definition classify_change :: "constraint_report \<Rightarrow> constraint_result \<Rightarrow> constraint_change" where
  "classify_change base cur =
     (if cr_skipped cur then Unchanged
      else (case baseline_result base (cr_name cur) of
          None \<Rightarrow> if \<not> cr_passed cur then Addition else Unchanged
        | Some b \<Rightarrow>
            if cr_skipped b then Unchanged
            else if cr_passed b \<and> cr_passed cur then Unchanged
            else if cr_passed b \<and> \<not> cr_passed cur then NewViolation
            else if \<not> cr_passed b \<and> cr_passed cur then Unchanged
            else if length (cr_messages b) < length (cr_messages cur) then Worsened else Unchanged))"

definition compare_reports :: "constraint_report \<Rightarrow> constraint_report \<Rightarrow> comparison_result" where
  "compare_reports base cur =
     (let names = (\<lambda>k. map cr_name (filter (\<lambda>r. classify_change base r = k) (ct_results cur))) in
      \<lparr>cp_dominated = (names NewViolation \<noteq> [] \<or> names Worsened \<noteq> []),
       cp_new_violations = names NewViolation, cp_worsened = names Worsened, cp_additions = names Addition\<rparr>)"

datatype baseline_status = BaselineUnset | BaselineOK | BaselineFailed | BaselineMissing

record delta_result =
  de_skipped :: bool
  de_status :: baseline_status
  de_comparison :: comparison_result
  de_feature :: constraint_report

definition no_comparison :: comparison_result where
  "no_comparison = \<lparr>cp_dominated = False, cp_new_violations = [], cp_worsened = [], cp_additions = []\<rparr>"

definition evaluate_delta :: "constraint_host \<Rightarrow> constraint_config \<Rightarrow> string \<Rightarrow> string \<Rightarrow> err + delta_result" where
  "evaluate_delta h cfg feature_dir baseline_dir =
     res_bind (evaluate_constraints h cfg feature_dir) (\<lambda>feature.
       let skipped = (\<lambda>st. Inr \<lparr>de_skipped = True, de_status = st, de_comparison = no_comparison, de_feature = feature\<rparr>) in
       case load_constraint_config h baseline_dir of
         Inl e \<Rightarrow> skipped BaselineFailed
       | Inr None \<Rightarrow> skipped BaselineMissing
       | Inr (Some base_cfg) \<Rightarrow>
           (case evaluate_constraints h base_cfg baseline_dir of
              Inl e \<Rightarrow> skipped BaselineFailed
            | Inr base \<Rightarrow> Inr \<lparr>de_skipped = False, de_status = BaselineOK,
                de_comparison = compare_reports base feature, de_feature = feature\<rparr>))"

end
