(* ===== verification/ConstraintGate.thy ===== *)
theory ConstraintGate
  imports Constraints MergeExecution
begin

text \<open>
  The constraint gate of \<open>internal/orchestrator/constraint_gate_policy.go\<close>: a parent task may leave
  test writing or implementation only when no constraint got worse than on the default branch.  A
  blocked task waits with exponential backoff and is failed after five blocked evaluations, or at
  once when an evaluation is no better than the one before.

  \<open>gate_env\<close> holds what the gate reads: the constraint host, the worktree paths, the parser and
  printer of RFC 3339 times, the random jitter, and the diagnosis a supervisor model adds to the
  task's context.  Agents' violation counters and comments are not modelled.
\<close>

section \<open>Policy\<close>

record gate_policy =
  gp_max_retries :: int
  gp_base_delay :: duration64
  gp_max_delay :: duration64

definition max_constraint_gate_retries :: int where
  "max_constraint_gate_retries = 5"

definition seconds :: "int \<Rightarrow> duration64" where
  "seconds n = of_int (n * 1000000000)"

definition default_gate_policy :: gate_policy where
  "default_gate_policy =
     \<lparr>gp_max_retries = max_constraint_gate_retries, gp_base_delay = seconds 30, gp_max_delay = seconds 600\<rparr>"

definition gate_delay :: "(duration64 \<Rightarrow> duration64) \<Rightarrow> gate_policy \<Rightarrow> int \<Rightarrow> duration64" where
  "gate_delay jitter p attempt =
     (let n = (if attempt < 1 then 1 else attempt);
          d = double_times (nat n - 1) (gp_base_delay p);
          d' = (if 0 <s gp_max_delay p \<and> gp_max_delay p <s d then gp_max_delay p else d)
      in d' + jitter d')"

definition gate_exhausted :: "gate_policy \<Rightarrow> int \<Rightarrow> bool" where
  "gate_exhausted p attempt \<longleftrightarrow> gp_max_retries p \<le> attempt"

definition should_terminate_early :: "comparison_result \<Rightarrow> comparison_result \<Rightarrow> bool" where
  "should_terminate_early current previous \<longleftrightarrow>
     cp_dominated previous \<and> magnitude previous \<le> magnitude current"

record constraint_failure =
  fl_name :: string
  fl_current :: string
  fl_limit :: string

definition format_constraint_failure :: "constraint_failure list \<Rightarrow> int \<Rightarrow> int \<Rightarrow> string" where
  "format_constraint_failure failures attempt max_retries =
     ''constraint gate failed (attempt '' @ show_int attempt @ ''/'' @ show_int max_retries @ '')''
     @ (if failures = [] then []
        else '':'' @ CHR 0x0A # concat (map (\<lambda>f. ''  - '' @ fl_name f @ '': current='' @ fl_current f
               @ '', limit='' @ fl_limit f @ [CHR 0x0A]) failures))"

section \<open>The gate\<close>

record gate_env =
  ge_host :: constraint_host
  ge_feature_path :: "string \<Rightarrow> string"
  ge_main_path :: "err + string"
  ge_parse_time :: "string \<Rightarrow> time option"
  ge_format_time :: "time \<Rightarrow> string"
  ge_jitter :: "duration64 \<Rightarrow> duration64"
  ge_diagnose :: "constraint_report \<Rightarrow> json_field \<Rightarrow> json_field"

definition gate_keys :: "string list" where
  "gate_keys = [''constraint_gate_retries'', ''constraint_gate_next_check'',
     ''constraint_gate_previous_failed'', ''constraint_violations'']"

definition float_counter :: "task \<Rightarrow> string \<Rightarrow> int" where
  "float_counter tk key = (case json_get (t_context tk) key of Some (GFloat q) \<Rightarrow> trunc_rat q | _ \<Rightarrow> 0)"

definition gate_retries :: "task \<Rightarrow> int" where
  "gate_retries tk = float_counter tk ''constraint_gate_retries''"

definition gate_previous :: "task \<Rightarrow> int" where
  "gate_previous tk = float_counter tk ''constraint_gate_previous_failed''"

definition nonnil_context :: "task \<Rightarrow> task" where
  "nonnil_context tk = (if t_context tk = None then tk\<lparr>t_context := Some Map.empty\<rparr> else tk)"

text \<open>\<open>make([]string, n)\<close> for a positive \<open>n\<close>\<close>

definition previous_result :: "int \<Rightarrow> comparison_result" where
  "previous_result n = (if 0 < n
     then no_comparison\<lparr>cp_dominated := True, cp_new_violations := replicate (nat n) []\<rparr> else no_comparison)"

definition backoff_active :: "gate_env \<Rightarrow> time \<Rightarrow> task \<Rightarrow> bool" where
  "backoff_active env now tk \<longleftrightarrow>
     (case json_get (t_context tk) ''constraint_gate_next_check'' of
        Some (GStr s) \<Rightarrow> (case ge_parse_time env s of Some next_check \<Rightarrow> now < next_check | None \<Rightarrow> False)
      | _ \<Rightarrow> False)"

text \<open>The part of the gate for a regression: count, fail, or schedule the next check.\<close>

definition gate_blocked ::
  "gate_env \<Rightarrow> uuid \<Rightarrow> time \<Rightarrow> delta_result \<Rightarrow> task \<Rightarrow> db \<Rightarrow> (err + bool) \<times> task \<times> db" where
  "gate_blocked env eid now delta tk d =
     (let rep = de_feature delta; comparison = de_comparison delta;
          tk1 = (if list_ex (\<lambda>r. \<not> cr_passed r \<and> cr_type r = ''depth'') (ct_results rep)
                 then tk\<lparr>t_context := ge_diagnose env rep (t_context tk)\<rparr> else tk);
          retries = gate_retries tk1 + 1; previous = gate_previous tk1;
          failed = (\<lambda>reason. (let (r, tk2, d2) = failed_with eid now reason tk1 d in
             (map_sum id (\<lambda>_. True) r, tk2, d2)))
      in if gate_exhausted default_gate_policy retries
         then failed (''constraint gate exhausted after '' @ show_int retries @ '' retries: '' @ format_report rep)
         else if should_terminate_early comparison (previous_result previous)
         then failed (''constraint gate: no improvement in constraint failures (current='' @ show_nat (magnitude comparison)
                @ '', previous='' @ show_int previous @ ''): '' @ format_report rep)
         else
           (let next_check = now + sint (gate_delay (ge_jitter env) default_gate_policy retries);
                ctx = json_put ''constraint_violations'' (GStr (format_report rep))
                  (json_put ''constraint_gate_next_check'' (GStr (ge_format_time env next_check))
                  (json_put ''constraint_gate_previous_failed'' (GFloat (of_nat (magnitude comparison)))
                  (json_put ''constraint_gate_retries'' (GFloat (of_int retries)) (t_context tk1))));
                (tk2, d2) = save_task now (tk1\<lparr>t_context := ctx\<rparr>) d
            in (Inr True, tk2, d2)))"

definition evaluate_constraint_gate ::
  "gate_env \<Rightarrow> uuid \<Rightarrow> time \<Rightarrow> task \<Rightarrow> db \<Rightarrow> (err + bool) \<times> task \<times> db" where
  "evaluate_constraint_gate env eid now tk0 d =
     (let tk = nonnil_context tk0;
          feature_dir = ge_feature_path env (trim_prefix ''feature/'' (t_branch tk)) in
      if backoff_active env now tk then (Inr True, tk, d)
      else (case load_constraint_config (ge_host env) feature_dir of
          Inl e \<Rightarrow> (Inr False, tk, d)
        | Inr None \<Rightarrow> (Inr False, tk, d)
        | Inr (Some cfg) \<Rightarrow>
            (case ge_main_path env of
               Inl e \<Rightarrow> (Inr False, tk, d)
             | Inr main_dir \<Rightarrow>
                 (case evaluate_delta (ge_host env) cfg feature_dir main_dir of
                    Inl e \<Rightarrow> (Inr False, tk, d)
                  | Inr delta \<Rightarrow>
                      if de_skipped delta then (Inr False, tk, d)
                      else if \<not> cp_dominated (de_comparison delta)
                      then (Inr False, tk\<lparr>t_context := fold json_del gate_keys (t_context tk)\<rparr>, d)
                      else gate_blocked env eid now delta tk d))))"

section \<open>Comparison is a preorder\<close>

definition constraint_names :: "constraint_report \<Rightarrow> string list" where
  "constraint_names rep = map cr_name (ct_results rep)"

lemma baseline_result_unique:
  assumes "distinct (constraint_names rep)" and "r \<in> set (ct_results rep)"
  shows "baseline_result rep (cr_name r) = Some r"
proof -
  obtain x where x: "List.find (\<lambda>q. cr_name q = cr_name r) (rev (ct_results rep)) = Some x"
    using assms(2) find_None_iff_set[of "\<lambda>q. cr_name q = cr_name r" "rev (ct_results rep)"]
    by (metis not_None_eq set_rev)
  have "x \<in> set (ct_results rep)" "cr_name x = cr_name r" using find_Some_set[OF x] by auto
  then have "x = r" using assms by (auto simp: constraint_names_def distinct_map inj_on_def)
  then show ?thesis using x by (simp add: baseline_result_def)
qed

lemma baseline_result_Some: "baseline_result rep n = Some r \<Longrightarrow> r \<in> set (ct_results rep) \<and> cr_name r = n"
  unfolding baseline_result_def by (drule find_Some_set) simp

lemma not_dominated_iff:
  "\<not> cp_dominated (compare_reports base rep) \<longleftrightarrow>
   (\<forall>r \<in> set (ct_results rep). classify_change base r \<notin> {NewViolation, Worsened})"
  by (auto simp: compare_reports_def Let_def filter_empty_conv)

definition complete_report :: "string set \<Rightarrow> constraint_report \<Rightarrow> bool" where
  "complete_report names rep \<longleftrightarrow> distinct (constraint_names rep) \<and> set (constraint_names rep) = names
     \<and> list_all (\<lambda>r. \<not> cr_skipped r) (ct_results rep)"

lemma complete_lookup:
  assumes "complete_report names a" and "n \<in> names"
  shows "\<exists>r \<in> set (ct_results a). cr_name r = n \<and> \<not> cr_skipped r \<and> baseline_result a n = Some r"
proof -
  obtain r where "r \<in> set (ct_results a)" "cr_name r = n"
    using assms by (auto simp: complete_report_def constraint_names_def)
  then show ?thesis
    using assms baseline_result_unique[of a r] by (auto simp: complete_report_def list_all_iff)
qed

text \<open>Without skipped results and over the same constraints, "no regression" is reflexive and
  transitive, so a branch that is admitted step by step never regresses against its first
  baseline.\<close>

theorem no_regression_preorder:
  assumes "complete_report names a" and "complete_report names b" and "complete_report names c"
  shows "\<not> cp_dominated (compare_reports a a)
    \<and> (cp_dominated (compare_reports a c) \<longrightarrow>
         cp_dominated (compare_reports a b) \<or> cp_dominated (compare_reports b c))"
proof
  show "\<not> cp_dominated (compare_reports a a)"
    using assms(1) by (auto simp: not_dominated_iff classify_change_def baseline_result_unique complete_report_def)
  have "\<not> cp_dominated (compare_reports a c)"
    if ab: "\<not> cp_dominated (compare_reports a b)" and bc: "\<not> cp_dominated (compare_reports b c)"
  proof (unfold not_dominated_iff, intro ballI)
    fix r assume r: "r \<in> set (ct_results c)"
    let ?n = "cr_name r"
    have n: "?n \<in> names" using r assms(3) by (auto simp: complete_report_def constraint_names_def)
    obtain x where x: "baseline_result a ?n = Some x" "\<not> cr_skipped x"
      using complete_lookup[OF assms(1) n] by blast
    obtain y where y: "y \<in> set (ct_results b)" "cr_name y = ?n" "baseline_result b ?n = Some y" "\<not> cr_skipped y"
      using complete_lookup[OF assms(2) n] by blast
    have 1: "classify_change a y \<notin> {NewViolation, Worsened}" using ab y(1) by (simp add: not_dominated_iff)
    have 2: "classify_change b r \<notin> {NewViolation, Worsened}" using bc r by (simp add: not_dominated_iff)
    show "classify_change a r \<notin> {NewViolation, Worsened}"
      using 1 2 x y by (auto simp: classify_change_def split: if_splits)
  qed
  then show "cp_dominated (compare_reports a c) \<longrightarrow>
      cp_dominated (compare_reports a b) \<or> cp_dominated (compare_reports b c)" by blast
qed

section \<open>The gate makes progress\<close>

lemma save_task_fst: "fst (save_task now tk d) = tk\<lparr>t_updated := now\<rparr>"
  by (simp add: save_task_def Let_def)

lemma trunc_rat_of [simp]: "trunc_rat (of_nat n) = int n" "trunc_rat (of_int i) = i"
  by (simp_all add: trunc_rat_def)

lemma trunc_rat_Suc [simp]: "trunc_rat (of_int i + 1) = i + 1"
  using trunc_rat_of(2)[of "i + 1"] by simp

lemma float_counter_update [simp]:
  "float_counter (tk\<lparr>t_updated := now\<rparr>) k = float_counter tk k"
  "float_counter (tk\<lparr>t_context := json_put k (GFloat q) j\<rparr>) k' =
     (if k' = k then trunc_rat q else float_counter (tk\<lparr>t_context := j\<rparr>) k')"
  "float_counter (tk\<lparr>t_context := json_put k (GStr s) j\<rparr>) k' =
     (if k' = k then 0 else float_counter (tk\<lparr>t_context := j\<rparr>) k')"
  by (simp_all add: float_counter_def)

lemma failed_with_status:
  assumes "failed_with eid now reason tk d = (Inr u, tk', d')"
  shows "t_status tk' = StatusFailed"
  using assms by (auto simp: failed_with_def fail_task_def transition_task_atomic_def cas_task_transition_def
      Let_def split: prod.splits sum.splits if_splits dest!: guarded_cas_request_Inr(2))

lemma failed_with_map:
  "\<lbrakk>failed_with eid now reason tk d = (x, tk', d'); map_sum id (\<lambda>_. True) x = Inr b\<rbrakk> \<Longrightarrow> t_status tk' = StatusFailed"
  by (cases x) (auto dest: failed_with_status)

definition keeps_gate_keys :: "gate_env \<Rightarrow> bool" where
  "keeps_gate_keys env \<longleftrightarrow>
     (\<forall>rep j k. k \<in> set gate_keys \<longrightarrow> json_get (ge_diagnose env rep j) k = json_get j k)"

lemma diagnose_counters:
  assumes "keeps_gate_keys env"
  shows "gate_retries (tk\<lparr>t_context := ge_diagnose env rep (t_context tk)\<rparr>) = gate_retries tk"
    "gate_previous (tk\<lparr>t_context := ge_diagnose env rep (t_context tk)\<rparr>) = gate_previous tk"
  using assms by (simp_all add: keeps_gate_keys_def gate_keys_def gate_retries_def gate_previous_def float_counter_def)

lemma counters_nonnil: "gate_retries (nonnil_context tk) = gate_retries tk" "gate_previous (nonnil_context tk) = gate_previous tk"
  by (auto simp: nonnil_context_def gate_retries_def gate_previous_def float_counter_def json_get_def)

lemma magnitude_previous: "0 < n \<Longrightarrow> magnitude (previous_result n) = nat n \<and> cp_dominated (previous_result n)"
  by (simp add: previous_result_def magnitude_def no_comparison_def)

lemma dominated_magnitude: "cp_dominated (compare_reports a b) \<longleftrightarrow> 0 < magnitude (compare_reports a b)"
  by (simp add: compare_reports_def magnitude_def Let_def)

lemma evaluate_delta_comparison:
  "evaluate_delta h cfg dir main = Inr delta \<Longrightarrow>
   de_comparison delta = no_comparison \<or> (\<exists>a b. de_comparison delta = compare_reports a b)"
  unfolding evaluate_delta_def res_bind_def Let_def by (fastforce split: sum.splits option.splits)

lemma gate_blocked_progress:
  assumes "gate_blocked env eid now delta tk d = (Inr True, tk', d')" and "t_status tk' \<noteq> StatusFailed"
    and "keeps_gate_keys env"
  shows "gate_retries tk' = gate_retries tk + 1 \<and> gate_retries tk' \<le> 4
    \<and> gate_previous tk' = int (magnitude (de_comparison delta))
    \<and> (0 < gate_previous tk \<longrightarrow> gate_previous tk' < gate_previous tk)"
proof -
  let ?rep = "de_feature delta"
  define tk1 where "tk1 = (if list_ex (\<lambda>r. \<not> cr_passed r \<and> cr_type r = ''depth'') (ct_results ?rep)
    then tk\<lparr>t_context := ge_diagnose env ?rep (t_context tk)\<rparr> else tk)"
  have c: "gate_retries tk1 = gate_retries tk" "gate_previous tk1 = gate_previous tk"
    using assms(3) by (simp_all add: tk1_def diagnose_counters)
  have ex: "\<not> gate_exhausted default_gate_policy (gate_retries tk1 + 1)"
    and early: "\<not> should_terminate_early (de_comparison delta) (previous_result (gate_previous tk1))"
    using assms(1,2) unfolding gate_blocked_def Let_def tk1_def[symmetric]
    by (auto split: if_splits prod.splits dest!: failed_with_map)
  from assms(1) ex early have tk': "gate_retries tk' = gate_retries tk1 + 1"
    "gate_previous tk' = int (magnitude (de_comparison delta))"
    unfolding gate_blocked_def Let_def tk1_def[symmetric]
    by (auto simp: save_task_def gate_retries_def gate_previous_def Let_def)
  have "magnitude (de_comparison delta) < nat (gate_previous tk1)" if "0 < gate_previous tk1"
    using early magnitude_previous[OF that] by (simp add: should_terminate_early_def)
  then show ?thesis
    using tk' c ex by (auto simp: gate_exhausted_def default_gate_policy_def max_constraint_gate_retries_def)
qed

text \<open>C29: The gate cannot block a task for ever.  A tick on which it blocks without failing the task
  either waits for the backoff and changes nothing, or counts one more evaluation, at most four, and
  unless it is the first its number of regressed constraints is strictly smaller than before.\<close>

theorem constraint_gate_progress:
  assumes "evaluate_constraint_gate env eid now tk d = (Inr True, tk', d')"
    and "t_status tk' \<noteq> StatusFailed" and "keeps_gate_keys env"
  shows "backoff_active env now (nonnil_context tk) \<and> tk' = nonnil_context tk \<and> d' = d
    \<or> gate_retries tk' = gate_retries tk + 1 \<and> gate_retries tk' \<le> 4
      \<and> 0 < gate_previous tk' \<and> (0 < gate_previous tk \<longrightarrow> gate_previous tk' < gate_previous tk)"
proof (cases "backoff_active env now (nonnil_context tk)")
  case True
  with assms(1) show ?thesis by (simp add: evaluate_constraint_gate_def Let_def)
next
  case False
  with assms(1) obtain cfg dir main delta where
    delta: "evaluate_delta (ge_host env) cfg dir main = Inr delta" "\<not> de_skipped delta"
    "cp_dominated (de_comparison delta)"
    and blocked: "gate_blocked env eid now delta (nonnil_context tk) d = (Inr True, tk', d')"
    by (auto simp: evaluate_constraint_gate_def Let_def split: sum.splits option.splits if_splits)
  have "0 < magnitude (de_comparison delta)"
    using delta(3) evaluate_delta_comparison[OF delta(1)]
    by (auto simp: no_comparison_def dominated_magnitude)
  with gate_blocked_progress[OF blocked assms(2,3)] show ?thesis
    unfolding counters_nonnil by auto
qed

section \<open>Examples\<close>

definition sample_config_file :: constraint_config where
  "sample_config_file = \<lparr>cf_context_files = [], cf_commands = [\<lparr>cc_name = ''vet'', cc_run = ''go vet ./...'', cc_expect = []\<rparr>],
     cf_max_lines = [], cf_max_matches = [], cf_no_match = [], cf_depth = []\<rparr>"

definition sample_host :: constraint_host where
  "sample_host = \<lparr>ch_walk = (\<lambda>_. Inr []), ch_read = (\<lambda>_. Inr []), ch_missing = (\<lambda>_. False),
     ch_decode = (\<lambda>_. Inr sample_config_file),
     ch_shell = (\<lambda>dir _. \<lparr>co_stdout = [], co_stderr = [], co_error = (if dir = ''feature'' then Some ''exit status 1'' else None)\<rparr>),
     ch_has_tool = (\<lambda>_. True), ch_regexp = (\<lambda>_. Inl (ErrMsg [])), ch_depth = (\<lambda>_ _. Inl (ErrMsg [])), ch_order = id\<rparr>"

definition sample_gate :: gate_env where
  "sample_gate = \<lparr>ge_host = sample_host, ge_feature_path = (\<lambda>_. ''feature''), ge_main_path = Inr ''main'',
     ge_parse_time = (\<lambda>_. None), ge_format_time = (\<lambda>_. []), ge_jitter = (\<lambda>_. 0), ge_diagnose = (\<lambda>_ j. j)\<rparr>"

definition sample_report :: "bool \<Rightarrow> string list \<Rightarrow> constraint_report" where
  "sample_report ok msgs = build_report [\<lparr>cr_name = ''vet'', cr_type = ''command'', cr_passed = ok, cr_messages = msgs,
     cr_skipped = False, cr_skip_reason = []\<rparr>]"

theorem no_regression_preorder_witness:
  "cp_dominated (compare_reports (sample_report True []) (sample_report False [''a'', ''b'']))
   \<and> (cp_dominated (compare_reports (sample_report True []) (sample_report False [''a'']))
      \<or> cp_dominated (compare_reports (sample_report False [''a'']) (sample_report False [''a'', ''b''])))"
proof -
  have "complete_report {''vet''} (sample_report b m)" for b m
    by (simp add: complete_report_def sample_report_def build_report_def constraint_names_def)
  moreover have "cp_dominated (compare_reports (sample_report True []) (sample_report False [''a'', ''b'']))"
    by code_simp
  ultimately show ?thesis
    using no_regression_preorder[of "{''vet''}" "sample_report True []" "sample_report False [''a'']"
        "sample_report False [''a'', ''b'']"] by blast
qed

lemma sample_gate_blocks:
  "fst (evaluate_constraint_gate sample_gate ''e'' 0 (run_task StatusInProgress 3) empty_db) = Inr True
   \<and> t_status (fst (snd (evaluate_constraint_gate sample_gate ''e'' 0 (run_task StatusInProgress 3) empty_db))) = StatusInProgress
   \<and> gate_retries (fst (snd (evaluate_constraint_gate sample_gate ''e'' 0 (run_task StatusInProgress 3) empty_db))) = 1"
  by code_simp

theorem constraint_gate_progress_witness:
  "\<exists>tk' d'. evaluate_constraint_gate sample_gate ''e'' 0 (run_task StatusInProgress 3) empty_db = (Inr True, tk', d')
     \<and> gate_retries tk' = 1 \<and> 0 < gate_previous tk'"
proof -
  let ?r = "evaluate_constraint_gate sample_gate ''e'' 0 (run_task StatusInProgress 3) empty_db"
  obtain tk' d' where r: "?r = (Inr True, tk', d')" "t_status tk' \<noteq> StatusFailed" "gate_retries tk' = 1"
    using sample_gate_blocks by (cases ?r) auto
  have k: "keeps_gate_keys sample_gate" by (simp add: keeps_gate_keys_def sample_gate_def)
  have b: "\<not> backoff_active sample_gate 0 (nonnil_context (run_task StatusInProgress 3))" by code_simp
  from constraint_gate_progress[OF r(1,2) k] b r show ?thesis by blast
qed

end
