(* ===== verification/Scheduling.thy ===== *)
theory Scheduling
  imports ReworkRouting
begin

text \<open>
  \<open>internal/orchestrator/scheduler.go\<close>: which candidate subtasks may be dispatched next to the
  work in progress (\<open>EvaluateDispatch\<close>), and the wave groups of a set of subtasks
  (\<open>BuildSchedule\<close>).

  \<open>parse_id\<close> is \<open>uuid.Parse\<close> of google/uuid.  \<open>sortq\<close> is the order in which
  \<open>sort.Slice\<close> leaves a slice of nodes, of which Go promises only that it is a permutation
  sorted by the comparison (\<open>sorts_by_degree\<close>).  A conflict score is the exact quotient; the
  source's \<open>float64\<close> quotient compares with its constant 0.3 in the same way, because rounding
  is monotone and two quotients of file counts below 2^50 that differ do so by more than an ulp.
  Reading the database does not fail here.
\<close>

type_synonym parse_id = "string \<Rightarrow> uuid option"

section \<open>File overlap\<close>

definition conflict_score_block_threshold :: rat where
  "conflict_score_block_threshold = 3 / 10"

definition unique_set :: "string list \<Rightarrow> string list" where
  "unique_set items = remdups items"

definition compute_conflict_score :: "string list \<Rightarrow> string list \<Rightarrow> rat" where
  "compute_conflict_score a b =
     (let set_a = unique_set a; set_b = unique_set b in
      if set_a = [] \<or> set_b = [] then 0
      else (let intersection = length (filter (\<lambda>f. f \<in> set set_b) set_a);
                min_size = (if length set_b < length set_a then length set_b else length set_a) in
            of_nat intersection / of_nat min_size))"

text \<open>The loop of \<open>fileOverlapDetails\<close> over \<open>a\<close>, with the files already seen.\<close>

fun overlap_files :: "string list \<Rightarrow> string list \<Rightarrow> string list \<Rightarrow> string list" where
  "overlap_files set_b seen [] = []"
| "overlap_files set_b seen (f # fs) =
     (if f \<in> set set_b \<and> f \<notin> set seen then f # overlap_files set_b (f # seen) fs
      else overlap_files set_b seen fs)"

definition file_overlap_details :: "string list \<Rightarrow> string list \<Rightarrow> string list \<times> rat" where
  "file_overlap_details a b = (overlap_files (unique_set b) [] a, compute_conflict_score a b)"

section \<open>Dependencies\<close>

definition dependencies_met :: "db \<Rightarrow> string list \<Rightarrow> bool" where
  "dependencies_met d dependency_ids =
     (if dependency_ids = [] then True
      else tbl_count (\<lambda>t. t_id t \<in> set dependency_ids \<and> t_status t = StatusDone) (db_tasks d)
             = length dependency_ids)"

definition describe_dependencies :: "db \<Rightarrow> string list \<Rightarrow> string" where
  "describe_dependencies d ids =
     (if ids = [] then ''none''
      else str_join '', '' (map (\<lambda>i.
         case tbl_first t_id (\<lambda>t. t_id t = i) (db_tasks d) of
           None \<Rightarrow> i @ ''(missing)''
         | Some t \<Rightarrow> i @ ''('' @ task_status_string (t_status t) @ '')'') ids))"

definition describe_mixed_phase_dependency_block :: "db \<Rightarrow> task \<Rightarrow> string" where
  "describe_mixed_phase_dependency_block d cand =
     (if t_phase cand \<noteq> ''test'' \<or> t_deps cand = [] then []
      else
        (let blockers = List.map_filter (\<lambda>dep_id.
               case load_task dep_id d of
                 Inl _ \<Rightarrow> None
               | Inr dep \<Rightarrow>
                   (if t_phase dep = ''implementation'' \<and> t_status dep \<noteq> StatusDone
                    then Some (t_id dep @ ''('' @ t_phase dep @ '': '' @ task_status_string (t_status dep) @ '')'')
                    else None)) (t_deps cand) in
         if blockers = [] then []
         else ''mixed-phase dependency blocker: test-phase task depends on implementation-phase work that cannot run during test_writing: ''
                @ str_join '', '' blockers))"

section \<open>Wave groups\<close>

record subtask_group =
  sg_order :: int
  sg_task_ids :: "uuid list"

record schedule =
  sch_groups :: "subtask_group list"

definition is_terminal_wave_status :: "task_status \<Rightarrow> bool" where
  "is_terminal_wave_status s \<longleftrightarrow> s \<in> {StatusDone, StatusFailed, StatusRejected, StatusCancelled}"

text \<open>\<open>json.Unmarshal\<close> of the re-encoded context value into a \<open>Schedule\<close>; \<open>None\<close> is an
  error.  A missing or null member leaves the zero value.\<close>

fun map_opt :: "('a \<Rightarrow> 'b option) \<Rightarrow> 'a list \<Rightarrow> 'b list option" where
  "map_opt f [] = Some []"
| "map_opt f (x # xs) =
     (case f x of None \<Rightarrow> None | Some y \<Rightarrow> (case map_opt f xs of None \<Rightarrow> None | Some ys \<Rightarrow> Some (y # ys)))"

definition decode_list :: "(gany \<Rightarrow> 'a option) \<Rightarrow> gany option \<Rightarrow> 'a list option" where
  "decode_list f v =
     (case v of
        None \<Rightarrow> Some []
      | Some GNil \<Rightarrow> Some []
      | Some (GList xs) \<Rightarrow> map_opt f xs
      | Some (GStrs xs) \<Rightarrow> map_opt f (map GStr xs)
      | _ \<Rightarrow> None)"

definition decode_order :: "gany option \<Rightarrow> int option" where
  "decode_order v =
     (case v of
        None \<Rightarrow> Some 0
      | Some GNil \<Rightarrow> Some 0
      | Some (GInt i) \<Rightarrow> Some i
      | Some (GFloat q) \<Rightarrow> (if of_int \<lfloor>q\<rfloor> = q then Some \<lfloor>q\<rfloor> else None)
      | _ \<Rightarrow> None)"

definition decode_group :: "parse_id \<Rightarrow> gany \<Rightarrow> subtask_group option" where
  "decode_group parse v =
     (case v of
        GNil \<Rightarrow> Some \<lparr>sg_order = 0, sg_task_ids = []\<rparr>
      | GMap m \<Rightarrow>
          (case decode_order (map_of m ''order'') of
             None \<Rightarrow> None
           | Some ord \<Rightarrow>
               (case decode_list (\<lambda>x. case x of GStr s \<Rightarrow> parse s | GNil \<Rightarrow> Some uuid_Nil | _ \<Rightarrow> None)
                       (map_of m ''task_ids'') of
                  None \<Rightarrow> None
                | Some task_ids \<Rightarrow> Some \<lparr>sg_order = ord, sg_task_ids = task_ids\<rparr>))
      | _ \<Rightarrow> None)"

definition decode_schedule :: "parse_id \<Rightarrow> gany \<Rightarrow> schedule option" where
  "decode_schedule parse v =
     (case v of
        GNil \<Rightarrow> Some \<lparr>sch_groups = []\<rparr>
      | GMap m \<Rightarrow> map_option (\<lambda>gs. \<lparr>sch_groups = gs\<rparr>) (decode_list (decode_group parse) (map_of m ''groups''))
      | _ \<Rightarrow> None)"

text \<open>The search loop starts with -1 and stops at the first group that leaves it non-negative.\<close>

fun find_group :: "uuid \<Rightarrow> int \<Rightarrow> subtask_group list \<Rightarrow> int" where
  "find_group cand cur [] = cur"
| "find_group cand cur (g # gs) =
     (let cur' = (if cand \<in> set (sg_task_ids g) then sg_order g else cur) in
      if 0 \<le> cur' then cur' else find_group cand cur' gs)"

definition wave_reason :: "int \<Rightarrow> int \<Rightarrow> uuid \<Rightarrow> task_status \<Rightarrow> string" where
  "wave_reason cand_group order tid st =
     ''wave group '' @ show_int cand_group @ '' blocked: group '' @ show_int order @ '' task '' @ tid @
     '' is '' @ task_status_string st"

definition wave_blocker :: "db \<Rightarrow> uuid list \<Rightarrow> uuid \<Rightarrow> task_status option" where
  "wave_blocker d active tid =
     (if tid \<in> set active
      then Some (case load_task tid d of Inl _ \<Rightarrow> StatusInProgress | Inr t \<Rightarrow> t_status t)
      else (case load_task tid d of
              Inl _ \<Rightarrow> None
            | Inr t \<Rightarrow> (if is_terminal_wave_status (t_status t) then None else Some (t_status t))))"

fun group_blocker :: "db \<Rightarrow> uuid list \<Rightarrow> int \<Rightarrow> int \<Rightarrow> uuid list \<Rightarrow> string option" where
  "group_blocker d active cand_group order [] = None"
| "group_blocker d active cand_group order (tid # tids) =
     (case wave_blocker d active tid of
        Some st \<Rightarrow> Some (wave_reason cand_group order tid st)
      | None \<Rightarrow> group_blocker d active cand_group order tids)"

fun earlier_blocker :: "db \<Rightarrow> uuid list \<Rightarrow> int \<Rightarrow> subtask_group list \<Rightarrow> string option" where
  "earlier_blocker d active cand_group [] = None"
| "earlier_blocker d active cand_group (g # gs) =
     (if cand_group \<le> sg_order g then earlier_blocker d active cand_group gs
      else (case group_blocker d active cand_group (sg_order g) (sg_task_ids g) of
              Some r \<Rightarrow> Some r
            | None \<Rightarrow> earlier_blocker d active cand_group gs))"

definition is_wave_blocked :: "parse_id \<Rightarrow> db \<Rightarrow> task \<Rightarrow> uuid list \<Rightarrow> bool \<times> string" where
  "is_wave_blocked parse d cand active =
     (case t_parent cand of
        None \<Rightarrow> (False, [])
      | Some pid \<Rightarrow>
          (case load_task pid d of
             Inl _ \<Rightarrow> (False, [])
           | Inr parent \<Rightarrow>
               (case json_get (t_context parent) ''schedule'' of
                  None \<Rightarrow> (False, [])
                | Some raw \<Rightarrow>
                    (case decode_schedule parse raw of
                       None \<Rightarrow> (False, [])
                     | Some sch \<Rightarrow>
                         (let cand_group = find_group (t_id cand) (-1) (sch_groups sch) in
                          if cand_group < 0 then (False, [])
                          else (case earlier_blocker d active cand_group (sch_groups sch) of
                                  Some r \<Rightarrow> (True, r)
                                | None \<Rightarrow> (False, [])))))))"

section \<open>Dispatch decisions\<close>

record conflict_detail =
  cd_blocking :: uuid
  cd_overlap :: "string list"
  cd_score :: rat

record dispatch_decision =
  dd_task :: uuid
  dd_dispatchable :: bool
  dd_reason :: string
  dd_conflicts :: "conflict_detail list"

text \<open>The file list of an in-progress task by identifier: a later row with the same identifier
  replaces an earlier one in the map.\<close>

definition in_progress_files :: "task list \<Rightarrow> uuid \<Rightarrow> string list" where
  "in_progress_files in_progress i =
     (case map_of (rev (map (\<lambda>t. (t_id t, extract_writable_files t)) in_progress)) i of
        None \<Rightarrow> [] | Some fs \<Rightarrow> fs)"

definition in_progress_conflicts :: "string list \<Rightarrow> task list \<Rightarrow> conflict_detail list" where
  "in_progress_conflicts cand_files in_progress =
     List.map_filter (\<lambda>ip.
       (let files = in_progress_files in_progress (t_id ip) in
        if cand_files = [] \<or> files = [] then None
        else (let (overlap, score) = file_overlap_details cand_files files in
              if conflict_score_block_threshold \<le> score
              then Some \<lparr>cd_blocking = t_id ip, cd_overlap = overlap, cd_score = score\<rparr> else None)))
       in_progress"

definition evaluate_candidate ::
  "parse_id \<Rightarrow> bool \<Rightarrow> db \<Rightarrow> task \<Rightarrow> task list \<Rightarrow> dispatch_decision" where
  "evaluate_candidate parse disable_wave_gating d cand in_progress =
     (let no = (\<lambda>reason. \<lparr>dd_task = t_id cand, dd_dispatchable = False, dd_reason = reason, dd_conflicts = []\<rparr>);
          (blocked, wave) = (if disable_wave_gating then (False, [])
                             else is_wave_blocked parse d cand (map t_id in_progress));
          conflicts = in_progress_conflicts (extract_writable_files cand) in_progress in
      if t_deps cand \<noteq> [] \<and> \<not> dependencies_met d (t_deps cand) then
        (let mixed = describe_mixed_phase_dependency_block d cand in
         no (if mixed \<noteq> [] then mixed
             else ''unmet dependencies: '' @ describe_dependencies d (t_deps cand)))
      else if blocked then no wave
      else if conflicts \<noteq> [] then
        \<lparr>dd_task = t_id cand, dd_dispatchable = False,
         dd_reason = ''file conflict with '' @ show_nat (length conflicts) @ '' in-progress task(s)'',
         dd_conflicts = conflicts\<rparr>
      else \<lparr>dd_task = t_id cand, dd_dispatchable = True, dd_reason = ''all checks passed'', dd_conflicts = []\<rparr>)"

text \<open>The map from files to the first approved candidate that holds them.\<close>

type_synonym held_files = "(string \<times> uuid) list"

fun hold_files :: "uuid \<Rightarrow> string list \<Rightarrow> held_files \<Rightarrow> held_files" where
  "hold_files i [] acc = acc"
| "hold_files i (f # fs) acc =
     hold_files i fs (case map_of acc f of None \<Rightarrow> acc @ [(f, i)] | Some _ \<Rightarrow> acc)"

fun mutual_pass :: "(task \<times> dispatch_decision) list \<Rightarrow> held_files \<Rightarrow> dispatch_decision list" where
  "mutual_pass [] acc = []"
| "mutual_pass ((cand, dec) # rest) acc =
     (let cand_files = extract_writable_files cand in
      if \<not> dd_dispatchable dec \<or> cand_files = [] then dec # mutual_pass rest acc
      else
        (let (overlap, score) = file_overlap_details cand_files (map fst acc) in
         if acc \<noteq> [] \<and> conflict_score_block_threshold \<le> score then
           (let blocking = (case overlap of
                              [] \<Rightarrow> uuid_Nil
                            | f # _ \<Rightarrow> (case map_of acc f of None \<Rightarrow> uuid_Nil | Some i \<Rightarrow> i)) in
            dec\<lparr>dd_dispatchable := False,
                dd_reason := ''file conflict with co-dispatched task '' @ blocking,
                dd_conflicts := dd_conflicts dec @
                  [\<lparr>cd_blocking = blocking, cd_overlap = overlap, cd_score = score\<rparr>]\<rparr>
              # mutual_pass rest acc)
         else dec # mutual_pass rest (hold_files (t_id cand) cand_files acc)))"

definition evaluate_dispatch ::
  "parse_id \<Rightarrow> bool \<Rightarrow> db \<Rightarrow> task list \<Rightarrow> task list \<Rightarrow> dispatch_decision list" where
  "evaluate_dispatch parse disable_wave_gating d candidates in_progress =
     mutual_pass
       (map (\<lambda>c. (c, evaluate_candidate parse disable_wave_gating d c in_progress)) candidates) []"

definition active_task_files :: "db \<Rightarrow> uuid \<Rightarrow> string list option" where
  "active_task_files d =
     map_of (rev (map (\<lambda>t. (t_id t, extract_writable_files t))
       (filter (\<lambda>t. t_status t \<in> {StatusInProgress, StatusMerging} \<and> extract_writable_files t \<noteq> [])
         (db_tasks d))))"

section \<open>When dependencies are met\<close>

text \<open>\<open>DependenciesMet\<close> compares a count of rows with the length of the list, so a list that names a
  dependency twice is never met.\<close>

lemma dependencies_met_iff:
  assumes "uniq task_conflict (db_tasks d)"
  shows "dependencies_met d deps \<longleftrightarrow>
     distinct deps \<and> (\<forall>i \<in> set deps. \<exists>t \<in> set (db_tasks d). t_id t = i \<and> t_status t = StatusDone)"
proof -
  let ?P = "\<lambda>t. t_id t \<in> set deps \<and> t_status t = StatusDone"
  let ?rows = "filter ?P (db_tasks d)"
  have "distinct (map t_id (db_tasks d))"
    using assms unfolding uniq_def task_conflict_def
    by (simp add: distinct_map distinct_conv_nth sorted_wrt_iff_nth_less inj_on_def) (metis linorder_neqE_nat nth_mem in_set_conv_nth)
  then have d: "distinct (map t_id ?rows)" by (simp add: distinct_map_filter)
  let ?ids = "set (map t_id ?rows)"
  have len: "length ?rows = card ?ids" using distinct_card [OF d] by simp
  have sub: "?ids \<subseteq> set deps" by auto
  have le: "card (set deps) \<le> length deps" by (rule card_length)
  have "length ?rows = length deps \<longleftrightarrow> distinct deps \<and> set deps \<subseteq> ?ids"
  proof
    assume e: "length ?rows = length deps"
    then have "card (set deps) \<le> card ?ids" using len le by simp
    then have eq: "?ids = set deps" using sub by (intro card_seteq) simp_all
    then have "card (set deps) = length deps" using e len by simp
    then show "distinct deps \<and> set deps \<subseteq> ?ids" using eq by (simp add: card_distinct)
  next
    assume "distinct deps \<and> set deps \<subseteq> ?ids"
    then show "length ?rows = length deps"
      using sub len by (metis distinct_card subset_antisym)
  qed
  moreover have "set deps \<subseteq> ?ids \<longleftrightarrow> (\<forall>i \<in> set deps. \<exists>t \<in> set (db_tasks d). t_id t = i \<and> t_status t = StatusDone)"
    by auto
  ultimately show ?thesis by (auto simp: dependencies_met_def tbl_count_def)
qed

end
