(* ===== verification/ParentReadiness.thy ===== *)
theory ParentReadiness
  imports ConstraintGate Scheduling
begin

text \<open>
  When a parent task may move on: \<open>internal/orchestrator/parent_readiness.go\<close>, the completion
  check of \<open>task_processing.go\<close> (\<open>checkFeatureCompletion\<close> and its helpers), the selection of
  the active tests in \<open>test_writing.go\<close>, \<open>repairSupersededTestDependencies\<close> of
  \<open>subtask_scheduling.go\<close> and \<open>reconcile_parents.go\<close>.

  The maps keyed by a task identifier are lists; \<open>re_order\<close> is the iteration order of the map of
  required subtasks.  The feature worktree, the main worktree and the constraint gate come with
  \<open>gate_env\<close>, git with \<open>git\<close>.  Notifications and log lines are left out.
\<close>

section \<open>Children\<close>

definition child_rows :: "uuid \<Rightarrow> db \<Rightarrow> task list" where
  "child_rows pid d = filter (\<lambda>t. t_parent t = Some pid) (db_tasks d)"

text \<open>\<open>byID[id]\<close> after the loop that fills it: a later row would replace an earlier one.\<close>

definition by_id :: "task list \<Rightarrow> string \<Rightarrow> task option" where
  "by_id subs i = List.find (\<lambda>s. t_id s = i) (rev subs)"

lemma child_rows_map:
  assumes "db_tasks d' = map f (db_tasks d)" "\<And>r. r \<in> set (db_tasks d) \<Longrightarrow> t_parent (f r) = t_parent r"
  shows "child_rows i d' = map f (child_rows i d)"
proof -
  have "filter (\<lambda>t. t_parent t = Some i) (map f rows) = map f (filter (\<lambda>t. t_parent t = Some i) rows)"
    if "\<And>r. r \<in> set rows \<Longrightarrow> t_parent (f r) = t_parent r" for rows
    using that by (induction rows) auto
  with assms show ?thesis by (simp add: child_rows_def)
qed

section \<open>Cancelled and superseded subtasks\<close>

definition cancellation_kind :: "task \<Rightarrow> string" where
  "cancellation_kind tk =
     (case json_get (t_context tk) ''cancellation_kind'' of Some (GStr s) \<Rightarrow> trim_space s | _ \<Rightarrow> [])"

definition is_ignorable_cancelled_subtask :: "task \<Rightarrow> bool" where
  "is_ignorable_cancelled_subtask tk \<longleftrightarrow>
     t_status tk = StatusCancelled \<and> cancellation_kind tk \<in> {[], ''superseded'', ''replan''}"

definition is_dependency_failure_cancelled_subtask :: "task \<Rightarrow> bool" where
  "is_dependency_failure_cancelled_subtask tk \<longleftrightarrow>
     t_status tk = StatusCancelled \<and> cancellation_kind tk = ''dependency_failure''"

text \<open>Rejected tests whose implementations are all covered by a finished test.\<close>

definition covered_by_done_revision :: "task list \<Rightarrow> string list" where
  "covered_by_done_revision subs =
     concat (map t_tests_for (filter (\<lambda>s. t_phase s = ''test'' \<and> t_status s = StatusDone) subs))"

definition superseded_rejected :: "task list \<Rightarrow> task \<Rightarrow> bool" where
  "superseded_rejected subs s \<longleftrightarrow> t_phase s = ''test'' \<and> t_status s = StatusRejected \<and> t_tests_for s \<noteq> []
     \<and> list_all (\<lambda>i. i \<in> set (covered_by_done_revision subs)) (t_tests_for s)"

definition superseded_rejected_test_ids :: "task list \<Rightarrow> uuid list" where
  "superseded_rejected_test_ids subs = map t_id (filter (superseded_rejected subs) subs)"

section \<open>Active tests\<close>

text \<open>\<open>strings.LastIndex\<close> of a non-empty text\<close>

definition last_index :: "string \<Rightarrow> string \<Rightarrow> nat option" where
  "last_index sub s = List.find (\<lambda>i. has_prefix sub (drop i s)) (rev [0..<length s])"

lemma last_index_less: "last_index sub s = Some i \<Longrightarrow> i < length s \<and> has_prefix sub (drop i s)"
  by (auto simp: last_index_def dest: find_Some_set)

definition revision_mark :: string where
  "revision_mark = '' (revision ''"

definition is_digit :: "char \<Rightarrow> bool" where
  "is_digit c \<longleftrightarrow> 48 \<le> (of_char c :: nat) \<and> (of_char c :: nat) \<le> 57"

function test_writing_title_key :: "string \<Rightarrow> string" where
  "test_writing_title_key title =
     (case last_index revision_mark title of
        None \<Rightarrow> title
      | Some i \<Rightarrow>
          (let revision = butlast (drop (i + length revision_mark) title) in
           if \<not> has_suffix '')'' title \<or> revision = [] \<or> \<not> list_all is_digit revision then title
           else test_writing_title_key (take i title)))"
  by pat_completeness auto
termination
  by (relation "measure length") (auto dest: last_index_less)

declare test_writing_title_key.simps [simp del]

text \<open>The newest row of a title; among rows of the same time the first.\<close>

definition newest_by_title :: "task list \<Rightarrow> string \<Rightarrow> task option" where
  "newest_by_title subs key =
     fold (\<lambda>s acc. if test_writing_title_key (t_title s) \<noteq> key then acc
        else case acc of None \<Rightarrow> Some s | Some n \<Rightarrow> if t_created n < t_created s then Some s else acc) subs None"

definition active_test_writing_subtasks :: "task list \<Rightarrow> task list" where
  "active_test_writing_subtasks subs = filter (\<lambda>s. \<not> (t_status s = StatusRejected \<and>
     (case newest_by_title subs (test_writing_title_key (t_title s)) of
        Some n \<Rightarrow> t_id n \<noteq> t_id s | None \<Rightarrow> False))) subs"

definition is_future_test :: "task list \<Rightarrow> task \<Rightarrow> bool" where
  "is_future_test subs s \<longleftrightarrow> t_phase s = ''test'' \<and> t_status s = StatusBacklog
     \<and> list_ex (\<lambda>i. case by_id subs i of
          Some dep \<Rightarrow> t_phase dep = ''implementation'' \<and> t_status dep \<noteq> StatusDone | None \<Rightarrow> False) (t_deps s)"

section \<open>Required subtasks\<close>

text \<open>One pass of the loop that adds the dependencies of required subtasks; entries added
  during the pass are visited by the next one.\<close>

fun add_required :: "task list \<Rightarrow> string list \<Rightarrow> string list \<Rightarrow> string list" where
  "add_required subs [] req = req"
| "add_required subs (i # is) req =
     add_required subs is (if Option.is_none (by_id subs i) \<or> i \<in> set req then req else req @ [i])"

definition deps_of :: "task list \<Rightarrow> string \<Rightarrow> string list" where
  "deps_of subs i = (case by_id subs i of Some s \<Rightarrow> t_deps s | None \<Rightarrow> [])"

definition required_pass :: "task list \<Rightarrow> string list \<Rightarrow> string list" where
  "required_pass subs req = add_required subs (concat (map (deps_of subs) req)) req"

lemma add_required_extends: "\<exists>new. add_required subs is req = req @ new \<and> set new \<inter> set req = {}
   \<and> set new \<subseteq> {i \<in> set is. by_id subs i \<noteq> None}"
proof (induction subs "is" req rule: add_required.induct)
  case (2 subs i "is" req)
  then show ?case
    by (cases "Option.is_none (by_id subs i) \<or> i \<in> set req") (fastforce simp: Option.is_none_def)+
qed simp

lemma add_required_complete: "i \<in> set is \<Longrightarrow> by_id subs i \<noteq> None \<Longrightarrow> i \<in> set (add_required subs is req)"
proof (induction subs "is" req rule: add_required.induct)
  case (2 subs j "is" req)
  let ?req = "if Option.is_none (by_id subs j) \<or> j \<in> set req then req else req @ [j]"
  show ?case
  proof (cases "i = j")
    case True
    then have "i \<in> set ?req" using 2(3) by (auto simp: Option.is_none_def)
    then show ?thesis using add_required_extends[of subs "is" ?req] by fastforce
  next
    case False
    then show ?thesis using 2 by simp
  qed
qed simp

lemma by_id_in: "by_id subs i = Some s \<Longrightarrow> s \<in> set subs \<and> t_id s = i"
  by (auto simp: by_id_def dest: find_Some_set)

lemma required_pass_extends: "\<exists>new. required_pass subs req = req @ new \<and> set new \<inter> set req = {}
   \<and> set new \<subseteq> t_id ` set subs"
  using add_required_extends[of subs "concat (map (deps_of subs) req)" req]
  unfolding required_pass_def by (fastforce dest: by_id_in)

function close_required :: "task list \<Rightarrow> string list \<Rightarrow> string list" where
  "close_required subs req =
     (let req' = required_pass subs req in if req' = req then req else close_required subs req')"
  by pat_completeness auto
termination
proof (relation "measure (\<lambda>(subs, req). card (t_id ` set subs - set req))")
  fix subs req req' assume r: "req' = required_pass subs req" "req' \<noteq> req"
  then obtain new where new: "req' = req @ new" "set new \<inter> set req = {}" "set new \<subseteq> t_id ` set subs"
    using required_pass_extends by metis
  with r(2) obtain x where "x \<in> set new" by (cases new) auto
  with new have "t_id ` set subs - set req' \<subset> t_id ` set subs - set req" by auto
  then have "card (t_id ` set subs - set req') < card (t_id ` set subs - set req)"
    by (intro psubset_card_mono) auto
  then show "((subs, req'), subs, req) \<in> measure (\<lambda>(subs, req). card (t_id ` set subs - set req))" by simp
qed simp

declare close_required.simps [simp del]

definition required_subtasks :: "task list \<Rightarrow> task_status \<Rightarrow> string list" where
  "required_subtasks subs target =
     (if target = StatusTestReview then
        close_required subs (remdups (map t_id (filter (\<lambda>s. \<not> is_future_test subs s)
          (active_test_writing_subtasks (filter (\<lambda>s. t_phase s = ''test'') subs)))))
      else if target \<in> {StatusTestingReady, StatusMerging, StatusDone} then
        remdups (map t_id (filter (\<lambda>s. t_id s \<notin> set (superseded_rejected_test_ids subs)) subs))
      else [])"

section \<open>Readiness\<close>

text \<open>The verb \<open>%q\<close>: control characters, quotes and backslashes are escaped.\<close>

definition hex_digit :: "nat \<Rightarrow> char" where
  "hex_digit n = (''0123456789abcdef'' ! (n mod 16))"

definition quote_char :: "char \<Rightarrow> string" where
  "quote_char c =
     (let n = of_char c :: nat in
      if n = 0x22 then [CHR 0x5C, CHR 0x22] else if n = 0x5C then [CHR 0x5C, CHR 0x5C]
      else if n = 0x07 then CHR 0x5C # ''a'' else if n = 0x08 then CHR 0x5C # ''b''
      else if n = 0x0C then CHR 0x5C # ''f'' else if n = 0x0A then CHR 0x5C # ''n''
      else if n = 0x0D then CHR 0x5C # ''r'' else if n = 0x09 then CHR 0x5C # ''t''
      else if n = 0x0B then CHR 0x5C # ''v''
      else if n < 0x20 \<or> n = 0x7F then CHR 0x5C # CHR ''x'' # [hex_digit (n div 16), hex_digit n]
      else [c])"

definition go_quote :: "string \<Rightarrow> string" where
  "go_quote s = CHR 0x22 # concat (map quote_char s) @ [CHR 0x22]"

record parent_readiness =
  pr_ready :: bool
  pr_blockers :: "string list"
  pr_any_failed :: bool

definition failed_status :: "task_status \<Rightarrow> bool" where
  "failed_status s \<longleftrightarrow> s \<in> {StatusFailed, StatusRejected}"

definition status_blocker :: "task \<Rightarrow> string" where
  "status_blocker s = ''subtask '' @ t_id s @ '' ('' @ t_title s @ '', phase '' @ go_quote (t_phase s) @ '') is ''
     @ task_status_string (t_status s)"

definition dependency_blockers :: "task list \<Rightarrow> task \<Rightarrow> string \<Rightarrow> string list" where
  "dependency_blockers subs s i =
     (case by_id subs i of
        None \<Rightarrow> [''subtask '' @ t_id s @ '' has missing dependency '' @ i]
      | Some dep \<Rightarrow>
          (if t_status dep = StatusDone then []
           else [''dependency-blocked: subtask '' @ t_id s @ '' (phase '' @ go_quote (t_phase s) @ '') depends on ''
                   @ t_id dep @ '' (phase '' @ go_quote (t_phase dep) @ '', status ''
                   @ task_status_string (t_status dep) @ '')'']))"

definition subtask_blockers :: "task list \<Rightarrow> task \<Rightarrow> string list" where
  "subtask_blockers subs s =
     (if is_ignorable_cancelled_subtask s then []
      else (if t_status s = StatusDone then [] else [status_blocker s])
        @ concat (map (dependency_blockers subs s) (t_deps s)))"

definition subtask_failed :: "task list \<Rightarrow> task \<Rightarrow> bool" where
  "subtask_failed subs s \<longleftrightarrow> \<not> is_ignorable_cancelled_subtask s
     \<and> (failed_status (t_status s)
        \<or> list_ex (\<lambda>i. case by_id subs i of Some dep \<Rightarrow> failed_status (t_status dep) | None \<Rightarrow> False) (t_deps s))"

definition not_ready :: "string \<Rightarrow> parent_readiness" where
  "not_ready why = \<lparr>pr_ready = False, pr_blockers = [why], pr_any_failed = False\<rparr>"

definition evaluate_parent_readiness ::
  "(string list \<Rightarrow> string list) \<Rightarrow> uuid \<Rightarrow> task_status \<Rightarrow> db \<Rightarrow> parent_readiness" where
  "evaluate_parent_readiness order pid target d =
     (let subs = child_rows pid d; required = required_subtasks subs target in
      if subs = [] then not_ready ''no subtasks exist''
      else if required = [] then not_ready (''no required subtasks for '' @ task_status_string target)
      else (let rows = List.map_filter (by_id subs) (order required);
                blockers = concat (map (subtask_blockers subs) rows) in
        \<lparr>pr_ready = (blockers = []), pr_blockers = blockers,
         pr_any_failed = list_ex (subtask_failed subs) rows\<rparr>))"

definition readiness_keys :: "string list" where
  "readiness_keys = [''parent_readiness_target'', ''parent_readiness_blockers'', ''parent_readiness_blocker_count'']"

definition record_parent_readiness_blocked ::
  "time \<Rightarrow> task \<Rightarrow> task_status \<Rightarrow> parent_readiness \<Rightarrow> db \<Rightarrow> task \<times> db" where
  "record_parent_readiness_blocked now parent target r d =
     save_task now (parent\<lparr>t_context :=
       json_put ''parent_readiness_blocker_count'' (GFloat (of_nat (length (pr_blockers r))))
       (json_put ''parent_readiness_blockers'' (GStr (str_join [CHR 0x0A] (pr_blockers r)))
       (json_put ''parent_readiness_target'' (GStr (task_status_string target)) (t_context parent)))\<rparr>) d"

section \<open>Siblings of a failed subtask\<close>

definition sibling_is_running :: "task \<Rightarrow> bool" where
  "sibling_is_running s \<longleftrightarrow> \<not> is_terminal_wave_status (t_status s)
     \<and> (t_status s = StatusInProgress \<or> t_agent s \<noteq> None)"

definition draining_sibling_names :: "task list \<Rightarrow> string list" where
  "draining_sibling_names subs = map t_title (filter sibling_is_running subs)"

definition cancelled_by_failure :: "string list \<Rightarrow> task \<Rightarrow> task" where
  "cancelled_by_failure names s = s\<lparr>t_context := json_put ''cancelled_by_failure'' (GStrs names)
     (json_put ''cancellation_kind'' (GStr ''dependency_failure'') (t_context s))\<rparr>"

text \<open>The rows are changed in place, so the caller sees the new statuses.  \<open>StopAgent\<close> is
  never reached: a sibling with an agent counts as running and is skipped.\<close>

fun cancel_blocked_siblings ::
  "fresh \<Rightarrow> time \<Rightarrow> uuid \<Rightarrow> string list \<Rightarrow> nat \<Rightarrow> task list \<Rightarrow> db \<Rightarrow> (err + unit) \<times> task list \<times> db" where
  "cancel_blocked_siblings fr now pid names n [] d = (Inr (), [], d)"
| "cancel_blocked_siblings fr now pid names n (s # ss) d =
     (if is_terminal_wave_status (t_status s) \<or> sibling_is_running s
      then apsnd (apfst (Cons s)) (cancel_blocked_siblings fr now pid names (Suc n) ss d)
      else (case transition_task_atomic (fr ''cancel'' n) now (cancelled_by_failure names s) StatusCancelled
               ''orchestrator'' ''dependency_failure_cascade''
               (''execution plan stopped after required subtask failure: '' @ str_join '', '' names)
               [(''parent_task_id'', GStr pid), (''failed_subtasks'', GStrs names)] d of
          (s', Inl e) \<Rightarrow> (Inl e, s' # ss, d)
        | (s', Inr d') \<Rightarrow> apsnd (apfst (Cons s')) (cancel_blocked_siblings fr now pid names (Suc n) ss d')))"

section \<open>Completion of a parent\<close>

record readiness_env =
  re_gate :: gate_env
  re_git :: git
  re_default_branch :: string
  re_skip_gate :: bool
  re_order :: "string list \<Rightarrow> string list"

text \<open>\<open>gitexec.GetChangedFiles\<close>; \<open>RunGit\<close> trims the output.\<close>

definition get_changed_files :: "git \<Rightarrow> string \<Rightarrow> string \<Rightarrow> err + string list" where
  "get_changed_files g dir base =
     res_bind (run_git g dir [''diff'', ''--name-only'', base @ ''..HEAD'']) (\<lambda>out.
       let out = trim_space out in Inr (if out = [] then [] else split_on (CHR 0x0A) out))"

definition feature_branch_already_merged :: "readiness_env \<Rightarrow> task \<Rightarrow> bool" where
  "feature_branch_already_merged env tk \<longleftrightarrow> t_branch tk \<noteq> [] \<and> t_base_sha tk \<noteq> [] \<and>
     (case ge_main_path (re_gate env) of
        Inl e \<Rightarrow> False
      | Inr main \<Rightarrow>
          (case run_git (re_git env) main [''rev-parse'', t_branch tk] of
             Inl e \<Rightarrow> False
           | Inr head \<Rightarrow> trim_space head \<noteq> trim_space (t_base_sha tk)
               \<and> \<not> isl (run_git (re_git env) main [''merge-base'', ''--is-ancestor'', t_branch tk, ''HEAD''])))"

definition empty_feature :: "readiness_env \<Rightarrow> task \<Rightarrow> bool" where
  "empty_feature env parent \<longleftrightarrow> t_branch parent \<noteq> [] \<and>
     get_changed_files (re_git env) (ge_feature_path (re_gate env) (trim_prefix ''feature/'' (t_branch parent)))
       (re_default_branch env) = Inr [] \<and> \<not> feature_branch_already_merged env parent"

definition child_completes :: "task list \<Rightarrow> task \<Rightarrow> bool" where
  "child_completes subs s \<longleftrightarrow> t_status s = StatusDone \<or> is_ignorable_cancelled_subtask s
     \<or> t_status s = StatusRejected \<and> t_id s \<in> set (superseded_rejected_test_ids subs)"

definition has_failed :: "task list \<Rightarrow> task \<Rightarrow> bool" where
  "has_failed subs s \<longleftrightarrow> t_status s = StatusFailed
     \<or> t_status s = StatusRejected \<and> t_id s \<notin> set (superseded_rejected_test_ids subs)
     \<or> is_dependency_failure_cancelled_subtask s"

definition completion_keys :: "string list" where
  "completion_keys = readiness_keys
     @ [''delivery_rework_pending'', ''delivery_rework_repair_ids'', ''delivery_rework_repair_count'']"

definition finish_feature :: "uuid \<Rightarrow> time \<Rightarrow> task \<Rightarrow> db \<Rightarrow> (err + unit) \<times> task \<times> db" where
  "finish_feature eid now parent d =
     (case transition_task_atomic eid now (parent\<lparr>t_context := fold json_del completion_keys (t_context parent)\<rparr>)
             StatusTestingReady ''orchestrator'' ''subtask_completion'' ''all subtasks completed'' [] d of
        (tk, Inl e) \<Rightarrow> (Inl e, tk, d) | (tk, Inr d') \<Rightarrow> (Inr (), tk, d'))"

definition complete_feature :: "readiness_env \<Rightarrow> fresh \<Rightarrow> time \<Rightarrow> task \<Rightarrow> db \<Rightarrow> (err + unit) \<times> task \<times> db" where
  "complete_feature env fr now parent d =
     (let r = evaluate_parent_readiness (re_order env) (t_id parent) StatusTestingReady d in
      if \<not> pr_ready r
      then (let (tk, d') = record_parent_readiness_blocked now parent StatusTestingReady r d in (Inr (), tk, d'))
      else if empty_feature env parent
      then failed_with (fr ''event'' 0) now ''all subtasks completed but no changes were committed to the feature branch''
             (parent\<lparr>t_context := json_put ''empty_feature'' (GBool True) (t_context parent)\<rparr>) d
      else (case (if t_branch parent \<noteq> [] \<and> \<not> re_skip_gate env
                  then evaluate_constraint_gate (re_gate env) (fr ''gate'' 0) now parent d else (Inr False, parent, d)) of
          (Inl e, tk, d') \<Rightarrow> (Inl e, tk, d')
        | (Inr True, tk, d') \<Rightarrow> (Inr (), tk, d')
        | (Inr False, tk, d') \<Rightarrow> finish_feature (fr ''event'' 0) now tk d'))"

definition fail_feature :: "fresh \<Rightarrow> time \<Rightarrow> task \<Rightarrow> task list \<Rightarrow> db \<Rightarrow> (err + unit) \<times> task \<times> db" where
  "fail_feature fr now parent subs d =
     (let names = map t_title (filter (has_failed subs) subs) in
      case cancel_blocked_siblings fr now (t_id parent) names 0 subs d of
        (Inl e, subs', d') \<Rightarrow> (Inl e, parent, d')
      | (Inr _, subs', d') \<Rightarrow>
          (let draining = draining_sibling_names subs' in
           if draining \<noteq> []
           then (let (tk, d2) = save_task now (parent\<lparr>t_context := json_put ''sibling_drain''
                       (GMap [(''failed'', GStrs names), (''running'', GStrs draining)]) (t_context parent)\<rparr>) d'
                 in (Inr (), tk, d2))
           else failed_with (fr ''event'' 0) now (''subtasks failed: '' @ str_join '', '' names) parent d'))"

definition check_feature_completion ::
  "readiness_env \<Rightarrow> fresh \<Rightarrow> time \<Rightarrow> task \<Rightarrow> db \<Rightarrow> (err + unit) \<times> task \<times> db" where
  "check_feature_completion env fr now parent d =
     (let subs = child_rows (t_id parent) d in
      if subs = [] \<or> t_status parent \<noteq> StatusInProgress then (Inr (), parent, d)
      else if list_all (child_completes subs) subs then complete_feature env fr now parent d
      else if list_ex (has_failed subs) subs then fail_feature fr now parent subs d
      else (Inr (), parent, d))"

section \<open>Reconciliation of parents\<close>

text \<open>Each parent of the query has its own supply of identifiers.\<close>

fun reconcile_parents ::
  "readiness_env \<Rightarrow> (nat \<Rightarrow> fresh) \<Rightarrow> time \<Rightarrow> nat \<Rightarrow> task list \<Rightarrow> db \<Rightarrow> nat \<times> db" where
  "reconcile_parents env frs now n [] d = (0, d)"
| "reconcile_parents env frs now n (p # ps) d =
     (let subs = child_rows (t_id p) d in
      if subs = [] \<or> \<not> list_all (\<lambda>s. t_status s = StatusDone) subs
      then reconcile_parents env frs now (Suc n) ps d
      else (case check_feature_completion env (frs n) now p d of
          (Inl e, p', d') \<Rightarrow> reconcile_parents env frs now (Suc n) ps d'
        | (Inr _, p', d') \<Rightarrow> apfst Suc (reconcile_parents env frs now (Suc n) ps d')))"

definition reconcile_completed_parents ::
  "readiness_env \<Rightarrow> (nat \<Rightarrow> fresh) \<Rightarrow> time \<Rightarrow> uuid \<Rightarrow> db \<Rightarrow> nat \<times> db" where
  "reconcile_completed_parents env frs now project d =
     reconcile_parents env frs now 0 (filter (\<lambda>t. t_project t = project \<and> t_status t = StatusInProgress
       \<and> t_parent t = None) (db_tasks d)) d"

section \<open>Dependencies on superseded tests\<close>

definition newest_rows :: "task list \<Rightarrow> task list" where
  "newest_rows rows = rev (sort_key (\<lambda>t. (t_created t, t_id t)) rows)"

text \<open>\<open>completedTestFor[id]\<close>: the newest finished test that covers the subtask.\<close>

definition completed_test_for :: "task list \<Rightarrow> string \<Rightarrow> string" where
  "completed_test_for siblings i =
     (case List.find (\<lambda>s. t_phase s = ''test'' \<and> t_status s = StatusDone \<and> i \<in> set (t_tests_for s)) siblings of
        Some s \<Rightarrow> t_id s | None \<Rightarrow> [])"

definition rejected_test :: "task list \<Rightarrow> string \<Rightarrow> bool" where
  "rejected_test siblings i =
     (case by_id siblings i of Some s \<Rightarrow> t_phase s = ''test'' \<and> t_status s = StatusRejected | None \<Rightarrow> False)"

definition repaired_deps :: "task list \<Rightarrow> task \<Rightarrow> string list" where
  "repaired_deps siblings s =
     (let replacement = completed_test_for siblings (t_id s) in
      if t_phase s = ''test'' \<or> replacement = [] then t_deps s
      else map (\<lambda>i. if rejected_test siblings i then replacement else i) (t_deps s))"

definition repair_deps :: "time \<Rightarrow> task list \<Rightarrow> task \<Rightarrow> db \<Rightarrow> db" where
  "repair_deps now siblings s d =
     (if t_phase s = ''test'' \<or> completed_test_for siblings (t_id s) = []
         \<or> \<not> list_ex (rejected_test siblings) (t_deps s) then d
      else d\<lparr>db_tasks := fst (tbl_update (\<lambda>r. t_id r = t_id s)
        (\<lambda>r. r\<lparr>t_deps := repaired_deps siblings s, t_updated := now\<rparr>) (db_tasks d))\<rparr>)"

definition repair_superseded_test_dependencies :: "time \<Rightarrow> uuid \<Rightarrow> db \<Rightarrow> db" where
  "repair_superseded_test_dependencies now pid d =
     (let siblings = newest_rows (child_rows pid d) in fold (repair_deps now siblings) siblings d)"

end
