(* ===== verification/WaveSchedule.thy ===== *)
theory WaveSchedule
  imports Scheduling "HOL-Library.Multiset"
begin

text \<open>
  \<open>BuildSchedule\<close> and \<open>topologicalSortByDegree\<close> of \<open>internal/orchestrator/scheduler.go\<close>:
  greedy colouring of the conflict graph of a set of subtasks in an order that respects their
  dependencies.  Nodes are the positions of the subtasks.  The adjacency maps are functions to
  sets, an array of in-degrees is a list, and a colour array whose entries are -1 until they are
  set is a partial map.
\<close>

type_synonym graph = "nat \<Rightarrow> nat set"

section \<open>The conflict graph\<close>

definition add_edge :: "nat \<Rightarrow> nat \<Rightarrow> graph \<Rightarrow> graph" where
  "add_edge i j adj =
     (let adj1 = adj(i := insert j (adj i)) in adj1(j := insert i (adj1 j)))"

text \<open>The pairs for which the file overlap loop and the dependency loop add an edge.\<close>

definition overlap_pairs :: "string list list \<Rightarrow> (nat \<times> nat) list" where
  "overlap_pairs files =
     concat (map (\<lambda>i. if files ! i = [] then []
                      else map (Pair i) (filter (\<lambda>j. list_ex (\<lambda>f. f \<in> set (files ! i)) (files ! j))
                                           [i + 1..<length files])) [0..<length files])"

text \<open>\<open>depsBefore[i]\<close>: the positions of the dependencies of \<open>subtasks[i]\<close> that parse and belong to
  the set; the index map keeps the last position of an identifier.\<close>

definition id_index :: "task list \<Rightarrow> uuid \<Rightarrow> nat option" where
  "id_index subtasks = map_of (rev (zip (map t_id subtasks) [0..<length subtasks]))"

definition deps_before :: "parse_id \<Rightarrow> task list \<Rightarrow> nat \<Rightarrow> nat list" where
  "deps_before parse subtasks i =
     List.map_filter (\<lambda>s. case parse s of None \<Rightarrow> None | Some dep \<Rightarrow> id_index subtasks dep)
       (t_deps (subtasks ! i))"

definition conflict_graph :: "parse_id \<Rightarrow> task list \<Rightarrow> graph" where
  "conflict_graph parse subtasks =
     (let n = length subtasks;
          files = map extract_writable_files subtasks;
          adj = fold (\<lambda>(i, j). add_edge i j) (overlap_pairs files) (\<lambda>_. {}) in
      fold (\<lambda>i. fold (add_edge i) (deps_before parse subtasks i)) [0..<n] adj)"

section \<open>Topological order\<close>

type_synonym queue_sort = "(nat \<Rightarrow> nat) \<Rightarrow> nat list \<Rightarrow> nat list"

definition sorts_by_degree :: "queue_sort \<Rightarrow> bool" where
  "sorts_by_degree sortq \<longleftrightarrow>
     (\<forall>deg q. mset (sortq deg q) = mset q \<and> sorted_wrt (\<lambda>a b. deg b \<le> deg a) (sortq deg q))"

definition deps_after :: "nat \<Rightarrow> (nat \<Rightarrow> nat list) \<Rightarrow> nat \<Rightarrow> nat list" where
  "deps_after n before v = concat (map (\<lambda>i. map (\<lambda>_. i) (filter (\<lambda>d. d = v) (before i))) [0..<n])"

fun reduce_degrees :: "(nat list \<Rightarrow> nat list) \<Rightarrow> nat list \<Rightarrow> nat list \<times> int list \<Rightarrow> nat list \<times> int list" where
  "reduce_degrees srt [] (queue, degs) = (queue, degs)"
| "reduce_degrees srt (dep # deps) (queue, degs) =
     (let degs' = degs[dep := degs ! dep - 1] in
      if degs' ! dep = 0 then reduce_degrees srt deps (srt (queue @ [dep]), degs')
      else reduce_degrees srt deps (queue, degs'))"

text \<open>The queue loop with \<open>fuel\<close> rounds; \<open>n\<close> rounds empty the queue (\<open>topo_loop_complete\<close>).\<close>

fun topo_loop ::
  "(nat list \<Rightarrow> nat list) \<Rightarrow> (nat \<Rightarrow> nat list) \<Rightarrow> nat \<Rightarrow> nat list \<Rightarrow> int list \<Rightarrow> nat list \<Rightarrow>
   nat list \<times> nat list" where
  "topo_loop srt after fuel [] degs ord = (ord, [])"
| "topo_loop srt after 0 (node # queue) degs ord = (ord, node # queue)"
| "topo_loop srt after (Suc fuel) (node # queue) degs ord =
     (case reduce_degrees srt (after node) (queue, degs) of
        (queue', degs') \<Rightarrow> topo_loop srt after fuel queue' degs' (ord @ [node]))"

definition topological_sort_by_degree ::
  "queue_sort \<Rightarrow> nat \<Rightarrow> (nat \<Rightarrow> nat list) \<Rightarrow> graph \<Rightarrow> nat list" where
  "topological_sort_by_degree sortq n before adj =
     (let srt = sortq (\<lambda>i. card (adj i));
          degs = map (\<lambda>i. int (length (before i))) [0..<n];
          queue = srt (filter (\<lambda>i. degs ! i = 0) [0..<n]);
          ord = fst (topo_loop srt (deps_after n before) n queue degs []) in
      if length ord < n then ord @ filter (\<lambda>i. i \<notin> set ord) [0..<n] else ord)"

section \<open>Greedy colouring\<close>

function next_free :: "nat set \<Rightarrow> nat \<Rightarrow> nat" where
  "next_free used c = (if finite used \<and> c \<in> used then next_free used (Suc c) else c)"
  by pat_completeness auto
termination
proof (relation "measure (\<lambda>(used, c). card (used \<inter> {c..}))")
  fix used :: "nat set" and c
  assume "finite used \<and> c \<in> used"
  then have fin: "finite (used \<inter> {c..})" and c: "c \<in> used \<inter> {c..}" by simp_all
  have "used \<inter> {Suc c..} \<subseteq> (used \<inter> {c..}) - {c}" by (auto simp: Suc_le_eq)
  then have "card (used \<inter> {Suc c..}) \<le> card ((used \<inter> {c..}) - {c})" by (rule card_mono [rotated]) (use fin in simp)
  also have "\<dots> < card (used \<inter> {c..})" by (rule card_Diff1_less [OF fin c])
  finally show "((used, Suc c), used, c) \<in> measure (\<lambda>(used, c). card (used \<inter> {c..}))" by simp
qed simp

declare next_free.simps [simp del]

text \<open>Executable on a set given by its elements.\<close>

lemma next_free_code [code]:
  "next_free (set xs) c = (if c \<in> set xs then next_free (set xs) (Suc c) else c)"
  by (subst next_free.simps) simp

type_synonym colouring = "nat \<Rightarrow> nat option"

definition used_colours :: "colouring \<Rightarrow> nat set \<Rightarrow> nat set" where
  "used_colours colours nodes = {c. \<exists>v \<in> nodes. colours v = Some c}"

lemma used_colours_code [code]:
  "used_colours colours nodes = \<Union> ((\<lambda>v. case colours v of None \<Rightarrow> {} | Some c \<Rightarrow> {c}) ` nodes)"
  by (auto simp: used_colours_def split: option.splits)

definition min_colour :: "colouring \<Rightarrow> nat list \<Rightarrow> nat" where
  "min_colour colours deps =
     fold (\<lambda>d m. case colours d of None \<Rightarrow> m | Some c \<Rightarrow> (if m < c + 1 then c + 1 else m)) deps 0"

definition colour_node :: "graph \<Rightarrow> (nat \<Rightarrow> nat list) \<Rightarrow> nat \<Rightarrow> colouring \<Rightarrow> colouring" where
  "colour_node adj before node colours =
     colours(node \<mapsto> next_free (used_colours colours (adj node)) (min_colour colours (before node)))"

definition greedy_colouring :: "graph \<Rightarrow> (nat \<Rightarrow> nat list) \<Rightarrow> nat list \<Rightarrow> colouring" where
  "greedy_colouring adj before ord = fold (colour_node adj before) ord (\<lambda>_. None)"

section \<open>The groups\<close>

definition max_colour :: "colouring \<Rightarrow> nat list \<Rightarrow> nat" where
  "max_colour colours ord =
     fold (\<lambda>v m. case colours v of None \<Rightarrow> m | Some c \<Rightarrow> (if m < c then c else m)) ord 0"

definition build_schedule :: "queue_sort \<Rightarrow> parse_id \<Rightarrow> task list \<Rightarrow> schedule" where
  "build_schedule sortq parse subtasks =
     (let n = length subtasks; files = map extract_writable_files subtasks in
      if subtasks = [] then \<lparr>sch_groups = []\<rparr>
      else if \<not> list_ex (\<lambda>fs. fs \<noteq> []) files
      then \<lparr>sch_groups = [\<lparr>sg_order = 0, sg_task_ids = map t_id subtasks\<rparr>]\<rparr>
      else
        (let adj = conflict_graph parse subtasks;
             before = deps_before parse subtasks;
             ord = topological_sort_by_degree sortq n before adj;
             colours = greedy_colouring adj before ord;
             members = (\<lambda>c. map (\<lambda>i. t_id (subtasks ! i)) (filter (\<lambda>i. colours i = Some c) [0..<n])) in
         \<lparr>sch_groups =
            map (\<lambda>c. \<lparr>sg_order = int c, sg_task_ids = members c\<rparr>)
              (filter (\<lambda>c. members c \<noteq> []) [0..<max_colour colours ord + 1])\<rparr>))"

section \<open>The conflict graph as a relation\<close>

lemma add_edge_iff: "v \<in> add_edge i j adj u \<longleftrightarrow> v \<in> adj u \<or> u = i \<and> v = j \<or> u = j \<and> v = i"
  by (auto simp: add_edge_def Let_def)

lemma fold_add_edge_iff:
  "v \<in> fold (\<lambda>(i, j). add_edge i j) ps adj u \<longleftrightarrow> v \<in> adj u \<or> (u, v) \<in> set ps \<or> (v, u) \<in> set ps"
proof (induction ps arbitrary: adj)
  case (Cons p ps)
  obtain i j where p: "p = (i, j)" by (cases p)
  show ?case by (simp add: p Cons.IH add_edge_iff) blast
qed simp

lemma fold_deps_iff:
  "v \<in> fold (add_edge i) ds adj u \<longleftrightarrow> v \<in> adj u \<or> u = i \<and> v \<in> set ds \<or> v = i \<and> u \<in> set ds"
proof (induction ds arbitrary: adj)
  case (Cons d ds)
  show ?case by (simp add: Cons.IH add_edge_iff) blast
qed simp

lemma fold_fold_deps_iff:
  "v \<in> fold (\<lambda>i. fold (add_edge i) (f i)) is adj u \<longleftrightarrow>
     v \<in> adj u \<or> u \<in> set is \<and> v \<in> set (f u) \<or> v \<in> set is \<and> u \<in> set (f v)"
proof (induction "is" arbitrary: adj)
  case (Cons i "is")
  show ?case by (simp add: Cons.IH fold_deps_iff) blast
qed simp

definition overlaps :: "string list list \<Rightarrow> nat \<Rightarrow> nat \<Rightarrow> bool" where
  "overlaps files i j \<longleftrightarrow> set (files ! i) \<inter> set (files ! j) \<noteq> {}"

lemma overlap_pairs_iff:
  "(i, j) \<in> set (overlap_pairs files) \<longleftrightarrow> i < j \<and> j < length files \<and> overlaps files i j"
  by (auto simp: overlap_pairs_def overlaps_def list_ex_iff image_iff split: if_splits)

lemma id_index_less: "id_index subtasks u = Some i \<Longrightarrow> i < length subtasks"
  by (auto simp: id_index_def dest!: map_of_SomeD in_set_zipE)

lemma deps_before_less: "d \<in> set (deps_before parse subtasks i) \<Longrightarrow> d < length subtasks"
  by (auto simp: deps_before_def List.map_filter_def intro: id_index_less split: option.splits)

lemma conflict_graph_iff:
  assumes "i < length subtasks" "j < length subtasks"
  shows "j \<in> conflict_graph parse subtasks i \<longleftrightarrow>
     i \<noteq> j \<and> overlaps (map extract_writable_files subtasks) i j \<or>
     j \<in> set (deps_before parse subtasks i) \<or> i \<in> set (deps_before parse subtasks j)"
proof -
  have sym: "overlaps fs i j = overlaps fs j i" for fs by (auto simp: overlaps_def)
  show ?thesis
    using assms
    by (auto simp: conflict_graph_def Let_def fold_fold_deps_iff fold_add_edge_iff overlap_pairs_iff sym)
qed

lemma conflict_graph_finite: "finite (conflict_graph parse subtasks i)"
proof -
  have "conflict_graph parse subtasks i \<subseteq> {..<length subtasks}"
    by (auto simp: conflict_graph_def Let_def fold_fold_deps_iff fold_add_edge_iff overlap_pairs_iff
        dest: deps_before_less)
  then show ?thesis by (rule finite_subset) simp
qed

end
