(* ===== verification/PlanExecution.thy ===== *)
theory PlanExecution
  imports ParentReadiness WaveSchedule "HOL-Library.Monad_Syntax"
begin

text \<open>
  From an accepted plan to its runtime contract: \<open>parsePlan\<close> of
  \<open>internal/orchestrator/handlers.go\<close>, \<open>execution_manifest.go\<close>,
  \<open>planned_interface_contract.go\<close>, \<open>subtask_context.go\<close> and \<open>pairedPlanFiles\<close> of
  \<open>source_context_pack.go\<close>.

  \<open>json.Unmarshal\<close> of a re-encoded context value is a \<open>decode_\<close> function over \<open>gany\<close>; \<open>None\<close> is
  an error and a missing or null member leaves the zero value.  SHA-256 and the JSON text of a
  structure are parameters (\<open>plan_host\<close>).
\<close>

section \<open>Decoding\<close>

definition decode_text :: "gany option \<Rightarrow> string option" where
  "decode_text v = (case v of None \<Rightarrow> Some [] | Some GNil \<Rightarrow> Some [] | Some (GStr s) \<Rightarrow> Some s | _ \<Rightarrow> None)"

definition decode_flag :: "gany option \<Rightarrow> bool option" where
  "decode_flag v = (case v of None \<Rightarrow> Some False | Some GNil \<Rightarrow> Some False | Some (GBool b) \<Rightarrow> Some b | _ \<Rightarrow> None)"

definition decode_texts :: "gany option \<Rightarrow> string list option" where
  "decode_texts = decode_list (\<lambda>x. decode_text (Some x))"

definition decode_ints :: "gany option \<Rightarrow> int list option" where
  "decode_ints = decode_list (\<lambda>x. decode_order (Some x))"

text \<open>An object, where null is the zero value of the structure.\<close>

definition decode_object :: "gany \<Rightarrow> (string \<times> gany) list option" where
  "decode_object v = (case v of GNil \<Rightarrow> Some [] | GMap m \<Rightarrow> Some m | _ \<Rightarrow> None)"

definition decode_boundary :: "gany \<Rightarrow> module_boundary option" where
  "decode_boundary v = do {
     m \<leftarrow> decode_object v;
     package \<leftarrow> decode_text (map_of m ''package'');
     description \<leftarrow> decode_text (map_of m ''description'');
     exports \<leftarrow> decode_order (map_of m ''exports'');
     Some \<lparr>mb_package = package, mb_description = description, mb_exports = exports\<rparr> }"

definition decode_shape :: "gany \<Rightarrow> interface_shape option" where
  "decode_shape v = do {
     m \<leftarrow> decode_object v;
     package \<leftarrow> decode_text (map_of m ''package'');
     functions \<leftarrow> decode_texts (map_of m ''functions'');
     types \<leftarrow> decode_texts (map_of m ''types'');
     Some \<lparr>is_package = package, is_functions = functions, is_types = types\<rparr> }"

definition decode_contract :: "gany \<Rightarrow> interface_contract option" where
  "decode_contract v = do {
     m \<leftarrow> decode_object v;
     package \<leftarrow> decode_text (map_of m ''package'');
     kind \<leftarrow> decode_text (map_of m ''kind'');
     state \<leftarrow> decode_text (map_of m ''state'');
     owner \<leftarrow> decode_text (map_of m ''owner_file'');
     signature \<leftarrow> decode_text (map_of m ''signature'');
     symbol \<leftarrow> decode_text (map_of m ''symbol'');
     action \<leftarrow> decode_text (map_of m ''action_id'');
     callback \<leftarrow> decode_text (map_of m ''callback_signature'');
     route \<leftarrow> decode_text (map_of m ''route'');
     target \<leftarrow> decode_text (map_of m ''target_action'');
     caller \<leftarrow> decode_text (map_of m ''caller'');
     callee \<leftarrow> decode_text (map_of m ''callee'');
     Some \<lparr>ic_package = package, ic_kind = kind, ic_state = state, ic_owner_file = owner, ic_signature = signature,
       ic_symbol = symbol, ic_action_id = action, ic_callback_signature = callback, ic_route = route,
       ic_target_action = target, ic_caller = caller, ic_callee = callee\<rparr> }"

definition decode_depth :: "gany option \<Rightarrow> depth_meta option option" where
  "decode_depth v =
     (case v of None \<Rightarrow> Some None | Some GNil \<Rightarrow> Some None
      | Some w \<Rightarrow> do {
          m \<leftarrow> decode_object w;
          boundaries \<leftarrow> decode_list decode_boundary (map_of m ''module_boundaries'');
          shapes \<leftarrow> decode_list decode_shape (map_of m ''interface_shapes'');
          contracts \<leftarrow> decode_list decode_contract (map_of m ''interface_contracts'');
          Some (Some \<lparr>dm_boundaries = boundaries, dm_shapes = shapes, dm_contracts = contracts\<rparr>) })"

definition decode_entry :: "gany \<Rightarrow> plan_entry option" where
  "decode_entry v = do {
     m \<leftarrow> decode_object v;
     title \<leftarrow> decode_text (map_of m ''title'');
     description \<leftarrow> decode_text (map_of m ''description'');
     agent \<leftarrow> decode_text (map_of m ''agent_type'');
     estimated \<leftarrow> decode_texts (map_of m ''estimated_files'');
     files \<leftarrow> decode_texts (map_of m ''files'');
     writable \<leftarrow> decode_texts (map_of m ''writable_files'');
     deps \<leftarrow> decode_ints (map_of m ''dependencies'');
     priority \<leftarrow> decode_order (map_of m ''priority'');
     is_test \<leftarrow> decode_flag (map_of m ''is_test'');
     phase \<leftarrow> decode_text (map_of m ''phase'');
     tests_for \<leftarrow> decode_ints (map_of m ''tests_for'');
     boundaries \<leftarrow> decode_list decode_boundary (map_of m ''module_boundaries'');
     shapes \<leftarrow> decode_list decode_shape (map_of m ''interface_shapes'');
     contracts \<leftarrow> decode_list decode_contract (map_of m ''interface_contracts'');
     depth \<leftarrow> decode_depth (map_of m ''depth_meta'');
     Some \<lparr>pe_title = title, pe_description = description, pe_agent_type = agent, pe_estimated_files = estimated,
       pe_files = files, pe_writable_files = writable, pe_deps = deps, pe_priority = priority, pe_is_test = is_test,
       pe_phase = phase, pe_tests_for = tests_for, pe_boundaries = boundaries, pe_shapes = shapes,
       pe_contracts = contracts, pe_depth = depth\<rparr> }"

definition decode_exception :: "gany \<Rightarrow> tdd_exception option" where
  "decode_exception v = do {
     m \<leftarrow> decode_object v;
     index \<leftarrow> decode_order (map_of m ''subtask_index'');
     reason \<leftarrow> decode_text (map_of m ''reason'');
     Some \<lparr>tx_index = index, tx_reason = reason\<rparr> }"

record assumption =
  asm_decision :: string
  asm_alternatives :: "string list"
  asm_why_chosen :: string

definition decode_assumption :: "gany \<Rightarrow> assumption option" where
  "decode_assumption v = do {
     m \<leftarrow> decode_object v;
     decision \<leftarrow> decode_text (map_of m ''decision'');
     alternatives \<leftarrow> decode_texts (map_of m ''alternatives'');
     why \<leftarrow> decode_text (map_of m ''why_chosen'');
     Some \<lparr>asm_decision = decision, asm_alternatives = alternatives, asm_why_chosen = why\<rparr> }"

section \<open>Parsing a plan\<close>

record parse_plan_result =
  pp_subtasks :: plan
  pp_exceptions :: "tdd_exception list"
  pp_assumptions :: "assumption list"

definition normalize_entry :: "plan_entry \<Rightarrow> plan_entry" where
  "normalize_entry e0 =
     (let e1 = (if pe_estimated_files e0 = [] \<and> pe_files e0 \<noteq> [] then e0\<lparr>pe_estimated_files := pe_files e0\<rparr> else e0);
          e2 = (if pe_agent_type e1 = [] then e1\<lparr>pe_agent_type := agent_type_string AgentCoder\<rparr> else e1) in
      if Option.is_none (pe_depth e2) \<and> (pe_boundaries e2 \<noteq> [] \<or> pe_shapes e2 \<noteq> [] \<or> pe_contracts e2 \<noteq> [])
      then e2\<lparr>pe_depth := Some \<lparr>dm_boundaries = pe_boundaries e2, dm_shapes = pe_shapes e2, dm_contracts = pe_contracts e2\<rparr>\<rparr>
      else e2)"

definition parse_plan :: "json_field \<Rightarrow> err + parse_plan_result" where
  "parse_plan plan_field =
     (if Option.is_none plan_field then Inl (ErrMsg ''parse plan: plan is nil'')
      else (case json_get plan_field ''subtasks'' of
          None \<Rightarrow> Inl (ErrMsg ''parse plan: no subtasks key in plan'')
        | Some raw \<Rightarrow>
            (case decode_list decode_entry (Some raw) of
               None \<Rightarrow> Inl (ErrMsg ''parse plan: unmarshal subtasks'')
             | Some entries \<Rightarrow>
                 (case decode_list decode_exception (json_get plan_field ''tdd_exceptions'') of
                    None \<Rightarrow> Inl (ErrMsg ''parse plan: unmarshal tdd_exceptions'')
                  | Some exceptions \<Rightarrow>
                      (case decode_list decode_assumption (json_get plan_field ''assumptions'') of
                         None \<Rightarrow> Inl (ErrMsg ''parse plan: unmarshal assumptions'')
                       | Some assumptions \<Rightarrow>
                           Inr \<lparr>pp_subtasks = map normalize_entry entries, pp_exceptions = exceptions,
                             pp_assumptions = assumptions\<rparr>)))))"

section \<open>The execution manifest\<close>

datatype execution_lane = LaneAtomic | LaneDecomposed

fun execution_lane_string :: "execution_lane \<Rightarrow> string" where
  "execution_lane_string LaneAtomic = ''atomic_repair''"
| "execution_lane_string LaneDecomposed = ''decomposed_dag''"

record dependency_artifact =
  ea_step :: string
  ea_contract_hash :: string

record manifest_step =
  ms_id :: string
  ms_title :: string
  ms_phase :: string
  ms_read :: "string list"
  ms_write :: "string list"
  ms_contract_hash :: string
  ms_deps :: "string list"
  ms_artifacts :: "dependency_artifact list"
  ms_turns :: int

record recovery_policy =
  rv_resume_completed :: bool
  rv_preserve_checkpoint :: bool
  rv_max_semantic :: int
  rv_blind_retries :: int

record execution_manifest =
  em_version :: int
  em_task :: uuid
  em_fingerprint :: string
  em_base_sha :: string
  em_lane :: execution_lane
  em_steps :: "manifest_step list"
  em_gates :: "string list"
  em_recovery :: recovery_policy
  em_hash :: string

record interface_brief =
  ib_kind :: string
  ib_subtask :: string
  ib_owning_files :: "string list"
  ib_boundaries :: "module_boundary list"
  ib_shapes :: "interface_shape list"
  ib_contracts :: "interface_contract list"
  ib_missing_symbols :: "string list"
  ib_red_mode :: string
  ib_red_state :: string

record plan_host =
  ph_hash_contract :: "string \<times> string \<times> string list \<times> string list \<Rightarrow> string"
  ph_hash_manifest :: "execution_manifest \<Rightarrow> string"
  ph_encode_brief :: "interface_brief \<Rightarrow> string"

text \<open>Trimmed, without blanks and duplicates, sorted.\<close>

fun dedup_files :: "string list \<Rightarrow> string list \<Rightarrow> string list" where
  "dedup_files seen [] = []"
| "dedup_files seen (f # fs) =
     (let g = trim_space f in
      if g = [] \<or> g \<in> set seen then dedup_files seen fs else g # dedup_files (g # seen) fs)"

definition normalized_manifest_files :: "string list \<Rightarrow> string list" where
  "normalized_manifest_files files = sort (dedup_files [] files)"

definition plan_contract_hash :: "plan_host \<Rightarrow> plan_entry \<Rightarrow> string" where
  "plan_contract_hash h e = ph_hash_contract h (pe_title e, pe_phase e, normalized_manifest_files (all_files e),
     normalized_manifest_files (writable_plan_files e))"

text \<open>The map \<open>owner\<close> is the list of the paths seen in earlier entries; a path cannot occur twice
  in one entry because the files are normalized.\<close>

fun lane_loop :: "string list \<Rightarrow> plan \<Rightarrow> execution_lane" where
  "lane_loop owned [] = LaneDecomposed"
| "lane_loop owned (e # es) =
     (let files = normalized_manifest_files (writable_plan_files e) in
      if list_ex (\<lambda>f. f \<in> set owned) files then LaneAtomic else lane_loop (files @ owned) es)"

definition choose_execution_lane :: "plan \<Rightarrow> execution_lane" where
  "choose_execution_lane p = lane_loop [] p"

definition collapse_atomic_plan :: "string \<Rightarrow> plan \<Rightarrow> plan" where
  "collapse_atomic_plan title p =
     (if choose_execution_lane p \<noteq> LaneAtomic then p
      else (let files = normalized_manifest_files (concat (map all_files p)) in
        [\<lparr>pe_title = ''Atomic repair: '' @ title,
          pe_description = ''Execute the accepted plan in order within one ownership boundary.'' @ [CHR 0x0A]
            @ str_join [CHR 0x0A] (map (\<lambda>i. show_nat (i + 1) @ ''. ['' @ pe_phase (p ! i) @ ''] '' @ pe_description (p ! i))
                [0..<length p]),
          pe_agent_type = agent_type_string AgentCoder, pe_estimated_files = files, pe_files = files,
          pe_writable_files = normalized_manifest_files (concat (map writable_plan_files p)), pe_deps = [], pe_priority = 0,
          pe_is_test = False, pe_phase = ''implementation'', pe_tests_for = [], pe_boundaries = [], pe_shapes = [],
          pe_contracts = [], pe_depth = None\<rparr>]))"

definition manifest_step_id :: "int \<Rightarrow> string" where
  "manifest_step_id i = (let n = show_int (i + 1) in ''step-'' @ (if length n < 2 then ''0'' else []) @ n)"

definition expected_turns_for_phase :: "string \<Rightarrow> int" where
  "expected_turns_for_phase ph = (if ph = ''test'' \<or> ph = ''integration'' then 8 else 10)"

definition manifest_step_of :: "plan_host \<Rightarrow> plan \<Rightarrow> nat \<Rightarrow> manifest_step" where
  "manifest_step_of h p i =
     (let e = p ! i in
      \<lparr>ms_id = manifest_step_id (int i), ms_title = pe_title e, ms_phase = pe_phase e,
       ms_read = normalized_manifest_files (all_files e), ms_write = normalized_manifest_files (writable_plan_files e),
       ms_contract_hash = plan_contract_hash h e, ms_deps = map manifest_step_id (pe_deps e),
       ms_artifacts = map (\<lambda>k. \<lparr>ea_step = manifest_step_id k, ea_contract_hash = plan_contract_hash h (p ! nat k)\<rparr>) (pe_deps e),
       ms_turns = expected_turns_for_phase (pe_phase e)\<rparr>)"

definition compile_execution_manifest :: "plan_host \<Rightarrow> task \<Rightarrow> plan \<Rightarrow> string \<Rightarrow> err + execution_manifest" where
  "compile_execution_manifest h tk p fingerprint =
     (if list_ex (\<lambda>e. list_ex (\<lambda>k. \<not> in_range k p) (pe_deps e)) p
      then Inl (ErrMsg ''compile execution manifest: step has invalid dependency'')
      else (let m = \<lparr>em_version = 1, em_task = t_id tk, em_fingerprint = fingerprint,
              em_base_sha = trim_space (t_base_sha tk), em_lane = choose_execution_lane p,
              em_steps = map (manifest_step_of h p) [0..<length p],
              em_gates = [''scope_admission'', ''git_diff_check'', ''planned_contract'', ''native_verification'', ''computer_use''],
              em_recovery = \<lparr>rv_resume_completed = True, rv_preserve_checkpoint = True, rv_max_semantic = 1, rv_blind_retries = 0\<rparr>,
              em_hash = []\<rparr>
            in Inr (m\<lparr>em_hash := ph_hash_manifest h m\<rparr>)))"

text \<open>\<open>executionManifestMap\<close>: the decoded JSON of the manifest, with \<open>omitempty\<close> members left out.\<close>

definition omit_empty :: "string \<Rightarrow> string \<Rightarrow> (string \<times> gany) list" where
  "omit_empty k s = (if s = [] then [] else [(k, GStr s)])"

definition gstrings :: "string list \<Rightarrow> gany" where
  "gstrings xs = GList (map GStr xs)"

definition step_map :: "manifest_step \<Rightarrow> gany" where
  "step_map s = GMap (
     [(''id'', GStr (ms_id s)), (''title'', GStr (ms_title s)), (''phase'', GStr (ms_phase s)),
      (''read_files'', gstrings (ms_read s)), (''writable_files'', gstrings (ms_write s)),
      (''contract_hash'', GStr (ms_contract_hash s))]
     @ (if ms_deps s = [] then [] else [(''dependencies'', gstrings (ms_deps s))])
     @ (if ms_artifacts s = [] then [] else [(''dependency_artifacts'', GList (map (\<lambda>a.
          GMap [(''step_id'', GStr (ea_step a)), (''contract_hash'', GStr (ea_contract_hash a))]) (ms_artifacts s)))])
     @ [(''expected_turns'', GFloat (of_int (ms_turns s)))])"

definition execution_manifest_map :: "execution_manifest \<Rightarrow> gany" where
  "execution_manifest_map m = GMap (
     [(''version'', GFloat (of_int (em_version m))), (''task_id'', GStr (em_task m))]
     @ omit_empty ''spec_fingerprint'' (em_fingerprint m) @ omit_empty ''base_sha'' (em_base_sha m)
     @ [(''lane'', GStr (execution_lane_string (em_lane m))),
        (''steps'', if em_steps m = [] then GNil else GList (map step_map (em_steps m))), (''gates'', gstrings (em_gates m)),
        (''recovery'', GMap [(''resume_completed_turns'', GBool (rv_resume_completed (em_recovery m))),
           (''preserve_mutation_checkpoint'', GBool (rv_preserve_checkpoint (em_recovery m))),
           (''max_semantic_recoveries'', GFloat (of_int (rv_max_semantic (em_recovery m)))),
           (''blind_retries'', GFloat (of_int (rv_blind_retries (em_recovery m))))]),
        (''hash'', GStr (em_hash m))])"

definition task_execution_lane :: "task \<Rightarrow> string" where
  "task_execution_lane tk = (case json_get (t_context tk) ''execution_lane'' of Some (GStr s) \<Rightarrow> s | _ \<Rightarrow> [])"

definition step_turns :: "gany \<Rightarrow> int" where
  "step_turns v = (case v of GMap m \<Rightarrow> int_from_any (map_of m ''expected_turns'') | _ \<Rightarrow> 0)"

definition task_manifest_expected_turns :: "task \<Rightarrow> int" where
  "task_manifest_expected_turns tk =
     (case json_get (t_context tk) ''execution_manifest'' of
        Some (GMap m) \<Rightarrow> (case map_of m ''steps'' of Some (GList ss) \<Rightarrow> sum_list (map step_turns ss) | _ \<Rightarrow> 0)
      | _ \<Rightarrow> 0)"

section \<open>Interface contracts and the context of a subtask\<close>

definition red_state_instruction :: "string \<Rightarrow> string" where
  "red_state_instruction mode =
     (if mode = ''compile_missing_symbol'' then
        ''Call the planned C++ symbols exactly. A compile failure naming a listed missing symbol is the intended red artifact. Do not search for the symbols or invent another API.''
      else if mode = ''mixed'' then
        ''Use compile-red only for listed planned C++ symbols. Registry, keymap, and call-edge contracts require an active behavioral assertion once the test can compile; comments and placeholders are invalid evidence.''
      else
        ''The test must compile and fail on an active behavioral assertion through the named registry, keymap, or call edge. Comments, placeholders, and fabricated headers are invalid evidence.'')"

definition planned_state :: "interface_contract \<Rightarrow> bool" where
  "planned_state c \<longleftrightarrow> ic_state c = ''planned'' \<or> ic_state c = ''missing''"

definition missing_symbols :: "depth_meta \<Rightarrow> string list" where
  "missing_symbols dm =
     concat (map (\<lambda>s. is_types s @ is_functions s) (dm_shapes dm))
     @ concat (map (\<lambda>c. if \<not> planned_state c then []
          else if ic_kind c = ''cpp_function'' then [ic_signature c]
          else if ic_kind c = ''cpp_type'' then [ic_symbol c] else []) (dm_contracts dm))"

definition runtime_red :: "depth_meta \<Rightarrow> bool" where
  "runtime_red dm \<longleftrightarrow> list_ex (\<lambda>c. ic_kind c \<noteq> ''cpp_function'' \<and> ic_kind c \<noteq> ''cpp_type'') (dm_contracts dm)"

definition planned_brief :: "plan_entry \<Rightarrow> interface_brief" where
  "planned_brief impl =
     (let base = \<lparr>ib_kind = ''existing_api'', ib_subtask = pe_title impl, ib_owning_files = all_files impl,
            ib_boundaries = [], ib_shapes = [], ib_contracts = [], ib_missing_symbols = [], ib_red_mode = ''runtime_assertion'',
            ib_red_state = ''Use existing production APIs. If the required seam is absent, stop with a concise missing-contract error instead of searching the repository.''\<rparr>
      in case pe_depth impl of
        None \<Rightarrow> base
      | Some dm \<Rightarrow>
          (if dm_shapes dm = [] \<and> dm_contracts dm = [] then base
           else (let missing = missing_symbols dm;
                     mode = (if missing \<noteq> [] \<and> runtime_red dm then ''mixed''
                             else if missing \<noteq> [] then ''compile_missing_symbol'' else ''runtime_assertion'')
             in base\<lparr>ib_kind := ''planned_api'', ib_boundaries := dm_boundaries dm, ib_shapes := dm_shapes dm,
                  ib_contracts := dm_contracts dm, ib_missing_symbols := missing, ib_red_mode := mode,
                  ib_red_state := red_state_instruction mode\<rparr>)))"

definition planned_interface_contract :: "plan_host \<Rightarrow> plan \<Rightarrow> nat \<Rightarrow> err + string" where
  "planned_interface_contract h p i =
     (if length p \<le> i then Inl (ErrMsg ''test index is out of range'')
      else (case pe_tests_for (p ! i) of
          [k] \<Rightarrow> if \<not> in_range k p \<or> pe_phase (p ! nat k) \<noteq> ''implementation''
                 then Inl (ErrMsg ''tests_for index is not an implementation subtask'')
                 else Inr (ph_encode_brief h (planned_brief (p ! nat k)))
        | _ \<Rightarrow> Inl (ErrMsg ''test subtask must reference exactly one implementation'')))"

text \<open>The empty text when the entry has no depth metadata.\<close>

definition implementation_interface_contract :: "plan_host \<Rightarrow> plan_entry \<Rightarrow> string" where
  "implementation_interface_contract h impl =
     (case pe_depth impl of
        None \<Rightarrow> []
      | Some dm \<Rightarrow> ph_encode_brief h \<lparr>ib_kind = ''implementation_api'', ib_subtask = pe_title impl,
          ib_owning_files = all_files impl, ib_boundaries = dm_boundaries dm, ib_shapes = dm_shapes dm,
          ib_contracts = dm_contracts dm, ib_missing_symbols = [], ib_red_mode = [], ib_red_state = []\<rparr>)"

definition materialized_subtask_context :: "plan_host \<Rightarrow> plan \<Rightarrow> nat \<Rightarrow> string list \<Rightarrow> err + json_field" where
  "materialized_subtask_context h p i packs =
     (let e = p ! i;
          ctx0 = Some [''agent_type'' \<mapsto> GStr (pe_agent_type e), ''estimated_files'' \<mapsto> GStrs (all_files e),
                       ''writable_files'' \<mapsto> GStrs (writable_plan_files e)];
          ctx1 = (if pe_phase e \<noteq> [] then json_put ''phase'' (GStr (pe_phase e)) ctx0 else ctx0);
          ctx2 = (if length packs = length p \<and> packs ! i \<noteq> []
                  then json_put ''verified_source_pack'' (GStr (packs ! i)) ctx1 else ctx1)
      in if pe_phase e = ''test'' \<and> length (pe_tests_for e) = 1
         then map_sum id (\<lambda>c. json_put ''planned_interface_contract'' (GStr c) ctx2) (planned_interface_contract h p i)
         else if pe_phase e = ''implementation''
         then Inr (let c = implementation_interface_contract h e in
                   if c \<noteq> [] then json_put ''implementation_interface_contract'' (GStr c) ctx2 else ctx2)
         else Inr ctx2)"

fun add_paired :: "string list \<Rightarrow> string list \<Rightarrow> string list" where
  "add_paired paired [] = paired"
| "add_paired paired (f # fs) = add_paired (if f \<in> set paired then paired else paired @ [f]) fs"

definition paired_plan_files :: "plan \<Rightarrow> nat \<Rightarrow> string list" where
  "paired_plan_files p i =
     (let e = p ! i;
          targets = (if pe_phase e = ''test'' then map nat (filter (\<lambda>k. in_range k p) (pe_tests_for e)) else []);
          tests = (if pe_phase e = ''implementation''
                   then concat (map (\<lambda>j. map (\<lambda>_. j) (filter (\<lambda>k. k = int i) (pe_tests_for (p ! j)))) [0..<length p]) else [])
      in fold (\<lambda>j paired. add_paired paired (all_files (p ! j))) (targets @ tests) [])"

section \<open>The lane\<close>

text \<open>What two entries write, normalized.\<close>

definition writes :: "plan_entry \<Rightarrow> string set" where
  "writes e = set (normalized_manifest_files (writable_plan_files e))"

lemma dedup_files_set: "set (dedup_files seen fs) = {trim_space f | f. f \<in> set fs \<and> trim_space f \<noteq> []} - set seen"
proof (induction seen fs rule: dedup_files.induct)
  case (2 seen f fs)
  then show ?case by (cases "trim_space f = [] \<or> trim_space f \<in> set seen") (auto simp: Let_def)
qed simp

lemma writes_eq: "writes e = {trim_space f | f. f \<in> set (writable_plan_files e) \<and> trim_space f \<noteq> []}"
  by (simp add: writes_def normalized_manifest_files_def dedup_files_set)

lemma lane_loop_iff:
  "lane_loop owned p = LaneDecomposed \<longleftrightarrow>
     (\<forall>i < length p. writes (p ! i) \<inter> set owned = {})
     \<and> (\<forall>i j. i < j \<longrightarrow> j < length p \<longrightarrow> writes (p ! i) \<inter> writes (p ! j) = {})"
proof (induction owned p rule: lane_loop.induct)
  case (2 owned e es)
  let ?files = "normalized_manifest_files (writable_plan_files e)"
  show ?case
  proof (cases "list_ex (\<lambda>f. f \<in> set owned) ?files")
    case True
    then have e0: "writes ((e # es) ! 0) \<inter> set owned \<noteq> {}" by (auto simp: writes_def list_ex_iff)
    have "\<not> (\<forall>i < length (e # es). writes ((e # es) ! i) \<inter> set owned = {})"
    proof
      assume "\<forall>i < length (e # es). writes ((e # es) ! i) \<inter> set owned = {}"
      from this[rule_format, of 0] e0 show False by simp
    qed
    moreover have "lane_loop owned (e # es) \<noteq> LaneDecomposed" using True by (simp add: Let_def)
    ultimately show ?thesis by blast
  next
    case False
    have all: "(\<forall>i < length (e # es). P i) \<longleftrightarrow> P 0 \<and> (\<forall>i < length es. P (Suc i))" for P
      by (simp add: All_less_Suc2)
    have pairs: "(\<forall>i j. i < j \<longrightarrow> j < length (e # es) \<longrightarrow> writes ((e # es) ! i) \<inter> writes ((e # es) ! j) = {}) \<longleftrightarrow>
      (\<forall>j < length es. writes (es ! j) \<inter> writes e = {})
      \<and> (\<forall>i j. i < j \<longrightarrow> j < length es \<longrightarrow> writes (es ! i) \<inter> writes (es ! j) = {})" (is "?l \<longleftrightarrow> ?r")
    proof
      assume l: ?l
      have "writes (es ! j) \<inter> writes e = {}" if "j < length es" for j
        using l[rule_format, of 0 "Suc j"] that by auto
      moreover have "writes (es ! i) \<inter> writes (es ! j) = {}" if "i < j" "j < length es" for i j
        using l[rule_format, of "Suc i" "Suc j"] that by auto
      ultimately show ?r by blast
    next
      assume r: ?r
      show ?l
      proof (intro allI impI)
        fix i j assume ij: "i < j" "j < length (e # es)"
        then obtain j' where j: "j = Suc j'" "j' < length es" by (cases j) auto
        show "writes ((e # es) ! i) \<inter> writes ((e # es) ! j) = {}"
          using r ij j by (cases i) auto
      qed
    qed
    have "?files = [] \<or> writes e \<inter> set owned = {}" and w: "set ?files = writes e"
      using False by (auto simp: list_ex_iff writes_def)
    then have e0: "writes e \<inter> set owned = {}" by auto
    show ?thesis
      unfolding pairs all using False 2[OF refl False] e0 by (auto simp: Let_def w Int_Un_distrib)
  qed
qed simp

end
