(* ===== verification/PlanApproval.thy ===== *)
theory PlanApproval
  imports PlanExecution
begin

text \<open>
  The review of a plan: \<open>HandlePlanApprovedBy\<close>, \<open>materializeSubtasksWithDB\<close> and
  \<open>HandlePlanRejectedBy\<close> of \<open>internal/orchestrator/handlers.go\<close>, \<open>RevisePlan\<close> of
  \<open>plan_revision.go\<close> and \<open>DeletePlanStep\<close>, \<open>DeleteSubtask\<close> and \<open>DeleteTask\<close> of
  \<open>lifecycle.go\<close>.

  The specification of a task (its fingerprint and the source packs made from it), hashing and the
  JSON text of a plan are parameters.  Stopping agents, the agent and comment tables and the copy of
  the plan written into the worktree are left out.
\<close>

record plan_env =
  pv_host :: plan_host
  pv_fingerprint :: "task \<Rightarrow> string"
  pv_packs :: "task \<Rightarrow> plan \<Rightarrow> err + string list"
  pv_plan_text :: "json_field \<Rightarrow> string"
  pv_plan_hash :: "json_field \<Rightarrow> string"
  pv_sort :: queue_sort
  pv_parse :: parse_id

section \<open>Deleting rows\<close>

definition delete_subtask_rows :: "uuid \<Rightarrow> db \<Rightarrow> db" where
  "delete_subtask_rows i d = d\<lparr>db_tasks := filter (\<lambda>t. t_id t \<noteq> i) (db_tasks d),
     db_events := filter (\<lambda>e. te_task e \<noteq> i) (db_events d)\<rparr>"

definition delete_subtask :: "uuid \<Rightarrow> db \<Rightarrow> err + db" where
  "delete_subtask i d = res_bind (load_task i d) (\<lambda>_. Inr (delete_subtask_rows i d))"

text \<open>A failure to delete a child is only logged.\<close>

definition delete_task_tree :: "uuid \<Rightarrow> db \<Rightarrow> err + db" where
  "delete_task_tree i d = res_bind (load_task i d) (\<lambda>tk.
     if t_parent tk \<noteq> None then delete_subtask i d
     else Inr (delete_subtask_rows i (fold (\<lambda>s d. case delete_subtask (t_id s) d of Inl _ \<Rightarrow> d | Inr d' \<Rightarrow> d')
       (child_rows i d) d)))"

section \<open>Children of a plan\<close>

definition update_task_rows :: "uuid \<Rightarrow> (task \<Rightarrow> task) \<Rightarrow> db \<Rightarrow> db" where
  "update_task_rows i f d = d\<lparr>db_tasks := fst (tbl_update (\<lambda>r. t_id r = i) f (db_tasks d))\<rparr>"

definition reusable :: "plan_entry \<Rightarrow> uuid list \<Rightarrow> task \<Rightarrow> bool" where
  "reusable e used x \<longleftrightarrow> t_id x \<notin> set used \<and> t_status x = StatusDone \<and> t_title x = pe_title e \<and> t_phase x = pe_phase e"

definition stale_duplicate :: "plan_entry \<Rightarrow> uuid \<Rightarrow> task \<Rightarrow> bool" where
  "stale_duplicate e reused x \<longleftrightarrow> t_id x \<noteq> reused \<and> t_status x \<noteq> StatusDone
     \<and> t_title x = pe_title e \<and> t_phase x = pe_phase e"

fun delete_all :: "bool \<Rightarrow> uuid list \<Rightarrow> db \<Rightarrow> err + db" where
  "delete_all cleanup [] d = Inr d"
| "delete_all cleanup (i # is) d =
     res_bind (if cleanup then delete_subtask i d else Inr (delete_subtask_rows i d)) (delete_all cleanup is)"

definition new_subtask :: "uuid \<Rightarrow> time \<Rightarrow> task \<Rightarrow> plan_entry \<Rightarrow> int \<Rightarrow> json_field \<Rightarrow> task" where
  "new_subtask i now tk e priority ctx =
     \<lparr>t_id = i, t_project = t_project tk, t_parent = Some (t_id tk), t_title = pe_title e,
      t_description = pe_description e, t_status = StatusBacklog, t_version = 1, t_category = CategoryStandard,
      t_priority = priority, t_complexity = 0, t_labels = [], t_deps = [], t_agent = None, t_plan = None,
      t_plan_feedback = [], t_test_plan = [], t_test_feedback = [], t_branch = [], t_base_sha = [], t_pr_url = [],
      t_phase = pe_phase e, t_tests_for = [], t_tdd_exceptions = None, t_needs_human = False, t_context = ctx,
      t_created = now, t_updated = now\<rparr>"

definition lane_context :: "plan_env \<Rightarrow> task \<Rightarrow> execution_manifest \<Rightarrow> json_field \<Rightarrow> json_field" where
  "lane_context env tk m ctx =
     (let ctx1 = json_put ''execution_manifest_hash'' (GStr (em_hash m))
                   (json_put ''execution_lane'' (GStr (execution_lane_string (em_lane m))) ctx) in
      if em_lane m = LaneAtomic
      then json_put ''accepted_execution_plan'' (GStr (pv_plan_text env (t_plan tk)))
             (json_put ''execution_manifest'' (execution_manifest_map m) ctx1)
      else ctx1)"

fun create_children ::
  "plan_env \<Rightarrow> fresh \<Rightarrow> time \<Rightarrow> bool \<Rightarrow> task \<Rightarrow> execution_manifest \<Rightarrow> plan \<Rightarrow> string list \<Rightarrow> task list
   \<Rightarrow> nat list \<Rightarrow> uuid list \<Rightarrow> db \<Rightarrow> err + uuid list \<times> db" where
  "create_children env fr now cleanup tk m p packs existing [] used d = Inr ([], d)"
| "create_children env fr now cleanup tk m p packs existing (i # is) used d =
     (case List.find (reusable (p ! i) used) existing of
        Some x \<Rightarrow>
          res_bind (delete_all cleanup (map t_id (filter (stale_duplicate (p ! i) (t_id x)) existing)) d) (\<lambda>d1.
          res_bind (create_children env fr now cleanup tk m p packs existing is (t_id x # used) d1) (\<lambda>(ids, d2).
          Inr (t_id x # ids, d2)))
      | None \<Rightarrow>
          res_bind (materialized_subtask_context (pv_host env) p i packs) (\<lambda>ctx.
          res_bind (create_task (new_subtask (fr ''subtask'' i) now tk (p ! i) (int (length p) - int i)
                      (lane_context env tk m ctx)) d) (\<lambda>d1.
          res_bind (create_children env fr now cleanup tk m p packs existing is used d1) (\<lambda>(ids, d2).
          Inr (fr ''subtask'' i # ids, d2)))))"

text \<open>The identifiers of the indices in range.\<close>

definition index_ids :: "uuid list \<Rightarrow> int list \<Rightarrow> string list" where
  "index_ids ids ks = map (\<lambda>k. ids ! nat k) (filter (\<lambda>k. 0 \<le> k \<and> k < int (length ids)) ks)"

definition set_dependency_ids :: "time \<Rightarrow> uuid list \<Rightarrow> plan \<Rightarrow> nat \<Rightarrow> db \<Rightarrow> db" where
  "set_dependency_ids now ids p i d =
     (let deps = index_ids ids (pe_deps (p ! i)) in
      if deps = [] then d else update_task_rows (ids ! i) (\<lambda>r. r\<lparr>t_deps := deps, t_updated := now\<rparr>) d)"

definition set_tests_for :: "time \<Rightarrow> uuid list \<Rightarrow> plan \<Rightarrow> nat \<Rightarrow> db \<Rightarrow> db" where
  "set_tests_for now ids p i d =
     (let tests = index_ids ids (pe_tests_for (p ! i)) in
      if tests = [] then d else update_task_rows (ids ! i) (\<lambda>r. r\<lparr>t_tests_for := tests, t_updated := now\<rparr>) d)"

definition materialize_subtasks ::
  "plan_env \<Rightarrow> fresh \<Rightarrow> time \<Rightarrow> bool \<Rightarrow> task \<Rightarrow> db \<Rightarrow> err + task \<times> uuid list \<times> db" where
  "materialize_subtasks env fr now cleanup tk d =
     res_bind (parse_plan (t_plan tk)) (\<lambda>pr.
     res_bind (compile_execution_manifest (pv_host env) tk (pp_subtasks pr) (pv_fingerprint env tk)) (\<lambda>m.
     let ctx = json_put ''execution_lane'' (GStr (execution_lane_string (em_lane m)))
                 (json_put ''execution_manifest_hash'' (GStr (em_hash m))
                   (json_put ''execution_manifest'' (execution_manifest_map m) (t_context tk)));
         tk1 = tk\<lparr>t_context := ctx, t_updated := now\<rparr>;
         d1 = update_task_rows (t_id tk) (\<lambda>r. r\<lparr>t_context := ctx, t_updated := now\<rparr>) d;
         p = collapse_atomic_plan (t_title tk) (pp_subtasks pr);
         merged = merge_tdd_dependencies p
     in res_bind (pv_packs env tk1 p) (\<lambda>packs.
        res_bind (create_children env fr now cleanup tk1 m p packs (child_rows (t_id tk) d1) [0..<length p] [] d1) (\<lambda>(ids, d2).
        Inr (tk1, ids, fold (set_tests_for now ids p) [0..<length p]
                         (fold (set_dependency_ids now ids merged) [0..<length p] d2))))))"

section \<open>Approval\<close>

definition approved_plan_target_status :: "plan \<Rightarrow> task_status" where
  "approved_plan_target_status p = (if list_ex (\<lambda>e. pe_phase e = ''test'') p then StatusTestWriting else StatusInProgress)"

definition exceptions_value :: "tdd_exception list \<Rightarrow> gany" where
  "exceptions_value xs = GList (map (\<lambda>x. GMap [(''subtask_index'', GFloat (of_int (tx_index x))), (''reason'', GStr (tx_reason x))]) xs)"

definition schedule_value :: "schedule \<Rightarrow> gany" where
  "schedule_value s = GMap [(''groups'', if sch_groups s = [] then GNil else GList (map (\<lambda>g.
     GMap [(''order'', GFloat (of_int (sg_order g))), (''task_ids'', GList (map GStr (sg_task_ids g)))]) (sch_groups s)))]"

definition approve_transaction :: "plan_env \<Rightarrow> fresh \<Rightarrow> time \<Rightarrow> string \<Rightarrow> task_status \<Rightarrow> task \<Rightarrow> db \<Rightarrow> err + db" where
  "approve_transaction env fr now actor target tk d =
     (case cas_task_transition (fr ''event'' 0) now tk StatusPlanReview target actor ''review_gate'' ''plan approved''
             [(''action'', GStr ''plan_approved'')] d of
        (_, Inl e) \<Rightarrow> Inl e
      | (tk1, Inr d1) \<Rightarrow>
          res_bind (materialize_subtasks env fr now False tk1 d1) (\<lambda>(tk2, ids, d2).
          let created = child_rows (t_id tk) d2;
              ctx = (if created = [] then t_context tk2
                     else json_put ''schedule'' (schedule_value (build_schedule (pv_sort env) (pv_parse env) created)) (t_context tk2))
          in Inr (update_task_rows (t_id tk) (\<lambda>r. r\<lparr>t_context := ctx, t_tdd_exceptions := t_tdd_exceptions tk2,
               t_updated := now\<rparr>) d2)))"

definition handle_plan_approved :: "plan_env \<Rightarrow> fresh \<Rightarrow> time \<Rightarrow> uuid \<Rightarrow> string \<Rightarrow> db \<Rightarrow> (err + unit) \<times> db" where
  "handle_plan_approved env fr now tid actor d =
     (case load_task tid d of
        Inl e \<Rightarrow> (Inl e, d)
      | Inr tk \<Rightarrow>
          (if t_status tk \<noteq> StatusPlanReview then (Inl ErrStaleTransition, d)
           else (case parse_plan (t_plan tk) of
               Inl e \<Rightarrow> (Inl e, d)
             | Inr pr \<Rightarrow>
                 (let tk1 = (if pp_exceptions pr = [] then tk
                        else tk\<lparr>t_tdd_exceptions := json_put ''exceptions'' (exceptions_value (pp_exceptions pr)) (t_tdd_exceptions tk)\<rparr>);
                      target = approved_plan_target_status (pp_subtasks pr)
                  in case approve_transaction env fr now actor target (tk1\<lparr>t_agent := None\<rparr>) d of
                      Inl e \<Rightarrow> (Inl e, d) | Inr d' \<Rightarrow> (Inr (), d')))))"

section \<open>Rejection and revision\<close>

definition automated_review_keys :: "string list" where
  "automated_review_keys = [''automated_review_state_version'', ''automated_review_status'', ''automated_review_detail'', ''review'']"

definition clear_automated_review_context :: "json_field \<Rightarrow> json_field" where
  "clear_automated_review_context ctx = fold json_del automated_review_keys ctx"

definition handle_plan_rejected :: "fresh \<Rightarrow> time \<Rightarrow> uuid \<Rightarrow> string \<Rightarrow> string \<Rightarrow> db \<Rightarrow> (err + unit) \<times> db" where
  "handle_plan_rejected fr now tid actor feedback d =
     (case load_task tid d of
        Inl e \<Rightarrow> (Inl e, d)
      | Inr tk \<Rightarrow>
          (case cas_task_transition (fr ''event'' 0) now tk StatusPlanReview StatusPlanning actor ''review_gate'' ''plan rejected'' [] d of
             (_, Inl e) \<Rightarrow> (Inl e, d)
           | (tk1, Inr d1) \<Rightarrow>
               (Inr (), update_task_rows (t_id tk) (\<lambda>r. r\<lparr>t_plan := None, t_plan_feedback := trim_space feedback,
                  t_agent := None, t_context := clear_automated_review_context (t_context tk1), t_updated := now\<rparr>) d1)))"

definition revision_event :: "plan_env \<Rightarrow> uuid \<Rightarrow> time \<Rightarrow> task \<Rightarrow> json_field \<Rightarrow> string \<Rightarrow> string \<Rightarrow> task_event" where
  "revision_event env eid now tk plan actor reason =
     \<lparr>te_id = eid, te_task = t_id tk, te_type = ''plan_revised'', te_old = task_status_string StatusPlanReview,
      te_new = task_status_string StatusPlanReview,
      te_details = Some [''reason'' \<mapsto> GStr reason, ''source'' \<mapsto> GStr ''codex_adapter'',
        ''old_state_version'' \<mapsto> GInt (int (t_version tk)), ''new_state_version'' \<mapsto> GInt (int (t_version tk) + 1),
        ''old_plan_sha256'' \<mapsto> GStr (pv_plan_hash env (t_plan tk)), ''new_plan_sha256'' \<mapsto> GStr (pv_plan_hash env plan)],
      te_actor = actor, te_created = now\<rparr>"

definition revise_plan ::
  "plan_env \<Rightarrow> fresh \<Rightarrow> time \<Rightarrow> uuid \<Rightarrow> nat \<Rightarrow> json_field \<Rightarrow> string \<Rightarrow> string \<Rightarrow> db \<Rightarrow> err + db" where
  "revise_plan env fr now tid observed plan actor0 reason0 d =
     (let actor = trim_space actor0; reason = trim_space reason0 in
      if tid = uuid_Nil \<or> observed = 0 \<or> Option.is_none plan \<or> actor = [] \<or> reason = []
      then Inl (ErrMsg ''revise plan: task, observed version, plan, actor, and reason are required'')
      else res_bind (load_task tid d) (\<lambda>tk.
        if t_status tk \<noteq> StatusPlanReview \<or> t_version tk \<noteq> observed then Inl ErrStaleTransition
        else if json_get (t_context tk) ''automated_review_status'' = Some (GStr ''running'') then Inl ErrStaleTransition
        else if child_rows tid d \<noteq> [] then Inl ErrStaleTransition
        else (let ctx = clear_automated_review_context (if Option.is_none (t_context tk) then Some Map.empty else t_context tk);
                  (rows, affected) = tbl_update (\<lambda>r. t_id r = tid \<and> t_status r = StatusPlanReview \<and> t_version r = observed)
                    (\<lambda>r. r\<lparr>t_plan := plan, t_plan_feedback := [], t_tdd_exceptions := None, t_agent := None,
                       t_context := ctx, t_version := observed + 1, t_updated := now\<rparr>) (db_tasks d)
              in if affected \<noteq> 1 then Inl ErrStaleTransition
                 else res_bind (tbl_create event_conflict (revision_event env (fr ''event'' 0) now tk plan actor reason) (db_events d))
                   (\<lambda>evs. Inr (d\<lparr>db_tasks := rows, db_events := evs\<rparr>)))))"

definition delete_plan_step :: "time \<Rightarrow> uuid \<Rightarrow> int \<Rightarrow> db \<Rightarrow> err + db" where
  "delete_plan_step now tid i d = res_bind (load_task tid d) (\<lambda>tk.
     if t_status tk \<noteq> StatusPlanReview then Inl (ErrMsg ''delete plan step: expected plan_review'')
     else if Option.is_none (t_plan tk) then Inl (ErrMsg ''delete plan step: task has no plan'')
     else (case json_get (t_plan tk) ''subtasks'' of
         None \<Rightarrow> Inl (ErrMsg ''delete plan step: no subtasks key in plan'')
       | Some (GList items) \<Rightarrow>
           (if i < 0 \<or> int (length items) \<le> i then Inl (ErrMsg ''delete plan step: index out of range'')
            else Inr (snd (save_task now (tk\<lparr>t_plan := json_put ''subtasks''
                   (GList (take (nat i) items @ drop (nat i + 1) items)) (t_plan tk)\<rparr>) d)))
       | Some _ \<Rightarrow> Inl (ErrMsg ''delete plan step: index out of range'')))"

end
