(* ===== verification/TestReview.thy ===== *)
theory TestReview
  imports PlanApproval
begin

text \<open>
  The review of the written tests: \<open>HandleTestReviewApprovedBy\<close>, \<open>HandleTestReviewRejectedBy\<close> and
  the choice of replacements of \<open>internal/orchestrator/handlers.go\<close>, and the diagnostic of
  \<open>test_writing.go\<close>.  The agent row of the diagnostic agent is left out.
\<close>

section \<open>Replacement lanes\<close>

definition max_plan_rejections :: int where
  "max_plan_rejections = 3"

definition automated_review_actor :: string where
  "automated_review_actor = ''policy:sglang-safe-auto''"

definition base_count :: "task list \<Rightarrow> string \<Rightarrow> nat" where
  "base_count subs base = length (filter (\<lambda>s. test_writing_title_key (t_title s) = base) subs)"

definition base_has_revision :: "task list \<Rightarrow> string \<Rightarrow> bool" where
  "base_has_revision subs base = list_ex (\<lambda>s. test_writing_title_key (t_title s) = base \<and> t_title s \<noteq> base) subs"

definition replacement_lane_key :: "task list \<Rightarrow> task \<Rightarrow> string" where
  "replacement_lane_key subs s =
     (let base = test_writing_title_key (t_title s) in
      if t_tests_for s \<noteq> [] then base @ [CHR 0x00] @ ''tests_for:'' @ str_join '','' (t_tests_for s)
      else if 1 < base_count subs base \<and> base_has_revision subs base then base @ [CHR 0x00] @ ''revision_family''
      else base @ [CHR 0x00] @ ''task:'' @ t_id s)"

definition source_newer :: "task \<Rightarrow> task \<Rightarrow> bool" where
  "source_newer c s \<longleftrightarrow>
     (if t_created s < t_created c then True else if t_created c < t_created s then False
      else if t_updated s < t_updated c then True else if t_updated c < t_updated s then False
      else t_id s < t_id c)"

text \<open>\<open>selectedByLane[lane]\<close> after the loop.\<close>

definition selected_source :: "task list \<Rightarrow> string \<Rightarrow> task option" where
  "selected_source subs lane =
     fold (\<lambda>s acc. if replacement_lane_key subs s \<noteq> lane then acc
        else case acc of None \<Rightarrow> Some s | Some x \<Rightarrow> if source_newer s x then Some s else acc) subs None"

definition replacement_source_ids :: "task list \<Rightarrow> uuid list" where
  "replacement_source_ids subs = map t_id (List.map_filter (\<lambda>s. selected_source subs (replacement_lane_key subs s)) subs)"

section \<open>Rejection\<close>

definition done_tests :: "uuid \<Rightarrow> db \<Rightarrow> task list" where
  "done_tests tid d = filter (\<lambda>s. t_phase s = ''test'' \<and> t_status s = StatusDone) (child_rows tid d)"

definition rejection_count :: "task \<Rightarrow> int" where
  "rejection_count tk = (case json_get (t_context tk) ''test_rejection_count'' of Some (GFloat q) \<Rightarrow> trunc_rat q | _ \<Rightarrow> 0)"

definition revision_title :: "string \<Rightarrow> int \<Rightarrow> string" where
  "revision_title title n = test_writing_title_key title @ '' (revision '' @ show_int n @ '')''"

definition replacement_test :: "uuid \<Rightarrow> time \<Rightarrow> int \<Rightarrow> string \<Rightarrow> task \<Rightarrow> task" where
  "replacement_test i now n feedback s =
     \<lparr>t_id = i, t_project = t_project s, t_parent = t_parent s, t_title = revision_title (t_title s) n,
      t_description = t_description s @ [CHR 0x0A, CHR 0x0A] @ ''## Rejection Feedback'' @ [CHR 0x0A, CHR 0x0A] @ feedback,
      t_status = StatusBacklog, t_version = 1, t_category = CategoryStandard, t_priority = t_priority s,
      t_complexity = 0, t_labels = [], t_deps = t_deps s, t_agent = None, t_plan = None, t_plan_feedback = [],
      t_test_plan = [], t_test_feedback = [], t_branch = [], t_base_sha = [], t_pr_url = [], t_phase = t_phase s,
      t_tests_for = t_tests_for s, t_tdd_exceptions = None, t_needs_human = False,
      t_context = json_put ''skip_existing_work_dedup_reason'' (GStr ''test_review_rejected'')
                    (json_put ''skip_existing_work_dedup'' (GBool True) (t_context s)),
      t_created = now, t_updated = now\<rparr>"

definition failure_context :: "string \<Rightarrow> json_field \<Rightarrow> json_field" where
  "failure_context feedback ctx = json_put ''latest_failure_current'' (GBool True)
     (json_put ''latest_failure_summary'' (GStr feedback) (json_put ''latest_failure_type'' (GStr ''test_review_rejected'') ctx))"

text \<open>The automated reviewer fails the selected tests; a person rejects all and replaces the selected ones.\<close>

fun fail_tests :: "fresh \<Rightarrow> time \<Rightarrow> string \<Rightarrow> string \<Rightarrow> uuid list \<Rightarrow> nat \<Rightarrow> task list \<Rightarrow> db \<Rightarrow> err + int \<times> db" where
  "fail_tests fr now actor feedback sources k [] d = Inr (0, d)"
| "fail_tests fr now actor feedback sources k (s # ss) d =
     (if t_id s \<notin> set sources then fail_tests fr now actor feedback sources (Suc k) ss d
      else (case cas_fail_completed_test_subtask (fr ''invalidate'' k) now (s\<lparr>t_context := failure_context feedback (t_context s)\<rparr>)
              actor [(''action'', GStr ''automated_test_review_rejected''), (''feedback'', GStr feedback)] d of
          (_, Inl e) \<Rightarrow> Inl e
        | (_, Inr d1) \<Rightarrow> map_sum id (apfst ((+) 1)) (fail_tests fr now actor feedback sources (Suc k) ss d1)))"

fun reject_tests ::
  "fresh \<Rightarrow> time \<Rightarrow> string \<Rightarrow> string \<Rightarrow> int \<Rightarrow> uuid list \<Rightarrow> nat \<Rightarrow> task list \<Rightarrow> db \<Rightarrow> err + int \<times> db" where
  "reject_tests fr now actor feedback n sources k [] d = Inr (0, d)"
| "reject_tests fr now actor feedback n sources k (s # ss) d =
     (case cas_supersede_completed_test_subtask (fr ''invalidate'' k) now s actor
             [(''action'', GStr ''test_review_rejected''), (''feedback'', GStr feedback)] d of
        (_, Inl e) \<Rightarrow> Inl e
      | (s', Inr d1) \<Rightarrow>
          if t_id s \<notin> set sources then reject_tests fr now actor feedback n sources (Suc k) ss d1
          else res_bind (create_task (replacement_test (fr ''replacement'' k) now n feedback s') d1) (\<lambda>d2.
               map_sum id (apfst ((+) 1)) (reject_tests fr now actor feedback n sources (Suc k) ss d2)))"

definition counted_rejection :: "string \<Rightarrow> task \<Rightarrow> task" where
  "counted_rejection feedback tk =
     (let n = rejection_count tk + 1 in
      tk\<lparr>t_context := json_put (''test_rejection_feedback_'' @ show_int n) (GStr feedback)
           (json_put ''test_rejection_count'' (GFloat (of_int n)) (t_context tk))\<rparr>)"

definition automated_rejection :: "fresh \<Rightarrow> time \<Rightarrow> string \<Rightarrow> string \<Rightarrow> task \<Rightarrow> db \<Rightarrow> err + task \<times> db" where
  "automated_rejection fr now actor feedback tk d =
     (let subs = done_tests (t_id tk) d in
      res_bind (fail_tests fr now actor feedback (replacement_source_ids subs) 0 subs d) (\<lambda>(failed, d1).
      case cas_task_transition (fr ''event'' 0) now (tk\<lparr>t_context := failure_context feedback (t_context tk)\<rparr>)
             StatusTestReview StatusFailed actor ''review_gate'' ''automated test review requires Codex correction''
             [(''rejection_count'', GInt (rejection_count tk)), (''feedback'', GStr feedback), (''failed_subtasks'', GInt failed)] d1 of
        (_, Inl e) \<Rightarrow> Inl e | (tk', Inr d2) \<Rightarrow> Inr (tk', d2)))"

definition diagnostic_rejection :: "fresh \<Rightarrow> time \<Rightarrow> string \<Rightarrow> task \<Rightarrow> db \<Rightarrow> err + task \<times> db" where
  "diagnostic_rejection fr now actor tk d =
     (case cas_task_transition (fr ''event'' 0) now tk StatusTestReview StatusTestWriting actor ''review_gate''
             ''test review rejection threshold reached'' [] d of
        (_, Inl e) \<Rightarrow> Inl e
      | (tk1, Inr d1) \<Rightarrow>
          (case cas_task_transition (fr ''event'' 1) now
               (tk1\<lparr>t_context := json_put ''diagnostic_required'' (GBool True)
                  (json_put ''paused_from'' (GStr (task_status_string StatusTestWriting)) (t_context tk1))\<rparr>)
               StatusTestWriting StatusPaused actor ''review_gate'' ''test rejection diagnostic required'' [] d1 of
             (_, Inl e) \<Rightarrow> Inl e | (tk2, Inr d2) \<Rightarrow> Inr (tk2, d2)))"

definition revision_rejection :: "fresh \<Rightarrow> time \<Rightarrow> string \<Rightarrow> string \<Rightarrow> task \<Rightarrow> db \<Rightarrow> err + task \<times> db" where
  "revision_rejection fr now actor feedback tk d =
     (let subs = done_tests (t_id tk) d; n = rejection_count tk in
      res_bind (reject_tests fr now actor feedback n (replacement_source_ids subs) 0 subs d) (\<lambda>(cloned, d1).
      case cas_task_transition (fr ''event'' 0) now tk StatusTestReview StatusTestWriting actor ''review_gate'' ''test review rejected''
             [(''rejection_count'', GInt n), (''feedback'', GStr feedback), (''subtasks_cloned'', GInt cloned)] d1 of
        (_, Inl e) \<Rightarrow> Inl e | (tk', Inr d2) \<Rightarrow> Inr (tk', d2)))"

section \<open>The diagnostic\<close>

definition feedback_rounds :: "task \<Rightarrow> string list" where
  "feedback_rounds tk = List.map_filter (\<lambda>i. case json_get (t_context tk) (''test_rejection_feedback_'' @ show_int i) of
     Some (GStr fb) \<Rightarrow> Some (''Round '' @ show_int i @ '' feedback: '' @ fb) | _ \<Rightarrow> None) [1, 2, 3]"

definition diagnostic_prompt :: "task \<Rightarrow> db \<Rightarrow> string" where
  "diagnostic_prompt tk d =
     (let nl = [CHR 0x0A]; tests = sort_key t_created (filter (\<lambda>s. t_phase s = ''test'') (child_rows (t_id tk) d)) in
      ''The tests for this task have been rejected 3 times. Help the human understand why.'' @ nl @ nl
      @ ''Task: '' @ t_title tk @ nl @ t_description tk @ nl @ nl
      @ ''Test subtask history:'' @ nl
      @ str_join nl (map (\<lambda>s. ''- '' @ t_title s @ '' ['' @ task_status_string (t_status s) @ '']'') tests) @ nl @ nl
      @ ''Rejection rounds:'' @ nl @ str_join nl (feedback_rounds tk) @ nl @ nl
      @ ''Summarize the pattern of rejections and suggest a path forward.'' @ nl
      @ ''Either the test premise is wrong, the acceptance criteria are ambiguous,'' @ nl
      @ ''or there'' @ [CHR 0x27] @ ''s a misunderstanding.'')"

definition spawn_diagnostic_agent :: "time \<Rightarrow> task \<Rightarrow> db \<Rightarrow> task \<times> db" where
  "spawn_diagnostic_agent now tk d =
     save_task now (tk\<lparr>t_context := json_put ''diagnostic_prompt'' (GStr (diagnostic_prompt tk d)) (t_context tk)\<rparr>) d"

section \<open>Handlers\<close>

definition handle_test_review_rejected ::
  "fresh \<Rightarrow> time \<Rightarrow> uuid \<Rightarrow> string \<Rightarrow> string \<Rightarrow> db \<Rightarrow> (err + unit) \<times> db" where
  "handle_test_review_rejected fr now tid feedback actor d =
     (case load_task tid d of
        Inl e \<Rightarrow> (Inl e, d)
      | Inr tk0 \<Rightarrow>
          if t_status tk0 \<noteq> StatusTestReview then (Inl (ErrMsg ''handle test review rejected: expected test_review''), d)
          else let tk = counted_rejection feedback tk0 in
            if actor = automated_review_actor
            then (case automated_rejection fr now actor feedback tk d of Inl e \<Rightarrow> (Inl e, d) | Inr (_, d') \<Rightarrow> (Inr (), d'))
            else if max_plan_rejections \<le> rejection_count tk
            then (case diagnostic_rejection fr now actor tk d of
                Inl e \<Rightarrow> (Inl e, d) | Inr (tk', d') \<Rightarrow> (Inr (), snd (spawn_diagnostic_agent now tk' d')))
            else (case revision_rejection fr now actor feedback tk d of Inl e \<Rightarrow> (Inl e, d) | Inr (_, d') \<Rightarrow> (Inr (), d')))"

definition handle_test_review_approved :: "fresh \<Rightarrow> time \<Rightarrow> uuid \<Rightarrow> string \<Rightarrow> db \<Rightarrow> (err + unit) \<times> db" where
  "handle_test_review_approved fr now tid actor d =
     (case load_task tid d of
        Inl e \<Rightarrow> (Inl e, d)
      | Inr tk \<Rightarrow>
          (case cas_task_transition (fr ''event'' 0) now tk StatusTestReview StatusInProgress actor ''review_gate''
                 ''test review approved'' [] d of
             (_, Inl e) \<Rightarrow> (Inl e, d) | (_, Inr d') \<Rightarrow> (Inr (), d')))"

end
