(* ===== verification/ReviewGate.thy ===== *)
theory ReviewGate
  imports TestReview
begin

text \<open>
  The automated review gate, \<open>internal/orchestrator/review_policy.go\<close>, with the part of
  \<open>SpawnReviewerSession\<close> (\<open>session_spawning.go\<close>) and \<open>onReviewerCompleted\<close> (\<open>agent_results.go\<close>)
  that it uses: the direct reviewer of a plan or of the written tests.

  \<open>review_env\<close> answers for the rest: whether a working reviewer row exists for the task, the
  directory of its integration worktree, the evidence packets, the model's run (an error, no readable
  \<open>review.json\<close>, or a review) and the creation of a feature worktree.  Agent rows, usage events and
  the terminal are left out.
\<close>

type_synonym review = "(string \<times> gany) list"

record review_env =
  rv_plan_env :: plan_env
  rv_plan_policy :: review_gate_policy
  rv_test_policy :: review_gate_policy
  rv_configured :: bool
  rv_running :: "uuid \<Rightarrow> bool"
  rv_worktree :: "task \<Rightarrow> string"
  rv_evidence :: "task \<Rightarrow> err + string"
  rv_agent :: uuid
  rv_run :: "task \<Rightarrow> string \<Rightarrow> err + review option"
  rv_create_feature :: "string \<Rightarrow> err + string \<times> string"
  rv_error_text :: "err \<Rightarrow> string"

section \<open>Reading a review\<close>

definition truncate :: "string \<Rightarrow> nat \<Rightarrow> string" where
  "truncate s n = (if length s \<le> n then s else take n s)"

definition text_of :: "gany option \<Rightarrow> string" where
  "text_of v = (case v of Some (GStr s) \<Rightarrow> s | _ \<Rightarrow> [])"

definition list_of :: "gany option \<Rightarrow> gany list" where
  "list_of v = (case v of Some (GList xs) \<Rightarrow> xs | _ \<Rightarrow> [])"

definition map_of_gany :: "gany option \<Rightarrow> review" where
  "map_of_gany v = (case v of Some (GMap m) \<Rightarrow> m | _ \<Rightarrow> [])"

definition stored_review :: "task \<Rightarrow> review option" where
  "stored_review tk = (case json_get (t_context tk) ''review'' of Some (GMap m) \<Rightarrow> Some m | _ \<Rightarrow> None)"

definition plan_has_tdd_exceptions :: "json_field \<Rightarrow> bool" where
  "plan_has_tdd_exceptions plan = (list_of (json_get plan ''tdd_exceptions'') \<noteq> [])"

definition review_safe_to_approve :: "task \<Rightarrow> review option \<Rightarrow> bool" where
  "review_safe_to_approve tk ro =
     (case ro of
        None \<Rightarrow> False
      | Some r \<Rightarrow>
          if map_of r ''recommendation'' \<noteq> Some (GStr ''approve'') \<or> map_of r ''coverage'' \<noteq> Some (GStr ''full'') then False
          else if list_of (map_of r ''issues'') \<noteq> [] then False
          else if t_status tk = StatusTestReview then True
          else if map_of r ''integration_gap'' \<noteq> Some (GBool False) then False
          else if text_of (map_of r ''file_overlap_risk'') \<in> {[], ''high''} then False
          else let tdd = map_of_gany (map_of r ''tdd_assessment'') in
            if list_of (map_of tdd ''issues'') \<noteq> [] then False
            else map_of tdd ''test_coverage_adequate'' = Some (GBool True)
              \<and> (\<not> plan_has_tdd_exceptions (t_plan tk) \<or> map_of tdd ''exceptions_justified'' = Some (GBool True)))"

definition automated_review_requests_revision :: "review \<Rightarrow> bool" where
  "automated_review_requests_revision r = (text_of (map_of r ''recommendation'') \<in> {''revise'', ''reject''})"

definition feedback_lines :: "review \<Rightarrow> string \<Rightarrow> string list" where
  "feedback_lines r key = List.map_filter (\<lambda>v. case v of
     GStr s \<Rightarrow> if trim_space s \<noteq> [] then Some (''- '' @ trim_space s) else None | _ \<Rightarrow> None) (list_of (map_of r key))"

definition automated_review_feedback :: "review \<Rightarrow> string" where
  "automated_review_feedback r = str_join [CHR 0x0A]
     ((''SGLang test review recommendation: '' @ text_of (map_of r ''recommendation'') @ ''.'')
       # feedback_lines r ''issues'' @ feedback_lines r ''uncovered_criteria'')"

definition numeric_uint64 :: "gany option \<Rightarrow> nat option" where
  "numeric_uint64 v =
     (case v of
        Some (GFloat q) \<Rightarrow> if 0 \<le> q \<and> of_int \<lfloor>q\<rfloor> = q then Some (nat \<lfloor>q\<rfloor>) else None
      | Some (GInt i) \<Rightarrow> if 0 \<le> i then Some (nat i) else None
      | _ \<Rightarrow> None)"

definition attempted_version :: "task \<Rightarrow> bool" where
  "attempted_version tk \<longleftrightarrow> numeric_uint64 (json_get (t_context tk) ''automated_review_state_version'') = Some (t_version tk)"

section \<open>Normalization\<close>

definition review_del :: "string \<Rightarrow> review \<Rightarrow> review" where
  "review_del k r = filter (\<lambda>(k', _). k' \<noteq> k) r"

definition normalize_plan_review :: "review \<Rightarrow> review \<times> bool" where
  "normalize_plan_review r =
     (if map_of r ''tdd_assessment'' \<notin> {None, Some GNil} then (r, False)
      else (case map_of r ''tdd_structure'' of
          Some (GMap legacy) \<Rightarrow> (review_del ''tdd_structure'' (gmap_put ''tdd_assessment'' (GMap legacy) r), True)
        | _ \<Rightarrow> (r, False)))"

definition positive_markers :: "string list" where
  "positive_markers = [''correct'', ''cover'', ''consistent'', ''matches'', ''match the requirements'']"

definition negative_markers :: "string list" where
  "negative_markers = [''ambiguous'', ''fail'', ''incorrect'', ''incomplete'', ''mismatch'', ''missing'', ''not match'',
     ''outside'', ''uncovered'', ''wrong'']"

definition affirming_issue :: "gany \<Rightarrow> bool" where
  "affirming_issue v =
     (case v of
        GStr issue \<Rightarrow>
          (let lower = to_lower (trim_space issue) in
           lower \<noteq> [] \<and> \<not> list_ex (\<lambda>m. str_contains m lower) negative_markers
           \<and> list_ex (\<lambda>m. str_contains m lower) positive_markers)
      | _ \<Rightarrow> False)"

definition normalize_affirming_test_review :: "task \<Rightarrow> review \<Rightarrow> review \<times> bool" where
  "normalize_affirming_test_review tk r =
     (if t_status tk \<noteq> StatusTestReview \<or> map_of r ''recommendation'' \<noteq> Some (GStr ''approve'')
         \<or> map_of r ''coverage'' \<noteq> Some (GStr ''full'') then (r, False)
      else (case map_of r ''issues'' of
          Some (GList (x # xs)) \<Rightarrow>
            if list_all affirming_issue (x # xs) then (gmap_put ''issues'' (GList []) r, True) else (r, False)
        | _ \<Rightarrow> (r, False)))"

text \<open>Both, on the map that the context of the task shares.\<close>

definition normalize_review :: "task \<Rightarrow> task \<times> review option \<times> bool" where
  "normalize_review tk =
     (case stored_review tk of
        None \<Rightarrow> (tk, None, False)
      | Some r \<Rightarrow>
          let (r1, c1) = normalize_plan_review r; (r2, c2) = normalize_affirming_test_review tk r1 in
          (if c1 \<or> c2 then tk\<lparr>t_context := json_put ''review'' (GMap r2) (t_context tk)\<rparr> else tk, Some r2, c1 \<or> c2))"

section \<open>The reviewer\<close>

definition spawn_direct_gate_reviewer :: "review_env \<Rightarrow> time \<Rightarrow> task \<Rightarrow> string \<Rightarrow> db \<Rightarrow> (err + unit) \<times> db" where
  "spawn_direct_gate_reviewer env now tk payload d =
     (let (tk1, d1) = save_task now (tk\<lparr>t_agent := Some (rv_agent env)\<rparr>) d in
      case rv_run env tk1 payload of
        Inl e \<Rightarrow> (Inl e, d1)
      | Inr None \<Rightarrow> (Inr (), d1)
      | Inr (Some r) \<Rightarrow>
          (Inr (), snd (save_task now (tk1\<lparr>t_context := json_put ''review'' (GMap r) (t_context tk1)\<rparr>) d1)))"

text \<open>\<open>SpawnReviewerSession\<close> with the direct reviewer configured; the review of a finished feature, which
  this gate never asks for, is refused here.\<close>

definition spawn_reviewer_session :: "review_env \<Rightarrow> time \<Rightarrow> uuid \<Rightarrow> db \<Rightarrow> (err + unit) \<times> db" where
  "spawn_reviewer_session env now tid d =
     (case load_task tid d of
        Inl e \<Rightarrow> (Inl e, d)
      | Inr tk \<Rightarrow>
          if t_status tk \<notin> {StatusPlanReview, StatusTestReview}
          then (Inl (ErrMsg ''spawn reviewer: task must be in plan_review or test_review''), d)
          else if rv_running env tid then (Inr (), d)
          else if rv_worktree env tk = [] then (Inl (ErrMsg ''spawn reviewer: no integration worktree found for task''), d)
          else (case rv_evidence env tk of
              Inl e \<Rightarrow> (Inl e, d) | Inr payload \<Rightarrow> spawn_direct_gate_reviewer env now tk payload d))"

section \<open>The gate\<close>

definition park_automated_review :: "time \<Rightarrow> task \<Rightarrow> string \<Rightarrow> string \<Rightarrow> db \<Rightarrow> db" where
  "park_automated_review now tk reason detail d =
     snd (save_task now (tk\<lparr>t_context := json_put ''automated_review_detail'' (GStr (truncate detail 1000))
       (json_put ''automated_review_status'' (GStr reason) (t_context tk))\<rparr>) d)"

definition ensure_feature_worktree :: "review_env \<Rightarrow> time \<Rightarrow> task \<Rightarrow> db \<Rightarrow> err + task \<times> db" where
  "ensure_feature_worktree env now tk d =
     (if t_branch tk \<noteq> [] then Inr (tk, d)
      else (case rv_create_feature env (task_feature_name tk) of
          Inl e \<Rightarrow> Inl e
        | Inr (branch, head) \<Rightarrow> Inr (save_task now (tk\<lparr>t_branch := branch, t_base_sha := head\<rparr>) d)))"

text \<open>The feature worktree of a plan that entered the gate without one, and the reset of an attempt
  that failed for its lack.\<close>

definition prepare_plan_review :: "review_env \<Rightarrow> time \<Rightarrow> task \<Rightarrow> db \<Rightarrow> err + task \<times> db" where
  "prepare_plan_review env now tk d =
     (if t_status tk = StatusPlanReview \<and> t_branch tk = [] then
        res_bind (ensure_feature_worktree env now tk d) (\<lambda>(tk1, d1).
        if json_get (t_context tk1) ''automated_review_status'' = Some (GStr ''reviewer_failed'')
           \<and> str_contains ''no integration worktree'' (text_of (json_get (t_context tk1) ''automated_review_detail''))
        then Inr (save_task now (tk1\<lparr>t_context := json_del ''automated_review_detail'' (json_del ''automated_review_status''
               (json_del ''automated_review_state_version'' (t_context tk1)))\<rparr>) d1)
        else Inr (tk1, d1))
      else Inr (tk, d))"

definition approve_recovered :: "review_env \<Rightarrow> fresh \<Rightarrow> time \<Rightarrow> task \<Rightarrow> db \<Rightarrow> (err + unit) \<times> db" where
  "approve_recovered env fr now tk d =
     (if t_status tk = StatusTestReview then handle_test_review_approved fr now (t_id tk) automated_review_actor d
      else handle_plan_approved (rv_plan_env env) fr now (t_id tk) automated_review_actor d)"

definition mark_approved :: "time \<Rightarrow> json_field \<Rightarrow> task \<Rightarrow> db \<Rightarrow> db" where
  "mark_approved now ctx tk d =
     snd (save_task now (tk\<lparr>t_context := json_put ''automated_review_status'' (GStr ''approved'') ctx\<rparr>) d)"

definition claim_review :: "time \<Rightarrow> task \<Rightarrow> db \<Rightarrow> err + task \<times> db" where
  "claim_review now tk d =
     (let ctx = json_put ''automated_review_status'' (GStr ''running'')
            (json_put ''automated_review_state_version'' (GFloat (of_nat (t_version tk))) (t_context tk));
          (rows, affected) = tbl_update (\<lambda>r. t_id r = t_id tk \<and> t_status r = t_status tk \<and> t_version r = t_version tk)
            (\<lambda>r. r\<lparr>t_context := ctx, t_updated := now\<rparr>) (db_tasks d);
          d1 = d\<lparr>db_tasks := rows\<rparr>
      in if affected \<noteq> 1 then Inl ErrStaleTransition
         else res_bind (load_task (t_id tk) d1) (\<lambda>tk1. Inr (tk1, d1)))"

text \<open>What follows the answer of the reviewer.\<close>

definition settle_review :: "review_env \<Rightarrow> fresh \<Rightarrow> time \<Rightarrow> task \<Rightarrow> db \<Rightarrow> (err + unit) \<times> db" where
  "settle_review env fr now tk d =
     (let (tk1, ro, _) = normalize_review tk; r = (case ro of None \<Rightarrow> [] | Some r \<Rightarrow> r) in
      if \<not> review_safe_to_approve tk1 ro then
        (if t_status tk1 = StatusTestReview \<and> automated_review_requests_revision r
         then handle_test_review_rejected fr now (t_id tk1) (automated_review_feedback r) automated_review_actor d
         else let recommendation = text_of (map_of r ''recommendation'');
                  shown = (if trim_space recommendation = [] then ''invalid'' else recommendation) in
           (Inr (), park_automated_review now tk1 ''attention_required'' (''SGLang recommendation: '' @ shown) d))
      else let d1 = mark_approved now (t_context tk1) tk1 d in
        if t_status tk1 = StatusPlanReview then handle_plan_approved (rv_plan_env env) fr now (t_id tk1) automated_review_actor d1
        else handle_test_review_approved fr now (t_id tk1) automated_review_actor d1)"

definition run_review :: "review_env \<Rightarrow> fresh \<Rightarrow> time \<Rightarrow> task \<Rightarrow> db \<Rightarrow> (err + unit) \<times> db" where
  "run_review env fr now tk d =
     (case claim_review now tk d of
        Inl e \<Rightarrow> (Inl e, d)
      | Inr (tk1, d1) \<Rightarrow>
          if \<not> rv_configured env
          then (Inr (), park_automated_review now tk1 ''reviewer_unconfigured'' ''direct SGLang reviewer is not configured'' d1)
          else (case spawn_reviewer_session env now (t_id tk1) d1 of
              (Inl e, d2) \<Rightarrow> (Inr (), park_automated_review now tk1 ''reviewer_failed'' (rv_error_text env e) d2)
            | (Inr _, d2) \<Rightarrow>
                (case load_task (t_id tk1) d2 of Inl e \<Rightarrow> (Inl e, d2) | Inr tk2 \<Rightarrow> settle_review env fr now tk2 d2)))"

text \<open>A review parked by an older process that is acceptable once normalized.\<close>

definition recoverable :: "task \<Rightarrow> bool" where
  "recoverable tk \<longleftrightarrow> attempted_version tk \<and> json_get (t_context tk) ''automated_review_status'' = Some (GStr ''attention_required'')"

definition process_automated_review_gate :: "review_env \<Rightarrow> fresh \<Rightarrow> time \<Rightarrow> task \<Rightarrow> db \<Rightarrow> (err + unit) \<times> db" where
  "process_automated_review_gate env fr now tk0 d0 =
     (case prepare_plan_review env now tk0 d0 of
        Inl e \<Rightarrow> (Inl e, d0)
      | Inr (tk, d) \<Rightarrow>
          let (tk1, ro, changed) = normalize_review tk in
          (case ro of
             Some r \<Rightarrow>
               if recoverable tk1 \<and> t_status tk1 = StatusTestReview \<and> automated_review_requests_revision r
               then handle_test_review_rejected fr now (t_id tk1) (automated_review_feedback r) automated_review_actor d
               else if recoverable tk1 \<and> review_safe_to_approve tk1 (Some r)
               then approve_recovered env fr now tk1
                      (mark_approved now (json_del ''automated_review_detail'' (t_context tk1)) tk1 d)
               else let (tk2, d2) = (if changed then save_task now tk1 d else (tk1, d)) in
                 if attempted_version tk2 then (Inr (), d2) else run_review env fr now tk2 d2
           | None \<Rightarrow> if attempted_version tk1 then (Inr (), d) else run_review env fr now tk1 d))"

text \<open>A failure of one task is only logged; the rows are read before the loop.\<close>

fun process_gate_tasks :: "review_env \<Rightarrow> (nat \<Rightarrow> fresh) \<Rightarrow> time \<Rightarrow> nat \<Rightarrow> task list \<Rightarrow> db \<Rightarrow> db" where
  "process_gate_tasks env fr now k [] d = d"
| "process_gate_tasks env fr now k (tk # tks) d =
     process_gate_tasks env fr now (Suc k) tks (snd (process_automated_review_gate env (fr k) now tk d))"

definition gate_rows :: "uuid \<Rightarrow> task_status \<Rightarrow> db \<Rightarrow> task list" where
  "gate_rows project st d = filter (\<lambda>t. t_project t = project \<and> t_status t = st \<and> t_parent t = None) (db_tasks d)"

definition process_review_gates :: "review_env \<Rightarrow> (nat \<Rightarrow> fresh) \<Rightarrow> (nat \<Rightarrow> fresh) \<Rightarrow> time \<Rightarrow> uuid \<Rightarrow> db \<Rightarrow> db" where
  "process_review_gates env fp ft now project d =
     (let d1 = (if rv_plan_policy env \<noteq> ReviewGateSGLangSafeAuto then d
            else process_gate_tasks env fp now 0 (gate_rows project StatusPlanReview d) d) in
      if rv_test_policy env \<noteq> ReviewGateSGLangSafeAuto then d1
      else process_gate_tasks env ft now 0 (gate_rows project StatusTestReview d1) d1)"

end
