(* ===== verification/PlanGraph.thy ===== *)
theory PlanGraph
  imports PlanModel
begin

text \<open>
  The dependency graph of a plan.  The explicit-stack search of \<open>hasCycle\<close> finds a cycle exactly
  when the graph has one, and the search of \<open>dependsOnPath\<close> decides reachability.  The edges that
  \<open>MergeTDDDependencies\<close> adds are characterised in \<open>PlanProperties\<close>.
\<close>

section \<open>Edges\<close>

definition dep_edges :: "plan \<Rightarrow> (nat \<times> nat) set" where
  "dep_edges p = {(v, w). v < length p \<and> w < length p \<and> int w \<in> set (pe_deps (p ! v))}"

lemma dep_edges_iff:
  "(v, w) \<in> dep_edges p \<longleftrightarrow> v < length p \<and> w < length p \<and> int w \<in> set (pe_deps (p ! v))"
  by (simp add: dep_edges_def)

lemma in_range_int [simp]: "in_range (int w) p \<longleftrightarrow> w < length p"
  by (simp add: in_range_def)

lemma in_rangeD: "in_range k p \<Longrightarrow> nat k < length p \<and> int (nat k) = k"
  by (simp add: in_range_def nat_less_iff)

section \<open>Reachability\<close>

text \<open>Every position already seen has its dependencies seen or pending.\<close>

definition visit_inv :: "plan \<Rightarrow> nat \<Rightarrow> int list \<Rightarrow> nat list \<Rightarrow> bool" where
  "visit_inv p t pending seen \<longleftrightarrow> t \<notin> set seen
     \<and> (\<forall>v w. v \<in> set seen \<longrightarrow> (v, w) \<in> dep_edges p \<longrightarrow> w \<in> set seen \<or> int w \<in> set pending)"

definition reaches :: "plan \<Rightarrow> nat \<Rightarrow> int \<Rightarrow> bool" where
  "reaches p t c \<longleftrightarrow> in_range c p \<and> (nat c, t) \<in> (dep_edges p)\<^sup>*"

lemma seen_escape:
  assumes "(v, t) \<in> (dep_edges p)\<^sup>*" and "v \<in> set seen" and "visit_inv p t pending seen"
  shows "\<exists>w. w \<notin> set seen \<and> int w \<in> set pending \<and> reaches p t (int w)"
  using assms
proof (induction rule: converse_rtrancl_induct)
  case base
  then show ?case by (simp add: visit_inv_def)
next
  case (step v w)
  show ?case
  proof (cases "w \<in> set seen")
    case False
    with step show ?thesis by (auto simp: visit_inv_def reaches_def dep_edges_iff intro!: exI[of _ w])
  qed (use step in blast)
qed

lemma reaches_step:
  assumes "in_range c p" and "nat c \<noteq> t" and "t < length p"
  shows "reaches p t c \<longleftrightarrow> (\<exists>d \<in> set (pe_deps (p ! nat c)). reaches p t d)"
proof -
  have "(nat c, t) \<in> (dep_edges p)\<^sup>* \<longleftrightarrow> (\<exists>w. (nat c, w) \<in> dep_edges p \<and> (w, t) \<in> (dep_edges p)\<^sup>*)"
    using assms(2) by (meson converse_rtranclE converse_rtrancl_into_rtrancl)
  also have "\<dots> \<longleftrightarrow> (\<exists>d \<in> set (pe_deps (p ! nat c)). reaches p t d)"
  proof
    assume "\<exists>w. (nat c, w) \<in> dep_edges p \<and> (w, t) \<in> (dep_edges p)\<^sup>*"
    then obtain w where "(nat c, w) \<in> dep_edges p" "(w, t) \<in> (dep_edges p)\<^sup>*" by blast
    then show "\<exists>d \<in> set (pe_deps (p ! nat c)). reaches p t d"
      by (auto simp: dep_edges_iff reaches_def intro!: bexI[of _ "int w"])
  next
    assume "\<exists>d \<in> set (pe_deps (p ! nat c)). reaches p t d"
    then show "\<exists>w. (nat c, w) \<in> dep_edges p \<and> (w, t) \<in> (dep_edges p)\<^sup>*"
      using assms(1) by (fastforce simp: dep_edges_iff reaches_def dest: in_rangeD)
  qed
  finally show ?thesis using assms(1) by (simp add: reaches_def)
qed

lemma visit_deps_iff:
  assumes "visit_inv p t pending seen" and "t < length p"
  shows "visit_deps p (int t) pending seen \<longleftrightarrow> (\<exists>c \<in> set pending. reaches p t c)"
  using assms
proof (induction p "int t" pending seen rule: visit_deps.induct)
  case (1 p seen)
  then show ?case by simp
next
  case (2 p c pending seen)
  consider "c = int t" | "c \<noteq> int t" "\<not> in_range c p" | "c \<noteq> int t" "in_range c p" "nat c \<in> set seen"
    | "c \<noteq> int t" "in_range c p" "nat c \<notin> set seen" by blast
  then show ?case
  proof cases
    case 1
    with "2.prems" show ?thesis by (auto simp: reaches_def)
  next
    case 2
    then have "visit_inv p t pending seen"
      using "2.prems" by (force simp: visit_inv_def dep_edges_iff)
    with 2 "2.hyps"(1) "2.prems" show ?thesis by (auto simp: reaches_def)
  next
    case 3
    then have inv: "visit_inv p t pending seen"
      using "2.prems" by (force simp: visit_inv_def)
    have "\<exists>c' \<in> set pending. reaches p t c'" if "reaches p t c"
    proof -
      from that have "(nat c, t) \<in> (dep_edges p)\<^sup>*" by (simp add: reaches_def)
      from seen_escape[OF this 3(3) inv] show ?thesis by blast
    qed
    with 3 "2.hyps"(2) "2.prems" inv show ?thesis by auto
  next
    case 4
    then have c: "int w = c \<longleftrightarrow> w = nat c" "c = int w \<longleftrightarrow> nat c = w" for w by (auto simp: in_range_def)
    have inv: "visit_inv p t (pe_deps (p ! nat c) @ pending) (nat c # seen)"
      using 4(1)[unfolded c] 4(3) "2.prems" c unfolding visit_inv_def
      by (auto simp: dep_edges_iff simp del: int_nat_eq)
    have "visit_deps p (int t) (c # pending) seen
        \<longleftrightarrow> visit_deps p (int t) (pe_deps (p ! nat c) @ pending) (nat c # seen)"
      using 4 by simp
    also have "\<dots> \<longleftrightarrow> (\<exists>d \<in> set (pe_deps (p ! nat c) @ pending). reaches p t d)"
      using "2.hyps"(3) 4 inv "2.prems" by blast
    finally show ?thesis
      using reaches_step[of c p t] 4 4(1)[unfolded c] "2.prems" by auto
  qed
qed

lemma depends_on_path_iff:
  "\<lbrakk>a < length p; t < length p\<rbrakk> \<Longrightarrow> depends_on_path p a t \<longleftrightarrow> (a, t) \<in> (dep_edges p)\<^sup>*"
  using visit_deps_iff[of p t "[int a]" "[]"]
  by (simp add: depends_on_path_def visit_inv_def reaches_def del: visit_deps.simps)

section \<open>Cycles\<close>

text \<open>The frames below a frame: each is waiting for the frame above it, and everything it has
  passed before is finished.\<close>

fun frames_ok :: "plan \<Rightarrow> visit_state list \<Rightarrow> nat option \<Rightarrow> (nat \<times> nat) list \<Rightarrow> bool" where
  "frames_ok p st ab [] = True"
| "frames_ok p st ab ((v, i) # stack) =
     ((\<forall>w. int w \<in> set (take i (pe_deps (p ! v))) \<longrightarrow> w < length p \<longrightarrow> st ! w = Finished \<or> ab = Some w)
      \<and> (\<forall>w. ab = Some w \<longrightarrow> (v, w) \<in> dep_edges p) \<and> frames_ok p st (Some v) stack)"

definition dfs_inv :: "plan \<Rightarrow> (nat \<times> nat) list \<Rightarrow> visit_state list \<Rightarrow> bool" where
  "dfs_inv p stack st \<longleftrightarrow> length st = length p
     \<and> distinct (map fst stack)
     \<and> (\<forall>v. v \<in> set (map fst stack) \<longleftrightarrow> v < length p \<and> st ! v = InProgress)
     \<and> frames_ok p st None stack
     \<and> (\<forall>v w. (v, w) \<in> dep_edges p \<longrightarrow> st ! v = Finished \<longrightarrow> st ! w = Finished)
     \<and> (\<forall>v < length p. st ! v = Finished \<longrightarrow> (v, v) \<notin> (dep_edges p)\<^sup>+)"

lemma frames_mono:
  assumes "frames_ok p st ab stack" and "\<And>w. w < length p \<Longrightarrow> st ! w = Finished \<Longrightarrow> st' ! w = Finished"
  shows "frames_ok p st' ab stack"
  using assms(1)
proof (induction stack arbitrary: ab)
  case (Cons f stack)
  then show ?case using assms(2) by (cases f) (simp, blast)
qed simp

lemma frames_pop:
  "\<lbrakk>frames_ok p st (Some v) stack; st ! v = Finished\<rbrakk> \<Longrightarrow> frames_ok p st None stack"
  by (cases stack) auto

lemma frames_path:
  "\<lbrakk>frames_ok p st ab ((v, i) # stack); d \<in> set (map fst ((v, i) # stack))\<rbrakk>
   \<Longrightarrow> (d, v) \<in> (dep_edges p)\<^sup>*"
proof (induction stack arbitrary: ab v i)
  case (Cons f stack)
  obtain u j where f: "f = (u, j)" by fastforce
  show ?case
  proof (cases "d = v")
    case False
    then have "(d, u) \<in> (dep_edges p)\<^sup>*"
      using Cons.IH[of "Some v" u j] Cons.prems f by simp
    moreover have "(u, v) \<in> dep_edges p" using Cons.prems f by simp
    ultimately show ?thesis by (rule rtrancl_into_rtrancl)
  qed simp
qed simp

lemma finished_closed:
  assumes "(v, w) \<in> (dep_edges p)\<^sup>*" and "dfs_inv p stack st" and "st ! v = Finished"
  shows "st ! w = Finished"
  using assms(1,3)
  by (induction rule: rtrancl_induct) (use assms(2) in \<open>auto simp: dfs_inv_def\<close>)

lemma dfs_pop:
  assumes inv: "dfs_inv p ((v, i) # stack) st" and i: "length (pe_deps (p ! v)) \<le> i"
  shows "dfs_inv p stack (st[v := Finished])"
proof -
  have v: "v < length p" "st ! v = InProgress" "length st = length p"
    using inv by (auto simp: dfs_inv_def)
  have succ: "st ! w = Finished" if "(v, w) \<in> dep_edges p" for w
    using inv i that by (auto simp: dfs_inv_def dep_edges_iff)
  have "(v, v) \<notin> (dep_edges p)\<^sup>+"
  proof
    assume "(v, v) \<in> (dep_edges p)\<^sup>+"
    then obtain w where "(v, w) \<in> dep_edges p" "(w, v) \<in> (dep_edges p)\<^sup>*" by (meson tranclD)
    then show False using finished_closed[OF _ inv] succ v(2) by force
  qed
  moreover have "frames_ok p (st[v := Finished]) None stack"
  proof (rule frames_pop)
    have "frames_ok p st (Some v) stack" using inv by (simp add: dfs_inv_def)
    then show "frames_ok p (st[v := Finished]) (Some v) stack"
      by (rule frames_mono) (use v in \<open>auto simp: nth_list_update\<close>)
  qed (use v in simp)
  moreover have "u \<in> set (map fst stack) \<longleftrightarrow> u < length p \<and> st[v := Finished] ! u = InProgress" for u
  proof (cases "u = v")
    case True
    then show ?thesis using inv v by (auto simp: dfs_inv_def)
  next
    case False
    then have "u \<in> set (map fst stack) \<longleftrightarrow> u \<in> set (map fst ((v, i) # stack))" by simp
    also have "\<dots> \<longleftrightarrow> u < length p \<and> st ! u = InProgress" using inv unfolding dfs_inv_def by blast
    finally show ?thesis using False by simp
  qed
  moreover have "st[v := Finished] ! w = Finished" if "(u, w) \<in> dep_edges p" "st[v := Finished] ! u = Finished" for u w
    using that succ[of w] inv v by (cases "u = v") (auto simp: dfs_inv_def nth_list_update)
  ultimately show ?thesis
    using inv v unfolding dfs_inv_def by (simp add: nth_list_update)
qed

lemma dfs_push:
  assumes inv: "dfs_inv p ((v, i) # stack) st" and i: "i < length (pe_deps (p ! v))"
    and d: "pe_deps (p ! v) ! i = int w" and w: "w < length p" "st ! w = Unvisited"
  shows "dfs_inv p ((w, 0) # (v, Suc i) # stack) (st[w := InProgress])"
proof -
  have len: "length st = length p" and v: "v < length p" using inv by (auto simp: dfs_inv_def)
  have e: "(v, w) \<in> dep_edges p" using v w d i by (auto simp: dep_edges_iff in_set_conv_nth)
  have old: "st ! u = Finished \<Longrightarrow> st[w := InProgress] ! u = Finished" for u
    using w len by (auto simp: nth_list_update)
  have "frames_ok p st (Some v) stack" using inv by (simp add: dfs_inv_def)
  then have "frames_ok p (st[w := InProgress]) (Some v) stack" by (rule frames_mono) (rule old)
  moreover have "st[w := InProgress] ! u = Finished \<or> Some w = Some u"
    if "int u \<in> set (take (Suc i) (pe_deps (p ! v)))" "u < length p" for u
    using that inv i d old[of u] by (auto simp: dfs_inv_def take_Suc_conv_app_nth)
  ultimately have "frames_ok p (st[w := InProgress]) None ((w, 0) # (v, Suc i) # stack)"
    using e by simp
  moreover have "u \<in> set (map fst ((w, 0) # (v, Suc i) # stack))
      \<longleftrightarrow> u < length p \<and> st[w := InProgress] ! u = InProgress" for u
  proof (cases "u = w")
    case False
    then have "u \<in> set (map fst ((w, 0) # (v, Suc i) # stack)) \<longleftrightarrow> u \<in> set (map fst ((v, i) # stack))" by simp
    also have "\<dots> \<longleftrightarrow> u < length p \<and> st ! u = InProgress" using inv unfolding dfs_inv_def by blast
    finally show ?thesis using False by simp
  qed (use w len in simp)
  moreover have "w \<notin> set (map fst ((v, i) # stack))"
    using inv w unfolding dfs_inv_def by (metis visit_state.distinct(1))
  moreover have "st ! u = Finished" if "st[w := InProgress] ! u = Finished" for u
    using that w len by (cases "u = w") auto
  ultimately show ?thesis
    using inv len old unfolding dfs_inv_def by (metis (no_types, lifting) distinct.simps(2) length_list_update list.simps(9) prod.sel(1))
qed

lemma dfs_skip:
  assumes inv: "dfs_inv p ((v, i) # stack) st" and i: "i < length (pe_deps (p ! v))"
    and d: "\<And>w. pe_deps (p ! v) ! i = int w \<Longrightarrow> w < length p \<Longrightarrow> st ! w = Finished"
  shows "dfs_inv p ((v, Suc i) # stack) st"
  using inv i d by (auto simp: dfs_inv_def take_Suc_conv_app_nth)

lemma cycle_dfs_correct:
  assumes "dfs_inv p stack st"
  shows "case cycle_dfs p stack st of
      None \<Rightarrow> \<exists>v. (v, v) \<in> (dep_edges p)\<^sup>+
    | Some st' \<Rightarrow> dfs_inv p [] st' \<and> (\<forall>v < length p. st ! v \<noteq> Unvisited \<longrightarrow> st' ! v \<noteq> Unvisited)"
  using assms
proof (induction p stack st rule: cycle_dfs.induct)
  case (1 p st)
  then show ?case by simp
next
  case (2 p v i stack st)
  let ?deps = "pe_deps (p ! v)"
  have len: "length st = length p" and v: "v < length p"
    using "2.prems" by (auto simp: dfs_inv_def)
  show ?case
  proof (cases "length ?deps \<le> i")
    case True
    with "2.IH"(1)[OF refl True dfs_pop[OF "2.prems" True]] v len show ?thesis
      by (auto simp: nth_list_update split: option.splits)
  next
    case i: False
    then have i': "i < length ?deps" by simp
    let ?d = "?deps ! i"
    show ?thesis
    proof (cases "?d < 0 \<or> int (length st) \<le> ?d")
      case True
      have "dfs_inv p ((v, Suc i) # stack) st" by (rule dfs_skip[OF "2.prems" i']) (use True len in auto)
      from "2.IH"(2)[OF refl i refl refl True this] True i show ?thesis by (simp add: Let_def)
    next
      case r: False
      then have w: "?d = int (nat ?d)" "nat ?d < length p" using len by auto
      show ?thesis
      proof (cases "st ! nat ?d")
        case InProgress
        then have "nat ?d \<in> set (map fst ((v, i) # stack))" using "2.prems" w unfolding dfs_inv_def by blast
        then have "(nat ?d, v) \<in> (dep_edges p)\<^sup>*"
          using frames_path[of p st None v i stack "nat ?d"] "2.prems" unfolding dfs_inv_def by blast
        moreover have "(v, nat ?d) \<in> dep_edges p" using v w i' by (metis dep_edges_iff nth_mem)
        ultimately have "(v, v) \<in> (dep_edges p)\<^sup>+" by (rule rtrancl_into_trancl2[rotated])
        then show ?thesis using i r InProgress by (auto simp: Let_def)
      next
        case Unvisited
        note push = dfs_push[OF "2.prems" i' w(1) w(2) Unvisited]
        have "cycle_dfs p ((v, i) # stack) st
            = cycle_dfs p ((nat ?d, 0) # (v, Suc i) # stack) (st[nat ?d := InProgress])"
          using i r Unvisited by (simp add: Let_def)
        moreover have "st[nat ?d := InProgress] ! u \<noteq> Unvisited" if "st ! u \<noteq> Unvisited" for u
          using that w len by (cases "u = nat ?d") auto
        ultimately show ?thesis
          using "2.IH"(3)[OF refl i refl refl r Unvisited push]
          by (cases "cycle_dfs p ((nat ?d, 0) # (v, Suc i) # stack) (st[nat ?d := InProgress])")
            (simp_all del: cycle_dfs.simps)
      next
        case Finished
        have "dfs_inv p ((v, Suc i) # stack) st" by (rule dfs_skip[OF "2.prems" i']) (use Finished in auto)
        from "2.IH"(4)[OF refl i refl refl r Finished this] show ?thesis
          using i r Finished by (simp add: Let_def)
      qed
    qed
  qed
qed

lemma dfs_inv_Nil: "\<lbrakk>dfs_inv p [] st; v < length p; st ! v \<noteq> Unvisited\<rbrakk> \<Longrightarrow> (v, v) \<notin> (dep_edges p)\<^sup>+"
  by (cases "st ! v") (auto simp: dfs_inv_def)

lemma dfs_inv_start:
  "\<lbrakk>dfs_inv p [] st; i < length p; st ! i = Unvisited\<rbrakk> \<Longrightarrow> dfs_inv p [(i, 0)] (st[i := InProgress])"
  by (auto simp: dfs_inv_def nth_list_update dep_edges_iff)

lemma cycle_from_iff:
  assumes "dfs_inv p [] st" and "set is \<subseteq> {..<length p}"
  shows "(cycle_from p is st \<longrightarrow> (\<exists>v. (v, v) \<in> (dep_edges p)\<^sup>+))
    \<and> (\<not> cycle_from p is st \<longrightarrow> (\<forall>v \<in> set is. (v, v) \<notin> (dep_edges p)\<^sup>+))"
  using assms
proof (induction p "is" st rule: cycle_from.induct)
  case (2 p i rest st)
  show ?case
  proof (cases "st ! i = Unvisited")
    case True
    note start = dfs_inv_start[OF "2.prems"(1) _ True]
    have "i < length p" and "length st = length p" using "2.prems" by (auto simp: dfs_inv_def)
    with cycle_dfs_correct[OF start] 2 True show ?thesis
      by (auto simp: dfs_inv_Nil split: option.splits)
  next
    case False
    with 2 show ?thesis by (auto dest: dfs_inv_Nil)
  qed
qed simp

lemma has_cycle_iff: "has_cycle p \<longleftrightarrow> \<not> acyclic (dep_edges p)"
proof -
  have inv: "dfs_inv p [] (replicate (length p) Unvisited)"
    by (auto simp: dfs_inv_def dep_edges_iff)
  have "v < length p" if "(v, v) \<in> (dep_edges p)\<^sup>+" for v
    using that by (induction rule: converse_trancl_induct) (auto simp: dep_edges_iff)
  moreover have "set [0..<length p] \<subseteq> {..<length p}" by auto
  ultimately show ?thesis using cycle_from_iff[OF inv, of "[0..<length p]"]
    by (auto simp: has_cycle_def acyclic_def)
qed

end
