(* ===== verification/PlanProperties.thy ===== *)
theory PlanProperties
  imports PlanGraph
begin

text \<open>
  What plan validation guarantees and what the generated dependencies do to a validated plan.
\<close>

section \<open>The merged dependencies\<close>

text \<open>Everything of a plan but its dependencies.\<close>

definition shape :: "plan \<Rightarrow> plan" where
  "shape p = map (\<lambda>e. e\<lparr>pe_deps := []\<rparr>) p"

lemma shape_length: "shape q = shape p \<Longrightarrow> length q = length p"
  unfolding shape_def by (metis length_map)

lemma shape_nth:
  assumes "shape q = shape p" and "i < length p"
  shows "pe_phase (q ! i) = pe_phase (p ! i) \<and> pe_tests_for (q ! i) = pe_tests_for (p ! i)"
proof -
  have "(q ! i)\<lparr>pe_deps := []\<rparr> = (p ! i)\<lparr>pe_deps := []\<rparr>"
    using assms shape_length[OF assms(1)] by (metis nth_map shape_def)
  then have "pe_phase ((q ! i)\<lparr>pe_deps := []\<rparr>) = pe_phase ((p ! i)\<lparr>pe_deps := []\<rparr>)"
    "pe_tests_for ((q ! i)\<lparr>pe_deps := []\<rparr>) = pe_tests_for ((p ! i)\<lparr>pe_deps := []\<rparr>)" by simp_all
  then show ?thesis by simp
qed

lemma add_dep_shape [simp]: "shape (add_dep i j p) = shape p"
  unfolding add_dep_def shape_def by (simp add: map_update) (metis list_update_id map_update)

lemma add_dep_edges:
  "\<lbrakk>i < length p; j < length p\<rbrakk> \<Longrightarrow> dep_edges (add_dep i j p) = insert (i, j) (dep_edges p)"
  by (auto simp: add_dep_def dep_edges_iff nth_list_update split: if_splits)

lemma fold_add_dep:
  assumes "i < length p" and "set js \<subseteq> {..<length p}"
  shows "shape (fold (add_dep i) js p) = shape p
    \<and> dep_edges (fold (add_dep i) js p) = dep_edges p \<union> {i} \<times> set js"
  using assms
proof (induction js arbitrary: p)
  case (Cons j js)
  have "length (add_dep i j p) = length p" by (rule shape_length) simp
  with Cons show ?case by (auto simp: add_dep_edges)
qed simp

lemma fold_fold_add_dep:
  assumes "set is \<subseteq> {..<length p}" and "set js \<subseteq> {..<length p}"
  shows "shape (fold (\<lambda>i. fold (add_dep i) js) is p) = shape p
    \<and> dep_edges (fold (\<lambda>i. fold (add_dep i) js) is p) = dep_edges p \<union> set is \<times> set js"
  using assms
proof (induction "is" arbitrary: p)
  case (Cons i "is")
  let ?q = "fold (add_dep i) js p"
  have q: "shape ?q = shape p" "dep_edges ?q = dep_edges p \<union> {i} \<times> set js"
    using fold_add_dep[of i p js] Cons.prems by auto
  have "length ?q = length p" by (rule shape_length) (rule q(1))
  with Cons.IH[of ?q] Cons.prems q show ?case by auto
qed simp

text \<open>The implementation that a test subtask is for.\<close>

definition test_target :: "plan \<Rightarrow> nat \<Rightarrow> nat option" where
  "test_target p t = (case pe_tests_for (p ! t) of
     [k] \<Rightarrow> if pe_phase (p ! t) = ''test'' \<and> in_range k p then Some (nat k) else None | _ \<Rightarrow> None)"

lemma test_target_Some:
  "test_target p t = Some i \<longleftrightarrow> pe_tests_for (p ! t) = [int i] \<and> pe_phase (p ! t) = ''test'' \<and> i < length p"
  by (auto simp: test_target_def in_range_def split: list.splits)

lemma test_target_shape:
  "\<lbrakk>shape q = shape p; t < length p\<rbrakk> \<Longrightarrow> test_target q t = test_target p t"
  using shape_nth[of q p t] shape_length[of q p]
  by (auto simp: test_target_def in_range_def split: list.splits)

lemma add_test_dep_eq:
  "add_test_dep t p = (case test_target p t of Some i \<Rightarrow> add_dep i t p | None \<Rightarrow> p)"
  by (auto simp: add_test_dep_def test_target_def Let_def split: list.splits)

lemma add_test_dep_shape [simp]: "shape (add_test_dep t p) = shape p"
  by (simp add: add_test_dep_eq split: option.splits)

lemma add_test_dep_edges:
  "t < length p \<Longrightarrow> dep_edges (add_test_dep t p) = dep_edges p \<union> {(i, t) |i. test_target p t = Some i}"
  by (cases "test_target p t") (auto simp: add_test_dep_eq add_dep_edges iffD1[OF test_target_Some])

lemma fold_add_test_dep:
  assumes "set ts \<subseteq> {..<length p}"
  shows "shape (fold add_test_dep ts p) = shape p
    \<and> dep_edges (fold add_test_dep ts p) = dep_edges p \<union> {(i, t). t \<in> set ts \<and> test_target p t = Some i}"
  using assms
proof (induction ts arbitrary: p)
  case (Cons t ts)
  let ?q = "add_test_dep t p"
  have len: "length ?q = length p" by (rule shape_length) simp
  have "test_target ?q u = test_target p u" if "u \<in> set ts" for u
    using that Cons.prems by (intro test_target_shape) auto
  with Cons.IH[of ?q] Cons.prems len show ?case
    by (auto simp: add_test_dep_edges)
qed simp

lemma phase_indices_iff: "i \<in> set (phase_indices ph p) \<longleftrightarrow> i < length p \<and> pe_phase (p ! i) = ph"
  by (auto simp: phase_indices_def)

definition has_phase :: "plan \<Rightarrow> string \<Rightarrow> nat \<Rightarrow> bool" where
  "has_phase p ph i \<longleftrightarrow> i < length p \<and> pe_phase (p ! i) = ph"

lemma merge_edges:
  "shape (merge_tdd_dependencies p) = shape p
   \<and> dep_edges (merge_tdd_dependencies p) = dep_edges p
       \<union> {(i, t). has_phase p ''test'' t \<and> i < length p \<and> pe_tests_for (p ! t) = [int i]}
       \<union> {(i, j). has_phase p ''integration'' i \<and> has_phase p ''implementation'' j}"
proof -
  let ?q = "fold add_test_dep [0..<length p] p"
  have upt: "set [0..<length p] \<subseteq> {..<length p}" by auto
  have q: "shape ?q = shape p"
    "dep_edges ?q = dep_edges p \<union> {(i, t). t \<in> set [0..<length p] \<and> test_target p t = Some i}"
    using fold_add_test_dep[OF upt] by auto
  have len: "length ?q = length p" by (rule shape_length) (rule q(1))
  have ph: "set (phase_indices f ?q) = {i. has_phase p f i}" for f
    using shape_nth[OF q(1)] len by (auto simp: phase_indices_iff has_phase_def)
  have sub: "{i. has_phase p f i} \<subseteq> {..<length ?q}" for f
    using len by (auto simp: has_phase_def)
  from fold_fold_add_dep[of "phase_indices ''integration'' ?q" ?q "phase_indices ''implementation'' ?q"]
  show ?thesis
    unfolding merge_tdd_dependencies_def Let_def ph using q sub
    by (auto simp: test_target_Some has_phase_def)
qed

section \<open>Clean validation\<close>

lemma concat_Nil_nth: "concat (map f [0..<n]) = [] \<longleftrightarrow> (\<forall>i < n. f i = [])"
  by auto

lemma map_filter_Nil: "List.map_filter f xs = [] \<longleftrightarrow> (\<forall>x \<in> set xs. f x = None)"
  by (induction xs) (auto simp: map_filter_simps split: option.splits)

lemma own_files_clean:
  "own_files index files own = ([], own') \<Longrightarrow>
   distinct files \<and> set files \<inter> dom own = {} \<and> dom own' = dom own \<union> set files"
proof (induction files arbitrary: own)
  case (Cons f files)
  then have "own f = None" "own_files index files (own(f \<mapsto> index)) = ([], own')"
    by (auto split: option.splits prod.splits)
  from Cons.IH[OF this(2)] this(1) show ?case by (auto simp: dom_def)
qed simp

definition implementation_at :: "plan \<Rightarrow> nat \<Rightarrow> bool" where
  "implementation_at p i \<longleftrightarrow> pe_phase (p ! i) = ''implementation''"

lemma granularity_clean:
  assumes "granularity_loop p is own = []"
  shows "(\<forall>i \<in> set is. implementation_at p i \<longrightarrow> length (all_files (p ! i)) \<le> 2
       \<and> length (pe_boundaries (p ! i)) \<le> 1 \<and> set (all_files (p ! i)) \<inter> dom own = {})
    \<and> sorted_wrt (\<lambda>i j. implementation_at p i \<longrightarrow> implementation_at p j
         \<longrightarrow> set (all_files (p ! i)) \<inter> set (all_files (p ! j)) = {}) is"
  using assms
proof (induction p "is" own rule: granularity_loop.induct)
  case (2 p index rest own)
  show ?case
  proof (cases "implementation_at p index")
    case False
    with 2 show ?thesis by (simp add: implementation_at_def Let_def)
  next
    case True
    obtain es own' where o: "own_files index (all_files (p ! index)) own = (es, own')" by fastforce
    from "2.prems" True o have es: "es = []" and clean: "granularity_loop p rest own' = []"
      and lim: "length (all_files (p ! index)) \<le> 2" "length (pe_boundaries (p ! index)) \<le> 1"
      by (auto simp: implementation_at_def Let_def max_implementation_owned_files_def split: if_splits)
    note own = own_files_clean[OF o[unfolded es]]
    from "2.IH"(2)[OF refl refl _ o[symmetric] clean] True own lim
    show ?thesis unfolding implementation_at_def by auto
  qed
qed simp

lemma coverage_clean:
  assumes "coverage_loop p tests cov = (ws, [], cov')"
  shows "(\<forall>t \<in> set tests. \<exists>i < length p. pe_tests_for (p ! t) = [int i] \<and> implementation_at p i)
    \<and> (\<forall>i t. cov' i = Some t \<longleftrightarrow> cov i = Some t \<or> t \<in> set tests \<and> pe_tests_for (p ! t) = [int i])"
  using assms
proof (induction p tests cov arbitrary: ws rule: coverage_loop.induct)
  case (2 p t tests cov)
  then have none: "tests_for_error p cov t = None"
    by (auto split: option.splits prod.splits)
  then obtain k where k: "pe_tests_for (p ! t) = [int k]" "k < length p" "implementation_at p k" "cov k = None"
    by (auto simp: tests_for_error_def Let_def in_range_def implementation_at_def
        split: list.splits if_splits option.splits) (metis int_nat_eq nat_less_iff)
  from "2.prems" none k obtain ws' where c: "coverage_loop p tests (cov(k \<mapsto> t)) = (ws', [], cov')"
    by (auto split: prod.splits)
  have h: "nat (hd (pe_tests_for (p ! t))) = k" using k by simp
  from "2.IH"(1)[OF none refl, unfolded h, OF c] k show ?case by (auto split: if_splits)
qed simp

lemma valid_plan_clean:
  assumes "pv_valid (validate_plan p xs)"
  shows "\<not> has_cycle p" and "validate_writable_file_scopes p = []"
    and "validate_implementation_granularity p = []"
    and "has_tdd_phases p \<Longrightarrow> snd (validate_tdd p xs) = []"
  using assms by (auto simp: validate_plan_def Let_def split: if_splits)

lemma valid_plan_coverage:
  assumes "pv_valid (validate_plan p xs)" and "has_tdd_phases p"
  obtains cov where
    "\<And>t. has_phase p ''test'' t \<Longrightarrow> \<exists>i. has_phase p ''implementation'' i \<and> pe_tests_for (p ! t) = [int i]"
    "\<And>i t. cov i = Some t \<longleftrightarrow> has_phase p ''test'' t \<and> pe_tests_for (p ! t) = [int i]"
    "\<And>i. has_phase p ''implementation'' i \<Longrightarrow> \<not> exempted xs i \<Longrightarrow> cov i \<noteq> None"
    "\<And>t d. has_phase p ''test'' t \<Longrightarrow> (t, d) \<in> dep_edges p \<Longrightarrow> \<not> has_phase p ''implementation'' d"
proof -
  obtain ws es cov where c: "coverage_loop p (phase_indices ''test'' p) Map.empty = (ws, es, cov)"
    by (metis prod_cases3)
  from valid_plan_clean(4)[OF assms] c have es: "es = []" and ord: "phase_ordering_errors p = []"
    and cover: "List.map_filter (\<lambda>i. if cov i = None \<and> \<not> exempted xs i
             then Some (UncoveredImplementation i (pe_title (p ! i))) else None)
           (phase_indices ''implementation'' p) = []"
    by (auto simp: validate_tdd_def Let_def)
  note clean = coverage_clean[OF c[unfolded es]]
  show thesis
  proof (rule that[of cov])
    show "\<exists>i. has_phase p ''implementation'' i \<and> pe_tests_for (p ! t) = [int i]"
      if "has_phase p ''test'' t" for t
      using that clean by (fastforce simp: phase_indices_iff has_phase_def implementation_at_def)
    show "cov i = Some t \<longleftrightarrow> has_phase p ''test'' t \<and> pe_tests_for (p ! t) = [int i]" for i t
      using clean by (simp add: phase_indices_iff has_phase_def)
    show "cov i \<noteq> None" if "has_phase p ''implementation'' i" "\<not> exempted xs i" for i
      using that cover by (auto simp: map_filter_Nil phase_indices_iff has_phase_def split: if_splits)
    show "\<not> has_phase p ''implementation'' d" if "has_phase p ''test'' t" "(t, d) \<in> dep_edges p" for t d
      using that ord unfolding phase_ordering_errors_def concat_Nil_nth
      by (force simp: Let_def map_filter_Nil has_phase_def dep_edges_iff split: if_splits)
  qed
qed

lemma valid_plan_tests:
  assumes "pv_valid (validate_plan p xs)" and "has_tdd_phases p" and "has_phase p ''test'' t"
  shows "\<exists>i. has_phase p ''implementation'' i \<and> pe_tests_for (p ! t) = [int i]"
    and "(t, d) \<in> dep_edges p \<Longrightarrow> \<not> has_phase p ''implementation'' d"
  by (rule valid_plan_coverage[OF assms(1,2)], use assms(3) in blast)+

text \<open>C28: The iterative depth-first search with its explicit stack answers exactly whether the
  dependency indices that are in range form a cycle, for every plan and every order of the
  subtasks.\<close>

theorem has_cycle_exact:
  "has_cycle p \<longleftrightarrow> (\<exists>v < length p. (v, v) \<in> (dep_edges p)\<^sup>+)"
proof -
  have "v < length p" if "(v, v) \<in> (dep_edges p)\<^sup>+" for v
    using that by (induction rule: converse_trancl_induct) (auto simp: dep_edges_iff)
  then show ?thesis by (auto simp: has_cycle_iff acyclic_def)
qed

text \<open>C27: What a plan with phases that validates without errors guarantees.  Each implementation
  subtask owns at most two files in at most one module; two implementations never own the same
  file; every implementation is covered by exactly one test subtask unless it is exempted; every
  test subtask is for exactly one implementation and depends on none; and the declared dependencies
  have no cycle.\<close>

theorem validated_plan_sound:
  assumes "pv_valid (validate_plan p xs)" and "has_tdd_phases p"
  shows "\<not> has_cycle p
    \<and> (\<forall>i. has_phase p ''implementation'' i \<longrightarrow>
         length (all_files (p ! i)) \<le> 2 \<and> length (pe_boundaries (p ! i)) \<le> 1
         \<and> (exempted xs i \<or> (\<exists>!t. has_phase p ''test'' t \<and> pe_tests_for (p ! t) = [int i])))
    \<and> (\<forall>i j. has_phase p ''implementation'' i \<longrightarrow> has_phase p ''implementation'' j \<longrightarrow> i \<noteq> j
         \<longrightarrow> set (all_files (p ! i)) \<inter> set (all_files (p ! j)) = {})
    \<and> (\<forall>t. has_phase p ''test'' t \<longrightarrow>
         (\<exists>i. has_phase p ''implementation'' i \<and> pe_tests_for (p ! t) = [int i])
         \<and> (\<forall>d. (t, d) \<in> dep_edges p \<longrightarrow> \<not> has_phase p ''implementation'' d))"
proof -
  obtain cov where cov:
    "\<And>t. has_phase p ''test'' t \<Longrightarrow> \<exists>i. has_phase p ''implementation'' i \<and> pe_tests_for (p ! t) = [int i]"
    "\<And>i t. cov i = Some t \<longleftrightarrow> has_phase p ''test'' t \<and> pe_tests_for (p ! t) = [int i]"
    "\<And>i. has_phase p ''implementation'' i \<Longrightarrow> \<not> exempted xs i \<Longrightarrow> cov i \<noteq> None"
    "\<And>t d. has_phase p ''test'' t \<Longrightarrow> (t, d) \<in> dep_edges p \<Longrightarrow> \<not> has_phase p ''implementation'' d"
    using valid_plan_coverage[OF assms] by blast
  have g: "granularity_loop p [0..<length p] Map.empty = []"
    using valid_plan_clean(3)[OF assms(1)] by (simp add: validate_implementation_granularity_def)
  note clean = granularity_clean[OF g]
  have one: "\<exists>!t. has_phase p ''test'' t \<and> pe_tests_for (p ! t) = [int i]"
    if "has_phase p ''implementation'' i" "\<not> exempted xs i" for i
    using cov(2)[of i] cov(3)[OF that] by (metis not_None_eq option.inject)
  have disj: "set (all_files (p ! i)) \<inter> set (all_files (p ! j)) = {}"
    if "has_phase p ''implementation'' i" "has_phase p ''implementation'' j" "i < j" for i j
    using that clean by (auto simp: sorted_wrt_iff_nth_less has_phase_def implementation_at_def)
  have disj': "set (all_files (p ! i)) \<inter> set (all_files (p ! j)) = {}"
    if "has_phase p ''implementation'' i" "has_phase p ''implementation'' j" "i \<noteq> j" for i j
    using that disj[of i j] disj[of j i] by (cases i j rule: linorder_cases) (auto simp: inf_commute)
  have lim: "length (all_files (p ! i)) \<le> 2 \<and> length (pe_boundaries (p ! i)) \<le> 1"
    if "has_phase p ''implementation'' i" for i
    using that clean by (auto simp: has_phase_def implementation_at_def)
  show ?thesis
    using valid_plan_clean(1)[OF assms(1)] one disj' lim cov(1,4) by blast
qed

text \<open>The rank of a phase in the intended order of work.\<close>

definition phase_rank :: "string \<Rightarrow> nat" where
  "phase_rank ph = (if ph = ''test'' then 0 else if ph = ''implementation'' then 1 else 2)"

definition strictly_phased :: "plan \<Rightarrow> bool" where
  "strictly_phased p \<longleftrightarrow> list_all (\<lambda>e. pe_phase e \<in> {''test'', ''implementation'', ''integration''}) p
     \<and> list_all (\<lambda>e. pe_phase e = ''integration''
          \<or> list_all (\<lambda>d. \<not> in_range d p \<or> pe_phase (p ! nat d) \<noteq> ''integration'') (pe_deps e)) p"

lemma rank_trancl:
  assumes "(x, y) \<in> R\<^sup>+"
    and "\<And>a b. (a, b) \<in> R \<Longrightarrow> (rk b :: nat) < rk a \<or> rk b \<le> rk a \<and> (a, b) \<in> E"
  shows "rk y \<le> rk x \<and> (rk y = rk x \<longrightarrow> (x, y) \<in> E\<^sup>+)"
  using assms(1)
proof (induction rule: trancl_induct)
  case (step y z)
  with assms(2)[OF step.hyps(2)] show ?case by (auto intro: trancl_into_trancl)
qed (use assms(2) in force)

lemma phase_rank_mono:
  "\<lbrakk>x \<in> {''test'', ''implementation'', ''integration''}; y \<in> {''test'', ''implementation'', ''integration''};
    y = ''integration'' \<Longrightarrow> x = ''integration''; x = ''test'' \<Longrightarrow> y \<noteq> ''implementation''\<rbrakk>
   \<Longrightarrow> phase_rank y \<le> phase_rank x"
  by (elim insertE emptyE) (simp_all add: phase_rank_def)

lemma merged_acyclic:
  assumes "pv_valid (validate_plan p xs)" and "has_tdd_phases p" and "strictly_phased p"
  shows "\<not> has_cycle (merge_tdd_dependencies p)"
proof -
  let ?rk = "\<lambda>i. phase_rank (pe_phase (p ! i))" and ?R = "dep_edges (merge_tdd_dependencies p)"
  note cov = valid_plan_tests[OF assms(1,2)]
  have ph: "pe_phase (p ! i) \<in> {''test'', ''implementation'', ''integration''}" if "i < length p" for i
    using assms(3) that by (auto simp: strictly_phased_def list_all_length)
  have int: "pe_phase (p ! i) = ''integration''" if "(i, d) \<in> dep_edges p" "pe_phase (p ! d) = ''integration''" for i d
    using assms(3) that by (force simp: strictly_phased_def list_all_iff dep_edges_iff)
  have old: "?rk b \<le> ?rk a" if "(a, b) \<in> dep_edges p" for a b
  proof (rule phase_rank_mono)
    show "pe_phase (p ! b) \<noteq> ''implementation''" if "pe_phase (p ! a) = ''test''"
      using cov(2)[of a b] that \<open>(a, b) \<in> dep_edges p\<close> by (simp add: has_phase_def dep_edges_iff)
  qed (use that ph int in \<open>auto simp: dep_edges_iff\<close>)
  have step: "?rk b < ?rk a \<or> ?rk b \<le> ?rk a \<and> (a, b) \<in> dep_edges p" if "(a, b) \<in> ?R" for a b
  proof -
    from that merge_edges[of p] consider "(a, b) \<in> dep_edges p"
      | "has_phase p ''test'' b" "pe_tests_for (p ! b) = [int a]"
      | "has_phase p ''integration'' a" "has_phase p ''implementation'' b" by blast
    then show ?thesis
    proof cases
      case 2
      with cov(1)[of b] show ?thesis by (auto simp: has_phase_def phase_rank_def)
    qed (use old in \<open>auto simp: has_phase_def phase_rank_def\<close>)
  qed
  have "(v, v) \<notin> ?R\<^sup>+" for v
  proof
    assume "(v, v) \<in> ?R\<^sup>+"
    from rank_trancl[OF this step] have "(v, v) \<in> (dep_edges p)\<^sup>+" by simp
    then show False using valid_plan_clean(1)[OF assms(1)] by (auto simp: has_cycle_iff acyclic_def)
  qed
  then show ?thesis by (simp add: has_cycle_iff acyclic_def)
qed

text \<open>When a validated plan uses only the three phases and only integration subtasks depend on
  integration subtasks, the generated dependencies of \<open>MergeTDDDependencies\<close> close no cycle: the
  materialised subtasks can all be ordered.\<close>

theorem merged_plan_acyclic:
  assumes "pv_valid (validate_plan p xs)" and "has_tdd_phases p" and "strictly_phased p"
  shows "\<not> has_cycle (merge_tdd_dependencies p)"
  by (rule merged_acyclic [OF assms])

section \<open>Examples\<close>

definition sample_entry :: "string \<Rightarrow> string \<Rightarrow> int list \<Rightarrow> int list \<Rightarrow> plan_entry" where
  "sample_entry ph file deps tests_for =
     \<lparr>pe_title = ph, pe_description = [], pe_agent_type = ''coder'', pe_estimated_files = [],
      pe_files = [file], pe_writable_files = [], pe_deps = deps, pe_priority = 0, pe_is_test = False,
      pe_phase = ph, pe_tests_for = tests_for, pe_boundaries = [], pe_shapes = [], pe_contracts = [],
      pe_depth = None\<rparr>"

text \<open>A test, the implementation it is for, and an integration; in the second plan the test
  depends on the integration.\<close>

definition sample_plan :: plan where
  "sample_plan = [sample_entry ''test'' ''a_test.go'' [] [1], sample_entry ''implementation'' ''a.go'' [] [],
     sample_entry ''integration'' ''main.go'' [] []]"

definition deadlock_plan :: plan where
  "deadlock_plan = [sample_entry ''test'' ''a_test.go'' [2] [1], sample_entry ''implementation'' ''a.go'' [] [],
     sample_entry ''integration'' ''main.go'' [] []]"

lemma sample_plan_valid:
  "pv_valid (validate_plan sample_plan []) \<and> has_tdd_phases sample_plan \<and> strictly_phased sample_plan"
  by code_simp

theorem validated_plan_sound_witness:
  "\<not> has_cycle sample_plan \<and> set (all_files (sample_plan ! 1)) = {''a.go''}
   \<and> (\<exists>!t. has_phase sample_plan ''test'' t \<and> pe_tests_for (sample_plan ! t) = [int 1])"
proof -
  have "has_phase sample_plan ''implementation'' 1" "\<not> exempted [] 1" "set (all_files (sample_plan ! 1)) = {''a.go''}"
    by code_simp+
  note facts = this
  have s: "pv_valid (validate_plan sample_plan [])" "has_tdd_phases sample_plan"
    using sample_plan_valid by simp_all
  note sound = validated_plan_sound[OF s]
  from sound[THEN conjunct2, THEN conjunct1, rule_format, OF facts(1)] facts(2)
  have "\<exists>!t. has_phase sample_plan ''test'' t \<and> pe_tests_for (sample_plan ! t) = [int 1]"
    by (simp only: of_nat_1 simp_thms)
  with sound[THEN conjunct1] facts(3) show ?thesis by (simp only: of_nat_1 simp_thms)
qed

theorem merged_plan_acyclic_witness:
  "\<not> has_cycle (merge_tdd_dependencies sample_plan)
   \<and> map pe_deps (merge_tdd_dependencies sample_plan) = [[], [0], [1]]"
proof -
  have "map pe_deps (merge_tdd_dependencies sample_plan) = [[], [0], [1]]" by code_simp
  with merged_plan_acyclic[of sample_plan "[]"] sample_plan_valid show ?thesis by blast
qed

text \<open>Validation looks only at the declared dependencies.  A test that depends on an integration
  subtask validates, and then the generated dependencies close a cycle through all three subtasks:
  none of them can ever start.\<close>

lemma validated_plan_deadlocks:
  "pv_valid (validate_plan deadlock_plan []) \<and> has_cycle (merge_tdd_dependencies deadlock_plan)
   \<and> map pe_deps (merge_tdd_dependencies deadlock_plan) = [[2], [0], [1]]"
  by code_simp

end
