(* ===== verification/ApprovalProperties.thy ===== *)
theory ApprovalProperties
  imports PlanApproval PlanProperties
begin

text \<open>
  What an approved plan becomes: the rows \<open>materializeSubtasksWithDB\<close> creates are the entries of
  the plan, connected by the merged dependencies, and the subtasks of a validated plan never block
  each other for good.
\<close>

section \<open>Row updates\<close>

lemma update_task_rows_tasks:
  "db_tasks (update_task_rows i f d) = map (\<lambda>r. if t_id r = i then f r else r) (db_tasks d)"
  by (simp add: update_task_rows_def tbl_update_def)

lemma update_task_rows_other: "db_events (update_task_rows i f d) = db_events d"
  by (simp add: update_task_rows_def)

text \<open>A sequence of updates, one per position, each of the row with the identifier of its position.\<close>

lemma fold_map_rows:
  assumes "\<And>i d. i \<in> set is \<Longrightarrow> db_tasks (h i d) = map (g i) (db_tasks d)"
  shows "db_tasks (fold h is d) = map (\<lambda>r. fold g is r) (db_tasks d)"
  using assms
proof (induction "is" arbitrary: d)
  case (Cons i "is")
  have "db_tasks (fold h is (h i d)) = map (\<lambda>r. fold g is r) (db_tasks (h i d))"
    by (rule Cons.IH) (simp add: Cons.prems)
  then show ?case using Cons.prems[of i d] by simp
qed simp

lemma fold_skip: "(\<And>i. i \<in> set is \<Longrightarrow> g i r = r) \<Longrightarrow> fold g is r = r"
  by (induction "is") auto

lemma fold_single:
  assumes "distinct is" "k \<in> set is" "\<And>i r. i \<in> set is \<Longrightarrow> i \<noteq> k \<Longrightarrow> t_id r = x \<Longrightarrow> g i r = r"
    "\<And>i r. t_id (g i r) = t_id r" "t_id r = x"
  shows "fold g is r = g k r"
  using assms
proof (induction "is" arbitrary: r)
  case (Cons i "is")
  show ?case
  proof (cases "i = k")
    case True
    then have "fold g is (g k r) = g k r" using Cons.prems by (intro fold_skip) auto
    with True show ?thesis by simp
  next
    case False
    then have "g i r = r" using Cons.prems by simp
    with Cons False show ?thesis by simp
  qed
qed simp

definition with_deps :: "time \<Rightarrow> uuid list \<Rightarrow> plan \<Rightarrow> nat \<Rightarrow> task \<Rightarrow> task" where
  "with_deps now ids p i r = (if t_id r = ids ! i \<and> index_ids ids (pe_deps (p ! i)) \<noteq> []
     then r\<lparr>t_deps := index_ids ids (pe_deps (p ! i)), t_updated := now\<rparr> else r)"

definition with_tests :: "time \<Rightarrow> uuid list \<Rightarrow> plan \<Rightarrow> nat \<Rightarrow> task \<Rightarrow> task" where
  "with_tests now ids p i r = (if t_id r = ids ! i \<and> index_ids ids (pe_tests_for (p ! i)) \<noteq> []
     then r\<lparr>t_tests_for := index_ids ids (pe_tests_for (p ! i)), t_updated := now\<rparr> else r)"

lemma with_columns_id [simp]:
  "t_id (with_deps now ids p i r) = t_id r" "t_id (with_tests now ids p i r) = t_id r"
  "t_parent (with_deps now ids p i r) = t_parent r" "t_parent (with_tests now ids p i r) = t_parent r"
  by (simp_all add: with_deps_def with_tests_def)

lemma set_dependency_ids_tasks: "db_tasks (set_dependency_ids now ids p i d) = map (with_deps now ids p i) (db_tasks d)"
  by (simp add: set_dependency_ids_def Let_def update_task_rows_tasks with_deps_def[abs_def] cong: if_cong)

lemma set_tests_for_tasks: "db_tasks (set_tests_for now ids p i d) = map (with_tests now ids p i) (db_tasks d)"
  by (simp add: set_tests_for_def Let_def update_task_rows_tasks with_tests_def[abs_def] cong: if_cong)

text \<open>Both passes over the row of position \<open>k\<close>, and over any other row.\<close>

definition connected :: "time \<Rightarrow> uuid list \<Rightarrow> plan \<Rightarrow> plan \<Rightarrow> task \<Rightarrow> task" where
  "connected now ids p q r = fold (with_tests now ids p) [0..<length p] (fold (with_deps now ids q) [0..<length p] r)"

lemma connect_rows:
  "db_tasks (fold (set_tests_for now ids p) [0..<length p] (fold (set_dependency_ids now ids q) [0..<length p] d))
     = map (connected now ids p q) (db_tasks d)"
  by (simp add: fold_map_rows[where g = "with_tests now ids p"] fold_map_rows[where g = "with_deps now ids q"]
      set_tests_for_tasks set_dependency_ids_tasks connected_def comp_def)

lemma connected_row:
  assumes "distinct ids" "length ids = length p" "k < length p" "t_id r = ids ! k"
  shows "connected now ids p q r = with_tests now ids p k (with_deps now ids q k r)"
proof -
  have other: "ids ! i \<noteq> ids ! k" if "i < length p" "i \<noteq> k" for i
    using that assms nth_eq_iff_index_eq[of ids i k] by simp
  have "fold (with_deps now ids q) [0..<length p] r = with_deps now ids q k r"
    using assms by (intro fold_single[where x = "ids ! k"]) (simp_all add: with_deps_def other[symmetric])
  moreover have "fold (with_tests now ids p) [0..<length p] (with_deps now ids q k r) = with_tests now ids p k (with_deps now ids q k r)"
    using assms by (intro fold_single[where x = "ids ! k"]) (simp_all add: with_tests_def other[symmetric])
  ultimately show ?thesis by (simp add: connected_def)
qed

lemma connected_other:
  assumes "length ids = length p" "t_id r \<notin> set ids"
  shows "connected now ids p q r = r"
proof -
  have no: "t_id r \<noteq> ids ! i" if "i < length p" for i using assms that by (metis nth_mem)
  have "fold (with_deps now ids q) [0..<length p] r = r" by (rule fold_skip) (simp add: with_deps_def no)
  moreover have "fold (with_tests now ids p) [0..<length p] r = r" by (rule fold_skip) (simp add: with_tests_def no)
  ultimately show ?thesis by (simp add: connected_def)
qed

section \<open>Created rows\<close>

lemma create_children_rows:
  assumes "create_children env fr now cleanup tk m p packs [] is used d = Inr (ids, d')"
  shows "ids = map (fr ''subtask'') is \<and> distinct ids \<and> set ids \<inter> t_id ` set (db_tasks d) = {}
    \<and> (\<exists>rows. d' = d\<lparr>db_tasks := db_tasks d @ rows\<rparr> \<and> list_all2 (\<lambda>i r. \<exists>ctx. r =
         new_subtask (fr ''subtask'' i) now tk (p ! i) (int (length p) - int i) ctx) is rows)"
  using assms
proof (induction "is" arbitrary: ids d)
  case Nil
  then show ?case by simp
next
  case (Cons i "is")
  from Cons.prems obtain ctx d1 ids' where c: "create_task (new_subtask (fr ''subtask'' i) now tk (p ! i) (int (length p) - int i) ctx) d = Inr d1"
      and r: "create_children env fr now cleanup tk m p packs [] is used d1 = Inr (ids', d')"
      and ids: "ids = fr ''subtask'' i # ids'"
    by (auto simp: res_simps)
  let ?row = "new_subtask (fr ''subtask'' i) now tk (p ! i) (int (length p) - int i) ctx"
  from c have d1: "d1 = d\<lparr>db_tasks := db_tasks d @ [?row]\<rparr>" and new: "fr ''subtask'' i \<notin> t_id ` set (db_tasks d)"
    by (auto simp: create_task_def res_simps task_conflict_def new_subtask_def)
  from Cons.IH[OF r] obtain rows where IH: "ids' = map (fr ''subtask'') is" "distinct ids'"
      "set ids' \<inter> t_id ` set (db_tasks d1) = {}" "d' = d1\<lparr>db_tasks := db_tasks d1 @ rows\<rparr>"
      "list_all2 (\<lambda>i r. \<exists>ctx. r = new_subtask (fr ''subtask'' i) now tk (p ! i) (int (length p) - int i) ctx) is rows"
    by blast
  show ?case
  proof (intro conjI exI[of _ "?row # rows"])
    show "d' = d\<lparr>db_tasks := db_tasks d @ ?row # rows\<rparr>" using IH(4) d1 by simp
  qed (use IH ids d1 new in \<open>auto simp: new_subtask_def\<close>)
qed

section \<open>The children of an approved plan\<close>

definition child_of_entry :: "uuid list \<Rightarrow> task \<Rightarrow> plan \<Rightarrow> nat \<Rightarrow> task \<Rightarrow> bool" where
  "child_of_entry ids tk p i c \<longleftrightarrow>
     t_id c = ids ! i \<and> t_parent c = Some (t_id tk) \<and> t_project c = t_project tk \<and> t_status c = StatusBacklog
     \<and> t_title c = pe_title (p ! i) \<and> t_description c = pe_description (p ! i) \<and> t_phase c = pe_phase (p ! i)
     \<and> t_priority c = int (length p) - int i \<and> t_agent c = None
     \<and> t_deps c = index_ids ids (pe_deps (merge_tdd_dependencies p ! i))
     \<and> t_tests_for c = index_ids ids (pe_tests_for (p ! i))"

lemma child_of_connected:
  assumes "distinct ids" "length ids = length p" "i < length p"
    and "r = new_subtask (ids ! i) now tk (p ! i) (int (length p) - int i) ctx"
  shows "child_of_entry ids tk p i (connected now ids p (merge_tdd_dependencies p) r)"
proof -
  have "t_id r = ids ! i" using assms(4) by (simp add: new_subtask_def)
  from connected_row[OF assms(1-3) this] show ?thesis
    unfolding assms(4) by (simp add: child_of_entry_def with_tests_def with_deps_def new_subtask_def)
qed

lemma materialized_children:
  assumes "materialize_subtasks env fr now cleanup tk d = Inr (tk', ids, d')" and "child_rows (t_id tk) d = []"
  obtains pr where "parse_plan (t_plan tk) = Inr pr"
    and "list_all (\<lambda>e. list_all (\<lambda>k. in_range k (pp_subtasks pr)) (pe_deps e)) (pp_subtasks pr)"
    and "let p = collapse_atomic_plan (t_title tk) (pp_subtasks pr) in
      distinct ids \<and> length ids = length p \<and> length (child_rows (t_id tk) d') = length p
      \<and> (\<forall>i < length p. child_of_entry ids tk p i (child_rows (t_id tk) d' ! i)) \<and> set ids \<inter> t_id ` set (db_tasks d) = {}
      \<and> map t_id (db_tasks d') = map t_id (db_tasks d) @ ids
      \<and> (\<forall>r \<in> set (db_tasks d). t_id r \<noteq> t_id tk \<longrightarrow> r \<in> set (db_tasks d'))
      \<and> (\<forall>r \<in> set (db_tasks d). t_id r = t_id tk \<longrightarrow> (\<exists>ctx. r\<lparr>t_context := ctx, t_updated := now\<rparr> \<in> set (db_tasks d')))"
proof -
  from assms(1) obtain pr m packs d2 where pr: "parse_plan (t_plan tk) = Inr pr"
      and m: "compile_execution_manifest (pv_host env) tk (pp_subtasks pr) (pv_fingerprint env tk) = Inr m"
      and rest: "let ctx = json_put ''execution_lane'' (GStr (execution_lane_string (em_lane m)))
                 (json_put ''execution_manifest_hash'' (GStr (em_hash m))
                   (json_put ''execution_manifest'' (execution_manifest_map m) (t_context tk)));
         tk1 = tk\<lparr>t_context := ctx, t_updated := now\<rparr>;
         d1 = update_task_rows (t_id tk) (\<lambda>r. r\<lparr>t_context := ctx, t_updated := now\<rparr>) d;
         p = collapse_atomic_plan (t_title tk) (pp_subtasks pr)
       in create_children env fr now cleanup tk1 m p packs (child_rows (t_id tk) d1) [0..<length p] [] d1 = Inr (ids, d2)
        \<and> d' = fold (set_tests_for now ids p) [0..<length p]
                         (fold (set_dependency_ids now ids (merge_tdd_dependencies p)) [0..<length p] d2)"
    by (auto simp: materialize_subtasks_def res_simps Let_def)
  define ctx where "ctx = json_put ''execution_lane'' (GStr (execution_lane_string (em_lane m)))
                 (json_put ''execution_manifest_hash'' (GStr (em_hash m))
                   (json_put ''execution_manifest'' (execution_manifest_map m) (t_context tk)))"
  define touch where "touch = (\<lambda>r. r\<lparr>t_context := ctx, t_updated := now\<rparr> :: task)"
  define p where "p = collapse_atomic_plan (t_title tk) (pp_subtasks pr)"
  define d1 where "d1 = update_task_rows (t_id tk) touch d"
  let ?tk1 = "touch tk" and ?q = "merge_tdd_dependencies p"
  have cr: "create_children env fr now cleanup ?tk1 m p packs (child_rows (t_id tk) d1) [0..<length p] [] d1 = Inr (ids, d2)"
    and d': "d' = fold (set_tests_for now ids p) [0..<length p] (fold (set_dependency_ids now ids ?q) [0..<length p] d2)"
    using rest by (simp_all add: Let_def ctx_def p_def d1_def touch_def)
  let ?t1 = "\<lambda>r. if t_id r = t_id tk then touch r else r"
  have t1: "db_tasks d1 = map ?t1 (db_tasks d)"
    by (simp add: d1_def update_task_rows_tasks)
  then have "child_rows (t_id tk) d1 = []"
    using child_rows_map[OF t1] assms(2) by (simp add: touch_def)
  with cr have "create_children env fr now cleanup ?tk1 m p packs [] [0..<length p] [] d1 = Inr (ids, d2)" by simp
  from create_children_rows[OF this] obtain rows where ids: "ids = map (fr ''subtask'') [0..<length p]" "distinct ids"
      and new: "set ids \<inter> t_id ` set (db_tasks d1) = {}" and d2: "db_tasks d2 = db_tasks d1 @ rows"
      and rows: "list_all2 (\<lambda>i r. \<exists>ctx. r = new_subtask (fr ''subtask'' i) now ?tk1 (p ! i) (int (length p) - int i) ctx) [0..<length p] rows"
    by auto
  have lens: "length ids = length p" "length rows = length p" using ids rows by (auto dest: list_all2_lengthD)
  let ?c = "connected now ids p ?q"
  have row: "\<exists>ctx. rows ! i = new_subtask (ids ! i) now ?tk1 (p ! i) (int (length p) - int i) ctx" if "i < length p" for i
    using list_all2_nthD[OF rows, of i] that ids(1) by simp
  have old: "map ?c (db_tasks d1) = db_tasks d1"
    using new lens connected_other[of ids p] by (intro map_idI) (metis IntI emptyE imageI)
  have db': "db_tasks d' = db_tasks d1 @ map ?c rows"
    unfolding d' connect_rows d2 map_append old ..
  have child: "child_of_entry ids tk p i (map ?c rows ! i)" if "i < length p" for i
  proof -
    from row[OF that] obtain c where "rows ! i = new_subtask (ids ! i) now ?tk1 (p ! i) (int (length p) - int i) c" by blast
    from child_of_connected[OF ids(2) lens(1) that this]
    show ?thesis using that lens by (simp add: child_of_entry_def touch_def)
  qed
  have "filter (\<lambda>t. t_parent t = Some (t_id tk)) (map ?c rows) = map ?c rows"
    using child lens by (auto simp: filter_id_conv in_set_conv_nth child_of_entry_def)
  then have kids: "child_rows (t_id tk) d' = map ?c rows"
    using \<open>child_rows (t_id tk) d1 = []\<close> by (simp add: child_rows_def db')
  have ids': "map t_id (map ?c rows) = ids"
    using child lens by (intro nth_equalityI) (auto simp: child_of_entry_def)
  have range: "list_all (\<lambda>e. list_all (\<lambda>k. in_range k (pp_subtasks pr)) (pe_deps e)) (pp_subtasks pr)"
    using m by (auto simp: compile_execution_manifest_def Let_def list_all_iff list_ex_iff split: if_splits)
  have "map t_id (db_tasks d1) = map t_id (db_tasks d)"
    unfolding t1 by (simp add: touch_def comp_def)
  then have tid: "set ids \<inter> t_id ` set (db_tasks d) = {}" using new by (metis set_map)
  show ?thesis
  proof (rule that[OF pr range], unfold Let_def, fold p_def, intro conjI)
    show "map t_id (db_tasks d') = map t_id (db_tasks d) @ ids"
      unfolding db' map_append ids' t1 by (simp add: touch_def comp_def)
    show "\<forall>r \<in> set (db_tasks d). t_id r \<noteq> t_id tk \<longrightarrow> r \<in> set (db_tasks d')"
      unfolding db' t1 by (auto intro!: rev_image_eqI)
    show "\<forall>r \<in> set (db_tasks d). t_id r = t_id tk \<longrightarrow> (\<exists>ctx. r\<lparr>t_context := ctx, t_updated := now\<rparr> \<in> set (db_tasks d'))"
    proof (intro ballI impI exI)
      fix r assume r: "r \<in> set (db_tasks d)" "t_id r = t_id tk"
      then show "r\<lparr>t_context := ctx, t_updated := now\<rparr> \<in> set (db_tasks d')"
        unfolding db' t1 by (auto simp: touch_def intro!: rev_image_eqI[of r])
    qed
    show "\<forall>i < length p. child_of_entry ids tk p i (child_rows (t_id tk) d' ! i)" using child kids by simp
    show "length (child_rows (t_id tk) d') = length p" using kids lens by simp
  qed (rule ids lens tid)+
qed

lemma approved_children:
  assumes "handle_plan_approved env fr now tid actor d = (Inr (), d')" and "load_task tid d = Inr tk"
    and "child_rows tid d = []" and "uniq task_conflict (db_tasks d)"
  obtains pr ids tk' where "t_status tk = StatusPlanReview" and "parse_plan (t_plan tk) = Inr pr"
    and "list_all (\<lambda>e. list_all (\<lambda>k. in_range k (pp_subtasks pr)) (pe_deps e)) (pp_subtasks pr)"
    and "uniq task_conflict (db_tasks d')" and "load_task tid d' = Inr tk'"
    and "t_status tk' = approved_plan_target_status (pp_subtasks pr)" and "t_version tk' = t_version tk + 1"
    and "t_agent tk' = None" and "distinct ids"
    and "length ids = length (collapse_atomic_plan (t_title tk) (pp_subtasks pr))"
    and "length (child_rows tid d') = length ids"
    and "\<And>i. i < length ids \<Longrightarrow>
      child_of_entry ids tk (collapse_atomic_plan (t_title tk) (pp_subtasks pr)) i (child_rows tid d' ! i)"
    and "\<And>r. r \<in> set (db_tasks d) \<Longrightarrow> t_id r \<noteq> tid \<Longrightarrow> r \<in> set (db_tasks d')"
proof -
  from assms(1,2) obtain pr where st: "t_status tk = StatusPlanReview" and pr: "parse_plan (t_plan tk) = Inr pr"
    by (auto simp: handle_plan_approved_def split: if_splits sum.splits)
  define target where "target = approved_plan_target_status (pp_subtasks pr)"
  have "approve_transaction env fr now actor target ((if pp_exceptions pr = [] then tk
      else tk\<lparr>t_tdd_exceptions := json_put ''exceptions'' (exceptions_value (pp_exceptions pr)) (t_tdd_exceptions tk)\<rparr>)\<lparr>t_agent := None\<rparr>) d = Inr d'"
    using assms(1,2) st pr unfolding handle_plan_approved_def target_def Let_def
    by (cases "pp_exceptions pr = []") (simp_all split: sum.splits)
  moreover have "\<exists>ex. (if c then tk else tk\<lparr>t_tdd_exceptions := x\<rparr>)\<lparr>t_agent := None\<rparr> = tk\<lparr>t_tdd_exceptions := ex, t_agent := None\<rparr>" for c x
    by (rule exI[of _ "if c then t_tdd_exceptions tk else x"]) simp
  ultimately obtain ex where ok: "approve_transaction env fr now actor target (tk\<lparr>t_tdd_exceptions := ex, t_agent := None\<rparr>) d = Inr d'"
    by metis
  define tk0 where "tk0 = tk\<lparr>t_tdd_exceptions := ex, t_agent := None\<rparr>"
  from load_task_Inr[OF assms(2)] have tk: "tk \<in> set (db_tasks d)" "t_id tk = tid" by auto
  have tk0: "t_id tk0 = tid" by (simp add: tk0_def tk)
  obtain tk1 d1 where cas: "cas_task_transition (fr ''event'' 0) now tk0 StatusPlanReview target actor ''review_gate'' ''plan approved''
             [(''action'', GStr ''plan_approved'')] d = (tk1, Inr d1)"
    using ok by (auto simp: approve_transaction_def tk0_def[symmetric] split: prod.splits sum.splits)
  with ok obtain tk2 ids d2 ctx where mat: "materialize_subtasks env fr now False tk1 d1 = Inr (tk2, ids, d2)"
      and d': "d' = update_task_rows tid (\<lambda>r. r\<lparr>t_context := ctx, t_tdd_exceptions := t_tdd_exceptions tk2, t_updated := now\<rparr>) d2"
    by (auto simp: approve_transaction_def tk0_def[symmetric] tk0 res_simps Let_def)
  note eff = cas_task_transition_Inr[OF cas]
  from eff(2) have tk1: "t_id tk1 = tid" "t_plan tk1 = t_plan tk" "t_title tk1 = t_title tk" "t_project tk1 = t_project tk"
      "t_parent tk1 = t_parent tk" "t_status tk1 = target" "t_version tk1 = t_version tk + 1" "t_agent tk1 = None"
    by (simp_all add: tk0_def tk)
  let ?c = "\<lambda>r. if cas_match tk0 StatusPlanReview r then task_transition_columns tk1 r else r"
  from eff(4) have t1: "db_tasks d1 = map ?c (db_tasks d)" by (auto simp: cas_rows_def)
  have match: "cas_match tk0 StatusPlanReview r \<longleftrightarrow> r = tk" if "r \<in> set (db_tasks d)" for r
    using load_task_row[OF assms(4,2) that] st tk by (auto simp: cas_match_def tk0_def)
  have kids1: "child_rows (t_id tk1) d1 = []"
    using child_rows_map[OF t1] assms(3) match tk1 by simp
  have ids1: "map t_id (db_tasks d1) = map t_id (db_tasks d)" unfolding t1 by (simp add: comp_def if_distrib[of t_id] cong: if_cong)
  have mem: "tid \<in> t_id ` set (db_tasks d1)" using ids1 tk by (metis image_eqI set_map)
  let ?p = "collapse_atomic_plan (t_title tk) (pp_subtasks pr)"
  let ?f = "\<lambda>r. r\<lparr>t_context := ctx, t_tdd_exceptions := t_tdd_exceptions tk2, t_updated := now\<rparr> :: task"
  let ?g = "\<lambda>r. if t_id r = tid then ?f r else r"
  obtain M: "list_all (\<lambda>e. list_all (\<lambda>k. in_range k (pp_subtasks pr)) (pe_deps e)) (pp_subtasks pr)"
      "distinct ids" "length ids = length ?p" "length (child_rows tid d2) = length ?p"
      "\<forall>i < length ?p. child_of_entry ids tk1 ?p i (child_rows tid d2 ! i)" "set ids \<inter> t_id ` set (db_tasks d1) = {}"
      "map t_id (db_tasks d2) = map t_id (db_tasks d1) @ ids"
      "\<forall>r \<in> set (db_tasks d1). t_id r \<noteq> tid \<longrightarrow> r \<in> set (db_tasks d2)"
      "\<forall>r \<in> set (db_tasks d1). t_id r = tid \<longrightarrow> (\<exists>ctx. r\<lparr>t_context := ctx, t_updated := now\<rparr> \<in> set (db_tasks d2))"
    by (rule materialized_children[OF mat kids1]) (auto simp: tk1 pr Let_def)
  have t2: "db_tasks d' = map ?g (db_tasks d2)" by (simp add: d' update_task_rows_tasks)
  have kids: "child_rows tid d' = map ?g (child_rows tid d2)" by (rule child_rows_map[OF t2]) simp
  have child: "child_of_entry ids tk ?p i (child_rows tid d' ! i)" if "i < length ids" for i
  proof -
    have c: "child_of_entry ids tk1 ?p i (child_rows tid d2 ! i)" using M(3,5) that by simp
    have "ids ! i \<noteq> tid" using M(6) mem nth_mem[OF that] by blast
    with c have "t_id (child_rows tid d2 ! i) \<noteq> tid" by (simp add: child_of_entry_def)
    with c show ?thesis using kids M(3,4) that by (simp add: child_of_entry_def tk1 tk)
  qed
  have "map t_id (db_tasks d') = map t_id (db_tasks d) @ ids"
    unfolding t2 using M(7) ids1 by (simp add: comp_def if_distrib[of t_id] cong: if_cong)
  moreover have "set ids \<inter> t_id ` set (db_tasks d) = {}" using M(6) ids1 by (metis set_map)
  ultimately have uq: "uniq task_conflict (db_tasks d')"
    using assms(4) M(2) unfolding uniq_tasks_distinct by auto
  have tk1_row: "task_transition_columns tk1 tk \<in> set (db_tasks d1)"
    unfolding t1 using tk match by (auto intro!: rev_image_eqI[of tk])
  have "t_id (task_transition_columns tk1 tk) = tid" using tk by simp
  with M(9) tk1_row obtain c where "(task_transition_columns tk1 tk)\<lparr>t_context := c, t_updated := now\<rparr> \<in> set (db_tasks d2)"
    by blast
  then have row: "?f ((task_transition_columns tk1 tk)\<lparr>t_context := c, t_updated := now\<rparr>) \<in> set (db_tasks d')" (is "?r \<in> _")
    unfolding t2 using tk by (auto intro!: rev_image_eqI)
  show ?thesis
  proof (rule that[OF st pr M(1) uq _ _ _ _ M(2,3)])
    show "load_task tid d' = Inr ?r" using load_task_unique[OF uq row] tk by simp
    show "t_status ?r = approved_plan_target_status (pp_subtasks pr)" by (simp add: tk1 target_def)
    show "t_version ?r = t_version tk + 1" by (simp add: tk1)
    show "t_agent ?r = None" by (simp add: task_transition_columns_def tk1)
    show "length (child_rows tid d') = length ids" using kids M(3,4) by simp
    fix r assume r: "r \<in> set (db_tasks d)" "t_id r \<noteq> tid"
    then have "r \<in> set (db_tasks d1)" unfolding t1 using match tk by (auto intro!: rev_image_eqI[of r])
    with M(8) r have "r \<in> set (db_tasks d2)" by blast
    then show "r \<in> set (db_tasks d')" unfolding t2 using r by (auto intro!: rev_image_eqI[of r])
  qed (rule child)
qed

section \<open>Dependencies of the merged plan\<close>

definition good_deps :: "plan \<Rightarrow> bool" where
  "good_deps p \<longleftrightarrow> (\<forall>i < length p. distinct (pe_deps (p ! i)) \<and> (\<forall>k \<in> set (pe_deps (p ! i)). in_range k p))"

lemma add_dep_good: "\<lbrakk>good_deps p; j < length p\<rbrakk> \<Longrightarrow> good_deps (add_dep i j p)"
  by (cases "i < length p") (auto simp: good_deps_def add_dep_def nth_list_update in_range_def)

lemma add_dep_length [simp]: "length (add_dep i j p) = length p"
  by (simp add: add_dep_def)

lemma fold_add_dep_good:
  "\<lbrakk>good_deps p; set js \<subseteq> {..<length p}\<rbrakk> \<Longrightarrow> good_deps (fold (add_dep i) js p) \<and> length (fold (add_dep i) js p) = length p"
  by (induction js arbitrary: p) (auto simp: add_dep_good)

lemma fold_add_test_good:
  "\<lbrakk>good_deps p; set ts \<subseteq> {..<length p}\<rbrakk> \<Longrightarrow> good_deps (fold add_test_dep ts p) \<and> length (fold add_test_dep ts p) = length p"
  by (induction ts arbitrary: p) (auto simp: add_test_dep_eq add_dep_good split: option.splits)

lemma fold_fold_add_good:
  "\<lbrakk>good_deps p; set js \<subseteq> {..<length p}\<rbrakk>
   \<Longrightarrow> good_deps (fold (\<lambda>i. fold (add_dep i) js) is p) \<and> length (fold (\<lambda>i. fold (add_dep i) js) is p) = length p"
  by (induction "is" arbitrary: p) (auto simp: fold_add_dep_good)

lemma merge_good:
  assumes "good_deps p"
  shows "good_deps (merge_tdd_dependencies p) \<and> length (merge_tdd_dependencies p) = length p"
proof -
  have upt: "set [0..<length p] \<subseteq> {..<length p}" by auto
  have "set (phase_indices ph q) \<subseteq> {..<length q}" for ph q by (auto simp: phase_indices_iff)
  with fold_add_test_good[OF assms upt] fold_fold_add_good show ?thesis
    unfolding merge_tdd_dependencies_def Let_def by metis
qed

lemma index_ids_all: "(\<And>k. k \<in> set ks \<Longrightarrow> 0 \<le> k \<and> k < int (length ids)) \<Longrightarrow> index_ids ids ks = map (\<lambda>k. ids ! nat k) ks"
  by (simp add: index_ids_def filter_id_conv)

lemma index_ids_distinct:
  assumes "distinct ids" "distinct ks" "\<And>k. k \<in> set ks \<Longrightarrow> 0 \<le> k \<and> k < int (length ids)"
  shows "distinct (index_ids ids ks)"
proof -
  have "inj_on (\<lambda>k. ids ! nat k) (set ks)"
    using assms(1,3) by (intro inj_onI) (metis eq_nat_nat_iff nat_less_iff nth_eq_iff_index_eq)
  then show ?thesis using assms(2,3) by (simp add: index_ids_all distinct_map)
qed

section \<open>Progress\<close>

text \<open>Among children wired by an acyclic plan, one that is not finished has all its dependencies
  finished.\<close>

lemma wired_progress:
  assumes "good_deps m" "\<not> has_cycle m" "distinct ids" "length ids = length m"
    and "uniq task_conflict (db_tasks e)"
    and "map (\<lambda>c. (t_id c, t_deps c)) (child_rows tid e) = map (\<lambda>i. (ids ! i, index_ids ids (pe_deps (m ! i)))) [0..<length m]"
    and "\<exists>c \<in> set (child_rows tid e). t_status c \<noteq> StatusDone"
  shows "\<exists>c \<in> set (child_rows tid e). t_status c \<noteq> StatusDone \<and> dependencies_met e (t_deps c)"
proof -
  let ?kids = "child_rows tid e"
  have len: "length ?kids = length m" using assms(6) by (auto dest: map_eq_imp_length_eq)
  have kid: "t_id (?kids ! i) = ids ! i \<and> t_deps (?kids ! i) = index_ids ids (pe_deps (m ! i))" if "i < length m" for i
    using arg_cong[OF assms(6), of "\<lambda>xs. xs ! i"] that len by simp
  let ?N = "{i. i < length m \<and> t_status (?kids ! i) \<noteq> StatusDone}"
  have "finite (dep_edges m)" by (rule finite_subset[of _ "{..<length m} \<times> {..<length m}"]) (auto simp: dep_edges_iff)
  then have "wf ((dep_edges m)\<inverse>)" using assms(2) by (simp add: has_cycle_iff finite_acyclic_wf_converse)
  moreover obtain i0 where "i0 \<in> ?N" using assms(7) len by (auto simp: in_set_conv_nth)
  ultimately obtain i where i: "i \<in> ?N" and min: "\<And>j. (j, i) \<in> (dep_edges m)\<inverse> \<Longrightarrow> j \<notin> ?N"
    by (metis (no_types, lifting) wfE_min)
  have ks: "distinct (pe_deps (m ! i))" "k \<in> set (pe_deps (m ! i)) \<Longrightarrow> 0 \<le> k \<and> k < int (length ids)" for k
    using assms(1,4) i by (auto simp: good_deps_def in_range_def)
  have "\<exists>t \<in> set (db_tasks e). t_id t = x \<and> t_status t = StatusDone" if "x \<in> set (t_deps (?kids ! i))" for x
  proof -
    from that obtain k where k: "k \<in> set (pe_deps (m ! i))" "x = ids ! nat k"
      using kid i ks by (auto simp: index_ids_all)
    then have r: "nat k < length m" "int (nat k) = k" using ks(2)[of k] assms(4) by (auto simp: nat_less_iff)
    then have "(nat k, i) \<in> (dep_edges m)\<inverse>" using i k by (simp add: dep_edges_iff)
    from min[OF this] r have "t_status (?kids ! nat k) = StatusDone" by simp
    moreover have "?kids ! nat k \<in> set (db_tasks e)" using r len nth_mem[of "nat k" ?kids] by (auto simp: child_rows_def)
    ultimately show ?thesis using kid r k by blast
  qed
  moreover have "distinct (t_deps (?kids ! i))" using kid i index_ids_distinct[OF assms(3) ks] by simp
  ultimately have "dependencies_met e (t_deps (?kids ! i))"
    using dependencies_met_iff[OF assms(5)] by blast
  with i len show ?thesis by (intro bexI[of _ "?kids ! i"]) auto
qed

lemma atomic_merge: "choose_execution_lane p = LaneAtomic \<Longrightarrow> q = collapse_atomic_plan title p \<Longrightarrow>
  merge_tdd_dependencies q = q \<and> length q = 1 \<and> pe_deps (q ! 0) = []"
  by (simp add: collapse_atomic_plan_def Let_def merge_tdd_dependencies_def add_test_dep_def phase_indices_def)

lemma no_deps_no_cycle: "length q = 1 \<Longrightarrow> pe_deps (q ! 0) = [] \<Longrightarrow> good_deps q \<and> \<not> has_cycle q"
proof -
  assume a: "length q = 1" "pe_deps (q ! 0) = []"
  then have "dep_edges q = {}" by (auto simp: dep_edges_iff)
  with a show ?thesis by (simp add: good_deps_def has_cycle_iff acyclic_def)
qed

section \<open>Properties\<close>

text \<open>C31: Approving a plan of a task without subtasks creates exactly one backlog subtask per entry of
  the plan (of the single atomic entry when two entries write the same file), in the order of the
  plan: each carries the title, description, phase and priority of its entry, and depends on the
  subtasks of its merged dependencies and covers the subtasks of its \<open>tests_for\<close> indices.  The task
  itself moves to test writing or in progress with the next version, and no other task changes.\<close>

theorem approved_plan_materialized:
  assumes "handle_plan_approved env fr now tid actor d = (Inr (), d')" and "load_task tid d = Inr tk"
    and "child_rows tid d = []" and "uniq task_conflict (db_tasks d)"
  shows "\<exists>pr ids tk'. parse_plan (t_plan tk) = Inr pr \<and> load_task tid d' = Inr tk'
    \<and> t_status tk' = approved_plan_target_status (pp_subtasks pr) \<and> t_version tk' = t_version tk + 1 \<and> t_agent tk' = None
    \<and> (let p = collapse_atomic_plan (t_title tk) (pp_subtasks pr) in
         distinct ids \<and> length ids = length p \<and> length (child_rows tid d') = length p
         \<and> (\<forall>i < length p. child_of_entry ids tk p i (child_rows tid d' ! i)))
    \<and> (\<forall>r \<in> set (db_tasks d). t_id r \<noteq> tid \<longrightarrow> r \<in> set (db_tasks d'))"
proof (rule approved_children[OF assms])
  fix pr :: parse_plan_result and ids tk'
  let ?p = "collapse_atomic_plan (t_title tk) (pp_subtasks pr)"
  assume len: "length ids = length ?p" "length (child_rows tid d') = length ids"
    and kid: "\<And>i. i < length ids \<Longrightarrow> child_of_entry ids tk ?p i (child_rows tid d' ! i)"
  then have "length (child_rows tid d') = length ?p" "\<forall>i < length ?p. child_of_entry ids tk ?p i (child_rows tid d' ! i)"
    by simp_all
  moreover assume "parse_plan (t_plan tk) = Inr pr" "load_task tid d' = Inr tk'" "distinct ids"
    "t_status tk' = approved_plan_target_status (pp_subtasks pr)" "t_version tk' = t_version tk + 1" "t_agent tk' = None"
    "\<And>r. r \<in> set (db_tasks d) \<Longrightarrow> t_id r \<noteq> tid \<Longrightarrow> r \<in> set (db_tasks d')"
  ultimately show ?thesis using len(1) unfolding Let_def by blast
qed

text \<open>C11: Subtasks of a validated plan never block each other for good.  When a plan of the three
  phases that passed validation, in which only integrations depend on integrations and no entry
  lists a dependency twice, was approved for a task without earlier subtasks, then in every later
  database with the same subtasks and dependencies either all are done or one that is not done has met
  dependencies.  (Validation alone is not enough: \<open>validated_plan_deadlocks\<close> and
  \<open>duplicate_dependency_stuck\<close>.)\<close>

theorem approved_plan_progresses:
  fixes pr :: parse_plan_result
  assumes "handle_plan_approved env fr now tid actor d = (Inr (), d')" and "load_task tid d = Inr tk"
    and "child_rows tid d = []" and "uniq task_conflict (db_tasks d)"
    and "parse_plan (t_plan tk) = Inr pr" and "pv_valid (validate_plan (pp_subtasks pr) (pp_exceptions pr))"
    and "has_tdd_phases (pp_subtasks pr)" and "strictly_phased (pp_subtasks pr)"
    and "list_all (\<lambda>e. distinct (pe_deps e)) (pp_subtasks pr)"
    and "uniq task_conflict (db_tasks e)"
    and "map (\<lambda>c. (t_id c, t_deps c)) (child_rows tid e) = map (\<lambda>c. (t_id c, t_deps c)) (child_rows tid d')"
  shows "list_all (\<lambda>c. t_status c = StatusDone) (child_rows tid e)
    \<or> list_ex (\<lambda>c. t_status c \<noteq> StatusDone \<and> dependencies_met e (t_deps c)) (child_rows tid e)"
proof (rule approved_children[OF assms(1-4)])
  fix pr' :: parse_plan_result and ids tk'
  let ?p = "pp_subtasks pr"
  define q where "q = collapse_atomic_plan (t_title tk) ?p"
  let ?m = "merge_tdd_dependencies q"
  assume parse: "parse_plan (t_plan tk) = Inr pr'"
    and range': "list_all (\<lambda>e. list_all (\<lambda>k. in_range k (pp_subtasks pr')) (pe_deps e)) (pp_subtasks pr')"
    and len': "length ids = length (collapse_atomic_plan (t_title tk) (pp_subtasks pr'))"
    and kid': "\<And>i. i < length ids \<Longrightarrow>
      child_of_entry ids tk (collapse_atomic_plan (t_title tk) (pp_subtasks pr')) i (child_rows tid d' ! i)"
    and ids: "distinct ids" "length (child_rows tid d') = length ids"
  have "pr' = pr" using parse assms(5) by simp
  then have range: "list_all (\<lambda>e. list_all (\<lambda>k. in_range k ?p) (pe_deps e)) ?p" and len: "length ids = length q"
    using range' len' by (simp_all add: q_def)
  have kid: "child_of_entry ids tk q i (child_rows tid d' ! i)" if "i < length ids" for i
    using kid' that \<open>pr' = pr\<close> by (simp add: q_def)
  have m: "good_deps ?m \<and> \<not> has_cycle ?m \<and> length ?m = length q"
  proof (cases "choose_execution_lane ?p")
    case LaneAtomic
    from atomic_merge[OF this q_def] no_deps_no_cycle[of q] show ?thesis by simp
  next
    case LaneDecomposed
    then have q: "q = ?p" by (simp add: q_def collapse_atomic_plan_def)
    have "good_deps ?p" using range assms(9) nth_mem unfolding good_deps_def list_all_iff by blast
    with merge_good[of ?p] merged_acyclic[OF assms(6-8)] show ?thesis by (simp add: q)
  qed
  have "map (\<lambda>c. (t_id c, t_deps c)) (child_rows tid d') = map (\<lambda>i. (ids ! i, index_ids ids (pe_deps (?m ! i)))) [0..<length ?m]"
    using kid ids len m by (intro nth_equalityI) (simp_all add: child_of_entry_def)
  then have "map (\<lambda>c. (t_id c, t_deps c)) (child_rows tid e) = map (\<lambda>i. (ids ! i, index_ids ids (pe_deps (?m ! i)))) [0..<length ?m]"
    using assms(11) by simp
  from wired_progress[OF _ _ ids(1) _ assms(10) this] m len show ?thesis
    by (auto simp: list_all_iff list_ex_iff)
qed

text \<open>The writable files of the collapsed entry are those of the whole plan.\<close>

lemma normalized_set: "set (normalized_manifest_files fs) = {trim_space f | f. f \<in> set fs \<and> trim_space f \<noteq> []}"
  by (simp add: normalized_manifest_files_def dedup_files_set)

lemma trim_space_idem: "trim_space (trim_space s) = trim_space s"
proof -
  define u where "u = dropWhile is_space s"
  define t where "t = rev (dropWhile is_space (rev u))"
  have keep: "dropWhile is_space xs = xs" if "xs \<noteq> [] \<Longrightarrow> \<not> is_space (hd xs)" for xs using that by (cases xs) auto
  have ends: "\<not> is_space (hd xs)" if "xs \<noteq> []" "xs = dropWhile is_space ys" for xs ys
    using that hd_dropWhile[of is_space ys] by blast
  have fixed: "dropWhile is_space (rev t) = rev t" by (rule keep, rule ends) (simp_all add: t_def)
  have "rev (rev u) = t @ rev (takeWhile is_space (rev u))"
    unfolding t_def rev_append[symmetric] takeWhile_dropWhile_id ..
  then obtain r where r: "u = t @ r" by auto
  have "\<not> is_space (hd t)" if "t \<noteq> []"
  proof -
    have "hd t = hd u" "u \<noteq> []" using that r by simp_all
    then show ?thesis using ends[of u s] by (simp add: u_def)
  qed
  then have "dropWhile is_space t = t" by (rule keep)
  with fixed have "trim_space t = t" by (simp add: trim_space_def)
  then show ?thesis by (simp add: trim_space_def t_def u_def)
qed

lemma collapsed_writes:
  assumes "choose_execution_lane p = LaneAtomic"
  shows "\<Union> (writes ` set (collapse_atomic_plan title p)) = \<Union> (writes ` set p)"
proof -
  let ?w = "normalized_manifest_files (concat (map writable_plan_files p))"
  have w: "set ?w = \<Union> (writes ` set p)" by (auto simp: normalized_set writes_eq)
  obtain i j where ij: "i < j" "j < length p" "writes (p ! i) \<inter> writes (p ! j) \<noteq> {}"
    using assms lane_loop_iff[of "[]" p] by (auto simp: choose_execution_lane_def)
  then have "p ! j \<in> set p" "writes (p ! j) \<noteq> {}" by auto
  then have "set ?w \<noteq> {}" unfolding w by blast
  then have ne: "?w \<noteq> []" by auto
  obtain e where e: "collapse_atomic_plan title p = [e]" "pe_writable_files e = ?w"
    using assms by (auto simp: collapse_atomic_plan_def Let_def)
  have "writes e = {trim_space f | f. f \<in> set ?w \<and> trim_space f \<noteq> []}"
    using e ne by (simp add: writes_eq writable_plan_files_def)
  also have "\<dots> = set ?w" by (auto simp: normalized_set trim_space_idem) (metis trim_space_idem)
  finally show ?thesis using e w by simp
qed

text \<open>The decomposed lane is chosen exactly when no two entries of the plan write a common file, and
  collapsing keeps the set of writable files and leaves a plan without such a conflict.\<close>

theorem execution_lane_exact:
  "(choose_execution_lane p = LaneDecomposed \<longleftrightarrow>
      (\<forall>i j. i < j \<longrightarrow> j < length p \<longrightarrow> writes (p ! i) \<inter> writes (p ! j) = {}))
   \<and> \<Union> (writes ` set (collapse_atomic_plan title p)) = \<Union> (writes ` set p)
   \<and> choose_execution_lane (collapse_atomic_plan title p) = LaneDecomposed"
proof (intro conjI)
  show "choose_execution_lane p = LaneDecomposed \<longleftrightarrow>
      (\<forall>i j. i < j \<longrightarrow> j < length p \<longrightarrow> writes (p ! i) \<inter> writes (p ! j) = {})"
    using lane_loop_iff[of "[]" p] by (simp add: choose_execution_lane_def)
  show "\<Union> (writes ` set (collapse_atomic_plan title p)) = \<Union> (writes ` set p)"
  proof (cases "choose_execution_lane p")
    case LaneDecomposed
    then show ?thesis by (simp add: collapse_atomic_plan_def)
  qed (rule collapsed_writes)
  show "choose_execution_lane (collapse_atomic_plan title p) = LaneDecomposed"
    by (cases "choose_execution_lane p")
      (simp_all add: collapse_atomic_plan_def Let_def choose_execution_lane_def list_ex_iff)
qed

section \<open>Examples\<close>

definition approval_env :: plan_env where
  "approval_env = \<lparr>pv_host = \<lparr>ph_hash_contract = (\<lambda>_. ''h''), ph_hash_manifest = (\<lambda>_. ''m''), ph_encode_brief = (\<lambda>_. ''b'')\<rparr>,
     pv_fingerprint = (\<lambda>_. []), pv_packs = (\<lambda>tk p. Inr (map (\<lambda>_. []) p)), pv_plan_text = (\<lambda>_. []),
     pv_plan_hash = (\<lambda>_. []), pv_sort = sort_key, pv_parse = Some\<rparr>"

definition entry_value :: "string \<Rightarrow> string \<Rightarrow> gany list \<Rightarrow> gany list \<Rightarrow> gany" where
  "entry_value ph file deps tests_for = GMap [(''title'', GStr ph), (''files'', GList [GStr file]),
     (''dependencies'', GList deps), (''phase'', GStr ph), (''tests_for'', GList tests_for)]"

definition plan_value :: "gany list \<Rightarrow> json_field" where
  "plan_value deps = Some [''subtasks'' \<mapsto> GList [entry_value ''test'' ''a_test.go'' [] [GInt 1],
     entry_value ''implementation'' ''a.go'' deps [], entry_value ''integration'' ''main.go'' [] []]]"

definition reviewed_task :: "gany list \<Rightarrow> task" where
  "reviewed_task deps = sample_task\<lparr>t_status := StatusPlanReview, t_plan := plan_value deps\<rparr>"

definition review_db :: "gany list \<Rightarrow> db" where
  "review_db deps = sample_db\<lparr>db_tasks := [reviewed_task deps]\<rparr>"

lemma approval_succeeds:
  "\<not> isl (fst (handle_plan_approved approval_env sample_fresh 9 ''t1'' ''operator'' (review_db [])))"
  by code_simp

lemma approval_children:
  "map (\<lambda>c. (t_title c, t_deps c, t_tests_for c)) (child_rows ''t1''
     (snd (handle_plan_approved approval_env sample_fresh 9 ''t1'' ''operator'' (review_db [])))) =
   [(''test'', [], [''subtaskx'']), (''implementation'', [''subtask''], []), (''integration'', [''subtaskx''], [])]"
  by code_simp

lemma plan_value_parsed:
  "map_sum id (\<lambda>pr. map (\<lambda>e. (pe_title e, pe_deps e)) (pp_subtasks pr)) (parse_plan (plan_value [GInt 0, GInt 0])) =
     Inr [(''test'', []), (''implementation'', [0, 0]), (''integration'', [])]"
  by code_simp

theorem execution_lane_exact_witness:
  "writes (sample_plan ! 0) \<inter> writes (sample_plan ! 2) = {} \<and> choose_execution_lane sample_plan = LaneDecomposed"
proof -
  have "(case choose_execution_lane sample_plan of LaneDecomposed \<Rightarrow> True | LaneAtomic \<Rightarrow> False) \<and> length sample_plan = 3" by code_simp
  then have d: "choose_execution_lane sample_plan = LaneDecomposed" "length sample_plan = 3"
    by (auto split: execution_lane.splits)
  with execution_lane_exact[THEN conjunct1, THEN iffD1, OF d(1), rule_format, of 0 2] show ?thesis by simp
qed

lemma review_db_facts:
  "load_task ''t1'' (review_db []) = Inr (reviewed_task [])" "child_rows ''t1'' (review_db []) = []"
  "uniq task_conflict (db_tasks (review_db []))"
  by (simp_all add: review_db_def reviewed_task_def load_task_def tbl_first_def child_rows_def sample_db_def
      sample_task_def uniq_def)

lemma approved_plan:
  obtains d' where "handle_plan_approved approval_env sample_fresh 9 ''t1'' ''operator'' (review_db []) = (Inr (), d')"
    "map (\<lambda>c. (t_title c, t_deps c, t_tests_for c)) (child_rows ''t1'' d') =
     [(''test'', [], [''subtaskx'']), (''implementation'', [''subtask''], []), (''integration'', [''subtaskx''], [])]"
proof -
  obtain r d' where h: "handle_plan_approved approval_env sample_fresh 9 ''t1'' ''operator'' (review_db []) = (r, d')"
    by (metis prod.exhaust)
  then show ?thesis using approval_succeeds approval_children that by (cases r) auto
qed

theorem approved_plan_materialized_witness:
  "\<exists>d' tk' (pr :: parse_plan_result). handle_plan_approved approval_env sample_fresh 9 ''t1'' ''operator'' (review_db []) = (Inr (), d')
     \<and> load_task ''t1'' d' = Inr tk' \<and> t_version tk' = 8
     \<and> length (child_rows ''t1'' d') = length (collapse_atomic_plan ''title'' (pp_subtasks pr))
     \<and> length (child_rows ''t1'' d') = 3"
proof (rule approved_plan)
  fix d' assume h: "handle_plan_approved approval_env sample_fresh 9 ''t1'' ''operator'' (review_db []) = (Inr (), d')"
    and c: "map (\<lambda>c. (t_title c, t_deps c, t_tests_for c)) (child_rows ''t1'' d') =
     [(''test'', [], [''subtaskx'']), (''implementation'', [''subtask''], []), (''integration'', [''subtaskx''], [])]"
  from arg_cong[OF c, of length] have "length (child_rows ''t1'' d') = 3" by simp
  moreover obtain pr :: parse_plan_result and tk' where "load_task ''t1'' d' = Inr tk'" "t_version tk' = t_version (reviewed_task []) + 1"
      "length (child_rows ''t1'' d') = length (collapse_atomic_plan (t_title (reviewed_task [])) (pp_subtasks pr))"
    using approved_plan_materialized[OF h review_db_facts] unfolding Let_def by blast
  moreover have "t_version (reviewed_task []) + 1 = 8" "t_title (reviewed_task []) = ''title''"
    by (simp_all add: reviewed_task_def sample_task_def)
  ultimately show ?thesis using h
    by (intro exI[of _ d'] exI[of _ tk'] exI[of _ pr] conjI) (simp_all only:)
qed

lemma reviewed_plan:
  "\<exists>pr. parse_plan (t_plan (reviewed_task [])) = Inr pr \<and> pv_valid (validate_plan (pp_subtasks pr) (pp_exceptions pr))
     \<and> has_tdd_phases (pp_subtasks pr) \<and> strictly_phased (pp_subtasks pr)
     \<and> list_all (\<lambda>e. distinct (pe_deps e)) (pp_subtasks pr)"
proof -
  have "case parse_plan (t_plan (reviewed_task [])) of Inl e \<Rightarrow> False | Inr pr \<Rightarrow>
      pv_valid (validate_plan (pp_subtasks pr) (pp_exceptions pr))
     \<and> has_tdd_phases (pp_subtasks pr) \<and> strictly_phased (pp_subtasks pr)
     \<and> list_all (\<lambda>e. distinct (pe_deps e)) (pp_subtasks pr)"
    by code_simp
  then show ?thesis by (simp split: sum.splits)
qed

theorem approved_plan_progresses_witness:
  "\<exists>d'. handle_plan_approved approval_env sample_fresh 9 ''t1'' ''operator'' (review_db []) = (Inr (), d')
     \<and> list_ex (\<lambda>c. t_status c \<noteq> StatusDone \<and> dependencies_met d' (t_deps c)) (child_rows ''t1'' d')"
proof (rule approved_plan)
  fix d' assume h: "handle_plan_approved approval_env sample_fresh 9 ''t1'' ''operator'' (review_db []) = (Inr (), d')"
  have st: "map t_status (child_rows ''t1'' (snd (handle_plan_approved approval_env sample_fresh 9 ''t1'' ''operator'' (review_db []))))
     = [StatusBacklog, StatusBacklog, StatusBacklog]" by code_simp
  have nd: "\<not> list_all (\<lambda>c. t_status c = StatusDone) (child_rows ''t1'' d')"
    using st h by (cases "child_rows ''t1'' d'") auto
  obtain pr where pr: "parse_plan (t_plan (reviewed_task [])) = Inr pr" "pv_valid (validate_plan (pp_subtasks pr) (pp_exceptions pr))"
    "has_tdd_phases (pp_subtasks pr)" "strictly_phased (pp_subtasks pr)" "list_all (\<lambda>e. distinct (pe_deps e)) (pp_subtasks pr)"
    using reviewed_plan by blast
  have uq: "uniq task_conflict (db_tasks d')" by (rule approved_children[OF h review_db_facts])
  from approved_plan_progresses[OF h review_db_facts pr uq refl] nd h show ?thesis by blast
qed

text \<open>A plan whose implementation lists its test twice validates, and its subtask is never met: after
  approval and with the test finished, no subtask that is not done can start.\<close>

lemma duplicate_dependency_stuck:
  "pv_valid (validate_plan [sample_entry ''test'' ''a_test.go'' [] [1], sample_entry ''implementation'' ''a.go'' [0, 0] []] [])"
  "\<not> dependencies_met e [i, i]" if "uniq task_conflict (db_tasks e)"
proof -
  show "pv_valid (validate_plan [sample_entry ''test'' ''a_test.go'' [] [1], sample_entry ''implementation'' ''a.go'' [0, 0] []] [])"
    by code_simp
  show "\<not> dependencies_met e [i, i]" using dependencies_met_iff[OF that, of "[i, i]"] by simp
qed

text \<open>\<open>DeletePlanStep\<close> does not renumber the indices that follow the removed step: after the test
  at index 0 is deleted, the implementation, now at index 0, depends on itself.  The version of the
  task is kept, so a review of the previous plan still counts.\<close>

lemma deleted_step_self_dependency:
  "(case delete_plan_step 9 ''t1'' 0 (review_db [GInt 0]) of Inl e \<Rightarrow> False | Inr d' \<Rightarrow>
      (case load_task ''t1'' d' of Inl e \<Rightarrow> False | Inr tk \<Rightarrow> t_version tk = t_version (reviewed_task [GInt 0])
         \<and> (case parse_plan (t_plan tk) of Inl e \<Rightarrow> False | Inr pr \<Rightarrow>
              map (\<lambda>e. (pe_title e, pe_deps e)) (pp_subtasks pr) = [(''implementation'', [0]), (''integration'', [])]
              \<and> has_cycle (pp_subtasks pr))))"
  by code_simp

end
