(* ===== verification/ReadinessProperties.thy ===== *)
theory ReadinessProperties
  imports ParentReadiness
begin

text \<open>
  What the readiness of a parent means: the loop over dependencies computes the least closed set,
  a parent leaves \<open>in_progress\<close> for \<open>testing_ready\<close> only with complete children, a failed child
  stops the others, and finished tests replace the rejected ones their implementations wait for.
\<close>

section \<open>The closure loop\<close>

lemma required_pass_in: "i \<in> set (required_pass subs req) \<Longrightarrow>
   i \<in> set req \<or> (\<exists>j \<in> set req. i \<in> set (deps_of subs j) \<and> by_id subs i \<noteq> None)"
  using add_required_extends[of subs "concat (map (deps_of subs) req)" req]
  by (fastforce simp: required_pass_def)

lemma required_pass_mono: "set req \<subseteq> set (required_pass subs req)"
  using required_pass_extends[of subs req] by auto

lemma close_required_mono: "set req \<subseteq> set (close_required subs req)"
proof (induction subs req rule: close_required.induct)
  case (1 subs req)
  then show ?case using required_pass_mono[of req subs]
    by (subst close_required.simps) (auto simp: Let_def)
qed

lemma close_required_closed:
  "i \<in> set (close_required subs req) \<Longrightarrow> j \<in> set (deps_of subs i) \<Longrightarrow> by_id subs j = Some r
     \<Longrightarrow> j \<in> set (close_required subs req)"
proof (induction subs req rule: close_required.induct)
  case (1 subs req)
  show ?case
  proof (cases "required_pass subs req = req")
    case True
    then have c: "close_required subs req = req" by (subst close_required.simps) simp
    have "j \<in> set (required_pass subs req)"
      unfolding required_pass_def by (rule add_required_complete) (use 1(2-4) c in auto)
    then show ?thesis using True c by simp
  next
    case False
    then have "close_required subs req = close_required subs (required_pass subs req)"
      by (subst close_required.simps) simp
    then show ?thesis using 1(1)[OF refl False] 1(2-4) by simp
  qed
qed

lemma close_required_least:
  assumes "\<And>i j r. P i \<Longrightarrow> j \<in> set (deps_of subs i) \<Longrightarrow> by_id subs j = Some r \<Longrightarrow> P j"
  shows "\<forall>i \<in> set req. P i \<Longrightarrow> i \<in> set (close_required subs req) \<Longrightarrow> P i"
  using assms
proof (induction subs req rule: close_required.induct)
  case (1 subs req)
  have pass: "\<forall>i \<in> set (required_pass subs req). P i"
    using 1(2,4) by (fastforce dest!: required_pass_in)
  show ?case
    using 1(1)[OF refl _ pass _ 1(4)] 1(2,3) by (subst (asm) close_required.simps) (auto simp: Let_def split: if_splits)
qed

section \<open>Required subtasks\<close>

text \<open>The subtasks a target asks for: before the test review every active test that can run now
  and, through the dependencies, everything such a test waits for; before the delivery statuses
  everything but the rejected tests a finished revision replaced.\<close>

inductive required_for :: "task list \<Rightarrow> task_status \<Rightarrow> task \<Rightarrow> bool" for subs where
  active: "s \<in> set (active_test_writing_subtasks (filter (\<lambda>s. t_phase s = ''test'') subs)) \<Longrightarrow>
     \<not> is_future_test subs s \<Longrightarrow> required_for subs StatusTestReview s"
| dependency: "required_for subs StatusTestReview s \<Longrightarrow> i \<in> set (t_deps s) \<Longrightarrow> by_id subs i = Some r \<Longrightarrow>
     required_for subs StatusTestReview r"
| delivery: "target \<in> {StatusTestingReady, StatusMerging, StatusDone} \<Longrightarrow> s \<in> set subs \<Longrightarrow>
     \<not> superseded_rejected subs s \<Longrightarrow> required_for subs target s"

inductive_cases required_for_reviewE: "required_for subs StatusTestReview s"

lemma by_id_unique:
  assumes "distinct (map t_id subs)" "s \<in> set subs"
  shows "by_id subs (t_id s) = Some s"
proof (cases "by_id subs (t_id s)")
  case None
  then have "\<forall>x \<in> set subs. t_id x \<noteq> t_id s" by (simp add: by_id_def find_None_iff_set)
  then show ?thesis using assms(2) by blast
next
  case (Some r)
  then show ?thesis using by_id_in[OF Some] assms by (auto simp: distinct_map dest: inj_onD)
qed

lemma required_for_in: "required_for subs target s \<Longrightarrow> s \<in> set subs"
  by (induction rule: required_for.induct) (auto simp: active_test_writing_subtasks_def dest: by_id_in)

lemma required_subtasks_iff:
  assumes u: "distinct (map t_id subs)"
  shows "i \<in> set (required_subtasks subs target) \<longleftrightarrow> (\<exists>s. t_id s = i \<and> required_for subs target s)"
proof (cases "target = StatusTestReview")
  case True
  let ?seed = "remdups (map t_id (filter (\<lambda>s. \<not> is_future_test subs s)
          (active_test_writing_subtasks (filter (\<lambda>s. t_phase s = ''test'') subs))))"
  have r: "required_subtasks subs target = close_required subs ?seed" using True by (simp add: required_subtasks_def)
  show ?thesis
  proof
    assume i: "i \<in> set (required_subtasks subs target)"
    show "\<exists>s. t_id s = i \<and> required_for subs target s"
    proof (rule close_required_least[where P = "\<lambda>i. \<exists>s. t_id s = i \<and> required_for subs target s"])
      fix i j r assume s: "\<exists>s. t_id s = i \<and> required_for subs target s"
        and j: "j \<in> set (deps_of subs i)" "by_id subs j = Some r"
      from s obtain s where "t_id s = i" "required_for subs target s" by blast
      moreover from this have "by_id subs i = Some s" using by_id_unique[OF u required_for_in] by blast
      ultimately have "required_for subs target r"
        using j True by (auto simp: deps_of_def intro: required_for.dependency)
      then show "\<exists>s. t_id s = j \<and> required_for subs target s" using by_id_in[OF j(2)] by blast
    next
      show "\<forall>i \<in> set ?seed. \<exists>s. t_id s = i \<and> required_for subs target s"
        using True by (auto intro: required_for.active)
    next
      show "i \<in> set (close_required subs ?seed)" using i r by simp
    qed
  next
    assume "\<exists>s. t_id s = i \<and> required_for subs target s"
    then obtain s where s: "t_id s = i" "required_for subs StatusTestReview s" using True by auto
    from s(2) have "t_id s \<in> set (close_required subs ?seed)"
    proof (induction "StatusTestReview" s rule: required_for.induct)
      case (active s)
      then show ?case using close_required_mono[of ?seed subs] by auto
    next
      case (dependency s i r)
      from by_id_in[OF dependency(4)] close_required_closed[OF dependency(2) _ dependency(4)] show ?case
        using dependency(3) by_id_unique[OF u required_for_in[OF dependency(1)]] by (simp add: deps_of_def)
    qed simp
    then show "i \<in> set (required_subtasks subs target)" using r s by simp
  qed
next
  case False
  have "t_id s \<in> set (superseded_rejected_test_ids subs) \<longleftrightarrow> superseded_rejected subs s" if "s \<in> set subs" for s
    using u that by (auto simp: superseded_rejected_test_ids_def distinct_map dest: inj_onD)
  then show ?thesis using False
    by (auto simp: required_subtasks_def elim: required_for.cases intro: required_for.delivery)
qed

section \<open>Readiness\<close>

definition finished_with_deps :: "task list \<Rightarrow> task \<Rightarrow> bool" where
  "finished_with_deps subs s \<longleftrightarrow> t_status s = StatusDone
     \<and> (\<forall>i \<in> set (t_deps s). \<exists>r. by_id subs i = Some r \<and> t_status r = StatusDone)"

lemma dependency_blockers_empty:
  "dependency_blockers subs s i = [] \<longleftrightarrow> (\<exists>r. by_id subs i = Some r \<and> t_status r = StatusDone)"
  by (auto simp: dependency_blockers_def split: option.splits)

lemma subtask_blockers_empty:
  "subtask_blockers subs s = [] \<longleftrightarrow> is_ignorable_cancelled_subtask s \<or> finished_with_deps subs s"
  by (auto simp: subtask_blockers_def finished_with_deps_def dependency_blockers_empty)

lemma child_rows_distinct: "uniq task_conflict (db_tasks d) \<Longrightarrow> distinct (map t_id (child_rows pid d))"
  by (simp add: child_rows_def task_uniq_ids distinct_map_filter)

lemma set_map_filter_iff: "y \<in> set (List.map_filter f xs) \<longleftrightarrow> (\<exists>x \<in> set xs. f x = Some y)"
  by (induction xs) (auto simp: map_filter_simps split: option.splits)

lemma ready_iff:
  assumes u: "uniq task_conflict (db_tasks d)" and ord: "\<And>xs. set (order xs) = set xs"
  shows "pr_ready (evaluate_parent_readiness order pid target d) \<longleftrightarrow>
     (\<exists>s. required_for (child_rows pid d) target s)
     \<and> (\<forall>s. required_for (child_rows pid d) target s \<longrightarrow>
          is_ignorable_cancelled_subtask s \<or> finished_with_deps (child_rows pid d) s)"
proof -
  let ?subs = "child_rows pid d"
  note req = required_subtasks_iff[OF child_rows_distinct[OF u], of _ pid target]
  have rows: "set (List.map_filter (by_id ?subs) (order (required_subtasks ?subs target))) = {s. required_for ?subs target s}"
  proof (rule set_eqI, unfold mem_Collect_eq set_map_filter_iff ord)
    fix s
    show "(\<exists>i \<in> set (required_subtasks ?subs target). by_id ?subs i = Some s) \<longleftrightarrow> required_for ?subs target s"
    proof
      assume "\<exists>i \<in> set (required_subtasks ?subs target). by_id ?subs i = Some s"
      then obtain i s' where "by_id ?subs i = Some s" "t_id s' = i" "required_for ?subs target s'" using req by blast
      moreover from this have "by_id ?subs i = Some s'"
        using by_id_unique[OF child_rows_distinct[OF u] required_for_in] by blast
      ultimately show "required_for ?subs target s" by simp
    next
      assume s: "required_for ?subs target s"
      then have "by_id ?subs (t_id s) = Some s"
        using by_id_unique[OF child_rows_distinct[OF u] required_for_in] by blast
      with s req show "\<exists>i \<in> set (required_subtasks ?subs target). by_id ?subs i = Some s" by blast
    qed
  qed
  have "required_subtasks ?subs target = [] \<longleftrightarrow> \<not> (\<exists>s. required_for ?subs target s)"
    using req by (metis empty_iff empty_set last_in_set)
  moreover have "?subs = [] \<Longrightarrow> \<not> (\<exists>s. required_for ?subs target s)"
    using required_for_in by fastforce
  ultimately show ?thesis
    by (auto simp: evaluate_parent_readiness_def Let_def not_ready_def rows subtask_blockers_empty)
qed

section \<open>Leaving the implementation phase\<close>

lemma failed_with_statuses:
  "failed_with eid now reason tk d = (r, tk', d') \<Longrightarrow> t_status tk' \<in> {t_status tk, StatusFailed}"
  by (auto simp: failed_with_def fail_task_def transition_task_atomic_def split: prod.splits sum.splits
      dest!: cas_task_transition_Inl cas_task_transition_Inr(2))

lemma gate_status:
  assumes "evaluate_constraint_gate env eid now tk d = (r, tk', d')"
  shows "t_status tk' \<in> {t_status tk, StatusFailed}" and "r = Inr False \<Longrightarrow> d' = d \<and> t_id tk' = t_id tk
    \<and> t_status tk' = t_status tk \<and> t_version tk' = t_version tk"
proof -
  have b: "gate_blocked env eid now delta tk d = (r, tk', d') \<Longrightarrow> t_status tk' \<in> {t_status tk, StatusFailed} \<and> r \<noteq> Inr False"
    for delta tk
    unfolding gate_blocked_def Let_def
    by (auto simp: save_task_def Let_def split: if_splits prod.splits dest!: failed_with_statuses)
      (auto simp: map_sum_def split: sum.splits)
  have n: "t_id (nonnil_context tk) = t_id tk" "t_status (nonnil_context tk) = t_status tk"
    "t_version (nonnil_context tk) = t_version tk" by (simp_all add: nonnil_context_def)
  show "t_status tk' \<in> {t_status tk, StatusFailed}"
    using assms n b by (auto simp: evaluate_constraint_gate_def Let_def split: if_splits sum.splits option.splits)
  show "r = Inr False \<Longrightarrow> d' = d \<and> t_id tk' = t_id tk \<and> t_status tk' = t_status tk \<and> t_version tk' = t_version tk"
    using assms n b by (auto simp: evaluate_constraint_gate_def Let_def split: if_splits sum.splits option.splits)
qed

text \<open>What the completion check demands of the children and of the branch.\<close>

definition delivered_child :: "task list \<Rightarrow> task \<Rightarrow> bool" where
  "delivered_child subs s \<longleftrightarrow> finished_with_deps subs s \<or> is_ignorable_cancelled_subtask s \<or> superseded_rejected subs s"

lemma complete_feature_testing_ready:
  assumes u: "uniq task_conflict (db_tasks d)" and ord: "\<And>xs. set (re_order env xs) = set xs"
    and c: "complete_feature env fr now parent d = (Inr (), parent', d')"
    and s: "t_status parent \<noteq> StatusTestingReady" "t_status parent' = StatusTestingReady"
  shows "(\<forall>c \<in> set (child_rows (t_id parent) d). delivered_child (child_rows (t_id parent) d) c)
    \<and> \<not> empty_feature env parent
    \<and> (t_branch parent = [] \<or> re_skip_gate env
       \<or> fst (evaluate_constraint_gate (re_gate env) (fr ''gate'' 0) now parent d) = Inr False)
    \<and> (\<exists>tk. t_id tk = t_id parent \<and> t_version tk = t_version parent
         \<and> finish_feature (fr ''event'' 0) now tk d = (Inr (), parent', d'))"
proof -
  let ?subs = "child_rows (t_id parent) d"
  have ready: "pr_ready (evaluate_parent_readiness (re_order env) (t_id parent) StatusTestingReady d)"
    using c s by (auto simp: complete_feature_def Let_def record_parent_readiness_blocked_def save_task_def split: if_splits)
  then have "delivered_child ?subs c" if "c \<in> set ?subs" for c
    using that required_for.delivery[of StatusTestingReady c ?subs]
    unfolding ready_iff[OF u ord] delivered_child_def by blast
  moreover have e: "\<not> empty_feature env parent"
    using c s ready by (auto simp: complete_feature_def Let_def dest!: failed_with_statuses)
  moreover have gate: "(t_branch parent = [] \<or> re_skip_gate env
       \<or> fst (evaluate_constraint_gate (re_gate env) (fr ''gate'' 0) now parent d) = Inr False)
    \<and> (\<exists>tk. t_id tk = t_id parent \<and> t_version tk = t_version parent
         \<and> finish_feature (fr ''event'' 0) now tk d = (Inr (), parent', d'))"
  proof (cases "t_branch parent \<noteq> [] \<and> \<not> re_skip_gate env")
    case False
    then show ?thesis using c ready e by (auto simp: complete_feature_def Let_def)
  next
    case True
    obtain r tk d2 where g: "evaluate_constraint_gate (re_gate env) (fr ''gate'' 0) now parent d = (r, tk, d2)"
      by (metis prod_cases3)
    have "r = Inr False \<and> finish_feature (fr ''event'' 0) now tk d2 = (Inr (), parent', d')"
      using c ready e True g s gate_status(1)[OF g]
      by (auto simp: complete_feature_def Let_def split: sum.splits bool.splits)
    then show ?thesis using g gate_status(2)[OF g] by auto
  qed
  ultimately show ?thesis by blast
qed

section \<open>Stopping the siblings of a failed subtask\<close>

definition stoppable :: "task \<Rightarrow> bool" where
  "stoppable s \<longleftrightarrow> \<not> is_terminal_wave_status (t_status s) \<and> \<not> sibling_is_running s"

definition stopped_sibling :: "time \<Rightarrow> string list \<Rightarrow> task \<Rightarrow> task" where
  "stopped_sibling now names s = (cancelled_by_failure names s)
     \<lparr>t_status := StatusCancelled, t_version := t_version s + 1, t_updated := now\<rparr>"

definition known_status :: "task_status \<Rightarrow> bool" where
  "known_status st \<longleftrightarrow> (\<forall>x. st \<noteq> StatusOther x)"

lemma known_status_code [code]: "known_status st = (case st of StatusOther x \<Rightarrow> False | _ \<Rightarrow> True)"
  by (cases st) (auto simp: known_status_def)

lemma can_cancel: "known_status st \<Longrightarrow> \<not> is_terminal_wave_status st \<Longrightarrow> can_move st StatusCancelled"
  by (cases st) (auto simp: known_status_def is_terminal_wave_status_def can_move_iff)

lemma columns_self:
  "task_transition_columns ((cancelled_by_failure names s)\<lparr>t_status := st, t_version := v, t_updated := now\<rparr>) s
     = (cancelled_by_failure names s)\<lparr>t_status := st, t_version := v, t_updated := now\<rparr>"
  by (cases s) (simp add: task_transition_columns_def cancelled_by_failure_def)

lemma cas_changes_uniq:
  "uniq task_conflict (db_tasks d) \<Longrightarrow>
   cas_task_transition eid now tk expected target actor source reason refs d = (tk', Inr d') \<Longrightarrow>
   uniq task_conflict (db_tasks d')"
  using cas_task_transition_Inr(4)[of eid now tk expected target actor source reason refs d tk' d']
  by (auto simp: cas_rows_uniq)

lemma cancel_blocked_siblings_effect:
  assumes "uniq task_conflict (db_tasks d)" "set ss \<subseteq> set (db_tasks d)" "distinct ss"
    and "\<forall>s \<in> set ss. known_status (t_status s) \<and> t_id s \<noteq> uuid_Nil"
    and "\<forall>k \<ge> n. fr ''cancel'' k \<notin> te_id ` set (db_events d)" "inj (fr ''cancel'')"
  shows "\<exists>d'. cancel_blocked_siblings fr now pid names n ss d
      = (Inr (), map (\<lambda>s. if stoppable s then stopped_sibling now names s else s) ss, d')
    \<and> db_tasks d' = map (\<lambda>r. if r \<in> set ss \<and> stoppable r then stopped_sibling now names r else r) (db_tasks d)
    \<and> uniq task_conflict (db_tasks d')
    \<and> te_id ` set (db_events d') \<subseteq> te_id ` set (db_events d) \<union> range (fr ''cancel'')"
  using assms
proof (induction ss arbitrary: n d)
  case Nil
  then show ?case by simp
next
  case (Cons s ss)
  show ?case
  proof (cases "stoppable s")
    case False
    from Cons.IH[of d "Suc n"] Cons.prems obtain d' where
      c: "cancel_blocked_siblings fr now pid names (Suc n) ss d
        = (Inr (), map (\<lambda>s. if stoppable s then stopped_sibling now names s else s) ss, d')"
      and t: "db_tasks d' = map (\<lambda>r. if r \<in> set ss \<and> stoppable r then stopped_sibling now names r else r) (db_tasks d)"
      and u: "uniq task_conflict (db_tasks d')"
      and e: "te_id ` set (db_events d') \<subseteq> te_id ` set (db_events d) \<union> range (fr ''cancel'')"
      by auto
    have "(r \<in> set (s # ss) \<and> stoppable r) = (r \<in> set ss \<and> stoppable r)" for r using False by auto
    then show ?thesis using c t u e False by (auto simp: stoppable_def)
  next
    case True
    let ?s1 = "cancelled_by_failure names s"
    have s1: "t_id ?s1 = t_id s" "t_status ?s1 = t_status s" "t_version ?s1 = t_version s"
      by (simp_all add: cancelled_by_failure_def)
    let ?reason = "''execution plan stopped after required subtask failure: '' @ str_join '', '' names"
    let ?refs = "[(''parent_task_id'', GStr pid), (''failed_subtasks'', GStrs names)]"
    have s: "s \<in> set (db_tasks d)" "known_status (t_status s)" "t_id s \<noteq> uuid_Nil" "fr ''cancel'' n \<notin> te_id ` set (db_events d)"
      using Cons.prems by auto
    have ne: "''orchestrator'' \<noteq> []" "''dependency_failure_cascade'' \<noteq> []" "?reason \<noteq> []" by simp_all
    have mv: "can_move (t_status s) StatusCancelled" using True s(2) can_cancel by (simp add: stoppable_def)
    have nz: "t_status s \<noteq> StatusOther []" using s(2) by (simp add: known_status_def)
    obtain s' d1 where c1: "cas_task_transition (fr ''cancel'' n) now ?s1 (t_status s) StatusCancelled ''orchestrator''
          ''dependency_failure_cascade'' ?reason ?refs d = (s', Inr d1)"
      and s': "s' = ?s1\<lparr>t_status := StatusCancelled, t_version := t_version s + 1, t_updated := now\<rparr>"
      and t1: "db_tasks d1 = map (\<lambda>r. if r = s then task_transition_columns s' r else r) (db_tasks d)"
      by (rule cas_task_ok[OF Cons.prems(1) s(1) s1 mv ne s(3) nz s(4), where now = now and refs = ?refs])
    have row: "task_transition_columns s' s = stopped_sibling now names s"
      unfolding s' columns_self stopped_sibling_def by simp
    have e1: "te_id ` set (db_events d1) = insert (fr ''cancel'' n) (te_id ` set (db_events d))"
      using cas_task_transition_Inr(4)[OF c1] by auto
    have u1: "uniq task_conflict (db_tasks d1)" using cas_changes_uniq[OF Cons.prems(1) c1] .
    have sub: "set ss \<subseteq> set (db_tasks d1)" using Cons.prems(2,3) by (auto simp: t1)
    have fresh1: "\<forall>k \<ge> Suc n. fr ''cancel'' k \<notin> te_id ` set (db_events d1)"
      using Cons.prems(5,6) by (auto simp: e1 dest: injD)
    from Cons.IH[OF u1 sub _ _ fresh1 Cons.prems(6)] Cons.prems(3,4) obtain d' where
      c: "cancel_blocked_siblings fr now pid names (Suc n) ss d1
        = (Inr (), map (\<lambda>s. if stoppable s then stopped_sibling now names s else s) ss, d')"
      and t: "db_tasks d' = map (\<lambda>r. if r \<in> set ss \<and> stoppable r then stopped_sibling now names r else r) (db_tasks d1)"
      and u: "uniq task_conflict (db_tasks d')"
      and e: "te_id ` set (db_events d') \<subseteq> te_id ` set (db_events d1) \<union> range (fr ''cancel'')"
      by auto
    have "cancel_blocked_siblings fr now pid names n (s # ss) d
        = (Inr (), map (\<lambda>s. if stoppable s then stopped_sibling now names s else s) (s # ss), d')"
      using True c c1 s1 by (simp add: stoppable_def transition_task_atomic_def s' stopped_sibling_def)
    moreover have "db_tasks d' = map (\<lambda>r. if r \<in> set (s # ss) \<and> stoppable r then stopped_sibling now names r else r) (db_tasks d)"
      unfolding t t1 map_map
    proof (rule map_cong[OF refl])
      fix r assume "r \<in> set (db_tasks d)"
      have "\<not> stoppable (stopped_sibling now names s)"
        by (simp add: stoppable_def stopped_sibling_def is_terminal_wave_status_def)
      then show "((\<lambda>r. if r \<in> set ss \<and> stoppable r then stopped_sibling now names r else r)
          \<circ> (\<lambda>r. if r = s then task_transition_columns s' r else r)) r
        = (if r \<in> set (s # ss) \<and> stoppable r then stopped_sibling now names r else r)"
        using True row by auto
    qed
    moreover have "te_id ` set (db_events d') \<subseteq> te_id ` set (db_events d) \<union> range (fr ''cancel'')"
      using e e1 by auto
    ultimately show ?thesis using u by blast
  qed
qed

lemma fail_feature_effect:
  assumes "uniq task_conflict (db_tasks d)" "parent \<in> set (db_tasks d)" "t_status parent = StatusInProgress"
    and "t_id parent \<noteq> uuid_Nil" "t_parent parent \<noteq> Some (t_id parent)"
    and "\<forall>s \<in> set (child_rows (t_id parent) d). known_status (t_status s) \<and> t_id s \<noteq> uuid_Nil"
    and "\<forall>k. fr ''cancel'' k \<notin> te_id ` set (db_events d)" "inj (fr ''cancel'')"
    and "fr ''event'' 0 \<notin> te_id ` set (db_events d) \<union> range (fr ''cancel'')"
  defines "subs \<equiv> child_rows (t_id parent) d"
  defines "names \<equiv> map t_title (filter (has_failed subs) subs)"
  shows "\<exists>parent' d'. fail_feature fr now parent subs d = (Inr (), parent', d')
    \<and> parent' \<in> set (db_tasks d') \<and> t_id parent' = t_id parent
    \<and> t_status parent' = (if list_ex sibling_is_running subs then StatusInProgress else StatusFailed)
    \<and> (\<forall>s \<in> set subs. (if stoppable s then stopped_sibling now names s else s) \<in> set (db_tasks d'))"
proof -
  let ?f = "\<lambda>r. if stoppable r then stopped_sibling now names r else r"
  have sub: "set subs \<subseteq> set (db_tasks d)" and dist: "distinct subs"
    using child_rows_distinct[OF assms(1), of "t_id parent"] distinct_map by (auto simp: subs_def child_rows_def)
  have kn: "\<forall>s \<in> set subs. known_status (t_status s) \<and> t_id s \<noteq> uuid_Nil" and fr: "\<forall>k \<ge> 0. fr ''cancel'' k \<notin> te_id ` set (db_events d)"
    using assms(6,7) by (auto simp: subs_def)
  have stays: "parent \<notin> set subs" using assms(5) by (auto simp: subs_def child_rows_def)
  from cancel_blocked_siblings_effect[where fr = fr and n = 0 and now = now and pid = "t_id parent" and names = names,
      OF assms(1) sub dist kn fr assms(8)] obtain d1 where
    c: "cancel_blocked_siblings fr now (t_id parent) names 0 subs d = (Inr (), map ?f subs, d1)"
    and t1: "db_tasks d1 = map (\<lambda>r. if r \<in> set subs \<and> stoppable r then stopped_sibling now names r else r) (db_tasks d)"
    and u1: "uniq task_conflict (db_tasks d1)"
    and e1: "te_id ` set (db_events d1) \<subseteq> te_id ` set (db_events d) \<union> range (fr ''cancel'')"
    by blast
  have p1: "parent \<in> set (db_tasks d1)" using stays assms(2) by (force simp: t1)
  have rows1: "?f s \<in> set (db_tasks d1)" if "s \<in> set subs" for s
    using that sub by (force simp: t1)
  have ids: "t_id (?f s) \<noteq> t_id parent" if "s \<in> set subs" for s
  proof -
    have "t_id s \<noteq> t_id parent"
      using tasks.uniq_eq[OF assms(1) _ assms(2), of s] that sub stays by (auto simp: task_conflict_def)
    then show ?thesis by (simp add: stopped_sibling_def cancelled_by_failure_def)
  qed
  have run: "draining_sibling_names (map ?f subs) \<noteq> [] \<longleftrightarrow> list_ex sibling_is_running subs"
  proof -
    have "sibling_is_running (?f s) \<longleftrightarrow> sibling_is_running s" for s
      by (auto simp: stoppable_def sibling_is_running_def stopped_sibling_def is_terminal_wave_status_def)
    moreover have "draining_sibling_names (map ?f subs) \<noteq> [] \<longleftrightarrow> list_ex (\<lambda>s. sibling_is_running (?f s)) subs"
      by (simp add: draining_sibling_names_def filter_map o_def filter_empty_conv list_ex_iff)
    ultimately show ?thesis by simp
  qed
  show ?thesis
  proof (cases "list_ex sibling_is_running subs")
    case True
    define p' where "p' = parent\<lparr>t_context := json_put ''sibling_drain'' (GMap [(''failed'', GStrs names),
      (''running'', GStrs (draining_sibling_names (map ?f subs)))]) (t_context parent), t_updated := now\<rparr>"
    have p: "t_id p' = t_id parent" "t_status p' = StatusInProgress" using assms(3) by (simp_all add: p'_def)
    have "fail_feature fr now parent subs d
      = (Inr (), p', d1\<lparr>db_tasks := map (\<lambda>r. if t_id r = t_id parent then p' else r) (db_tasks d1)\<rparr>)"
      using True run c p1 unfolding fail_feature_def Let_def names_def[symmetric]
      by (auto simp: save_task_def Let_def p'_def list_ex_iff)
    then show ?thesis using True p p1 rows1 ids by (force simp: list_ex_iff)
  next
    case False
    define p1 where "p1 = parent\<lparr>t_context := json_put ''failure_reason''
      (GStr (''subtasks failed: '' @ str_join '', '' names)) (t_context parent)\<rparr>"
    have f: "t_id p1 = t_id parent" "t_status p1 = t_status parent" "t_version p1 = t_version parent"
      by (simp_all add: p1_def)
    have mv: "can_move (t_status parent) StatusFailed" and nz: "t_status parent \<noteq> StatusOther []"
      using assms(3) by (simp_all add: can_move_iff)
    have ne: "''orchestrator'' \<noteq> []" "''failure_policy'' \<noteq> []" "''subtasks failed: '' @ str_join '', '' names \<noteq> []" by simp_all
    have ev: "fr ''event'' 0 \<notin> te_id ` set (db_events d1)" using assms(9) e1 by blast
    obtain p' d2 where c2: "cas_task_transition (fr ''event'' 0) now p1 (t_status parent) StatusFailed ''orchestrator''
        ''failure_policy'' (''subtasks failed: '' @ str_join '', '' names) [] d1 = (p', Inr d2)"
      and p': "p' = p1\<lparr>t_status := StatusFailed, t_version := t_version parent + 1, t_updated := now\<rparr>"
      and t2: "db_tasks d2 = map (\<lambda>r. if r = parent then task_transition_columns p' r else r) (db_tasks d1)"
      by (rule cas_task_ok[OF u1 \<open>parent \<in> set (db_tasks d1)\<close> f mv ne assms(4) nz ev, where now = now and refs = "[]"])
    have row: "task_transition_columns p' parent = p'"
      by (cases parent) (simp add: p' p1_def task_transition_columns_def)
    have d: "draining_sibling_names (map ?f subs) = []" using False run by blast
    have "fail_feature fr now parent subs d = (Inr (), p', d2)"
      using d c c2[unfolded p1_def] unfolding fail_feature_def Let_def names_def[symmetric]
      by (simp add: failed_with_def fail_task_def transition_task_atomic_def)
    moreover have "p' \<in> set (db_tasks d2)" using p1 row by (force simp: t2)
    moreover have "?f s \<in> set (db_tasks d2)" if "s \<in> set subs" for s
      using rows1[OF that] ids[OF that] by (force simp: t2)
    ultimately show ?thesis using False by (auto simp: p' p1_def)
  qed
qed

section \<open>Dependencies on rejected tests\<close>

lemma by_id_iff: "distinct (map t_id subs) \<Longrightarrow> by_id subs i = Some s \<longleftrightarrow> s \<in> set subs \<and> t_id s = i"
  using by_id_unique by_id_in by blast

lemma newest_rows_set [simp]: "set (newest_rows rows) = set rows"
  by (simp add: newest_rows_def)

lemma newest_rows_distinct [simp]: "distinct (map t_id (newest_rows rows)) \<longleftrightarrow> distinct (map t_id rows)"
  by (simp add: newest_rows_def distinct_map)

lemma by_id_newest: "distinct (map t_id rows) \<Longrightarrow> by_id (newest_rows rows) i = by_id rows i"
  using by_id_iff[of "newest_rows rows" i] by_id_iff[of rows i] by (metis newest_rows_distinct newest_rows_set not_Some_eq)

lemma rejected_test_newest [simp]:
  "distinct (map t_id rows) \<Longrightarrow> rejected_test (newest_rows rows) i = rejected_test rows i"
  by (simp add: rejected_test_def by_id_newest)

definition needs_repair :: "task list \<Rightarrow> task \<Rightarrow> bool" where
  "needs_repair siblings r \<longleftrightarrow> t_phase r \<noteq> ''test'' \<and> completed_test_for siblings (t_id r) \<noteq> []
     \<and> list_ex (rejected_test siblings) (t_deps r)"

definition repaired_row :: "time \<Rightarrow> task list \<Rightarrow> task \<Rightarrow> task" where
  "repaired_row now siblings r = r\<lparr>t_deps := repaired_deps siblings r, t_updated := now\<rparr>"

lemma fold_repair:
  assumes "uniq task_conflict (db_tasks d)" "set ss \<subseteq> set (db_tasks d)" "distinct ss"
  shows "db_tasks (fold (repair_deps now siblings) ss d) =
    map (\<lambda>r. if r \<in> set ss \<and> needs_repair siblings r then repaired_row now siblings r else r) (db_tasks d)"
  using assms
proof (induction ss arbitrary: d)
  case (Cons s ss)
  let ?d = "repair_deps now siblings s d"
  have same: "r = s" if "r \<in> set (db_tasks d)" "t_id r = t_id s" for r
    using tasks.uniq_eq[OF Cons.prems(1) that(1), of s] Cons.prems(2) that(2) by (auto simp: task_conflict_def)
  have d1: "db_tasks ?d = map (\<lambda>r. if r = s \<and> needs_repair siblings r then repaired_row now siblings r else r) (db_tasks d)"
  proof (cases "needs_repair siblings s")
    case True
    then show ?thesis using same
      by (auto simp: repair_deps_def needs_repair_def tbl_update_def repaired_row_def)
  next
    case False
    have "(if r = s \<and> needs_repair siblings r then repaired_row now siblings r else r) = r" for r using False by auto
    then show ?thesis using False by (simp add: repair_deps_def needs_repair_def)
  qed
  have u: "uniq task_conflict (db_tasks ?d)"
    unfolding d1 by (rule tasks.update_uniq[OF Cons.prems(1)]) (auto simp: task_conflict_def repaired_row_def split: if_splits)
  have sub: "set ss \<subseteq> set (db_tasks ?d)" using Cons.prems(2,3) by (auto simp: d1)
  have out: "repaired_row now siblings s \<in> set ss \<Longrightarrow> repaired_row now siblings s = s"
    using same[of "repaired_row now siblings s"] Cons.prems(2) by (auto simp: repaired_row_def)
  have "db_tasks (fold (repair_deps now siblings) (s # ss) d) =
    map (\<lambda>r. if r \<in> set ss \<and> needs_repair siblings r then repaired_row now siblings r else r) (db_tasks ?d)"
    using Cons.IH[OF u sub] Cons.prems(3) by simp
  also have "\<dots> = map (\<lambda>r. if r \<in> set (s # ss) \<and> needs_repair siblings r then repaired_row now siblings r else r) (db_tasks d)"
    unfolding d1 map_map
  proof (rule map_cong[OF refl], unfold o_def)
    fix r assume "r \<in> set (db_tasks d)"
    show "(if (if r = s \<and> needs_repair siblings r then repaired_row now siblings r else r) \<in> set ss
          \<and> needs_repair siblings (if r = s \<and> needs_repair siblings r then repaired_row now siblings r else r)
        then repaired_row now siblings (if r = s \<and> needs_repair siblings r then repaired_row now siblings r else r)
        else (if r = s \<and> needs_repair siblings r then repaired_row now siblings r else r))
      = (if r \<in> set (s # ss) \<and> needs_repair siblings r then repaired_row now siblings r else r)"
      using out Cons.prems(3) by (cases "r = s") auto
  qed
  finally show ?case .
qed simp

lemma repair_rows:
  assumes u: "uniq task_conflict (db_tasks d)"
  shows "child_rows pid (repair_superseded_test_dependencies now pid d) =
    map (\<lambda>r. if needs_repair (newest_rows (child_rows pid d)) r
             then repaired_row now (newest_rows (child_rows pid d)) r else r) (child_rows pid d)"
proof -
  let ?R = "newest_rows (child_rows pid d)"
  have dist: "distinct (map t_id ?R)" using child_rows_distinct[OF u] by simp
  have "db_tasks (fold (repair_deps now ?R) ?R d) =
    map (\<lambda>r. if r \<in> set ?R \<and> needs_repair ?R r then repaired_row now ?R r else r) (db_tasks d)"
    by (rule fold_repair[OF u]) (use dist in \<open>auto simp: child_rows_def distinct_map\<close>)
  moreover have "t_parent (if b then repaired_row now ?R r else r) = t_parent r" for b r
    by (simp add: repaired_row_def)
  ultimately show ?thesis
    unfolding repair_superseded_test_dependencies_def Let_def child_rows_def[of pid "fold _ _ _"]
    by (auto simp: filter_map o_def child_rows_def intro!: map_cong filter_cong)
qed

lemma completed_test_for_covered:
  assumes "t \<in> set siblings" "t_phase t = ''test''" "t_status t = StatusDone" "i \<in> set (t_tests_for t)"
    and "[] \<notin> t_id ` set siblings"
  shows "\<exists>t' \<in> set siblings. completed_test_for siblings i = t_id t' \<and> t_id t' \<noteq> []
    \<and> t_phase t' = ''test'' \<and> t_status t' = StatusDone \<and> i \<in> set (t_tests_for t')"
proof -
  let ?P = "\<lambda>s. t_phase s = ''test'' \<and> t_status s = StatusDone \<and> i \<in> set (t_tests_for s)"
  obtain t' where t': "List.find ?P siblings = Some t'"
    using assms(1-4) by (cases "List.find ?P siblings") (auto simp: find_None_iff_set)
  from find_Some_set[OF t'] assms(5) show ?thesis
    by (intro bexI[of _ t']) (auto simp: completed_test_for_def t' intro: rev_image_eqI)
qed

section \<open>Properties\<close>

text \<open>C30: When a parent is ready.  Whatever the iteration order of the map of required subtasks, the
  evaluation answers ready exactly when at least one subtask is required for the target and every
  required one is an ignorable cancellation, or finished with every dependency a finished sibling.
  Before the test review the required subtasks are the least set that contains the active tests that
  can run now and, with a subtask, its dependencies; before the delivery they are all but the
  rejected tests that a finished revision replaced.\<close>

theorem parent_ready_iff:
  assumes "uniq task_conflict (db_tasks d)" and "\<And>xs. set (order xs) = set xs"
  shows "pr_ready (evaluate_parent_readiness order pid target d) \<longleftrightarrow>
     (\<exists>s. required_for (child_rows pid d) target s)
     \<and> (\<forall>s. required_for (child_rows pid d) target s \<longrightarrow>
          is_ignorable_cancelled_subtask s \<or> finished_with_deps (child_rows pid d) s)"
  using assms by (rule ready_iff)

text \<open>C12: A completion check that moves a parent to \<open>testing_ready\<close> found it in progress, with at
  least one child; every child is finished with finished dependencies, an ignorable cancellation, or
  a rejected test whose implementations all have a finished revision (in particular none was cancelled
  because a sibling failed); the feature branch is not known to be empty; and unless there is no
  branch or the gate is switched off, the constraint gate let the parent pass.\<close>

theorem testing_ready_sound:
  assumes "uniq task_conflict (db_tasks d)" and "\<And>xs. set (re_order env xs) = set xs"
    and "check_feature_completion env fr now parent d = (Inr (), parent', d')"
    and "t_status parent \<noteq> StatusTestingReady" and "t_status parent' = StatusTestingReady"
  shows "t_status parent = StatusInProgress \<and> child_rows (t_id parent) d \<noteq> []
    \<and> (\<forall>c \<in> set (child_rows (t_id parent) d). delivered_child (child_rows (t_id parent) d) c
          \<and> \<not> is_dependency_failure_cancelled_subtask c)
    \<and> \<not> empty_feature env parent
    \<and> (t_branch parent = [] \<or> re_skip_gate env
       \<or> fst (evaluate_constraint_gate (re_gate env) (fr ''gate'' 0) now parent d) = Inr False)"
proof -
  let ?subs = "child_rows (t_id parent) d"
  have nf: "t_status tk \<noteq> StatusTestingReady"
    if "fail_feature fr now parent ?subs d = (r, tk, d2)" for r tk d2
    using that assms(4)
    by (auto simp: fail_feature_def Let_def save_task_def split: prod.splits sum.splits if_splits dest!: failed_with_statuses)
  have c: "?subs \<noteq> []" "t_status parent = StatusInProgress" "complete_feature env fr now parent d = (Inr (), parent', d')"
    using assms(3-5) nf by (auto simp: check_feature_completion_def Let_def split: if_splits)
  have "\<not> is_dependency_failure_cancelled_subtask c" if "delivered_child ?subs c" for c
    using that
    by (auto simp: delivered_child_def finished_with_deps_def is_ignorable_cancelled_subtask_def
        is_dependency_failure_cancelled_subtask_def superseded_rejected_def)
  with complete_feature_testing_ready[OF assms(1,2) c(3) assms(4,5)] c(1,2) show ?thesis by blast
qed

text \<open>A failed child stops the plan.  When a child of a parent in progress failed, was rejected
  for good or was cancelled because of another failure, the check cancels every child that has not
  started, labelled so that it never counts as finished, leaves finished and running children as they
  are, and fails the parent once no child is running.\<close>

theorem failed_child_stops_siblings:
  assumes "uniq task_conflict (db_tasks d)" and "parent \<in> set (db_tasks d)" and "t_status parent = StatusInProgress"
    and "t_id parent \<noteq> uuid_Nil" and "t_parent parent \<noteq> Some (t_id parent)"
    and "\<forall>s \<in> set (child_rows (t_id parent) d). known_status (t_status s) \<and> t_id s \<noteq> uuid_Nil"
    and "\<forall>k. fr ''cancel'' k \<notin> te_id ` set (db_events d)" and "inj (fr ''cancel'')"
    and "fr ''event'' 0 \<notin> te_id ` set (db_events d) \<union> range (fr ''cancel'')"
    and "f \<in> set (child_rows (t_id parent) d)" and "has_failed (child_rows (t_id parent) d) f"
  shows "\<exists>parent' d' names. check_feature_completion env fr now parent d = (Inr (), parent', d')
    \<and> parent' \<in> set (db_tasks d') \<and> t_id parent' = t_id parent
    \<and> t_status parent' = (if list_ex sibling_is_running (child_rows (t_id parent) d) then StatusInProgress else StatusFailed)
    \<and> (\<forall>s \<in> set (child_rows (t_id parent) d).
         (if stoppable s then stopped_sibling now names s else s) \<in> set (db_tasks d')
         \<and> is_dependency_failure_cancelled_subtask (stopped_sibling now names s))"
proof -
  let ?subs = "child_rows (t_id parent) d"
  have "\<not> child_completes ?subs f"
    using assms(11) by (auto simp: child_completes_def has_failed_def is_ignorable_cancelled_subtask_def
        is_dependency_failure_cancelled_subtask_def)
  then have "check_feature_completion env fr now parent d = fail_feature fr now parent ?subs d"
    using assms(3,10,11) by (auto simp: check_feature_completion_def Let_def list_all_iff list_ex_iff)
  moreover have "is_dependency_failure_cancelled_subtask (stopped_sibling now names s)" for names s
    by (simp add: is_dependency_failure_cancelled_subtask_def stopped_sibling_def cancelled_by_failure_def
        cancellation_kind_def trim_space_def is_space_def)
  ultimately show ?thesis using fail_feature_effect[OF assms(1-9)] by fastforce
qed

text \<open>The repair reconnects an implementation to the finished revision of its test.  Afterwards
  no subtask outside the test phase that a finished test covers waits for a rejected test: every
  dependency was there before or is a finished test that covers the subtask; nothing else about the
  subtask changed.\<close>

theorem repair_replaces_rejected_tests:
  assumes "uniq task_conflict (db_tasks d)" and "[] \<notin> t_id ` set (child_rows pid d)"
    and "r \<in> set (child_rows pid (repair_superseded_test_dependencies now pid d))" and "t_phase r \<noteq> ''test''"
    and "t \<in> set (child_rows pid d)" and "t_phase t = ''test''" and "t_status t = StatusDone" and "t_id r \<in> set (t_tests_for t)"
  shows "\<exists>old \<in> set (child_rows pid d). r = old\<lparr>t_deps := t_deps r, t_updated := t_updated r\<rparr>
    \<and> (\<forall>i \<in> set (t_deps r). \<not> rejected_test (child_rows pid d) i
         \<and> (i \<in> set (t_deps old) \<or> (\<exists>t' \<in> set (child_rows pid d). t_id t' = i \<and> t_phase t' = ''test''
              \<and> t_status t' = StatusDone \<and> t_id r \<in> set (t_tests_for t'))))"
proof -
  let ?C = "child_rows pid d" and ?R = "newest_rows (child_rows pid d)"
  have dist: "distinct (map t_id ?C)" using assms(1) by (rule child_rows_distinct)
  obtain old where old: "old \<in> set ?C" "r = (if needs_repair ?R old then repaired_row now ?R old else old)"
    using assms(3) unfolding repair_rows[OF assms(1)] by auto
  have same: "t_id r = t_id old" "t_phase r = t_phase old" using old(2) by (simp_all add: repaired_row_def)
  obtain t' where t': "t' \<in> set ?C" "completed_test_for ?R (t_id old) = t_id t'" "t_id t' \<noteq> []"
    "t_phase t' = ''test''" "t_status t' = StatusDone" "t_id old \<in> set (t_tests_for t')"
    using completed_test_for_covered[of t ?R "t_id old"] assms(2,5-8) same by auto
  have "\<not> rejected_test ?C (t_id t')"
    using by_id_unique[OF dist t'(1)] t'(5) by (simp add: rejected_test_def)
  moreover have "t_deps r = (if list_ex (rejected_test ?C) (t_deps old)
      then map (\<lambda>i. if rejected_test ?C i then t_id t' else i) (t_deps old) else t_deps old)"
    using old(2) t'(2,3) assms(4) same dist
    by (auto simp: needs_repair_def repaired_row_def repaired_deps_def list_ex_iff)
  moreover have "r = old\<lparr>t_deps := t_deps r, t_updated := t_updated r\<rparr>"
    using old(2) by (cases old) (auto simp: repaired_row_def)
  ultimately show ?thesis using t' old(1) same
    by (intro bexI[of _ old]) (auto simp: list_ex_iff split: if_splits)
qed

text \<open>The limits of the repair: a test that waited for a rejected test, and any subtask that waits
  for a rejected test that covers another one, keeps the dependency and is never dispatched.\<close>

lemma uncovered_dependency_stays:
  assumes "uniq task_conflict (db_tasks d)" and "r \<in> set (child_rows pid d)"
    and "i \<in> set (t_deps r)" and "rejected_test (child_rows pid d) i"
    and "t_phase r = ''test'' \<or> \<not> (\<exists>t \<in> set (child_rows pid d). t_phase t = ''test'' \<and> t_id r \<in> set (t_tests_for t))"
  shows "r \<in> set (child_rows pid (repair_superseded_test_dependencies now pid d)) \<and> \<not> dependencies_met d (t_deps r)"
proof
  let ?C = "child_rows pid d"
  have "\<not> needs_repair (newest_rows ?C) r"
    using assms(5) by (auto simp: needs_repair_def completed_test_for_def split: option.splits dest!: find_Some_set)
  then show "r \<in> set (child_rows pid (repair_superseded_test_dependencies now pid d))"
    unfolding repair_rows[OF assms(1)] using assms(2) by force
  obtain s where "by_id ?C i = Some s" "t_status s = StatusRejected"
    using assms(4) by (auto simp: rejected_test_def split: option.splits)
  then have s: "s \<in> set (db_tasks d)" "t_id s = i" "t_status s = StatusRejected"
    using by_id_in by (fastforce simp: child_rows_def)+
  have "\<not> (\<exists>t \<in> set (db_tasks d). t_id t = i \<and> t_status t = StatusDone)"
    using tasks.uniq_eq[OF assms(1) _ s(1)] s(2,3) by (fastforce simp: task_conflict_def)
  then show "\<not> dependencies_met d (t_deps r)"
    using assms(3) dependencies_met_iff[OF assms(1)] by blast
qed

section \<open>Witnesses\<close>

definition readiness_env_sample :: readiness_env where
  "readiness_env_sample = \<lparr>re_gate = sample_gate, re_git = sample_git, re_default_branch = ''main'',
     re_skip_gate = True, re_order = rev\<rparr>"

definition family :: "task list \<Rightarrow> db" where
  "family subs = sample_db\<lparr>db_tasks := sample_task\<lparr>t_status := StatusInProgress\<rparr> # subs\<rparr>"

definition finished_family :: db where
  "finished_family = family [sample_owner ''a'' ''test'' [], sample_owner ''b'' ''implementation'' [''a'']]"

definition failing_family :: db where
  "failing_family = family [(sample_owner ''a'' ''test'' [])\<lparr>t_status := StatusFailed\<rparr>,
     (sample_owner ''b'' ''implementation'' [''a''])\<lparr>t_status := StatusBacklog\<rparr>]"

definition revised_family :: db where
  "revised_family = family [(sample_owner ''a'' ''test'' [])\<lparr>t_status := StatusRejected, t_tests_for := [''b'']\<rparr>,
     (sample_owner ''b'' ''implementation'' [''a''])\<lparr>t_status := StatusBacklog\<rparr>,
     (sample_owner ''a2'' ''test'' [])\<lparr>t_tests_for := [''b'']\<rparr>]"

lemmas family_defs = family_def finished_family_def failing_family_def revised_family_def sample_owner_def
  sample_task_def sample_db_def

lemma family_uniq:
  "uniq task_conflict (db_tasks finished_family)" "uniq task_conflict (db_tasks failing_family)"
  "uniq task_conflict (db_tasks revised_family)"
  by (simp_all add: family_defs uniq_def task_conflict_def)

lemma finished_ready: "pr_ready (evaluate_parent_readiness rev ''t1'' StatusTestingReady finished_family)"
  by code_simp

theorem parent_ready_iff_witness:
  "\<exists>s. required_for (child_rows ''t1'' finished_family) StatusTestingReady s"
  using parent_ready_iff[OF family_uniq(1), where order = rev and pid = "''t1''" and target = StatusTestingReady]
    finished_ready by (metis set_rev)

lemma finished_check:
  "t_status (fst (snd (check_feature_completion readiness_env_sample sample_fresh 9
     (sample_task\<lparr>t_status := StatusInProgress\<rparr>) finished_family))) = StatusTestingReady
   \<and> \<not> isl (fst (check_feature_completion readiness_env_sample sample_fresh 9
     (sample_task\<lparr>t_status := StatusInProgress\<rparr>) finished_family))"
  by code_simp

theorem testing_ready_sound_witness:
  "\<exists>tk d'. check_feature_completion readiness_env_sample sample_fresh 9
     (sample_task\<lparr>t_status := StatusInProgress\<rparr>) finished_family = (Inr (), tk, d')
   \<and> t_status tk = StatusTestingReady \<and> \<not> empty_feature readiness_env_sample (sample_task\<lparr>t_status := StatusInProgress\<rparr>)"
proof -
  let ?p = "sample_task\<lparr>t_status := StatusInProgress\<rparr>"
  obtain r tk d' where c: "check_feature_completion readiness_env_sample sample_fresh 9 ?p finished_family = (r, tk, d')"
    by (metis prod_cases3)
  have r: "r = Inr ()" "t_status tk = StatusTestingReady" using finished_check c by (cases r; simp)+
  have ord: "set (re_order readiness_env_sample xs) = set xs" for xs by (simp add: readiness_env_sample_def)
  have "t_status ?p \<noteq> StatusTestingReady" by simp
  from testing_ready_sound[OF family_uniq(1) ord c[unfolded r] this r(2)] c r show ?thesis by blast
qed

theorem failed_child_stops_siblings_witness:
  "\<exists>tk d'. check_feature_completion readiness_env_sample sample_fresh 9
     (sample_task\<lparr>t_status := StatusInProgress\<rparr>) failing_family = (Inr (), tk, d') \<and> t_status tk = StatusFailed"
proof -
  let ?p = "sample_task\<lparr>t_status := StatusInProgress\<rparr>"
  let ?f = "(sample_owner ''a'' ''test'' [])\<lparr>t_status := StatusFailed\<rparr>"
  have subs: "child_rows (t_id ?p) failing_family = [?f, (sample_owner ''b'' ''implementation'' [''a''])\<lparr>t_status := StatusBacklog\<rparr>]"
    by (simp add: child_rows_def family_defs)
  have kn: "\<forall>s \<in> set (child_rows (t_id ?p) failing_family). known_status (t_status s) \<and> t_id s \<noteq> uuid_Nil"
    unfolding subs by (simp add: known_status_def sample_owner_def uuid_Nil_def)
  have inj: "inj (sample_fresh ''cancel'')" by (auto simp: inj_def sample_fresh_def dest!: arg_cong[where f = length])
  have p: "?p \<in> set (db_tasks failing_family)" "t_status ?p = StatusInProgress" "t_id ?p \<noteq> uuid_Nil"
    "t_parent ?p \<noteq> Some (t_id ?p)" by (simp_all add: family_defs uuid_Nil_def)
  have fr: "\<forall>k. sample_fresh ''cancel'' k \<notin> te_id ` set (db_events failing_family)"
    "sample_fresh ''event'' 0 \<notin> te_id ` set (db_events failing_family) \<union> range (sample_fresh ''cancel'')"
    by (auto simp: family_defs sample_fresh_def)
  have f: "?f \<in> set (child_rows (t_id ?p) failing_family)" "has_failed (child_rows (t_id ?p) failing_family) ?f"
    unfolding subs by (simp_all add: has_failed_def)
  have "\<not> list_ex sibling_is_running (child_rows (t_id ?p) failing_family)"
    unfolding subs by (simp add: sibling_is_running_def sample_owner_def sample_task_def is_terminal_wave_status_def)
  with failed_child_stops_siblings[OF family_uniq(2) p kn fr(1) inj fr(2) f, of readiness_env_sample 9]
  show ?thesis by (simp only: if_False) blast
qed

theorem repair_replaces_rejected_tests_witness:
  "\<exists>r. r \<in> set (child_rows ''t1'' (repair_superseded_test_dependencies 9 ''t1'' revised_family))
     \<and> t_deps r = [''a2''] \<and> \<not> rejected_test (child_rows ''t1'' revised_family) ''a2''"
proof -
  let ?rows = "child_rows ''t1'' (repair_superseded_test_dependencies 9 ''t1'' revised_family)"
  let ?t = "(sample_owner ''a2'' ''test'' [])\<lparr>t_tests_for := [''b'']\<rparr>"
  have "map (\<lambda>r. (t_id r, t_phase r, t_deps r)) ?rows =
    [(''a'', ''test'', []), (''b'', ''implementation'', [''a2'']), (''a2'', ''test'', [])]"
    by code_simp
  then have "(''b'', ''implementation'', [''a2'']) \<in> set (map (\<lambda>r. (t_id r, t_phase r, t_deps r)) ?rows)" by simp
  then obtain r where r: "r \<in> set ?rows" "t_id r = ''b''" "t_phase r = ''implementation''" "t_deps r = [''a2'']" by auto
  have subs: "[] \<notin> t_id ` set (child_rows ''t1'' revised_family)" "?t \<in> set (child_rows ''t1'' revised_family)"
    by (auto simp: child_rows_def family_defs)
  have t: "t_phase ?t = ''test''" "t_status ?t = StatusDone" "t_id r \<in> set (t_tests_for ?t)" "t_phase r \<noteq> ''test''"
    using r by (simp_all add: sample_owner_def)
  from repair_replaces_rejected_tests[OF family_uniq(3) subs(1) r(1) t(4) subs(2) t(1-3)] r show ?thesis by auto
qed

end
