(* ===== verification/TestReviewProperties.thy ===== *)
theory TestReviewProperties
  imports TestReview ReadinessProperties
begin

text \<open>
  What a rejection of the written tests does: revisions keep the key of their title, every rejected
  test is replaced in its lane and no longer counts as active, and the third rejection by a person
  pauses the task.
\<close>

section \<open>Title keys\<close>

lemma last_index_None_iff: "last_index sub s = None \<longleftrightarrow> (\<forall>i < length s. \<not> has_prefix sub (drop i s))"
  by (auto simp: last_index_def find_None_iff_set)

lemma find_rev_greatest:
  "List.find P (rev [0..<n]) = Some i \<longleftrightarrow> i < n \<and> P i \<and> (\<forall>j < n. i < j \<longrightarrow> \<not> P j)"
proof (induction n)
  case (Suc n)
  then show ?case by (auto simp: less_Suc_eq)
qed simp

lemma last_index_Some_iff:
  "last_index sub s = Some i \<longleftrightarrow>
     i < length s \<and> has_prefix sub (drop i s) \<and> (\<forall>j < length s. i < j \<longrightarrow> \<not> has_prefix sub (drop j s))"
  by (simp add: last_index_def find_rev_greatest)

lemma digit_not_mark: "is_digit c \<Longrightarrow> c \<noteq> CHR '' '' \<and> c \<noteq> CHR '')'' \<and> c \<noteq> CHR ''(''"
  by (auto simp: is_digit_def)

text \<open>The marker does not occur again after its own start in a revision suffix.\<close>

lemma mark_last:
  assumes "ds \<noteq> []" "list_all is_digit ds"
  shows "last_index revision_mark (title @ revision_mark @ ds @ '')'') = Some (length title)"
proof -
  let ?s = "revision_mark @ ds @ '')''"
  have lm: "length revision_mark = 11" by (simp add: revision_mark_def)
  have "\<not> has_prefix revision_mark (drop j ?s)" if j: "0 < j" "j < length ?s" for j
  proof
    assume "has_prefix revision_mark (drop j ?s)"
    then obtain r where r: "drop j ?s = revision_mark @ r" by (auto simp: has_prefix_iff)
    have space: "?s ! j = CHR '' ''" and paren: "?s ! Suc j = CHR ''(''" and len: "Suc j < length ?s"
      using arg_cong[OF r, of "\<lambda>x. x ! 0"] arg_cong[OF r, of "\<lambda>x. x ! 1"] arg_cong[OF r, of length] j
      by (auto simp: revision_mark_def)
    have dig: "c \<noteq> CHR '' '' \<and> c \<noteq> CHR ''(''" if "c \<in> set (ds @ '')'')" for c
      using that assms(2) digit_not_mark by (auto simp: list_all_iff)
    show False
    proof (cases "j < 11")
      case True
      then have "j = 10" using j(1) space by (auto simp: revision_mark_def nth_append less_Suc_eq numeral_eq_Suc)
      then have "?s ! Suc j = (ds @ '')'') ! 0" by (simp add: revision_mark_def nth_append)
      with paren dig[of "(ds @ '')'') ! 0"] show False by (metis append_is_Nil_conv assms(1) length_greater_0_conv nth_mem)
    next
      case False
      then have "?s ! j = (ds @ '')'') ! (j - 11)" "j - 11 < length (ds @ '')'')"
        using j lm by (simp_all add: nth_append)
      with space dig[of "(ds @ '')'') ! (j - 11)"] show False by (metis nth_mem)
    qed
  qed
  then have later: "\<not> has_prefix revision_mark (drop j (title @ ?s))" if "j < length (title @ ?s)" "length title < j" for j
    using that by (simp only: drop_append drop_all append_Nil less_imp_le length_append) (simp add: algebra_simps)
  show ?thesis unfolding last_index_Some_iff
  proof (intro conjI allI impI)
    show "has_prefix revision_mark (drop (length title) (title @ ?s))" by simp
  qed (use later lm in simp_all)
qed

lemma title_key_revision:
  assumes "ds \<noteq> []" "list_all is_digit ds"
  shows "test_writing_title_key (title @ revision_mark @ ds @ '')'') = test_writing_title_key title"
  by (subst test_writing_title_key.simps)
    (simp add: mark_last[OF assms] assms Let_def has_suffix_def has_prefix_iff butlast_append)

lemma title_key_fixpoint: "test_writing_title_key (test_writing_title_key title) = test_writing_title_key title"
proof (induction title rule: test_writing_title_key.induct)
  case (1 title)
  show ?case
  proof (cases "last_index revision_mark title")
    case None
    then have "test_writing_title_key title = title" by (simp add: test_writing_title_key.simps)
    then show ?thesis by simp
  next
    case (Some i)
    let ?r = "butlast (drop (i + length revision_mark) title)"
    show ?thesis
    proof (cases "\<not> has_suffix '')'' title \<or> ?r = [] \<or> \<not> list_all is_digit ?r")
      case True
      then have "test_writing_title_key title = title" using Some by (simp add: test_writing_title_key.simps Let_def)
      then show ?thesis by simp
    next
      case False
      then have "test_writing_title_key title = test_writing_title_key (take i title)"
        using Some by (subst test_writing_title_key.simps) (simp add: Let_def)
      with 1[OF Some refl False] show ?thesis by simp
    qed
  qed
qed

lemma show_nat_digits: "show_nat n \<noteq> [] \<and> list_all is_digit (show_nat n)"
proof (induction n rule: show_nat.induct)
  case (1 n)
  have "is_digit (char_of (48 + k))" if "k < 10" for k :: nat
    using that by (simp add: is_digit_def of_char_of)
  with 1 show ?case by (subst (1 2) show_nat.simps) auto
qed

lemma title_revision_key:
  assumes "0 \<le> n"
  shows "test_writing_title_key (revision_title title n) = test_writing_title_key title"
  using assms title_key_revision[of "show_nat (nat n)" "test_writing_title_key title"] show_nat_digits[of "nat n"]
  by (simp add: revision_title_def show_int_def revision_mark_def title_key_fixpoint)

text \<open>A revision keeps the key of its title, so revisions of one test stay together and do not
  nest: the title of a revision of a revision is the title of a revision of the original.\<close>

theorem revision_title_roundtrip:
  assumes "0 \<le> m" and "0 \<le> n"
  shows "test_writing_title_key (revision_title title n) = test_writing_title_key title
    \<and> revision_title (revision_title title m) n = revision_title title n"
proof
  show "revision_title (revision_title title m) n = revision_title title n"
    by (simp only: revision_title_def[of _ n] title_revision_key[OF assms(1)])
qed (rule title_revision_key[OF assms(2)])

section \<open>Invalidated tests\<close>

definition invalidated_test :: "time \<Rightarrow> task_status \<Rightarrow> json_field \<Rightarrow> task \<Rightarrow> task" where
  "invalidated_test now st ctx r = r\<lparr>t_status := st, t_version := t_version r + 1, t_agent := None,
     t_context := ctx, t_updated := now\<rparr>"

lemma row_eq:
  fixes d :: db
  assumes "uniq task_conflict (db_tasks d)" "r \<in> set (db_tasks d)" "s \<in> set (db_tasks d)" "t_id r = t_id s"
  shows "r = s"
  by (rule load_task_row[OF assms(1) load_task_unique[OF assms(1,3)] assms(2,4)])

lemma invalidate_effect:
  assumes "cas_invalidate_completed_test_subtask eid now tk target actor reason refs d = (tk', Inr d')"
    and "uniq task_conflict (db_tasks d)" and "s \<in> set (db_tasks d)" and "tk = s\<lparr>t_context := ctx\<rparr>"
  shows "tk' = invalidated_test now target ctx s
    \<and> db_tasks d' = map (\<lambda>r. if r = s then invalidated_test now target ctx s else r) (db_tasks d)
    \<and> t_status s = StatusDone"
proof -
  from assms(1) obtain tk1 ev where g: "guarded_invalidate_completed_test_subtask eid now (Some tk)
      \<lparr>req_target = target, req_actor = actor, req_expected = StatusDone, req_observed = None,
       req_evidence = \<lparr>ev_task = t_id tk, ev_attempt = uuid_Nil, ev_actor = actor,
         ev_source = ''review_gate'', ev_reason = reason, ev_normalized = [],
         ev_timestamp = now, ev_references = refs\<rparr>\<rparr> = Inr (tk1, ev)"
    by (auto simp: cas_invalidate_completed_test_subtask_def split: sum.splits)
  then have t: "tk1 = tk\<lparr>t_status := target, t_updated := now\<rparr>" and dn: "t_status tk = StatusDone"
    by (auto simp: guarded_invalidate_completed_test_subtask_def guarded_unchecked_def transition_task_unchecked_at_def
        evidence_timestamp_def res_simps split: if_splits)
  have row: "cas_match tk StatusDone r \<longleftrightarrow> r = s" if "r \<in> set (db_tasks d)" for r
    using row_eq[OF assms(2) that assms(3)] assms(4) dn by (auto simp: cas_match_def)
  define tk2 where "tk2 = tk1\<lparr>t_version := t_version tk + 1, t_agent := None\<rparr>"
  have tk2: "tk2 = invalidated_test now target ctx s" by (simp add: tk2_def t assms(4) invalidated_test_def)
  let ?f = "\<lambda>row. row\<lparr>t_status := t_status tk2, t_version := t_version tk2, t_agent := None,
                   t_context := t_context tk2, t_updated := t_updated tk2\<rparr>"
  have new: "?f s = invalidated_test now target ctx s" by (simp add: tk2 invalidated_test_def)
  have "tk' = tk2" and "db_tasks d' = map (\<lambda>row. if cas_match tk StatusDone row then ?f row else row) (db_tasks d)"
    using assms(1) unfolding cas_invalidate_completed_test_subtask_def g sum.case prod.case tk2_def[symmetric]
    by (auto simp: tbl_update_def Let_def split: sum.splits if_splits)
  then show ?thesis using tk2 dn assms(4) new row by (auto intro: map_cong)
qed

lemma map_row_uniq:
  assumes "uniq task_conflict rows" "\<And>r. r \<in> set rows \<Longrightarrow> t_id (f r) = t_id r"
  shows "uniq task_conflict (map f rows)"
proof -
  have "map t_id (map f rows) = map t_id rows" using assms(2) by simp
  with assms(1) show ?thesis unfolding uniq_tasks_distinct by metis
qed

lemma invalidated_id [simp]: "t_id (invalidated_test now st ctx r) = t_id r" "t_parent (invalidated_test now st ctx r) = t_parent r"
  "t_status (invalidated_test now st ctx r) = st"
  by (simp_all add: invalidated_test_def)

text \<open>A row the automated reviewer failed, and a row a person rejected.\<close>

definition failed_test :: "time \<Rightarrow> string \<Rightarrow> task \<Rightarrow> task" where
  "failed_test now feedback r = invalidated_test now StatusFailed (failure_context feedback (t_context r)) r"

definition rejected_row :: "time \<Rightarrow> task \<Rightarrow> task" where
  "rejected_row now r = invalidated_test now StatusRejected (t_context r) r"

lemma fail_tests_effect:
  assumes "fail_tests fr now actor feedback sources k ss d = Inr (c, d')"
    and "uniq task_conflict (db_tasks d)" "set ss \<subseteq> set (db_tasks d)" "distinct ss"
  shows "db_tasks d' = map (\<lambda>r. if r \<in> set ss \<and> t_id r \<in> set sources then failed_test now feedback r else r) (db_tasks d)
    \<and> uniq task_conflict (db_tasks d')"
  using assms
proof (induction ss arbitrary: k d c)
  case (Cons s ss)
  have s: "s \<in> set (db_tasks d)" "set ss \<subseteq> set (db_tasks d)" "distinct ss" "s \<notin> set ss"
    using Cons.prems(3,4) by auto
  show ?case
  proof (cases "t_id s \<in> set sources")
    case False
    with Cons.prems(1) have "fail_tests fr now actor feedback sources (Suc k) ss d = Inr (c, d')" by simp
    from Cons.IH[OF this Cons.prems(2) s(2,3)] False show ?thesis by (auto intro: map_cong)
  next
    case True
    with Cons.prems(1) obtain s' d1 c1 where cas: "cas_fail_completed_test_subtask (fr ''invalidate'' k) now (s\<lparr>t_context := failure_context feedback (t_context s)\<rparr>)
              actor [(''action'', GStr ''automated_test_review_rejected''), (''feedback'', GStr feedback)] d = (s', Inr d1)"
        and rest: "fail_tests fr now actor feedback sources (Suc k) ss d1 = Inr (c1, d')"
      by (auto simp: map_sum_def split: sum.splits prod.splits)
    from invalidate_effect[OF cas[unfolded cas_fail_completed_test_subtask_def] Cons.prems(2) s(1) refl]
    have d1: "db_tasks d1 = map (\<lambda>r. if r = s then failed_test now feedback s else r) (db_tasks d)"
      by (simp add: failed_test_def)
    have u1: "uniq task_conflict (db_tasks d1)" unfolding d1 by (rule map_row_uniq[OF Cons.prems(2)]) (simp add: failed_test_def)
    have sub: "set ss \<subseteq> set (db_tasks d1)" using s by (auto simp: d1)
    have new: "failed_test now feedback s \<notin> set ss"
      using row_eq[OF Cons.prems(2) _ s(1), of "failed_test now feedback s"] s by (auto simp: failed_test_def)
    from Cons.IH[OF rest u1 sub s(3)] show ?thesis
      unfolding d1 map_map comp_def using True new s(4) by (auto intro!: map_cong)
  qed
qed simp

definition is_replacement :: "time \<Rightarrow> int \<Rightarrow> string \<Rightarrow> task \<Rightarrow> task \<Rightarrow> bool" where
  "is_replacement now n feedback s r \<longleftrightarrow> (\<exists>i. r = replacement_test i now n feedback (rejected_row now s))"

lemma reject_tests_effect:
  assumes "reject_tests fr now actor feedback n sources k ss d = Inr (c, d')"
    and "uniq task_conflict (db_tasks d)" "set ss \<subseteq> set (db_tasks d)" "distinct ss"
  shows "uniq task_conflict (db_tasks d') \<and> (\<exists>reps.
      db_tasks d' = map (\<lambda>r. if r \<in> set ss then rejected_row now r else r) (db_tasks d) @ reps
      \<and> list_all2 (is_replacement now n feedback) (filter (\<lambda>s. t_id s \<in> set sources) ss) reps)"
  using assms
proof (induction ss arbitrary: k d c)
  case (Cons s ss)
  have s: "s \<in> set (db_tasks d)" "set ss \<subseteq> set (db_tasks d)" "distinct ss" "s \<notin> set ss"
    using Cons.prems(3,4) by auto
  let ?next = "reject_tests fr now actor feedback n sources (Suc k) ss"
  obtain s' d1 where cas: "cas_supersede_completed_test_subtask (fr ''invalidate'' k) now s actor
             [(''action'', GStr ''test_review_rejected''), (''feedback'', GStr feedback)] d = (s', Inr d1)"
    using Cons.prems(1) by (auto split: prod.splits sum.splits)
  from invalidate_effect[OF cas[unfolded cas_supersede_completed_test_subtask_def] Cons.prems(2) s(1), of "t_context s"]
  have s': "s' = rejected_row now s" and d1: "db_tasks d1 = map (\<lambda>r. if r = s then rejected_row now s else r) (db_tasks d)"
    by (simp_all add: rejected_row_def)
  have u1: "uniq task_conflict (db_tasks d1)" unfolding d1 by (rule map_row_uniq[OF Cons.prems(2)]) (simp add: rejected_row_def)
  have sub: "set ss \<subseteq> set (db_tasks d1)" using s by (auto simp: d1)
  have new: "rejected_row now s \<notin> set ss"
    using row_eq[OF Cons.prems(2) _ s(1), of "rejected_row now s"] s by (auto simp: rejected_row_def)
  have step: "map (\<lambda>r. if r \<in> set ss then rejected_row now r else r) (db_tasks d1) =
      map (\<lambda>r. if r \<in> set (s # ss) then rejected_row now r else r) (db_tasks d)"
    unfolding d1 map_map comp_def using new s(4) by (auto intro!: map_cong)
  show ?case
  proof (cases "t_id s \<in> set sources")
    case False
    then have "?next d1 = Inr (c, d')" using Cons.prems(1) cas by simp
    from Cons.IH[OF this u1 sub s(3)] False show ?thesis unfolding step by simp
  next
    case True
    let ?r = "replacement_test (fr ''replacement'' k) now n feedback s'"
    from True obtain d2 c2 where mk: "create_task ?r d1 = Inr d2" and rest: "?next d2 = Inr (c2, d')"
      using Cons.prems(1) cas by (auto simp: res_simps map_sum_def split: sum.splits prod.splits)
    from mk have d2: "db_tasks d2 = db_tasks d1 @ [?r]" and fresh: "\<And>x. x \<in> set (db_tasks d1) \<Longrightarrow> t_id x \<noteq> t_id ?r"
      by (auto simp: create_task_def res_simps task_conflict_def)
    have "t_id ?r \<notin> t_id ` set (db_tasks d1)"
    proof
      assume "t_id ?r \<in> t_id ` set (db_tasks d1)"
      then obtain x where "t_id ?r = t_id x" "x \<in> set (db_tasks d1)" by (rule imageE)
      then show False using fresh[of x] by (rule_tac notE) (assumption, rule sym)
    qed
    then have u2: "uniq task_conflict (db_tasks d2)" using u1 unfolding uniq_tasks_distinct d2 by simp
    have sub2: "set ss \<subseteq> set (db_tasks d2)" using sub by (auto simp: d2)
    have "?r \<notin> set ss" using fresh sub by blast
    with Cons.IH[OF rest u2 sub2 s(3)] obtain reps where IH: "uniq task_conflict (db_tasks d')"
        "db_tasks d' = map (\<lambda>r. if r \<in> set ss then rejected_row now r else r) (db_tasks d1) @ ?r # reps"
        "list_all2 (is_replacement now n feedback) (filter (\<lambda>s. t_id s \<in> set sources) ss) reps"
      by (auto simp: d2)
    have "is_replacement now n feedback s ?r" unfolding is_replacement_def s' by blast
    then show ?thesis using IH True unfolding step by (intro conjI exI[of _ "?r # reps"]) simp_all
  qed
qed simp

section \<open>Selected sources\<close>

lemma selected_fold:
  "fold (\<lambda>s acc. if f s \<noteq> lane then acc else case acc of None \<Rightarrow> Some s | Some x \<Rightarrow> if g s x then Some s else acc) subs acc = r
   \<Longrightarrow> (\<exists>s \<in> set subs. f s = lane) \<or> acc \<noteq> None
   \<Longrightarrow> (\<And>x. acc = Some x \<Longrightarrow> f x = lane \<and> P x) \<Longrightarrow> (\<And>x. x \<in> set subs \<Longrightarrow> P x)
   \<Longrightarrow> \<exists>x. r = Some x \<and> f x = lane \<and> P x"
proof (induction subs arbitrary: acc)
  case Nil
  then show ?case by (cases acc) auto
next
  case (Cons s subs)
  let ?acc = "if f s \<noteq> lane then acc else case acc of None \<Rightarrow> Some s | Some x \<Rightarrow> if g s x then Some s else acc"
  show ?case
    by (rule Cons.IH[of ?acc]) (use Cons.prems in \<open>auto split: option.splits if_splits\<close>)
qed

lemma selected_source_of:
  assumes "s \<in> set subs"
  shows "\<exists>x \<in> set subs. t_id x \<in> set (replacement_source_ids subs) \<and> replacement_lane_key subs x = replacement_lane_key subs s"
proof -
  obtain x where x: "selected_source subs (replacement_lane_key subs s) = Some x"
      "replacement_lane_key subs x = replacement_lane_key subs s" "x \<in> set subs"
    using selected_fold[of "replacement_lane_key subs" "replacement_lane_key subs s" source_newer subs None _ "\<lambda>x. x \<in> set subs"] assms
    unfolding selected_source_def by blast
  then have "t_id x \<in> set (replacement_source_ids subs)"
    using assms by (force simp: replacement_source_ids_def List.map_filter_def)
  with x show ?thesis by blast
qed

section \<open>The move of the task\<close>

definition moved_row :: "time \<Rightarrow> task_status \<Rightarrow> json_field \<Rightarrow> task \<Rightarrow> task" where
  "moved_row now target ctx s = s\<lparr>t_status := target, t_version := t_version s + 1, t_context := ctx, t_updated := now\<rparr>"

lemma moved_row_simps [simp]:
  "t_id (moved_row now target ctx s) = t_id s" "t_parent (moved_row now target ctx s) = t_parent s"
  "t_status (moved_row now target ctx s) = target" "t_version (moved_row now target ctx s) = t_version s + 1"
  "t_context (moved_row now target ctx s) = ctx"
  by (simp_all add: moved_row_def)

lemma cas_row_effect:
  assumes "cas_task_transition eid now (s\<lparr>t_context := ctx\<rparr>) expected target actor source reason refs d = (tk', Inr d')"
    and "uniq task_conflict (db_tasks d)" "s \<in> set (db_tasks d)" "t_status s = expected"
  shows "tk' = moved_row now target ctx s
    \<and> db_tasks d' = map (\<lambda>r. if r = s then moved_row now target ctx s else r) (db_tasks d)
    \<and> uniq task_conflict (db_tasks d')"
proof -
  note eff = cas_task_transition_Inr[OF assms(1)]
  have tk': "tk' = moved_row now target ctx s" using eff(2) by (simp add: moved_row_def)
  have row: "cas_match (s\<lparr>t_context := ctx\<rparr>) expected r \<longleftrightarrow> r = s" if "r \<in> set (db_tasks d)" for r
    using row_eq[OF assms(2) that assms(3)] assms(4) by (auto simp: cas_match_def)
  have self: "task_transition_columns (moved_row now target ctx s) s = moved_row now target ctx s"
    by (cases s) (simp add: task_transition_columns_def moved_row_def)
  have t: "db_tasks d' = map (\<lambda>r. if r = s then moved_row now target ctx s else r) (db_tasks d)"
    using eff(4) row self by (auto simp: cas_rows_def tk' intro!: map_cong)
  moreover have "uniq task_conflict (db_tasks d')" unfolding t by (rule map_row_uniq[OF assms(2)]) simp
  ultimately show ?thesis using tk' by blast
qed

lemma moved_in: "s \<in> set rows \<Longrightarrow> moved_row now target ctx s \<in> set (map (\<lambda>r. if r = s then moved_row now target ctx s else r) rows)"
  by (auto simp: image_iff)

section \<open>Counting\<close>

definition context_count :: "json_field \<Rightarrow> int" where
  "context_count ctx = (case json_get ctx ''test_rejection_count'' of Some (GFloat q) \<Rightarrow> trunc_rat q | _ \<Rightarrow> 0)"

lemma rejection_count_context: "rejection_count tk = context_count (t_context tk)"
  by (simp add: rejection_count_def context_count_def)

lemma counted_rejection_eq:
  "\<exists>ctx. counted_rejection feedback tk = tk\<lparr>t_context := ctx\<rparr> \<and> context_count ctx = rejection_count tk + 1"
  by (rule exI[of _ "t_context (counted_rejection feedback tk)"])
    (simp add: counted_rejection_def Let_def context_count_def trunc_rat_of_int)

lemma failure_context_count [simp]: "context_count (failure_context feedback ctx) = context_count ctx"
  by (simp add: failure_context_def context_count_def)

text \<open>The rows of the three outcomes.\<close>

lemma done_tests_rows: "set (done_tests tid d) \<subseteq> set (db_tasks d)" "uniq task_conflict (db_tasks d) \<Longrightarrow> distinct (done_tests tid d)"
  by (auto simp: done_tests_def child_rows_def distinct_map uniq_tasks_distinct)

lemma done_tests_in:
  assumes "uniq task_conflict (db_tasks d)"
  shows "set (done_tests tid d) \<subseteq> set (db_tasks d)" "distinct (done_tests tid d)"
  using assms done_tests_rows by blast+

lemma swap_Inr:
  "(case x of (_, Inl e) \<Rightarrow> Inl e | (t, Inr d) \<Rightarrow> Inr (t, d)) = Inr (t', d') \<longleftrightarrow> x = (t', Inr d')"
  by (cases x; cases "snd x") auto

lemma revision_rejection_effect:
  assumes "revision_rejection fr now actor feedback (s\<lparr>t_context := ctx\<rparr>) d = Inr (tk', d')"
    and "uniq task_conflict (db_tasks d)" "s \<in> set (db_tasks d)" "t_status s = StatusTestReview"
  obtains reps where "uniq task_conflict (db_tasks d')" "moved_row now StatusTestWriting ctx s \<in> set (db_tasks d')"
    "db_tasks d' = map (\<lambda>r. if r = s then moved_row now StatusTestWriting ctx s else r)
       (map (\<lambda>r. if r \<in> set (done_tests (t_id s) d) then rejected_row now r else r) (db_tasks d) @ reps)"
    "list_all2 (is_replacement now (context_count ctx) feedback)
       (filter (\<lambda>x. t_id x \<in> set (replacement_source_ids (done_tests (t_id s) d))) (done_tests (t_id s) d)) reps"
proof -
  let ?subs = "done_tests (t_id s) d"
  from assms(1) obtain c d1 refs where rt: "reject_tests fr now actor feedback (context_count ctx) (replacement_source_ids ?subs) 0 ?subs d = Inr (c, d1)"
      and cas: "cas_task_transition (fr ''event'' 0) now (s\<lparr>t_context := ctx\<rparr>) StatusTestReview StatusTestWriting actor ''review_gate''
        ''test review rejected'' refs d1 = (tk', Inr d')"
    by (auto simp: revision_rejection_def res_simps rejection_count_context Let_def swap_Inr)
  from reject_tests_effect[OF rt assms(2) done_tests_in[OF assms(2)]] obtain reps where u1: "uniq task_conflict (db_tasks d1)"
      and d1: "db_tasks d1 = map (\<lambda>r. if r \<in> set ?subs then rejected_row now r else r) (db_tasks d) @ reps"
      and reps: "list_all2 (is_replacement now (context_count ctx) feedback) (filter (\<lambda>x. t_id x \<in> set (replacement_source_ids ?subs)) ?subs) reps"
    by blast
  have "s \<notin> set ?subs" using assms(4) by (simp add: done_tests_def)
  then have "s \<in> set (db_tasks d1)" using assms(3) by (auto simp: d1 image_iff)
  from cas_row_effect[OF cas u1 this assms(4)] moved_in[OF this]
  have "uniq task_conflict (db_tasks d')" "db_tasks d' = map (\<lambda>r. if r = s then moved_row now StatusTestWriting ctx s else r) (db_tasks d1)"
    "moved_row now StatusTestWriting ctx s \<in> set (db_tasks d')" by auto
  then show ?thesis using that[OF _ _ _ reps] unfolding d1 by blast
qed

lemma automated_rejection_effect:
  assumes "automated_rejection fr now actor feedback (s\<lparr>t_context := ctx\<rparr>) d = Inr (tk', d')"
    and "uniq task_conflict (db_tasks d)" "s \<in> set (db_tasks d)" "t_status s = StatusTestReview"
  shows "uniq task_conflict (db_tasks d') \<and> moved_row now StatusFailed (failure_context feedback ctx) s \<in> set (db_tasks d')"
proof -
  let ?subs = "done_tests (t_id s) d"
  from assms(1) obtain c d1 refs where ft: "fail_tests fr now actor feedback (replacement_source_ids ?subs) 0 ?subs d = Inr (c, d1)"
      and cas: "cas_task_transition (fr ''event'' 0) now (s\<lparr>t_context := failure_context feedback ctx\<rparr>) StatusTestReview StatusFailed actor
        ''review_gate'' ''automated test review requires Codex correction'' refs d1 = (tk', Inr d')"
    by (auto simp: automated_rejection_def res_simps Let_def swap_Inr)
  from fail_tests_effect[OF ft assms(2) done_tests_in[OF assms(2)]]
  have d1: "db_tasks d1 = map (\<lambda>r. if r \<in> set ?subs \<and> t_id r \<in> set (replacement_source_ids ?subs) then failed_test now feedback r else r) (db_tasks d)"
    and u1: "uniq task_conflict (db_tasks d1)" by blast+
  have "s \<notin> set ?subs" using assms(4) by (simp add: done_tests_def)
  then have "s \<in> set (db_tasks d1)" using assms(3) by (auto simp: d1 image_iff)
  from cas_row_effect[OF cas u1 this assms(4)] moved_in[OF this, of now StatusFailed "failure_context feedback ctx"]
  show ?thesis by metis
qed

lemma diagnostic_rejection_effect:
  assumes "diagnostic_rejection fr now actor (s\<lparr>t_context := ctx\<rparr>) d = Inr (tk', d')"
    and "uniq task_conflict (db_tasks d)" "s \<in> set (db_tasks d)" "t_status s = StatusTestReview"
  shows "\<exists>ctx'. context_count ctx' = context_count ctx \<and> tk' = moved_row now StatusPaused ctx' (moved_row now StatusTestWriting ctx s)
    \<and> uniq task_conflict (db_tasks d') \<and> tk' \<in> set (db_tasks d')"
proof -
  define s1 where "s1 = moved_row now StatusTestWriting ctx s"
  define ctx' where "ctx' = json_put ''diagnostic_required'' (GBool True)
                  (json_put ''paused_from'' (GStr (task_status_string StatusTestWriting)) ctx)"
  from assms(1) obtain tk1 d1 where c1: "cas_task_transition (fr ''event'' 0) now (s\<lparr>t_context := ctx\<rparr>) StatusTestReview StatusTestWriting actor
        ''review_gate'' ''test review rejection threshold reached'' [] d = (tk1, Inr d1)"
      and c2: "cas_task_transition (fr ''event'' 1) now (tk1\<lparr>t_context := json_put ''diagnostic_required'' (GBool True)
                  (json_put ''paused_from'' (GStr (task_status_string StatusTestWriting)) (t_context tk1))\<rparr>)
               StatusTestWriting StatusPaused actor ''review_gate'' ''test rejection diagnostic required'' [] d1 = (tk', Inr d')"
    by (auto simp: diagnostic_rejection_def split: sum.splits prod.splits)
  from cas_row_effect[OF c1 assms(2-4)] have tk1: "tk1 = s1" and u1: "uniq task_conflict (db_tasks d1)"
      and d1: "db_tasks d1 = map (\<lambda>r. if r = s then s1 else r) (db_tasks d)" unfolding s1_def by blast+
  have s1: "s1 \<in> set (db_tasks d1)" using moved_in[OF assms(3)] unfolding d1 s1_def by blast
  have st: "t_status s1 = StatusTestWriting" by (simp add: s1_def)
  have c2': "cas_task_transition (fr ''event'' 1) now (s1\<lparr>t_context := ctx'\<rparr>)
               StatusTestWriting StatusPaused actor ''review_gate'' ''test rejection diagnostic required'' [] d1 = (tk', Inr d')"
    using c2 by (simp add: tk1 ctx'_def s1_def)
  have "context_count ctx' = context_count ctx" by (simp add: ctx'_def context_count_def)
  with cas_row_effect[OF c2' u1 s1 st] moved_in[OF s1, of now StatusPaused ctx'] show ?thesis
    unfolding s1_def[symmetric] by (intro exI[of _ ctx']) auto
qed

section \<open>Outcomes\<close>

text \<open>Every rejection counts one round and has one of three outcomes: the automated reviewer fails the
  task, the third rejection pauses it for a diagnosis, and before that it returns to test writing.  So a
  person can send the tests back at most twice before the task stops.\<close>

theorem test_rejection_outcome:
  assumes "handle_test_review_rejected fr now tid feedback actor d = (Inr (), d')"
    and "load_task tid d = Inr tk" and "uniq task_conflict (db_tasks d)"
  shows "\<exists>tk'. load_task tid d' = Inr tk' \<and> rejection_count tk' = rejection_count tk + 1
    \<and> t_status tk' = (if actor = automated_review_actor then StatusFailed
         else if 3 \<le> rejection_count tk + 1 then StatusPaused else StatusTestWriting)"
proof -
  from load_task_Inr[OF assms(2)] have tk: "tk \<in> set (db_tasks d)" "t_id tk = tid" by auto
  obtain ctx where c: "counted_rejection feedback tk = tk\<lparr>t_context := ctx\<rparr>" "context_count ctx = rejection_count tk + 1"
    using counted_rejection_eq by blast
  have count: "rejection_count (counted_rejection feedback tk) = rejection_count tk + 1"
    using c by (simp add: rejection_count_context)
  have st: "t_status tk = StatusTestReview"
    using assms(1,2) by (auto simp: handle_test_review_rejected_def split: if_splits)
  have found: "\<exists>tk'. load_task tid d' = Inr tk' \<and> rejection_count tk' = n \<and> t_status tk' = s"
    if "uniq task_conflict (db_tasks d')" "r \<in> set (db_tasks d')" "t_id r = tid" "context_count (t_context r) = n" "t_status r = s" for r n s
    using load_task_unique[OF that(1,2)] that by (auto simp: rejection_count_context)
  note h = assms(1)[unfolded handle_test_review_rejected_def assms(2) sum.case, folded c(1)]
  show ?thesis
  proof (cases "actor = automated_review_actor")
    case True
    then obtain tk' where "automated_rejection fr now actor feedback (tk\<lparr>t_context := ctx\<rparr>) d = Inr (tk', d')"
      using h st by (auto simp: c(1) Let_def split: sum.splits)
    from automated_rejection_effect[OF this assms(3) tk(1) st] show ?thesis
      using True tk(2) c(2) by (intro found[of "moved_row now StatusFailed (failure_context feedback ctx) tk"]) auto
  next
    case human: False
    show ?thesis
    proof (cases "3 \<le> rejection_count tk + 1")
      case True
      then obtain tk1 d1 where "diagnostic_rejection fr now actor (tk\<lparr>t_context := ctx\<rparr>) d = Inr (tk1, d1)"
          and d': "d' = snd (spawn_diagnostic_agent now tk1 d1)"
        using h st human count by (auto simp: c(1) Let_def max_plan_rejections_def split: sum.splits)
      from diagnostic_rejection_effect[OF this(1) assms(3) tk(1) st] obtain ctx' where e: "context_count ctx' = context_count ctx"
          "tk1 = moved_row now StatusPaused ctx' (moved_row now StatusTestWriting ctx tk)"
          "uniq task_conflict (db_tasks d1)" "tk1 \<in> set (db_tasks d1)" by blast
      let ?r = "tk1\<lparr>t_context := json_put ''diagnostic_prompt'' (GStr (diagnostic_prompt tk1 d1)) (t_context tk1), t_updated := now\<rparr>"
      have rows: "db_tasks d' = map (\<lambda>r. if t_id r = t_id tk1 then ?r else r) (db_tasks d1)"
        using e(4) by (auto simp: d' spawn_diagnostic_agent_def save_task_def Let_def list_ex_iff)
      have u: "uniq task_conflict (db_tasks d')" unfolding rows by (rule map_row_uniq[OF e(3)]) simp
      have "?r \<in> set (db_tasks d')" unfolding rows using e(4) by (auto simp: image_iff)
      from found[OF u this] human True e(1,2) c(2) tk(2) show ?thesis by (simp add: context_count_def)
    next
      case False
      then obtain tk' where "revision_rejection fr now actor feedback (tk\<lparr>t_context := ctx\<rparr>) d = Inr (tk', d')"
        using h st human count by (auto simp: c(1) Let_def max_plan_rejections_def split: sum.splits)
      from this assms(3) tk(1) st obtain "uniq task_conflict (db_tasks d')" "moved_row now StatusTestWriting ctx tk \<in> set (db_tasks d')"
        by (rule revision_rejection_effect)
      then show ?thesis using human False tk(2) c(2)
        by (intro found[of "moved_row now StatusTestWriting ctx tk"]) auto
    qed
  qed
qed

section \<open>Replacements\<close>

lemma newest_fold:
  assumes "fold (\<lambda>s acc. if f s \<noteq> key then acc
        else case acc of None \<Rightarrow> Some s | Some n \<Rightarrow> if t_created n < t_created s then Some s else acc) subs acc = r"
    and "\<And>x. acc = Some x \<Longrightarrow> P x" "\<And>x. x \<in> set subs \<Longrightarrow> P x"
    and "(\<exists>x. acc = Some x \<and> c \<le> t_created x) \<or> (\<exists>s \<in> set subs. f s = key \<and> c \<le> t_created s)"
  shows "\<exists>n. r = Some n \<and> P n \<and> c \<le> t_created n"
  using assms
proof (induction subs arbitrary: acc)
  case (Cons s subs)
  let ?acc = "if f s \<noteq> key then acc
        else case acc of None \<Rightarrow> Some s | Some n \<Rightarrow> if t_created n < t_created s then Some s else acc"
  show ?case
  proof (rule Cons.IH[of ?acc])
    show "(\<exists>x. ?acc = Some x \<and> c \<le> t_created x) \<or> (\<exists>s \<in> set subs. f s = key \<and> c \<le> t_created s)"
      using Cons.prems(4) by (cases acc) fastforce+
  qed (use Cons.prems(1-3) in \<open>auto split: if_splits option.splits\<close>)
qed auto

lemma newest_by_title_created:
  assumes "s \<in> set subs" "test_writing_title_key (t_title s) = key"
  shows "\<exists>n. newest_by_title subs key = Some n \<and> n \<in> set subs \<and> t_created s \<le> t_created n"
  unfolding newest_by_title_def
  by (rule newest_fold[OF refl]) (use assms in auto)

lemma list_all2_member: "list_all2 P xs ys \<Longrightarrow> x \<in> set xs \<Longrightarrow> \<exists>y \<in> set ys. P x y"
  by (induction rule: list_all2_induct) auto

lemma lane_key_base:
  assumes "replacement_lane_key subs s = replacement_lane_key subs x"
    and "CHR 0x00 \<notin> set (test_writing_title_key (t_title s))" "CHR 0x00 \<notin> set (test_writing_title_key (t_title x))"
  shows "test_writing_title_key (t_title s) = test_writing_title_key (t_title x)"
proof -
  have "\<exists>r. replacement_lane_key subs y = test_writing_title_key (t_title y) @ CHR 0x00 # r" for y
    by (simp add: replacement_lane_key_def Let_def)
  then obtain r r' where "test_writing_title_key (t_title s) @ CHR 0x00 # r = test_writing_title_key (t_title x) @ CHR 0x00 # r'"
    using assms(1) by metis
  moreover have "takeWhile (\<lambda>c. c \<noteq> CHR 0x00) (b @ CHR 0x00 # r) = b" if "CHR 0x00 \<notin> set b" for b r :: string
    using that by (induction b) auto
  ultimately show ?thesis using assms(2,3) by metis
qed

lemma replacement_simps [simp]:
  "t_parent (replacement_test i now n feedback s) = t_parent s" "t_status (replacement_test i now n feedback s) = StatusBacklog"
  "t_phase (replacement_test i now n feedback s) = t_phase s" "t_tests_for (replacement_test i now n feedback s) = t_tests_for s"
  "t_deps (replacement_test i now n feedback s) = t_deps s" "t_created (replacement_test i now n feedback s) = now"
  "t_title (replacement_test i now n feedback s) = revision_title (t_title s) n" "t_id (replacement_test i now n feedback s) = i"
  by (simp_all add: replacement_test_def)

lemma rejected_row_simps [simp]:
  "t_id (rejected_row now s) = t_id s" "t_parent (rejected_row now s) = t_parent s" "t_status (rejected_row now s) = StatusRejected"
  "t_phase (rejected_row now s) = t_phase s" "t_title (rejected_row now s) = t_title s" "t_deps (rejected_row now s) = t_deps s"
  "t_tests_for (rejected_row now s) = t_tests_for s" "t_created (rejected_row now s) = t_created s"
  by (simp_all add: rejected_row_def invalidated_test_def)

text \<open>C32: A rejection that returns to test writing rejects every finished test, and for every one of them a
  new backlog test exists: a revision of its title with the dependencies and the covered subtasks of the newest
  test of its lane.  No rejected test counts as active afterwards, so the rejected generation cannot fail the
  parent.\<close>

theorem rejection_replaces_tests:
  assumes "handle_test_review_rejected fr now tid feedback actor d = (Inr (), d')"
    and "load_task tid d = Inr tk" and "uniq task_conflict (db_tasks d)"
    and "actor \<noteq> automated_review_actor" and "0 \<le> rejection_count tk" and "rejection_count tk < 2"
    and "\<forall>c \<in> set (child_rows tid d). CHR 0x00 \<notin> set (test_writing_title_key (t_title c)) \<and> t_created c < now"
    and "s \<in> set (done_tests tid d)"
  shows "rejected_row now s \<in> set (child_rows tid d')
    \<and> (\<exists>x r. x \<in> set (done_tests tid d) \<and> replacement_lane_key (done_tests tid d) x = replacement_lane_key (done_tests tid d) s
        \<and> r \<in> set (child_rows tid d') \<and> t_status r = StatusBacklog \<and> t_phase r = ''test''
        \<and> t_title r = revision_title (t_title s) (rejection_count tk + 1) \<and> t_deps r = t_deps x \<and> t_tests_for r = t_tests_for x)
    \<and> rejected_row now s \<notin> set (active_test_writing_subtasks (filter (\<lambda>c. t_phase c = ''test'') (child_rows tid d')))"
proof -
  from load_task_Inr[OF assms(2)] have tk: "tk \<in> set (db_tasks d)" "t_id tk = tid" by auto
  obtain ctx where c: "counted_rejection feedback tk = tk\<lparr>t_context := ctx\<rparr>" "context_count ctx = rejection_count tk + 1"
    using counted_rejection_eq by blast
  have count: "rejection_count (counted_rejection feedback tk) = rejection_count tk + 1"
    using c by (simp add: rejection_count_context)
  have st: "t_status tk = StatusTestReview"
    using assms(1,2) by (auto simp: handle_test_review_rejected_def split: if_splits)
  let ?subs = "done_tests tid d" and ?n = "rejection_count tk + 1"
  note h = assms(1)[unfolded handle_test_review_rejected_def assms(2) sum.case]
  from h obtain tk' where "revision_rejection fr now actor feedback (tk\<lparr>t_context := ctx\<rparr>) d = Inr (tk', d')"
    using st assms(4,6) count by (auto simp: c(1) Let_def max_plan_rejections_def split: sum.splits if_splits)
  from this assms(3) tk(1) st obtain reps where u: "uniq task_conflict (db_tasks d')"
      and rows: "db_tasks d' = map (\<lambda>r. if r = tk then moved_row now StatusTestWriting ctx tk else r)
       (map (\<lambda>r. if r \<in> set ?subs then rejected_row now r else r) (db_tasks d) @ reps)"
      and reps: "list_all2 (is_replacement now ?n feedback) (filter (\<lambda>x. t_id x \<in> set (replacement_source_ids ?subs)) ?subs) reps"
    by (rule revision_rejection_effect) (use tk(2) c(2) in auto)
  have child: "x \<in> set (child_rows tid d) \<and> t_parent x = Some tid \<and> t_phase x = ''test'' \<and> t_status x = StatusDone \<and> x \<in> set (db_tasks d)"
    if "x \<in> set ?subs" for x using that by (auto simp: done_tests_def child_rows_def)
  have keep: "y \<in> set (db_tasks d')" if "y \<in> set (map (\<lambda>r. if r \<in> set ?subs then rejected_row now r else r) (db_tasks d) @ reps)" "y \<noteq> tk" for y
    unfolding rows set_map by (rule rev_image_eqI[OF that(1)]) (simp add: that(2))
  have rej: "rejected_row now s \<in> set (db_tasks d')"
  proof (rule keep)
    show "rejected_row now s \<noteq> tk" using st by (metis rejected_row_simps(3) task_status.distinct)
  qed (use child[OF assms(8)] assms(8) in auto)
  then have rejc: "rejected_row now s \<in> set (child_rows tid d')" using child[OF assms(8)] by (simp add: child_rows_def)
  obtain x where x: "x \<in> set ?subs" "t_id x \<in> set (replacement_source_ids ?subs)" "replacement_lane_key ?subs x = replacement_lane_key ?subs s"
    using selected_source_of[OF assms(8)] by blast
  then have "x \<in> set (filter (\<lambda>x. t_id x \<in> set (replacement_source_ids ?subs)) ?subs)" by simp
  with reps obtain r i where r: "r \<in> set reps" "r = replacement_test i now ?n feedback (rejected_row now x)"
    using list_all2_member[OF reps] unfolding is_replacement_def by blast
  have "r \<in> set (db_tasks d')"
  proof (rule keep)
    have "t_status r = StatusBacklog" by (simp add: r(2))
    then show "r \<noteq> tk" using st by auto
  qed (use r(1) in simp)
  then have rc: "r \<in> set (child_rows tid d')" using child[OF x(1)] by (simp add: child_rows_def r(2))
  have key: "test_writing_title_key (t_title x) = test_writing_title_key (t_title s)"
    using lane_key_base[OF x(3)] assms(7) child[OF x(1)] child[OF assms(8)] by blast
  then have title: "t_title r = revision_title (t_title s) ?n" by (simp add: r(2) revision_title_def)
  let ?tests = "filter (\<lambda>c. t_phase c = ''test'') (child_rows tid d')" and ?k = "test_writing_title_key (t_title s)"
  have "r \<in> set ?tests" using rc child[OF x(1)] by (simp add: r(2))
  moreover have "test_writing_title_key (t_title r) = ?k"
    using assms(5) title_revision_key[of ?n "t_title s"] by (simp add: title)
  ultimately obtain m where m: "newest_by_title ?tests ?k = Some m" "m \<in> set ?tests" "t_created r \<le> t_created m"
    using newest_by_title_created by blast
  have "t_id m \<noteq> t_id (rejected_row now s)"
  proof
    assume "t_id m = t_id (rejected_row now s)"
    then have "m = rejected_row now s" using m(2) rej by (intro row_eq[OF u]) (auto simp: child_rows_def)
    then show False using m(3) assms(7) child[OF assms(8)] by (auto simp: r(2))
  qed
  then have "rejected_row now s \<notin> set (active_test_writing_subtasks ?tests)"
    using m(1) by (simp add: active_test_writing_subtasks_def)
  moreover have "t_status r = StatusBacklog" "t_phase r = ''test''" "t_deps r = t_deps x" "t_tests_for r = t_tests_for x"
    using child[OF x(1)] by (simp_all add: r(2))
  ultimately show ?thesis using rejc rc title x(1,3) by blast
qed

section \<open>Witnesses\<close>

definition tested_task :: "int \<Rightarrow> task" where
  "tested_task n = sample_task\<lparr>t_status := StatusTestReview, t_context := Some [''test_rejection_count'' \<mapsto> GFloat (of_int n)]\<rparr>"

definition done_sample :: task where
  "done_sample = (sample_owner ''a'' ''test'' [])\<lparr>t_tests_for := [''b'']\<rparr>"

definition tested_db :: "int \<Rightarrow> db" where
  "tested_db n = sample_db\<lparr>db_tasks := [tested_task n, done_sample,
     (sample_owner ''b'' ''implementation'' [''a''])\<lparr>t_status := StatusBacklog\<rparr>]\<rparr>"

lemma tested_db_facts:
  "load_task ''t1'' (tested_db n) = Inr (tested_task n)" "uniq task_conflict (db_tasks (tested_db n))"
  "set (done_tests ''t1'' (tested_db n)) = {done_sample}" "rejection_count (tested_task n) = n"
  "set (child_rows ''t1'' (tested_db n)) = {done_sample, (sample_owner ''b'' ''implementation'' [''a''])\<lparr>t_status := StatusBacklog\<rparr>}"
  by (simp_all add: tested_db_def tested_task_def done_sample_def load_task_def tbl_first_def done_tests_def child_rows_def
      sample_owner_def sample_task_def sample_db_def uniq_def task_conflict_def rejection_count_def json_get_def insert_commute)

theorem revision_title_roundtrip_witness:
  "test_writing_title_key (revision_title ''Check the parser (revision 1)'' 2) = ''Check the parser''
   \<and> revision_title (revision_title ''Check the parser'' 1) 2 = ''Check the parser (revision 2)''"
proof -
  have "test_writing_title_key ''Check the parser (revision 1)'' = ''Check the parser''" by code_simp
  moreover have "revision_title ''Check the parser'' 2 = ''Check the parser (revision 2)''" by code_simp
  ultimately show ?thesis
    using revision_title_roundtrip[of 1 2 "''Check the parser''"] revision_title_roundtrip[of 1 2 "''Check the parser (revision 1)''"]
    by (simp only: simp_thms)
qed

lemma tested_rejections:
  "\<not> isl (fst (handle_test_review_rejected sample_fresh 9 ''t1'' ''use real input'' ''operator'' (tested_db 1)))"
  "\<not> isl (fst (handle_test_review_rejected sample_fresh 9 ''t1'' ''use real input'' ''operator'' (tested_db 2)))"
  by code_simp+

theorem test_rejection_outcome_witness:
  "\<exists>d' tk'. handle_test_review_rejected sample_fresh 9 ''t1'' ''use real input'' ''operator'' (tested_db 2) = (Inr (), d')
     \<and> load_task ''t1'' d' = Inr tk' \<and> rejection_count tk' = 3 \<and> t_status tk' = StatusPaused"
proof -
  obtain r d' where h: "handle_test_review_rejected sample_fresh 9 ''t1'' ''use real input'' ''operator'' (tested_db 2) = (r, d')"
    by (metis prod.exhaust)
  with tested_rejections(2) have r: "r = Inr ()" by (cases r) auto
  from test_rejection_outcome[OF h[unfolded r] tested_db_facts(1,2)] h r show ?thesis
    by (auto simp: tested_db_facts(4) automated_review_actor_def)
qed

theorem rejection_replaces_tests_witness:
  "\<exists>d' r. handle_test_review_rejected sample_fresh 9 ''t1'' ''use real input'' ''operator'' (tested_db 1) = (Inr (), d')
     \<and> r \<in> set (child_rows ''t1'' d') \<and> t_status r = StatusBacklog \<and> t_title r = ''title (revision 2)'' \<and> t_tests_for r = [''b'']"
proof -
  obtain r d' where h: "handle_test_review_rejected sample_fresh 9 ''t1'' ''use real input'' ''operator'' (tested_db 1) = (r, d')"
    by (metis prod.exhaust)
  with tested_rejections(1) have r: "r = Inr ()" by (cases r) auto
  have title: "revision_title ''title'' 2 = ''title (revision 2)''" by code_simp
  have "test_writing_title_key ''title'' = ''title''" by code_simp
  then have clean: "\<forall>c \<in> set (child_rows ''t1'' (tested_db 1)). CHR 0x00 \<notin> set (test_writing_title_key (t_title c)) \<and> t_created c < 9"
    by (simp add: tested_db_facts done_sample_def sample_owner_def sample_task_def)
  have actor: "''operator'' \<noteq> automated_review_actor" by (simp add: automated_review_actor_def)
  have n: "0 \<le> rejection_count (tested_task 1)" "rejection_count (tested_task 1) < 2" by (simp_all add: tested_db_facts(4))
  have s: "done_sample \<in> set (done_tests ''t1'' (tested_db 1))" by (simp add: tested_db_facts)
  have "t_title done_sample = ''title''" "t_tests_for done_sample = [''b'']"
    by (simp_all add: done_sample_def sample_owner_def sample_task_def)
  with rejection_replaces_tests[OF h[unfolded r] tested_db_facts(1,2) actor n clean s] h r title show ?thesis
    by (auto simp: tested_db_facts(3,4))
qed

end
