(* ===== verification/ReviewGateProperties.thy ===== *)
theory ReviewGateProperties
  imports ReviewGate ApprovalProperties TestReviewProperties
begin

text \<open>
  The automated review gate is fail-closed: a task leaves its gate only on a review that was stored or
  given by the reviewer, and the reviewer is consulted at most once for a version of the task.
\<close>

section \<open>The row of the task\<close>

text \<open>All rows with the identifier of a top-level task are in one state.\<close>

definition held :: "uuid \<Rightarrow> task_status \<Rightarrow> nat \<Rightarrow> db \<Rightarrow> bool" where
  "held tid st v d \<longleftrightarrow> tid \<in> t_id ` set (db_tasks d)
     \<and> (\<forall>r \<in> set (db_tasks d). t_id r = tid \<longrightarrow> t_parent r = None \<and> t_status r = st \<and> t_version r = v)"

lemma held_load: "held tid st v d \<Longrightarrow> load_task tid d = Inr tk \<Longrightarrow> t_status tk = st \<and> t_version tk = v \<and> t_parent tk = None"
  using load_task_Inr by (auto simp: held_def)

lemma held_unique: "uniq task_conflict (db_tasks d) \<Longrightarrow> load_task tid d = Inr tk \<Longrightarrow> t_parent tk = None
    \<Longrightarrow> held tid (t_status tk) (t_version tk) d"
  using load_task_row load_task_Inr unfolding held_def by blast

lemma held_map:
  assumes "held tid st v d" "db_tasks d' = map f (db_tasks d)" "\<And>r. t_id (f r) = t_id r"
    and "\<And>r. t_id r = tid \<Longrightarrow> t_parent r = None \<Longrightarrow> t_status r = st \<Longrightarrow> t_version r = v
      \<Longrightarrow> t_parent (f r) = None \<and> t_status (f r) = st' \<and> t_version (f r) = v'"
  shows "held tid st' v' d'"
proof -
  have "t_id ` set (db_tasks d') = t_id ` set (db_tasks d)" by (simp add: assms(2,3) image_image)
  moreover have "t_parent r = None \<and> t_status r = st' \<and> t_version r = v'" if "r \<in> set (db_tasks d')" "t_id r = tid" for r
  proof -
    from that(1) obtain x where "x \<in> set (db_tasks d)" "r = f x" unfolding assms(2) by auto
    with assms(1,3,4) that(2) show ?thesis by (simp add: held_def)
  qed
  ultimately show ?thesis using assms(1) by (simp add: held_def)
qed

lemma held_update_task_rows [intro]:
  "held tid st v d \<Longrightarrow> (\<And>r. t_id (f r) = t_id r \<and> t_parent (f r) = t_parent r \<and> t_status (f r) = t_status r \<and> t_version (f r) = t_version r)
     \<Longrightarrow> held tid st v (update_task_rows i f d)"
  by (erule held_map[OF _ update_task_rows_tasks]) auto

lemma held_delete: "held tid st v d \<Longrightarrow> tid \<noteq> i \<Longrightarrow> held tid st v (delete_subtask_rows i d)"
  by (auto simp: held_def delete_subtask_rows_def)

lemma held_delete_all:
  "held tid st v d \<Longrightarrow> tid \<notin> set is \<Longrightarrow> delete_all cleanup is d = Inr d' \<Longrightarrow> held tid st v d'"
proof (induction "is" arbitrary: d)
  case (Cons i "is")
  from Cons.prems(3) obtain d1 where d1: "delete_all cleanup is d1 = Inr d'" "d1 = delete_subtask_rows i d"
    by (cases cleanup) (auto simp: res_simps delete_subtask_def)
  have "held tid st v d1" using Cons.prems(1,2) by (simp add: d1(2) held_delete)
  from Cons.IH[OF this _ d1(1)] Cons.prems(2) show ?case by simp
qed simp

lemma held_create: "held tid st v d \<Longrightarrow> create_task r d = Inr d' \<Longrightarrow> held tid st v d'"
  by (auto simp: held_def create_task_def res_simps task_conflict_def)

lemma held_create_children:
  assumes "create_children env fr now cleanup tk m p packs existing is used d = Inr (ids, d')"
    and "held tid st v d" "tid \<notin> t_id ` set existing"
  shows "held tid st v d'"
  using assms(1,2)
proof (induction "is" arbitrary: used d ids)
  case (Cons i "is")
  show ?case
  proof (cases "List.find (reusable (p ! i) used) existing")
    case None
    then show ?thesis using Cons by (auto simp: res_simps dest: held_create)
  next
    case (Some x)
    have "tid \<notin> set (map t_id (filter (stale_duplicate (p ! i) (t_id x)) existing))" using assms(3) by auto
    note del = held_delete_all[OF Cons.prems(2) this]
    from Cons.prems(1) Some obtain d1 ids' where
      "delete_all cleanup (map t_id (filter (stale_duplicate (p ! i) (t_id x)) existing)) d = Inr d1"
      "create_children env fr now cleanup tk m p packs existing is (t_id x # used) d1 = Inr (ids', d')"
      by (auto simp: res_simps)
    from Cons.IH[OF this(2) del[OF this(1)]] show ?thesis .
  qed
qed simp

lemma held_fold: "(\<And>x d. held tid st v d \<Longrightarrow> held tid st v (f x d)) \<Longrightarrow> held tid st v d \<Longrightarrow> held tid st v (fold f xs d)"
  by (induction xs arbitrary: d) auto

lemma held_materialize:
  assumes "materialize_subtasks env fr now cleanup tk d = Inr (tk', ids, d')" "held tid st v d" "t_id tk = tid"
  shows "held tid st v d'"
proof -
  from assms(1) obtain ctx p q m packs ids' d2 where
    c: "create_children env fr now cleanup (tk\<lparr>t_context := ctx, t_updated := now\<rparr>) m p packs
         (child_rows (t_id tk) (update_task_rows (t_id tk) (\<lambda>r. r\<lparr>t_context := ctx, t_updated := now\<rparr>) d)) [0..<length p] []
         (update_task_rows (t_id tk) (\<lambda>r. r\<lparr>t_context := ctx, t_updated := now\<rparr>) d) = Inr (ids', d2)"
    and d': "d' = fold (set_tests_for now ids' p) [0..<length p] (fold (set_dependency_ids now ids' q) [0..<length p] d2)"
    by (auto simp: materialize_subtasks_def res_simps Let_def)
  let ?d1 = "update_task_rows (t_id tk) (\<lambda>r. r\<lparr>t_context := ctx, t_updated := now\<rparr>) d"
  have h1: "held tid st v ?d1" by (rule held_update_task_rows[OF assms(2)]) simp
  then have "tid \<notin> t_id ` set (child_rows (t_id tk) ?d1)" using assms(3) by (auto simp: held_def child_rows_def)
  from held_create_children[OF c h1 this] show ?thesis
    unfolding d' by (intro held_fold) (auto simp: set_tests_for_def set_dependency_ids_def Let_def)
qed

lemma held_cas:
  assumes "cas_task_transition eid now tk expected target actor source reason refs d = (tk', Inr d')"
    and "held (t_id tk) st v d" "t_parent tk = None"
  shows "held (t_id tk) target (Suc (t_version tk)) d'"
proof -
  note eff = cas_task_transition_Inr[OF assms(1)]
  have rows: "db_tasks d' = map (\<lambda>r. if cas_match tk expected r then task_transition_columns tk' r else r) (db_tasks d)"
    using eff(4) by (auto simp: cas_rows_def)
  from eff(3) have "filter (cas_match tk expected) (db_tasks d) \<noteq> []" by auto
  then obtain r where "r \<in> set (db_tasks d)" "cas_match tk expected r" by (auto simp: filter_empty_conv)
  with assms(2) have sv: "st = expected" "v = t_version tk" by (auto simp: held_def cas_match_def)
  show ?thesis
    by (rule held_map[OF assms(2) rows]) (auto simp: eff(2) cas_match_def sv task_transition_columns_def assms(3))
qed

section \<open>The copy the gate works on\<close>

definition current :: "task \<Rightarrow> db \<Rightarrow> bool" where
  "current tk d \<longleftrightarrow> uniq task_conflict (db_tasks d) \<and> tk \<in> set (db_tasks d) \<and> t_parent tk = None"

definition same_gate :: "task \<Rightarrow> task \<Rightarrow> bool" where
  "same_gate tk tk' \<longleftrightarrow> t_id tk' = t_id tk \<and> t_status tk' = t_status tk \<and> t_version tk' = t_version tk
     \<and> t_parent tk' = t_parent tk \<and> t_plan tk' = t_plan tk"

lemma current_load: "current tk d \<Longrightarrow> load_task (t_id tk) d = Inr tk"
  by (simp add: current_def load_task_unique)

lemma current_held: "current tk d \<Longrightarrow> held (t_id tk) (t_status tk) (t_version tk) d"
  using held_unique current_load unfolding current_def by blast

lemma current_map:
  assumes "current tk d" "\<And>r. t_id (f r) = t_id r" "db_tasks d' = map f (db_tasks d)" "t_parent (f tk) = None"
  shows "current (f tk) d'"
  using assms by (simp add: current_def uniq_tasks_distinct comp_def)

lemma current_save:
  assumes "current tk0 d" "same_gate tk0 tk"
  shows "current (tk\<lparr>t_updated := now\<rparr>) (snd (save_task now tk d))"
proof -
  let ?f = "\<lambda>r. if t_id r = t_id tk then tk\<lparr>t_updated := now\<rparr> else r"
  have "?f tk0 = tk\<lparr>t_updated := now\<rparr>" using assms(2) by (simp add: same_gate_def)
  moreover have "db_tasks (snd (save_task now tk d)) = map ?f (db_tasks d)"
    using assms by (auto simp: save_task_def Let_def list_ex_iff current_def same_gate_def)
  ultimately show ?thesis
    using current_map[OF assms(1), of ?f] assms by (auto simp: current_def same_gate_def)
qed

lemma save_current:
  "save_task now tk d = (tk', d') \<Longrightarrow> current tk0 d \<Longrightarrow> same_gate tk0 tk \<Longrightarrow> current tk' d' \<and> tk' = tk\<lparr>t_updated := now\<rparr>"
  using current_save[of tk0 d tk now] save_task_fst[of now tk d] by simp

lemma same_gate_refl [simp]: "same_gate tk tk"
  by (simp add: same_gate_def)

lemma same_gate_context [simp]:
  "same_gate tk (x\<lparr>t_context := c\<rparr>) = same_gate tk x" "same_gate tk (x\<lparr>t_updated := u\<rparr>) = same_gate tk x"
  "same_gate tk (x\<lparr>t_agent := a\<rparr>) = same_gate tk x"
  "same_gate tk (x\<lparr>t_branch := b, t_base_sha := h\<rparr>) = same_gate tk x"
  by (simp_all add: same_gate_def)

lemma same_gate_trans: "same_gate a b \<Longrightarrow> same_gate b c \<Longrightarrow> same_gate a c"
  by (simp add: same_gate_def)

section \<open>Reviews\<close>

definition normalized :: "task \<Rightarrow> review \<Rightarrow> review" where
  "normalized tk r = fst (normalize_affirming_test_review tk (fst (normalize_plan_review r)))"

definition reviewer_gives :: "review_env \<Rightarrow> uuid \<Rightarrow> review \<Rightarrow> bool" where
  "reviewer_gives env tid r \<longleftrightarrow> (\<exists>tk payload. t_id tk = tid \<and> rv_run env tk payload = Inr (Some r))"

lemma normalized_gate: "same_gate tk tk' \<Longrightarrow> normalized tk' = normalized tk"
  by (rule ext) (simp add: normalized_def normalize_affirming_test_review_def same_gate_def)

lemma map_of_review_del: "map_of (review_del k r) k' = (if k' = k then None else map_of r k')"
  by (induction r) (auto simp: review_del_def)

lemma normalize_plan_idem: "normalize_plan_review (fst (normalize_plan_review r)) = (fst (normalize_plan_review r), False)"
  by (auto simp: normalize_plan_review_def map_of_review_del split: option.splits gany.splits)

lemma normalize_plan_issues:
  "normalize_plan_review (gmap_put ''issues'' v r) = (r', False)" if "normalize_plan_review r = (r, False)"
    "r' = gmap_put ''issues'' v r"
  using that by (auto simp: normalize_plan_review_def split: option.splits gany.splits if_splits)

lemma affirming_cases:
  "normalize_affirming_test_review tk q \<in> {(q, False), (gmap_put ''issues'' (GList []) q, True)}"
  by (auto simp: normalize_affirming_test_review_def split: option.split gany.split list.split)

lemma normalized_idem: "normalized tk (normalized tk r) = normalized tk r"
proof -
  define q where "q = fst (normalize_plan_review r)"
  have q: "normalize_plan_review q = (q, False)" using normalize_plan_idem by (simp add: q_def)
  consider "normalize_affirming_test_review tk q = (q, False)"
    | "normalize_affirming_test_review tk q = (gmap_put ''issues'' (GList []) q, True)"
    using affirming_cases[of tk q] by auto
  then have "normalized tk (fst (normalize_affirming_test_review tk q)) = fst (normalize_affirming_test_review tk q)"
  proof cases
    case 1
    then show ?thesis using q by (simp add: normalized_def)
  next
    case 2
    then show ?thesis
      using normalize_plan_issues[OF q refl] by (simp add: normalized_def normalize_affirming_test_review_def)
  qed
  then show ?thesis by (simp add: normalized_def q_def)
qed

lemma safe_gate: "same_gate tk tk' \<Longrightarrow> review_safe_to_approve tk' = review_safe_to_approve tk"
  by (rule ext) (simp add: review_safe_to_approve_def same_gate_def Let_def split: option.splits)

lemma normalize_review_effect:
  assumes "normalize_review tk = (tk1, ro, changed)"
  shows "same_gate tk tk1 \<and> t_branch tk1 = t_branch tk \<and> ro = map_option (normalized tk) (stored_review tk)
    \<and> (\<not> changed \<longrightarrow> tk1 = tk)
    \<and> (\<forall>k. k \<noteq> ''review'' \<longrightarrow> json_get (t_context tk1) k = json_get (t_context tk) k)"
  using assms by (auto simp: normalize_review_def normalized_def split: option.splits prod.splits if_splits)

lemma attempted_context:
  "attempted_version tk \<Longrightarrow> t_version tk' = t_version tk
    \<Longrightarrow> json_get (t_context tk') ''automated_review_state_version'' = json_get (t_context tk) ''automated_review_state_version''
    \<Longrightarrow> attempted_version tk'"
  by (simp add: attempted_version_def)

section \<open>Leaving the gate\<close>

definition moved_by :: "task \<Rightarrow> (review \<Rightarrow> bool) \<Rightarrow> db \<Rightarrow> bool" where
  "moved_by tk given d' \<longleftrightarrow> (\<exists>rv st. given rv \<and> held (t_id tk) st (Suc (t_version tk)) d'
     \<and> (if st = StatusFailed then t_status tk = StatusTestReview \<and> automated_review_requests_revision (normalized tk rv)
        else st \<in> {StatusInProgress, StatusTestWriting} \<and> review_safe_to_approve tk (Some (normalized tk rv))))"

lemma test_approval_moves:
  assumes "handle_test_review_approved fr now tid actor d = (r, d')" "current tk d" "t_id tk = tid"
  shows "d' = d \<or> held tid StatusInProgress (Suc (t_version tk)) d'"
proof -
  have l: "load_task tid d = Inr tk" using current_load[OF assms(2)] assms(3) by simp
  obtain tk' res where c: "cas_task_transition (fr ''event'' 0) now tk StatusTestReview StatusInProgress actor ''review_gate''
      ''test review approved'' [] d = (tk', res)" by fastforce
  show ?thesis
  proof (cases res)
    case (Inr d1)
    have "held (t_id tk) StatusInProgress (Suc (t_version tk)) d1"
      using held_cas[OF c[unfolded Inr] current_held[OF assms(2)]] assms(2) by (simp add: current_def)
    with assms(1) c l Inr assms(3) show ?thesis by (auto simp: handle_test_review_approved_def)
  qed (use assms(1) c l in \<open>auto simp: handle_test_review_approved_def\<close>)
qed

lemma plan_approval_moves:
  assumes "handle_plan_approved env fr now tid actor d = (r, d')" "current tk d" "t_id tk = tid"
  shows "d' = d \<or> (\<exists>st \<in> {StatusInProgress, StatusTestWriting}. held tid st (Suc (t_version tk)) d')"
proof -
  have l: "load_task tid d = Inr tk" using current_load[OF assms(2)] assms(3) by simp
  have "\<exists>st \<in> {StatusInProgress, StatusTestWriting}. held tid st (Suc (t_version tk)) d1"
    if a: "approve_transaction env fr now actor (approved_plan_target_status p) (tk\<lparr>t_tdd_exceptions := x, t_agent := None\<rparr>) d = Inr d1" for p x d1
  proof -
    let ?tk = "tk\<lparr>t_tdd_exceptions := x, t_agent := None\<rparr>"
    from a obtain tk1 d2 where c: "cas_task_transition (fr ''event'' 0) now ?tk StatusPlanReview (approved_plan_target_status p) actor
        ''review_gate'' ''plan approved'' [(''action'', GStr ''plan_approved'')] d = (tk1, Inr d2)"
      by (auto simp: approve_transaction_def split: prod.splits sum.splits)
    with a obtain tk2 ids d3 ctx where m: "materialize_subtasks env fr now False tk1 d2 = Inr (tk2, ids, d3)"
      and d1: "d1 = update_task_rows (t_id tk) (\<lambda>r. r\<lparr>t_context := ctx, t_tdd_exceptions := t_tdd_exceptions tk2, t_updated := now\<rparr>) d3"
      by (auto simp: approve_transaction_def res_simps Let_def)
    have "held (t_id ?tk) (approved_plan_target_status p) (Suc (t_version ?tk)) d2"
      by (rule held_cas[OF c]) (use assms(2) current_held[OF assms(2)] in \<open>auto simp: current_def\<close>)
    then have "held tid (approved_plan_target_status p) (Suc (t_version tk)) d2" using assms(3) by simp
    moreover have "t_id tk1 = tid" using cas_task_transition_Inr(2)[OF c] assms(3) by simp
    ultimately have "held tid (approved_plan_target_status p) (Suc (t_version tk)) d3" by (rule held_materialize[OF m])
    then have "held tid (approved_plan_target_status p) (Suc (t_version tk)) d1"
      unfolding d1 by (rule held_update_task_rows) simp
    then show ?thesis by (auto simp: approved_plan_target_status_def split: if_splits)
  qed
  note move = this
  from move[of _ "t_tdd_exceptions tk"] have keep: "approve_transaction env fr now actor (approved_plan_target_status p) (tk\<lparr>t_agent := None\<rparr>) d = Inr d1
      \<Longrightarrow> \<exists>st \<in> {StatusInProgress, StatusTestWriting}. held tid st (Suc (t_version tk)) d1" for p d1
    by simp
  show ?thesis
    using assms(1) unfolding handle_plan_approved_def l Let_def
    by (auto split: if_splits sum.splits dest!: keep move)
qed

lemma automated_rejection_moves:
  assumes "handle_test_review_rejected fr now tid feedback automated_review_actor d = (r, d')" "current tk d" "t_id tk = tid"
    and "t_status tk = StatusTestReview"
  shows "d' = d \<or> held tid StatusFailed (Suc (t_version tk)) d'"
proof -
  have l: "load_task tid d = Inr tk" using current_load[OF assms(2)] assms(3) by simp
  obtain ctx where c: "counted_rejection feedback tk = tk\<lparr>t_context := ctx\<rparr>" using counted_rejection_eq by blast
  show ?thesis
  proof (cases "automated_rejection fr now automated_review_actor feedback (tk\<lparr>t_context := ctx\<rparr>) d")
    case (Inr q)
    then obtain tk' d1 where a: "automated_rejection fr now automated_review_actor feedback (tk\<lparr>t_context := ctx\<rparr>) d = Inr (tk', d1)"
      by (cases q) auto
    let ?row = "moved_row now StatusFailed (failure_context feedback ctx) tk"
    from automated_rejection_effect[OF a] assms(2,4) have u: "uniq task_conflict (db_tasks d1)" "?row \<in> set (db_tasks d1)"
      by (auto simp: current_def)
    have "t_parent ?row = None" using assms(2) by (simp add: current_def moved_row_def)
    with held_unique[OF u(1) load_task_unique[OF u]] assms(3) have "held tid StatusFailed (Suc (t_version tk)) d1" by simp
    then show ?thesis using assms(1,4) l c a by (auto simp: handle_test_review_rejected_def)
  qed (use assms(1,4) l c in \<open>auto simp: handle_test_review_rejected_def\<close>)
qed

lemma prepare_effect:
  assumes "prepare_plan_review env now tk d = Inr (tk1, d1)" "current tk d"
  shows "current tk1 d1 \<and> same_gate tk tk1 \<and> stored_review tk1 = stored_review tk
    \<and> ((\<forall>name b h. rv_create_feature env name = Inr (b, h) \<longrightarrow> b \<noteq> []) \<longrightarrow> t_status tk = StatusPlanReview \<longrightarrow> t_branch tk1 \<noteq> [])"
proof (cases "t_status tk = StatusPlanReview \<and> t_branch tk = []")
  case True
  then obtain b h where f: "rv_create_feature env (task_feature_name tk) = Inr (b, h)"
    using assms(1) by (auto simp: prepare_plan_review_def ensure_feature_worktree_def res_simps split: sum.splits prod.splits)
  define x where "x = tk\<lparr>t_branch := b, t_base_sha := h\<rparr>"
  obtain y e where y: "save_task now x d = (y, e)" by fastforce
  have x: "same_gate tk x" by (simp add: x_def)
  from save_current[OF y assms(2) x] have c: "current y e" "y = x\<lparr>t_updated := now\<rparr>" by auto
  define z where "z = y\<lparr>t_context := json_del ''automated_review_detail'' (json_del ''automated_review_status''
               (json_del ''automated_review_state_version'' (t_context y)))\<rparr>"
  obtain z' e' where z': "save_task now z e = (z', e')" by fastforce
  have z: "same_gate y z" by (simp add: z_def)
  from save_current[OF z' c(1) z] have c': "current z' e'" "z' = z\<lparr>t_updated := now\<rparr>" by auto
  have "(tk1, d1) = (y, e) \<or> (tk1, d1) = (z', e')"
    using assms(1) True f y z' by (auto simp: prepare_plan_review_def ensure_feature_worktree_def x_def[symmetric] z_def[symmetric] split: if_splits)
  moreover have "same_gate tk y" "same_gate tk z'" "t_branch y = b" "t_branch z' = b"
    using c(2) c'(2) z x by (simp_all add: x_def z_def)
  moreover have "stored_review y = stored_review tk" "stored_review z' = stored_review tk"
    using c(2) c'(2) by (simp_all add: stored_review_def x_def z_def)
  moreover have "(\<forall>name b h. rv_create_feature env name = Inr (b, h) \<longrightarrow> b \<noteq> []) \<longrightarrow> b \<noteq> []" using f by blast
  ultimately show ?thesis using c(1) c'(1) by auto
next
  case False
  then have "tk1 = tk" "d1 = d" using assms(1) by (auto simp: prepare_plan_review_def)
  then show ?thesis using False assms(2) by auto
qed

lemma claim_effect:
  assumes "claim_review now tk d = r" "current tk d"
  shows "\<exists>tk1 d1. r = Inr (tk1, d1) \<and> current tk1 d1 \<and> same_gate tk tk1 \<and> stored_review tk1 = stored_review tk
    \<and> attempted_version tk1 \<and> t_branch tk1 = t_branch tk"
proof -
  define ctx where "ctx = json_put ''automated_review_status'' (GStr ''running'')
            (json_put ''automated_review_state_version'' (GFloat (of_nat (t_version tk))) (t_context tk))"
  let ?P = "\<lambda>r. t_id r = t_id tk \<and> t_status r = t_status tk \<and> t_version r = t_version tk"
  let ?f = "\<lambda>r. if ?P r then r\<lparr>t_context := ctx, t_updated := now\<rparr> else r"
  have one: "length (filter ?P (db_tasks d)) = 1"
  proof -
    have "filter ?P (db_tasks d) = filter (\<lambda>r. t_id r = t_id tk) (db_tasks d)"
      by (rule filter_cong) (use assms(2) current_load[OF assms(2)] load_task_row in \<open>auto simp: current_def\<close>)
    moreover have "length (filter (\<lambda>r. t_id r = t_id tk) (db_tasks d)) = 1"
      using assms(2) by (auto simp: current_def uniq_tasks_distinct intro: one_row)
    ultimately show ?thesis by simp
  qed
  define tk1 where "tk1 = tk\<lparr>t_context := ctx, t_updated := now\<rparr>"
  define d1 where "d1 = d\<lparr>db_tasks := map ?f (db_tasks d)\<rparr>"
  have "current (?f tk) d1"
  proof (rule current_map[OF assms(2), of ?f d1])
    show "t_parent (?f tk) = None" using assms(2) by (simp add: current_def)
  qed (simp_all add: d1_def)
  then have c: "current tk1 d1" by (simp add: tk1_def)
  have id: "t_id tk1 = t_id tk" by (simp add: tk1_def)
  have "claim_review now tk d = Inr (tk1, d1)"
    using one current_load[OF c] unfolding id by (simp add: claim_review_def tbl_update_def ctx_def[symmetric] d1_def)
  moreover have "attempted_version tk1" "stored_review tk1 = stored_review tk" "same_gate tk tk1" "t_branch tk1 = t_branch tk"
    by (simp_all add: attempted_version_def ctx_def numeric_uint64_def stored_review_def tk1_def)
  ultimately show ?thesis using assms(1) c by blast
qed

lemma spawn_effect:
  assumes "spawn_reviewer_session env now (t_id tk) d = (r, d')" "current tk d"
  shows "\<exists>tk1. current tk1 d' \<and> same_gate tk tk1 \<and> t_branch tk1 = t_branch tk
    \<and> json_get (t_context tk1) ''automated_review_state_version'' = json_get (t_context tk) ''automated_review_state_version''
    \<and> (stored_review tk1 = stored_review tk \<or> (\<exists>rv. reviewer_gives env (t_id tk) rv \<and> stored_review tk1 = Some rv))"
proof (cases "d' = d")
  case False
  with assms current_load[OF assms(2)] obtain payload where
    sp: "spawn_direct_gate_reviewer env now tk payload d = (r, d')"
    by (auto simp: spawn_reviewer_session_def split: if_splits sum.splits)
  define x where "x = tk\<lparr>t_agent := Some (rv_agent env)\<rparr>"
  obtain y e where y: "save_task now x d = (y, e)" by fastforce
  have x: "same_gate tk x" "t_branch x = t_branch tk" "t_context x = t_context tk" by (simp_all add: x_def)
  from save_current[OF y assms(2) x(1)] have c: "current y e" "y = x\<lparr>t_updated := now\<rparr>" by auto
  have gy: "same_gate tk y" "t_branch y = t_branch tk" "t_context y = t_context tk" "t_id y = t_id tk"
    using c(2) x by (simp_all add: x_def)
  consider "d' = e" | rv where "rv_run env y payload = Inr (Some rv)"
      "d' = snd (save_task now (y\<lparr>t_context := json_put ''review'' (GMap rv) (t_context y)\<rparr>) e)"
    using sp y by (auto simp: spawn_direct_gate_reviewer_def x_def[symmetric] split: sum.splits option.splits)
  then show ?thesis
  proof cases
    case 1
    then show ?thesis using c(1) gy by (intro exI[of _ y]) (auto simp: stored_review_def)
  next
    case 2
    define z where "z = y\<lparr>t_context := json_put ''review'' (GMap rv) (t_context y)\<rparr>"
    have "current (z\<lparr>t_updated := now\<rparr>) d'"
      unfolding 2(2) z_def by (rule current_save[OF c(1)]) simp
    moreover have "reviewer_gives env (t_id tk) rv" using 2(1) gy(4) by (auto simp: reviewer_gives_def)
    ultimately show ?thesis using gy by (intro exI[of _ "z\<lparr>t_updated := now\<rparr>"]) (auto simp: z_def stored_review_def)
  qed
qed (use assms(2) in auto)

text \<open>What a settled gate looks like: attempted and unmoved, or moved by a review.\<close>

definition settled :: "task \<Rightarrow> (review \<Rightarrow> bool) \<Rightarrow> db \<Rightarrow> bool" where
  "settled tk given d' \<longleftrightarrow> (\<exists>tk1. current tk1 d' \<and> same_gate tk tk1 \<and> attempted_version tk1 \<and> t_branch tk1 = t_branch tk)
     \<or> moved_by tk given d'"

lemma moved_by_gate: "same_gate tk tk1 \<Longrightarrow> moved_by tk1 given d' = moved_by tk given d'"
  using normalized_gate[of tk tk1] safe_gate[of tk tk1] by (simp add: moved_by_def same_gate_def)

lemma settled_gate: "same_gate tk tk1 \<Longrightarrow> t_branch tk1 = t_branch tk \<Longrightarrow> settled tk1 given d' \<Longrightarrow> settled tk given d'"
  using moved_by_gate unfolding settled_def by (metis same_gate_trans)

lemma settled_mono:
  assumes "settled tk given d'" "\<And>r. given r \<Longrightarrow> \<exists>r'. given' r' \<and> normalized tk r' = normalized tk r"
  shows "settled tk given' d'"
proof (cases "moved_by tk given d'")
  case True
  then have "moved_by tk given' d'" unfolding moved_by_def using assms(2) by metis
  then show ?thesis by (simp add: settled_def)
qed (use assms(1) in \<open>simp add: settled_def\<close>)

lemma settled_save:
  assumes "current tk d" "same_gate tk tk1" "attempted_version tk1" "t_branch tk1 = t_branch tk"
  shows "settled tk given (snd (save_task now tk1 d))"
proof -
  have "current (tk1\<lparr>t_updated := now\<rparr>) (snd (save_task now tk1 d))" using assms(1,2) by (rule current_save)
  moreover have "attempted_version (tk1\<lparr>t_updated := now\<rparr>)" using assms(3) by (simp add: attempted_version_def)
  ultimately show ?thesis using assms unfolding settled_def by (intro disjI1 exI[of _ "tk1\<lparr>t_updated := now\<rparr>"]) simp
qed

lemma park_settled:
  assumes "current tk d" "same_gate tk tk1" "attempted_version tk1" "t_branch tk1 = t_branch tk"
  shows "settled tk given (park_automated_review now tk1 reason detail d)"
proof -
  let ?x = "tk1\<lparr>t_context := json_put ''automated_review_detail'' (GStr (truncate detail 1000))
       (json_put ''automated_review_status'' (GStr reason) (t_context tk1))\<rparr>"
  have "attempted_version ?x" using assms(3) by (simp add: attempted_version_def)
  then show ?thesis
    unfolding park_automated_review_def using settled_save[OF assms(1), of ?x] assms(2,4) by simp
qed

text \<open>A handler called with the approval recorded or on a review that asks for changes.\<close>

lemma approval_settled:
  assumes "current tk d" "same_gate tk tk1" "attempted_version tk1" "t_branch tk1 = t_branch tk"
    and "t_status tk \<in> {StatusPlanReview, StatusTestReview}" "given rv" "review_safe_to_approve tk (Some (normalized tk rv))"
    and "json_get ctx ''automated_review_state_version'' = json_get (t_context tk1) ''automated_review_state_version''"
    and "(if t_status tk1 = StatusPlanReview
      then handle_plan_approved penv fr now (t_id tk1) automated_review_actor (mark_approved now ctx tk1 d)
      else handle_test_review_approved fr now (t_id tk1) automated_review_actor (mark_approved now ctx tk1 d)) = (r, d')"
  shows "settled tk given d'"
proof -
  define x where "x = tk1\<lparr>t_context := json_put ''automated_review_status'' (GStr ''approved'') ctx\<rparr>"
  define y where "y = x\<lparr>t_updated := now\<rparr>"
  define d1 where "d1 = mark_approved now ctx tk1 d"
  have x: "same_gate tk x" using assms(2) by (simp add: x_def)
  from current_save[OF assms(1) x] have c: "current y d1" by (simp add: y_def d1_def mark_approved_def x_def)
  have y: "same_gate tk y" "t_id y = t_id tk1" "t_branch y = t_branch tk" using x assms(4) by (simp_all add: y_def x_def)
  have att: "attempted_version y" using assms(3,8) by (simp add: y_def x_def attempted_version_def)
  from assms(9) consider "handle_plan_approved penv fr now (t_id y) automated_review_actor d1 = (r, d')"
    | "handle_test_review_approved fr now (t_id y) automated_review_actor d1 = (r, d')"
    by (auto simp: y(2) d1_def split: if_splits)
  then have "d' = d1 \<or> (\<exists>st \<in> {StatusInProgress, StatusTestWriting}. held (t_id y) st (Suc (t_version y)) d')"
    using plan_approval_moves[OF _ c refl] test_approval_moves[OF _ c refl] by cases blast+
  then show ?thesis
  proof
    assume "d' = d1"
    then show ?thesis using c y(1,3) att unfolding settled_def by blast
  next
    assume "\<exists>st \<in> {StatusInProgress, StatusTestWriting}. held (t_id y) st (Suc (t_version y)) d'"
    then have "moved_by tk given d'"
      using y(1) assms(6,7) unfolding moved_by_def same_gate_def by (metis insertE singletonD task_status.distinct)
    then show ?thesis by (simp add: settled_def)
  qed
qed

lemma rejection_settled:
  assumes "current tk d" "attempted_version tk" "t_status tk = StatusTestReview"
    and "given rv" "automated_review_requests_revision (normalized tk rv)"
    and "handle_test_review_rejected fr now (t_id tk) feedback automated_review_actor d = (r, d')"
  shows "settled tk given d'"
proof -
  from automated_rejection_moves[OF assms(6,1) refl assms(3)] show ?thesis
  proof
    assume "d' = d"
    then show ?thesis using assms(1,2) unfolding settled_def by (intro disjI1 exI[of _ tk]) simp
  next
    assume "held (t_id tk) StatusFailed (Suc (t_version tk)) d'"
    then have "moved_by tk given d'"
      unfolding moved_by_def using assms(3-5) by (intro exI[of _ rv] exI[of _ StatusFailed]) simp
    then show ?thesis by (simp add: settled_def)
  qed
qed

lemma settle_settled:
  assumes "settle_review env fr now tk d = (r, d')" "current tk d" "attempted_version tk"
    and "t_status tk \<in> {StatusPlanReview, StatusTestReview}"
  shows "settled tk (\<lambda>rv. stored_review tk = Some rv) d'"
proof -
  obtain tk1 ro ch where n: "normalize_review tk = (tk1, ro, ch)" using prod_cases3 by blast
  note eff = normalize_review_effect[OF n]
  have g: "same_gate tk tk1" "t_branch tk1 = t_branch tk" using eff by blast+
  have att: "attempted_version tk1" using attempted_context[OF assms(3), of tk1] eff by (simp add: same_gate_def)
  have st: "t_status tk1 = t_status tk" "t_id tk1 = t_id tk" using g by (simp_all add: same_gate_def)
  show ?thesis
  proof (cases "review_safe_to_approve tk1 ro")
    case True
    then obtain rv where rv: "stored_review tk = Some rv" "ro = Some (normalized tk rv)"
      using eff by (cases "stored_review tk") (auto simp: review_safe_to_approve_def)
    have "review_safe_to_approve tk (Some (normalized tk rv))" using True rv safe_gate[OF g(1)] by simp
    from approval_settled[OF assms(2) g(1) att g(2) assms(4) _ this refl, of "\<lambda>rv. stored_review tk = Some rv"] rv(1)
    show ?thesis using assms(1) True by (simp add: settle_review_def n Let_def split: if_splits)
  next
    case False
    show ?thesis
    proof (cases "t_status tk1 = StatusTestReview \<and> automated_review_requests_revision (case ro of None \<Rightarrow> [] | Some r \<Rightarrow> r)")
      case True
      then obtain rv where rv: "stored_review tk = Some rv" "ro = Some (normalized tk rv)"
        using eff by (cases "stored_review tk") (auto simp: automated_review_requests_revision_def text_of_def)
      show ?thesis
        by (rule rejection_settled[OF assms(2,3), where rv = rv])
          (use True False rv st assms(1) in \<open>auto simp: settle_review_def n Let_def split: if_splits\<close>)
    next
      case False
      with \<open>\<not> review_safe_to_approve tk1 ro\<close> assms(1) obtain reason detail where
        "d' = park_automated_review now tk1 reason detail d"
        by (auto simp: settle_review_def n Let_def split: if_splits option.splits)
      then show ?thesis using park_settled[OF assms(2) g(1) att g(2)] by simp
    qed
  qed
qed

lemma run_settled:
  assumes "run_review env fr now tk d = (r, d')" "current tk d" "t_status tk \<in> {StatusPlanReview, StatusTestReview}"
  shows "settled tk (\<lambda>rv. stored_review tk = Some rv \<or> reviewer_gives env (t_id tk) rv) d'"
proof -
  obtain tk1 d1 where c: "claim_review now tk d = Inr (tk1, d1)" "current tk1 d1" "same_gate tk tk1"
      "stored_review tk1 = stored_review tk" "attempted_version tk1" "t_branch tk1 = t_branch tk"
    using claim_effect[OF refl assms(2)] by blast
  have id: "t_id tk1 = t_id tk" "t_status tk1 = t_status tk" using c(3) by (simp_all add: same_gate_def)
  let ?given = "\<lambda>rv. stored_review tk = Some rv \<or> reviewer_gives env (t_id tk) rv"
  have "settled tk1 ?given d'"
  proof (cases "rv_configured env")
    case False
    then have "d' = park_automated_review now tk1 ''reviewer_unconfigured'' ''direct SGLang reviewer is not configured'' d1"
      using assms(1) c(1) by (simp add: run_review_def)
    then show ?thesis using park_settled[OF c(2) same_gate_refl c(5) refl] by simp
  next
    case True
    obtain s d2 where sp: "spawn_reviewer_session env now (t_id tk1) d1 = (s, d2)" by fastforce
    from spawn_effect[OF sp c(2)] obtain tk2 where s2: "current tk2 d2" "same_gate tk1 tk2" "t_branch tk2 = t_branch tk1"
        "json_get (t_context tk2) ''automated_review_state_version'' = json_get (t_context tk1) ''automated_review_state_version''"
        "stored_review tk2 = stored_review tk1 \<or> (\<exists>rv. reviewer_gives env (t_id tk1) rv \<and> stored_review tk2 = Some rv)"
      by blast
    have bk: "same_gate tk2 tk1" "t_id tk2 = t_id tk1" "t_version tk2 = t_version tk1" "t_status tk2 = t_status tk1"
      using s2(2) by (simp_all add: same_gate_def)
    show ?thesis
    proof (cases s)
      case (Inl e)
      then have "d' = park_automated_review now tk1 ''reviewer_failed'' (rv_error_text env e) d2"
        using assms(1) c(1) True sp by (simp add: run_review_def)
      then have "settled tk2 ?given d'" using park_settled[OF s2(1) bk(1) c(5)] s2(3) by simp
      then show ?thesis using settled_gate s2(2,3) by blast
    next
      case (Inr u)
      have "load_task (t_id tk1) d2 = Inr tk2" using current_load[OF s2(1)] bk(2) by simp
      then have se: "settle_review env fr now tk2 d2 = (r, d')"
        using assms(1) c(1) True sp Inr by (simp add: run_review_def)
      have "attempted_version tk2" using attempted_context[OF c(5) bk(3) s2(4)] .
      from settle_settled[OF se s2(1) this] have "settled tk2 (\<lambda>rv. stored_review tk2 = Some rv) d'"
        using assms(3) id bk by simp
      then have "settled tk2 ?given d'" by (rule settled_mono) (use s2(5) c(4) id in \<open>metis option.inject\<close>)
      then show ?thesis using settled_gate s2(2,3) by blast
    qed
  qed
  then show ?thesis using settled_gate c(3,6) by blast
qed

text \<open>One tick of the gate: an error before the claim, or a settled gate.\<close>

lemma gate_settled:
  assumes "process_automated_review_gate env fr now tk d = (r, d')" "current tk d"
    and "prepare_plan_review env now tk d = Inr (tk1, d1)" "t_status tk \<in> {StatusPlanReview, StatusTestReview}"
  shows "settled tk1 (\<lambda>rv. stored_review tk = Some rv \<or> reviewer_gives env (t_id tk) rv) d'"
proof -
  let ?given = "\<lambda>rv. stored_review tk = Some rv \<or> reviewer_gives env (t_id tk) rv"
  from prepare_effect[OF assms(3,2)] have c: "current tk1 d1" "same_gate tk tk1" "stored_review tk1 = stored_review tk" by blast+
  have st: "t_status tk1 \<in> {StatusPlanReview, StatusTestReview}" "t_id tk1 = t_id tk" using c(2) assms(4) by (auto simp: same_gate_def)
  obtain tk2 ro ch where n: "normalize_review tk1 = (tk2, ro, ch)" using prod_cases3 by blast
  note eff = normalize_review_effect[OF n]
  have g: "same_gate tk1 tk2" "t_branch tk2 = t_branch tk1" "ro = map_option (normalized tk1) (stored_review tk1)" using eff by blast+
  have st2: "t_status tk2 = t_status tk1" "t_id tk2 = t_id tk1" using g(1) by (simp_all add: same_gate_def)
  have plain: "settled tk1 ?given d'"
    if x: "(if attempted_version x then (Inr (), e) else run_review env fr now x e) = (r, d')" "current x e" "same_gate tk1 x"
      "t_branch x = t_branch tk1" "stored_review x \<in> {stored_review tk1, map_option (normalized tk1) (stored_review tk1)}" for x e
  proof (cases "attempted_version x")
    case True
    then have "d' = e" using x(1) by simp
    with True x(2-4) show ?thesis unfolding settled_def by (intro disjI1 exI[of _ x]) simp
  next
    case False
    have "t_status x \<in> {StatusPlanReview, StatusTestReview}" "t_id x = t_id tk" using x(3) st by (auto simp: same_gate_def)
    with run_settled[of env fr now x e r d'] x(1,2) False
    have "settled x (\<lambda>rv. stored_review x = Some rv \<or> reviewer_gives env (t_id tk) rv) d'" by simp
    then have "settled tk1 (\<lambda>rv. stored_review x = Some rv \<or> reviewer_gives env (t_id tk) rv) d'" using settled_gate x(3,4) by blast
    then show ?thesis 
    proof (rule settled_mono)
      fix q assume "stored_review x = Some q \<or> reviewer_gives env (t_id tk) q"
      moreover have "\<exists>z. stored_review tk = Some z \<and> (q = z \<or> q = normalized tk1 z)" if "stored_review x = Some q"
        using x(5) c(3) that by (cases "stored_review tk") auto
      ultimately show "\<exists>r'. (stored_review tk = Some r' \<or> reviewer_gives env (t_id tk) r') \<and> normalized tk1 r' = normalized tk1 q"
        using normalized_idem[of tk1] by metis
    qed
  qed
  show ?thesis
  proof (cases ro)
    case None
    then have "tk2 = tk1" using n by (auto simp: normalize_review_def split: option.splits prod.splits)
    then show ?thesis
      using plain[of tk1 d1] assms(1,3) n None c(1) by (simp add: process_automated_review_gate_def)
  next
    case (Some rv')
    then obtain rv where rv: "stored_review tk = Some rv" "rv' = normalized tk1 rv" using g(3) c(3) by auto
    from assms(1,3) n Some consider
      (reject) "recoverable tk2" "t_status tk2 = StatusTestReview" "automated_review_requests_revision rv'"
        "handle_test_review_rejected fr now (t_id tk2) (automated_review_feedback rv') automated_review_actor d1 = (r, d')"
    | (approve) "recoverable tk2" "review_safe_to_approve tk2 (Some rv')"
        "approve_recovered env fr now tk2 (mark_approved now (json_del ''automated_review_detail'' (t_context tk2)) tk2 d1) = (r, d')"
    | (save) "ch" "(let (x, e) = save_task now tk2 d1 in if attempted_version x then (Inr (), e) else run_review env fr now x e) = (r, d')"
    | (go) "\<not> ch" "(if attempted_version tk2 then (Inr (), d1) else run_review env fr now tk2 d1) = (r, d')"
      by (simp add: process_automated_review_gate_def Let_def split: if_splits)
    then show ?thesis
    proof cases
      case reject
      have "attempted_version tk1" using reject(1) eff by (simp add: recoverable_def attempted_version_def same_gate_def)
      then show ?thesis
        by (rule rejection_settled[OF c(1), where rv = rv]) (use reject st2 rv in auto)
    next
      case approve
      have "review_safe_to_approve tk1 (Some (normalized tk1 rv))" using approve(2) safe_gate[OF g(1)] rv(2) by simp
      from approval_settled[OF c(1) g(1) _ g(2) st(1) _ this, of ?given "json_del ''automated_review_detail'' (t_context tk2)" "rv_plan_env env" fr now r d']
        approve(1,3) rv(1) st2 st(1)
      show ?thesis by (auto simp: recoverable_def approve_recovered_def)
    next
      case save
      obtain x e where x: "save_task now tk2 d1 = (x, e)" by fastforce
      from save_current[OF x c(1) g(1)] have cx: "current x e" "x = tk2\<lparr>t_updated := now\<rparr>" by auto
      have "stored_review x = ro" using save(1) n cx(2)
        by (auto simp: normalize_review_def stored_review_def split: option.splits prod.splits)
      moreover have "same_gate tk1 x" "t_branch x = t_branch tk1" using cx(2) g by simp_all
      moreover have "(if attempted_version x then (Inr (), e) else run_review env fr now x e) = (r, d')" using save(2) x by simp
      ultimately show ?thesis using plain[OF _ cx(1)] g(3) by blast
    next
      case go
      then have same: "tk2 = tk1" using eff by blast
      show ?thesis by (rule plain[OF go(2)[unfolded same] c(1)]) simp_all
    qed
  qed
qed

lemma recovered_ignores_run [simp]: "approve_recovered (env\<lparr>rv_run := f\<rparr>) = approve_recovered env"
  by (intro ext) (simp add: approve_recovered_def)

lemma gate_ignores_run:
  assumes "attempted_version tk" "t_status tk = StatusPlanReview \<longrightarrow> t_branch tk \<noteq> []"
  shows "process_automated_review_gate (env\<lparr>rv_run := f\<rparr>) fr now tk d = process_automated_review_gate env fr now tk d"
proof -
  have p: "prepare_plan_review e now tk d = Inr (tk, d)" for e using assms(2) by (auto simp: prepare_plan_review_def)
  obtain tk1 ro ch where n: "normalize_review tk = (tk1, ro, ch)" using prod_cases3 by blast
  note eff = normalize_review_effect[OF n]
  have a1: "attempted_version tk1" using attempted_context[OF assms(1), of tk1] eff by (simp add: same_gate_def)
  obtain x e where s: "save_task now tk1 d = (x, e)" by fastforce
  then have "x = tk1\<lparr>t_updated := now\<rparr>" using save_task_fst[of now tk1 d] by simp
  then have "attempted_version x" using a1 by (simp add: attempted_version_def)
  with a1 s show ?thesis by (cases ro; cases ch) (auto simp: process_automated_review_gate_def p n)
qed

section \<open>Properties\<close>

text \<open>C13: The automated gate is fail-closed.  When a tick moves a task out of its gate, a review was stored with the task
  or given by the reviewer which, normalized, either is safe to approve (it recommends approval with full coverage and no
  open issue, and for a plan also no integration gap, no high overlap risk and adequate tests) or asks for a revision of
  the written tests; in the second case the task fails.\<close>

theorem automated_approval_sound:
  assumes "process_automated_review_gate env fr now tk d = (r, d')"
    and "load_task (t_id tk) d = Inr tk" and "uniq task_conflict (db_tasks d)" and "t_parent tk = None"
    and "t_status tk \<in> {StatusPlanReview, StatusTestReview}"
    and "load_task (t_id tk) d' = Inr tk'" and "t_status tk' \<noteq> t_status tk"
  shows "\<exists>rv. (stored_review tk = Some rv \<or> reviewer_gives env (t_id tk) rv)
    \<and> (t_status tk' \<in> {StatusInProgress, StatusTestWriting} \<and> review_safe_to_approve tk (Some (normalized tk rv))
       \<or> t_status tk' = StatusFailed \<and> t_status tk = StatusTestReview \<and> automated_review_requests_revision (normalized tk rv))"
proof -
  have cur: "current tk d" using assms(2-4) load_task_Inr by (auto simp: current_def)
  have stay: "\<not> current x d'" if "same_gate tk x" for x
    using current_load[of x d'] that assms(6,7) by (auto simp: same_gate_def)
  obtain tk1 d1 where p: "prepare_plan_review env now tk d = Inr (tk1, d1)"
    using assms(1) stay[of tk] cur by (cases "prepare_plan_review env now tk d") (auto simp: process_automated_review_gate_def)
  have g: "same_gate tk tk1" using prepare_effect[OF p cur] by blast
  from gate_settled[OF assms(1) cur p assms(5)] have "moved_by tk1 (\<lambda>rv. stored_review tk = Some rv \<or> reviewer_gives env (t_id tk) rv) d'"
    using stay same_gate_trans[OF g] by (auto simp: settled_def)
  then have "moved_by tk (\<lambda>rv. stored_review tk = Some rv \<or> reviewer_gives env (t_id tk) rv) d'"
    using moved_by_gate[OF g] by simp
  then obtain rv st where m: "stored_review tk = Some rv \<or> reviewer_gives env (t_id tk) rv" "held (t_id tk) st (Suc (t_version tk)) d'"
      "if st = StatusFailed then t_status tk = StatusTestReview \<and> automated_review_requests_revision (normalized tk rv)
        else st \<in> {StatusInProgress, StatusTestWriting} \<and> review_safe_to_approve tk (Some (normalized tk rv))"
    unfolding moved_by_def by blast
  have "t_status tk' = st" using held_load[OF m(2) assms(6)] by simp
  with m(1,3) show ?thesis by (intro exI[of _ rv]) (auto split: if_splits)
qed

text \<open>The reviewer is consulted at most once for a version of a task.  When a tick leaves the task in its gate, either
  that tick does not depend on what the model would have answered, or no later tick does, whatever the model answers then.\<close>

theorem reviewer_consulted_once:
  assumes "process_automated_review_gate env fr now tk d = (r, d')"
    and "load_task (t_id tk) d = Inr tk" and "uniq task_conflict (db_tasks d)" and "t_parent tk = None"
    and "t_status tk \<in> {StatusPlanReview, StatusTestReview}"
    and "load_task (t_id tk) d' = Inr tk'" and "t_status tk' = t_status tk"
    and "\<forall>name branch head. rv_create_feature env name = Inr (branch, head) \<longrightarrow> branch \<noteq> []"
  shows "(\<forall>f. process_automated_review_gate (env\<lparr>rv_run := f\<rparr>) fr now tk d = (r, d'))
    \<or> (\<forall>f fr' now'. process_automated_review_gate (env\<lparr>rv_run := f\<rparr>) fr' now' tk' d' = process_automated_review_gate env fr' now' tk' d')"
proof (cases "prepare_plan_review env now tk d")
  case (Inl e)
  have "prepare_plan_review (env\<lparr>rv_run := f\<rparr>) now tk d = prepare_plan_review env now tk d" for f
    by (simp add: prepare_plan_review_def ensure_feature_worktree_def)
  then show ?thesis using assms(1) Inl by (simp add: process_automated_review_gate_def)
next
  case (Inr q)
  then obtain tk1 d1 where p: "prepare_plan_review env now tk d = Inr (tk1, d1)" by (cases q) auto
  have cur: "current tk d" using assms(2-4) load_task_Inr by (auto simp: current_def)
  note eff = prepare_effect[OF p cur]
  have g: "same_gate tk tk1" using eff by blast
  have "\<not> moved_by tk1 given d'" for given
    using held_load[OF _ assms(6)] assms(5,7) moved_by_gate[OF g] by (fastforce simp: moved_by_def split: if_splits)
  with gate_settled[OF assms(1) cur p assms(5)] obtain x where x: "current x d'" "same_gate tk1 x" "attempted_version x" "t_branch x = t_branch tk1"
    by (auto simp: settled_def)
  have "t_id x = t_id tk" "t_status x = t_status tk" using x(2) g by (simp_all add: same_gate_def)
  then have "x = tk'" "t_status x = StatusPlanReview \<longrightarrow> t_branch x \<noteq> []"
    using current_load[OF x(1)] assms(6,8) eff x(4) by auto
  then show ?thesis using gate_ignores_run[OF x(3)] by blast
qed

section \<open>Witnesses and defects\<close>

definition safe_review :: review where
  "safe_review = [(''recommendation'', GStr ''approve''), (''coverage'', GStr ''full''), (''issues'', GList [])]"

definition gate_env :: "bool \<Rightarrow> review option \<Rightarrow> review_env" where
  "gate_env running answer = \<lparr>rv_plan_env = approval_env, rv_plan_policy = ReviewGateSGLangSafeAuto,
     rv_test_policy = ReviewGateSGLangSafeAuto, rv_configured = True, rv_running = (\<lambda>_. running), rv_worktree = (\<lambda>_. ''w''),
     rv_evidence = (\<lambda>_. Inr []), rv_agent = ''a1'', rv_run = (\<lambda>_ _. Inr answer),
     rv_create_feature = (\<lambda>name. Inr (''feature/'' @ name, ''c0'')), rv_error_text = (\<lambda>_. ''e'')\<rparr>"

definition gated_task :: "task_status \<Rightarrow> json_field \<Rightarrow> task" where
  "gated_task st ctx = sample_task\<lparr>t_status := st, t_context := ctx\<rparr>"

definition gated_db :: "task_status \<Rightarrow> json_field \<Rightarrow> db" where
  "gated_db st ctx = sample_db\<lparr>db_tasks := [gated_task st ctx]\<rparr>"

lemma gated_facts:
  "load_task (t_id (gated_task st ctx)) (gated_db st ctx) = Inr (gated_task st ctx)"
  "uniq task_conflict (db_tasks (gated_db st ctx))" "t_parent (gated_task st ctx) = None"
  "t_status (gated_task st ctx) = st" "t_id (gated_task st ctx) = ''t1''"
  by (simp_all add: gated_db_def gated_task_def sample_task_def sample_db_def load_task_def tbl_first_def uniq_def)

definition status_after :: "uuid \<Rightarrow> db \<Rightarrow> task_status option" where
  "status_after tid d = (case load_task tid d of Inl _ \<Rightarrow> None | Inr t \<Rightarrow> Some (t_status t))"

lemma approving_tick:
  "status_after ''t1'' (snd (process_automated_review_gate (gate_env False (Some safe_review)) sample_fresh 9
     (gated_task StatusTestReview None) (gated_db StatusTestReview None))) = Some StatusInProgress"
  by code_simp

lemma silent_tick:
  "status_after ''t1'' (snd (process_automated_review_gate (gate_env False None) sample_fresh 9
     (gated_task StatusTestReview None) (gated_db StatusTestReview None))) = Some StatusTestReview"
  by code_simp

lemma status_after_Some: "status_after tid d = Some st \<longleftrightarrow> (\<exists>t. load_task tid d = Inr t \<and> t_status t = st)"
  by (auto simp: status_after_def split: sum.splits)

theorem automated_approval_sound_witness:
  "\<exists>rv. reviewer_gives (gate_env False (Some safe_review)) ''t1'' rv
     \<and> review_safe_to_approve (gated_task StatusTestReview None) (Some (normalized (gated_task StatusTestReview None) rv))"
proof -
  let ?env = "gate_env False (Some safe_review)" and ?tk = "gated_task StatusTestReview None"
  obtain r d' where p: "process_automated_review_gate ?env sample_fresh 9 ?tk (gated_db StatusTestReview None) = (r, d')" by fastforce
  with approving_tick obtain tk' where l: "load_task (t_id ?tk) d' = Inr tk'" "t_status tk' = StatusInProgress"
    by (auto simp: status_after_Some gated_facts)
  have "stored_review ?tk = None" by (simp add: gated_task_def stored_review_def json_get_def)
  with automated_approval_sound[OF p gated_facts(1-3) _ l(1)] l(2) show ?thesis by (auto simp: gated_facts(4,5))
qed

theorem reviewer_consulted_once_witness:
  "\<exists>r d' tk'. process_automated_review_gate (gate_env False None) sample_fresh 9
       (gated_task StatusTestReview None) (gated_db StatusTestReview None) = (r, d') \<and> load_task ''t1'' d' = Inr tk'
     \<and> process_automated_review_gate (gate_env False (Some safe_review)) sample_fresh 10 tk' d'
       = process_automated_review_gate (gate_env False None) sample_fresh 10 tk' d'"
proof -
  let ?env = "gate_env False None" and ?tk = "gated_task StatusTestReview None"
  obtain r d' where p: "process_automated_review_gate ?env sample_fresh 9 ?tk (gated_db StatusTestReview None) = (r, d')" by fastforce
  with silent_tick obtain tk' where l: "load_task (t_id ?tk) d' = Inr tk'" "t_status tk' = t_status ?tk"
    by (auto simp: status_after_Some gated_facts)
  have other: "?env\<lparr>rv_run := (\<lambda>_ _. Inr (Some safe_review))\<rparr> = gate_env False (Some safe_review)" by (simp add: gate_env_def)
  have branch: "\<forall>name branch head. rv_create_feature ?env name = Inr (branch, head) \<longrightarrow> branch \<noteq> []" by (auto simp: gate_env_def)
  have "t_status ?tk \<in> {StatusPlanReview, StatusTestReview}" by (simp add: gated_facts(4))
  from reviewer_consulted_once[OF p gated_facts(1-3) this l branch]
  have "process_automated_review_gate (gate_env False (Some safe_review)) sample_fresh 9 ?tk (gated_db StatusTestReview None) = (r, d')
    \<or> process_automated_review_gate (gate_env False (Some safe_review)) sample_fresh 10 tk' d'
       = process_automated_review_gate ?env sample_fresh 10 tk' d'"
    using other by metis
  moreover have "process_automated_review_gate (gate_env False (Some safe_review)) sample_fresh 9 ?tk (gated_db StatusTestReview None) \<noteq> (r, d')"
    using approving_tick l by (auto simp: status_after_Some gated_facts)
  ultimately show ?thesis using p l(1) by (auto simp: gated_facts(5))
qed

text \<open>A reviewer that is already running counts as a finished one: the review of the plan, still stored, approves the
  tests although no reviewer has seen them.\<close>

lemma stale_review_approves_tests:
  "status_after ''t1'' (snd (process_automated_review_gate (gate_env True None) sample_fresh 9
     (gated_task StatusTestReview (Some [''review'' \<mapsto> GMap safe_review])) (gated_db StatusTestReview (Some [''review'' \<mapsto> GMap safe_review]))))
   = Some StatusInProgress"
  by code_simp

text \<open>An approval that the handler refuses is not tried again: the plan stays in its gate, marked approved.\<close>

definition safe_plan_review :: review where
  "safe_plan_review = safe_review @ [(''integration_gap'', GBool False), (''file_overlap_risk'', GStr ''low''),
     (''tdd_assessment'', GMap [(''test_coverage_adequate'', GBool True)])]"

lemma refused_approval_sticks:
  "let (r, d') = process_automated_review_gate (gate_env False (Some safe_plan_review)) sample_fresh 9
       (gated_task StatusPlanReview None) (gated_db StatusPlanReview None) in
   isl r \<and> (case load_task ''t1'' d' of Inl _ \<Rightarrow> False | Inr t \<Rightarrow> t_status t = StatusPlanReview
     \<and> json_get (t_context t) ''automated_review_status'' = Some (GStr ''approved'')
     \<and> fst (process_automated_review_gate (gate_env False (Some safe_plan_review)) sample_fresh 10 t d') = Inr ()
     \<and> status_after ''t1'' (snd (process_automated_review_gate (gate_env False (Some safe_plan_review)) sample_fresh 10 t d')) = Some StatusPlanReview)"
  by code_simp

text \<open>A complaint that names coverage and contains no word of the list of negative markers counts as praise.\<close>

lemma affirming_drops_complaint: "affirming_issue (GStr ''The tests do not cover the error path'')"
  by code_simp

end
