(* ===== verification/WorkerIdentity.thy ===== *)
theory WorkerIdentity
  imports HostRework
begin

text \<open>
  \<open>internal/workeridentity\<close>: the store that ties a task to the agent that works on it and to the
  durable attempt of one spawned container.  A spawn is reserved (which claims the task), and then
  finalized with the container or aborted; an attempt holds a lease that its owner renews or ends.

  The store is the three tables the package writes.  A read sees the same transaction's writes, and
  a transaction that fails changes nothing.  That the database is busy is a parameter (\<open>busy k\<close> is
  the message of the \<open>k\<close>-th try); waiting between tries is left out.  Columns that the package
  never writes are left out of the rows.
\<close>

section \<open>Rows\<close>

datatype agent_status = AgentIdle | AgentWorking | AgentBlocked | AgentDead

record agent =
  ag_id :: uuid
  ag_project :: uuid
  ag_type :: string
  ag_name :: string
  ag_status :: agent_status
  ag_task :: "uuid option"
  ag_branch :: string
  ag_session :: string
  ag_provider :: string
  ag_model :: string
  ag_effort :: string
  ag_heartbeat :: "time option"
  ag_completed :: "time option"
  ag_exit :: string
  ag_config :: json_field

record spawn_attempt =
  at_id :: uuid
  at_task :: uuid
  at_agent :: "uuid option"
  at_worker :: string
  at_container :: string
  at_type :: string
  at_branch :: string
  at_base :: string
  at_image :: string
  at_state :: string
  at_owner :: string
  at_lease :: "time option"
  at_error :: string
  at_class :: string
  at_failed :: "time option"
  at_completed :: "time option"
  at_assets :: string
  at_prompt_hash :: string
  at_prompt_path :: string
  at_created :: time

record identity_store =
  is_tasks :: "task list"
  is_agents :: "agent list"
  is_attempts :: "spawn_attempt list"

definition agent_conflict :: "agent \<Rightarrow> agent \<Rightarrow> bool" where
  "agent_conflict a b \<longleftrightarrow> ag_id a = ag_id b"

definition attempt_conflict :: "spawn_attempt \<Rightarrow> spawn_attempt \<Rightarrow> bool" where
  "attempt_conflict a b \<longleftrightarrow> at_id a = at_id b"

interpretation agents: unique_table agent_conflict
  by unfold_locales (auto simp: agent_conflict_def)

interpretation spawn_attempts: unique_table attempt_conflict
  by unfold_locales (auto simp: attempt_conflict_def)

definition WorkerAttemptReserved :: string where "WorkerAttemptReserved = ''reserved''"
definition WorkerAttemptRunning :: string where "WorkerAttemptRunning = ''running''"
definition WorkerAttemptCompleted :: string where "WorkerAttemptCompleted = ''completed''"
definition WorkerAttemptFailed :: string where "WorkerAttemptFailed = ''failed''"
definition WorkerAttemptAborted :: string where "WorkerAttemptAborted = ''aborted''"
definition WorkerAttemptSuperseded :: string where "WorkerAttemptSuperseded = ''superseded''"

lemmas attempt_state_defs = WorkerAttemptReserved_def WorkerAttemptRunning_def WorkerAttemptCompleted_def
  WorkerAttemptFailed_def WorkerAttemptAborted_def WorkerAttemptSuperseded_def

definition is_active_attempt_state :: "string \<Rightarrow> bool" where
  "is_active_attempt_state s \<longleftrightarrow> s = WorkerAttemptReserved \<or> s = WorkerAttemptRunning"

definition default_lease_ttl :: duration where
  "default_lease_ttl = 120000000000"

datatype identity_error =
    ErrTaskAlreadyClaimed | ErrLeaseConflict | ErrLeaseExpired | ErrAttemptTerminal
  | ErrNotReserved | ErrStoreRecordNotFound | ErrDuplicateKey | ErrBusy string | ErrSpawnFailed string

record spawn_record =
  sr_task :: uuid
  sr_project :: uuid
  sr_type :: string
  sr_worker :: string
  sr_container :: string
  sr_image :: string
  sr_branch :: string
  sr_base :: string
  sr_provider :: string
  sr_model :: string
  sr_effort :: string
  sr_assets :: string
  sr_prompt_hash :: string
  sr_prompt_path :: string

section \<open>Handles\<close>

datatype runtime_kind = RuntimeNone | RuntimeContainer | RuntimeTmux

record handle =
  h_task :: uuid
  h_agent :: uuid
  h_attempt :: uuid
  h_worker :: string
  h_container :: string
  h_session :: string
  h_type :: string
  h_branch :: string
  h_image :: string
  h_runtime :: runtime_kind

record reservation =
  rs_task :: uuid
  rs_agent :: uuid
  rs_attempt :: uuid
  rs_worker :: string
  rs_type :: string
  rs_branch :: string
  rs_image :: string
  rs_provider :: string
  rs_model :: string
  rs_effort :: string

definition has_container :: "handle \<Rightarrow> bool" where
  "has_container h \<longleftrightarrow> h_runtime h = RuntimeContainer \<and> h_container h \<noteq> []"

definition can_jump_to_tmux :: "handle \<Rightarrow> bool" where
  "can_jump_to_tmux h \<longleftrightarrow> h_runtime h = RuntimeTmux \<and> h_session h \<noteq> []"

definition log_container_id :: "handle \<Rightarrow> string" where
  "log_container_id h = (if has_container h then h_container h else [])"

definition is_legacy_tmux_session :: "string \<Rightarrow> bool" where
  "is_legacy_tmux_session s = list_ex (\<lambda>c. c = CHR ''/'' \<or> c = CHR '' '' \<or> c = CHR '':'') s"

definition from_agent :: "agent \<Rightarrow> handle" where
  "from_agent a =
     (let h = \<lparr>h_task = (case ag_task a of None \<Rightarrow> uuid_Nil | Some t \<Rightarrow> t), h_agent = ag_id a, h_attempt = uuid_Nil,
                h_worker = [], h_container = [], h_session = [], h_type = ag_type a, h_branch = ag_branch a,
                h_image = [], h_runtime = RuntimeNone\<rparr> in
      if ag_session a = [] then h
      else if is_legacy_tmux_session (ag_session a) then h\<lparr>h_session := ag_session a, h_runtime := RuntimeTmux\<rparr>
      else h\<lparr>h_container := ag_session a, h_runtime := RuntimeContainer\<rparr>)"

section \<open>Reserving\<close>

definition find_agent :: "uuid \<Rightarrow> identity_store \<Rightarrow> agent option" where
  "find_agent i s = tbl_first ag_id (\<lambda>a. ag_id a = i) (is_agents s)"

definition reserved_agent :: "uuid \<Rightarrow> time \<Rightarrow> spawn_record \<Rightarrow> agent" where
  "reserved_agent i now r =
     \<lparr>ag_id = i, ag_project = sr_project r, ag_type = sr_type r, ag_name = sr_type r @ ''-'' @ take 8 (sr_task r),
      ag_status = AgentWorking, ag_task = Some (sr_task r), ag_branch = sr_branch r, ag_session = [],
      ag_provider = sr_provider r, ag_model = sr_model r, ag_effort = sr_effort r, ag_heartbeat = Some now,
      ag_completed = None, ag_exit = [], ag_config = None\<rparr>"

definition new_attempt :: "uuid \<Rightarrow> time \<Rightarrow> spawn_record \<Rightarrow> uuid option \<Rightarrow> string \<Rightarrow> string \<Rightarrow> spawn_attempt" where
  "new_attempt i now r agent container st =
     \<lparr>at_id = i, at_task = sr_task r, at_agent = agent, at_worker = sr_worker r, at_container = container,
      at_type = sr_type r, at_branch = sr_branch r, at_base = sr_base r, at_image = sr_image r, at_state = st,
      at_owner = sr_worker r, at_lease = Some (now + default_lease_ttl), at_error = [], at_class = [], at_failed = None,
      at_completed = None, at_assets = sr_assets r, at_prompt_hash = sr_prompt_hash r,
      at_prompt_path = sr_prompt_path r, at_created = now\<rparr>"

definition claim_task :: "time \<Rightarrow> uuid \<Rightarrow> uuid \<Rightarrow> identity_store \<Rightarrow> identity_error + identity_store" where
  "claim_task now tid agent s =
     (let (rows, affected) = tbl_update (\<lambda>t. t_id t = tid \<and> t_agent t = None)
            (\<lambda>t. t\<lparr>t_agent := Some agent, t_updated := now\<rparr>) (is_tasks s)
      in if affected \<noteq> 1 then Inl ErrTaskAlreadyClaimed else Inr (s\<lparr>is_tasks := rows\<rparr>))"

definition create_agent :: "agent \<Rightarrow> identity_store \<Rightarrow> identity_error + identity_store" where
  "create_agent a s = (case tbl_create agent_conflict a (is_agents s) of
     Inl _ \<Rightarrow> Inl ErrDuplicateKey | Inr rows \<Rightarrow> Inr (s\<lparr>is_agents := rows\<rparr>))"

definition create_attempt :: "spawn_attempt \<Rightarrow> identity_store \<Rightarrow> identity_error + identity_store" where
  "create_attempt a s = (case tbl_create attempt_conflict a (is_attempts s) of
     Inl _ \<Rightarrow> Inl ErrDuplicateKey | Inr rows \<Rightarrow> Inr (s\<lparr>is_attempts := rows\<rparr>))"

definition supersede_attempts :: "time \<Rightarrow> spawn_record \<Rightarrow> identity_store \<Rightarrow> identity_store" where
  "supersede_attempts now r s = s\<lparr>is_attempts := fst (tbl_update
     (\<lambda>a. at_task a = sr_task r \<and> at_type a = sr_type r \<and> at_branch a = sr_branch r \<and> at_completed a = None)
     (\<lambda>a. a\<lparr>at_state := WorkerAttemptSuperseded, at_completed := Some now\<rparr>) (is_attempts s))\<rparr>"

definition reservation_of :: "uuid \<Rightarrow> uuid \<Rightarrow> spawn_record \<Rightarrow> reservation" where
  "reservation_of agent attempt r =
     \<lparr>rs_task = sr_task r, rs_agent = agent, rs_attempt = attempt, rs_worker = sr_worker r, rs_type = sr_type r,
      rs_branch = sr_branch r, rs_image = sr_image r, rs_provider = sr_provider r, rs_model = sr_model r,
      rs_effort = sr_effort r\<rparr>"

definition reserve_transaction ::
  "uuid \<Rightarrow> uuid \<Rightarrow> time \<Rightarrow> spawn_record \<Rightarrow> identity_store \<Rightarrow> identity_error + reservation \<times> identity_store" where
  "reserve_transaction agent attempt now r s =
     res_bind (claim_task now (sr_task r) agent s) (\<lambda>s1.
     res_bind (create_agent (reserved_agent agent now r) s1) (\<lambda>s2.
     res_bind (create_attempt (new_attempt attempt now r (Some agent) [] WorkerAttemptReserved) (supersede_attempts now r s2)) (\<lambda>s3.
     Inr (reservation_of agent attempt r, s3))))"

definition sqlite_busy :: "string \<Rightarrow> bool" where
  "sqlite_busy message \<longleftrightarrow> str_contains ''database table is locked'' message \<or> str_contains ''database is locked'' message"

text \<open>The loop of \<open>ReserveSpawn\<close>, with the number of tries that are left.\<close>

fun reserve_tries ::
  "nat \<Rightarrow> nat \<Rightarrow> (nat \<Rightarrow> string option) \<Rightarrow> fresh \<Rightarrow> time \<Rightarrow> spawn_record \<Rightarrow> identity_store
   \<Rightarrow> identity_error + reservation \<times> identity_store" where
  "reserve_tries 0 k busy fr now r s = Inl (ErrBusy [])"
| "reserve_tries (Suc n) k busy fr now r s =
     (case busy k of
        None \<Rightarrow> reserve_transaction (fr ''agent'' k) (fr ''attempt'' k) now r s
      | Some m \<Rightarrow> if sqlite_busy m \<and> n \<noteq> 0 then reserve_tries n (Suc k) busy fr now r s else Inl (ErrBusy m))"

definition reserve_spawn ::
  "(nat \<Rightarrow> string option) \<Rightarrow> fresh \<Rightarrow> time \<Rightarrow> spawn_record \<Rightarrow> identity_store \<Rightarrow> identity_error + reservation \<times> identity_store" where
  "reserve_spawn busy fr now r s = reserve_tries 5 0 busy fr now r s"

section \<open>Finalizing and aborting\<close>

definition finalize_spawn ::
  "time \<Rightarrow> reservation \<Rightarrow> string \<Rightarrow> identity_store \<Rightarrow> identity_error + handle \<times> identity_store" where
  "finalize_spawn now res container s =
     (case find_agent (rs_agent res) s of
        None \<Rightarrow> Inl ErrStoreRecordNotFound
      | Some ag \<Rightarrow>
          let (rows, affected) = tbl_update (\<lambda>a. at_id a = rs_attempt res \<and> at_agent a = Some (rs_agent res)
                   \<and> at_task a = rs_task res \<and> at_state a = WorkerAttemptReserved)
                (\<lambda>a. a\<lparr>at_container := container, at_state := WorkerAttemptRunning, at_lease := Some (now + default_lease_ttl)\<rparr>)
                (is_attempts s) in
          if affected \<noteq> 1 then Inl ErrNotReserved
          else Inr (\<lparr>h_task = rs_task res, h_agent = rs_agent res, h_attempt = rs_attempt res, h_worker = rs_worker res,
                     h_container = container, h_session = [], h_type = rs_type res, h_branch = rs_branch res,
                     h_image = rs_image res, h_runtime = RuntimeContainer\<rparr>,
                 s\<lparr>is_attempts := rows,
                   is_agents := map (\<lambda>a. if ag_id a = ag_id ag then ag\<lparr>ag_session := container\<rparr> else a) (is_agents s)\<rparr>))"

definition abort_reservation :: "time \<Rightarrow> reservation \<Rightarrow> string \<Rightarrow> identity_store \<Rightarrow> identity_store" where
  "abort_reservation now res reason s =
     (let (rows, affected) = tbl_update (\<lambda>a. at_id a = rs_attempt res \<and> at_agent a = Some (rs_agent res)
               \<and> at_task a = rs_task res \<and> is_active_attempt_state (at_state a))
            (\<lambda>a. a\<lparr>at_state := WorkerAttemptAborted, at_completed := Some now,
               at_container := (if reason \<noteq> [] then [] else at_container a)\<rparr>) (is_attempts s) in
      if affected \<noteq> 1 then s\<lparr>is_attempts := rows\<rparr>
      else s\<lparr>is_attempts := rows,
        is_agents := fst (tbl_update (\<lambda>a. ag_id a = rs_agent res)
          (\<lambda>a. a\<lparr>ag_status := AgentDead, ag_completed := Some now, ag_exit := reason\<rparr>) (is_agents s)),
        is_tasks := fst (tbl_update (\<lambda>t. t_id t = rs_task res \<and> t_agent t = Some (rs_agent res))
          (\<lambda>t. t\<lparr>t_agent := None, t_updated := now\<rparr>) (is_tasks s))\<rparr>)"

section \<open>Leases\<close>

definition lease_held :: "uuid \<Rightarrow> string \<Rightarrow> time \<Rightarrow> spawn_attempt \<Rightarrow> bool" where
  "lease_held i owner now a \<longleftrightarrow> at_id a = i \<and> at_owner a = owner \<and> is_active_attempt_state (at_state a)
     \<and> at_completed a = None \<and> (case at_lease a of None \<Rightarrow> True | Some e \<Rightarrow> now < e)"

definition classify_lease_miss :: "uuid \<Rightarrow> string \<Rightarrow> time \<Rightarrow> identity_store \<Rightarrow> identity_error" where
  "classify_lease_miss i owner now s =
     (case tbl_first at_id (\<lambda>a. at_id a = i) (is_attempts s) of
        None \<Rightarrow> ErrLeaseConflict
      | Some a \<Rightarrow>
          if at_completed a \<noteq> None \<or> \<not> is_active_attempt_state (at_state a) then ErrAttemptTerminal
          else if at_owner a \<noteq> owner then ErrLeaseConflict
          else if (case at_lease a of None \<Rightarrow> False | Some e \<Rightarrow> e \<le> now) then ErrLeaseExpired
          else ErrLeaseConflict)"

definition lease_update ::
  "uuid \<Rightarrow> string \<Rightarrow> time \<Rightarrow> (spawn_attempt \<Rightarrow> spawn_attempt) \<Rightarrow> identity_store \<Rightarrow> identity_error + identity_store" where
  "lease_update i owner now f s =
     (let (rows, affected) = tbl_update (lease_held i owner now) f (is_attempts s) in
      if affected = 1 then Inr (s\<lparr>is_attempts := rows\<rparr>) else Inl (classify_lease_miss i owner now s))"

definition renew_lease :: "uuid \<Rightarrow> string \<Rightarrow> duration \<Rightarrow> time \<Rightarrow> identity_store \<Rightarrow> identity_error + identity_store" where
  "renew_lease i owner ttl now =
     lease_update i owner now (\<lambda>a. a\<lparr>at_lease := Some (now + (if ttl \<le> 0 then default_lease_ttl else ttl))\<rparr>)"

definition finish_attempt ::
  "uuid \<Rightarrow> string \<Rightarrow> string \<Rightarrow> string \<Rightarrow> time \<Rightarrow> identity_store \<Rightarrow> identity_error + identity_store" where
  "finish_attempt i owner st first_error now =
     lease_update i owner now (\<lambda>a. a\<lparr>at_state := st, at_completed := Some now, at_lease := Some now,
       at_failed := (if st = WorkerAttemptFailed then Some now else at_failed a),
       at_error := (if first_error \<noteq> [] then first_error else at_error a)\<rparr>)"

section \<open>Recording a merger\<close>

definition update_agent :: "time \<Rightarrow> spawn_record \<Rightarrow> agent \<Rightarrow> agent" where
  "update_agent now r a = a\<lparr>ag_session := sr_container r, ag_provider := sr_provider r, ag_model := sr_model r,
     ag_effort := sr_effort r, ag_type := (if sr_type r \<noteq> [] then sr_type r else ag_type a), ag_branch := sr_branch r,
     ag_task := Some (sr_task r), ag_heartbeat := Some now\<rparr>"

text \<open>\<open>recordAgent\<close>; \<open>tk\<close> is the caller's copy of the task.\<close>

definition record_agent ::
  "uuid \<Rightarrow> time \<Rightarrow> spawn_record \<Rightarrow> task \<Rightarrow> identity_store \<Rightarrow> identity_error + agent \<times> task \<times> identity_store" where
  "record_agent i now r tk s =
     (case Option.bind (t_agent tk) (\<lambda>j. find_agent j s) of
        Some a \<Rightarrow> let a' = update_agent now r a in
          Inr (a', tk, s\<lparr>is_agents := map (\<lambda>x. if ag_id x = ag_id a then a' else x) (is_agents s)\<rparr>)
      | None \<Rightarrow>
          let a = (reserved_agent i now r)\<lparr>ag_session := sr_container r\<rparr>; tk' = tk\<lparr>t_agent := Some i, t_updated := now\<rparr> in
          res_bind (create_agent a s) (\<lambda>s1.
          Inr (a, tk', s1\<lparr>is_tasks := (if list_ex (\<lambda>t. t_id t = t_id tk) (is_tasks s1)
            then map (\<lambda>t. if t_id t = t_id tk then tk' else t) (is_tasks s1) else is_tasks s1 @ [tk'])\<rparr>)))"

definition merge_agent :: "handle \<Rightarrow> agent \<Rightarrow> handle" where
  "merge_agent h a =
     (let g = from_agent a in
      h\<lparr>h_agent := h_agent g, h_session := h_session g, h_runtime := h_runtime g,
        h_container := (if h_container g \<noteq> [] then h_container g else h_container h),
        h_branch := (if h_branch h = [] then h_branch g else h_branch h)\<rparr>)"

definition record_spawn ::
  "fresh \<Rightarrow> time \<Rightarrow> spawn_record \<Rightarrow> task \<Rightarrow> identity_store \<Rightarrow> identity_error + handle \<times> task \<times> identity_store" where
  "record_spawn fr now r tk s =
     (let h = \<lparr>h_task = sr_task r, h_agent = uuid_Nil, h_attempt = uuid_Nil, h_worker = sr_worker r,
                h_container = sr_container r, h_session = [], h_type = sr_type r, h_branch = sr_branch r,
                h_image = sr_image r, h_runtime = RuntimeContainer\<rparr> in
      res_bind (if sr_container r \<noteq> [] \<and> sr_type r \<noteq> ''merger''
                then res_bind (record_agent (fr ''agent'' 0) now r tk s) (\<lambda>(a, tk', s'). Inr (merge_agent h a, tk', s'))
                else Inr (h, tk, s)) (\<lambda>(h1, tk1, s1).
      res_bind (create_attempt (new_attempt (fr ''attempt'' 0) now r
                 (if h_agent h1 = uuid_Nil then None else Some (h_agent h1)) (sr_container r) WorkerAttemptRunning) s1) (\<lambda>s2.
      Inr (h1\<lparr>h_attempt := fr ''attempt'' 0\<rparr>, tk1, s2))))"

section \<open>Lookups\<close>

definition for_agent :: "uuid \<Rightarrow> identity_store \<Rightarrow> identity_error + handle" where
  "for_agent i s =
     (case find_agent i s of
        None \<Rightarrow> Inl ErrStoreRecordNotFound
      | Some ag \<Rightarrow>
          let h = from_agent ag in
          (case tbl_latest at_created at_id (\<lambda>a. at_agent a = Some i) (is_attempts s) of
             None \<Rightarrow> Inr h
           | Some a \<Rightarrow> Inr (h\<lparr>h_attempt := at_id a, h_worker := at_worker a, h_image := at_image a,
               h_container := (if h_container h = [] then at_container a else h_container h),
               h_branch := (if h_branch h = [] then at_branch a else h_branch h)\<rparr>)))"

definition for_task :: "task \<Rightarrow> identity_store \<Rightarrow> identity_error + handle" where
  "for_task tk s =
     (case t_agent tk of
        None \<Rightarrow> Inr \<lparr>h_task = t_id tk, h_agent = uuid_Nil, h_attempt = uuid_Nil, h_worker = [], h_container = [],
                     h_session = [], h_type = [], h_branch = [], h_image = [], h_runtime = RuntimeNone\<rparr>
      | Some i \<Rightarrow> res_bind (for_agent i s) (\<lambda>h. Inr (if h_task h = uuid_Nil then h\<lparr>h_task := t_id tk\<rparr> else h)))"

definition for_attempt :: "uuid \<Rightarrow> identity_store \<Rightarrow> identity_error + handle" where
  "for_attempt i s =
     (case tbl_first at_id (\<lambda>a. at_id a = i) (is_attempts s) of
        None \<Rightarrow> Inl ErrStoreRecordNotFound
      | Some a \<Rightarrow>
          (case at_agent a of
             None \<Rightarrow> Inr \<lparr>h_task = at_task a, h_agent = uuid_Nil, h_attempt = at_id a, h_worker = at_worker a,
                 h_container = at_container a, h_session = [], h_type = at_type a, h_branch = at_branch a,
                 h_image = at_image a, h_runtime = RuntimeContainer\<rparr>
           | Some j \<Rightarrow> res_bind (for_agent j s) (\<lambda>h. Inr (h\<lparr>h_attempt := at_id a, h_worker := at_worker a,
                 h_image := at_image a, h_container := (if h_container h = [] then at_container a else h_container h),
                 h_branch := (if h_branch h = [] then at_branch a else h_branch h)\<rparr>))))"

section \<open>Spawning a worker\<close>

text \<open>The part of \<open>spawnTypedWorker\<close> (\<open>worker_spawn.go\<close>) that is about identity: the spawner's answer is
  the container or an error.  The audit events, the branch registry and the removal of the container
  after a failed finalization are left out.  The second result is what \<open>ReserveSpawn\<close> put into the
  caller's copy of the task (\<open>r.Task.AssignedAgentID\<close>); an abort does not take it back.\<close>

definition spawn_worker ::
  "(nat \<Rightarrow> string option) \<Rightarrow> fresh \<Rightarrow> time \<Rightarrow> spawn_record \<Rightarrow> (reservation \<Rightarrow> string + string) \<Rightarrow> identity_store
   \<Rightarrow> (identity_error + handle) \<times> uuid option \<times> identity_store" where
  "spawn_worker busy fr now r spawner s =
     (case reserve_spawn busy fr now r s of
        Inl e \<Rightarrow> (Inl e, None, s)
      | Inr (res, s1) \<Rightarrow>
          (case spawner res of
             Inl m \<Rightarrow> (Inl (ErrSpawnFailed m), Some (rs_agent res), abort_reservation now res ''spawn_failed'' s1)
           | Inr container \<Rightarrow>
               (case finalize_spawn now res container s1 of
                  Inl e \<Rightarrow> (Inl e, Some (rs_agent res), abort_reservation now res ''finalize_failed'' s1)
                | Inr (h, s2) \<Rightarrow> (Inr h, Some (rs_agent res), s2))))"

end
