(* ===== verification/WorkerIdentityProperties.thy ===== *)
theory WorkerIdentityProperties
  imports WorkerIdentity
begin

text \<open>
  The store of worker identities as a transition system: every reachable store is well-formed, an
  ended attempt never changes, and a spawn either leaves the task with exactly the worker it returned
  or leaves every assignment as it was.
\<close>

section \<open>Statements\<close>

lemma claim_task_Inr:
  "claim_task now tid agent s = Inr s' \<longleftrightarrow>
     length (filter (\<lambda>t. t_id t = tid \<and> t_agent t = None) (is_tasks s)) = 1
     \<and> s' = s\<lparr>is_tasks := map (\<lambda>t. if t_id t = tid \<and> t_agent t = None then t\<lparr>t_agent := Some agent, t_updated := now\<rparr> else t) (is_tasks s)\<rparr>"
  by (auto simp: claim_task_def tbl_update_def)

lemma create_agent_Inr:
  "create_agent a s = Inr s' \<longleftrightarrow> ag_id a \<notin> ag_id ` set (is_agents s) \<and> s' = s\<lparr>is_agents := is_agents s @ [a]\<rparr>"
  by (auto simp: create_agent_def tbl_create_def agent_conflict_def list_ex_iff)

lemma create_attempt_Inr:
  "create_attempt a s = Inr s' \<longleftrightarrow> at_id a \<notin> at_id ` set (is_attempts s) \<and> s' = s\<lparr>is_attempts := is_attempts s @ [a]\<rparr>"
  by (auto simp: create_attempt_def tbl_create_def attempt_conflict_def list_ex_iff)

lemma uniq_agents: "uniq agent_conflict rows \<longleftrightarrow> distinct (map ag_id rows)"
  unfolding uniq_def agent_conflict_def by (induction rows) (auto simp: image_iff)

lemma uniq_attempts: "uniq attempt_conflict rows \<longleftrightarrow> distinct (map at_id rows)"
  unfolding uniq_def attempt_conflict_def by (induction rows) (auto simp: image_iff)

definition superseded :: "time \<Rightarrow> spawn_record \<Rightarrow> spawn_attempt \<Rightarrow> spawn_attempt" where
  "superseded now r a =
     (if at_task a = sr_task r \<and> at_type a = sr_type r \<and> at_branch a = sr_branch r \<and> at_completed a = None
      then a\<lparr>at_state := WorkerAttemptSuperseded, at_completed := Some now\<rparr> else a)"

lemma superseded_simps [simp]:
  "at_id (superseded now r a) = at_id a" "at_task (superseded now r a) = at_task a" "at_agent (superseded now r a) = at_agent a"
  "at_type (superseded now r a) = at_type a" "at_branch (superseded now r a) = at_branch a"
  by (simp_all add: superseded_def)

definition claimed :: "time \<Rightarrow> uuid \<Rightarrow> uuid \<Rightarrow> task \<Rightarrow> task" where
  "claimed now tid agent t = (if t_id t = tid \<and> t_agent t = None then t\<lparr>t_agent := Some agent, t_updated := now\<rparr> else t)"

lemma claimed_id [simp]: "t_id (claimed now tid agent t) = t_id t"
  by (simp add: claimed_def)

lemma map_key: "(\<And>x. f (g x) = f x) \<Longrightarrow> distinct (map f (map g xs)) = distinct (map f xs)"
  by (simp add: comp_def)

lemma reserve_transaction_Inr:
  assumes "reserve_transaction agent attempt now r s = Inr (res, s')"
  shows "res = reservation_of agent attempt r"
    and "length (filter (\<lambda>t. t_id t = sr_task r \<and> t_agent t = None) (is_tasks s)) = 1"
    and "agent \<notin> ag_id ` set (is_agents s)" and "attempt \<notin> at_id ` set (is_attempts s)"
    and "s' = \<lparr>is_tasks = map (claimed now (sr_task r) agent) (is_tasks s),
               is_agents = is_agents s @ [reserved_agent agent now r],
               is_attempts = map (superseded now r) (is_attempts s)
                 @ [new_attempt attempt now r (Some agent) [] WorkerAttemptReserved]\<rparr>"
proof -
  from assms obtain s1 s2 where c: "claim_task now (sr_task r) agent s = Inr s1" "create_agent (reserved_agent agent now r) s1 = Inr s2"
      "create_attempt (new_attempt attempt now r (Some agent) [] WorkerAttemptReserved) (supersede_attempts now r s2) = Inr s'"
      and "res = reservation_of agent attempt r"
    by (auto simp: reserve_transaction_def res_simps)
  then show "res = reservation_of agent attempt r" by simp
  note c1 = c(1)[unfolded claim_task_Inr] and c2 = c(2)[unfolded create_agent_Inr] and c3 = c(3)[unfolded create_attempt_Inr]
  from c1 show "length (filter (\<lambda>t. t_id t = sr_task r \<and> t_agent t = None) (is_tasks s)) = 1" by blast
  have sup: "supersede_attempts now r x = x\<lparr>is_attempts := map (superseded now r) (is_attempts x)\<rparr>" for x
    by (simp add: supersede_attempts_def tbl_update_def superseded_def[abs_def])
  have "at_id ` superseded now r ` A = at_id ` A" for A by (simp add: image_image)
  then show "attempt \<notin> at_id ` set (is_attempts s)"
    using c1 c2 c3 by (simp add: sup new_attempt_def)
  show "agent \<notin> ag_id ` set (is_agents s)" using c1 c2 by (simp add: reserved_agent_def)
  show "s' = \<lparr>is_tasks = map (claimed now (sr_task r) agent) (is_tasks s),
               is_agents = is_agents s @ [reserved_agent agent now r],
               is_attempts = map (superseded now r) (is_attempts s)
                 @ [new_attempt attempt now r (Some agent) [] WorkerAttemptReserved]\<rparr>"
    using c1 c2 c3 by (simp add: sup claimed_def[abs_def])
qed

lemma reserve_tries_Inr:
  "reserve_tries n k busy fr now r s = Inr q
    \<Longrightarrow> \<exists>j. reserve_transaction (fr ''agent'' j) (fr ''attempt'' j) now r s = Inr q"
  by (induction n k busy fr now r s rule: reserve_tries.induct) (auto split: option.splits if_splits)

section \<open>Well-formed stores\<close>

definition attempt_open :: "spawn_attempt \<Rightarrow> bool" where
  "attempt_open a \<longleftrightarrow> is_active_attempt_state (at_state a)"

definition worker_of :: "identity_store \<Rightarrow> uuid \<Rightarrow> uuid \<Rightarrow> bool" where
  "worker_of s a tid \<longleftrightarrow> (\<exists>g \<in> set (is_agents s). ag_id g = a \<and> ag_task g = Some tid \<and> ag_status g = AgentWorking)"

definition attempt_state_ok :: "spawn_attempt \<Rightarrow> bool" where
  "attempt_state_ok x \<longleftrightarrow> (attempt_open x \<longleftrightarrow> at_completed x = None)"

definition identity_ok :: "identity_store \<Rightarrow> bool" where
  "identity_ok s \<longleftrightarrow>
     distinct (map t_id (is_tasks s)) \<and> distinct (map ag_id (is_agents s)) \<and> distinct (map at_id (is_attempts s))
     \<and> (\<forall>t \<in> set (is_tasks s). \<forall>a. t_agent t = Some a \<longrightarrow> worker_of s a (t_id t))
     \<and> (\<forall>x \<in> set (is_attempts s). attempt_state_ok x)
     \<and> (\<forall>x \<in> set (is_attempts s). \<forall>a. at_agent x = Some a \<longrightarrow>
          (\<exists>g \<in> set (is_agents s). ag_id g = a \<and> (attempt_open x \<longrightarrow> ag_task g = Some (at_task x) \<and> ag_status g = AgentWorking)))
     \<and> (\<forall>x \<in> set (is_attempts s). \<forall>y \<in> set (is_attempts s). at_agent x = at_agent y \<longrightarrow> at_agent x \<noteq> None \<longrightarrow> x = y)
     \<and> (\<forall>x \<in> set (is_attempts s). \<forall>y \<in> set (is_attempts s). attempt_open x \<longrightarrow> attempt_open y
          \<longrightarrow> at_agent x \<noteq> None \<longrightarrow> at_agent y \<noteq> None
          \<longrightarrow> at_task x = at_task y \<longrightarrow> at_type x = at_type y \<longrightarrow> at_branch x = at_branch y \<longrightarrow> x = y)"

lemmas identity_okD = identity_ok_def [THEN iffD1]

text \<open>The steps of the concurrent callers; \<open>other\<close> stands for the handlers that clear assignments, create
  unassigned tasks and change the rows of agents that no assignment and no open attempt names.  The
  processing of a finished agent is not among these steps: it frees the agent first, and the exit
  handler ends the attempt afterwards.\<close>

definition agents_kept :: "task list \<Rightarrow> identity_store \<Rightarrow> agent list \<Rightarrow> bool" where
  "agents_kept rows s agents \<longleftrightarrow> distinct (map ag_id agents) \<and> ag_id ` set (is_agents s) \<subseteq> ag_id ` set agents
     \<and> (\<forall>g \<in> set (is_agents s). (\<exists>t \<in> set rows. t_agent t = Some (ag_id g))
          \<or> (\<exists>x \<in> set (is_attempts s). attempt_open x \<and> at_agent x = Some (ag_id g)) \<longrightarrow> g \<in> set agents)"

inductive identity_step :: "identity_store \<Rightarrow> identity_store \<Rightarrow> bool" where
  reserve: "reserve_spawn busy fr now r s = Inr (res, s') \<Longrightarrow> identity_step s s'"
| finalize: "finalize_spawn now res container s = Inr (h, s') \<Longrightarrow> identity_step s s'"
| abort: "identity_step s (abort_reservation now res reason s)"
| renew: "renew_lease i owner ttl now s = Inr s' \<Longrightarrow> identity_step s s'"
| finish: "finish_attempt i owner st e now s = Inr s' \<Longrightarrow> \<not> is_active_attempt_state st \<Longrightarrow> identity_step s s'"
| merger: "record_spawn fr now r tk s = Inr (h, tk', s') \<Longrightarrow> sr_type r = ''merger'' \<Longrightarrow> identity_step s s'"
| other: "distinct (map t_id rows) \<Longrightarrow>
    (\<And>t a. t \<in> set rows \<Longrightarrow> t_agent t = Some a \<Longrightarrow> \<exists>t' \<in> set (is_tasks s). t_id t' = t_id t \<and> t_agent t' = Some a)
    \<Longrightarrow> agents_kept rows s agents \<Longrightarrow> identity_step s (s\<lparr>is_tasks := rows, is_agents := agents\<rparr>)"

inductive identity_reachable :: "identity_store \<Rightarrow> bool" where
  start: "distinct (map t_id rows) \<Longrightarrow> (\<And>t. t \<in> set rows \<Longrightarrow> t_agent t = None)
    \<Longrightarrow> identity_reachable \<lparr>is_tasks = rows, is_agents = [], is_attempts = []\<rparr>"
| step: "identity_reachable s \<Longrightarrow> identity_step s s' \<Longrightarrow> identity_reachable s'"

inductive_cases identity_stepE: "identity_step s s'"

section \<open>Preservation\<close>

definition same_key :: "spawn_attempt \<Rightarrow> spawn_attempt \<Rightarrow> bool" where
  "same_key x y \<longleftrightarrow> at_id y = at_id x \<and> at_task y = at_task x \<and> at_agent y = at_agent x \<and> at_type y = at_type x
     \<and> at_branch y = at_branch x"

lemma same_key_refl [simp]: "same_key x x"
  by (simp add: same_key_def)

lemma ok_map_attempts:
  assumes "identity_ok s" "\<And>x. same_key x (f x)"
    and "\<And>x. x \<in> set (is_attempts s) \<Longrightarrow> attempt_state_ok (f x)"
    and "\<And>x. x \<in> set (is_attempts s) \<Longrightarrow> attempt_open (f x) \<Longrightarrow> attempt_open x"
  shows "identity_ok (s\<lparr>is_attempts := map f (is_attempts s)\<rparr>)"
proof -
  note ok = assms(1)[unfolded identity_ok_def]
  have k: "at_id (f x) = at_id x" "at_task (f x) = at_task x" "at_agent (f x) = at_agent x" "at_type (f x) = at_type x"
    "at_branch (f x) = at_branch x" for x using assms(2)[of x] by (simp_all add: same_key_def)
  show ?thesis
    unfolding identity_ok_def worker_of_def
  proof (intro conjI)
    show "distinct (map at_id (is_attempts (s\<lparr>is_attempts := map f (is_attempts s)\<rparr>)))" using ok by (simp add: comp_def k)
    show "\<forall>x \<in> set (is_attempts (s\<lparr>is_attempts := map f (is_attempts s)\<rparr>)). attempt_state_ok x"
      using assms(3) by simp
    show "\<forall>x \<in> set (is_attempts (s\<lparr>is_attempts := map f (is_attempts s)\<rparr>)). \<forall>a. at_agent x = Some a \<longrightarrow>
        (\<exists>g \<in> set (is_agents (s\<lparr>is_attempts := map f (is_attempts s)\<rparr>)). ag_id g = a
          \<and> (attempt_open x \<longrightarrow> ag_task g = Some (at_task x) \<and> ag_status g = AgentWorking))"
      using ok assms(4) by (simp add: k) meson
    show "\<forall>x \<in> set (is_attempts (s\<lparr>is_attempts := map f (is_attempts s)\<rparr>)).
        \<forall>y \<in> set (is_attempts (s\<lparr>is_attempts := map f (is_attempts s)\<rparr>)). at_agent x = at_agent y \<longrightarrow> at_agent x \<noteq> None \<longrightarrow> x = y"
      using ok by (simp add: k) metis
    show "\<forall>x \<in> set (is_attempts (s\<lparr>is_attempts := map f (is_attempts s)\<rparr>)).
        \<forall>y \<in> set (is_attempts (s\<lparr>is_attempts := map f (is_attempts s)\<rparr>)). attempt_open x \<longrightarrow> attempt_open y
          \<longrightarrow> at_agent x \<noteq> None \<longrightarrow> at_agent y \<noteq> None
          \<longrightarrow> at_task x = at_task y \<longrightarrow> at_type x = at_type y \<longrightarrow> at_branch x = at_branch y \<longrightarrow> x = y"
      using ok assms(4) by (simp add: k) metis
  qed (use ok in \<open>simp_all add: worker_of_def\<close>)
qed

lemma ok_map_agents:
  assumes "identity_ok s" "\<And>g. g \<in> set (is_agents s) \<Longrightarrow> ag_id (f g) = ag_id g \<and> ag_task (f g) = ag_task g \<and> ag_status (f g) = ag_status g"
  shows "identity_ok (s\<lparr>is_agents := map f (is_agents s)\<rparr>)"
proof -
  note ok = assms(1)[unfolded identity_ok_def]
  have ids: "map ag_id (map f (is_agents s)) = map ag_id (is_agents s)" using assms(2) by simp
  have ex: "(\<exists>g \<in> set (is_agents s). ag_id (f g) = a \<and> (c \<longrightarrow> ag_task (f g) = t \<and> ag_status (f g) = AgentWorking))
      \<longleftrightarrow> (\<exists>g \<in> set (is_agents s). ag_id g = a \<and> (c \<longrightarrow> ag_task g = t \<and> ag_status g = AgentWorking))" for a t c
    using assms(2) by auto
  have wk: "worker_of (s\<lparr>is_agents := map f (is_agents s)\<rparr>) = worker_of s"
    using ex[of _ True] by (intro ext) (simp add: worker_of_def)
  show ?thesis using ok unfolding identity_ok_def wk by (simp add: ids ex del: map_map)
qed

lemma ok_append_plain:
  assumes "identity_ok s" "at_id x \<notin> at_id ` set (is_attempts s)" "at_agent x = None" "attempt_state_ok x"
  shows "identity_ok (s\<lparr>is_attempts := is_attempts s @ [x]\<rparr>)"
  using assms unfolding identity_ok_def worker_of_def by simp

lemma open_of [simp]: "attempt_open (a\<lparr>at_lease := l\<rparr>) = attempt_open a"
  by (simp add: attempt_open_def)

lemma active_states [simp]:
  "is_active_attempt_state WorkerAttemptReserved" "is_active_attempt_state WorkerAttemptRunning"
  "\<not> is_active_attempt_state WorkerAttemptAborted" "\<not> is_active_attempt_state WorkerAttemptSuperseded"
  by (simp_all add: is_active_attempt_state_def attempt_state_defs)

lemma lease_update_Inr:
  "lease_update i owner now f s = Inr s' \<Longrightarrow>
     s' = s\<lparr>is_attempts := map (\<lambda>a. if lease_held i owner now a then f a else a) (is_attempts s)\<rparr>"
  by (auto simp: lease_update_def tbl_update_def split: if_splits)

lemma ok_lease_update:
  assumes "identity_ok s" "lease_update i owner now f s = Inr s'" "\<And>x. same_key x (f x)"
    and "\<And>x. lease_held i owner now x \<Longrightarrow> attempt_state_ok (f x)"
  shows "identity_ok s'"
proof -
  have "lease_held i owner now x \<Longrightarrow> attempt_open x" for x by (simp add: lease_held_def attempt_open_def)
  then show ?thesis unfolding lease_update_Inr[OF assms(2)] using assms(1,3,4)
    by (intro ok_map_attempts) (auto simp: identity_ok_def split: if_splits)
qed

lemma ok_renew:
  assumes "identity_ok s" "renew_lease i owner ttl now s = Inr s'"
  shows "identity_ok s'"
  by (rule ok_lease_update[OF assms(1) assms(2)[unfolded renew_lease_def]])
    (auto simp: same_key_def lease_held_def attempt_state_ok_def attempt_open_def)

lemma ok_finish:
  assumes "identity_ok s" "finish_attempt i owner st e now s = Inr s'" "\<not> is_active_attempt_state st"
  shows "identity_ok s'"
  by (rule ok_lease_update[OF assms(1) assms(2)[unfolded finish_attempt_def]])
    (use assms(3) in \<open>auto simp: same_key_def attempt_state_ok_def attempt_open_def\<close>)

lemma ok_merger:
  assumes "identity_ok s" "record_spawn fr now r tk s = Inr (h, tk', s')" "sr_type r = ''merger''"
  shows "identity_ok s'"
proof -
  from assms(2,3) have "create_attempt (new_attempt (fr ''attempt'' 0) now r None (sr_container r) WorkerAttemptRunning) s = Inr s'"
    by (auto simp: record_spawn_def res_simps Let_def split: if_splits)
  then show ?thesis
    by (auto simp: create_attempt_Inr new_attempt_def attempt_state_ok_def attempt_open_def intro!: ok_append_plain[OF assms(1)])
qed

lemma ok_other:
  assumes "identity_ok s" "distinct (map t_id rows)"
    and own: "\<And>t a. t \<in> set rows \<Longrightarrow> t_agent t = Some a \<Longrightarrow> \<exists>t' \<in> set (is_tasks s). t_id t' = t_id t \<and> t_agent t' = Some a"
    and kept: "agents_kept rows s agents"
  shows "identity_ok (s\<lparr>is_tasks := rows, is_agents := agents\<rparr>)"
proof -
  note ok = assms(1)[unfolded identity_ok_def]
  have w: "\<exists>g \<in> set agents. ag_id g = a \<and> ag_task g = Some (t_id t) \<and> ag_status g = AgentWorking"
    if t: "t \<in> set rows" "t_agent t = Some a" for t a
  proof -
    from own[OF t] ok obtain g where "g \<in> set (is_agents s)" "ag_id g = a" "ag_task g = Some (t_id t)" "ag_status g = AgentWorking"
      unfolding worker_of_def by metis
    moreover from this kept t have "g \<in> set agents" unfolding agents_kept_def by blast
    ultimately show ?thesis by blast
  qed
  have b: "\<exists>g \<in> set agents. ag_id g = a \<and> (attempt_open x \<longrightarrow> ag_task g = Some (at_task x) \<and> ag_status g = AgentWorking)"
    if x: "x \<in> set (is_attempts s)" "at_agent x = Some a" for x a
  proof -
    from ok x obtain g where g: "g \<in> set (is_agents s)" "ag_id g = a"
      "attempt_open x \<longrightarrow> ag_task g = Some (at_task x) \<and> ag_status g = AgentWorking" by blast
    show ?thesis
    proof (cases "attempt_open x")
      case True
      then show ?thesis using g x kept unfolding agents_kept_def by blast
    next
      case False
      then show ?thesis using g(1,2) kept unfolding agents_kept_def by (metis image_iff subset_iff)
    qed
  qed
  have d: "distinct (map ag_id agents)" using kept by (simp add: agents_kept_def)
  show ?thesis
    unfolding identity_ok_def worker_of_def using ok assms(2) d w b by simp
qed

lemma finalize_spawn_Inr:
  assumes "finalize_spawn now res container s = Inr (h, s')" "distinct (map ag_id (is_agents s))"
  shows "s' = s\<lparr>is_attempts := map (\<lambda>a. if at_id a = rs_attempt res \<and> at_agent a = Some (rs_agent res)
                   \<and> at_task a = rs_task res \<and> at_state a = WorkerAttemptReserved
                 then a\<lparr>at_container := container, at_state := WorkerAttemptRunning, at_lease := Some (now + default_lease_ttl)\<rparr>
                 else a) (is_attempts s),
               is_agents := map (\<lambda>a. if ag_id a = rs_agent res then a\<lparr>ag_session := container\<rparr> else a) (is_agents s)\<rparr>"
proof -
  from assms(1) obtain ag where ag: "find_agent (rs_agent res) s = Some ag"
    by (auto simp: finalize_spawn_def split: option.splits)
  then have "ag \<in> set (is_agents s)" "ag_id ag = rs_agent res" by (auto simp: find_agent_def dest: tbl_first_Some)
  then have agent: "ag \<in> set (is_agents s)" "ag_id ag = rs_agent res" by auto
  have rows: "map (\<lambda>a. if ag_id a = ag_id ag then ag\<lparr>ag_session := container\<rparr> else a) (is_agents s)
      = map (\<lambda>a. if ag_id a = rs_agent res then a\<lparr>ag_session := container\<rparr> else a) (is_agents s)"
  proof (rule map_cong[OF refl])
    fix x assume "x \<in> set (is_agents s)"
    then have "x = ag" if "ag_id x = rs_agent res"
      using key_eq[OF assms(2) _ agent(1)] that agent(2) by simp
    then show "(if ag_id x = ag_id ag then ag\<lparr>ag_session := container\<rparr> else x)
        = (if ag_id x = rs_agent res then x\<lparr>ag_session := container\<rparr> else x)"
      using agent(2) by auto
  qed
  have "s' = s\<lparr>is_attempts := map (\<lambda>a. if at_id a = rs_attempt res \<and> at_agent a = Some (rs_agent res)
                   \<and> at_task a = rs_task res \<and> at_state a = WorkerAttemptReserved
                 then a\<lparr>at_container := container, at_state := WorkerAttemptRunning, at_lease := Some (now + default_lease_ttl)\<rparr>
                 else a) (is_attempts s),
       is_agents := map (\<lambda>a. if ag_id a = ag_id ag then ag\<lparr>ag_session := container\<rparr> else a) (is_agents s)\<rparr>"
    using assms(1) ag by (simp add: finalize_spawn_def tbl_update_def Let_def split: if_splits)
  then show ?thesis unfolding rows .
qed

lemma ok_finalize:
  assumes "identity_ok s" "finalize_spawn now res container s = Inr (h, s')"
  shows "identity_ok s'"
proof -
  have d: "distinct (map ag_id (is_agents s))" using assms(1) by (simp add: identity_ok_def)
  let ?f = "\<lambda>a. if at_id a = rs_attempt res \<and> at_agent a = Some (rs_agent res)
        \<and> at_task a = rs_task res \<and> at_state a = WorkerAttemptReserved
      then a\<lparr>at_container := container, at_state := WorkerAttemptRunning, at_lease := Some (now + default_lease_ttl)\<rparr> else a"
  have "identity_ok (s\<lparr>is_attempts := map ?f (is_attempts s)\<rparr>)"
    by (rule ok_map_attempts[OF assms(1)]) (use assms(1) in \<open>auto simp: same_key_def attempt_open_def attempt_state_ok_def identity_ok_def split: if_splits\<close>)
  from ok_map_agents[OF this, of "\<lambda>a. if ag_id a = rs_agent res then a\<lparr>ag_session := container\<rparr> else a"]
  show ?thesis unfolding finalize_spawn_Inr[OF assms(2) d] by simp
qed

definition aborted :: "time \<Rightarrow> reservation \<Rightarrow> string \<Rightarrow> spawn_attempt \<Rightarrow> spawn_attempt" where
  "aborted now res reason a =
     (if at_id a = rs_attempt res \<and> at_agent a = Some (rs_agent res) \<and> at_task a = rs_task res \<and> attempt_open a
      then a\<lparr>at_state := WorkerAttemptAborted, at_completed := Some now, at_container := (if reason \<noteq> [] then [] else at_container a)\<rparr>
      else a)"

lemma aborted_simps [simp]:
  "at_id (aborted now res reason a) = at_id a" "at_task (aborted now res reason a) = at_task a"
  "at_agent (aborted now res reason a) = at_agent a" "at_type (aborted now res reason a) = at_type a"
  "at_branch (aborted now res reason a) = at_branch a"
  by (simp_all add: aborted_def)

text \<open>An abort concerns at most one attempt; when there is none, it changes nothing.\<close>

lemma abort_cases:
  assumes "distinct (map at_id (is_attempts s))"
  obtains (none) "abort_reservation now res reason s = s"
  | (one) x where "x \<in> set (is_attempts s)" "at_id x = rs_attempt res" "at_agent x = Some (rs_agent res)" "at_task x = rs_task res"
      "attempt_open x" "abort_reservation now res reason s = \<lparr>
        is_tasks = map (\<lambda>t. if t_id t = rs_task res \<and> t_agent t = Some (rs_agent res) then t\<lparr>t_agent := None, t_updated := now\<rparr> else t) (is_tasks s),
        is_agents = map (\<lambda>a. if ag_id a = rs_agent res then a\<lparr>ag_status := AgentDead, ag_completed := Some now, ag_exit := reason\<rparr> else a) (is_agents s),
        is_attempts = map (aborted now res reason) (is_attempts s)\<rparr>"
proof -
  let ?P = "\<lambda>a. at_id a = rs_attempt res \<and> at_agent a = Some (rs_agent res) \<and> at_task a = rs_task res \<and> is_active_attempt_state (at_state a)"
  show ?thesis
  proof (cases "\<exists>x \<in> set (is_attempts s). ?P x")
    case False
    then have "map (\<lambda>r. if ?P r then f r else r) (is_attempts s) = is_attempts s" for f by (intro map_idI) auto
    then have "fst (tbl_update ?P f (is_attempts s)) = is_attempts s" "snd (tbl_update ?P f (is_attempts s)) = 0" for f
      using False by (auto simp: tbl_update_def filter_empty_conv)
    then have "abort_reservation now res reason s = s" by (simp add: abort_reservation_def split_beta Let_def)
    then show ?thesis by (rule none)
  next
    case True
    then obtain x where x: "x \<in> set (is_attempts s)" "?P x" by blast
    have "filter ?P (is_attempts s) = filter (\<lambda>a. at_id a = at_id x) (is_attempts s)"
    proof (rule filter_cong[OF refl])
      fix a assume "a \<in> set (is_attempts s)"
      then have "a = x" if "at_id a = at_id x" using key_eq[OF assms _ x(1)] that by blast
      then show "?P a \<longleftrightarrow> at_id a = at_id x" using x(2) by auto
    qed
    then have one: "length (filter ?P (is_attempts s)) = 1" using one_row[OF assms x(1)] by simp
    show ?thesis
      by (rule that(2)[OF x(1)]) (use x(2) one in
        \<open>auto simp: abort_reservation_def tbl_update_def Let_def aborted_def[abs_def] attempt_open_def\<close>)
  qed
qed

lemma ok_abort:
  assumes "identity_ok s"
  shows "identity_ok (abort_reservation now res reason s)"
proof -
  note ok = assms[unfolded identity_ok_def]
  have "distinct (map at_id (is_attempts s))" using ok by blast
  then show ?thesis
  proof (cases rule: abort_cases[of s now res reason])
    case none
    then show ?thesis using assms by simp
  next
    case (one x)
    let ?a = "rs_agent res" and ?g = "\<lambda>a. if ag_id a = rs_agent res then a\<lparr>ag_status := AgentDead, ag_completed := Some now, ag_exit := reason\<rparr> else a"
    let ?t = "\<lambda>t. if t_id t = rs_task res \<and> t_agent t = Some ?a then t\<lparr>t_agent := None, t_updated := now\<rparr> else t"
    have g: "ag_id (?g a) = ag_id a" "ag_task (?g a) = ag_task a" for a by simp_all
    have only: "y = x" if "y \<in> set (is_attempts s)" "at_agent y = Some ?a" for y
      using ok that one(1,3) by (metis option.distinct(1))
    have owner: "t_id t = rs_task res" if "t \<in> set (is_tasks s)" "t_agent t = Some ?a" for t
    proof -
      from ok that obtain u where u: "u \<in> set (is_agents s)" "ag_id u = ?a" "ag_task u = Some (t_id t)" unfolding worker_of_def by blast
      from ok one(1,3,5) obtain v where v: "v \<in> set (is_agents s)" "ag_id v = ?a" "ag_task v = Some (at_task x)" by blast
      have "u = v" using key_eq[of ag_id "is_agents s" u v] ok u(1,2) v(1,2) by simp
      with u(3) v(3) one(4) show ?thesis by simp
    qed
    have keep: "\<exists>h \<in> ?g ` set (is_agents s). ag_id h = a \<and> (c \<longrightarrow> ag_task h = k \<and> ag_status h = AgentWorking)"
      if "\<exists>h \<in> set (is_agents s). ag_id h = a \<and> (c \<longrightarrow> ag_task h = k \<and> ag_status h = AgentWorking)" "a \<noteq> ?a \<or> \<not> c" for a k c
    proof -
      from that(1) obtain h where h: "h \<in> set (is_agents s)" "ag_id h = a" "c \<longrightarrow> ag_task h = k \<and> ag_status h = AgentWorking" by blast
      then show ?thesis using that(2) by (intro bexI[of _ "?g h"]) auto
    qed
    show ?thesis
      unfolding one(6) identity_ok_def worker_of_def identity_store.simps
    proof (intro conjI ballI allI impI)
      show "distinct (map t_id (map ?t (is_tasks s)))" using ok by (subst map_key) simp_all
      show "distinct (map ag_id (map ?g (is_agents s)))" using ok by (subst map_key) simp_all
      show "distinct (map at_id (map (aborted now res reason) (is_attempts s)))" using ok by (simp add: comp_def)
    next
      fix t a assume t: "t \<in> set (map ?t (is_tasks s))" "t_agent t = Some a"
      then obtain t0 where "t0 \<in> set (is_tasks s)" "t = ?t t0" unfolding set_map by blast
      then have t0: "t0 \<in> set (is_tasks s)" "t_id t = t_id t0" "t_agent t0 = Some a" "a \<noteq> ?a"
        using t(2) owner[of t0] by (auto split: if_splits)
      have "worker_of s a (t_id t0)" using ok t0(1,3) by blast
      then have "\<exists>h \<in> set (is_agents s). ag_id h = a \<and> (True \<longrightarrow> ag_task h = Some (t_id t) \<and> ag_status h = AgentWorking)"
        unfolding worker_of_def t0(2) by blast
      from keep[OF this] t0(4) show "\<exists>h \<in> set (map ?g (is_agents s)). ag_id h = a \<and> ag_task h = Some (t_id t) \<and> ag_status h = AgentWorking"
        by simp
    next
      fix y assume "y \<in> set (map (aborted now res reason) (is_attempts s))"
      then obtain y0 where "y0 \<in> set (is_attempts s)" "y = aborted now res reason y0" by auto
      moreover have "attempt_state_ok y0" using ok calculation(1) by blast
      ultimately show "attempt_state_ok y" by (auto simp: aborted_def attempt_state_ok_def attempt_open_def)
    next
      fix y a assume y: "y \<in> set (map (aborted now res reason) (is_attempts s))" "at_agent y = Some a"
      then obtain y0 where y0: "y0 \<in> set (is_attempts s)" "y = aborted now res reason y0" "at_agent y0 = Some a" by auto
      have "attempt_open y \<Longrightarrow> attempt_open y0" using y0(2) by (auto simp: aborted_def attempt_open_def split: if_splits)
      moreover from ok y0(1,3) have "\<exists>h \<in> set (is_agents s). ag_id h = a \<and> (attempt_open y0 \<longrightarrow> ag_task h = Some (at_task y0) \<and> ag_status h = AgentWorking)"
        by blast
      ultimately have "\<exists>h \<in> set (is_agents s). ag_id h = a \<and> (attempt_open y \<longrightarrow> ag_task h = Some (at_task y0) \<and> ag_status h = AgentWorking)"
        by blast
      moreover have "a \<noteq> ?a \<or> \<not> attempt_open y"
      proof (cases "a = ?a")
        case True
        then have "y0 = x" using only y0(1,3) by blast
        then have "at_state y = WorkerAttemptAborted" using y0(2) one(2-5) by (simp add: aborted_def)
        then show ?thesis by (simp add: attempt_open_def)
      qed simp
      ultimately show "\<exists>h \<in> set (map ?g (is_agents s)). ag_id h = a \<and> (attempt_open y \<longrightarrow> ag_task h = Some (at_task y) \<and> ag_status h = AgentWorking)"
        using keep[of a "attempt_open y" "Some (at_task y)"] y0(2) by simp
    next
      fix y z assume "y \<in> set (map (aborted now res reason) (is_attempts s))" "z \<in> set (map (aborted now res reason) (is_attempts s))"
        "at_agent y = at_agent z" "at_agent y \<noteq> None"
      then obtain y0 z0 where "y0 \<in> set (is_attempts s)" "y = aborted now res reason y0" "z0 \<in> set (is_attempts s)" "z = aborted now res reason z0"
          "at_agent y0 = at_agent z0" "at_agent y0 \<noteq> None" by (auto simp del: not_None_eq)
      then show "y = z" using ok by blast
    next
      fix y z assume "y \<in> set (map (aborted now res reason) (is_attempts s))" "z \<in> set (map (aborted now res reason) (is_attempts s))"
        "attempt_open y" "attempt_open z" "at_agent y \<noteq> None" "at_agent z \<noteq> None" "at_task y = at_task z" "at_type y = at_type z" "at_branch y = at_branch z"
      moreover have "attempt_open (aborted now res reason q) \<Longrightarrow> attempt_open q" for q by (auto simp: aborted_def attempt_open_def split: if_splits)
      ultimately obtain y0 z0 where "y0 \<in> set (is_attempts s)" "y = aborted now res reason y0" "z0 \<in> set (is_attempts s)" "z = aborted now res reason z0"
          "attempt_open y0" "attempt_open z0" "at_agent y0 \<noteq> None" "at_agent z0 \<noteq> None" "at_task y0 = at_task z0" "at_type y0 = at_type z0"
          "at_branch y0 = at_branch z0" by (auto simp del: not_None_eq)
      then show "y = z" using ok by blast
    qed
  qed
qed

lemma ok_claim:
  assumes "identity_ok s" "length (filter (\<lambda>t. t_id t = sr_task r \<and> t_agent t = None) (is_tasks s)) = 1"
    and "agent \<notin> ag_id ` set (is_agents s)" "attempt \<notin> at_id ` set (is_attempts s)"
    and free: "\<And>x. x \<in> set (is_attempts s) \<Longrightarrow> attempt_open x \<Longrightarrow> at_task x = sr_task r \<Longrightarrow> at_type x = sr_type r
      \<Longrightarrow> at_branch x = sr_branch r \<Longrightarrow> at_agent x = None"
  shows "identity_ok \<lparr>is_tasks = map (claimed now (sr_task r) agent) (is_tasks s), is_agents = is_agents s @ [reserved_agent agent now r],
     is_attempts = is_attempts s @ [new_attempt attempt now r (Some agent) [] WorkerAttemptReserved]\<rparr>"
proof -
  note ok = assms(1)[unfolded identity_ok_def]
  let ?g = "reserved_agent agent now r" and ?x = "new_attempt attempt now r (Some agent) [] WorkerAttemptReserved"
  have g: "ag_id ?g = agent" "ag_task ?g = Some (sr_task r)" "ag_status ?g = AgentWorking" by (simp_all add: reserved_agent_def)
  have x: "at_id ?x = attempt" "at_agent ?x = Some agent" "at_task ?x = sr_task r" "at_type ?x = sr_type r" "at_branch ?x = sr_branch r"
    "attempt_open ?x" "at_completed ?x = None" by (simp_all add: new_attempt_def attempt_open_def)
  have new: "at_agent y \<noteq> Some agent" if "y \<in> set (is_attempts s)" for y using ok that assms(3) by (metis image_eqI)
  show ?thesis
    unfolding identity_ok_def worker_of_def identity_store.simps
  proof (intro conjI ballI allI impI)
    show "distinct (map t_id (map (claimed now (sr_task r) agent) (is_tasks s)))"
      using ok by (subst map_key) simp_all
    show "distinct (map ag_id (is_agents s @ [?g]))" using ok assms(3) by (simp add: g)
    show "distinct (map at_id (is_attempts s @ [?x]))" using ok assms(4) by (simp add: x)
  next
    fix t a assume t: "t \<in> set (map (claimed now (sr_task r) agent) (is_tasks s))" "t_agent t = Some a"
    then obtain t0 where t0: "t0 \<in> set (is_tasks s)" "t = claimed now (sr_task r) agent t0" by auto
    show "\<exists>h \<in> set (is_agents s @ [?g]). ag_id h = a \<and> ag_task h = Some (t_id t) \<and> ag_status h = AgentWorking"
    proof (cases "t_id t0 = sr_task r \<and> t_agent t0 = None")
      case True
      then show ?thesis using t(2) t0(2) g by (simp add: claimed_def)
    next
      case False
      then have "t = t0" using t0(2) by (auto simp: claimed_def)
      then show ?thesis using ok t0(1) t(2) unfolding worker_of_def by (metis Un_iff set_append)
    qed
  next
    fix y assume "y \<in> set (is_attempts s @ [?x])"
    then show "attempt_state_ok y" using ok x by (auto simp: attempt_state_ok_def)
  next
    fix y a assume y: "y \<in> set (is_attempts s @ [?x])" "at_agent y = Some a"
    show "\<exists>h \<in> set (is_agents s @ [?g]). ag_id h = a \<and> (attempt_open y \<longrightarrow> ag_task h = Some (at_task y) \<and> ag_status h = AgentWorking)"
    proof (cases "y = ?x")
      case True
      then show ?thesis using y(2) x g by simp
    next
      case False
      then show ?thesis using ok y by (metis Un_iff set_append set_ConsD empty_iff list.set(1) Un_insert_right insertE)
    qed
  next
    fix y z assume "y \<in> set (is_attempts s @ [?x])" "z \<in> set (is_attempts s @ [?x])" "at_agent y = at_agent z" "at_agent y \<noteq> None"
    then show "y = z" using ok new x(2) by auto
  next
    fix y z assume "y \<in> set (is_attempts s @ [?x])" "z \<in> set (is_attempts s @ [?x])" "attempt_open y" "attempt_open z"
      "at_agent y \<noteq> None" "at_agent z \<noteq> None" "at_task y = at_task z" "at_type y = at_type z" "at_branch y = at_branch z"
    then show "y = z" using ok free x by auto
  qed
qed

lemma ok_reserve_transaction:
  assumes "identity_ok s" "reserve_transaction agent attempt now r s = Inr (res, s')"
  shows "identity_ok s'"
proof -
  note e = reserve_transaction_Inr[OF assms(2)]
  let ?s = "s\<lparr>is_attempts := map (superseded now r) (is_attempts s)\<rparr>"
  have "identity_ok ?s"
    by (rule ok_map_attempts[OF assms(1)])
      (use assms(1) in \<open>auto simp: same_key_def identity_ok_def superseded_def attempt_state_ok_def attempt_open_def split: if_splits\<close>)
  then have "identity_ok \<lparr>is_tasks = map (claimed now (sr_task r) agent) (is_tasks ?s), is_agents = is_agents ?s @ [reserved_agent agent now r],
     is_attempts = is_attempts ?s @ [new_attempt attempt now r (Some agent) [] WorkerAttemptReserved]\<rparr>"
  proof (rule ok_claim)
    fix x assume x: "x \<in> set (is_attempts ?s)" "attempt_open x" "at_task x = sr_task r" "at_type x = sr_type r" "at_branch x = sr_branch r"
    then obtain y where y: "y \<in> set (is_attempts s)" "x = superseded now r y" by auto
    have "attempt_state_ok y" using assms(1) y(1) by (simp add: identity_ok_def)
    then show "at_agent x = None" using x(2-5) y(2) by (auto simp: superseded_def attempt_state_ok_def attempt_open_def split: if_splits)
  qed (use e in \<open>auto simp: image_iff\<close>)
  then show ?thesis by (simp add: e(5))
qed

lemma ok_step: "identity_step s s' \<Longrightarrow> identity_ok s \<Longrightarrow> identity_ok s'"
proof (induction rule: identity_step.induct)
  case (reserve busy fr now r s res s')
  then show ?case using reserve_tries_Inr ok_reserve_transaction unfolding reserve_spawn_def by blast
qed (auto intro: ok_finalize ok_abort ok_renew ok_finish ok_merger ok_other)

lemma reachable_ok: "identity_reachable s \<Longrightarrow> identity_ok s"
proof (induction rule: identity_reachable.induct)
  case (start rows)
  then show ?case by (simp add: identity_ok_def)
qed (rule ok_step)

section \<open>A spawn from start to end\<close>

lemma tbl_latest_only:
  assumes "x \<in> set rows" "P x" "\<And>y. y \<in> set rows \<Longrightarrow> P y \<Longrightarrow> y = x"
  shows "tbl_latest cr k P rows = Some x"
proof (cases "tbl_latest cr k P rows")
  case None
  then show ?thesis using assms(1,2) by (simp add: tbl_latest_None)
next
  case (Some y)
  with tbl_latest_Some[OF this] assms(3) show ?thesis by blast
qed

lemma tbl_first_only:
  assumes "x \<in> set rows" "P x" "\<And>y. y \<in> set rows \<Longrightarrow> P y \<Longrightarrow> y = x"
  shows "tbl_first k P rows = Some x"
proof (cases "tbl_first k P rows")
  case None
  then show ?thesis using assms(1,2) by (simp add: tbl_first_None)
next
  case (Some y)
  with tbl_first_Some[OF this] assms(3) show ?thesis by blast
qed

definition assignments :: "identity_store \<Rightarrow> (uuid \<times> uuid option) list" where
  "assignments s = map (\<lambda>t. (t_id t, t_agent t)) (is_tasks s)"

definition assign :: "uuid \<Rightarrow> uuid \<Rightarrow> uuid \<times> uuid option \<Rightarrow> uuid \<times> uuid option" where
  "assign tid a p = (if fst p = tid then (tid, Some a) else p)"

definition reserved_store :: "uuid \<Rightarrow> uuid \<Rightarrow> time \<Rightarrow> spawn_record \<Rightarrow> identity_store \<Rightarrow> identity_store" where
  "reserved_store agent attempt now r s = \<lparr>is_tasks = map (claimed now (sr_task r) agent) (is_tasks s),
     is_agents = is_agents s @ [reserved_agent agent now r],
     is_attempts = map (superseded now r) (is_attempts s) @ [new_attempt attempt now r (Some agent) [] WorkerAttemptReserved]\<rparr>"

text \<open>What a reservation finds: the task is there once and free, and the identifiers are new.\<close>

definition reservable :: "uuid \<Rightarrow> uuid \<Rightarrow> spawn_record \<Rightarrow> identity_store \<Rightarrow> bool" where
  "reservable agent attempt r s \<longleftrightarrow> (\<exists>t \<in> set (is_tasks s). t_id t = sr_task r \<and> t_agent t = None)
     \<and> agent \<notin> ag_id ` set (is_agents s) \<and> attempt \<notin> at_id ` set (is_attempts s)"

lemma reserve_spawn_Inr:
  assumes "reserve_spawn busy fr now r s = Inr (res, s')"
  obtains agent attempt where "res = reservation_of agent attempt r" "s' = reserved_store agent attempt now r s"
    "reservable agent attempt r s"
proof -
  from reserve_tries_Inr[OF assms[unfolded reserve_spawn_def]] obtain j where
    j: "reserve_transaction (fr ''agent'' j) (fr ''attempt'' j) now r s = Inr (res, s')" by blast
  note e = reserve_transaction_Inr[OF j]
  have "filter (\<lambda>t. t_id t = sr_task r \<and> t_agent t = None) (is_tasks s) \<noteq> []" using e(2) by auto
  then have "\<exists>t \<in> set (is_tasks s). t_id t = sr_task r \<and> t_agent t = None" by (auto simp: filter_empty_conv)
  with e show ?thesis by (intro that) (auto simp: reserved_store_def reservable_def)
qed

definition finalized_store :: "uuid \<Rightarrow> uuid \<Rightarrow> time \<Rightarrow> spawn_record \<Rightarrow> string \<Rightarrow> identity_store \<Rightarrow> identity_store" where
  "finalized_store agent attempt now r c s = \<lparr>is_tasks = map (claimed now (sr_task r) agent) (is_tasks s),
     is_agents = is_agents s @ [(reserved_agent agent now r)\<lparr>ag_session := c\<rparr>],
     is_attempts = map (superseded now r) (is_attempts s) @ [new_attempt attempt now r (Some agent) c WorkerAttemptRunning]\<rparr>"

definition spawned_handle :: "uuid \<Rightarrow> uuid \<Rightarrow> spawn_record \<Rightarrow> string \<Rightarrow> handle" where
  "spawned_handle agent attempt r c =
     \<lparr>h_task = sr_task r, h_agent = agent, h_attempt = attempt, h_worker = sr_worker r, h_container = c, h_session = [],
      h_type = sr_type r, h_branch = sr_branch r, h_image = sr_image r, h_runtime = RuntimeContainer\<rparr>"

lemma unmatched: "\<forall>x \<in> set xs. \<not> P x \<Longrightarrow> map (\<lambda>x. if P x then f x else x) xs = xs"
  by (induction xs) auto

lemma unmatched_filter: "\<forall>x \<in> set xs. \<not> P x \<Longrightarrow> filter P xs = []"
  by (simp add: filter_empty_conv)

lemma reserved_rows [simp]:
  "ag_id (reserved_agent agent now r) = agent" "ag_task (reserved_agent agent now r) = Some (sr_task r)"
  "ag_type (reserved_agent agent now r) = sr_type r" "ag_branch (reserved_agent agent now r) = sr_branch r"
  "at_id (new_attempt attempt now r a c st) = attempt" "at_agent (new_attempt attempt now r a c st) = a"
  "at_task (new_attempt attempt now r a c st) = sr_task r" "at_state (new_attempt attempt now r a c st) = st"
  "at_type (new_attempt attempt now r a c st) = sr_type r" "at_branch (new_attempt attempt now r a c st) = sr_branch r"
  "at_worker (new_attempt attempt now r a c st) = sr_worker r" "at_image (new_attempt attempt now r a c st) = sr_image r"
  by (simp_all add: reserved_agent_def new_attempt_def)

lemma reservation_of_simps [simp]:
  "rs_task (reservation_of agent attempt r) = sr_task r" "rs_agent (reservation_of agent attempt r) = agent"
  "rs_attempt (reservation_of agent attempt r) = attempt" "rs_worker (reservation_of agent attempt r) = sr_worker r"
  "rs_type (reservation_of agent attempt r) = sr_type r" "rs_branch (reservation_of agent attempt r) = sr_branch r"
  "rs_image (reservation_of agent attempt r) = sr_image r"
  by (simp_all add: reservation_of_def)

lemma finalize_reserved:
  assumes "reservable agent attempt r s"
  shows "finalize_spawn now (reservation_of agent attempt r) c (reserved_store agent attempt now r s)
    = Inr (spawned_handle agent attempt r c, finalized_store agent attempt now r c s)"
proof -
  from assms have n: "\<forall>x \<in> set (is_agents s). ag_id x \<noteq> agent" "\<forall>x \<in> set (is_attempts s). at_id x \<noteq> attempt"
    by (auto simp: reservable_def)
  have ag: "find_agent agent (reserved_store agent attempt now r s) = Some (reserved_agent agent now r)"
    unfolding find_agent_def by (rule tbl_first_only) (use n in \<open>auto simp: reserved_store_def\<close>)
  have g: "map (\<lambda>a. if ag_id a = agent then b else a) (is_agents s) = is_agents s" for b
    by (rule unmatched) (use n in simp)
  let ?P = "\<lambda>a. at_id a = attempt \<and> at_agent a = Some agent \<and> at_task a = sr_task r \<and> at_state a = WorkerAttemptReserved"
  have old: "\<forall>x \<in> set (map (superseded now r) (is_attempts s)). \<not> ?P x" using n by auto
  note m = unmatched[OF old] unmatched_filter[OF old]
  show ?thesis
    unfolding finalize_spawn_def reservation_of_simps ag option.case tbl_update_def
    by (simp add: reserved_store_def filter_append m g finalized_store_def spawned_handle_def del: map_map filter_map)
      (simp add: new_attempt_def)
qed

lemma abort_reserved:
  fixes now reason
  assumes "reservable agent attempt r s" and ok: "identity_ok s"
  defines "s' \<equiv> abort_reservation now (reservation_of agent attempt r) reason (reserved_store agent attempt now r s)"
  shows "assignments s' = assignments s"
    and "\<And>x. x \<in> set (is_attempts s') \<Longrightarrow> attempt_open x \<Longrightarrow> x \<in> set (is_attempts s)"
proof -
  from assms have n: "\<forall>x \<in> set (is_agents s). ag_id x \<noteq> agent" "\<forall>x \<in> set (is_attempts s). at_id x \<noteq> attempt"
    by (auto simp: reservable_def)
  have no: "t_agent t \<noteq> Some agent" if "t \<in> set (is_tasks s)" for t
    using ok that n(1) unfolding identity_ok_def worker_of_def by metis
  let ?P = "\<lambda>a. at_id a = attempt \<and> at_agent a = Some agent \<and> at_task a = sr_task r \<and> is_active_attempt_state (at_state a)"
  have old: "\<forall>x \<in> set (map (superseded now r) (is_attempts s)). \<not> ?P x" using n by auto
  note m = unmatched[OF old] unmatched_filter[OF old]
  show "assignments s' = assignments s"
    unfolding s'_def abort_reservation_def reservation_of_simps tbl_update_def
    by (simp add: reserved_store_def filter_append m assignments_def del: map_map filter_map)
      (auto simp: claimed_def dest: no)
  show "x \<in> set (is_attempts s)" if "x \<in> set (is_attempts s')" "attempt_open x" for x
  proof -
    from that have "x \<in> superseded now r ` set (is_attempts s)"
      unfolding s'_def abort_reservation_def reservation_of_simps tbl_update_def
      by (auto simp add: reserved_store_def filter_append m attempt_open_def simp del: map_map filter_map split: if_splits)
    then show ?thesis using that(2) by (auto simp: superseded_def attempt_open_def split: if_splits)
  qed
qed

lemma for_task_finalized:
  assumes "identity_ok s" "reservable agent attempt r s" "c \<noteq> []" "\<not> is_legacy_tmux_session c"
    and "t_id tk = sr_task r" "t_agent tk = Some agent"
  shows "for_task tk (finalized_store agent attempt now r c s) = Inr (spawned_handle agent attempt r c)"
proof -
  let ?f = "finalized_store agent attempt now r c s"
  from assms have n: "\<forall>x \<in> set (is_agents s). ag_id x \<noteq> agent" "\<forall>x \<in> set (is_attempts s). at_id x \<noteq> attempt"
    by (auto simp: reservable_def)
  have no: "at_agent x \<noteq> Some agent" if "x \<in> set (is_attempts s)" for x
    using assms(1) that n(1) unfolding identity_ok_def by metis
  have ag: "find_agent agent ?f = Some ((reserved_agent agent now r)\<lparr>ag_session := c\<rparr>)"
    unfolding find_agent_def by (rule tbl_first_only) (use n in \<open>auto simp: finalized_store_def\<close>)
  have at: "tbl_latest at_created at_id (\<lambda>a. at_agent a = Some agent) (is_attempts ?f)
      = Some (new_attempt attempt now r (Some agent) c WorkerAttemptRunning)"
    by (rule tbl_latest_only) (use no in \<open>auto simp: finalized_store_def\<close>)
  show ?thesis
    using assms(3-6) by (simp add: for_task_def for_agent_def ag at from_agent_def res_simps Let_def spawned_handle_def)
qed

lemma claimed_assignments:
  assumes "identity_ok s" "reservable agent attempt r s"
  shows "map (\<lambda>t. (t_id t, t_agent t)) (map (claimed now (sr_task r) agent) (is_tasks s))
    = map (assign (sr_task r) agent) (assignments s)" and "(sr_task r, None) \<in> set (assignments s)"
proof -
  from assms(2) obtain t0 where t0: "t0 \<in> set (is_tasks s)" "t_id t0 = sr_task r" "t_agent t0 = None"
    by (auto simp: reservable_def)
  then show "(sr_task r, None) \<in> set (assignments s)" by (force simp: assignments_def)
  have d: "distinct (map t_id (is_tasks s))" using assms(1) by (simp add: identity_ok_def)
  have "t_agent t = None" if "t \<in> set (is_tasks s)" "t_id t = sr_task r" for t
    using key_eq[OF d that(1) t0(1)] that(2) t0(2,3) by simp
  then show "map (\<lambda>t. (t_id t, t_agent t)) (map (claimed now (sr_task r) agent) (is_tasks s))
    = map (assign (sr_task r) agent) (assignments s)"
    by (auto simp: assignments_def assign_def claimed_def)
qed

lemma spawn_worker_cases:
  assumes "spawn_worker busy fr now r spawner s = (q, c, s')"
  obtains (unreserved) e where "q = Inl e" "c = None" "s' = s"
  | (failed) agent attempt m where "reservable agent attempt r s" "q = Inl (ErrSpawnFailed m)" "c = Some agent"
      "s' = abort_reservation now (reservation_of agent attempt r) ''spawn_failed'' (reserved_store agent attempt now r s)"
  | (spawned) agent attempt k where "reservable agent attempt r s" "q = Inr (spawned_handle agent attempt r k)" "c = Some agent"
      "spawner (reservation_of agent attempt r) = Inr k" "s' = finalized_store agent attempt now r k s"
proof (cases "reserve_spawn busy fr now r s")
  case (Inl e)
  then show ?thesis using assms by (intro unreserved) (auto simp: spawn_worker_def)
next
  case (Inr p)
  then obtain res s1 where p: "reserve_spawn busy fr now r s = Inr (res, s1)" by (cases p) simp
  from reserve_spawn_Inr[OF this] obtain agent attempt where e: "res = reservation_of agent attempt r"
    "s1 = reserved_store agent attempt now r s" "reservable agent attempt r s" .
  note fin = finalize_reserved[OF e(3), of now]
  show ?thesis
  proof (cases "spawner res")
    case (Inl m)
    then show ?thesis using assms p e by (intro failed[OF e(3)]) (auto simp: spawn_worker_def)
  next
    case (Inr k)
    then show ?thesis using assms p e fin[of k] by (intro spawned[OF e(3)]) (auto simp: spawn_worker_def)
  qed
qed

section \<open>Properties\<close>

text \<open>C33: every store that concurrent reservations, finalizations, aborts, renewals, completions and
  merger recordings reach is well-formed: an assigned task has a working agent that carries its id,
  an attempt is open exactly while it has no completion time, every attempt names an agent of its
  own task, and at most one attempt with an agent is open per task, type and branch.\<close>

theorem identity_store_wellformed: "identity_reachable s \<Longrightarrow> identity_ok s"
  by (rule reachable_ok)

text \<open>C34: a spawn that fails leaves every task's assignment as it was and no attempt of its own open;
  one that succeeds took a free task, assigned it to the agent of the returned handle and nothing
  else, leaves its attempt as the only open one of that task, type and branch, and the lookup by task
  gives the very handle back when the container id does not look like a legacy session name.\<close>

theorem spawn_worker_outcome:
  assumes "identity_ok s" "spawn_worker busy fr now r spawner s = (q, claim, s')"
  shows "case q of
      Inl e \<Rightarrow> assignments s' = assignments s \<and> (\<forall>x \<in> set (is_attempts s'). attempt_open x \<longrightarrow> x \<in> set (is_attempts s))
    | Inr h \<Rightarrow> (sr_task r, None) \<in> set (assignments s) \<and> assignments s' = map (assign (sr_task r) (h_agent h)) (assignments s)
        \<and> (\<forall>x \<in> set (is_attempts s'). attempt_open x \<and> at_task x = sr_task r \<and> at_type x = sr_type r \<and> at_branch x = sr_branch r
             \<longrightarrow> at_id x = h_attempt h \<and> at_container x = h_container h)
        \<and> (\<forall>tk \<in> set (is_tasks s'). t_id tk = sr_task r \<and> h_container h \<noteq> [] \<and> \<not> is_legacy_tmux_session (h_container h)
             \<longrightarrow> for_task tk s' = Inr h)"
  using assms(2)
proof (cases rule: spawn_worker_cases)
  case (failed agent attempt m)
  then show ?thesis using abort_reserved[OF failed(1) assms(1)] by simp
next
  case (spawned agent attempt c)
  let ?a = "new_attempt attempt now r (Some agent) c WorkerAttemptRunning"
  have as: "assignments s' = map (assign (sr_task r) agent) (assignments s)"
    unfolding claimed_assignments(1)[OF assms(1) spawned(1), symmetric, of now]
    by (simp add: assignments_def spawned(5) finalized_store_def)
  have only: "x = ?a" if x: "x \<in> set (is_attempts s')" "attempt_open x" "at_task x = sr_task r" "at_type x = sr_type r"
    "at_branch x = sr_branch r" for x
  proof (rule ccontr)
    assume "x \<noteq> ?a"
    with x(1) obtain y where y: "y \<in> set (is_attempts s)" "x = superseded now r y" by (auto simp: spawned(5) finalized_store_def)
    have "attempt_state_ok y" using assms(1) y(1) by (simp add: identity_ok_def)
    then show False using x(2-) y(2) by (auto simp: superseded_def attempt_state_ok_def attempt_open_def split: if_splits)
  qed
  have ft: "for_task tk s' = Inr (spawned_handle agent attempt r c)"
    if "tk \<in> set (is_tasks s')" "t_id tk = sr_task r" "c \<noteq> []" "\<not> is_legacy_tmux_session c" for tk
  proof -
    have "(t_id tk, t_agent tk) \<in> set (assignments s')" using that(1) by (auto simp: assignments_def)
    then have "t_agent tk = Some agent" using that(2) by (auto simp: as assign_def split: if_splits)
    then show ?thesis unfolding spawned(5) by (rule for_task_finalized[OF assms(1) spawned(1) that(3,4,2)])
  qed
  show ?thesis
    unfolding spawned(2) sum.case
    using claimed_assignments(2)[OF assms(1) spawned(1)] as only ft by (auto simp: spawned_handle_def new_attempt_def dest!: only)
qed simp

section \<open>Ended attempts and leases\<close>

lemma ended_closed: "identity_ok s \<Longrightarrow> x \<in> set (is_attempts s) \<Longrightarrow> \<not> attempt_open x \<Longrightarrow> at_completed x \<noteq> None"
  by (auto simp: identity_ok_def attempt_state_ok_def)

lemma frozen_step:
  "identity_step s s' \<Longrightarrow> identity_ok s \<Longrightarrow> x \<in> set (is_attempts s) \<Longrightarrow> \<not> attempt_open x \<Longrightarrow> x \<in> set (is_attempts s')"
proof (induction rule: identity_step.induct)
  case (reserve busy fr now r s res s')
  from reserve_spawn_Inr[OF this(1)] obtain agent attempt where "s' = reserved_store agent attempt now r s" .
  moreover have "superseded now r x = x" using ended_closed[OF reserve(2-4)] by (auto simp: superseded_def)
  then have "x \<in> superseded now r ` set (is_attempts s)" using reserve(3) by (metis image_eqI)
  ultimately show ?case by (simp add: reserved_store_def)
next
  case (finalize now res container s h s')
  have "distinct (map ag_id (is_agents s))" using finalize(2) by (simp add: identity_ok_def)
  from finalize_spawn_Inr[OF finalize(1) this] show ?case using finalize(3,4) by (force simp: attempt_open_def)
next
  case (abort s now res reason)
  have "distinct (map at_id (is_attempts s))" using abort(1) by (simp add: identity_ok_def)
  then show ?case
  proof (cases rule: abort_cases[of s now res reason])
    case (one y)
    have "aborted now res reason x = x" using abort(3) by (simp add: aborted_def)
    then show ?thesis using abort(2) by (force simp: one(6))
  qed (use abort in simp)
next
  case (renew i owner ttl now s s')
  then show ?case by (force dest!: lease_update_Inr simp: renew_lease_def lease_held_def attempt_open_def)
next
  case (finish i owner st e now s s')
  then show ?case by (force dest!: lease_update_Inr simp: finish_attempt_def lease_held_def attempt_open_def)
next
  case (merger fr now r tk s h tk' s')
  then show ?case by (auto simp: record_spawn_def res_simps create_attempt_Inr Let_def)
qed simp

text \<open>C35: an attempt that has ended stays the row it is, whatever the concurrent callers do next: its
  outcome, its error and its container are never overwritten.\<close>

theorem ended_attempts_frozen:
  assumes "identity_reachable s" "identity_step\<^sup>*\<^sup>* s s'" "x \<in> set (is_attempts s)" "\<not> attempt_open x"
  shows "x \<in> set (is_attempts s')"
proof -
  from assms(2) have "identity_reachable s' \<and> x \<in> set (is_attempts s')"
    by (induction rule: rtranclp_induct) (use assms in \<open>auto intro: identity_reachable.step frozen_step reachable_ok\<close>)
  then show ?thesis by simp
qed

lemma lease_update_result:
  assumes "distinct (map at_id (is_attempts s))"
  shows "lease_update i owner now f s =
    (if \<exists>a \<in> set (is_attempts s). lease_held i owner now a
     then Inr (s\<lparr>is_attempts := map (\<lambda>a. if at_id a = i then f a else a) (is_attempts s)\<rparr>)
     else Inl (classify_lease_miss i owner now s))"
proof (cases "\<exists>a \<in> set (is_attempts s). lease_held i owner now a")
  case True
  then obtain x where x: "x \<in> set (is_attempts s)" "lease_held i owner now x" by blast
  then have id: "at_id x = i" by (simp add: lease_held_def)
  have h: "lease_held i owner now a \<longleftrightarrow> at_id a = at_id x" if "a \<in> set (is_attempts s)" for a
    using key_eq[OF assms that x(1)] x(2) id by (auto simp: lease_held_def)
  have "filter (lease_held i owner now) (is_attempts s) = filter (\<lambda>a. at_id a = at_id x) (is_attempts s)"
    by (rule filter_cong[OF refl h])
  then have "length (filter (lease_held i owner now) (is_attempts s)) = Suc 0" using one_row[OF assms x(1)] by simp
  moreover have "map (\<lambda>a. if lease_held i owner now a then f a else a) (is_attempts s)
      = map (\<lambda>a. if at_id a = i then f a else a) (is_attempts s)"
    using h by (intro map_cong) (auto simp: id)
  ultimately show ?thesis using True by (simp add: lease_update_def tbl_update_def)
next
  case False
  then have "filter (lease_held i owner now) (is_attempts s) = []" by (simp add: filter_empty_conv)
  then show ?thesis using False by (simp add: lease_update_def tbl_update_def)
qed

text \<open>C36: renewing a lease succeeds exactly when the attempt is open, belongs to the caller and its
  lease has not expired, and otherwise says which of these failed: no such attempt or another owner,
  an attempt that has ended (whoever asks), or an expired lease.\<close>

theorem lease_miss_exact:
  assumes "identity_ok s"
  shows "case tbl_first at_id (\<lambda>a. at_id a = i) (is_attempts s) of
      None \<Rightarrow> renew_lease i owner ttl now s = Inl ErrLeaseConflict
    | Some a \<Rightarrow> renew_lease i owner ttl now s =
        (if \<not> attempt_open a then Inl ErrAttemptTerminal
         else if at_owner a \<noteq> owner then Inl ErrLeaseConflict
         else if \<exists>e. at_lease a = Some e \<and> e \<le> now then Inl ErrLeaseExpired
         else Inr (s\<lparr>is_attempts := map (\<lambda>b. if at_id b = i
           then b\<lparr>at_lease := Some (now + (if ttl \<le> 0 then 120000000000 else ttl))\<rparr> else b) (is_attempts s)\<rparr>))"
proof (cases "tbl_first at_id (\<lambda>a. at_id a = i) (is_attempts s)")
  case None
  then have "\<forall>a \<in> set (is_attempts s). \<not> lease_held i owner now a" by (auto simp: tbl_first_None lease_held_def)
  moreover have "distinct (map at_id (is_attempts s))" using assms by (simp add: identity_ok_def)
  ultimately show ?thesis using None by (simp add: renew_lease_def lease_update_result classify_lease_miss_def)
next
  case (Some a)
  have d: "distinct (map at_id (is_attempts s))" using assms by (simp add: identity_ok_def)
  from tbl_first_Some[OF Some] have a: "a \<in> set (is_attempts s)" "at_id a = i" by auto
  have held: "(\<exists>b \<in> set (is_attempts s). lease_held i owner now b) \<longleftrightarrow> lease_held i owner now a"
  proof
    assume "\<exists>b \<in> set (is_attempts s). lease_held i owner now b"
    then obtain b where b: "b \<in> set (is_attempts s)" "lease_held i owner now b" by blast
    then have "at_id b = at_id a" using a(2) by (simp add: lease_held_def)
    with key_eq[OF d b(1) a(1)] b(2) show "lease_held i owner now a" by simp
  qed (use a in blast)
  have st: "attempt_open a \<longleftrightarrow> at_completed a = None" using assms a(1) by (simp add: identity_ok_def attempt_state_ok_def)
  show ?thesis
    unfolding Some option.case renew_lease_def lease_update_result[OF d] held
    using a(2) st by (auto simp: lease_held_def classify_lease_miss_def Some attempt_open_def default_lease_ttl_def split: option.splits)
qed

section \<open>Witnesses\<close>

definition sample_spawn :: spawn_record where
  "sample_spawn = \<lparr>sr_task = ''t1'', sr_project = ''p1'', sr_type = ''coder'', sr_worker = ''w1'', sr_container = [],
     sr_image = ''img'', sr_branch = ''feature/x'', sr_base = ''abc'', sr_provider = [], sr_model = [], sr_effort = [],
     sr_assets = [], sr_prompt_hash = [], sr_prompt_path = []\<rparr>"

definition sample_identity :: identity_store where
  "sample_identity = \<lparr>is_tasks = [sample_task], is_agents = [], is_attempts = []\<rparr>"

definition reserved_identity :: identity_store where
  "reserved_identity = reserved_store ''agent'' ''attempt'' 5 sample_spawn sample_identity"

definition spawned_identity :: identity_store where
  "spawned_identity = finalized_store ''agent'' ''attempt'' 5 sample_spawn ''c1'' sample_identity"

lemma sample_identity_reachable: "identity_reachable sample_identity"
  unfolding sample_identity_def by (rule identity_reachable.start) (simp_all add: sample_task_def)

lemma reserved_identity_eq:
  "reserve_spawn (\<lambda>k. None) sample_fresh 5 sample_spawn sample_identity = Inr (reservation_of ''agent'' ''attempt'' sample_spawn, reserved_identity)"
  by (simp add: reserve_spawn_def eval_nat_numeral sample_fresh_def reserve_transaction_def claim_task_def tbl_update_def
      create_agent_def create_attempt_def tbl_create_def supersede_attempts_def sample_identity_def sample_task_def
      sample_spawn_def reserved_identity_def reserved_store_def res_simps claimed_def)

lemma sample_reservable: "reservable ''agent'' ''attempt'' sample_spawn sample_identity"
  by (simp add: reservable_def sample_identity_def sample_task_def sample_spawn_def)

lemma reserved_identity_reachable: "identity_reachable reserved_identity"
  by (rule identity_reachable.step[OF sample_identity_reachable identity_step.reserve[OF reserved_identity_eq]])

lemma spawned_identity_eq:
  "finalize_spawn 5 (reservation_of ''agent'' ''attempt'' sample_spawn) ''c1'' reserved_identity
     = Inr (spawned_handle ''agent'' ''attempt'' sample_spawn ''c1'', spawned_identity)"
  unfolding reserved_identity_def spawned_identity_def by (rule finalize_reserved[OF sample_reservable])

lemma spawned_identity_reachable: "identity_reachable spawned_identity"
  by (rule identity_reachable.step[OF reserved_identity_reachable identity_step.finalize[OF spawned_identity_eq]])

lemma identity_store_wellformed_witness:
  "identity_ok spawned_identity \<and> map at_state (is_attempts spawned_identity) = [WorkerAttemptRunning]
   \<and> assignments spawned_identity = [(''t1'', Some ''agent'')]"
proof (intro conjI)
  show "identity_ok spawned_identity" by (rule identity_store_wellformed[OF spawned_identity_reachable])
  show "map at_state (is_attempts spawned_identity) = [WorkerAttemptRunning]" unfolding spawned_identity_def by code_simp
  show "assignments spawned_identity = [(''t1'', Some ''agent'')]" unfolding spawned_identity_def by code_simp
qed

lemma sample_spawn_result:
  "spawn_worker (\<lambda>k. None) sample_fresh 5 sample_spawn (\<lambda>_. Inr ''c1'') sample_identity
     = (Inr (spawned_handle ''agent'' ''attempt'' sample_spawn ''c1''), Some ''agent'', spawned_identity)"
  by (simp add: spawn_worker_def reserved_identity_eq spawned_identity_eq)

lemma spawn_worker_outcome_witness:
  "map (\<lambda>tk. for_task tk spawned_identity) (is_tasks spawned_identity)
     = [Inr (spawned_handle ''agent'' ''attempt'' sample_spawn ''c1'')]"
proof -
  from spawn_worker_outcome[OF reachable_ok[OF sample_identity_reachable] sample_spawn_result]
  have ft: "\<forall>tk \<in> set (is_tasks spawned_identity). t_id tk = ''t1'' \<longrightarrow>
      for_task tk spawned_identity = Inr (spawned_handle ''agent'' ''attempt'' sample_spawn ''c1'')"
    by (simp add: spawned_handle_def sample_spawn_def is_legacy_tmux_session_def)
  have "map t_id (is_tasks spawned_identity) = [''t1'']" unfolding spawned_identity_def by code_simp
  then show ?thesis using ft by (cases "is_tasks spawned_identity") auto
qed

definition ended_identity :: identity_store where
  "ended_identity = abort_reservation 6 (reservation_of ''agent'' ''attempt'' sample_spawn) ''spawn_failed'' reserved_identity"

definition ended_attempt :: spawn_attempt where
  "ended_attempt = (new_attempt ''attempt'' 5 sample_spawn (Some ''agent'') [] WorkerAttemptAborted)\<lparr>at_completed := Some 6\<rparr>"

lemma ended_attempts_frozen_witness:
  "ended_attempt \<in> set (is_attempts (abort_reservation 9 (reservation_of ''agent'' ''attempt'' sample_spawn) ''again'' ended_identity))"
proof (rule ended_attempts_frozen)
  show "identity_reachable ended_identity" unfolding ended_identity_def
    by (rule identity_reachable.step[OF reserved_identity_reachable identity_step.abort])
  show "identity_step\<^sup>*\<^sup>* ended_identity (abort_reservation 9 (reservation_of ''agent'' ''attempt'' sample_spawn) ''again'' ended_identity)"
    by (rule r_into_rtranclp) (rule identity_step.abort)
  have "is_attempts ended_identity = [ended_attempt]" unfolding ended_identity_def reserved_identity_def ended_attempt_def by code_simp
  then show "ended_attempt \<in> set (is_attempts ended_identity)" by simp
  show "\<not> attempt_open ended_attempt" by (simp add: ended_attempt_def attempt_open_def)
qed

lemma lease_miss_exact_witness:
  "renew_lease ''attempt'' ''w1'' 0 7 ended_identity = Inl ErrAttemptTerminal
   \<and> renew_lease ''other'' ''w1'' 0 7 ended_identity = Inl ErrLeaseConflict"
proof -
  have ok: "identity_ok ended_identity" unfolding ended_identity_def
    by (intro ok_abort reachable_ok reserved_identity_reachable)
  have one: "is_attempts ended_identity = [ended_attempt]" unfolding ended_identity_def reserved_identity_def ended_attempt_def by code_simp
  from lease_miss_exact[OF ok, of "''attempt''" "''w1''" 0 7] lease_miss_exact[OF ok, of "''other''" "''w1''" 0 7]
  show ?thesis by (simp add: one tbl_first_def ended_attempt_def attempt_open_def)
qed

end
