(* ===== verification/WorkerExits.thy ===== *)
theory WorkerExits
  imports MergeExecution WorkerIdentityProperties
begin

text \<open>
  \<open>internal/orchestrator/docker_events.go\<close> and \<open>checkpoint_resume.go\<close>: what the orchestrator does
  when the container of a worker exits, whether the event stream or the poll of a tick reports it,
  and how a failed worker is continued from its checkpoint.

  The world is the task database, the tables of the worker identities, the attempt events, the
  timestamps of the replacements, and the mutex \<open>workerLifecycleMu\<close>.  A handler that waits for a
  mutex that is held does not return: its result is \<open>None\<close>.

  The record \<open>exit_env\<close> holds what is outside: the container service (listing, inspecting, starting
  containers), git, the file system, the parsers of identifiers and times, and the parts of the
  orchestrator that prepare a worker (\<open>buildSpawnContext\<close>, \<open>ensureWorkerBranch\<close>), that check a
  branch (\<open>branchpolicy.Accept\<close>) and that process a finished agent (\<open>processAgentResult\<close>,
  \<open>onAgentCompleted\<close>).  Failures of the database other than its constraints, the token counts of an
  attempt and the messages to the terminal interface are left out.
\<close>

section \<open>Events\<close>

datatype event_type = EventStart | EventDie | EventOOM | EventDestroy

fun event_type_string :: "event_type \<Rightarrow> string" where
  "event_type_string EventStart = ''start''"
| "event_type_string EventDie = ''die''"
| "event_type_string EventOOM = ''oom''"
| "event_type_string EventDestroy = ''destroy''"

record worker_usage =
  wu_iterations :: int
  wu_tokens_in :: int
  wu_tokens_out :: int
  wu_context_pct :: int
  wu_stop_reason :: string
  wu_peak_request_input :: int
  wu_resumed_turns :: int
  wu_folded_bytes :: int

record container_event =
  ce_type :: event_type
  ce_container :: string
  ce_labels :: "(string \<times> string) list"
  ce_timestamp :: time
  ce_exit_code :: int
  ce_oom :: bool
  ce_usage :: "worker_usage option"

record inspect_result =
  ir_status :: string
  ir_exit_code :: int
  ir_finished :: time
  ir_oom :: bool
  ir_usage :: "worker_usage option"

definition label :: "container_event \<Rightarrow> string \<Rightarrow> string" where
  "label ev k = (case map_of (ce_labels ev) k of None \<Rightarrow> [] | Some v \<Rightarrow> v)"

definition parse_task_id_from_labels :: "(string \<Rightarrow> uuid option) \<Rightarrow> container_event \<Rightarrow> uuid option" where
  "parse_task_id_from_labels parse_id ev =
     (if label ev ''drem.task_id'' = [] then None else parse_id (label ev ''drem.task_id''))"

definition normalized_docker_exit_reason :: "container_event \<Rightarrow> string" where
  "normalized_docker_exit_reason ev =
     (if label ev ''drem.failure_class'' \<noteq> []
      then normalize_failure_class (label ev ''drem.failure_class'') (label ev ''drem.exit_summary'')
      else if ce_oom ev then ''infra_oom_killed''
      else if ce_exit_code ev = 0 then ''exit_zero''
      else if ce_exit_code ev = 124 then ''infra_timeout''
      else if ce_exit_code ev \<in> {126, 127} then ''tool_command_failure''
      else if ce_exit_code ev \<in> {130, 137, 143} then ''infra_terminated''
      else ''tool_exit_nonzero'')"

section \<open>The world\<close>

record attempt_event =
  ae_id :: uuid
  ae_task :: uuid
  ae_attempt :: uuid
  ae_state :: string
  ae_type :: string
  ae_details :: json_field
  ae_actor :: string
  ae_created :: time

text \<open>The primary key and \<open>idx_attempt_terminal_observed_once\<close>.\<close>

definition attempt_event_conflict :: "attempt_event \<Rightarrow> attempt_event \<Rightarrow> bool" where
  "attempt_event_conflict a b \<longleftrightarrow> ae_id a = ae_id b
     \<or> ae_type a = ''terminal_observed'' \<and> ae_type b = ''terminal_observed'' \<and> ae_attempt a = ae_attempt b"

interpretation attempt_events: unique_table attempt_event_conflict
  by unfold_locales (auto simp: attempt_event_conflict_def)

record worker_world =
  ww_db :: db
  ww_agents :: "agent list"
  ww_attempts :: "spawn_attempt list"
  ww_attempt_events :: "attempt_event list"
  ww_replacements :: "uuid \<Rightarrow> time list"
  ww_locked :: bool

definition identity_of :: "worker_world \<Rightarrow> identity_store" where
  "identity_of w = \<lparr>is_tasks = db_tasks (ww_db w), is_agents = ww_agents w, is_attempts = ww_attempts w\<rparr>"

definition with_identity :: "identity_store \<Rightarrow> worker_world \<Rightarrow> worker_world" where
  "with_identity s w = w\<lparr>ww_db := (ww_db w)\<lparr>db_tasks := is_tasks s\<rparr>, ww_agents := is_agents s, ww_attempts := is_attempts s\<rparr>"

text \<open>\<open>db.Create(evt)\<close> whose error is only logged.\<close>

definition add_event :: "task_event \<Rightarrow> worker_world \<Rightarrow> worker_world" where
  "add_event ev w = (case create_event ev (ww_db w) of Inl _ \<Rightarrow> w | Inr d \<Rightarrow> w\<lparr>ww_db := d\<rparr>)"

text \<open>A transition whose error is only logged.\<close>

definition settle :: "cas_result \<Rightarrow> worker_world \<Rightarrow> worker_world" where
  "settle r w = (case snd r of Inl _ \<Rightarrow> w | Inr d \<Rightarrow> w\<lparr>ww_db := d\<rparr>)"

section \<open>Replacements\<close>

definition replacement_cap :: nat where
  "replacement_cap = 3"

definition replacement_window :: duration where
  "replacement_window = 3600000000000"

definition record_and_count :: "uuid \<Rightarrow> time \<Rightarrow> (uuid \<Rightarrow> time list) \<Rightarrow> nat \<times> (uuid \<Rightarrow> time list)" where
  "record_and_count tid now ts =
     (let fresh = filter (\<lambda>t. now - replacement_window < t) (ts tid) @ [now] in (length fresh, ts(tid := fresh)))"

section \<open>Attempts\<close>

definition attempt_for_event :: "uuid \<Rightarrow> container_event \<Rightarrow> worker_world \<Rightarrow> spawn_attempt option" where
  "attempt_for_event tid ev w =
     (let by_container = (if ce_container ev = [] then None
            else tbl_latest at_created at_id (\<lambda>a. at_task a = tid \<and> at_container a = ce_container ev) (ww_attempts w));
          worker = label ev ''drem.worker_id'' in
      case by_container of
        Some a \<Rightarrow> Some a
      | None \<Rightarrow> if worker = [] then None
                else tbl_latest at_created at_id (\<lambda>a. at_task a = tid \<and> at_worker a = worker) (ww_attempts w))"

definition current_assigned_attempt :: "task \<Rightarrow> spawn_attempt \<Rightarrow> bool" where
  "current_assigned_attempt tk a \<longleftrightarrow> t_agent tk \<noteq> None \<and> at_agent a = t_agent tk"

definition active_worker_attempt :: "spawn_attempt \<Rightarrow> bool" where
  "active_worker_attempt a \<longleftrightarrow> at_completed a = None \<and> (at_state a = WorkerAttemptReserved \<or> at_state a = WorkerAttemptRunning)"

definition event_time :: "time \<Rightarrow> container_event \<Rightarrow> time" where
  "event_time now ev = (if ce_timestamp ev = zero_time then now else ce_timestamp ev)"

definition record_attempt_terminal_observation :: "uuid \<Rightarrow> time \<Rightarrow> spawn_attempt \<Rightarrow> container_event \<Rightarrow> worker_world \<Rightarrow> worker_world" where
  "record_attempt_terminal_observation eid now a ev w =
     (let row = \<lparr>ae_id = eid, ae_task = at_task a, ae_attempt = at_id a, ae_state = at_state a, ae_type = ''terminal_observed'',
            ae_details = Some [''container_id'' \<mapsto> GStr (at_container a), ''worker_id'' \<mapsto> GStr (at_worker a),
              ''exit_code'' \<mapsto> GInt (ce_exit_code ev), ''oom_killed'' \<mapsto> GBool (ce_oom ev),
              ''normalized_reason'' \<mapsto> GStr (normalized_docker_exit_reason ev)],
            ae_actor = ''spawner-lifecycle'', ae_created = event_time now ev\<rparr> in
      case tbl_create attempt_event_conflict row (ww_attempt_events w) of
        Inl _ \<Rightarrow> w | Inr rows \<Rightarrow> w\<lparr>ww_attempt_events := rows\<rparr>)"

definition show_bool :: "bool \<Rightarrow> string" where
  "show_bool b = (if b then ''true'' else ''false'')"

definition exit_evidence :: "container_event \<Rightarrow> string" where
  "exit_evidence ev = ''exit_code='' @ show_int (ce_exit_code ev) @ '' oom='' @ show_bool (ce_oom ev)"

definition observed_end :: "time \<Rightarrow> container_event \<Rightarrow> spawn_attempt \<Rightarrow> spawn_attempt" where
  "observed_end now ev a =
     (let ended = event_time now ev in
      if ce_exit_code ev = 0 \<and> \<not> ce_oom ev then a\<lparr>at_completed := Some ended, at_state := WorkerAttemptCompleted\<rparr>
      else a\<lparr>at_completed := Some ended, at_state := WorkerAttemptFailed, at_failed := Some ended,
             at_class := normalize_failure_class (normalized_docker_exit_reason ev) (exit_evidence ev),
             at_error := ''container '' @ ce_container ev @ '' exited with code '' @ show_int (ce_exit_code ev)
               @ '' (oom='' @ show_bool (ce_oom ev) @ '')''\<rparr>)"

definition finalize_observed_attempt :: "time \<Rightarrow> spawn_attempt \<Rightarrow> container_event \<Rightarrow> worker_world \<Rightarrow> worker_world" where
  "finalize_observed_attempt now a ev w = w\<lparr>ww_attempts := fst (tbl_update
     (\<lambda>x. at_id x = at_id a \<and> at_task x = at_task a \<and> at_completed x = None) (observed_end now ev) (ww_attempts w))\<rparr>"

section \<open>Audit events\<close>

definition record_container_lifecycle_event :: "uuid \<Rightarrow> time \<Rightarrow> uuid \<Rightarrow> container_event \<Rightarrow> worker_world \<Rightarrow> worker_world" where
  "record_container_lifecycle_event eid now tid ev w =
     add_event \<lparr>te_id = eid, te_task = tid, te_type = ''container_died'', te_old = [],
       te_new = normalized_docker_exit_reason ev,
       te_details = Some ([''container_id'' \<mapsto> GStr (ce_container ev), ''exit_code'' \<mapsto> GInt (ce_exit_code ev),
           ''oom_killed'' \<mapsto> GBool (ce_oom ev), ''event_type'' \<mapsto> GStr (event_type_string (ce_type ev)),
           ''worker_id'' \<mapsto> GStr (label ev ''drem.worker_id''), ''agent_type'' \<mapsto> GStr (label ev ''drem.agent_type''),
           ''normalized_reason'' \<mapsto> GStr (normalized_docker_exit_reason ev)]
         ++ (case attempt_for_event tid ev w of None \<Rightarrow> Map.empty
             | Some a \<Rightarrow> [''attempt_id'' \<mapsto> GStr (at_id a), ''attempt_state'' \<mapsto> GStr (at_state a)])),
       te_actor = ''docker-events'', te_created = now\<rparr> w"

definition record_worker_completion_evidence ::
  "uuid \<Rightarrow> time \<Rightarrow> uuid \<Rightarrow> spawn_attempt option \<Rightarrow> container_event \<Rightarrow> string \<Rightarrow> string \<Rightarrow> worker_world \<Rightarrow> worker_world" where
  "record_worker_completion_evidence eid now tid a ev outcome reason w =
     add_event \<lparr>te_id = eid, te_task = tid, te_type = ''worker_completion_evidence'', te_old = [], te_new = [],
       te_details = Some [''evidence'' \<mapsto> GMap
         [(''task_id'', GStr tid),
          (''attempt_id'', GStr (case a of None \<Rightarrow> [] | Some x \<Rightarrow> if at_id x = uuid_Nil then [] else at_id x)),
          (''actor'', GStr ''docker-events''), (''source'', GStr ''docker_exit_zero''), (''reason'', GStr outcome),
          (''normalized_reason'', GStr reason), (''timestamp'', GTime now),
          (''references'', GMap [(''container_id'', GStr (ce_container ev)), (''exit_code'', GInt (ce_exit_code ev)),
             (''worker_id'', GStr (label ev ''drem.worker_id'')), (''agent_type'', GStr (label ev ''drem.agent_type'')),
             (''outcome'', GStr outcome)])]],
       te_actor = ''docker-events'', te_created = now\<rparr> w"

section \<open>The environment\<close>

datatype spawn_error = ImageUnavailable string | SpawnError string

record journal_header =
  jh_version :: int
  jh_prompt_hash :: string
  jh_messages :: nat
  jh_next_iteration :: int
  jh_completed :: bool

record exit_env =
  xe_project :: uuid
  xe_parse_id :: "string \<Rightarrow> uuid option"
  xe_parse_time :: "string \<Rightarrow> time"
  xe_git :: "git option"
  xe_spawner :: bool
  xe_list :: "(string \<times> string) list option"
  xe_inspect :: "string \<Rightarrow> inspect_result option"
  xe_prepare :: "task \<Rightarrow> string \<Rightarrow> (string \<times> string) + spawn_record \<times> (reservation \<Rightarrow> string + string)"
  xe_busy :: "nat \<Rightarrow> string option"
  xe_message :: "identity_error \<Rightarrow> string"
  xe_file_hash :: "string \<Rightarrow> string option"
  xe_journal_path :: "uuid \<Rightarrow> string"
  xe_journal :: "string \<Rightarrow> journal_header option"
  xe_accept :: "spawn_attempt \<Rightarrow> task \<Rightarrow> task \<Rightarrow> bool option"
  xe_complete :: "uuid \<Rightarrow> worker_world \<Rightarrow> bool \<times> worker_world"
  xe_completed :: "agent \<Rightarrow> task \<Rightarrow> worker_world \<Rightarrow> bool \<times> worker_world"

section \<open>Spawning a replacement\<close>

definition assigned_agent_id_for_type :: "task \<Rightarrow> string \<Rightarrow> worker_world \<Rightarrow> uuid option" where
  "assigned_agent_id_for_type tk role w =
     (case Option.bind (t_agent tk) (\<lambda>i. find_agent i (identity_of w)) of
        None \<Rightarrow> None | Some ag \<Rightarrow> if ag_type ag = role then Some (ag_id ag) else None)"

definition record_spawn_event :: "uuid \<Rightarrow> time \<Rightarrow> task \<Rightarrow> string \<Rightarrow> spawn_record \<Rightarrow> handle \<Rightarrow> worker_world \<Rightarrow> worker_world" where
  "record_spawn_event eid now tk role r h w =
     add_event \<lparr>te_id = eid, te_task = t_id tk, te_type = ''worker_spawned'', te_old = [], te_new = role,
       te_details = Some ([''agent_type'' \<mapsto> GStr role, ''container_id'' \<mapsto> GStr (h_container h), ''image'' \<mapsto> GStr (sr_image r)]
         ++ (if h_attempt h \<noteq> uuid_Nil then [''attempt_id'' \<mapsto> GStr (h_attempt h)] else Map.empty)
         ++ (if sr_worker r \<noteq> [] then [''worker_id'' \<mapsto> GStr (sr_worker r)] else Map.empty)
         ++ (case assigned_agent_id_for_type tk role w of None \<Rightarrow> Map.empty | Some i \<Rightarrow> [''agent_id'' \<mapsto> GStr i])),
       te_actor = ''orchestrator'', te_created = now\<rparr> w"

definition spawn_failure :: "uuid \<Rightarrow> time \<Rightarrow> task \<Rightarrow> string \<Rightarrow> string \<Rightarrow> string \<Rightarrow> worker_world \<Rightarrow> worker_world" where
  "spawn_failure eid now tk role reason msg w = w\<lparr>ww_db := record_spawn_failure_event eid now tk role reason msg (ww_db w)\<rparr>"

text \<open>\<open>spawnTypedWorker\<close>: the audit event and the error of each outcome, and the spawn.  The second result
  is the caller's copy of the task, in which a reservation has set the agent, also when the spawn
  fails afterwards.\<close>

definition spawn_report ::
  "exit_env \<Rightarrow> uuid \<Rightarrow> time \<Rightarrow> task \<Rightarrow> string \<Rightarrow> spawn_record \<Rightarrow> bool \<Rightarrow> identity_error + handle \<Rightarrow> worker_world
   \<Rightarrow> (spawn_error + handle) \<times> worker_world" where
  "spawn_report env eid now tk role r reserved q w =
     (case q of
        Inr h \<Rightarrow> (Inr h, record_spawn_event eid now tk role r h w)
      | Inl (ErrSpawnFailed m) \<Rightarrow>
          if str_contains ''worker image unavailable'' m
          then let m' = ''worker image unavailable: '' @ m in
            (Inl (ImageUnavailable (''spawn '' @ role @ '' worker: '' @ m')), spawn_failure eid now tk role ''worker_image_unavailable'' m' w)
          else (Inl (SpawnError (''spawn '' @ role @ '' worker: '' @ m)), spawn_failure eid now tk role [] m w)
      | Inl e \<Rightarrow>
          let m = xe_message env e in
          if reserved
          then (Inl (SpawnError (''spawn '' @ role @ '' worker: finalize identity: '' @ m)),
                spawn_failure eid now tk role ''identity_finalize_failed'' m w)
          else (Inl (SpawnError (''spawn '' @ role @ '' worker: reserve identity: '' @ m)), spawn_failure eid now tk role
              (if e = ErrTaskAlreadyClaimed then ''worker_already_active'' else ''worker_reservation_failed'') m w))"

definition spawn_typed_worker ::
  "exit_env \<Rightarrow> fresh \<Rightarrow> time \<Rightarrow> task \<Rightarrow> string \<Rightarrow> worker_world \<Rightarrow> (spawn_error + handle) \<times> task \<times> worker_world" where
  "spawn_typed_worker env fr now tk role w =
     (let eid = fr ''spawn event'' 0 in
      if \<not> xe_spawner env then (Inl (SpawnError (''spawn '' @ role @ '': orchestrator has no WorkerSpawner configured'')), tk, w)
      else case xe_prepare env tk role of
        Inl (reason, msg) \<Rightarrow> (Inl (SpawnError (''spawn '' @ role @ '' worker: '' @ msg)), tk, spawn_failure eid now tk role reason msg w)
      | Inr (r0, answer) \<Rightarrow>
          let r = r0\<lparr>sr_task := t_id tk, sr_type := role\<rparr>;
              (q, claim, s) = spawn_worker (xe_busy env) fr now r answer (identity_of w);
              tk1 = (case claim of None \<Rightarrow> tk | Some a \<Rightarrow> tk\<lparr>t_agent := Some a\<rparr>);
              (res, w1) = spawn_report env eid now tk1 role r (claim \<noteq> None) q (with_identity s w) in
          (res, tk1, w1))"

text \<open>\<open>respawnWorkerRole\<close>: the launch service spawns and reads the rows back; its result is not used.\<close>

definition respawn_worker_role ::
  "exit_env \<Rightarrow> fresh \<Rightarrow> time \<Rightarrow> task \<Rightarrow> string \<Rightarrow> worker_world \<Rightarrow> spawn_error option \<times> task \<times> worker_world" where
  "respawn_worker_role env fr now tk role w =
     (if role = ''merger'' then (None, tk, w)
      else case spawn_typed_worker env fr now tk role w of
        (Inr h, tk1, w1) \<Rightarrow> (None, tk1, w1)
      | (Inl (ImageUnavailable m), tk1, w1) \<Rightarrow> (Some (ImageUnavailable (''launch replacement '' @ role @ '': '' @ m)), tk1, w1)
      | (Inl (SpawnError m), tk1, w1) \<Rightarrow> (Some (SpawnError (''launch replacement '' @ role @ '': '' @ m)), tk1, w1))"

section \<open>Continuing from a checkpoint\<close>

definition failure_context_keys :: "string list" where
  "failure_context_keys =
     [''failure_reason'', ''failure_class'', ''failure_diagnosis'', ''failure_category'',
      ''latest_failure_reason'', ''latest_failure_class'', ''latest_failure_type'',
      ''latest_failure_summary'', ''latest_failure_at'', ''latest_failure_current'',
      ''latest_failure_retry_edge'', ''latest_failure_retry_attempts'',
      ''latest_failure_retry_max'', ''latest_failure_retry_exhausted'',
      ''last_error'', ''prompt_adjustment'', ''empty_work'', ''constraint_violations'',
      ''retry_budgets'', ''schedule'']"

definition clear_codex_adoption_failure_context :: "task \<Rightarrow> task" where
  "clear_codex_adoption_failure_context tk =
     tk\<lparr>t_context := fold json_del failure_context_keys (case t_context tk of None \<Rightarrow> Some Map.empty | c \<Rightarrow> c)\<rparr>"

definition resume_status :: "task \<Rightarrow> task_status option" where
  "resume_status child =
     (if t_phase child = ''test'' then Some StatusTestWriting
      else if t_phase child \<in> {''implementation'', ''integration''} then Some StatusInProgress else None)"

definition latest_attempt :: "uuid \<Rightarrow> worker_world \<Rightarrow> spawn_attempt option" where
  "latest_attempt tid w =
     (case sort_key (\<lambda>a. - at_created a) (rev (sort_key at_id (filter (\<lambda>a. at_task a = tid) (ww_attempts w)))) of
        [] \<Rightarrow> None | a # _ \<Rightarrow> Some a)"

definition checkpoint_refs :: "exit_env \<Rightarrow> task \<Rightarrow> spawn_attempt \<Rightarrow> string \<Rightarrow> journal_header \<Rightarrow> (string \<times> gany) list" where
  "checkpoint_refs env child a head j =
     [(''attempt_id'', GStr (at_id a)), (''commit_sha'', GStr head), (''branch'', GStr (at_branch a)),
      (''journal_path'', GStr (xe_journal_path env (t_id child))), (''next_iteration'', GInt (jh_next_iteration j)),
      (''rendered_prompt_hash'', GStr (at_prompt_hash a)), (''journal_completed'', GBool (jh_completed j))]"

definition resume_conflict :: "string \<Rightarrow> err" where
  "resume_conflict m = ErrMsg (''checkpoint resume conflict: '' @ m)"

text \<open>The checks before the transaction: the failed child, its parent, its latest attempt, the status in
  which the parent resumes, the head of the branch and the journal.\<close>

definition admit_checkpoint ::
  "exit_env \<Rightarrow> uuid \<Rightarrow> string \<Rightarrow> worker_world \<Rightarrow> err + task \<times> task \<times> spawn_attempt \<times> task_status \<times> string \<times> journal_header" where
  "admit_checkpoint env tid sha w =
     (case xe_git env of None \<Rightarrow> Inl (ErrMsg ''resume failed checkpoint: no worktree manager configured'') | Some g \<Rightarrow>
      res_bind (load_task tid (ww_db w)) (\<lambda>child.
      case t_parent child of None \<Rightarrow> Inl (resume_conflict ''task must be a failed child'') | Some pid \<Rightarrow>
      res_bind (check (t_status child = StatusFailed) (resume_conflict ''task must be a failed child'')) (\<lambda>_.
      res_bind (of_option (resume_conflict ''child phase is not resumable'') (resume_status child)) (\<lambda>st.
      res_bind (load_task pid (ww_db w)) (\<lambda>parent.
      res_bind (check (t_status parent \<in> {StatusFailed, st} \<and> trim_space (t_branch parent) \<noteq> [])
          (resume_conflict ''parent must be failed or already resumed with an integration branch'')) (\<lambda>_.
      res_bind (check (\<not> list_ex (\<lambda>a. at_task a = tid \<and> active_worker_attempt a) (ww_attempts w))
          (resume_conflict ''child still has an active worker attempt'')) (\<lambda>_.
      res_bind (of_option (resume_conflict ''latest worker attempt unavailable'') (latest_attempt tid w)) (\<lambda>a.
      res_bind (check (at_base a \<noteq> [] \<and> at_branch a \<noteq> [] \<and> at_prompt_hash a \<noteq> [] \<and> at_prompt_path a \<noteq> [])
          (resume_conflict ''latest worker attempt lacks immutable branch or prompt identity'')) (\<lambda>_.
      res_bind (run_git g (g_bare g) [''rev-parse'', at_branch a]) (\<lambda>out.
      let head = trim_space out in
      res_bind (check (to_lower head = to_lower sha) (resume_conflict ''requested commit is not current branch head'')) (\<lambda>_.
      res_bind (of_option (resume_conflict ''read immutable rendered prompt'') (xe_file_hash env (at_prompt_path a))) (\<lambda>got.
      res_bind (check (to_lower got = to_lower (at_prompt_hash a)) (resume_conflict ''rendered prompt hash changed'')) (\<lambda>_.
      res_bind (of_option (resume_conflict ''decode durable turn journal'') (xe_journal env (xe_journal_path env tid))) (\<lambda>j.
      res_bind (check (jh_version j = 1 \<and> 0 < jh_next_iteration j \<and> 2 \<le> jh_messages j \<and> trim_space (jh_prompt_hash j) \<noteq> [])
          (resume_conflict ''durable turn journal is not a valid resumable checkpoint'')) (\<lambda>_.
      res_bind (of_option (ErrMsg ''resume failed checkpoint: branch acceptance'') (xe_accept env a child parent)) (\<lambda>accepted.
      res_bind (check accepted (resume_conflict ''checkpoint violates declared file scope'')) (\<lambda>_.
      Inr (child, parent, a, st, head, j))))))))))))))))))"

text \<open>The transaction.  It reads child and parent again; nothing comes between here, so the rows are
  the ones the checks have seen.\<close>

definition resume_transaction ::
  "fresh \<Rightarrow> time \<Rightarrow> string \<Rightarrow> (string \<times> gany) list \<Rightarrow> task_status \<Rightarrow> task \<Rightarrow> task \<Rightarrow> db \<Rightarrow> err + task \<times> db" where
  "resume_transaction fr now actor refs st child parent d =
     (let child1 = clear_codex_adoption_failure_context child;
          parent1 = clear_codex_adoption_failure_context parent;
          child2 = child1\<lparr>t_agent := None, t_branch := [], t_context := json_put ''checkpoint_resume'' (GMap refs) (t_context child1)\<rparr>;
          parent2 = parent1\<lparr>t_context := json_put ''checkpoint_resume'' (GMap refs) (t_context parent1)\<rparr> in
      case cas_task_transition (fr ''resume event'' 0) now child2 StatusFailed StatusInProgress actor ''checkpoint_resume''
             ''resuming incomplete worker from admitted checkpoint and durable journal'' refs d of
        (_, Inl e) \<Rightarrow> Inl e
      | (child3, Inr d1) \<Rightarrow>
          if t_status parent2 = StatusFailed
          then res_bind (snd (cas_task_transition (fr ''resume event'' 1) now parent2 StatusFailed st actor ''checkpoint_resume''
                 ''incomplete child checkpoint resumed parent pipeline'' refs d1)) (\<lambda>d2. Inr (child3, d2))
          else
            let (rows, affected) = tbl_update (\<lambda>t. t_id t = t_id parent2 \<and> t_status t = st \<and> t_version t = t_version parent2)
                  (\<lambda>t. t\<lparr>t_context := t_context parent2, t_version := t_version parent2 + 1, t_updated := now\<rparr>) (db_tasks d1) in
            if affected \<noteq> 1 then Inl (resume_conflict ''parent state changed during checkpoint resume'')
            else Inr (child3, d1\<lparr>db_tasks := rows\<rparr>))"

definition finish_checkpoint :: "exit_env \<Rightarrow> task \<Rightarrow> spawn_attempt \<Rightarrow> worker_world \<Rightarrow> (err + unit) \<times> worker_world" where
  "finish_checkpoint env child a w =
     (case at_agent a of None \<Rightarrow> (Inl (resume_conflict ''completed checkpoint lacks its worker agent identity''), w) | Some i \<Rightarrow>
      (case find_agent i (identity_of w) of
         None \<Rightarrow> (Inl ErrRecordNotFound, w)
       | Some ag \<Rightarrow>
           let (ok, w1) = xe_completed env (ag\<lparr>ag_branch := at_branch a, ag_task := Some (t_id child)\<rparr>) child w in
           (if ok then Inr () else Inl (ErrMsg ''resume failed checkpoint: finalize completed checkpoint''), w1)))"

definition resume_failed_checkpoint ::
  "exit_env \<Rightarrow> fresh \<Rightarrow> time \<Rightarrow> uuid \<Rightarrow> string \<Rightarrow> string \<Rightarrow> worker_world \<Rightarrow> ((err + unit) \<times> worker_world) option" where
  "resume_failed_checkpoint env fr now tid sha0 actor0 w =
     (let sha = trim_space sha0; actor = trim_space actor0 in
      if sha = [] \<or> actor = [] then Some (Inl (resume_conflict ''commit SHA and actor are required''), w)
      else if Option.is_none (xe_git env) then Some (Inl (ErrMsg ''resume failed checkpoint: no worktree manager configured''), w)
      else if ww_locked w then None
      else case admit_checkpoint env tid sha w of
        Inl e \<Rightarrow> Some (Inl e, w)
      | Inr (child, parent, a, st, head, j) \<Rightarrow>
          (case resume_transaction fr now actor (checkpoint_refs env child a head j) st child parent (ww_db w) of
             Inl e \<Rightarrow> Some (Inl e, w)
           | Inr (child1, d) \<Rightarrow>
               let w1 = w\<lparr>ww_db := d\<rparr> in
               if jh_completed j then
                 (case finish_checkpoint env child1 a (w1\<lparr>ww_locked := True\<rparr>) of (r, w2) \<Rightarrow> Some (r, w2\<lparr>ww_locked := False\<rparr>))
               else Some (Inr (), w1)))"

section \<open>A worker dies\<close>

text \<open>\<open>markWorkerAttemptDead\<close>: the agent, the attempt and the assignment of the task, each saved as the
  whole row it was read as.\<close>

definition dead_agent :: "time \<Rightarrow> container_event \<Rightarrow> agent \<Rightarrow> agent" where
  "dead_agent now ev ag =
     (let reason = (if ce_oom ev then ''killed'' else ''error'') in
      ag\<lparr>ag_status := AgentDead, ag_task := None, ag_completed := Some now, ag_exit := reason,
         ag_config := json_put ''exit_reason'' (GStr reason) (json_put ''oom_killed'' (GBool (ce_oom ev))
           (json_put ''exit_code'' (GFloat (of_int (ce_exit_code ev)))
             (json_put ''container_id'' (GStr (ce_container ev)) (ag_config ag))))\<rparr>)"

definition mark_worker_attempt_dead :: "time \<Rightarrow> task \<Rightarrow> spawn_attempt \<Rightarrow> container_event \<Rightarrow> worker_world \<Rightarrow> task \<times> worker_world" where
  "mark_worker_attempt_dead now tk a ev w =
     (if \<not> current_assigned_attempt tk a then (tk, w)
      else case Option.bind (at_agent a) (\<lambda>i. find_agent i (identity_of w)) of
        None \<Rightarrow> (tk, w)
      | Some ag \<Rightarrow>
          if ce_container ev \<noteq> [] \<and> ag_session ag \<noteq> [] \<and> ce_container ev \<noteq> ag_session ag then (tk, w)
          else
            let agents = map (\<lambda>x. if ag_id x = ag_id ag then dead_agent now ev ag else x) (ww_agents w);
                a1 = a\<lparr>at_state := WorkerAttemptFailed, at_completed := Some now\<rparr>;
                attempts = map (\<lambda>x. if at_id x = at_id a then a1 else x) (ww_attempts w);
                (tk1, d) = save_task now (tk\<lparr>t_agent := None\<rparr>) (ww_db w) in
            (tk1, w\<lparr>ww_db := d, ww_agents := agents, ww_attempts := attempts\<rparr>))"

definition prior_branch_acceptance_rejected :: "task \<Rightarrow> bool" where
  "prior_branch_acceptance_rejected tk =
     (case map_from_any (json_get (t_context tk) ''branch_acceptance'') of
        None \<Rightarrow> False
      | Some detail \<Rightarrow> map_of detail ''accepted'' = Some (GBool False))"

definition attempt_checkpoint :: "exit_env \<Rightarrow> spawn_attempt \<Rightarrow> err + string option" where
  "attempt_checkpoint env a =
     (case xe_git env of
        None \<Rightarrow> Inr None
      | Some g \<Rightarrow>
          if trim_space (at_base a) = [] \<or> trim_space (at_branch a) = [] then Inr None
          else res_bind (run_git g (g_bare g) [''rev-list'', ''--count'', at_base a @ ''..'' @ at_branch a]) (\<lambda>count.
            if trim_space count = ''0'' then Inr None
            else res_bind (run_git g (g_bare g) [''rev-parse'', at_branch a]) (\<lambda>sha. Inr (Some (trim_space sha)))))"

definition should_auto_continue_checkpoint :: "task \<Rightarrow> spawn_attempt \<Rightarrow> string \<Rightarrow> bool" where
  "should_auto_continue_checkpoint tk a reason \<longleftrightarrow>
     t_parent tk \<noteq> None \<and> trim_space (at_prompt_hash a) \<noteq> [] \<and> trim_space (at_prompt_path a) \<noteq> []
     \<and> trim_space reason \<in> {''token_budget'', ''timeout'', ''context_limit''}"

definition failure_reason :: "container_event \<Rightarrow> string" where
  "failure_reason ev =
     (case ce_usage ev of
        Some u \<Rightarrow> if trim_space (wu_stop_reason u) \<noteq> [] then wu_stop_reason u else normalized_docker_exit_reason ev
      | None \<Rightarrow> normalized_docker_exit_reason ev)"

text \<open>A worker that died after a commit: the task fails and keeps the checkpoint; some are continued
  at once.  The caller holds the mutex.\<close>

definition checkpoint_summary :: "string \<Rightarrow> spawn_attempt \<Rightarrow> string" where
  "checkpoint_summary sha a = ''worker stopped after creating checkpoint '' @ sha @ '' on '' @ at_branch a
     @ ''; preserved for bounded continuation or artifact handoff''"

definition checkpoint_task :: "task \<Rightarrow> spawn_attempt \<Rightarrow> container_event \<Rightarrow> string \<Rightarrow> task" where
  "checkpoint_task tk a ev sha = tk\<lparr>t_context := json_put ''checkpoint_handoff'' (GMap
     [(''attempt_id'', GStr (at_id a)), (''branch'', GStr (at_branch a)), (''sha'', GStr sha),
      (''original_failure_class'', GStr (normalize_failure_class (failure_reason ev) (exit_evidence ev))),
      (''original_failure_reason'', GStr (failure_reason ev))]) (t_context tk)\<rparr>"

definition hand_off_checkpoint ::
  "exit_env \<Rightarrow> fresh \<Rightarrow> time \<Rightarrow> task \<Rightarrow> spawn_attempt \<Rightarrow> container_event \<Rightarrow> string \<Rightarrow> worker_world \<Rightarrow> worker_world option" where
  "hand_off_checkpoint env fr now tk a ev sha w =
     (let tk1 = checkpoint_task tk a ev sha; summary = checkpoint_summary sha a;
          (budget, tk2) = consume_retry_budget (xe_parse_time env) tk1 (retry_edge_for_task tk1 (at_type a)) ''artifact_handoff'' summary now in
      case fail_task_with_failure_evidence (fr ''fail event'' 0) now tk2 ''worker checkpoint requires bounded artifact handoff''
             ''artifact_handoff'' summary now budget (ww_db w) of
        (_, Inl e) \<Rightarrow> Some w
      | (tk3, Inr d) \<Rightarrow>
          if should_auto_continue_checkpoint tk3 a (failure_reason ev)
          then map_option snd (resume_failed_checkpoint env fr now (t_id tk3) sha ''orchestrator:checkpoint-continuation'' (w\<lparr>ww_db := d\<rparr>))
          else Some (w\<lparr>ww_db := d\<rparr>))"

text \<open>The rest: the retry budget of the failure class, the cap on replacements, and the replacement.\<close>

definition retry_or_fail ::
  "exit_env \<Rightarrow> fresh \<Rightarrow> time \<Rightarrow> task \<Rightarrow> spawn_attempt \<Rightarrow> container_event \<Rightarrow> worker_world \<Rightarrow> worker_world" where
  "retry_or_fail env fr now tk a ev w =
     (let cls = normalize_failure_class (failure_reason ev) (exit_evidence ev);
          (budget, tk1) = consume_retry_budget (xe_parse_time env) tk (retry_edge_for_task tk (at_type a)) cls
            (''worker '' @ at_type a @ '' container '' @ ce_container ev @ '' exited with '' @ cls
              @ '' (stop_reason='' @ failure_reason ev @ '')'') now in
      if rb_exhausted budget
      then settle (fail_task_with_failure_evidence (fr ''fail event'' 0) now tk1
             (''retry budget exhausted for '' @ cls @ '' on '' @ rb_edge budget @ '' after '' @ show_int (rb_attempts budget) @ '' failure(s)'')
             cls (rb_last_summary budget) now budget (ww_db w)) w
      else
        let (tk2, d) = save_task now tk1 (ww_db w);
            (attempts, ts) = record_and_count (t_id tk2) now (ww_replacements w);
            w1 = w\<lparr>ww_db := d, ww_replacements := ts\<rparr> in
        if replacement_cap < attempts
        then settle (fail_task_with_failure_evidence (fr ''fail event'' 0) now tk2
               (''worker death cap exceeded ('' @ show_nat attempts @ ''/3 in 1h0m0s)'')
               cls (rb_last_summary budget) now budget (ww_db w1)) w1
        else case respawn_worker_role env fr now tk2 (at_type a) w1 of
          (Some (ImageUnavailable m), tk3, w2) \<Rightarrow> settle (fail_task (fr ''fail event'' 0) now tk3 m (ww_db w2)) w2
        | (_, tk3, w2) \<Rightarrow> w2)"

definition handle_worker_death ::
  "exit_env \<Rightarrow> fresh \<Rightarrow> time \<Rightarrow> task \<Rightarrow> spawn_attempt \<Rightarrow> container_event \<Rightarrow> worker_world \<Rightarrow> worker_world option" where
  "handle_worker_death env fr now tk a ev w =
     (case mark_worker_attempt_dead now tk a ev w of (tk1, w1) \<Rightarrow>
      if prior_branch_acceptance_rejected tk1 then
        let summary = ''worker retry interrupted after a prior deterministic branch-scope rejection'';
            (budget, tk2) = consume_retry_budget (xe_parse_time env) tk1 (retry_edge_for_task tk1 (at_type a)) ''branch_contamination'' summary now in
        Some (settle (fail_task_with_failure_evidence (fr ''fail event'' 0) now tk2
          ''worker branch rejected by deterministic scope acceptance'' ''branch_contamination'' summary now budget (ww_db w1)) w1)
      else (case attempt_checkpoint env a of
          Inr (Some sha) \<Rightarrow> hand_off_checkpoint env fr now tk1 a ev sha w1
        | _ \<Rightarrow> Some (retry_or_fail env fr now tk1 a ev w1)))"

section \<open>A worker ends normally\<close>

definition test_contract_rework_dispatched :: "task \<Rightarrow> spawn_attempt \<Rightarrow> bool" where
  "test_contract_rework_dispatched tk a \<longleftrightarrow>
     t_context tk \<noteq> None \<and> t_agent tk \<noteq> None \<and> at_agent a \<noteq> None \<and> t_agent tk \<noteq> at_agent a \<and> t_status tk = StatusInProgress
     \<and> map_from_any (json_get (t_context tk) ''test_contract_rework'') \<noteq> None"

definition is_terminal :: "task_status \<Rightarrow> bool" where
  "is_terminal s \<longleftrightarrow> s \<in> {StatusDone, StatusFailed, StatusRejected, StatusCancelled}"

definition observed_usage :: "exit_env \<Rightarrow> spawn_attempt \<Rightarrow> container_event \<Rightarrow> worker_usage option" where
  "observed_usage env a ev =
     (if \<not> xe_spawner env \<or> at_container a = [] then None
      else case ce_usage ev of
        Some u \<Rightarrow> Some u
      | None \<Rightarrow> Option.bind (xe_inspect env (at_container a)) ir_usage)"

definition is_merger_attempt :: "spawn_attempt \<Rightarrow> bool" where
  "is_merger_attempt a \<longleftrightarrow> at_type a = ''merger'' \<and> at_agent a = None"

text \<open>The outcomes of a completion: whether the attempt is finalized, and the evidence that is recorded.\<close>

definition finalize_if :: "bool \<Rightarrow> time \<Rightarrow> spawn_attempt \<Rightarrow> container_event \<Rightarrow> worker_world \<Rightarrow> worker_world" where
  "finalize_if c now a ev w = (if c then finalize_observed_attempt now a ev w else w)"

definition handle_worker_exit_zero :: "exit_env \<Rightarrow> fresh \<Rightarrow> time \<Rightarrow> uuid \<Rightarrow> container_event \<Rightarrow> worker_world \<Rightarrow> worker_world" where
  "handle_worker_exit_zero env fr now tid ev0 w =
     (let evidence = record_worker_completion_evidence (fr ''evidence'' 0) now tid in
      case load_task tid (ww_db w) of
        Inl e \<Rightarrow> w
      | Inr tk \<Rightarrow>
          (case attempt_for_event tid ev0 w of
             None \<Rightarrow> evidence None ev0 ''ignored'' ''unmatched_attempt'' w
           | Some a \<Rightarrow>
               let ev = ev0\<lparr>ce_usage := observed_usage env a ev0\<rparr>;
                   w1 = record_attempt_terminal_observation (fr ''attempt event'' 0) now a ev w;
                   active = active_worker_attempt a;
                   fin = (\<lambda>c. finalize_if c now a ev w1) in
               if is_merger_attempt a then evidence (Some a) ev ''accepted'' ''merger_exit_zero'' (fin True)
               else if is_terminal (t_status tk) \<or> t_status tk = StatusTestingReady then
                 (if active \<and> at_agent a \<noteq> None \<and> t_status tk \<in> {StatusDone, StatusTestingReady}
                  then evidence (Some a) ev ''accepted'' ''task_effect_already_applied'' (fin True)
                  else evidence (Some a) ev ''ignored'' ''terminal_task'' (fin active))
               else if \<not> current_assigned_attempt tk a then evidence (Some a) ev ''ignored'' ''stale_attempt'' (fin active)
               else if \<not> active then evidence (Some a) ev ''ignored'' ''finalized_attempt'' w1
               else (case at_agent a of
                   None \<Rightarrow> evidence (Some a) ev ''ignored'' ''attempt_without_agent'' w1
                 | Some i \<Rightarrow>
                     (case xe_complete env i w1 of
                        (False, w2) \<Rightarrow> evidence (Some a) ev ''failed'' ''completion_synthesis_failed'' w2
                      | (True, w2) \<Rightarrow>
                          (case load_task tid (ww_db w2) of
                             Inl e \<Rightarrow> evidence (Some a) ev ''failed'' ''accepted_task_reload_failed'' w2
                           | Inr accepted \<Rightarrow>
                               if t_status accepted \<notin> {StatusDone, StatusTestingReady} then
                                 (if test_contract_rework_dispatched accepted a
                                  then evidence (Some a) ev ''accepted'' ''test_contract_rework_dispatched'' w2
                                  else evidence (Some a) ev ''failed'' ''branch_acceptance_pending'' w2)
                               else evidence (Some a) ev ''accepted'' ''exit_zero_current_attempt''
                                 (finalize_observed_attempt now a ev w2))))))"

section \<open>Dispatching events\<close>

definition handle_abnormal_exit :: "exit_env \<Rightarrow> fresh \<Rightarrow> time \<Rightarrow> uuid \<Rightarrow> container_event \<Rightarrow> worker_world \<Rightarrow> worker_world option" where
  "handle_abnormal_exit env fr now tid ev0 w =
     (case load_task tid (ww_db w) of
        Inl e \<Rightarrow> Some w
      | Inr tk \<Rightarrow>
          (case attempt_for_event tid ev0 w of
             None \<Rightarrow> Some w
           | Some a \<Rightarrow>
               let ev = ev0\<lparr>ce_usage := observed_usage env a ev0\<rparr>;
                   w1 = record_attempt_terminal_observation (fr ''attempt event'' 0) now a ev w in
               if is_merger_attempt a then Some (finalize_observed_attempt now a ev w1)
               else if is_terminal (t_status tk) \<or> \<not> current_assigned_attempt tk a
               then Some (finalize_if (active_worker_attempt a) now a ev w1)
               else if \<not> active_worker_attempt a then Some w1
               else handle_worker_death env fr now tk a ev w1))"

text \<open>\<open>dispatchEvent\<close>, between \<open>workerLifecycleMu.Lock\<close> and \<open>Unlock\<close>.\<close>

definition dispatch_locked :: "exit_env \<Rightarrow> fresh \<Rightarrow> time \<Rightarrow> container_event \<Rightarrow> worker_world \<Rightarrow> worker_world option" where
  "dispatch_locked env fr now ev w =
     (if ce_type ev \<in> {EventStart, EventDestroy} then Some w
      else case parse_task_id_from_labels (xe_parse_id env) ev of
        None \<Rightarrow> Some w
      | Some tid \<Rightarrow>
          let w1 = record_container_lifecycle_event (fr ''lifecycle event'' 0) now tid ev w in
          if ce_exit_code ev = 0 \<and> \<not> ce_oom ev then Some (handle_worker_exit_zero env fr now tid ev w1)
          else handle_abnormal_exit env fr now tid ev w1)"

definition dispatch_event :: "exit_env \<Rightarrow> fresh \<Rightarrow> time \<Rightarrow> container_event \<Rightarrow> worker_world \<Rightarrow> worker_world option" where
  "dispatch_event env fr now ev w =
     (if ww_locked w then None
      else map_option (\<lambda>w'. w'\<lparr>ww_locked := False\<rparr>) (dispatch_locked env fr now ev (w\<lparr>ww_locked := True\<rparr>)))"

text \<open>\<open>watchDockerEvents\<close>: the events of the stream, each with its own clock and identifiers.\<close>

fun watch_docker_events :: "exit_env \<Rightarrow> (fresh \<times> time \<times> container_event) list \<Rightarrow> worker_world \<Rightarrow> worker_world option" where
  "watch_docker_events env [] w = Some w"
| "watch_docker_events env ((fr, now, ev) # evs) w =
     Option.bind (dispatch_event env fr now ev w) (watch_docker_events env evs)"

section \<open>The poll of a tick\<close>

definition terminal_container :: "string \<Rightarrow> bool" where
  "terminal_container s \<longleftrightarrow> s \<in> {''exited'', ''dead'', ''removed''}"

definition polled_attempts :: "exit_env \<Rightarrow> worker_world \<Rightarrow> spawn_attempt list" where
  "polled_attempts env w = filter (\<lambda>a. is_active_attempt_state (at_state a) \<and> at_container a \<noteq> []
     \<and> list_ex (\<lambda>t. t_id t = at_task a \<and> t_project t = xe_project env) (db_tasks (ww_db w))) (ww_attempts w)"

definition polled_event :: "spawn_attempt \<Rightarrow> inspect_result \<Rightarrow> container_event" where
  "polled_event a r =
     \<lparr>ce_type = EventDie, ce_container = at_container a,
      ce_labels = [(''drem.task_id'', at_task a), (''drem.worker_id'', at_worker a), (''drem.agent_type'', at_type a)],
      ce_timestamp = ir_finished r, ce_exit_code = (if ir_status r = ''removed'' then 1 else ir_exit_code r),
      ce_oom = ir_oom r, ce_usage = ir_usage r\<rparr>"

text \<open>The container of an attempt that the listing shows as running is left alone; the others are
  inspected.\<close>

definition polled_exit :: "exit_env \<Rightarrow> (string \<times> string) list \<Rightarrow> spawn_attempt \<Rightarrow> container_event option" where
  "polled_exit env observed a =
     (if (case map_of (rev observed) (at_container a) of None \<Rightarrow> False | Some st \<Rightarrow> \<not> terminal_container st) then None
      else case xe_inspect env (at_container a) of
        None \<Rightarrow> None
      | Some r \<Rightarrow> if terminal_container (ir_status r) then Some (polled_event a r) else None)"

fun poll_attempts ::
  "exit_env \<Rightarrow> (nat \<Rightarrow> fresh) \<Rightarrow> time \<Rightarrow> (string \<times> string) list \<Rightarrow> nat \<Rightarrow> spawn_attempt list \<Rightarrow> worker_world \<Rightarrow> worker_world option" where
  "poll_attempts env fr now observed k [] w = Some w"
| "poll_attempts env fr now observed k (a # as) w =
     (case polled_exit env observed a of
        None \<Rightarrow> poll_attempts env fr now observed (Suc k) as w
      | Some ev \<Rightarrow> Option.bind (dispatch_event env (fr k) now ev w) (poll_attempts env fr now observed (Suc k) as))"

definition reconcile_worker_attempt_lifecycles :: "exit_env \<Rightarrow> (nat \<Rightarrow> fresh) \<Rightarrow> time \<Rightarrow> worker_world \<Rightarrow> worker_world option" where
  "reconcile_worker_attempt_lifecycles env fr now w =
     (if \<not> xe_spawner env \<or> polled_attempts env w = [] then Some w
      else case xe_list env of
        None \<Rightarrow> Some w
      | Some observed \<Rightarrow> poll_attempts env fr now observed 0 (polled_attempts env w) w)"

end
