(* ===== verification/SubtaskScheduling.thy ===== *)
theory SubtaskScheduling
  imports WorkerExits ParentReadiness
begin

text \<open>
  \<open>internal/orchestrator/subtask_scheduling.go\<close> and \<open>dedup.go\<close>: which subtasks of a parent get a
  worker in a tick, and the launch of the worker (\<open>worker_launch.go\<close>).  This is the place where the
  dispatch policy, the repair of superseded dependencies, the worker identities and the state
  machine meet.

  The spawner is wired, as in production: the direct agents and the subprocesses of the host, which
  run without a spawner, are left out.  \<open>schedule_env\<close> holds what is outside: git and the paths of the
  worktrees, the experiment scheduler, the configuration of the agents, the model that prepares a
  subtask directly, and the runner of host processes.  The database does not fail; rows of the same priority are read in the
  order of the table.  Notifications and log lines are left out.
\<close>

section \<open>Work that exists already\<close>

definition stop_words :: "string list" where
  "stop_words =
     [''the'', ''for'', ''and'', ''a'', ''to'', ''in'', ''of'', ''with'', ''is'', ''on'', ''at'', ''by'', ''from'', ''an'',
      ''or'', ''as'', ''be'', ''it'', ''that'', ''this'', ''are'', ''was'', ''were'', ''has'', ''have'', ''had'', ''do'',
      ''does'', ''did'', ''will'', ''would'', ''could'', ''should'', ''may'', ''might'', ''can'', ''shall'', ''must'',
      ''not'', ''no'', ''but'']"

text \<open>\<open>strings.Fields\<close> on ASCII text\<close>

definition words_of :: "string \<Rightarrow> string list" where
  "words_of s = filter (\<lambda>w. w \<noteq> []) (split_on (CHR '' '') (map (\<lambda>c. if is_space c then CHR '' '' else c) s))"

fun keep_keywords :: "string list \<Rightarrow> string list \<Rightarrow> string list" where
  "keep_keywords seen [] = []"
| "keep_keywords seen (w # ws) =
     (if length w < 3 \<or> w \<in> set stop_words \<or> w \<in> set seen then keep_keywords seen ws
      else w # keep_keywords (w # seen) ws)"

definition extract_keywords :: "string \<Rightarrow> string list" where
  "extract_keywords title = keep_keywords [] (words_of (to_lower title))"

definition keyword_overlap :: "string list \<Rightarrow> string list \<Rightarrow> nat" where
  "keyword_overlap a b = (if a = [] \<or> b = [] then 0 else length (filter (\<lambda>k. k \<in> set a) b))"

definition has_existing_work :: "string list \<Rightarrow> string list \<Rightarrow> string list \<Rightarrow> string \<Rightarrow> bool" where
  "has_existing_work estimated changed messages title =
     (if estimated = [] \<or> changed = [] then False
      else if \<not> list_ex (\<lambda>f. f \<in> set changed) estimated then False
      else
        (let kws = extract_keywords title in
         if length kws < 2
         then list_ex (\<lambda>m. length kws \<le> keyword_overlap kws (extract_keywords m) \<and> 0 < length kws) messages
         else list_ex (\<lambda>m. 2 \<le> keyword_overlap kws (extract_keywords m)) messages))"

definition get_estimated_files :: "json_field \<Rightarrow> string list" where
  "get_estimated_files ctx = extract_file_list (json_get ctx ''estimated_files'')"

definition skip_existing_work_dedup :: "json_field \<Rightarrow> bool" where
  "skip_existing_work_dedup ctx \<longleftrightarrow> json_get ctx ''skip_existing_work_dedup'' = Some (GBool True)"

definition overlaps_file_set :: "string list \<Rightarrow> string list \<Rightarrow> bool" where
  "overlaps_file_set paths files = list_ex (\<lambda>p. p \<in> set files) paths"

text \<open>\<open>runGitInDir\<close>, and the lines of what it prints\<close>

definition run_git_in_dir :: "git \<Rightarrow> string \<Rightarrow> string list \<Rightarrow> err + string" where
  "run_git_in_dir g dir args =
     res_bind (run_git g dir args) (\<lambda>out. Inr (rev (dropWhile (\<lambda>c. c = CHR 0x0A) (rev out))))"

definition output_lines :: "string \<Rightarrow> string list" where
  "output_lines out = (if out = [] then [] else split_on (CHR 0x0A) out)"

definition changed_files_in :: "git \<Rightarrow> string \<Rightarrow> string \<Rightarrow> err + string list" where
  "changed_files_in g dir base =
     res_bind (run_git_in_dir g dir [''diff'', ''--name-only'', base @ ''..HEAD'']) (\<lambda>out. Inr (output_lines out))"

definition commit_messages_in :: "git \<Rightarrow> string \<Rightarrow> string \<Rightarrow> err + string list" where
  "commit_messages_in g dir base =
     res_bind (run_git_in_dir g dir [''log'', ''--format=%s'', base @ ''..HEAD'']) (\<lambda>out. Inr (output_lines out))"

section \<open>The environment\<close>

record experiment_env =
  ee_active :: bool
  ee_under_allocated :: "uuid list option"
  ee_is_task :: "uuid \<Rightarrow> bool"

text \<open>How a direct preparation ends: no answer of the model, no output file, a malformed one, or its data.\<close>

datatype prep_run = PrepFailed | PrepUnreadable | PrepMalformed | PrepOutput gany

text \<open>\<open>sc_runner\<close>: the configured provider of the prep role and the effective provider of the coder;
  \<open>sc_direct_prep\<close>: the model of the direct preparation; \<open>sc_spawn_agent\<close>: \<open>runner.SpawnAgent\<close>,
  which answers the agent it has started, if any, and has written its row.\<close>

record schedule_env =
  sc_exit :: exit_env
  sc_git :: git
  sc_feature_path :: "string \<Rightarrow> string"
  sc_default_branch :: string
  sc_experiments :: "experiment_env option"
  sc_runner :: "(string \<times> string) option"
  sc_direct_prep :: "string option"
  sc_run_direct_prep :: "task \<Rightarrow> task \<Rightarrow> prep_run"
  sc_spawn_agent :: "task \<Rightarrow> string \<Rightarrow> worker_world \<Rightarrow> uuid option \<times> worker_world"

definition feature_dir :: "schedule_env \<Rightarrow> task \<Rightarrow> string" where
  "feature_dir env parent = sc_feature_path env (trim_prefix ''feature/'' (t_branch parent))"

text \<open>The condition of the fast path: the declared files of the subtask have been changed on the feature
  branch, a commit message resembles its title, and no finished test claims one of the files.\<close>

definition existing_work_detected :: "schedule_env \<Rightarrow> task \<Rightarrow> string list \<Rightarrow> task \<Rightarrow> string list option" where
  "existing_work_detected env parent scaffolds sub =
     (let estimated = get_estimated_files (t_context sub); dir = feature_dir env parent in
      if estimated \<noteq> [] \<and> \<not> skip_existing_work_dedup (t_context sub) \<and> \<not> overlaps_file_set estimated scaffolds
      then (case changed_files_in (sc_git env) dir (sc_default_branch env) of
          Inl e \<Rightarrow> None
        | Inr changed \<Rightarrow>
            if changed = [] then None
            else (case commit_messages_in (sc_git env) dir (sc_default_branch env) of
                Inl e \<Rightarrow> None
              | Inr messages \<Rightarrow>
                  if has_existing_work estimated changed messages (t_title sub) then Some changed else None))
      else None)"

section \<open>Work of an earlier agent\<close>

definition is_meaningful_work_path :: "string \<Rightarrow> bool" where
  "is_meaningful_work_path p \<longleftrightarrow> trim_space p \<notin> {[], ''plan.json'', ''.claude/settings.json''}"

definition branch_has_meaningful_diff :: "git \<Rightarrow> string \<Rightarrow> string \<Rightarrow> string \<Rightarrow> bool" where
  "branch_has_meaningful_diff g dir base branch =
     (case run_git g dir [''diff'', ''--name-only'', base @ ''..'' @ branch] of
        Inl e \<Rightarrow> False
      | Inr out \<Rightarrow> list_ex is_meaningful_work_path (split_on (CHR 0x0A) (trim_space out)))"

definition container_of_agent :: "agent \<Rightarrow> string" where
  "container_of_agent ag =
     (if ag_session ag \<noteq> [] then ag_session ag
      else case json_get (ag_config ag) ''container_id'' of Some (GStr c) \<Rightarrow> c | _ \<Rightarrow> [])"

definition has_blocking_completion_signal :: "task \<Rightarrow> agent \<Rightarrow> worker_world \<Rightarrow> bool" where
  "has_blocking_completion_signal tk ag w =
     (if container_of_agent ag = [] then False
      else case tbl_latest te_created te_id (\<lambda>e. te_task e = t_id tk \<and> te_type e = ''container_died'') (db_events (ww_db w)) of
        None \<Rightarrow> False
      | Some e \<Rightarrow>
          json_get (te_details e) ''container_id'' = Some (GStr (container_of_agent ag))
          \<and> (case json_get (te_details e) ''exit_code'' of
               Some (GFloat q) \<Rightarrow> trunc_rat q \<noteq> 0 | Some (GInt i) \<Rightarrow> i \<noteq> 0 | _ \<Rightarrow> False))"

definition is_work_already_merged :: "schedule_env \<Rightarrow> task \<Rightarrow> string \<Rightarrow> worker_world \<Rightarrow> bool" where
  "is_work_already_merged env tk dir w =
     (case Option.bind (t_agent tk) (\<lambda>i. find_agent i (identity_of w)) of
        None \<Rightarrow> False
      | Some ag \<Rightarrow>
          if ag_branch ag = [] \<or> has_blocking_completion_signal tk ag w then False
          else (case run_git (sc_git env) dir [''rev-parse'', ag_branch ag] of
              Inl e \<Rightarrow> False
            | Inr agent_head \<Rightarrow>
                (case run_git (sc_git env) dir [''rev-parse'', ''HEAD''] of
                   Inl e \<Rightarrow> False
                 | Inr feature_head \<Rightarrow>
                     trim_space agent_head \<noteq> trim_space feature_head
                     \<and> branch_has_meaningful_diff (sc_git env) dir (sc_default_branch env) (ag_branch ag)
                     \<and> \<not> isl (run_git (sc_git env) dir [''merge-base'', ''--is-ancestor'', ag_branch ag, ''HEAD'']))))"

section \<open>The order of the candidates\<close>

text \<open>The order in which \<open>orderCandidatesByExperimentPriority\<close> gives out priorities; a task that is met
  twice gets a second, later one.\<close>

definition priority_order :: "experiment_env \<Rightarrow> uuid list \<Rightarrow> uuid list \<Rightarrow> uuid list" where
  "priority_order ex variants ids =
     (let first = concat (map (\<lambda>v. filter (\<lambda>i. i = v) ids) variants);
          second = first @ filter (\<lambda>i. i \<notin> set first \<and> ee_is_task ex i) ids in
      second @ filter (\<lambda>i. i \<notin> set second) ids)"

definition priority_of :: "uuid list \<Rightarrow> uuid \<Rightarrow> nat" where
  "priority_of ord i = (case map_of (rev (zip ord [0..<length ord])) i of None \<Rightarrow> 0 | Some n \<Rightarrow> n)"

definition order_candidates_by_experiment_priority :: "experiment_env \<Rightarrow> task list \<Rightarrow> task list" where
  "order_candidates_by_experiment_priority ex candidates =
     (case ee_under_allocated ex of
        None \<Rightarrow> candidates
      | Some variants \<Rightarrow>
          sort_key (\<lambda>c. priority_of (priority_order ex variants (map t_id candidates)) (t_id c)) candidates)"

definition ordered_candidates :: "schedule_env \<Rightarrow> task list \<Rightarrow> task list" where
  "ordered_candidates env candidates =
     (case sc_experiments env of
        None \<Rightarrow> candidates
      | Some ex \<Rightarrow> if ee_active ex then order_candidates_by_experiment_priority ex candidates else candidates)"

section \<open>When everything is blocked\<close>

definition classify_dispatch_block_reason :: "string \<Rightarrow> string" where
  "classify_dispatch_block_reason reason =
     (if str_contains ''unmet dependencies'' reason then ''dependencies''
      else if str_contains ''wave group'' reason then ''wave''
      else if str_contains ''file conflict'' reason then ''file_conflict''
      else ''other'')"

text \<open>The counts by class, in the order in which \<open>json.Marshal\<close> writes the keys.\<close>

definition block_counts :: "dispatch_decision list \<Rightarrow> (string \<times> nat) list" where
  "block_counts decisions =
     filter (\<lambda>p. snd p \<noteq> 0)
       (map (\<lambda>c. (c, length (filter (\<lambda>d. classify_dispatch_block_reason (dd_reason d) = c) decisions)))
         [''dependencies'', ''file_conflict'', ''other'', ''wave''])"

definition block_details :: "dispatch_decision list \<Rightarrow> (uuid \<times> string) list" where
  "block_details decisions = sort_key fst (map (\<lambda>d. (dd_task d, dd_reason d)) decisions)"

definition blocked_state :: "string \<Rightarrow> dispatch_decision list \<Rightarrow> (string \<times> gany) list" where
  "blocked_state phase decisions =
     [(''phase_filter'', GStr phase),
      (''counts'', GMap (map (\<lambda>(c, n). (c, GInt (int n))) (block_counts decisions))),
      (''blocked'', GList (map (\<lambda>(i, r). GMap [(''task_id'', GStr i), (''reason'', GStr r)]) (block_details decisions)))]"

text \<open>The string of a JSON text as \<open>json.Marshal\<close> writes it, for ASCII.\<close>

definition json_char :: "char \<Rightarrow> string" where
  "json_char c =
     (let n = of_char c :: nat in
      if n = 0x22 then [CHR 0x5C, CHR 0x22] else if n = 0x5C then [CHR 0x5C, CHR 0x5C]
      else if n = 0x08 then CHR 0x5C # ''b'' else if n = 0x0C then CHR 0x5C # ''f''
      else if n = 0x0A then CHR 0x5C # ''n'' else if n = 0x0D then CHR 0x5C # ''r''
      else if n = 0x09 then CHR 0x5C # ''t''
      else if n < 0x20 \<or> n \<in> {0x3C, 0x3E, 0x26} then CHR 0x5C # ''u00'' @ [hex_digit (n div 16), hex_digit n]
      else [c])"

definition json_text :: "string \<Rightarrow> string" where
  "json_text s = CHR 0x22 # concat (map json_char s) @ [CHR 0x22]"

definition json_object :: "(string \<times> string) list \<Rightarrow> string" where
  "json_object members = ''{'' @ str_join '','' (map (\<lambda>(k, v). json_text k @ '':'' @ v) members) @ ''}''"

definition blocked_evidence_signature :: "string \<Rightarrow> dispatch_decision list \<Rightarrow> string" where
  "blocked_evidence_signature phase decisions = json_object
     [(''blocked'', ''['' @ str_join '','' (map (\<lambda>(i, r). json_object [(''reason'', json_text r), (''task_id'', json_text i)])
         (block_details decisions)) @ '']''),
      (''counts'', json_object (map (\<lambda>(c, n). (c, show_nat n)) (block_counts decisions))),
      (''phase_filter'', json_text phase)]"

definition blocked_keys :: "string \<times> string" where
  "blocked_keys = (''subtask_dispatch_blocked'', ''subtask_dispatch_blocked_signature'')"

definition record_subtask_dispatch_blocked ::
  "uuid \<Rightarrow> time \<Rightarrow> task \<Rightarrow> string \<Rightarrow> dispatch_decision list \<Rightarrow> worker_world \<Rightarrow> task \<times> worker_world" where
  "record_subtask_dispatch_blocked eid now parent phase decisions w =
     (let signature = blocked_evidence_signature phase decisions;
          previous = (case json_get (t_context parent) (snd blocked_keys) of Some (GStr s) \<Rightarrow> s | _ \<Rightarrow> []);
          (parent1, d) = save_task now (parent\<lparr>t_context := json_put (snd blocked_keys) (GStr signature)
             (json_put (fst blocked_keys) (GMap (blocked_state phase decisions)) (t_context parent))\<rparr>) (ww_db w);
          w1 = w\<lparr>ww_db := d\<rparr> in
      (parent1,
       if previous = signature then w1
       else add_event \<lparr>te_id = eid, te_task = t_id parent, te_type = ''subtask_dispatch_blocked'',
              te_old = task_status_string (t_status parent), te_new = task_status_string (t_status parent),
              te_details = Some (map_of (blocked_state phase decisions)), te_actor = ''orchestrator'', te_created = now\<rparr> w1))"

section \<open>Launching a worker\<close>

record worker_launch =
  wl_task :: uuid
  wl_agent :: uuid
  wl_attempt :: uuid
  wl_worker :: string
  wl_container :: string
  wl_branch :: string
  wl_type :: string
  wl_image :: string
  wl_provider :: string
  wl_model :: string
  wl_effort :: string

definition worker_launch_for_task :: "uuid \<Rightarrow> string \<Rightarrow> worker_world \<Rightarrow> string + worker_launch" where
  "worker_launch_for_task tid role w =
     (case load_task tid (ww_db w) of
        Inl e \<Rightarrow> Inl ''load task after worker launch''
      | Inr tk \<Rightarrow>
          (case t_agent tk of
             None \<Rightarrow> Inl (''worker launch produced no assigned agent for task '' @ tid)
           | Some i \<Rightarrow>
               (case find_agent i (identity_of w) of
                  None \<Rightarrow> Inl ''load agent after worker launch''
                | Some ag \<Rightarrow>
                    let latest = tbl_latest at_created at_id (\<lambda>a. at_task a = tid \<and> at_type a = role) (ww_attempts w) in
                    Inr \<lparr>wl_task = t_id tk, wl_agent = ag_id ag,
                      wl_attempt = (case latest of None \<Rightarrow> uuid_Nil | Some a \<Rightarrow> at_id a),
                      wl_worker = (case latest of None \<Rightarrow> [] | Some a \<Rightarrow> at_worker a),
                      wl_container = log_container_id (from_agent ag), wl_branch = ag_branch ag, wl_type = ag_type ag,
                      wl_image = (case latest of None \<Rightarrow> [] | Some a \<Rightarrow> at_image a),
                      wl_provider = ag_provider ag, wl_model = ag_model ag, wl_effort = ag_effort ag\<rparr>)))"

text \<open>\<open>orchestratorWorkerLauncher.Launch\<close>\<close>

definition launch_worker ::
  "exit_env \<Rightarrow> fresh \<Rightarrow> time \<Rightarrow> task \<Rightarrow> string \<Rightarrow> worker_world \<Rightarrow> (spawn_error + worker_launch) \<times> task \<times> worker_world" where
  "launch_worker env fr now tk role w =
     (case spawn_typed_worker env fr now tk role w of
        (Inl e, tk1, w1) \<Rightarrow> (Inl e, tk1, w1)
      | (Inr h, tk1, w1) \<Rightarrow>
          (case worker_launch_for_task (t_id tk) role w1 of
             Inl m \<Rightarrow> (Inl (SpawnError m), tk1, w1)
           | Inr l \<Rightarrow> (Inr l, tk1, w1)))"

definition claim_refs :: "worker_launch \<Rightarrow> string \<Rightarrow> (string \<times> gany) list" where
  "claim_refs l role = [(''agent_id'', GStr (wl_agent l)), (''agent_type'', GStr role)]"

definition dispatch_subtask_via_spawner ::
  "exit_env \<Rightarrow> fresh \<Rightarrow> time \<Rightarrow> task \<Rightarrow> string \<Rightarrow> worker_world \<Rightarrow> (err + unit) \<times> worker_world" where
  "dispatch_subtask_via_spawner env fr now sub role w =
     (if \<not> xe_spawner env then (Inl (ErrMsg ''dispatchSubtaskViaSpawner: o.Spawner is nil''), w)
      else case launch_worker env fr now sub role w of
        (Inl (ImageUnavailable m), sub1, w1) \<Rightarrow>
          (case fail_task (fr ''fail event'' 0) now sub1 m (ww_db w1) of
             (_, Inl e) \<Rightarrow> (Inl (ErrMsg ''fail subtask after worker image preflight''), w1)
           | (_, Inr d) \<Rightarrow> (Inl (ErrMsg (''spawn '' @ role @ '' via spawner: '' @ m)), w1\<lparr>ww_db := d\<rparr>))
      | (Inl (SpawnError m), sub1, w1) \<Rightarrow> (Inl (ErrMsg (''spawn '' @ role @ '' via spawner: '' @ m)), w1)
      | (Inr l, sub1, w1) \<Rightarrow>
          (case load_task (t_id sub) (ww_db w1) of
             Inl e \<Rightarrow> (Inl (ErrMsg ''reload subtask after container spawn''), w1)
           | Inr sub2 \<Rightarrow>
               if t_agent sub2 = None
               then (Inl (ErrMsg (''agent assignment missing after container spawn for subtask '' @ t_id sub2)),
                     settle (fail_task (fr ''fail event'' 0) now sub2 ''agent record not found after container spawn'' (ww_db w1)) w1)
               else if t_status sub = StatusInProgress then (Inr (), w1)
               else (case transition_task_atomic (fr ''claim event'' 0) now sub2 StatusInProgress ''orchestrator''
                        ''worker_dispatch'' ''container worker claimed subtask'' (claim_refs l role) (ww_db w1) of
                   (_, Inl e) \<Rightarrow> (Inl (ErrMsg ''claim subtask after container spawn''), w1)
                 | (_, Inr d) \<Rightarrow> (Inr (), w1\<lparr>ww_db := d\<rparr>))))"

section \<open>Scheduling\<close>

definition subtask_agent_type :: "task \<Rightarrow> agent_type" where
  "subtask_agent_type sub =
     (case json_get (t_context sub) ''agent_type'' of
        Some (GStr s) \<Rightarrow> (case parse_agent_type s of Inl e \<Rightarrow> AgentCoder | Inr r \<Rightarrow> r)
      | _ \<Rightarrow> AgentCoder)"

definition needs_prep :: "schedule_env \<Rightarrow> task \<Rightarrow> bool" where
  "needs_prep env sub =
     (if t_context sub = None then False
      else if json_get (t_context sub) ''prep_complete'' \<noteq> None then False
      else if json_get (t_context sub) ''prep_in_progress'' \<noteq> None then False
      else if json_get (t_context sub) ''estimated_files'' = None then False
      else case sc_runner env of
        None \<Rightarrow> False
      | Some (prep_provider, coder_provider) \<Rightarrow>
          if sc_direct_prep env = None \<and> prep_provider = [] then False else coder_provider \<noteq> ''claude'')"

text \<open>The flags of a subtask whose preparation has ended\<close>

definition mark_prepared :: "string \<Rightarrow> gany \<Rightarrow> json_field \<Rightarrow> json_field" where
  "mark_prepared k v ctx = json_put k v (json_put ''prep_complete'' (GBool True) ctx)"

definition prep_failed :: "task \<Rightarrow> task" where
  "prep_failed sub = sub\<lparr>t_context := mark_prepared ''prep_failed'' (GBool True) (t_context sub)\<rparr>"

definition prep_started :: "uuid \<Rightarrow> task \<Rightarrow> task" where
  "prep_started i sub = sub\<lparr>t_agent := Some i, t_context := json_put ''prep_in_progress'' (GBool True) (t_context sub)\<rparr>"

definition prep_ended :: "prep_run \<Rightarrow> task \<Rightarrow> task" where
  "prep_ended run sub = sub\<lparr>t_agent := None, t_context :=
     (let ctx = json_del ''prep_in_progress'' (t_context sub) in
      case run of PrepOutput v \<Rightarrow> mark_prepared ''prep_data'' v ctx | _ \<Rightarrow> mark_prepared ''prep_failed'' (GBool True) ctx)\<rparr>"

definition direct_prep_agent :: "uuid \<Rightarrow> time \<Rightarrow> string \<Rightarrow> task \<Rightarrow> agent" where
  "direct_prep_agent i now mdl sub =
     \<lparr>ag_id = i, ag_project = t_project sub, ag_type = ''prep'', ag_name = ''direct-prep-'' @ take 4 (t_id sub),
      ag_status = AgentWorking, ag_task = Some (t_id sub), ag_branch = [], ag_session = [], ag_provider = ''sglang-direct'',
      ag_model = mdl, ag_effort = [], ag_heartbeat = Some now, ag_completed = None, ag_exit = [], ag_config = None\<rparr>"

text \<open>\<open>spawnPrepAgentDirect\<close>: the first result says whether there was no error.  The preparation itself
  runs between the two writes of the subtask.\<close>

definition spawn_prep_agent_direct ::
  "schedule_env \<Rightarrow> string \<Rightarrow> fresh \<Rightarrow> time \<Rightarrow> task \<Rightarrow> task \<Rightarrow> worker_world \<Rightarrow> bool \<times> task \<times> worker_world" where
  "spawn_prep_agent_direct env mdl fr now sub parent w =
     (let i = fr ''prep agent'' 0; ag = direct_prep_agent i now mdl sub in
      case tbl_create agent_conflict ag (ww_agents w) of
        Inl e \<Rightarrow> (False, sub, w)
      | Inr agents \<Rightarrow>
          let (sub1, d1) = save_task now (prep_started i sub) (ww_db w);
              run = sc_run_direct_prep env sub1 parent;
              ag1 = ag\<lparr>ag_status := (if run = PrepFailed then AgentDead else AgentIdle), ag_task := None\<rparr>;
              (sub2, d2) = save_task now (prep_ended run sub1) d1 in
          (True, sub2, w\<lparr>ww_db := d2, ww_agents := map (\<lambda>a. if ag_id a = i then ag1 else a) agents\<rparr>))"

definition spawn_prep_agent ::
  "schedule_env \<Rightarrow> fresh \<Rightarrow> time \<Rightarrow> task \<Rightarrow> task \<Rightarrow> worker_world \<Rightarrow> bool \<times> task \<times> worker_world" where
  "spawn_prep_agent env fr now sub parent w =
     (case sc_direct_prep env of
        Some mdl \<Rightarrow> spawn_prep_agent_direct env mdl fr now sub parent w
      | None \<Rightarrow>
          (case sc_spawn_agent env sub ''prep'' w of
             (None, w1) \<Rightarrow> (False, sub, w1)
           | (Some i, w1) \<Rightarrow>
               (case save_task now (prep_started i sub) (ww_db w1) of (sub1, d) \<Rightarrow> (True, sub1, w1\<lparr>ww_db := d\<rparr>))))"

definition spawn_unless_prepping :: "schedule_env \<Rightarrow> fresh \<Rightarrow> time \<Rightarrow> task \<Rightarrow> agent_type \<Rightarrow> worker_world \<Rightarrow> worker_world" where
  "spawn_unless_prepping env fr now sub role w =
     (if json_get (t_context sub) ''prep_in_progress'' \<noteq> None then w
      else snd (dispatch_subtask_via_spawner (sc_exit env) fr now sub (agent_type_string role) w))"

text \<open>The part of the loop that comes after the dispatch decision\<close>

definition start_subtask :: "schedule_env \<Rightarrow> fresh \<Rightarrow> time \<Rightarrow> task \<Rightarrow> task \<Rightarrow> worker_world \<Rightarrow> worker_world" where
  "start_subtask env fr now parent sub w =
     (let role = subtask_agent_type sub in
      if role = AgentCoder \<and> needs_prep env sub then
        (case spawn_prep_agent env fr now sub parent w of
           (True, sub1, w1) \<Rightarrow> w1
         | (False, sub1, w1) \<Rightarrow>
             (case save_task now (prep_failed sub1) (ww_db w1) of
                (sub2, d) \<Rightarrow> spawn_unless_prepping env fr now sub2 role (w1\<lparr>ww_db := d\<rparr>)))
      else spawn_unless_prepping env fr now sub role w)"

definition existing_work_refs :: "task \<Rightarrow> string list \<Rightarrow> (string \<times> gany) list" where
  "existing_work_refs sub changed =
     [(''estimated_files'', GStrs (get_estimated_files (t_context sub))), (''changed_files'', GStrs changed)]"

definition schedule_candidate ::
  "schedule_env \<Rightarrow> fresh \<Rightarrow> time \<Rightarrow> task \<Rightarrow> string list \<Rightarrow> dispatch_decision list \<Rightarrow> task \<Rightarrow> worker_world \<Rightarrow> worker_world" where
  "schedule_candidate env fr now parent scaffolds decisions sub w =
     (case existing_work_detected env parent scaffolds sub of
        Some changed \<Rightarrow>
          settle (cas_accepted_existing_subtask (fr ''accept event'' 0) now sub (existing_work_refs sub changed) (ww_db w)) w
      | None \<Rightarrow>
          if is_work_already_merged env sub (feature_dir env parent) w
          then settle (cas_accepted_existing_subtask (fr ''accept event'' 0) now sub
                 [(''reason'', GStr ''already-merged-skip-spawn'')] (ww_db w)) w
          else (case List.find (\<lambda>d. dd_task d = t_id sub) (rev decisions) of
              Some d \<Rightarrow> if dd_dispatchable d then start_subtask env fr now parent sub w else w
            | None \<Rightarrow> start_subtask env fr now parent sub w))"

fun schedule_candidates ::
  "schedule_env \<Rightarrow> (nat \<Rightarrow> fresh) \<Rightarrow> time \<Rightarrow> task \<Rightarrow> string list \<Rightarrow> dispatch_decision list \<Rightarrow> nat \<Rightarrow> task list \<Rightarrow> worker_world
   \<Rightarrow> worker_world" where
  "schedule_candidates env fr now parent scaffolds decisions k [] w = w"
| "schedule_candidates env fr now parent scaffolds decisions k (c # cs) w =
     schedule_candidates env fr now parent scaffolds decisions (Suc k) cs
       (schedule_candidate env (fr k) now parent scaffolds decisions c w)"

definition startable :: "task \<Rightarrow> bool" where
  "startable t \<longleftrightarrow> t_status t = StatusBacklog \<or> t_status t = StatusInProgress \<and> t_agent t = None"

definition candidate_subtasks :: "schedule_env \<Rightarrow> uuid \<Rightarrow> string \<Rightarrow> db \<Rightarrow> task list" where
  "candidate_subtasks env pid phase d = ordered_candidates env
     (filter (\<lambda>t. phase = [] \<or> t_phase t = phase) (sort_key (\<lambda>t. - t_priority t) (filter startable (child_rows pid d))))"

definition running_siblings :: "uuid \<Rightarrow> db \<Rightarrow> task list" where
  "running_siblings pid d =
     filter (\<lambda>t. t_status t \<in> {StatusInProgress, StatusMerging} \<and> t_agent t \<noteq> None) (child_rows pid d)"

definition completed_test_scaffold_files :: "uuid \<Rightarrow> db \<Rightarrow> string list" where
  "completed_test_scaffold_files pid d = concat (map (\<lambda>t. get_estimated_files (t_context t))
     (filter (\<lambda>t. t_phase t = ''test'' \<and> t_status t = StatusDone) (child_rows pid d)))"

definition dispatch_decisions :: "schedule_env \<Rightarrow> uuid \<Rightarrow> string \<Rightarrow> db \<Rightarrow> dispatch_decision list" where
  "dispatch_decisions env pid phase d =
     evaluate_dispatch (xe_parse_id (sc_exit env)) (phase \<noteq> []) d (candidate_subtasks env pid phase d) (running_siblings pid d)"

definition schedule_subtasks ::
  "schedule_env \<Rightarrow> (nat \<Rightarrow> fresh) \<Rightarrow> time \<Rightarrow> task \<Rightarrow> string \<Rightarrow> worker_world \<Rightarrow> task \<times> worker_world" where
  "schedule_subtasks env fr now parent phase w =
     (if t_status parent = StatusPaused then (parent, w)
      else
        let d = repair_superseded_test_dependencies now (t_id parent) (ww_db w);
            w1 = w\<lparr>ww_db := d\<rparr>;
            candidates = candidate_subtasks env (t_id parent) phase d in
        if candidates = [] then (parent, w1)
        else
          let decisions = dispatch_decisions env (t_id parent) phase d;
              (parent1, w2) = (if list_ex dd_dispatchable decisions then (parent, w1)
                 else record_subtask_dispatch_blocked (fr 0 ''blocked event'' 0) now parent phase decisions w1) in
          (parent1, schedule_candidates env fr now parent1 (completed_test_scaffold_files (t_id parent) d) decisions 0 candidates w2))"

section \<open>Parents that no handler of the tick has processed\<close>

definition waits_for_dispatch :: "task \<Rightarrow> bool" where
  "waits_for_dispatch parent \<longleftrightarrow> \<not> (is_terminal (t_status parent) \<or> t_status parent = StatusPaused \<or> is_approval_gate (t_status parent))
     \<and> \<not> (t_status parent = StatusInProgress \<or> t_status parent = StatusTestWriting)"

fun dispatch_parents ::
  "schedule_env \<Rightarrow> (nat \<Rightarrow> nat \<Rightarrow> fresh) \<Rightarrow> time \<Rightarrow> nat \<Rightarrow> uuid list \<Rightarrow> worker_world \<Rightarrow> worker_world" where
  "dispatch_parents env fr now k [] w = w"
| "dispatch_parents env fr now k (i # is) w =
     dispatch_parents env fr now (Suc k) is
       (case load_task i (ww_db w) of
          Inl e \<Rightarrow> w
        | Inr parent \<Rightarrow> if waits_for_dispatch parent then snd (schedule_subtasks env (fr k) now parent [] w) else w)"

text \<open>The distinct parents come in the order of the table.\<close>

definition dispatch_pending_subtasks :: "schedule_env \<Rightarrow> (nat \<Rightarrow> nat \<Rightarrow> fresh) \<Rightarrow> time \<Rightarrow> worker_world \<Rightarrow> worker_world" where
  "dispatch_pending_subtasks env fr now w =
     dispatch_parents env fr now 0
       (remdups (List.map_filter t_parent (filter (\<lambda>t. t_project t = xe_project (sc_exit env) \<and> t_status t = StatusBacklog)
          (db_tasks (ww_db w))))) w"

end
