(* ===== verification/WorkerExitProperties.thy ===== *)
theory WorkerExitProperties
  imports WorkerExits
begin

text \<open>
  What the handling of container exits keeps and bounds: the deaths of workers keep the identities
  well-formed, a late or repeated report changes nothing but the attempt it is about, and no task gets
  more than three replacements within an hour.
\<close>

section \<open>The identities in the world\<close>

lemma identity_of_simps [simp]:
  "identity_of (with_identity s w) = s"
  "identity_of (w\<lparr>ww_locked := b\<rparr>) = identity_of w"
  "identity_of (w\<lparr>ww_replacements := ts\<rparr>) = identity_of w"
  "identity_of (w\<lparr>ww_attempt_events := es\<rparr>) = identity_of w"
  "is_tasks (identity_of w) = db_tasks (ww_db w)" "is_agents (identity_of w) = ww_agents w" "is_attempts (identity_of w) = ww_attempts w"
  by (simp_all add: identity_of_def with_identity_def)

lemma create_event_tasks: "create_event ev d = Inr d' \<Longrightarrow> db_tasks d' = db_tasks d"
  by (auto simp: create_event_def res_simps)

lemma add_event_simps [simp]:
  "db_tasks (ww_db (add_event ev w)) = db_tasks (ww_db w)" "ww_agents (add_event ev w) = ww_agents w"
  "ww_attempts (add_event ev w) = ww_attempts w" "ww_replacements (add_event ev w) = ww_replacements w"
  "ww_locked (add_event ev w) = ww_locked w" "ww_attempt_events (add_event ev w) = ww_attempt_events w"
  "identity_of (add_event ev w) = identity_of w"
  by (auto simp: add_event_def identity_of_def dest: create_event_tasks split: sum.splits)

lemma observation_simps [simp]:
  "ww_db (record_attempt_terminal_observation eid now a ev w) = ww_db w"
  "ww_agents (record_attempt_terminal_observation eid now a ev w) = ww_agents w"
  "ww_attempts (record_attempt_terminal_observation eid now a ev w) = ww_attempts w"
  "ww_replacements (record_attempt_terminal_observation eid now a ev w) = ww_replacements w"
  "ww_locked (record_attempt_terminal_observation eid now a ev w) = ww_locked w"
  "identity_of (record_attempt_terminal_observation eid now a ev w) = identity_of w"
  by (auto simp: record_attempt_terminal_observation_def Let_def identity_of_def split: sum.splits)

lemma evidence_simps [simp]:
  "db_tasks (ww_db (record_worker_completion_evidence eid now tid a ev o' r w)) = db_tasks (ww_db w)"
  "ww_agents (record_worker_completion_evidence eid now tid a ev o' r w) = ww_agents w"
  "ww_attempts (record_worker_completion_evidence eid now tid a ev o' r w) = ww_attempts w"
  "ww_replacements (record_worker_completion_evidence eid now tid a ev o' r w) = ww_replacements w"
  "identity_of (record_worker_completion_evidence eid now tid a ev o' r w) = identity_of w"
  by (simp_all add: record_worker_completion_evidence_def)

lemma lifecycle_simps [simp]:
  "db_tasks (ww_db (record_container_lifecycle_event eid now tid ev w)) = db_tasks (ww_db w)"
  "ww_agents (record_container_lifecycle_event eid now tid ev w) = ww_agents w"
  "ww_attempts (record_container_lifecycle_event eid now tid ev w) = ww_attempts w"
  "ww_replacements (record_container_lifecycle_event eid now tid ev w) = ww_replacements w"
  "ww_locked (record_container_lifecycle_event eid now tid ev w) = ww_locked w"
  "identity_of (record_container_lifecycle_event eid now tid ev w) = identity_of w"
  by (simp_all add: record_container_lifecycle_event_def)

lemma spawn_failure_event_tasks [simp]: "db_tasks (record_spawn_failure_event eid now tk role r m d) = db_tasks d"
  by (auto simp: record_spawn_failure_event_def dest: create_event_tasks split: sum.splits)

lemma spawn_failure_simps [simp]:
  "ww_attempts (spawn_failure eid now tk role r m w) = ww_attempts w" "ww_agents (spawn_failure eid now tk role r m w) = ww_agents w"
  "ww_locked (spawn_failure eid now tk role r m w) = ww_locked w" "ww_replacements (spawn_failure eid now tk role r m w) = ww_replacements w"
  "db_tasks (ww_db (spawn_failure eid now tk role r m w)) = db_tasks (ww_db w)"
  "identity_of (spawn_failure eid now tk role r m w) = identity_of w"
  by (simp_all add: spawn_failure_def identity_of_def)

lemma record_spawn_event_simps [simp]:
  "ww_attempts (record_spawn_event eid now tk role r h w) = ww_attempts w" "ww_locked (record_spawn_event eid now tk role r h w) = ww_locked w"
  "ww_replacements (record_spawn_event eid now tk role r h w) = ww_replacements w"
  "identity_of (record_spawn_event eid now tk role r h w) = identity_of w"
  by (simp_all add: record_spawn_event_def)

section \<open>Well-formed identities\<close>

text \<open>A copy of a task claims no agent that the stored row is not assigned to.\<close>

definition owns :: "task \<Rightarrow> identity_store \<Rightarrow> bool" where
  "owns tk s \<longleftrightarrow> (\<forall>a. t_agent tk = Some a \<longrightarrow> (\<exists>r \<in> set (is_tasks s). t_id r = t_id tk \<and> t_agent r = Some a))"

lemma owns_None [simp]: "t_agent tk = None \<Longrightarrow> owns tk s"
  by (simp add: owns_def)

lemma ok_tasks:
  assumes "identity_ok s" "distinct (map t_id rows)"
    and "\<And>t a. t \<in> set rows \<Longrightarrow> t_agent t = Some a \<Longrightarrow> \<exists>t' \<in> set (is_tasks s). t_id t' = t_id t \<and> t_agent t' = Some a"
  shows "identity_ok (s\<lparr>is_tasks := rows\<rparr>)"
proof -
  have "agents_kept rows s (is_agents s)" using assms(1) by (simp add: agents_kept_def identity_ok_def)
  from ok_other[OF assms this] show ?thesis by simp
qed

lemma settled_rows:
  assumes "transition_task_atomic eid now tk target actor source reason refs d = (tk', Inr d')"
  shows "db_tasks d' = cas_rows tk (t_status tk) tk' (db_tasks d)" "t_agent tk' = t_agent tk"
proof -
  from assms have "cas_task_transition eid now tk (t_status tk) target actor source reason refs d = (tk', Inr d')"
    by (auto simp: transition_task_atomic_def split: prod.splits sum.splits)
  note c = cas_task_transition_Inr[OF this]
  from c(4) show "db_tasks d' = cas_rows tk (t_status tk) tk' (db_tasks d)" by auto
  from c(2) show "t_agent tk' = t_agent tk" by simp
qed

lemma ok_transition:
  assumes "identity_ok (identity_of w)" "owns tk (identity_of w)"
    and "transition_task_atomic eid now tk target actor source reason refs (ww_db w) = r"
  shows "identity_ok (identity_of (settle r w))"
proof (cases "snd r")
  case (Inl e)
  then show ?thesis using assms(1) by (simp add: settle_def)
next
  case (Inr d)
  then have t: "transition_task_atomic eid now tk target actor source reason refs (ww_db w) = (fst r, Inr d)"
    using assms(3) by (metis prod.collapse)
  note rows = settled_rows[OF t]
  have "identity_ok (identity_of w\<lparr>is_tasks := db_tasks d\<rparr>)"
  proof (rule ok_tasks[OF assms(1)])
    show "distinct (map t_id (db_tasks d))" unfolding rows cas_rows_id using assms(1) by (simp add: identity_ok_def)
  next
    fix t a assume ta: "t \<in> set (db_tasks d)" "t_agent t = Some a"
    then obtain t0 where t0: "t0 \<in> set (db_tasks (ww_db w))"
      "t = (if cas_match tk (t_status tk) t0 then task_transition_columns (fst r) t0 else t0)"
      unfolding rows cas_rows_def by auto
    show "\<exists>t' \<in> set (is_tasks (identity_of w)). t_id t' = t_id t \<and> t_agent t' = Some a"
    proof (cases "cas_match tk (t_status tk) t0")
      case True
      then have "t_id t = t_id tk" "t_agent tk = Some a"
        using t0(2) ta(2) rows(2) by (simp_all add: cas_match_def task_transition_columns_def)
      then show ?thesis using assms(2) by (simp add: owns_def)
    next
      case False
      then show ?thesis using t0 ta(2) by auto
    qed
  qed
  then show ?thesis using Inr by (simp add: settle_def identity_of_def)
qed

lemma ok_fail:
  assumes "identity_ok (identity_of w)" "owns tk (identity_of w)"
  shows "identity_ok (identity_of (settle (fail_task eid now tk reason (ww_db w)) w))"
  unfolding fail_task_def by (rule ok_transition[OF assms(1) _ refl]) (use assms(2) in \<open>simp add: owns_def\<close>)

lemma ok_fail_evidence:
  assumes "identity_ok (identity_of w)" "owns tk (identity_of w)"
  shows "identity_ok (identity_of (settle (fail_task_with_failure_evidence eid now tk reason cls summary failed_at budget (ww_db w)) w))"
  unfolding fail_task_with_failure_evidence_def by (rule ok_fail[OF assms(1)]) (use assms(2) in \<open>simp add: owns_def\<close>)

lemma saved_rows:
  "db_tasks (snd (save_task now tk d)) = (if list_ex (\<lambda>r. t_id r = t_id tk) (db_tasks d)
     then map (\<lambda>r. if t_id r = t_id tk then tk\<lparr>t_updated := now\<rparr> else r) (db_tasks d) else db_tasks d @ [tk\<lparr>t_updated := now\<rparr>])"
  by (simp add: save_task_def Let_def)

lemma ok_save:
  assumes "identity_ok s" "is_tasks s = db_tasks d" "owns tk s"
  shows "identity_ok (s\<lparr>is_tasks := db_tasks (snd (save_task now tk d))\<rparr>)"
proof (rule ok_tasks[OF assms(1)])
  have d: "distinct (map t_id (db_tasks d))" using assms(1,2) by (simp add: identity_ok_def)
  have "map t_id (map (\<lambda>r. if t_id r = t_id tk then tk\<lparr>t_updated := now\<rparr> else r) (db_tasks d)) = map t_id (db_tasks d)"
    by simp
  then show "distinct (map t_id (db_tasks (snd (save_task now tk d))))"
    unfolding saved_rows using d by (auto simp: list_ex_iff simp del: map_map)
next
  fix t a assume "t \<in> set (db_tasks (snd (save_task now tk d)))" "t_agent t = Some a"
  then show "\<exists>t' \<in> set (is_tasks s). t_id t' = t_id t \<and> t_agent t' = Some a"
    using assms(2,3) unfolding saved_rows owns_def by (auto split: if_splits)
qed

lemma observed_end_simps [simp]:
  "at_id (observed_end now ev a) = at_id a" "at_task (observed_end now ev a) = at_task a" "at_agent (observed_end now ev a) = at_agent a"
  "at_type (observed_end now ev a) = at_type a" "at_branch (observed_end now ev a) = at_branch a" "at_created (observed_end now ev a) = at_created a"
  "at_completed (observed_end now ev a) \<noteq> None" "\<not> attempt_open (observed_end now ev a)"
  by (simp_all add: observed_end_def Let_def attempt_open_def is_active_attempt_state_def attempt_state_defs)

lemma ok_finalize_observed:
  assumes "identity_ok (identity_of w)"
  shows "identity_ok (identity_of (finalize_observed_attempt now a ev w))"
proof -
  let ?f = "\<lambda>x. if at_id x = at_id a \<and> at_task x = at_task a \<and> at_completed x = None then observed_end now ev x else x"
  have "identity_ok (identity_of w\<lparr>is_attempts := map ?f (is_attempts (identity_of w))\<rparr>)"
    by (rule ok_map_attempts[OF assms]) (use assms in \<open>auto simp: same_key_def attempt_state_ok_def identity_ok_def split: if_splits\<close>)
  then show ?thesis by (simp add: finalize_observed_attempt_def tbl_update_def identity_of_def)
qed

lemma ok_finalize_if: "identity_ok (identity_of w) \<Longrightarrow> identity_ok (identity_of (finalize_if c now a ev w))"
  by (simp add: finalize_if_def ok_finalize_observed)

lemma attempt_for_event_Some: "attempt_for_event tid ev w = Some a \<Longrightarrow> a \<in> set (ww_attempts w) \<and> at_task a = tid"
  by (auto simp: attempt_for_event_def Let_def dest!: tbl_latest_Some split: option.splits if_splits)

lemma ended_by [simp]: "\<not> attempt_open (x\<lparr>at_state := WorkerAttemptFailed, at_completed := c\<rparr>)"
  by (simp add: attempt_open_def is_active_attempt_state_def attempt_state_defs)

lemma unassigned_agent:
  assumes "identity_ok s" "g \<in> set (is_agents s)" "ag_task g = Some tid" "t \<in> set (is_tasks s)" "t_agent t = Some (ag_id g)"
  shows "t_id t = tid"
proof -
  from assms(1,4,5) obtain u where u: "u \<in> set (is_agents s)" "ag_id u = ag_id g" "ag_task u = Some (t_id t)"
    unfolding identity_ok_def worker_of_def by blast
  have "u = g" using key_eq[of ag_id "is_agents s" u g] assms(1,2) u(1,2) by (simp add: identity_ok_def)
  then show ?thesis using u(3) assms(3) by simp
qed

text \<open>An agent that nothing names may change.\<close>

lemma ok_free_agent:
  assumes "identity_ok s" "\<And>t. t \<in> set (is_tasks s) \<Longrightarrow> t_agent t \<noteq> Some i"
    and "\<And>x. x \<in> set (is_attempts s) \<Longrightarrow> attempt_open x \<Longrightarrow> at_agent x \<noteq> Some i" "ag_id g = i"
  shows "identity_ok (s\<lparr>is_agents := map (\<lambda>x. if ag_id x = i then g else x) (is_agents s)\<rparr>)"
proof -
  note ok = assms(1)[unfolded identity_ok_def]
  let ?m = "map (\<lambda>x. if ag_id x = i then g else x) (is_agents s)"
  have "map ag_id ?m = map ag_id (is_agents s)" using assms(4) by simp
  then have "distinct (map ag_id ?m)" "ag_id ` set ?m = ag_id ` set (is_agents s)"
    using ok by (simp_all only: set_map[symmetric])
  then have "agents_kept (is_tasks s) s ?m"
    using assms(2,3) unfolding agents_kept_def by (auto simp del: set_map map_map simp: image_iff) force+
  from ok_other[OF assms(1) _ _ this] ok show ?thesis by auto
qed

lemma mark_dead_cases:
  assumes "mark_worker_attempt_dead now tk a ev w = (tk1, w1)"
  obtains (same) "tk1 = tk" "w1 = w"
  | (marked) ag where "ag \<in> set (ww_agents w)" "t_agent tk = Some (ag_id ag)" "at_agent a = Some (ag_id ag)"
      "tk1 = tk\<lparr>t_agent := None, t_updated := now\<rparr>"
      "w1 = w\<lparr>ww_db := snd (save_task now (tk\<lparr>t_agent := None\<rparr>) (ww_db w)),
         ww_agents := map (\<lambda>x. if ag_id x = ag_id ag then dead_agent now ev ag else x) (ww_agents w),
         ww_attempts := map (\<lambda>x. if at_id x = at_id a then a\<lparr>at_state := WorkerAttemptFailed, at_completed := Some now\<rparr> else x) (ww_attempts w)\<rparr>"
proof -
  show ?thesis
  proof (cases "tk1 = tk \<and> w1 = w")
    case True
    then show ?thesis using same by blast
  next
    case False
    with assms obtain ag where ag: "current_assigned_attempt tk a" "Option.bind (at_agent a) (\<lambda>i. find_agent i (identity_of w)) = Some ag"
      "\<not> (ce_container ev \<noteq> [] \<and> ag_session ag \<noteq> [] \<and> ce_container ev \<noteq> ag_session ag)"
      unfolding mark_worker_attempt_dead_def by (auto split: if_splits option.splits)
    then have "ag \<in> set (ww_agents w)" "at_agent a = Some (ag_id ag)"
      by (auto simp: find_agent_def bind_eq_Some_conv dest: tbl_first_Some)
    moreover then have "t_agent tk = Some (ag_id ag)" using ag(1) by (auto simp: current_assigned_attempt_def)
    ultimately show ?thesis
      using assms ag(1,2) unfolding mark_worker_attempt_dead_def
      by (intro marked[of ag]) (simp_all only: if_not_P[OF ag(3)] option.case not_True_eq_False if_False simp_thms, auto simp: save_task_def Let_def)
  qed
qed

lemma ok_mark_dead:
  assumes ok: "identity_ok (identity_of w)" and a: "a \<in> set (ww_attempts w)"
    and tk: "tk \<in> set (db_tasks (ww_db w))" and m: "mark_worker_attempt_dead now tk a ev w = (tk1, w1)"
  shows "identity_ok (identity_of w1) \<and> owns tk1 (identity_of w1)"
  using m
proof (cases rule: mark_dead_cases)
  case same
  then show ?thesis using ok tk by (auto simp: owns_def)
next
  case (marked ag)
  let ?s = "identity_of w" and ?i = "ag_id ag"
  note okd = ok[unfolded identity_ok_def]
  have a': "a \<in> set (is_attempts ?s)" and tk': "tk \<in> set (is_tasks ?s)" using a tk by simp_all
  let ?ended = "\<lambda>x. x\<lparr>at_state := WorkerAttemptFailed, at_completed := Some now\<rparr>"
  let ?f = "\<lambda>x. if at_id x = at_id a then ?ended x else x"
  have f: "map (\<lambda>x. if at_id x = at_id a then ?ended a else x) (ww_attempts w) = map ?f (ww_attempts w)"
    using key_eq[of at_id "ww_attempts w" _ a] okd a by (intro map_cong) (auto simp: identity_of_def)
  let ?s1 = "?s\<lparr>is_attempts := map ?f (is_attempts ?s)\<rparr>"
  have "\<not> attempt_open (?ended x)" for x by simp
  then have ok1: "identity_ok ?s1"
    by (intro ok_map_attempts[OF ok]) (use okd in \<open>auto simp: same_key_def attempt_state_ok_def split: if_splits\<close>)
  let ?d = "snd (save_task now (tk\<lparr>t_agent := None\<rparr>) (ww_db w))"
  let ?s2 = "?s1\<lparr>is_tasks := db_tasks ?d\<rparr>"
  have ok2: "identity_ok ?s2" by (rule ok_save[OF ok1]) simp_all
  have ag': "ag \<in> set (is_agents ?s)" using marked(1) by simp
  from okd tk' marked(2) obtain u where u: "u \<in> set (is_agents ?s)" "ag_id u = ?i" "ag_task u = Some (t_id tk)"
    unfolding worker_of_def by blast
  have "u = ag" using key_eq[of ag_id "is_agents ?s" u ag] okd u(1,2) ag' by simp
  then have task: "ag_task ag = Some (t_id tk)" using u(3) by simp
  have "identity_ok (?s2\<lparr>is_agents := map (\<lambda>x. if ag_id x = ?i then dead_agent now ev ag else x) (is_agents ?s2)\<rparr>)"
  proof (rule ok_free_agent[OF ok2])
    fix t assume "t \<in> set (is_tasks ?s2)"
    then have "t_agent t = None \<or> t \<in> set (is_tasks ?s) \<and> t_id t \<noteq> t_id tk"
      using tk unfolding saved_rows by (auto simp: list_ex_iff split: if_splits)
    then show "t_agent t \<noteq> Some ?i" using unassigned_agent[OF ok ag' task] by auto
  next
    fix x assume "x \<in> set (is_attempts ?s2)" "attempt_open x"
    then obtain y where y: "y \<in> set (is_attempts ?s)" "x = ?f y" "at_id y \<noteq> at_id a" by (auto split: if_splits)
    then have "at_agent y \<noteq> Some ?i" using okd a' marked(3) by (metis option.distinct(1))
    then show "at_agent x \<noteq> Some ?i" using y(2) by simp
  qed (simp add: dead_agent_def Let_def)
  then have "identity_ok (identity_of w1)" by (simp add: marked(5) identity_of_def f)
  then show ?thesis by (simp add: marked(4))
qed

lemma ok_spawn_worker:
  assumes "identity_ok s" "spawn_worker busy fr now r spawner s = (q, c, s')"
  shows "identity_ok s'"
proof (cases "reserve_spawn busy fr now r s")
  case (Inl e)
  then show ?thesis using assms by (simp add: spawn_worker_def)
next
  case (Inr p)
  then obtain res s1 where p: "reserve_spawn busy fr now r s = Inr (res, s1)" by (cases p) simp
  from ok_step[OF identity_step.reserve[OF this] assms(1)] have "identity_ok s1" .
  then show ?thesis using assms(2) p by (auto simp: spawn_worker_def split: sum.splits intro: ok_abort ok_finalize)
qed

lemma spawn_report_keeps:
  assumes "spawn_report env eid now tk role r b q w = (res, w1)"
  shows "identity_of w1 = identity_of w \<and> ww_replacements w1 = ww_replacements w \<and> ww_locked w1 = ww_locked w
    \<and> (\<forall>m. res = Inl (ImageUnavailable m) \<longrightarrow> (\<exists>k. q = Inl (ErrSpawnFailed k) \<and> str_contains ''worker image unavailable'' k))"
proof (cases q)
  case (Inl e)
  then show ?thesis using assms unfolding spawn_report_def Let_def by (cases e) (auto split: if_splits)
next
  case (Inr h)
  then show ?thesis using assms by (auto simp: spawn_report_def)
qed

lemma spawn_typed_cases:
  assumes "spawn_typed_worker env fr now tk role w = (q, tk1, w1)"
  obtains (refused) "tk1 = tk" "identity_of w1 = identity_of w" "ww_replacements w1 = ww_replacements w" "ww_locked w1 = ww_locked w"
      "\<And>m. q \<noteq> Inl (ImageUnavailable m)"
  | (spawned) r answer p c s where "xe_prepare env tk role = Inr (r, answer)"
      "spawn_worker (xe_busy env) fr now (r\<lparr>sr_task := t_id tk, sr_type := role\<rparr>) answer (identity_of w) = (p, c, s)"
      "identity_of w1 = s" "ww_replacements w1 = ww_replacements w" "ww_locked w1 = ww_locked w"
      "tk1 = (case c of None \<Rightarrow> tk | Some a \<Rightarrow> tk\<lparr>t_agent := Some a\<rparr>)"
      "\<And>m. q = Inl (ImageUnavailable m) \<Longrightarrow> \<exists>k. p = Inl (ErrSpawnFailed k) \<and> str_contains ''worker image unavailable'' k"
proof (cases "xe_spawner env")
  case False
  then show ?thesis using assms by (intro refused) (auto simp: spawn_typed_worker_def Let_def)
next
  case sp: True
  show ?thesis
  proof (cases "xe_prepare env tk role")
    case (Inl e)
    then show ?thesis using assms sp by (intro refused) (auto simp: spawn_typed_worker_def Let_def split: prod.splits)
  next
    case (Inr ra)
    then obtain r answer where p: "xe_prepare env tk role = Inr (r, answer)" by (cases ra) auto
    let ?r = "r\<lparr>sr_task := t_id tk, sr_type := role\<rparr>"
    obtain q0 c s where sw: "spawn_worker (xe_busy env) fr now ?r answer (identity_of w) = (q0, c, s)" by (metis prod_cases3)
    let ?tk = "case c of None \<Rightarrow> tk | Some a \<Rightarrow> tk\<lparr>t_agent := Some a\<rparr>"
    obtain res w2 where rp: "spawn_report env (fr ''spawn event'' 0) now ?tk role ?r (c \<noteq> None) q0 (with_identity s w) = (res, w2)" by fastforce
    have "q = res \<and> tk1 = ?tk \<and> w1 = w2"
      using assms sp unfolding spawn_typed_worker_def Let_def p sum.case prod.case sw rp by simp
    moreover have "ww_replacements (with_identity s w) = ww_replacements w" "ww_locked (with_identity s w) = ww_locked w"
      by (simp_all add: with_identity_def)
    moreover note spawn_report_keeps[OF rp]
    ultimately show ?thesis by (intro spawned[OF p sw]) (simp_all, metis)
  qed
qed

section \<open>The handlers\<close>

text \<open>The container service never reports a missing image.\<close>

definition images_available :: "exit_env \<Rightarrow> bool" where
  "images_available env \<longleftrightarrow> (\<forall>tk role r answer res m. xe_prepare env tk role = Inr (r, answer) \<longrightarrow> answer res = Inl m
     \<longrightarrow> \<not> str_contains ''worker image unavailable'' m)"

lemma reserve_transaction_error: "reserve_transaction agent attempt now r s = Inl e \<Longrightarrow> e \<noteq> ErrSpawnFailed m"
  by (auto simp: reserve_transaction_def res_bind_def claim_task_def create_agent_def create_attempt_def Let_def tbl_update_def
      split: sum.splits if_splits)

lemma reserve_tries_error: "reserve_tries n k busy fr now r s = Inl e \<Longrightarrow> e \<noteq> ErrSpawnFailed m"
  by (induction n k busy fr now r s rule: reserve_tries.induct)
    (auto dest: reserve_transaction_error split: option.splits if_splits)

lemma spawn_failed_answer:
  assumes "spawn_worker busy fr now r answer s = (Inl (ErrSpawnFailed m), c, s')"
  shows "\<exists>res. answer res = Inl m"
proof (cases "reserve_spawn busy fr now r s")
  case (Inl e)
  then show ?thesis using assms reserve_tries_error[of 5 0 busy fr now r s e m] by (simp add: spawn_worker_def reserve_spawn_def)
next
  case (Inr p)
  then show ?thesis using assms
    by (auto simp: spawn_worker_def finalize_spawn_def Let_def tbl_update_def split: sum.splits prod.splits option.splits if_splits)
qed

lemma consume_simps [simp]:
  "t_agent (snd (consume_retry_budget pt tk e c m now)) = t_agent tk" "t_id (snd (consume_retry_budget pt tk e c m now)) = t_id tk"
  "t_status (snd (consume_retry_budget pt tk e c m now)) = t_status tk" "t_version (snd (consume_retry_budget pt tk e c m now)) = t_version tk"
  "t_parent (snd (consume_retry_budget pt tk e c m now)) = t_parent tk"
  by (simp_all add: consume_retry_budget_def Let_def)

lemma owns_same: "owns tk s \<Longrightarrow> t_agent tk' = t_agent tk \<Longrightarrow> t_id tk' = t_id tk \<Longrightarrow> owns tk' s"
  by (simp add: owns_def)

lemma ok_respawn:
  assumes "identity_ok (identity_of w)" "images_available env" "respawn_worker_role env fr now tk role w = (e, tk1, w1)"
  shows "identity_ok (identity_of w1)" "e \<noteq> Some (ImageUnavailable m)"
proof -
  have "identity_ok (identity_of w1) \<and> e \<noteq> Some (ImageUnavailable m)"
  proof (cases "role = ''merger''")
    case True
    then show ?thesis using assms by (simp add: respawn_worker_role_def)
  next
    case False
    obtain q tk2 w2 where sp: "spawn_typed_worker env fr now tk role w = (q, tk2, w2)" by (metis prod_cases3)
    then have e: "w1 = w2" "e = Some (ImageUnavailable m) \<Longrightarrow> \<exists>k. q = Inl (ImageUnavailable k)"
      using assms(3) False by (auto simp: respawn_worker_role_def split: sum.splits spawn_error.splits)
    from sp show ?thesis
    proof (cases rule: spawn_typed_cases)
      case refused
      then show ?thesis using assms(1) e by auto
    next
      case (spawned r answer p c s)
      have "identity_ok s" by (rule ok_spawn_worker[OF assms(1) spawned(2)])
      moreover have "q \<noteq> Inl (ImageUnavailable k)" for k
      proof
        assume "q = Inl (ImageUnavailable k)"
        then obtain k' where "p = Inl (ErrSpawnFailed k')" "str_contains ''worker image unavailable'' k'" using spawned(7) by blast
        then show False using spawn_failed_answer[of _ _ _ _ answer] spawned(1,2) assms(2) unfolding images_available_def by metis
      qed
      ultimately show ?thesis using spawned(3) e by auto
    qed
  qed
  then show "identity_ok (identity_of w1)" "e \<noteq> Some (ImageUnavailable m)" by simp_all
qed

lemma saved_present: "tk\<lparr>t_updated := now\<rparr> \<in> set (db_tasks (snd (save_task now tk d)))"
proof (cases "list_ex (\<lambda>r. t_id r = t_id tk) (db_tasks d)")
  case True
  then obtain r where "r \<in> set (db_tasks d)" "t_id r = t_id tk" by (auto simp: list_ex_iff)
  then show ?thesis using True unfolding saved_rows by (auto intro!: image_eqI[of _ _ r])
qed (simp add: saved_rows)

lemma ok_saved:
  assumes "identity_ok (identity_of w)" "owns tk (identity_of w)"
  shows "identity_ok (identity_of (w\<lparr>ww_db := snd (save_task now tk (ww_db w)), ww_replacements := ts\<rparr>))"
    and "owns (tk\<lparr>t_updated := now\<rparr>) (identity_of (w\<lparr>ww_db := snd (save_task now tk (ww_db w)), ww_replacements := ts\<rparr>))"
proof -
  have "identity_ok (identity_of w\<lparr>is_tasks := db_tasks (snd (save_task now tk (ww_db w)))\<rparr>)"
    by (rule ok_save[OF assms(1) _ assms(2)]) simp
  then show "identity_ok (identity_of (w\<lparr>ww_db := snd (save_task now tk (ww_db w)), ww_replacements := ts\<rparr>))"
    by (simp add: identity_of_def)
  show "owns (tk\<lparr>t_updated := now\<rparr>) (identity_of (w\<lparr>ww_db := snd (save_task now tk (ww_db w)), ww_replacements := ts\<rparr>))"
    using saved_present[where tk = tk and now = now and d = "ww_db w"] unfolding owns_def by (auto intro!: bexI[of _ "tk\<lparr>t_updated := now\<rparr>"])
qed

lemma save_task_pair: "save_task now tk d = (tk\<lparr>t_updated := now\<rparr>, snd (save_task now tk d))"
  by (simp add: save_task_def Let_def)

lemma ok_retry_or_fail:
  assumes "identity_ok (identity_of w)" "owns tk (identity_of w)" "images_available env"
  shows "identity_ok (identity_of (retry_or_fail env fr now tk a ev w))"
proof -
  let ?cls = "normalize_failure_class (failure_reason ev) (exit_evidence ev)"
  obtain budget tk1 where b: "consume_retry_budget (xe_parse_time env) tk (retry_edge_for_task tk (at_type a)) ?cls
      (''worker '' @ at_type a @ '' container '' @ ce_container ev @ '' exited with '' @ ?cls
        @ '' (stop_reason='' @ failure_reason ev @ '')'') now = (budget, tk1)" by fastforce
  then have own: "owns tk1 (identity_of w)"
    using owns_same[OF assms(2), of tk1] by (metis consume_simps(1,2) snd_conv)
  obtain tk2 d where sv: "save_task now tk1 (ww_db w) = (tk2, d)" by fastforce
  then have tk2: "tk2 = tk1\<lparr>t_updated := now\<rparr>" "d = snd (save_task now tk1 (ww_db w))" using save_task_pair[of now tk1 "ww_db w"] by simp_all
  obtain n ts where n: "record_and_count (t_id tk2) now (ww_replacements w) = (n, ts)" by fastforce
  let ?w1 = "w\<lparr>ww_db := d, ww_replacements := ts\<rparr>"
  note saved = ok_saved[OF assms(1) own, where now = now and ts = ts, folded tk2]
  obtain e tk3 w2 where rs: "respawn_worker_role env fr now tk2 (at_type a) ?w1 = (e, tk3, w2)" by (metis prod_cases3)
  note res = ok_respawn[OF saved(1) assms(3) rs]
  show ?thesis
    unfolding retry_or_fail_def Let_def b prod.case sv n rs
    using ok_fail_evidence[OF assms(1) own] ok_fail_evidence[OF saved] res
    by (auto split: option.splits spawn_error.splits)
qed

text \<open>With the mutex held, a continuation is refused before it asks for the mutex or never returns.\<close>

lemma resume_locked:
  assumes "ww_locked w"
  shows "resume_failed_checkpoint env fr now tid sha actor w =
    (if trim_space sha = [] \<or> trim_space actor = [] then Some (Inl (resume_conflict ''commit SHA and actor are required''), w)
     else if xe_git env = None then Some (Inl (ErrMsg ''resume failed checkpoint: no worktree manager configured''), w)
     else None)"
  using assms by (auto simp: resume_failed_checkpoint_def Let_def Option.is_none_def)

lemma settle_simps [simp]:
  "ww_locked (settle r w) = ww_locked w" "ww_agents (settle r w) = ww_agents w" "ww_attempts (settle r w) = ww_attempts w"
  "ww_replacements (settle r w) = ww_replacements w"
  by (simp_all add: settle_def split: sum.splits)

lemma mark_dead_keeps: "mark_worker_attempt_dead now tk a ev w = (tk1, w1) \<Longrightarrow>
    ww_locked w1 = ww_locked w \<and> ww_replacements w1 = ww_replacements w \<and> t_id tk1 = t_id tk \<and> t_parent tk1 = t_parent tk"
  by (erule mark_dead_cases) auto

lemma hand_off_cases:
  assumes "hand_off_checkpoint env fr now tk a ev sha w = Some w'" "ww_locked w"
  obtains tk2 summary budget where "t_id tk2 = t_id tk" "t_agent tk2 = t_agent tk"
    "w' = settle (fail_task_with_failure_evidence (fr ''fail event'' 0) now tk2 ''worker checkpoint requires bounded artifact handoff''
             ''artifact_handoff'' summary now budget (ww_db w)) w"
proof -
  let ?summary = "checkpoint_summary sha a" and ?tk1 = "checkpoint_task tk a ev sha"
  obtain budget tk2 where b: "consume_retry_budget (xe_parse_time env) ?tk1 (retry_edge_for_task ?tk1 (at_type a)) ''artifact_handoff'' ?summary now
      = (budget, tk2)" by fastforce
  then have "t_id tk2 = t_id ?tk1" "t_agent tk2 = t_agent ?tk1" by (metis consume_simps(1,2) snd_conv)+
  then have k: "t_id tk2 = t_id tk" "t_agent tk2 = t_agent tk" by (simp_all add: checkpoint_task_def)
  obtain tk3 res where f: "fail_task_with_failure_evidence (fr ''fail event'' 0) now tk2 ''worker checkpoint requires bounded artifact handoff''
             ''artifact_handoff'' ?summary now budget (ww_db w) = (tk3, res)" by fastforce
  have "w' = settle (tk3, res) w"
  proof (cases res)
    case (Inl e)
    then show ?thesis using assms(1) by (simp add: hand_off_checkpoint_def Let_def b f settle_def)
  next
    case (Inr d)
    have "ww_locked (w\<lparr>ww_db := d\<rparr>)" using assms(2) by simp
    then show ?thesis using assms(1) Inr
      by (auto simp: hand_off_checkpoint_def Let_def b f settle_def resume_locked split: if_splits)
  qed
  then show ?thesis using that[of tk2 ?summary budget] k f by simp
qed

lemma ok_hand_off:
  assumes "hand_off_checkpoint env fr now tk a ev sha w = Some w'" "ww_locked w" "identity_ok (identity_of w)" "owns tk (identity_of w)"
  shows "identity_ok (identity_of w')"
  using assms(1,2)
proof (rule hand_off_cases)
  fix tk2 summary budget
  assume "t_id tk2 = t_id tk" "t_agent tk2 = t_agent tk" and w': "w' = settle (fail_task_with_failure_evidence (fr ''fail event'' 0) now tk2
      ''worker checkpoint requires bounded artifact handoff'' ''artifact_handoff'' summary now budget (ww_db w)) w"
  then have "owns tk2 (identity_of w)" using owns_same[OF assms(4)] by simp
  then show ?thesis unfolding w' by (rule ok_fail_evidence[OF assms(3)])
qed

lemma death_cases:
  assumes "handle_worker_death env fr now tk a ev w = r" "mark_worker_attempt_dead now tk a ev w = (tk1, w1)"
  obtains (rejected) tk2 reason cl summary budget where "prior_branch_acceptance_rejected tk1" "t_id tk2 = t_id tk1" "t_agent tk2 = t_agent tk1"
      "r = Some (settle (fail_task_with_failure_evidence (fr ''fail event'' 0) now tk2 reason cl summary now budget (ww_db w1)) w1)"
  | (checkpoint) sha where "\<not> prior_branch_acceptance_rejected tk1" "attempt_checkpoint env a = Inr (Some sha)"
      "r = hand_off_checkpoint env fr now tk1 a ev sha w1"
  | (retry) "\<not> prior_branch_acceptance_rejected tk1" "\<nexists>sha. attempt_checkpoint env a = Inr (Some sha)"
      "r = Some (retry_or_fail env fr now tk1 a ev w1)"
proof (cases "prior_branch_acceptance_rejected tk1")
  case True
  let ?summary = "''worker retry interrupted after a prior deterministic branch-scope rejection''"
  obtain budget tk2 where b: "consume_retry_budget (xe_parse_time env) tk1 (retry_edge_for_task tk1 (at_type a)) ''branch_contamination''
      ?summary now = (budget, tk2)" by fastforce
  then have "t_id tk2 = t_id tk1" "t_agent tk2 = t_agent tk1" by (metis consume_simps(1,2) snd_conv)+
  moreover have "handle_worker_death env fr now tk a ev w = Some (settle (fail_task_with_failure_evidence (fr ''fail event'' 0) now tk2
          ''worker branch rejected by deterministic scope acceptance'' ''branch_contamination'' ?summary now budget (ww_db w1)) w1)"
    unfolding handle_worker_death_def assms(2) prod.case Let_def b if_P[OF True] ..
  ultimately show ?thesis using assms(1) rejected True by blast
next
  case False
  then show ?thesis
  proof (cases "\<exists>sha. attempt_checkpoint env a = Inr (Some sha)")
    case True
    then show ?thesis using assms False checkpoint by (auto simp: handle_worker_death_def)
  next
    case no: False
    then show ?thesis using assms False
      by (intro retry) (auto simp: handle_worker_death_def split: sum.splits option.splits)
  qed
qed

lemma ok_handle_death:
  assumes "identity_ok (identity_of w)" "a \<in> set (ww_attempts w)" "tk \<in> set (db_tasks (ww_db w))" "ww_locked w" "images_available env"
    and "handle_worker_death env fr now tk a ev w = Some w'"
  shows "identity_ok (identity_of w')"
proof -
  obtain tk1 w1 where m: "mark_worker_attempt_dead now tk a ev w = (tk1, w1)" by fastforce
  note ok = ok_mark_dead[OF assms(1-3) m] and keep = mark_dead_keeps[OF m]
  from assms(6) m show ?thesis
  proof (cases rule: death_cases)
    case (rejected tk2 reason cl summary budget)
    then have "owns tk2 (identity_of w1)" using owns_same[of tk1] ok by simp
    then show ?thesis using rejected(4) ok ok_fail_evidence by simp
  next
    case (checkpoint sha)
    show ?thesis by (rule ok_hand_off[OF checkpoint(3)[symmetric]]) (use assms(4) ok keep in auto)
  next
    case retry
    then show ?thesis using ok_retry_or_fail ok assms(5) by simp
  qed
qed

text \<open>The exits that are handled as deaths\<close>

definition abnormal :: "container_event \<Rightarrow> bool" where
  "abnormal ev \<longleftrightarrow> ce_exit_code ev \<noteq> 0 \<or> ce_oom ev"

text \<open>What every step of a normal exit keeps, the whole handler keeps.\<close>

lemma exit_zero_keeps:
  assumes "P w" and ev: "\<And>v eid b e o' r. P v \<Longrightarrow> P (record_worker_completion_evidence eid now tid b e o' r v)"
    and fin: "\<And>v a e. P v \<Longrightarrow> P (finalize_observed_attempt now a e v)"
    and obs: "\<And>v eid a e. P v \<Longrightarrow> P (record_attempt_terminal_observation eid now a e v)"
    and comp: "\<And>v i. P v \<Longrightarrow> P (snd (xe_complete env i v))"
  shows "P (handle_worker_exit_zero env fr now tid e0 w)"
proof (cases "load_task tid (ww_db w)")
  case (Inl e)
  then show ?thesis using assms(1) by (simp add: handle_worker_exit_zero_def)
next
  case tk: (Inr tk)
  show ?thesis
  proof (cases "attempt_for_event tid e0 w")
    case None
    then show ?thesis using ev[OF assms(1)] tk by (simp add: handle_worker_exit_zero_def)
  next
    case (Some a)
    let ?ev = "e0\<lparr>ce_usage := observed_usage env a e0\<rparr>"
    define w1 where "w1 = record_attempt_terminal_observation (fr ''attempt event'' 0) now a ?ev w"
    have w1: "P w1" unfolding w1_def by (rule obs[OF assms(1)])
    have fi: "P (finalize_if c now a ?ev w1)" for c using w1 fin by (simp add: finalize_if_def)
    note def = handle_worker_exit_zero_def Let_def tk sum.case Some option.case w1_def[symmetric]
    show ?thesis
    proof (cases "is_merger_attempt a \<or> is_terminal (t_status tk) \<or> t_status tk = StatusTestingReady
        \<or> \<not> current_assigned_attempt tk a \<or> \<not> active_worker_attempt a \<or> at_agent a = None")
      case True
      then show ?thesis unfolding def using w1 fi by (auto intro: ev)
    next
      case False
      then obtain i where i: "at_agent a = Some i" by auto
      obtain b w2 where c: "xe_complete env i w1 = (b, w2)" by fastforce
      then have w2: "P w2" using comp[OF w1, of i] by simp
      have "handle_worker_exit_zero env fr now tid e0 w = (if \<not> b
          then record_worker_completion_evidence (fr ''evidence'' 0) now tid (Some a) ?ev ''failed'' ''completion_synthesis_failed'' w2
          else case load_task tid (ww_db w2) of
            Inl e \<Rightarrow> record_worker_completion_evidence (fr ''evidence'' 0) now tid (Some a) ?ev ''failed'' ''accepted_task_reload_failed'' w2
          | Inr accepted \<Rightarrow> if t_status accepted \<notin> {StatusDone, StatusTestingReady} then
              (if test_contract_rework_dispatched accepted a
               then record_worker_completion_evidence (fr ''evidence'' 0) now tid (Some a) ?ev ''accepted'' ''test_contract_rework_dispatched'' w2
               else record_worker_completion_evidence (fr ''evidence'' 0) now tid (Some a) ?ev ''failed'' ''branch_acceptance_pending'' w2)
            else record_worker_completion_evidence (fr ''evidence'' 0) now tid (Some a) ?ev ''accepted'' ''exit_zero_current_attempt''
              (finalize_observed_attempt now a ?ev w2))"
        using False unfolding def i c prod.case by (cases b) simp_all
      then show ?thesis using w2 by (auto intro: ev fin split: sum.splits)
    qed
  qed
qed

lemma ok_dispatch:
  assumes "identity_ok (identity_of w)" "abnormal ev" "images_available env" "dispatch_event env fr now ev w = Some w'"
  shows "identity_ok (identity_of w')"
proof -
  from assms(4) obtain w1 where w1: "dispatch_locked env fr now ev (w\<lparr>ww_locked := True\<rparr>) = Some w1" "w' = w1\<lparr>ww_locked := False\<rparr>"
    by (auto simp: dispatch_event_def split: if_splits)
  have "identity_ok (identity_of w1)"
  proof (cases "ce_type ev \<in> {EventStart, EventDestroy} \<or> parse_task_id_from_labels (xe_parse_id env) ev = None")
    case True
    then show ?thesis using w1(1) assms(1) by (auto simp: dispatch_locked_def split: if_splits)
  next
    case False
    then obtain tid where tid: "parse_task_id_from_labels (xe_parse_id env) ev = Some tid" by blast
    let ?w = "record_container_lifecycle_event (fr ''lifecycle event'' 0) now tid ev (w\<lparr>ww_locked := True\<rparr>)"
    have ok: "identity_ok (identity_of ?w)" "ww_locked ?w" using assms(1) by simp_all
    have h: "handle_abnormal_exit env fr now tid ev ?w = Some w1"
      using assms(2) w1(1) False tid by (auto simp: dispatch_locked_def Let_def abnormal_def)
    show ?thesis
      proof (cases "load_task tid (ww_db ?w)")
        case (Inl e)
        then show ?thesis using h ok by (simp add: handle_abnormal_exit_def)
      next
        case (Inr tk)
        show ?thesis
        proof (cases "attempt_for_event tid ev ?w")
          case None
          then show ?thesis using h ok Inr by (simp add: handle_abnormal_exit_def)
        next
          case (Some a)
          have mem: "a \<in> set (ww_attempts ?w)" "tk \<in> set (db_tasks (ww_db ?w))"
            using attempt_for_event_Some[OF Some] load_task_Inr[OF Inr] by auto
          let ?w1 = "record_attempt_terminal_observation (fr ''attempt event'' 0) now a (ev\<lparr>ce_usage := observed_usage env a ev\<rparr>) ?w"
          have k: "identity_ok (identity_of ?w1)" "ww_locked ?w1" "a \<in> set (ww_attempts ?w1)" "tk \<in> set (db_tasks (ww_db ?w1))"
            using ok mem by simp_all
          show ?thesis using h Inr Some ok_finalize_observed[OF k(1)] ok_finalize_if[OF k(1)] k(1)
              ok_handle_death[OF k(1,3,4,2) assms(3)]
            by (auto simp: handle_abnormal_exit_def Let_def simp del: observation_simps lifecycle_simps split: if_splits)
        qed
      qed
  qed
  then show ?thesis by (simp add: w1(2))
qed

section \<open>Late and repeated reports\<close>

lemma attempt_for_event_cong:
  assumes "ww_attempts w = ww_attempts w'"
  shows "attempt_for_event tid ev w = attempt_for_event tid ev w'"
  unfolding attempt_for_event_def assms ..

lemma attempt_for_event_usage [simp]: "attempt_for_event tid (ev\<lparr>ce_usage := u\<rparr>) w = attempt_for_event tid ev w"
  by (simp add: attempt_for_event_def label_def Let_def)

lemma load_task_cong: "db_tasks d = db_tasks d' \<Longrightarrow> load_task tid d = load_task tid d'"
  by (simp add: load_task_def)

lemma finalize_observed_simps [simp]:
  "ww_db (finalize_observed_attempt now a ev w) = ww_db w" "ww_agents (finalize_observed_attempt now a ev w) = ww_agents w"
  "ww_replacements (finalize_observed_attempt now a ev w) = ww_replacements w" "ww_locked (finalize_observed_attempt now a ev w) = ww_locked w"
  by (simp_all add: finalize_observed_attempt_def)

text \<open>The tasks, the agents and the count of replacements stay, and of the attempts only \<open>a\<close> may end.\<close>

definition only_ends :: "spawn_attempt \<Rightarrow> worker_world \<Rightarrow> worker_world \<Rightarrow> bool" where
  "only_ends a w w' \<longleftrightarrow> db_tasks (ww_db w') = db_tasks (ww_db w) \<and> ww_agents w' = ww_agents w \<and> ww_replacements w' = ww_replacements w
     \<and> (if active_worker_attempt a then \<forall>x \<in> set (ww_attempts w). at_id x \<noteq> at_id a \<longrightarrow> x \<in> set (ww_attempts w')
        else ww_attempts w' = ww_attempts w)"

lemma only_ends_same: "db_tasks (ww_db w') = db_tasks (ww_db w) \<Longrightarrow> ww_agents w' = ww_agents w \<Longrightarrow> ww_replacements w' = ww_replacements w
    \<Longrightarrow> ww_attempts w' = ww_attempts w \<Longrightarrow> only_ends a w w'"
  by (simp add: only_ends_def)

lemma only_ends_finalize:
  assumes "ww_attempts w1 = ww_attempts w" "ww_agents w1 = ww_agents w" "ww_replacements w1 = ww_replacements w"
    and "db_tasks (ww_db w1) = db_tasks (ww_db w)"
  shows "only_ends a w (finalize_if (active_worker_attempt a) now a ev w1)"
proof -
  let ?P = "\<lambda>x. at_id x = at_id a \<and> at_task x = at_task a \<and> at_completed x = None"
  have "x \<in> (\<lambda>r. if ?P r then observed_end now ev r else r) ` set (ww_attempts w)" if "x \<in> set (ww_attempts w)" "at_id x \<noteq> at_id a" for x
    by (rule image_eqI[of _ _ x]) (use that in auto)
  then show ?thesis using assms by (simp add: only_ends_def finalize_if_def finalize_observed_attempt_def tbl_update_def)
qed

text \<open>The report is about an attempt that is not (or no longer) the worker of an unfinished task.\<close>

definition late_exit :: "task \<Rightarrow> spawn_attempt \<Rightarrow> bool" where
  "late_exit tk a \<longleftrightarrow> \<not> is_merger_attempt a
     \<and> (\<not> current_assigned_attempt tk a \<or> \<not> active_worker_attempt a \<or> is_terminal (t_status tk))"

lemma late_abnormal:
  assumes "load_task tid (ww_db w) = Inr tk" "attempt_for_event tid ev w = Some a" "late_exit tk a"
    and "handle_abnormal_exit env fr now tid ev w = Some w'"
  shows "only_ends a w w'"
proof -
  let ?ev = "ev\<lparr>ce_usage := observed_usage env a ev\<rparr>"
  let ?w1 = "record_attempt_terminal_observation (fr ''attempt event'' 0) now a ?ev w"
  have "only_ends a w (finalize_if (active_worker_attempt a) now a ?ev ?w1)" by (rule only_ends_finalize) simp_all
  moreover have "only_ends a w ?w1" by (rule only_ends_same) simp_all
  ultimately show ?thesis using assms by (auto simp: handle_abnormal_exit_def Let_def late_exit_def split: if_splits)
qed

lemma only_ends_evidence:
  "only_ends a w w1 \<Longrightarrow> only_ends a w (record_worker_completion_evidence eid now tid b ev o' r w1)"
  by (simp add: only_ends_def)

lemma late_normal:
  assumes "load_task tid (ww_db w) = Inr tk" "attempt_for_event tid ev w = Some a" "late_exit tk a"
  shows "only_ends a w (handle_worker_exit_zero env fr now tid ev w)"
proof -
  let ?ev = "ev\<lparr>ce_usage := observed_usage env a ev\<rparr>"
  let ?w1 = "record_attempt_terminal_observation (fr ''attempt event'' 0) now a ?ev w"
  have f: "only_ends a w (finalize_if (active_worker_attempt a) now a ?ev ?w1)" by (rule only_ends_finalize) simp_all
  have s: "only_ends a w ?w1" by (rule only_ends_same) simp_all
  have t: "active_worker_attempt a \<Longrightarrow> only_ends a w (finalize_if True now a ?ev ?w1)" using f by simp
  show ?thesis using assms f s t by (auto simp: handle_worker_exit_zero_def Let_def late_exit_def intro!: only_ends_evidence)
qed


section \<open>The number of replacements\<close>

definition attempt_keys :: "spawn_attempt list \<Rightarrow> (uuid \<times> uuid \<times> time) list" where
  "attempt_keys rows = map (\<lambda>x. (at_id x, at_task x, at_created x)) rows"

lemma attempt_keys_append [simp]: "attempt_keys (xs @ ys) = attempt_keys xs @ attempt_keys ys"
  by (simp add: attempt_keys_def)

lemma attempt_keys_map:
  "(\<And>x. x \<in> set xs \<Longrightarrow> at_id (f x) = at_id x \<and> at_task (f x) = at_task x \<and> at_created (f x) = at_created x)
    \<Longrightarrow> attempt_keys (map f xs) = attempt_keys xs"
  by (simp add: attempt_keys_def)

lemma attempt_keys_ids: "map at_id xs = map fst (attempt_keys xs)"
  by (simp add: attempt_keys_def comp_def)

definition keys :: "worker_world \<Rightarrow> (uuid \<times> uuid \<times> time) list" where
  "keys w = attempt_keys (ww_attempts w)"

lemma keys_simps [simp]:
  "keys (w\<lparr>ww_locked := b\<rparr>) = keys w" "keys (w\<lparr>ww_replacements := ts\<rparr>) = keys w" "keys (w\<lparr>ww_db := d\<rparr>) = keys w"
  "keys (settle r w) = keys w" "keys (add_event e w) = keys w" "keys (record_attempt_terminal_observation eid now a ev w) = keys w"
  "keys (record_container_lifecycle_event eid now tid ev w) = keys w"
  "keys (record_worker_completion_evidence eid now tid oa ev o' reason w) = keys w"
  by (simp_all add: keys_def)

lemma keys_finalize [simp]: "keys (finalize_observed_attempt now a ev w) = keys w" "keys (finalize_if c now a ev w) = keys w"
  by (auto simp: keys_def finalize_observed_attempt_def finalize_if_def tbl_update_def intro!: attempt_keys_map)

lemma keys_mark_dead:
  assumes "mark_worker_attempt_dead now tk a ev w = (tk1, w1)" "distinct (map at_id (ww_attempts w))" "a \<in> set (ww_attempts w)"
  shows "keys w1 = keys w"
  using assms(1)
proof (cases rule: mark_dead_cases)
  case (marked ag)
  let ?f = "\<lambda>x. if at_id x = at_id a then a\<lparr>at_state := WorkerAttemptFailed, at_completed := Some now\<rparr> else x"
  have "attempt_keys (map ?f (ww_attempts w)) = attempt_keys (ww_attempts w)"
  proof (rule attempt_keys_map)
    fix x assume "x \<in> set (ww_attempts w)"
    then have "x = a \<or> at_id x \<noteq> at_id a" using key_eq[OF assms(2) _ assms(3)] by blast
    then show "at_id (?f x) = at_id x \<and> at_task (?f x) = at_task x \<and> at_created (?f x) = at_created x" by auto
  qed
  then show ?thesis by (simp add: marked(5) keys_def)
qed simp

lemma keys_reserved: "attempt_keys (is_attempts (reserved_store agent attempt now r s)) = attempt_keys (is_attempts s) @ [(attempt, sr_task r, now)]"
proof -
  have "attempt_keys (map (superseded now r) (is_attempts s)) = attempt_keys (is_attempts s)"
    by (rule attempt_keys_map) (simp add: superseded_def)
  then show ?thesis by (simp add: reserved_store_def attempt_keys_def new_attempt_def)
qed

lemma keys_finalized: "attempt_keys (is_attempts (finalized_store agent attempt now r c s)) = attempt_keys (is_attempts s) @ [(attempt, sr_task r, now)]"
proof -
  have "attempt_keys (map (superseded now r) (is_attempts s)) = attempt_keys (is_attempts s)"
    by (rule attempt_keys_map) (simp add: superseded_def)
  then show ?thesis by (simp add: finalized_store_def attempt_keys_def new_attempt_def)
qed

lemma keys_abort: "attempt_keys (is_attempts (abort_reservation now res reason s)) = attempt_keys (is_attempts s)"
  by (auto simp: abort_reservation_def tbl_update_def Let_def intro!: attempt_keys_map)

lemma keys_spawn:
  assumes "spawn_worker busy fr now r answer s = (q, c, s')"
  shows "attempt_keys (is_attempts s') = attempt_keys (is_attempts s)
    \<or> (\<exists>i. i \<notin> at_id ` set (is_attempts s) \<and> attempt_keys (is_attempts s') = attempt_keys (is_attempts s) @ [(i, sr_task r, now)])"
  using assms
proof (cases rule: spawn_worker_cases)
  case (failed agent attempt m)
  then show ?thesis by (auto simp: keys_abort keys_reserved reservable_def)
next
  case (spawned agent attempt k)
  then show ?thesis by (auto simp: keys_finalized reservable_def)
qed simp

lemma keys_respawn:
  assumes "respawn_worker_role env fr now tk role w = (e, tk1, w1)"
  shows "ww_replacements w1 = ww_replacements w \<and> (keys w1 = keys w
    \<or> (\<exists>i. i \<notin> at_id ` set (ww_attempts w) \<and> keys w1 = keys w @ [(i, t_id tk, now)]))"
proof (cases "role = ''merger''")
  case True
  then show ?thesis using assms by (simp add: respawn_worker_role_def)
next
  case False
  obtain q tk2 w2 where sp: "spawn_typed_worker env fr now tk role w = (q, tk2, w2)" by (metis prod_cases3)
  then have e: "w1 = w2" using assms False by (auto simp: respawn_worker_role_def split: sum.splits spawn_error.splits)
  have k: "keys v = attempt_keys (is_attempts (identity_of v))" for v by (simp add: keys_def)
  from sp show ?thesis
  proof (cases rule: spawn_typed_cases)
    case refused
    then show ?thesis by (simp add: e k)
  next
    case (spawned r answer p c s)
    from keys_spawn[OF spawned(2)] spawned(3,4) show ?thesis by (simp add: e k)
  qed
qed

text \<open>What one event does to the attempts and to the count of replacements at the time \<open>now\<close>.\<close>

definition replaced :: "time \<Rightarrow> worker_world \<Rightarrow> worker_world \<Rightarrow> bool" where
  "replaced now w w' \<longleftrightarrow> keys w' = keys w \<and> ww_replacements w' = ww_replacements w
     \<or> (\<exists>tid. ww_replacements w' = snd (record_and_count tid now (ww_replacements w)) \<and>
          (keys w' = keys w \<or> (\<exists>i. i \<notin> fst ` set (keys w) \<and> keys w' = keys w @ [(i, tid, now)]
             \<and> fst (record_and_count tid now (ww_replacements w)) \<le> replacement_cap)))"

lemma replaced_same: "keys w' = keys w \<Longrightarrow> ww_replacements w' = ww_replacements w \<Longrightarrow> replaced now w w'"
  by (simp add: replaced_def)

lemma fst_keys: "fst ` set (keys w) = at_id ` set (ww_attempts w)"
  by (simp add: keys_def attempt_keys_def image_image)

lemma replaced_retry: "replaced now w (retry_or_fail env fr now tk a ev w)"
proof -
  let ?cls = "normalize_failure_class (failure_reason ev) (exit_evidence ev)"
  obtain budget tk1 where b: "consume_retry_budget (xe_parse_time env) tk (retry_edge_for_task tk (at_type a)) ?cls
      (''worker '' @ at_type a @ '' container '' @ ce_container ev @ '' exited with '' @ ?cls
        @ '' (stop_reason='' @ failure_reason ev @ '')'') now = (budget, tk1)" by fastforce
  obtain tk2 d where sv: "save_task now tk1 (ww_db w) = (tk2, d)" by fastforce
  obtain n ts where n: "record_and_count (t_id tk2) now (ww_replacements w) = (n, ts)" by fastforce
  let ?w1 = "w\<lparr>ww_db := d, ww_replacements := ts\<rparr>"
  obtain e tk3 w2 where rs: "respawn_worker_role env fr now tk2 (at_type a) ?w1 = (e, tk3, w2)" by (metis prod_cases3)
  from keys_respawn[OF rs] have k: "ww_replacements w2 = ts" "keys w2 = keys w \<or> (\<exists>i. i \<notin> fst ` set (keys w) \<and> keys w2 = keys w @ [(i, t_id tk2, now)])"
    by (auto simp: fst_keys)
  have c: "snd (record_and_count (t_id tk2) now (ww_replacements w)) = ts" "fst (record_and_count (t_id tk2) now (ww_replacements w)) = n"
    by (simp_all add: n)
  have s: "replaced now w w2" if "\<not> replacement_cap < n"
    unfolding replaced_def using k c that by (intro disjI2 exI[of _ "t_id tk2"]) auto
  then have s': "replaced now w (settle r w2)" if "\<not> replacement_cap < n" for r using that by (simp add: replaced_def)
  have t: "replaced now w (settle r ?w1)" for r
    unfolding replaced_def using c(1) by (intro disjI2 exI[of _ "t_id tk2"]) simp
  have u: "replaced now w (settle r w)" for r by (rule replaced_same) simp_all
  show ?thesis
    unfolding retry_or_fail_def Let_def b prod.case sv n rs using s s' t u
    by (auto split: option.splits spawn_error.splits)
qed

lemma replaced_death:
  assumes "handle_worker_death env fr now tk a ev w = Some w'" "ww_locked w" "distinct (map at_id (ww_attempts w))" "a \<in> set (ww_attempts w)"
  shows "replaced now w w'"
proof -
  obtain tk1 w1 where m: "mark_worker_attempt_dead now tk a ev w = (tk1, w1)" by fastforce
  have k: "keys w1 = keys w" "ww_replacements w1 = ww_replacements w" "ww_locked w1"
    using keys_mark_dead[OF m assms(3,4)] mark_dead_keeps[OF m] assms(2) by simp_all
  from assms(1) m show ?thesis
  proof (cases rule: death_cases)
    case (rejected tk2 reason cl summary budget)
    then show ?thesis using k by (simp add: replaced_same)
  next
    case (checkpoint sha)
    from checkpoint(3)[symmetric] k(3) show ?thesis
      by (rule hand_off_cases) (use k in \<open>simp add: replaced_same\<close>)
  next
    case retry
    then have "w' = retry_or_fail env fr now tk1 a ev w1" by simp
    moreover have "replaced now w1 (retry_or_fail env fr now tk1 a ev w1)" by (rule replaced_retry)
    ultimately show ?thesis using k by (simp add: replaced_def)
  qed
qed

text \<open>\<open>processAgentResult\<close> does not count replacements (only \<open>handleWorkerDeath\<close> uses the tracker), and keeps
  the primary key of the attempts.  It may add attempts: a rejected test contract launches a worker.\<close>

definition completion_keeps_tracker :: "exit_env \<Rightarrow> bool" where
  "completion_keeps_tracker env \<longleftrightarrow> (\<forall>i w. ww_replacements (snd (xe_complete env i w)) = ww_replacements w
     \<and> (distinct (map at_id (ww_attempts w)) \<longrightarrow> distinct (map at_id (ww_attempts (snd (xe_complete env i w))))))"

lemma distinct_keys: "distinct (map at_id (ww_attempts w)) \<longleftrightarrow> distinct (map fst (keys w))"
  by (simp add: keys_def attempt_keys_ids)

lemma exit_zero_tracker:
  assumes "completion_keeps_tracker env" "distinct (map at_id (ww_attempts w))"
  shows "ww_replacements (handle_worker_exit_zero env fr now tid ev w) = ww_replacements w
    \<and> distinct (map at_id (ww_attempts (handle_worker_exit_zero env fr now tid ev w)))"
proof (rule exit_zero_keeps[where P = "\<lambda>v. ww_replacements v = ww_replacements w \<and> distinct (map at_id (ww_attempts v))"])
  show "ww_replacements (finalize_observed_attempt now a e v) = ww_replacements w
      \<and> distinct (map at_id (ww_attempts (finalize_observed_attempt now a e v)))"
    if "ww_replacements v = ww_replacements w \<and> distinct (map at_id (ww_attempts v))" for v a e
    using that unfolding distinct_keys by simp
qed (use assms in \<open>simp_all add: completion_keeps_tracker_def\<close>)

lemma replaced_dispatch:
  assumes "dispatch_event env fr now ev w = Some w'" "abnormal ev" "distinct (map at_id (ww_attempts w))"
  shows "replaced now w w'"
proof -
  from assms(1) obtain w1 where w1: "dispatch_locked env fr now ev (w\<lparr>ww_locked := True\<rparr>) = Some w1" "w' = w1\<lparr>ww_locked := False\<rparr>"
    by (auto simp: dispatch_event_def split: if_splits)
  show ?thesis
  proof (cases "ce_type ev \<in> {EventStart, EventDestroy} \<or> parse_task_id_from_labels (xe_parse_id env) ev = None")
    case True
    then show ?thesis using w1 by (auto simp: dispatch_locked_def intro!: replaced_same split: if_splits)
  next
    case False
    then obtain tid where tid: "parse_task_id_from_labels (xe_parse_id env) ev = Some tid" by blast
    let ?w = "record_container_lifecycle_event (fr ''lifecycle event'' 0) now tid ev (w\<lparr>ww_locked := True\<rparr>)"
    have h: "handle_abnormal_exit env fr now tid ev ?w = Some w1"
      using assms(2) w1(1) False tid by (auto simp: dispatch_locked_def Let_def abnormal_def)
    have "replaced now ?w w1"
      proof (cases "\<exists>tk a. load_task tid (ww_db ?w) = Inr tk \<and> attempt_for_event tid ev ?w = Some a")
        case False
        then show ?thesis using h
          by (auto simp: handle_abnormal_exit_def intro!: replaced_same split: sum.splits option.splits)
      next
        case True
        then obtain tk a where ta: "load_task tid (ww_db ?w) = Inr tk" "attempt_for_event tid ev ?w = Some a" by blast
        let ?ev = "ev\<lparr>ce_usage := observed_usage env a ev\<rparr>"
        let ?w1 = "record_attempt_terminal_observation (fr ''attempt event'' 0) now a ?ev ?w"
        have "a \<in> set (ww_attempts ?w1)" "distinct (map at_id (ww_attempts ?w1))" "ww_locked ?w1"
          using attempt_for_event_Some[OF ta(2)] assms(3) by simp_all
        then have d: "replaced now ?w1 w1" if "handle_worker_death env fr now tk a ?ev ?w1 = Some w1"
          using replaced_death[OF that] by simp
        have e: "replaced now ?w w1" if "replaced now ?w1 w1" using that by (simp add: replaced_def)
        have f: "ww_replacements (finalize_if b now a' e' v) = ww_replacements v" for b a' e' v by (simp add: finalize_if_def)
        show ?thesis using h ta d e
          by (auto simp: handle_abnormal_exit_def Let_def f intro: replaced_same split: if_splits)
      qed
    then show ?thesis by (simp add: replaced_def w1(2))
  qed
qed

lemma tracker_dispatch:
  assumes "dispatch_event env fr now ev w = Some w'" "\<not> abnormal ev" "completion_keeps_tracker env" "distinct (map at_id (ww_attempts w))"
  shows "ww_replacements w' = ww_replacements w \<and> distinct (map at_id (ww_attempts w'))"
proof -
  let ?w = "\<lambda>tid. record_container_lifecycle_event (fr ''lifecycle event'' 0) now tid ev (w\<lparr>ww_locked := True\<rparr>)"
  have "distinct (map at_id (ww_attempts (?w tid)))" for tid using assms(4) by simp
  note e = exit_zero_tracker[OF assms(3) this]
  show ?thesis
    using assms(1,2,4) e
    by (auto simp: dispatch_event_def dispatch_locked_def abnormal_def Let_def split: if_splits option.splits)
qed

text \<open>The attempts that the handling of deaths adds in a run, in order\<close>

fun replacements_of :: "exit_env \<Rightarrow> (fresh \<times> time \<times> container_event) list \<Rightarrow> worker_world \<Rightarrow> spawn_attempt list" where
  "replacements_of env [] w = []"
| "replacements_of env ((fr, now, ev) # evs) w =
     (case dispatch_event env fr now ev w of
        None \<Rightarrow> []
      | Some w1 \<Rightarrow> (if abnormal ev then drop (length (ww_attempts w)) (ww_attempts w1) else []) @ replacements_of env evs w1)"

text \<open>The rows that a run added, within the window that ends at \<open>t\<close>.\<close>

definition spawned_within :: "time \<Rightarrow> uuid \<Rightarrow> (uuid \<times> uuid \<times> time) list \<Rightarrow> nat" where
  "spawned_within t tid new = length (filter (\<lambda>(i, task, c). task = tid \<and> t - replacement_window < c \<and> c \<le> t) new)"

definition after :: "time \<Rightarrow> uuid \<Rightarrow> (uuid \<times> uuid \<times> time) list \<Rightarrow> nat" where
  "after lo tid new = length (filter (\<lambda>(i, task, c). task = tid \<and> lo < c) new)"

definition counted :: "time \<Rightarrow> (uuid \<times> uuid \<times> time) list \<Rightarrow> (uuid \<Rightarrow> time list) \<Rightarrow> bool" where
  "counted now new ts \<longleftrightarrow> (\<forall>(i, task, c) \<in> set new. c \<le> now)
     \<and> (\<forall>tid lo. now - replacement_window \<le> lo \<longrightarrow> after lo tid new \<le> length (filter (\<lambda>x. lo < x) (ts tid)))
     \<and> (\<forall>tid t. spawned_within t tid new \<le> replacement_cap)"

lemma counted_later: "counted now new ts \<Longrightarrow> now \<le> now' \<Longrightarrow> counted now' new ts"
  unfolding counted_def by fastforce

lemma record_after:
  assumes "now - replacement_window \<le> lo"
  shows "length (filter (\<lambda>x. lo < x) (snd (record_and_count tid now ts) t))
    = length (filter (\<lambda>x. lo < x) (ts t)) + (if t = tid \<and> lo < now then 1 else 0)"
proof -
  have "filter (\<lambda>x. lo < x) (filter (\<lambda>x. now - replacement_window < x) (ts t)) = filter (\<lambda>x. lo < x) (ts t)"
    unfolding filter_filter by (rule filter_cong) (use assms in auto)
  then show ?thesis by (auto simp: record_and_count_def Let_def)
qed

lemma counted_record: "counted now new ts \<Longrightarrow> counted now new (snd (record_and_count tid now ts))"
  unfolding counted_def using record_after[of now] by (auto intro: le_SucI)

lemma counted_spawn:
  assumes "counted now new ts" "fst (record_and_count tid now ts) \<le> replacement_cap"
  shows "counted now (new @ [(i, tid, now)]) (snd (record_and_count tid now ts))"
proof -
  let ?new = "new @ [(i, tid, now)]" and ?ts = "snd (record_and_count tid now ts)"
  have af: "after lo t ?new \<le> length (filter (\<lambda>x. lo < x) (?ts t))" if "now - replacement_window \<le> lo" for lo t
    using assms(1) that record_after[OF that, of tid ts t] by (auto simp: counted_def after_def)
  have len: "length (?ts tid) \<le> replacement_cap" using assms(2) by (simp add: record_and_count_def Let_def)
  have "spawned_within t k ?new \<le> replacement_cap" for t k
  proof (cases "k = tid \<and> now \<le> t")
    case False
    then have "spawned_within t k ?new = spawned_within t k new" by (auto simp: spawned_within_def)
    then show ?thesis using assms(1) by (simp add: counted_def)
  next
    case True
    have "spawned_within t k ?new \<le> after (t - replacement_window) k ?new"
      unfolding spawned_within_def after_def by (induction new) auto
    also have "\<dots> \<le> length (filter (\<lambda>x. t - replacement_window < x) (?ts k))" by (rule af) (use True in simp)
    also have "\<dots> \<le> replacement_cap" using len True by (metis length_filter_le le_trans)
    finally show ?thesis .
  qed
  then show ?thesis using assms(1) af unfolding counted_def by auto
qed

lemma replacements_counted:
  assumes "completion_keeps_tracker env" "distinct (map at_id (ww_attempts w))"
    and "sorted (now # map (\<lambda>(fr, t, ev). t) evs)" "counted now new (ww_replacements w)"
  shows "spawned_within t tid (new @ attempt_keys (replacements_of env evs w)) \<le> replacement_cap"
  using assms(2-4)
proof (induction evs arbitrary: w new now)
  case Nil
  then show ?case by (simp add: counted_def attempt_keys_def)
next
  case (Cons e evs)
  obtain fr u ev where e: "e = (fr, u, ev)" by (cases e)
  have u: "now \<le> u" "sorted (u # map (\<lambda>(fr, t, ev). t) evs)" using Cons.prems(2) by (auto simp: e)
  have c: "counted u new (ww_replacements w)" by (rule counted_later[OF Cons.prems(3) u(1)])
  show ?case
  proof (cases "dispatch_event env fr u ev w")
    case None
    then show ?thesis using c by (simp add: e counted_def attempt_keys_def)
  next
    case (Some w1)
    show ?thesis
    proof (cases "abnormal ev")
      case False
      from tracker_dispatch[OF Some False assms(1) Cons.prems(1)] Cons.IH[OF _ u(2), of w1 new] c
      show ?thesis by (simp add: e Some False)
    next
      case True
      have d: "distinct (map fst (keys w))" using Cons.prems(1) by (simp add: distinct_keys)
      have added: "attempt_keys (drop (length (ww_attempts w)) (ww_attempts w1)) = drop (length (keys w)) (keys w1)"
        by (simp add: keys_def attempt_keys_def drop_map)
      have "replaced u w w1" by (rule replaced_dispatch[OF Some True Cons.prems(1)])
      then consider (same) "keys w1 = keys w" "ww_replacements w1 = ww_replacements w"
        | (count) k where "keys w1 = keys w" "ww_replacements w1 = snd (record_and_count k u (ww_replacements w))"
        | (spawn) k i where "i \<notin> fst ` set (keys w)" "keys w1 = keys w @ [(i, k, u)]"
            "ww_replacements w1 = snd (record_and_count k u (ww_replacements w))"
            "fst (record_and_count k u (ww_replacements w)) \<le> replacement_cap"
        unfolding replaced_def by blast
      then have "distinct (map at_id (ww_attempts w1)) \<and> counted u (new @ drop (length (keys w)) (keys w1)) (ww_replacements w1)"
      proof cases
        case same
        then show ?thesis using c d by (simp add: distinct_keys)
      next
        case count
        then show ?thesis using counted_record[OF c] d by (simp add: distinct_keys)
      next
        case spawn
        then show ?thesis using counted_spawn[OF c spawn(4)] d by (simp add: distinct_keys)
      qed
      with Cons.IH[OF _ u(2), of w1 "new @ drop (length (keys w)) (keys w1)"] show ?thesis by (simp add: e Some True added[symmetric])
    qed
  qed
qed

text \<open>C38: however many exits are reported, in any order of deaths and normal ends, within any hour the
  deaths add at most three attempts for a task, if the clock does not go back.  The workers that the
  processing of finished agents launches itself are not replacements and are not counted.\<close>

theorem replacements_bounded:
  assumes "completion_keeps_tracker env" "distinct (map at_id (ww_attempts w))" "sorted (map (\<lambda>(fr, t, ev). t) evs)"
  shows "length (filter (\<lambda>x. at_task x = tid \<and> t - 3600000000000 < at_created x \<and> at_created x \<le> t) (replacements_of env evs w)) \<le> 3"
proof -
  have "\<exists>now. sorted (now # map (\<lambda>(fr, t, ev). t) evs)"
    using assms(3) by (cases evs) auto
  then obtain now where now: "sorted (now # map (\<lambda>(fr, t, ev). t) evs)" by blast
  have "counted now [] (ww_replacements w)" by (simp add: counted_def after_def spawned_within_def)
  from replacements_counted[OF assms(1,2) now this, of t tid]
  show ?thesis by (simp add: spawned_within_def attempt_keys_def filter_map comp_def replacement_window_def replacement_cap_def)
qed

section \<open>Runs\<close>

lemma ok_watch:
  assumes "images_available env"
  shows "watch_docker_events env evs w = Some w' \<Longrightarrow> list_all (\<lambda>(fr, now, ev). abnormal ev) evs
    \<Longrightarrow> identity_ok (identity_of w) \<Longrightarrow> identity_ok (identity_of w')"
proof (induction evs arbitrary: w)
  case (Cons e evs)
  obtain fr now ev where e: "e = (fr, now, ev)" by (cases e)
  with Cons.prems(1) obtain w1 where "dispatch_event env fr now ev w = Some w1" "watch_docker_events env evs w1 = Some w'"
    by (auto simp: bind_eq_Some_conv)
  moreover have "abnormal ev" "list_all (\<lambda>(fr, now, ev). abnormal ev) evs" using Cons.prems(2) by (simp_all add: e)
  ultimately show ?case using Cons ok_dispatch[OF _ _ assms] by blast
qed simp

text \<open>The containers that the poll finds at an end have not ended normally.\<close>

definition polled_deaths :: "exit_env \<Rightarrow> bool" where
  "polled_deaths env \<longleftrightarrow> (\<forall>c r. xe_inspect env c = Some r \<longrightarrow> terminal_container (ir_status r)
     \<longrightarrow> ir_status r = ''removed'' \<or> ir_exit_code r \<noteq> 0 \<or> ir_oom r)"

lemma polled_deathsD: "polled_deaths env \<Longrightarrow> xe_inspect env c = Some r \<Longrightarrow> terminal_container (ir_status r)
    \<Longrightarrow> ir_status r = ''removed'' \<or> ir_exit_code r \<noteq> 0 \<or> ir_oom r"
  by (simp add: polled_deaths_def)

lemma polled_abnormal: "polled_deaths env \<Longrightarrow> polled_exit env observed a = Some ev \<Longrightarrow> abnormal ev"
  by (auto simp: polled_exit_def abnormal_def polled_event_def split: option.splits if_splits dest: polled_deathsD)

lemma ok_poll:
  assumes "images_available env" "polled_deaths env"
  shows "poll_attempts env fr now observed k as w = Some w' \<Longrightarrow> identity_ok (identity_of w) \<Longrightarrow> identity_ok (identity_of w')"
proof (induction as arbitrary: w k)
  case (Cons a as)
  show ?case
  proof (cases "polled_exit env observed a")
    case None
    then show ?thesis using Cons by auto
  next
    case (Some ev)
    with Cons.prems(1) obtain w1 where "dispatch_event env (fr k) now ev w = Some w1" "poll_attempts env fr now observed (Suc k) as w1 = Some w'"
      by (auto simp: bind_eq_Some_conv)
    with Cons show ?thesis using ok_dispatch[OF _ polled_abnormal[OF assms(2) Some] assms(1)] by blast
  qed
qed simp

text \<open>C40: handling any sequence of deaths of workers (exits with another code than 0, or out of memory),
  and the poll of a tick that finds no container that has ended normally, keep the identities
  well-formed, if no container image is missing.  (Normal ends go through the processing of the
  finished agent, which is a parameter.)\<close>

theorem worker_deaths_keep_identity:
  assumes "identity_ok (identity_of w)" "images_available env"
    and "watch_docker_events env evs w = Some w1" "list_all (\<lambda>(fr, now, ev). abnormal ev) evs"
    and "reconcile_worker_attempt_lifecycles env frs now w1 = Some w2" "polled_deaths env"
  shows "identity_ok (identity_of w1) \<and> identity_ok (identity_of w2)"
proof -
  have w1: "identity_ok (identity_of w1)" by (rule ok_watch[OF assms(2,3,4,1)])
  moreover have "identity_ok (identity_of w2)"
    using assms(5) w1 ok_poll[OF assms(2,6)]
    by (auto simp: reconcile_worker_attempt_lifecycles_def split: if_splits option.splits)
  ultimately show ?thesis by simp
qed

section \<open>Examples\<close>

definition exit_agent :: agent where
  "exit_agent = \<lparr>ag_id = ''a1'', ag_project = ''p1'', ag_type = ''coder'', ag_name = [], ag_status = AgentWorking,
     ag_task = Some ''t1'', ag_branch = ''feature/x'', ag_session = ''c1'', ag_provider = [], ag_model = [], ag_effort = [],
     ag_heartbeat = None, ag_completed = None, ag_exit = [], ag_config = None\<rparr>"

definition exit_attempt :: spawn_attempt where
  "exit_attempt = \<lparr>at_id = ''w1'', at_task = ''t1'', at_agent = Some ''a1'', at_worker = ''coder-1'', at_container = ''c1'',
     at_type = ''coder'', at_branch = ''feature/x'', at_base = ''base'', at_image = ''img'', at_state = WorkerAttemptRunning,
     at_owner = ''coder-1'', at_lease = None, at_error = [], at_class = [], at_failed = None, at_completed = None, at_assets = [],
     at_prompt_hash = ''hash'', at_prompt_path = ''/prompt'', at_created = 5\<rparr>"

definition exit_task :: task where
  "exit_task = sample_task\<lparr>t_status := StatusInProgress, t_parent := Some ''p1'', t_agent := Some ''a1''\<rparr>"

definition exit_world :: worker_world where
  "exit_world = \<lparr>ww_db = sample_db\<lparr>db_tasks := [exit_task]\<rparr>, ww_agents = [exit_agent], ww_attempts = [exit_attempt],
     ww_attempt_events = [], ww_replacements = (\<lambda>_. []), ww_locked = False\<rparr>"

text \<open>A branch with one commit, a container service that starts \<open>c2\<close>, and a clean environment.\<close>

definition exit_environment :: "string \<Rightarrow> exit_env" where
  "exit_environment count = \<lparr>xe_project = ''p1'', xe_parse_id = Some, xe_parse_time = (\<lambda>_. 0),
     xe_git = Some \<lparr>g_worktree = (\<lambda>_. []), g_bare = ''/bare'', g_run = (\<lambda>_ args. GitOk (if hd args = ''rev-list'' then count else ''abc''))\<rparr>,
     xe_spawner = True, xe_list = None, xe_inspect = (\<lambda>_. None),
     xe_prepare = (\<lambda>tk role. Inr (sample_spawn, \<lambda>_. Inr ''c2'')), xe_busy = (\<lambda>_. None), xe_message = (\<lambda>_. ''error''),
     xe_file_hash = (\<lambda>_. None), xe_journal_path = (\<lambda>_. []), xe_journal = (\<lambda>_. None), xe_accept = (\<lambda>_ _ _. None),
     xe_complete = (\<lambda>_ w. (True, w)), xe_completed = (\<lambda>_ _ w. (True, w))\<rparr>"

definition exit_event :: "string \<Rightarrow> container_event" where
  "exit_event reason = \<lparr>ce_type = EventDie, ce_container = ''c1'', ce_labels = [(''drem.task_id'', ''t1''), (''drem.worker_id'', ''coder-1'')],
     ce_timestamp = 8, ce_exit_code = 1, ce_oom = False,
     ce_usage = Some \<lparr>wu_iterations = 3, wu_tokens_in = 0, wu_tokens_out = 0, wu_context_pct = 0, wu_stop_reason = reason,
       wu_peak_request_input = 0, wu_resumed_turns = 0, wu_folded_bytes = 0\<rparr>\<rparr>"

lemma exit_world_ok: "identity_ok (identity_of exit_world)"
  by (simp add: identity_ok_def identity_of_def exit_world_def exit_task_def exit_agent_def exit_attempt_def worker_of_def
      attempt_state_ok_def attempt_open_def sample_task_def)

lemma exit_environment_ok:
  "images_available (exit_environment n)" "polled_deaths (exit_environment n)"
  by (simp_all add: images_available_def polled_deaths_def exit_environment_def)

text \<open>The listing of the poll shows the container \<open>c2\<close> of the replacement; the inspected \<open>c1\<close> is dead.\<close>

definition polled_environment :: exit_env where
  "polled_environment = (exit_environment ''0'')\<lparr>xe_list := Some [(''c2'', ''running'')],
     xe_inspect := (\<lambda>c. if c = ''c1'' then Some \<lparr>ir_status = ''dead'', ir_exit_code = 137, ir_finished = 10, ir_oom = True, ir_usage = None\<rparr>
       else None)\<rparr>"

definition second_fresh :: fresh where
  "second_fresh s k = s @ ''2''"

lemma polled_replaced:
  "map_option (\<lambda>w. (map at_state (ww_attempts w), map (\<lambda>a. (ag_id a, ag_status a)) (ww_agents w), map t_agent (db_tasks (ww_db w))))
     (Option.bind (watch_docker_events polled_environment [(sample_fresh, 9, exit_event ''error'')] exit_world)
       (reconcile_worker_attempt_lifecycles polled_environment (\<lambda>_. second_fresh) 10))
   = Some ([WorkerAttemptFailed, WorkerAttemptRunning], [(''a1'', AgentDead), (''agent'', AgentWorking)], [Some ''agent''])"
  by code_simp

lemma worker_deaths_keep_identity_witness:
  "\<exists>w1 w2. watch_docker_events polled_environment [(sample_fresh, 9, exit_event ''error'')] exit_world = Some w1
     \<and> reconcile_worker_attempt_lifecycles polled_environment (\<lambda>_. second_fresh) 10 w1 = Some w2
     \<and> identity_ok (identity_of w1) \<and> identity_ok (identity_of w2) \<and> map t_agent (db_tasks (ww_db w2)) = [Some ''agent'']"
proof -
  obtain w1 w2 where w: "watch_docker_events polled_environment [(sample_fresh, 9, exit_event ''error'')] exit_world = Some w1"
    "reconcile_worker_attempt_lifecycles polled_environment (\<lambda>_. second_fresh) 10 w1 = Some w2"
    "map t_agent (db_tasks (ww_db w2)) = [Some ''agent'']"
    using polled_replaced by (auto simp: map_option_case bind_eq_Some_conv split: option.splits)
  have "images_available polled_environment" "polled_deaths polled_environment"
    by (simp_all add: polled_environment_def images_available_def polled_deaths_def exit_environment_def)
  moreover have "list_all (\<lambda>(fr, now, ev). abnormal ev) [(sample_fresh, 9, exit_event ''error'')]"
    by (simp add: abnormal_def exit_event_def)
  ultimately have "identity_ok (identity_of w1) \<and> identity_ok (identity_of w2)"
    by (intro worker_deaths_keep_identity[OF exit_world_ok _ w(1) _ w(2)])
  then show ?thesis by (intro exI[of _ w1] exI[of _ w2]) (simp only: w simp_thms)
qed

text \<open>A completion as \<open>retryTestContractRejection\<close> makes it: the agent is idle, its attempt has failed, and a
  worker is launched for the task.\<close>

definition rework_ids :: fresh where
  "rework_ids s k = s @ ''r''"

definition rework_complete :: "uuid \<Rightarrow> worker_world \<Rightarrow> bool \<times> worker_world" where
  "rework_complete i w =
     (case List.find (\<lambda>t. t_agent t = Some i) (db_tasks (ww_db w)) of
        None \<Rightarrow> (True, w)
      | Some tk \<Rightarrow>
          let agents = map (\<lambda>g. if ag_id g = i then g\<lparr>ag_status := AgentIdle, ag_task := None\<rparr> else g) (ww_agents w);
              attempts = map (\<lambda>x. if at_agent x = Some i then x\<lparr>at_state := WorkerAttemptFailed, at_completed := Some 9\<rparr> else x) (ww_attempts w);
              (tk1, d) = save_task 9 (tk\<lparr>t_agent := None, t_context := json_put ''test_contract_rework'' (GMap []) (t_context tk)\<rparr>) (ww_db w);
              w1 = w\<lparr>ww_db := d, ww_agents := agents, ww_attempts := attempts\<rparr> in
          (True, snd (snd (spawn_typed_worker (exit_environment ''0'') rework_ids 9 tk1 ''coder'' w1))))"

definition rework_environment :: exit_env where
  "rework_environment = (exit_environment ''0'')\<lparr>xe_complete := rework_complete\<rparr>"

definition normal_event :: container_event where
  "normal_event = (exit_event [])\<lparr>ce_exit_code := 0\<rparr>"

definition second_death :: container_event where
  "second_death = (exit_event ''error'')\<lparr>ce_container := ''c2'', ce_labels := [(''drem.task_id'', ''t1'')]\<rparr>"

lemma spawn_typed_tracker:
  assumes "spawn_typed_worker env fr now tk role w = (q, tk1, w1)"
  shows "ww_replacements w1 = ww_replacements w" "distinct (map at_id (ww_attempts w)) \<Longrightarrow> distinct (map at_id (ww_attempts w1))"
proof -
  have k: "keys v = attempt_keys (is_attempts (identity_of v))" for v by (simp add: keys_def)
  have "ww_replacements w1 = ww_replacements w \<and> (keys w1 = keys w \<or> (\<exists>i x. i \<notin> fst ` set (keys w) \<and> keys w1 = keys w @ [(i, x)]))"
    using assms
  proof (cases rule: spawn_typed_cases)
    case refused
    then show ?thesis by (simp add: k)
  next
    case (spawned r answer p c s)
    have "at_id ` set (is_attempts (identity_of w)) = fst ` set (keys w)" by (simp add: fst_keys)
    with keys_spawn[OF spawned(2)] spawned(3,4) show ?thesis unfolding k[of w1] k[of w] by auto
  qed
  then show "ww_replacements w1 = ww_replacements w" "distinct (map at_id (ww_attempts w)) \<Longrightarrow> distinct (map at_id (ww_attempts w1))"
    unfolding distinct_keys by auto
qed

lemma rework_environment_ok: "completion_keeps_tracker rework_environment"
proof -
  have "ww_replacements (snd (rework_complete i w)) = ww_replacements w
      \<and> (distinct (map at_id (ww_attempts w)) \<longrightarrow> distinct (map at_id (ww_attempts (snd (rework_complete i w)))))" for i w
  proof (cases "List.find (\<lambda>t. t_agent t = Some i) (db_tasks (ww_db w))")
    case None
    then show ?thesis by (simp add: rework_complete_def)
  next
    case (Some tk)
    obtain tk1 d where sv: "save_task 9 (tk\<lparr>t_agent := None, t_context := json_put ''test_contract_rework'' (GMap []) (t_context tk)\<rparr>) (ww_db w) = (tk1, d)"
      by fastforce
    let ?w1 = "w\<lparr>ww_db := d,
      ww_agents := map (\<lambda>g. if ag_id g = i then g\<lparr>ag_status := AgentIdle, ag_task := None\<rparr> else g) (ww_agents w),
      ww_attempts := map (\<lambda>x. if at_agent x = Some i then x\<lparr>at_state := WorkerAttemptFailed, at_completed := Some 9\<rparr> else x) (ww_attempts w)\<rparr>"
    obtain q tk2 w2 where sp: "spawn_typed_worker (exit_environment ''0'') rework_ids 9 tk1 ''coder'' ?w1 = (q, tk2, w2)"
      by (rule prod_cases3)
    have "rework_complete i w = (True, w2)" unfolding rework_complete_def Some option.case Let_def sv prod.case sp by simp
    moreover have m: "map at_id (ww_attempts ?w1) = map at_id (ww_attempts w)" by simp
    have "distinct (map at_id (ww_attempts w)) \<Longrightarrow> distinct (map at_id (ww_attempts w2))"
      by (rule spawn_typed_tracker(2)[OF sp]) (simp only: m)
    moreover have "ww_replacements w2 = ww_replacements w" using spawn_typed_tracker(1)[OF sp] by simp
    ultimately show ?thesis by simp
  qed
  then show ?thesis by (simp add: completion_keeps_tracker_def rework_environment_def)
qed

text \<open>The worker ends normally, its tests are rejected and a rework is launched, and the rework dies: three
  attempts, one of them a replacement.\<close>

lemma rework_run:
  "map (\<lambda>x. (at_id x, at_task x, at_created x)) (replacements_of rework_environment
      [(sample_fresh, 9, normal_event), (second_fresh, 10, second_death)] exit_world) = [(''attempt2'', ''t1'', 10)]
   \<and> map_option (\<lambda>w. map at_state (ww_attempts w)) (watch_docker_events rework_environment
      [(sample_fresh, 9, normal_event), (second_fresh, 10, second_death)] exit_world)
     = Some [WorkerAttemptFailed, WorkerAttemptFailed, WorkerAttemptRunning]"
  by code_simp

lemma replacements_bounded_witness:
  "map at_id (replacements_of rework_environment [(sample_fresh, 9, normal_event), (second_fresh, 10, second_death)] exit_world) = [''attempt2'']
   \<and> length (filter (\<lambda>x. at_task x = ''t1'' \<and> 10 - 3600000000000 < at_created x \<and> at_created x \<le> 10)
       (replacements_of rework_environment [(sample_fresh, 9, normal_event), (second_fresh, 10, second_death)] exit_world)) \<le> 3"
proof
  show "map at_id (replacements_of rework_environment [(sample_fresh, 9, normal_event), (second_fresh, 10, second_death)] exit_world) = [''attempt2'']"
    using arg_cong[OF conjunct1[OF rework_run], of "map fst"] by (simp add: comp_def)
  show "length (filter (\<lambda>x. at_task x = ''t1'' \<and> 10 - 3600000000000 < at_created x \<and> at_created x \<le> 10)
       (replacements_of rework_environment [(sample_fresh, 9, normal_event), (second_fresh, 10, second_death)] exit_world)) \<le> 3"
    by (rule replacements_bounded[OF rework_environment_ok]) (simp_all add: exit_world_def)
qed

text \<open>The exit of a worker whose task has been given to another agent.\<close>

definition stale_world :: worker_world where
  "stale_world = exit_world\<lparr>ww_db := sample_db\<lparr>db_tasks := [exit_task\<lparr>t_agent := Some ''a2''\<rparr>]\<rparr>\<rparr>"

lemma stale_states:
  "map_option (\<lambda>w. map at_state (ww_attempts w)) (dispatch_event (exit_environment ''0'') sample_fresh 9 (exit_event ''error'') stale_world)
   = Some [WorkerAttemptFailed]"
  by code_simp


text \<open>Without the assumption about images the identities do not stay well-formed: a replacement whose image is
  missing is aborted, but the reservation has set the agent in the copy of the task that the handler
  then fails, so the failed task is assigned to the dead agent of the aborted reservation.\<close>

definition imageless_environment :: exit_env where
  "imageless_environment = (exit_environment ''0'')\<lparr>xe_prepare := (\<lambda>tk role. Inr (sample_spawn, \<lambda>_. Inl ''worker image unavailable''))\<rparr>"

lemma missing_image_reassigns:
  "map_option (\<lambda>w. (map (\<lambda>t. (t_status t, t_agent t)) (db_tasks (ww_db w)), map (\<lambda>a. (ag_id a, ag_status a)) (ww_agents w),
       map at_state (ww_attempts w)))
     (dispatch_event imageless_environment sample_fresh 9 (exit_event ''error'') exit_world)
   = Some ([(StatusFailed, Some ''agent'')], [(''a1'', AgentDead), (''agent'', AgentDead)], [WorkerAttemptFailed, WorkerAttemptAborted])"
  by code_simp

end
