(* ===== verification/CheckpointContinuation.thy ===== *)
theory CheckpointContinuation
  imports WorkerExitProperties
begin

text \<open>
  When the report of a container exit is handled to its end.  The handler holds the mutex of the
  worker lifecycle, and the continuation of a checkpoint asks for the same mutex: exactly these
  reports are never finished, and the mutex stays held.
\<close>

section \<open>Failing a task\<close>

lemma cas_task_transition_success:
  assumes "can_move (t_status tk) target" "t_id tk \<noteq> uuid_Nil" "actor \<noteq> []" "source \<noteq> []" "reason \<noteq> []"
    and "length (filter (cas_match tk (t_status tk)) (db_tasks d)) = 1" "\<forall>e \<in> set (db_events d). te_id e \<noteq> eid"
  shows "\<exists>d'. cas_task_transition eid now tk (t_status tk) target actor source reason refs d
    = (tk\<lparr>t_status := target, t_version := t_version tk + 1, t_updated := now\<rparr>, Inr d')"
proof -
  let ?req = "cas_request tk (t_status tk) target actor source reason refs"
  have v: "validate_transition (t_status tk) target = Inr ()" using assms(1) by (simp add: can_move_def)
  obtain tk1 ev where g: "guarded_transition_task eid now (Some tk) ?req = Inr (tk1, ev)"
    using assms(2-5) v
    by (auto simp: guarded_transition_task_def transition_task_at_def transition_task_unchecked_at_def cas_request_def
        validate_evidence_def Let_def res_bind_def check_def)
  note gs = guarded_cas_request_Inr[OF g]
  have "\<forall>e \<in> set (db_events d). \<not> event_conflict ev e" using assms(7) gs(3) by (auto simp: event_conflict_def)
  then show ?thesis
    using assms(6) by (simp add: cas_task_transition_def g gs(2) tbl_update_def tbl_create_def list_ex_iff Let_def)
qed

lemma fail_succeeds:
  assumes "can_move (t_status tk) StatusFailed" "t_id tk \<noteq> uuid_Nil" "reason \<noteq> []"
    and "r \<in> set (db_tasks d)" "t_id r = t_id tk" "t_status r = t_status tk" "t_version r = t_version tk"
    and "distinct (map t_id (db_tasks d))" "\<forall>e \<in> set (db_events d). te_id e \<noteq> eid"
  shows "\<exists>tk' d'. fail_task_with_failure_evidence eid now tk reason cl summary failed_at budget d = (tk', Inr d') \<and> t_parent tk' = t_parent tk"
proof -
  have row: "length (filter (cas_match tk' (t_status tk)) (db_tasks d)) = 1"
    if "t_id tk' = t_id tk" "t_status tk' = t_status tk" "t_version tk' = t_version tk" for tk'
  proof -
    have "filter (cas_match tk' (t_status tk)) (db_tasks d) = filter (\<lambda>x. t_id x = t_id r) (db_tasks d)"
    proof (rule filter_cong[OF refl])
      fix x assume "x \<in> set (db_tasks d)"
      then show "cas_match tk' (t_status tk) x \<longleftrightarrow> t_id x = t_id r"
        using key_eq[OF assms(8) _ assms(4)] assms(5-7) that by (auto simp: cas_match_def)
    qed
    then show ?thesis using one_row[OF assms(8,4)] by simp
  qed
  show ?thesis
  proof -
    let ?tk = "tk\<lparr>t_context := json_put ''failure_reason'' (GStr reason) (json_put ''failure_class'' (GStr cl)
      (json_put ''failure_reason'' (GStr reason) (record_latest_failure cl summary failed_at budget (t_context tk))))\<rparr>"
    have "\<exists>d'. cas_task_transition eid now ?tk (t_status ?tk) StatusFailed ''orchestrator'' ''failure_policy'' reason [] d
        = (?tk\<lparr>t_status := StatusFailed, t_version := t_version ?tk + 1, t_updated := now\<rparr>, Inr d')"
      by (rule cas_task_transition_success) (use assms(1-3,9) row[of ?tk] in simp_all)
    then obtain d' where "cas_task_transition eid now ?tk (t_status ?tk) StatusFailed ''orchestrator'' ''failure_policy'' reason [] d
        = (?tk\<lparr>t_status := StatusFailed, t_version := t_version ?tk + 1, t_updated := now\<rparr>, Inr d')" ..
    then show ?thesis
      unfolding fail_task_with_failure_evidence_def fail_task_def transition_task_atomic_def by simp
  qed
qed

lemma fail_needs_move:
  assumes "fail_task_with_failure_evidence eid now tk reason cl summary failed_at budget d = (tk', Inr d')"
  shows "can_move (t_status tk) StatusFailed" "t_parent tk' = t_parent tk" "t_id tk' = t_id tk"
proof -
  let ?tk = "tk\<lparr>t_context := json_put ''failure_reason'' (GStr reason) (json_put ''failure_class'' (GStr cl)
    (json_put ''failure_reason'' (GStr reason) (record_latest_failure cl summary failed_at budget (t_context tk))))\<rparr>"
  have "transition_task_atomic eid now ?tk StatusFailed ''orchestrator'' ''failure_policy'' reason [] d = (tk', Inr d')"
    using assms unfolding fail_task_with_failure_evidence_def fail_task_def by simp
  then have "cas_task_transition eid now ?tk (t_status ?tk) StatusFailed ''orchestrator'' ''failure_policy'' reason [] d = (tk', Inr d')"
    unfolding transition_task_atomic_def by (auto split: prod.splits sum.splits)
  note c = cas_task_transition_Inr[OF this]
  show "can_move (t_status tk) StatusFailed" using c(1) by simp
  show "t_parent tk' = t_parent tk" "t_id tk' = t_id tk" by (simp_all add: c(2))
qed

section \<open>Waiting for itself\<close>

text \<open>The report of the death of the task's worker that has committed something, ran out of its tokens,
  time or context, and works on a subtask.\<close>

definition waits_for_itself :: "exit_env \<Rightarrow> container_event \<Rightarrow> worker_world \<Rightarrow> bool" where
  "waits_for_itself env ev w \<longleftrightarrow>
     ce_type ev \<notin> {EventStart, EventDestroy} \<and> (ce_exit_code ev \<noteq> 0 \<or> ce_oom ev)
     \<and> (case parse_task_id_from_labels (xe_parse_id env) ev of None \<Rightarrow> False | Some tid \<Rightarrow>
       (case load_task tid (ww_db w) of Inl _ \<Rightarrow> False | Inr tk \<Rightarrow>
       (case attempt_for_event tid ev w of None \<Rightarrow> False | Some a \<Rightarrow>
          \<not> is_merger_attempt a \<and> \<not> late_exit tk a \<and> \<not> prior_branch_acceptance_rejected tk \<and> can_move (t_status tk) StatusFailed
          \<and> (case attempt_checkpoint env a of
               Inr (Some sha) \<Rightarrow> trim_space sha \<noteq> []
                 \<and> should_auto_continue_checkpoint tk a (failure_reason (ev\<lparr>ce_usage := observed_usage env a ev\<rparr>))
             | _ \<Rightarrow> False))))"

lemma mark_dead_row:
  assumes "mark_worker_attempt_dead now tk a ev w = (tk1, w1)" "tk \<in> set (db_tasks (ww_db w))"
  shows "t_status tk1 = t_status tk" "t_version tk1 = t_version tk" "t_context tk1 = t_context tk" "t_parent tk1 = t_parent tk"
    "t_id tk1 = t_id tk" "db_events (ww_db w1) = db_events (ww_db w)" "\<exists>r \<in> set (db_tasks (ww_db w1)). r = tk1"
proof -
  have e: "db_events (snd (save_task now t d)) = db_events d" for t d by (simp add: save_task_def Let_def)
  show "t_status tk1 = t_status tk" "t_version tk1 = t_version tk" "t_context tk1 = t_context tk" "t_parent tk1 = t_parent tk"
    "t_id tk1 = t_id tk" "db_events (ww_db w1) = db_events (ww_db w)"
    using assms(1) by (auto elim!: mark_dead_cases simp: e)
  show "\<exists>r \<in> set (db_tasks (ww_db w1)). r = tk1"
    using assms(1)
  proof (cases rule: mark_dead_cases)
    case same
    then show ?thesis using assms(2) by simp
  next
    case (marked ag)
    then show ?thesis using saved_present[of now "tk\<lparr>t_agent := None\<rparr>" "ww_db w"] by simp
  qed
qed

lemma git_of_checkpoint: "attempt_checkpoint env a = Inr (Some sha) \<Longrightarrow> xe_git env \<noteq> None"
  by (auto simp: attempt_checkpoint_def split: option.splits)

lemma hand_off_waits:
  assumes "ww_locked w" "xe_git env \<noteq> None" "t_id tk \<noteq> uuid_Nil" "tk \<in> set (db_tasks (ww_db w))" "distinct (map t_id (db_tasks (ww_db w)))"
    and "\<forall>e \<in> set (db_events (ww_db w)). te_id e \<noteq> fr ''fail event'' 0"
  shows "hand_off_checkpoint env fr now tk a ev sha w = None \<longleftrightarrow>
    can_move (t_status tk) StatusFailed \<and> trim_space sha \<noteq> [] \<and> should_auto_continue_checkpoint tk a (failure_reason ev)"
proof -
  let ?tk1 = "checkpoint_task tk a ev sha" and ?summary = "checkpoint_summary sha a"
  obtain budget tk2 where b: "consume_retry_budget (xe_parse_time env) ?tk1 (retry_edge_for_task ?tk1 (at_type a)) ''artifact_handoff'' ?summary now
      = (budget, tk2)" by fastforce
  then have s: "tk2 = snd (consume_retry_budget (xe_parse_time env) ?tk1 (retry_edge_for_task ?tk1 (at_type a)) ''artifact_handoff'' ?summary now)"
    by simp
  have k: "t_id tk2 = t_id tk" "t_status tk2 = t_status tk" "t_version tk2 = t_version tk" "t_parent tk2 = t_parent tk"
    unfolding s consume_simps by (simp_all add: checkpoint_task_def)
  obtain tk3 res where f: "fail_task_with_failure_evidence (fr ''fail event'' 0) now tk2 ''worker checkpoint requires bounded artifact handoff''
             ''artifact_handoff'' ?summary now budget (ww_db w) = (tk3, res)" by fastforce
  have ac: "should_auto_continue_checkpoint tk3 a r = should_auto_continue_checkpoint tk a r" if "t_parent tk3 = t_parent tk2" for r
    using that k(4) by (simp add: should_auto_continue_checkpoint_def)
  have t: "trim_space ''orchestrator:checkpoint-continuation'' \<noteq> []" by code_simp
  show ?thesis
  proof (cases "can_move (t_status tk) StatusFailed")
    case True
    have "\<exists>tk' d'. (tk3, res) = (tk', Inr d') \<and> t_parent tk' = t_parent tk2"
      unfolding f[symmetric] by (rule fail_succeeds[of tk2 _ tk]) (use True assms(3-6) k in simp_all)
    then obtain d where d: "res = Inr d" "t_parent tk3 = t_parent tk2" by blast
    have "ww_locked (w\<lparr>ww_db := d\<rparr>)" using assms(1) by simp
    then show ?thesis unfolding hand_off_checkpoint_def Let_def b prod.case f d(1) sum.case
      using True t assms(2) ac[OF d(2)] by (auto simp: resume_locked)
  next
    case False
    then have "\<exists>e. res = Inl e" using fail_needs_move(1)[of _ _ tk2] f k(2) by (cases res) auto
    then show ?thesis unfolding hand_off_checkpoint_def Let_def b prod.case f using False by auto
  qed
qed

lemma death_waits:
  assumes "ww_locked w" "t_id tk \<noteq> uuid_Nil" "identity_ok (identity_of w)" "a \<in> set (ww_attempts w)" "tk \<in> set (db_tasks (ww_db w))"
    and "\<forall>e \<in> set (db_events (ww_db w)). te_id e \<noteq> fr ''fail event'' 0"
  shows "handle_worker_death env fr now tk a ev w = None \<longleftrightarrow>
    \<not> prior_branch_acceptance_rejected tk \<and> can_move (t_status tk) StatusFailed
    \<and> (case attempt_checkpoint env a of
         Inr (Some sha) \<Rightarrow> trim_space sha \<noteq> [] \<and> should_auto_continue_checkpoint tk a (failure_reason ev)
       | _ \<Rightarrow> False)"
proof -
  obtain tk1 w1 where m: "mark_worker_attempt_dead now tk a ev w = (tk1, w1)" by fastforce
  note row = mark_dead_row[OF m assms(5)] and ok = ok_mark_dead[OF assms(3-5) m]
  have rej: "prior_branch_acceptance_rejected tk1 = prior_branch_acceptance_rejected tk"
    by (simp add: prior_branch_acceptance_rejected_def row(3))
  have auto: "should_auto_continue_checkpoint tk1 a r = should_auto_continue_checkpoint tk a r" for r
    by (simp add: should_auto_continue_checkpoint_def row(4))
  have d: "distinct (map t_id (db_tasks (ww_db w1)))" using ok by (simp add: identity_ok_def)
  have h: "hand_off_checkpoint env fr now tk1 a ev sha w1 = None \<longleftrightarrow>
      can_move (t_status tk1) StatusFailed \<and> trim_space sha \<noteq> [] \<and> should_auto_continue_checkpoint tk1 a (failure_reason ev)"
    if "attempt_checkpoint env a = Inr (Some sha)" for sha
    by (rule hand_off_waits) (use assms(1,2,6) git_of_checkpoint[OF that] row mark_dead_keeps[OF m] d in auto)
  show ?thesis
    using refl[of "handle_worker_death env fr now tk a ev w"] m
  proof (cases rule: death_cases)
    case (rejected tk2 reason cl summary budget)
    then show ?thesis using rej by simp
  next
    case (checkpoint sha)
    then show ?thesis using h[OF checkpoint(2)] rej auto row(1) by auto
  next
    case retry
    then show ?thesis by (auto split: sum.splits option.splits)
  qed
qed

lemma lifecycle_events:
  "e \<in> set (db_events (ww_db (record_container_lifecycle_event eid now tid ev w))) \<Longrightarrow> e \<in> set (db_events (ww_db w)) \<or> te_id e = eid"
  by (auto simp: record_container_lifecycle_event_def add_event_def create_event_def res_simps split: sum.splits)

lemma locked_dispatch:
  assumes "dispatch_event env fr now ev w = r" "\<not> ww_locked w"
  shows "r = map_option (\<lambda>w'. w'\<lparr>ww_locked := False\<rparr>) (dispatch_locked env fr now ev (w\<lparr>ww_locked := True\<rparr>))"
  using assms by (simp add: dispatch_event_def)

lemma dispatch_waits:
  assumes "\<not> ww_locked w" "identity_ok (identity_of w)" "\<forall>t \<in> set (db_tasks (ww_db w)). t_id t \<noteq> uuid_Nil"
    and "\<forall>e \<in> set (db_events (ww_db w)). te_id e \<noteq> fr ''fail event'' 0" "fr ''lifecycle event'' 0 \<noteq> fr ''fail event'' 0"
  shows "dispatch_event env fr now ev w = None \<longleftrightarrow> waits_for_itself env ev w"
proof (cases "ce_type ev \<in> {EventStart, EventDestroy} \<or> parse_task_id_from_labels (xe_parse_id env) ev = None
    \<or> ce_exit_code ev = 0 \<and> \<not> ce_oom ev")
  case True
  then show ?thesis using assms(1)
    by (auto simp: dispatch_event_def dispatch_locked_def waits_for_itself_def Let_def split: option.splits)
next
  case False
  then obtain tid where tid: "parse_task_id_from_labels (xe_parse_id env) ev = Some tid" by auto
  let ?w = "record_container_lifecycle_event (fr ''lifecycle event'' 0) now tid ev (w\<lparr>ww_locked := True\<rparr>)"
  have d: "dispatch_event env fr now ev w = None \<longleftrightarrow> handle_abnormal_exit env fr now tid ev ?w = None"
    using False tid assms(1) by (auto simp: dispatch_event_def dispatch_locked_def Let_def)
  have l: "load_task tid (ww_db ?w) = load_task tid (ww_db w)" by (rule load_task_cong) simp
  have at: "attempt_for_event tid ev ?w = attempt_for_event tid ev w" by (rule attempt_for_event_cong) simp
  show ?thesis
  proof (cases "\<exists>tk a. load_task tid (ww_db w) = Inr tk \<and> attempt_for_event tid ev w = Some a")
    case False
    then show ?thesis using d l at tid
      by (auto simp: handle_abnormal_exit_def waits_for_itself_def split: sum.splits option.splits)
  next
    case True
    then obtain tk a where ta: "load_task tid (ww_db w) = Inr tk" "attempt_for_event tid ev w = Some a" by blast
    let ?ev = "ev\<lparr>ce_usage := observed_usage env a ev\<rparr>"
    let ?w1 = "record_attempt_terminal_observation (fr ''attempt event'' 0) now a ?ev ?w"
    have mem: "a \<in> set (ww_attempts w)" "tk \<in> set (db_tasks (ww_db w))"
      using attempt_for_event_Some[OF ta(2)] load_task_Inr[OF ta(1)] by auto
    have fresh: "\<forall>e \<in> set (db_events (ww_db ?w)). te_id e \<noteq> fr ''fail event'' 0"
    proof
      fix e assume "e \<in> set (db_events (ww_db ?w))"
      from lifecycle_events[OF this] assms(4,5) show "te_id e \<noteq> fr ''fail event'' 0" by auto
    qed
    have w: "handle_worker_death env fr now tk a ?ev ?w1 = None \<longleftrightarrow>
        \<not> prior_branch_acceptance_rejected tk \<and> can_move (t_status tk) StatusFailed
        \<and> (case attempt_checkpoint env a of
             Inr (Some sha) \<Rightarrow> trim_space sha \<noteq> [] \<and> should_auto_continue_checkpoint tk a (failure_reason ?ev)
           | _ \<Rightarrow> False)"
      by (rule death_waits) (use mem assms(2,3) fresh in simp_all)
    have h: "handle_abnormal_exit env fr now tid ev ?w = None \<longleftrightarrow>
        \<not> is_merger_attempt a \<and> \<not> late_exit tk a \<and> handle_worker_death env fr now tk a ?ev ?w1 = None"
      by (simp add: handle_abnormal_exit_def l at ta Let_def late_exit_def)
    show ?thesis unfolding d h w using False tid ta
      by (auto simp: waits_for_itself_def split: sum.splits option.splits)
  qed
qed

text \<open>C37: an exit that is reported while the mutex is free is handled to its end, and the mutex is free
  again, with one exception: the worker of a subtask that died of its token, time or context limit
  after it had committed something.  Its continuation waits for the mutex the handler holds, so the
  handler never returns, and the rest of the events is never handled.\<close>

theorem exit_handling_returns_iff:
  assumes "\<not> ww_locked w" "identity_ok (identity_of w)" "\<forall>t \<in> set (db_tasks (ww_db w)). t_id t \<noteq> uuid_Nil"
    and "\<forall>e \<in> set (db_events (ww_db w)). te_id e \<noteq> fr ''fail event'' 0" "fr ''lifecycle event'' 0 \<noteq> fr ''fail event'' 0"
  shows "if waits_for_itself env ev w then watch_docker_events env ((fr, now, ev) # evs) w = None
    else \<exists>w'. dispatch_event env fr now ev w = Some w' \<and> \<not> ww_locked w'"
proof (cases "waits_for_itself env ev w")
  case True
  then show ?thesis using dispatch_waits[where fr = fr and now = now and env = env and ev = ev, OF assms] by simp
next
  case False
  then obtain w' where "dispatch_event env fr now ev w = Some w'" using dispatch_waits[where fr = fr and now = now and env = env and ev = ev, OF assms] by fastforce
  moreover then have "\<not> ww_locked w'" using locked_dispatch[OF _ assms(1)] by fastforce
  ultimately show ?thesis using False by simp
qed

section \<open>Witnesses\<close>

lemma exit_lookups:
  "load_task ''t1'' (ww_db exit_world) = Inr exit_task" "attempt_for_event ''t1'' (exit_event r) exit_world = Some exit_attempt"
  "parse_task_id_from_labels Some (exit_event r) = Some ''t1''"
  "xe_parse_id (exit_environment n) = Some"
  "ce_type (exit_event r) = EventDie" "ce_exit_code (exit_event r) = 1"
  "(exit_event r)\<lparr>ce_usage := observed_usage (exit_environment n) exit_attempt (exit_event r)\<rparr> = exit_event r"
  by (simp_all add: load_task_def tbl_first_def exit_world_def exit_task_def sample_task_def of_option_def attempt_for_event_def
      tbl_latest_def exit_event_def exit_attempt_def parse_task_id_from_labels_def label_def exit_environment_def observed_usage_def)

lemma exit_conditions:
  "is_merger_attempt exit_attempt = False" "late_exit exit_task exit_attempt = False" "prior_branch_acceptance_rejected exit_task = False"
  "can_move (t_status exit_task) StatusFailed" "attempt_checkpoint (exit_environment ''1'') exit_attempt = Inr (Some ''abc'')"
  "attempt_checkpoint (exit_environment ''0'') exit_attempt = Inr None"
  "failure_reason (exit_event ''token_budget'') = ''token_budget''"
  by (simp_all add: is_merger_attempt_def late_exit_def current_assigned_attempt_def active_worker_attempt_def is_terminal_def
      prior_branch_acceptance_rejected_def exit_task_def exit_attempt_def sample_task_def can_move_iff attempt_checkpoint_def
      exit_environment_def run_git_def res_bind_def json_get_def map_from_any_def trim_space_def is_space_def failure_reason_def exit_event_def)

lemma exit_waits: "waits_for_itself (exit_environment ''1'') (exit_event ''token_budget'') exit_world"
  by (simp add: waits_for_itself_def exit_lookups exit_conditions)
    (simp add: should_auto_continue_checkpoint_def exit_task_def exit_attempt_def trim_space_def is_space_def)

lemma exit_returns: "\<not> waits_for_itself (exit_environment ''0'') (exit_event ''token_budget'') exit_world"
  by (simp add: waits_for_itself_def exit_lookups exit_conditions)

lemma exit_fresh:
  "\<not> ww_locked exit_world" "\<forall>t \<in> set (db_tasks (ww_db exit_world)). t_id t \<noteq> uuid_Nil"
  "\<forall>e \<in> set (db_events (ww_db exit_world)). te_id e \<noteq> sample_fresh ''fail event'' 0"
  "sample_fresh ''lifecycle event'' 0 \<noteq> sample_fresh ''fail event'' 0"
  by (simp_all add: exit_world_def exit_task_def sample_task_def sample_db_def sample_fresh_def uuid_Nil_def)

lemma exit_handling_returns_iff_witness:
  "watch_docker_events (exit_environment ''1'') [(sample_fresh, 9, exit_event ''token_budget'')] exit_world = None
   \<and> dispatch_event (exit_environment ''0'') sample_fresh 9 (exit_event ''token_budget'') exit_world \<noteq> None"
  using exit_handling_returns_iff[where fr = sample_fresh and now = 9 and env = "exit_environment ''1''"
      and ev = "exit_event ''token_budget''" and evs = "[]", OF exit_fresh(1) exit_world_ok exit_fresh(2,3,4)]
    exit_handling_returns_iff[where fr = sample_fresh and now = 9 and env = "exit_environment ''0''"
      and ev = "exit_event ''token_budget''" and evs = "[]", OF exit_fresh(1) exit_world_ok exit_fresh(2,3,4)]
    exit_waits exit_returns by auto

end
