(* ===== verification/WaveOrder.thy ===== *)
theory WaveOrder
  imports WaveSchedule
begin

text \<open>
  Correctness of \<open>topologicalSortByDegree\<close> and of the colouring in \<open>BuildSchedule\<close>
  (\<open>internal/orchestrator/scheduler.go\<close>): the order is a permutation of the nodes, a node of the
  queue's part comes after all its dependencies, the whole order is topological when the
  dependencies are acyclic, and neighbours get different colours.
\<close>

section \<open>The in-degree invariant\<close>

definition open_deps :: "(nat \<Rightarrow> nat list) \<Rightarrow> nat set \<Rightarrow> nat \<Rightarrow> nat" where
  "open_deps before P i = length (filter (\<lambda>d. d \<notin> P) (before i))"

definition kahn_inv ::
  "nat \<Rightarrow> (nat \<Rightarrow> nat list) \<Rightarrow> nat set \<Rightarrow> nat list \<Rightarrow> int list \<Rightarrow> nat list \<Rightarrow> bool" where
  "kahn_inv n before P queue degs pending \<longleftrightarrow>
     length degs = n \<and> P \<subseteq> {..<n} \<and> set queue \<subseteq> {..<n} \<and> distinct queue \<and> set queue \<inter> P = {} \<and>
     (\<forall>i < n. degs ! i = int (open_deps before P i + count_list pending i)) \<and>
     (\<forall>i < n. i \<notin> P \<longrightarrow> (degs ! i = 0 \<longleftrightarrow> i \<in> set queue)) \<and> (\<forall>i \<in> P. degs ! i = 0)"

definition permutes_queue :: "(nat list \<Rightarrow> nat list) \<Rightarrow> bool" where
  "permutes_queue srt \<longleftrightarrow> (\<forall>q. mset (srt q) = mset q)"

lemma permutes_queueD:
  assumes "permutes_queue srt"
  shows "mset (srt q) = mset q" "set (srt q) = set q" "distinct (srt q) = distinct q"
proof -
  show m: "mset (srt q) = mset q" using assms by (simp add: permutes_queue_def)
  show "set (srt q) = set q" by (rule mset_eq_setD [OF m])
  show "distinct (srt q) = distinct q" by (rule mset_eq_imp_distinct_iff [OF m])
qed

lemma reduce_degrees_inv:
  assumes srt: "permutes_queue srt"
  shows "\<lbrakk>kahn_inv n before P queue degs pending; set pending \<subseteq> {..<n};
          reduce_degrees srt pending (queue, degs) = (queue', degs')\<rbrakk> \<Longrightarrow>
     kahn_inv n before P queue' degs' []"
proof (induction pending arbitrary: queue degs)
  case Nil
  then show ?case by simp
next
  case (Cons dep pending)
  note inv = Cons.prems(1)
  have len: "length degs = n" using inv by (simp add: kahn_inv_def)
  have dep: "dep < n" using Cons.prems(2) by simp
  have d1: "degs ! dep = int (open_deps before P dep + count_list pending dep) + 1"
    using inv dep by (simp add: kahn_inv_def)
  then have notin: "dep \<notin> P" "dep \<notin> set queue"
    using inv dep by (auto simp: kahn_inv_def)
  let ?degs = "degs[dep := degs ! dep - 1]"
  have d: "?degs ! i = int (open_deps before P i + count_list pending i)" if "i < n" for i
    using inv that d1 len by (cases "i = dep") (auto simp: kahn_inv_def)
  have upd: "?degs ! i = (if i = dep then degs ! dep - 1 else degs ! i)" if "i < n" for i
    using that len by (simp add: nth_list_update)
  have old: "degs ! i = 0 \<longleftrightarrow> i \<in> set queue" if "i < n" "i \<notin> P" for i
    using inv that unfolding kahn_inv_def by blast
  have done_zero: "degs ! i = 0" "i < n" if "i \<in> P" for i
    using inv that unfolding kahn_inv_def by blast+
  have shape: "length ?degs = n" "P \<subseteq> {..<n}" "set queue \<subseteq> {..<n}" "distinct queue" "set queue \<inter> P = {}"
    using inv unfolding kahn_inv_def by simp_all
  show ?case
  proof (cases "?degs ! dep = 0")
    case True
    let ?q = "srt (queue @ [dep])"
    have "kahn_inv n before P ?q ?degs pending"
      unfolding kahn_inv_def
    proof (intro conjI allI impI ballI)
      show "?degs ! i = 0 \<longleftrightarrow> i \<in> set ?q" if "i < n" "i \<notin> P" for i
        using True old [OF that] upd [OF that(1)] permutes_queueD(2) [OF srt, of "queue @ [dep]"] by auto
      show "?degs ! i = 0" if "i \<in> P" for i
        using done_zero [OF that] upd notin that by auto
      show "set ?q \<subseteq> {..<n}" "distinct ?q" "set ?q \<inter> P = {}"
        using permutes_queueD(2,3) [OF srt, of "queue @ [dep]"] shape dep notin by auto
    qed (use shape d in simp_all)
    moreover have "reduce_degrees srt pending (?q, ?degs) = (queue', degs')"
      using Cons.prems(3) True by (simp add: Let_def)
    ultimately show ?thesis using Cons.IH Cons.prems(2) by simp
  next
    case False
    have "kahn_inv n before P queue ?degs pending"
      unfolding kahn_inv_def
    proof (intro conjI allI impI ballI)
      show "?degs ! i = 0 \<longleftrightarrow> i \<in> set queue" if "i < n" "i \<notin> P" for i
        using False old [OF that] upd [OF that(1)] notin that by auto
      show "?degs ! i = 0" if "i \<in> P" for i
        using done_zero [OF that] upd notin that by auto
    qed (use shape d in simp_all)
    moreover have "reduce_degrees srt pending (queue, ?degs) = (queue', degs')"
      using Cons.prems(3) False by (simp add: Let_def)
    ultimately show ?thesis using Cons.IH Cons.prems(2) by simp
  qed
qed

lemma count_deps_after:
  assumes "i < n"
  shows "count_list (deps_after n before v) i = count_list (before i) v"
proof -
  have one: "count_list (map (\<lambda>_. j) xs) i = (if j = i then length xs else 0)" for j and xs :: "nat list"
    by (induction xs) auto
  have cc: "count_list (concat xss) i = sum_list (map (\<lambda>xs. count_list xs i) xss)" for xss :: "nat list list"
    by (induction xss) (simp_all add: count_list_append)
  have fl: "length (filter (\<lambda>d. d = v) (before i)) = count_list (before i) v"
    by (induction "before i") (auto simp: count_list_eq_length_filter intro: arg_cong [where f = length] filter_cong)
  have "count_list (deps_after n before v) i
      = (\<Sum>j \<leftarrow> [0..<n]. if j = i then length (filter (\<lambda>d. d = v) (before j)) else 0)"
    by (simp add: deps_after_def cc comp_def one)
  also have "\<dots> = length (filter (\<lambda>d. d = v) (before i))"
    using assms by (simp add: interv_sum_list_conv_sum_set_nat)
  finally show ?thesis using fl by simp
qed

lemma deps_after_less: "set (deps_after n before v) \<subseteq> {..<n}"
  by (auto simp: deps_after_def)

lemma open_deps_insert:
  assumes "v \<notin> P"
  shows "open_deps before P i = open_deps before (insert v P) i + count_list (before i) v"
proof -
  have "length (filter (\<lambda>d. d \<notin> P) xs) = length (filter (\<lambda>d. d \<notin> insert v P) xs) + count_list xs v" for xs
    using assms by (induction xs) auto
  then show ?thesis by (simp add: open_deps_def)
qed

lemma kahn_pop:
  assumes inv: "kahn_inv n before P (node # queue) degs []"
  shows "kahn_inv n before (insert node P) queue degs (deps_after n before node)"
    and "set (before node) \<subseteq> P" and "node \<notin> P" and "node < n"
proof -
  show node: "node \<notin> P" "node < n" using inv by (auto simp: kahn_inv_def)
  have z: "degs ! node = 0" using inv node by (auto simp: kahn_inv_def)
  then have "open_deps before P node = 0" using inv node by (auto simp: kahn_inv_def)
  then show "set (before node) \<subseteq> P" by (auto simp: open_deps_def filter_empty_conv)
  show "kahn_inv n before (insert node P) queue degs (deps_after n before node)"
    using inv z open_deps_insert [OF node(1), of before] node
    by (auto simp: kahn_inv_def count_deps_after)
qed

section \<open>The queue loop\<close>

text \<open>Every element of the list comes after its dependencies.\<close>

definition dep_closed :: "(nat \<Rightarrow> nat list) \<Rightarrow> nat list \<Rightarrow> bool" where
  "dep_closed before ord \<longleftrightarrow> (\<forall>k < length ord. set (before (ord ! k)) \<subseteq> set (take k ord))"

lemma dep_closed_snoc:
  "\<lbrakk>dep_closed before ord; set (before v) \<subseteq> set ord\<rbrakk> \<Longrightarrow> dep_closed before (ord @ [v])"
  by (auto simp: dep_closed_def nth_append less_Suc_eq)

lemma topo_loop_complete:
  assumes srt: "permutes_queue srt"
  shows "\<lbrakk>kahn_inv n before (set ord) queue degs []; distinct ord; dep_closed before ord;
          n \<le> length ord + fuel\<rbrakk> \<Longrightarrow>
     \<exists>ord' degs'. topo_loop srt (deps_after n before) fuel queue degs ord = (ord', []) \<and>
       kahn_inv n before (set ord') [] degs' [] \<and> distinct ord' \<and> dep_closed before ord'"
proof (induction fuel arbitrary: queue degs ord)
  case 0
  have "queue = []"
  proof (rule ccontr)
    assume "queue \<noteq> []"
    then obtain v q where q: "queue = v # q" by (cases queue) auto
    have "set ord \<subseteq> {..<n}" "v < n" "v \<notin> set ord"
      using 0(1) q by (auto simp: kahn_inv_def)
    then have "set ord \<subset> {..<n}" by auto
    then have "card (set ord) < n" using psubset_card_mono [of "{..<n}" "set ord"] by simp
    then show False using 0(2,4) by (simp add: distinct_card)
  qed
  then show ?case using 0 by auto
next
  case (Suc fuel)
  show ?case
  proof (cases queue)
    case Nil
    then show ?thesis using Suc.prems by auto
  next
    case (Cons node q)
    note p = kahn_pop [OF Suc.prems(1) [unfolded Cons]]
    obtain q' degs' where r: "reduce_degrees srt (deps_after n before node) (q, degs) = (q', degs')"
      by fastforce
    have inv: "kahn_inv n before (set (ord @ [node])) q' degs' []"
      using reduce_degrees_inv [OF srt p(1) deps_after_less r] by simp
    have "dep_closed before (ord @ [node])"
      using dep_closed_snoc [OF Suc.prems(3) p(2)] .
    from Suc.IH [OF inv _ this] Suc.prems(2,4) p(3) show ?thesis
      using Cons r by auto
  qed
qed

lemma initial_kahn:
  assumes srt: "permutes_queue srt"
  shows "kahn_inv n before {} (srt (filter (\<lambda>i. map (\<lambda>i. int (length (before i))) [0..<n] ! i = 0) [0..<n]))
           (map (\<lambda>i. int (length (before i))) [0..<n]) []"
  using permutes_queueD [OF srt] by (auto simp: kahn_inv_def open_deps_def)

lemma sorts_permutes: "sorts_by_degree sortq \<Longrightarrow> permutes_queue (sortq deg)"
  by (simp add: sorts_by_degree_def permutes_queue_def)

lemma topo_core:
  assumes "sorts_by_degree sortq"
  obtains core degs where
    "topological_sort_by_degree sortq n before adj = core @ filter (\<lambda>i. i \<notin> set core) [0..<n]"
    "kahn_inv n before (set core) [] degs []" "distinct core" "dep_closed before core"
proof -
  let ?srt = "sortq (\<lambda>i. card (adj i))"
  let ?degs = "map (\<lambda>i. int (length (before i))) [0..<n]"
  let ?q = "?srt (filter (\<lambda>i. ?degs ! i = 0) [0..<n])"
  have srt: "permutes_queue ?srt" by (rule sorts_permutes [OF assms])
  have "\<exists>ord' degs'. topo_loop ?srt (deps_after n before) n ?q ?degs [] = (ord', []) \<and>
       kahn_inv n before (set ord') [] degs' [] \<and> distinct ord' \<and> dep_closed before ord'"
    using initial_kahn [OF srt, of n before]
    by (intro topo_loop_complete [OF srt]) (simp_all add: dep_closed_def)
  then obtain core degs where c: "topo_loop ?srt (deps_after n before) n ?q ?degs [] = (core, [])"
    "kahn_inv n before (set core) [] degs []" "distinct core" "dep_closed before core" by blast
  have "filter (\<lambda>i. i \<notin> set core) [0..<n] = []" if "\<not> length core < n"
  proof -
    have "set core \<subseteq> {..<n}" using c(2) by (simp add: kahn_inv_def)
    moreover have "n \<le> card (set core)" using that c(3) by (simp add: distinct_card)
    ultimately have "set core = {..<n}" by (intro card_seteq) simp_all
    then show ?thesis by (auto simp: filter_empty_conv)
  qed
  then show thesis
    using c by (intro that [of core degs]) (auto simp: topological_sort_by_degree_def Let_def)
qed

lemma topo_permutation:
  assumes "sorts_by_degree sortq"
  shows "mset (topological_sort_by_degree sortq n before adj) = mset [0..<n]"
proof -
  obtain core degs where c: "topological_sort_by_degree sortq n before adj = core @ filter (\<lambda>i. i \<notin> set core) [0..<n]"
    "kahn_inv n before (set core) [] degs []" "distinct core"
    by (rule topo_core [OF assms])
  have "set core \<subseteq> {..<n}" using c(2) by (simp add: kahn_inv_def)
  then have eq: "set (topological_sort_by_degree sortq n before adj) = set [0..<n]"
    unfolding c(1) by auto
  have d: "distinct (topological_sort_by_degree sortq n before adj)"
    unfolding c(1) using c(3) by auto
  show ?thesis using set_eq_iff_mset_eq_distinct [OF d distinct_upt] eq by blast
qed

definition dep_relation :: "nat \<Rightarrow> (nat \<Rightarrow> nat list) \<Rightarrow> (nat \<times> nat) set" where
  "dep_relation n before = {(d, i). i < n \<and> d \<in> set (before i)}"

lemma topo_dep_closed:
  assumes srt: "sorts_by_degree sortq" and acyc: "acyclic (dep_relation n before)"
    and less: "\<And>i d. i < n \<Longrightarrow> d \<in> set (before i) \<Longrightarrow> d < n"
  shows "dep_closed before (topological_sort_by_degree sortq n before adj)"
proof -
  obtain core degs where c: "topological_sort_by_degree sortq n before adj = core @ filter (\<lambda>i. i \<notin> set core) [0..<n]"
    "kahn_inv n before (set core) [] degs []" "distinct core" "dep_closed before core"
    by (rule topo_core [OF srt])
  have "dep_relation n before \<subseteq> {..<n} \<times> {..<n}" using less by (auto simp: dep_relation_def)
  then have "finite (dep_relation n before)" by (rule finite_subset) simp
  then have wf: "wf (dep_relation n before)" using acyc by (rule finite_acyclic_wf)
  have "i < n \<longrightarrow> i \<in> set core" for i
  proof (induction i rule: wf_induct_rule [OF wf])
    case (1 i)
    show ?case
    proof
      assume i: "i < n"
      have "d \<in> set core" if "d \<in> set (before i)" for d
        using 1 [of d] that i less by (auto simp: dep_relation_def)
      then have "open_deps before (set core) i = 0" by (auto simp: open_deps_def filter_empty_conv)
      then have "degs ! i = 0" using c(2) i by (auto simp: kahn_inv_def)
      then show "i \<in> set core" using c(2) i by (auto simp: kahn_inv_def)
    qed
  qed
  then have "filter (\<lambda>i. i \<notin> set core) [0..<n] = []" by (auto simp: filter_empty_conv)
  then show ?thesis using c(1,4) by simp
qed

section \<open>The colouring\<close>

lemma next_free_spec: "finite used \<Longrightarrow> next_free used c \<notin> used \<and> c \<le> next_free used c"
proof (induction used c rule: next_free.induct)
  case (1 used c)
  show ?case
  proof (cases "c \<in> used")
    case True
    have "next_free used c = next_free used (Suc c)"
      using 1(2) True by (subst next_free.simps) simp
    then show ?thesis using 1(1) 1(2) True by simp
  next
    case False
    have "next_free used c = c" using False by (subst next_free.simps) simp
    then show ?thesis using False by simp
  qed
qed

text \<open>A running maximum reaches the bound of each of its elements.\<close>

lemma fold_inflates:
  fixes m :: nat
  assumes "\<And>x m. m \<le> f x m"
  shows "m \<le> fold f xs m"
proof (induction xs arbitrary: m)
  case (Cons x xs)
  have "m \<le> f x m" by (rule assms)
  also have "\<dots> \<le> fold f xs (f x m)" by (rule Cons.IH)
  finally show ?case by simp
qed simp

lemma fold_reaches:
  fixes b :: nat
  assumes "\<And>x m. m \<le> f x m" "\<And>m. b \<le> f x m" "x \<in> set xs"
  shows "b \<le> fold f xs m"
  using assms(3)
proof (induction xs arbitrary: m)
  case (Cons y ys)
  show ?case
  proof (cases "x = y")
    case True
    have "b \<le> f y m" using assms(2) True by simp
    also have "\<dots> \<le> fold f ys (f y m)" by (rule fold_inflates [OF assms(1)])
    finally show ?thesis by simp
  qed (use Cons in simp)
qed simp

lemma min_colour_ge:
  assumes "d \<in> set deps" "colours d = Some c"
  shows "c < min_colour colours deps"
proof -
  have "Suc c \<le> min_colour colours deps"
    unfolding min_colour_def by (rule fold_reaches [where x = d]) (use assms in \<open>auto split: option.splits\<close>)
  then show ?thesis by simp
qed

lemma max_colour_ge:
  assumes "v \<in> set ord" "colours v = Some c"
  shows "c \<le> max_colour colours ord"
  unfolding max_colour_def by (rule fold_reaches [where x = v]) (use assms in \<open>auto split: option.splits\<close>)

text \<open>What the colouring guarantees for the nodes already coloured.\<close>

definition coloured_ok :: "graph \<Rightarrow> (nat \<Rightarrow> nat list) \<Rightarrow> nat list \<Rightarrow> colouring \<Rightarrow> bool" where
  "coloured_ok adj before ord colours \<longleftrightarrow>
     dom colours = set ord \<and>
     (\<forall>u v. u \<in> dom colours \<longrightarrow> v \<in> dom colours \<longrightarrow> u \<noteq> v \<longrightarrow> v \<in> adj u \<longrightarrow> colours u \<noteq> colours v) \<and>
     (\<forall>j < length ord. \<forall>i < j. ord ! i \<in> set (before (ord ! j)) \<longrightarrow>
        the (colours (ord ! i)) < the (colours (ord ! j)))"

lemma colour_node_ok:
  assumes ok: "coloured_ok adj before ord colours" and v: "v \<notin> set ord"
    and fin: "finite (adj v)" and sym: "\<And>a b. b \<in> adj a \<Longrightarrow> a \<in> adj b"
  shows "coloured_ok adj before (ord @ [v]) (colour_node adj before v colours)"
proof -
  let ?used = "used_colours colours (adj v)" and ?m = "min_colour colours (before v)"
  let ?c = "next_free ?used ?m"
  have "?used \<subseteq> (\<lambda>u. the (colours u)) ` adj v" by (force simp: used_colours_def image_iff)
  then have "finite ?used" using fin by (meson finite_imageI finite_subset)
  from next_free_spec [OF this] have c: "?c \<notin> ?used" "?m \<le> ?c" by simp_all
  have dom: "dom colours = set ord" using ok by (simp add: coloured_ok_def)
  have new: "colours u \<noteq> Some ?c" if "u \<in> adj v" for u
    using c(1) that by (auto simp: used_colours_def)
  show ?thesis
    unfolding coloured_ok_def colour_node_def
  proof (intro conjI allI impI)
    show "dom (colours(v \<mapsto> ?c)) = set (ord @ [v])" using dom by auto
    show "(colours(v \<mapsto> ?c)) u \<noteq> (colours(v \<mapsto> ?c)) w"
      if "u \<in> dom (colours(v \<mapsto> ?c))" "w \<in> dom (colours(v \<mapsto> ?c))" "u \<noteq> w" "w \<in> adj u" for u w
    proof -
      have old: "colours u \<noteq> colours w" if "u \<in> dom colours" "w \<in> dom colours" "u \<noteq> w" "w \<in> adj u" for u w
        using ok that unfolding coloured_ok_def by blast
      show ?thesis
        using that old [of u w] new [of w] new [of u] sym [of w u] by (auto split: if_splits)
    qed
    fix j i assume ji: "j < length (ord @ [v])" "i < j" "(ord @ [v]) ! i \<in> set (before ((ord @ [v]) ! j))"
    show "the ((colours(v \<mapsto> ?c)) ((ord @ [v]) ! i)) < the ((colours(v \<mapsto> ?c)) ((ord @ [v]) ! j))"
    proof (cases "j = length ord")
      case True
      have i: "ord ! i \<in> set ord" "(ord @ [v]) ! i = ord ! i" using ji(2) True by (simp_all add: nth_append)
      then obtain ci where ci: "colours (ord ! i) = Some ci" using dom by (metis domD)
      have "ord ! i \<in> set (before v)" using ji(3) True i by simp
      then have "ci < ?m" using ci by (rule min_colour_ge)
      then have "ci < ?c" using c(2) by simp
      then show ?thesis using True i ci v by auto
    next
      case False
      then have j: "j < length ord" using ji(1) by simp
      have e: "(ord @ [v]) ! i = ord ! i" "(ord @ [v]) ! j = ord ! j" using j ji(2) by (simp_all add: nth_append)
      have "ord ! i \<noteq> v" "ord ! j \<noteq> v" using j ji(2) v by auto
      moreover have "the (colours (ord ! i)) < the (colours (ord ! j))"
        using ok j ji(2,3) e unfolding coloured_ok_def by simp
      ultimately show ?thesis using e by simp
    qed
  qed
qed

lemma greedy_colouring_ok:
  assumes "distinct ord" "\<And>v. finite (adj v)" "\<And>a b. b \<in> adj a \<Longrightarrow> a \<in> adj b"
  shows "coloured_ok adj before ord (greedy_colouring adj before ord)"
  using assms(1)
proof (induction ord rule: rev_induct)
  case Nil
  then show ?case by (simp add: coloured_ok_def greedy_colouring_def)
next
  case (snoc v ord)
  have "coloured_ok adj before ord (greedy_colouring adj before ord)" using snoc by simp
  then have "coloured_ok adj before (ord @ [v]) (colour_node adj before v (greedy_colouring adj before ord))"
    by (rule colour_node_ok) (use snoc.prems assms in auto)
  then show ?case by (simp add: greedy_colouring_def)
qed

end
