(* ===== verification/ScheduleProperties.thy ===== *)
theory ScheduleProperties
  imports WaveOrder
begin

text \<open>
  The properties of subtask scheduling (\<open>internal/orchestrator/scheduler.go\<close>): the wave groups of
  \<open>BuildSchedule\<close> and the decisions of \<open>EvaluateDispatch\<close>.
\<close>

section \<open>Conflict scores depend on sets of files\<close>

lemma score_sets:
  "compute_conflict_score a b =
     (if set a = {} \<or> set b = {} then 0
      else of_nat (card (set a \<inter> set b)) / of_nat (min (card (set a)) (card (set b))))"
proof -
  have i: "length (filter (\<lambda>f. f \<in> set b) (remdups a)) = card (set a \<inter> set b)"
    by (simp add: distinct_card [symmetric] Int_def)
  show ?thesis
    using i by (auto simp: compute_conflict_score_def unique_set_def Let_def length_remdups_card_conv min_def)
qed

lemma score_cong: "\<lbrakk>set a = set a'; set b = set b'\<rbrakk> \<Longrightarrow> compute_conflict_score a b = compute_conflict_score a' b'"
  by (simp add: score_sets)

lemma overlap_files_set: "set (overlap_files sb seen fs) = set fs \<inter> set sb - set seen"
  by (induction sb seen fs rule: overlap_files.induct) auto

lemma overlap_files_distinct: "distinct (overlap_files sb seen fs)"
  by (induction sb seen fs rule: overlap_files.induct) (auto simp: overlap_files_set)

section \<open>The pass over a batch\<close>

lemma hold_files_keys: "fst ` set (hold_files i fs acc) = fst ` set acc \<union> set fs"
proof (induction fs arbitrary: acc)
  case (Cons f fs)
  let ?acc = "case map_of acc f of None \<Rightarrow> acc @ [(f, i)] | Some _ \<Rightarrow> acc"
  have "fst ` set ?acc = insert f (fst ` set acc)"
  proof (cases "map_of acc f")
    case (Some j)
    then have "f \<in> fst ` set acc" by (metis domI dom_map_of_conv_image_fst)
    then show ?thesis using Some by auto
  qed auto
  then show ?case by (simp add: Cons.IH)
qed simp

lemma mutual_pass_length [simp]: "length (mutual_pass xs acc) = length xs"
  by (induction xs acc rule: mutual_pass.induct) (auto simp: Let_def split: prod.splits)

lemma evaluate_dispatch_length: "length (evaluate_dispatch parse gating d cands in_progress) = length cands"
  by (simp only: evaluate_dispatch_def mutual_pass_length length_map)

text \<open>The files of the candidates approved among the first \<open>k\<close>.\<close>

definition approved_files :: "task list \<Rightarrow> dispatch_decision list \<Rightarrow> nat \<Rightarrow> string list" where
  "approved_files cands decs k =
     concat (map (\<lambda>m. if dd_dispatchable (decs ! m) then extract_writable_files (cands ! m) else []) [0..<k])"

lemma approved_files_Suc:
  "set (approved_files (c # cs) (dec # decs) (Suc k)) =
     (if dd_dispatchable dec then set (extract_writable_files c) else {}) \<union> set (approved_files cs decs k)"
proof -
  have "[0..<Suc k] = 0 # map Suc [0..<k]" by (simp add: upt_conv_Cons map_Suc_upt del: upt_Suc)
  then show ?thesis by (auto simp: approved_files_def simp del: upt_Suc)
qed

lemma mutual_pass_sound:
  "\<lbrakk>k < length xs; dd_dispatchable (mutual_pass xs acc ! k)\<rbrakk> \<Longrightarrow>
   mutual_pass xs acc ! k = snd (xs ! k) \<and>
   (let fs = extract_writable_files (fst (xs ! k));
        held = map fst acc @ approved_files (map fst xs) (mutual_pass xs acc) k in
    fs = [] \<or> held = [] \<or> compute_conflict_score fs held < conflict_score_block_threshold)"
proof (induction xs acc arbitrary: k rule: mutual_pass.induct)
  case (1 acc)
  then show ?case by simp
next
  case (2 cand dec rest acc)
  let ?fs = "extract_writable_files cand"
  obtain overlap score where fo: "file_overlap_details ?fs (map fst acc) = (overlap, score)" by fastforce
  have score: "score = compute_conflict_score ?fs (map fst acc)"
    using fo by (simp add: file_overlap_details_def)
  have cong: "(held = [] \<or> compute_conflict_score fs held < t) \<longleftrightarrow> (held' = [] \<or> compute_conflict_score fs held' < t)"
    if "set held = set held'" for held held' fs t
    using that score_cong [OF refl that, of fs] by (metis set_empty)
  consider (skip) "\<not> dd_dispatchable dec \<or> ?fs = []"
    | (block) "dd_dispatchable dec" "?fs \<noteq> []" "acc \<noteq> []" "conflict_score_block_threshold \<le> score"
    | (approve) "dd_dispatchable dec" "?fs \<noteq> []" "acc = [] \<or> \<not> conflict_score_block_threshold \<le> score"
    by blast
  then show ?case
  proof cases
    case skip
    then have e: "mutual_pass ((cand, dec) # rest) acc = dec # mutual_pass rest acc" by (simp add: Let_def)
    show ?thesis
    proof (cases k)
      case 0
      then show ?thesis using skip 2(4,5) e by (auto simp: Let_def simp del: mutual_pass.simps(2))
    next
      case (Suc m)
      have "set (map fst acc @ approved_files (map fst rest) (mutual_pass rest acc) m) =
          set (map fst acc @ approved_files (map fst ((cand, dec) # rest)) (mutual_pass ((cand, dec) # rest) acc) k)"
        using skip by (auto simp: e Suc approved_files_Suc simp del: mutual_pass.simps(2))
      from cong [OF this] show ?thesis
        using 2(1) [OF refl, where k = m] skip 2(4,5) by (simp add: e Suc Let_def del: mutual_pass.simps(2))
    qed
  next
    case block
    then obtain dec' where e: "mutual_pass ((cand, dec) # rest) acc = dec' # mutual_pass rest acc"
      and nd: "\<not> dd_dispatchable dec'"
      using fo by (auto simp: Let_def)
    show ?thesis
    proof (cases k)
      case 0
      then show ?thesis using nd 2(5) e by (simp del: mutual_pass.simps(2))
    next
      case (Suc m)
      have "set (map fst acc @ approved_files (map fst rest) (mutual_pass rest acc) m) =
          set (map fst acc @ approved_files (map fst ((cand, dec) # rest)) (mutual_pass ((cand, dec) # rest) acc) k)"
        using nd by (auto simp: e Suc approved_files_Suc simp del: mutual_pass.simps(2))
      from cong [OF this] show ?thesis
        using 2(2) [OF refl _ fo [symmetric] refl, where k = m] block 2(4,5) by (simp add: e Suc Let_def del: mutual_pass.simps(2))
    qed
  next
    case approve
    let ?acc = "hold_files (t_id cand) ?fs acc"
    have e: "mutual_pass ((cand, dec) # rest) acc = dec # mutual_pass rest ?acc"
      using approve fo by (auto simp: Let_def)
    show ?thesis
    proof (cases k)
      case 0
      then show ?thesis using approve score e by (auto simp: approved_files_def Let_def simp del: mutual_pass.simps(2))
    next
      case (Suc m)
      have "set (map fst ?acc @ approved_files (map fst rest) (mutual_pass rest ?acc) m) =
          set (map fst acc @ approved_files (map fst ((cand, dec) # rest)) (mutual_pass ((cand, dec) # rest) acc) k)"
        using approve(1) hold_files_keys [of "t_id cand" ?fs acc] by (auto simp: e Suc approved_files_Suc simp del: mutual_pass.simps(2))
      from cong [OF this] show ?thesis
        using 2(3) [OF refl _ fo [symmetric] refl, where k = m] approve 2(4,5) by (simp add: e Suc Let_def del: mutual_pass.simps(2))
    qed
  qed
qed

section \<open>What an approved candidate satisfies\<close>

lemma group_blocker_None:
  "group_blocker d active cg ord tids = None \<Longrightarrow> tid \<in> set tids \<Longrightarrow>
   tid \<notin> set active \<and> (\<forall>t. load_task tid d = Inr t \<longrightarrow> is_terminal_wave_status (t_status t))"
  by (induction tids) (auto simp: wave_blocker_def split: option.splits if_splits sum.splits)

lemma earlier_blocker_None:
  "\<lbrakk>earlier_blocker d active cg gs = None; g \<in> set gs; sg_order g < cg; tid \<in> set (sg_task_ids g)\<rbrakk> \<Longrightarrow>
   tid \<notin> set active \<and> (\<forall>t. load_task tid d = Inr t \<longrightarrow> is_terminal_wave_status (t_status t))"
  by (induction gs) (auto split: if_splits option.splits dest: group_blocker_None)

lemma candidate_approved:
  assumes "dd_dispatchable (evaluate_candidate parse gating d c in_progress)"
  shows "t_deps c = [] \<or> dependencies_met d (t_deps c)"
    and "gating \<or> \<not> fst (is_wave_blocked parse d c (map t_id in_progress))"
    and "in_progress_conflicts (extract_writable_files c) in_progress = []"
  using assms by (auto simp: evaluate_candidate_def Let_def split: if_splits prod.splits)

lemma no_conflicts_score:
  assumes "in_progress_conflicts fs in_progress = []" "ip \<in> set in_progress" "distinct (map t_id in_progress)"
  shows "compute_conflict_score fs (extract_writable_files ip) < conflict_score_block_threshold"
proof -
  have "map_of (rev (map (\<lambda>t. (t_id t, extract_writable_files t)) in_progress)) (t_id ip)
      = Some (extract_writable_files ip)"
    using assms(2,3) by (intro map_of_is_SomeI) (auto simp: comp_def rev_map simp flip: rev_map)
  then have f: "in_progress_files in_progress (t_id ip) = extract_writable_files ip"
    by (simp add: in_progress_files_def)
  show ?thesis
  proof (cases "fs = [] \<or> extract_writable_files ip = []")
    case True
    then show ?thesis by (auto simp: score_sets conflict_score_block_threshold_def)
  next
    case False
    then show ?thesis
      using assms(1,2) f
      by (fastforce simp: in_progress_conflicts_def List.map_filter_def filter_empty_conv file_overlap_details_def Let_def
          split: if_splits)
  qed
qed

text \<open>The members of the groups before the candidate's are neither in progress nor unfinished.\<close>

definition earlier_waves_over :: "parse_id \<Rightarrow> db \<Rightarrow> task \<Rightarrow> uuid list \<Rightarrow> bool" where
  "earlier_waves_over parse d c active \<longleftrightarrow>
     (\<forall>pid parent raw sch g tid.
        t_parent c = Some pid \<and> load_task pid d = Inr parent \<and> json_get (t_context parent) ''schedule'' = Some raw \<and>
        decode_schedule parse raw = Some sch \<and> 0 \<le> find_group (t_id c) (-1) (sch_groups sch) \<and>
        g \<in> set (sch_groups sch) \<and> sg_order g < find_group (t_id c) (-1) (sch_groups sch) \<and>
        tid \<in> set (sg_task_ids g) \<longrightarrow>
          tid \<notin> set active \<and> (\<forall>t. load_task tid d = Inr t \<longrightarrow> is_terminal_wave_status (t_status t)))"

lemma not_wave_blocked: "\<not> fst (is_wave_blocked parse d c active) \<Longrightarrow> earlier_waves_over parse d c active"
  unfolding earlier_waves_over_def
  by (intro allI impI, elim conjE)
    (auto simp: is_wave_blocked_def Let_def split: option.splits if_splits dest: earlier_blocker_None)


text \<open>Subtasks that write the given files.\<close>

definition writer :: "uuid \<Rightarrow> string list \<Rightarrow> string list \<Rightarrow> task" where
  "writer i deps files = (sample_owner i ''implementation'' deps)\<lparr>
     t_status := StatusBacklog, t_context := Some [''writable_files'' \<mapsto> GStrs files]\<rparr>"

definition batch_db :: db where
  "batch_db = sample_db\<lparr>db_tasks := [sample_task, (writer ''s0'' [] [])\<lparr>t_status := StatusDone\<rparr>]\<rparr>"

lemma writer_simps [simp]:
  "t_id (writer i deps files) = i" "t_deps (writer i deps files) = deps"
  "t_parent (writer i deps files) = Some ''t1''" "t_phase (writer i deps files) = ''implementation''"
  by (simp_all add: writer_def sample_owner_def)

lemma writer_files [simp]: "extract_writable_files (writer i deps files) = files"
  by (simp add: writer_def extract_writable_files_def extract_estimated_files_def extract_file_list_def json_get_def)

lemma batch_not_waiting: "is_wave_blocked parse batch_db (writer i deps files) active = (False, [])"
  by (simp add: is_wave_blocked_def batch_db_def load_task_def tbl_first_def sample_task_def json_get_def writer_def sample_owner_def)

lemma batch_tasks:
  "db_tasks batch_db = [sample_task, (writer ''s0'' [] [])\<lparr>t_status := StatusDone\<rparr>]"
  by (simp add: batch_db_def)

definition batch :: "task list" where
  "batch = [writer ''s1'' [''s0''] [''a''], writer ''s2'' [] [''b'', ''c'', ''d'', ''e''],
            writer ''s3'' [] [''a'', ''f'', ''g'', ''h''], writer ''s4'' [] [''a'']]"

lemma batch_approved:
  "map dd_dispatchable (evaluate_dispatch parse False batch_db batch []) = [True, True, True, False]"
  by (simp add: batch_def evaluate_dispatch_def evaluate_candidate_def batch_not_waiting in_progress_conflicts_def
      dependencies_met_def tbl_count_def batch_tasks sample_task_def Let_def file_overlap_details_def score_sets
      conflict_score_block_threshold_def)

lemma batch_held:
  assumes "map dd_dispatchable decs = [True, True, True, False]"
  shows "approved_files batch decs 2 = [''a'', ''b'', ''c'', ''d'', ''e'']"
proof -
  obtain d0 d1 d2 d3 where "decs = [d0, d1, d2, d3]" "dd_dispatchable d0" "dd_dispatchable d1"
    using assms by (auto simp: map_eq_Cons_conv)
  then show ?thesis by (simp add: approved_files_def batch_def numeral_2_eq_2)
qed


text \<open>The overlap with the union of the files held by the batch can be small although the overlap with
  one approved candidate is complete: the third candidate above shares the only file of the first.\<close>

lemma co_dispatched_conflict:
  "compute_conflict_score (extract_writable_files (writer ''s3'' [] [''a'', ''f'', ''g'', ''h'']))
     (extract_writable_files (writer ''s1'' [''s0''] [''a''])) = 1"
  by (simp add: score_sets)

section \<open>Wave groups\<close>

text \<open>C24: For any dependencies, also cyclic or repeated ones, the queue loop of
  \<open>topologicalSortByDegree\<close> ends within \<open>n\<close> rounds with an empty queue, and the order it returns
  contains every node exactly once; when the dependencies are acyclic, every node comes after its
  dependencies.\<close>

theorem topological_order_complete:
  assumes "sorts_by_degree sortq"
  shows "snd (topo_loop (sortq (\<lambda>i. card (adj i))) (deps_after n before) n
            (sortq (\<lambda>i. card (adj i)) (filter (\<lambda>i. map (\<lambda>i. int (length (before i))) [0..<n] ! i = 0) [0..<n]))
            (map (\<lambda>i. int (length (before i))) [0..<n]) []) = [] \<and>
         mset (topological_sort_by_degree sortq n before adj) = mset [0..<n] \<and>
         (acyclic (dep_relation n before) \<and> (\<forall>i < n. set (before i) \<subseteq> {..<n}) \<longrightarrow>
            dep_closed before (topological_sort_by_degree sortq n before adj))"
proof (intro conjI impI)
  let ?srt = "sortq (\<lambda>i. card (adj i))"
  have srt: "permutes_queue ?srt" by (rule sorts_permutes [OF assms])
  show "snd (topo_loop ?srt (deps_after n before) n
            (?srt (filter (\<lambda>i. map (\<lambda>i. int (length (before i))) [0..<n] ! i = 0) [0..<n]))
            (map (\<lambda>i. int (length (before i))) [0..<n]) []) = []"
    using topo_loop_complete [OF srt, of n before "[]" _ _ n] initial_kahn [OF srt, of n before]
    by (fastforce simp: dep_closed_def)
  show "mset (topological_sort_by_degree sortq n before adj) = mset [0..<n]"
    by (rule topo_permutation [OF assms])
  assume "acyclic (dep_relation n before) \<and> (\<forall>i < n. set (before i) \<subseteq> {..<n})"
  then show "dep_closed before (topological_sort_by_degree sortq n before adj)"
    by (intro topo_dep_closed [OF assms]) auto
qed

definition stable_sort :: queue_sort where
  "stable_sort deg q = sort_key (\<lambda>i. - int (deg i)) q"

lemma stable_sort: "sorts_by_degree stable_sort"
proof -
  have "sorted_wrt (\<lambda>a b. deg b \<le> deg a) (stable_sort deg q)" for deg q
  proof -
    have "sorted (map (\<lambda>i. - int (deg i)) (stable_sort deg q))" by (simp add: stable_sort_def)
    then show ?thesis by (simp add: sorted_wrt_map)
  qed
  then show ?thesis by (simp add: sorts_by_degree_def stable_sort_def)
qed

text \<open>Node 0 depends on node 1, which depends on node 2.\<close>

definition chain_deps :: "nat \<Rightarrow> nat list" where
  "chain_deps i = (if i < 2 then [i + 1] else [])"

theorem topological_order_complete_witness:
  "dep_closed chain_deps (topological_sort_by_degree stable_sort 3 chain_deps (\<lambda>_. {}))"
proof -
  have "acyclic (dep_relation 3 chain_deps)"
  proof (rule acyclicI_order [where f = "\<lambda>i. i"])
    fix a b assume "(a, b) \<in> dep_relation 3 chain_deps"
    then show "b < a" by (auto simp: dep_relation_def chain_deps_def split: if_splits)
  qed
  moreover have "\<forall>i < 3. set (chain_deps i) \<subseteq> {..<3}" by (auto simp: chain_deps_def)
  ultimately show ?thesis using topological_order_complete [OF stable_sort, where n = 3 and before = chain_deps and adj = "\<lambda>_. {}"]
    by blast
qed

section \<open>The groups of a schedule\<close>

text \<open>The groups of the branch that colours the graph.\<close>

definition colour_groups :: "(nat \<Rightarrow> nat option) \<Rightarrow> (nat \<Rightarrow> uuid) \<Rightarrow> nat \<Rightarrow> nat \<Rightarrow> subtask_group list" where
  "colour_groups colours name n K =
     map (\<lambda>c. \<lparr>sg_order = int c, sg_task_ids = map name (filter (\<lambda>i. colours i = Some c) [0..<n])\<rparr>)
       (filter (\<lambda>c. map name (filter (\<lambda>i. colours i = Some c) [0..<n]) \<noteq> []) [0..<K])"

lemma colour_groups_mset:
  "mset (concat (map sg_task_ids (colour_groups colours name n K))) =
   mset (map name (filter (\<lambda>i. \<exists>c < K. colours i = Some c) [0..<n]))"
proof (induction K)
  case 0
  then show ?case by (simp add: colour_groups_def)
next
  case (Suc K)
  let ?m = "map name (filter (\<lambda>i. colours i = Some K) [0..<n])"
  have split: "mset (map name (filter (\<lambda>i. \<exists>c < Suc K. colours i = Some c) xs)) =
      mset (map name (filter (\<lambda>i. \<exists>c < K. colours i = Some c) xs)) + mset (map name (filter (\<lambda>i. colours i = Some K) xs))"
    for xs
    by (induction xs) (auto simp: less_Suc_eq)
  have "mset (concat (map sg_task_ids (colour_groups colours name n (Suc K)))) =
      mset (concat (map sg_task_ids (colour_groups colours name n K))) + mset ?m"
    by (cases "?m = []") (simp_all add: colour_groups_def)
  then show ?case by (simp only: Suc.IH split)
qed

lemma colour_groups_member:
  assumes "g \<in> set (colour_groups colours name n K)" "name i \<in> set (sg_task_ids g)" "i < n" "inj_on name {..<n}"
  shows "colours i = Some (nat (sg_order g)) \<and> 0 \<le> sg_order g"
  using assms by (auto simp: colour_groups_def dest: inj_onD)

lemma colour_groups_inj:
  "\<lbrakk>g \<in> set (colour_groups colours name n K); h \<in> set (colour_groups colours name n K); sg_order g = sg_order h\<rbrakk>
   \<Longrightarrow> g = h"
  by (auto simp: colour_groups_def)

lemma build_schedule_cases:
  assumes "subtasks \<noteq> []"
  shows "(\<forall>t \<in> set subtasks. extract_writable_files t = []) \<and>
      build_schedule sortq parse subtasks = \<lparr>sch_groups = [\<lparr>sg_order = 0, sg_task_ids = map t_id subtasks\<rparr>]\<rparr> \<or>
    (\<exists>t \<in> set subtasks. extract_writable_files t \<noteq> []) \<and>
      (let n = length subtasks; before = deps_before parse subtasks; adj = conflict_graph parse subtasks;
           ord = topological_sort_by_degree sortq n before adj; colours = greedy_colouring adj before ord in
       build_schedule sortq parse subtasks =
         \<lparr>sch_groups = colour_groups colours (\<lambda>i. t_id (subtasks ! i)) n (max_colour colours ord + 1)\<rparr>)"
  using assms by (auto simp: build_schedule_def colour_groups_def Let_def list_ex_iff simp del: upt_Suc)

lemma conflict_graph_sym: "b \<in> conflict_graph parse subtasks a \<Longrightarrow> a \<in> conflict_graph parse subtasks b"
  by (auto simp: conflict_graph_def Let_def fold_fold_deps_iff fold_add_edge_iff)

lemma coloured_okD:
  assumes "coloured_ok adj before ord colours"
  shows "dom colours = set ord"
    and "\<lbrakk>u \<in> dom colours; v \<in> dom colours; u \<noteq> v; v \<in> adj u\<rbrakk> \<Longrightarrow> colours u \<noteq> colours v"
    and "\<lbrakk>k < length ord; m < k; ord ! m \<in> set (before (ord ! k))\<rbrakk> \<Longrightarrow>
           the (colours (ord ! m)) < the (colours (ord ! k))"
  using assms unfolding coloured_ok_def by simp_all

lemma coloured_dom: "\<lbrakk>coloured_ok adj before ord colours; i \<in> set ord\<rbrakk> \<Longrightarrow> \<exists>c. colours i = Some c"
  by (drule coloured_okD(1)) (simp add: domD)

lemma coloured_neighbours:
  assumes "coloured_ok adj before ord colours" "i \<in> set ord" "j \<in> set ord" "i \<noteq> j" "j \<in> adj i"
  shows "colours i \<noteq> colours j"
  using coloured_okD(2) [OF assms(1), of i j] coloured_okD(1) [OF assms(1)] assms(2-) by simp

lemma coloured_deps:
  assumes "coloured_ok adj before ord colours" "dep_closed before ord" "d \<in> set (before j)" "j \<in> set ord"
  shows "the (colours d) < the (colours j)"
proof -
  obtain k where k: "k < length ord" "ord ! k = j" using assms(4) by (auto simp: in_set_conv_nth)
  then have "set (before j) \<subseteq> set (take k ord)" using assms(2) by (auto simp: dep_closed_def)
  then have "d \<in> set (take k ord)" using assms(3) by (rule subsetD)
  then obtain m where m: "m < k" "ord ! m = d" using k(1) by (auto simp: in_set_conv_nth)
  show ?thesis using coloured_okD(3) [OF assms(1) k(1) m(1)] assms(3) k(2) m(2) by simp
qed

lemma schedule_colouring:
  fixes sortq :: queue_sort and parse :: parse_id and subtasks :: "task list"
  assumes "sorts_by_degree sortq"
  defines "adj \<equiv> conflict_graph parse subtasks" and "before \<equiv> deps_before parse subtasks" and "n \<equiv> length subtasks"
  defines "ord \<equiv> topological_sort_by_degree sortq n before adj"
  shows "distinct ord" "set ord = {..<n}" "coloured_ok adj before ord (greedy_colouring adj before ord)"
proof -
  have m: "mset ord = mset [0..<n]" unfolding ord_def by (rule topo_permutation [OF assms(1)])
  show d: "distinct ord" using mset_eq_imp_distinct_iff [OF m] by simp
  have "set ord = set [0..<n]" by (rule mset_eq_setD [OF m])
  then show "set ord = {..<n}" by (simp add: atLeast_upt)
  show "coloured_ok adj before ord (greedy_colouring adj before ord)"
  proof (rule greedy_colouring_ok [OF d])
    show "finite (adj v)" for v unfolding adj_def by (rule conflict_graph_finite)
    show "a \<in> adj b" if "b \<in> adj a" for a b
      using that unfolding adj_def by (rule conflict_graph_sym)
  qed
qed

lemma schedule_groups:
  assumes "sorts_by_degree sortq"
  shows "mset (concat (map sg_task_ids (sch_groups (build_schedule sortq parse subtasks)))) =
           mset (map t_id subtasks) \<and>
         sorted_wrt (<) (map sg_order (sch_groups (build_schedule sortq parse subtasks))) \<and>
         (\<forall>g \<in> set (sch_groups (build_schedule sortq parse subtasks)). sg_task_ids g \<noteq> [])"
proof (cases "subtasks = []")
  case True
  then show ?thesis by (simp add: build_schedule_def)
next
  case False
  let ?n = "length subtasks" and ?before = "deps_before parse subtasks" and ?adj = "conflict_graph parse subtasks"
  let ?ord = "topological_sort_by_degree sortq ?n ?before ?adj"
  let ?col = "greedy_colouring ?adj ?before ?ord" and ?name = "\<lambda>i. t_id (subtasks ! i)"
  let ?K = "max_colour ?col ?ord + 1"
  note c = schedule_colouring [OF assms, where parse = parse and subtasks = subtasks]
  have all: "\<exists>c < ?K. ?col i = Some c" if "i < ?n" for i
  proof -
    have i: "i \<in> set ?ord" using c(2) that by simp
    then obtain col where "?col i = Some col" using coloured_dom [OF c(3)] by blast
    then show ?thesis using max_colour_ge [OF i] by fastforce
  qed
  have whole: "filter (\<lambda>i. \<exists>c < ?K. ?col i = Some c) [0..<?n] = [0..<?n]"
    using all by (simp add: filter_id_conv)
  have names: "map ?name [0..<?n] = map t_id subtasks" by (intro nth_equalityI) simp_all
  have "sorted_wrt (<) (map sg_order (colour_groups col name n K))" for col name n K
    by (simp add: colour_groups_def sorted_wrt_map comp_def sorted_wrt_filter)
  moreover have "\<forall>g \<in> set (colour_groups col name n K). sg_task_ids g \<noteq> []" for col name n K
    by (auto simp: colour_groups_def)
  moreover have "mset (concat (map sg_task_ids (colour_groups ?col ?name ?n ?K))) = mset (map t_id subtasks)"
    unfolding colour_groups_mset whole names ..
  ultimately show ?thesis
    using build_schedule_cases [OF False, of sortq parse] False by (auto simp: Let_def simp del: mset_map)
qed

lemmas schedule_groups_mset = schedule_groups [THEN conjunct1]

text \<open>\<open>BuildSchedule\<close> partitions the subtasks: every subtask is in exactly one group, and the groups
  have strictly increasing orders and are not empty.\<close>

theorem schedule_partitions:
  assumes "sorts_by_degree sortq"
  shows "mset (concat (map sg_task_ids (sch_groups (build_schedule sortq parse subtasks)))) =
           mset (map t_id subtasks) \<and>
         sorted_wrt (<) (map sg_order (sch_groups (build_schedule sortq parse subtasks))) \<and>
         (\<forall>g \<in> set (sch_groups (build_schedule sortq parse subtasks)). sg_task_ids g \<noteq> [])"
  by (rule schedule_groups [OF assms])

theorem schedule_partitions_witness:
  "mset (concat (map sg_task_ids (sch_groups (build_schedule stable_sort (\<lambda>s. Some s) batch)))) =
     {#''s1'', ''s2'', ''s3'', ''s4''#}"
  using schedule_partitions [OF stable_sort, of "\<lambda>s. Some s" batch] by (simp add: batch_def)

text \<open>C7: The waves of a schedule are safe to run one after the other: two subtasks of one group share
  no file, and when the dependencies among the subtasks are acyclic and some subtask has file data, a
  subtask is in a strictly later group than each of its dependencies.  When no subtask has file data,
  all of them are in one group, whatever they depend on: their dependencies are left to the check
  before each launch.\<close>

theorem schedule_waves_sound:
  assumes "sorts_by_degree sortq" "distinct (map t_id subtasks)" "i < length subtasks" "j < length subtasks"
    "i \<noteq> j"
    "g \<in> set (sch_groups (build_schedule sortq parse subtasks))" "t_id (subtasks ! i) \<in> set (sg_task_ids g)"
    "h \<in> set (sch_groups (build_schedule sortq parse subtasks))" "t_id (subtasks ! j) \<in> set (sg_task_ids h)"
  shows "(g = h \<longrightarrow> set (extract_writable_files (subtasks ! i)) \<inter> set (extract_writable_files (subtasks ! j)) = {}) \<and>
    (acyclic (dep_relation (length subtasks) (deps_before parse subtasks)) \<and>
     (\<exists>s \<in> set (t_deps (subtasks ! j)). parse s = Some (t_id (subtasks ! i))) \<and>
     (\<exists>t \<in> set subtasks. extract_writable_files t \<noteq> []) \<longrightarrow> sg_order g < sg_order h) \<and>
    ((\<forall>t \<in> set subtasks. extract_writable_files t = []) \<longrightarrow> g = h)"
proof -
  let ?n = "length subtasks" and ?before = "deps_before parse subtasks" and ?adj = "conflict_graph parse subtasks"
  let ?ord = "topological_sort_by_degree sortq ?n ?before ?adj"
  let ?col = "greedy_colouring ?adj ?before ?ord" and ?name = "\<lambda>i. t_id (subtasks ! i)"
  have ne: "subtasks \<noteq> []" using assms(3) by auto
  have single: "g = h" if "\<forall>t \<in> set subtasks. extract_writable_files t = []"
  proof -
    have "sch_groups (build_schedule sortq parse subtasks) = [\<lparr>sg_order = 0, sg_task_ids = map t_id subtasks\<rparr>]"
      using ne that by (simp add: build_schedule_def Let_def list_ex_iff)
    then show ?thesis using assms(6,8) by simp
  qed
  consider (plain) "\<forall>t \<in> set subtasks. extract_writable_files t = []"
    | (coloured) "sch_groups (build_schedule sortq parse subtasks) = colour_groups ?col ?name ?n (max_colour ?col ?ord + 1)"
    using build_schedule_cases [OF ne, of sortq parse] by (auto simp: Let_def)
  then show ?thesis
  proof cases
    case plain
    then show ?thesis using single assms(3,4) by auto
  next
    case coloured
    note c = schedule_colouring [OF assms(1), where parse = parse and subtasks = subtasks]
    have inj: "inj_on ?name {..<?n}"
      using assms(2) by (auto simp: inj_on_def distinct_conv_nth)
    have ij: "i \<in> set ?ord" "j \<in> set ?ord" using c(2) assms(3,4) by simp_all
    note gi = colour_groups_member [OF assms(6) [unfolded coloured] assms(7) assms(3) inj]
    note hj = colour_groups_member [OF assms(8) [unfolded coloured] assms(9) assms(4) inj]
    have files: "set (extract_writable_files (subtasks ! i)) \<inter> set (extract_writable_files (subtasks ! j)) = {}" if "g = h"
    proof -
      have "j \<notin> ?adj i" using coloured_neighbours [OF c(3) ij assms(5)] gi hj that by auto
      then show ?thesis
        using conflict_graph_iff [OF assms(3,4), of parse] assms(3-5) by (auto simp: overlaps_def)
    qed
    have order: "sg_order g < sg_order h" if acyc: "acyclic (dep_relation ?n ?before)"
      and s: "s \<in> set (t_deps (subtasks ! j))" "parse s = Some (?name i)" for s
    proof -
      have "id_index subtasks (?name i) = Some i"
        unfolding id_index_def using assms(2,3)
        by (intro map_of_is_SomeI) (auto simp: in_set_zip rev_map [symmetric] intro!: exI [of _ i])
      then have "i \<in> set (?before j)"
        using s by (force simp: deps_before_def List.map_filter_def image_iff)
      moreover have "dep_closed ?before ?ord"
        by (rule topo_dep_closed [OF assms(1) acyc]) (rule deps_before_less)
      ultimately have "the (?col i) < the (?col j)" using coloured_deps [OF c(3) _ _ ij(2)] by blast
      then show ?thesis using gi hj by simp
    qed
    show ?thesis using files order single by blast
  qed
qed

lemma in_groups: "x \<in> set (concat (map f gs)) \<Longrightarrow> \<exists>g \<in> set gs. x \<in> set (f g)"
  by simp

text \<open>The second subtask of the pair writes the file of the first and depends on it.\<close>

definition pair :: "task list" where
  "pair = [writer ''s1'' [] [''a''], writer ''s2'' [''s1''] [''a'', ''b'']]"

theorem schedule_waves_sound_witness:
  "\<exists>g h. g \<in> set (sch_groups (build_schedule stable_sort (\<lambda>s. Some s) pair)) \<and>
         h \<in> set (sch_groups (build_schedule stable_sort (\<lambda>s. Some s) pair)) \<and>
         ''s1'' \<in> set (sg_task_ids g) \<and> ''s2'' \<in> set (sg_task_ids h) \<and> sg_order g < sg_order h"
proof -
  let ?groups = "sch_groups (build_schedule stable_sort (\<lambda>s. Some s) pair)"
  have n: "length pair = 2" by (simp add: pair_def)
  have "set (concat (map sg_task_ids ?groups)) = {''s1'', ''s2''}"
  proof -
    have ids: "map t_id pair = [''s1'', ''s2'']" by (simp add: pair_def)
    have "mset (concat (map sg_task_ids ?groups)) = mset (map t_id pair)"
      by (rule schedule_groups_mset [OF stable_sort])
    from mset_eq_setD [OF this] show ?thesis by (simp add: ids)
  qed
  then have mem: "''s1'' \<in> set (concat (map sg_task_ids ?groups))" "''s2'' \<in> set (concat (map sg_task_ids ?groups))"
    by (simp_all only: insert_iff simp_thms)
  obtain g h where gh: "g \<in> set ?groups" "''s1'' \<in> set (sg_task_ids g)"
    "h \<in> set ?groups" "''s2'' \<in> set (sg_task_ids h)"
    using in_groups [OF mem(1)] in_groups [OF mem(2)] by blast
  have "deps_before (\<lambda>s. Some s) pair 0 = []" "deps_before (\<lambda>s. Some s) pair (Suc 0) = [0]"
    by (simp_all add: deps_before_def pair_def id_index_def List.map_filter_def)
  then have rel: "dep_relation 2 (deps_before (\<lambda>s. Some s) pair) = {(0, 1)}"
    by (auto simp: dep_relation_def numeral_2_eq_2 less_Suc_eq)
  have acyc: "acyclic (dep_relation 2 (deps_before (\<lambda>s. Some s) pair))"
    unfolding rel by (rule acyclicI_order [where f = "\<lambda>i. 1 - i"]) simp
  have d: "distinct (map t_id pair)" by (simp add: pair_def)
  have "(g = h \<longrightarrow> set (extract_writable_files (pair ! 0)) \<inter> set (extract_writable_files (pair ! 1)) = {}) \<and>
    (acyclic (dep_relation (length pair) (deps_before (\<lambda>s. Some s) pair)) \<and>
     (\<exists>s \<in> set (t_deps (pair ! 1)). Some s = Some (t_id (pair ! 0))) \<and>
     (\<exists>t \<in> set pair. extract_writable_files t \<noteq> []) \<longrightarrow> sg_order g < sg_order h) \<and>
    ((\<forall>t \<in> set pair. extract_writable_files t = []) \<longrightarrow> g = h)"
    by (rule schedule_waves_sound [OF stable_sort d _ _ _ gh(1) _ gh(3)]) (use gh in \<open>simp_all add: pair_def\<close>)
  then have "sg_order g < sg_order h" using acyc unfolding n by (simp add: pair_def)
  with gh show ?thesis by blast
qed

end
