(* ===== verification/SchedulingProperties.thy ===== *)
theory SchedulingProperties
  imports SubtaskScheduling CheckpointContinuation ScheduleProperties DeliverySteps
begin

text \<open>
  What a scheduling pass over the subtasks of a parent may do: which workers it starts, which
  statuses it changes, that it keeps the worker identities well-formed, and that a subtask that may
  run does start.
\<close>

section \<open>Existing work\<close>

text \<open>The keywords of a text as a set\<close>

definition keyword_set :: "string \<Rightarrow> string set" where
  "keyword_set s = {w \<in> set (words_of (to_lower s)). 3 \<le> length w \<and> w \<notin> set stop_words}"

lemma insert_new: "P w \<Longrightarrow> w \<notin> S \<Longrightarrow> insert w {x \<in> A. P x \<and> x \<notin> insert w S} = {x \<in> insert w A. P x \<and> x \<notin> S}"
  and skip_old: "\<not> P w \<or> w \<in> S \<Longrightarrow> {x \<in> insert w A. P x \<and> x \<notin> S} = {x \<in> A. P x \<and> x \<notin> S}"
  by auto

lemma keep_keywords_set: "set (keep_keywords seen ws) = {w \<in> set ws. 3 \<le> length w \<and> w \<notin> set stop_words \<and> w \<notin> set seen}"
  unfolding conj_assoc[symmetric, of "3 \<le> _"]
proof (induction seen ws rule: keep_keywords.induct)
  case (2 seen w ws)
  show ?case
  proof (cases "length w < 3 \<or> w \<in> set stop_words \<or> w \<in> set seen")
    case True
    then have "keep_keywords seen (w # ws) = keep_keywords seen ws" by simp
    moreover have "\<not> (3 \<le> length w \<and> w \<notin> set stop_words) \<or> w \<in> set seen" using True by (meson not_le)
    ultimately show ?thesis using 2(1)[OF True] by (simp only: list.set skip_old)
  next
    case False
    then have "keep_keywords seen (w # ws) = w # keep_keywords (w # seen) ws" by simp
    moreover have "3 \<le> length w \<and> w \<notin> set stop_words" "w \<notin> set seen" using False by (meson not_le)+
    note insert_new[of "\<lambda>x. 3 \<le> length x \<and> x \<notin> set stop_words", OF this]
    ultimately show ?thesis using 2(2)[OF False] by (simp only: list.set)
  qed
qed simp

lemma keep_keywords_distinct: "distinct (keep_keywords seen ws)"
proof (induction seen ws rule: keep_keywords.induct)
  case (2 seen w ws)
  show ?case
  proof (cases "length w < 3 \<or> w \<in> set stop_words \<or> w \<in> set seen")
    case True
    then have "keep_keywords seen (w # ws) = keep_keywords seen ws" by simp
    with 2(1)[OF True] show ?thesis by (simp only:)
  next
    case False
    then have e: "keep_keywords seen (w # ws) = w # keep_keywords (w # seen) ws" by simp
    have "w \<notin> set (keep_keywords (w # seen) ws)" unfolding keep_keywords_set by simp
    with 2(2)[OF False] show ?thesis unfolding e distinct.simps by (rule conjI[rotated])
  qed
qed simp

lemma extract_keywords_set: "set (extract_keywords s) = keyword_set s"
  by (simp add: extract_keywords_def keep_keywords_set keyword_set_def)

lemma keyword_overlap_card: "keyword_overlap (extract_keywords s) (extract_keywords m) = card (keyword_set s \<inter> keyword_set m)"
proof -
  let ?b = "filter (\<lambda>k. k \<in> set (extract_keywords s)) (extract_keywords m)"
  have "distinct ?b" by (simp add: extract_keywords_def keep_keywords_distinct)
  then have "length ?b = card (set ?b)" by (rule distinct_card[symmetric])
  also have "set ?b = keyword_set s \<inter> keyword_set m" by (auto simp: extract_keywords_set)
  finally show ?thesis
    using extract_keywords_set[of s] extract_keywords_set[of m] by (auto simp: keyword_overlap_def)
qed

lemma keyword_count: "length (extract_keywords s) = card (keyword_set s)"
  unfolding extract_keywords_set[symmetric] by (simp add: distinct_card extract_keywords_def keep_keywords_distinct)

text \<open>C17: \<open>hasExistingWork\<close> says yes exactly when one of the estimated files has been changed and
  some commit message shares two keywords with the title, or, for a title with a single keyword, that
  one; a title without keywords never counts as done.\<close>

theorem existing_work_exact:
  "has_existing_work estimated changed messages title \<longleftrightarrow>
     set estimated \<inter> set changed \<noteq> {} \<and> keyword_set title \<noteq> {}
     \<and> (\<exists>m \<in> set messages. min 2 (card (keyword_set title)) \<le> card (keyword_set title \<inter> keyword_set m))"
proof -
  have e: "keyword_set title \<noteq> {} \<longleftrightarrow> 0 < card (keyword_set title)"
    by (simp add: card_gt_0_iff keyword_set_def)
  show ?thesis
    unfolding has_existing_work_def keyword_overlap_card keyword_count Let_def list_ex_iff e
    by (cases "card (keyword_set title) < 2") (auto simp: min_def)
qed

section \<open>The candidates\<close>

lemma ordered_candidates_mset: "mset (ordered_candidates env cs) = mset cs"
  by (simp add: ordered_candidates_def order_candidates_by_experiment_priority_def split: option.splits)

lemma candidate_subtasks_mset:
  "mset (candidate_subtasks env pid phase d) = filter_mset (\<lambda>t. t_parent t = Some pid \<and> startable t \<and> (phase = [] \<or> t_phase t = phase)) (mset (db_tasks d))"
  by (simp add: candidate_subtasks_def ordered_candidates_mset child_rows_def filter_filter_mset mset_filter conj_commute conj_left_commute)

lemma candidate_subtasks_set:
  "set (candidate_subtasks env pid phase d) = {t \<in> set (db_tasks d). t_parent t = Some pid \<and> startable t \<and> (phase = [] \<or> t_phase t = phase)}"
  using arg_cong[OF candidate_subtasks_mset, of set_mset] by simp

lemma candidates_distinct:
  assumes "distinct (map t_id (db_tasks d))"
  shows "distinct (map t_id (candidate_subtasks env pid phase d))"
proof -
  let ?rows = "filter (\<lambda>t. t_parent t = Some pid \<and> startable t \<and> (phase = [] \<or> t_phase t = phase)) (db_tasks d)"
  have "mset (map t_id (candidate_subtasks env pid phase d)) = mset (map t_id ?rows)"
    by (simp only: mset_map candidate_subtasks_mset mset_filter)
  from mset_eq_imp_distinct_iff[OF this] show ?thesis using distinct_map_filter[OF assms] by simp
qed

section \<open>What one candidate changes\<close>

text \<open>Only the row of the task \<open>i\<close> changes, and its status stays or becomes one of \<open>S\<close>.\<close>

definition row_change :: "uuid \<Rightarrow> task_status set \<Rightarrow> worker_world \<Rightarrow> worker_world \<Rightarrow> bool" where
  "row_change i S w w' \<longleftrightarrow> (\<exists>f. db_tasks (ww_db w') = map f (db_tasks (ww_db w))
     \<and> (\<forall>r \<in> set (db_tasks (ww_db w)). t_id (f r) = t_id r
          \<and> (if t_id r = i then t_status (f r) = t_status r \<or> t_status (f r) \<in> S else f r = r)))"

lemma row_change_same: "db_tasks (ww_db w') = db_tasks (ww_db w) \<Longrightarrow> row_change i S w w'"
  unfolding row_change_def by (intro exI[of _ id]) simp

lemma row_change_trans:
  assumes "row_change i S w w1" "row_change i S w1 w2"
  shows "row_change i S w w2"
proof -
  from assms obtain f g where "db_tasks (ww_db w1) = map f (db_tasks (ww_db w))" "db_tasks (ww_db w2) = map g (db_tasks (ww_db w1))"
    "\<forall>r \<in> set (db_tasks (ww_db w)). t_id (f r) = t_id r
          \<and> (if t_id r = i then t_status (f r) = t_status r \<or> t_status (f r) \<in> S else f r = r)"
    "\<forall>r \<in> set (db_tasks (ww_db w1)). t_id (g r) = t_id r
          \<and> (if t_id r = i then t_status (g r) = t_status r \<or> t_status (g r) \<in> S else g r = r)"
    unfolding row_change_def by blast
  note fg = this
  show ?thesis
    unfolding row_change_def
  proof (intro exI[of _ "\<lambda>r. g (f r)"] conjI ballI)
    show "db_tasks (ww_db w2) = map (\<lambda>r. g (f r)) (db_tasks (ww_db w))" using fg(1,2) by simp
    fix r assume r: "r \<in> set (db_tasks (ww_db w))"
    then have fr: "f r \<in> set (db_tasks (ww_db w1))" using fg(1) by simp
    note a = bspec[OF fg(3) r] and b = bspec[OF fg(4) fr]
    show "t_id (g (f r)) = t_id r" using a b by simp
    show "if t_id r = i then t_status (g (f r)) = t_status r \<or> t_status (g (f r)) \<in> S else g (f r) = r"
      using a b by (cases "t_id r = i") auto
  qed
qed

lemma row_change_mono: "row_change i S w w' \<Longrightarrow> S \<subseteq> T \<Longrightarrow> row_change i T w w'"
  unfolding row_change_def by (metis subsetD)

lemma row_change_map:
  assumes "db_tasks (ww_db w') = map f (db_tasks (ww_db w))"
    and "\<And>r. t_id (f r) = t_id r" "\<And>r. t_id r \<noteq> i \<Longrightarrow> f r = r"
    and "\<And>r. t_status (f r) = t_status r \<or> t_status (f r) \<in> S"
  shows "row_change i S w w'"
  unfolding row_change_def using assms by (intro exI[of _ f]) simp

lemma row_change_ids: "row_change i S w w' \<Longrightarrow> map t_id (db_tasks (ww_db w')) = map t_id (db_tasks (ww_db w))"
  unfolding row_change_def by auto

lemma row_change_keeps: "row_change i S w w' \<Longrightarrow> r \<in> set (db_tasks (ww_db w)) \<Longrightarrow> t_id r \<noteq> i \<Longrightarrow> r \<in> set (db_tasks (ww_db w'))"
  unfolding row_change_def by (metis imageI set_map)

lemma row_change_status:
  assumes "row_change i S w w'" "r' \<in> set (db_tasks (ww_db w'))"
  obtains r where "r \<in> set (db_tasks (ww_db w))" "t_id r' = t_id r"
    "t_id r \<noteq> i \<Longrightarrow> r' = r" "t_status r' = t_status r \<or> t_id r = i \<and> t_status r' \<in> S"
  proof -
  from assms obtain f r where f: "r \<in> set (db_tasks (ww_db w))" "r' = f r" "t_id (f r) = t_id r"
    "if t_id r = i then t_status (f r) = t_status r \<or> t_status (f r) \<in> S else f r = r"
    unfolding row_change_def set_map[symmetric] by (metis (no_types, lifting) imageE set_map)
  then show ?thesis by (intro that[of r]) (cases "t_id r = i"; simp)+
qed

lemma with_identity_tasks [simp]: "db_tasks (ww_db (with_identity s w)) = is_tasks s"
  by (simp add: with_identity_def)

lemma tasks_of_identity: "db_tasks (ww_db w) = is_tasks (identity_of w)"
  by simp

lemma row_claimed:
  "t_id (claimed now i a r) = t_id r"
  "t_id r \<noteq> i \<Longrightarrow> claimed now i a r = r" "t_status (claimed now i a r) = t_status r"
  by (auto simp: claimed_def)

lemma abort_tasks:
  "\<exists>f. is_tasks (abort_reservation now res reason s) = map f (is_tasks s)
     \<and> (\<forall>r. t_id (f r) = t_id r \<and> t_status (f r) = t_status r \<and> (t_id r \<noteq> rs_task res \<longrightarrow> f r = r))"
proof -
  let ?f = "\<lambda>r. if t_id r = rs_task res \<and> t_agent r = Some (rs_agent res) then r\<lparr>t_agent := None, t_updated := now\<rparr> else r"
  have "is_tasks (abort_reservation now res reason s) = is_tasks s \<or> is_tasks (abort_reservation now res reason s) = map ?f (is_tasks s)"
    by (auto simp: abort_reservation_def tbl_update_def Let_def)
  moreover have "is_tasks s = map id (is_tasks s)" by simp
  ultimately show ?thesis by (elim disjE) (rule exI[of _ id], simp, rule exI[of _ ?f], simp)
qed

lemma spawn_worker_tasks:
  assumes "spawn_worker busy fr now r answer s = (q, c, s')"
  shows "\<exists>f. is_tasks s' = map f (is_tasks s)
     \<and> (\<forall>x. t_id (f x) = t_id x \<and> t_status (f x) = t_status x \<and> (t_id x \<noteq> sr_task r \<longrightarrow> f x = x))"
  using assms
proof (cases rule: spawn_worker_cases)
  case unreserved
  then show ?thesis by (intro exI[of _ id]) simp
next
  case (failed agent attempt m)
  from abort_tasks[of now "reservation_of agent attempt r" "''spawn_failed''" "reserved_store agent attempt now r s"] obtain f where
    "is_tasks s' = map f (is_tasks (reserved_store agent attempt now r s))"
    "\<forall>x. t_id (f x) = t_id x \<and> t_status (f x) = t_status x \<and> (t_id x \<noteq> sr_task r \<longrightarrow> f x = x)"
    unfolding failed(4) by auto
  then show ?thesis
    by (intro exI[of _ "f \<circ> claimed now (sr_task r) agent"]) (simp add: reserved_store_def row_claimed)
next
  case (spawned agent attempt k)
  then show ?thesis
    by (intro exI[of _ "claimed now (sr_task r) agent"]) (simp add: finalized_store_def row_claimed)
qed

text \<open>What a spawn for the task \<open>i\<close> does to the attempts\<close>

definition launched :: "time \<Rightarrow> uuid \<Rightarrow> worker_world \<Rightarrow> worker_world \<Rightarrow> bool" where
  "launched now i w w' \<longleftrightarrow> keys w' = keys w \<or> (\<exists>a. a \<notin> fst ` set (keys w) \<and> keys w' = keys w @ [(a, i, now)])"

lemma keys_identity: "keys w = attempt_keys (is_attempts (identity_of w))"
  by (simp add: keys_def)

lemma typed_effect:
  assumes "spawn_typed_worker env fr now tk role w = (q, tk1, w1)"
  shows "launched now (t_id tk) w w1" "row_change (t_id tk) S w w1" "t_id tk1 = t_id tk" "t_status tk1 = t_status tk"
  using assms
proof (atomize (full), cases rule: spawn_typed_cases)
  case refused
  then have "keys w1 = keys w" "db_tasks (ww_db w1) = db_tasks (ww_db w)"
    by (simp_all only: keys_identity tasks_of_identity)
  then show "(launched now (t_id tk) w w1 \<and> row_change (t_id tk) S w w1) \<and> t_id tk1 = t_id tk \<and> t_status tk1 = t_status tk"
    using refused(1) by (simp add: launched_def row_change_same)
next
  case (spawned r answer p c s)
  have k: "keys w1 = attempt_keys (is_attempts s)" "at_id ` set (is_attempts (identity_of w)) = fst ` set (keys w)"
    by (simp_all only: keys_identity[of w1] spawned(3) fst_keys identity_of_simps)
  from keys_spawn[OF spawned(2)] have "launched now (t_id tk) w w1"
    unfolding launched_def k(1) k(2)[symmetric] keys_identity[of w, symmetric] by simp
  moreover have "row_change (t_id tk) S w w1"
  proof -
    from spawn_worker_tasks[OF spawned(2)] obtain f where f: "is_tasks s = map f (db_tasks (ww_db w))"
      "\<forall>x. t_id (f x) = t_id x \<and> t_status (f x) = t_status x \<and> (t_id x \<noteq> t_id tk \<longrightarrow> f x = x)" by auto
    have "db_tasks (ww_db w1) = map f (db_tasks (ww_db w))" using f(1) by (simp only: tasks_of_identity[of w1] spawned(3))
    then show ?thesis using f(2) by (intro row_change_map[of _ f]) auto
  qed
  ultimately show "(launched now (t_id tk) w w1 \<and> row_change (t_id tk) S w w1) \<and> t_id tk1 = t_id tk \<and> t_status tk1 = t_status tk"
    using spawned(6) by (simp split: option.splits)
qed

lemma settle_keys [simp]: "keys (settle r w) = keys w" "ww_agents (settle r w) = ww_agents w" "ww_attempts (settle r w) = ww_attempts w"
  by simp_all

lemma row_transition:
  assumes "transition_task_atomic eid now tk target actor source reason refs (ww_db w) = r"
  shows "row_change (t_id tk) {target} w (settle r w)"
proof (cases "snd r")
  case (Inl e)
  then show ?thesis by (simp add: settle_def row_change_same)
next
  case (Inr d)
  then have t: "transition_task_atomic eid now tk target actor source reason refs (ww_db w) = (fst r, Inr d)"
    using assms by (metis prod.collapse)
  then have c: "cas_task_transition eid now tk (t_status tk) target actor source reason refs (ww_db w) = (fst r, Inr d)"
    by (auto simp: transition_task_atomic_def split: prod.splits sum.splits)
  note rows = settled_rows(1)[OF t]
  have st: "t_status (fst r) = target" using cas_task_transition_Inr(2)[OF c] by simp
  show ?thesis
    by (rule row_change_map[of _ "\<lambda>x. if cas_match tk (t_status tk) x then task_transition_columns (fst r) x else x"])
      (auto simp: settle_def Inr rows cas_rows_def task_transition_columns_def cas_match_def st)
qed

lemma row_fail: "row_change (t_id tk) {StatusFailed} w (settle (fail_task eid now tk reason (ww_db w)) w)"
  unfolding fail_task_def
  using row_transition[OF refl, where w = w and tk = "tk\<lparr>t_context := json_put ''failure_reason'' (GStr reason) (t_context tk)\<rparr>"] by simp

text \<open>Accepting existing work ends in done, without an agent.\<close>

lemma accepted_done:
  assumes "cas_accepted_existing_subtask eid now tk refs d = (tk', Inr d')"
  obtains tk1 ev v s where "cas_subtask_done v s (tk1, ev) d = (tk', Inr d')" "records_transition tk tk1 ev"
  using assms by (auto simp: cas_accepted_existing_subtask_def guarded_accept_existing_subtask_def
      dest!: guarded_unchecked_Inr split: sum.splits if_splits)

lemma accepted_rows:
  assumes "cas_accepted_existing_subtask eid now tk refs d = (tk', Inr d')"
  obtains P v tk1 where "db_tasks d' = map (\<lambda>r. if t_id r = t_id tk \<and> P r then subtask_done_columns tk1 v r else r) (db_tasks d)"
proof -
  from accepted_done[OF assms] obtain tk1 ev v s where
    c: "cas_subtask_done v s (tk1, ev) d = (tk', Inr d')" "records_transition tk tk1 ev" .
  have "t_id tk1 = t_id tk" by (rule records_id[OF c(2)])
  with c(1) show ?thesis
    by (intro that[of "\<lambda>r. t_status r = s \<and> t_version r = v" tk1 "v + 1"])
      (auto simp: cas_subtask_done_def tbl_update_def Let_def split: if_splits sum.splits)
qed

lemma row_accept: "row_change (t_id tk) {StatusDone} w (settle (cas_accepted_existing_subtask eid now tk refs (ww_db w)) w)"
proof (cases "snd (cas_accepted_existing_subtask eid now tk refs (ww_db w))")
  case (Inl e)
  then show ?thesis by (simp add: settle_def row_change_same)
next
  case (Inr d)
  then have "cas_accepted_existing_subtask eid now tk refs (ww_db w) = (fst (cas_accepted_existing_subtask eid now tk refs (ww_db w)), Inr d)"
    by (metis prod.collapse)
  from accepted_rows[OF this] obtain P v tk1 where
    rows: "db_tasks d = map (\<lambda>r. if t_id r = t_id tk \<and> P r then subtask_done_columns tk1 v r else r) (db_tasks (ww_db w))" .
  show ?thesis
    by (rule row_change_map[of _ "\<lambda>r. if t_id r = t_id tk \<and> P r then subtask_done_columns tk1 v r else r"])
      (auto simp: settle_def Inr rows subtask_done_columns_def)
qed

section \<open>The record of the earlier agents\<close>

text \<open>A pass keeps the rows of the agents that were there before, and records no death of a container.\<close>

definition deaths :: "worker_world \<Rightarrow> task_event list" where
  "deaths w = filter (\<lambda>e. te_type e = ''container_died'') (db_events (ww_db w))"

definition past_kept :: "worker_world \<Rightarrow> worker_world \<Rightarrow> bool" where
  "past_kept w w' \<longleftrightarrow> set (ww_agents w) \<subseteq> set (ww_agents w') \<and> deaths w' = deaths w"

lemma past_same: "ww_agents w' = ww_agents w \<Longrightarrow> db_events (ww_db w') = db_events (ww_db w) \<Longrightarrow> past_kept w w'"
  by (simp add: past_kept_def deaths_def)

lemma past_trans: "past_kept w w1 \<Longrightarrow> past_kept w1 w2 \<Longrightarrow> past_kept w w2"
  by (auto simp: past_kept_def)

lemma past_transition: "past_kept w (settle (transition_task_atomic eid now tk target actor source reason refs (ww_db w)) w)"
proof (cases "snd (transition_task_atomic eid now tk target actor source reason refs (ww_db w))")
  case (Inl e)
  then show ?thesis by (simp add: settle_def past_same)
next
  case (Inr d)
  then obtain tk' where "cas_task_transition eid now tk (t_status tk) target actor source reason refs (ww_db w) = (tk', Inr d)"
    by (auto simp: transition_task_atomic_def split: prod.splits sum.splits)
  from cas_task_transition_Inr(4)[OF this] obtain ev where "cas_event tk tk' ev" "db_events d = db_events (ww_db w) @ [ev]" by auto
  then show ?thesis by (simp add: settle_def Inr past_kept_def deaths_def cas_event_def)
qed

lemma past_fail: "past_kept w (settle (fail_task eid now tk reason (ww_db w)) w)"
  unfolding fail_task_def by (rule past_transition)

lemma past_accept: "past_kept w (settle (cas_accepted_existing_subtask eid now tk refs (ww_db w)) w)"
proof (cases "snd (cas_accepted_existing_subtask eid now tk refs (ww_db w))")
  case (Inl e)
  then show ?thesis by (simp add: settle_def past_same)
next
  case (Inr d)
  then have "cas_accepted_existing_subtask eid now tk refs (ww_db w) = (fst (cas_accepted_existing_subtask eid now tk refs (ww_db w)), Inr d)"
    by (metis prod.collapse)
  from accepted_done[OF this] obtain tk1 ev v s where
    "cas_subtask_done v s (tk1, ev) (ww_db w) = (fst (cas_accepted_existing_subtask eid now tk refs (ww_db w)), Inr d)"
    "records_transition tk tk1 ev" .
  then have "db_events d = db_events (ww_db w) @ [ev]" "te_type ev = ''status_change''"
    by (auto simp: cas_subtask_done_def records_transition_def tbl_create_Inr Let_def split: if_splits sum.splits prod.splits)
  then show ?thesis by (simp add: settle_def Inr past_kept_def deaths_def)
qed

lemma spawn_worker_agents:
  assumes "spawn_worker busy fr now r answer s = (q, c, s')"
  shows "set (is_agents s) \<subseteq> set (is_agents s')"
  using assms
proof (cases rule: spawn_worker_cases)
  case (failed agent attempt m)
  then have "\<forall>a \<in> set (is_agents s). ag_id a \<noteq> agent" by (auto simp: reservable_def)
  then show ?thesis unfolding failed(4) abort_reservation_def tbl_update_def
    by (auto simp: Let_def reserved_store_def reservation_of_def image_iff)
qed (auto simp: finalized_store_def)

lemma deaths_created: "create_event ev (ww_db v) = Inr d \<Longrightarrow> te_type ev \<noteq> ''container_died'' \<Longrightarrow> deaths (v\<lparr>ww_db := d\<rparr>) = deaths v"
  by (auto simp: deaths_def create_event_def tbl_create_Inr res_bind_def split: sum.splits)

lemma deaths_typed:
  assumes "spawn_typed_worker env fr now tk role w = (q, tk1, w1)"
  shows "deaths w1 = deaths w"
proof -
  have f: "deaths (spawn_failure eid now t role reason m v) = deaths v" for eid t reason m v
    unfolding spawn_failure_def record_spawn_failure_event_def by (simp split: sum.split add: deaths_created)
  have g: "deaths (record_spawn_event eid now t role r h v) = deaths v" for eid t r h v
    unfolding record_spawn_event_def add_event_def by (simp split: sum.split add: deaths_created)
  have r: "deaths v1 = deaths v" if "spawn_report env eid now t role r b p v = (res, v1)" for eid t r b p v res v1
  proof (cases p)
    case (Inl e)
    then show ?thesis using that unfolding spawn_report_def Let_def by (cases e) (auto simp: f split: if_splits)
  qed (use that in \<open>auto simp: spawn_report_def g\<close>)
  have "deaths (with_identity s w) = deaths w" for s by (simp add: deaths_def with_identity_def)
  then show ?thesis using assms r unfolding spawn_typed_worker_def
    by (auto simp: f Let_def split: if_splits sum.splits prod.splits)
qed

lemma past_typed:
  assumes "spawn_typed_worker env fr now tk role w = (q, tk1, w1)"
  shows "past_kept w w1"
proof -
  have a: "ww_agents v = is_agents (identity_of v)" for v by simp
  have "set (ww_agents w) \<subseteq> set (ww_agents w1)"
    using assms
  proof (cases rule: spawn_typed_cases)
    case refused
    then show ?thesis by (simp only: a)
  next
    case (spawned r answer p c s)
    from spawn_worker_agents[OF spawned(2)] show ?thesis by (simp only: a spawned(3))
  qed
  then show ?thesis by (simp add: past_kept_def deaths_typed[OF assms])
qed

section \<open>Launching\<close>

lemma launched_keys: "launched now i w w1 \<Longrightarrow> keys w2 = keys w1 \<Longrightarrow> launched now i w w2"
  by (simp add: launched_def)

lemma launched_same: "keys w1 = keys w \<Longrightarrow> launched now i w w1"
  by (simp add: launched_def)

lemma launch_cases:
  assumes "launch_worker env fr now tk role w = (q, tk1, w1)"
  obtains p where "spawn_typed_worker env fr now tk role w = (p, tk1, w1)" "\<And>m. q = Inl (ImageUnavailable m) \<Longrightarrow> p = Inl (ImageUnavailable m)"
    "\<And>l. q = Inr l \<Longrightarrow> \<exists>h. p = Inr h"
  using assms unfolding launch_worker_def by (auto split: prod.splits sum.splits)

lemma launch_typed: "launch_worker env fr now tk role w = (q, tk1, w1) \<Longrightarrow> \<exists>p. spawn_typed_worker env fr now tk role w = (p, tk1, w1)"
  unfolding launch_worker_def by (auto split: prod.splits sum.splits)

text \<open>The outcomes of a dispatch\<close>

lemma dispatch_cases:
  assumes "dispatch_subtask_via_spawner env fr now sub role w = (res, w')"
  obtains (none) "w' = w" "\<not> isl res \<Longrightarrow> False"
  | (launch) q sub1 w1 where "launch_worker env fr now sub role w = (q, sub1, w1)"
      "w' = w1 \<and> (\<not> isl res \<longrightarrow> t_status sub = StatusInProgress \<and>
           (\<exists>l sub2. q = Inr l \<and> load_task (t_id sub) (ww_db w1) = Inr sub2 \<and> t_agent sub2 \<noteq> None))
       \<or> isl res \<and> (\<exists>m. q = Inl (ImageUnavailable m) \<and> w' = settle (fail_task (fr ''fail event'' 0) now sub1 m (ww_db w1)) w1)
       \<or> isl res \<and> (\<exists>sub2 m. load_task (t_id sub) (ww_db w1) = Inr sub2 \<and> t_agent sub2 = None
           \<and> w' = settle (fail_task (fr ''fail event'' 0) now sub2 m (ww_db w1)) w1)
       \<or> (\<exists>sub2 l d. q = Inr l \<and> load_task (t_id sub) (ww_db w1) = Inr sub2 \<and> t_agent sub2 \<noteq> None \<and> t_status sub \<noteq> StatusInProgress
           \<and> w' = w1\<lparr>ww_db := d\<rparr> \<and> snd (transition_task_atomic (fr ''claim event'' 0) now sub2 StatusInProgress ''orchestrator''
                        ''worker_dispatch'' ''container worker claimed subtask'' (claim_refs l role) (ww_db w1)) = Inr d)"
proof (cases "xe_spawner env")
  case False
  then show ?thesis using assms by (intro none) (auto simp: dispatch_subtask_via_spawner_def)
next
  case True
  obtain q sub1 w1 where l: "launch_worker env fr now sub role w = (q, sub1, w1)" by (metis prod_cases3)
  note d = assms[unfolded dispatch_subtask_via_spawner_def l prod.case, simplified True not_True_eq_False if_False]
  show ?thesis
  proof (cases q)
    case (Inl e)
    show ?thesis
    proof (cases e)
      case (ImageUnavailable m)
      obtain tk r where f: "fail_task (fr ''fail event'' 0) now sub1 m (ww_db w1) = (tk, r)" by fastforce
      have "isl res \<and> w' = settle (fail_task (fr ''fail event'' 0) now sub1 m (ww_db w1)) w1"
        using d unfolding Inl ImageUnavailable sum.case spawn_error.case f prod.case settle_def snd_conv
        by (cases r) auto
      then show ?thesis using Inl ImageUnavailable by (intro launch[OF l]) blast
    next
      case (SpawnError m)
      then show ?thesis using d Inl by (intro launch[OF l]) auto
    qed
  next
    case (Inr la)
    show ?thesis
    proof (cases "load_task (t_id sub) (ww_db w1)")
      case (Inl e)
      then show ?thesis using d Inr by (intro launch[OF l]) auto
    next
      case ld: (Inr sub2)
      show ?thesis
      proof (cases "t_agent sub2 = None")
        case True
        then have "isl res \<and> w' = settle (fail_task (fr ''fail event'' 0) now sub2 ''agent record not found after container spawn'' (ww_db w1)) w1"
          using d unfolding Inr ld by auto
        then show ?thesis using ld True by (intro launch[OF l]) blast
      next
        case ag: False
        note d2 = d[unfolded Inr ld sum.case if_not_P[OF ag]]
        show ?thesis
        proof (cases "t_status sub = StatusInProgress")
          case True
          then show ?thesis using d2 ld ag Inr by (intro launch[OF l]) auto
        next
          case False
          obtain tk r where t: "transition_task_atomic (fr ''claim event'' 0) now sub2 StatusInProgress ''orchestrator''
                        ''worker_dispatch'' ''container worker claimed subtask'' (claim_refs la role) (ww_db w1) = (tk, r)" by fastforce
          show ?thesis
          proof (cases r)
            case (Inl e)
            then have "isl res \<and> w' = w1" using d2 unfolding if_not_P[OF False] t by auto
            then show ?thesis by (intro launch[OF l]) blast
          next
            case rd: (Inr d')
            then have "w' = w1\<lparr>ww_db := d'\<rparr>" using d2 unfolding if_not_P[OF False] t by auto
            then show ?thesis using Inr ld ag False t rd by (intro launch[OF l]) auto
          qed
        qed
      qed
    qed
  qed
qed

lemma load_id: "load_task i d = Inr t \<Longrightarrow> t_id t = i"
  by (simp add: load_task_Inr)

lemma settle_Inr: "snd r = Inr d \<Longrightarrow> settle r w = w\<lparr>ww_db := d\<rparr>"
  by (simp add: settle_def)

lemma dispatch_effect:
  assumes "dispatch_subtask_via_spawner env fr now sub role w = (res, w')"
  shows "launched now (t_id sub) w w'" "row_change (t_id sub) {StatusInProgress, StatusFailed} w w'"
proof -
  let ?S = "{StatusInProgress, StatusFailed}"
  have "launched now (t_id sub) w w' \<and> row_change (t_id sub) ?S w w'"
    using assms
  proof (cases rule: dispatch_cases)
    case none
    then show ?thesis by (simp add: launched_same row_change_same)
  next
    case (launch q sub1 w1)
    from launch_typed[OF launch(1)] obtain p where p: "spawn_typed_worker env fr now sub role w = (p, sub1, w1)" ..
    note e = typed_effect[OF p]
    have k: "keys w' = keys w1" using launch(2) by auto
    have "row_change (t_id sub) ?S w1 w'"
      using launch(2)
    proof (elim disjE exE conjE)
      fix m assume "w' = settle (fail_task (fr ''fail event'' 0) now sub1 m (ww_db w1)) w1"
      then show ?thesis using row_change_mono[OF row_fail[where tk = sub1 and w = w1], of ?S] e(3) by simp
    next
      fix sub2 m assume "load_task (t_id sub) (ww_db w1) = Inr sub2" "w' = settle (fail_task (fr ''fail event'' 0) now sub2 m (ww_db w1)) w1"
      then show ?thesis using row_change_mono[OF row_fail[where tk = sub2 and w = w1], of ?S] by (simp add: load_id)
    next
      fix sub2 l d assume l: "load_task (t_id sub) (ww_db w1) = Inr sub2" "w' = w1\<lparr>ww_db := d\<rparr>"
        and t: "snd (transition_task_atomic (fr ''claim event'' 0) now sub2 StatusInProgress ''orchestrator''
                        ''worker_dispatch'' ''container worker claimed subtask'' (claim_refs l role) (ww_db w1)) = Inr d"
      have "w' = settle (transition_task_atomic (fr ''claim event'' 0) now sub2 StatusInProgress ''orchestrator''
                        ''worker_dispatch'' ''container worker claimed subtask'' (claim_refs l role) (ww_db w1)) w1"
        unfolding settle_Inr[OF t] by (rule l(2))
      then have "row_change (t_id sub2) {StatusInProgress} w1 w'" by (simp only: row_transition[OF refl])
      then show ?thesis using row_change_mono[of _ _ w1 w' ?S] load_id[OF l(1)] by simp
    qed (simp add: row_change_same)
    then show ?thesis using launched_keys[OF e(1) k] row_change_trans[OF e(2)] by blast
  qed
  then show "launched now (t_id sub) w w'" "row_change (t_id sub) ?S w w'" by simp_all
qed

lemma past_dispatch:
  assumes "dispatch_subtask_via_spawner env fr now sub role w = (res, w')"
  shows "past_kept w w'"
  using assms
proof (cases rule: dispatch_cases)
  case none
  then show ?thesis by (simp add: past_same)
next
  case (launch q sub1 w1)
  from launch_typed[OF launch(1)] obtain p where p: "spawn_typed_worker env fr now sub role w = (p, sub1, w1)" ..
  have "past_kept w1 w'"
    using launch(2)
  proof (elim disjE exE conjE)
    fix sub2 l d assume l: "w' = w1\<lparr>ww_db := d\<rparr>"
      and t: "snd (transition_task_atomic (fr ''claim event'' 0) now sub2 StatusInProgress ''orchestrator''
                      ''worker_dispatch'' ''container worker claimed subtask'' (claim_refs l role) (ww_db w1)) = Inr d"
    from past_transition[of w1 "fr ''claim event'' 0" now sub2] show ?thesis unfolding l settle_Inr[OF t, symmetric] .
  qed (auto simp: past_same past_fail)
  then show ?thesis by (rule past_trans[OF past_typed[OF p]])
qed

section \<open>Identities\<close>

lemma ok_typed:
  assumes "identity_ok (identity_of w)" "images_available env" "spawn_typed_worker env fr now tk role w = (q, tk1, w1)"
  shows "identity_ok (identity_of w1)" "q \<noteq> Inl (ImageUnavailable m)"
  using assms(3)
proof (atomize (full), cases rule: spawn_typed_cases)
  case refused
  then show "identity_ok (identity_of w1) \<and> q \<noteq> Inl (ImageUnavailable m)" using assms(1) by simp
next
  case (spawned r answer p c s)
  have "identity_ok s" by (rule ok_spawn_worker[OF assms(1) spawned(2)])
  moreover have "q \<noteq> Inl (ImageUnavailable m)"
  proof
    assume "q = Inl (ImageUnavailable m)"
    then obtain k where "p = Inl (ErrSpawnFailed k)" "str_contains ''worker image unavailable'' k" using spawned(7) by blast
    then show False using spawn_failed_answer[of _ _ _ _ answer] spawned(1,2) assms(2) unfolding images_available_def by metis
  qed
  ultimately show "identity_ok (identity_of w1) \<and> q \<noteq> Inl (ImageUnavailable m)" using spawned(3) by simp
qed

lemma load_owns: "load_task i (ww_db w) = Inr t \<Longrightarrow> owns t (identity_of w)"
  by (auto simp: owns_def dest: load_task_Inr)

lemma ok_dispatch_subtask:
  assumes "identity_ok (identity_of w)" "images_available env" "dispatch_subtask_via_spawner env fr now sub role w = (res, w')"
  shows "identity_ok (identity_of w')"
  using assms(3)
proof (cases rule: dispatch_cases)
  case none
  then show ?thesis using assms(1) by simp
next
  case (launch q sub1 w1)
  from launch_cases[OF launch(1)] obtain p where p: "spawn_typed_worker env fr now sub role w = (p, sub1, w1)"
    "\<And>m. q = Inl (ImageUnavailable m) \<Longrightarrow> p = Inl (ImageUnavailable m)" by metis
  note ok = ok_typed[OF assms(1,2) p(1)]
  show ?thesis
    using launch(2)
  proof (elim disjE exE conjE)
    fix m assume "q = Inl (ImageUnavailable m)"
    then show ?thesis using p(2) ok(2) by simp
  next
    fix sub2 m assume "t_agent sub2 = None" "w' = settle (fail_task (fr ''fail event'' 0) now sub2 m (ww_db w1)) w1"
    then show ?thesis using ok_fail[OF ok(1)] by simp
  next
    fix sub2 l d assume l: "load_task (t_id sub) (ww_db w1) = Inr sub2" "w' = w1\<lparr>ww_db := d\<rparr>"
      and t: "snd (transition_task_atomic (fr ''claim event'' 0) now sub2 StatusInProgress ''orchestrator''
                      ''worker_dispatch'' ''container worker claimed subtask'' (claim_refs l role) (ww_db w1)) = Inr d"
    show ?thesis unfolding l(2) settle_Inr[OF t, symmetric] by (rule ok_transition[OF ok(1) load_owns[OF l(1)] refl])
  qed (simp add: ok)
qed

text \<open>More agents, and rows whose agents work on them\<close>

lemma ok_extend:
  assumes "identity_ok s" "distinct (map ag_id (is_agents s @ extra))" "distinct (map t_id rows)"
    and "\<And>t a. t \<in> set rows \<Longrightarrow> t_agent t = Some a \<Longrightarrow> worker_of (s\<lparr>is_agents := is_agents s @ extra\<rparr>) a (t_id t)"
  shows "identity_ok (s\<lparr>is_tasks := rows, is_agents := is_agents s @ extra\<rparr>)"
proof -
  note ok = assms(1)[unfolded identity_ok_def]
  have "\<exists>g \<in> set (is_agents s @ extra). ag_id g = a \<and> (attempt_open x \<longrightarrow> ag_task g = Some (at_task x) \<and> ag_status g = AgentWorking)"
    if "x \<in> set (is_attempts s)" "at_agent x = Some a" for x a
    using ok that by (simp only: set_append Un_iff) blast
  with ok assms(2,3,4) show ?thesis unfolding identity_ok_def worker_of_def by simp
qed

lemma worker_of_more: "worker_of s a i \<Longrightarrow> worker_of (s\<lparr>is_agents := is_agents s @ extra\<rparr>) a i"
  by (auto simp: worker_of_def)

text \<open>What \<open>runner.SpawnAgent\<close> does to the rows: it adds the row of an agent that works on the task, which
  stays when the process does not start.\<close>

definition host_runner_ok :: "schedule_env \<Rightarrow> bool" where
  "host_runner_ok env \<longleftrightarrow> (\<forall>sub role w i w1. sc_spawn_agent env sub role w = (i, w1) \<longrightarrow>
     ww_db w1 = ww_db w \<and> ww_attempts w1 = ww_attempts w
     \<and> (\<exists>extra. ww_agents w1 = ww_agents w @ extra
          \<and> (distinct (map ag_id (ww_agents w)) \<longrightarrow> distinct (map ag_id (ww_agents w @ extra)))
          \<and> (\<forall>a. i = Some a \<longrightarrow> (\<exists>g \<in> set extra. ag_id g = a \<and> ag_task g = Some (t_id sub) \<and> ag_status g = AgentWorking))))"

lemma save_present:
  "sub \<in> set (db_tasks d) \<Longrightarrow> t_id tk = t_id sub \<Longrightarrow>
   db_tasks (snd (save_task now tk d)) = map (\<lambda>r. if t_id r = t_id sub then tk\<lparr>t_updated := now\<rparr> else r) (db_tasks d)"
  unfolding saved_rows by (auto simp: list_ex_iff)

lemma save_events: "db_events (snd (save_task now tk d)) = db_events d"
  by (simp add: save_task_def Let_def)

lemma save_twice:
  assumes "sub \<in> set (db_tasks d)" "t_id tk = t_id sub" "t_id tk2 = t_id sub"
  shows "db_tasks (snd (save_task now tk2 (snd (save_task now tk d)))) = map (\<lambda>r. if t_id r = t_id sub then tk2\<lparr>t_updated := now\<rparr> else r) (db_tasks d)"
proof -
  note one = save_present[OF assms(1,2), of now]
  have "tk\<lparr>t_updated := now\<rparr> \<in> set (db_tasks (snd (save_task now tk d)))" by (rule saved_present)
  from save_present[OF this, of tk2 now] show ?thesis using assms(2,3) unfolding one by simp
qed

lemma row_saved:
  assumes "sub \<in> set (db_tasks (ww_db w))" "t_id tk = t_id sub" "t_status tk = t_status sub" "distinct (map t_id (db_tasks (ww_db w)))"
    and "db_tasks (ww_db w') = map (\<lambda>r. if t_id r = t_id sub then tk else r) (db_tasks (ww_db w))"
  shows "row_change (t_id sub) {} w w'"
  unfolding row_change_def
proof (intro exI conjI ballI)
  show "db_tasks (ww_db w') = map (\<lambda>r. if t_id r = t_id sub then tk else r) (db_tasks (ww_db w))" by (rule assms(5))
  fix r assume "r \<in> set (db_tasks (ww_db w))"
  then have "t_id r = t_id sub \<Longrightarrow> r = sub" using key_eq[OF assms(4) _ assms(1)] by blast
  then show "t_id (if t_id r = t_id sub then tk else r) = t_id r"
    "if t_id r = t_id sub then t_status (if t_id r = t_id sub then tk else r) = t_status r
       \<or> t_status (if t_id r = t_id sub then tk else r) \<in> {} else (if t_id r = t_id sub then tk else r) = r"
    using assms(2,3) by auto
qed

lemma prep_row_simps [simp]:
  "t_id (prep_started i tk) = t_id tk" "t_status (prep_started i tk) = t_status tk" "t_agent (prep_started i tk) = Some i"
  "t_id (prep_ended run tk) = t_id tk" "t_status (prep_ended run tk) = t_status tk" "t_agent (prep_ended run tk) = None"
  "t_id (prep_failed tk) = t_id tk" "t_status (prep_failed tk) = t_status tk" "t_agent (prep_failed tk) = t_agent tk"
  by (simp_all add: prep_started_def prep_ended_def prep_failed_def)

text \<open>Preparing a subtask starts no worker and changes no status; when it fails, it has not touched the
  subtask.\<close>

definition prep_harmless :: "task \<Rightarrow> bool \<Rightarrow> task \<Rightarrow> worker_world \<Rightarrow> worker_world \<Rightarrow> bool" where
  "prep_harmless sub b sub1 w w1 \<longleftrightarrow> keys w1 = keys w \<and> row_change (t_id sub) {} w w1
     \<and> (identity_ok (identity_of w) \<longrightarrow> identity_ok (identity_of w1))
     \<and> (\<not> b \<longrightarrow> sub1 = sub \<and> db_tasks (ww_db w1) = db_tasks (ww_db w)) \<and> past_kept w w1"

lemma owner_works: "identity_ok s \<Longrightarrow> t \<in> set (is_tasks s) \<Longrightarrow> t_agent t = Some a \<Longrightarrow> worker_of s a (t_id t)"
  by (simp add: identity_ok_def)

lemma save_keeps_ids:
  assumes "t_id tk = i" "distinct (map t_id rows)"
  shows "distinct (map t_id (map (\<lambda>r. if t_id r = i then tk else r) rows))"
proof -
  have "map t_id (map (\<lambda>r. if t_id r = i then tk else r) rows) = map t_id rows" using assms(1) by simp
  then show ?thesis using assms(2) by (simp only:)
qed

lemma prep_direct_harmless:
  assumes "spawn_prep_agent_direct env mdl fr now sub parent w = (b, sub1, w1)"
    and dt: "distinct (map t_id (db_tasks (ww_db w)))" and sub: "sub \<in> set (db_tasks (ww_db w))"
  shows "prep_harmless sub b sub1 w w1"
proof -
  let ?i = "fr ''prep agent'' 0" and ?d = "ww_db w"
  let ?ag = "direct_prep_agent ?i now mdl sub"
  show ?thesis
  proof (cases "tbl_create agent_conflict ?ag (ww_agents w)")
    case (Inl e)
    then show ?thesis using assms by (auto simp: spawn_prep_agent_direct_def prep_harmless_def row_change_same past_same)
  next
    case (Inr rows)
    then have rows: "rows = ww_agents w @ [?ag]" "\<forall>g \<in> set (ww_agents w). ag_id g \<noteq> ?i"
      by (auto simp: tbl_create_Inr agent_conflict_def direct_prep_agent_def)
    let ?t1 = "(prep_started ?i sub)\<lparr>t_updated := now\<rparr>" and ?d1 = "snd (save_task now (prep_started ?i sub) ?d)"
    let ?run = "sc_run_direct_prep env ?t1 parent"
    let ?t2 = "prep_ended ?run ?t1"
    let ?ag1 = "?ag\<lparr>ag_status := (if ?run = PrepFailed then AgentDead else AgentIdle), ag_task := None\<rparr>"
    have i1: "ag_id ?ag1 = ?i" by (simp add: direct_prep_agent_def)
    have "map (\<lambda>a. if ag_id a = ?i then ?ag1 else a) rows = ww_agents w @ [?ag1]"
      using rows by (simp add: direct_prep_agent_def map_idI)
    then have res: "b" "w1 = w\<lparr>ww_db := snd (save_task now ?t2 ?d1), ww_agents := ww_agents w @ [?ag1]\<rparr>"
      using assms(1) save_task_pair[of now "prep_started ?i sub" ?d] save_task_pair[of now ?t2 ?d1]
      by (auto simp: spawn_prep_agent_direct_def Inr Let_def split: prod.splits)
    have tasks: "db_tasks (ww_db w1) = map (\<lambda>r. if t_id r = t_id sub then ?t2\<lparr>t_updated := now\<rparr> else r) (db_tasks ?d)"
      unfolding res(2) using save_twice[OF sub, of "prep_started ?i sub" ?t2 now] by simp
    have "identity_ok ((identity_of w)\<lparr>is_tasks := db_tasks (ww_db w1), is_agents := is_agents (identity_of w) @ [?ag1]\<rparr>)"
      if ok: "identity_ok (identity_of w)"
    proof (rule ok_extend[OF ok])
      have "distinct (map ag_id (ww_agents w))" using ok by (simp add: identity_ok_def)
      then show "distinct (map ag_id (is_agents (identity_of w) @ [?ag1]))" using rows(2) i1 by (auto simp del: One_nat_def)
      show "distinct (map t_id (db_tasks (ww_db w1)))" unfolding tasks by (rule save_keeps_ids[OF _ dt]) simp
      fix t a assume "t \<in> set (db_tasks (ww_db w1))" "t_agent t = Some a"
      then have "t \<in> set (is_tasks (identity_of w))" unfolding tasks by (auto split: if_splits)
      from owner_works[OF ok this \<open>t_agent t = Some a\<close>]
      show "worker_of ((identity_of w)\<lparr>is_agents := is_agents (identity_of w) @ [?ag1]\<rparr>) a (t_id t)" by (rule worker_of_more)
    qed
    moreover have "identity_of w1 = (identity_of w)\<lparr>is_tasks := db_tasks (ww_db w1), is_agents := is_agents (identity_of w) @ [?ag1]\<rparr>"
      unfolding res(2) by (simp add: identity_of_def)
    moreover have "row_change (t_id sub) {} w w1" by (rule row_saved[OF sub _ _ dt tasks]) simp_all
    moreover have "keys w1 = keys w" unfolding res(2) by (simp add: keys_def)
    moreover have "past_kept w w1" unfolding res(2) by (auto simp: past_kept_def deaths_def save_events)
    ultimately show ?thesis using res(1) by (simp add: prep_harmless_def)
  qed
qed

lemma prep_agent_harmless:
  assumes "spawn_prep_agent env fr now sub parent w = (b, sub1, w1)" "host_runner_ok env" "distinct (map t_id (db_tasks (ww_db w)))"
    and "sub \<in> set (db_tasks (ww_db w))"
  shows "prep_harmless sub b sub1 w w1"
proof (cases "sc_direct_prep env")
  case (Some mdl)
  then show ?thesis using assms(1) prep_direct_harmless[OF _ assms(3,4)] by (auto simp: spawn_prep_agent_def)
next
  case None
  obtain i w2 where sp: "sc_spawn_agent env sub ''prep'' w = (i, w2)" by fastforce
  from assms(2) sp obtain extra where ex: "ww_db w2 = ww_db w" "ww_attempts w2 = ww_attempts w" "ww_agents w2 = ww_agents w @ extra"
    "distinct (map ag_id (ww_agents w)) \<longrightarrow> distinct (map ag_id (ww_agents w @ extra))"
    "\<And>a. i = Some a \<Longrightarrow> \<exists>g \<in> set extra. ag_id g = a \<and> ag_task g = Some (t_id sub) \<and> ag_status g = AgentWorking"
    unfolding host_runner_ok_def by metis
  have da: "distinct (map ag_id (is_agents (identity_of w) @ extra))" if "identity_ok (identity_of w)"
    using that ex(4) by (simp add: identity_ok_def)
  note old = worker_of_more[OF owner_works]
  show ?thesis
  proof (cases i)
    case i: None
    then have r: "\<not> b" "sub1 = sub" "w1 = w2" using assms(1) sp None by (auto simp: spawn_prep_agent_def)
    have "identity_ok ((identity_of w)\<lparr>is_tasks := db_tasks (ww_db w), is_agents := is_agents (identity_of w) @ extra\<rparr>)"
      if ok: "identity_ok (identity_of w)"
      by (rule ok_extend[OF ok da[OF ok] assms(3)]) (use old[OF ok] in simp)
    moreover have "identity_of w2 = (identity_of w)\<lparr>is_tasks := db_tasks (ww_db w), is_agents := is_agents (identity_of w) @ extra\<rparr>"
      by (simp add: identity_of_def ex)
    ultimately have "identity_ok (identity_of w) \<longrightarrow> identity_ok (identity_of w2)" by (metis (no_types))
    then show ?thesis using r ex(1-3) by (simp add: prep_harmless_def row_change_same keys_def past_kept_def deaths_def)
  next
    case i: (Some a)
    let ?t = "(prep_started a sub)\<lparr>t_updated := now\<rparr>"
    obtain t d where sv: "save_task now (prep_started a sub) (ww_db w2) = (t, d)" by fastforce
    then have "b" "w1 = w2\<lparr>ww_db := d\<rparr>" using assms(1) sp None i by (auto simp: spawn_prep_agent_def)
    moreover have "d = snd (save_task now (prep_started a sub) (ww_db w2))" using sv by simp
    ultimately have r: "b" "w1 = w2\<lparr>ww_db := snd (save_task now (prep_started a sub) (ww_db w2))\<rparr>" by simp_all
    have tasks: "db_tasks (ww_db w1) = map (\<lambda>r. if t_id r = t_id sub then ?t else r) (db_tasks (ww_db w))"
      unfolding r(2) ex(1) using save_present[OF assms(4), of "prep_started a sub" now] ex(1) by simp
    have "identity_ok ((identity_of w)\<lparr>is_tasks := db_tasks (ww_db w1), is_agents := is_agents (identity_of w) @ extra\<rparr>)"
      if ok: "identity_ok (identity_of w)"
    proof (rule ok_extend[OF ok da[OF ok]])
      show "distinct (map t_id (db_tasks (ww_db w1)))" unfolding tasks by (rule save_keeps_ids[OF _ assms(3)]) simp
      fix t c assume t: "t \<in> set (db_tasks (ww_db w1))" "t_agent t = Some c"
      from t(1) consider "t = ?t" | "t \<in> set (is_tasks (identity_of w))" unfolding tasks by (auto split: if_splits)
      then show "worker_of ((identity_of w)\<lparr>is_agents := is_agents (identity_of w) @ extra\<rparr>) c (t_id t)"
      proof cases
        case 1
        then have "c = a" "t_id t = t_id sub" using t(2) by simp_all
        then show ?thesis using ex(5)[OF i] by (auto simp: worker_of_def)
      next
        case 2
        then show ?thesis by (rule old[OF ok _ t(2)])
      qed
    qed
    moreover have "identity_of w1 = (identity_of w)\<lparr>is_tasks := db_tasks (ww_db w1), is_agents := is_agents (identity_of w) @ extra\<rparr>"
      unfolding r(2) by (simp add: identity_of_def ex)
    moreover have "row_change (t_id sub) {} w w1" by (rule row_saved[OF assms(4) _ _ assms(3) tasks]) simp_all
    moreover have "keys w1 = keys w" unfolding r(2) by (simp add: keys_def ex)
    moreover have "past_kept w w1" unfolding r(2) by (auto simp: past_kept_def deaths_def save_events ex)
    ultimately show ?thesis using r(1) by (simp add: prep_harmless_def)
  qed
qed

section \<open>One candidate\<close>

definition start_statuses :: "task_status set" where
  "start_statuses = {StatusInProgress, StatusFailed}"

text \<open>What starting the subtask does, in the terms above\<close>

definition started :: "exit_env \<Rightarrow> time \<Rightarrow> uuid \<Rightarrow> worker_world \<Rightarrow> worker_world \<Rightarrow> bool" where
  "started env now i w w' \<longleftrightarrow> launched now i w w' \<and> row_change i start_statuses w w'
     \<and> (images_available env \<and> identity_ok (identity_of w) \<longrightarrow> identity_ok (identity_of w')) \<and> past_kept w w'"

lemma started_same: "started env now i w w"
  by (simp add: started_def launched_same row_change_same past_same)

lemma spawn_unless_prepping_effect: "started (sc_exit env) now (t_id sub) w (spawn_unless_prepping env fr now sub role w)"
proof -
  obtain res w' where d: "dispatch_subtask_via_spawner (sc_exit env) fr now sub (agent_type_string role) w = (res, w')" by fastforce
  have "started (sc_exit env) now (t_id sub) w w'"
    using dispatch_effect[OF d] ok_dispatch_subtask[OF _ _ d] past_dispatch[OF d] by (simp add: started_def start_statuses_def)
  then show ?thesis by (simp add: spawn_unless_prepping_def d started_same)
qed

lemma start_subtask_effect:
  assumes "distinct (map t_id (db_tasks (ww_db w)))" "host_runner_ok env" "sub \<in> set (db_tasks (ww_db w))"
  shows "started (sc_exit env) now (t_id sub) w (start_subtask env fr now parent sub w)"
proof (cases "subtask_agent_type sub = AgentCoder \<and> needs_prep env sub")
  case False
  then have "start_subtask env fr now parent sub w = spawn_unless_prepping env fr now sub (subtask_agent_type sub) w"
    by (simp only: start_subtask_def Let_def if_False)
  then show ?thesis using spawn_unless_prepping_effect by simp
next
  case True
  obtain b sub1 w1 where p: "spawn_prep_agent env fr now sub parent w = (b, sub1, w1)" by (metis prod_cases3)
  note h = prep_agent_harmless[OF p assms(2,1,3), unfolded prep_harmless_def]
  have rc: "row_change (t_id sub) start_statuses w w1" using h row_change_mono by (metis empty_subsetI)
  show ?thesis
  proof (cases b)
    case True
    then have "start_subtask env fr now parent sub w = w1"
      using \<open>subtask_agent_type sub = AgentCoder \<and> needs_prep env sub\<close> p by (simp add: start_subtask_def)
    then show ?thesis using h rc by (simp add: started_def launched_same)
  next
    case False
    let ?t = "(prep_failed sub)\<lparr>t_updated := now\<rparr>" and ?w2 = "w1\<lparr>ww_db := snd (save_task now (prep_failed sub) (ww_db w1))\<rparr>"
    from False h have u: "sub1 = sub" "db_tasks (ww_db w1) = db_tasks (ww_db w)" by simp_all
    have e: "start_subtask env fr now parent sub w = spawn_unless_prepping env fr now ?t (subtask_agent_type sub) ?w2"
      using \<open>subtask_agent_type sub = AgentCoder \<and> needs_prep env sub\<close> p False u(1)
      by (simp add: start_subtask_def) (subst save_task_pair, simp)
    have own: "owns (prep_failed sub) (identity_of w1)" using assms(3) u(2) by (auto simp: owns_def)
    have ok2: "identity_ok (identity_of w) \<longrightarrow> identity_ok (identity_of ?w2)"
      using h ok_saved(1)[OF _ own, where now = now and ts = "ww_replacements w1"] by simp
    have "db_tasks (ww_db ?w2) = map (\<lambda>r. if t_id r = t_id sub then ?t else r) (db_tasks (ww_db w))"
      using save_present[of sub "ww_db w1" "prep_failed sub" now] assms(3) u(2) by simp
    from row_saved[OF assms(3) _ _ assms(1) this] have "row_change (t_id sub) {} w ?w2" by simp
    then have rc2: "row_change (t_id sub) start_statuses w ?w2" using row_change_mono by (metis empty_subsetI)
    have k2: "keys ?w2 = keys w" using h by simp
    note st = spawn_unless_prepping_effect[of env now ?t ?w2 fr "subtask_agent_type sub", folded e]
    have i: "t_id ?t = t_id sub" by simp
    have "past_kept w ?w2" using h by (auto simp: past_kept_def deaths_def save_events)
    then show ?thesis
      using st row_change_trans[OF rc2] k2 ok2 past_trans[of w ?w2] unfolding started_def i launched_def by simp
  qed
qed

text \<open>A branch that git shows to be merged: it has a head of its own, a meaningful difference to the default
  branch, and is an ancestor of the head of the feature branch.\<close>

definition branch_merged :: "schedule_env \<Rightarrow> string \<Rightarrow> string \<Rightarrow> bool" where
  "branch_merged env dir branch \<longleftrightarrow> branch \<noteq> []
     \<and> (\<exists>own feature. run_git (sc_git env) dir [''rev-parse'', branch] = Inr own
          \<and> run_git (sc_git env) dir [''rev-parse'', ''HEAD''] = Inr feature \<and> trim_space own \<noteq> trim_space feature)
     \<and> branch_has_meaningful_diff (sc_git env) dir (sc_default_branch env) branch
     \<and> \<not> isl (run_git (sc_git env) dir [''merge-base'', ''--is-ancestor'', branch, ''HEAD''])"

text \<open>The branch of the very agent that the subtask is assigned to is merged, and the last recorded death of
  a container of the subtask is not a failure of this agent.\<close>

definition own_branch_merged :: "schedule_env \<Rightarrow> string \<Rightarrow> task \<Rightarrow> worker_world \<Rightarrow> bool" where
  "own_branch_merged env dir c w \<longleftrightarrow> (\<exists>g \<in> set (ww_agents w). t_agent c = Some (ag_id g)
     \<and> \<not> has_blocking_completion_signal c g w \<and> branch_merged env dir (ag_branch g))"

definition work_exists :: "schedule_env \<Rightarrow> task \<Rightarrow> string list \<Rightarrow> task \<Rightarrow> worker_world \<Rightarrow> bool" where
  "work_exists env parent scaffolds c w \<longleftrightarrow> existing_work_detected env parent scaffolds c \<noteq> None
     \<or> own_branch_merged env (feature_dir env parent) c w"

lemma already_merged:
  assumes "is_work_already_merged env c dir w"
  shows "own_branch_merged env dir c w"
proof -
  from assms obtain i g where g: "t_agent c = Some i" "find_agent i (identity_of w) = Some g"
    "\<not> has_blocking_completion_signal c g w" "branch_merged env dir (ag_branch g)"
    unfolding is_work_already_merged_def branch_merged_def
    by (cases "t_agent c") (auto split: option.splits sum.splits if_splits)
  from tbl_first_Some[OF g(2)[unfolded find_agent_def]] have "g \<in> set (ww_agents w)" "ag_id g = i" by simp_all
  then show ?thesis using g unfolding own_branch_merged_def by blast
qed

lemma blocking_cong: "deaths w' = deaths w \<Longrightarrow> has_blocking_completion_signal c g w' = has_blocking_completion_signal c g w"
proof -
  assume "deaths w' = deaths w"
  moreover have "filter (\<lambda>e. te_task e = t_id c \<and> te_type e = ''container_died'') (db_events (ww_db v)) = filter (\<lambda>e. te_task e = t_id c) (deaths v)" for v
    by (simp add: deaths_def conj_commute)
  ultimately show ?thesis by (simp add: has_blocking_completion_signal_def tbl_latest_def)
qed

lemma work_exists_kept: "work_exists env parent scaffolds c w \<Longrightarrow> past_kept w w' \<Longrightarrow> work_exists env parent scaffolds c w'"
  unfolding work_exists_def own_branch_merged_def past_kept_def by (auto simp: blocking_cong[of w' w])

definition may_start :: "dispatch_decision list \<Rightarrow> task \<Rightarrow> bool" where
  "may_start decisions c \<longleftrightarrow> (case List.find (\<lambda>d. dd_task d = t_id c) (rev decisions) of None \<Rightarrow> True | Some d \<Rightarrow> dd_dispatchable d)"

lemma ok_accept:
  assumes "identity_ok (identity_of w)"
  shows "identity_ok (identity_of (settle (cas_accepted_existing_subtask eid now tk refs (ww_db w)) w))"
proof (cases "snd (cas_accepted_existing_subtask eid now tk refs (ww_db w))")
  case (Inl e)
  then show ?thesis using assms by (simp add: settle_def)
next
  case (Inr d)
  then have "cas_accepted_existing_subtask eid now tk refs (ww_db w) = (fst (cas_accepted_existing_subtask eid now tk refs (ww_db w)), Inr d)"
    by (metis prod.collapse)
  from accepted_rows[OF this] obtain P v tk1 where
    rows: "db_tasks d = map (\<lambda>r. if t_id r = t_id tk \<and> P r then subtask_done_columns tk1 v r else r) (db_tasks (ww_db w))" .
  have ids: "map t_id (db_tasks d) = map t_id (db_tasks (ww_db w))" unfolding rows by (simp add: subtask_done_columns_def)
  have "identity_ok (identity_of w\<lparr>is_tasks := db_tasks d\<rparr>)"
  proof (rule ok_tasks[OF assms])
    show "distinct (map t_id (db_tasks d))" unfolding ids using assms by (simp add: identity_ok_def)
    fix t a assume "t \<in> set (db_tasks d)" "t_agent t = Some a"
    then show "\<exists>t' \<in> set (is_tasks (identity_of w)). t_id t' = t_id t \<and> t_agent t' = Some a"
      unfolding rows by (auto simp: subtask_done_columns_def split: if_splits)
  qed
  then show ?thesis by (simp add: settle_Inr[OF Inr] identity_of_def)
qed

definition accepted :: "uuid \<Rightarrow> worker_world \<Rightarrow> worker_world \<Rightarrow> bool" where
  "accepted i w w' \<longleftrightarrow> keys w' = keys w \<and> row_change i {StatusDone} w w' \<and> (identity_ok (identity_of w) \<longrightarrow> identity_ok (identity_of w'))
     \<and> past_kept w w'"

lemma candidate_effect:
  fixes fr now parent scaffolds decisions
  assumes "distinct (map t_id (db_tasks (ww_db w)))" "host_runner_ok env" "c \<in> set (db_tasks (ww_db w))"
  defines "w' \<equiv> schedule_candidate env fr now parent scaffolds decisions c w"
  shows "work_exists env parent scaffolds c w \<and> accepted (t_id c) w w' \<or> may_start decisions c \<and> started (sc_exit env) now (t_id c) w w' \<or> w' = w"
proof (cases "existing_work_detected env parent scaffolds c")
  case (Some changed)
  then have "w' = settle (cas_accepted_existing_subtask (fr ''accept event'' 0) now c (existing_work_refs c changed) (ww_db w)) w"
    by (simp add: w'_def schedule_candidate_def)
  then show ?thesis using Some row_accept ok_accept past_accept by (simp add: work_exists_def accepted_def)
next
  case None
  show ?thesis
  proof (cases "is_work_already_merged env c (feature_dir env parent) w")
    case True
    then have "w' = settle (cas_accepted_existing_subtask (fr ''accept event'' 0) now c [(''reason'', GStr ''already-merged-skip-spawn'')] (ww_db w)) w"
      using None by (simp add: w'_def schedule_candidate_def)
    then show ?thesis using already_merged[OF True] row_accept ok_accept past_accept by (simp add: work_exists_def accepted_def)
  next
    case False
    note st = start_subtask_effect[OF assms(1-3), of now fr parent]
    show ?thesis
      using None False st by (auto simp: w'_def schedule_candidate_def may_start_def split: option.splits)
  qed
qed

text \<open>The statuses a candidate may get\<close>

definition settled_as :: "schedule_env \<Rightarrow> task \<Rightarrow> string list \<Rightarrow> dispatch_decision list \<Rightarrow> task \<Rightarrow> worker_world \<Rightarrow> task_status \<Rightarrow> bool" where
  "settled_as env parent scaffolds decisions c w st \<longleftrightarrow>
     st = StatusDone \<and> work_exists env parent scaffolds c w \<or> st \<in> start_statuses \<and> may_start decisions c"

lemma settled_kept: "settled_as env parent scaffolds decisions c w st \<Longrightarrow> past_kept w w' \<Longrightarrow> settled_as env parent scaffolds decisions c w' st"
  using work_exists_kept unfolding settled_as_def by blast

lemma candidate_step:
  fixes fr now parent scaffolds decisions
  assumes "distinct (map t_id (db_tasks (ww_db w)))" "host_runner_ok env" "c \<in> set (db_tasks (ww_db w))"
  defines "w' \<equiv> schedule_candidate env fr now parent scaffolds decisions c w"
  obtains S new where "row_change (t_id c) S w w'" "\<And>st. st \<in> S \<Longrightarrow> settled_as env parent scaffolds decisions c w st" "past_kept w w'"
    "keys w' = keys w @ new" "new = [] \<or> (\<exists>a. new = [(a, t_id c, now)]) \<and> may_start decisions c"
    "images_available (sc_exit env) \<and> identity_ok (identity_of w) \<longrightarrow> identity_ok (identity_of w')"
proof -
  from candidate_effect[OF assms(1-3), of parent scaffolds fr now decisions, folded w'_def]
  consider (acc) "work_exists env parent scaffolds c w" "accepted (t_id c) w w'"
    | (start) "may_start decisions c" "started (sc_exit env) now (t_id c) w w'" | (same) "w' = w" by blast
  then show ?thesis
  proof cases
    case acc
    then show ?thesis by (intro that[of "{StatusDone}" "[]"]) (auto simp: accepted_def settled_as_def)
  next
    case start
    then obtain new where "keys w' = keys w @ new" "new = [] \<or> (\<exists>a. new = [(a, t_id c, now)])"
      unfolding started_def launched_def by fastforce
    then show ?thesis using start by (intro that[of start_statuses new]) (auto simp: started_def settled_as_def)
  next
    case same
    then show ?thesis by (intro that[of "{}" "[]"]) (auto simp: row_change_same past_same)
  qed
qed

definition pass_effect ::
  "schedule_env \<Rightarrow> task \<Rightarrow> string list \<Rightarrow> dispatch_decision list \<Rightarrow> task list \<Rightarrow> worker_world \<Rightarrow> worker_world \<Rightarrow> bool" where
  "pass_effect env parent scaffolds decisions cs w w' \<longleftrightarrow>
     (\<exists>new. keys w' = keys w @ new \<and> distinct (map (fst \<circ> snd) new)
        \<and> (\<forall>x \<in> set new. \<exists>c \<in> set cs. fst (snd x) = t_id c \<and> may_start decisions c))
     \<and> (\<forall>r' \<in> set (db_tasks (ww_db w')). \<exists>r \<in> set (db_tasks (ww_db w)). t_id r' = t_id r
        \<and> (t_status r' = t_status r \<or> (\<exists>c \<in> set cs. t_id c = t_id r \<and> settled_as env parent scaffolds decisions c w' (t_status r'))))
     \<and> (images_available (sc_exit env) \<and> identity_ok (identity_of w) \<longrightarrow> identity_ok (identity_of w')) \<and> past_kept w w'"

lemma candidates_effect:
  assumes "host_runner_ok env"
  shows "distinct (map t_id (db_tasks (ww_db w))) \<Longrightarrow> distinct (map t_id cs) \<Longrightarrow> set cs \<subseteq> set (db_tasks (ww_db w)) \<Longrightarrow>
    pass_effect env parent scaffolds decisions cs w (schedule_candidates env fr now parent scaffolds decisions k cs w)"
proof (induction cs arbitrary: w k)
  case Nil
  then show ?case by (auto simp: pass_effect_def past_same)
next
  case (Cons c cs)
  let ?w1 = "schedule_candidate env (fr k) now parent scaffolds decisions c w"
  let ?w2 = "schedule_candidates env fr now parent scaffolds decisions (Suc k) cs ?w1"
  have c: "c \<in> set (db_tasks (ww_db w))" using Cons.prems(3) by simp
  from candidate_step[OF Cons.prems(1) assms c] obtain S new where st: "row_change (t_id c) S w ?w1"
    "\<And>st. st \<in> S \<Longrightarrow> settled_as env parent scaffolds decisions c w st" "keys ?w1 = keys w @ new"
    "new = [] \<or> (\<exists>a. new = [(a, t_id c, now)]) \<and> may_start decisions c"
    "images_available (sc_exit env) \<and> identity_ok (identity_of w) \<longrightarrow> identity_ok (identity_of ?w1)" "past_kept w ?w1" by metis
  have sub: "set cs \<subseteq> set (db_tasks (ww_db ?w1))"
  proof
    fix x assume x: "x \<in> set cs"
    then have "t_id x \<noteq> t_id c" using Cons.prems(2) by (metis distinct.simps(2) image_eqI list.simps(9) set_map)
    then show "x \<in> set (db_tasks (ww_db ?w1))" using row_change_keeps[OF st(1)] x Cons.prems(3) by auto
  qed
  have d1: "distinct (map t_id (db_tasks (ww_db ?w1)))" using row_change_ids[OF st(1)] Cons.prems(1) by simp
  have dcs: "distinct (map t_id cs)" using Cons.prems(2) by simp
  note ih = Cons.IH[OF d1 dcs sub, of "Suc k", unfolded pass_effect_def]
  from ih obtain new2 where n2: "keys ?w2 = keys ?w1 @ new2" "distinct (map (fst \<circ> snd) new2)"
    "\<forall>x \<in> set new2. \<exists>c \<in> set cs. fst (snd x) = t_id c \<and> may_start decisions c" by blast
  have kept: "past_kept w ?w2" using past_trans[OF st(6)] ih by blast
  have ids: "(fst \<circ> snd) ` set new2 \<subseteq> t_id ` set cs" using n2(3) by fastforce
  have "\<exists>new. keys ?w2 = keys w @ new \<and> distinct (map (fst \<circ> snd) new)
      \<and> (\<forall>x \<in> set new. \<exists>c' \<in> set (c # cs). fst (snd x) = t_id c' \<and> may_start decisions c')"
  proof (intro exI[of _ "new @ new2"] conjI ballI)
    show "keys ?w2 = keys w @ new @ new2" using n2(1) st(3) by simp
    have "t_id c \<notin> (fst \<circ> snd) ` set new2" using ids Cons.prems(2) by auto
    then show "distinct (map (fst \<circ> snd) (new @ new2))" using st(4) n2(2) by (elim disjE conjE exE) simp_all
    fix x assume "x \<in> set (new @ new2)"
    then show "\<exists>c' \<in> set (c # cs). fst (snd x) = t_id c' \<and> may_start decisions c'" using st(4) n2(3) by auto
  qed
  moreover have "\<exists>r \<in> set (db_tasks (ww_db w)). t_id r' = t_id r
      \<and> (t_status r' = t_status r \<or> (\<exists>c' \<in> set (c # cs). t_id c' = t_id r \<and> settled_as env parent scaffolds decisions c' ?w2 (t_status r')))"
    if r': "r' \<in> set (db_tasks (ww_db ?w2))" for r'
  proof -
    from ih r' obtain r1 where r1: "r1 \<in> set (db_tasks (ww_db ?w1))" "t_id r' = t_id r1"
      "t_status r' = t_status r1 \<or> (\<exists>c \<in> set cs. t_id c = t_id r1 \<and> settled_as env parent scaffolds decisions c ?w2 (t_status r'))" by blast
    from row_change_status[OF st(1) r1(1)] obtain r where r: "r \<in> set (db_tasks (ww_db w))" "t_id r1 = t_id r"
      "t_status r1 = t_status r \<or> t_id r = t_id c \<and> t_status r1 \<in> S" by metis
    show ?thesis
    proof (intro bexI[OF _ r(1)] conjI)
      show "t_id r' = t_id r" using r1(2) r(2) by simp
      show "t_status r' = t_status r \<or> (\<exists>c' \<in> set (c # cs). t_id c' = t_id r \<and> settled_as env parent scaffolds decisions c' ?w2 (t_status r'))"
        using r1(3) r(2,3) settled_kept[OF st(2) kept] by (metis list.set_intros(1,2))
    qed
  qed
  moreover have "images_available (sc_exit env) \<and> identity_ok (identity_of w) \<longrightarrow> identity_ok (identity_of ?w2)"
    using ih st(5) by blast
  moreover note kept
  ultimately show ?case unfolding pass_effect_def schedule_candidates.simps by blast
qed

section \<open>The decisions\<close>

lemma mutual_pass_tasks: "(\<And>c dec. (c, dec) \<in> set xs \<Longrightarrow> dd_task dec = t_id c) \<Longrightarrow> map dd_task (mutual_pass xs acc) = map (t_id \<circ> fst) xs"
  by (induction xs acc rule: mutual_pass.induct) (auto simp: Let_def split: prod.splits)

lemma evaluate_candidate_task: "dd_task (evaluate_candidate parse gating d c in_progress) = t_id c"
  unfolding evaluate_candidate_def Let_def case_prod_beta if_distrib[of dd_task] dispatch_decision.simps by (simp only: if_cancel)

lemma evaluate_dispatch_tasks: "map dd_task (evaluate_dispatch parse gating d cands in_progress) = map t_id cands"
  unfolding evaluate_dispatch_def
  by (subst mutual_pass_tasks) (auto simp: evaluate_candidate_task)

lemma find_rev_nth:
  assumes "k < length xs" "f (xs ! k) = i" "distinct (map f xs)"
  shows "List.find (\<lambda>x. f x = i) (rev xs) = Some (xs ! k)"
proof (cases "List.find (\<lambda>x. f x = i) (rev xs)")
  case None
  then show ?thesis using assms(1,2) by (auto simp: find_None_iff_set)
next
  case (Some y)
  then have "y \<in> set xs" "f y = i" using find_Some_set[OF Some] by simp_all
  then show ?thesis using Some assms key_eq[OF assms(3), of y "xs ! k"] by simp
qed

text \<open>A subtask that is ready when the pass begins: its dependencies are done, in a pass without a phase
  filter the earlier waves are over, and its files overlap little with those of every running sibling
  and of the candidates approved before it.\<close>

definition ready_to_run :: "schedule_env \<Rightarrow> uuid \<Rightarrow> string \<Rightarrow> db \<Rightarrow> task \<Rightarrow> bool" where
  "ready_to_run env pid phase d c \<longleftrightarrow>
     (\<forall>i \<in> set (t_deps c). \<exists>t \<in> set (db_tasks d). t_id t = i \<and> t_status t = StatusDone)
     \<and> (phase = [] \<longrightarrow> earlier_waves_over (xe_parse_id (sc_exit env)) d c (map t_id (running_siblings pid d)))
     \<and> (\<forall>t \<in> set (running_siblings pid d). compute_conflict_score (extract_writable_files c) (extract_writable_files t) < 3 / 10)
     \<and> (\<exists>k. k < length (candidate_subtasks env pid phase d) \<and> candidate_subtasks env pid phase d ! k = c
          \<and> (let held = approved_files (candidate_subtasks env pid phase d) (dispatch_decisions env pid phase d) k in
             held = [] \<or> compute_conflict_score (extract_writable_files c) held < 3 / 10))"

lemma may_start_ready:
  assumes "distinct (map t_id (db_tasks d))" "c \<in> set (candidate_subtasks env pid phase d)"
    and "may_start (dispatch_decisions env pid phase d) c"
  shows "ready_to_run env pid phase d c"
proof -
  let ?cs = "candidate_subtasks env pid phase d" and ?ip = "running_siblings pid d"
  let ?parse = "xe_parse_id (sc_exit env)"
  let ?ds = "dispatch_decisions env pid phase d"
  let ?xs = "map (\<lambda>c. (c, evaluate_candidate ?parse (phase \<noteq> []) d c ?ip)) ?cs"
  have len: "length ?ds = length ?cs" by (simp add: dispatch_decisions_def evaluate_dispatch_length)
  have tasks: "map dd_task ?ds = map t_id ?cs" by (simp add: dispatch_decisions_def evaluate_dispatch_tasks)
  from assms(2) obtain k where k: "k < length ?cs" "?cs ! k = c" by (auto simp: in_set_conv_nth)
  have dk: "dd_task (?ds ! k) = t_id c" using k tasks len by (metis nth_map)
  have "distinct (map dd_task ?ds)" unfolding tasks by (rule candidates_distinct[OF assms(1)])
  from find_rev_nth[of k ?ds dd_task "t_id c", OF _ dk this] have "dd_dispatchable (?ds ! k)"
    using assms(3) k len by (simp add: may_start_def)
  then have ap: "dd_dispatchable (mutual_pass ?xs [] ! k)" by (simp add: dispatch_decisions_def evaluate_dispatch_def)
  have kx: "k < length ?xs" using k(1) by simp
  note m = mutual_pass_sound[OF kx ap]
  have cand: "dd_dispatchable (evaluate_candidate ?parse (phase \<noteq> []) d c ?ip)" using conjunct1[OF m] ap k by simp
  note ca = candidate_approved[OF cand]
  have dip: "distinct (map t_id ?ip)" unfolding running_siblings_def child_rows_def
    by (intro distinct_map_filter assms(1))
  have "\<forall>i \<in> set (t_deps c). \<exists>t \<in> set (db_tasks d). t_id t = i \<and> t_status t = StatusDone"
    using ca(1) dependencies_met_iff[OF uniq_tasks_distinct[THEN iffD2, OF assms(1)]] by auto
  moreover have "phase = [] \<longrightarrow> earlier_waves_over ?parse d c (map t_id ?ip)"
    using ca(2) not_wave_blocked by blast
  moreover have "\<forall>t \<in> set ?ip. compute_conflict_score (extract_writable_files c) (extract_writable_files t) < 3 / 10"
    using no_conflicts_score[OF ca(3) _ dip] by (simp add: conflict_score_block_threshold_def)
  moreover have "let held = approved_files ?cs ?ds k in held = [] \<or> compute_conflict_score (extract_writable_files c) held < 3 / 10"
    using conjunct2[OF m] k
    by (auto simp: Let_def dispatch_decisions_def evaluate_dispatch_def comp_def conflict_score_block_threshold_def score_sets)
  ultimately show ?thesis unfolding ready_to_run_def using k by blast
qed

section \<open>The pass\<close>

definition repaired_db :: "time \<Rightarrow> task \<Rightarrow> worker_world \<Rightarrow> db" where
  "repaired_db now parent w = repair_superseded_test_dependencies now (t_id parent) (ww_db w)"

lemma repair_one:
  "\<exists>f. db_tasks (repair_deps now siblings s d) = map f (db_tasks d)
     \<and> (\<forall>r. t_id (f r) = t_id r \<and> t_status (f r) = t_status r \<and> t_agent (f r) = t_agent r \<and> t_parent (f r) = t_parent r)"
proof -
  let ?f = "\<lambda>r. if t_id r = t_id s then r\<lparr>t_deps := repaired_deps siblings s, t_updated := now\<rparr> else r"
  have "db_tasks (repair_deps now siblings s d) = map id (db_tasks d) \<or> db_tasks (repair_deps now siblings s d) = map ?f (db_tasks d)"
    by (simp add: repair_deps_def tbl_update_def)
  then show ?thesis by (elim disjE) (rule exI[of _ id], simp, rule exI[of _ ?f], simp)
qed

lemma repair_all:
  "\<exists>f. db_tasks (fold (repair_deps now siblings) ss d) = map f (db_tasks d)
     \<and> (\<forall>r. t_id (f r) = t_id r \<and> t_status (f r) = t_status r \<and> t_agent (f r) = t_agent r \<and> t_parent (f r) = t_parent r)"
proof (induction ss arbitrary: d)
  case Nil
  then show ?case by (intro exI[of _ id]) simp
next
  case (Cons s ss)
  from repair_one[of now siblings s d] obtain f where f: "db_tasks (repair_deps now siblings s d) = map f (db_tasks d)"
    "\<forall>r. t_id (f r) = t_id r \<and> t_status (f r) = t_status r \<and> t_agent (f r) = t_agent r \<and> t_parent (f r) = t_parent r" by blast
  from Cons.IH[of "repair_deps now siblings s d"] obtain g where
    "db_tasks (fold (repair_deps now siblings) ss (repair_deps now siblings s d)) = map g (db_tasks (repair_deps now siblings s d))"
    "\<forall>r. t_id (g r) = t_id r \<and> t_status (g r) = t_status r \<and> t_agent (g r) = t_agent r \<and> t_parent (g r) = t_parent r" by blast
  with f show ?case by (intro exI[of _ "\<lambda>r. g (f r)"]) simp
qed

lemma repaired_rows:
  "\<exists>f. db_tasks (repaired_db now parent w) = map f (db_tasks (ww_db w))
     \<and> (\<forall>r. t_id (f r) = t_id r \<and> t_status (f r) = t_status r \<and> t_agent (f r) = t_agent r \<and> t_parent (f r) = t_parent r)"
  using repair_all[of now "newest_rows (child_rows (t_id parent) (ww_db w))" "newest_rows (child_rows (t_id parent) (ww_db w))" "ww_db w"]
  unfolding repaired_db_def repair_superseded_test_dependencies_def Let_def by blast

lemma repaired_distinct: "distinct (map t_id (db_tasks (ww_db w))) \<Longrightarrow> distinct (map t_id (db_tasks (repaired_db now parent w)))"
  using repaired_rows[of now parent w] by (auto simp: comp_def)

lemma save_blocked:
  assumes "record_subtask_dispatch_blocked eid now parent phase decisions w = (p, w2)"
  obtains q where "t_id q = t_id parent" "t_status q = t_status parent" "t_agent q = t_agent parent" "t_branch q = t_branch parent"
    "p = q\<lparr>t_updated := now\<rparr>" "keys w2 = keys w"
    "identity_of w2 = identity_of (w\<lparr>ww_db := snd (save_task now q (ww_db w)), ww_replacements := ww_replacements w\<rparr>)"
proof -
  let ?q = "parent\<lparr>t_context := json_put (snd blocked_keys) (GStr (blocked_evidence_signature phase decisions))
             (json_put (fst blocked_keys) (GMap (blocked_state phase decisions)) (t_context parent))\<rparr>"
  obtain t d where sv: "save_task now ?q (ww_db w) = (t, d)" by fastforce
  have "(t, d) = (?q\<lparr>t_updated := now\<rparr>, snd (save_task now ?q (ww_db w)))" unfolding sv[symmetric] by (rule save_task_pair)
  then have e: "t = ?q\<lparr>t_updated := now\<rparr>" "d = snd (save_task now ?q (ww_db w))" by (simp_all only: prod.inject)
  have "p = t \<and> keys w2 = keys w \<and> identity_of w2 = identity_of (w\<lparr>ww_db := d\<rparr>)"
    using assms unfolding record_subtask_dispatch_blocked_def Let_def sv prod.case by (auto split: if_splits)
  then show ?thesis using e by (intro that[of ?q]) simp_all
qed

lemma work_exists_cong: "t_branch p = t_branch parent \<Longrightarrow> work_exists env p scaffolds c w = work_exists env parent scaffolds c w"
  by (simp add: work_exists_def existing_work_detected_def feature_dir_def)

text \<open>The state in which the loop over the candidates begins\<close>

lemma pass_begins:
  assumes "schedule_subtasks env fr now parent phase w = (parent', w')" "t_status parent \<noteq> StatusPaused"
    and ids: "distinct (map t_id (db_tasks (ww_db w)))" and parent: "parent \<in> set (db_tasks (ww_db w))"
    and own: "t_parent parent \<noteq> Some (t_id parent)"
  defines "d \<equiv> repaired_db now parent w"
  defines "cs \<equiv> candidate_subtasks env (t_id parent) phase d"
  obtains w2 where "keys w2 = keys w" "set cs \<subseteq> set (db_tasks (ww_db w2))" "distinct (map t_id (db_tasks (ww_db w2)))"
    "\<And>r'. r' \<in> set (db_tasks (ww_db w2)) \<Longrightarrow> \<exists>r \<in> set (db_tasks (ww_db w)). t_id r' = t_id r \<and> t_status r' = t_status r"
    "identity_ok (identity_of w) \<longrightarrow> identity_ok (identity_of w2)" "t_branch parent' = t_branch parent"
    "w' = schedule_candidates env fr now parent' (completed_test_scaffold_files (t_id parent) d)
       (dispatch_decisions env (t_id parent) phase d) 0 cs w2"
proof -
  let ?w1 = "w\<lparr>ww_db := d\<rparr>"
  from repaired_rows[of now parent w] obtain f where f: "db_tasks d = map f (db_tasks (ww_db w))"
    "\<And>r. t_id (f r) = t_id r \<and> t_status (f r) = t_status r \<and> t_agent (f r) = t_agent r \<and> t_parent (f r) = t_parent r"
    unfolding d_def by blast
  have dd: "distinct (map t_id (db_tasks d))" using ids f by (simp add: comp_def)
  have csd: "set cs \<subseteq> set (db_tasks d)" unfolding cs_def candidate_subtasks_set by blast
  have rows: "\<exists>r0 \<in> set (db_tasks (ww_db w)). t_id r = t_id r0 \<and> t_status r = t_status r0 \<and> t_agent r = t_agent r0" if "r \<in> set (db_tasks d)" for r
    using that f by auto
  have ok1: "identity_ok (identity_of w) \<longrightarrow> identity_ok (identity_of ?w1)"
  proof
    assume ok: "identity_ok (identity_of w)"
    have "identity_ok (identity_of w\<lparr>is_tasks := db_tasks d\<rparr>)" by (rule ok_tasks[OF ok dd]) (use rows in force)
    then show "identity_ok (identity_of ?w1)" by (simp add: identity_of_def)
  qed
  have eq: "(parent', w') = (if cs = [] then (parent, ?w1)
     else case (if list_ex dd_dispatchable (dispatch_decisions env (t_id parent) phase d) then (parent, ?w1)
            else record_subtask_dispatch_blocked (fr 0 ''blocked event'' 0) now parent phase (dispatch_decisions env (t_id parent) phase d) ?w1) of
       (p, w2) \<Rightarrow> (p, schedule_candidates env fr now p (completed_test_scaffold_files (t_id parent) d)
         (dispatch_decisions env (t_id parent) phase d) 0 cs w2))"
    using assms(1,2) by (simp only: schedule_subtasks_def Let_def if_False cs_def d_def repaired_db_def)
  show ?thesis
  proof (cases "cs = [] \<or> list_ex dd_dispatchable (dispatch_decisions env (t_id parent) phase d)")
    case True
    then show ?thesis
      using eq csd dd rows ok1 by (intro that[of ?w1]) (auto split: if_splits)
  next
    case False
    obtain p w2 where rb: "record_subtask_dispatch_blocked (fr 0 ''blocked event'' 0) now parent phase
        (dispatch_decisions env (t_id parent) phase d) ?w1 = (p, w2)" by fastforce
    then have e: "parent' = p" "w' = schedule_candidates env fr now p (completed_test_scaffold_files (t_id parent) d)
         (dispatch_decisions env (t_id parent) phase d) 0 cs w2" using eq False by auto
    from save_blocked[OF rb] obtain q where q: "t_id q = t_id parent" "t_status q = t_status parent" "t_agent q = t_agent parent"
      "t_branch q = t_branch parent" "p = q\<lparr>t_updated := now\<rparr>" "keys w2 = keys ?w1"
      "identity_of w2 = identity_of (?w1\<lparr>ww_db := snd (save_task now q (ww_db ?w1)), ww_replacements := ww_replacements ?w1\<rparr>)" .
    have fp: "f parent \<in> set (db_tasks d)" using parent f(1) by simp
    have "db_tasks (ww_db w2) = db_tasks (snd (save_task now q d))" using arg_cong[OF q(7), of is_tasks] by simp
    also have "\<dots> = map (\<lambda>r. if t_id r = t_id (f parent) then q\<lparr>t_updated := now\<rparr> else r) (db_tasks d)"
      by (rule save_present[OF fp]) (use q(1) f(2) in simp)
    finally have t2: "db_tasks (ww_db w2) = map (\<lambda>r. if t_id r = t_id parent then p else r) (db_tasks d)" using f(2) q(5) by simp
    show ?thesis
    proof (rule that[of w2])
      show "keys w2 = keys w" using q(6) by simp
      show "set cs \<subseteq> set (db_tasks (ww_db w2))"
      proof
        fix c assume c: "c \<in> set cs"
        then obtain r where r: "r \<in> set (db_tasks (ww_db w))" "c = f r" using csd f(1) by auto
        have "t_parent c = Some (t_id parent)" using c unfolding cs_def candidate_subtasks_set by simp
        then have "r \<noteq> parent" using own r(2) f(2) by auto
        then have "t_id r \<noteq> t_id parent" using key_eq[OF ids r(1) parent] by blast
        then have "t_id c \<noteq> t_id parent" using r(2) f(2) by simp
        then show "c \<in> set (db_tasks (ww_db w2))" using c csd unfolding t2 by (auto intro!: image_eqI[of _ _ c])
      qed
      show "distinct (map t_id (db_tasks (ww_db w2)))" unfolding t2 by (rule save_keeps_ids[OF _ dd]) (simp add: q(1,5))
      show "\<exists>r \<in> set (db_tasks (ww_db w)). t_id r' = t_id r \<and> t_status r' = t_status r" if r': "r' \<in> set (db_tasks (ww_db w2))" for r'
      proof (cases "r' = p")
        case True
        then show ?thesis using parent q(1,2,5) by (intro bexI[of _ parent]) simp_all
      next
        case False
        then have "r' \<in> set (db_tasks d)" using r' unfolding t2 by (auto split: if_splits)
        then show ?thesis using rows by blast
      qed
      show "identity_ok (identity_of w) \<longrightarrow> identity_ok (identity_of w2)"
      proof
        assume "identity_ok (identity_of w)"
        then have ok: "identity_ok (identity_of ?w1)" using ok1 by simp
        have "owns q (identity_of ?w1)" using fp q(1,3) f(2) unfolding owns_def by (intro allI impI bexI[of _ "f parent"]) simp_all
        from ok_saved(1)[OF ok this] show "identity_ok (identity_of w2)" unfolding q(7) .
      qed
      show "t_branch parent' = t_branch parent" using e(1) q(4,5) by simp
      show "w' = schedule_candidates env fr now parent' (completed_test_scaffold_files (t_id parent) d)
        (dispatch_decisions env (t_id parent) phase d) 0 cs w2" using e by simp
    qed
  qed
qed


text \<open>C16: a scheduling pass changes the status of a row only if it is a candidate: to done when git shows
  its declared work, or when the branch of the very agent it is assigned to is merged into the feature
  branch (with a head of its own, a meaningful difference and no recorded failure of this agent), and to
  in progress or failed when it was ready to run.\<close>

theorem scheduling_settles_soundly:
  assumes "schedule_subtasks env fr now parent phase w = (parent', w')" "host_runner_ok env"
    and "distinct (map t_id (db_tasks (ww_db w)))" "parent \<in> set (db_tasks (ww_db w))" "t_parent parent \<noteq> Some (t_id parent)"
    and "r' \<in> set (db_tasks (ww_db w'))"
  shows "\<exists>r \<in> set (db_tasks (ww_db w)). t_id r' = t_id r \<and> (t_status r' = t_status r
    \<or> (\<exists>c \<in> set (candidate_subtasks env (t_id parent) phase (repaired_db now parent w)). t_id c = t_id r
         \<and> (t_status r' = StatusDone \<and> work_exists env parent (completed_test_scaffold_files (t_id parent) (repaired_db now parent w)) c w'
            \<or> t_status r' \<in> {StatusInProgress, StatusFailed} \<and> ready_to_run env (t_id parent) phase (repaired_db now parent w) c)))"
proof (cases "t_status parent = StatusPaused")
  case True
  then have "w' = w" using assms(1) by (simp add: schedule_subtasks_def)
  then show ?thesis using assms(6) by blast
next
  case False
  let ?d = "repaired_db now parent w"
  let ?cs = "candidate_subtasks env (t_id parent) phase ?d" and ?sc = "completed_test_scaffold_files (t_id parent) ?d"
  from pass_begins[OF assms(1) False assms(3-5)] obtain w2 where w2: "pass_effect env parent' ?sc (dispatch_decisions env (t_id parent) phase ?d) ?cs w2 w'"
    "\<forall>r' \<in> set (db_tasks (ww_db w2)). \<exists>r \<in> set (db_tasks (ww_db w)). t_id r' = t_id r \<and> t_status r' = t_status r"
    "t_branch parent' = t_branch parent"
    by (metis candidates_effect[OF assms(2)] candidates_distinct[OF repaired_distinct[OF assms(3)]])
  from w2(1) assms(6) obtain r2 where r2: "r2 \<in> set (db_tasks (ww_db w2))" "t_id r' = t_id r2" "t_status r' = t_status r2
      \<or> (\<exists>c \<in> set ?cs. t_id c = t_id r2 \<and> settled_as env parent' ?sc (dispatch_decisions env (t_id parent) phase ?d) c w' (t_status r'))"
    unfolding pass_effect_def by blast
  from w2(2) r2(1) obtain r where r: "r \<in> set (db_tasks (ww_db w))" "t_id r2 = t_id r" "t_status r2 = t_status r" by blast
  have "settled_as env parent' ?sc (dispatch_decisions env (t_id parent) phase ?d) c w' st \<Longrightarrow> c \<in> set ?cs \<Longrightarrow>
      st = StatusDone \<and> work_exists env parent ?sc c w' \<or> st \<in> {StatusInProgress, StatusFailed} \<and> ready_to_run env (t_id parent) phase ?d c" for c st
    unfolding settled_as_def start_statuses_def using may_start_ready[OF repaired_distinct[OF assms(3)]] work_exists_cong[OF w2(3)] by blast
  then show ?thesis using r2(2,3) r by metis
qed

text \<open>A scheduling pass keeps the worker identities well-formed, unless an image is missing.\<close>

theorem scheduling_keeps_identity:
  assumes "schedule_subtasks env fr now parent phase w = (parent', w')" "host_runner_ok env" "images_available (sc_exit env)"
    and "identity_ok (identity_of w)" "parent \<in> set (db_tasks (ww_db w))" "t_parent parent \<noteq> Some (t_id parent)"
  shows "identity_ok (identity_of w')"
proof (cases "t_status parent = StatusPaused")
  case True
  then show ?thesis using assms(1,4) by (simp add: schedule_subtasks_def)
next
  case False
  have ids: "distinct (map t_id (db_tasks (ww_db w)))" using assms(4) by (simp add: identity_ok_def)
  from pass_begins[OF assms(1) False ids assms(5,6)] obtain w2 where "identity_ok (identity_of w2)"
    "pass_effect env parent' (completed_test_scaffold_files (t_id parent) (repaired_db now parent w))
       (dispatch_decisions env (t_id parent) phase (repaired_db now parent w))
       (candidate_subtasks env (t_id parent) phase (repaired_db now parent w)) w2 w'"
    by (metis assms(4) candidates_effect[OF assms(2)] candidates_distinct[OF repaired_distinct[OF ids]])
  then show ?thesis using assms(3) unfolding pass_effect_def by blast
qed

end
