(* ===== verification/SubtaskLaunch.thy ===== *)
theory SubtaskLaunch
  imports SchedulingProperties
begin

text \<open>
  A subtask that may run does start: the scheduling step of a candidate ends with the row in progress,
  assigned to the new agent, and the attempt running in the container that the spawner has started.
  The examples of the scheduling pass follow.
\<close>

section \<open>Progress\<close>

lemma reserve_succeeds:
  assumes "reservable agent attempt r s" "distinct (map t_id (is_tasks s))"
  shows "reserve_transaction agent attempt now r s = Inr (reservation_of agent attempt r, reserved_store agent attempt now r s)"
proof -
  from assms(1) obtain t where t: "t \<in> set (is_tasks s)" "t_id t = sr_task r" "t_agent t = None" by (auto simp: reservable_def)
  have "filter (\<lambda>x. t_id x = sr_task r \<and> t_agent x = None) (is_tasks s) = filter (\<lambda>x. t_id x = t_id t) (is_tasks s)"
    by (rule filter_cong[OF refl]) (use key_eq[OF assms(2) _ t(1)] t(2,3) in auto)
  then have one: "length (filter (\<lambda>x. t_id x = sr_task r \<and> t_agent x = None) (is_tasks s)) = 1"
    using one_row[OF assms(2) t(1)] by simp
  let ?s1 = "s\<lparr>is_tasks := map (\<lambda>t. if t_id t = sr_task r \<and> t_agent t = None then t\<lparr>t_agent := Some agent, t_updated := now\<rparr> else t) (is_tasks s)\<rparr>"
  let ?s2 = "?s1\<lparr>is_agents := is_agents ?s1 @ [reserved_agent agent now r]\<rparr>"
  have c: "claim_task now (sr_task r) agent s = Inr ?s1" using one by (simp add: claim_task_Inr)
  have a: "create_agent (reserved_agent agent now r) ?s1 = Inr ?s2"
    using assms(1) by (simp add: create_agent_Inr reservable_def reserved_agent_def)
  have "attempt \<notin> at_id ` set (is_attempts (supersede_attempts now r ?s2))"
    using assms(1) by (auto simp: supersede_attempts_def tbl_update_def reservable_def)
  then have "create_attempt (new_attempt attempt now r (Some agent) [] WorkerAttemptReserved) (supersede_attempts now r ?s2)
      = Inr ((supersede_attempts now r ?s2)\<lparr>is_attempts := is_attempts (supersede_attempts now r ?s2)
          @ [new_attempt attempt now r (Some agent) [] WorkerAttemptReserved]\<rparr>)" (is "_ = Inr ?s3")
    unfolding create_attempt_Inr by (simp add: new_attempt_def)
  then have "reserve_transaction agent attempt now r s = Inr (reservation_of agent attempt r, ?s3)"
    unfolding reserve_transaction_def c res_bind_simps a by (simp only: res_bind_simps)
  with reserve_transaction_Inr(5)[OF this] show ?thesis by (simp add: reserved_store_def)
qed

lemma spawn_succeeds:
  assumes "reservable (fr ''agent'' 0) (fr ''attempt'' 0) r s" "distinct (map t_id (is_tasks s))" "busy 0 = None" "\<And>res. answer res = Inr k"
  shows "spawn_worker busy fr now r answer s
    = (Inr (spawned_handle (fr ''agent'' 0) (fr ''attempt'' 0) r k), Some (fr ''agent'' 0), finalized_store (fr ''agent'' 0) (fr ''attempt'' 0) now r k s)"
proof -
  have "reserve_spawn busy fr now r s = Inr (reservation_of (fr ''agent'' 0) (fr ''attempt'' 0) r, reserved_store (fr ''agent'' 0) (fr ''attempt'' 0) now r s)"
    using reserve_succeeds[OF assms(1,2)] assms(3) by (simp add: reserve_spawn_def eval_nat_numeral)
  then show ?thesis using finalize_reserved[OF assms(1)] assms(4) by (simp add: spawn_worker_def reservation_of_def)
qed

text \<open>The spawner starts the container \<open>k\<close> for the subtask, and the identifiers are new.\<close>

definition spawnable :: "exit_env \<Rightarrow> fresh \<Rightarrow> task \<Rightarrow> string \<Rightarrow> string \<Rightarrow> worker_world \<Rightarrow> bool" where
  "spawnable env fr sub role k w \<longleftrightarrow> xe_spawner env \<and> xe_busy env 0 = None
     \<and> (\<exists>r answer. xe_prepare env sub role = Inr (r, answer) \<and> (\<forall>res. answer res = Inr k))
     \<and> fr ''agent'' 0 \<notin> ag_id ` set (ww_agents w) \<and> fr ''attempt'' 0 \<notin> at_id ` set (ww_attempts w)
     \<and> fr ''claim event'' 0 \<notin> te_id ` set (db_events (ww_db w)) \<and> fr ''claim event'' 0 \<noteq> fr ''spawn event'' 0"

lemma add_event_ids: "te_id ` set (db_events (ww_db (add_event ev w))) \<subseteq> insert (te_id ev) (te_id ` set (db_events (ww_db w)))"
  by (auto simp: add_event_def create_event_def res_simps tbl_create_Inr split: sum.splits)

text \<open>The worker that a subtask has got\<close>

definition runs_in :: "uuid \<Rightarrow> uuid \<Rightarrow> uuid \<Rightarrow> string \<Rightarrow> worker_world \<Rightarrow> bool" where
  "runs_in i agent attempt k w \<longleftrightarrow>
     (\<exists>r \<in> set (db_tasks (ww_db w)). t_id r = i \<and> t_status r = StatusInProgress \<and> t_agent r = Some agent)
     \<and> (\<exists>g \<in> set (ww_agents w). ag_id g = agent \<and> ag_task g = Some i \<and> ag_status g = AgentWorking \<and> ag_session g = k)
     \<and> (\<exists>x \<in> set (ww_attempts w). at_id x = attempt \<and> at_task x = i \<and> at_agent x = Some agent
          \<and> at_state x = WorkerAttemptRunning \<and> at_container x = k)"

lemma dispatch_succeeds:
  assumes "spawnable env fr sub role k w" "distinct (map t_id (db_tasks (ww_db w)))" "sub \<in> set (db_tasks (ww_db w))"
    and "t_agent sub = None" "startable sub" "t_id sub \<noteq> uuid_Nil"
  shows "\<exists>w'. dispatch_subtask_via_spawner env fr now sub role w = (Inr (), w') \<and> runs_in (t_id sub) (fr ''agent'' 0) (fr ''attempt'' 0) k w'"
proof -
  let ?a = "fr ''agent'' 0" and ?x = "fr ''attempt'' 0"
  from assms(1) obtain r0 answer where sp: "xe_spawner env" "xe_busy env 0 = None" "xe_prepare env sub role = Inr (r0, answer)"
    "\<And>res. answer res = Inr k" "?a \<notin> ag_id ` set (ww_agents w)" "?x \<notin> at_id ` set (ww_attempts w)"
    "fr ''claim event'' 0 \<notin> te_id ` set (db_events (ww_db w))" "fr ''claim event'' 0 \<noteq> fr ''spawn event'' 0"
    unfolding spawnable_def by blast
  let ?r = "r0\<lparr>sr_task := t_id sub, sr_type := role\<rparr>" and ?s = "identity_of w"
  have rs: "reservable ?a ?x ?r ?s" using assms(3,4) sp(5,6) by (auto simp: reservable_def)
  have ids: "distinct (map t_id (is_tasks ?s))" using assms(2) by simp
  note sw = spawn_succeeds[where fr = fr and busy = "xe_busy env" and answer = answer and k = k and now = now, OF rs ids sp(2,4)]
  let ?f = "finalized_store ?a ?x now ?r k ?s" and ?h = "spawned_handle ?a ?x ?r k"
  obtain w1 where w1: "w1 = record_spawn_event (fr ''spawn event'' 0) now (sub\<lparr>t_agent := Some ?a\<rparr>) role ?r ?h (with_identity ?f w)" by blast
  have typed: "spawn_typed_worker env fr now sub role w = (Inr ?h, sub\<lparr>t_agent := Some ?a\<rparr>, w1)"
    using sp(1) by (simp add: spawn_typed_worker_def Let_def sp(3) sw spawn_report_def w1)
  have i1: "identity_of w1 = ?f" by (simp add: w1)
  have t1: "db_tasks (ww_db w1) = map (claimed now (t_id sub) ?a) (db_tasks (ww_db w))"
    and a1: "ww_agents w1 = ww_agents w @ [(reserved_agent ?a now ?r)\<lparr>ag_session := k\<rparr>]"
    and x1: "ww_attempts w1 = map (superseded now ?r) (ww_attempts w) @ [new_attempt ?x now ?r (Some ?a) k WorkerAttemptRunning]"
    using arg_cong[OF i1, of is_tasks] arg_cong[OF i1, of is_agents] arg_cong[OF i1, of is_attempts]
    by (simp_all add: finalized_store_def)
  have d1: "distinct (map t_id (db_tasks (ww_db w1)))" unfolding t1 using assms(2) by (simp add: comp_def)
  let ?sub = "sub\<lparr>t_agent := Some ?a, t_updated := now\<rparr>"
  have in1: "?sub \<in> set (db_tasks (ww_db w1))"
    unfolding t1 using assms(3,4) by (auto simp: claimed_def intro!: image_eqI[of _ _ sub])
  have ld: "load_task (t_id sub) (ww_db w1) = Inr ?sub"
    using load_task_unique[OF uniq_tasks_distinct[THEN iffD2, OF d1] in1] by simp
  have other: "\<forall>y \<in> set (ww_agents w). ag_id y \<noteq> ?a" using sp(5) by (metis imageI)
  have fa: "find_agent ?a (identity_of w1) = Some ((reserved_agent ?a now ?r)\<lparr>ag_session := k\<rparr>)"
    unfolding find_agent_def identity_of_simps a1 by (rule tbl_first_only) (use other in auto)
  then obtain l where "worker_launch_for_task (t_id sub) role w1 = Inr l"
    unfolding worker_launch_for_task_def ld by (simp add: Let_def)
  then have la: "launch_worker env fr now sub role w = (Inr l, sub\<lparr>t_agent := Some ?a\<rparr>, w1)"
    by (simp add: launch_worker_def typed)
  have agent: "\<exists>g \<in> set (ww_agents w1). ag_id g = ?a \<and> ag_task g = Some (t_id sub) \<and> ag_status g = AgentWorking \<and> ag_session g = k"
    unfolding a1 by (simp add: reserved_agent_def)
  have attempt: "\<exists>x \<in> set (ww_attempts w1). at_id x = ?x \<and> at_task x = t_id sub \<and> at_agent x = Some ?a
      \<and> at_state x = WorkerAttemptRunning \<and> at_container x = k"
    unfolding x1 by (simp add: new_attempt_def)
  show ?thesis
  proof (cases "t_status sub = StatusInProgress")
    case True
    then have "dispatch_subtask_via_spawner env fr now sub role w = (Inr (), w1)"
      using sp(1) by (simp add: dispatch_subtask_via_spawner_def la ld)
    moreover have "runs_in (t_id sub) ?a ?x k w1"
      unfolding runs_in_def using True agent attempt by (intro conjI bexI[OF _ in1]) simp_all
    ultimately show ?thesis by blast
  next
    case False
    then have bl: "t_status sub = StatusBacklog" using assms(5) by (simp add: startable_def)
    have new: "\<forall>e \<in> set (db_events (ww_db w1)). te_id e \<noteq> fr ''claim event'' 0"
    proof -
      have "te_id ` set (db_events (ww_db w1)) \<subseteq> insert (fr ''spawn event'' 0) (te_id ` set (db_events (ww_db w)))"
        unfolding w1 record_spawn_event_def by (rule subset_trans[OF add_event_ids]) (simp add: with_identity_def)
      then have "fr ''claim event'' 0 \<notin> te_id ` set (db_events (ww_db w1))" using sp(7,8) by blast
      then show ?thesis by (metis imageI)
    qed
    have row: "length (filter (cas_match ?sub (t_status ?sub)) (db_tasks (ww_db w1))) = 1"
    proof -
      have "filter (cas_match ?sub (t_status ?sub)) (db_tasks (ww_db w1)) = filter (\<lambda>x. t_id x = t_id ?sub) (db_tasks (ww_db w1))"
      proof (rule filter_cong[OF refl])
        fix x assume x: "x \<in> set (db_tasks (ww_db w1))"
        show "cas_match ?sub (t_status ?sub) x \<longleftrightarrow> t_id x = t_id ?sub"
          using key_eq[OF d1 x in1] unfolding cas_match_def by blast
      qed
      then show ?thesis using one_row[OF d1 in1] by simp
    qed
    have mv: "can_move (t_status ?sub) StatusInProgress" using bl by (simp add: can_move_def validate_transition_def)
    let ?t2 = "?sub\<lparr>t_status := StatusInProgress, t_version := t_version ?sub + 1, t_updated := now\<rparr>"
    from cas_task_transition_success[OF mv _ _ _ _ row new, of "''orchestrator''" "''worker_dispatch''" "''container worker claimed subtask''" now "claim_refs l role"]
    obtain d where cas: "cas_task_transition (fr ''claim event'' 0) now ?sub (t_status ?sub) StatusInProgress ''orchestrator'' ''worker_dispatch''
        ''container worker claimed subtask'' (claim_refs l role) (ww_db w1) = (?t2, Inr d)" using assms(6) by auto
    then have tr: "transition_task_atomic (fr ''claim event'' 0) now ?sub StatusInProgress ''orchestrator'' ''worker_dispatch''
        ''container worker claimed subtask'' (claim_refs l role) (ww_db w1) = (?t2, Inr d)" by (simp add: transition_task_atomic_def)
    have rows: "db_tasks d = cas_rows ?sub (t_status ?sub) ?t2 (db_tasks (ww_db w1))" by (rule settled_rows(1)[OF tr])
    have "task_transition_columns ?t2 ?sub \<in> set (db_tasks d)"
      unfolding rows cas_rows_def using in1 by (auto simp: cas_match_def intro!: image_eqI[of _ _ ?sub])
    then have "runs_in (t_id sub) ?a ?x k (w1\<lparr>ww_db := d\<rparr>)"
      unfolding runs_in_def using agent attempt
      by (intro conjI bexI[of _ "task_transition_columns ?t2 ?sub"]) (simp_all add: task_transition_columns_def)
    moreover have "dispatch_subtask_via_spawner env fr now sub role w = (Inr (), w1\<lparr>ww_db := d\<rparr>)"
      using sp(1) False by (simp add: dispatch_subtask_via_spawner_def la ld tr)
    ultimately show ?thesis by blast
  qed
qed

text \<open>C8: the scheduling step of a free candidate that may start ends with a running worker: if no work for
  it exists already, it needs no preparation, the spawner answers with a container and the identifiers
  are new, then its row is in progress and assigned to the new agent, and its attempt runs in that
  container.\<close>

theorem ready_subtask_starts:
  assumes "spawnable (sc_exit env) fr sub (agent_type_string (subtask_agent_type sub)) k w"
    and "distinct (map t_id (db_tasks (ww_db w)))" "sub \<in> set (db_tasks (ww_db w))"
    and "startable sub" "t_agent sub = None" "t_id sub \<noteq> uuid_Nil"
    and "existing_work_detected env parent scaffolds sub = None" "may_start decisions sub"
    and "\<not> needs_prep env sub" "json_get (t_context sub) ''prep_in_progress'' = None"
  shows "runs_in (t_id sub) (fr ''agent'' 0) (fr ''attempt'' 0) k (schedule_candidate env fr now parent scaffolds decisions sub w)"
proof -
  from dispatch_succeeds[OF assms(1-3,5,4,6)] obtain w' where
    "dispatch_subtask_via_spawner (sc_exit env) fr now sub (agent_type_string (subtask_agent_type sub)) w = (Inr (), w')"
    "runs_in (t_id sub) (fr ''agent'' 0) (fr ''attempt'' 0) k w'" by blast
  moreover have "\<not> is_work_already_merged env sub (feature_dir env parent) w"
    using assms(5) by (simp add: is_work_already_merged_def)
  ultimately show ?thesis
    using assms(7-10)
    by (auto simp: schedule_candidate_def start_subtask_def spawn_unless_prepping_def may_start_def split: option.splits)
qed

section \<open>Examples\<close>

text \<open>A parent in progress with one finished subtask and one that depends on it; git has seen no change.\<close>

definition launch_parent :: task where
  "launch_parent = sample_task\<lparr>t_status := StatusInProgress\<rparr>"

definition launch_world :: worker_world where
  "launch_world = exit_world\<lparr>ww_db := sample_db\<lparr>db_tasks :=
     [launch_parent, (writer ''s0'' [] [])\<lparr>t_status := StatusDone\<rparr>, writer ''s1'' [''s0''] [''a'']]\<rparr>,
     ww_agents := [], ww_attempts := []\<rparr>"

definition launch_env :: schedule_env where
  "launch_env = \<lparr>sc_exit = exit_environment ''0'',
     sc_git = \<lparr>g_worktree = (\<lambda>_. []), g_bare = ''/bare'', g_run = (\<lambda>_ args. GitOk (if hd args = ''diff'' then ''a'' else ''Add login form handler''))\<rparr>,
     sc_feature_path = (\<lambda>f. ''/feature/'' @ f), sc_default_branch = ''main'', sc_experiments = None, sc_runner = None,
     sc_direct_prep = None, sc_run_direct_prep = (\<lambda>_ _. PrepFailed), sc_spawn_agent = (\<lambda>_ _ w. (None, w))\<rparr>"

definition launch_result :: worker_world where
  "launch_result = snd (schedule_subtasks launch_env (\<lambda>_. sample_fresh) 9 launch_parent [] launch_world)"

lemma launch_result_rows:
  "map (\<lambda>t. (t_id t, t_status t, t_agent t)) (db_tasks (ww_db launch_result))
     = [(''t1'', StatusInProgress, None), (''s0'', StatusDone, None), (''s1'', StatusInProgress, Some ''agent'')]
   \<and> keys launch_result = [(''attempt'', ''s1'', 9)]"
  unfolding launch_result_def by code_simp

lemma launch_ids: "distinct (map t_id (db_tasks (ww_db launch_world)))"
  by (simp add: launch_world_def launch_parent_def sample_task_def)

lemma launch_parent_row: "launch_parent \<in> set (db_tasks (ww_db launch_world))" "t_parent launch_parent \<noteq> Some (t_id launch_parent)"
  "t_id launch_parent = ''t1''"
  by (simp_all add: launch_world_def launch_parent_def sample_task_def)

lemma launch_pass:
  obtains p where "schedule_subtasks launch_env (\<lambda>_. sample_fresh) 9 launch_parent [] launch_world = (p, launch_result)"
  unfolding launch_result_def by (metis surj_pair snd_conv)

lemma launch_env_ok: "host_runner_ok launch_env" "images_available (sc_exit launch_env)"
  using exit_environment_ok(1) by (auto simp: host_runner_ok_def launch_env_def)

definition launch_ready :: "uuid \<Rightarrow> bool" where
  "launch_ready i \<longleftrightarrow> (\<exists>c \<in> set (candidate_subtasks launch_env ''t1'' [] (repaired_db 9 launch_parent launch_world)). t_id c = i
     \<and> ready_to_run launch_env ''t1'' [] (repaired_db 9 launch_parent launch_world) c)"


text \<open>The second subtask is assigned to an agent whose branch git shows to be merged.\<close>

definition merged_world :: worker_world where
  "merged_world = launch_world\<lparr>ww_db := sample_db\<lparr>db_tasks :=
     [launch_parent, (writer ''s0'' [] [])\<lparr>t_status := StatusDone\<rparr>, (writer ''s1'' [''s0''] [''a''])\<lparr>t_agent := Some ''a0''\<rparr>]\<rparr>,
     ww_agents := [exit_agent\<lparr>ag_id := ''a0'', ag_branch := ''agent/a0'', ag_status := AgentIdle, ag_task := None\<rparr>]\<rparr>"

definition merged_env :: schedule_env where
  "merged_env = launch_env\<lparr>sc_git := \<lparr>g_worktree = (\<lambda>_. []), g_bare = ''/bare'', g_run = (\<lambda>_ args. GitOk
     (if hd args = ''diff'' then ''a'' else if args = [''rev-parse'', ''HEAD''] then ''def'' else ''abc''))\<rparr>\<rparr>"

definition merged_result :: worker_world where
  "merged_result = snd (schedule_subtasks merged_env (\<lambda>_. sample_fresh) 9 launch_parent [] merged_world)"

lemma merged_rows: "map (\<lambda>t. (t_id t, t_status t)) (db_tasks (ww_db merged_result))
    = [(''t1'', StatusInProgress), (''s0'', StatusDone), (''s1'', StatusDone)]"
  unfolding merged_result_def by code_simp

lemma scheduling_settles_soundly_witness:
  "map (\<lambda>t. (t_id t, t_status t)) (db_tasks (ww_db merged_result)) = [(''t1'', StatusInProgress), (''s0'', StatusDone), (''s1'', StatusDone)]
   \<and> (\<exists>c \<in> set (candidate_subtasks merged_env ''t1'' [] (repaired_db 9 launch_parent merged_world)). t_id c = ''s1''
        \<and> work_exists merged_env launch_parent (completed_test_scaffold_files ''t1'' (repaired_db 9 launch_parent merged_world)) c merged_result)"
proof
  show rows: "map (\<lambda>t. (t_id t, t_status t)) (db_tasks (ww_db merged_result))
      = [(''t1'', StatusInProgress), (''s0'', StatusDone), (''s1'', StatusDone)]" by (rule merged_rows)
  have "(''s1'', StatusDone) \<in> (\<lambda>t. (t_id t, t_status t)) ` set (db_tasks (ww_db merged_result))"
    unfolding set_map[symmetric] rows by simp
  then obtain r' where r': "r' \<in> set (db_tasks (ww_db merged_result))" "t_id r' = ''s1''" "t_status r' = StatusDone" by auto
  obtain p where p: "schedule_subtasks merged_env (\<lambda>_. sample_fresh) 9 launch_parent [] merged_world = (p, merged_result)"
    unfolding merged_result_def by (metis surj_pair snd_conv)
  have ok: "host_runner_ok merged_env" "distinct (map t_id (db_tasks (ww_db merged_world)))"
    "launch_parent \<in> set (db_tasks (ww_db merged_world))"
    by (auto simp: host_runner_ok_def merged_env_def launch_env_def merged_world_def launch_parent_def sample_task_def)
  have s1: "\<forall>r \<in> set (db_tasks (ww_db merged_world)). t_id r = ''s1'' \<longrightarrow> t_status r = StatusBacklog"
    by (simp add: merged_world_def launch_parent_def sample_task_def writer_def sample_owner_def)
  from scheduling_settles_soundly[OF p ok launch_parent_row(2) r'(1)] s1
  show "\<exists>c \<in> set (candidate_subtasks merged_env ''t1'' [] (repaired_db 9 launch_parent merged_world)). t_id c = ''s1''
        \<and> work_exists merged_env launch_parent (completed_test_scaffold_files ''t1'' (repaired_db 9 launch_parent merged_world)) c merged_result"
    unfolding launch_parent_row(3) using r'(2,3) by auto
qed

lemma scheduling_keeps_identity_witness:
  "identity_ok (identity_of launch_result) \<and> map (\<lambda>g. (ag_id g, ag_task g)) (ww_agents launch_result) = [(''agent'', Some ''s1'')]"
proof
  have "identity_ok (identity_of launch_world)"
    by (simp add: identity_ok_def identity_of_def launch_world_def launch_parent_def sample_task_def writer_def sample_owner_def)
  moreover obtain p where "schedule_subtasks launch_env (\<lambda>_. sample_fresh) 9 launch_parent [] launch_world = (p, launch_result)" by (rule launch_pass)
  ultimately show "identity_ok (identity_of launch_result)"
    using scheduling_keeps_identity[OF _ launch_env_ok _ launch_parent_row(1,2)] by blast
  show "map (\<lambda>g. (ag_id g, ag_task g)) (ww_agents launch_result) = [(''agent'', Some ''s1'')]"
    unfolding launch_result_def by code_simp
qed

lemma ready_subtask_starts_witness:
  "runs_in ''s1'' ''agent'' ''attempt'' ''c2''
     (schedule_candidate launch_env sample_fresh 9 launch_parent [] [] (writer ''s1'' [''s0''] [''a'']) launch_world)"
proof -
  let ?c = "writer ''s1'' [''s0''] [''a'']"
  have c: "t_context ?c = Some [''writable_files'' \<mapsto> GStrs [''a'']]" "t_status ?c = StatusBacklog" "t_agent ?c = None"
    by (simp_all add: writer_def sample_owner_def sample_task_def)
  have f: "sample_fresh s 0 = s" for s by (simp add: sample_fresh_def)
  have "runs_in (t_id ?c) (sample_fresh ''agent'' 0) (sample_fresh ''attempt'' 0) ''c2''
     (schedule_candidate launch_env sample_fresh 9 launch_parent [] [] ?c launch_world)"
  proof (rule ready_subtask_starts[OF _ launch_ids])
    show "spawnable (sc_exit launch_env) sample_fresh ?c (agent_type_string (subtask_agent_type ?c)) ''c2'' launch_world"
      unfolding spawnable_def f by (simp add: launch_env_def exit_environment_def launch_world_def sample_db_def)
    show "?c \<in> set (db_tasks (ww_db launch_world))" by (simp add: launch_world_def)
    show "existing_work_detected launch_env launch_parent [] ?c = None"
      by (simp add: existing_work_detected_def get_estimated_files_def extract_file_list_def c json_get_def)
    show "\<not> needs_prep launch_env ?c" by (simp add: needs_prep_def c json_get_def)
  qed (simp_all add: startable_def c uuid_Nil_def may_start_def json_get_def)
  then show ?thesis unfolding f by simp
qed

text \<open>A subtask is accepted as done although its dependency is not: the fast path comes before the
  decision, and git shows its file and a commit that resembles its title.\<close>

definition shortcut_world :: worker_world where
  "shortcut_world = launch_world\<lparr>ww_db := sample_db\<lparr>db_tasks :=
     [launch_parent, (writer ''s0'' [] [''b''])\<lparr>t_status := StatusBacklog\<rparr>,
      (writer ''s1'' [''s0''] [''a''])\<lparr>t_title := ''Login form validation'', t_context := Some [''estimated_files'' \<mapsto> GStrs [''a'']]\<rparr>]\<rparr>\<rparr>"

lemma shortcut_before_dependencies:
  "map (\<lambda>t. (t_id t, t_status t)) (db_tasks (ww_db (snd (schedule_subtasks launch_env (\<lambda>_. sample_fresh) 9 launch_parent [] shortcut_world))))
     = [(''t1'', StatusInProgress), (''s0'', StatusInProgress), (''s1'', StatusDone)]"
  by code_simp

text \<open>The keywords come in the order of the title, and one keyword is enough for a title that has only one.\<close>

lemma keywords_unsorted: "extract_keywords ''Validate the login form'' = [''validate'', ''login'', ''form'']"
  by code_simp

lemma single_keyword_suffices: "has_existing_work [''a''] [''a''] [''Rework login page''] ''Login''"
  by code_simp

end
