(* ===== verification/Spec2Isabelle.thy ===== *)
theory Spec2Isabelle
  imports DeliveryProperties MergerTool GqProperties ReviewGateProperties SubtaskLaunch
begin

text \<open>
  A model of the decision-making core of the drem orchestrator, in theories that follow the Go
  packages, with the properties that make it correct.

  \<^bold>\<open>The program.\<close>  The orchestrator moves tasks through a state machine kept in a SQL database.
  A top-level task is planned, split into subtasks, implemented by workers in containers, and then
  delivered: its branch is frozen into an artifact after a gate run, verified by an independent
  party, authorized for integration, merged by a merger container, and done only when git shows the
  artifact's commit below the target ref.  The plan is validated, reviewed (by a person or by an
  automated gate) and materialized as subtasks, whose tests are written and reviewed first.  Subtasks
  are dispatched in waves that avoid file conflicts, each to a worker whose identity and attempts are
  recorded, and whose exit completes, replaces, continues or fails it.  A parent moves on when its
  subtasks are ready and no constraint has got worse.  Every call to the language model goes through a queueing proxy with priorities,
  deficit round robin, aging and a circuit breaker.

  \<^bold>\<open>Conventions.\<close>  A database is a record of tables, a table a list of rows; unique indexes are the
  \<open>_conflict\<close> relations of \<open>Rows\<close> and a create fails on a collision.  A transaction is a
  function that answers an error or a new database, so an error is a rollback.  A UUID is its text,
  a time an integer with 0 for the zero time, \<open>map[string]any\<close> a \<open>json_field\<close> over \<open>gany\<close>.  An
  operation that can fail answers \<open>err + 'a\<close>; where the caller's copy of a task is changed too, it is
  part of the result.  Strings are byte lists.  Log lines and events to the terminal are left out.

  \<^bold>\<open>Parameters.\<close>  \<open>fresh\<close> is the supply of UUIDs (call site and count), \<open>now\<close> the clock, \<open>hash\<close>
  the SHA-256 of a canonical request, \<open>g\<close> the answers of git, \<open>spawn\<close> and \<open>await\<close> the container
  service, \<open>advise\<close> the supervisor model's notes, \<open>parse_id\<close> and \<open>parse_time\<close> library parsers,
  \<open>sortq\<close> the unstable \<open>sort.Slice\<close>, \<open>ord\<close> the iteration order of a Go map, \<open>gone\<close> the cancelled
  requests, \<open>rate_ok\<close> the floating point rate limiter, \<open>stream_of\<close> the JSON decoding of one flag.
  The other parts of the surroundings are records of functions: \<open>merger_host\<close> (git and the gate
  commands of the merger), \<open>file_system\<close> (the names of the worktree), \<open>constraint_host\<close> and
  \<open>gate_env\<close> (trees, tools, configuration, clock and jitter of the constraint gate),
  \<open>readiness_env\<close>, \<open>plan_host\<close> and \<open>plan_env\<close> (hashes and JSON texts), \<open>review_env\<close> (the reviewer
  model), \<open>exit_env\<close> (containers, the preparation of a worker, the processing of a finished agent)
  and \<open>schedule_env\<close> (experiments, the preparation model, the runner).

  \<^bold>\<open>Theories.\<close>
  \<^item> \<open>Prelude\<close>: errors, checks, JSON values, strings and list lemmas; the collection \<open>res_simps\<close>
    inverts successful results.
  \<^item> \<open>Model\<close>, \<open>Rows\<close>, \<open>Tables\<close>: \<open>internal/model\<close> and \<open>internal/db/db.go\<close>.  Enumerations with
    parsers, rows, indexes, and the statements \<open>First\<close>, \<open>Create\<close>, \<open>Updates\<close>.  \<open>Tables\<close> holds the
    locale of a uniquely indexed table, interpreted for every table.
  \<^item> \<open>StateMachine\<close>: \<open>internal/state/machine.go\<close>.  The transition table, guarded transitions and
    the exceptions for subtasks; which paths lead to done.
  \<^item> \<open>TaskTransitions\<close>: \<open>task_transitions.go\<close>, \<open>delivery_claim.go\<close>, \<open>codex_adoption.go\<close>.  Every
    compare-and-swap of a task row with its audit event; exclusiveness and in-memory effects.
  \<^item> \<open>DeliveryValidation\<close>, \<open>HostRework\<close>, \<open>ReworkRouting\<close>: request validation, host rework sessions
    with path scopes, and the repair children of an orchestrated rework.
  \<^item> \<open>Delivery\<close>, \<open>MergePreflight\<close>, \<open>Archive\<close>: freeze, verify, authorize, rework, preflight,
    completion and recovery, and the archive handler of \<open>internal/orchhttp\<close>.
  \<^item> \<open>DeliveryProtocol\<close>, \<open>DeliverySteps\<close>: the invariant that ties the status of a task to its
    evidence rows, its preservation by every operation, the step relation \<open>delivery_step\<close> and the
    reachable databases.
  \<^item> \<open>DeliveryRun\<close>, \<open>DeliveryProperties\<close>: a concrete run from creation to done, and the properties
    of reachable databases and of single operations.
  \<^item> \<open>RetryBudget\<close>, \<open>MergeExecution\<close>: \<open>retry_policy.go\<close>, \<open>failure_budget.go\<close>,
    \<open>merge_execution.go\<close>, \<open>merge_dispatch.go\<close>.  Backoff on 64-bit words, failure classes and
    budgets; one tick of a merging task, the spawn of the merger and the routing of its outcome.
  \<^item> \<open>MergerTool\<close>: \<open>internal/merger\<close> and \<open>cmd/drem-merger\<close>, the program the spawned container
    runs: its flags, the fixed order fetch, merge, build, test, push with the check that neither ref
    has moved, and the exit codes; \<open>merger_host\<close> answers for git and the gate commands.
  \<^item> \<open>PlanModel\<close>, \<open>PlanGraph\<close>, \<open>PlanProperties\<close>: \<open>plan_validation.go\<close> and the dependencies
    \<open>MergeTDDDependencies\<close> adds; \<open>PlanExecution\<close>, \<open>PlanApproval\<close>, \<open>ApprovalProperties\<close>:
    \<open>parsePlan\<close>, the execution manifest, and approval, rejection, revision and deletion.
  \<^item> \<open>TestReview\<close>, \<open>TestReviewProperties\<close>: approval and rejection of the written tests;
    \<open>ReviewGate\<close>, \<open>ReviewGateProperties\<close>: \<open>review_policy.go\<close>, the automated gate of both reviews.
  \<^item> \<open>Constraints\<close>: \<open>internal/constraints\<close>; \<open>ConstraintGate\<close>: \<open>constraint_gate_policy.go\<close>.
  \<^item> \<open>ParentReadiness\<close>, \<open>ReadinessProperties\<close>: \<open>parent_readiness.go\<close>, \<open>checkFeatureCompletion\<close>,
    \<open>reconcile_parents.go\<close> and the repair of dependencies on superseded tests.
  \<^item> \<open>WorkerIdentity\<close>, \<open>WorkerIdentityProperties\<close>: \<open>internal/workeridentity\<close>, with the transition
    system of its callers; \<open>WorkerExits\<close>, \<open>WorkerExitProperties\<close>, \<open>CheckpointContinuation\<close>:
    \<open>docker_events.go\<close> and \<open>checkpoint_resume.go\<close>.
  \<^item> \<open>SubtaskScheduling\<close>, \<open>SchedulingProperties\<close>, \<open>SubtaskLaunch\<close>: \<open>subtask_scheduling.go\<close>,
    \<open>dedup.go\<close>, \<open>worker_launch.go\<close> and \<open>task_prep.go\<close>.  A scheduling pass over the subtasks of a
    parent, on top of the dispatch decisions, the repair, the spawn and the state machine.
  \<^item> \<open>Scheduling\<close>, \<open>WaveSchedule\<close>, \<open>WaveOrder\<close>, \<open>ScheduleProperties\<close>: \<open>scheduler.go\<close>.  Dispatch
    decisions, the conflict graph, Kahn's order and the greedy colouring.
  \<^item> \<open>GqItem\<close>, \<open>GqBreaker\<close>, \<open>GqScheduler\<close>, \<open>GqStats\<close>, \<open>GqServer\<close>: \<open>internal/gq\<close> and
    \<open>cmd/gq/main.go\<close>; \<open>GqQueue\<close> (lane invariants), \<open>GqPick\<close> (refinement of an abstract queue),
    \<open>GqFair\<close> (deficits and progress), \<open>GqProxy\<close> (the locale of a request queue and its
    interpretation by the scheduler), \<open>GqProperties\<close>.

  \<^bold>\<open>What is shown.\<close>  Delivery: a finished top-level task has a complete chain of evidence about one
  commit; evidence is append-only; requests are idempotent; versions are single; git's word alone
  completes a merge, also across a whole merge tick; the transient failures of a dispatched merger end
  after five ticks.
  Plans: a valid plan is acyclic and pairs implementations with tests, cycles are found exactly, an
  approved plan is materialized entry by entry, and its subtasks do not block each other for good if
  only integrations depend on integrations and no dependency is listed twice.  Reviews: the
  automated gate approves only on a review that is safe, a rejection replaces every test in its lane.
  Parents: readiness is a closed condition, a parent is testing ready only with complete children, and
  the constraint gate ends.  Workers: the identities are well-formed in every reachable store and
  under all deaths of workers, ended attempts never change, a late exit is harmless, and replacements
  are bounded.  Scheduling: approved candidates respect dependencies, waves and file conflicts,
  schedules are partitions with sound waves as soon as some subtask names its files; a pass starts workers only for subtasks that are ready,
  changes no other status, and a free subtask that is ready does start.  Proxy: requests and slots are
  conserved, picking refines a queue, is strict in priority while nothing is stale and makes progress, the breaker's cooldown
  is bounded, the statistics are exact.  Some lemmas record defects: a delivery that can no longer be
  frozen after a failed merge, a breaker that stays half-open for ever, a schedule that approves
  conflicting candidates, an automated approval on a review of something else, and an exit handler
  that waits for the mutex it holds (\<open>exit_handling_returns_iff\<close>).

  \<^bold>\<open>Bounds and fuel.\<close>  \<open>topo_loop\<close> runs with as many rounds as there are subtasks, which
  \<open>topological_order_complete\<close> shows to be enough.  \<open>next_free\<close> ends because the colours in use are
  finite.  The searches of a plan's graph and the closure of required subtasks end by measures or by
  growing inside a finite set, \<open>reserve_tries\<close> has the five tries of the code.  All other recursion is
  structural.  Durations and attempt counters are integers except
  for the backoff (64-bit words) and the breaker's doubled cooldown (wrapped to 64 bits).

  \<^bold>\<open>Not modelled.\<close>  Full-row writes of a task outside the delivery operations can change only what
  \<open>same_lifecycle\<close> leaves free in \<open>delivery_step\<close>; in the modelled code they are \<open>save_task\<close>, and
  \<open>retry_save_overwrites\<close> shows what the one of a retried merge overwrites.  The interleaving of
  goroutines inside one operation is not modelled, except in the proxy, whose handler and dispatcher
  are steps, and in the identity store, whose operations are steps of concurrent callers.  Subtasks
  are scheduled with the spawner wired; the host agents and subprocesses of the mode without it, and
  the end of a subprocess preparation, are left out.  Left out are the parts that drive other programs: the
  container service and the spawner, the processing of a finished agent (a parameter of
  the exit handlers, which may launch workers of its own), the model-driven agents, planners and personas, the terminal interface, the
  HTTP handlers that only decode requests, migrations, command line tools and benchmarks.
\<close>

end
